(* ===== verification/Prelude.thy ===== *)
theory Prelude
  imports Main "HOL-Library.List_Lexorder" "HOL-Library.Char_ord" "HOL-Library.Sublist"
begin

text \<open>
  Shared vocabulary of the development.

  \<^item> A JavaScript string is a list of code units. The model's \<open>string\<close> (a list of
    \<open>char\<close>) holds the code units 0 to 255; every operation the modelled code applies to
    strings (equality, length, prefix test, splitting at a separator, comparison by code unit)
    is uniform in the unit, so nothing else depends on that bound.
  \<^item> A function that may throw returns a sum: \<open>Inl\<close> is the thrown error, \<open>Inr\<close> the result.
    \<open>bind_sum\<close> sequences two such steps, \<open>require\<close> is an \<open>if (!p) throw\<close>,
    \<open>map_sum_list\<close> is \<open>xs.map(f)\<close> with a throwing \<open>f\<close>.
  \<^item> \<open>split_on\<close> and \<open>join_with\<close> are \<open>String.prototype.split\<close> and
    \<open>Array.prototype.join\<close> for a one-unit separator.
\<close>

section \<open>Collections of rewrite rules\<close>

named_theorems sum_simps "evaluation and inversion of the error sum"
named_theorems split_simps "splitting and joining of strings"

section \<open>Errors as sums\<close>

definition bind_sum :: "'e + 'a \<Rightarrow> ('a \<Rightarrow> 'e + 'b) \<Rightarrow> 'e + 'b" where
  "bind_sum m f = (case m of Inl e \<Rightarrow> Inl e | Inr a \<Rightarrow> f a)"

definition require :: "bool \<Rightarrow> 'e \<Rightarrow> 'e + unit" where
  "require p e = (if p then Inr () else Inl e)"

fun map_sum_list :: "('a \<Rightarrow> 'e + 'b) \<Rightarrow> 'a list \<Rightarrow> 'e + 'b list" where
  "map_sum_list f [] = Inr []"
| "map_sum_list f (x # xs) =
     (case f x of
        Inl e \<Rightarrow> Inl e
      | Inr y \<Rightarrow> (case map_sum_list f xs of Inl e \<Rightarrow> Inl e | Inr ys \<Rightarrow> Inr (y # ys)))"

fun find_sum :: "('a \<Rightarrow> 'e + bool) \<Rightarrow> 'a list \<Rightarrow> 'e + 'a option" where
  "find_sum p [] = Inr None"
| "find_sum p (x # xs) =
     (case p x of Inl e \<Rightarrow> Inl e | Inr b \<Rightarrow> if b then Inr (Some x) else find_sum p xs)"

fun filter_sum :: "('a \<Rightarrow> 'e + bool) \<Rightarrow> 'a list \<Rightarrow> 'e + 'a list" where
  "filter_sum p [] = Inr []"
| "filter_sum p (x # xs) =
     (case p x of
        Inl e \<Rightarrow> Inl e
      | Inr b \<Rightarrow>
          (case filter_sum p xs of
             Inl e \<Rightarrow> Inl e
           | Inr ys \<Rightarrow> Inr (if b then x # ys else ys)))"

fun for_each_sum :: "('a \<Rightarrow> 'e + unit) \<Rightarrow> 'a list \<Rightarrow> 'e + unit" where
  "for_each_sum f [] = Inr ()"
| "for_each_sum f (x # xs) = (case f x of Inl e \<Rightarrow> Inl e | Inr _ \<Rightarrow> for_each_sum f xs)"

definition is_ok :: "'e + 'a \<Rightarrow> bool" where
  "is_ok m = (case m of Inl _ \<Rightarrow> False | Inr _ \<Rightarrow> True)"

lemma bind_sum_Inl [simp]: "bind_sum (Inl e) f = Inl e"
  and bind_sum_Inr [simp]: "bind_sum (Inr a) f = f a"
  by (simp_all add: bind_sum_def)

lemma bind_sum_eq_Inr [sum_simps]:
  "bind_sum m f = Inr b \<longleftrightarrow> (\<exists>a. m = Inr a \<and> f a = Inr b)"
  by (cases m) auto

lemma bind_sumE:
  assumes "bind_sum m f = Inr b"
  obtains a where "m = Inr a" "f a = Inr b"
  using assms by (auto simp: bind_sum_eq_Inr)

lemma bind_sum_eq_Inl [sum_simps]:
  "bind_sum m f = Inl e \<longleftrightarrow> m = Inl e \<or> (\<exists>a. m = Inr a \<and> f a = Inl e)"
  by (cases m) auto

lemma require_eq_Inr [simp]: "require p e = Inr u \<longleftrightarrow> p"
  by (simp add: require_def)

lemma require_eq_Inl [simp]: "require p e = Inl e' \<longleftrightarrow> \<not> p \<and> e' = e"
  by (auto simp: require_def)

lemma require_True [simp]: "require True e = Inr ()"
  and require_False [simp]: "require False e = Inl e"
  by (simp_all add: require_def)

lemma is_ok_simps [simp]: "is_ok (Inr a)" "\<not> is_ok (Inl e)"
  by (simp_all add: is_ok_def)

lemma is_ok_iff: "is_ok m \<longleftrightarrow> (\<exists>a. m = Inr a)"
  by (cases m) simp_all

lemma map_sum_list_Inr [sum_simps]:
  "map_sum_list f xs = Inr ys \<longleftrightarrow> list_all2 (\<lambda>x y. f x = Inr y) xs ys"
proof (induction xs arbitrary: ys)
  case Nil
  then show ?case by auto
next
  case (Cons x xs)
  show ?case
  proof (cases "f x")
    case (Inl e)
    then show ?thesis by (cases ys) auto
  next
    case (Inr y)
    then show ?thesis
      by (cases "map_sum_list f xs"; cases ys) (auto simp flip: Cons.IH)
  qed
qed

lemma for_each_sum_Inr [sum_simps]:
  "for_each_sum f xs = Inr u \<longleftrightarrow> (\<forall>x\<in>set xs. f x = Inr ())"
  by (induction xs) (auto split: sum.splits)

lemma find_sum_None:
  "find_sum p xs = Inr None \<longleftrightarrow> (\<forall>x\<in>set xs. p x = Inr False)"
  by (induction xs) (auto split: sum.splits)

lemma find_sum_Some: "find_sum p xs = Inr (Some x) \<Longrightarrow> x \<in> set xs \<and> p x = Inr True"
  by (induction xs) (auto split: sum.splits if_splits)

lemma filter_sum_Inr:
  "filter_sum p xs = Inr ys \<Longrightarrow>
   ys = filter (\<lambda>x. p x = Inr True) xs \<and> (\<forall>x\<in>set xs. is_ok (p x))"
  by (induction xs arbitrary: ys) (auto split: sum.splits if_splits)

section \<open>Strings\<close>

definition NUL :: char where
  "NUL = CHR 0x00"

fun split_on :: "'a \<Rightarrow> 'a list \<Rightarrow> 'a list list" where
  "split_on c [] = [[]]"
| "split_on c (x # xs) =
     (if x = c then [] # split_on c xs
      else (case split_on c xs of [] \<Rightarrow> [[x]] | s # ss \<Rightarrow> (x # s) # ss))"

fun join_with :: "'a \<Rightarrow> 'a list list \<Rightarrow> 'a list" where
  "join_with c [] = []"
| "join_with c [s] = s"
| "join_with c (s # t # ss) = s @ c # join_with c (t # ss)"

lemma split_on_nonempty [simp]: "split_on c xs \<noteq> []"
  by (induction xs) (auto split: list.splits)

lemma join_split [split_simps, simp]: "join_with c (split_on c xs) = xs"
proof (induction xs)
  case Nil
  then show ?case by simp
next
  case (Cons x xs)
  then show ?case
    by (cases "split_on c xs"; cases "tl (split_on c xs)") (auto split: list.splits)
qed

lemma split_on_no_sep: "s \<in> set (split_on c xs) \<Longrightarrow> c \<notin> set s"
  by (induction xs arbitrary: s) (auto split: if_splits list.splits)

lemma split_on_append: "c \<notin> set s \<Longrightarrow> split_on c (s @ c # xs) = s # split_on c xs"
  by (induction s) (auto split: list.splits)

lemma split_on_single: "c \<notin> set s \<Longrightarrow> split_on c s = [s]"
  by (induction s) (auto split: list.splits)

lemma split_join [split_simps]:
  "ss \<noteq> [] \<Longrightarrow> \<forall>s\<in>set ss. c \<notin> set s \<Longrightarrow> split_on c (join_with c ss) = ss"
proof (induction c ss rule: join_with.induct)
  case (1 c)
  then show ?case by simp
next
  case (2 c s)
  then show ?case by (simp add: split_on_single)
next
  case (3 c s t ss)
  then show ?case by (simp add: split_on_append)
qed

lemma split_on_inj: "split_on c xs = split_on c ys \<longleftrightarrow> xs = ys"
  by (metis join_split)

text \<open>A separator that does not occur in the left parts makes concatenation injective.\<close>

lemma append_sep_inj:
  "c \<notin> set a \<Longrightarrow> c \<notin> set b \<Longrightarrow> a @ c # x = b @ c # y \<longleftrightarrow> a = b \<and> x = y"
proof (induction a arbitrary: b)
  case Nil
  then show ?case by (cases b) auto
next
  case (Cons z a)
  then show ?case by (cases b) auto
qed

definition nth_opt :: "'a list \<Rightarrow> nat \<Rightarrow> 'a option" where
  "nth_opt xs i = (if i < length xs then Some (xs ! i) else None)"

lemma nth_opt_Some [simp]: "nth_opt xs i = Some x \<longleftrightarrow> i < length xs \<and> xs ! i = x"
  by (auto simp: nth_opt_def)

lemma nth_opt_None [simp]: "nth_opt xs i = None \<longleftrightarrow> length xs \<le> i"
  by (auto simp: nth_opt_def)

lemma nth_opt_in [simp]: "i < length xs \<Longrightarrow> nth_opt xs i = Some (xs ! i)"
  by (simp add: nth_opt_def)

lemma nth_opt_out [simp]: "length xs \<le> i \<Longrightarrow> nth_opt xs i = None"
  by (simp add: nth_opt_def)

lemma nth_opt_Cons_drop: "nth_opt xs i = Some x \<Longrightarrow> drop i xs = x # drop (Suc i) xs"
  by (auto simp: Cons_nth_drop_Suc)

text \<open>\<open>compareCodePointStrings\<close> of the source is the lexicographic order by code unit.\<close>

definition compare_code_point_strings :: "string \<Rightarrow> string \<Rightarrow> int" where
  "compare_code_point_strings l r = (if l < r then -1 else if r < l then 1 else 0)"

lemma compare_code_point_strings_le: "compare_code_point_strings l r \<le> 0 \<longleftrightarrow> l \<le> r"
  by (auto simp: compare_code_point_strings_def)

lemma compare_code_point_strings_eq: "compare_code_point_strings l r = 0 \<longleftrightarrow> l = r"
  by (auto simp: compare_code_point_strings_def)

end
