(* ===== verification/Worklist.thy ===== *)
theory Worklist
  imports Prelude
begin

text \<open>
  The breadth-first worklist loop the source writes four times (the two
  \<open>segmentPatternsOverlap\<close> and the two \<open>globPatternsOverlap\<close>): a queue, a set of visited
  states, and for each fresh state either acceptance or the list of states it pushes.
  The locales state what such a loop needs in order to return, and what it needs in order to
  decide a property of the start state.
\<close>

section \<open>The loop\<close>

text \<open>
  \<open>expand s = None\<close> is the loop body's \<open>return true\<close>; \<open>Some succs\<close> the states it
  pushes at the end of the queue. An empty queue is the final \<open>return false\<close>. The value
  \<open>None\<close> of the whole function would be a loop that never ends.
\<close>

partial_function (option) worklist ::
  "('s \<Rightarrow> 's list option) \<Rightarrow> 's list \<Rightarrow> 's set \<Rightarrow> bool option" where
  "worklist expand queue visited =
     (case queue of
        [] \<Rightarrow> Some False
      | s # rest \<Rightarrow>
          if s \<in> visited then worklist expand rest visited
          else (case expand s of
                  None \<Rightarrow> Some True
                | Some succs \<Rightarrow> worklist expand (rest @ succs) (insert s visited)))"

declare worklist.simps [code]

lemma worklist_Nil [simp]: "worklist expand [] visited = Some False"
  by (simp add: worklist.simps)

lemma worklist_visited [simp]:
  "s \<in> visited \<Longrightarrow> worklist expand (s # rest) visited = worklist expand rest visited"
  by (simp add: worklist.simps [of expand "s # rest"])

lemma worklist_accept [simp]:
  "s \<notin> visited \<Longrightarrow> expand s = None \<Longrightarrow> worklist expand (s # rest) visited = Some True"
  by (simp add: worklist.simps [of expand "s # rest"])

lemma worklist_push [simp]:
  "s \<notin> visited \<Longrightarrow> expand s = Some succs \<Longrightarrow>
   worklist expand (s # rest) visited = worklist expand (rest @ succs) (insert s visited)"
  by (simp add: worklist.simps [of expand "s # rest"])

inductive reachable_from :: "('s \<Rightarrow> 's list option) \<Rightarrow> 's \<Rightarrow> 's \<Rightarrow> bool" for expand where
  here: "reachable_from expand s s"
| step: "expand s = Some succs \<Longrightarrow> t \<in> set succs \<Longrightarrow> reachable_from expand t u \<Longrightarrow>
         reachable_from expand s u"

lemma reachable_from_snoc:
  "reachable_from expand s t \<Longrightarrow> expand t = Some succs \<Longrightarrow> u \<in> set succs \<Longrightarrow>
   reachable_from expand s u"
  by (induction rule: reachable_from.induct) (auto intro: reachable_from.intros)

section \<open>A finite search space: the loop returns, and finds what is reachable\<close>

locale finite_search =
  fixes expand :: "'s \<Rightarrow> 's list option"
    and universe :: "'s set"
    and start :: 's
  assumes finite_universe: "finite universe"
    and start_in: "start \<in> universe"
    and expand_closed: "s \<in> universe \<Longrightarrow> expand s = Some succs \<Longrightarrow> set succs \<subseteq> universe"
begin

definition frontier_ok :: "'s list \<Rightarrow> 's set \<Rightarrow> bool" where
  "frontier_ok queue visited \<longleftrightarrow>
     set queue \<subseteq> universe \<and> visited \<subseteq> universe \<and> start \<in> visited \<union> set queue \<and>
     (\<forall>s\<in>visited \<union> set queue. reachable_from expand start s) \<and>
     (\<forall>s\<in>visited. \<exists>succs. expand s = Some succs \<and> set succs \<subseteq> visited \<union> set queue)"

lemma frontier_ok_start: "frontier_ok [start] {}"
  by (auto simp: frontier_ok_def start_in intro: reachable_from.here)

lemma frontier_ok_push:
  assumes "frontier_ok (s # rest) visited" and "expand s = Some succs"
  shows "frontier_ok (rest @ succs) (insert s visited)"
proof -
  have "s \<in> universe" and "reachable_from expand start s"
    using assms(1) by (auto simp: frontier_ok_def)
  then have "set succs \<subseteq> universe" and "\<forall>t\<in>set succs. reachable_from expand start t"
    using assms(2) expand_closed reachable_from_snoc by metis+
  with assms show ?thesis
    unfolding frontier_ok_def by simp blast
qed

lemma closed_visited:
  assumes "frontier_ok [] visited" and "reachable_from expand s t" and "s \<in> visited"
  shows "t \<in> visited"
  using assms(2,3)
proof (induction rule: reachable_from.induct)
  case (here s)
  then show ?case .
next
  case (step s succs t u)
  from step.prems assms(1) obtain succs' where "expand s = Some succs'" "set succs' \<subseteq> visited"
    unfolding frontier_ok_def by auto
  with step show ?case by auto
qed

lemma frontier_ok_skip: "frontier_ok (s # rest) visited \<Longrightarrow> s \<in> visited \<Longrightarrow> frontier_ok rest visited"
  unfolding frontier_ok_def by (auto simp: insert_absorb)

lemma worklist_from_frontier:
  assumes "frontier_ok queue visited"
  shows "worklist expand queue visited =
         Some (\<exists>s. reachable_from expand start s \<and> expand s = None)"
  using assms
proof (induction "card (universe - visited)" arbitrary: queue visited rule: less_induct)
  case less
  show ?case
    using less.prems
  proof (induction queue)
    case Nil
    have "\<nexists>s. reachable_from expand start s \<and> expand s = None"
      using closed_visited [OF Nil] Nil by (auto simp: frontier_ok_def)
    then show ?case by simp
  next
    case (Cons s rest)
    show ?case
    proof (cases "s \<in> visited")
      case True
      then show ?thesis using Cons by (simp add: frontier_ok_skip)
    next
      case fresh: False
      show ?thesis
      proof (cases "expand s")
        case None
        then show ?thesis using Cons.prems fresh by (auto simp: frontier_ok_def)
      next
        case (Some succs)
        have "universe - insert s visited \<subset> universe - visited"
          using Cons.prems fresh by (auto simp: frontier_ok_def)
        then have "card (universe - insert s visited) < card (universe - visited)"
          by (simp add: finite_universe psubset_card_mono)
        from less.hyps [OF this frontier_ok_push [OF Cons.prems Some]] Some fresh
        show ?thesis by simp
      qed
    qed
  qed
qed

theorem worklist_decides:
  "worklist expand [start] {} = Some (\<exists>s. reachable_from expand start s \<and> expand s = None)"
  by (rule worklist_from_frontier [OF frontier_ok_start])

end

section \<open>A search for a common witness\<close>

text \<open>
  \<open>sound\<close> is a property of states that acceptance gives and that goes backwards along every
  edge; \<open>wit s w\<close> says that \<open>w\<close> explains why \<open>s\<close> should be accepted, and an unaccepted state
  with a witness has a successor with a smaller one. The loop then answers \<open>True\<close> only where
  \<open>sound\<close> holds at the start, and answers \<open>True\<close> wherever the start has a witness.
\<close>

locale witness_search = finite_search expand universe start
  for expand :: "'s \<Rightarrow> 's list option" and universe :: "'s set" and start :: 's +
  fixes sound :: "'s \<Rightarrow> bool"
    and wit :: "'s \<Rightarrow> 'w \<Rightarrow> bool"
    and weight :: "'s \<Rightarrow> 'w \<Rightarrow> nat"
  assumes sound_accept: "s \<in> universe \<Longrightarrow> expand s = None \<Longrightarrow> sound s"
    and sound_back: "s \<in> universe \<Longrightarrow> expand s = Some succs \<Longrightarrow> t \<in> set succs \<Longrightarrow> sound t \<Longrightarrow> sound s"
    and wit_step: "s \<in> universe \<Longrightarrow> wit s w \<Longrightarrow> expand s = Some succs \<Longrightarrow>
       \<exists>t\<in>set succs. \<exists>w'. wit t w' \<and> weight t w' < weight s w"
begin

lemma reachable_universe: "reachable_from expand s t \<Longrightarrow> s \<in> universe \<Longrightarrow> t \<in> universe"
  by (induction rule: reachable_from.induct) (use expand_closed in auto)

lemma accepting_sound:
  "reachable_from expand s t \<Longrightarrow> expand t = None \<Longrightarrow> s \<in> universe \<Longrightarrow> sound s"
proof (induction rule: reachable_from.induct)
  case (here s)
  then show ?case by (simp add: sound_accept)
next
  case (step s succs t u)
  then have "t \<in> universe" using expand_closed by auto
  with step show ?case by (auto intro: sound_back)
qed

lemma witness_reaches:
  "wit s w \<Longrightarrow> s \<in> universe \<Longrightarrow> \<exists>t. reachable_from expand s t \<and> expand t = None"
proof (induction "weight s w" arbitrary: s w rule: less_induct)
  case less
  show ?case
  proof (cases "expand s")
    case None
    then show ?thesis by (auto intro: reachable_from.here)
  next
    case (Some succs)
    with less.prems obtain t w' where t: "t \<in> set succs" "wit t w'" "weight t w' < weight s w"
      using wit_step by blast
    moreover have "t \<in> universe"
      using expand_closed [OF less.prems(2) Some] t(1) by auto
    ultimately obtain u where "reachable_from expand t u" "expand u = None"
      using less.hyps by blast
    with Some t(1) show ?thesis by (blast intro: reachable_from.step)
  qed
qed

theorem search_returns: "\<exists>b. worklist expand [start] {} = Some b"
  using worklist_decides by blast

theorem search_sound: "worklist expand [start] {} = Some True \<Longrightarrow> sound start"
  using worklist_decides start_in accepting_sound by auto

theorem search_complete: "wit start w \<Longrightarrow> worklist expand [start] {} = Some True"
  using worklist_decides start_in witness_reaches by auto

end

end
