(* ===== verification/GlobOverlap.thy ===== *)
theory GlobOverlap
  imports Worklist
begin

text \<open>
  The two glob intersection routines of the source: \<open>globPatternsOverlap\<close> and
  \<open>segmentPatternsOverlap\<close> of src/src/resource-claims.ts (which track whether anything was
  consumed) and of src/src/resource-coordination.ts (which do not). Both are worklist loops
  over pairs of positions. \<open>seg_match\<close> and \<open>path_match\<close> give the meaning of a pattern: the set
  of file names, and of paths, it selects. The interpretations of \<open>witness_search\<close> prove that
  each loop returns and that it answers \<open>true\<close> exactly where some path is selected by both.
\<close>

section \<open>The meaning of patterns\<close>

text \<open>
  A segment pattern: \<open>*\<close> stands for any run of units, \<open>?\<close> for one unit. A path pattern: the
  segment \<open>**\<close> stands for any run of segments.
\<close>

abbreviation star :: char where "star \<equiv> CHR ''*''"
abbreviation qmark :: char where "qmark \<equiv> CHR ''?''"
abbreviation slash :: char where "slash \<equiv> CHR ''/''"

fun seg_match :: "string \<Rightarrow> string \<Rightarrow> bool" where
  "seg_match [] s = (s = [])"
| "seg_match (p # ps) [] = (p = star \<and> seg_match ps [])"
| "seg_match (p # ps) (c # s) =
     (if p = star then seg_match ps (c # s) \<or> seg_match (p # ps) s
      else (p = qmark \<or> p = c) \<and> seg_match ps s)"

fun path_match :: "string list \<Rightarrow> string list \<Rightarrow> bool" where
  "path_match [] w = (w = [])"
| "path_match (p # ps) [] = (p = ''**'' \<and> path_match ps [])"
| "path_match (p # ps) (c # w) =
     (if p = ''**'' then path_match ps (c # w) \<or> path_match (p # ps) w
      else seg_match p c \<and> path_match ps w)"

definition names_ok :: "string list \<Rightarrow> bool" where
  "names_ok w \<longleftrightarrow> (\<forall>s\<in>set w. s \<noteq> [] \<and> slash \<notin> set s)"

text \<open>A resource path is a non-empty sequence of non-empty names separated by \<open>/\<close>.\<close>

definition path_ok :: "string \<Rightarrow> bool" where
  "path_ok path \<longleftrightarrow> names_ok (split_on slash path)"

definition glob_selects :: "string \<Rightarrow> string \<Rightarrow> bool" where
  "glob_selects pattern path \<longleftrightarrow> path_match (split_on slash pattern) (split_on slash path)"

text \<open>What both canonical syntaxes guarantee of a pattern: no empty segment.\<close>

definition pattern_ok :: "string \<Rightarrow> bool" where
  "pattern_ok pattern \<longleftrightarrow> [] \<notin> set (split_on slash pattern)"

subsection \<open>Rules for the match relations\<close>

lemma seg_match_Nil: "seg_match p [] \<longleftrightarrow> (\<forall>c\<in>set p. c = star)"
  by (induction p) auto

lemma seg_match_star_skip: "seg_match ps s \<Longrightarrow> seg_match (star # ps) s"
  by (cases s) auto

lemma seg_match_star_take: "seg_match (star # ps) s \<Longrightarrow> seg_match (star # ps) (c # s)"
  by simp

lemma seg_match_star_Cons:
  "seg_match (star # ps) s \<longleftrightarrow>
     seg_match ps s \<or> (\<exists>c s'. s = c # s' \<and> seg_match (star # ps) s')"
  by (cases s) auto

lemma seg_match_char_Cons:
  "p \<noteq> star \<Longrightarrow>
   seg_match (p # ps) s \<longleftrightarrow> (\<exists>c s'. s = c # s' \<and> (p = qmark \<or> p = c) \<and> seg_match ps s')"
  by (cases s) auto

lemma path_match_Nil: "path_match p [] \<longleftrightarrow> (\<forall>c\<in>set p. c = ''**'')"
  by (induction p) auto

lemma path_match_star_skip: "path_match ps w \<Longrightarrow> path_match (''**'' # ps) w"
  by (cases w) auto

lemma path_match_star_take: "path_match (''**'' # ps) w \<Longrightarrow> path_match (''**'' # ps) (c # w)"
  by simp

lemma path_match_star_Cons:
  "path_match (''**'' # ps) w \<longleftrightarrow>
     path_match ps w \<or> (\<exists>c w'. w = c # w' \<and> path_match (''**'' # ps) w')"
  by (cases w) auto

lemma path_match_seg_Cons:
  "p \<noteq> ''**'' \<Longrightarrow>
   path_match (p # ps) w \<longleftrightarrow> (\<exists>c w'. w = c # w' \<and> seg_match p c \<and> path_match ps w')"
  by (cases w) auto

lemma names_ok_Nil [simp]: "names_ok []"
  and names_ok_Cons [simp]: "names_ok (s # w) \<longleftrightarrow> s \<noteq> [] \<and> slash \<notin> set s \<and> names_ok w"
  by (auto simp: names_ok_def)

text \<open>Every non-empty segment pattern selects some non-empty name.\<close>

fun sample :: "string \<Rightarrow> string" where
  "sample [] = []"
| "sample (p # ps) = (if p = star \<or> p = qmark then CHR ''a'' else p) # sample ps"

lemma seg_match_sample: "seg_match p (sample p)"
  by (induction p) (auto intro: seg_match_star_skip)

lemma sample_name: "slash \<notin> set p \<Longrightarrow> slash \<notin> set (sample p)"
  by (induction p) auto

lemma sample_nonempty: "p \<noteq> [] \<Longrightarrow> sample p \<noteq> []"
  by (cases p) auto

lemma seg_match_somewhere:
  "p \<noteq> [] \<Longrightarrow> slash \<notin> set p \<Longrightarrow> \<exists>s. s \<noteq> [] \<and> slash \<notin> set s \<and> seg_match p s"
  using seg_match_sample sample_name sample_nonempty by blast

section \<open>Segments in resource-claims.ts\<close>

text \<open>The state is \<open>[leftIndex, rightIndex, consumed]\<close>; the pushes are in the source's order.\<close>

fun claim_segment_expand ::
  "string \<Rightarrow> string \<Rightarrow> nat \<times> nat \<times> bool \<Rightarrow> (nat \<times> nat \<times> bool) list option" where
  "claim_segment_expand left right (li, ri, consumed) =
     (if li = length left \<and> ri = length right
      then (if consumed then None else Some [])
      else
        (let leftChar = nth_opt left li; rightChar = nth_opt right ri in
         Some
           ((if leftChar = Some star then [(li + 1, ri, consumed)] else []) @
            (if rightChar = Some star then [(li, ri + 1, consumed)] else []) @
            (if leftChar = Some star \<and> ri < length right then [(li, ri + 1, True)] else []) @
            (if rightChar = Some star \<and> li < length left then [(li + 1, ri, True)] else []) @
            (if li < length left \<and> ri < length right \<and> leftChar \<noteq> Some star \<and> rightChar \<noteq> Some star \<and>
                (leftChar = Some qmark \<or> rightChar = Some qmark \<or> leftChar = rightChar)
             then [(li + 1, ri + 1, True)] else []))))"

definition claim_segment_overlap :: "string \<Rightarrow> string \<Rightarrow> bool" where
  "claim_segment_overlap left right \<longleftrightarrow>
     worklist (claim_segment_expand left right) [(0, 0, False)] {} = Some True"

definition positions :: "'a list \<Rightarrow> 'b list \<Rightarrow> (nat \<times> nat \<times> bool) set" where
  "positions left right = {0..length left} \<times> {0..length right} \<times> UNIV"

definition common_name :: "string \<Rightarrow> string \<Rightarrow> nat \<times> nat \<times> bool \<Rightarrow> string \<Rightarrow> bool" where
  "common_name left right = (\<lambda>(li, ri, consumed) s.
     (consumed \<or> s \<noteq> []) \<and> slash \<notin> set s \<and>
     seg_match (drop li left) s \<and> seg_match (drop ri right) s)"

definition search_weight :: "'a list \<Rightarrow> 'b list \<Rightarrow> nat \<times> nat \<times> bool \<Rightarrow> 'c list \<Rightarrow> nat" where
  "search_weight left right = (\<lambda>(li, ri, consumed) s.
     (length left - li) + (length right - ri) + length s)"

lemma search_weight_left [simp]:
  "li < length left \<Longrightarrow> length s' \<le> length s \<Longrightarrow>
   search_weight left right (Suc li, ri, c) s' < search_weight left right (li, ri, c') s"
  by (auto simp: search_weight_def)

lemma search_weight_right [simp]:
  "ri < length right \<Longrightarrow> length s' \<le> length s \<Longrightarrow>
   search_weight left right (li, Suc ri, c) s' < search_weight left right (li, ri, c') s"
  by (auto simp: search_weight_def)

lemma search_weight_both [simp]:
  "li < length left \<Longrightarrow> ri < length right \<Longrightarrow> length s' \<le> length s \<Longrightarrow>
   search_weight left right (Suc li, Suc ri, c) s' < search_weight left right (li, ri, c') s"
  by (auto simp: search_weight_def)

lemma search_weight_here [simp]:
  "li \<le> length left \<Longrightarrow> ri \<le> length right \<Longrightarrow> length s' < length s \<Longrightarrow>
   search_weight left right (li, ri, c) s' < search_weight left right (li, ri, c') s"
  by (auto simp: search_weight_def)

lemma positions_finite [simp]: "finite (positions left right)"
  by (simp add: positions_def)

lemma positions_iff [simp]:
  "(li, ri, c) \<in> positions left right \<longleftrightarrow> li \<le> length left \<and> ri \<le> length right"
  by (auto simp: positions_def)

lemma drop_cases [consumes 1, case_names at_end item]:
  assumes "i \<le> length xs"
  obtains (at_end) "i = length xs" "drop i xs = []"
  | (item) "i < length xs" "drop i xs = (xs ! i) # drop (Suc i) xs"
  using assms by (cases "i = length xs") (auto simp: Cons_nth_drop_Suc)

subsection \<open>One step of a common name\<close>

text \<open>
  A name selected by both of two segment patterns, not both exhausted: one of the five pushes
  of the loops applies, to the name or (where both sides absorb the same unit) to a shorter one.
\<close>

inductive seg_step :: "string \<Rightarrow> string \<Rightarrow> string \<Rightarrow> bool" where
  skip_left: "seg_match ls s \<Longrightarrow> seg_match r s \<Longrightarrow> seg_step (star # ls) r s"
| skip_right: "seg_match l s \<Longrightarrow> seg_match rs s \<Longrightarrow> seg_step l (star # rs) s"
| take_left: "seg_match (star # ls) s \<Longrightarrow> seg_match rs s \<Longrightarrow> seg_step (star # ls) (rc # rs) (c # s)"
| take_right: "seg_match ls s \<Longrightarrow> seg_match (star # rs) s \<Longrightarrow> seg_step (lc # ls) (star # rs) (c # s)"
| take_both: "lc \<noteq> star \<Longrightarrow> rc \<noteq> star \<Longrightarrow> lc = qmark \<or> rc = qmark \<or> lc = rc \<Longrightarrow>
    seg_match ls s \<Longrightarrow> seg_match rs s \<Longrightarrow> seg_step (lc # ls) (rc # rs) (c # s)"

lemma seg_step_or_both_take:
  assumes "seg_match l (c # s)" and "seg_match r (c # s)"
  shows "seg_step l r (c # s) \<or> (seg_match l s \<and> seg_match r s \<and> s \<noteq> [])"
proof -
  obtain lc ls rc rs where lr: "l = lc # ls" "r = rc # rs"
    using assms by (cases l; cases r) auto
  consider (both) "lc = star" "rc = star" | (left) "lc = star" "rc \<noteq> star"
    | (right) "lc \<noteq> star" "rc = star" | (none) "lc \<noteq> star" "rc \<noteq> star"
    by blast
  then show ?thesis
  proof cases
    case both
    then consider "seg_match ls (c # s)" | "seg_match rs (c # s)"
      | "seg_match l s" "seg_match r s" "s \<noteq> []" | "s = []" "seg_match l []" "seg_match rs []"
      using assms lr by (cases s) (auto simp: seg_match_Nil)
    then show ?thesis
      by cases (use assms both lr in \<open>simp_all add: seg_step.skip_left seg_step.skip_right seg_step.take_left\<close>)
  next
    case left
    then consider "seg_match ls (c # s)" | "seg_match l s" "seg_match rs s"
      using assms lr by auto
    then show ?thesis
      by cases (use assms left lr in \<open>simp_all add: seg_step.skip_left seg_step.take_left\<close>)
  next
    case right
    then consider "seg_match rs (c # s)" | "seg_match ls s" "seg_match r s"
      using assms lr by auto
    then show ?thesis
      by cases (use assms right lr in \<open>simp_all add: seg_step.skip_right seg_step.take_right\<close>)
  next
    case none
    then show ?thesis using assms lr seg_step.take_both [of lc rc ls s rs c] by auto
  qed
qed

lemma seg_step_exists:
  assumes "seg_match l s" and "seg_match r s" and "l \<noteq> [] \<or> r \<noteq> []"
  shows "\<exists>s0. length s0 \<le> length s \<and> set s0 \<subseteq> set s \<and> (s \<noteq> [] \<longrightarrow> s0 \<noteq> []) \<and> seg_step l r s0"
  using assms
proof (induction s)
  case Nil
  then have "seg_step l r []"
    by (cases l; cases r) (auto intro: seg_step.intros)
  then show ?case by auto
next
  case (Cons c s)
  show ?case
  proof (cases "seg_step l r (c # s)")
    case True
    then show ?thesis by blast
  next
    case False
    with seg_step_or_both_take [OF Cons.prems(1,2)]
    have "seg_match l s" "seg_match r s" "s \<noteq> []" by auto
    with Cons.IH Cons.prems(3) obtain s0 where
      "length s0 \<le> length s" "set s0 \<subseteq> set s" "s0 \<noteq> []" "seg_step l r s0"
      by auto
    then show ?thesis by (auto intro!: exI [of _ s0])
  qed
qed

text \<open>The same pushes, read backwards: a name for the pushed position extends to one before it.\<close>

lemma absorb_left:
  assumes "seg_match (star # ls) s" and "seg_match rs s"
  shows "\<exists>c. (c = rc \<or> c = CHR ''a'') \<and> seg_match (star # ls) (c # s) \<and> seg_match (rc # rs) (c # s)"
  using assms by (cases "rc = star \<or> rc = qmark") (auto intro: seg_match_star_skip)

lemma absorb_pair:
  assumes "seg_match ls s" and "seg_match rs s" and "lc \<noteq> star" "rc \<noteq> star"
    and "lc = qmark \<or> rc = qmark \<or> lc = rc"
  shows "\<exists>c. (c = lc \<or> c = rc \<or> c = CHR ''a'') \<and> seg_match (lc # ls) (c # s) \<and> seg_match (rc # rs) (c # s)"
  using assms by (cases "lc = qmark"; cases "rc = qmark") auto

subsection \<open>The loop decides the existence of a common name\<close>

lemma drop_Cons_head:
  "drop i xs = y # ys \<Longrightarrow> i < length xs \<and> xs ! i = y \<and> drop (Suc i) xs = ys"
  by (cases "i < length xs") (auto simp: Cons_nth_drop_Suc [symmetric])

lemma claim_segment_succs:
  "claim_segment_expand left right (li, ri, consumed) = Some succs \<Longrightarrow>
   li < length left \<or> ri < length right \<Longrightarrow>
   t \<in> set succs \<longleftrightarrow>
     nth_opt left li = Some star \<and> t = (li + 1, ri, consumed) \<or>
     nth_opt right ri = Some star \<and> t = (li, ri + 1, consumed) \<or>
     nth_opt left li = Some star \<and> ri < length right \<and> t = (li, ri + 1, True) \<or>
     nth_opt right ri = Some star \<and> li < length left \<and> t = (li + 1, ri, True) \<or>
     li < length left \<and> ri < length right \<and> nth_opt left li \<noteq> Some star \<and> nth_opt right ri \<noteq> Some star \<and>
       (nth_opt left li = Some qmark \<or> nth_opt right ri = Some qmark \<or> nth_opt left li = nth_opt right ri) \<and>
       t = (li + 1, ri + 1, True)"
  by (auto simp: Let_def simp del: nth_opt_in nth_opt_out nth_opt_Some)

lemma claim_segment_back:
  assumes slash: "slash \<notin> set left" "slash \<notin> set right"
    and s: "(li, ri, consumed) \<in> positions left right"
    and exp: "claim_segment_expand left right (li, ri, consumed) = Some succs"
    and t: "t \<in> set succs" and w: "common_name left right t w"
  shows "\<exists>w'. common_name left right (li, ri, consumed) w'"
proof -
  have no_slash: "\<And>i. i < length left \<Longrightarrow> left ! i \<noteq> slash" "\<And>i. i < length right \<Longrightarrow> right ! i \<noteq> slash"
    using slash nth_mem by metis+
  have lr: "li \<le> length left" "ri \<le> length right" using s by auto
  show ?thesis
    using lr(1)
  proof (cases rule: drop_cases)
    case L: at_end
    show ?thesis
      using lr(2)
      by (cases rule: drop_cases)
        (use exp t w L in \<open>auto simp: common_name_def Let_def seg_match_Nil split: if_splits\<close>)
  next
    case L: item
    show ?thesis
      using lr(2)
    proof (cases rule: drop_cases)
      case R: at_end
      then show ?thesis
        using exp t w L by (auto simp: common_name_def Let_def split: if_splits)
    next
      case R: item
      from t exp L R consider
          "left ! li = star" "t = (li + 1, ri, consumed)"
        | "right ! ri = star" "t = (li, ri + 1, consumed)"
        | "left ! li = star" "t = (li, ri + 1, True)"
        | "right ! ri = star" "t = (li + 1, ri, True)"
        | "left ! li \<noteq> star" "right ! ri \<noteq> star" "t = (li + 1, ri + 1, True)"
          "left ! li = qmark \<or> right ! ri = qmark \<or> left ! li = right ! ri"
        by (auto simp: Let_def split: if_splits)
      then show ?thesis
      proof cases
        case 1
        then show ?thesis using w L R by (auto simp: common_name_def intro!: exI [of _ w] seg_match_star_skip)
      next
        case 2
        then show ?thesis using w L R by (auto simp: common_name_def intro!: exI [of _ w] seg_match_star_skip)
      next
        case 3
        with w L R absorb_left [of "drop (Suc li) left" w "drop (Suc ri) right" "right ! ri"]
        obtain c where "c = right ! ri \<or> c = CHR ''a''"
          "seg_match (drop li left) (c # w)" "seg_match (drop ri right) (c # w)"
          by (auto simp: common_name_def)
        with 3 w no_slash(2) [OF R(1)] show ?thesis
          by (auto simp: common_name_def intro!: exI [of _ "c # w"])
      next
        case 4
        with w L R absorb_left [of "drop (Suc ri) right" w "drop (Suc li) left" "left ! li"]
        obtain c where "c = left ! li \<or> c = CHR ''a''"
          "seg_match (drop li left) (c # w)" "seg_match (drop ri right) (c # w)"
          by (auto simp: common_name_def)
        with 4 w no_slash(1) [OF L(1)] show ?thesis
          by (auto simp: common_name_def intro!: exI [of _ "c # w"])
      next
        case 5
        with w L R absorb_pair [of "drop (Suc li) left" w "drop (Suc ri) right" "left ! li" "right ! ri"]
        obtain c where "c = left ! li \<or> c = right ! ri \<or> c = CHR ''a''"
          "seg_match (drop li left) (c # w)" "seg_match (drop ri right) (c # w)"
          by (auto simp: common_name_def)
        with 5 w no_slash(1) [OF L(1)] no_slash(2) [OF R(1)] show ?thesis
          by (auto simp: common_name_def intro!: exI [of _ "c # w"])
      qed
    qed
  qed
qed

lemma claim_segment_forward:
  assumes s: "(li, ri, consumed) \<in> positions left right"
    and exp: "claim_segment_expand left right (li, ri, consumed) = Some succs"
    and w: "common_name left right (li, ri, consumed) w"
  shows "\<exists>t\<in>set succs. \<exists>w'. common_name left right t w' \<and>
           search_weight left right t w' < search_weight left right (li, ri, consumed) w"
proof -
  let ?l = "drop li left" and ?r = "drop ri right"
  have "?l \<noteq> [] \<or> ?r \<noteq> []"
    using s exp w by (auto simp: common_name_def split: if_splits)
  then obtain w0 where w0: "length w0 \<le> length w" "set w0 \<subseteq> set w" "w \<noteq> [] \<longrightarrow> w0 \<noteq> []"
    and step: "seg_step ?l ?r w0"
    using seg_step_exists [of ?l w ?r] w by (auto simp: common_name_def)
  have not_end: "li < length left \<or> ri < length right"
    using \<open>?l \<noteq> [] \<or> ?r \<noteq> []\<close> by auto
  note mem = claim_segment_succs [OF exp not_end]
  have live: "consumed \<or> w0 \<noteq> []" "slash \<notin> set w0"
    using w w0 by (auto simp: common_name_def)
  from step show ?thesis
  proof cases
    case (skip_left ls)
    with drop_Cons_head [OF skip_left(1)] live w0(1)
    have "(li + 1, ri, consumed) \<in> set succs" "common_name left right (li + 1, ri, consumed) w0"
      "search_weight left right (li + 1, ri, consumed) w0 < search_weight left right (li, ri, consumed) w"
      by (simp_all add: mem common_name_def)
    then show ?thesis by blast
  next
    case (skip_right rs)
    with drop_Cons_head [OF skip_right(1)] live w0(1)
    have "(li, ri + 1, consumed) \<in> set succs" "common_name left right (li, ri + 1, consumed) w0"
      "search_weight left right (li, ri + 1, consumed) w0 < search_weight left right (li, ri, consumed) w"
      by (simp_all add: mem common_name_def)
    then show ?thesis by blast
  next
    case (take_left ls s' rs rc c)
    with drop_Cons_head [OF take_left(1)] drop_Cons_head [OF take_left(2)] live w0(1)
    have "(li, ri + 1, True) \<in> set succs" "common_name left right (li, ri + 1, True) s'"
      "search_weight left right (li, ri + 1, True) s' < search_weight left right (li, ri, consumed) w"
      by (simp_all add: mem common_name_def)
    then show ?thesis by blast
  next
    case (take_right ls s' rs lc c)
    with drop_Cons_head [OF take_right(1)] drop_Cons_head [OF take_right(2)] live w0(1)
    have "(li + 1, ri, True) \<in> set succs" "common_name left right (li + 1, ri, True) s'"
      "search_weight left right (li + 1, ri, True) s' < search_weight left right (li, ri, consumed) w"
      by (simp_all add: mem common_name_def)
    then show ?thesis by blast
  next
    case (take_both lc rc ls s' rs c)
    with drop_Cons_head [OF take_both(1)] drop_Cons_head [OF take_both(2)] live w0(1)
    have "(li + 1, ri + 1, True) \<in> set succs" "common_name left right (li + 1, ri + 1, True) s'"
      "search_weight left right (li + 1, ri + 1, True) s' < search_weight left right (li, ri, consumed) w"
      by (simp_all add: mem common_name_def)
    then show ?thesis by blast
  qed
qed

lemma claim_segment_closed:
  "s \<in> positions left right \<Longrightarrow> claim_segment_expand left right s = Some succs \<Longrightarrow>
   set succs \<subseteq> positions left right"
  by (cases s) (auto simp: Let_def split: if_splits)

definition segment_sound :: "string \<Rightarrow> string \<Rightarrow> nat \<times> nat \<times> bool \<Rightarrow> bool" where
  "segment_sound left right s \<longleftrightarrow>
     slash \<in> set left \<or> slash \<in> set right \<or> (\<exists>w. common_name left right s w)"

interpretation claim_segments: witness_search
  "claim_segment_expand left right" "positions left right" "(0, 0, False)"
  "segment_sound left right" "common_name left right" "search_weight left right"
  for left right
proof unfold_locales
  fix s succs t
  assume "s \<in> positions left right" "claim_segment_expand left right s = Some succs"
    "t \<in> set succs" "segment_sound left right t"
  then show "segment_sound left right s"
    by (cases s) (auto simp: segment_sound_def dest: claim_segment_back simp del: claim_segment_expand.simps)
next
  fix s w succs
  assume "s \<in> positions left right" "common_name left right s w"
    "claim_segment_expand left right s = Some succs"
  then show "\<exists>t\<in>set succs. \<exists>w'. common_name left right t w' \<and>
      search_weight left right t w' < search_weight left right s w"
    using claim_segment_forward [of "fst s" "fst (snd s)" "snd (snd s)" left right succs w]
    by (simp del: claim_segment_expand.simps)
next
  fix s
  assume "s \<in> positions left right" "claim_segment_expand left right s = None"
  then show "segment_sound left right s"
    by (cases s) (auto simp: segment_sound_def common_name_def split: if_splits)
qed (auto dest: claim_segment_closed simp del: claim_segment_expand.simps)

lemma claim_segment_overlap_iff:
  assumes "slash \<notin> set left" "slash \<notin> set right"
  shows "claim_segment_overlap left right \<longleftrightarrow>
         (\<exists>s. s \<noteq> [] \<and> slash \<notin> set s \<and> seg_match left s \<and> seg_match right s)"
proof
  assume "claim_segment_overlap left right"
  then have "segment_sound left right (0, 0, False)"
    unfolding claim_segment_overlap_def by (rule claim_segments.search_sound)
  with assms show "\<exists>s. s \<noteq> [] \<and> slash \<notin> set s \<and> seg_match left s \<and> seg_match right s"
    by (auto simp: segment_sound_def common_name_def)
next
  assume "\<exists>s. s \<noteq> [] \<and> slash \<notin> set s \<and> seg_match left s \<and> seg_match right s"
  then obtain s where "common_name left right (0, 0, False) s"
    by (auto simp: common_name_def)
  then show "claim_segment_overlap left right"
    unfolding claim_segment_overlap_def by (rule claim_segments.search_complete)
qed

section \<open>Paths in resource-claims.ts\<close>

fun claim_path_expand ::
  "string list \<Rightarrow> string list \<Rightarrow> nat \<times> nat \<times> bool \<Rightarrow> (nat \<times> nat \<times> bool) list option" where
  "claim_path_expand left right (li, ri, consumed) =
     (if li = length left \<and> ri = length right
      then (if consumed then None else Some [])
      else
        (let leftGlobStar = (nth_opt left li = Some ''**'');
             rightGlobStar = (nth_opt right ri = Some ''**'') in
         Some
           ((if leftGlobStar then [(li + 1, ri, consumed), (li, ri, True)] else []) @
            (if rightGlobStar then [(li, ri + 1, consumed), (li, ri, True)] else []) @
            (if leftGlobStar \<and> rightGlobStar then [(li + 1, ri + 1, consumed)]
             else if length left \<le> li \<or> length right \<le> ri then []
             else if rightGlobStar then [(li + 1, ri, True)]
             else if leftGlobStar then [(li, ri + 1, True)]
             else if claim_segment_overlap (left ! li) (right ! ri) then [(li + 1, ri + 1, True)]
             else []))))"

definition claim_glob_patterns_overlap :: "string \<Rightarrow> string \<Rightarrow> bool" where
  "claim_glob_patterns_overlap left right \<longleftrightarrow>
     worklist (claim_path_expand (split_on slash left) (split_on slash right)) [(0, 0, False)] {} = Some True"

definition common_path :: "string list \<Rightarrow> string list \<Rightarrow> nat \<times> nat \<times> bool \<Rightarrow> string list \<Rightarrow> bool" where
  "common_path left right = (\<lambda>(li, ri, consumed) w.
     (consumed \<or> w \<noteq> []) \<and> names_ok w \<and> path_match (drop li left) w \<and> path_match (drop ri right) w)"

text \<open>The two segment lists as \<open>split\<close> returns them for canonical patterns.\<close>

definition segments_ok :: "string list \<Rightarrow> bool" where
  "segments_ok ps \<longleftrightarrow> ps \<noteq> [] \<and> (\<forall>p\<in>set ps. p \<noteq> [] \<and> slash \<notin> set p)"

definition path_sound :: "string list \<Rightarrow> string list \<Rightarrow> nat \<times> nat \<times> bool \<Rightarrow> bool" where
  "path_sound left right = (\<lambda>(li, ri, consumed).
     segments_ok left \<and> segments_ok right \<longrightarrow>
     (\<exists>w. names_ok w \<and> path_match (drop li left) w \<and> path_match (drop ri right) w))"

lemma segments_ok_nth: "segments_ok ps \<Longrightarrow> i < length ps \<Longrightarrow> ps ! i \<noteq> [] \<and> slash \<notin> set (ps ! i)"
  by (auto simp: segments_ok_def)

text \<open>
  A path selected by both of two segment lists, not both exhausted: one of the pushes applies to
  the path, or both sides absorb its first name in a \<open>**\<close>.
\<close>

inductive path_step :: "string list \<Rightarrow> string list \<Rightarrow> string list \<Rightarrow> bool" where
  skip_left: "path_match ls w \<Longrightarrow> path_match r w \<Longrightarrow> path_step (''**'' # ls) r w"
| skip_right: "path_match l w \<Longrightarrow> path_match rs w \<Longrightarrow> path_step l (''**'' # rs) w"
| take_left: "rc \<noteq> ''**'' \<Longrightarrow> path_match (''**'' # ls) w \<Longrightarrow> path_match rs w \<Longrightarrow> seg_match rc c \<Longrightarrow>
    path_step (''**'' # ls) (rc # rs) (c # w)"
| take_right: "lc \<noteq> ''**'' \<Longrightarrow> path_match ls w \<Longrightarrow> path_match (''**'' # rs) w \<Longrightarrow> seg_match lc c \<Longrightarrow>
    path_step (lc # ls) (''**'' # rs) (c # w)"
| take_both: "lc \<noteq> ''**'' \<Longrightarrow> rc \<noteq> ''**'' \<Longrightarrow> seg_match lc c \<Longrightarrow> seg_match rc c \<Longrightarrow>
    path_match ls w \<Longrightarrow> path_match rs w \<Longrightarrow> path_step (lc # ls) (rc # rs) (c # w)"

definition both_absorb :: "string list \<Rightarrow> string list \<Rightarrow> string list \<Rightarrow> bool" where
  "both_absorb l r w \<longleftrightarrow>
     (\<exists>ls rs c w'. l = ''**'' # ls \<and> r = ''**'' # rs \<and> w = c # w' \<and> path_match l w' \<and> path_match r w')"

lemma path_step_or_absorb:
  assumes "path_match l w" and "path_match r w" and "l \<noteq> [] \<or> r \<noteq> []"
  shows "path_step l r w \<or> both_absorb l r w"
proof (cases w)
  case Nil
  then show ?thesis
    using assms by (cases l; cases r) (auto intro: path_step.intros)
next
  case (Cons c w')
  then obtain lc ls rc rs where lr: "l = lc # ls" "r = rc # rs"
    using assms by (cases l; cases r) auto
  from assms(1) lr Cons consider (l_skip) "lc = ''**''" "path_match ls w"
    | (l_take) "lc = ''**''" "path_match l w'" | (l_seg) "lc \<noteq> ''**''" "seg_match lc c" "path_match ls w'"
    by (auto split: if_splits)
  then show ?thesis
  proof cases
    case l_skip
    then show ?thesis using assms lr by (simp add: path_step.skip_left)
  next
    case l_take
    then show ?thesis
      using assms lr Cons
      by (cases "rc = ''**''") (auto simp: both_absorb_def intro: path_step.skip_right path_step.take_left)
  next
    case l_seg
    then show ?thesis
      using assms lr Cons
      by (cases "rc = ''**''") (auto intro: path_step.skip_right path_step.take_right path_step.take_both)
  qed
qed

lemma path_step_exists:
  assumes "path_match l w" and "path_match r w" and "l \<noteq> [] \<or> r \<noteq> []"
  shows "\<exists>w0. length w0 \<le> length w \<and> set w0 \<subseteq> set w \<and> path_step l r w0"
  using assms
proof (induction w)
  case Nil
  then show ?case using path_step_or_absorb [of l "[]" r] by (auto simp: both_absorb_def)
next
  case (Cons c w)
  show ?case
  proof (cases "path_step l r (c # w)")
    case True
    then show ?thesis by blast
  next
    case False
    with path_step_or_absorb [OF Cons.prems] have "path_match l w" "path_match r w"
      by (auto simp: both_absorb_def)
    with Cons.IH Cons.prems(3) obtain w0 where "length w0 \<le> length w" "set w0 \<subseteq> set w" "path_step l r w0"
      by auto
    then show ?thesis by (auto intro!: exI [of _ w0])
  qed
qed

lemma claim_path_succs:
  "claim_path_expand left right (li, ri, consumed) = Some succs \<Longrightarrow>
   li < length left \<or> ri < length right \<Longrightarrow>
   t \<in> set succs \<longleftrightarrow>
     nth_opt left li = Some ''**'' \<and> t \<in> {(li + 1, ri, consumed), (li, ri, True)} \<or>
     nth_opt right ri = Some ''**'' \<and> t \<in> {(li, ri + 1, consumed), (li, ri, True)} \<or>
     nth_opt left li = Some ''**'' \<and> nth_opt right ri = Some ''**'' \<and> t = (li + 1, ri + 1, consumed) \<or>
     li < length left \<and> ri < length right \<and>
       (left ! li \<noteq> ''**'' \<and> right ! ri = ''**'' \<and> t = (li + 1, ri, True) \<or>
        left ! li = ''**'' \<and> right ! ri \<noteq> ''**'' \<and> t = (li, ri + 1, True) \<or>
        left ! li \<noteq> ''**'' \<and> right ! ri \<noteq> ''**'' \<and> claim_segment_overlap (left ! li) (right ! ri) \<and>
        t = (li + 1, ri + 1, True))"
  by (auto simp: Let_def split: if_splits)

lemma claim_path_back:
  assumes ok: "segments_ok left" "segments_ok right"
    and s: "(li, ri, consumed) \<in> positions left right"
    and exp: "claim_path_expand left right (li, ri, consumed) = Some succs"
    and t: "t \<in> set succs" and w: "path_sound left right t"
  shows "path_sound left right (li, ri, consumed)"
proof -
  have not_end: "li < length left \<or> ri < length right"
    using exp t s by (auto split: if_splits)
  note mem = claim_path_succs [OF exp not_end]
  note heads = nth_opt_Cons_drop [of left li] nth_opt_Cons_drop [of right ri]
  from t mem consider
      (same) "t = (li, ri, True)"
    | (left) "nth_opt left li = Some ''**''" "t = (li + 1, ri, consumed)"
    | (right) "nth_opt right ri = Some ''**''" "t = (li, ri + 1, consumed)"
    | (both) "nth_opt left li = Some ''**''" "nth_opt right ri = Some ''**''" "t = (li + 1, ri + 1, consumed)"
    | (seg_left) "li < length left" "left ! li \<noteq> ''**''" "nth_opt right ri = Some ''**''" "t = (li + 1, ri, True)"
    | (seg_right) "ri < length right" "nth_opt left li = Some ''**''" "right ! ri \<noteq> ''**''" "t = (li, ri + 1, True)"
    | (segs) "li < length left" "ri < length right" "left ! li \<noteq> ''**''" "right ! ri \<noteq> ''**''"
        "claim_segment_overlap (left ! li) (right ! ri)" "t = (li + 1, ri + 1, True)"
    by auto
  then show ?thesis
  proof cases
    case same
    with w show ?thesis by (simp add: path_sound_def)
  next
    case left
    with w heads show ?thesis by (fastforce simp: path_sound_def intro: path_match_star_skip)
  next
    case right
    with w heads show ?thesis by (fastforce simp: path_sound_def intro: path_match_star_skip)
  next
    case both
    with w heads show ?thesis by (fastforce simp: path_sound_def intro: path_match_star_skip)
  next
    case seg_left
    with ok obtain c where "c \<noteq> []" "slash \<notin> set c" "seg_match (left ! li) c"
      using segments_ok_nth seg_match_somewhere by meson
    moreover from w ok seg_left obtain w' where "names_ok w'"
      "path_match (drop (Suc li) left) w'" "path_match (drop ri right) w'"
      by (auto simp: path_sound_def)
    ultimately show ?thesis
      using seg_left heads nth_opt_Cons_drop [of left li "left ! li"]
      by (auto simp: path_sound_def intro!: exI [of _ "c # w'"])
  next
    case seg_right
    with ok obtain c where "c \<noteq> []" "slash \<notin> set c" "seg_match (right ! ri) c"
      using segments_ok_nth seg_match_somewhere by meson
    moreover from w ok seg_right obtain w' where "names_ok w'"
      "path_match (drop li left) w'" "path_match (drop (Suc ri) right) w'"
      by (auto simp: path_sound_def)
    ultimately show ?thesis
      using seg_right heads nth_opt_Cons_drop [of right ri "right ! ri"]
      by (auto simp: path_sound_def intro!: exI [of _ "c # w'"])
  next
    case segs
    with ok obtain c where "c \<noteq> []" "slash \<notin> set c" "seg_match (left ! li) c" "seg_match (right ! ri) c"
      using segments_ok_nth claim_segment_overlap_iff by meson
    moreover from w ok segs obtain w' where "names_ok w'"
      "path_match (drop (Suc li) left) w'" "path_match (drop (Suc ri) right) w'"
      by (auto simp: path_sound_def)
    ultimately show ?thesis
      using segs nth_opt_Cons_drop [of left li "left ! li"] nth_opt_Cons_drop [of right ri "right ! ri"]
      by (auto simp: path_sound_def intro!: exI [of _ "c # w'"])
  qed
qed

lemma claim_path_forward:
  assumes ok: "segments_ok left" "segments_ok right"
    and s: "(li, ri, consumed) \<in> positions left right"
    and exp: "claim_path_expand left right (li, ri, consumed) = Some succs"
    and w: "common_path left right (li, ri, consumed) w"
  shows "\<exists>t\<in>set succs. \<exists>w'. common_path left right t w' \<and>
           search_weight left right t w' < search_weight left right (li, ri, consumed) w"
proof -
  let ?l = "drop li left" and ?r = "drop ri right"
  have ne: "?l \<noteq> [] \<or> ?r \<noteq> []"
    using exp w s by (auto simp: common_path_def split: if_splits)
  then have not_end: "li < length left \<or> ri < length right" by auto
  note mem = claim_path_succs [OF exp not_end]
  from w ne consider "path_step ?l ?r w" | "both_absorb ?l ?r w"
    using path_step_or_absorb [of ?l w ?r] unfolding common_path_def by blast
  then show ?thesis
  proof cases
    case 2
    then obtain ls rs c w' where absorb: "?l = ''**'' # ls" "?r = ''**'' # rs" "w = c # w'"
      "path_match ?l w'" "path_match ?r w'"
      by (auto simp: both_absorb_def)
    with drop_Cons_head [OF absorb(1)] drop_Cons_head [OF absorb(2)] w
    have "(li, ri, True) \<in> set succs" "common_path left right (li, ri, True) w'"
      "search_weight left right (li, ri, True) w' < search_weight left right (li, ri, consumed) w"
      by (simp_all add: mem common_path_def)
    then show ?thesis by blast
  next
    case 1
    then show ?thesis
    proof cases
      case (skip_left ls)
      with drop_Cons_head [OF skip_left(1)] w
      have "(li + 1, ri, consumed) \<in> set succs" "common_path left right (li + 1, ri, consumed) w"
        "search_weight left right (li + 1, ri, consumed) w < search_weight left right (li, ri, consumed) w"
        by (simp_all add: mem common_path_def)
      then show ?thesis by blast
    next
      case (skip_right rs)
      with drop_Cons_head [OF skip_right(1)] w
      have "(li, ri + 1, consumed) \<in> set succs" "common_path left right (li, ri + 1, consumed) w"
        "search_weight left right (li, ri + 1, consumed) w < search_weight left right (li, ri, consumed) w"
        by (simp_all add: mem common_path_def)
      then show ?thesis by blast
    next
      case (take_left rc ls w' rs c)
      with drop_Cons_head [OF take_left(1)] drop_Cons_head [OF take_left(2)] w
      have "(li, ri + 1, True) \<in> set succs" "common_path left right (li, ri + 1, True) w'"
        "search_weight left right (li, ri + 1, True) w' < search_weight left right (li, ri, consumed) w"
        by (simp_all add: mem common_path_def)
      then show ?thesis by blast
    next
      case (take_right lc ls w' rs c)
      with drop_Cons_head [OF take_right(1)] drop_Cons_head [OF take_right(2)] w
      have "(li + 1, ri, True) \<in> set succs" "common_path left right (li + 1, ri, True) w'"
        "search_weight left right (li + 1, ri, True) w' < search_weight left right (li, ri, consumed) w"
        by (simp_all add: mem common_path_def)
      then show ?thesis by blast
    next
      case (take_both lc rc c ls w' rs)
      have "claim_segment_overlap lc rc"
        using take_both w ok drop_Cons_head [OF take_both(1)] drop_Cons_head [OF take_both(2)]
        by (subst claim_segment_overlap_iff) (auto simp: common_path_def segments_ok_def)
      with take_both drop_Cons_head [OF take_both(1)] drop_Cons_head [OF take_both(2)] w
      have "(li + 1, ri + 1, True) \<in> set succs" "common_path left right (li + 1, ri + 1, True) w'"
        "search_weight left right (li + 1, ri + 1, True) w' < search_weight left right (li, ri, consumed) w"
        by (simp_all add: mem common_path_def)
      then show ?thesis by blast
    qed
  qed
qed

lemma claim_path_closed:
  "s \<in> positions left right \<Longrightarrow> claim_path_expand left right s = Some succs \<Longrightarrow>
   set succs \<subseteq> positions left right"
  by (cases s) (auto simp: Let_def split: if_splits)

interpretation claim_paths: witness_search
  "claim_path_expand left right" "positions left right" "(0, 0, False)"
  "path_sound left right"
  "\<lambda>s w. segments_ok left \<and> segments_ok right \<and> common_path left right s w"
  "search_weight left right"
  for left right
proof unfold_locales
  fix s succs t
  assume "s \<in> positions left right" "claim_path_expand left right s = Some succs"
    "t \<in> set succs" "path_sound left right t"
  then show "path_sound left right s"
    using claim_path_back [of left right "fst s" "fst (snd s)" "snd (snd s)" succs t]
    by (cases s) (auto simp: path_sound_def simp del: claim_path_expand.simps)
next
  fix s w succs
  assume "s \<in> positions left right" "claim_path_expand left right s = Some succs"
    "segments_ok left \<and> segments_ok right \<and> common_path left right s w"
  then show "\<exists>t\<in>set succs. \<exists>w'. (segments_ok left \<and> segments_ok right \<and> common_path left right t w') \<and>
      search_weight left right t w' < search_weight left right s w"
    using claim_path_forward [of left right "fst s" "fst (snd s)" "snd (snd s)" succs w]
    by (simp del: claim_path_expand.simps)
next
  fix s
  assume "s \<in> positions left right" "claim_path_expand left right s = None"
  then show "path_sound left right s"
    by (cases s) (auto simp: path_sound_def Let_def intro: exI [of _ "[]"] split: if_splits)
qed (auto dest: claim_path_closed simp del: claim_path_expand.simps)

text \<open>Where two lists of segments select the empty path, they select a one-name path too.\<close>

lemma nonempty_common_path:
  assumes "names_ok w" "path_match l w" "path_match r w" "l \<noteq> []" "r \<noteq> []"
  shows "\<exists>w'. w' \<noteq> [] \<and> names_ok w' \<and> path_match l w' \<and> path_match r w'"
proof (cases w)
  case Nil
  then obtain ls rs where "l = ''**'' # ls" "r = ''**'' # rs" "path_match ls []" "path_match rs []"
    using assms by (cases l; cases r) auto
  then show ?thesis
    by (intro exI [of _ "[''a'']"]) (auto intro: path_match_star_skip)
next
  case (Cons c w')
  then show ?thesis using assms by blast
qed

lemma pattern_segments_ok: "pattern_ok pattern \<Longrightarrow> segments_ok (split_on slash pattern)"
  by (auto simp: segments_ok_def pattern_ok_def dest: split_on_no_sep)

text \<open>Paths as strings: a non-empty list of names is the split of its join.\<close>

lemma glob_selects_iff:
  "(\<exists>path. path_ok path \<and> glob_selects l path \<and> glob_selects r path) \<longleftrightarrow>
   (\<exists>w. w \<noteq> [] \<and> names_ok w \<and> path_match (split_on slash l) w \<and> path_match (split_on slash r) w)"
proof
  assume "\<exists>w. w \<noteq> [] \<and> names_ok w \<and> path_match (split_on slash l) w \<and> path_match (split_on slash r) w"
  then obtain w where "w \<noteq> []" "names_ok w" "path_match (split_on slash l) w"
    "path_match (split_on slash r) w" by blast
  moreover from this have "split_on slash (join_with slash w) = w"
    by (intro split_join) (auto simp: names_ok_def)
  ultimately show "\<exists>path. path_ok path \<and> glob_selects l path \<and> glob_selects r path"
    by (intro exI [of _ "join_with slash w"]) (simp add: path_ok_def glob_selects_def)
next
  assume "\<exists>path. path_ok path \<and> glob_selects l path \<and> glob_selects r path"
  then show "\<exists>w. w \<noteq> [] \<and> names_ok w \<and> path_match (split_on slash l) w \<and> path_match (split_on slash r) w"
    by (metis split_on_nonempty path_ok_def glob_selects_def)
qed

lemma claim_overlap_decides:
  assumes "pattern_ok l" "pattern_ok r"
  shows "claim_glob_patterns_overlap l r \<longleftrightarrow>
         (\<exists>path. path_ok path \<and> glob_selects l path \<and> glob_selects r path)"
proof -
  let ?l = "split_on slash l" and ?r = "split_on slash r"
  have ok: "segments_ok ?l" "segments_ok ?r"
    using assms by (simp_all add: pattern_segments_ok)
  have "claim_glob_patterns_overlap l r \<Longrightarrow> path_sound ?l ?r (0, 0, False)"
    unfolding claim_glob_patterns_overlap_def by (rule claim_paths.search_sound)
  then have "claim_glob_patterns_overlap l r \<Longrightarrow>
      \<exists>w. w \<noteq> [] \<and> names_ok w \<and> path_match ?l w \<and> path_match ?r w"
    using ok nonempty_common_path by (fastforce simp: path_sound_def)
  moreover have "claim_glob_patterns_overlap l r" if "w \<noteq> []" "names_ok w" "path_match ?l w" "path_match ?r w" for w
    unfolding claim_glob_patterns_overlap_def
    using claim_paths.search_complete [of ?l ?r w] ok that by (simp add: common_path_def)
  ultimately show ?thesis unfolding glob_selects_iff by blast
qed

section \<open>Segments and paths in resource-coordination.ts\<close>

text \<open>The same loops without the \<open>consumed\<close> flag, on states \<open>[leftIndex, rightIndex]\<close>.\<close>

fun coord_segment_expand :: "string \<Rightarrow> string \<Rightarrow> nat \<times> nat \<Rightarrow> (nat \<times> nat) list option" where
  "coord_segment_expand left right (li, ri) =
     (if li = length left \<and> ri = length right then None
      else
        (let leftChar = nth_opt left li; rightChar = nth_opt right ri in
         Some
           ((if leftChar = Some star
             then (li + 1, ri) # (if ri < length right then [(li, ri + 1)] else []) else []) @
            (if rightChar = Some star
             then (li, ri + 1) # (if li < length left then [(li + 1, ri)] else []) else []) @
            (if length left \<le> li \<or> length right \<le> ri \<or> leftChar = Some star \<or> rightChar = Some star
             then []
             else if leftChar = Some qmark \<or> rightChar = Some qmark \<or> leftChar = rightChar
             then [(li + 1, ri + 1)]
             else []))))"

definition coord_segment_overlap :: "string \<Rightarrow> string \<Rightarrow> bool" where
  "coord_segment_overlap left right \<longleftrightarrow>
     worklist (coord_segment_expand left right) [(0, 0)] {} = Some True"

fun coord_path_expand :: "string list \<Rightarrow> string list \<Rightarrow> nat \<times> nat \<Rightarrow> (nat \<times> nat) list option" where
  "coord_path_expand left right (li, ri) =
     (if li = length left \<and> ri = length right then None
      else
        (let leftStar = (nth_opt left li = Some ''**'');
             rightStar = (nth_opt right ri = Some ''**'') in
         Some
           ((if leftStar then (li + 1, ri) # (if ri < length right then [(li, ri + 1)] else []) else []) @
            (if rightStar then (li, ri + 1) # (if li < length left then [(li + 1, ri)] else []) else []) @
            (if length left \<le> li \<or> length right \<le> ri then []
             else if leftStar \<or> rightStar then []
             else if coord_segment_overlap (left ! li) (right ! ri) then [(li + 1, ri + 1)]
             else []))))"

definition coord_glob_patterns_overlap :: "string \<Rightarrow> string \<Rightarrow> bool" where
  "coord_glob_patterns_overlap left right \<longleftrightarrow>
     worklist (coord_path_expand (split_on slash left) (split_on slash right)) [(0, 0)] {} = Some True"

definition grid :: "'a list \<Rightarrow> 'b list \<Rightarrow> (nat \<times> nat) set" where
  "grid left right = {0..length left} \<times> {0..length right}"

lemma grid_finite [simp]: "finite (grid left right)"
  by (simp add: grid_def)

lemma grid_iff [simp]: "(li, ri) \<in> grid left right \<longleftrightarrow> li \<le> length left \<and> ri \<le> length right"
  by (auto simp: grid_def)

definition grid_weight :: "'a list \<Rightarrow> 'b list \<Rightarrow> nat \<times> nat \<Rightarrow> 'c list \<Rightarrow> nat" where
  "grid_weight left right = (\<lambda>(li, ri) s. search_weight left right (li, ri, True) s)"

definition shared_name :: "string \<Rightarrow> string \<Rightarrow> nat \<times> nat \<Rightarrow> string \<Rightarrow> bool" where
  "shared_name left right = (\<lambda>(li, ri). common_name left right (li, ri, True))"

definition shared_sound :: "string \<Rightarrow> string \<Rightarrow> nat \<times> nat \<Rightarrow> bool" where
  "shared_sound left right s \<longleftrightarrow>
     slash \<in> set left \<or> slash \<in> set right \<or> (\<exists>w. shared_name left right s w)"

text \<open>
  Each push of this loop is a push of the loop above from the state with \<open>consumed\<close> set, so its
  steps need no proof of their own.
\<close>

lemma coord_segment_refines:
  assumes "coord_segment_expand left right (li, ri) = Some succs"
    and "claim_segment_expand left right (li, ri, True) = Some succs'"
    and "(li, ri) \<in> grid left right"
  shows "set succs = (\<lambda>(i, j, c). (i, j)) ` set succs'"
    and "\<forall>(i, j, c)\<in>set succs'. c"
  using assms by (auto simp: Let_def split: if_splits)

lemma coord_segment_ends:
  "coord_segment_expand left right (li, ri) = None \<longleftrightarrow>
   claim_segment_expand left right (li, ri, True) = None"
  by (auto simp: Let_def)

lemma coord_segment_closed:
  "s \<in> grid left right \<Longrightarrow> coord_segment_expand left right s = Some succs \<Longrightarrow>
   set succs \<subseteq> grid left right"
  by (cases s) (auto simp: Let_def split: if_splits)

lemma coord_segment_as_claim:
  assumes "s \<in> grid left right" and "coord_segment_expand left right s = Some succs"
  obtains li ri succs' where "s = (li, ri)" "claim_segment_expand left right (li, ri, True) = Some succs'"
    "(li, ri, True) \<in> positions left right"
    "\<And>i j. (i, j) \<in> set succs \<longleftrightarrow> (i, j, True) \<in> set succs'" "\<And>i j c. (i, j, c) \<in> set succs' \<Longrightarrow> c"
proof -
  obtain li ri where s: "s = (li, ri)" by (cases s)
  with assms coord_segment_ends obtain succs' where
    c: "claim_segment_expand left right (li, ri, True) = Some succs'"
    by (metis not_None_eq)
  note r = coord_segment_refines [OF assms(2) [unfolded s] c assms(1) [unfolded s]]
  show ?thesis
    by (rule that [OF s c]) (use assms(1) s r in \<open>auto simp: image_iff split: prod.splits\<close>)
qed

interpretation coord_segments: witness_search
  "coord_segment_expand left right" "grid left right" "(0, 0)"
  "shared_sound left right" "shared_name left right" "grid_weight left right"
  for left right
proof unfold_locales
  fix s succs t
  assume s: "s \<in> grid left right" "coord_segment_expand left right s = Some succs"
    and t: "t \<in> set succs" "shared_sound left right t"
  from s show "shared_sound left right s"
  proof (rule coord_segment_as_claim)
    fix li ri succs'
    assume *: "s = (li, ri)" "claim_segment_expand left right (li, ri, True) = Some succs'"
      "(li, ri, True) \<in> positions left right" "\<And>i j. (i, j) \<in> set succs \<longleftrightarrow> (i, j, True) \<in> set succs'"
    obtain i j where "t = (i, j)" by (cases t)
    with * t claim_segment_back [OF _ _ *(3,2)] show ?thesis
      unfolding shared_sound_def shared_name_def by fastforce
  qed
next
  fix s w succs
  assume s: "s \<in> grid left right" "coord_segment_expand left right s = Some succs"
    and w: "shared_name left right s w"
  from s show "\<exists>t\<in>set succs. \<exists>w'. shared_name left right t w' \<and>
      grid_weight left right t w' < grid_weight left right s w"
  proof (rule coord_segment_as_claim)
    fix li ri succs'
    assume *: "s = (li, ri)" "claim_segment_expand left right (li, ri, True) = Some succs'"
      "(li, ri, True) \<in> positions left right" "\<And>i j. (i, j) \<in> set succs \<longleftrightarrow> (i, j, True) \<in> set succs'"
      "\<And>i j c. (i, j, c) \<in> set succs' \<Longrightarrow> c"
    with w have "common_name left right (li, ri, True) w" by (simp add: shared_name_def)
    from claim_segment_forward [OF *(3,2) this] obtain i j c w' where
      "(i, j, c) \<in> set succs'" "common_name left right (i, j, c) w'"
      "search_weight left right (i, j, c) w' < search_weight left right (li, ri, True) w"
      by auto
    moreover from this *(5) have c by blast
    ultimately show ?thesis
      using *(1,4) by (intro bexI [of _ "(i, j)"] exI [of _ w']) (auto simp: shared_name_def grid_weight_def)
  qed
next
  fix s
  assume "s \<in> grid left right" "coord_segment_expand left right s = None"
  then show "shared_sound left right s"
    by (cases s) (auto simp: shared_sound_def shared_name_def common_name_def Let_def split: if_splits)
qed (auto dest: coord_segment_closed simp del: coord_segment_expand.simps)

lemma coord_segment_overlap_iff:
  assumes "slash \<notin> set left" "slash \<notin> set right"
  shows "coord_segment_overlap left right \<longleftrightarrow>
         (\<exists>s. slash \<notin> set s \<and> seg_match left s \<and> seg_match right s)"
proof
  assume "coord_segment_overlap left right"
  then have "shared_sound left right (0, 0)"
    unfolding coord_segment_overlap_def by (rule coord_segments.search_sound)
  with assms show "\<exists>s. slash \<notin> set s \<and> seg_match left s \<and> seg_match right s"
    by (auto simp: shared_sound_def shared_name_def common_name_def)
next
  assume "\<exists>s. slash \<notin> set s \<and> seg_match left s \<and> seg_match right s"
  then obtain s where "shared_name left right (0, 0) s"
    by (auto simp: shared_name_def common_name_def)
  then show "coord_segment_overlap left right"
    unfolding coord_segment_overlap_def by (rule coord_segments.search_complete)
qed

text \<open>On segments of canonical patterns the two routines agree: neither pattern is empty.\<close>

lemma segment_overlaps_agree:
  assumes "slash \<notin> set left" "slash \<notin> set right" "left \<noteq> []" "right \<noteq> []"
  shows "coord_segment_overlap left right \<longleftrightarrow> claim_segment_overlap left right"
proof -
  have "\<exists>s'. s' \<noteq> [] \<and> slash \<notin> set s' \<and> seg_match left s' \<and> seg_match right s'"
    if s: "slash \<notin> set s" "seg_match left s" "seg_match right s" for s
  proof (cases "s = []")
    case True
    then obtain ls rs where "left = star # ls" "right = star # rs" "seg_match ls []" "seg_match rs []"
      using s assms by (cases left; cases right) auto
    then show ?thesis
      by (intro exI [of _ "''a''"]) (auto intro: seg_match_star_skip)
  next
    case False
    then show ?thesis using s by blast
  qed
  then show ?thesis
    using assms by (auto simp: coord_segment_overlap_iff claim_segment_overlap_iff)
qed

lemma coord_path_succs:
  "coord_path_expand left right (li, ri) = Some succs \<Longrightarrow> li < length left \<or> ri < length right \<Longrightarrow>
   t \<in> set succs \<longleftrightarrow>
     nth_opt left li = Some ''**'' \<and> (t = (li + 1, ri) \<or> ri < length right \<and> t = (li, ri + 1)) \<or>
     nth_opt right ri = Some ''**'' \<and> (t = (li, ri + 1) \<or> li < length left \<and> t = (li + 1, ri)) \<or>
     li < length left \<and> ri < length right \<and> left ! li \<noteq> ''**'' \<and> right ! ri \<noteq> ''**'' \<and>
       coord_segment_overlap (left ! li) (right ! ri) \<and> t = (li + 1, ri + 1)"
  by (auto simp: Let_def split: if_splits)

lemma coord_path_closed:
  "s \<in> grid left right \<Longrightarrow> coord_path_expand left right s = Some succs \<Longrightarrow>
   set succs \<subseteq> grid left right"
  by (cases s) (auto simp: Let_def split: if_splits)

definition grid_sound :: "string list \<Rightarrow> string list \<Rightarrow> nat \<times> nat \<Rightarrow> bool" where
  "grid_sound left right = (\<lambda>(li, ri). path_sound left right (li, ri, True))"

text \<open>Every push of this loop is a push of the other one, which is sound.\<close>

lemma coord_path_back:
  assumes ok: "segments_ok left" "segments_ok right"
    and s: "(li, ri) \<in> grid left right"
    and exp: "coord_path_expand left right (li, ri) = Some succs"
    and t: "(i, j) \<in> set succs" and w: "grid_sound left right (i, j)"
  shows "grid_sound left right (li, ri)"
proof -
  have not_end: "li < length left \<or> ri < length right"
    using exp s by (auto split: if_splits)
  obtain succs' where c: "claim_path_expand left right (li, ri, True) = Some succs'"
    using not_end by (cases "claim_path_expand left right (li, ri, True)") (auto simp: Let_def split: if_splits)
  have "(i, j, True) \<in> set succs'"
    using t coord_path_succs [OF exp not_end] claim_path_succs [OF c not_end] s ok
      segment_overlaps_agree [of "left ! li" "right ! ri"]
      segments_ok_nth [of left li] segments_ok_nth [of right ri]
    by auto
  from claim_path_back [OF ok _ c this] s w show ?thesis
    by (simp add: grid_sound_def)
qed

lemma coord_path_forward:
  assumes ok: "segments_ok left" "segments_ok right"
    and s: "(li, ri) \<in> grid left right"
    and exp: "coord_path_expand left right (li, ri) = Some succs"
    and w: "common_path left right (li, ri, True) w"
  shows "\<exists>t\<in>set succs. \<exists>w'. (case t of (i, j) \<Rightarrow> common_path left right (i, j, True) w') \<and>
           grid_weight left right t w' < grid_weight left right (li, ri) w"
proof -
  let ?l = "drop li left" and ?r = "drop ri right"
  have not_end: "li < length left \<or> ri < length right"
    using exp s by (auto split: if_splits)
  note mem = coord_path_succs [OF exp not_end]
  from w not_end obtain w0 where w0: "length w0 \<le> length w" "set w0 \<subseteq> set w"
    and step: "path_step ?l ?r w0"
    using path_step_exists [of ?l w ?r] unfolding common_path_def by (auto simp: not_le)
  have names: "names_ok w0"
    using w w0(2) by (auto simp: common_path_def names_ok_def)
  from step show ?thesis
  proof cases
    case (skip_left ls)
    with drop_Cons_head [OF skip_left(1)] w0(1) names
    have "(li + 1, ri) \<in> set succs" "common_path left right (li + 1, ri, True) w0"
      "grid_weight left right (li + 1, ri) w0 < grid_weight left right (li, ri) w"
      by (simp_all add: mem common_path_def grid_weight_def)
    then show ?thesis by blast
  next
    case (skip_right rs)
    with drop_Cons_head [OF skip_right(1)] w0(1) names
    have "(li, ri + 1) \<in> set succs" "common_path left right (li, ri + 1, True) w0"
      "grid_weight left right (li, ri + 1) w0 < grid_weight left right (li, ri) w"
      by (simp_all add: mem common_path_def grid_weight_def)
    then show ?thesis by blast
  next
    case (take_left rc ls w' rs c)
    with drop_Cons_head [OF take_left(1)] drop_Cons_head [OF take_left(2)] w0(1) names
    have "(li, ri + 1) \<in> set succs" "common_path left right (li, ri + 1, True) w'"
      "grid_weight left right (li, ri + 1) w' < grid_weight left right (li, ri) w"
      by (simp_all add: mem common_path_def grid_weight_def)
    then show ?thesis by blast
  next
    case (take_right lc ls w' rs c)
    with drop_Cons_head [OF take_right(1)] drop_Cons_head [OF take_right(2)] w0(1) names
    have "(li + 1, ri) \<in> set succs" "common_path left right (li + 1, ri, True) w'"
      "grid_weight left right (li + 1, ri) w' < grid_weight left right (li, ri) w"
      by (simp_all add: mem common_path_def grid_weight_def)
    then show ?thesis by blast
  next
    case (take_both lc rc c ls w' rs)
    have "coord_segment_overlap lc rc"
      using take_both names ok drop_Cons_head [OF take_both(1)] drop_Cons_head [OF take_both(2)]
      by (subst coord_segment_overlap_iff) (auto simp: segments_ok_def)
    with take_both drop_Cons_head [OF take_both(1)] drop_Cons_head [OF take_both(2)] w0(1) names
    have "(li + 1, ri + 1) \<in> set succs" "common_path left right (li + 1, ri + 1, True) w'"
      "grid_weight left right (li + 1, ri + 1) w' < grid_weight left right (li, ri) w"
      by (simp_all add: mem common_path_def grid_weight_def)
    then show ?thesis by blast
  qed
qed

interpretation coord_paths: witness_search
  "coord_path_expand left right" "grid left right" "(0, 0)" "grid_sound left right"
  "\<lambda>s w. segments_ok left \<and> segments_ok right \<and> (case s of (i, j) \<Rightarrow> common_path left right (i, j, True) w)"
  "grid_weight left right"
  for left right
proof unfold_locales
  fix s succs t
  assume "s \<in> grid left right" "coord_path_expand left right s = Some succs"
    "t \<in> set succs" "grid_sound left right t"
  then show "grid_sound left right s"
    using coord_path_back [of left right "fst s" "snd s" succs "fst t" "snd t"]
    by (cases s) (auto simp: grid_sound_def path_sound_def simp del: coord_path_expand.simps)
next
  fix s w succs
  assume "s \<in> grid left right" "coord_path_expand left right s = Some succs"
    "segments_ok left \<and> segments_ok right \<and> (case s of (i, j) \<Rightarrow> common_path left right (i, j, True) w)"
  then show "\<exists>t\<in>set succs. \<exists>w'. (segments_ok left \<and> segments_ok right \<and>
        (case t of (i, j) \<Rightarrow> common_path left right (i, j, True) w')) \<and>
      grid_weight left right t w' < grid_weight left right s w"
    using coord_path_forward [of left right "fst s" "snd s" succs w]
    by (cases s) (simp del: coord_path_expand.simps)
next
  fix s
  assume "s \<in> grid left right" "coord_path_expand left right s = None"
  then show "grid_sound left right s"
    by (cases s)
      (auto simp: grid_sound_def path_sound_def Let_def intro: exI [of _ "[]"] split: if_splits)
qed (auto dest: coord_path_closed simp del: coord_path_expand.simps)

lemma coord_overlap_decides:
  assumes "pattern_ok l" "pattern_ok r"
  shows "coord_glob_patterns_overlap l r \<longleftrightarrow>
         (\<exists>path. path_ok path \<and> glob_selects l path \<and> glob_selects r path)"
proof -
  let ?l = "split_on slash l" and ?r = "split_on slash r"
  have ok: "segments_ok ?l" "segments_ok ?r"
    using assms by (simp_all add: pattern_segments_ok)
  have "coord_glob_patterns_overlap l r \<Longrightarrow> grid_sound ?l ?r (0, 0)"
    unfolding coord_glob_patterns_overlap_def by (rule coord_paths.search_sound)
  then have "coord_glob_patterns_overlap l r \<Longrightarrow>
      \<exists>w. w \<noteq> [] \<and> names_ok w \<and> path_match ?l w \<and> path_match ?r w"
    using ok nonempty_common_path by (fastforce simp: path_sound_def grid_sound_def)
  moreover have "coord_glob_patterns_overlap l r" if "names_ok w" "path_match ?l w" "path_match ?r w" for w
    unfolding coord_glob_patterns_overlap_def
    using coord_paths.search_complete [of ?l ?r w] ok that by (simp add: common_path_def)
  ultimately show ?thesis unfolding glob_selects_iff by blast
qed

section \<open>Properties\<close>

text \<open>The overlap test of resource-claims.ts is exact: for patterns without an empty segment it
  answers true precisely when some path is selected by both patterns.\<close>

theorem claim_glob_patterns_overlap_exact:
  assumes "pattern_ok l" "pattern_ok r"
  shows "claim_glob_patterns_overlap l r \<longleftrightarrow>
         (\<exists>path. path_ok path \<and> glob_selects l path \<and> glob_selects r path)"
  using assms by (rule claim_overlap_decides)

theorem claim_glob_patterns_overlap_exact_witness:
  "claim_glob_patterns_overlap ''src/**/a?.ts'' ''src/lib/*b.ts'' \<and>
   (\<exists>path. path_ok path \<and> glob_selects ''src/**/a?.ts'' path \<and> glob_selects ''src/lib/*b.ts'' path)"
proof -
  have "pattern_ok ''src/**/a?.ts''" "pattern_ok ''src/lib/*b.ts''"
    "claim_glob_patterns_overlap ''src/**/a?.ts'' ''src/lib/*b.ts''"
    by code_simp+
  with claim_glob_patterns_overlap_exact show ?thesis by blast
qed

text \<open>C32: The two implementations of the overlap test, of resource-claims.ts and of
  resource-coordination.ts, agree on every pair of patterns without an empty segment.\<close>

theorem overlap_implementations_agree:
  assumes "pattern_ok l" "pattern_ok r"
  shows "coord_glob_patterns_overlap l r \<longleftrightarrow> claim_glob_patterns_overlap l r"
  using claim_overlap_decides [OF assms] coord_overlap_decides [OF assms] by simp

theorem overlap_implementations_agree_witness:
  "pattern_ok ''src/*.ts'' \<and> pattern_ok ''src/?'' \<and>
   (coord_glob_patterns_overlap ''src/*.ts'' ''src/?'' \<longleftrightarrow> claim_glob_patterns_overlap ''src/*.ts'' ''src/?'')"
proof -
  have "pattern_ok ''src/*.ts''" "pattern_ok ''src/?''" by code_simp+
  with overlap_implementations_agree show ?thesis by blast
qed

text \<open>C33: All four worklist loops of the overlap tests return, on every pair of inputs.\<close>

theorem overlap_loops_return:
  "(\<exists>b. worklist (claim_segment_expand p q) [(0, 0, False)] {} = Some b) \<and>
   (\<exists>b. worklist (claim_path_expand ps qs) [(0, 0, False)] {} = Some b) \<and>
   (\<exists>b. worklist (coord_segment_expand p q) [(0, 0)] {} = Some b) \<and>
   (\<exists>b. worklist (coord_path_expand ps qs) [(0, 0)] {} = Some b)"
  by (intro conjI claim_segments.search_returns claim_paths.search_returns
      coord_segments.search_returns coord_paths.search_returns)

end
