(* ===== verification/Errors.thy ===== *)
theory Errors
  imports Prelude
begin

text \<open>
  The failure vocabularies of src/src/errors.ts and src/src/domain/errors.ts. A code is a
  string of one of two closed lists, as in the source. A \<open>SessionRegistryError\<close> keeps its code
  and message, a \<open>DomainError\<close> its code, message and exit status; the JSON \<open>details\<close> attached
  for display and the chained cause are not modelled.
\<close>

section \<open>Registry errors\<close>

definition registry_error_codes :: "string list" where
  "registry_error_codes =
    [''GIT_COMMAND_FAILED'', ''GIT_SPAWN_FAILED'', ''GIT_TIMEOUT'', ''GIT_OUTPUT_LIMIT'',
     ''NOT_A_GIT_REPOSITORY'', ''REPOSITORY_IDENTITY_AMBIGUOUS'', ''WORKTREE_IDENTITY_AMBIGUOUS'',
     ''DETACHED_HEAD'', ''MISSING_WORKTREE'', ''REPOSITORY_MISMATCH'', ''WORKTREE_MISMATCH'',
     ''BRANCH_MISMATCH'', ''STALE_REGISTRY'', ''STALE_CLAIM_SET'', ''GIT_STATE_AMBIGUOUS'',
     ''PHYSICAL_OBSERVATION_UNAVAILABLE'', ''INVALID_SESSION_ID'', ''INVALID_SESSION_RECORD'',
     ''INVALID_BRANCH_ID'', ''INVALID_WORKTREE_PATH'', ''INVALID_BASE_REF'', ''REGISTRY_CORRUPT'',
     ''REGISTRY_FEATURE_UNSUPPORTED'', ''UNSUPPORTED_SCHEMA_VERSION'',
     ''REGISTRY_REPOSITORY_MISMATCH'', ''DUPLICATE_SESSION_ID'', ''DUPLICATE_WORKTREE_OWNERSHIP'',
     ''DUPLICATE_BRANCH_OWNERSHIP'', ''WORKTREE_ALREADY_EXISTS'', ''BRANCH_ALREADY_EXISTS'',
     ''PROTECTED_WORKTREE'', ''PROTECTED_BRANCH'', ''SESSION_ID_COLLISION'', ''SESSION_NOT_FOUND'',
     ''DIRTY_WORKTREE'', ''NESTED_REPOSITORY'', ''OWNERSHIP_MISMATCH'', ''RECOVERABLE_COMMITS'',
     ''RECOVERABLE_STASHES'', ''RECONCILIATION_DRIFT'', ''REGISTRY_LOCK_TIMEOUT'',
     ''REGISTRY_IO_FAILURE'', ''REGISTRY_DURABILITY_UNCERTAIN'', ''AUXILIARY_STATE_INVALID'',
     ''AUXILIARY_STATE_AMBIGUOUS'', ''AUXILIARY_STATE_MATERIALIZATION_FAILED'', ''INVALID_CLAIM'',
     ''INVALID_OPERATION'', ''OPERATION_REJECTED'', ''INVALID_RESOURCE'',
     ''MISSING_RESOURCE_CLAIM'', ''INSUFFICIENT_CLAIM_MODE'', ''INVALID_CLAIM_RESOURCE'',
     ''CLAIM_PATH_TRAVERSAL'', ''CLAIM_SYMLINK_ESCAPE'', ''CLAIM_AMBIGUOUS_PATH'',
     ''UNSUPPORTED_CLAIM_GLOB'', ''CLAIM_REPOSITORY_MISMATCH'', ''CLAIM_SESSION_MISMATCH'',
     ''DUPLICATE_CLAIM'', ''CONTRADICTORY_CLAIM'', ''RESOURCE_CLAIM_CONFLICT'',
     ''CLAIM_NOT_FOUND'', ''SESSION_NOT_ACTIVE'', ''FILE_OPERATION_INVALID'',
     ''FILE_OPERATION_ID_CONFLICT'', ''FILE_OPERATION_INVALID_TRANSITION'',
     ''FILE_OPERATION_LIMIT'', ''FILE_OPERATION_AUTHORITY_DENIED'',
     ''FILE_OPERATION_UNSUPPORTED_SCHEMA'', ''FILE_OPERATION_CORRUPT'',
     ''UNSUPPORTED_CLAIM_SCHEMA_VERSION'', ''INVALID_COMMIT_MESSAGE'', ''COMMIT_EMPTY_DIFF'',
     ''UNEXPECTED_CHANGED_PATHS'', ''COMMIT_STAGING_FAILED'', ''COMMIT_FAILED'',
     ''COMMIT_RESULT_UNAVAILABLE'', ''COMMIT_RESULT_DIVERGED'', ''INVALID_REMOTE'',
     ''INVALID_REMOTE_BRANCH'', ''PUSH_TARGET_MISMATCH'', ''PUSH_REMOTE_INSPECTION_FAILED'',
     ''INTEGRATION_FETCH_FAILED'', ''PUSH_NO_UPSTREAM'', ''PUSH_BEHIND'', ''PUSH_DIVERGED'',
     ''PUSH_DIRTY_WORKTREE'', ''PUSH_FAILED'']"

datatype registry_error = SessionRegistryError (error_code: string) (error_message: string)

definition is_session_registry_error :: "registry_error + 'a \<Rightarrow> bool" where
  "is_session_registry_error r \<longleftrightarrow> (case r of Inl (SessionRegistryError _ _) \<Rightarrow> True | Inr _ \<Rightarrow> False)"

section \<open>Domain errors and their exit status\<close>

definition domain_error_codes :: "string list" where
  "domain_error_codes =
    [''BACKEND_UNAVAILABLE'', ''BRANCH_OWNED_BY_OTHER_SESSION'', ''BRANCH_ALREADY_EXISTS'',
     ''DOCTOR_FAILED'', ''DIRTY_WORKTREE'', ''NESTED_REPOSITORY'', ''GIT_COMMAND_FAILED'',
     ''GIT_OPERATION_FAILED'', ''GIT_SPAWN_FAILED'', ''GIT_TIMEOUT'', ''GIT_OUTPUT_LIMIT'',
     ''GIT_UNAVAILABLE'', ''INVALID_ARGUMENT'', ''INVALID_BRANCH'', ''INVALID_BASE_REF'',
     ''INVALID_REGISTRY'', ''INVALID_SESSION_ID'', ''INVALID_WORKTREE'', ''DETACHED_HEAD'',
     ''MISSING_WORKTREE'', ''REPOSITORY_MISMATCH'', ''WORKTREE_MISMATCH'', ''BRANCH_MISMATCH'',
     ''STALE_REGISTRY'', ''STALE_CLAIM_SET'', ''GIT_STATE_AMBIGUOUS'',
     ''PHYSICAL_OBSERVATION_UNAVAILABLE'', ''LOCK_CONTENTION'', ''MISSING_ARGUMENT'',
     ''NO_COMMAND'', ''NO_CURRENT_SESSION'', ''NOT_GIT_REPOSITORY'', ''OPERATION_REJECTED'',
     ''OWNERSHIP_MISMATCH'', ''PROTECTED_BRANCH'', ''PROTECTED_WORKTREE'', ''RECOVERABLE_COMMITS'',
     ''RECOVERABLE_STASHES'', ''RECONCILIATION_DRIFT'', ''REGISTRY_CORRUPT'',
     ''REGISTRY_FEATURE_UNSUPPORTED'', ''REGISTRY_UNREADABLE'', ''REGISTRY_DURABILITY_UNCERTAIN'',
     ''SANDBOX_UNSUPPORTED_PLATFORM'', ''SANDBOX_CAPABILITY_UNAVAILABLE'',
     ''SANDBOX_TOPOLOGY_INVALID'', ''SANDBOX_EXECUTION_FAILED'', ''SANDBOX_EXECUTION_TIMEOUT'',
     ''SANDBOX_OUTPUT_LIMIT'', ''SANDBOX_CGROUP_SCOPE_CONFLICT'', ''SANDBOX_CGROUP_SETUP_FAILED'',
     ''SANDBOX_CGROUP_CLEANUP_FAILED'', ''SANDBOX_CGROUP_LIMIT'', ''RUNTIME_PROJECTION_INVALID'',
     ''RUNTIME_PROJECTION_AMBIGUOUS'', ''RUNTIME_PROFILE_INVALID'', ''RUNTIME_PROFILE_AMBIGUOUS'',
     ''RUNTIME_PROFILE_MISSING'', ''RUNTIME_PROFILE_REQUIREMENT_MISSING'',
     ''RUNTIME_PROFILE_REQUIREMENT_CONFLICT'', ''RUNTIME_PROVIDER_MISSING'',
     ''RUNTIME_MATERIALIZATION_MISSING'', ''AUXILIARY_STATE_INVALID'',
     ''AUXILIARY_STATE_AMBIGUOUS'', ''AUXILIARY_STATE_MATERIALIZATION_FAILED'',
     ''SESSION_NOT_FOUND'', ''STALE_SESSION'', ''UNSUPPORTED_RUNTIME'', ''UNKNOWN_COMMAND'',
     ''WORKTREE_OWNED_BY_OTHER_SESSION'', ''WORKTREE_ALREADY_EXISTS'', ''INVALID_CLAIM'',
     ''INVALID_OPERATION'', ''INVALID_RESOURCE'', ''MISSING_RESOURCE_CLAIM'',
     ''INSUFFICIENT_CLAIM_MODE'', ''INVALID_CLAIM_RESOURCE'', ''CLAIM_PATH_TRAVERSAL'',
     ''CLAIM_SYMLINK_ESCAPE'', ''CLAIM_AMBIGUOUS_PATH'', ''UNSUPPORTED_CLAIM_GLOB'',
     ''CLAIM_REPOSITORY_MISMATCH'', ''CLAIM_SESSION_MISMATCH'', ''DUPLICATE_CLAIM'',
     ''CONTRADICTORY_CLAIM'', ''RESOURCE_CLAIM_CONFLICT'', ''CLAIM_NOT_FOUND'',
     ''SESSION_NOT_ACTIVE'', ''FILE_OPERATION_INVALID'', ''FILE_OPERATION_ID_CONFLICT'',
     ''FILE_OPERATION_INVALID_TRANSITION'', ''FILE_OPERATION_LIMIT'',
     ''FILE_OPERATION_AUTHORITY_DENIED'', ''FILE_OPERATION_UNSUPPORTED_SCHEMA'',
     ''FILE_OPERATION_CORRUPT'', ''UNSUPPORTED_CLAIM_SCHEMA_VERSION'', ''INVALID_COMMIT_MESSAGE'',
     ''COMMIT_EMPTY_DIFF'', ''UNEXPECTED_CHANGED_PATHS'', ''COMMIT_STAGING_FAILED'',
     ''COMMIT_FAILED'', ''COMMIT_RESULT_UNAVAILABLE'', ''COMMIT_RESULT_DIVERGED'',
     ''INVALID_REMOTE'', ''INVALID_REMOTE_BRANCH'', ''PUSH_TARGET_MISMATCH'',
     ''PUSH_REMOTE_INSPECTION_FAILED'', ''INTEGRATION_FETCH_FAILED'', ''PUSH_NO_UPSTREAM'',
     ''PUSH_BEHIND'', ''PUSH_DIVERGED'', ''PUSH_DIRTY_WORKTREE'', ''PUSH_FAILED'',
     ''INTERNAL_ERROR'']"

record exit_codes =
  exit_success :: int
  exit_usage :: int
  exit_rejected :: int
  exit_unavailable :: int
  exit_doctor :: int
  exit_internal :: int

definition EXIT_CODES :: exit_codes where
  "EXIT_CODES = \<lparr>exit_success = 0, exit_usage = 2, exit_rejected = 3, exit_unavailable = 4,
     exit_doctor = 5, exit_internal = 70\<rparr>"

definition default_exit_code :: "string \<Rightarrow> int" where
  "default_exit_code code =
     (if code = ''BACKEND_UNAVAILABLE'' \<or> code = ''SANDBOX_UNSUPPORTED_PLATFORM'' \<or>
         code = ''SANDBOX_CAPABILITY_UNAVAILABLE'' \<or> code = ''RUNTIME_PROFILE_MISSING'' \<or>
         code = ''RUNTIME_PROFILE_REQUIREMENT_MISSING'' \<or> code = ''RUNTIME_PROVIDER_MISSING'' \<or>
         code = ''RUNTIME_MATERIALIZATION_MISSING''
      then exit_unavailable EXIT_CODES
      else if code = ''DOCTOR_FAILED'' then exit_doctor EXIT_CODES
      else if code = ''UNKNOWN_COMMAND'' \<or> code = ''NO_COMMAND'' \<or> code = ''INVALID_ARGUMENT'' \<or>
         code = ''MISSING_ARGUMENT'' \<or> code = ''INVALID_OPERATION'' \<or>
         code = ''INVALID_COMMIT_MESSAGE'' \<or> code = ''INVALID_REMOTE'' \<or>
         code = ''INVALID_REMOTE_BRANCH''
      then exit_usage EXIT_CODES
      else if code = ''INTERNAL_ERROR'' then exit_internal EXIT_CODES
      else exit_rejected EXIT_CODES)"

datatype domain_error =
  DomainError (domain_code: string) (domain_message: string) (domain_exit_code: int)

definition domain_error :: "string \<Rightarrow> string \<Rightarrow> domain_error" where
  "domain_error code message = DomainError code message (default_exit_code code)"

lemma default_exit_code_failure: "default_exit_code code \<noteq> exit_success EXIT_CODES"
  by (simp add: default_exit_code_def EXIT_CODES_def)

end
