(* ===== verification/FileSystem.thy ===== *)
theory FileSystem
  imports Prelude
begin

text \<open>
  What the modelled code observes of the file system, and the three functions of Node's
  \<open>path\<close> module it uses (POSIX flavour). An absolute path is its list of segments; the
  observations are the fields of one record, a snapshot that one call of the modelled code
  reads. \<open>fs_tree\<close> builds such a snapshot from a list of entries, for concrete evaluations.
\<close>

section \<open>Paths\<close>

type_synonym abs_path = "string list"

abbreviation dot :: string where "dot \<equiv> ''.''"
abbreviation dotdot :: string where "dotdot \<equiv> ''..''"

text \<open>\<open>normalize_onto base segs\<close> is the segment arithmetic of \<open>path.resolve\<close> and \<open>path.join\<close>.\<close>

fun normalize_onto :: "abs_path \<Rightarrow> string list \<Rightarrow> abs_path" where
  "normalize_onto base [] = base"
| "normalize_onto base (s # segs) =
     (if s = [] \<or> s = dot then normalize_onto base segs
      else if s = dotdot then normalize_onto (butlast base) segs
      else normalize_onto (base @ [s]) segs)"

definition path_of_string :: "abs_path \<Rightarrow> string \<Rightarrow> abs_path" where
  "path_of_string cwd s =
     (if take 1 s = ''/'' then normalize_onto [] (split_on CHR ''/'' s)
      else normalize_onto cwd (split_on CHR ''/'' s))"

definition string_of_path :: "abs_path \<Rightarrow> string" where
  "string_of_path p = CHR ''/'' # join_with CHR ''/'' p"

fun common_prefix :: "'a list \<Rightarrow> 'a list \<Rightarrow> nat" where
  "common_prefix (x # xs) (y # ys) = (if x = y then Suc (common_prefix xs ys) else 0)"
| "common_prefix _ _ = 0"

definition path_relative :: "abs_path \<Rightarrow> abs_path \<Rightarrow> string list" where
  "path_relative from_path to_path =
     (let k = common_prefix from_path to_path
      in replicate (length from_path - k) dotdot @ drop k to_path)"

text \<open>Names a directory can list, and paths made of them.\<close>

definition real_name :: "string \<Rightarrow> bool" where
  "real_name s \<longleftrightarrow> s \<noteq> [] \<and> CHR ''/'' \<notin> set s \<and> s \<noteq> dot \<and> s \<noteq> dotdot"

definition real_path :: "abs_path \<Rightarrow> bool" where
  "real_path p \<longleftrightarrow> list_all real_name p"

lemma normalize_onto_real: "real_path segs \<Longrightarrow> normalize_onto base segs = base @ segs"
  by (induction segs arbitrary: base) (auto simp: real_path_def real_name_def)

lemma normalize_onto_real_path:
  "real_path base \<Longrightarrow> \<forall>s\<in>set segs. CHR ''/'' \<notin> set s \<Longrightarrow> real_path (normalize_onto base segs)"
proof (induction segs arbitrary: base)
  case (Cons s segs)
  have "list_all real_name (butlast base)"
    using Cons.prems(1) by (auto simp: real_path_def list_all_iff dest: in_set_butlastD)
  with Cons show ?case by (auto simp: real_path_def real_name_def)
qed simp

lemma path_of_string_real: "real_path cwd \<Longrightarrow> real_path (path_of_string cwd s)"
  using split_on_no_sep [of _ "CHR ''/''" s]
    normalize_onto_real_path [of cwd] normalize_onto_real_path [of "[]"]
  by (auto simp: path_of_string_def real_path_def)

lemma common_prefix_append [simp]: "common_prefix xs (xs @ ys) = length xs"
  by (induction xs) auto

lemma common_prefix_le: "common_prefix xs ys \<le> length xs"
  by (induction xs ys rule: common_prefix.induct) auto

lemma common_prefix_take: "take (common_prefix xs ys) xs = take (common_prefix xs ys) ys"
  by (induction xs ys rule: common_prefix.induct) auto

lemma path_relative_append [simp]: "path_relative root (root @ segs) = segs"
  by (simp add: path_relative_def)

text \<open>A relative path that does not start with \<open>..\<close> stays below its origin.\<close>

lemma path_relative_below:
  assumes "path_relative root p = rel" and "rel = [] \<or> hd rel \<noteq> dotdot"
  shows "p = root @ rel"
proof -
  let ?k = "common_prefix root p"
  have "length root - ?k = 0"
    using assms by (cases "length root - ?k") (auto simp: path_relative_def Let_def)
  then have "?k = length root" using common_prefix_le [of root p] by simp
  then have "take (length root) p = root" using common_prefix_take [of root p] by simp
  moreover have "drop (length root) p = rel"
    using assms(1) \<open>?k = length root\<close> by (simp add: path_relative_def)
  ultimately show ?thesis by (metis append_take_drop_id)
qed

section \<open>Observations\<close>

record fs_stats =
  st_symlink :: bool
  st_dir :: bool
  st_dev :: int
  st_ino :: int

datatype lstat_result = Present fs_stats | Absent | Unreadable

record dirent =
  de_name :: string
  de_symlink :: bool
  de_dir :: bool

record filesystem =
  fs_cwd :: abs_path
  fs_lstat :: "abs_path \<Rightarrow> lstat_result"
  fs_readdir :: "abs_path \<Rightarrow> dirent list option"
  fs_realpath :: "abs_path \<Rightarrow> abs_path option"
  fs_exists :: "abs_path \<Rightarrow> bool"

text \<open>
  Documented behaviour of the calls: the working directory and \<open>realpath\<close> are real paths, and
  \<open>readdir\<close> lists real names.
\<close>

definition fs_lawful :: "filesystem \<Rightarrow> bool" where
  "fs_lawful fs \<longleftrightarrow>
     real_path (fs_cwd fs) \<and>
     (\<forall>p q. fs_realpath fs p = Some q \<longrightarrow> real_path q) \<and>
     (\<forall>p es. fs_readdir fs p = Some es \<longrightarrow> list_all (\<lambda>e. real_name (de_name e)) es)"

text \<open>A file system on which a name that can be inspected is a name the directory lists.\<close>

definition fs_exact :: "filesystem \<Rightarrow> bool" where
  "fs_exact fs \<longleftrightarrow>
     (\<forall>p s st es. fs_lstat fs (p @ [s]) = Present st \<longrightarrow> fs_readdir fs p = Some es \<longrightarrow>
        s \<in> de_name ` set es)"

lemma fs_lawful_readdir:
  "fs_lawful fs \<Longrightarrow> fs_readdir fs p = Some es \<Longrightarrow> e \<in> set es \<Longrightarrow> real_name (de_name e)"
  by (auto simp: fs_lawful_def list_all_iff)

section \<open>Concrete snapshots\<close>

datatype fs_node = Dir | File | Link

definition fs_tree :: "(abs_path \<times> fs_node) list \<Rightarrow> filesystem" where
  "fs_tree nodes =
     \<lparr>fs_cwd = [],
      fs_lstat = (\<lambda>p. if p = [] then Present \<lparr>st_symlink = False, st_dir = True, st_dev = 1, st_ino = 1\<rparr>
        else case map_of nodes p of
          None \<Rightarrow> Absent
        | Some n \<Rightarrow> Present \<lparr>st_symlink = (n = Link), st_dir = (n = Dir), st_dev = 1, st_ino = 0\<rparr>),
      fs_readdir = (\<lambda>p. if p = [] \<or> map_of nodes p = Some Dir
        then Some (map (\<lambda>(q, n). \<lparr>de_name = last q, de_symlink = (n = Link), de_dir = (n = Dir)\<rparr>)
               (filter (\<lambda>(q, n). q \<noteq> [] \<and> butlast q = p) nodes))
        else None),
      fs_realpath = (\<lambda>p. if p = [] \<or> map_of nodes p \<noteq> None then Some p else None),
      fs_exists = (\<lambda>p. p = [] \<or> map_of nodes p \<noteq> None)\<rparr>"

lemma fs_tree_lawful:
  assumes "list_all (\<lambda>(p, n). real_path p) nodes"
  shows "fs_lawful (fs_tree nodes)"
proof -
  have real: "(p, n) \<in> set nodes \<Longrightarrow> real_path p" for p n
    using assms by (auto simp: list_all_iff)
  then have "(p, n) \<in> set nodes \<Longrightarrow> p \<noteq> [] \<Longrightarrow> real_name (last p)" for p n
    by (fastforce simp: real_path_def list_all_iff)
  with real show ?thesis
    by (auto simp: fs_lawful_def fs_tree_def list_all_iff split: if_splits
        intro: real dest!: map_of_SomeD) (simp_all add: real_path_def)
qed

lemma fs_tree_exact: "fs_exact (fs_tree nodes)"
  unfolding fs_exact_def fs_tree_def
  by (fastforce split: if_splits option.splits dest!: map_of_SomeD simp: image_iff)

end
