(* ===== verification/ClaimResources.thy ===== *)
theory ClaimResources
  imports Errors FileSystem GlobOverlap
begin

text \<open>
  src/src/resource-claims.ts, first part: the data, the claim modes and their two matrices, claim
  identity, the canonical resource syntax, and its resolution against the physical worktree
  (\<open>canonicalizeClaimResource\<close>, \<open>canonicalizeConcretePath\<close>) with what a successful run
  establishes. An input that arrives from outside is a \<open>js_value\<close>, so that the
  source's run-time type tests are branches of the model.
\<close>

section \<open>Data\<close>

datatype js_value = JsUndefined | JsNull | JsString string | JsOther

definition nullish :: "js_value \<Rightarrow> js_value \<Rightarrow> js_value" where
  "nullish a b = (if a = JsUndefined \<or> a = JsNull then b else a)"

definition RESOURCE_CLAIM_SCHEMA_VERSION :: int where
  "RESOURCE_CLAIM_SCHEMA_VERSION = 3"

definition LEGACY_RESOURCE_CLAIM_SCHEMA_VERSION :: int where
  "LEGACY_RESOURCE_CLAIM_SCHEMA_VERSION = 2"

datatype claim_mode = Read | Write | ExclusiveWrite

definition mode_name :: "claim_mode \<Rightarrow> string" where
  "mode_name m = (case m of Read \<Rightarrow> ''read'' | Write \<Rightarrow> ''write'' | ExclusiveWrite \<Rightarrow> ''exclusive-write'')"

definition RESOURCE_CLAIM_MODES :: "claim_mode list" where
  "RESOURCE_CLAIM_MODES = [Read, Write, ExclusiveWrite]"

text \<open>\<open>isResourceClaimMode\<close>, returning the mode it recognised.\<close>

definition resource_claim_mode :: "js_value \<Rightarrow> claim_mode option" where
  "resource_claim_mode v =
     (case v of
        JsString s \<Rightarrow> find (\<lambda>m. mode_name m = s) RESOURCE_CLAIM_MODES
      | _ \<Rightarrow> None)"

definition RESOURCE_CLAIM_SHARING_KIND :: string where
  "RESOURCE_CLAIM_SHARING_KIND = ''isolated-worktree''"

record shared_write_binding =
  sw_kind :: string
  sw_group_id :: string

datatype identity_status = Verified | IdentityMissing | IdentityAmbiguous

record worktree_identity =
  wi_status :: identity_status
  wi_repository_id :: "string option"
  wi_session_id :: "string option"
  wi_worktree_id :: "string option"
  wi_worktree_path :: "string option"

record resource_claim =
  rc_schema_version :: int
  rc_claim_id :: string
  rc_session_id :: string
  rc_repository_id :: string
  rc_worktree_path :: string
  rc_resource :: string
  rc_mode :: claim_mode
  rc_sharing :: "shared_write_binding option"
  rc_created_at :: string
  rc_updated_at :: string

record coordination_facts =
  cf_left :: resource_claim
  cf_right :: resource_claim
  cf_left_identity :: worktree_identity
  cf_right_identity :: worktree_identity
  cf_claim_set_generation :: int
  cf_observed_claim_set_generation :: int

datatype raw_sharing =
    SharingUndefined
  | SharingNull
  | SharingNotRecord
  | SharingRecord js_value js_value

record claim_input =
  ci_resource :: js_value
  ci_mode :: js_value
  ci_repositoryId :: js_value
  ci_repository_id :: js_value
  ci_sessionId :: js_value
  ci_session_id :: js_value
  ci_worktreePath :: js_value
  ci_worktree_path :: js_value
  ci_sharing :: raw_sharing

datatype raw_claim_input = InputNotRecord | InputRecord claim_input

record claim_owner_context =
  co_session_id :: string
  co_repository_id :: string
  co_worktree_path :: string
  co_state :: string

record canonical_claim_input =
  cc_resource :: string
  cc_mode :: claim_mode
  cc_sharing :: "shared_write_binding option"

section \<open>Modes: strength, compatibility, transitions\<close>

definition RESOURCE_CLAIM_ACCESS_STRENGTH :: "claim_mode \<Rightarrow> nat" where
  "RESOURCE_CLAIM_ACCESS_STRENGTH m = (case m of Read \<Rightarrow> 0 | Write \<Rightarrow> 1 | ExclusiveWrite \<Rightarrow> 2)"

instantiation claim_mode :: linorder
begin

definition less_eq_claim_mode :: "claim_mode \<Rightarrow> claim_mode \<Rightarrow> bool" where
  "a \<le> b \<longleftrightarrow> RESOURCE_CLAIM_ACCESS_STRENGTH a \<le> RESOURCE_CLAIM_ACCESS_STRENGTH b"

definition less_claim_mode :: "claim_mode \<Rightarrow> claim_mode \<Rightarrow> bool" where
  "a < b \<longleftrightarrow> RESOURCE_CLAIM_ACCESS_STRENGTH a < RESOURCE_CLAIM_ACCESS_STRENGTH b"

instance
  by standard
    (auto simp: less_eq_claim_mode_def less_claim_mode_def RESOURCE_CLAIM_ACCESS_STRENGTH_def
      split: claim_mode.splits)

end

definition claim_mode_grants_access :: "claim_mode \<Rightarrow> claim_mode \<Rightarrow> bool" where
  "claim_mode_grants_access granted required \<longleftrightarrow>
     RESOURCE_CLAIM_ACCESS_STRENGTH granted \<ge> RESOURCE_CLAIM_ACCESS_STRENGTH required"

datatype compatibility = Compatible | Conflict

fun RESOURCE_CLAIM_COMPATIBILITY_MATRIX :: "claim_mode \<Rightarrow> claim_mode \<Rightarrow> compatibility" where
  "RESOURCE_CLAIM_COMPATIBILITY_MATRIX Read Read = Compatible"
| "RESOURCE_CLAIM_COMPATIBILITY_MATRIX Read Write = Compatible"
| "RESOURCE_CLAIM_COMPATIBILITY_MATRIX Read ExclusiveWrite = Conflict"
| "RESOURCE_CLAIM_COMPATIBILITY_MATRIX Write Read = Compatible"
| "RESOURCE_CLAIM_COMPATIBILITY_MATRIX Write Write = Conflict"
| "RESOURCE_CLAIM_COMPATIBILITY_MATRIX Write ExclusiveWrite = Conflict"
| "RESOURCE_CLAIM_COMPATIBILITY_MATRIX ExclusiveWrite Read = Conflict"
| "RESOURCE_CLAIM_COMPATIBILITY_MATRIX ExclusiveWrite Write = Conflict"
| "RESOURCE_CLAIM_COMPATIBILITY_MATRIX ExclusiveWrite ExclusiveWrite = Conflict"

datatype transition_mode = NoClaim | ClaimMode claim_mode

datatype claim_transition = Acquire | NoOp | Change | Release

fun RESOURCE_CLAIM_TRANSITION_MATRIX :: "transition_mode \<Rightarrow> transition_mode \<Rightarrow> claim_transition" where
  "RESOURCE_CLAIM_TRANSITION_MATRIX NoClaim NoClaim = NoOp"
| "RESOURCE_CLAIM_TRANSITION_MATRIX NoClaim (ClaimMode Read) = Acquire"
| "RESOURCE_CLAIM_TRANSITION_MATRIX NoClaim (ClaimMode Write) = Acquire"
| "RESOURCE_CLAIM_TRANSITION_MATRIX NoClaim (ClaimMode ExclusiveWrite) = Acquire"
| "RESOURCE_CLAIM_TRANSITION_MATRIX (ClaimMode Read) NoClaim = Release"
| "RESOURCE_CLAIM_TRANSITION_MATRIX (ClaimMode Read) (ClaimMode Read) = NoOp"
| "RESOURCE_CLAIM_TRANSITION_MATRIX (ClaimMode Read) (ClaimMode Write) = Change"
| "RESOURCE_CLAIM_TRANSITION_MATRIX (ClaimMode Read) (ClaimMode ExclusiveWrite) = Change"
| "RESOURCE_CLAIM_TRANSITION_MATRIX (ClaimMode Write) NoClaim = Release"
| "RESOURCE_CLAIM_TRANSITION_MATRIX (ClaimMode Write) (ClaimMode Read) = Change"
| "RESOURCE_CLAIM_TRANSITION_MATRIX (ClaimMode Write) (ClaimMode Write) = NoOp"
| "RESOURCE_CLAIM_TRANSITION_MATRIX (ClaimMode Write) (ClaimMode ExclusiveWrite) = Change"
| "RESOURCE_CLAIM_TRANSITION_MATRIX (ClaimMode ExclusiveWrite) NoClaim = Release"
| "RESOURCE_CLAIM_TRANSITION_MATRIX (ClaimMode ExclusiveWrite) (ClaimMode Read) = Change"
| "RESOURCE_CLAIM_TRANSITION_MATRIX (ClaimMode ExclusiveWrite) (ClaimMode Write) = Change"
| "RESOURCE_CLAIM_TRANSITION_MATRIX (ClaimMode ExclusiveWrite) (ClaimMode ExclusiveWrite) = NoOp"

definition resource_claim_transition_mode :: "js_value \<Rightarrow> transition_mode option" where
  "resource_claim_transition_mode v =
     (if v = JsString ''none'' then Some NoClaim
      else map_option ClaimMode (resource_claim_mode v))"

definition claim_error :: "string \<Rightarrow> string \<Rightarrow> registry_error" where
  "claim_error code message = SessionRegistryError code message"

definition classify_resource_claim_transition ::
  "js_value \<Rightarrow> js_value \<Rightarrow> registry_error + claim_transition" where
  "classify_resource_claim_transition source target =
     (case (resource_claim_transition_mode source, resource_claim_transition_mode target) of
        (Some s, Some t) \<Rightarrow> Inr (RESOURCE_CLAIM_TRANSITION_MATRIX s t)
      | _ \<Rightarrow> Inl (claim_error ''INVALID_CLAIM'' ''Resource claim transition mode is unsupported''))"

section \<open>Claim identity\<close>

text \<open>The text that is hashed; \<open>sha\<close> is \<open>createHash("sha256")\<close> in hexadecimal.\<close>

definition claim_id_preimage ::
  "string \<Rightarrow> string \<Rightarrow> claim_mode \<Rightarrow> shared_write_binding option \<Rightarrow> string" where
  "claim_id_preimage session_id resource mode sharing =
     (session_id @ NUL # mode_name mode @ NUL # resource) @
     (case sharing of None \<Rightarrow> [] | Some b \<Rightarrow> NUL # sw_kind b @ NUL # sw_group_id b)"

definition canonical_claim_id ::
  "(string \<Rightarrow> string) \<Rightarrow> string \<Rightarrow> string \<Rightarrow> claim_mode \<Rightarrow> shared_write_binding option \<Rightarrow> string" where
  "canonical_claim_id sha session_id resource mode sharing =
     ''claim-'' @ sha (claim_id_preimage session_id resource mode sharing)"

section \<open>Canonical resource syntax\<close>

definition is_ascii_letter :: "char \<Rightarrow> bool" where
  "is_ascii_letter c \<longleftrightarrow> (CHR ''A'' \<le> c \<and> c \<le> CHR ''Z'') \<or> (CHR ''a'' \<le> c \<and> c \<le> CHR ''z'')"

definition windows_drive_relative_path :: "string \<Rightarrow> bool" where
  "windows_drive_relative_path s =
     (case s of c # d # _ \<Rightarrow> is_ascii_letter c \<and> d = CHR '':'' | _ \<Rightarrow> False)"

definition windows_absolute_path :: "string \<Rightarrow> bool" where
  "windows_absolute_path s =
     (case s of c # d # e # _ \<Rightarrow> is_ascii_letter c \<and> d = CHR '':'' \<and> (e = CHR 0x5C \<or> e = slash)
      | _ \<Rightarrow> False)"

definition unsupported_glob_syntax :: "string \<Rightarrow> bool" where
  "unsupported_glob_syntax s = list_ex (\<lambda>c. c \<in> set ''[]{}()'') s"

definition has_wildcard :: "string \<Rightarrow> bool" where
  "has_wildcard s = list_ex (\<lambda>c. c = star \<or> c = qmark) s"

text \<open>\<open>s.includes("**")\<close>\<close>

fun has_double_star :: "string \<Rightarrow> bool" where
  "has_double_star (a # b # s) \<longleftrightarrow> (a = star \<and> b = star) \<or> has_double_star (b # s)"
| "has_double_star _ \<longleftrightarrow> False"

text \<open>NFC leaves every string of code units below 0x100 as it is.\<close>

definition normalize_nfc :: "string \<Rightarrow> string" where
  "normalize_nfc s = s"

definition validate_resource_string :: "js_value \<Rightarrow> registry_error + string" where
  "validate_resource_string v =
     (case v of
        JsString resource \<Rightarrow>
          if resource = [] then
            Inl (claim_error ''INVALID_CLAIM_RESOURCE'' ''Claim resource must be a non-empty string'')
          else if NUL \<in> set resource then
            Inl (claim_error ''INVALID_CLAIM_RESOURCE'' ''Claim resource contains a NUL byte'')
          else if resource \<noteq> normalize_nfc resource then
            Inl (claim_error ''CLAIM_AMBIGUOUS_PATH'' ''Claim resource is not Unicode-normalized'')
          else if CHR 0x5C \<in> set resource then
            Inl (claim_error ''CLAIM_AMBIGUOUS_PATH''
              ''Backslash separators and escapes are unsupported'')
          else if take 1 resource = ''/'' \<or> windows_absolute_path resource \<or>
                  windows_drive_relative_path resource then
            Inl (claim_error ''CLAIM_PATH_TRAVERSAL'' ''Claim resource must be repository-relative'')
          else Inr resource
      | _ \<Rightarrow> Inl (claim_error ''INVALID_CLAIM_RESOURCE'' ''Claim resource must be a non-empty string''))"

definition canonical_resource_syntax :: "string \<Rightarrow> registry_error + string" where
  "canonical_resource_syntax resource =
     (let segments = split_on slash resource in
      if list_ex (\<lambda>s. s = dotdot) segments then
        Inl (claim_error ''CLAIM_PATH_TRAVERSAL'' ''Claim resource contains a parent traversal segment'')
      else if segments = [] \<or> list_ex (\<lambda>s. s = [] \<or> s = dot) segments then
        Inl (claim_error ''CLAIM_AMBIGUOUS_PATH'' ''Claim resource contains ambiguous path separators'')
      else if list_ex unsupported_glob_syntax segments then
        Inl (claim_error ''UNSUPPORTED_CLAIM_GLOB'' ''Claim resource uses unsupported glob syntax'')
      else if list_ex (\<lambda>s. has_double_star s \<and> s \<noteq> ''**'') segments then
        Inl (claim_error ''UNSUPPORTED_CLAIM_GLOB''
          ''Double-star must occupy a complete path segment'')
      else if length segments = 1 \<and> hd segments = ''**'' then Inr ''**''
      else Inr (join_with slash segments))"

definition assert_canonical_claim_resource :: "js_value \<Rightarrow> registry_error + unit" where
  "assert_canonical_claim_resource v =
     bind_sum (validate_resource_string v) (\<lambda>resource.
     bind_sum (canonical_resource_syntax resource) (\<lambda>canonical.
     require (canonical = resource)
       (claim_error ''CLAIM_AMBIGUOUS_PATH'' ''Persisted resource is not canonical'')))"

section \<open>Resolution against the physical worktree\<close>

definition MAX_SYMLINK_SCAN_ENTRIES :: nat where
  "MAX_SYMLINK_SCAN_ENTRIES = 20000"

definition MAX_PHYSICAL_IDENTITY_ENTRIES :: nat where
  "MAX_PHYSICAL_IDENTITY_ENTRIES = 20000"

definition lstat_if_present :: "filesystem \<Rightarrow> abs_path \<Rightarrow> registry_error + fs_stats option" where
  "lstat_if_present fs candidate =
     (case fs_lstat fs candidate of
        Present st \<Rightarrow> Inr (Some st)
      | Absent \<Rightarrow> Inr None
      | Unreadable \<Rightarrow> Inl (claim_error ''CLAIM_AMBIGUOUS_PATH'' ''Could not inspect claim path''))"

definition assert_within_root :: "abs_path \<Rightarrow> abs_path \<Rightarrow> registry_error + unit" where
  "assert_within_root root candidate =
     (let rel = path_relative root candidate in
      if rel = [] \<or> hd rel = dotdot then
        Inl (claim_error ''CLAIM_PATH_TRAVERSAL'' ''Claim resource escapes its owning worktree'')
      else Inr ())"

definition canonical_worktree_root :: "filesystem \<Rightarrow> string \<Rightarrow> registry_error + abs_path" where
  "canonical_worktree_root fs worktree_path =
     (let lexical = path_of_string (fs_cwd fs) worktree_path in
      bind_sum (lstat_if_present fs lexical) (\<lambda>entry.
      case entry of
        None \<Rightarrow> Inl (SessionRegistryError ''WORKTREE_IDENTITY_AMBIGUOUS''
                  ''The owning session worktree is missing or not a directory'')
      | Some st \<Rightarrow>
          if st_symlink st then
            Inl (claim_error ''CLAIM_SYMLINK_ESCAPE'' ''The owning session worktree is a symbolic link'')
          else if \<not> st_dir st then
            Inl (SessionRegistryError ''WORKTREE_IDENTITY_AMBIGUOUS''
              ''The owning session worktree is missing or not a directory'')
          else
            (case fs_realpath fs lexical of
               None \<Rightarrow> Inl (SessionRegistryError ''WORKTREE_IDENTITY_AMBIGUOUS''
                         ''The owning session worktree cannot be resolved'')
             | Some realpath \<Rightarrow>
                 if normalize_onto [] realpath \<noteq> lexical then
                   Inl (claim_error ''CLAIM_SYMLINK_ESCAPE''
                     ''The owning worktree has a symbolic-link alias'')
                 else Inr realpath)))"

definition same_physical_entry :: "fs_stats \<Rightarrow> fs_stats \<Rightarrow> bool" where
  "same_physical_entry left right \<longleftrightarrow>
     st_ino left \<noteq> 0 \<and> st_ino right \<noteq> 0 \<and> st_dev left = st_dev right \<and> st_ino left = st_ino right"

definition physical_candidate ::
  "filesystem \<Rightarrow> abs_path \<Rightarrow> fs_stats \<Rightarrow> dirent \<Rightarrow> registry_error + bool" where
  "physical_candidate fs parent requested entry =
     (case fs_lstat fs (normalize_onto parent [de_name entry]) of
        Present candidate \<Rightarrow> Inr (same_physical_entry requested candidate)
      | Absent \<Rightarrow> Inr False
      | Unreadable \<Rightarrow>
          Inl (claim_error ''CLAIM_AMBIGUOUS_PATH'' ''Could not inspect physical path identity''))"

definition resolve_physical_entry_name ::
  "filesystem \<Rightarrow> abs_path \<Rightarrow> string \<Rightarrow> fs_stats \<Rightarrow> registry_error + string" where
  "resolve_physical_entry_name fs parent requested_name requested =
     (if requested_name = [] then Inr requested_name
      else case fs_readdir fs parent of
        None \<Rightarrow> Inl (claim_error ''CLAIM_AMBIGUOUS_PATH'' ''Could not inspect physical path identity'')
      | Some entries \<Rightarrow>
          if length entries > MAX_PHYSICAL_IDENTITY_ENTRIES then
            Inl (claim_error ''CLAIM_AMBIGUOUS_PATH''
              ''Directory is too large to validate physical path identity'')
          else (case find (\<lambda>entry. de_name entry = requested_name) entries of
              Some exact \<Rightarrow> Inr (de_name exact)
            | None \<Rightarrow>
                bind_sum (filter_sum (physical_candidate fs parent requested) entries) (\<lambda>matches.
                if length matches \<noteq> 1 then
                  Inl (claim_error ''CLAIM_AMBIGUOUS_PATH''
                    ''Could not establish a unique physical path identity'')
                else Inr (de_name (hd matches)))))"

text \<open>
  The loop of \<open>walkStaticPath\<close>: \<open>current\<close> is the physical path so far, \<open>consumed\<close> the loop
  index. The result pairs the fields \<open>path\<close> and \<open>consumed\<close> of \<open>StaticPath\<close>.
\<close>

fun walk_static_path_from ::
  "filesystem \<Rightarrow> abs_path \<Rightarrow> abs_path \<Rightarrow> nat \<Rightarrow> string list \<Rightarrow> registry_error + abs_path \<times> nat" where
  "walk_static_path_from fs root current consumed [] = Inr (current, consumed)"
| "walk_static_path_from fs root current consumed (segment # rest) =
     (let candidate = normalize_onto current [segment] in
      bind_sum (assert_within_root root candidate) (\<lambda>_.
      bind_sum (lstat_if_present fs candidate) (\<lambda>entry.
      case entry of
        None \<Rightarrow> Inr (butlast candidate, consumed)
      | Some st \<Rightarrow>
          if st_symlink st then
            Inl (claim_error ''CLAIM_SYMLINK_ESCAPE'' ''Claim path contains a symbolic link'')
          else if \<not> st_dir st \<and> rest \<noteq> [] then
            Inl (claim_error ''INVALID_CLAIM_RESOURCE'' ''Claim path traverses a non-directory'')
          else
            bind_sum (resolve_physical_entry_name fs (butlast candidate) segment st) (\<lambda>name.
            walk_static_path_from fs root (normalize_onto (butlast candidate) [name])
              (consumed + 1) rest))))"

definition walk_static_path ::
  "filesystem \<Rightarrow> abs_path \<Rightarrow> string list \<Rightarrow> registry_error + abs_path \<times> nat" where
  "walk_static_path fs root segments = walk_static_path_from fs root root 0 segments"

definition join_canonical_resource :: "abs_path \<Rightarrow> abs_path \<Rightarrow> string list \<Rightarrow> string" where
  "join_canonical_resource root existing_prefix unresolved =
     join_with slash (path_relative root (normalize_onto existing_prefix unresolved))"

text \<open>
  The depth-first \<open>visit\<close> of \<open>assertNoSymlinkCandidates\<close>: the stack holds, for every
  directory being visited, the entries its loop has still to see.
\<close>

function visit_candidates ::
  "filesystem \<Rightarrow> bool \<Rightarrow> nat \<Rightarrow> (abs_path \<times> dirent list) list \<Rightarrow> registry_error + unit" where
  "visit_candidates fs deep inspected [] = Inr ()"
| "visit_candidates fs deep inspected ((directory, []) # stack) = visit_candidates fs deep inspected stack"
| "visit_candidates fs deep inspected ((directory, entry # entries) # stack) =
     (if inspected + 1 > MAX_SYMLINK_SCAN_ENTRIES then
        Inl (claim_error ''CLAIM_AMBIGUOUS_PATH'' ''Glob candidate set is too large to validate safely'')
      else if de_symlink entry then
        Inl (claim_error ''CLAIM_SYMLINK_ESCAPE'' ''Glob may select a symbolic link'')
      else if deep \<and> de_dir entry then
        (case fs_readdir fs (normalize_onto directory [de_name entry]) of
           None \<Rightarrow> Inl (claim_error ''CLAIM_AMBIGUOUS_PATH'' ''Could not inspect glob candidates'')
         | Some inner \<Rightarrow>
             visit_candidates fs deep (inspected + 1)
               ((normalize_onto directory [de_name entry], inner) # (directory, entries) # stack))
      else visit_candidates fs deep (inspected + 1) ((directory, entries) # stack))"
  by pat_completeness auto
termination
  by (relation "measures [\<lambda>(fs, deep, inspected, stack). MAX_SYMLINK_SCAN_ENTRIES - inspected,
        \<lambda>(fs, deep, inspected, stack). length stack]") auto

definition assert_no_symlink_candidates :: "filesystem \<Rightarrow> abs_path \<Rightarrow> bool \<Rightarrow> registry_error + unit" where
  "assert_no_symlink_candidates fs root recursive =
     (if \<not> fs_exists fs root then Inr ()
      else case fs_readdir fs root of
        None \<Rightarrow> Inl (claim_error ''CLAIM_AMBIGUOUS_PATH'' ''Could not inspect glob candidates'')
      | Some entries \<Rightarrow> visit_candidates fs recursive 0 [(root, entries)])"

text \<open>
  The last branch of \<open>canonicalizeClaimResource\<close>, for a resource without wildcards: the
  candidate and, where it exists, its real path have to lie below the root. A failing
  \<open>realpath\<close> is caught and reported as an escape.
\<close>

definition assert_concrete_candidate ::
  "filesystem \<Rightarrow> abs_path \<Rightarrow> abs_path \<Rightarrow> registry_error + unit" where
  "assert_concrete_candidate fs root candidate =
     bind_sum (assert_within_root root candidate) (\<lambda>_.
     bind_sum (lstat_if_present fs candidate) (\<lambda>entry.
     case entry of
       None \<Rightarrow> Inr ()
     | Some st \<Rightarrow>
         if st_symlink st then
           Inl (claim_error ''CLAIM_SYMLINK_ESCAPE'' ''Resource path is a symbolic link'')
         else (case fs_realpath fs candidate of
             None \<Rightarrow> Inl (claim_error ''CLAIM_SYMLINK_ESCAPE'' ''Resource path escapes its owning worktree'')
           | Some realpath \<Rightarrow> assert_within_root root realpath)))"

definition canonicalize_claim_resource ::
  "filesystem \<Rightarrow> js_value \<Rightarrow> string \<Rightarrow> registry_error + string" where
  "canonicalize_claim_resource fs v worktree_path =
     bind_sum (validate_resource_string v) (\<lambda>resource.
     bind_sum (canonical_resource_syntax resource) (\<lambda>canonical.
     bind_sum (canonical_worktree_root fs worktree_path) (\<lambda>root.
     let segments = split_on slash canonical;
         static_segments = takeWhile (\<lambda>s. \<not> has_wildcard s) segments;
         wild_segments = dropWhile (\<lambda>s. \<not> has_wildcard s) segments in
     bind_sum (walk_static_path fs root static_segments) (\<lambda>(static_path, consumed).
     bind_sum
       (if wild_segments \<noteq> [] then
          assert_no_symlink_candidates fs static_path (''**'' \<in> set wild_segments)
        else assert_concrete_candidate fs root
               (normalize_onto static_path (drop consumed segments))) (\<lambda>_.
     Inr (join_canonical_resource root static_path (drop consumed segments)))))))"

definition canonicalize_concrete_path ::
  "filesystem \<Rightarrow> js_value \<Rightarrow> string \<Rightarrow> registry_error + string" where
  "canonicalize_concrete_path fs v worktree_path =
     bind_sum (validate_resource_string v) (\<lambda>resource.
     bind_sum (canonical_resource_syntax resource) (\<lambda>canonical.
     bind_sum (canonical_worktree_root fs worktree_path) (\<lambda>root.
     let segments = split_on slash canonical in
     bind_sum (walk_static_path fs root segments) (\<lambda>(candidate, consumed).
     bind_sum (assert_within_root root (normalize_onto candidate (drop consumed segments))) (\<lambda>_.
     Inr (join_canonical_resource root candidate (drop consumed segments)))))))"

section \<open>The canonical syntax\<close>

definition canonical_resource :: "string \<Rightarrow> bool" where
  "canonical_resource r \<longleftrightarrow>
     NUL \<notin> set r \<and> CHR 0x5C \<notin> set r \<and> \<not> windows_drive_relative_path r \<and>
     (\<forall>s\<in>set (split_on slash r).
        real_name s \<and> \<not> unsupported_glob_syntax s \<and> (has_double_star s \<longrightarrow> s = ''**''))"

lemma windows_absolute_is_drive: "windows_absolute_path s \<Longrightarrow> windows_drive_relative_path s"
  by (auto simp: windows_absolute_path_def windows_drive_relative_path_def split: list.splits)

lemma canonical_segment: "canonical_resource r \<Longrightarrow> s \<in> set (split_on slash r) \<Longrightarrow> real_name s"
  by (simp add: canonical_resource_def)

lemma canonical_resource_nonempty: "canonical_resource r \<Longrightarrow> r \<noteq> []"
  using canonical_segment [of r "[]"] by (cases r) (simp_all add: real_name_def)

lemma canonical_resource_relative: "canonical_resource r \<Longrightarrow> take 1 r \<noteq> ''/''"
  using canonical_segment [of r "[]"] by (cases r) (auto simp: real_name_def split: if_splits)

lemma canonical_resource_syntax_Inr:
  "canonical_resource_syntax r = Inr c \<longleftrightarrow>
     c = r \<and> (\<forall>s\<in>set (split_on slash r).
        real_name s \<and> \<not> unsupported_glob_syntax s \<and> (has_double_star s \<longrightarrow> s = ''**''))"
proof -
  have "join_with slash (split_on slash r) = ''**''"
    if "length (split_on slash r) = 1" "hd (split_on slash r) = ''**''"
    using that by (cases "split_on slash r") auto
  then show ?thesis
    using split_on_no_sep [of _ slash r]
    by (auto simp: canonical_resource_syntax_def Let_def list_ex_iff real_name_def split: if_splits)
qed

lemma validate_resource_string_Inr:
  "validate_resource_string v = Inr r \<longleftrightarrow>
     v = JsString r \<and> r \<noteq> [] \<and> NUL \<notin> set r \<and> CHR 0x5C \<notin> set r \<and> take 1 r \<noteq> ''/'' \<and>
     \<not> windows_drive_relative_path r"
  using windows_absolute_is_drive
  by (auto simp: validate_resource_string_def normalize_nfc_def split: js_value.splits if_splits)

lemma canonical_resource_steps:
  "validate_resource_string v = Inr r \<and> canonical_resource_syntax r = Inr c \<longleftrightarrow>
     v = JsString r \<and> c = r \<and> canonical_resource r"
  using canonical_resource_nonempty canonical_resource_relative
  by (auto simp: validate_resource_string_Inr canonical_resource_syntax_Inr canonical_resource_def)

lemma assert_canonical_iff:
  "assert_canonical_claim_resource (JsString r) = Inr () \<longleftrightarrow> canonical_resource r"
  using canonical_resource_steps [of "JsString r" r r]
  by (auto simp: assert_canonical_claim_resource_def sum_simps canonical_resource_syntax_Inr
      validate_resource_string_Inr)

lemma canonical_pattern_ok: "canonical_resource r \<Longrightarrow> pattern_ok r"
  by (auto simp: canonical_resource_def pattern_ok_def real_name_def)

lemma canonical_real_path: "canonical_resource r \<Longrightarrow> real_path (split_on slash r)"
  by (simp add: canonical_resource_def real_path_def list_all_iff)

section \<open>The walk\<close>

lemma assert_within_root_Inr:
  "assert_within_root root p = Inr u \<longleftrightarrow> path_relative root p \<noteq> [] \<and> hd (path_relative root p) \<noteq> dotdot"
  by (simp add: assert_within_root_def Let_def)

lemma lstat_if_present_Inr:
  "lstat_if_present fs p = Inr entry \<longleftrightarrow>
     (case entry of None \<Rightarrow> fs_lstat fs p = Absent | Some st \<Rightarrow> fs_lstat fs p = Present st)"
  by (auto simp: lstat_if_present_def split: lstat_result.splits option.splits)

lemma resolve_physical_entry_name_cases:
  assumes "resolve_physical_entry_name fs parent s st = Inr name" "s \<noteq> []"
  obtains es where "fs_readdir fs parent = Some es" "name = s" "s \<in> de_name ` set es"
  | es e where "fs_readdir fs parent = Some es" "s \<notin> de_name ` set es" "e \<in> set es" "name = de_name e"
proof -
  obtain es where es: "fs_readdir fs parent = Some es"
    using assms by (auto simp: resolve_physical_entry_name_def split: option.splits)
  show ?thesis
  proof (cases "find (\<lambda>e. de_name e = s) es")
    case (Some e)
    then have "e \<in> set es" "de_name e = s" by (auto simp: find_Some_iff)
    moreover have "name = de_name e"
      using Some es assms by (auto simp: resolve_physical_entry_name_def split: if_splits)
    ultimately show ?thesis using that(1) [OF es] by blast
  next
    case None
    then obtain ms where ms: "filter_sum (physical_candidate fs parent st) es = Inr ms"
      "length ms = 1" "name = de_name (hd ms)"
      using es assms by (auto simp: resolve_physical_entry_name_def sum_simps split: if_splits)
    then have "hd ms \<in> set ms" by (cases ms) auto
    then have "hd ms \<in> set es" using filter_sum_Inr [OF ms(1)] by auto
    with None ms es that(2) show ?thesis by (auto simp: find_None_iff)
  qed
qed

lemma resolve_physical_entry_name_real:
  assumes "fs_lawful fs" "real_name s" "resolve_physical_entry_name fs parent s st = Inr name"
  shows "real_name name"
  using assms(3)
proof (rule resolve_physical_entry_name_cases)
  show "s \<noteq> []" using assms(2) by (simp add: real_name_def)
qed (use assms fs_lawful_readdir in blast)+

lemma resolve_physical_entry_name_exact:
  assumes "fs_exact fs" "fs_lstat fs (parent @ [s]) = Present st" "real_name s"
    and "resolve_physical_entry_name fs parent s st' = Inr name"
  shows "name = s"
  using assms(4)
proof (rule resolve_physical_entry_name_cases)
  show "s \<noteq> []" using assms(3) by (simp add: real_name_def)
qed (use assms in \<open>auto simp: fs_exact_def\<close>)

text \<open>What a successful walk establishes about every segment it consumed.\<close>

inductive walked :: "filesystem \<Rightarrow> abs_path \<Rightarrow> string list \<Rightarrow> string list \<Rightarrow> bool" for fs where
  walked_end: "walked fs p [] []"
| walked_absent: "fs_lstat fs (p @ [s]) = Absent \<Longrightarrow> walked fs p (s # rest) []"
| walked_step: "fs_lstat fs (p @ [s]) = Present st \<Longrightarrow> \<not> st_symlink st \<Longrightarrow>
    st_dir st \<or> rest = [] \<Longrightarrow> real_name name \<Longrightarrow> (fs_exact fs \<Longrightarrow> name = s) \<Longrightarrow>
    walked fs (p @ [name]) rest names \<Longrightarrow> walked fs p (s # rest) (name # names)"

lemma walk_static_path_from_walked:
  assumes "fs_lawful fs" "real_path segs"
    and "walk_static_path_from fs root current consumed segs = Inr (p, k)"
  shows "\<exists>names. p = current @ names \<and> k = consumed + length names \<and> walked fs current segs names"
  using assms(2,3)
proof (induction segs arbitrary: current consumed)
  case Nil
  then show ?case by (auto intro: walked.intros)
next
  case (Cons s rest)
  have real: "real_name s" "real_path rest" "normalize_onto current [s] = current @ [s]"
    using Cons.prems(1) normalize_onto_real [of "[s]" current] by (auto simp: real_path_def)
  show ?case
  proof (cases "fs_lstat fs (current @ [s])")
    case Absent
    with Cons.prems(2) real show ?thesis
      by (auto simp: sum_simps Let_def lstat_if_present_Inr split: option.splits
          intro: walked.intros)
  next
    case (Present st)
    with Cons.prems(2) real obtain name where name:
      "\<not> st_symlink st" "st_dir st \<or> rest = []"
      "resolve_physical_entry_name fs current s st = Inr name"
      "walk_static_path_from fs root (normalize_onto current [name]) (consumed + 1) rest = Inr (p, k)"
      by (auto simp: sum_simps Let_def lstat_if_present_Inr split: option.splits if_splits)
    have "real_name name" "fs_exact fs \<Longrightarrow> name = s"
      using resolve_physical_entry_name_real [OF assms(1) real(1) name(3)]
        resolve_physical_entry_name_exact [OF _ Present real(1) name(3)] by auto
    moreover have "normalize_onto current [name] = current @ [name]"
      using \<open>real_name name\<close> normalize_onto_real [of "[name]"] by (simp add: real_path_def)
    ultimately show ?thesis
      using Cons.IH [OF real(2)] name Present by (fastforce intro: walked.intros)
  next
    case Unreadable
    with Cons.prems(2) real show ?thesis
      by (auto simp: sum_simps Let_def lstat_if_present_Inr split: option.splits)
  qed
qed

lemma walked_real: "walked fs p segs names \<Longrightarrow> real_path names"
  by (induction rule: walked.induct) (auto simp: real_path_def)

lemma walked_length: "walked fs p segs names \<Longrightarrow> length names \<le> length segs"
  by (induction rule: walked.induct) auto

lemma walked_exact: "walked fs p segs names \<Longrightarrow> fs_exact fs \<Longrightarrow> names = take (length names) segs"
  by (induction rule: walked.induct) auto

text \<open>No existing prefix of a walked path is a symbolic link; only the last one may be a file.\<close>

definition present_upto :: "filesystem \<Rightarrow> abs_path \<Rightarrow> string list \<Rightarrow> nat \<Rightarrow> bool" where
  "present_upto fs p segs n \<longleftrightarrow> (\<forall>j. 0 < j \<and> j \<le> n \<longrightarrow> fs_lstat fs (p @ take j segs) \<noteq> Absent)"

lemma walked_prefixes:
  assumes "walked fs p segs names" "fs_exact fs" "0 < i" "i \<le> length segs" "present_upto fs p segs i"
  shows "i \<le> length names \<and> (\<exists>st. fs_lstat fs (p @ take i segs) = Present st \<and> \<not> st_symlink st \<and>
           (i < length segs \<longrightarrow> st_dir st))"
  using assms
proof (induction arbitrary: i rule: walked.induct)
  case (walked_end p)
  then show ?case by simp
next
  case (walked_absent p s rest)
  from walked_absent.prems(4) [unfolded present_upto_def, rule_format, of 1] walked_absent
  show ?case by simp
next
  case (walked_step p s st rest name names)
  have "name = s" using walked_step by simp
  show ?case
  proof (cases "i = 1")
    case True
    then show ?thesis using walked_step by auto
  next
    case False
    then obtain j where j: "i = Suc j" "0 < j" "j \<le> length rest"
      using walked_step.prems by (cases i) auto
    have "present_upto fs (p @ [s]) rest j"
      unfolding present_upto_def
    proof (intro allI impI)
      fix k assume "0 < k \<and> k \<le> j"
      then show "fs_lstat fs ((p @ [s]) @ take k rest) \<noteq> Absent"
        using walked_step.prems(4) [unfolded present_upto_def, rule_format, of "Suc k"] j by simp
    qed
    with walked_step.IH [of j] walked_step.prems j \<open>name = s\<close> show ?thesis by simp
  qed
qed

section \<open>The scan for symbolic links\<close>

text \<open>\<open>listed fs deep d es e\<close>: the scan of directory \<open>d\<close> with entries \<open>es\<close> can meet \<open>e\<close>.\<close>

inductive listed :: "filesystem \<Rightarrow> bool \<Rightarrow> abs_path \<Rightarrow> dirent list \<Rightarrow> dirent \<Rightarrow> bool"
  for fs deep where
  listed_here: "e \<in> set es \<Longrightarrow> listed fs deep d es e"
| listed_below: "e' \<in> set es \<Longrightarrow> deep \<Longrightarrow> de_dir e' \<Longrightarrow>
    fs_readdir fs (normalize_onto d [de_name e']) = Some inner \<Longrightarrow>
    listed fs deep (normalize_onto d [de_name e']) inner e \<Longrightarrow> listed fs deep d es e"

inductive_cases listed_Nil: "listed fs deep d [] e"

lemma listed_Cons:
  assumes "listed fs deep d (x # es) e"
  obtains "e = x" | "listed fs deep d es e"
  | inner where "deep" "de_dir x" "fs_readdir fs (normalize_onto d [de_name x]) = Some inner"
      "listed fs deep (normalize_onto d [de_name x]) inner e"
  using assms by cases (auto intro: listed.intros simp del: normalize_onto.simps)

lemma visit_candidates_clean:
  "visit_candidates fs deep n stack = Inr () \<Longrightarrow> (d, es) \<in> set stack \<Longrightarrow> listed fs deep d es e \<Longrightarrow>
   \<not> de_symlink e"
proof (induction fs deep n stack arbitrary: d es rule: visit_candidates.induct)
  case (2 fs deep n directory stack)
  then show ?case by (auto elim: listed_Nil)
next
  case (3 fs deep n directory entry entries stack)
  show ?case
  proof (cases "(d, es) = (directory, entry # entries)")
    case False
    with "3.prems" "3.IH" show ?thesis
      by (auto split: if_splits option.splits)
  next
    case True
    with "3.prems"(3) have "listed fs deep directory (entry # entries) e" by simp
    then show ?thesis
    proof (cases rule: listed_Cons)
      case 1
      then show ?thesis using "3.prems"(1) by (auto split: if_splits)
    next
      case 2
      then show ?thesis using "3.prems"(1) "3.IH" by (auto split: if_splits option.splits)
    next
      case (3 inner)
      then show ?thesis using "3.prems"(1) "3.IH" by (auto split: if_splits option.splits)
    qed
  qed
qed simp

lemma assert_no_symlink_candidates_clean:
  assumes "assert_no_symlink_candidates fs d deep = Inr ()" "fs_exists fs d"
    and "fs_readdir fs d = Some es" "listed fs deep d es e"
  shows "\<not> de_symlink e"
  using assms visit_candidates_clean [of fs deep 0 "[(d, es)]" d es e]
  by (simp add: assert_no_symlink_candidates_def)

section \<open>The canonicalization as a whole\<close>

text \<open>The successful run, step by step.\<close>

lemma canonicalize_claim_resource_Inr:
  assumes "canonicalize_claim_resource fs v worktree = Inr r"
  obtains resource root static_path consumed where
    "v = JsString resource" "canonical_resource resource"
    "canonical_worktree_root fs worktree = Inr root"
    "walk_static_path fs root (takeWhile (\<lambda>s. \<not> has_wildcard s) (split_on slash resource)) =
       Inr (static_path, consumed)"
    "(if dropWhile (\<lambda>s. \<not> has_wildcard s) (split_on slash resource) \<noteq> [] then
        assert_no_symlink_candidates fs static_path
          (''**'' \<in> set (dropWhile (\<lambda>s. \<not> has_wildcard s) (split_on slash resource)))
      else assert_concrete_candidate fs root
        (normalize_onto static_path (drop consumed (split_on slash resource)))) = Inr ()"
    "r = join_canonical_resource root static_path (drop consumed (split_on slash resource))"
proof -
  from assms obtain resource c root sp k where *:
    "validate_resource_string v = Inr resource" "canonical_resource_syntax resource = Inr c"
    "canonical_worktree_root fs worktree = Inr root"
    "walk_static_path fs root (takeWhile (\<lambda>s. \<not> has_wildcard s) (split_on slash c)) = Inr (sp, k)"
    "(if dropWhile (\<lambda>s. \<not> has_wildcard s) (split_on slash c) \<noteq> [] then
        assert_no_symlink_candidates fs sp
          (''**'' \<in> set (dropWhile (\<lambda>s. \<not> has_wildcard s) (split_on slash c)))
      else assert_concrete_candidate fs root (normalize_onto sp (drop k (split_on slash c)))) = Inr ()"
    "r = join_canonical_resource root sp (drop k (split_on slash c))"
    unfolding canonicalize_claim_resource_def
    by (auto simp: bind_sum_eq_Inr Let_def split: prod.splits)
  have c: "v = JsString resource" "c = resource" "canonical_resource resource"
    using *(1,2) canonical_resource_steps by blast+
  show ?thesis by (rule that [OF c(1,3) *(3) *(4-6) [unfolded c(2)]])
qed

lemma canonicalize_claim_resource_walked:
  assumes "fs_lawful fs" "canonicalize_claim_resource fs v worktree = Inr r"
  obtains resource root names where
    "v = JsString resource" "canonical_resource resource"
    "canonical_worktree_root fs worktree = Inr root"
    "walked fs root (takeWhile (\<lambda>s. \<not> has_wildcard s) (split_on slash resource)) names"
    "split_on slash r = names @ drop (length names) (split_on slash resource)"
    "dropWhile (\<lambda>s. \<not> has_wildcard s) (split_on slash resource) \<noteq> [] \<Longrightarrow>
       assert_no_symlink_candidates fs (root @ names)
          (''**'' \<in> set (dropWhile (\<lambda>s. \<not> has_wildcard s) (split_on slash resource))) = Inr ()"
  using assms(2)
proof (rule canonicalize_claim_resource_Inr)
  fix resource root sp k
  let ?segs = "split_on slash resource"
  assume *: "v = JsString resource" "canonical_resource resource"
    "canonical_worktree_root fs worktree = Inr root"
    "walk_static_path fs root (takeWhile (\<lambda>s. \<not> has_wildcard s) ?segs) = Inr (sp, k)"
    "(if dropWhile (\<lambda>s. \<not> has_wildcard s) ?segs \<noteq> [] then
        assert_no_symlink_candidates fs sp (''**'' \<in> set (dropWhile (\<lambda>s. \<not> has_wildcard s) ?segs))
      else assert_concrete_candidate fs root (normalize_onto sp (drop k ?segs))) = Inr ()"
    "r = join_canonical_resource root sp (drop k ?segs)"
  have real: "real_path ?segs" using *(2) by (rule canonical_real_path)
  then have "real_path (takeWhile (\<lambda>s. \<not> has_wildcard s) ?segs)"
    by (auto simp: real_path_def list_all_iff dest: set_takeWhileD)
  from walk_static_path_from_walked [OF assms(1) this *(4) [unfolded walk_static_path_def]]
  obtain names where names: "sp = root @ names" "k = length names"
    "walked fs root (takeWhile (\<lambda>s. \<not> has_wildcard s) ?segs) names"
    by auto
  have len: "length names \<le> length ?segs"
    using walked_length [OF names(3)] length_takeWhile_le le_trans by blast
  have "real_path (names @ drop k ?segs)"
    using walked_real [OF names(3)] real by (auto simp: real_path_def list_all_iff dest: in_set_dropD)
  then have noslash: "\<forall>s\<in>set (names @ drop k ?segs). slash \<notin> set s"
    by (simp add: real_path_def list_all_iff real_name_def)
  have "real_path (drop k ?segs)"
    using real by (auto simp: real_path_def list_all_iff dest: in_set_dropD)
  then have "r = join_with slash (names @ drop k ?segs)"
    using *(6) names(1) by (simp add: join_canonical_resource_def normalize_onto_real)
  moreover have "names @ drop k ?segs \<noteq> []"
    using len names(2) split_on_nonempty [of slash resource]
    by (cases "length names = length ?segs") auto
  ultimately have "split_on slash r = names @ drop (length names) ?segs"
    using noslash names(2) by (simp add: split_join)
  moreover have "assert_no_symlink_candidates fs (root @ names)
      (''**'' \<in> set (dropWhile (\<lambda>s. \<not> has_wildcard s) ?segs)) = Inr ()"
    if "dropWhile (\<lambda>s. \<not> has_wildcard s) ?segs \<noteq> []"
    using *(5) that names(1) by (simp only: if_True simp_thms)
  ultimately show ?thesis by (rule that [OF *(1-3) names(3)])
qed

lemma canonicalize_concrete_path_Inr:
  assumes "fs_lawful fs" "canonicalize_concrete_path fs v worktree = Inr r"
  obtains resource root names where
    "v = JsString resource" "canonical_resource resource"
    "canonical_worktree_root fs worktree = Inr root"
    "walked fs root (split_on slash resource) names"
    "split_on slash r = names @ drop (length names) (split_on slash resource)"
proof -
  from assms obtain resource c root sp k where *:
    "validate_resource_string v = Inr resource" "canonical_resource_syntax resource = Inr c"
    "canonical_worktree_root fs worktree = Inr root"
    "walk_static_path fs root (split_on slash c) = Inr (sp, k)"
    "r = join_canonical_resource root sp (drop k (split_on slash c))"
    unfolding canonicalize_concrete_path_def
    by (auto simp: bind_sum_eq_Inr Let_def split: prod.splits)
  have c: "v = JsString resource" "c = resource" "canonical_resource resource"
    using *(1,2) canonical_resource_steps by blast+
  let ?segs = "split_on slash resource"
  have real: "real_path ?segs" using c(3) by (rule canonical_real_path)
  from walk_static_path_from_walked [OF assms(1) this *(4) [unfolded walk_static_path_def c(2)]]
  obtain names where names: "sp = root @ names" "k = length names" "walked fs root ?segs names"
    by auto
  have "real_path (names @ drop k ?segs)" "real_path (drop k ?segs)"
    using walked_real [OF names(3)] real by (auto simp: real_path_def list_all_iff dest: in_set_dropD)
  moreover from this have "\<forall>s\<in>set (names @ drop k ?segs). slash \<notin> set s"
    by (simp add: real_path_def list_all_iff real_name_def)
  moreover have "names @ drop k ?segs \<noteq> []"
    using walked_length [OF names(3)] names(2) split_on_nonempty [of slash resource]
    by (cases "length names = length ?segs") auto
  ultimately have "split_on slash r = names @ drop (length names) ?segs"
    using *(5) c(2) names(1,2) by (simp add: join_canonical_resource_def normalize_onto_real split_join)
  with that [OF c(1,3) *(3) names(3)] show ?thesis .
qed

lemma canonicalize_claim_resource_real:
  assumes "fs_lawful fs" "canonicalize_claim_resource fs v worktree = Inr r"
  shows "real_path (split_on slash r)"
  using assms
proof (rule canonicalize_claim_resource_walked)
  fix resource names root
  assume "canonical_resource resource" "split_on slash r = names @ drop (length names) (split_on slash resource)"
    "walked fs root (takeWhile (\<lambda>s. \<not> has_wildcard s) (split_on slash resource)) names"
  then show ?thesis
    using walked_real canonical_real_path by (auto simp: real_path_def list_all_iff dest: in_set_dropD)
qed

lemma canonicalize_claim_resource_exact:
  assumes "fs_lawful fs" "fs_exact fs" "canonicalize_claim_resource fs v worktree = Inr r"
  shows "v = JsString r \<and> canonical_resource r"
  using assms(1,3)
proof (rule canonicalize_claim_resource_walked)
  fix resource names root
  let ?segs = "split_on slash resource" and ?static = "takeWhile (\<lambda>s. \<not> has_wildcard s) (split_on slash resource)"
  assume *: "v = JsString resource" "canonical_resource resource"
    "split_on slash r = names @ drop (length names) ?segs" "walked fs root ?static names"
  have "names = take (length names) ?static" using walked_exact [OF *(4) assms(2)] .
  moreover have "take (length names) ?static = take (length names) ?segs"
    using walked_length [OF *(4)] by (metis append_eq_conv_conj takeWhile_dropWhile_id take_append
        diff_is_0_eq take0 append_Nil2)
  ultimately have "split_on slash r = ?segs" using *(3) by (metis append_take_drop_id)
  then show ?thesis using *(1,2) split_on_inj by metis
qed

section \<open>Properties\<close>

definition claim_fs :: filesystem where
  "claim_fs = fs_tree [([''w''], Dir), ([''w'', ''src''], Dir), ([''w'', ''src'', ''a.ts''], File),
     ([''w'', ''a*''], File), ([''w'', ''link''], Link), ([''w'', ''lib''], Dir), ([''w'', ''lib'', ''up''], Link)]"

lemma claim_fs_ok: "fs_lawful claim_fs" "fs_exact claim_fs"
  unfolding claim_fs_def
  by (rule fs_tree_lawful, simp add: real_path_def real_name_def) (rule fs_tree_exact)

text \<open>\<open>assertCanonicalClaimResource\<close> accepts exactly the canonical resources: no NUL, no
  backslash, no drive prefix, and every segment a real name without brackets or braces in which
  a double star stands alone.\<close>

theorem assert_canonical_claim_resource_accepts:
  "assert_canonical_claim_resource (JsString r) = Inr () \<longleftrightarrow> canonical_resource r"
  by (rule assert_canonical_iff)

text \<open>C24: An accepted claim stays inside its worktree: the canonical resource has as many segments
  as the one that was written, none of them empty, \<open>.\<close> or \<open>..\<close>, and the part from the first
  wildcard on is what was written.\<close>

theorem canonicalize_claim_resource_inside:
  assumes "fs_lawful fs" "canonicalize_claim_resource fs (JsString resource) worktree = Inr r"
  shows "real_path (split_on slash r) \<and> length (split_on slash r) = length (split_on slash resource) \<and>
         suffix (dropWhile (\<lambda>s. \<not> has_wildcard s) (split_on slash resource)) (split_on slash r)"
proof -
  let ?segs = "split_on slash resource"
  obtain root names where *:
    "walked fs root (takeWhile (\<lambda>s. \<not> has_wildcard s) ?segs) names"
    "split_on slash r = names @ drop (length names) ?segs"
    using canonicalize_claim_resource_walked [OF assms] by (metis js_value.inject)
  have len: "length names \<le> length (takeWhile (\<lambda>s. \<not> has_wildcard s) ?segs)"
    using walked_length [OF *(1)] .
  then have "drop (length names) ?segs =
      drop (length names) (takeWhile (\<lambda>s. \<not> has_wildcard s) ?segs) @
      dropWhile (\<lambda>s. \<not> has_wildcard s) ?segs"
    by (metis append_Nil diff_is_0_eq drop0 drop_append takeWhile_dropWhile_id)
  then have "suffix (dropWhile (\<lambda>s. \<not> has_wildcard s) ?segs) (split_on slash r)"
    using *(2) by (auto simp: suffix_def)
  moreover have "length names \<le> length ?segs" using len length_takeWhile_le le_trans by blast
  ultimately show ?thesis
    using *(2) canonicalize_claim_resource_real [OF assms] by simp
qed

theorem canonicalize_claim_resource_inside_witness:
  "real_path (split_on slash ''src/*.ts'') \<and> suffix [''*.ts''] (split_on slash ''src/*.ts'')"
proof -
  have "canonicalize_claim_resource claim_fs (JsString ''src/*.ts'') ''/w'' = Inr ''src/*.ts''"
    by code_simp
  from canonicalize_claim_resource_inside [OF claim_fs_ok(1) this] show ?thesis
    by (simp add: has_wildcard_def)
qed

text \<open>On a worktree without aliases canonicalization neither guesses nor rewrites: whatever it
  accepts is already canonical and is returned unchanged.\<close>

theorem canonicalize_claim_resource_identity:
  assumes "fs_lawful fs" "fs_exact fs" "canonicalize_claim_resource fs v worktree = Inr r"
  shows "v = JsString r \<and> canonical_resource r"
  using assms by (rule canonicalize_claim_resource_exact)

theorem canonicalize_claim_resource_identity_witness:
  "canonicalize_claim_resource claim_fs (JsString ''src/new/*.ts'') ''/w'' = Inr ''src/new/*.ts'' \<and>
   canonical_resource ''src/new/*.ts''"
proof -
  have c: "canonicalize_claim_resource claim_fs (JsString ''src/new/*.ts'') ''/w'' = Inr ''src/new/*.ts''"
    by code_simp
  from canonicalize_claim_resource_identity [OF claim_fs_ok c] c show ?thesis by simp
qed

text \<open>
  What lies below a directory, without the scan: \<open>entry_at fs d names e\<close> when the names lead from \<open>d\<close>, through
  directories, to the entry \<open>e\<close>.
\<close>

inductive entry_at :: "filesystem \<Rightarrow> abs_path \<Rightarrow> string list \<Rightarrow> dirent \<Rightarrow> bool" for fs where
  entry_here: "fs_readdir fs d = Some es \<Longrightarrow> e \<in> set es \<Longrightarrow> entry_at fs d [de_name e] e"
| entry_below: "fs_readdir fs d = Some es \<Longrightarrow> x \<in> set es \<Longrightarrow> de_dir x \<Longrightarrow> entry_at fs (d @ [de_name x]) names e \<Longrightarrow>
    entry_at fs d (de_name x # names) e"

lemma entry_listed:
  assumes "fs_lawful fs" "entry_at fs d names e"
  shows "\<exists>es. fs_readdir fs d = Some es \<and> listed fs True d es e"
  using assms(2)
proof (induction rule: entry_at.induct)
  case (entry_below d es x names e)
  have "normalize_onto d [de_name x] = d @ [de_name x]"
    using normalize_onto_real [of "[de_name x]" d] fs_lawful_readdir [OF assms(1) entry_below.hyps(1,2)]
    by (simp add: real_path_def)
  with entry_below show ?case by (metis listed_below)
qed (auto intro: listed_here)

lemma entry_single: "entry_at fs d [n] e \<Longrightarrow> \<exists>es. fs_readdir fs d = Some es \<and> e \<in> set es"
  by (cases rule: entry_at.cases) (auto elim: entry_at.cases)

text \<open>C25: Symbolic links at an accepted glob. Of a glob whose literal prefix exists in the worktree (on a file system that
  lists every name it knows), no part of the prefix is a symbolic link, no entry of the directory that the prefix names is
  one, and if a double star occurs behind the prefix no entry at any depth below it is one. Deeper entries of a glob
  without a double star are not inspected, see \<open>link_below_star_is_accepted\<close>.\<close>

theorem accepted_glob_meets_no_symlink:
  assumes "fs_lawful fs" "fs_exact fs"
    and "canonicalize_claim_resource fs (JsString resource) worktree = Inr r"
    and "canonical_worktree_root fs worktree = Inr root"
    and "static = takeWhile (\<lambda>s. \<not> has_wildcard s) (split_on slash resource)"
    and "wild = dropWhile (\<lambda>s. \<not> has_wildcard s) (split_on slash resource)" "wild \<noteq> []"
    and "present_upto fs root static (length static)" "fs_exists fs (root @ static)"
  shows "(\<forall>i. 0 < i \<and> i \<le> length static \<longrightarrow>
            (\<exists>st. fs_lstat fs (root @ take i static) = Present st \<and> \<not> st_symlink st)) \<and>
         (\<forall>names e. entry_at fs (root @ static) names e \<and> (length names = 1 \<or> ''**'' \<in> set wild) \<longrightarrow> \<not> de_symlink e)"
proof -
  obtain names where *: "walked fs root static names"
    "assert_no_symlink_candidates fs (root @ names) (''**'' \<in> set wild) = Inr ()"
    using assms(1,3)
  proof (rule canonicalize_claim_resource_walked)
    fix resource' root' names
    assume *: "JsString resource = JsString resource'" "canonical_worktree_root fs worktree = Inr root'"
      "walked fs root' (takeWhile (\<lambda>s. \<not> has_wildcard s) (split_on slash resource')) names"
      "dropWhile (\<lambda>s. \<not> has_wildcard s) (split_on slash resource') \<noteq> [] \<Longrightarrow>
         assert_no_symlink_candidates fs (root' @ names)
           (''**'' \<in> set (dropWhile (\<lambda>s. \<not> has_wildcard s) (split_on slash resource'))) = Inr ()"
    have "resource' = resource" "root' = root" using *(1,2) assms(4) by simp_all
    then show thesis using that [of names] *(3) *(4) assms(5-7) by simp
  qed
  have pre: "i \<le> length names \<and> (\<exists>st. fs_lstat fs (root @ take i static) = Present st \<and> \<not> st_symlink st)"
    if "0 < i" "i \<le> length static" for i
    using walked_prefixes [OF *(1) assms(2) that] assms(8) that by (auto simp: present_upto_def)
  have "length static \<le> length names"
    using pre [of "length static"] by (cases "length static = 0") auto
  then have names: "names = static"
    using walked_exact [OF *(1) assms(2)] by simp
  have "\<not> de_symlink e" if e: "entry_at fs (root @ static) ns e" "length ns = 1 \<or> ''**'' \<in> set wild" for ns e
  proof -
    have "\<exists>es. fs_readdir fs (root @ static) = Some es \<and> listed fs (''**'' \<in> set wild) (root @ static) es e"
    proof (cases "''**'' \<in> set wild")
      case True
      then show ?thesis using entry_listed [OF assms(1) e(1)] by simp
    next
      case False
      then obtain n where "ns = [n]" using e(2) by (auto simp: length_Suc_conv)
      then show ?thesis using entry_single e(1) by (blast intro: listed_here)
    qed
    then show ?thesis using assert_no_symlink_candidates_clean [OF *(2)] names assms(9) by blast
  qed
  with pre show ?thesis by blast
qed

theorem accepted_glob_meets_no_symlink_witness:
  "\<nexists>names e. entry_at claim_fs [''w'', ''src''] names e \<and> de_symlink e"
proof -
  have c: "canonicalize_claim_resource claim_fs (JsString ''src/**'') ''/w'' = Inr ''src/**''"
    "canonical_worktree_root claim_fs ''/w'' = Inr [''w'']" by code_simp+
  have split: "takeWhile (\<lambda>s. \<not> has_wildcard s) (split_on slash ''src/**'') = [''src'']"
    "dropWhile (\<lambda>s. \<not> has_wildcard s) (split_on slash ''src/**'') = [''**'']" by code_simp+
  have "present_upto claim_fs [''w''] [''src''] (length [''src''])" "fs_exists claim_fs ([''w''] @ [''src''])"
    by (auto simp: present_upto_def claim_fs_def fs_tree_def le_Suc_eq)
  from accepted_glob_meets_no_symlink [OF claim_fs_ok c split [symmetric] _ this] show ?thesis by auto
qed

text \<open>A glob without a double star is accepted although a path it selects is a symbolic link: only the entries directly
  below its literal prefix are inspected.\<close>

definition deep_link_fs :: filesystem where
  "deep_link_fs = fs_tree [([''w''], Dir), ([''w'', ''src''], Dir), ([''w'', ''src'', ''x''], Dir),
     ([''w'', ''src'', ''x'', ''b''], Link)]"

theorem link_below_star_is_accepted:
  "canonicalize_claim_resource deep_link_fs (JsString ''src/*/b'') ''/w'' = Inr ''src/*/b'' \<and>
   glob_selects ''src/*/b'' ''src/x/b'' \<and>
   (case fs_lstat deep_link_fs [''w'', ''src'', ''x'', ''b''] of Present st \<Rightarrow> st_symlink st | _ \<Rightarrow> False)"
  by (intro conjI) code_simp+

text \<open>A wildcard in a concrete path is not literal: \<open>canonicalizeConcretePath\<close> accepts the
  existing file named \<open>a*\<close> and returns that name, and matching the result against a claim reads
  it as a pattern, so a claim on \<open>ab\<close> alone, which does not select the name, matches it.\<close>

theorem concrete_wildcard_is_matched_as_pattern:
  "canonicalize_concrete_path claim_fs (JsString ''a*'') ''/w'' = Inr ''a*'' \<and>
   \<not> glob_selects ''ab'' ''a*'' \<and> claim_glob_patterns_overlap ''ab'' ''a*''"
  by (intro conjI) code_simp+

end
