(* ===== verification/ResourceClaims.thy ===== *)
theory ResourceClaims
  imports ClaimResources "HOL-Library.Multiset"
begin

text \<open>
  src/src/resource-claims.ts, second part: the validation of a claim's inputs, the creation of a
  claim, the order of claims, and overlap, conflict and coordinated writing of two claims.
\<close>

section \<open>Timestamps\<close>

definition leap_year :: "nat \<Rightarrow> bool" where
  "leap_year y \<longleftrightarrow> (4 dvd y \<and> \<not> 100 dvd y) \<or> 400 dvd y"

definition days_in_month :: "nat \<Rightarrow> nat \<Rightarrow> nat" where
  "days_in_month y m =
     (if m = 2 then (if leap_year y then 29 else 28) else if m \<in> {4, 6, 9, 11} then 30 else 31)"

definition digit_value :: "char \<Rightarrow> nat option" where
  "digit_value c = (if CHR ''0'' \<le> c \<and> c \<le> CHR ''9'' then Some (of_char c - 48) else None)"

fun digits_value :: "nat \<Rightarrow> string \<Rightarrow> nat option" where
  "digits_value acc [] = Some acc"
| "digits_value acc (c # s) =
     (case digit_value c of None \<Rightarrow> None | Some d \<Rightarrow> digits_value (10 * acc + d) s)"

text \<open>
  A date that \<open>Date.parse\<close> accepts in this shape and that \<open>toISOString\<close> prints unchanged: the
  fields of a real calendar day and time of day.
\<close>

definition timestamp_fields ::
  "nat option \<Rightarrow> nat option \<Rightarrow> nat option \<Rightarrow> nat option \<Rightarrow> nat option \<Rightarrow> nat option \<Rightarrow> nat option \<Rightarrow> bool" where
  "timestamp_fields y mo d h mi s ms =
     (case (y, mo, d, h, mi, s, ms) of
        (Some y, Some mo, Some d, Some h, Some mi, Some s, Some ms) \<Rightarrow>
          1 \<le> mo \<and> mo \<le> 12 \<and> 1 \<le> d \<and> d \<le> days_in_month y mo \<and> h \<le> 23 \<and> mi \<le> 59 \<and> s \<le> 59
      | _ \<Rightarrow> False)"

definition is_timestamp :: "string \<Rightarrow> bool" where
  "is_timestamp v \<longleftrightarrow>
     length v = 24 \<and>
     v ! 4 = CHR ''-'' \<and> v ! 7 = CHR ''-'' \<and> v ! 10 = CHR ''T'' \<and> v ! 13 = CHR '':'' \<and>
     v ! 16 = CHR '':'' \<and> v ! 19 = CHR ''.'' \<and> v ! 23 = CHR ''Z'' \<and>
     timestamp_fields (digits_value 0 (take 4 v)) (digits_value 0 (take 2 (drop 5 v)))
       (digits_value 0 (take 2 (drop 8 v))) (digits_value 0 (take 2 (drop 11 v)))
       (digits_value 0 (take 2 (drop 14 v))) (digits_value 0 (take 2 (drop 17 v)))
       (digits_value 0 (take 3 (drop 20 v)))"

section \<open>Inputs\<close>

definition validate_sharing ::
  "raw_sharing \<Rightarrow> claim_mode \<Rightarrow> registry_error + shared_write_binding option" where
  "validate_sharing sharing mode =
     (case sharing of
        SharingUndefined \<Rightarrow> Inr None
      | SharingNull \<Rightarrow> Inl (claim_error ''INVALID_CLAIM'' ''Coordinated write binding is invalid'')
      | SharingNotRecord \<Rightarrow> Inl (claim_error ''INVALID_CLAIM'' ''Coordinated write binding is invalid'')
      | SharingRecord kind group_id \<Rightarrow>
          (case group_id of
             JsString gid \<Rightarrow>
               if mode \<noteq> Write \<or> kind \<noteq> JsString RESOURCE_CLAIM_SHARING_KIND \<or>
                  length gid = 0 \<or> length gid > 128 then
                 Inl (claim_error ''INVALID_CLAIM'' ''Coordinated write binding is invalid'')
               else Inr (Some \<lparr>sw_kind = RESOURCE_CLAIM_SHARING_KIND, sw_group_id = gid\<rparr>)
           | _ \<Rightarrow> Inl (claim_error ''INVALID_CLAIM'' ''Coordinated write binding is invalid'')))"

definition raw_of_sharing :: "shared_write_binding option \<Rightarrow> raw_sharing" where
  "raw_of_sharing s =
     (case s of None \<Rightarrow> SharingUndefined
      | Some b \<Rightarrow> SharingRecord (JsString (sw_kind b)) (JsString (sw_group_id b)))"

definition canonicalize_claim_input ::
  "filesystem \<Rightarrow> raw_claim_input \<Rightarrow> claim_owner_context \<Rightarrow> registry_error + canonical_claim_input" where
  "canonicalize_claim_input fs raw owner =
     (case raw of
        InputNotRecord \<Rightarrow> Inl (claim_error ''INVALID_CLAIM'' ''A resource claim must be an object'')
      | InputRecord input \<Rightarrow>
        (case resource_claim_mode (ci_mode input) of
           None \<Rightarrow> Inl (claim_error ''INVALID_CLAIM'' ''Resource claim mode is unsupported'')
         | Some mode \<Rightarrow>
             let repository_id = nullish (ci_repositoryId input) (ci_repository_id input);
                 session_id = nullish (ci_sessionId input) (ci_session_id input);
                 worktree_path = nullish (ci_worktreePath input) (ci_worktree_path input) in
             if repository_id \<noteq> JsUndefined \<and> repository_id \<noteq> JsString (co_repository_id owner) then
               Inl (claim_error ''CLAIM_REPOSITORY_MISMATCH''
                 ''Resource claim repository does not match its session'')
             else if session_id \<noteq> JsUndefined \<and> session_id \<noteq> JsString (co_session_id owner) then
               Inl (claim_error ''CLAIM_SESSION_MISMATCH''
                 ''Resource claim session does not match its owner'')
             else
               bind_sum
                 (case worktree_path of
                    JsUndefined \<Rightarrow> Inr ()
                  | JsString p \<Rightarrow>
                      require (string_of_path (path_of_string (fs_cwd fs) p) = co_worktree_path owner)
                        (claim_error ''CLAIM_SESSION_MISMATCH''
                          ''Resource claim worktree does not match its session'')
                  | _ \<Rightarrow> Inl (claim_error ''CLAIM_SESSION_MISMATCH''
                           ''Resource claim worktree must be a string'')) (\<lambda>_.
               bind_sum (validate_sharing (ci_sharing input) mode) (\<lambda>sharing.
               bind_sum (canonicalize_claim_resource fs (ci_resource input) (co_worktree_path owner))
                 (\<lambda>resource.
               Inr \<lparr>cc_resource = resource, cc_mode = mode, cc_sharing = sharing\<rparr>)))))"

definition create_resource_claim ::
  "(string \<Rightarrow> string) \<Rightarrow> canonical_claim_input \<Rightarrow> claim_owner_context \<Rightarrow> string \<Rightarrow>
   registry_error + resource_claim" where
  "create_resource_claim sha input owner timestamp =
     bind_sum (validate_sharing (raw_of_sharing (cc_sharing input)) (cc_mode input)) (\<lambda>sharing.
     bind_sum (assert_canonical_claim_resource (JsString (cc_resource input))) (\<lambda>_.
     if \<not> is_timestamp timestamp then
       Inl (claim_error ''INVALID_CLAIM'' ''Claim timestamp is not canonical'')
     else Inr
       \<lparr>rc_schema_version = RESOURCE_CLAIM_SCHEMA_VERSION,
        rc_claim_id = canonical_claim_id sha (co_session_id owner) (cc_resource input) (cc_mode input) sharing,
        rc_session_id = co_session_id owner,
        rc_repository_id = co_repository_id owner,
        rc_worktree_path = co_worktree_path owner,
        rc_resource = cc_resource input,
        rc_mode = cc_mode input,
        rc_sharing = sharing,
        rc_created_at = timestamp,
        rc_updated_at = timestamp\<rparr>))"

definition clone_resource_claim :: "resource_claim \<Rightarrow> resource_claim" where
  "clone_resource_claim claim = claim\<lparr>rc_sharing :=
     (case rc_sharing claim of None \<Rightarrow> None
      | Some b \<Rightarrow> Some \<lparr>sw_kind = sw_kind b, sw_group_id = sw_group_id b\<rparr>)\<rparr>"

section \<open>Order\<close>

definition claim_sort_key :: "resource_claim \<Rightarrow> string" where
  "claim_sort_key c =
     rc_resource c @ NUL # mode_name (rc_mode c) @ NUL # rc_session_id c @ NUL # rc_claim_id c"

definition sort_resource_claims :: "resource_claim list \<Rightarrow> resource_claim list" where
  "sort_resource_claims claims = sort_key claim_sort_key claims"

section \<open>Overlap and conflict\<close>

definition canonical_claim_resource_for_comparison ::
  "filesystem \<Rightarrow> string \<Rightarrow> string option \<Rightarrow> registry_error + string" where
  "canonical_claim_resource_for_comparison fs resource worktree =
     (case worktree of
        None \<Rightarrow> Inr resource
      | Some w \<Rightarrow>
          (case canonicalize_claim_resource fs (JsString resource) w of
             Inr r \<Rightarrow> Inr r
           | Inl e \<Rightarrow> if error_code e = ''WORKTREE_IDENTITY_AMBIGUOUS'' then Inr resource else Inl e))"

definition claims_overlap :: "filesystem \<Rightarrow> resource_claim \<Rightarrow> resource_claim \<Rightarrow> registry_error + bool" where
  "claims_overlap fs left right =
     (if rc_resource left = rc_resource right then Inr True
      else
        bind_sum (canonical_claim_resource_for_comparison fs (rc_resource left) (Some (rc_worktree_path left)))
          (\<lambda>l.
        bind_sum (canonical_claim_resource_for_comparison fs (rc_resource right) (Some (rc_worktree_path right)))
          (\<lambda>r.
        Inr (claim_glob_patterns_overlap l r))))"

definition resource_matches_claim ::
  "filesystem \<Rightarrow> string \<Rightarrow> string option \<Rightarrow> string \<Rightarrow> registry_error + bool" where
  "resource_matches_claim fs claim_resource worktree resource =
     bind_sum (canonical_claim_resource_for_comparison fs claim_resource worktree) (\<lambda>c.
     Inr (claim_glob_patterns_overlap c resource))"

definition resource_claim_conflicts_with_access ::
  "filesystem \<Rightarrow> string \<Rightarrow> string option \<Rightarrow> claim_mode \<Rightarrow> string \<Rightarrow> claim_mode \<Rightarrow> registry_error + bool" where
  "resource_claim_conflicts_with_access fs claim_resource worktree mode resource required_mode =
     bind_sum (resource_matches_claim fs claim_resource worktree resource) (\<lambda>matches.
     Inr (matches \<and> RESOURCE_CLAIM_COMPATIBILITY_MATRIX mode required_mode = Conflict))"

definition falsy :: "string option \<Rightarrow> bool" where
  "falsy s \<longleftrightarrow> s = None \<or> s = Some []"

datatype coordination_decision = Allowed | Denied

definition permits_coordinated_write :: "coordination_facts \<Rightarrow> coordination_decision" where
  "permits_coordinated_write facts =
     (let left = cf_left facts; right = cf_right facts;
          li = cf_left_identity facts; ri = cf_right_identity facts in
      if cf_claim_set_generation facts \<noteq> cf_observed_claim_set_generation facts then Denied
      else if rc_mode left \<noteq> Write \<or> rc_mode right \<noteq> Write then Denied
      else if map_option sw_kind (rc_sharing left) \<noteq> Some RESOURCE_CLAIM_SHARING_KIND \<or>
              map_option sw_kind (rc_sharing right) \<noteq> Some RESOURCE_CLAIM_SHARING_KIND then Denied
      else if falsy (map_option sw_group_id (rc_sharing left)) \<or>
              map_option sw_group_id (rc_sharing left) \<noteq> map_option sw_group_id (rc_sharing right)
        then Denied
      else if wi_status li \<noteq> Verified \<or> wi_status ri \<noteq> Verified then Denied
      else if wi_repository_id li \<noteq> wi_repository_id ri \<or>
              wi_repository_id li \<noteq> Some (rc_repository_id left) \<or>
              wi_repository_id ri \<noteq> Some (rc_repository_id right) then Denied
      else if rc_session_id left = rc_session_id right \<or>
              wi_session_id li \<noteq> Some (rc_session_id left) \<or>
              wi_session_id ri \<noteq> Some (rc_session_id right) then Denied
      else if wi_worktree_path li \<noteq> Some (rc_worktree_path left) \<or>
              wi_worktree_path ri \<noteq> Some (rc_worktree_path right) then Denied
      else if falsy (wi_worktree_id li) \<or> falsy (wi_worktree_id ri) \<or>
              wi_worktree_id li = wi_worktree_id ri then Denied
      else if falsy (wi_worktree_path li) \<or> falsy (wi_worktree_path ri) \<or>
              wi_worktree_path li = wi_worktree_path ri then Denied
      else Allowed)"

definition claims_conflict ::
  "filesystem \<Rightarrow> resource_claim \<Rightarrow> resource_claim \<Rightarrow> coordination_facts option \<Rightarrow> registry_error + bool" where
  "claims_conflict fs left right evidence =
     bind_sum (claims_overlap fs left right) (\<lambda>overlap.
     Inr (if \<not> overlap then False
          else if (case evidence of None \<Rightarrow> False | Some f \<Rightarrow> permits_coordinated_write f = Allowed)
            then False
          else RESOURCE_CLAIM_COMPATIBILITY_MATRIX (rc_mode left) (rc_mode right) = Conflict))"

section \<open>The two matrices\<close>

lemma compatibility_by_strength:
  "RESOURCE_CLAIM_COMPATIBILITY_MATRIX a b = Conflict \<longleftrightarrow>
     RESOURCE_CLAIM_ACCESS_STRENGTH a + RESOURCE_CLAIM_ACCESS_STRENGTH b \<ge> 2"
  by (cases a; cases b) (simp_all add: RESOURCE_CLAIM_ACCESS_STRENGTH_def)

lemma compatibility_sym:
  "RESOURCE_CLAIM_COMPATIBILITY_MATRIX a b = RESOURCE_CLAIM_COMPATIBILITY_MATRIX b a"
  by (cases a; cases b) simp_all

lemma grants_iff_le: "claim_mode_grants_access granted required \<longleftrightarrow> required \<le> granted"
  by (simp add: claim_mode_grants_access_def less_eq_claim_mode_def)

lemma write_access_cases: "Write \<le> m \<longleftrightarrow> m = Write \<or> m = ExclusiveWrite"
  by (cases m) (simp_all add: less_eq_claim_mode_def RESOURCE_CLAIM_ACCESS_STRENGTH_def)

lemma mode_le_simps [simp]:
  "Read \<le> m" "m \<le> ExclusiveWrite" "\<not> Write \<le> Read" "\<not> ExclusiveWrite \<le> Read" "\<not> ExclusiveWrite \<le> Write"
  by (simp_all add: less_eq_claim_mode_def RESOURCE_CLAIM_ACCESS_STRENGTH_def split: claim_mode.splits)

lemma mode_name_inj: "mode_name a = mode_name b \<longleftrightarrow> a = b"
  by (cases a; cases b) (simp_all add: mode_name_def)

lemma resource_claim_mode_name: "resource_claim_mode (JsString (mode_name m)) = Some m"
  by (cases m) (simp_all add: resource_claim_mode_def mode_name_def RESOURCE_CLAIM_MODES_def)

lemma resource_claim_mode_Some: "resource_claim_mode v = Some m \<Longrightarrow> v = JsString (mode_name m)"
  by (auto simp: resource_claim_mode_def find_Some_iff split: js_value.splits)

lemma mode_name_not_none: "mode_name m \<noteq> ''none''"
  by (cases m) (simp_all add: mode_name_def)

lemma NUL_mode_name [simp]: "NUL \<notin> set (mode_name m)"
  by (cases m) (simp_all add: mode_name_def NUL_def)

section \<open>Identity and order\<close>

text \<open>The strings the source puts in front of a separator contain no separator.\<close>

definition separable :: "string \<Rightarrow> string \<Rightarrow> shared_write_binding option \<Rightarrow> bool" where
  "separable session_id resource sharing \<longleftrightarrow>
     NUL \<notin> set session_id \<and> NUL \<notin> set resource \<and>
     (case sharing of None \<Rightarrow> True | Some b \<Rightarrow> NUL \<notin> set (sw_kind b))"

lemma NUL_suffix_inj:
  "NUL \<notin> set a \<Longrightarrow> NUL \<notin> set b \<Longrightarrow> x = [] \<or> hd x = NUL \<Longrightarrow> y = [] \<or> hd y = NUL \<Longrightarrow>
   a @ x = b @ y \<longleftrightarrow> a = b \<and> x = y"
proof (induction a arbitrary: b)
  case Nil
  then show ?case by (cases b; cases x) auto
next
  case (Cons z a)
  then show ?case by (cases b; cases y) auto
qed

lemma claim_id_preimage_inj:
  assumes "separable s r sh" "separable s' r' sh'"
  shows "claim_id_preimage s r m sh = claim_id_preimage s' r' m' sh' \<longleftrightarrow>
         s = s' \<and> r = r' \<and> m = m' \<and> sh = sh'"
proof -
  let ?t = "\<lambda>sh. case sh of None \<Rightarrow> [] | Some b \<Rightarrow> NUL # sw_kind b @ NUL # sw_group_id b"
  have tails: "?t sh = ?t sh' \<longleftrightarrow> sh = sh'"
    using assms by (auto simp: separable_def append_sep_inj split: option.splits)
  have "claim_id_preimage s r m sh = claim_id_preimage s' r' m' sh' \<longleftrightarrow>
      s = s' \<and> m = m' \<and> r @ ?t sh = r' @ ?t sh'"
    using assms by (auto simp: claim_id_preimage_def separable_def append_sep_inj mode_name_inj)
  also have "r @ ?t sh = r' @ ?t sh' \<longleftrightarrow> r = r' \<and> ?t sh = ?t sh'"
    using assms by (intro NUL_suffix_inj) (auto simp: separable_def split: option.splits)
  finally show ?thesis using tails by blast
qed

lemma claim_sort_key_inj:
  assumes "NUL \<notin> set (rc_resource a)" "NUL \<notin> set (rc_resource b)"
    and "NUL \<notin> set (rc_session_id a)" "NUL \<notin> set (rc_session_id b)"
  shows "claim_sort_key a = claim_sort_key b \<longleftrightarrow>
         rc_resource a = rc_resource b \<and> rc_mode a = rc_mode b \<and> rc_session_id a = rc_session_id b \<and>
         rc_claim_id a = rc_claim_id b"
  using assms by (auto simp: claim_sort_key_def append_sep_inj mode_name_inj)

lemma sort_resource_claims_set [simp]: "set (sort_resource_claims cs) = set cs"
  and sort_resource_claims_mset [simp]: "mset (sort_resource_claims cs) = mset cs"
  and sort_resource_claims_sorted: "sorted (map claim_sort_key (sort_resource_claims cs))"
  and sort_resource_claims_length [simp]: "length (sort_resource_claims cs) = length cs"
  by (simp_all add: sort_resource_claims_def)

lemma sort_resource_claims_unique:
  assumes "mset xs = mset ys" "inj_on claim_sort_key (set xs)"
  shows "sort_resource_claims xs = sort_resource_claims ys"
proof (rule map_inj_on [where f = claim_sort_key])
  have "map claim_sort_key (sort_resource_claims zs) = sort (map claim_sort_key xs)"
    if "mset zs = mset xs" for zs
    using that sort_resource_claims_sorted [of zs]
    by (intro properties_for_sort [symmetric]) simp_all
  with assms(1) show "map claim_sort_key (sort_resource_claims xs) = map claim_sort_key (sort_resource_claims ys)"
    by simp
  show "inj_on claim_sort_key (set (sort_resource_claims xs) \<union> set (sort_resource_claims ys))"
    using assms by (metis sort_resource_claims_set set_mset_mset sup.idem)
qed

section \<open>Created claims are well formed\<close>

definition sharing_ok :: "shared_write_binding option \<Rightarrow> claim_mode \<Rightarrow> bool" where
  "sharing_ok sharing mode \<longleftrightarrow>
     (case sharing of None \<Rightarrow> True
      | Some b \<Rightarrow> mode = Write \<and> sw_kind b = RESOURCE_CLAIM_SHARING_KIND \<and>
                  sw_group_id b \<noteq> [] \<and> length (sw_group_id b) \<le> 128)"

definition claim_wf :: "(string \<Rightarrow> string) \<Rightarrow> resource_claim \<Rightarrow> bool" where
  "claim_wf sha c \<longleftrightarrow>
     rc_schema_version c = RESOURCE_CLAIM_SCHEMA_VERSION \<and>
     rc_claim_id c =
       canonical_claim_id sha (rc_session_id c) (rc_resource c) (rc_mode c) (rc_sharing c) \<and>
     canonical_resource (rc_resource c) \<and> sharing_ok (rc_sharing c) (rc_mode c) \<and>
     is_timestamp (rc_created_at c) \<and> is_timestamp (rc_updated_at c)"

lemma validate_sharing_Inr:
  "validate_sharing raw mode = Inr s \<longleftrightarrow> raw = raw_of_sharing s \<and> sharing_ok s mode"
  by (cases s)
    (auto simp: validate_sharing_def raw_of_sharing_def sharing_ok_def
      split: raw_sharing.splits js_value.splits if_splits)

lemma create_resource_claim_Inr:
  "create_resource_claim sha input owner t = Inr c \<longleftrightarrow>
     sharing_ok (cc_sharing input) (cc_mode input) \<and> canonical_resource (cc_resource input) \<and>
     is_timestamp t \<and>
     c = \<lparr>rc_schema_version = RESOURCE_CLAIM_SCHEMA_VERSION,
          rc_claim_id = canonical_claim_id sha (co_session_id owner) (cc_resource input) (cc_mode input)
            (cc_sharing input),
          rc_session_id = co_session_id owner, rc_repository_id = co_repository_id owner,
          rc_worktree_path = co_worktree_path owner, rc_resource = cc_resource input,
          rc_mode = cc_mode input, rc_sharing = cc_sharing input, rc_created_at = t, rc_updated_at = t\<rparr>"
proof -
  have "raw_of_sharing a = raw_of_sharing b \<longleftrightarrow> a = b" for a b
    by (auto simp: raw_of_sharing_def split: option.splits)
  then show ?thesis
    by (auto simp: create_resource_claim_def sum_simps validate_sharing_Inr assert_canonical_iff
        split: if_splits)
qed

lemma create_resource_claim_wf: "create_resource_claim sha input owner t = Inr c \<Longrightarrow> claim_wf sha c"
  by (auto simp: create_resource_claim_Inr claim_wf_def)

lemma canonicalize_claim_input_Inr:
  "canonicalize_claim_input fs raw owner = Inr c \<Longrightarrow>
   \<exists>i. raw = InputRecord i \<and> resource_claim_mode (ci_mode i) = Some (cc_mode c) \<and>
       validate_sharing (ci_sharing i) (cc_mode c) = Inr (cc_sharing c) \<and>
       canonicalize_claim_resource fs (ci_resource i) (co_worktree_path owner) = Inr (cc_resource c)"
  by (auto simp: canonicalize_claim_input_def sum_simps Let_def
      split: raw_claim_input.splits option.splits if_splits)

section \<open>Overlap\<close>

lemma comparison_exact:
  assumes "fs_lawful fs" "fs_exact fs"
    and "canonical_claim_resource_for_comparison fs resource worktree = Inr c"
  shows "c = resource"
  using assms canonicalize_claim_resource_exact [OF assms(1,2)]
  by (fastforce simp: canonical_claim_resource_for_comparison_def split: option.splits sum.splits if_splits)

lemma comparison_pattern_ok:
  assumes "fs_lawful fs" "canonical_resource resource"
    and "canonical_claim_resource_for_comparison fs resource worktree = Inr c"
  shows "pattern_ok c"
proof -
  have "real_path (split_on slash c) \<or> c = resource"
    using assms canonicalize_claim_resource_real [OF assms(1)]
    by (auto simp: canonical_claim_resource_for_comparison_def split: option.splits sum.splits if_splits)
  then show ?thesis
    using canonical_pattern_ok [OF assms(2)]
    by (auto simp: pattern_ok_def real_path_def list_all_iff real_name_def)
qed

lemma path_match_sample: "path_match ps (map sample ps)"
proof (induction ps)
  case (Cons q ps)
  show ?case
  proof (cases "q = ''**''")
    case True
    then show ?thesis using path_match_star_take [OF path_match_star_skip [OF Cons.IH]] by simp
  next
    case False
    then show ?thesis using Cons.IH seg_match_sample [of q] by simp
  qed
qed simp

lemma claim_overlap_refl: "pattern_ok p \<Longrightarrow> claim_glob_patterns_overlap p p"
proof -
  assume p: "pattern_ok p"
  let ?w = "map sample (split_on slash p)"
  have names: "names_ok ?w"
    unfolding names_ok_def
  proof
    fix s assume "s \<in> set ?w"
    then obtain q where "q \<in> set (split_on slash p)" "s = sample q" by auto
    moreover from this(1) have "q \<noteq> []" "slash \<notin> set q"
      using p split_on_no_sep by (fastforce simp: pattern_ok_def)+
    ultimately show "s \<noteq> [] \<and> slash \<notin> set s" using sample_name sample_nonempty by simp
  qed
  have "split_on slash (join_with slash ?w) = ?w"
    by (rule split_join) (use names in \<open>simp_all add: names_ok_def\<close>)
  then have "path_ok (join_with slash ?w) \<and> glob_selects p (join_with slash ?w)"
    using names path_match_sample by (simp add: path_ok_def glob_selects_def)
  then show ?thesis using claim_overlap_decides [OF p p] by blast
qed

lemma claim_overlap_sym:
  "pattern_ok l \<Longrightarrow> pattern_ok r \<Longrightarrow> claim_glob_patterns_overlap l r = claim_glob_patterns_overlap r l"
  by (auto simp: claim_overlap_decides)

lemma claims_overlap_sym:
  assumes "fs_lawful fs" "canonical_resource (rc_resource l)" "canonical_resource (rc_resource r)"
    and "claims_overlap fs l r = Inr b"
  shows "claims_overlap fs r l = Inr b"
  using assms(4) comparison_pattern_ok [OF assms(1,2)] comparison_pattern_ok [OF assms(1,3)]
  by (auto simp: claims_overlap_def sum_simps claim_overlap_sym split: if_splits)

lemma claims_overlap_exact:
  assumes "fs_lawful fs" "fs_exact fs" "canonical_resource (rc_resource l)" "canonical_resource (rc_resource r)"
    and "claims_overlap fs l r = Inr b"
  shows "b \<longleftrightarrow> (\<exists>path. path_ok path \<and> glob_selects (rc_resource l) path \<and> glob_selects (rc_resource r) path)"
proof -
  have "b \<longleftrightarrow> claim_glob_patterns_overlap (rc_resource l) (rc_resource r)"
  proof (cases "rc_resource l = rc_resource r")
    case True
    then show ?thesis
      using assms(5) claim_overlap_refl [OF canonical_pattern_ok [OF assms(3)]]
      by (simp add: claims_overlap_def)
  next
    case False
    then obtain cl cr where c:
      "canonical_claim_resource_for_comparison fs (rc_resource l) (Some (rc_worktree_path l)) = Inr cl"
      "canonical_claim_resource_for_comparison fs (rc_resource r) (Some (rc_worktree_path r)) = Inr cr"
      "b = claim_glob_patterns_overlap cl cr"
      using assms(5) by (auto simp: claims_overlap_def sum_simps)
    with comparison_exact [OF assms(1,2)] show ?thesis by metis
  qed
  then show ?thesis using assms canonical_pattern_ok by (simp add: claim_overlap_decides)
qed

section \<open>Coordinated writing and conflict\<close>

definition swap_facts :: "coordination_facts \<Rightarrow> coordination_facts" where
  "swap_facts f = f\<lparr>cf_left := cf_right f, cf_right := cf_left f,
     cf_left_identity := cf_right_identity f, cf_right_identity := cf_left_identity f\<rparr>"

lemma deny_iff: "(if p then Denied else d) = Allowed \<longleftrightarrow> \<not> p \<and> d = Allowed"
  by simp

lemma permits_coordinated_write_iff:
  "permits_coordinated_write f = Allowed \<longleftrightarrow>
     cf_claim_set_generation f = cf_observed_claim_set_generation f \<and>
     rc_mode (cf_left f) = Write \<and> rc_mode (cf_right f) = Write \<and>
     map_option sw_kind (rc_sharing (cf_left f)) = Some RESOURCE_CLAIM_SHARING_KIND \<and>
     map_option sw_kind (rc_sharing (cf_right f)) = Some RESOURCE_CLAIM_SHARING_KIND \<and>
     \<not> falsy (map_option sw_group_id (rc_sharing (cf_left f))) \<and>
     map_option sw_group_id (rc_sharing (cf_left f)) = map_option sw_group_id (rc_sharing (cf_right f)) \<and>
     wi_status (cf_left_identity f) = Verified \<and> wi_status (cf_right_identity f) = Verified \<and>
     wi_repository_id (cf_left_identity f) = Some (rc_repository_id (cf_left f)) \<and>
     wi_repository_id (cf_right_identity f) = Some (rc_repository_id (cf_right f)) \<and>
     rc_repository_id (cf_left f) = rc_repository_id (cf_right f) \<and>
     wi_session_id (cf_left_identity f) = Some (rc_session_id (cf_left f)) \<and>
     wi_session_id (cf_right_identity f) = Some (rc_session_id (cf_right f)) \<and>
     rc_session_id (cf_left f) \<noteq> rc_session_id (cf_right f) \<and>
     wi_worktree_path (cf_left_identity f) = Some (rc_worktree_path (cf_left f)) \<and>
     wi_worktree_path (cf_right_identity f) = Some (rc_worktree_path (cf_right f)) \<and>
     rc_worktree_path (cf_left f) \<noteq> [] \<and> rc_worktree_path (cf_right f) \<noteq> [] \<and>
     rc_worktree_path (cf_left f) \<noteq> rc_worktree_path (cf_right f) \<and>
     \<not> falsy (wi_worktree_id (cf_left_identity f)) \<and> \<not> falsy (wi_worktree_id (cf_right_identity f)) \<and>
     wi_worktree_id (cf_left_identity f) \<noteq> wi_worktree_id (cf_right_identity f)"
  unfolding permits_coordinated_write_def Let_def deny_iff
  by (auto simp: falsy_def)

lemma permits_coordinated_write_swap:
  "permits_coordinated_write (swap_facts f) = permits_coordinated_write f"
proof -
  have "permits_coordinated_write (swap_facts f) = Allowed \<longleftrightarrow> permits_coordinated_write f = Allowed"
    unfolding permits_coordinated_write_iff by (auto simp: swap_facts_def)
  then show ?thesis by (metis coordination_decision.exhaust)
qed

lemma claims_conflict_swap:
  assumes "fs_lawful fs" "canonical_resource (rc_resource l)" "canonical_resource (rc_resource r)"
    and "claims_conflict fs l r evidence = Inr b"
  shows "claims_conflict fs r l (map_option swap_facts evidence) = Inr b"
  using assms(4) claims_overlap_sym [OF assms(1-3)]
    compatibility_sym [of "rc_mode l" "rc_mode r"] permits_coordinated_write_swap
  by (auto simp: claims_conflict_def sum_simps split: option.splits if_splits)

section \<open>Concrete claims\<close>

definition sample_claim :: "string \<Rightarrow> string \<Rightarrow> string \<Rightarrow> claim_mode \<Rightarrow> resource_claim" where
  "sample_claim session worktree resource mode =
     \<lparr>rc_schema_version = RESOURCE_CLAIM_SCHEMA_VERSION,
      rc_claim_id = canonical_claim_id id session resource mode None,
      rc_session_id = session, rc_repository_id = ''repo'', rc_worktree_path = worktree,
      rc_resource = resource, rc_mode = mode, rc_sharing = None,
      rc_created_at = ''2024-02-29T00:00:00.000Z'', rc_updated_at = ''2024-02-29T00:00:00.000Z''\<rparr>"

definition sample_fs :: filesystem where
  "sample_fs = fs_tree [([''w''], Dir), ([''w'', ''src''], Dir), ([''w'', ''src'', ''a.ts''], File)]"

lemma sample_fs_ok [simp]: "fs_lawful sample_fs" "fs_exact sample_fs"
  unfolding sample_fs_def
  by (rule fs_tree_lawful, simp add: real_path_def real_name_def) (rule fs_tree_exact)

abbreviation ts_claim :: resource_claim where
  "ts_claim \<equiv> sample_claim ''s1'' ''/w'' ''src/*.ts'' Write"

abbreviation file_claim :: resource_claim where
  "file_claim \<equiv> sample_claim ''s2'' ''/w'' ''src/a.ts'' Write"

lemma sample_claims_overlap: "claims_overlap sample_fs ts_claim file_claim = Inr True"
  by code_simp

lemma sample_claims_canonical [simp]:
  "canonical_resource (rc_resource ts_claim)" "canonical_resource (rc_resource file_claim)"
  by code_simp+

text \<open>Two coordinated writers: the same group, verified identities, distinct worktrees.\<close>

definition shared_claim :: "string \<Rightarrow> string \<Rightarrow> string \<Rightarrow> resource_claim" where
  "shared_claim session worktree resource =
     (sample_claim session worktree resource Write)
       \<lparr>rc_sharing := Some \<lparr>sw_kind = RESOURCE_CLAIM_SHARING_KIND, sw_group_id = ''g''\<rparr>\<rparr>"

definition verified_identity :: "resource_claim \<Rightarrow> worktree_identity" where
  "verified_identity c = \<lparr>wi_status = Verified, wi_repository_id = Some (rc_repository_id c),
     wi_session_id = Some (rc_session_id c), wi_worktree_id = Some (rc_worktree_path c),
     wi_worktree_path = Some (rc_worktree_path c)\<rparr>"

definition verified_facts :: "resource_claim \<Rightarrow> resource_claim \<Rightarrow> coordination_facts" where
  "verified_facts l r = \<lparr>cf_left = l, cf_right = r, cf_left_identity = verified_identity l,
     cf_right_identity = verified_identity r, cf_claim_set_generation = 7,
     cf_observed_claim_set_generation = 7\<rparr>"

section \<open>Properties\<close>

text \<open>Two modes conflict exactly when their access strengths add up to two or more: reading
  tolerates reading and one ordinary writer, an exclusive writer tolerates nothing. (So the
  matrix is symmetric and monotone in the strength of either side.)\<close>

theorem compatibility_matrix_by_strength:
  "RESOURCE_CLAIM_COMPATIBILITY_MATRIX a b = Conflict \<longleftrightarrow>
     RESOURCE_CLAIM_ACCESS_STRENGTH a + RESOURCE_CLAIM_ACCESS_STRENGTH b \<ge> 2"
  by (rule compatibility_by_strength)

text \<open>C14: Where the directory listing is exact, two claims overlap, as \<open>claimsOverlap\<close> computes
  it, exactly when some repository path is selected by both of their resources.\<close>

theorem claims_overlap_common_path:
  assumes "fs_lawful fs" "fs_exact fs"
    and "canonical_resource (rc_resource l)" "canonical_resource (rc_resource r)"
    and "claims_overlap fs l r = Inr b"
  shows "b \<longleftrightarrow> (\<exists>path. path_ok path \<and> glob_selects (rc_resource l) path \<and> glob_selects (rc_resource r) path)"
  using assms by (rule claims_overlap_exact)

theorem claims_overlap_common_path_witness:
  "claims_overlap sample_fs ts_claim file_claim = Inr True \<and>
   (\<exists>path. path_ok path \<and> glob_selects (rc_resource ts_claim) path \<and>
      glob_selects (rc_resource file_claim) path)"
  using claims_overlap_common_path [of sample_fs ts_claim file_claim True] sample_claims_overlap
  by simp

text \<open>A conflict is mutual: swapping the two claims, and the sides of the evidence offered
  for them, never changes the verdict of \<open>claimsConflict\<close>.\<close>

theorem claims_conflict_mutual:
  assumes "fs_lawful fs" "canonical_resource (rc_resource l)" "canonical_resource (rc_resource r)"
    and "claims_conflict fs l r evidence = Inr b"
  shows "claims_conflict fs r l (map_option swap_facts evidence) = Inr b"
  using assms by (rule claims_conflict_swap)

theorem claims_conflict_mutual_witness:
  "claims_conflict sample_fs ts_claim file_claim None = Inr True \<and>
   claims_conflict sample_fs file_claim ts_claim None = Inr True"
proof -
  have c: "claims_conflict sample_fs ts_claim file_claim None = Inr True"
    by code_simp
  with claims_conflict_mutual [of sample_fs ts_claim file_claim None True] show ?thesis by simp
qed

text \<open>C26: What \<open>claimsConflict\<close> lets through: when two overlapping claims that both write are
  declared free of conflict, neither is exclusive and fresh evidence shows two different
  sessions of one repository that work in two different worktrees.\<close>

theorem coordinated_writers_are_isolated:
  assumes "claims_conflict fs l r evidence = Inr False" "claims_overlap fs l r = Inr True"
    and "Write \<le> rc_mode l" "Write \<le> rc_mode r"
    and "\<And>f. evidence = Some f \<Longrightarrow> cf_left f = l \<and> cf_right f = r"
  shows "rc_mode l = Write \<and> rc_mode r = Write \<and> rc_session_id l \<noteq> rc_session_id r \<and>
         rc_worktree_path l \<noteq> rc_worktree_path r \<and> rc_repository_id l = rc_repository_id r \<and>
         (\<exists>f. evidence = Some f \<and> cf_claim_set_generation f = cf_observed_claim_set_generation f)"
proof -
  have "RESOURCE_CLAIM_COMPATIBILITY_MATRIX (rc_mode l) (rc_mode r) = Conflict"
    using assms(3,4) by (auto simp: write_access_cases)
  then obtain f where f: "evidence = Some f" "permits_coordinated_write f = Allowed"
    using assms(1,2) by (auto simp: claims_conflict_def split: option.splits if_splits)
  with assms(5) [OF f(1)] show ?thesis
    by (auto simp: permits_coordinated_write_iff)
qed

theorem coordinated_writers_are_isolated_witness:
  "let l = shared_claim ''s1'' ''/w'' ''src''; r = shared_claim ''s2'' ''/v'' ''src'' in
   claims_conflict sample_fs l r (Some (verified_facts l r)) = Inr False \<and>
   rc_session_id l \<noteq> rc_session_id r"
proof -
  let ?l = "shared_claim ''s1'' ''/w'' ''src''" and ?r = "shared_claim ''s2'' ''/v'' ''src''"
  have c: "claims_conflict sample_fs ?l ?r (Some (verified_facts ?l ?r)) = Inr False"
    by code_simp
  have "claims_overlap sample_fs ?l ?r = Inr True" "Write \<le> rc_mode ?l" "Write \<le> rc_mode ?r"
    by code_simp+
  from coordinated_writers_are_isolated [OF c this] c show ?thesis
    by (simp add: verified_facts_def Let_def)
qed

text \<open>The claim identifier determines the claim: as long as the hash does not collide on
  the two hashed texts, equal identifiers mean equal session, resource, mode and sharing.\<close>

theorem canonical_claim_id_determines_claim:
  assumes "separable s r sh" "separable s' r' sh'"
    and "inj_on sha {claim_id_preimage s r m sh, claim_id_preimage s' r' m' sh'}"
    and "canonical_claim_id sha s r m sh = canonical_claim_id sha s' r' m' sh'"
  shows "s = s' \<and> r = r' \<and> m = m' \<and> sh = sh'"
proof -
  have "claim_id_preimage s r m sh = claim_id_preimage s' r' m' sh'"
  proof (rule inj_onD [OF assms(3)])
    show "sha (claim_id_preimage s r m sh) = sha (claim_id_preimage s' r' m' sh')"
      using assms(4) unfolding canonical_claim_id_def by (simp only: same_append_eq)
  qed simp_all
  then show ?thesis by (simp only: claim_id_preimage_inj [OF assms(1,2)])
qed

theorem canonical_claim_id_determines_claim_witness:
  "separable ''s'' ''src/a'' None \<and> (''s'' = ''s'' \<and> ''src/a'' = ''src/a'' \<and> Read = Read \<and>
     (None :: shared_write_binding option) = None)"
proof -
  have sep: "separable ''s'' ''src/a'' None" by code_simp
  from canonical_claim_id_determines_claim [OF sep sep, of id Read Read] sep show ?thesis
    by simp
qed

text \<open>The stored order of claims is canonical: any two listings of the same claims are
  sorted into the same list, when no two claims share a sort key.\<close>

theorem sort_resource_claims_canonical:
  assumes "mset xs = mset ys" "inj_on claim_sort_key (set xs)"
  shows "sort_resource_claims xs = sort_resource_claims ys"
  using assms by (rule sort_resource_claims_unique)

theorem sort_resource_claims_canonical_witness:
  "sort_resource_claims [ts_claim, file_claim] = sort_resource_claims [file_claim, ts_claim]"
proof (rule sort_resource_claims_canonical)
  have "claim_sort_key ts_claim \<noteq> claim_sort_key file_claim" by code_simp
  then show "inj_on claim_sort_key (set [ts_claim, file_claim])" by (simp add: inj_on_def)
qed simp

text \<open>The two validations agree: an input that \<open>canonicalizeClaimInput\<close> accepts is accepted
  again by \<open>createResourceClaim\<close>, and the claim that results is well formed, belongs to the
  owner and carries the mode and resource the caller wrote.\<close>

theorem canonical_input_creates_claim:
  assumes "fs_lawful fs" "fs_exact fs"
    and "canonicalize_claim_input fs (InputRecord i) owner = Inr c" "is_timestamp t"
  shows "\<exists>claim. create_resource_claim sha c owner t = Inr claim \<and> claim_wf sha claim \<and>
           rc_session_id claim = co_session_id owner \<and> rc_repository_id claim = co_repository_id owner \<and>
           rc_worktree_path claim = co_worktree_path owner \<and>
           ci_resource i = JsString (rc_resource claim) \<and> ci_mode i = JsString (mode_name (rc_mode claim))"
proof -
  have c: "resource_claim_mode (ci_mode i) = Some (cc_mode c)"
    "validate_sharing (ci_sharing i) (cc_mode c) = Inr (cc_sharing c)"
    "canonicalize_claim_resource fs (ci_resource i) (co_worktree_path owner) = Inr (cc_resource c)"
    using canonicalize_claim_input_Inr [OF assms(3)] by auto
  note r = canonicalize_claim_resource_exact [OF assms(1,2) c(3)]
  have "sharing_ok (cc_sharing c) (cc_mode c)"
    using c(2) by (simp add: validate_sharing_Inr)
  with assms(4) r obtain claim where *: "create_resource_claim sha c owner t = Inr claim"
    by (simp add: create_resource_claim_Inr)
  then have "rc_session_id claim = co_session_id owner" "rc_repository_id claim = co_repository_id owner"
    "rc_worktree_path claim = co_worktree_path owner" "rc_resource claim = cc_resource c"
    "rc_mode claim = cc_mode c"
    by (auto simp: create_resource_claim_Inr)
  with * r create_resource_claim_wf [OF *] resource_claim_mode_Some [OF c(1)] show ?thesis
    by auto
qed

definition sample_input :: claim_input where
  "sample_input = \<lparr>ci_resource = JsString ''src/*.ts'', ci_mode = JsString ''write'',
     ci_repositoryId = JsUndefined, ci_repository_id = JsString ''repo'', ci_sessionId = JsString ''s1'',
     ci_session_id = JsUndefined, ci_worktreePath = JsString ''/w'', ci_worktree_path = JsUndefined,
     ci_sharing = SharingUndefined\<rparr>"

definition sample_owner :: claim_owner_context where
  "sample_owner = \<lparr>co_session_id = ''s1'', co_repository_id = ''repo'', co_worktree_path = ''/w'',
     co_state = ''active''\<rparr>"

theorem canonical_input_creates_claim_witness:
  "\<exists>claim. create_resource_claim id \<lparr>cc_resource = ''src/*.ts'', cc_mode = Write, cc_sharing = None\<rparr>
      sample_owner ''2024-02-29T00:00:00.000Z'' = Inr claim \<and> claim_wf id claim"
proof -
  have "canonicalize_claim_input sample_fs (InputRecord sample_input) sample_owner =
      Inr \<lparr>cc_resource = ''src/*.ts'', cc_mode = Write, cc_sharing = None\<rparr>"
    "is_timestamp ''2024-02-29T00:00:00.000Z''"
    by code_simp+
  from canonical_input_creates_claim [OF sample_fs_ok this, of id] show ?thesis by auto
qed

end
