(* ===== verification/OperationAuthorization.thy ===== *)
theory OperationAuthorization
  imports ResourceClaims
begin

text \<open>
  src/src/operation-authorization.ts: the operation vocabulary, the policy record that gives each
  operation the claim strength it needs, and the operations each claim mode enables. The two
  rationale texts of a policy entry are documentation and are left out.
\<close>

definition OPERATION_AUTHORIZATION_SCHEMA_VERSION :: int where
  "OPERATION_AUTHORIZATION_SCHEMA_VERSION = 1"

datatype operation_name = SourceWrite | Stage | Commit | BranchMutation | Push | Cleanup

datatype enforcement = PublicExecution | AuthorizationVocabulary

record operation_policy =
  op_required_access :: claim_mode
  op_enforcement :: enforcement

definition operation_string :: "operation_name \<Rightarrow> string" where
  "operation_string n =
     (case n of
        SourceWrite \<Rightarrow> ''source-write'' | Stage \<Rightarrow> ''stage'' | Commit \<Rightarrow> ''commit''
      | BranchMutation \<Rightarrow> ''branch-mutation'' | Push \<Rightarrow> ''push'' | Cleanup \<Rightarrow> ''cleanup'')"

definition OPERATION_AUTHORIZATION_POLICY :: "operation_name \<Rightarrow> operation_policy" where
  "OPERATION_AUTHORIZATION_POLICY n =
     (case n of
        SourceWrite \<Rightarrow> \<lparr>op_required_access = Write, op_enforcement = AuthorizationVocabulary\<rparr>
      | Stage \<Rightarrow> \<lparr>op_required_access = Write, op_enforcement = AuthorizationVocabulary\<rparr>
      | Commit \<Rightarrow> \<lparr>op_required_access = ExclusiveWrite, op_enforcement = PublicExecution\<rparr>
      | BranchMutation \<Rightarrow> \<lparr>op_required_access = ExclusiveWrite, op_enforcement = AuthorizationVocabulary\<rparr>
      | Push \<Rightarrow> \<lparr>op_required_access = ExclusiveWrite, op_enforcement = PublicExecution\<rparr>
      | Cleanup \<Rightarrow> \<lparr>op_required_access = ExclusiveWrite, op_enforcement = AuthorizationVocabulary\<rparr>)"

definition OPERATION_VOCABULARY :: "operation_name list" where
  "OPERATION_VOCABULARY = [SourceWrite, Stage, Commit, BranchMutation, Push, Cleanup]"

text \<open>\<open>isOperationName\<close>, returning the operation it recognised.\<close>

definition operation_of_string :: "string \<Rightarrow> operation_name option" where
  "operation_of_string s = find (\<lambda>n. operation_string n = s) OPERATION_VOCABULARY"

definition required_access_for_operation :: "operation_name \<Rightarrow> claim_mode" where
  "required_access_for_operation n = op_required_access (OPERATION_AUTHORIZATION_POLICY n)"

definition OPERATION_REQUIRED_ACCESS :: "(operation_name \<times> claim_mode) list" where
  "OPERATION_REQUIRED_ACCESS = map (\<lambda>n. (n, required_access_for_operation n)) OPERATION_VOCABULARY"

definition claim_mode_operation_requirements :: "(claim_mode \<times> operation_name list) list" where
  "claim_mode_operation_requirements =
     map (\<lambda>m. (m, filter (\<lambda>n. claim_mode_grants_access m (required_access_for_operation n))
             OPERATION_VOCABULARY))
       RESOURCE_CLAIM_MODES"

definition CHECKPOINT_MAX_PATHS :: nat where
  "CHECKPOINT_MAX_PATHS = 4096"

lemma operation_of_string_Some: "operation_of_string s = Some n \<longleftrightarrow> operation_string n = s"
proof
  assume "operation_of_string s = Some n"
  then show "operation_string n = s" by (auto simp: operation_of_string_def find_Some_iff)
next
  assume "operation_string n = s"
  then show "operation_of_string s = Some n"
    by (cases n) (auto simp: operation_of_string_def OPERATION_VOCABULARY_def operation_string_def)
qed

lemma required_access_writes: "Write \<le> required_access_for_operation n"
  by (cases n) (simp_all add: required_access_for_operation_def OPERATION_AUTHORIZATION_POLICY_def)

text \<open>No operation is open to a reader, a stronger claim never enables fewer operations, and
  every operation is enabled by some mode: the table that \<open>claimModeOperationRequirements\<close> derives
  is empty for read, grows with the mode, and is the whole vocabulary for exclusive-write.\<close>

theorem operation_requirements_grow:
  "\<exists>w. claim_mode_operation_requirements =
     [(Read, []), (Write, w), (ExclusiveWrite, OPERATION_VOCABULARY)] \<and>
     set w \<subset> set OPERATION_VOCABULARY \<and> Commit \<notin> set w \<and> Push \<notin> set w"
  by (intro exI [of _ "[SourceWrite, Stage]"])
    (auto simp: claim_mode_operation_requirements_def RESOURCE_CLAIM_MODES_def OPERATION_VOCABULARY_def
      claim_mode_grants_access_def required_access_for_operation_def OPERATION_AUTHORIZATION_POLICY_def
      RESOURCE_CLAIM_ACCESS_STRENGTH_def)

end
