(* ===== verification/CoordinationTransactions.thy ===== *)
theory CoordinationTransactions
  imports OperationAuthorization "HOL-Library.AList"
begin

text \<open>
  src/src/coordination-transactions.ts: planning and applying one claim transaction of a session
  against a snapshot of the registry, the checks that guard it (generation, complete claim set,
  execution drain), and the authorization of a concrete operation against the same claims.
  A JavaScript \<open>Map\<close> is an association list (\<open>AList.update\<close> keeps the position of an existing
  key, as \<open>Map.set\<close> does). The clock is the argument \<open>now\<close>, the hash \<open>sha\<close>. Freezing and
  cloning have no counterpart, nor have the details attached to errors.
\<close>

section \<open>Data\<close>

definition COORDINATION_TRANSACTION_SCHEMA_VERSION :: int where
  "COORDINATION_TRANSACTION_SCHEMA_VERSION = 1"

datatype transaction_kind = TAcquire | TReplace | TDelta | TRelease

definition transaction_kind_of :: "string \<Rightarrow> transaction_kind option" where
  "transaction_kind_of s =
     (if s = ''acquire'' then Some TAcquire else if s = ''replace'' then Some TReplace
      else if s = ''delta'' then Some TDelta else if s = ''release'' then Some TRelease else None)"

text \<open>The fields of \<open>SessionRecord\<close> that this module reads.\<close>

record session_record =
  sr_session_id :: string
  sr_repository_id :: string
  sr_worktree_path :: string
  sr_state :: string

record claim_delta =
  cd_kind :: string
  cd_resource :: js_value
  cd_mode :: js_value
  cd_sharing :: raw_sharing

datatype execution_state = ExActive | ExDraining | ExStopped | ExUnknown

record managed_execution =
  me_execution_id :: string
  me_session_id :: string
  me_state :: execution_state
  me_managed :: bool
  me_resources :: "string list option"

record transaction_snapshot =
  ts_repository_id :: string
  ts_claim_set_generation :: int
  ts_sessions :: "session_record list"
  ts_claims :: "resource_claim list"

record transaction_request =
  rq_kind :: string
  rq_session_id :: string
  rq_repository_id :: "string option"
  rq_claims :: "claim_input list option"
  rq_deltas :: "claim_delta list option"
  rq_resources :: "js_value list option"
  rq_sharing :: raw_sharing
  rq_expected_generation :: "int option"
  rq_force :: bool
  rq_timestamp :: "string option"
  rq_managed_executions :: "managed_execution list option"

datatype change_kind = Added | Changed | Released | Unchanged

record claim_change =
  ch_resource :: string
  ch_before :: "resource_claim option"
  ch_after :: "resource_claim option"
  ch_kind :: change_kind

record transaction_plan =
  pl_repository_id :: string
  pl_sessions :: "session_record list"
  pl_claims :: "resource_claim list"
  pl_previous_generation :: int
  pl_generation :: int
  pl_changes :: "claim_change list"
  pl_idempotent :: bool
  pl_session_id :: string
  pl_session_claims :: "resource_claim list"

type_synonym facts_source = "resource_claim \<Rightarrow> resource_claim \<Rightarrow> coordination_facts option"

abbreviation transaction_error :: "string \<Rightarrow> string \<Rightarrow> registry_error" where
  "transaction_error \<equiv> SessionRegistryError"

definition MAX_SAFE_INTEGER :: int where
  "MAX_SAFE_INTEGER = 2 ^ 53 - 1"

definition is_safe_integer :: "int \<Rightarrow> bool" where
  "is_safe_integer n \<longleftrightarrow> - MAX_SAFE_INTEGER \<le> n \<and> n \<le> MAX_SAFE_INTEGER"

definition owner_context :: "session_record \<Rightarrow> claim_owner_context" where
  "owner_context owner =
     \<lparr>co_session_id = sr_session_id owner, co_repository_id = sr_repository_id owner,
      co_worktree_path = sr_worktree_path owner, co_state = sr_state owner\<rparr>"

section \<open>Validation of the snapshot and the request\<close>

definition assert_snapshot :: "transaction_snapshot \<Rightarrow> registry_error + unit" where
  "assert_snapshot snapshot =
     (if ts_repository_id snapshot = [] then
        Inl (transaction_error ''INVALID_OPERATION'' ''Transaction snapshot repository identity is invalid'')
      else if \<not> is_safe_integer (ts_claim_set_generation snapshot) \<or> ts_claim_set_generation snapshot < 0 then
        Inl (transaction_error ''INVALID_OPERATION'' ''Transaction snapshot generation is invalid'')
      else Inr ())"

text \<open>\<open>assertRequest\<close>, returning the kind it recognised.\<close>

definition assert_request :: "transaction_request \<Rightarrow> registry_error + transaction_kind" where
  "assert_request request =
     (if rq_session_id request = [] then
        Inl (transaction_error ''INVALID_OPERATION'' ''Transaction sessionId is required'')
      else case transaction_kind_of (rq_kind request) of
        None \<Rightarrow> Inl (transaction_error ''INVALID_OPERATION'' ''Transaction kind is unsupported'')
      | Some kind \<Rightarrow>
          if rq_force request \<and> rq_expected_generation request \<noteq> None then
            Inl (transaction_error ''INVALID_OPERATION''
              ''Force and expected generation are mutually exclusive'')
          else Inr kind)"

definition assert_concurrency ::
  "int \<Rightarrow> transaction_kind \<Rightarrow> transaction_request \<Rightarrow> registry_error + unit" where
  "assert_concurrency actual kind request =
     (let has_expected = (rq_expected_generation request \<noteq> None) in
      if kind \<noteq> TAcquire \<and> has_expected = rq_force request then
        Inl (transaction_error ''INVALID_OPERATION''
          ''Transaction kind requires exactly one generation or force intent'')
      else case rq_expected_generation request of
        None \<Rightarrow> Inr ()
      | Some expected \<Rightarrow>
          if \<not> is_safe_integer expected \<or> expected < 0 then
            Inl (transaction_error ''INVALID_OPERATION'' ''Expected claim-set generation is invalid'')
          else if expected \<noteq> actual then
            Inl (transaction_error ''STALE_CLAIM_SET'' ''Claim-set generation is stale'')
          else Inr ())"

definition select_owner ::
  "transaction_snapshot \<Rightarrow> transaction_request \<Rightarrow> registry_error + session_record" where
  "select_owner snapshot request =
     (case find (\<lambda>s. sr_session_id s = rq_session_id request) (ts_sessions snapshot) of
        None \<Rightarrow> Inl (transaction_error ''SESSION_NOT_FOUND'' ''Session was not found'')
      | Some owner \<Rightarrow>
          if sr_state owner \<noteq> ''active'' then
            Inl (transaction_error ''SESSION_NOT_ACTIVE'' ''Session is not active'')
          else if rq_repository_id request \<noteq> None \<and>
                  rq_repository_id request \<noteq> Some (ts_repository_id snapshot) then
            Inl (transaction_error ''REPOSITORY_MISMATCH'' ''Transaction repository does not match the snapshot'')
          else if sr_repository_id owner \<noteq> ts_repository_id snapshot then
            Inl (transaction_error ''REPOSITORY_MISMATCH'' ''Session repository does not match the snapshot'')
          else Inr owner)"

section \<open>Normalization of the request\<close>

datatype normalized_delta = Upsert canonical_claim_input | ReleaseResource string

datatype normalized_request =
    NormalizedClaims "canonical_claim_input list"
  | NormalizedReleases "string list"
  | NormalizedDeltas "normalized_delta list"

definition sharing_kind :: "shared_write_binding option \<Rightarrow> string option" where
  "sharing_kind s = map_option sw_kind s"

definition sharing_group :: "shared_write_binding option \<Rightarrow> string option" where
  "sharing_group s = map_option sw_group_id s"

text \<open>
  Two raw bindings with equal \<open>kind\<close> and \<open>groupId\<close>. On a binding that is no object the source
  either fails with a \<open>TypeError\<close> (null) or compares missing fields; both are refused here.
\<close>

definition same_sharing :: "raw_sharing \<Rightarrow> raw_sharing \<Rightarrow> bool" where
  "same_sharing left right =
     (case (left, right) of (SharingRecord k g, SharingRecord k' g') \<Rightarrow> k = k' \<and> g = g' | _ \<Rightarrow> False)"

definition claim_key :: "canonical_claim_input \<Rightarrow> string" where
  "claim_key c =
     cc_resource c @ NUL # mode_name (cc_mode c) @
     NUL # (case cc_sharing c of None \<Rightarrow> [] | Some b \<Rightarrow> sw_kind b) @
     NUL # (case cc_sharing c of None \<Rightarrow> [] | Some b \<Rightarrow> sw_group_id b)"

fun reject_duplicates ::
  "string set \<Rightarrow> canonical_claim_input list \<Rightarrow> registry_error + canonical_claim_input list" where
  "reject_duplicates seen [] = Inr []"
| "reject_duplicates seen (claim # claims) =
     (if cc_resource claim \<in> seen then
        Inl (transaction_error ''DUPLICATE_CLAIM'' ''Request contains duplicate claim'')
      else bind_sum (reject_duplicates (insert (cc_resource claim) seen) claims) (\<lambda>rest. Inr (claim # rest)))"

definition with_request_sharing :: "raw_sharing \<Rightarrow> claim_input \<Rightarrow> claim_input" where
  "with_request_sharing request_sharing input =
     (if ci_sharing input = SharingUndefined \<and> request_sharing \<noteq> SharingUndefined
      then input\<lparr>ci_sharing := request_sharing\<rparr> else input)"

definition canonical_inputs ::
  "filesystem \<Rightarrow> claim_input list \<Rightarrow> session_record \<Rightarrow> raw_sharing \<Rightarrow>
   registry_error + canonical_claim_input list" where
  "canonical_inputs fs inputs owner request_sharing =
     bind_sum (map_sum_list (\<lambda>input. canonicalize_claim_input fs
         (InputRecord (with_request_sharing request_sharing input)) (owner_context owner)) inputs) (\<lambda>claims.
     bind_sum (reject_duplicates {} claims) (\<lambda>claims.
     Inr (sort_key claim_key claims)))"

definition delta_input :: "raw_sharing \<Rightarrow> claim_delta \<Rightarrow> claim_input" where
  "delta_input request_sharing delta =
     \<lparr>ci_resource = cd_resource delta, ci_mode = cd_mode delta, ci_repositoryId = JsUndefined,
      ci_repository_id = JsUndefined, ci_sessionId = JsUndefined, ci_session_id = JsUndefined,
      ci_worktreePath = JsUndefined, ci_worktree_path = JsUndefined,
      ci_sharing = (if cd_sharing delta = SharingUndefined \<or> cd_sharing delta = SharingNull
                    then request_sharing else cd_sharing delta)\<rparr>"

fun normalize_deltas ::
  "filesystem \<Rightarrow> session_record \<Rightarrow> raw_sharing \<Rightarrow> string set \<Rightarrow> claim_delta list \<Rightarrow>
   registry_error + normalized_delta list" where
  "normalize_deltas fs owner request_sharing seen [] = Inr []"
| "normalize_deltas fs owner request_sharing seen (delta # deltas) =
     (if cd_kind delta \<noteq> ''upsert'' \<and> cd_kind delta \<noteq> ''release'' then
        Inl (transaction_error ''INVALID_CLAIM'' ''Claim delta kind is unsupported'')
      else
        bind_sum (canonicalize_claim_resource fs (cd_resource delta) (sr_worktree_path owner)) (\<lambda>resource.
        if resource \<in> seen then
          Inl (transaction_error ''DUPLICATE_CLAIM'' ''Request contains duplicate claim delta'')
        else
          bind_sum
            (if cd_kind delta = ''release'' then Inr (ReleaseResource resource)
             else bind_sum (canonicalize_claim_input fs (InputRecord (delta_input request_sharing delta))
                    (owner_context owner)) (\<lambda>input. Inr (Upsert input))) (\<lambda>normalized.
          bind_sum (normalize_deltas fs owner request_sharing (insert resource seen) deltas) (\<lambda>rest.
          Inr (normalized # rest)))))"

definition normalize_claims ::
  "filesystem \<Rightarrow> session_record \<Rightarrow> transaction_kind \<Rightarrow> transaction_request \<Rightarrow>
   registry_error + normalized_request" where
  "normalize_claims fs owner kind request =
     (let inputs = (case rq_claims request of None \<Rightarrow> [] | Some cs \<Rightarrow> cs) in
      if kind = TAcquire \<and> inputs = [] then
        Inl (transaction_error ''INVALID_CLAIM'' ''At least one claim is required'')
      else if rq_sharing request \<noteq> SharingUndefined \<and>
              list_ex (\<lambda>i. ci_sharing i \<noteq> SharingUndefined \<and> \<not> same_sharing (ci_sharing i) (rq_sharing request))
                inputs then
        Inl (transaction_error ''CONTRADICTORY_CLAIM'' ''Request contains conflicting sharing bindings'')
      else bind_sum (canonical_inputs fs inputs owner (rq_sharing request)) (\<lambda>claims.
        Inr (NormalizedClaims claims)))"

definition normalize_release ::
  "filesystem \<Rightarrow> session_record \<Rightarrow> transaction_request \<Rightarrow> registry_error + normalized_request" where
  "normalize_release fs owner request =
     (case rq_resources request of
        None \<Rightarrow> Inl (transaction_error ''INVALID_CLAIM'' ''At least one release resource is required'')
      | Some resources \<Rightarrow>
          if resources = [] then
            Inl (transaction_error ''INVALID_CLAIM'' ''At least one release resource is required'')
          else if rq_deltas request \<noteq> None \<or> rq_claims request \<noteq> None \<or>
                  rq_sharing request \<noteq> SharingUndefined then
            Inl (transaction_error ''INVALID_OPERATION'' ''Release cannot include claims or deltas'')
          else bind_sum (map_sum_list (\<lambda>r. canonicalize_claim_resource fs r (sr_worktree_path owner)) resources)
                 (\<lambda>rs. Inr (NormalizedReleases (sort (remdups rs)))))"

definition normalize_delta_request ::
  "filesystem \<Rightarrow> session_record \<Rightarrow> transaction_request \<Rightarrow> registry_error + normalized_request" where
  "normalize_delta_request fs owner request =
     (let deltas = (case rq_deltas request of None \<Rightarrow> [] | Some ds \<Rightarrow> ds) in
      if deltas = [] then
        Inl (transaction_error ''INVALID_CLAIM'' ''At least one claim delta is required'')
      else if rq_sharing request \<noteq> SharingUndefined \<and>
              list_ex (\<lambda>d. cd_kind d = ''upsert'' \<and> cd_sharing d \<noteq> SharingUndefined \<and>
                 \<not> same_sharing (cd_sharing d) (rq_sharing request)) deltas then
        Inl (transaction_error ''CONTRADICTORY_CLAIM'' ''Request contains conflicting sharing bindings'')
      else bind_sum (normalize_deltas fs owner (rq_sharing request) {} deltas) (\<lambda>ds.
        Inr (NormalizedDeltas ds)))"

definition normalize_request ::
  "filesystem \<Rightarrow> session_record \<Rightarrow> transaction_kind \<Rightarrow> transaction_request \<Rightarrow>
   registry_error + normalized_request" where
  "normalize_request fs owner kind request =
     (case kind of
        TAcquire \<Rightarrow> normalize_claims fs owner kind request
      | TReplace \<Rightarrow> normalize_claims fs owner kind request
      | TRelease \<Rightarrow> normalize_release fs owner request
      | TDelta \<Rightarrow> normalize_delta_request fs owner request)"

section \<open>The next claims of the session\<close>

type_synonym claim_map = "(string \<times> resource_claim) list"

text \<open>\<open>new Map(claims.map((claim) => [claim.resource, claim]))\<close>\<close>

definition claim_map_of :: "resource_claim list \<Rightarrow> claim_map" where
  "claim_map_of claims = fold (\<lambda>c m. AList.update (rc_resource c) c m) claims []"

definition claim_equivalent_input :: "resource_claim \<Rightarrow> canonical_claim_input \<Rightarrow> bool" where
  "claim_equivalent_input claim input \<longleftrightarrow>
     rc_mode claim = cc_mode input \<and>
     sharing_kind (rc_sharing claim) = sharing_kind (cc_sharing input) \<and>
     sharing_group (rc_sharing claim) = sharing_group (cc_sharing input)"

definition claim_equivalent :: "resource_claim \<Rightarrow> resource_claim \<Rightarrow> bool" where
  "claim_equivalent left right \<longleftrightarrow>
     rc_claim_id left = rc_claim_id right \<and> rc_mode left = rc_mode right \<and>
     sharing_kind (rc_sharing left) = sharing_kind (rc_sharing right) \<and>
     sharing_group (rc_sharing left) = sharing_group (rc_sharing right)"

text \<open>One round of each of the four loops of \<open>materializeNextClaims\<close>.\<close>

definition replace_step ::
  "(string \<Rightarrow> string) \<Rightarrow> session_record \<Rightarrow> string \<Rightarrow> claim_map \<Rightarrow> canonical_claim_input \<Rightarrow> claim_map \<Rightarrow>
   registry_error + claim_map" where
  "replace_step sha owner timestamp existing_by_resource claim next =
     bind_sum
       (case map_of existing_by_resource (cc_resource claim) of
          Some existing \<Rightarrow>
            if claim_equivalent_input existing claim then Inr existing
            else create_resource_claim sha claim (owner_context owner) timestamp
        | None \<Rightarrow> create_resource_claim sha claim (owner_context owner) timestamp) (\<lambda>c.
     Inr (AList.update (cc_resource claim) c next))"

definition acquire_step ::
  "(string \<Rightarrow> string) \<Rightarrow> session_record \<Rightarrow> string \<Rightarrow> canonical_claim_input \<Rightarrow> claim_map \<Rightarrow>
   registry_error + claim_map" where
  "acquire_step sha owner timestamp claim next =
     (case map_of next (cc_resource claim) of
        Some existing \<Rightarrow>
          if \<not> claim_equivalent_input existing claim then
            Inl (transaction_error ''CONTRADICTORY_CLAIM''
              ''Session already owns the resource with different authority'')
          else Inr next
      | None \<Rightarrow>
          bind_sum (create_resource_claim sha claim (owner_context owner) timestamp) (\<lambda>c.
          Inr (AList.update (cc_resource claim) c next)))"

definition delta_step ::
  "(string \<Rightarrow> string) \<Rightarrow> session_record \<Rightarrow> string \<Rightarrow> normalized_delta \<Rightarrow> claim_map \<Rightarrow>
   registry_error + claim_map" where
  "delta_step sha owner timestamp delta next =
     (case delta of
        ReleaseResource resource \<Rightarrow> Inr (AList.delete resource next)
      | Upsert claim \<Rightarrow>
          if (case map_of next (cc_resource claim) of
                None \<Rightarrow> True | Some existing \<Rightarrow> \<not> claim_equivalent_input existing claim) then
            bind_sum (create_resource_claim sha claim (owner_context owner) timestamp) (\<lambda>c.
            Inr (AList.update (cc_resource claim) c next))
          else Inr next)"

fun fold_sum :: "('a \<Rightarrow> 's \<Rightarrow> 'e + 's) \<Rightarrow> 'a list \<Rightarrow> 's \<Rightarrow> 'e + 's" where
  "fold_sum f [] s = Inr s"
| "fold_sum f (x # xs) s = bind_sum (f x s) (fold_sum f xs)"

definition materialize_next_claims ::
  "(string \<Rightarrow> string) \<Rightarrow> resource_claim list \<Rightarrow> normalized_request \<Rightarrow> transaction_kind \<Rightarrow> string \<Rightarrow>
   session_record \<Rightarrow> registry_error + claim_map" where
  "materialize_next_claims sha current request kind timestamp owner =
     (let next = claim_map_of current in
      case request of
        NormalizedClaims claims \<Rightarrow>
          if kind = TReplace then fold_sum (replace_step sha owner timestamp next) claims []
          else fold_sum (acquire_step sha owner timestamp) claims next
      | NormalizedReleases resources \<Rightarrow> Inr (fold AList.delete resources next)
      | NormalizedDeltas deltas \<Rightarrow> fold_sum (delta_step sha owner timestamp) deltas next)"

section \<open>The checks on the complete claim set\<close>

fun assert_no_own_overlap ::
  "filesystem \<Rightarrow> resource_claim list \<Rightarrow> resource_claim list \<Rightarrow> registry_error + unit" where
  "assert_no_own_overlap fs priors [] = Inr ()"
| "assert_no_own_overlap fs priors (current # rest) =
     bind_sum (for_each_sum (\<lambda>prior.
         bind_sum (claims_overlap fs current prior) (\<lambda>overlap.
         require (\<not> overlap)
           (transaction_error ''CONTRADICTORY_CLAIM'' ''A session cannot own overlapping claims''))) priors) (\<lambda>_.
     assert_no_own_overlap fs (priors @ [current]) rest)"

definition assert_pair_compatible ::
  "filesystem \<Rightarrow> facts_source \<Rightarrow> resource_claim \<Rightarrow> resource_claim \<Rightarrow> registry_error + unit" where
  "assert_pair_compatible fs facts candidate current =
     bind_sum (claims_overlap fs candidate current) (\<lambda>overlap.
     if \<not> overlap then Inr ()
     else bind_sum (claims_conflict fs candidate current (facts candidate current)) (\<lambda>conflict.
       require (\<not> conflict)
         (transaction_error ''RESOURCE_CLAIM_CONFLICT'' ''Resource claim conflicts with an active session claim'')))"

definition assert_complete_claim_set ::
  "filesystem \<Rightarrow> resource_claim list \<Rightarrow> resource_claim list \<Rightarrow> transaction_snapshot \<Rightarrow> facts_source \<Rightarrow>
   registry_error + unit" where
  "assert_complete_claim_set fs session_claims external_claims snapshot facts =
     bind_sum (assert_no_own_overlap fs [] session_claims) (\<lambda>_.
     bind_sum (for_each_sum (\<lambda>candidate.
         for_each_sum (assert_pair_compatible fs facts candidate) external_claims) session_claims) (\<lambda>_.
     for_each_sum (\<lambda>claim. require (rc_repository_id claim = ts_repository_id snapshot)
         (transaction_error ''REPOSITORY_MISMATCH'' ''Claim repository does not match the transaction snapshot''))
       session_claims))"

definition is_authority_shrinking :: "resource_claim \<Rightarrow> resource_claim option \<Rightarrow> bool" where
  "is_authority_shrinking before after =
     (case after of
        None \<Rightarrow> True
      | Some next \<Rightarrow>
          \<not> claim_mode_grants_access (rc_mode next) (rc_mode before) \<or>
          (rc_mode before = Write \<and> rc_mode next = Write \<and>
           sharing_group (rc_sharing before) \<noteq> sharing_group (rc_sharing next)))"

text \<open>\<open>xs.some(p)\<close> with a throwing \<open>p\<close>\<close>

definition some_sum :: "('a \<Rightarrow> 'e + bool) \<Rightarrow> 'a list \<Rightarrow> 'e + bool" where
  "some_sum p xs = bind_sum (find_sum p xs) (\<lambda>r. Inr (r \<noteq> None))"

definition execution_overlaps_claim :: "filesystem \<Rightarrow> managed_execution \<Rightarrow> resource_claim \<Rightarrow> registry_error + bool" where
  "execution_overlaps_claim fs execution claim =
     (case me_resources execution of
        None \<Rightarrow> Inr True
      | Some resources \<Rightarrow>
          if resources = [] then Inr True
          else some_sum (\<lambda>r. resource_matches_claim fs (rc_resource claim) (Some (rc_worktree_path claim)) r)
                 resources)"

definition blocks_shrinking :: "filesystem \<Rightarrow> resource_claim \<Rightarrow> managed_execution \<Rightarrow> registry_error + bool" where
  "blocks_shrinking fs prior execution =
     (if me_session_id execution = rc_session_id prior \<and> me_managed execution \<and>
         me_state execution \<noteq> ExStopped
      then execution_overlaps_claim fs execution prior else Inr False)"

definition assert_execution_drain ::
  "filesystem \<Rightarrow> resource_claim list \<Rightarrow> resource_claim list \<Rightarrow> managed_execution list \<Rightarrow> registry_error + unit" where
  "assert_execution_drain fs before after executions =
     (let after_by_resource = claim_map_of after in
      for_each_sum (\<lambda>prior.
        if \<not> is_authority_shrinking prior (map_of after_by_resource (rc_resource prior)) then Inr ()
        else bind_sum (find_sum (blocks_shrinking fs prior) executions) (\<lambda>active.
          require (active = None)
            (transaction_error ''OPERATION_REJECTED'' ''Claim authority cannot shrink while execution is active'')))
        before)"

definition requires_drain_for_claim_transition ::
  "filesystem \<Rightarrow> resource_claim \<Rightarrow> resource_claim option \<Rightarrow> managed_execution list \<Rightarrow> registry_error + bool" where
  "requires_drain_for_claim_transition fs before after executions =
     (if \<not> is_authority_shrinking before after then Inr False
      else some_sum (blocks_shrinking fs before) executions)"

section \<open>Changes, plan and commit\<close>

definition build_change :: "resource_claim list \<Rightarrow> resource_claim list \<Rightarrow> string \<Rightarrow> claim_change" where
  "build_change before after resource =
     (let prior = find (\<lambda>c. rc_resource c = resource) before;
          next = map_of (claim_map_of after) resource in
      \<lparr>ch_resource = resource, ch_before = map_option clone_resource_claim prior,
       ch_after = map_option clone_resource_claim next,
       ch_kind =
         (case (prior, next) of
            (None, Some _) \<Rightarrow> Added
          | (Some _, None) \<Rightarrow> Released
          | (Some p, Some n) \<Rightarrow> if claim_equivalent p n then Unchanged else Changed
          | (None, None) \<Rightarrow> Changed)\<rparr>)"

definition build_changes :: "resource_claim list \<Rightarrow> resource_claim list \<Rightarrow> claim_change list" where
  "build_changes before after =
     map (build_change before after)
       (sort (remdups (map rc_resource before @ map rc_resource after)))"

definition plan_coordination_transaction ::
  "filesystem \<Rightarrow> (string \<Rightarrow> string) \<Rightarrow> string \<Rightarrow> facts_source \<Rightarrow> transaction_snapshot \<Rightarrow>
   transaction_request \<Rightarrow> registry_error + transaction_plan" where
  "plan_coordination_transaction fs sha now facts snapshot request =
     bind_sum (assert_snapshot snapshot) (\<lambda>_.
     bind_sum (assert_request request) (\<lambda>kind.
     bind_sum (select_owner snapshot request) (\<lambda>owner.
     bind_sum (assert_concurrency (ts_claim_set_generation snapshot) kind request) (\<lambda>_.
     let timestamp = (case rq_timestamp request of None \<Rightarrow> now | Some t \<Rightarrow> t);
         current = filter (\<lambda>c. rc_session_id c = sr_session_id owner) (ts_claims snapshot);
         external = filter (\<lambda>c. rc_session_id c \<noteq> sr_session_id owner) (ts_claims snapshot) in
     bind_sum (normalize_request fs owner kind request) (\<lambda>requested.
     bind_sum (materialize_next_claims sha current requested kind timestamp owner) (\<lambda>next_by_resource.
     let next_session_claims = sort_resource_claims (map snd next_by_resource) in
     bind_sum (assert_complete_claim_set fs next_session_claims external snapshot facts) (\<lambda>_.
     bind_sum (assert_execution_drain fs current next_session_claims
         (case rq_managed_executions request of None \<Rightarrow> [] | Some es \<Rightarrow> es)) (\<lambda>_.
     let next_claims = sort_resource_claims (external @ next_session_claims);
         changed = build_changes current next_session_claims;
         generation =
           (if list_ex (\<lambda>c. ch_kind c \<noteq> Unchanged) changed then ts_claim_set_generation snapshot + 1
            else ts_claim_set_generation snapshot) in
     Inr
       \<lparr>pl_repository_id = ts_repository_id snapshot,
        pl_sessions = ts_sessions snapshot,
        pl_claims = map clone_resource_claim next_claims,
        pl_previous_generation = ts_claim_set_generation snapshot,
        pl_generation = generation,
        pl_changes = changed,
        pl_idempotent = (generation = ts_claim_set_generation snapshot),
        pl_session_id = sr_session_id owner,
        pl_session_claims = map clone_resource_claim next_session_claims\<rparr>))))))))"

text \<open>
  \<open>applyCoordinationTransaction\<close>: the result and what the supplied writer is called with, which
  is nothing for an idempotent plan. \<open>commit_to\<close> is the registry after that write.
\<close>

definition apply_coordination_transaction ::
  "filesystem \<Rightarrow> (string \<Rightarrow> string) \<Rightarrow> string \<Rightarrow> facts_source \<Rightarrow> transaction_snapshot \<Rightarrow>
   transaction_request \<Rightarrow> registry_error + transaction_plan \<times> transaction_plan option" where
  "apply_coordination_transaction fs sha now facts snapshot request =
     bind_sum (plan_coordination_transaction fs sha now facts snapshot request) (\<lambda>plan.
     Inr (plan, if \<not> pl_idempotent plan then Some plan else None))"

definition commit_to :: "transaction_snapshot \<Rightarrow> transaction_plan option \<Rightarrow> transaction_snapshot" where
  "commit_to snapshot written =
     (case written of
        None \<Rightarrow> snapshot
      | Some plan \<Rightarrow> snapshot\<lparr>ts_claims := pl_claims plan, ts_claim_set_generation := pl_generation plan\<rparr>)"

section \<open>Authorization of a concrete operation\<close>

record authorized_resource =
  ar_resource :: string
  ar_claim_ids :: "string list"

record operation_authorization =
  oa_allowed :: bool
  oa_code :: string
  oa_operation :: string
  oa_required_access :: "claim_mode option"
  oa_session_id :: string
  oa_resources :: "authorized_resource list"

record authorization_request =
  aq_operation :: string
  aq_session_id :: string
  aq_resources :: "js_value list option"
  aq_snapshot :: transaction_snapshot

definition denied_authorization ::
  "authorization_request \<Rightarrow> claim_mode option \<Rightarrow> string \<Rightarrow> operation_authorization" where
  "denied_authorization request required code =
     \<lparr>oa_allowed = False, oa_code = code, oa_operation = aq_operation request,
      oa_required_access = required, oa_session_id = aq_session_id request, oa_resources = []\<rparr>"

definition claim_matches :: "filesystem \<Rightarrow> string \<Rightarrow> resource_claim \<Rightarrow> registry_error + bool" where
  "claim_matches fs resource claim =
     resource_matches_claim fs (rc_resource claim) (Some (rc_worktree_path claim)) resource"

text \<open>One round of the loop over resources: \<open>Inl\<close> of the inner sum is the denial code.\<close>

definition authorize_resource ::
  "filesystem \<Rightarrow> facts_source \<Rightarrow> claim_mode \<Rightarrow> resource_claim list \<Rightarrow> resource_claim list \<Rightarrow> string \<Rightarrow>
   registry_error + (string + authorized_resource)" where
  "authorize_resource fs facts required own_claims external_claims resource =
     bind_sum (filter_sum (claim_matches fs resource) own_claims) (\<lambda>matching.
     let granting = filter (\<lambda>c. claim_mode_grants_access (rc_mode c) required) matching in
     if granting = [] then
       bind_sum (find_sum (\<lambda>c. resource_claim_conflicts_with_access fs (rc_resource c)
           (Some (rc_worktree_path c)) (rc_mode c) resource required) external_claims) (\<lambda>conflicting.
       Inr (Inl (if conflicting \<noteq> None then ''RESOURCE_CLAIM_CONFLICT''
                 else if matching \<noteq> [] then ''INSUFFICIENT_CLAIM_MODE''
                 else ''MISSING_RESOURCE_CLAIM'')))
     else
       bind_sum (find_sum (\<lambda>c. claims_conflict fs (hd granting) c (facts (hd granting) c)) external_claims)
         (\<lambda>conflicting.
       Inr (if conflicting \<noteq> None then Inl ''RESOURCE_CLAIM_CONFLICT''
            else Inr \<lparr>ar_resource = resource, ar_claim_ids = map rc_claim_id granting\<rparr>)))"

fun authorize_resources ::
  "filesystem \<Rightarrow> facts_source \<Rightarrow> claim_mode \<Rightarrow> resource_claim list \<Rightarrow> resource_claim list \<Rightarrow> string list \<Rightarrow>
   registry_error + (string + authorized_resource list)" where
  "authorize_resources fs facts required own external [] = Inr (Inr [])"
| "authorize_resources fs facts required own external (resource # resources) =
     bind_sum (authorize_resource fs facts required own external resource) (\<lambda>one.
     case one of
       Inl code \<Rightarrow> Inr (Inl code)
     | Inr authorized \<Rightarrow>
         bind_sum (authorize_resources fs facts required own external resources) (\<lambda>rest.
         Inr (case rest of Inl code \<Rightarrow> Inl code | Inr others \<Rightarrow> Inr (authorized # others))))"

definition authorize_coordination_operation ::
  "filesystem \<Rightarrow> facts_source \<Rightarrow> authorization_request \<Rightarrow> registry_error + operation_authorization" where
  "authorize_coordination_operation fs facts request =
     (let snapshot = aq_snapshot request; deny = denied_authorization request in
      bind_sum (assert_snapshot snapshot) (\<lambda>_.
      case operation_of_string (aq_operation request) of
        None \<Rightarrow> Inr (deny None ''INVALID_OPERATION'')
      | Some operation \<Rightarrow>
      (case find (\<lambda>s. sr_session_id s = aq_session_id request) (ts_sessions snapshot) of
        None \<Rightarrow> Inr (deny None ''SESSION_NOT_FOUND'')
      | Some owner \<Rightarrow>
        if sr_state owner \<noteq> ''active'' then Inr (deny None ''SESSION_NOT_ACTIVE'')
        else if sr_repository_id owner \<noteq> ts_repository_id snapshot then Inr (deny None ''SESSION_NOT_FOUND'')
        else
        let required = required_access_for_operation operation in
        (case aq_resources request of
           None \<Rightarrow> Inr (deny (Some required) ''INVALID_RESOURCE'')
         | Some raw \<Rightarrow>
           if raw = [] \<or> length raw > CHECKPOINT_MAX_PATHS then Inr (deny (Some required) ''INVALID_RESOURCE'')
           else
           (case map_sum_list (\<lambda>r. canonicalize_concrete_path fs r (sr_worktree_path owner)) raw of
              Inl _ \<Rightarrow> Inr (deny (Some required) ''INVALID_RESOURCE'')
            | Inr resources \<Rightarrow>
              bind_sum (authorize_resources fs facts required
                  (filter (\<lambda>c. rc_session_id c = sr_session_id owner) (ts_claims snapshot))
                  (filter (\<lambda>c. rc_session_id c \<noteq> sr_session_id owner) (ts_claims snapshot)) resources)
                (\<lambda>outcome.
              Inr (case outcome of
                  Inl code \<Rightarrow> deny (Some required) code
                | Inr authorized \<Rightarrow>
                    \<lparr>oa_allowed = True, oa_code = ''ALLOWED'', oa_operation = aq_operation request,
                     oa_required_access = Some required, oa_session_id = aq_session_id request,
                     oa_resources = authorized\<rparr>)))))))"

section \<open>Facts about the helpers\<close>

lemma clone_resource_claim_id [simp]: "clone_resource_claim c = c"
  by (cases c; cases "rc_sharing c") (auto simp: clone_resource_claim_def)

lemma map_clone [simp]: "map clone_resource_claim cs = cs"
  by (simp add: map_idI)

lemma map_option_clone [simp]: "map_option clone_resource_claim x = x"
  by (cases x) simp_all

lemma fold_sum_invariant:
  assumes "\<And>x s s'. x \<in> set xs \<Longrightarrow> I s \<Longrightarrow> f x s = Inr s' \<Longrightarrow> I s'"
    and "fold_sum f xs s = Inr s'" "I s"
  shows "I s'"
  using assms
proof (induction xs arbitrary: s)
  case (Cons x xs)
  then obtain t where t: "f x s = Inr t" "fold_sum f xs t = Inr s'"
    by (auto simp: sum_simps)
  show ?case by (rule Cons.IH [OF _ t(2)]) (use Cons.prems t in auto)
qed simp

text \<open>The invariant of the maps \<open>materializeNextClaims\<close> builds: keys are the claims' resources.\<close>

definition keyed :: "(resource_claim \<Rightarrow> bool) \<Rightarrow> claim_map \<Rightarrow> bool" where
  "keyed P m \<longleftrightarrow> distinct (map fst m) \<and> (\<forall>(k, c)\<in>set m. rc_resource c = k \<and> P c)"

lemma keyed_Nil [simp]: "keyed P []"
  by (simp add: keyed_def)

lemma keyed_update:
  assumes "keyed P m" "rc_resource c = k" "P c"
  shows "keyed P (AList.update k c m)"
proof -
  have "set (AList.update k c m) \<subseteq> insert (k, c) (set m)"
    by (induction m) auto
  then show ?thesis
    using assms distinct_update [of m k c] by (auto simp: keyed_def)
qed

lemma keyed_delete: "keyed P m \<Longrightarrow> keyed P (AList.delete k m)"
proof -
  assume k: "keyed P m"
  have "set (AList.delete k m) \<subseteq> set m"
    by (auto simp: AList.delete_eq)
  with k show ?thesis
    using distinct_delete [of m k] by (auto simp: keyed_def)
qed

lemma keyed_map_of: "keyed P m \<Longrightarrow> map_of m k = Some c \<Longrightarrow> rc_resource c = k \<and> P c"
  by (auto simp: keyed_def dest: map_of_SomeD)

lemma keyed_distinct: "keyed P m \<Longrightarrow> distinct (map rc_resource (map snd m))"
proof -
  assume k: "keyed P m"
  then have "\<forall>x\<in>set m. rc_resource (snd x) = fst x"
    by (auto simp: keyed_def)
  then have "map rc_resource (map snd m) = map fst m"
    by simp
  with k show ?thesis by (simp only: keyed_def)
qed

lemma keyed_values: "keyed P m \<Longrightarrow> c \<in> set (map snd m) \<Longrightarrow> P c"
  by (auto simp: keyed_def)

lemma keyed_member: "keyed P m \<Longrightarrow> map_of m k = Some c \<longleftrightarrow> c \<in> set (map snd m) \<and> rc_resource c = k"
proof -
  assume k: "keyed P m"
  then have "map_of m k = Some c \<longleftrightarrow> (k, c) \<in> set m"
    by (simp add: keyed_def)
  also have "\<dots> \<longleftrightarrow> c \<in> set (map snd m) \<and> rc_resource c = k"
    using k by (force simp: keyed_def)
  finally show ?thesis .
qed

lemma keyed_fold_update:
  "keyed P m \<Longrightarrow> \<forall>c\<in>set cs. P c \<Longrightarrow> keyed P (fold (\<lambda>c m. AList.update (rc_resource c) c m) cs m)"
  by (induction cs arbitrary: m) (auto intro: keyed_update)

lemma keyed_claim_map_of: "\<forall>c\<in>set cs. P c \<Longrightarrow> keyed P (claim_map_of cs)"
  by (simp add: claim_map_of_def keyed_fold_update)

lemma fold_update_map_of:
  "distinct (map rc_resource cs) \<Longrightarrow>
   map_of (fold (\<lambda>c m. AList.update (rc_resource c) c m) cs m) k =
     (case find (\<lambda>c. rc_resource c = k) cs of None \<Rightarrow> map_of m k | Some c \<Rightarrow> Some c)"
proof (induction cs arbitrary: m)
  case (Cons c cs)
  have "find (\<lambda>d. rc_resource d = rc_resource c) cs = None"
    using Cons.prems by (auto simp: find_None_iff) (metis image_eqI)
  with Cons show ?case by (auto simp: update_conv' split: option.splits)
qed simp

lemma find_distinct_resource:
  "distinct (map rc_resource cs) \<Longrightarrow>
   find (\<lambda>c. rc_resource c = k) cs = Some c \<longleftrightarrow> c \<in> set cs \<and> rc_resource c = k"
proof (induction cs)
  case (Cons d cs)
  then show ?case by (cases "rc_resource d = k") (auto, metis image_eqI)
qed simp

lemma claim_map_of_lookup:
  assumes "distinct (map rc_resource cs)"
  shows "map_of (claim_map_of cs) k = Some c \<longleftrightarrow> c \<in> set cs \<and> rc_resource c = k"
proof -
  have "map_of (claim_map_of cs) k = find (\<lambda>c. rc_resource c = k) cs"
    using fold_update_map_of [OF assms, of "[]" k] by (simp add: claim_map_of_def split: option.splits)
  moreover have "find (\<lambda>c. rc_resource c = k) cs = Some c \<longleftrightarrow> c \<in> set cs \<and> rc_resource c = k"
    using assms by (rule find_distinct_resource)
  ultimately show ?thesis by simp
qed

section \<open>What a successful plan has checked\<close>

definition owned_by :: "session_record \<Rightarrow> resource_claim \<Rightarrow> bool" where
  "owned_by owner c \<longleftrightarrow> rc_session_id c = sr_session_id owner"

lemma plan_Inr:
  assumes "plan_coordination_transaction fs sha now facts snapshot request = Inr p"
  obtains kind owner requested m current external where
    "assert_snapshot snapshot = Inr ()" "assert_request request = Inr kind"
    "select_owner snapshot request = Inr owner"
    "assert_concurrency (ts_claim_set_generation snapshot) kind request = Inr ()"
    "current = filter (owned_by owner) (ts_claims snapshot)"
    "external = filter (\<lambda>c. \<not> owned_by owner c) (ts_claims snapshot)"
    "normalize_request fs owner kind request = Inr requested"
    "materialize_next_claims sha current requested kind
       (case rq_timestamp request of None \<Rightarrow> now | Some t \<Rightarrow> t) owner = Inr m"
    "assert_complete_claim_set fs (pl_session_claims p) external snapshot facts = Inr ()"
    "assert_execution_drain fs current (pl_session_claims p)
       (case rq_managed_executions request of None \<Rightarrow> [] | Some es \<Rightarrow> es) = Inr ()"
    "pl_session_claims p = sort_resource_claims (map snd m)"
    "pl_claims p = sort_resource_claims (external @ pl_session_claims p)"
    "pl_changes p = build_changes current (pl_session_claims p)"
    "pl_previous_generation p = ts_claim_set_generation snapshot"
    "pl_generation p = (if list_ex (\<lambda>c. ch_kind c \<noteq> Unchanged) (pl_changes p)
       then ts_claim_set_generation snapshot + 1 else ts_claim_set_generation snapshot)"
    "pl_idempotent p \<longleftrightarrow> pl_generation p = ts_claim_set_generation snapshot"
    "pl_session_id p = sr_session_id owner"
  using assms
  unfolding plan_coordination_transaction_def Let_def bind_sum_eq_Inr
  by (auto simp: owned_by_def [abs_def])

lemma create_owned:
  "create_resource_claim sha claim (owner_context owner) t = Inr c \<Longrightarrow>
   rc_resource c = cc_resource claim \<and> owned_by owner c \<and> claim_wf sha c \<and>
   \<not> (claim_equivalent d c \<and> \<not> claim_equivalent_input d claim)"
  using create_resource_claim_wf [of sha claim "owner_context owner" t c]
  by (auto simp: create_resource_claim_Inr owner_context_def owned_by_def claim_equivalent_def
      claim_equivalent_input_def)

text \<open>Every next claim is owned, canonical, and stands under its own resource.\<close>

definition next_ok :: "session_record \<Rightarrow> resource_claim \<Rightarrow> bool" where
  "next_ok owner c \<longleftrightarrow> owned_by owner c \<and> canonical_resource (rc_resource c)"

lemma create_next_ok:
  "create_resource_claim sha claim (owner_context owner) t = Inr c \<Longrightarrow>
   rc_resource c = cc_resource claim \<and> next_ok owner c"
  using create_owned [of sha claim owner t c] by (metis next_ok_def claim_wf_def)

lemma replace_step_keyed:
  assumes "keyed (next_ok owner) existing" "keyed (next_ok owner) m"
    and "replace_step sha owner t existing claim m = Inr m'"
  shows "keyed (next_ok owner) m'"
  using assms(2,3) keyed_map_of [OF assms(1)]
  by (auto simp: replace_step_def sum_simps split: option.splits if_splits
      intro!: keyed_update dest: create_next_ok)

lemma acquire_step_keyed:
  assumes "keyed (next_ok owner) m" "acquire_step sha owner t claim m = Inr m'"
  shows "keyed (next_ok owner) m'"
  using assms
  by (auto simp: acquire_step_def sum_simps split: option.splits if_splits
      intro!: keyed_update dest: create_next_ok)

lemma delta_step_keyed:
  assumes "keyed (next_ok owner) m" "delta_step sha owner t delta m = Inr m'"
  shows "keyed (next_ok owner) m'"
  using assms
  by (auto simp: delta_step_def sum_simps keyed_delete split: option.splits if_splits normalized_delta.splits
      intro!: keyed_update dest: create_next_ok)

lemma fold_delete_keyed: "keyed P m \<Longrightarrow> keyed P (fold AList.delete ks m)"
  by (induction ks arbitrary: m) (auto intro: keyed_delete)

lemma materialize_keyed:
  assumes "\<forall>c\<in>set current. next_ok owner c"
    and "materialize_next_claims sha current requested kind t owner = Inr m"
  shows "keyed (next_ok owner) m"
proof -
  have start: "keyed (next_ok owner) (claim_map_of current)"
    using assms(1) by (rule keyed_claim_map_of)
  show ?thesis
  proof (cases requested)
    case (NormalizedClaims claims)
    show ?thesis
    proof (cases "kind = TReplace")
      case True
      with NormalizedClaims assms(2) have
        "fold_sum (replace_step sha owner t (claim_map_of current)) claims [] = Inr m"
        by (simp add: materialize_next_claims_def)
      then show ?thesis
        by (rule fold_sum_invariant [where I = "keyed (next_ok owner)", rotated])
          (use replace_step_keyed [OF start] in auto)
    next
      case False
      with NormalizedClaims assms(2) have
        "fold_sum (acquire_step sha owner t) claims (claim_map_of current) = Inr m"
        by (simp add: materialize_next_claims_def)
      then show ?thesis
        by (rule fold_sum_invariant [where I = "keyed (next_ok owner)", rotated])
          (use acquire_step_keyed start in auto)
    qed
  next
    case (NormalizedReleases ks)
    then show ?thesis using assms(2) start by (auto simp: materialize_next_claims_def fold_delete_keyed)
  next
    case (NormalizedDeltas deltas)
    with assms(2) have "fold_sum (delta_step sha owner t) deltas (claim_map_of current) = Inr m"
      by (simp add: materialize_next_claims_def)
    then show ?thesis
      by (rule fold_sum_invariant [where I = "keyed (next_ok owner)", rotated])
        (use delta_step_keyed start in auto)
  qed
qed

section \<open>Consistent claim sets\<close>

definition selects_common :: "string \<Rightarrow> string \<Rightarrow> bool" where
  "selects_common l r \<longleftrightarrow> (\<exists>path. path_ok path \<and> glob_selects l path \<and> glob_selects r path)"

definition coordinated_pair :: "resource_claim \<Rightarrow> resource_claim \<Rightarrow> bool" where
  "coordinated_pair c d \<longleftrightarrow>
     rc_mode c = Write \<and> rc_mode d = Write \<and> rc_session_id c \<noteq> rc_session_id d \<and>
     rc_worktree_path c \<noteq> rc_worktree_path d \<and> rc_repository_id c = rc_repository_id d \<and>
     sharing_group (rc_sharing c) \<noteq> None \<and> sharing_group (rc_sharing c) = sharing_group (rc_sharing d)"

definition compatible_claims :: "resource_claim \<Rightarrow> resource_claim \<Rightarrow> bool" where
  "compatible_claims c d \<longleftrightarrow>
     \<not> selects_common (rc_resource c) (rc_resource d) \<or>
     RESOURCE_CLAIM_COMPATIBILITY_MATRIX (rc_mode c) (rc_mode d) = Compatible \<or> coordinated_pair c d"

text \<open>
  What the registry promises of its claims: canonical resources; claims of one session never
  select a common path; claims of two sessions that do are compatible in mode or are two
  coordinated writers.
\<close>

definition consistent_claims :: "resource_claim list \<Rightarrow> bool" where
  "consistent_claims cs \<longleftrightarrow>
     distinct cs \<and> (\<forall>c\<in>set cs. canonical_resource (rc_resource c)) \<and>
     (\<forall>c\<in>set cs. \<forall>d\<in>set cs. c \<noteq> d \<and> rc_session_id c = rc_session_id d \<longrightarrow>
        \<not> selects_common (rc_resource c) (rc_resource d)) \<and>
     (\<forall>c\<in>set cs. \<forall>d\<in>set cs. rc_session_id c \<noteq> rc_session_id d \<longrightarrow> compatible_claims c d)"

text \<open>Evidence offered for a pair of claims is about that pair.\<close>

definition facts_about :: "facts_source \<Rightarrow> bool" where
  "facts_about facts \<longleftrightarrow> (\<forall>l r f. facts l r = Some f \<longrightarrow> cf_left f = l \<and> cf_right f = r)"

lemma selects_common_sym: "selects_common l r = selects_common r l"
  by (auto simp: selects_common_def)

lemma compatible_claims_sym: "compatible_claims c d = compatible_claims d c"
  unfolding compatible_claims_def coordinated_pair_def
  by (metis selects_common_sym compatibility_sym)

lemma selects_common_refl: "canonical_resource r \<Longrightarrow> selects_common r r"
  using claim_overlap_decides [of r r] claim_overlap_refl canonical_pattern_ok
  by (auto simp: selects_common_def)

lemma consistent_distinct_resources:
  assumes "consistent_claims cs" "\<forall>c\<in>set cs. owned_by owner c"
  shows "distinct (map rc_resource cs)"
  unfolding distinct_map
proof
  show "distinct cs" using assms by (simp add: consistent_claims_def)
  show "inj_on rc_resource (set cs)"
  proof (rule inj_onI, rule ccontr)
    fix c d assume "c \<in> set cs" "d \<in> set cs" "rc_resource c = rc_resource d" "c \<noteq> d"
    moreover from this have "\<not> selects_common (rc_resource c) (rc_resource d)"
      using assms by (auto simp: consistent_claims_def owned_by_def)
    ultimately show False using selects_common_refl assms by (auto simp: consistent_claims_def)
  qed
qed

lemma consistent_filter: "consistent_claims cs \<Longrightarrow> consistent_claims (filter P cs)"
  by (auto simp: consistent_claims_def)

lemma overlap_common:
  assumes "fs_lawful fs" "fs_exact fs" "canonical_resource (rc_resource c)" "canonical_resource (rc_resource d)"
    and "claims_overlap fs c d = Inr b"
  shows "b \<longleftrightarrow> selects_common (rc_resource c) (rc_resource d)"
  using claims_overlap_exact [OF assms] by (simp add: selects_common_def)

lemma no_own_overlap:
  assumes fs: "fs_lawful fs" "fs_exact fs"
    and "assert_no_own_overlap fs priors cs = Inr ()"
    and "\<forall>c\<in>set priors \<union> set cs. canonical_resource (rc_resource c)"
    and "\<forall>c\<in>set priors. \<forall>d\<in>set priors. c \<noteq> d \<longrightarrow> \<not> selects_common (rc_resource c) (rc_resource d)"
  shows "\<forall>c\<in>set priors \<union> set cs. \<forall>d\<in>set priors \<union> set cs. c \<noteq> d \<longrightarrow>
           \<not> selects_common (rc_resource c) (rc_resource d)"
  using assms(3-)
proof (induction cs arbitrary: priors)
  case (Cons c cs)
  have new: "\<forall>d\<in>set priors. \<not> selects_common (rc_resource c) (rc_resource d)"
  proof
    fix d assume d: "d \<in> set priors"
    then obtain b where "claims_overlap fs c d = Inr b" "\<not> b"
      using Cons.prems(1) by (auto simp: sum_simps)
    with overlap_common [OF fs, of c d b] d Cons.prems(2) show "\<not> selects_common (rc_resource c) (rc_resource d)"
      by simp
  qed
  have "\<forall>a\<in>set (priors @ [c]) \<union> set cs. \<forall>b\<in>set (priors @ [c]) \<union> set cs. a \<noteq> b \<longrightarrow>
      \<not> selects_common (rc_resource a) (rc_resource b)"
  proof (rule Cons.IH)
    show "assert_no_own_overlap fs (priors @ [c]) cs = Inr ()"
      using Cons.prems(1) by (auto simp: sum_simps)
    show "\<forall>a\<in>set (priors @ [c]) \<union> set cs. canonical_resource (rc_resource a)"
      using Cons.prems(2) by auto
    show "\<forall>a\<in>set (priors @ [c]). \<forall>b\<in>set (priors @ [c]). a \<noteq> b \<longrightarrow>
        \<not> selects_common (rc_resource a) (rc_resource b)"
      using Cons.prems(3) new selects_common_sym by auto
  qed
  then show ?case by simp
qed simp

lemma pair_compatible:
  assumes fs: "fs_lawful fs" "fs_exact fs"
    and "facts_about facts" "canonical_resource (rc_resource c)" "canonical_resource (rc_resource d)"
    and "assert_pair_compatible fs facts c d = Inr ()"
  shows "compatible_claims c d"
proof -
  obtain b where b: "claims_overlap fs c d = Inr b" using assms(6)
    by (auto simp: assert_pair_compatible_def sum_simps)
  show ?thesis
  proof (cases b)
    case False
    with overlap_common [OF fs assms(4,5) b] show ?thesis by (simp add: compatible_claims_def)
  next
    case True
    then have "claims_conflict fs c d (facts c d) = Inr False"
      using assms(6) b by (auto simp: assert_pair_compatible_def sum_simps)
    then consider "RESOURCE_CLAIM_COMPATIBILITY_MATRIX (rc_mode c) (rc_mode d) \<noteq> Conflict"
      | f where "facts c d = Some f" "permits_coordinated_write f = Allowed"
      using True b by (auto simp: claims_conflict_def split: option.splits if_splits)
    then show ?thesis
    proof cases
      case 1
      then show ?thesis by (metis compatibility.exhaust compatible_claims_def)
    next
      case (2 f)
      then have "cf_left f = c" "cf_right f = d" using assms(3) by (auto simp: facts_about_def)
      with 2 have "coordinated_pair c d"
        unfolding permits_coordinated_write_iff coordinated_pair_def sharing_group_def falsy_def
        by (metis option.map_disc_iff option.distinct(1))
      then show ?thesis by (simp add: compatible_claims_def)
    qed
  qed
qed

lemma plan_consistent:
  assumes fs: "fs_lawful fs" "fs_exact fs"
    and "facts_about facts" "consistent_claims (ts_claims snapshot)"
    and "plan_coordination_transaction fs sha now facts snapshot request = Inr p"
  shows "consistent_claims (pl_claims p)"
  using assms(5)
proof (rule plan_Inr)
  fix kind owner requested m current external
  assume cur: "current = filter (owned_by owner) (ts_claims snapshot)"
    and ext: "external = filter (\<lambda>c. \<not> owned_by owner c) (ts_claims snapshot)"
    and mat: "materialize_next_claims sha current requested kind
      (case rq_timestamp request of None \<Rightarrow> now | Some t \<Rightarrow> t) owner = Inr m"
    and ok: "assert_complete_claim_set fs (pl_session_claims p) external snapshot facts = Inr ()"
    and own: "pl_session_claims p = sort_resource_claims (map snd m)"
    and all: "pl_claims p = sort_resource_claims (external @ pl_session_claims p)"
  let ?own = "pl_session_claims p"
  have "\<forall>c\<in>set current. next_ok owner c"
    using assms(4) cur by (simp add: consistent_claims_def next_ok_def)
  from materialize_keyed [OF this mat] have keyed: "keyed (next_ok owner) m" .
  have next_ok: "\<forall>c\<in>set ?own. next_ok owner c"
    using keyed_values [OF keyed] own by auto
  have "distinct (map snd m)"
    using keyed_distinct [OF keyed] distinct_map [of rc_resource "map snd m"] by blast
  then have dist: "distinct ?own" using own by (simp add: sort_resource_claims_def)
  have pairs: "\<forall>c\<in>set ?own. \<forall>d\<in>set ?own. c \<noteq> d \<longrightarrow> \<not> selects_common (rc_resource c) (rc_resource d)"
    using no_own_overlap [OF fs, of "[]" ?own] ok next_ok
    by (simp add: assert_complete_claim_set_def sum_simps next_ok_def)
  have ext_ok: "consistent_claims external" using assms(4) ext by (simp add: consistent_filter)
  have cross: "\<forall>c\<in>set ?own. \<forall>d\<in>set external. compatible_claims c d"
    using pair_compatible [OF fs assms(3)] ok next_ok ext_ok
    by (simp add: assert_complete_claim_set_def sum_simps next_ok_def consistent_claims_def)
  have "distinct (external @ ?own)"
    using dist ext_ok next_ok ext by (auto simp: consistent_claims_def next_ok_def)
  moreover have "\<forall>c\<in>set external \<union> set ?own. canonical_resource (rc_resource c)"
    using next_ok ext_ok by (auto simp: next_ok_def consistent_claims_def)
  moreover have "\<not> selects_common (rc_resource c) (rc_resource d)"
    if "c \<in> set external \<union> set ?own" "d \<in> set external \<union> set ?own" "c \<noteq> d"
      "rc_session_id c = rc_session_id d" for c d
    using that pairs ext_ok next_ok ext
    by (fastforce simp: consistent_claims_def next_ok_def owned_by_def)
  moreover have "compatible_claims c d"
    if cd: "c \<in> set external \<union> set ?own" "d \<in> set external \<union> set ?own" "rc_session_id c \<noteq> rc_session_id d" for c d
  proof -
    have own_iff: "e \<in> set ?own \<Longrightarrow> owned_by owner e" "e \<in> set external \<Longrightarrow> \<not> owned_by owner e" for e
      using next_ok ext by (auto simp: next_ok_def)
    consider "c \<in> set external" "d \<in> set external" | "c \<in> set external" "d \<in> set ?own"
      | "c \<in> set ?own" "d \<in> set external" | "c \<in> set ?own" "d \<in> set ?own"
      using cd(1,2) by blast
    then show ?thesis
    proof cases
      case 1
      then show ?thesis using ext_ok cd(3) by (simp add: consistent_claims_def)
    next
      case 2
      then have "compatible_claims d c" using cross by blast
      then show ?thesis using compatible_claims_sym by blast
    next
      case 3
      then show ?thesis using cross by blast
    next
      case 4
      then show ?thesis using own_iff cd(3) by (simp add: owned_by_def)
    qed
  qed
  ultimately show ?thesis
    using all by (simp add: consistent_claims_def sort_resource_claims_def)
qed


section \<open>The generation counts the changes of the claim set\<close>

lemma claim_equivalent_refl [simp]: "claim_equivalent c c"
  by (simp add: claim_equivalent_def)

text \<open>
  A next claim is a current one, or differs in authority from every current claim of its
  resource: no loop rebuilds a claim whose authority is unchanged. For the delta loop this
  rests on the rejection of duplicate resources.
\<close>

definition kept_or_new :: "resource_claim list \<Rightarrow> claim_map \<Rightarrow> bool" where
  "kept_or_new current m \<longleftrightarrow>
     (\<forall>(k, c)\<in>set m. c \<in> set current \<or> (\<forall>d\<in>set current. rc_resource d = k \<longrightarrow> \<not> claim_equivalent d c))"

lemma kept_or_new_update:
  assumes "kept_or_new current m"
    and "c \<in> set current \<or> (\<forall>d\<in>set current. rc_resource d = k \<longrightarrow> \<not> claim_equivalent d c)"
  shows "kept_or_new current (AList.update k c m)"
proof -
  have "set (AList.update k c m) \<subseteq> insert (k, c) (set m)"
    by (induction m) auto
  with assms show ?thesis by (auto simp: kept_or_new_def)
qed

lemma kept_or_new_delete: "kept_or_new current m \<Longrightarrow> kept_or_new current (AList.delete k m)"
  by (auto simp: kept_or_new_def AList.delete_eq)

lemma kept_or_new_fold_delete: "kept_or_new current m \<Longrightarrow> kept_or_new current (fold AList.delete ks m)"
  by (induction ks arbitrary: m) (auto intro: kept_or_new_delete)

lemma kept_or_new_start: "kept_or_new current (claim_map_of current)"
  using keyed_claim_map_of [of current "\<lambda>c. c \<in> set current"]
  by (fastforce simp: keyed_def kept_or_new_def)

lemma created_is_new:
  assumes "distinct (map rc_resource current)"
    and "create_resource_claim sha claim (owner_context owner) t = Inr c"
    and "\<And>d. d \<in> set current \<Longrightarrow> rc_resource d = cc_resource claim \<Longrightarrow> \<not> claim_equivalent_input d claim"
  shows "\<forall>d\<in>set current. rc_resource d = cc_resource claim \<longrightarrow> \<not> claim_equivalent d c"
  using create_owned [OF assms(2)] assms(3) by blast

lemma replace_step_kept:
  assumes dist: "distinct (map rc_resource current)" and "kept_or_new current m"
    and "replace_step sha owner t (claim_map_of current) claim m = Inr m'"
  shows "kept_or_new current m'"
proof (cases "map_of (claim_map_of current) (cc_resource claim)")
  case None
  then have "d \<in> set current \<Longrightarrow> rc_resource d \<noteq> cc_resource claim" for d
    using claim_map_of_lookup [OF dist, of "cc_resource claim" d] by auto
  with None assms show ?thesis
    by (auto simp: replace_step_def sum_simps intro!: kept_or_new_update)
next
  case (Some e)
  then have e: "e \<in> set current" "d \<in> set current \<Longrightarrow> rc_resource d = cc_resource claim \<Longrightarrow> d = e" for d
    using claim_map_of_lookup [OF dist, of "cc_resource claim"] by (auto, metis option.inject)
  show ?thesis
  proof (cases "claim_equivalent_input e claim")
    case True
    with Some e assms show ?thesis
      by (auto simp: replace_step_def sum_simps intro!: kept_or_new_update)
  next
    case False
    with Some assms(3) obtain c where c:
      "create_resource_claim sha claim (owner_context owner) t = Inr c" "m' = AList.update (cc_resource claim) c m"
      by (auto simp: replace_step_def sum_simps)
    from created_is_new [OF dist c(1)] e False
    have "\<forall>d\<in>set current. rc_resource d = cc_resource claim \<longrightarrow> \<not> claim_equivalent d c" by blast
    with c(2) assms(2) show ?thesis by (simp add: kept_or_new_update)
  qed
qed

text \<open>The acquire loop never removes a current claim from the map.\<close>

definition covers :: "resource_claim list \<Rightarrow> claim_map \<Rightarrow> bool" where
  "covers current m \<longleftrightarrow> (\<forall>d\<in>set current. map_of m (rc_resource d) = Some d)"

lemma covers_start: "distinct (map rc_resource current) \<Longrightarrow> covers current (claim_map_of current)"
  by (simp add: covers_def claim_map_of_lookup)

lemma acquire_step_kept:
  assumes dist: "distinct (map rc_resource current)"
    and "kept_or_new current m \<and> covers current m"
    and "acquire_step sha owner t claim m = Inr m'"
  shows "kept_or_new current m' \<and> covers current m'"
proof (cases "map_of m (cc_resource claim)")
  case (Some e)
  with assms show ?thesis by (auto simp: acquire_step_def split: if_splits)
next
  case None
  with assms(2) have no: "d \<in> set current \<Longrightarrow> rc_resource d \<noteq> cc_resource claim" for d
    by (auto simp: covers_def)
  from None assms(3) obtain c where "m' = AList.update (cc_resource claim) c m"
    by (auto simp: acquire_step_def sum_simps)
  with no assms(2) show ?thesis
    by (auto simp: covers_def update_conv' intro!: kept_or_new_update)
qed

definition delta_resource :: "normalized_delta \<Rightarrow> string" where
  "delta_resource d = (case d of Upsert c \<Rightarrow> cc_resource c | ReleaseResource r \<Rightarrow> r)"

lemma fold_delta_kept:
  assumes dist: "distinct (map rc_resource current)"
    and "fold_sum (delta_step sha owner t) deltas m = Inr m'"
    and "kept_or_new current m" "distinct (map delta_resource deltas)"
    and "\<forall>d\<in>set deltas. map_of m (delta_resource d) = map_of (claim_map_of current) (delta_resource d)"
  shows "kept_or_new current m'"
  using assms(2-)
proof (induction deltas arbitrary: m)
  case (Cons x deltas)
  then obtain n where n: "delta_step sha owner t x m = Inr n" "fold_sum (delta_step sha owner t) deltas n = Inr m'"
    by (auto simp: sum_simps)
  have here: "map_of m (delta_resource x) = map_of (claim_map_of current) (delta_resource x)"
    using Cons.prems by simp
  have "kept_or_new current n \<and> (\<forall>k. k \<noteq> delta_resource x \<longrightarrow> map_of n k = map_of m k)"
  proof (cases x)
    case (ReleaseResource r)
    with n(1) Cons.prems(2) show ?thesis
      by (auto simp: delta_step_def delta_resource_def kept_or_new_delete delete_conv')
  next
    case (Upsert claim)
    show ?thesis
    proof (cases "\<exists>e. map_of m (cc_resource claim) = Some e \<and> claim_equivalent_input e claim")
      case True
      with n(1) Upsert Cons.prems(2) show ?thesis by (auto simp: delta_step_def)
    next
      case False
      with n(1) Upsert obtain c where c: "create_resource_claim sha claim (owner_context owner) t = Inr c"
        "n = AList.update (cc_resource claim) c m"
        by (auto simp: delta_step_def sum_simps split: option.splits if_splits)
      have "\<not> claim_equivalent_input d claim" if "d \<in> set current" "rc_resource d = cc_resource claim" for d
        using False here that claim_map_of_lookup [OF dist, of "cc_resource claim" d] Upsert
        by (auto simp: delta_resource_def)
      from created_is_new [OF dist c(1) this] c(2) Cons.prems(2) Upsert show ?thesis
        by (auto simp: delta_resource_def update_conv' intro!: kept_or_new_update)
    qed
  qed
  moreover have "delta_resource d \<noteq> delta_resource x" if "d \<in> set deltas" for d
    using that Cons.prems(3) by (auto simp: image_iff)
  ultimately show ?case
    using Cons.IH [OF n(2)] Cons.prems(3,4) by simp
qed simp

lemma normalize_deltas_distinct:
  assumes "normalize_deltas fs owner sharing seen deltas = Inr ds"
  shows "distinct (map delta_resource ds) \<and> set (map delta_resource ds) \<inter> seen = {}"
  using assms
proof (induction fs owner sharing seen deltas arbitrary: ds rule: normalize_deltas.induct)
  case (2 fs owner sharing seen delta deltas)
  then obtain r n rest where *:
    "canonicalize_claim_resource fs (cd_resource delta) (sr_worktree_path owner) = Inr r" "r \<notin> seen"
    "(if cd_kind delta = ''release'' then Inr (ReleaseResource r)
       else bind_sum (canonicalize_claim_input fs (InputRecord (delta_input sharing delta))
              (owner_context owner)) (\<lambda>input. Inr (Upsert input))) = Inr n"
    "normalize_deltas fs owner sharing (insert r seen) deltas = Inr rest" "ds = n # rest"
    by (auto simp: bind_sum_eq_Inr split: if_splits)
  have "delta_resource n = r"
    using *(1,3) canonicalize_claim_input_Inr [of fs "InputRecord (delta_input sharing delta)" "owner_context owner"]
    by (auto simp: bind_sum_eq_Inr delta_resource_def delta_input_def owner_context_def split: if_splits)
  with 2 * show ?case by (auto split: if_splits)
qed simp

lemma normalize_claims_shape: "normalize_claims fs owner kind request \<noteq> Inr (NormalizedDeltas ds)"
  by (simp add: normalize_claims_def bind_sum_def Let_def split: sum.splits)

lemma normalize_release_shape: "normalize_release fs owner request \<noteq> Inr (NormalizedDeltas ds)"
  by (simp add: normalize_release_def bind_sum_def split: sum.splits option.splits)

lemma normalize_delta_shape:
  "normalize_delta_request fs owner request = Inr (NormalizedDeltas ds) \<Longrightarrow>
   \<exists>xs. normalize_deltas fs owner (rq_sharing request) {} xs = Inr ds"
  unfolding normalize_delta_request_def Let_def
  by (simp add: bind_sum_eq_Inr split: if_splits) blast

lemma normalize_request_deltas:
  assumes "normalize_request fs owner kind request = Inr (NormalizedDeltas ds)"
  shows "\<exists>xs. normalize_deltas fs owner (rq_sharing request) {} xs = Inr ds"
  using assms normalize_claims_shape normalize_release_shape normalize_delta_shape
  by (cases kind) (simp_all add: normalize_request_def)

lemma materialize_kept:
  assumes dist: "distinct (map rc_resource current)"
    and "normalize_request fs owner kind request = Inr requested"
    and "materialize_next_claims sha current requested kind t owner = Inr m"
  shows "kept_or_new current m"
proof (cases requested)
  case (NormalizedClaims claims)
  show ?thesis
  proof (cases "kind = TReplace")
    case True
    with NormalizedClaims assms(3) have
      "fold_sum (replace_step sha owner t (claim_map_of current)) claims [] = Inr m"
      by (simp add: materialize_next_claims_def)
    then show ?thesis
      by (rule fold_sum_invariant [where I = "kept_or_new current", rotated])
        (use replace_step_kept [OF dist] in \<open>auto simp: kept_or_new_def\<close>)
  next
    case False
    with NormalizedClaims assms(3) have
      "fold_sum (acquire_step sha owner t) claims (claim_map_of current) = Inr m"
      by (simp add: materialize_next_claims_def)
    then have "kept_or_new current m \<and> covers current m"
      by (rule fold_sum_invariant [where I = "\<lambda>m. kept_or_new current m \<and> covers current m", rotated])
        (use acquire_step_kept [OF dist] kept_or_new_start covers_start [OF dist] in blast)+
    then show ?thesis by simp
  qed
next
  case (NormalizedReleases ks)
  then show ?thesis
    using assms(3) kept_or_new_start by (auto simp: materialize_next_claims_def kept_or_new_fold_delete)
next
  case (NormalizedDeltas deltas)
  with assms(2) have "\<exists>ds. normalize_deltas fs owner (rq_sharing request) {} ds = Inr deltas"
    using normalize_request_deltas by blast
  then have "distinct (map delta_resource deltas)"
    using normalize_deltas_distinct by blast
  with NormalizedDeltas assms(3) show ?thesis
    using fold_delta_kept [OF dist _ kept_or_new_start] by (simp add: materialize_next_claims_def)
qed

lemma build_changes_unchanged:
  assumes "distinct (map rc_resource before)" "distinct (map rc_resource after)"
    and kept: "\<forall>c\<in>set after. c \<in> set before \<or> (\<forall>d\<in>set before. rc_resource d = rc_resource c \<longrightarrow> \<not> claim_equivalent d c)"
  shows "(\<forall>ch\<in>set (build_changes before after). ch_kind ch = Unchanged) \<longleftrightarrow> set after = set before"
proof -
  have kind: "ch_kind (build_change before after k) = Unchanged \<longleftrightarrow>
      (\<exists>d c. d \<in> set before \<and> rc_resource d = k \<and> c \<in> set after \<and> rc_resource c = k \<and> claim_equivalent d c)" for k
  proof (cases "find (\<lambda>c. rc_resource c = k) before"; cases "map_of (claim_map_of after) k")
    fix d c assume f: "find (\<lambda>c. rc_resource c = k) before = Some d" "map_of (claim_map_of after) k = Some c"
    have "d' = d" if "d' \<in> set before" "rc_resource d' = k" for d'
      using that find_distinct_resource [OF assms(1), of k d'] f by simp
    moreover have "c' = c" if "c' \<in> set after" "rc_resource c' = k" for c'
      using that claim_map_of_lookup [OF assms(2), of k c'] f by simp
    moreover have "d \<in> set before \<and> rc_resource d = k \<and> c \<in> set after \<and> rc_resource c = k"
      using f find_distinct_resource [OF assms(1)] claim_map_of_lookup [OF assms(2)] by blast
    ultimately show ?thesis using f by (auto simp: build_change_def Let_def)
  next
    fix c assume f: "find (\<lambda>c. rc_resource c = k) before = None" "map_of (claim_map_of after) k = Some c"
    then have "\<forall>d\<in>set before. rc_resource d \<noteq> k" by (simp add: find_None_iff)
    with f show ?thesis by (auto simp: build_change_def Let_def)
  next
    fix d assume f: "find (\<lambda>c. rc_resource c = k) before = Some d" "map_of (claim_map_of after) k = None"
    have "\<forall>c\<in>set after. rc_resource c \<noteq> k"
      using f(2) claim_map_of_lookup [OF assms(2), of k] by auto
    with f show ?thesis by (auto simp: build_change_def Let_def)
  next
    assume f: "find (\<lambda>c. rc_resource c = k) before = None" "map_of (claim_map_of after) k = None"
    then have "\<forall>d\<in>set before. rc_resource d \<noteq> k" by (simp add: find_None_iff)
    with f show ?thesis by (auto simp: build_change_def Let_def)
  qed
  show ?thesis
  proof
    assume all: "\<forall>ch\<in>set (build_changes before after). ch_kind ch = Unchanged"
    then have at: "\<exists>d c. d \<in> set before \<and> rc_resource d = k \<and> c \<in> set after \<and> rc_resource c = k \<and> claim_equivalent d c"
      if "k \<in> rc_resource ` set before \<union> rc_resource ` set after" for k
      using that kind by (auto simp: build_changes_def)
    have inj: "inj_on rc_resource (set before)" "inj_on rc_resource (set after)"
      using assms(1,2) by (simp_all add: distinct_map)
    have "c \<in> set before" if c: "c \<in> set after" for c
    proof -
      obtain d c' where *: "d \<in> set before" "rc_resource d = rc_resource c" "c' \<in> set after"
        "rc_resource c' = rc_resource c" "claim_equivalent d c'"
        using at [of "rc_resource c"] c by blast
      then have "c' = c" using inj(2) c by (simp add: inj_on_def)
      with * kept c show ?thesis by blast
    qed
    note sub = this
    have "d \<in> set after" if d: "d \<in> set before" for d
    proof -
      obtain c where c: "c \<in> set after" "rc_resource c = rc_resource d"
        using at [of "rc_resource d"] d by blast
      then have "c = d" using inj(1) d sub [OF c(1)] by (simp add: inj_on_def)
      with c show ?thesis by simp
    qed
    with sub show "set after = set before" by blast
  next
    assume same: "set after = set before"
    show "\<forall>ch\<in>set (build_changes before after). ch_kind ch = Unchanged"
    proof
      fix ch assume "ch \<in> set (build_changes before after)"
      then obtain d where d: "d \<in> set before" "ch = build_change before after (rc_resource d)"
        using same by (auto simp: build_changes_def)
      then have "ch_kind (build_change before after (rc_resource d)) = Unchanged"
        unfolding kind using same by (intro exI [of _ d]) simp
      then show "ch_kind ch = Unchanged" using d(2) by simp
    qed
  qed
qed

lemma plan_session_sets:
  assumes "consistent_claims (ts_claims snapshot)"
    and "plan_coordination_transaction fs sha now facts snapshot request = Inr p"
  shows "(pl_idempotent p \<longleftrightarrow> set (pl_claims p) = set (ts_claims snapshot)) \<and>
         pl_generation p = ts_claim_set_generation snapshot + (if pl_idempotent p then 0 else 1)"
  using assms(2)
proof (rule plan_Inr)
  fix kind owner requested m current external
  assume cur: "current = filter (owned_by owner) (ts_claims snapshot)"
    and ext: "external = filter (\<lambda>c. \<not> owned_by owner c) (ts_claims snapshot)"
    and norm: "normalize_request fs owner kind request = Inr requested"
    and mat: "materialize_next_claims sha current requested kind
      (case rq_timestamp request of None \<Rightarrow> now | Some t \<Rightarrow> t) owner = Inr m"
    and own: "pl_session_claims p = sort_resource_claims (map snd m)"
    and all: "pl_claims p = sort_resource_claims (external @ pl_session_claims p)"
    and ch: "pl_changes p = build_changes current (pl_session_claims p)"
    and gen: "pl_generation p = (if list_ex (\<lambda>c. ch_kind c \<noteq> Unchanged) (pl_changes p)
       then ts_claim_set_generation snapshot + 1 else ts_claim_set_generation snapshot)"
    and idem: "pl_idempotent p \<longleftrightarrow> pl_generation p = ts_claim_set_generation snapshot"
  let ?own = "pl_session_claims p"
  have dist: "distinct (map rc_resource current)"
    unfolding cur
    by (rule consistent_distinct_resources [OF consistent_filter [OF assms(1)], of _ owner]) simp
  have "\<forall>c\<in>set current. next_ok owner c"
    using assms(1) cur by (simp add: consistent_claims_def next_ok_def)
  from materialize_keyed [OF this mat] have keyed: "keyed (next_ok owner) m" .
  have "distinct (map rc_resource ?own)"
  proof -
    have "mset (map rc_resource ?own) = mset (map rc_resource (map snd m))"
      using own by (simp only: mset_map sort_resource_claims_mset)
    with keyed_distinct [OF keyed] show ?thesis by (metis mset_eq_imp_distinct_iff)
  qed
  moreover have "\<forall>c\<in>set ?own. c \<in> set current \<or> (\<forall>d\<in>set current. rc_resource d = rc_resource c \<longrightarrow> \<not> claim_equivalent d c)"
  proof
    fix c assume "c \<in> set ?own"
    then obtain k where k: "(k, c) \<in> set m" using own by auto
    then have "rc_resource c = k" using keyed by (auto simp: keyed_def)
    with k materialize_kept [OF dist norm mat]
    show "c \<in> set current \<or> (\<forall>d\<in>set current. rc_resource d = rc_resource c \<longrightarrow> \<not> claim_equivalent d c)"
      by (auto simp: kept_or_new_def)
  qed
  ultimately have "(\<forall>c\<in>set (pl_changes p). ch_kind c = Unchanged) \<longleftrightarrow> set ?own = set current"
    using build_changes_unchanged [OF dist] ch by simp
  moreover have "set (pl_claims p) = set (ts_claims snapshot) \<longleftrightarrow> set ?own = set current"
  proof -
    have "\<forall>c\<in>set ?own. owned_by owner c" using keyed_values [OF keyed] own by (auto simp: next_ok_def)
    then show ?thesis using all cur ext by auto
  qed
  ultimately show ?thesis using gen idem by (auto simp: list_ex_iff)
qed


section \<open>Generations, other sessions, running executions\<close>

lemma plan_generation_expected:
  assumes "plan_coordination_transaction fs sha now facts snapshot request = Inr p"
  shows "(rq_expected_generation request = Some g \<longrightarrow> g = ts_claim_set_generation snapshot) \<and>
         (rq_kind request \<noteq> ''acquire'' \<and> \<not> rq_force request \<longrightarrow> rq_expected_generation request \<noteq> None)"
  using assms
proof (rule plan_Inr)
  fix kind owner
  assume "assert_request request = Inr kind"
    and c: "assert_concurrency (ts_claim_set_generation snapshot) kind request = Inr ()"
  then have "transaction_kind_of (rq_kind request) = Some kind"
    by (auto simp: assert_request_def split: if_splits option.splits)
  then have "rq_kind request \<noteq> ''acquire'' \<Longrightarrow> kind \<noteq> TAcquire"
    by (auto simp: transaction_kind_of_def split: if_splits)
  with c show ?thesis
    by (auto simp: assert_concurrency_def Let_def split: option.splits if_splits)
qed

lemma plan_external_untouched:
  assumes "plan_coordination_transaction fs sha now facts snapshot request = Inr p"
    and "consistent_claims (ts_claims snapshot)"
  shows "mset (filter (\<lambda>c. rc_session_id c \<noteq> rq_session_id request) (pl_claims p)) =
         mset (filter (\<lambda>c. rc_session_id c \<noteq> rq_session_id request) (ts_claims snapshot)) \<and>
         set (filter (\<lambda>c. rc_session_id c = rq_session_id request) (pl_claims p)) = set (pl_session_claims p)"
  using assms(1)
proof (rule plan_Inr)
  fix kind owner requested m current external
  assume sel: "select_owner snapshot request = Inr owner"
    and cur: "current = filter (owned_by owner) (ts_claims snapshot)"
    and ext: "external = filter (\<lambda>c. \<not> owned_by owner c) (ts_claims snapshot)"
    and mat: "materialize_next_claims sha current requested kind
      (case rq_timestamp request of None \<Rightarrow> now | Some t \<Rightarrow> t) owner = Inr m"
    and own: "pl_session_claims p = sort_resource_claims (map snd m)"
    and all: "pl_claims p = sort_resource_claims (external @ pl_session_claims p)"
  let ?P = "\<lambda>c. rc_session_id c \<noteq> rq_session_id request"
  have id: "sr_session_id owner = rq_session_id request"
    using sel by (auto simp: select_owner_def find_Some_iff split: option.splits if_splits)
  have "\<forall>c\<in>set current. next_ok owner c"
    using assms(2) cur by (simp add: consistent_claims_def next_ok_def)
  from keyed_values [OF materialize_keyed [OF this mat]]
  have mine: "\<forall>c\<in>set (pl_session_claims p). rc_session_id c = rq_session_id request"
    using own id by (auto simp: next_ok_def owned_by_def)
  have "mset (filter ?P (pl_claims p)) = filter_mset ?P (mset external + mset (pl_session_claims p))"
    using all by simp
  also have "\<dots> = mset external"
    using mine ext id
    by (simp add: owned_by_def flip: mset_filter)
  finally have "mset (filter ?P (pl_claims p)) = mset (filter ?P (ts_claims snapshot))"
    using ext id by (simp add: owned_by_def)
  moreover have "set (filter (\<lambda>c. rc_session_id c = rq_session_id request) (pl_claims p)) = set (pl_session_claims p)"
    using all mine ext id by (auto simp: owned_by_def)
  ultimately show ?thesis by blast
qed

lemma plan_drained:
  assumes "plan_coordination_transaction fs sha now facts snapshot request = Inr p"
    and "rq_managed_executions request = Some executions" "e \<in> set executions"
    and "c \<in> set (ts_claims snapshot)" "rc_session_id c = rq_session_id request"
    and "me_session_id e = rq_session_id request" "me_managed e" "me_state e \<noteq> ExStopped"
    and "is_authority_shrinking c (map_of (claim_map_of (pl_session_claims p)) (rc_resource c))"
  shows "execution_overlaps_claim fs e c = Inr False"
  using assms(1)
proof (rule plan_Inr)
  fix owner current
  assume sel: "select_owner snapshot request = Inr owner"
    and cur: "current = filter (owned_by owner) (ts_claims snapshot)"
    and drain: "assert_execution_drain fs current (pl_session_claims p)
       (case rq_managed_executions request of None \<Rightarrow> [] | Some es \<Rightarrow> es) = Inr ()"
  have "sr_session_id owner = rq_session_id request"
    using sel by (auto simp: select_owner_def find_Some_iff split: option.splits if_splits)
  with assms cur have "c \<in> set current" by (simp add: owned_by_def)
  with drain assms have "find_sum (blocks_shrinking fs c) executions = Inr None"
    by (auto simp: assert_execution_drain_def for_each_sum_Inr bind_sum_eq_Inr Let_def)
  with assms have "blocks_shrinking fs c e = Inr False" by (simp add: find_sum_None)
  with assms show ?thesis by (simp add: blocks_shrinking_def)
qed

section \<open>The registry over time\<close>

text \<open>
  The claims of a registry evolve by applied transactions, each under its own clock, file system
  and evidence; the list of sessions may change in any way in between.
\<close>

inductive reachable_registry :: "transaction_snapshot \<Rightarrow> bool" where
  registry_empty: "ts_claims s = [] \<Longrightarrow> reachable_registry s"
| registry_sessions: "reachable_registry s \<Longrightarrow> reachable_registry (s\<lparr>ts_sessions := sessions\<rparr>)"
| registry_transaction: "reachable_registry s \<Longrightarrow> fs_lawful fs \<Longrightarrow> fs_exact fs \<Longrightarrow> facts_about facts \<Longrightarrow>
    apply_coordination_transaction fs sha now facts s request = Inr (plan, written) \<Longrightarrow>
    reachable_registry (commit_to s written)"

lemma apply_Inr:
  "apply_coordination_transaction fs sha now facts s request = Inr (plan, written) \<longleftrightarrow>
     plan_coordination_transaction fs sha now facts s request = Inr plan \<and>
     written = (if pl_idempotent plan then None else Some plan)"
  by (auto simp: apply_coordination_transaction_def bind_sum_eq_Inr)

lemma reachable_consistent: "reachable_registry s \<Longrightarrow> consistent_claims (ts_claims s)"
proof (induction rule: reachable_registry.induct)
  case (registry_transaction s fs facts sha now request plan written)
  then show ?case
    using plan_consistent [OF registry_transaction.hyps(2,3,4) registry_transaction.IH]
    by (auto simp: apply_Inr commit_to_def)
qed (simp_all add: consistent_claims_def)

section \<open>Authorization\<close>

lemma seg_match_literal: "\<not> has_wildcard p \<Longrightarrow> seg_match p s \<longleftrightarrow> s = p"
  by (induction p s rule: seg_match.induct) (auto simp: has_wildcard_def)

lemma path_match_literal: "\<forall>p\<in>set ps. \<not> has_wildcard p \<Longrightarrow> path_match ps w \<longleftrightarrow> w = ps"
proof (induction ps w rule: path_match.induct)
  case (3 p ps c w)
  then have "p \<noteq> ''**''" by (auto simp: has_wildcard_def)
  with 3 show ?case by (auto simp: seg_match_literal)
qed (auto simp: has_wildcard_def)

definition literal_path :: "string \<Rightarrow> bool" where
  "literal_path r \<longleftrightarrow> (\<forall>s\<in>set (split_on slash r). \<not> has_wildcard s)"

lemma literal_selects: "literal_path r \<Longrightarrow> glob_selects r path \<longleftrightarrow> path = r"
  by (auto simp: literal_path_def glob_selects_def path_match_literal split_on_inj)

lemma canonicalize_concrete_path_exact:
  assumes "fs_lawful fs" "fs_exact fs" "canonicalize_concrete_path fs v worktree = Inr r"
  shows "v = JsString r \<and> canonical_resource r"
  using assms(1,3)
proof (rule canonicalize_concrete_path_Inr)
  fix resource root names
  assume *: "v = JsString resource" "canonical_resource resource"
    "walked fs root (split_on slash resource) names"
    "split_on slash r = names @ drop (length names) (split_on slash resource)"
  have "names = take (length names) (split_on slash resource)"
    using walked_exact [OF *(3) assms(2)] .
  with *(4) have "split_on slash r = split_on slash resource" by (metis append_take_drop_id)
  with *(1,2) show ?thesis using split_on_inj by metis
qed

lemma claim_matches_exact:
  assumes "fs_lawful fs" "fs_exact fs" "canonical_resource (rc_resource c)" "canonical_resource r"
    and "claim_matches fs r c = Inr b"
  shows "b \<longleftrightarrow> selects_common (rc_resource c) r"
proof -
  obtain x where "canonical_claim_resource_for_comparison fs (rc_resource c) (Some (rc_worktree_path c)) = Inr x"
    "b = claim_glob_patterns_overlap x r"
    using assms(5) by (auto simp: claim_matches_def resource_matches_claim_def bind_sum_eq_Inr)
  with comparison_exact [OF assms(1,2)] have "b = claim_glob_patterns_overlap (rc_resource c) r" by metis
  then show ?thesis
    using claim_overlap_decides canonical_pattern_ok assms(3,4) by (simp add: selects_common_def)
qed

lemma authorize_resource_granted:
  assumes "authorize_resource fs facts required own external r = Inr (Inr a)"
  shows "ar_resource a = r \<and> (\<exists>c\<in>set own. claim_matches fs r c = Inr True \<and> required \<le> rc_mode c \<and>
           (\<forall>d\<in>set external. claims_conflict fs c d (facts c d) = Inr False))"
proof -
  obtain matching where m: "filter_sum (claim_matches fs r) own = Inr matching"
    using assms by (auto simp: authorize_resource_def bind_sum_eq_Inr)
  let ?g = "filter (\<lambda>c. claim_mode_grants_access (rc_mode c) required) matching"
  have g: "?g \<noteq> []" using assms m by (auto simp: authorize_resource_def bind_sum_eq_Inr Let_def split: if_splits)
  have a: "a = \<lparr>ar_resource = r, ar_claim_ids = map rc_claim_id ?g\<rparr>"
    "find_sum (\<lambda>c. claims_conflict fs (hd ?g) c (facts (hd ?g) c)) external = Inr None"
    using assms m g by (auto simp: authorize_resource_def bind_sum_eq_Inr Let_def split: if_splits)
  have "hd ?g \<in> set ?g" using g by (rule hd_in_set)
  then have "hd ?g \<in> set own" "claim_matches fs r (hd ?g) = Inr True" "required \<le> rc_mode (hd ?g)"
    using filter_sum_Inr [OF m] by (auto simp: grants_iff_le)
  with a show ?thesis by (auto simp: find_sum_None)
qed

lemma authorize_resources_Cons:
  assumes "authorize_resources fs facts required own external (r # rs) = Inr (Inr as)"
  shows "\<exists>b bs. authorize_resource fs facts required own external r = Inr (Inr b) \<and>
    authorize_resources fs facts required own external rs = Inr (Inr bs) \<and> as = b # bs"
proof (cases "authorize_resource fs facts required own external r")
  case one: (Inr x)
  show ?thesis
  proof (cases x)
    case x: (Inr b)
    show ?thesis
    proof (cases "authorize_resources fs facts required own external rs")
      case (Inr y)
      with one x assms show ?thesis by (cases y) auto
    qed (use one x assms in simp)
  qed (use one assms in simp)
qed (use assms in simp)

lemma authorize_resources_granted:
  "authorize_resources fs facts required own external rs = Inr (Inr as) \<Longrightarrow> a \<in> set as \<Longrightarrow>
   \<exists>r\<in>set rs. authorize_resource fs facts required own external r = Inr (Inr a)"
proof (induction fs facts required own external rs arbitrary: as rule: authorize_resources.induct)
  case (2 fs facts required own external r rs)
  then obtain b bs where "authorize_resource fs facts required own external r = Inr (Inr b)"
    "authorize_resources fs facts required own external rs = Inr (Inr bs)" "as = b # bs"
    using authorize_resources_Cons by blast
  with 2 show ?case by fastforce
qed simp

lemma map_sum_list_source:
  "map_sum_list f xs = Inr ys \<Longrightarrow> y \<in> set ys \<Longrightarrow> \<exists>x\<in>set xs. f x = Inr y"
  by (induction xs arbitrary: ys) (auto split: sum.splits)

lemma authorize_operation_granted:
  assumes "authorize_coordination_operation fs facts request = Inr d" "oa_allowed d" "a \<in> set (oa_resources d)"
  obtains operation owner where "operation_of_string (aq_operation request) = Some operation"
    "sr_session_id owner = aq_session_id request" "owner \<in> set (ts_sessions (aq_snapshot request))"
    "sr_state owner = ''active''" "oa_required_access d = Some (required_access_for_operation operation)"
    "\<exists>v. canonicalize_concrete_path fs v (sr_worktree_path owner) = Inr (ar_resource a)"
    "\<exists>c\<in>set (ts_claims (aq_snapshot request)). rc_session_id c = aq_session_id request \<and>
       claim_matches fs (ar_resource a) c = Inr True \<and> required_access_for_operation operation \<le> rc_mode c \<and>
       (\<forall>e\<in>set (ts_claims (aq_snapshot request)). rc_session_id e \<noteq> aq_session_id request \<longrightarrow>
          claims_conflict fs c e (facts c e) = Inr False)"
proof -
  let ?s = "aq_snapshot request"
  obtain operation where op: "operation_of_string (aq_operation request) = Some operation"
    using assms(1,2) by (auto simp: authorize_coordination_operation_def denied_authorization_def bind_sum_eq_Inr
        Let_def split: option.splits)
  obtain owner where owner: "find (\<lambda>s. sr_session_id s = aq_session_id request) (ts_sessions ?s) = Some owner"
    "sr_state owner = ''active''" "sr_repository_id owner = ts_repository_id ?s"
    using assms(1,2) op by (auto simp: authorize_coordination_operation_def denied_authorization_def bind_sum_eq_Inr
        Let_def split: option.splits if_splits)
  let ?req = "required_access_for_operation operation"
  obtain raw where raw: "aq_resources request = Some raw" "\<not> (raw = [] \<or> length raw > CHECKPOINT_MAX_PATHS)"
    using assms(1,2) op owner by (auto simp: authorize_coordination_operation_def denied_authorization_def
        bind_sum_eq_Inr Let_def split: option.splits if_splits)
  obtain rs where rs: "map_sum_list (\<lambda>r. canonicalize_concrete_path fs r (sr_worktree_path owner)) raw = Inr rs"
    using assms(1,2) op owner raw by (auto simp: authorize_coordination_operation_def denied_authorization_def
        bind_sum_eq_Inr Let_def split: sum.splits)
  let ?own = "filter (\<lambda>c. rc_session_id c = sr_session_id owner) (ts_claims ?s)"
  let ?ext = "filter (\<lambda>c. rc_session_id c \<noteq> sr_session_id owner) (ts_claims ?s)"
  obtain as where as: "authorize_resources fs facts ?req ?own ?ext rs = Inr (Inr as)"
    "oa_resources d = as" "oa_required_access d = Some ?req"
  proof (cases "authorize_resources fs facts ?req ?own ?ext rs")
    case (Inl e)
    with assms(1) op owner raw rs show ?thesis
      by (simp add: authorize_coordination_operation_def bind_sum_def Let_def split: sum.splits)
  next
    case (Inr out)
    then have d: "d = (case out of Inl code \<Rightarrow> denied_authorization request (Some ?req) code
      | Inr authorized \<Rightarrow> \<lparr>oa_allowed = True, oa_code = ''ALLOWED'', oa_operation = aq_operation request,
          oa_required_access = Some ?req, oa_session_id = aq_session_id request, oa_resources = authorized\<rparr>)"
      using assms(1) op owner raw rs
      by (simp add: authorize_coordination_operation_def bind_sum_eq_Inr Let_def)
    with assms(2) Inr that show ?thesis
      by (cases out) (simp_all add: denied_authorization_def)
  qed
  obtain r where r: "r \<in> set rs" "authorize_resource fs facts ?req ?own ?ext r = Inr (Inr a)"
    using authorize_resources_granted [OF as(1)] assms(3) as(2) by blast
  have id: "sr_session_id owner = aq_session_id request" "owner \<in> set (ts_sessions ?s)"
    using owner(1) by (auto simp: find_Some_iff)
  note granted = authorize_resource_granted [OF r(2)]
  have "\<exists>v. canonicalize_concrete_path fs v (sr_worktree_path owner) = Inr (ar_resource a)"
    using map_sum_list_source [OF rs r(1)] granted by auto
  with that [OF op id owner(2) as(3)] granted id(1) show ?thesis by auto
qed

section \<open>A concrete registry\<close>

definition demo_fs :: filesystem where
  "demo_fs = fs_tree [([''w''], Dir), ([''w'', ''src''], Dir), ([''v''], Dir), ([''v'', ''src''], Dir)]"

lemma demo_fs_ok [simp]: "fs_lawful demo_fs" "fs_exact demo_fs"
  unfolding demo_fs_def
  by (rule fs_tree_lawful, simp add: real_path_def real_name_def) (rule fs_tree_exact)

definition demo_facts :: facts_source where
  "demo_facts l r = Some (verified_facts l r)"

lemma demo_facts_about [simp]: "facts_about demo_facts"
  by (simp add: facts_about_def demo_facts_def verified_facts_def)

definition demo_session :: "string \<Rightarrow> string \<Rightarrow> session_record" where
  "demo_session i w = \<lparr>sr_session_id = i, sr_repository_id = ''repo'', sr_worktree_path = w, sr_state = ''active''\<rparr>"

definition demo_empty :: transaction_snapshot where
  "demo_empty = \<lparr>ts_repository_id = ''repo'', ts_claim_set_generation = 0,
     ts_sessions = [demo_session ''s1'' ''/w'', demo_session ''s2'' ''/v''], ts_claims = []\<rparr>"

definition demo_claim :: "string \<Rightarrow> raw_sharing \<Rightarrow> claim_input" where
  "demo_claim resource sharing = \<lparr>ci_resource = JsString resource, ci_mode = JsString ''write'',
     ci_repositoryId = JsUndefined, ci_repository_id = JsUndefined, ci_sessionId = JsUndefined,
     ci_session_id = JsUndefined, ci_worktreePath = JsUndefined, ci_worktree_path = JsUndefined,
     ci_sharing = sharing\<rparr>"

definition demo_acquire :: "string \<Rightarrow> string \<Rightarrow> int option \<Rightarrow> transaction_request" where
  "demo_acquire session resource expected =
     \<lparr>rq_kind = ''acquire'', rq_session_id = session, rq_repository_id = None,
      rq_claims = Some [demo_claim resource (SharingRecord (JsString RESOURCE_CLAIM_SHARING_KIND) (JsString ''g''))],
      rq_deltas = None, rq_resources = None, rq_sharing = SharingUndefined,
      rq_expected_generation = expected, rq_force = False,
      rq_timestamp = Some ''2024-02-29T00:00:00.000Z'', rq_managed_executions = None\<rparr>"

definition demo_apply :: "transaction_snapshot \<Rightarrow> transaction_request \<Rightarrow>
    registry_error + transaction_plan \<times> transaction_plan option" where
  "demo_apply s request = apply_coordination_transaction demo_fs id [] demo_facts s request"

definition demo_commit :: "transaction_snapshot \<Rightarrow> transaction_request \<Rightarrow> transaction_snapshot" where
  "demo_commit s request = (case demo_apply s request of Inl _ \<Rightarrow> s | Inr (plan, written) \<Rightarrow> commit_to s written)"

lemma demo_commit_reachable: "reachable_registry s \<Longrightarrow> reachable_registry (demo_commit s request)"
  unfolding demo_commit_def
  by (auto simp: demo_apply_def split: sum.splits
      intro: registry_transaction [OF _ demo_fs_ok demo_facts_about])

definition demo_held :: "string \<Rightarrow> string \<Rightarrow> resource_claim" where
  "demo_held session worktree =
     (let sharing = Some \<lparr>sw_kind = RESOURCE_CLAIM_SHARING_KIND, sw_group_id = ''g''\<rparr> in
      \<lparr>rc_schema_version = RESOURCE_CLAIM_SCHEMA_VERSION,
       rc_claim_id = canonical_claim_id id session ''a'' Write sharing,
       rc_session_id = session, rc_repository_id = ''repo'', rc_worktree_path = worktree,
       rc_resource = ''a'', rc_mode = Write, rc_sharing = sharing,
       rc_created_at = ''2024-02-29T00:00:00.000Z'', rc_updated_at = ''2024-02-29T00:00:00.000Z''\<rparr>)"

definition demo_one :: transaction_snapshot where
  "demo_one = demo_empty\<lparr>ts_claims := [demo_held ''s1'' ''/w''], ts_claim_set_generation := 1\<rparr>"

definition demo_two :: transaction_snapshot where
  "demo_two = demo_empty\<lparr>ts_claims := [demo_held ''s1'' ''/w'', demo_held ''s2'' ''/v''],
     ts_claim_set_generation := 2\<rparr>"

lemma demo_one_step: "demo_commit demo_empty (demo_acquire ''s1'' ''a'' (Some 0)) = demo_one"
  by code_simp

lemma demo_two_step: "demo_commit demo_one (demo_acquire ''s2'' ''a'' (Some 1)) = demo_two"
  by code_simp

lemma demo_reachable: "reachable_registry demo_one" "reachable_registry demo_two"
proof -
  have "reachable_registry demo_empty" by (rule registry_empty) (simp add: demo_empty_def)
  then show one: "reachable_registry demo_one" using demo_commit_reachable demo_one_step by metis
  then show "reachable_registry demo_two" using demo_commit_reachable demo_two_step by metis
qed


definition demo_authorization :: "string \<Rightarrow> string \<Rightarrow> authorization_request" where
  "demo_authorization session operation =
     \<lparr>aq_operation = operation, aq_session_id = session, aq_resources = Some [JsString ''a''],
      aq_snapshot = demo_two\<rparr>"

definition demo_granted :: "string \<Rightarrow> string \<Rightarrow> operation_authorization" where
  "demo_granted session worktree =
     \<lparr>oa_allowed = True, oa_code = ''ALLOWED'', oa_operation = ''source-write'',
      oa_required_access = Some Write, oa_session_id = session,
      oa_resources = [\<lparr>ar_resource = ''a'', ar_claim_ids = [rc_claim_id (demo_held session worktree)]\<rparr>]\<rparr>"

lemma demo_authorized:
  "authorize_coordination_operation demo_fs demo_facts (demo_authorization ''s1'' ''source-write'') =
     Inr (demo_granted ''s1'' ''/w'')"
  "authorize_coordination_operation demo_fs demo_facts (demo_authorization ''s2'' ''source-write'') =
     Inr (demo_granted ''s2'' ''/v'')"
  by code_simp+

lemma plan_idempotent:
  assumes "plan_coordination_transaction fs sha now facts s request = Inr p"
  shows "pl_idempotent p \<longleftrightarrow> pl_generation p = ts_claim_set_generation s"
  using assms by (rule plan_Inr)

section \<open>Properties\<close>

text \<open>C2: Two sessions are never both allowed to mutate the same literal path: whatever the
  transactions that led to the registry, if operations of two different sessions are both
  authorized on one path, both need only ordinary write access and the sessions hold claims
  that coordinate them, in different worktrees of one repository. In particular no commit,
  push, branch mutation or cleanup is authorized beside any other session's operation.\<close>

theorem no_conflicting_operations_authorized:
  assumes "reachable_registry s" "fs_lawful fs1" "fs_exact fs1" "fs_lawful fs2" "fs_exact fs2"
    and "authorize_coordination_operation fs1 facts1 q1 = Inr d1" "oa_allowed d1" "a1 \<in> set (oa_resources d1)"
    and "authorize_coordination_operation fs2 facts2 q2 = Inr d2" "oa_allowed d2" "a2 \<in> set (oa_resources d2)"
    and "aq_snapshot q1 = s" "aq_snapshot q2 = s" "aq_session_id q1 \<noteq> aq_session_id q2"
    and "ar_resource a1 = ar_resource a2" "literal_path (ar_resource a1)"
  shows "oa_required_access d1 = Some Write \<and> oa_required_access d2 = Some Write \<and>
         (\<exists>c1\<in>set (ts_claims s). \<exists>c2\<in>set (ts_claims s). rc_session_id c1 = aq_session_id q1 \<and>
            rc_session_id c2 = aq_session_id q2 \<and> coordinated_pair c1 c2)"
proof -
  note cons = reachable_consistent [OF assms(1)]
  obtain o1 c1 v1 w1 where g1: "oa_required_access d1 = Some (required_access_for_operation o1)"
    "canonicalize_concrete_path fs1 v1 w1 = Inr (ar_resource a1)" "c1 \<in> set (ts_claims s)"
    "rc_session_id c1 = aq_session_id q1" "claim_matches fs1 (ar_resource a1) c1 = Inr True"
    "required_access_for_operation o1 \<le> rc_mode c1"
    using authorize_operation_granted [OF assms(6-8)] assms(12) by metis
  obtain o2 c2 where g2: "oa_required_access d2 = Some (required_access_for_operation o2)"
    "c2 \<in> set (ts_claims s)" "rc_session_id c2 = aq_session_id q2"
    "claim_matches fs2 (ar_resource a2) c2 = Inr True" "required_access_for_operation o2 \<le> rc_mode c2"
    using authorize_operation_granted [OF assms(9-11)] assms(13) by metis
  have canon: "canonical_resource (ar_resource a1)" "canonical_resource (rc_resource c1)"
    "canonical_resource (rc_resource c2)"
    using canonicalize_concrete_path_exact [OF assms(2,3) g1(2)] cons g1(3) g2(2)
    by (auto simp: consistent_claims_def)
  have "selects_common (rc_resource c1) (ar_resource a1)" "selects_common (rc_resource c2) (ar_resource a1)"
    using claim_matches_exact [OF assms(2,3) canon(2,1) g1(5)]
      claim_matches_exact [OF assms(4,5) canon(3,1) g2(4) [folded assms(15)]] by simp_all
  then have "selects_common (rc_resource c1) (rc_resource c2)"
    using literal_selects [OF assms(16)] by (auto simp: selects_common_def)
  moreover have writes: "Write \<le> rc_mode c1" "Write \<le> rc_mode c2"
    using g1(6) g2(5) required_access_writes order_trans by blast+
  then have "RESOURCE_CLAIM_COMPATIBILITY_MATRIX (rc_mode c1) (rc_mode c2) \<noteq> Compatible"
    by (auto simp: write_access_cases)
  moreover have "compatible_claims c1 c2"
    using cons g1(3,4) g2(2,3) assms(14) by (simp add: consistent_claims_def)
  ultimately have pair: "coordinated_pair c1 c2" by (simp add: compatible_claims_def)
  then have "rc_mode c1 = Write" "rc_mode c2 = Write" by (simp_all add: coordinated_pair_def)
  then have "required_access_for_operation o1 = Write" "required_access_for_operation o2 = Write"
    using g1(6) g2(5) required_access_writes [of o1] required_access_writes [of o2]
    by (metis order_antisym)+
  with g1 g2 pair show ?thesis by auto
qed

theorem no_conflicting_operations_authorized_witness:
  "reachable_registry demo_two \<and>
   (\<exists>c1\<in>set (ts_claims demo_two). \<exists>c2\<in>set (ts_claims demo_two). coordinated_pair c1 c2)"
proof -
  have "literal_path ''a''" by code_simp
  then show ?thesis
    using no_conflicting_operations_authorized [OF demo_reachable(2) demo_fs_ok demo_fs_ok
        demo_authorized(1) _ _ demo_authorized(2), of "hd (oa_resources (demo_granted ''s1'' ''/w''))"
          "hd (oa_resources (demo_granted ''s2'' ''/v''))"] demo_reachable(2)
    by (auto simp: demo_granted_def demo_authorization_def)
qed

text \<open>C3: The claim set stays consistent: in every registry that transactions can produce, claims
  are canonical, claims of one session never select a common path, and claims of two sessions
  that do are compatible in mode or form a coordinated pair of writers.\<close>

theorem registry_claims_consistent:
  assumes "reachable_registry s"
  shows "consistent_claims (ts_claims s)"
  using assms by (rule reachable_consistent)

theorem registry_claims_consistent_witness:
  "consistent_claims (ts_claims demo_two) \<and> length (ts_claims demo_two) = 2"
  using registry_claims_consistent [OF demo_reachable(2)] by (simp add: demo_two_def)

text \<open>The generation counts exactly the changes of the claim set: a plan is idempotent if and
  only if it leaves the set of claims as it was, and the generation grows by one otherwise.\<close>

theorem generation_counts_claim_changes:
  assumes "consistent_claims (ts_claims snapshot)"
    and "plan_coordination_transaction fs sha now facts snapshot request = Inr p"
  shows "(pl_idempotent p \<longleftrightarrow> set (pl_claims p) = set (ts_claims snapshot)) \<and>
         pl_generation p = ts_claim_set_generation snapshot + (if pl_idempotent p then 0 else 1)"
  using assms by (rule plan_session_sets)

lemma demo_plan:
  obtains p where "plan_coordination_transaction demo_fs id [] demo_facts demo_one (demo_acquire ''s2'' ''a'' (Some 1)) = Inr p"
    "\<not> pl_idempotent p" "pl_claims p = ts_claims demo_two"
    "apply_coordination_transaction demo_fs id [] demo_facts demo_one (demo_acquire ''s2'' ''a'' (Some 1)) = Inr (p, Some p)"
proof -
  have "demo_two \<noteq> demo_one" by (simp add: demo_one_def demo_two_def demo_empty_def)
  with demo_two_step obtain p w where pw: "demo_apply demo_one (demo_acquire ''s2'' ''a'' (Some 1)) = Inr (p, w)"
    "commit_to demo_one w = demo_two"
    by (auto simp: demo_commit_def split: sum.splits)
  moreover have "w \<noteq> None" using pw(2) \<open>demo_two \<noteq> demo_one\<close> by (cases w) (auto simp: commit_to_def)
  ultimately have *: "plan_coordination_transaction demo_fs id [] demo_facts demo_one (demo_acquire ''s2'' ''a'' (Some 1)) = Inr p"
    "\<not> pl_idempotent p" "w = Some p"
    by (auto simp: demo_apply_def apply_Inr split: if_splits)
  moreover have "pl_claims p = ts_claims demo_two"
    using arg_cong [OF pw(2), of ts_claims] *(3) by (simp add: commit_to_def)
  ultimately show ?thesis using that pw(1) by (simp add: demo_apply_def)
qed

theorem generation_counts_claim_changes_witness:
  "\<exists>p. plan_coordination_transaction demo_fs id [] demo_facts demo_one (demo_acquire ''s2'' ''a'' (Some 1)) = Inr p \<and>
     pl_generation p = 2"
proof (rule demo_plan)
  fix p
  assume p: "plan_coordination_transaction demo_fs id [] demo_facts demo_one (demo_acquire ''s2'' ''a'' (Some 1)) = Inr p"
    "\<not> pl_idempotent p"
  from generation_counts_claim_changes [OF reachable_consistent [OF demo_reachable(1)] p(1)] p
  show ?thesis by (simp add: demo_one_def)
qed

text \<open>No lost update: after a transaction that was written, any request that still expects the
  generation from before it is refused.\<close>

theorem stale_generation_refused:
  assumes "apply_coordination_transaction fs sha now facts s r1 = Inr (p, Some w)"
    and "rq_expected_generation r2 = Some (ts_claim_set_generation s)"
  shows "\<exists>e. plan_coordination_transaction fs' sha' now' facts' (commit_to s (Some w)) r2 = Inl e"
proof (cases "plan_coordination_transaction fs' sha' now' facts' (commit_to s (Some w)) r2")
  case (Inr q)
  have "pl_generation w \<noteq> ts_claim_set_generation s"
    using assms(1) plan_idempotent [of fs sha now facts s r1 w] by (simp add: apply_Inr split: if_splits)
  moreover have "ts_claim_set_generation s = pl_generation w"
    using plan_generation_expected [OF Inr, of "ts_claim_set_generation s"] assms(2)
    by (simp add: commit_to_def)
  ultimately show ?thesis by simp
qed simp

theorem stale_generation_refused_witness:
  "\<exists>w e. plan_coordination_transaction demo_fs id [] demo_facts (commit_to demo_one (Some w))
     (demo_acquire ''s1'' ''a'' (Some 1)) = Inl e"
proof (rule demo_plan)
  fix p
  assume p: "apply_coordination_transaction demo_fs id [] demo_facts demo_one (demo_acquire ''s2'' ''a'' (Some 1)) = Inr (p, Some p)"
  have "rq_expected_generation (demo_acquire ''s1'' ''a'' (Some 1)) = Some (ts_claim_set_generation demo_one)"
    by (simp add: demo_acquire_def demo_one_def)
  from stale_generation_refused [OF p this] show ?thesis by blast
qed

text \<open>A transaction touches the claims of its own session only: the claims of all other sessions
  are carried over unchanged, and the plan's session claims are all its session then holds.\<close>

theorem transaction_touches_own_claims_only:
  assumes "plan_coordination_transaction fs sha now facts snapshot request = Inr p"
    and "consistent_claims (ts_claims snapshot)"
  shows "mset (filter (\<lambda>c. rc_session_id c \<noteq> rq_session_id request) (pl_claims p)) =
         mset (filter (\<lambda>c. rc_session_id c \<noteq> rq_session_id request) (ts_claims snapshot)) \<and>
         set (filter (\<lambda>c. rc_session_id c = rq_session_id request) (pl_claims p)) = set (pl_session_claims p)"
  using assms by (rule plan_external_untouched)

theorem transaction_touches_own_claims_only_witness:
  "\<exists>p. plan_coordination_transaction demo_fs id [] demo_facts demo_one (demo_acquire ''s2'' ''a'' (Some 1)) = Inr p \<and>
     mset (filter (\<lambda>c. rc_session_id c \<noteq> ''s2'') (pl_claims p)) = mset [demo_held ''s1'' ''/w'']"
proof (rule demo_plan)
  fix p
  assume p: "plan_coordination_transaction demo_fs id [] demo_facts demo_one (demo_acquire ''s2'' ''a'' (Some 1)) = Inr p"
  from transaction_touches_own_claims_only [OF p reachable_consistent [OF demo_reachable(1)]] p
  show ?thesis by (simp add: demo_one_def demo_acquire_def demo_held_def Let_def)
qed

lemma claim_map_of_member:
  assumes "map_of (claim_map_of cs) k = Some n"
  shows "n \<in> set cs \<and> rc_resource n = k"
  using keyed_claim_map_of [of cs "\<lambda>c. c \<in> set cs"] map_of_SomeD [OF assms] by (auto simp: keyed_def list_all_iff)

text \<open>What it means that a claim set still gives all that a claim gave\<close>

definition keeps_authority :: "resource_claim list \<Rightarrow> resource_claim \<Rightarrow> bool" where
  "keeps_authority claims c \<longleftrightarrow>
     (\<exists>n\<in>set claims. rc_resource n = rc_resource c \<and> rc_mode c \<le> rc_mode n \<and>
        (rc_mode c = Write \<and> rc_mode n = Write \<longrightarrow> sharing_group (rc_sharing n) = sharing_group (rc_sharing c)))"

lemma lost_authority_shrinks:
  "\<not> keeps_authority claims c \<Longrightarrow> is_authority_shrinking c (map_of (claim_map_of claims) (rc_resource c))"
  by (auto simp: keeps_authority_def is_authority_shrinking_def grants_iff_le split: option.splits dest: claim_map_of_member)

lemma execution_apart:
  assumes "fs_lawful fs" "fs_exact fs" "canonical_resource (rc_resource c)" "execution_overlaps_claim fs e c = Inr False"
  shows "\<exists>resources. me_resources e = Some resources \<and> resources \<noteq> [] \<and>
    (\<forall>r\<in>set resources. canonical_resource r \<longrightarrow> \<not> selects_common (rc_resource c) r)"
proof -
  obtain resources where rs: "me_resources e = Some resources" "resources \<noteq> []"
    and none: "find_sum (\<lambda>r. resource_matches_claim fs (rc_resource c) (Some (rc_worktree_path c)) r) resources = Inr None"
    using assms(4) by (auto simp: execution_overlaps_claim_def some_sum_def bind_sum_eq_Inr split: option.splits if_splits)
  have "\<not> selects_common (rc_resource c) r" if "r \<in> set resources" "canonical_resource r" for r
  proof -
    have "claim_matches fs r c = Inr False"
      using none that(1) by (simp add: find_sum_None claim_matches_def)
    from claim_matches_exact [OF assms(1-3) that(2) this] show ?thesis by simp
  qed
  with rs show ?thesis by blast
qed

text \<open>C18: Authority never shrinks under an execution that the request reports as running. An accepted plan leaves the session
  a claim on the same resource that is at least as strong, and as a shared writer is in the same group; or each of the
  managed executions of the session that the caller supplied and that has not stopped names the resources it works on,
  and no repository path is selected both by one of them and by the claim that is given up.\<close>

theorem shrinking_requires_drain:
  assumes "fs_lawful fs" "fs_exact fs" "canonical_resource (rc_resource c)"
    and "plan_coordination_transaction fs sha now facts snapshot request = Inr p"
    and "rq_managed_executions request = Some executions" "e \<in> set executions"
    and "c \<in> set (ts_claims snapshot)" "rc_session_id c = rq_session_id request"
    and "me_session_id e = rq_session_id request" "me_managed e" "me_state e \<noteq> ExStopped"
  shows "(\<exists>n\<in>set (pl_session_claims p). rc_resource n = rc_resource c \<and> rc_mode c \<le> rc_mode n \<and>
       (rc_mode c = Write \<and> rc_mode n = Write \<longrightarrow> sharing_group (rc_sharing n) = sharing_group (rc_sharing c))) \<or>
    (\<exists>resources. me_resources e = Some resources \<and> resources \<noteq> [] \<and>
       (\<forall>r\<in>set resources. canonical_resource r \<longrightarrow>
          \<not> (\<exists>path. path_ok path \<and> glob_selects (rc_resource c) path \<and> glob_selects r path)))"
proof (cases "keeps_authority (pl_session_claims p) c")
  case True
  then show ?thesis unfolding keeps_authority_def by blast
next
  case False
  have "execution_overlaps_claim fs e c = Inr False"
    by (rule plan_drained [OF assms(4-11) lost_authority_shrinks [OF False]])
  from execution_apart [OF assms(1-3) this] show ?thesis unfolding selects_common_def by blast
qed

definition demo_execution :: managed_execution where
  "demo_execution = \<lparr>me_execution_id = ''x'', me_session_id = ''s1'', me_state = ExActive, me_managed = True,
     me_resources = Some [''b'']\<rparr>"

definition demo_release :: transaction_request where
  "demo_release = \<lparr>rq_kind = ''release'', rq_session_id = ''s1'', rq_repository_id = None, rq_claims = None,
     rq_deltas = None, rq_resources = Some [JsString ''a''], rq_sharing = SharingUndefined,
     rq_expected_generation = Some 1, rq_force = False, rq_timestamp = None,
     rq_managed_executions = Some [demo_execution]\<rparr>"

theorem shrinking_requires_drain_witness:
  "\<exists>p. plan_coordination_transaction demo_fs id [] demo_facts demo_one demo_release = Inr p \<and> pl_session_claims p = [] \<and>
     \<not> (\<exists>path. path_ok path \<and> glob_selects ''a'' path \<and> glob_selects ''b'' path)"
proof -
  have "(case plan_coordination_transaction demo_fs id [] demo_facts demo_one demo_release of
      Inl _ \<Rightarrow> False | Inr p \<Rightarrow> pl_session_claims p = [])"
    by code_simp
  then obtain p where p: "plan_coordination_transaction demo_fs id [] demo_facts demo_one demo_release = Inr p"
    "pl_session_claims p = []"
    by (auto split: sum.splits)
  have "canonical_resource (rc_resource (demo_held ''s1'' ''/w''))" "canonical_resource ''b''"
    by code_simp+
  with p shrinking_requires_drain [OF demo_fs_ok _ p(1), of "demo_held ''s1'' ''/w''" "[demo_execution]" demo_execution]
  show ?thesis
    by (simp add: demo_release_def demo_execution_def demo_one_def demo_held_def Let_def)
qed

end
