(* ===== verification/Seccomp.thy ===== *)
theory Seccomp
  imports Errors "HOL-Library.Word"
begin

text \<open>
  src/src/domain/sandbox-seccomp.ts: the compilation of the deny-list into a classic BPF filter
  and its encoding as bytes, with words of the widths the source writes (\<open>setUint16\<close>,
  \<open>setUint8\<close>, \<open>setUint32\<close>). The kernel that runs the filter is not part of the program: the
  locale \<open>bpf_machine\<close> states the documented meaning of the four instructions used, and
  \<open>bpf_run\<close> is a machine that has it. \<open>seccomp_policy\<close> is the policy the comments promise.
\<close>

unbundle bit_operations_syntax

section \<open>The profile\<close>

definition SANDBOX_SECCOMP_PROFILE_ID :: string where
  "SANDBOX_SECCOMP_PROFILE_ID = ''nawabari.seccomp.v1''"

definition SANDBOX_SECCOMP_PROFILE_VERSION :: int where
  "SANDBOX_SECCOMP_PROFILE_VERSION = 1"

definition SANDBOX_SECCOMP_DENIED_SYSCALLS :: "string list" where
  "SANDBOX_SECCOMP_DENIED_SYSCALLS =
    [''acct'', ''add_key'', ''bpf'', ''delete_module'', ''fanotify_init'', ''fsconfig'',
     ''fsmount'', ''fsopen'', ''fspick'', ''init_module'', ''kexec_file_load'', ''kexec_load'',
     ''keyctl'', ''mount'', ''mount_setattr'', ''move_mount'', ''open_by_handle_at'',
     ''perf_event_open'', ''pivot_root'', ''process_vm_readv'', ''process_vm_writev'',
     ''ptrace'', ''quotactl'', ''quotactl_fd'', ''reboot'', ''request_key'', ''setns'',
     ''swapon'', ''swapoff'', ''syslog'', ''umount2'', ''unshare'', ''userfaultfd'']"

text \<open>
  A mapping gives a number, or null (\<open>Some None\<close> on lookup) for a call an architecture lacks; a
  missing entry is \<open>undefined\<close>.
\<close>

type_synonym syscall_mapping = "(string \<times> int option) list"

record bpf_instruction =
  bpf_code :: "16 word"
  bpf_jt :: "8 word"
  bpf_jf :: "8 word"
  bpf_k :: "32 word"

definition BPF_LD :: "16 word" where "BPF_LD = 0x00"
definition BPF_W :: "16 word" where "BPF_W = 0x00"
definition BPF_ABS :: "16 word" where "BPF_ABS = 0x20"
definition BPF_ALU :: "16 word" where "BPF_ALU = 0x04"
definition BPF_AND :: "16 word" where "BPF_AND = 0x50"
definition BPF_JMP :: "16 word" where "BPF_JMP = 0x05"
definition BPF_JEQ :: "16 word" where "BPF_JEQ = 0x10"
definition BPF_K :: "16 word" where "BPF_K = 0x00"
definition BPF_RET :: "16 word" where "BPF_RET = 0x06"
definition SECCOMP_RET_KILL_PROCESS :: "32 word" where "SECCOMP_RET_KILL_PROCESS = 0x80000000"
definition SECCOMP_RET_ERRNO :: "32 word" where "SECCOMP_RET_ERRNO = 0x00050000"
definition SECCOMP_RET_ALLOW :: "32 word" where "SECCOMP_RET_ALLOW = 0x7fff0000"
definition EPERM :: "32 word" where "EPERM = 1"
definition ENOSYS :: "32 word" where "ENOSYS = 38"
definition X32_SYSCALL_BIT :: "32 word" where "X32_SYSCALL_BIT = 0x40000000"
definition CLONE_NAMESPACE_FLAGS :: "32 word" where "CLONE_NAMESPACE_FLAGS = 0x7e020080"
definition SECCOMP_DATA_ARG0_LO_OFFSET :: "32 word" where "SECCOMP_DATA_ARG0_LO_OFFSET = 16"
definition SECCOMP_DATA_NR_OFFSET :: "32 word" where "SECCOMP_DATA_NR_OFFSET = 0"
definition SECCOMP_DATA_ARCH_OFFSET :: "32 word" where "SECCOMP_DATA_ARCH_OFFSET = 4"
definition CLONE3_SYSCALL :: "32 word" where "CLONE3_SYSCALL = 435"

definition AUDIT_ARCH :: "(string \<times> 32 word) list" where
  "AUDIT_ARCH = [(''x64'', 0xc000003e), (''arm64'', 0xc00000b7), (''arm'', 0x40000028),
     (''ia32'', 0x40000003), (''riscv64'', 0xc00000f3)]"

definition CLONE_SYSCALLS :: "(string \<times> 32 word) list" where
  "CLONE_SYSCALLS = [(''x64'', 56), (''arm64'', 220), (''arm'', 120), (''riscv64'', 220)]"

definition SYSCALLS_x64 :: syscall_mapping where
  "SYSCALLS_x64 =
    [(''acct'', Some 163), (''add_key'', Some 248), (''bpf'', Some 321),
     (''delete_module'', Some 176), (''fanotify_init'', Some 300), (''fsconfig'', Some 431),
     (''fsmount'', Some 432), (''fsopen'', Some 430), (''fspick'', Some 433),
     (''init_module'', Some 175), (''kexec_file_load'', Some 320), (''kexec_load'', Some 246),
     (''keyctl'', Some 250), (''mount'', Some 165), (''mount_setattr'', Some 442),
     (''move_mount'', Some 429), (''open_by_handle_at'', Some 304),
     (''perf_event_open'', Some 298), (''pivot_root'', Some 155),
     (''process_vm_readv'', Some 310), (''process_vm_writev'', Some 311), (''ptrace'', Some 101),
     (''quotactl'', Some 179), (''quotactl_fd'', Some 443), (''reboot'', Some 169),
     (''request_key'', Some 249), (''setns'', Some 308), (''swapon'', Some 167),
     (''swapoff'', Some 168), (''syslog'', Some 103), (''umount2'', Some 166),
     (''unshare'', Some 272), (''userfaultfd'', Some 323)]"

definition SYSCALLS_arm64 :: syscall_mapping where
  "SYSCALLS_arm64 =
    [(''acct'', Some 89), (''add_key'', Some 217), (''bpf'', Some 280),
     (''delete_module'', Some 106), (''fanotify_init'', Some 262), (''fsconfig'', Some 431),
     (''fsmount'', Some 432), (''fsopen'', Some 430), (''fspick'', Some 433),
     (''init_module'', Some 105), (''kexec_file_load'', Some 294), (''kexec_load'', Some 104),
     (''keyctl'', Some 219), (''mount'', Some 40), (''mount_setattr'', Some 442),
     (''move_mount'', Some 429), (''open_by_handle_at'', Some 265),
     (''perf_event_open'', Some 241), (''pivot_root'', Some 41),
     (''process_vm_readv'', Some 270), (''process_vm_writev'', Some 271), (''ptrace'', Some 117),
     (''quotactl'', Some 60), (''quotactl_fd'', Some 443), (''reboot'', Some 142),
     (''request_key'', Some 218), (''setns'', Some 268), (''swapon'', Some 224),
     (''swapoff'', Some 225), (''syslog'', Some 116), (''umount2'', Some 39),
     (''unshare'', Some 97), (''userfaultfd'', Some 282)]"

definition SYSCALLS_arm :: syscall_mapping where
  "SYSCALLS_arm =
    [(''acct'', Some 51), (''add_key'', Some 309), (''bpf'', Some 386),
     (''delete_module'', Some 129), (''fanotify_init'', Some 367), (''fsconfig'', Some 431),
     (''fsmount'', Some 432), (''fsopen'', Some 430), (''fspick'', Some 433),
     (''init_module'', Some 128), (''kexec_file_load'', Some 401), (''kexec_load'', Some 347),
     (''keyctl'', Some 311), (''mount'', Some 21), (''mount_setattr'', Some 442),
     (''move_mount'', Some 429), (''open_by_handle_at'', Some 371),
     (''perf_event_open'', Some 364), (''pivot_root'', Some 218),
     (''process_vm_readv'', Some 376), (''process_vm_writev'', Some 377), (''ptrace'', Some 26),
     (''quotactl'', Some 131), (''quotactl_fd'', Some 443), (''reboot'', Some 88),
     (''request_key'', Some 310), (''setns'', Some 375), (''swapon'', Some 87),
     (''swapoff'', Some 115), (''syslog'', Some 103), (''umount2'', Some 52),
     (''unshare'', Some 337), (''userfaultfd'', Some 388)]"

definition SYSCALLS_riscv64 :: syscall_mapping where
  "SYSCALLS_riscv64 =
    [(''acct'', Some 89), (''add_key'', Some 217), (''bpf'', Some 280),
     (''delete_module'', Some 106), (''fanotify_init'', Some 262), (''fsconfig'', Some 431),
     (''fsmount'', Some 432), (''fsopen'', Some 430), (''fspick'', Some 433),
     (''init_module'', Some 105), (''kexec_file_load'', Some 294), (''kexec_load'', Some 104),
     (''keyctl'', Some 219), (''mount'', Some 40), (''mount_setattr'', Some 442),
     (''move_mount'', Some 429), (''open_by_handle_at'', Some 265),
     (''perf_event_open'', Some 241), (''pivot_root'', Some 41),
     (''process_vm_readv'', Some 270), (''process_vm_writev'', Some 271), (''ptrace'', Some 117),
     (''quotactl'', Some 60), (''quotactl_fd'', Some 443), (''reboot'', Some 142),
     (''request_key'', Some 218), (''setns'', Some 268), (''swapon'', Some 224),
     (''swapoff'', Some 225), (''syslog'', Some 116), (''umount2'', Some 39),
     (''unshare'', Some 97), (''userfaultfd'', Some 282)]"

definition SYSCALLS :: "(string \<times> syscall_mapping) list" where
  "SYSCALLS = [(''x64'', SYSCALLS_x64), (''arm64'', SYSCALLS_arm64), (''arm'', SYSCALLS_arm),
     (''riscv64'', SYSCALLS_riscv64)]"

section \<open>Compilation\<close>

definition statement :: "16 word \<Rightarrow> 32 word \<Rightarrow> bpf_instruction" where
  "statement code k = \<lparr>bpf_code = code, bpf_jt = 0, bpf_jf = 0, bpf_k = k\<rparr>"

definition jump_if_equal :: "32 word \<Rightarrow> 8 word \<Rightarrow> 8 word \<Rightarrow> bpf_instruction" where
  "jump_if_equal k jt jf = \<lparr>bpf_code = BPF_JMP OR BPF_JEQ OR BPF_K, bpf_jt = jt, bpf_jf = jf, bpf_k = k\<rparr>"

definition profile_architecture :: "string \<Rightarrow> (32 word \<times> syscall_mapping) option" where
  "profile_architecture architecture =
     (case (map_of AUDIT_ARCH architecture, map_of SYSCALLS architecture) of
        (Some audit, Some syscalls) \<Rightarrow> Some (audit, syscalls)
      | _ \<Rightarrow> None)"

definition sandbox_seccomp_architecture_supported :: "string \<Rightarrow> bool" where
  "sandbox_seccomp_architecture_supported architecture \<longleftrightarrow> profile_architecture architecture \<noteq> None"

text \<open>The loop over the denied names; a null entry is skipped, a defective one fails the whole.\<close>

fun denied_instructions :: "syscall_mapping \<Rightarrow> string list \<Rightarrow> domain_error + bpf_instruction list" where
  "denied_instructions syscalls [] = Inr []"
| "denied_instructions syscalls (name # names) =
     (case map_of syscalls name of
        Some None \<Rightarrow> denied_instructions syscalls names
      | None \<Rightarrow> Inl (domain_error ''SANDBOX_CAPABILITY_UNAVAILABLE''
          ''The seccomp baseline contains an invalid architecture syscall mapping.'')
      | Some (Some syscall) \<Rightarrow>
          if syscall < 0 \<or> syscall > 0xffffffff then
            Inl (domain_error ''SANDBOX_CAPABILITY_UNAVAILABLE''
              ''The seccomp baseline contains an invalid architecture syscall mapping.'')
          else bind_sum (denied_instructions syscalls names) (\<lambda>rest.
            Inr (jump_if_equal (word_of_int syscall) 0 1 #
                 statement (BPF_RET OR BPF_K) (SECCOMP_RET_ERRNO OR EPERM) # rest)))"

definition seccomp_prologue :: "32 word \<Rightarrow> bpf_instruction list" where
  "seccomp_prologue audit =
     [statement (BPF_LD OR BPF_W OR BPF_ABS) SECCOMP_DATA_ARCH_OFFSET,
      jump_if_equal audit 1 0,
      statement (BPF_RET OR BPF_K) SECCOMP_RET_KILL_PROCESS,
      statement (BPF_LD OR BPF_W OR BPF_ABS) SECCOMP_DATA_NR_OFFSET]"

definition seccomp_x32 :: "bpf_instruction list" where
  "seccomp_x32 =
     [statement (BPF_ALU OR BPF_AND OR BPF_K) X32_SYSCALL_BIT,
      jump_if_equal 0 1 0,
      statement (BPF_RET OR BPF_K) (SECCOMP_RET_ERRNO OR EPERM),
      statement (BPF_LD OR BPF_W OR BPF_ABS) SECCOMP_DATA_NR_OFFSET]"

definition seccomp_epilogue :: "32 word \<Rightarrow> bpf_instruction list" where
  "seccomp_epilogue clone_syscall =
     [jump_if_equal clone_syscall 0 4,
      statement (BPF_LD OR BPF_W OR BPF_ABS) SECCOMP_DATA_ARG0_LO_OFFSET,
      statement (BPF_ALU OR BPF_AND OR BPF_K) CLONE_NAMESPACE_FLAGS,
      jump_if_equal 0 1 0,
      statement (BPF_RET OR BPF_K) (SECCOMP_RET_ERRNO OR EPERM),
      statement (BPF_LD OR BPF_W OR BPF_ABS) SECCOMP_DATA_NR_OFFSET,
      jump_if_equal CLONE3_SYSCALL 0 1,
      statement (BPF_RET OR BPF_K) (SECCOMP_RET_ERRNO OR ENOSYS),
      statement (BPF_RET OR BPF_K) SECCOMP_RET_ALLOW]"

definition seccomp_instructions :: "string \<Rightarrow> domain_error + bpf_instruction list" where
  "seccomp_instructions architecture =
     (case profile_architecture architecture of
        None \<Rightarrow> Inl (domain_error ''SANDBOX_CAPABILITY_UNAVAILABLE''
          ''The seccomp baseline has no compatible architecture profile.'')
      | Some (audit, syscalls) \<Rightarrow>
      (case map_of CLONE_SYSCALLS architecture of
        None \<Rightarrow> Inl (domain_error ''SANDBOX_CAPABILITY_UNAVAILABLE'' ''No namespace-safe clone profile exists.'')
      | Some clone_syscall \<Rightarrow>
          bind_sum (denied_instructions syscalls SANDBOX_SECCOMP_DENIED_SYSCALLS) (\<lambda>denied.
          Inr (seccomp_prologue audit @ (if architecture = ''x64'' then seccomp_x32 else []) @ denied @
               seccomp_epilogue clone_syscall))))"

text \<open>One \<open>sock_filter\<close> of eight bytes, all fields little-endian.\<close>

definition encode_instruction :: "bpf_instruction \<Rightarrow> 8 word list" where
  "encode_instruction i =
     [ucast (bpf_code i), ucast (drop_bit 8 (bpf_code i)), bpf_jt i, bpf_jf i,
      ucast (bpf_k i), ucast (drop_bit 8 (bpf_k i)), ucast (drop_bit 16 (bpf_k i)),
      ucast (drop_bit 24 (bpf_k i))]"

definition compile_sandbox_seccomp_profile :: "string \<Rightarrow> domain_error + 8 word list" where
  "compile_sandbox_seccomp_profile architecture =
     bind_sum (seccomp_instructions architecture) (\<lambda>instructions.
     Inr (concat (map encode_instruction instructions)))"

section \<open>Reading the bytes back\<close>

fun decode_filter :: "8 word list \<Rightarrow> bpf_instruction list" where
  "decode_filter (c0 # c1 # jt # jf # k0 # k1 # k2 # k3 # bytes) =
     \<lparr>bpf_code = ucast c0 OR push_bit 8 (ucast c1), bpf_jt = jt, bpf_jf = jf,
      bpf_k = ucast k0 OR push_bit 8 (ucast k1) OR push_bit 16 (ucast k2) OR push_bit 24 (ucast k3)\<rparr> #
     decode_filter bytes"
| "decode_filter _ = []"

lemma join_bytes_16: "(ucast (ucast c :: 8 word) :: 16 word) OR push_bit 8 (ucast (ucast (drop_bit 8 c) :: 8 word)) = c"
  for c :: "16 word"
  by (rule bit_word_eqI) (auto simp: bit_simps)

lemma join_bytes_32:
  "(ucast (ucast k :: 8 word) :: 32 word) OR push_bit 8 (ucast (ucast (drop_bit 8 k) :: 8 word)) OR
   push_bit 16 (ucast (ucast (drop_bit 16 k) :: 8 word)) OR
   push_bit 24 (ucast (ucast (drop_bit 24 k) :: 8 word)) = k"
  for k :: "32 word"
proof (rule bit_word_eqI)
  fix n assume n: "n < LENGTH(32)"
  consider "n < 8" | "8 \<le> n" "n < 16" | "16 \<le> n" "n < 24" | "24 \<le> n" by linarith
  then show "bit ((ucast (ucast k :: 8 word) :: 32 word) OR push_bit 8 (ucast (ucast (drop_bit 8 k) :: 8 word)) OR
     push_bit 16 (ucast (ucast (drop_bit 16 k) :: 8 word)) OR
     push_bit 24 (ucast (ucast (drop_bit 24 k) :: 8 word))) n = bit k n"
    using n by cases (auto simp: bit_simps)
qed

lemma decode_encode: "decode_filter (concat (map encode_instruction is)) = is"
proof (induction "is")
  case (Cons i xs)
  then show ?case by (cases i) (simp add: encode_instruction_def join_bytes_16 join_bytes_32)
qed simp

section \<open>The machine that runs the filter\<close>

text \<open>
  Execution of the rest of a filter with an accumulator, over the 32-bit words of
  \<open>struct seccomp_data\<close> by byte offset. Jumps only go forward, so a state is a suffix of the
  program.
\<close>

definition names_deny :: "syscall_mapping \<Rightarrow> string list \<Rightarrow> 32 word \<Rightarrow> bool" where
  "names_deny syscalls names nr \<longleftrightarrow>
     (\<exists>name\<in>set names. \<exists>n. map_of syscalls name = Some (Some n) \<and> nr = word_of_int n)"

locale bpf_machine =
  fixes exec :: "bpf_instruction list \<Rightarrow> 32 word \<Rightarrow> (nat \<Rightarrow> 32 word) \<Rightarrow> 32 word option"
  assumes exec_ret: "bpf_code i = 0x06 \<Longrightarrow> exec (i # rest) a d = Some (bpf_k i)"
    and exec_load: "bpf_code i = 0x20 \<Longrightarrow> exec (i # rest) a d = exec rest (d (unat (bpf_k i))) d"
    and exec_and: "bpf_code i = 0x54 \<Longrightarrow> exec (i # rest) a d = exec rest (a AND bpf_k i) d"
    and exec_jump: "bpf_code i = 0x15 \<Longrightarrow>
      exec (i # rest) a d = exec (drop (unat (if a = bpf_k i then bpf_jt i else bpf_jf i)) rest) a d"
begin

lemma opcodes:
  "bpf_code (statement (BPF_RET OR BPF_K) k) = 0x06"
  "bpf_code (statement (BPF_LD OR BPF_W OR BPF_ABS) k) = 0x20"
  "bpf_code (statement (BPF_ALU OR BPF_AND OR BPF_K) k) = 0x54"
  "bpf_code (jump_if_equal k jt jf) = 0x15"
  by (simp_all add: statement_def jump_if_equal_def BPF_RET_def BPF_K_def BPF_LD_def BPF_W_def BPF_ABS_def
      BPF_ALU_def BPF_AND_def BPF_JMP_def BPF_JEQ_def)

lemma exec_simps:
  "exec (statement (BPF_RET OR BPF_K) k # rest) a d = Some k"
  "exec (statement (BPF_LD OR BPF_W OR BPF_ABS) k # rest) a d = exec rest (d (unat k)) d"
  "exec (statement (BPF_ALU OR BPF_AND OR BPF_K) k # rest) a d = exec rest (a AND k) d"
  "exec (jump_if_equal k jt jf # rest) a d = exec (drop (unat (if a = k then jt else jf)) rest) a d"
  using exec_ret [OF opcodes(1)] exec_load [OF opcodes(2)] exec_and [OF opcodes(3)] exec_jump [OF opcodes(4)]
  by (simp_all add: statement_def jump_if_equal_def)

lemma exec_denied:
  "denied_instructions syscalls names = Inr denied \<Longrightarrow>
   exec (denied @ rest) a d =
     (if names_deny syscalls names a then Some (SECCOMP_RET_ERRNO OR EPERM) else exec rest a d)"
proof (induction names arbitrary: denied)
  case (Cons name names)
  show ?case
  proof (cases "map_of syscalls name")
    case (Some entry)
    show ?thesis
    proof (cases entry)
      case entry: None
      with Some Cons show ?thesis by (simp add: names_deny_def)
    next
      case entry: (Some n)
      with Some Cons.prems obtain rest' where r: "denied_instructions syscalls names = Inr rest'"
        "denied = jump_if_equal (word_of_int n) 0 1 #
           statement (BPF_RET OR BPF_K) (SECCOMP_RET_ERRNO OR EPERM) # rest'"
        by (auto simp: bind_sum_eq_Inr split: if_splits)
      from Some entry have "names_deny syscalls (name # names) a \<longleftrightarrow> a = word_of_int n \<or> names_deny syscalls names a"
        by (simp add: names_deny_def)
      then show ?thesis using r Cons.IH [OF r(1)] by (simp add: exec_simps)
    qed
  qed (use Cons.prems in simp)
qed (simp add: names_deny_def)

end

fun bpf_run :: "bpf_instruction list \<Rightarrow> 32 word \<Rightarrow> (nat \<Rightarrow> 32 word) \<Rightarrow> 32 word option" where
  "bpf_run [] a d = None"
| "bpf_run (i # rest) a d =
     (if bpf_code i = 0x06 then Some (bpf_k i)
      else if bpf_code i = 0x20 then bpf_run rest (d (unat (bpf_k i))) d
      else if bpf_code i = 0x54 then bpf_run rest (a AND bpf_k i) d
      else if bpf_code i = 0x15 then bpf_run (drop (unat (if a = bpf_k i then bpf_jt i else bpf_jf i)) rest) a d
      else None)"

interpretation reference_machine: bpf_machine bpf_run
  by unfold_locales simp_all

section \<open>The policy\<close>

definition denied_number :: "syscall_mapping \<Rightarrow> 32 word \<Rightarrow> bool" where
  "denied_number syscalls nr \<longleftrightarrow> names_deny syscalls SANDBOX_SECCOMP_DENIED_SYSCALLS nr"

definition seccomp_policy :: "string \<Rightarrow> 32 word \<Rightarrow> syscall_mapping \<Rightarrow> 32 word \<Rightarrow> (nat \<Rightarrow> 32 word) \<Rightarrow> 32 word" where
  "seccomp_policy architecture audit syscalls clone_syscall d =
     (let arch = d 4; nr = d 0; flags = d 16 in
      if arch \<noteq> audit then SECCOMP_RET_KILL_PROCESS
      else if architecture = ''x64'' \<and> nr AND X32_SYSCALL_BIT \<noteq> 0 then SECCOMP_RET_ERRNO OR EPERM
      else if denied_number syscalls nr then SECCOMP_RET_ERRNO OR EPERM
      else if nr = clone_syscall \<and> flags AND CLONE_NAMESPACE_FLAGS \<noteq> 0 then SECCOMP_RET_ERRNO OR EPERM
      else if nr = CLONE3_SYSCALL then SECCOMP_RET_ERRNO OR ENOSYS
      else SECCOMP_RET_ALLOW)"

context bpf_machine
begin

lemma exec_epilogue:
  "exec (seccomp_epilogue clone_syscall) (d 0) d =
     Some (if d 0 = clone_syscall \<and> d 16 AND CLONE_NAMESPACE_FLAGS \<noteq> 0 then SECCOMP_RET_ERRNO OR EPERM
           else if d 0 = CLONE3_SYSCALL then SECCOMP_RET_ERRNO OR ENOSYS else SECCOMP_RET_ALLOW)"
  by (auto simp: seccomp_epilogue_def exec_simps SECCOMP_DATA_ARG0_LO_OFFSET_def SECCOMP_DATA_NR_OFFSET_def
      drop_Cons')

lemma exec_x32:
  "exec (seccomp_x32 @ rest) (d 0) d =
     (if d 0 AND X32_SYSCALL_BIT \<noteq> 0 then Some (SECCOMP_RET_ERRNO OR EPERM) else exec rest (d 0) d)"
  by (auto simp: seccomp_x32_def exec_simps SECCOMP_DATA_NR_OFFSET_def)

lemma exec_prologue:
  "exec (seccomp_prologue audit @ rest) a d =
     (if d 4 \<noteq> audit then Some SECCOMP_RET_KILL_PROCESS else exec rest (d 0) d)"
  by (auto simp: seccomp_prologue_def exec_simps SECCOMP_DATA_NR_OFFSET_def SECCOMP_DATA_ARCH_OFFSET_def)

theorem exec_policy:
  assumes "seccomp_instructions architecture = Inr program"
    and "profile_architecture architecture = Some (audit, syscalls)"
    and "map_of CLONE_SYSCALLS architecture = Some clone_syscall"
  shows "exec program a d = Some (seccomp_policy architecture audit syscalls clone_syscall d)"
proof -
  obtain denied where *: "denied_instructions syscalls SANDBOX_SECCOMP_DENIED_SYSCALLS = Inr denied"
    "program = seccomp_prologue audit @ (if architecture = ''x64'' then seccomp_x32 else []) @ denied @
       seccomp_epilogue clone_syscall"
    using assms by (auto simp: seccomp_instructions_def bind_sum_eq_Inr)
  let ?tail = "denied @ seccomp_epilogue clone_syscall"
  have tail: "exec ?tail (d 0) d =
      (if denied_number syscalls (d 0) then Some (SECCOMP_RET_ERRNO OR EPERM)
       else exec (seccomp_epilogue clone_syscall) (d 0) d)"
    by (simp only: exec_denied [OF *(1)] denied_number_def)
  have "exec ((if architecture = ''x64'' then seccomp_x32 else []) @ ?tail) (d 0) d =
      (if architecture = ''x64'' \<and> d 0 AND X32_SYSCALL_BIT \<noteq> 0 then Some (SECCOMP_RET_ERRNO OR EPERM)
       else exec ?tail (d 0) d)"
    by (cases "architecture = ''x64''") (simp_all only: exec_x32 if_True if_False append_Nil simp_thms)
  then have "exec program a d =
      (if d 4 \<noteq> audit then Some SECCOMP_RET_KILL_PROCESS
       else if architecture = ''x64'' \<and> d 0 AND X32_SYSCALL_BIT \<noteq> 0 then Some (SECCOMP_RET_ERRNO OR EPERM)
       else if denied_number syscalls (d 0) then Some (SECCOMP_RET_ERRNO OR EPERM)
       else exec (seccomp_epilogue clone_syscall) (d 0) d)"
    using tail by (simp only: *(2) exec_prologue)
  then show ?thesis
    unfolding exec_epilogue seccomp_policy_def Let_def by (simp only: if_distrib [of Some])
qed

end


section \<open>Properties\<close>

text \<open>C15: The filter implements its policy: for every supported architecture the compiled bytes read
  back as a program that returns, on every system call, exactly the verdict of the policy. A
  foreign architecture is killed; on x64 the x32 interface is refused; denied calls and clone
  with a namespace flag get EPERM; clone3 gets ENOSYS; everything else is allowed. This holds
  on every machine with the documented meaning of the four instructions.\<close>

theorem seccomp_filter_implements_policy:
  assumes "bpf_machine exec"
    and "compile_sandbox_seccomp_profile architecture = Inr bytes"
  shows "\<exists>audit syscalls clone_syscall.
           profile_architecture architecture = Some (audit, syscalls) \<and>
           map_of CLONE_SYSCALLS architecture = Some clone_syscall \<and>
           exec (decode_filter bytes) a d = Some (seccomp_policy architecture audit syscalls clone_syscall d)"
proof -
  obtain program where p: "seccomp_instructions architecture = Inr program"
    "decode_filter bytes = program"
    using assms(2) by (auto simp: compile_sandbox_seccomp_profile_def bind_sum_eq_Inr decode_encode)
  then obtain audit syscalls clone_syscall where
    "profile_architecture architecture = Some (audit, syscalls)"
    "map_of CLONE_SYSCALLS architecture = Some clone_syscall"
    by (auto simp: seccomp_instructions_def split: option.splits prod.splits)
  with bpf_machine.exec_policy [OF assms(1) p(1)] p(2) show ?thesis by blast
qed

lemma bpf_run_machine: "bpf_machine bpf_run"
  by (rule reference_machine.bpf_machine_axioms)

theorem seccomp_filter_implements_policy_witness:
  "\<exists>bytes. compile_sandbox_seccomp_profile ''arm64'' = Inr bytes \<and>
     bpf_run (decode_filter bytes) 0 (\<lambda>offset. if offset = 4 then 0xc00000b7 else if offset = 0 then 40 else 0) =
       Some (SECCOMP_RET_ERRNO OR EPERM)"
proof -
  have "is_ok (compile_sandbox_seccomp_profile ''arm64'')" by code_simp
  then obtain bytes where bytes: "compile_sandbox_seccomp_profile ''arm64'' = Inr bytes"
    by (auto simp: is_ok_iff)
  let ?d = "\<lambda>offset. if offset = 4 then 0xc00000b7 else if offset = 0 then 40 else (0 :: 32 word)"
  from seccomp_filter_implements_policy [OF bpf_run_machine bytes, of 0 ?d]
  obtain audit syscalls clone_syscall where *: "profile_architecture ''arm64'' = Some (audit, syscalls)"
    "bpf_run (decode_filter bytes) 0 ?d = Some (seccomp_policy ''arm64'' audit syscalls clone_syscall ?d)"
    by blast
  have "audit = 0xc00000b7" "syscalls = SYSCALLS_arm64"
    using *(1) by (simp_all add: profile_architecture_def AUDIT_ARCH_def SYSCALLS_def)
  moreover have "denied_number SYSCALLS_arm64 40"
    unfolding denied_number_def names_deny_def
    by (rule bexI [of _ "''mount''"]) (simp_all add: SYSCALLS_arm64_def SANDBOX_SECCOMP_DENIED_SYSCALLS_def)
  ultimately show ?thesis using bytes *(2) by (simp add: seccomp_policy_def)
qed

text \<open>Compilation succeeds exactly for the architectures with a syscall table: every denied name
  has a valid number in each table, and any other architecture is refused.\<close>

theorem seccomp_profile_supported_architectures:
  "is_ok (compile_sandbox_seccomp_profile architecture) \<longleftrightarrow>
     architecture \<in> {''x64'', ''arm64'', ''arm'', ''riscv64''}"
proof
  assume "is_ok (compile_sandbox_seccomp_profile architecture)"
  then have "profile_architecture architecture \<noteq> None"
    by (auto simp: compile_sandbox_seccomp_profile_def seccomp_instructions_def bind_sum_eq_Inr is_ok_iff
        split: option.splits)
  then show "architecture \<in> {''x64'', ''arm64'', ''arm'', ''riscv64''}"
    by (auto simp: profile_architecture_def SYSCALLS_def split: option.splits if_splits)
next
  have "is_ok (compile_sandbox_seccomp_profile ''x64'')" "is_ok (compile_sandbox_seccomp_profile ''arm64'')"
    "is_ok (compile_sandbox_seccomp_profile ''arm'')" "is_ok (compile_sandbox_seccomp_profile ''riscv64'')"
    by code_simp+
  then show "architecture \<in> {''x64'', ''arm64'', ''arm'', ''riscv64''} \<Longrightarrow>
      is_ok (compile_sandbox_seccomp_profile architecture)" by auto
qed

text \<open>The encoding loses nothing: reading the filter's bytes as consecutive little-endian
  \<open>sock_filter\<close> records gives back the instructions.\<close>

theorem seccomp_encoding_roundtrip: "decode_filter (concat (map encode_instruction program)) = program"
  by (rule decode_encode)

end
