(* ===== verification/Json.thy ===== *)
theory Json
  imports Prelude
begin

text \<open>
  Values of type \<open>unknown\<close>, as the validators of the program inspect them: the JSON values and
  \<open>undefined\<close>. An object is the association list of its own properties. The validators only
  test the type of a number and compare it with integers, so numbers are kept as \<open>int\<close>.
\<close>

datatype json =
    JUndefined | JNull | JBool bool | JNum int | JStr string | JArr "json list" | JObj "(string \<times> json) list"

text \<open>\<open>typeof value === "object" && value !== null\<close>, true of arrays as well\<close>

definition is_record :: "json \<Rightarrow> bool" where
  "is_record v = (case v of JArr _ \<Rightarrow> True | JObj _ \<Rightarrow> True | _ \<Rightarrow> False)"

text \<open>\<open>value.key\<close>: no validator reads a property that arrays have.\<close>

definition jget :: "json \<Rightarrow> string \<Rightarrow> json" where
  "jget v key =
     (case v of
        JObj fields \<Rightarrow> (case map_of fields key of None \<Rightarrow> JUndefined | Some x \<Rightarrow> x)
      | _ \<Rightarrow> JUndefined)"

definition is_string :: "json \<Rightarrow> bool" where
  "is_string v = (case v of JStr _ \<Rightarrow> True | _ \<Rightarrow> False)"

definition is_boolean :: "json \<Rightarrow> bool" where
  "is_boolean v = (case v of JBool _ \<Rightarrow> True | _ \<Rightarrow> False)"

definition is_array :: "json \<Rightarrow> bool" where
  "is_array v = (case v of JArr _ \<Rightarrow> True | _ \<Rightarrow> False)"

definition string_of :: "json \<Rightarrow> string option" where
  "string_of v = (case v of JStr s \<Rightarrow> Some s | _ \<Rightarrow> None)"

definition bool_of :: "json \<Rightarrow> bool option" where
  "bool_of v = (case v of JBool b \<Rightarrow> Some b | _ \<Rightarrow> None)"

definition array_of :: "json \<Rightarrow> json list option" where
  "array_of v = (case v of JArr vs \<Rightarrow> Some vs | _ \<Rightarrow> None)"

lemma string_of_eq_Some [simp]: "string_of v = Some s \<longleftrightarrow> v = JStr s"
  by (simp add: string_of_def split: json.split)

lemma is_string_iff: "is_string v \<longleftrightarrow> (\<exists>s. v = JStr s)"
  by (simp add: is_string_def split: json.split)

end
