(* ===== verification/SessionLifecycle.thy ===== *)
theory SessionLifecycle
  imports Errors
begin

text \<open>
  src/src/state/session/{types,guards,machine}.ts and src/src/session-lifecycle-classification.ts:
  the guards over observed facts, the state machine of the session lifecycle as data, and the
  projections that run it. The machine is executed by the XState library, which is not part of
  the repository: its operations are the fields of a record \<open>xstate\<close>, the locale
  \<open>xstate_documented\<close> states the documented behaviour the code relies on, and \<open>reference_xstate\<close>
  is an engine that has it.
\<close>

section \<open>Observations and context\<close>

datatype lifecycle_state =
  SActive | SParking | SParked | SCloseReady | SBlockedRecoverable | SDiscarded | SStaleInconsistent | SClosed

definition SESSION_LIFECYCLE_STATES :: "lifecycle_state list" where
  "SESSION_LIFECYCLE_STATES =
     [SActive, SParking, SParked, SCloseReady, SBlockedRecoverable, SDiscarded, SStaleInconsistent, SClosed]"

record lifecycle_blocker =
  lb_code :: string
  lb_classification :: "string option"

record lifecycle_observation =
  ob_session_state :: string
  ob_physical_state :: "string option"
  ob_close_readiness :: "string option"
  ob_blockers :: "lifecycle_blocker list option"
  ob_terminal_operation :: "string option"
  ob_age_suspicious :: "bool option"
  ob_gc_authorized :: "bool option"
  ob_phase :: "string option"

record persisted_state =
  ps_session_id :: string
  ps_state :: string
  ps_terminal_operation :: "string option"

text \<open>The context keeps the observation and what was persisted; no guard reads the evidence.\<close>

record machine_context =
  mc_persisted :: "persisted_state option"
  mc_observation :: lifecycle_observation

section \<open>Guards\<close>

definition AMBIGUOUS_CODES :: "string list" where
  "AMBIGUOUS_CODES =
     [''GIT_STATE_AMBIGUOUS'', ''PHYSICAL_OBSERVATION_UNAVAILABLE'', ''REPOSITORY_IDENTITY_AMBIGUOUS'',
      ''WORKTREE_IDENTITY_AMBIGUOUS'', ''GIT_COMMAND_FAILED'', ''GIT_SPAWN_FAILED'', ''GIT_TIMEOUT'',
      ''GIT_OUTPUT_LIMIT'', ''OWNERSHIP_MISMATCH'', ''DUPLICATE_WORKTREE_OWNERSHIP'',
      ''DUPLICATE_BRANCH_OWNERSHIP'', ''RECONCILIATION_DRIFT'', ''STALE_REGISTRY'']"

definition RECOVERABLE_CODES :: "string list" where
  "RECOVERABLE_CODES =
     [''DIRTY_WORKTREE'', ''NESTED_REPOSITORY'', ''RECOVERABLE_COMMITS'', ''RECOVERABLE_STASHES'',
      ''INTEGRATION_FETCH_FAILED'']"

definition STALE_PHYSICAL_STATES :: "string list" where
  "STALE_PHYSICAL_STATES =
     [''prunable-missing'', ''prunable-present'', ''registered-missing'', ''unregistered-missing'',
      ''unregistered-present'', ''invalid'', ''unavailable'']"

definition KNOWN_SESSION_STATES :: "string list" where
  "KNOWN_SESSION_STATES = [''new'', ''active'', ''closing'', ''closed'', ''stale'', ''parked'']"

definition KNOWN_PHYSICAL_STATES :: "string list" where
  "KNOWN_PHYSICAL_STATES = [''healthy'', ''closed''] @ STALE_PHYSICAL_STATES"

definition KNOWN_BLOCKER_CLASSIFICATIONS :: "string list" where
  "KNOWN_BLOCKER_CLASSIFICATIONS = [''recoverable'', ''ambiguous'', ''stale'']"

datatype blocker_kind = NoBlocker | Recoverable | Ambiguous

definition classify_observation_blockers :: "lifecycle_blocker list \<Rightarrow> blocker_kind" where
  "classify_observation_blockers blockers =
     (if list_ex (\<lambda>b. lb_classification b = Some ''ambiguous'' \<or> lb_code b \<in> set AMBIGUOUS_CODES) blockers
      then Ambiguous
      else if list_ex (\<lambda>b. lb_classification b = Some ''recoverable'' \<or> lb_code b \<in> set RECOVERABLE_CODES) blockers
      then Recoverable
      else NoBlocker)"

definition is_stale_physical_state :: "string option \<Rightarrow> bool" where
  "is_stale_physical_state s =
     (case s of None \<Rightarrow> True
      | Some p \<Rightarrow> p \<notin> set KNOWN_PHYSICAL_STATES \<or> p \<in> set STALE_PHYSICAL_STATES)"

definition has_unknown_blocker :: "lifecycle_blocker list \<Rightarrow> bool" where
  "has_unknown_blocker blockers =
     list_ex (\<lambda>b. lb_code b \<notin> set AMBIGUOUS_CODES \<and> lb_code b \<notin> set RECOVERABLE_CODES \<and>
        (case lb_classification b of None \<Rightarrow> True | Some c \<Rightarrow> c \<notin> set KNOWN_BLOCKER_CLASSIFICATIONS)) blockers"

definition blockers_of :: "lifecycle_observation \<Rightarrow> lifecycle_blocker list" where
  "blockers_of ob = (case ob_blockers ob of None \<Rightarrow> [] | Some bs \<Rightarrow> bs)"

definition close_readiness_of :: "lifecycle_observation \<Rightarrow> string" where
  "close_readiness_of ob = (case ob_close_readiness ob of None \<Rightarrow> ''not-evaluated'' | Some r \<Rightarrow> r)"

definition is_observation_stale_inconsistent :: "machine_context \<Rightarrow> bool" where
  "is_observation_stale_inconsistent context =
     (let current = mc_observation context;
          blockers = blockers_of current;
          close_readiness = close_readiness_of current;
          recoverability = classify_observation_blockers blockers;
          physical_evidence_required = (ob_session_state current \<noteq> ''closed'');
          ambiguous_readiness =
            (close_readiness = ''ambiguous'' \<or> (close_readiness = ''blocked'' \<and> blockers = [])) in
      ob_session_state current \<notin> set KNOWN_SESSION_STATES \<or>
      (physical_evidence_required \<and> is_stale_physical_state (ob_physical_state current)) \<or>
      has_unknown_blocker blockers \<or>
      list_ex (\<lambda>b. lb_classification b = Some ''stale'') blockers \<or>
      ambiguous_readiness \<or> recoverability = Ambiguous)"

definition has_explicit_discard_intent :: "machine_context \<Rightarrow> bool" where
  "has_explicit_discard_intent context \<longleftrightarrow>
     ob_terminal_operation (mc_observation context) = Some ''discard'' \<or>
     (case mc_persisted context of None \<Rightarrow> False | Some p \<Rightarrow> ps_terminal_operation p = Some ''discard'')"

definition is_observation_discarded :: "machine_context \<Rightarrow> bool" where
  "is_observation_discarded context = has_explicit_discard_intent context"

definition is_observation_closed :: "machine_context \<Rightarrow> bool" where
  "is_observation_closed context \<longleftrightarrow> ob_session_state (mc_observation context) = ''closed''"

definition is_observation_parked :: "machine_context \<Rightarrow> bool" where
  "is_observation_parked context \<longleftrightarrow>
     ob_session_state (mc_observation context) = ''parked'' \<or>
     (case mc_persisted context of None \<Rightarrow> False | Some p \<Rightarrow> ps_state p = ''parked'')"

definition is_observation_blocked_recoverable :: "machine_context \<Rightarrow> bool" where
  "is_observation_blocked_recoverable context \<longleftrightarrow>
     classify_observation_blockers (blockers_of (mc_observation context)) = Recoverable \<or>
     ob_close_readiness (mc_observation context) = Some ''external_evidence_required''"

definition is_observation_close_ready :: "machine_context \<Rightarrow> bool" where
  "is_observation_close_ready context \<longleftrightarrow>
     ob_phase (mc_observation context) = Some ''termination'' \<and>
     ob_close_readiness (mc_observation context) = Some ''ready''"

definition is_park_request_allowed :: "machine_context \<Rightarrow> bool" where
  "is_park_request_allowed context \<longleftrightarrow>
     ob_session_state (mc_observation context) = ''active'' \<and>
     (case mc_persisted context of None \<Rightarrow> True | Some p \<Rightarrow> ps_state p = ''active'')"

definition is_parked_close_allowed :: "machine_context \<Rightarrow> bool" where
  "is_parked_close_allowed context \<longleftrightarrow>
     \<not> is_observation_stale_inconsistent context \<and> \<not> is_observation_blocked_recoverable context"

definition has_gc_authorization :: "machine_context \<Rightarrow> bool" where
  "has_gc_authorization context \<longleftrightarrow> ob_gc_authorized (mc_observation context) = Some True"

definition is_destructive_gc_allowed :: "machine_context \<Rightarrow> bool" where
  "is_destructive_gc_allowed context \<longleftrightarrow>
     has_gc_authorization context \<and>
     \<not> (ob_age_suspicious (mc_observation context) = Some True \<and>
        ob_physical_state (mc_observation context) = Some ''healthy'')"

definition is_parked_gc_allowed :: "machine_context \<Rightarrow> bool" where
  "is_parked_gc_allowed context \<longleftrightarrow>
     \<not> is_observation_stale_inconsistent context \<and> \<not> is_observation_blocked_recoverable context \<and>
     is_observation_close_ready context \<and> is_destructive_gc_allowed context"

section \<open>Events, metadata and transitions\<close>

datatype event_type =
    EObserve | EClose | EDiscard | EDoctor | EReconcile | EGc | EPark | EParkFinalize | EResume
  | ECleanupRetry | ECleanupFinalize | EMarkStale

text \<open>A result event carries \<open>status\<close> and \<open>operationId\<close>; \<open>None\<close> is an id that is no string.\<close>

datatype machine_event =
    Observe lifecycle_observation
  | ParkFinalize string "string option"
  | Resume string "string option"
  | Plain event_type

definition event_type_of :: "machine_event \<Rightarrow> event_type" where
  "event_type_of e =
     (case e of Observe _ \<Rightarrow> EObserve | ParkFinalize _ _ \<Rightarrow> EParkFinalize | Resume _ _ \<Rightarrow> EResume
      | Plain t \<Rightarrow> t)"

text \<open>\<open>Plain\<close> is for the events without a payload.\<close>

definition event_ok :: "machine_event \<Rightarrow> bool" where
  "event_ok e \<longleftrightarrow> (case e of Plain t \<Rightarrow> t \<notin> {EObserve, EParkFinalize, EResume} | _ \<Rightarrow> True)"

datatype lifecycle_operation =
  OpClose | OpDiscard | OpInspect | OpDoctor | OpReconcile | OpGc | OpPark | OpResume

datatype transition_authority = AuthRegistry | AuthReconciliation | AuthGc | AuthCaller

datatype transition_reason =
    RObserve | RCloseProofRequired | RCloseAuthorized | RRecoverableWork | RExplicitDiscard
  | RPhysicalReconciliation | RAlreadyTerminal | RAgeIsNotAuthority | RDiscardedTerminal | RClosedTerminal
  | RParkRequested | RParked | RResumeAuthorized | RParkingInProgress | RSessionNotParked

record transition_metadata =
  tm_operation :: lifecycle_operation
  tm_allowed :: bool
  tm_target :: "lifecycle_state option"
  tm_requires_explicit_intent :: bool
  tm_authority :: transition_authority
  tm_reason :: transition_reason
  tm_forbidden_reason :: "transition_reason option"

datatype guard_name =
    GStaleInconsistent | GDiscarded | GClosed | GParked | GBlockedRecoverable | GCloseReady
  | GDestructiveGc | GParkRequest | GParkFinalization | GResumeResult | GParkedClose | GParkedGc | GForbidden

datatype action_name = UpdateObservation | RecordParkedState | RecordResumedState

datatype transition_target = ToState lifecycle_state | ToClassify | ToSelf

record transition_definition =
  td_target :: transition_target
  td_guard :: "guard_name option"
  td_action :: "action_name option"
  td_meta :: "transition_metadata option"

text \<open>\<open>value.trim().length > 0\<close>: a unit that is not white space.\<close>

definition js_whitespace :: "char \<Rightarrow> bool" where
  "js_whitespace c \<longleftrightarrow> of_char c \<in> {9, 10, 11, 12, 13, 32, 160 :: nat}"

definition nonblank :: "string option \<Rightarrow> bool" where
  "nonblank v = (case v of None \<Rightarrow> False | Some s \<Rightarrow> list_ex (\<lambda>c. \<not> js_whitespace c) s)"

definition eval_guard :: "guard_name \<Rightarrow> machine_context \<Rightarrow> machine_event \<Rightarrow> bool" where
  "eval_guard g context event =
     (case g of
        GStaleInconsistent \<Rightarrow> is_observation_stale_inconsistent context
      | GDiscarded \<Rightarrow> is_observation_discarded context
      | GClosed \<Rightarrow> is_observation_closed context
      | GParked \<Rightarrow> is_observation_parked context
      | GBlockedRecoverable \<Rightarrow> is_observation_blocked_recoverable context
      | GCloseReady \<Rightarrow> is_observation_close_ready context
      | GDestructiveGc \<Rightarrow> is_destructive_gc_allowed context
      | GParkRequest \<Rightarrow> is_park_request_allowed context
      | GParkFinalization \<Rightarrow>
          (case event of ParkFinalize status i \<Rightarrow> status = ''parked'' \<and> nonblank i | _ \<Rightarrow> False)
      | GResumeResult \<Rightarrow>
          (case event of Resume status i \<Rightarrow> status = ''resumed'' \<and> nonblank i | _ \<Rightarrow> False)
      | GParkedClose \<Rightarrow> is_parked_close_allowed context
      | GParkedGc \<Rightarrow> is_parked_gc_allowed context
      | GForbidden \<Rightarrow> False)"

definition record_state :: "string \<Rightarrow> machine_context \<Rightarrow> machine_context" where
  "record_state s context =
     context\<lparr>mc_observation := (mc_observation context)\<lparr>ob_session_state := s\<rparr>,
       mc_persisted := map_option (\<lambda>p. p\<lparr>ps_state := s\<rparr>) (mc_persisted context)\<rparr>"

definition apply_action :: "action_name \<Rightarrow> machine_context \<Rightarrow> machine_event \<Rightarrow> machine_context" where
  "apply_action a context event =
     (case a of
        UpdateObservation \<Rightarrow>
          (case event of Observe ob \<Rightarrow> context\<lparr>mc_observation := ob\<rparr> | _ \<Rightarrow> context)
      | RecordParkedState \<Rightarrow>
          (case event of ParkFinalize _ _ \<Rightarrow> record_state ''parked'' context | _ \<Rightarrow> context)
      | RecordResumedState \<Rightarrow>
          (case event of Resume _ _ \<Rightarrow> record_state ''active'' context | _ \<Rightarrow> context))"

definition operation_metadata ::
  "lifecycle_operation \<Rightarrow> bool \<Rightarrow> lifecycle_state option \<Rightarrow> bool \<Rightarrow> transition_authority \<Rightarrow>
   transition_reason \<Rightarrow> transition_reason option \<Rightarrow> transition_metadata" where
  "operation_metadata operation allowed target requires authority reason forbidden =
     \<lparr>tm_operation = operation, tm_allowed = allowed, tm_target = target,
      tm_requires_explicit_intent = requires, tm_authority = authority, tm_reason = reason,
      tm_forbidden_reason = forbidden\<rparr>"

definition allowed_transition :: "lifecycle_state \<Rightarrow> transition_metadata \<Rightarrow> transition_definition" where
  "allowed_transition target meta =
     \<lparr>td_target = ToState target, td_guard = None, td_action = None, td_meta = Some meta\<rparr>"

definition self_transition :: "transition_metadata \<Rightarrow> transition_definition" where
  "self_transition meta = \<lparr>td_target = ToSelf, td_guard = None, td_action = None, td_meta = Some meta\<rparr>"

definition forbidden_transition :: "transition_metadata \<Rightarrow> transition_definition" where
  "forbidden_transition meta =
     \<lparr>td_target = ToSelf, td_guard = Some GForbidden, td_action = None, td_meta = Some meta\<rparr>"

definition guarded_transition ::
  "lifecycle_state \<Rightarrow> guard_name \<Rightarrow> action_name option \<Rightarrow> transition_metadata \<Rightarrow> transition_definition" where
  "guarded_transition target guard action meta =
     \<lparr>td_target = ToState target, td_guard = Some guard, td_action = action, td_meta = Some meta\<rparr>"

text \<open>\<open>cleanupRetryTransition\<close> and \<open>cleanupFinalizeTransition\<close>\<close>

definition cleanup_transition :: transition_definition where
  "cleanup_transition = \<lparr>td_target = ToSelf, td_guard = None, td_action = None, td_meta = None\<rparr>"

definition mark_stale_transition :: transition_definition where
  "mark_stale_transition =
     \<lparr>td_target = ToState SStaleInconsistent, td_guard = None, td_action = None, td_meta = None\<rparr>"

definition observe_transition :: transition_definition where
  "observe_transition =
     \<lparr>td_target = ToClassify, td_guard = None, td_action = Some UpdateObservation,
      td_meta = Some (operation_metadata OpInspect True None False AuthRegistry RObserve None)\<rparr>"

type_synonym transition_map = "(event_type \<times> transition_definition list) list"

definition observation_transitions :: "lifecycle_state \<Rightarrow> transition_map" where
  "observation_transitions state =
     [(EObserve, [observe_transition]),
      (EDoctor, [self_transition (operation_metadata OpDoctor True (Some state) False AuthReconciliation RObserve None)]),
      (EReconcile,
        [self_transition (operation_metadata OpReconcile True (Some state) False AuthReconciliation RObserve None)])]"

definition SESSION_OPERATION_EVENT_TYPES :: "(lifecycle_operation \<times> event_type) list" where
  "SESSION_OPERATION_EVENT_TYPES =
     [(OpClose, EClose), (OpDiscard, EDiscard), (OpInspect, EObserve), (OpDoctor, EDoctor),
      (OpReconcile, EReconcile), (OpGc, EGc), (OpPark, EPark), (OpResume, EResume)]"

section \<open>The machine\<close>

definition active_transitions :: transition_map where
  "active_transitions =
     observation_transitions SActive @
     [(EClose, [allowed_transition SCloseReady (operation_metadata OpClose True (Some SCloseReady) False AuthRegistry RCloseProofRequired None)]),
      (EDiscard, [allowed_transition SDiscarded (operation_metadata OpDiscard True (Some SDiscarded) True AuthCaller RExplicitDiscard None)]),
      (EGc, [forbidden_transition (operation_metadata OpGc False None False AuthGc RAgeIsNotAuthority None)]),
      (EPark, [guarded_transition SParking GParkRequest None (operation_metadata OpPark True (Some SParking) True AuthCaller RParkRequested (Some RSessionNotParked))]),
      (EParkFinalize, [forbidden_transition (operation_metadata OpPark False None False AuthRegistry RParkRequested None)]),
      (EResume, [forbidden_transition (operation_metadata OpResume False None True AuthCaller RSessionNotParked None)]),
      (ECleanupRetry, [cleanup_transition]),
      (ECleanupFinalize, [cleanup_transition]),
      (EMarkStale, [mark_stale_transition])]"

definition parking_transitions :: transition_map where
  "parking_transitions =
     observation_transitions SParking @
     [(EPark, [forbidden_transition (operation_metadata OpPark False None True AuthCaller RParkingInProgress None)]),
      (EParkFinalize, [guarded_transition SParked GParkFinalization (Some RecordParkedState) (operation_metadata OpPark True (Some SParked) False AuthRegistry RParked (Some RParkingInProgress)), forbidden_transition (operation_metadata OpPark False None False AuthRegistry RParkingInProgress None)]),
      (EResume, [forbidden_transition (operation_metadata OpResume False None True AuthCaller RParkingInProgress None)]),
      (EClose, [forbidden_transition (operation_metadata OpClose False None True AuthCaller RParkingInProgress None)]),
      (EDiscard, [forbidden_transition (operation_metadata OpDiscard False None True AuthCaller RParkingInProgress None)]),
      (EGc, [forbidden_transition (operation_metadata OpGc False None False AuthGc RParkingInProgress None)])]"

definition parked_transitions :: transition_map where
  "parked_transitions =
     observation_transitions SParked @
     [(EPark, [self_transition (operation_metadata OpPark True (Some SParked) True AuthRegistry RParked None)]),
      (EParkFinalize, [forbidden_transition (operation_metadata OpPark False None False AuthRegistry RParked None)]),
      (EResume, [guarded_transition SActive GResumeResult (Some RecordResumedState) (operation_metadata OpResume True (Some SActive) True AuthCaller RResumeAuthorized (Some RSessionNotParked)), forbidden_transition (operation_metadata OpResume False None True AuthCaller RSessionNotParked None)]),
      (EClose, [guarded_transition SCloseReady GParkedClose None (operation_metadata OpClose True (Some SCloseReady) False AuthRegistry RCloseProofRequired (Some RRecoverableWork))]),
      (EDiscard, [allowed_transition SDiscarded (operation_metadata OpDiscard True (Some SDiscarded) True AuthCaller RExplicitDiscard None)]),
      (EGc, [guarded_transition SClosed GParkedGc None (operation_metadata OpGc True (Some SClosed) False AuthGc RCloseAuthorized (Some RAgeIsNotAuthority))])]"

definition close_ready_transitions :: transition_map where
  "close_ready_transitions =
     observation_transitions SCloseReady @
     [(EClose, [allowed_transition SClosed (operation_metadata OpClose True (Some SClosed) False AuthRegistry RCloseAuthorized None)]),
      (EDiscard, [allowed_transition SDiscarded (operation_metadata OpDiscard True (Some SDiscarded) True AuthCaller RExplicitDiscard None)]),
      (EGc, [guarded_transition SClosed GDestructiveGc None (operation_metadata OpGc True (Some SClosed) False AuthGc RCloseAuthorized (Some RAgeIsNotAuthority))]),
      (EPark, [forbidden_transition (operation_metadata OpPark False None True AuthCaller RSessionNotParked None)]),
      (EParkFinalize, [forbidden_transition (operation_metadata OpPark False None False AuthRegistry RParkRequested None)]),
      (EResume, [forbidden_transition (operation_metadata OpResume False None True AuthCaller RSessionNotParked None)]),
      (ECleanupRetry, [cleanup_transition]),
      (ECleanupFinalize, [cleanup_transition]),
      (EMarkStale, [mark_stale_transition])]"

definition blocked_recoverable_transitions :: transition_map where
  "blocked_recoverable_transitions =
     observation_transitions SBlockedRecoverable @
     [(EClose, [forbidden_transition (operation_metadata OpClose False None False AuthRegistry RRecoverableWork None)]),
      (EDiscard, [allowed_transition SDiscarded (operation_metadata OpDiscard True (Some SDiscarded) True AuthCaller RExplicitDiscard None)]),
      (EGc, [forbidden_transition (operation_metadata OpGc False None False AuthGc RRecoverableWork None)]),
      (EPark, [forbidden_transition (operation_metadata OpPark False None True AuthCaller RSessionNotParked None)]),
      (EParkFinalize, [forbidden_transition (operation_metadata OpPark False None False AuthRegistry RParkRequested None)]),
      (EResume, [forbidden_transition (operation_metadata OpResume False None True AuthCaller RSessionNotParked None)]),
      (ECleanupRetry, [cleanup_transition]),
      (ECleanupFinalize, [cleanup_transition]),
      (EMarkStale, [mark_stale_transition])]"

definition discarded_transitions :: transition_map where
  "discarded_transitions =
     observation_transitions SDiscarded @
     [(EClose, [forbidden_transition (operation_metadata OpClose False None False AuthRegistry RDiscardedTerminal None)]),
      (EDiscard, [self_transition (operation_metadata OpDiscard True (Some SDiscarded) True AuthCaller RDiscardedTerminal None)]),
      (EGc, [forbidden_transition (operation_metadata OpGc False None False AuthGc RDiscardedTerminal (Some RAgeIsNotAuthority))]),
      (EPark, [forbidden_transition (operation_metadata OpPark False None True AuthCaller RDiscardedTerminal None)]),
      (EParkFinalize, [forbidden_transition (operation_metadata OpPark False None False AuthRegistry RDiscardedTerminal None)]),
      (EResume, [forbidden_transition (operation_metadata OpResume False None True AuthCaller RSessionNotParked None)])]"

definition stale_inconsistent_transitions :: transition_map where
  "stale_inconsistent_transitions =
     observation_transitions SStaleInconsistent @
     [(EClose, [forbidden_transition (operation_metadata OpClose False None False AuthReconciliation RPhysicalReconciliation None)]),
      (EDiscard, [forbidden_transition (operation_metadata OpDiscard False None True AuthReconciliation RPhysicalReconciliation None)]),
      (EGc, [forbidden_transition (operation_metadata OpGc False None False AuthReconciliation RPhysicalReconciliation (Some RAgeIsNotAuthority))]),
      (EPark, [forbidden_transition (operation_metadata OpPark False None True AuthCaller RPhysicalReconciliation None)]),
      (EParkFinalize, [forbidden_transition (operation_metadata OpPark False None False AuthRegistry RPhysicalReconciliation None)]),
      (EResume, [forbidden_transition (operation_metadata OpResume False None True AuthCaller RPhysicalReconciliation None)]),
      (ECleanupRetry, [cleanup_transition]),
      (ECleanupFinalize, [cleanup_transition])]"

definition closed_transitions :: transition_map where
  "closed_transitions =
     observation_transitions SClosed @
     [(EClose, [self_transition (operation_metadata OpClose True (Some SClosed) False AuthRegistry RClosedTerminal None)]),
      (EDiscard, [forbidden_transition (operation_metadata OpDiscard False None True AuthRegistry RClosedTerminal None)]),
      (EGc, [forbidden_transition (operation_metadata OpGc False None False AuthGc RClosedTerminal (Some RAgeIsNotAuthority))]),
      (EPark, [forbidden_transition (operation_metadata OpPark False None True AuthCaller RClosedTerminal None)]),
      (EParkFinalize, [forbidden_transition (operation_metadata OpPark False None False AuthRegistry RClosedTerminal None)]),
      (EResume, [forbidden_transition (operation_metadata OpResume False None True AuthCaller RSessionNotParked None)])]"

definition transitions_on :: "lifecycle_state \<Rightarrow> transition_map" where
  "transitions_on state =
     (case state of
        SActive \<Rightarrow> active_transitions
      | SParking \<Rightarrow> parking_transitions
      | SParked \<Rightarrow> parked_transitions
      | SCloseReady \<Rightarrow> close_ready_transitions
      | SBlockedRecoverable \<Rightarrow> blocked_recoverable_transitions
      | SDiscarded \<Rightarrow> discarded_transitions
      | SStaleInconsistent \<Rightarrow> stale_inconsistent_transitions
      | SClosed \<Rightarrow> closed_transitions)"

definition transition_definitions :: "lifecycle_state \<Rightarrow> event_type \<Rightarrow> transition_definition list" where
  "transition_definitions state event =
     (case map_of (transitions_on state) event of None \<Rightarrow> [] | Some ds \<Rightarrow> ds)"

text \<open>The routing node \<open>classify\<close>: its eventless transitions in order, the last one unguarded.\<close>

definition classify_always :: "(guard_name option \<times> lifecycle_state) list" where
  "classify_always =
     [(Some GStaleInconsistent, SStaleInconsistent), (Some GDiscarded, SDiscarded), (Some GClosed, SClosed),
      (Some GParked, SParked), (Some GBlockedRecoverable, SBlockedRecoverable),
      (Some GCloseReady, SCloseReady), (None, SActive)]"

section \<open>The state machine library\<close>

datatype machine_node = Classify | StateNode lifecycle_state

type_synonym machine_snapshot = "machine_node \<times> machine_context"

text \<open>
  The operations of XState that the projections call: \<open>createActor(machine, {input}).start()\<close>,
  the same from a snapshot made by \<open>resolveState\<close>, \<open>getTransitionData\<close>, \<open>snapshot.can\<close> and
  \<open>actor.send\<close> followed by \<open>getSnapshot\<close>.
\<close>

record xstate =
  xs_start :: "machine_context \<Rightarrow> machine_snapshot"
  xs_resume :: "lifecycle_state \<Rightarrow> machine_context \<Rightarrow> machine_snapshot"
  xs_transition_data :: "machine_snapshot \<Rightarrow> machine_event \<Rightarrow> transition_definition list"
  xs_can :: "machine_snapshot \<Rightarrow> machine_event \<Rightarrow> bool"
  xs_send :: "machine_snapshot \<Rightarrow> machine_event \<Rightarrow> machine_snapshot"

definition guard_holds :: "guard_name option \<Rightarrow> machine_context \<Rightarrow> machine_event \<Rightarrow> bool" where
  "guard_holds g context event = (case g of None \<Rightarrow> True | Some n \<Rightarrow> eval_guard n context event)"

text \<open>The eventless transitions of \<open>classify\<close>: the first whose guard holds is taken.\<close>

definition settled :: "machine_context \<Rightarrow> machine_event \<Rightarrow> machine_node" where
  "settled context event =
     (case find (\<lambda>(g, _). guard_holds g context event) classify_always of
        None \<Rightarrow> Classify | Some (_, s) \<Rightarrow> StateNode s)"

definition enabled_transitions ::
  "machine_node \<Rightarrow> machine_context \<Rightarrow> machine_event \<Rightarrow> transition_definition list" where
  "enabled_transitions node context event =
     (case node of
        Classify \<Rightarrow> []
      | StateNode s \<Rightarrow>
          (case find (\<lambda>d. guard_holds (td_guard d) context event)
                  (transition_definitions s (event_type_of event)) of
             None \<Rightarrow> [] | Some d \<Rightarrow> [d]))"

definition taken_transition ::
  "transition_definition \<Rightarrow> machine_node \<Rightarrow> machine_context \<Rightarrow> machine_event \<Rightarrow> machine_snapshot" where
  "taken_transition d node context event =
     (let context' = (case td_action d of None \<Rightarrow> context | Some a \<Rightarrow> apply_action a context event) in
      case td_target d of
        ToState s \<Rightarrow> (StateNode s, context')
      | ToSelf \<Rightarrow> (node, context')
      | ToClassify \<Rightarrow> (settled context' event, context'))"

text \<open>No guard of \<open>classify\<close> reads the event, so the event of the initial step is immaterial.\<close>

lemma settled_event: "settled context event = settled context event'"
  by (simp add: settled_def classify_always_def guard_holds_def eval_guard_def)

locale xstate_documented =
  fixes X :: xstate
  assumes start_settles: "xs_start X context = (settled context (Observe (mc_observation context)), context)"
    and resume_restores: "xs_resume X s context = (StateNode s, context)"
    and data_first_enabled: "xs_transition_data X (node, context) event = enabled_transitions node context event"
    and can_iff_enabled: "xs_can X snap event \<longleftrightarrow> xs_transition_data X snap event \<noteq> []"
    and send_disabled: "xs_transition_data X snap event = [] \<Longrightarrow> xs_send X snap event = snap"
    and send_enabled: "xs_transition_data X (node, context) event = [d] \<Longrightarrow>
                       xs_send X (node, context) event = taken_transition d node context event"

definition reference_send :: "machine_snapshot \<Rightarrow> machine_event \<Rightarrow> machine_snapshot" where
  "reference_send snap event =
     (case snap of (node, context) \<Rightarrow>
        (case enabled_transitions node context event of
           [] \<Rightarrow> snap | d # _ \<Rightarrow> taken_transition d node context event))"

definition reference_xstate :: xstate where
  "reference_xstate =
     \<lparr>xs_start = (\<lambda>context. (settled context (Observe (mc_observation context)), context)),
      xs_resume = (\<lambda>s context. (StateNode s, context)),
      xs_transition_data = (\<lambda>(node, context) event. enabled_transitions node context event),
      xs_can = (\<lambda>(node, context) event. enabled_transitions node context event \<noteq> []),
      xs_send = reference_send\<rparr>"

interpretation reference_engine: xstate_documented reference_xstate
  by unfold_locales (auto simp: reference_xstate_def reference_send_def split: list.splits)

section \<open>Projecting one event\<close>

record machine_input =
  mi_persisted :: "persisted_state option"
  mi_observation :: lifecycle_observation

definition context_for_input :: "machine_input \<Rightarrow> machine_context" where
  "context_for_input input = \<lparr>mc_persisted = mi_persisted input, mc_observation = mi_observation input\<rparr>"

record lifecycle_transition =
  lt_operation :: lifecycle_operation
  lt_allowed :: bool
  lt_target :: "lifecycle_state option"
  lt_requires_explicit_intent :: bool
  lt_authority :: transition_authority
  lt_reason :: transition_reason

record transition_projection = lifecycle_transition +
  lt_event_type :: event_type

text \<open>\<open>throw new Error(message)\<close> is \<open>Inl message\<close>.\<close>

definition operational_state :: "machine_node \<Rightarrow> string + lifecycle_state" where
  "operational_state node =
     (case node of
        Classify \<Rightarrow> Inl ''Session lifecycle machine exposed an internal state-node id with no public vocabulary mapping''
      | StateNode s \<Rightarrow> Inr s)"

definition transition_metadata_of :: "transition_definition option \<Rightarrow> string + transition_metadata" where
  "transition_metadata_of d =
     (case Option.bind d td_meta of
        None \<Rightarrow> Inl ''Session lifecycle machine transition is missing semantic metadata''
      | Some m \<Rightarrow> Inr m)"

definition first_of :: "'a list \<Rightarrow> 'a option" where
  "first_of xs = (case xs of [] \<Rightarrow> None | x # _ \<Rightarrow> Some x)"

definition reject_reason :: "transition_metadata \<Rightarrow> transition_reason" where
  "reject_reason m = (case tm_forbidden_reason m of None \<Rightarrow> tm_reason m | Some r \<Rightarrow> r)"

definition project_session_lifecycle_event ::
  "xstate \<Rightarrow> machine_input \<Rightarrow> machine_event \<Rightarrow> lifecycle_state option \<Rightarrow> string + transition_projection" where
  "project_session_lifecycle_event X input event initial_operational_state =
     (let context = context_for_input input;
          initial = (case initial_operational_state of
                       None \<Rightarrow> xs_start X context | Some s \<Rightarrow> xs_resume X s context) in
      bind_sum (operational_state (fst initial)) (\<lambda>initial_state.
      let definitions = transition_definitions initial_state (event_type_of event);
          accepted = xs_can X initial event;
          enabled_definitions = xs_transition_data X initial event;
          definition_taken = first_of (if accepted then enabled_definitions else definitions) in
      bind_sum (transition_metadata_of definition_taken) (\<lambda>metadata.
      bind_sum (if accepted
                then map_sum id Some (operational_state (fst (xs_send X initial event)))
                else Inr None) (\<lambda>target.
      Inr \<lparr>lt_operation = tm_operation metadata, lt_allowed = accepted, lt_target = target,
           lt_requires_explicit_intent = tm_requires_explicit_intent metadata,
           lt_authority = tm_authority metadata,
           lt_reason = (if accepted then tm_reason metadata else reject_reason metadata),
           lt_event_type = event_type_of event\<rparr>))))"

definition event_for :: "machine_input \<Rightarrow> lifecycle_operation \<Rightarrow> machine_event" where
  "event_for input operation =
     (case operation of
        OpInspect \<Rightarrow> Observe (mi_observation input)
      | OpClose \<Rightarrow> Plain EClose
      | OpDiscard \<Rightarrow> Plain EDiscard
      | OpDoctor \<Rightarrow> Plain EDoctor
      | OpReconcile \<Rightarrow> Plain EReconcile
      | OpGc \<Rightarrow> Plain EGc
      | OpPark \<Rightarrow> Plain EPark
      | OpResume \<Rightarrow> Resume ''resumed'' (Some ''projection''))"

definition project_machine_transition ::
  "xstate \<Rightarrow> machine_input \<Rightarrow> lifecycle_operation \<Rightarrow> string + transition_projection" where
  "project_machine_transition X input operation =
     project_session_lifecycle_event X input (event_for input operation) None"

record machine_projection =
  mp_state :: lifecycle_state
  mp_transitions :: "(lifecycle_operation \<times> transition_projection) list"

definition project_session_lifecycle_machine :: "xstate \<Rightarrow> machine_input \<Rightarrow> string + machine_projection" where
  "project_session_lifecycle_machine X input =
     bind_sum (operational_state (fst (xs_start X (context_for_input input)))) (\<lambda>state.
     bind_sum (map_sum_list
         (\<lambda>operation. map_sum id (Pair operation) (project_machine_transition X input operation))
         (map fst SESSION_OPERATION_EVENT_TYPES)) (\<lambda>transitions.
     Inr \<lparr>mp_state = state, mp_transitions = transitions\<rparr>))"

section \<open>Classification\<close>

record lifecycle_classification =
  lc_state :: lifecycle_state
  lc_session_state :: string
  lc_physical_state :: "string option"
  lc_close_readiness :: string
  lc_blockers :: "lifecycle_blocker list"
  lc_recoverability :: blocker_kind
  lc_age_suspicious :: bool
  lc_gc_authorized :: bool
  lc_destructive_cleanup_eligible :: bool
  lc_transitions :: "lifecycle_transition list"

definition normalize_observation ::
  "lifecycle_observation \<Rightarrow> lifecycle_blocker list \<Rightarrow> lifecycle_observation" where
  "normalize_observation observation blockers =
     observation\<lparr>ob_blockers := Some blockers,
       ob_close_readiness := Some (close_readiness_of observation),
       ob_age_suspicious := Some (ob_age_suspicious observation = Some True),
       ob_gc_authorized := Some (ob_gc_authorized observation = Some True),
       ob_phase := Some (case ob_phase observation of None \<Rightarrow> ''current'' | Some p \<Rightarrow> p)\<rparr>"

definition classify_session_lifecycle :: "xstate \<Rightarrow> lifecycle_observation \<Rightarrow> string + lifecycle_classification" where
  "classify_session_lifecycle X observation =
     (let blockers = blockers_of observation in
      bind_sum (project_session_lifecycle_machine X
          \<lparr>mi_persisted = None, mi_observation = normalize_observation observation blockers\<rparr>) (\<lambda>projection.
      Inr \<lparr>lc_state = mp_state projection, lc_session_state = ob_session_state observation,
           lc_physical_state = ob_physical_state observation,
           lc_close_readiness = close_readiness_of observation, lc_blockers = blockers,
           lc_recoverability = classify_observation_blockers blockers,
           lc_age_suspicious = (ob_age_suspicious observation = Some True),
           lc_gc_authorized = (ob_gc_authorized observation = Some True),
           lc_destructive_cleanup_eligible =
             (case map_of (mp_transitions projection) OpGc of None \<Rightarrow> False | Some t \<Rightarrow> lt_allowed t),
           lc_transitions = map (lifecycle_transition.truncate \<circ> snd) (mp_transitions projection)\<rparr>))"

definition lifecycle_transition_of ::
  "lifecycle_classification \<Rightarrow> lifecycle_operation \<Rightarrow> string + lifecycle_transition" where
  "lifecycle_transition_of classification operation =
     (case find (\<lambda>t. lt_operation t = operation) (lc_transitions classification) of
        None \<Rightarrow> Inl ''Unsupported lifecycle operation'' | Some t \<Rightarrow> Inr t)"

definition available_lifecycle_operations :: "lifecycle_classification \<Rightarrow> lifecycle_operation list" where
  "available_lifecycle_operations classification =
     map lt_operation (filter lt_allowed (lc_transitions classification))"

section \<open>The static table\<close>

datatype static_projection =
    Unconditional lifecycle_transition
  | Guarded (gt_operation: lifecycle_operation) (gt_requires: bool) (gt_authority: transition_authority)
      (gt_accept_target: lifecycle_state) (gt_accept_reason: transition_reason)
      (gt_reject_reason: transition_reason)

definition is_context_dependent_guard :: "transition_definition option \<Rightarrow> bool" where
  "is_context_dependent_guard d =
     (case Option.bind d td_guard of None \<Rightarrow> False | Some g \<Rightarrow> g \<noteq> GForbidden)"

definition project_unconditional_transition ::
  "lifecycle_operation \<Rightarrow> lifecycle_state \<Rightarrow> transition_metadata \<Rightarrow> lifecycle_transition" where
  "project_unconditional_transition operation state metadata =
     \<lparr>lt_operation = operation, lt_allowed = tm_allowed metadata,
      lt_target = (if tm_allowed metadata
                   then Some (case tm_target metadata of None \<Rightarrow> state | Some t \<Rightarrow> t) else None),
      lt_requires_explicit_intent = tm_requires_explicit_intent metadata,
      lt_authority = tm_authority metadata,
      lt_reason = (if tm_allowed metadata then tm_reason metadata else reject_reason metadata)\<rparr>"

definition project_guarded_transition ::
  "lifecycle_operation \<Rightarrow> transition_metadata \<Rightarrow> string + static_projection" where
  "project_guarded_transition operation metadata =
     (case tm_forbidden_reason metadata of
        None \<Rightarrow> Inl ''transition depends on a context guard but declares no forbiddenReason for its rejection branch''
      | Some rejected \<Rightarrow>
          (case tm_target metadata of
             None \<Rightarrow> Inl ''transition depends on a context guard but declares no target for its acceptance branch''
           | Some target \<Rightarrow>
               Inr (Guarded operation (tm_requires_explicit_intent metadata) (tm_authority metadata)
                      target (tm_reason metadata) rejected)))"

definition project_table_entry :: "lifecycle_state \<Rightarrow> lifecycle_operation \<times> event_type \<Rightarrow> string + static_projection" where
  "project_table_entry state entry =
     (let d = first_of (transition_definitions state (snd entry)) in
      bind_sum (transition_metadata_of d) (\<lambda>metadata.
        if is_context_dependent_guard d then project_guarded_transition (fst entry) metadata
        else Inr (Unconditional (project_unconditional_transition (fst entry) state metadata))))"

definition project_session_lifecycle_transition_table ::
  "string + (lifecycle_state \<times> static_projection list) list" where
  "project_session_lifecycle_transition_table =
     map_sum_list (\<lambda>state. map_sum id (Pair state)
         (map_sum_list (project_table_entry state) SESSION_OPERATION_EVENT_TYPES))
       SESSION_LIFECYCLE_STATES"


section \<open>Facts about the engine\<close>

definition classified_state :: "machine_context \<Rightarrow> lifecycle_state" where
  "classified_state context =
     (if is_observation_stale_inconsistent context then SStaleInconsistent
      else if is_observation_discarded context then SDiscarded
      else if is_observation_closed context then SClosed
      else if is_observation_parked context then SParked
      else if is_observation_blocked_recoverable context then SBlockedRecoverable
      else if is_observation_close_ready context then SCloseReady
      else SActive)"

lemma settled_eq: "settled context event = StateNode (classified_state context)"
  by (simp add: settled_def classify_always_def guard_holds_def eval_guard_def classified_state_def)

lemma classified_not_parking: "classified_state context \<noteq> SParking"
  by (simp add: classified_state_def)

lemma operational_state_StateNode [simp]: "operational_state (StateNode s) = Inr s"
  by (simp add: operational_state_def)

lemma first_of_simps [simp]: "first_of [] = None" "first_of (x # xs) = Some x"
  by (simp_all add: first_of_def)

lemmas transition_tables =
  transition_definitions_def transitions_on_def active_transitions_def parking_transitions_def
  parked_transitions_def close_ready_transitions_def blocked_recoverable_transitions_def
  discarded_transitions_def stale_inconsistent_transitions_def closed_transitions_def
  observation_transitions_def observe_transition_def self_transition_def forbidden_transition_def
  allowed_transition_def guarded_transition_def cleanup_transition_def mark_stale_transition_def
  operation_metadata_def

lemmas guard_rules = guard_holds_def eval_guard_def

definition projection_of ::
  "lifecycle_state \<Rightarrow> machine_context \<Rightarrow> machine_event \<Rightarrow> transition_metadata \<Rightarrow> lifecycle_state option \<Rightarrow>
   transition_projection" where
  "projection_of s context event m target =
     \<lparr>lt_operation = tm_operation m, lt_allowed = (target \<noteq> None), lt_target = target,
      lt_requires_explicit_intent = tm_requires_explicit_intent m, lt_authority = tm_authority m,
      lt_reason = (if target \<noteq> None then tm_reason m else reject_reason m),
      lt_event_type = event_type_of event\<rparr>"

definition target_state :: "transition_definition \<Rightarrow> lifecycle_state \<Rightarrow> machine_context \<Rightarrow> machine_event \<Rightarrow> lifecycle_state" where
  "target_state d s context event =
     (case td_target d of
        ToState t \<Rightarrow> t
      | ToSelf \<Rightarrow> s
      | ToClassify \<Rightarrow>
          classified_state (case td_action d of None \<Rightarrow> context | Some a \<Rightarrow> apply_action a context event))"

lemma fst_taken_transition:
  "fst (taken_transition d (StateNode s) context event) = StateNode (target_state d s context event)"
  by (simp add: taken_transition_def target_state_def settled_eq Let_def split: transition_target.split)

definition operation_event :: "lifecycle_operation \<Rightarrow> event_type" where
  "operation_event op =
     (case op of OpClose \<Rightarrow> EClose | OpDiscard \<Rightarrow> EDiscard | OpInspect \<Rightarrow> EObserve | OpDoctor \<Rightarrow> EDoctor
      | OpReconcile \<Rightarrow> EReconcile | OpGc \<Rightarrow> EGc | OpPark \<Rightarrow> EPark | OpResume \<Rightarrow> EResume)"

lemma event_type_of_event_for: "event_type_of (event_for input op) = operation_event op"
  by (simp add: event_type_of_def event_for_def operation_event_def split: lifecycle_operation.split)

lemma all_operations: "op \<in> set (map fst SESSION_OPERATION_EVENT_TYPES)"
  by (cases op) (simp_all add: SESSION_OPERATION_EVENT_TYPES_def)

text \<open>Every state answers every operation with definitions that carry that operation's metadata.\<close>

lemma operation_definitions:
  "transition_definitions s (operation_event op) \<noteq> []"
  "d \<in> set (transition_definitions s (operation_event op)) \<Longrightarrow> \<exists>m. td_meta d = Some m \<and> tm_operation m = op"
  by (cases s; cases op; simp add: transition_tables operation_event_def)
     (cases s; cases op; auto simp: transition_tables operation_event_def)

definition classification_input :: "lifecycle_observation \<Rightarrow> machine_input" where
  "classification_input ob = \<lparr>mi_persisted = None, mi_observation = normalize_observation ob (blockers_of ob)\<rparr>"

definition context_of_observation :: "lifecycle_observation \<Rightarrow> machine_context" where
  "context_of_observation ob = context_for_input (classification_input ob)"

context xstate_documented
begin

lemma project_event_eq:
  "project_session_lifecycle_event X input event initial =
     (let context = context_for_input input;
          s = (case initial of None \<Rightarrow> classified_state context | Some s \<Rightarrow> s);
          ds = transition_definitions s (event_type_of event) in
      case find (\<lambda>d. guard_holds (td_guard d) context event) ds of
        Some d \<Rightarrow> map_sum id (\<lambda>m. projection_of s context event m (Some (target_state d s context event)))
                   (transition_metadata_of (Some d))
      | None \<Rightarrow> map_sum id (\<lambda>m. projection_of s context event m None) (transition_metadata_of (first_of ds)))"
proof -
  define ctx where "ctx = context_for_input input"
  define s where "s = (case initial of None \<Rightarrow> classified_state ctx | Some s \<Rightarrow> s)"
  have start: "(case initial of None \<Rightarrow> xs_start X ctx | Some s \<Rightarrow> xs_resume X s ctx) =
      (StateNode s, ctx)"
    by (simp add: s_def start_settles resume_restores settled_eq split: option.split)
  show ?thesis
  proof (cases "find (\<lambda>d. guard_holds (td_guard d) ctx event)
      (transition_definitions s (event_type_of event))")
    case None
    then have "xs_transition_data X (StateNode s, ctx) event = []"
      by (simp add: data_first_enabled enabled_transitions_def)
    then show ?thesis
      using None
      by (simp add: project_session_lifecycle_event_def start Let_def can_iff_enabled
          projection_of_def bind_sum_def split: sum.split flip: ctx_def s_def)
  next
    case (Some d)
    then have "xs_transition_data X (StateNode s, ctx) event = [d]"
      by (simp add: data_first_enabled enabled_transitions_def)
    then show ?thesis
      using Some
      by (simp add: project_session_lifecycle_event_def start Let_def can_iff_enabled send_enabled
          fst_taken_transition projection_of_def bind_sum_def split: sum.split flip: ctx_def s_def)
  qed
qed

text \<open>An event whose definitions all carry metadata is projected without an internal error.\<close>

lemma project_event_returns:
  assumes "s = (case initial of None \<Rightarrow> classified_state (context_for_input input) | Some s \<Rightarrow> s)"
    and "transition_definitions s (event_type_of e) \<noteq> []"
    and "\<And>d. d \<in> set (transition_definitions s (event_type_of e)) \<Longrightarrow> \<exists>m. td_meta d = Some m \<and> P m"
  shows "\<exists>t m. project_session_lifecycle_event X input e initial = Inr t \<and> P m \<and>
     lt_operation t = tm_operation m \<and> (lt_allowed t \<longleftrightarrow> lt_target t \<noteq> None)"
proof -
  obtain d ds where ds: "transition_definitions s (event_type_of e) = d # ds"
    using assms(2) by (meson list.exhaust)
  show ?thesis
  proof (cases "find (\<lambda>d. guard_holds (td_guard d) (context_for_input input) e) (d # ds)")
    case None
    then show ?thesis
      using assms(3) [of d]
      by (auto simp: project_event_eq Let_def projection_of_def ds transition_metadata_of_def
          simp flip: assms(1) simp del: find.simps)
  next
    case (Some d')
    then have "d' \<in> set (transition_definitions s (event_type_of e))"
      by (metis find_Some_iff in_set_conv_nth ds)
    then show ?thesis
      using assms(3) [of d'] Some
      by (auto simp: project_event_eq Let_def projection_of_def ds transition_metadata_of_def
          simp flip: assms(1) simp del: find.simps)
  qed
qed

lemma project_operation_eq:
  "\<exists>t. project_machine_transition X input operation = Inr t \<and> lt_operation t = operation \<and>
     (lt_allowed t \<longleftrightarrow> lt_target t \<noteq> None)"
  using project_event_returns [where s = "classified_state (context_for_input input)" and initial = None
      and input = input and e = "event_for input operation" and P = "\<lambda>m. tm_operation m = operation"]
    operation_definitions
  by (auto simp: project_machine_transition_def event_type_of_event_for)

lemma project_machine_eq:
  "\<exists>ts. project_session_lifecycle_machine X input =
      Inr \<lparr>mp_state = classified_state (context_for_input input), mp_transitions = ts\<rparr> \<and>
    map fst ts = map fst SESSION_OPERATION_EVENT_TYPES \<and>
    (\<forall>(op, t)\<in>set ts. project_machine_transition X input op = Inr t)"
proof -
  have "\<exists>ts. map_sum_list (\<lambda>operation. map_sum id (Pair operation) (project_machine_transition X input operation)) ops
      = Inr ts \<and> map fst ts = ops \<and> (\<forall>(op, t)\<in>set ts. project_machine_transition X input op = Inr t)" for ops
  proof (induction ops)
    case (Cons op ops)
    then show ?case
      using project_operation_eq [of input op] by fastforce
  qed simp
  then obtain ts where "map_sum_list (\<lambda>operation. map_sum id (Pair operation)
        (project_machine_transition X input operation)) (map fst SESSION_OPERATION_EVENT_TYPES) = Inr ts"
      "map fst ts = map fst SESSION_OPERATION_EVENT_TYPES"
      "\<forall>(op, t)\<in>set ts. project_machine_transition X input op = Inr t"
    by blast
  then show ?thesis
    by (auto simp: project_session_lifecycle_machine_def start_settles settled_eq)
qed

lemma classify_eq:
  "\<exists>c ts. classify_session_lifecycle X ob = Inr c \<and>
    lc_state c = classified_state (context_of_observation ob) \<and>
    lc_transitions c = map (lifecycle_transition.truncate \<circ> snd) ts \<and>
    map fst ts = map fst SESSION_OPERATION_EVENT_TYPES \<and>
    (\<forall>(op, t)\<in>set ts. project_machine_transition X (classification_input ob) op = Inr t) \<and>
    lc_destructive_cleanup_eligible c =
      (case map_of ts OpGc of None \<Rightarrow> False | Some t \<Rightarrow> lt_allowed t) \<and>
    lc_session_state c = ob_session_state ob \<and> lc_physical_state c = ob_physical_state ob"
  using project_machine_eq [of "classification_input ob"]
  by (auto simp: classify_session_lifecycle_def Let_def classification_input_def context_of_observation_def)

lemma lifecycle_transition_of_eq:
  assumes "classify_session_lifecycle X ob = Inr c"
  obtains t where "project_machine_transition X (classification_input ob) op = Inr t"
    and "lifecycle_transition_of c op = Inr (lifecycle_transition.truncate t)"
    and "lt_operation t = op" and "lt_allowed t \<longleftrightarrow> lt_target t \<noteq> None"
proof -
  obtain ts where ts: "lc_transitions c = map (lifecycle_transition.truncate \<circ> snd) ts"
      "map fst ts = map fst SESSION_OPERATION_EVENT_TYPES"
      "\<And>o' t. (o', t) \<in> set ts \<Longrightarrow> project_machine_transition X (classification_input ob) o' = Inr t"
    using classify_eq [of ob] assms by force
  have op: "op' \<in> fst ` set ts" for op'
    using ts(2) by (metis all_operations list.set_map)
  have fstop: "lt_operation (lifecycle_transition.truncate t) = o'" if "(o', t) \<in> set ts" for o' t
    using ts(3) [OF that] project_operation_eq [of "classification_input ob" o']
    by (auto simp: lifecycle_transition.truncate_def)
  obtain t where t: "project_machine_transition X (classification_input ob) op = Inr t"
      "lt_operation t = op" "lt_allowed t \<longleftrightarrow> lt_target t \<noteq> None"
    using project_operation_eq [of "classification_input ob" op] by blast
  have "find (\<lambda>t. lt_operation t = op) (lc_transitions c) = Some (lifecycle_transition.truncate t)"
  proof -
    have "find (\<lambda>t. lt_operation t = op) (map (lifecycle_transition.truncate \<circ> snd) us) =
        (if op \<in> fst ` set us then Some (lifecycle_transition.truncate t) else None)"
      if "set us \<subseteq> set ts" for us
      using that
    proof (induction us)
      case (Cons u us)
      obtain o' t' where u: "u = (o', t')"
        by (cases u)
      then have "(o', t') \<in> set ts"
        using Cons.prems by auto
      with Cons u show ?case
        using fstop [of o' t'] ts(3) [of o' t'] t by (auto split: if_splits)
    qed simp
    then show ?thesis
      using op [of op] by (simp add: ts(1))
  qed
  then show thesis
    using t that by (simp add: lifecycle_transition_of_def)
qed

end


section \<open>Classification is total\<close>

text \<open>C34: On every observation classifySessionLifecycle returns (no internal error is thrown), never
  with the transient state parking, and lifecycleTransition finds exactly the entry of each of the
  eight operations, whose target is null precisely when the operation is not allowed.\<close>

theorem lifecycle_classification_total:
  assumes "xstate_documented X"
  shows "\<exists>c. classify_session_lifecycle X ob = Inr c \<and> lc_state c \<noteq> SParking \<and>
    length (lc_transitions c) = 8 \<and>
    (\<forall>op. \<exists>t. lifecycle_transition_of c op = Inr t \<and> lt_operation t = op \<and>
       (lt_allowed t \<longleftrightarrow> lt_target t \<noteq> None))"
proof -
  obtain c and ts :: "(lifecycle_operation \<times> transition_projection) list"
    where c: "classify_session_lifecycle X ob = Inr c"
      "lc_state c = classified_state (context_of_observation ob)"
      "lc_transitions c = map (lifecycle_transition.truncate \<circ> snd) ts"
      "map fst ts = map fst SESSION_OPERATION_EVENT_TYPES"
    using xstate_documented.classify_eq [OF assms, of ob] by blast
  have "length (lc_transitions c) = 8"
    using c(3) arg_cong [OF c(4), of length] by (simp add: SESSION_OPERATION_EVENT_TYPES_def)
  moreover have "\<exists>t. lifecycle_transition_of c op = Inr t \<and> lt_operation t = op \<and>
       (lt_allowed t \<longleftrightarrow> lt_target t \<noteq> None)" for op
    by (rule xstate_documented.lifecycle_transition_of_eq [OF assms c(1), of op])
       (simp add: lifecycle_transition.truncate_def)
  ultimately show ?thesis
    using c by (simp add: classified_not_parking)
qed

definition dirty_observation :: lifecycle_observation where
  "dirty_observation =
     \<lparr>ob_session_state = ''active'', ob_physical_state = Some ''healthy'', ob_close_readiness = Some ''blocked'',
      ob_blockers = Some [\<lparr>lb_code = ''DIRTY_WORKTREE'', lb_classification = None\<rparr>],
      ob_terminal_operation = None, ob_age_suspicious = Some True, ob_gc_authorized = Some True,
      ob_phase = Some ''termination''\<rparr>"

lemma lifecycle_classification_total_witness:
  "\<exists>c. classify_session_lifecycle reference_xstate dirty_observation = Inr c \<and> lc_state c \<noteq> SParking"
  using lifecycle_classification_total [OF reference_engine.xstate_documented_axioms, of dirty_observation]
  by blast

lemmas operation_projection_rules =
  xstate_documented.project_event_eq project_machine_transition_def event_for_def event_type_of_def
  transition_tables guard_rules transition_metadata_of_def projection_of_def target_state_def
  apply_action_def reject_reason_def lifecycle_transition.defs

section \<open>Garbage collection needs authority and proof\<close>

lemma gc_projection:
  assumes "xstate_documented X" and "project_machine_transition X input OpGc = Inr t"
  shows "lt_allowed t \<longleftrightarrow>
    (classified_state (context_for_input input) = SCloseReady \<and> is_destructive_gc_allowed (context_for_input input)) \<or>
    (classified_state (context_for_input input) = SParked \<and> is_parked_gc_allowed (context_for_input input))"
  using assms
  by (cases "classified_state (context_for_input input)")
     (auto simp: operation_projection_rules Let_def split: if_splits)

lemma eligible_gc_transition:
  assumes "xstate_documented X" and "classify_session_lifecycle X ob = Inr c"
    and "lc_destructive_cleanup_eligible c"
  shows "lc_state c = classified_state (context_of_observation ob) \<and>
    (\<exists>t. project_machine_transition X (classification_input ob) OpGc = Inr t \<and> lt_allowed t \<and>
         lifecycle_transition_of c OpGc = Inr (lifecycle_transition.truncate t))"
proof -
  obtain ts where ts: "\<forall>(op, t)\<in>set ts. project_machine_transition X (classification_input ob) op = Inr t"
      "lc_destructive_cleanup_eligible c = (case map_of ts OpGc of None \<Rightarrow> False | Some t \<Rightarrow> lt_allowed t)"
      "lc_state c = classified_state (context_of_observation ob)"
    using xstate_documented.classify_eq [OF assms(1), of ob] assms(2) by force
  then obtain t where t: "(OpGc, t) \<in> set ts" "lt_allowed t"
    using assms(3) by (auto split: option.splits dest: map_of_SomeD)
  obtain t' where t': "project_machine_transition X (classification_input ob) OpGc = Inr t'"
      "lifecycle_transition_of c OpGc = Inr (lifecycle_transition.truncate t')"
    by (rule xstate_documented.lifecycle_transition_of_eq [OF assms(1,2), of OpGc])
  moreover have "t' = t"
    using t(1) t'(1) ts(1) by auto
  ultimately show ?thesis
    using t(2) ts(3) by blast
qed

lemma observed_facts:
  "ob_gc_authorized (mc_observation (context_of_observation ob)) = Some (ob_gc_authorized ob = Some True)"
  "ob_age_suspicious (mc_observation (context_of_observation ob)) = Some (ob_age_suspicious ob = Some True)"
  "ob_physical_state (mc_observation (context_of_observation ob)) = ob_physical_state ob"
  "ob_session_state (mc_observation (context_of_observation ob)) = ob_session_state ob"
  "ob_terminal_operation (mc_observation (context_of_observation ob)) = ob_terminal_operation ob"
  "ob_phase (mc_observation (context_of_observation ob)) =
     Some (case ob_phase ob of None \<Rightarrow> ''current'' | Some p \<Rightarrow> p)"
  "ob_close_readiness (mc_observation (context_of_observation ob)) = Some (close_readiness_of ob)"
  "blockers_of (mc_observation (context_of_observation ob)) = blockers_of ob"
  "mc_persisted (context_of_observation ob) = None"
  by (simp_all add: context_of_observation_def context_for_input_def classification_input_def
      normalize_observation_def blockers_of_def)

lemma close_ready_observed:
  "is_observation_close_ready (context_of_observation ob) \<longleftrightarrow>
     ob_phase ob = Some ''termination'' \<and> ob_close_readiness ob = Some ''ready''"
  by (simp add: is_observation_close_ready_def observed_facts close_readiness_of_def split: option.split)

lemma destructive_gc_observed:
  "is_destructive_gc_allowed (context_of_observation ob) \<longleftrightarrow> ob_gc_authorized ob = Some True \<and>
     \<not> (ob_age_suspicious ob = Some True \<and> ob_physical_state ob = Some ''healthy'')"
  by (auto simp: is_destructive_gc_allowed_def has_gc_authorization_def observed_facts)

lemma no_blocker_observed:
  assumes "\<not> is_observation_stale_inconsistent (context_of_observation ob)"
    and "\<not> is_observation_blocked_recoverable (context_of_observation ob)"
  shows "classify_observation_blockers (blockers_of ob) = NoBlocker"
proof (cases "classify_observation_blockers (blockers_of ob)")
  case Recoverable
  then show ?thesis
    using assms(2) by (simp add: is_observation_blocked_recoverable_def observed_facts)
next
  case Ambiguous
  then show ?thesis
    using assms(1) by (simp add: is_observation_stale_inconsistent_def observed_facts Let_def)
qed

lemma discard_intent_observed:
  "is_observation_discarded (context_of_observation ob) \<longleftrightarrow> ob_terminal_operation ob = Some ''discard''"
  by (simp add: is_observation_discarded_def has_explicit_discard_intent_def observed_facts)

definition ready_observation :: lifecycle_observation where
  "ready_observation =
     \<lparr>ob_session_state = ''active'', ob_physical_state = Some ''healthy'', ob_close_readiness = Some ''ready'',
      ob_blockers = None, ob_terminal_operation = None, ob_age_suspicious = None,
      ob_gc_authorized = Some True, ob_phase = Some ''termination''\<rparr>"

lemma ready_observation_eligible:
  "\<exists>c. classify_session_lifecycle reference_xstate ready_observation = Inr c \<and> lc_destructive_cleanup_eligible c"
proof -
  have "case classify_session_lifecycle reference_xstate ready_observation of
      Inl _ \<Rightarrow> False | Inr c \<Rightarrow> lc_destructive_cleanup_eligible c"
    by code_simp
  then show ?thesis
    by (auto split: sum.splits)
qed

text \<open>C17: Destructive cleanup is offered only with independent GC authority, never for a healthy worktree
  that is merely old, and only for a session whose termination was evaluated and found ready, with no
  recoverable or ambiguous blocker; the operation then leads to closed.\<close>

theorem gc_requires_authority_and_proof:
  assumes "xstate_documented X" and "classify_session_lifecycle X ob = Inr c"
    and "lc_destructive_cleanup_eligible c"
  shows "ob_gc_authorized ob = Some True \<and>
    \<not> (ob_age_suspicious ob = Some True \<and> ob_physical_state ob = Some ''healthy'') \<and>
    ob_phase ob = Some ''termination'' \<and> ob_close_readiness ob = Some ''ready'' \<and>
    classify_observation_blockers (blockers_of ob) = NoBlocker \<and>
    ob_terminal_operation ob \<noteq> Some ''discard'' \<and> lc_state c \<in> {SCloseReady, SParked} \<and>
    (\<exists>t. lifecycle_transition_of c OpGc = Inr t \<and> lt_target t = Some SClosed)"
proof -
  let ?ctx = "context_of_observation ob"
  obtain ts t where state: "lc_state c = classified_state ?ctx"
    and t: "project_machine_transition X (classification_input ob) OpGc = Inr t" "lt_allowed t"
    and find: "lifecycle_transition_of c OpGc = Inr (lifecycle_transition.truncate t)"
    using eligible_gc_transition [OF assms] by blast
  have gc: "(classified_state ?ctx = SCloseReady \<and> is_destructive_gc_allowed ?ctx) \<or>
      (classified_state ?ctx = SParked \<and> is_parked_gc_allowed ?ctx)"
    using gc_projection [OF assms(1) t(1)] t(2) by (simp add: context_of_observation_def)
  then have proof_facts: "\<not> is_observation_stale_inconsistent ?ctx" "\<not> is_observation_discarded ?ctx"
      "\<not> is_observation_blocked_recoverable ?ctx" "is_observation_close_ready ?ctx"
      "is_destructive_gc_allowed ?ctx"
    by (auto simp: classified_state_def is_parked_gc_allowed_def split: if_splits)
  have "lt_target t = Some SClosed"
    using t gc assms(1)
    by (auto simp: operation_projection_rules Let_def context_of_observation_def)
  then have "\<exists>t. lifecycle_transition_of c OpGc = Inr t \<and> lt_target t = Some SClosed"
    using find by (simp add: lifecycle_transition.truncate_def)
  then show ?thesis
    using proof_facts gc state no_blocker_observed [OF proof_facts(1,3)]
    by (auto simp: close_ready_observed destructive_gc_observed discard_intent_observed)
qed

lemma gc_requires_authority_and_proof_witness:
  "\<exists>c. classify_session_lifecycle reference_xstate ready_observation = Inr c \<and> lc_state c \<in> {SCloseReady, SParked}"
proof -
  obtain c where c: "classify_session_lifecycle reference_xstate ready_observation = Inr c"
      "lc_destructive_cleanup_eligible c"
    using ready_observation_eligible by blast
  show ?thesis
    using gc_requires_authority_and_proof [OF reference_engine.xstate_documented_axioms c] c(1) by blast
qed


section \<open>The static table describes every run\<close>

definition entry_describes :: "static_projection \<Rightarrow> lifecycle_transition \<Rightarrow> bool" where
  "entry_describes entry t =
     (case entry of
        Unconditional u \<Rightarrow> t = u
      | Guarded operation requires authority target accepted rejected \<Rightarrow>
          lt_operation t = operation \<and> lt_requires_explicit_intent t = requires \<and> lt_authority t = authority \<and>
          (if lt_allowed t then lt_target t = Some target \<and> lt_reason t = accepted
           else lt_target t = None \<and> lt_reason t = rejected))"

lemma same_observation [simp]:
  "context_for_input input\<lparr>mc_observation := mi_observation input\<rparr> = context_for_input input"
  by (simp add: context_for_input_def)

lemma table_entry_describes:
  assumes "xstate_documented X" and "project_machine_transition X input op = Inr t"
    and "classified_state (context_for_input input) = s"
  shows "\<exists>entry. project_table_entry s (op, operation_event op) = Inr entry \<and>
    entry_describes entry (lifecycle_transition.truncate t)"
  using assms
  by (cases s; cases op)
     (auto simp: operation_projection_rules Let_def project_table_entry_def operation_event_def
       is_context_dependent_guard_def project_guarded_transition_def project_unconditional_transition_def
       entry_describes_def split: if_splits)

lemma operation_event_types: "map_of SESSION_OPERATION_EVENT_TYPES op = Some (operation_event op)"
  by (cases op) (simp_all add: SESSION_OPERATION_EVENT_TYPES_def operation_event_def)

lemma operation_event_table:
  "SESSION_OPERATION_EVENT_TYPES = map (\<lambda>op. (op, operation_event op)) (map fst SESSION_OPERATION_EVENT_TYPES)"
  by (simp add: SESSION_OPERATION_EVENT_TYPES_def operation_event_def)

lemma table_rows:
  "\<exists>table. project_session_lifecycle_transition_table = Inr table \<and>
     (\<forall>s. \<exists>row. map_of table s = Some row \<and>
        map_sum_list (project_table_entry s) SESSION_OPERATION_EVENT_TYPES = Inr row)"
proof -
  have "is_ok project_session_lifecycle_transition_table"
    by code_simp
  then obtain table where table: "project_session_lifecycle_transition_table = Inr table"
    by (auto simp: is_ok_def split: sum.splits)
  have rows: "map_sum_list (\<lambda>s. map_sum id (Pair s) (f s)) ss = Inr tbl \<Longrightarrow> s \<in> set ss \<Longrightarrow>
      \<exists>row. map_of tbl s = Some row \<and> f s = Inr row"
    for f :: "lifecycle_state \<Rightarrow> string + static_projection list" and ss tbl s
  proof (induction ss arbitrary: tbl)
    case (Cons s' ss)
    then show ?case
      by (cases "f s'") (auto split: sum.splits)
  qed simp
  have "s \<in> set SESSION_LIFECYCLE_STATES" for s
    by (cases s) (simp_all add: SESSION_LIFECYCLE_STATES_def)
  with rows [OF table [unfolded project_session_lifecycle_transition_table_def]] table show ?thesis
    by blast
qed

text \<open>C16: The exported transition table is truthful: it is built without an internal error, has a row for
  every lifecycle state, and whatever observation is classified into that state, each operation's verdict is
  the table's unconditional entry, or the branch of its guarded entry that the verdict selects.\<close>

theorem static_transition_table_truthful:
  assumes "xstate_documented X" and "classify_session_lifecycle X ob = Inr c"
  shows "\<exists>table row. project_session_lifecycle_transition_table = Inr table \<and>
    map_of table (lc_state c) = Some row \<and> list_all2 entry_describes row (lc_transitions c)"
proof -
  obtain ts where ts: "lc_transitions c = map (lifecycle_transition.truncate \<circ> snd) ts"
      "map fst ts = map fst SESSION_OPERATION_EVENT_TYPES"
      "\<forall>(op, t)\<in>set ts. project_machine_transition X (classification_input ob) op = Inr t"
      "lc_state c = classified_state (context_for_input (classification_input ob))"
    using xstate_documented.classify_eq [OF assms(1), of ob] assms(2)
    by (force simp: context_of_observation_def)
  have "map_sum_list (project_table_entry (lc_state c)) (map (\<lambda>op. (op, operation_event op)) (map fst us)) = Inr row
      \<Longrightarrow> set us \<subseteq> set ts \<Longrightarrow>
      list_all2 entry_describes row (map (lifecycle_transition.truncate \<circ> snd) us)" for us row
  proof (induction us arbitrary: row)
    case (Cons u us)
    obtain op t where u: "u = (op, t)"
      by (cases u)
    with Cons.prems(2) ts(3) have "project_machine_transition X (classification_input ob) op = Inr t"
      by auto
    from table_entry_describes [OF assms(1) this ts(4) [symmetric]] Cons u show ?case
      by (auto split: sum.splits)
  qed simp
  from this [of ts] table_rows ts(1,2) operation_event_table show ?thesis
    by (metis order_refl)
qed

lemma static_transition_table_truthful_witness:
  "\<exists>table row. project_session_lifecycle_transition_table = Inr table \<and> map_of table SCloseReady = Some row"
proof -
  have "case classify_session_lifecycle reference_xstate ready_observation of
      Inl _ \<Rightarrow> False | Inr c \<Rightarrow> lc_state c = SCloseReady"
    by code_simp
  then obtain c where c: "classify_session_lifecycle reference_xstate ready_observation = Inr c"
      "lc_state c = SCloseReady"
    by (auto split: sum.splits)
  show ?thesis
    using static_transition_table_truthful [OF reference_engine.xstate_documented_axioms c(1)] c(2) by auto
qed

section \<open>Runs of the machine\<close>

inductive machine_run :: "xstate \<Rightarrow> machine_snapshot \<Rightarrow> machine_snapshot \<Rightarrow> bool" for X where
  run_refl: "machine_run X snap snap"
| run_step: "machine_run X snap snap' \<Longrightarrow> event_ok event \<Longrightarrow> machine_run X snap (xs_send X snap' event)"

lemma machine_run_invariant:
  assumes "machine_run X snap snap'" and "P snap"
    and "\<And>s event. P s \<Longrightarrow> event_ok event \<Longrightarrow> P (xs_send X s event)"
  shows "P snap'"
  using assms by (induction rule: machine_run.induct) auto

definition next_node :: "lifecycle_state \<Rightarrow> machine_context \<Rightarrow> machine_event \<Rightarrow> machine_snapshot" where
  "next_node s context event =
     (case find (\<lambda>d. guard_holds (td_guard d) context event) (transition_definitions s (event_type_of event)) of
        None \<Rightarrow> (StateNode s, context)
      | Some d \<Rightarrow> taken_transition d (StateNode s) context event)"

lemma send_eq:
  assumes "xstate_documented X"
  shows "xs_send X (StateNode s, context) event = next_node s context event"
proof (cases "enabled_transitions (StateNode s) context event")
  case Nil
  then show ?thesis
    using xstate_documented.send_disabled [OF assms, of "(StateNode s, context)" event]
    by (auto simp: xstate_documented.data_first_enabled [OF assms] enabled_transitions_def next_node_def
        split: option.splits)
next
  case (Cons d ds)
  then have "enabled_transitions (StateNode s) context event = [d]"
      "find (\<lambda>d. guard_holds (td_guard d) context event) (transition_definitions s (event_type_of event)) = Some d"
    by (auto simp: enabled_transitions_def split: option.splits)
  then show ?thesis
    using xstate_documented.send_enabled [OF assms, of "StateNode s" "context" event d]
    by (simp add: xstate_documented.data_first_enabled [OF assms] next_node_def)
qed

lemmas next_node_rules =
  next_node_def taken_transition_def settled_eq transition_tables guard_rules event_type_of_def
  apply_action_def record_state_def Let_def event_ok_def

definition discard_recorded :: "machine_snapshot \<Rightarrow> bool" where
  "discard_recorded snap \<longleftrightarrow>
     fst snap \<in> {StateNode SDiscarded, StateNode SStaleInconsistent} \<and>
     (\<exists>p. mc_persisted (snd snap) = Some p \<and> ps_terminal_operation p = Some ''discard'')"

lemma discard_classified:
  assumes "mc_persisted context = Some p" and "ps_terminal_operation p = Some ''discard''"
  shows "classified_state context \<in> {SDiscarded, SStaleInconsistent}"
  using assms by (simp add: classified_state_def is_observation_discarded_def has_explicit_discard_intent_def)

lemma discard_observed:
  assumes "mc_persisted ctx = Some p" and "ps_terminal_operation p = Some ''discard''"
    and "classified_state (ctx\<lparr>mc_observation := ob\<rparr>) \<noteq> SStaleInconsistent"
  shows "classified_state (ctx\<lparr>mc_observation := ob\<rparr>) = SDiscarded"
  using discard_classified [of "ctx\<lparr>mc_observation := ob\<rparr>" p] assms by simp

lemma discard_recorded_step:
  assumes "xstate_documented X" and "discard_recorded snap" and "event_ok event"
  shows "discard_recorded (xs_send X snap event)"
proof -
  obtain s ctx p where snap: "snap = (StateNode s, ctx)" "s \<in> {SDiscarded, SStaleInconsistent}"
      and p: "mc_persisted ctx = Some p" "ps_terminal_operation p = Some ''discard''"
    using assms(2) by (cases snap) (auto simp: discard_recorded_def)
  have "discard_recorded (next_node s ctx event)"
    using snap(2) p assms(3)
    by (cases event; cases "event_type_of event")
       (auto simp: next_node_rules discard_recorded_def intro: discard_observed)
  then show ?thesis
    by (simp add: snap(1) send_eq [OF assms(1)])
qed

text \<open>Once the registry has persisted the intent to discard a session, no sequence of events, new
  observations included, brings the machine out of discarded or stale-inconsistent.\<close>

theorem discard_intent_is_permanent:
  assumes "xstate_documented X" and "mi_persisted input = Some p"
    and "ps_terminal_operation p = Some ''discard''"
    and "machine_run X (xs_start X (context_for_input input)) snap"
  shows "fst snap \<in> {StateNode SDiscarded, StateNode SStaleInconsistent}"
proof -
  have start: "discard_recorded (xs_start X (context_for_input input))"
    using assms(2,3) discard_classified [of "context_for_input input" p]
    by (simp add: xstate_documented.start_settles [OF assms(1)] settled_eq discard_recorded_def
        context_for_input_def)
  have "discard_recorded snap"
    using assms(4) start discard_recorded_step [OF assms(1)] by (rule machine_run_invariant)
  then show ?thesis
    by (simp add: discard_recorded_def)
qed


definition discarded_input :: machine_input where
  "discarded_input =
     \<lparr>mi_persisted = Some \<lparr>ps_session_id = ''s'', ps_state = ''active'', ps_terminal_operation = Some ''discard''\<rparr>,
      mi_observation = ready_observation\<rparr>"

lemma discard_intent_is_permanent_witness:
  "fst (xs_send reference_xstate (xs_start reference_xstate (context_for_input discarded_input))
     (Observe dirty_observation)) \<in> {StateNode SDiscarded, StateNode SStaleInconsistent}"
  using discard_intent_is_permanent [OF reference_engine.xstate_documented_axioms _ _
      run_step [OF run_refl, of "Observe dirty_observation"], of discarded_input]
  by (simp add: discarded_input_def event_ok_def)

text \<open>A session that is being parked stays so, whatever is requested: the only ways out are a new
  observation, or a finalization that carries the status parked and a non-blank operation id, which ends
  in parked and records that state in the observation and in the persisted view.\<close>

theorem parking_left_only_by_result:
  assumes "xstate_documented X" and "event_ok event"
    and "fst (xs_send X (StateNode SParking, context) event) \<noteq> StateNode SParking"
  shows "(\<exists>ob. event = Observe ob) \<or>
    (\<exists>operation_id. event = ParkFinalize ''parked'' operation_id \<and> nonblank operation_id \<and>
       xs_send X (StateNode SParking, context) event = (StateNode SParked, record_state ''parked'' context))"
  using assms(2,3)
  by (cases event; cases "event_type_of event")
     (auto simp: send_eq [OF assms(1)] next_node_rules split: if_splits)

lemma parking_left_only_by_result_witness:
  "xs_send reference_xstate (StateNode SParking, context_for_input discarded_input)
      (ParkFinalize ''parked'' (Some ''op-1'')) =
    (StateNode SParked, record_state ''parked'' (context_for_input discarded_input))"
proof -
  have "nonblank (Some ''op-1'')"
    by code_simp
  then have "fst (xs_send reference_xstate (StateNode SParking, context_for_input discarded_input)
      (ParkFinalize ''parked'' (Some ''op-1''))) \<noteq> StateNode SParking"
    by (simp add: send_eq [OF reference_engine.xstate_documented_axioms] next_node_rules)
  then show ?thesis
    using parking_left_only_by_result [OF reference_engine.xstate_documented_axioms,
      of "ParkFinalize ''parked'' (Some ''op-1'')" "context_for_input discarded_input"]
    by (simp add: event_ok_def)
qed

end
