(* ===== verification/SessionParking.thy ===== *)
theory SessionParking
  imports SessionLifecycle Json
begin

text \<open>
  src/src/session-parking.ts: the v1 compatibility projection of park and resume requests. The
  input and the event are untrusted values that are validated before the lifecycle machine runs;
  SESSION_PARKING_TRANSITION_TABLE is the static matrix that machine.ts derives for it.
\<close>

section \<open>Validation\<close>

definition close_readiness_values :: "string list" where
  "close_readiness_values =
     [''ready'', ''blocked'', ''ambiguous'', ''external_evidence_required'', ''not-evaluated'']"

definition string_among :: "string list \<Rightarrow> json \<Rightarrow> bool" where
  "string_among allowed v = (v = JUndefined \<or> (case v of JStr s \<Rightarrow> s \<in> set allowed | _ \<Rightarrow> False))"

definition valid_blocker :: "json \<Rightarrow> bool" where
  "valid_blocker b \<longleftrightarrow>
     is_record b \<and> is_string (jget b ''code'') \<and>
     string_among [''recoverable'', ''ambiguous'', ''stale''] (jget b ''classification'')"

definition valid_observation :: "json \<Rightarrow> bool" where
  "valid_observation v \<longleftrightarrow>
     is_record v \<and> is_string (jget v ''sessionState'') \<and>
     (jget v ''physicalState'' = JUndefined \<or> is_string (jget v ''physicalState'')) \<and>
     string_among close_readiness_values (jget v ''closeReadiness'') \<and>
     string_among [''discard''] (jget v ''terminalOperation'') \<and>
     (jget v ''ageSuspicious'' = JUndefined \<or> is_boolean (jget v ''ageSuspicious'')) \<and>
     (jget v ''gcAuthorized'' = JUndefined \<or> is_boolean (jget v ''gcAuthorized'')) \<and>
     string_among [''current'', ''termination''] (jget v ''phase'') \<and>
     (case jget v ''blockers'' of
        JUndefined \<Rightarrow> True | JArr bs \<Rightarrow> list_all valid_blocker bs | _ \<Rightarrow> False)"

definition valid_operational_state :: "json \<Rightarrow> bool" where
  "valid_operational_state v \<longleftrightarrow> v \<in> {JStr ''active'', JStr ''parking'', JStr ''parked''}"

definition plain_event_names :: "(string \<times> event_type) list" where
  "plain_event_names =
     [(''SESSION.PARK.REQUESTED'', EPark), (''SESSION.CLOSE.REQUESTED'', EClose),
      (''SESSION.DISCARD.REQUESTED'', EDiscard), (''SESSION.DOCTOR.REQUESTED'', EDoctor),
      (''SESSION.RECONCILE.REQUESTED'', EReconcile), (''SESSION.GC.REQUESTED'', EGc)]"

definition valid_event :: "json \<Rightarrow> bool" where
  "valid_event v \<longleftrightarrow>
     is_record v \<and>
     (case jget v ''type'' of
        JStr t \<Rightarrow>
          (if t \<in> fst ` set plain_event_names then True
           else if t = ''SESSION.PARK.FINALIZE''
           then jget v ''status'' = JStr ''parked'' \<and> nonblank (string_of (jget v ''operationId''))
           else if t = ''SESSION.RESUME.REQUESTED''
           then jget v ''status'' = JStr ''resumed'' \<and> nonblank (string_of (jget v ''operationId''))
           else if t = ''SESSION.OBSERVE'' then valid_observation (jget v ''observation'')
           else False)
      | _ \<Rightarrow> False)"

section \<open>The values the machine reads\<close>

definition blocker_of_json :: "json \<Rightarrow> lifecycle_blocker" where
  "blocker_of_json b =
     \<lparr>lb_code = (case jget b ''code'' of JStr s \<Rightarrow> s | _ \<Rightarrow> []),
      lb_classification = string_of (jget b ''classification'')\<rparr>"

definition observation_of_json :: "json \<Rightarrow> lifecycle_observation" where
  "observation_of_json v =
     \<lparr>ob_session_state = (case jget v ''sessionState'' of JStr s \<Rightarrow> s | _ \<Rightarrow> []),
      ob_physical_state = string_of (jget v ''physicalState''),
      ob_close_readiness = string_of (jget v ''closeReadiness''),
      ob_blockers = map_option (map blocker_of_json) (array_of (jget v ''blockers'')),
      ob_terminal_operation = string_of (jget v ''terminalOperation''),
      ob_age_suspicious = bool_of (jget v ''ageSuspicious''),
      ob_gc_authorized = bool_of (jget v ''gcAuthorized''),
      ob_phase = string_of (jget v ''phase'')\<rparr>"

definition event_of_json :: "json \<Rightarrow> machine_event option" where
  "event_of_json v =
     (case jget v ''type'' of
        JStr t \<Rightarrow>
          (case map_of plain_event_names t of
             Some e \<Rightarrow> Some (Plain e)
           | None \<Rightarrow>
               if t = ''SESSION.PARK.FINALIZE''
               then Some (ParkFinalize (case jget v ''status'' of JStr s \<Rightarrow> s | _ \<Rightarrow> [])
                            (string_of (jget v ''operationId'')))
               else if t = ''SESSION.RESUME.REQUESTED''
               then Some (Resume (case jget v ''status'' of JStr s \<Rightarrow> s | _ \<Rightarrow> [])
                            (string_of (jget v ''operationId'')))
               else if t = ''SESSION.OBSERVE''
               then Some (Observe (observation_of_json (jget v ''observation'')))
               else None)
      | _ \<Rightarrow> None)"

definition operational_state_of_json :: "json \<Rightarrow> lifecycle_state" where
  "operational_state_of_json v =
     (if v = JStr ''parking'' then SParking else if v = JStr ''parked'' then SParked else SActive)"

section \<open>The projection\<close>

definition parking_machine_input ::
  "lifecycle_state \<Rightarrow> lifecycle_observation \<Rightarrow> machine_event \<Rightarrow> lifecycle_observation \<times> lifecycle_state option" where
  "parking_machine_input state observation event =
     (case event of
        Observe ob \<Rightarrow> (ob, None)
      | _ \<Rightarrow>
          if state = SParking then (observation, Some SParking)
          else if state = SParked \<and>
                  event_type_of event \<in> {EPark, EResume, EParkFinalize, EDoctor, EReconcile}
          then (observation\<lparr>ob_session_state := ''parked''\<rparr>, None)
          else if state = SActive \<and> event_type_of event = EPark
          then (observation\<lparr>ob_session_state := ''active''\<rparr>, None)
          else (observation, None))"

record parking_transition =
  pt_allowed :: bool
  pt_target :: "lifecycle_state option"
  pt_requires_explicit_intent :: bool
  pt_authority :: transition_authority
  pt_reason :: transition_reason

definition parking_invalid :: "string \<Rightarrow> domain_error + 'a" where
  "parking_invalid message = Inl (domain_error ''INVALID_ARGUMENT'' message)"

definition project_session_parking_transition ::
  "xstate \<Rightarrow> json \<Rightarrow> json \<Rightarrow> domain_error + parking_transition" where
  "project_session_parking_transition X input event =
     (if \<not> (is_record input \<and> valid_operational_state (jget input ''state'') \<and>
             valid_observation (jget input ''observation''))
      then parking_invalid ''Session parking transition input is invalid''
      else if \<not> valid_event event then parking_invalid ''Session parking event is invalid''
      else
        (case event_of_json event of
           None \<Rightarrow> parking_invalid ''Session parking observation is invalid''
         | Some e \<Rightarrow>
             (let (observation, initial) =
                    parking_machine_input (operational_state_of_json (jget input ''state''))
                      (observation_of_json (jget input ''observation'')) e in
              case project_session_lifecycle_event X
                     \<lparr>mi_persisted = None, mi_observation = observation\<rparr> e initial of
                Inl _ \<Rightarrow> parking_invalid ''Session parking observation is invalid''
              | Inr t \<Rightarrow>
                  Inr \<lparr>pt_allowed = lt_allowed t, pt_target = lt_target t,
                       pt_requires_explicit_intent = lt_requires_explicit_intent t,
                       pt_authority = lt_authority t, pt_reason = lt_reason t\<rparr>)))"

section \<open>The static parking table\<close>

record parking_row =
  pr_source :: lifecycle_state
  pr_event :: event_type
  pr_guarded :: bool
  pr_allowed :: "bool option"
  pr_target :: "lifecycle_state option"
  pr_requires_explicit_intent :: bool
  pr_authority :: transition_authority
  pr_reason :: transition_reason

definition PARKING_OPERATIONAL_STATES :: "lifecycle_state list" where
  "PARKING_OPERATIONAL_STATES = [SActive, SParking, SParked]"

definition PARKING_EVENT_TYPES :: "event_type list" where
  "PARKING_EVENT_TYPES =
     [EPark, EParkFinalize, EResume, EObserve, EClose, EDiscard, EDoctor, EReconcile, EGc]"

definition parking_row_for :: "lifecycle_state \<Rightarrow> event_type \<Rightarrow> string + parking_row" where
  "parking_row_for source event =
     (let definitions = transition_definitions source event in
      bind_sum (transition_metadata_of (first_of definitions)) (\<lambda>metadata.
      let delegated = (source = SActive \<or> source = SParked) \<and> event \<in> {EClose, EDiscard, EGc};
          observation_event = (event = EObserve);
          successful_result_event =
            (source = SParking \<and> event = EParkFinalize) \<or> (source = SParked \<and> event = EResume) \<or>
            (source = SActive \<and> event = EPark);
          guarded = observation_event \<or> delegated \<or>
            (\<not> successful_result_event \<and> is_context_dependent_guard (first_of definitions));
          reason0 = (if tm_allowed metadata then tm_reason metadata else reject_reason metadata);
          reason1 = (if observation_event then RObserve else reason0);
          reason2 = (if delegated \<and> event = EClose then RCloseProofRequired else reason1);
          reason3 = (if delegated \<and> event = EDiscard then RExplicitDiscard else reason2);
          reason = (if delegated \<and> event = EGc then RAgeIsNotAuthority else reason3) in
      Inr \<lparr>pr_source = source, pr_event = event, pr_guarded = guarded,
           pr_allowed = (if guarded then None else Some (tm_allowed metadata)),
           pr_target =
             (if guarded then None
              else if tm_allowed metadata
              then Some (case tm_target metadata of None \<Rightarrow> source | Some t \<Rightarrow> t) else None),
           pr_requires_explicit_intent = tm_requires_explicit_intent metadata,
           pr_authority = tm_authority metadata, pr_reason = reason\<rparr>))"

definition project_session_parking_transition_table :: "string + parking_row list" where
  "project_session_parking_transition_table =
     map_sum_list (\<lambda>(source, event). parking_row_for source event)
       (concat (map (\<lambda>source. map (Pair source) PARKING_EVENT_TYPES) PARKING_OPERATIONAL_STATES))"

section \<open>Facts\<close>

definition result_evidence :: "machine_event \<Rightarrow> bool" where
  "result_evidence e \<longleftrightarrow>
     (case e of
        ParkFinalize status i \<Rightarrow> status = ''parked'' \<and> nonblank i
      | Resume status i \<Rightarrow> status = ''resumed'' \<and> nonblank i
      | _ \<Rightarrow> True)"

lemma valid_event_read:
  assumes "valid_event v"
  obtains e where "event_of_json v = Some e" and "event_type_of e \<in> set PARKING_EVENT_TYPES"
    and "event_ok e" and "result_evidence e"
  using assms that
  by (auto simp: result_evidence_def valid_event_def event_of_json_def plain_event_names_def PARKING_EVENT_TYPES_def
      event_type_of_def event_ok_def split: json.splits if_splits)

lemma parking_event_definitions:
  assumes "ev \<in> set PARKING_EVENT_TYPES"
  shows "transition_definitions s ev \<noteq> []"
    and "\<forall>d\<in>set (transition_definitions s ev). \<exists>m. td_meta d = Some m"
  using assms by (cases s; auto simp: PARKING_EVENT_TYPES_def transition_tables)+

lemma project_parking_event:
  assumes "xstate_documented X" and "event_type_of e \<in> set PARKING_EVENT_TYPES"
  shows "\<exists>t. project_session_lifecycle_event X input e initial = Inr t"
  using xstate_documented.project_event_returns [OF assms(1) refl, where P = "\<lambda>_. True" and e = e
      and input = input and initial = initial] parking_event_definitions [OF assms(2)]
  by simp blast

section \<open>The projection is total and agrees with the table\<close>

definition valid_parking_input :: "json \<Rightarrow> bool" where
  "valid_parking_input input \<longleftrightarrow>
     is_record input \<and> valid_operational_state (jget input ''state'') \<and>
     valid_observation (jget input ''observation'')"

text \<open>A park or resume projection is refused exactly on an invalid input or event, always as
  INVALID_ARGUMENT with usage exit status; the internal-error branch of the code is never taken.\<close>

theorem parking_projection_total:
  assumes "xstate_documented X"
  shows "(\<exists>t. project_session_parking_transition X input event = Inr t) \<longleftrightarrow>
      valid_parking_input input \<and> valid_event event"
proof (cases "valid_parking_input input \<and> valid_event event")
  case True
  obtain e where e: "event_of_json event = Some e" "event_type_of e \<in> set PARKING_EVENT_TYPES"
    by (rule valid_event_read [OF conjunct2 [OF True]])
  obtain ob s where "parking_machine_input (operational_state_of_json (jget input ''state''))
      (observation_of_json (jget input ''observation'')) e = (ob, s)"
    by force
  moreover obtain t where "project_session_lifecycle_event X \<lparr>mi_persisted = None, mi_observation = ob\<rparr> e s = Inr t"
    using project_parking_event [OF assms e(2)] by blast
  ultimately show ?thesis
    using True e by (simp add: project_session_parking_transition_def valid_parking_input_def)
next
  case False
  then show ?thesis
    by (auto simp: project_session_parking_transition_def valid_parking_input_def parking_invalid_def)
qed


definition example_observation :: json where
  "example_observation = JObj [(''sessionState'', JStr ''active''), (''physicalState'', JStr ''healthy'')]"

definition example_parking_input :: "string \<Rightarrow> json" where
  "example_parking_input state = JObj [(''state'', JStr state), (''observation'', example_observation)]"

definition example_finalize :: json where
  "example_finalize =
     JObj [(''type'', JStr ''SESSION.PARK.FINALIZE''), (''status'', JStr ''parked''), (''operationId'', JStr ''op-1'')]"

lemma parking_projection_total_witness:
  "\<exists>t. project_session_parking_transition reference_xstate (example_parking_input ''parking'') example_finalize = Inr t"
proof -
  have "valid_parking_input (example_parking_input ''parking'') \<and> valid_event example_finalize"
    by code_simp
  then show ?thesis
    using parking_projection_total [OF reference_engine.xstate_documented_axioms,
        of "example_parking_input ''parking''" example_finalize]
    by blast
qed

definition row_describes :: "parking_row \<Rightarrow> parking_transition \<Rightarrow> bool" where
  "row_describes row t \<longleftrightarrow>
     pr_allowed row = Some (pt_allowed t) \<and> pr_target row = pt_target t \<and>
     pr_requires_explicit_intent row = pt_requires_explicit_intent t \<and>
     pr_authority row = pt_authority t \<and> pr_reason row = pt_reason t"

lemma parking_table_rows:
  assumes "source \<in> set PARKING_OPERATIONAL_STATES" and "ev \<in> set PARKING_EVENT_TYPES"
  shows "\<exists>rows row. project_session_parking_transition_table = Inr rows \<and>
    parking_row_for source ev = Inr row \<and> row \<in> set rows"
proof -
  have "is_ok project_session_parking_transition_table"
    by code_simp
  then obtain rows where rows: "project_session_parking_transition_table = Inr rows"
    by (auto simp: is_ok_def split: sum.splits)
  have members: "map_sum_list f xs = Inr ys \<Longrightarrow> x \<in> set xs \<Longrightarrow> \<exists>y. f x = Inr y \<and> y \<in> set ys"
    for f :: "lifecycle_state \<times> event_type \<Rightarrow> string + parking_row" and xs ys x
    by (induction xs arbitrary: ys) (auto split: sum.splits)
  have "(source, ev) \<in> set (concat (map (\<lambda>source. map (Pair source) PARKING_EVENT_TYPES) PARKING_OPERATIONAL_STATES))"
    using assms by auto
  from members [OF rows [unfolded project_session_parking_transition_table_def] this] rows show ?thesis
    by auto
qed

lemmas parking_state_rules =
  project_session_parking_transition_def parking_machine_input_def operational_state_of_json_def
  parking_invalid_def operation_projection_rules Let_def parking_row_for_def
  is_context_dependent_guard_def row_describes_def

text \<open>For a session in the transient state parking the v1 table is truthful: every valid event has a
  row, only the row of a new observation is left open, and each other row states the verdict, target,
  authority and reason that the projection answers.\<close>

theorem parking_state_rows_truthful:
  assumes "xstate_documented X"
    and "project_session_parking_transition X input event = Inr t"
    and "jget input ''state'' = JStr ''parking''"
  shows "\<exists>e rows row. event_of_json event = Some e \<and>
    project_session_parking_transition_table = Inr rows \<and> row \<in> set rows \<and>
    pr_source row = SParking \<and> pr_event row = event_type_of e \<and>
    (if pr_guarded row then event_type_of e = EObserve else row_describes row t)"
proof -
  have valid: "valid_event event"
    using parking_projection_total [OF assms(1), of input event] assms(2) by blast
  obtain e where e: "event_of_json event = Some e" "event_type_of e \<in> set PARKING_EVENT_TYPES" "event_ok e"
      "result_evidence e"
    by (rule valid_event_read [OF valid])
  obtain rows row where row: "project_session_parking_transition_table = Inr rows" "row \<in> set rows"
      "parking_row_for SParking (event_type_of e) = Inr row"
    using parking_table_rows [of SParking "event_type_of e"] e(2)
    by (auto simp: PARKING_OPERATIONAL_STATES_def)
  have "pr_source row = SParking \<and> pr_event row = event_type_of e"
    using row(3) by (auto simp: parking_row_for_def Let_def bind_sum_eq_Inr)
  moreover have "if pr_guarded row then event_type_of e = EObserve else row_describes row t"
  proof (cases e)
    case (Observe ob)
    then show ?thesis
      using row(3) by (auto simp: parking_row_for_def Let_def bind_sum_eq_Inr event_type_of_def)
  next
    case (ParkFinalize status i)
    then show ?thesis
      using row(3) e(4) assms e(1)
      by (auto simp: parking_state_rules result_evidence_def split: if_splits)
  next
    case (Resume status i)
    then show ?thesis
      using row(3) assms e(1) by (auto simp: parking_state_rules result_evidence_def split: if_splits)
  next
    case (Plain p)
    then show ?thesis
      using row(3) assms e(1-3)
      by (cases p) (auto simp: parking_state_rules event_ok_def PARKING_EVENT_TYPES_def split: if_splits)
  qed
  ultimately show ?thesis
    using e(1) row by blast
qed

lemma parking_state_rows_truthful_witness:
  "\<exists>rows row. project_session_parking_transition_table = Inr rows \<and> row \<in> set rows \<and>
    pr_source row = SParking \<and> pr_event row = EParkFinalize \<and> pr_target row = Some SParked"
proof -
  have run: "case project_session_parking_transition reference_xstate (example_parking_input ''parking'')
      example_finalize of Inl _ \<Rightarrow> False | Inr t \<Rightarrow> pt_target t = Some SParked"
    "jget (example_parking_input ''parking'') ''state'' = JStr ''parking''"
    "map_option event_type_of (event_of_json example_finalize) = Some EParkFinalize"
    by code_simp+
  then obtain t where t: "project_session_parking_transition reference_xstate
      (example_parking_input ''parking'') example_finalize = Inr t" "pt_target t = Some SParked"
    by (auto split: sum.splits)
  show ?thesis
    using parking_state_rows_truthful [OF reference_engine.xstate_documented_axioms t(1) run(2)] run(3) t(2)
    by (auto simp: row_describes_def split: if_splits)
qed

end
