(* ===== verification/LifecycleActions.thy ===== *)
theory LifecycleActions
  imports SessionLifecycle Json
begin

text \<open>
  src/src/session-lifecycle-actions.ts: the typed recovery actions offered to a caller, projected
  from the lifecycle classification and the first blocker. The constant fields of an action
  (schemaVersion, kind, command, reason, requiresExplicitIntent, mutates) are determined by its
  constructor; \<open>action_id\<close>, \<open>action_command\<close> and \<open>action_requires_explicit_intent\<close> read those the
  properties mention.
\<close>

datatype lifecycle_action =
    RetainSession
  | SupplyIntegratedRevision (supplied_revision: string)
  | RetryBoundedFetch string string string
  | DiscardSession string
  | ReconcilePhysicalState string

definition action_id :: "lifecycle_action \<Rightarrow> string" where
  "action_id a =
     (case a of
        RetainSession \<Rightarrow> ''retain-session''
      | SupplyIntegratedRevision _ \<Rightarrow> ''supply-exact-integrated-revision''
      | RetryBoundedFetch _ _ _ \<Rightarrow> ''retry-close-with-bounded-integration-fetch''
      | DiscardSession _ \<Rightarrow> ''discard-session''
      | ReconcilePhysicalState _ \<Rightarrow> ''reconcile-physical-state'')"

definition action_command :: "lifecycle_action \<Rightarrow> string" where
  "action_command a =
     (case a of
        RetainSession \<Rightarrow> ''session inspect''
      | SupplyIntegratedRevision _ \<Rightarrow> ''session close''
      | RetryBoundedFetch _ _ _ \<Rightarrow> ''session close''
      | DiscardSession _ \<Rightarrow> ''session discard''
      | ReconcilePhysicalState _ \<Rightarrow> ''doctor'')"

definition action_requires_explicit_intent :: "lifecycle_action \<Rightarrow> bool" where
  "action_requires_explicit_intent a = (case a of DiscardSession _ \<Rightarrow> True | _ \<Rightarrow> False)"

record apply_action_descriptor =
  ra_session_id :: string
  ra_required_args :: "string list"

definition reconciliation_apply_action :: "string \<Rightarrow> apply_action_descriptor" where
  "reconciliation_apply_action session_id =
     \<lparr>ra_session_id = session_id, ra_required_args = [''--session'', session_id, ''--apply'']\<rparr>"

record action_blocker =
  ab_code :: string
  ab_details :: json

definition string_detail :: "json \<Rightarrow> string \<Rightarrow> string option" where
  "string_detail details key = (case jget details key of JStr s \<Rightarrow> if s \<noteq> [] then Some s else None | _ \<Rightarrow> None)"

definition fetch_retry_actions :: "action_blocker option \<Rightarrow> lifecycle_action list" where
  "fetch_retry_actions blocker =
     (case blocker of
        None \<Rightarrow> []
      | Some b \<Rightarrow>
          if ab_code b = ''INTEGRATION_FETCH_FAILED''
          then (case (string_detail (ab_details b) ''integratedRevision'', string_detail (ab_details b) ''remote'',
                      string_detail (ab_details b) ''branch'') of
                  (Some revision, Some remote, Some branch) \<Rightarrow> [RetryBoundedFetch revision remote branch]
                | _ \<Rightarrow> [])
          else [])"

definition supply_revision_actions :: "action_blocker option \<Rightarrow> lifecycle_action list" where
  "supply_revision_actions blocker =
     (case blocker of
        None \<Rightarrow> []
      | Some b \<Rightarrow>
          if ab_code b = ''RECOVERABLE_COMMITS'' \<and>
             string_detail (ab_details b) ''nextIntegratedRevisionProof'' = Some ''authoritative''
          then (case string_detail (ab_details b) ''nextIntegratedRevision'' of
                  None \<Rightarrow> [] | Some revision \<Rightarrow> [SupplyIntegratedRevision revision])
          else [])"

definition discardable_codes :: "string list" where
  "discardable_codes = [''DIRTY_WORKTREE'', ''NESTED_REPOSITORY'', ''RECOVERABLE_COMMITS'', ''RECOVERABLE_STASHES'']"

definition discard_actions ::
  "lifecycle_classification \<Rightarrow> string \<Rightarrow> action_blocker option \<Rightarrow> lifecycle_action list" where
  "discard_actions classification session_id blocker =
     (if lc_physical_state classification = Some ''healthy'' \<and>
         (case blocker of None \<Rightarrow> False | Some b \<Rightarrow> ab_code b \<in> set discardable_codes)
      then [DiscardSession session_id] else [])"

definition project_session_lifecycle_actions ::
  "lifecycle_classification \<Rightarrow> string \<Rightarrow> action_blocker list option \<Rightarrow> string + lifecycle_action list" where
  "project_session_lifecycle_actions classification session_id blockers =
     (let blocker = first_of (case blockers of None \<Rightarrow> [] | Some bs \<Rightarrow> bs) in
      bind_sum (lifecycle_transition_of classification OpClose) (\<lambda>close.
      bind_sum (lifecycle_transition_of classification OpDiscard) (\<lambda>discard.
        if lt_allowed close \<or> lt_reason discard = RDiscardedTerminal \<or> lt_reason close = RClosedTerminal
        then Inr []
        else if lt_reason close = RPhysicalReconciliation then Inr [ReconcilePhysicalState session_id]
        else if lt_reason close \<noteq> RRecoverableWork \<or> \<not> lt_allowed discard then Inr []
        else Inr (fetch_retry_actions blocker @ supply_revision_actions blocker @ [RetainSession] @
                  discard_actions classification session_id blocker))))"

definition primary_session_lifecycle_action ::
  "lifecycle_classification \<Rightarrow> string \<Rightarrow> action_blocker list option \<Rightarrow> string + lifecycle_action option" where
  "primary_session_lifecycle_action classification session_id blockers =
     map_sum id first_of (project_session_lifecycle_actions classification session_id blockers)"

datatype park_resume_action = ParkSession string | ResumeSession string

definition project_park_resume_actions ::
  "lifecycle_classification \<Rightarrow> string \<Rightarrow> string + park_resume_action list" where
  "project_park_resume_actions classification session_id =
     (if lc_state classification = SActive
      then bind_sum (lifecycle_transition_of classification OpPark) (\<lambda>t.
             Inr (if lt_allowed t then [ParkSession session_id] else []))
      else if lc_state classification = SParked
      then bind_sum (lifecycle_transition_of classification OpResume) (\<lambda>t.
             Inr (if lt_allowed t then [ResumeSession session_id] else []))
      else Inr [])"

section \<open>Offers are admissible\<close>

text \<open>The verdicts of close and discard, by state.\<close>

lemma close_verdict:
  assumes "xstate_documented X" and "project_machine_transition X input OpClose = Inr t"
    and "classified_state (context_for_input input) = s"
  shows "lt_allowed t \<longleftrightarrow> s \<in> {SActive, SCloseReady, SClosed} \<or>
      (s = SParked \<and> \<not> is_observation_blocked_recoverable (context_for_input input))"
    and "\<not> lt_allowed t \<Longrightarrow> s \<noteq> SParking \<Longrightarrow> lt_reason t =
      (if s = SStaleInconsistent then RPhysicalReconciliation
       else if s = SDiscarded then RDiscardedTerminal else RRecoverableWork)"
    and "lt_reason t = RClosedTerminal \<longleftrightarrow> s = SClosed"
  using assms
  by (cases s; auto simp: operation_projection_rules Let_def is_parked_close_allowed_def
        classified_state_def split: if_splits)+

lemma discard_verdict:
  assumes "xstate_documented X" and "project_machine_transition X input OpDiscard = Inr t"
    and "classified_state (context_for_input input) = s"
  shows "lt_allowed t \<longleftrightarrow> s \<in> {SActive, SParked, SCloseReady, SBlockedRecoverable, SDiscarded}"
    and "lt_reason t = RDiscardedTerminal \<longleftrightarrow> s = SDiscarded"
  using assms
  by (cases s; auto simp: operation_projection_rules Let_def split: if_splits)+


definition keeps_recoverable_work :: "lifecycle_observation \<Rightarrow> lifecycle_classification \<Rightarrow> bool" where
  "keeps_recoverable_work ob c \<longleftrightarrow>
     lc_state c = SBlockedRecoverable \<or>
     (lc_state c = SParked \<and> is_observation_blocked_recoverable (context_of_observation ob))"

lemma actions_by_state:
  assumes "xstate_documented X" and "classify_session_lifecycle X ob = Inr c"
  shows "project_session_lifecycle_actions c session_id blockers =
    (let blocker = first_of (case blockers of None \<Rightarrow> [] | Some bs \<Rightarrow> bs) in
     Inr (if lc_state c = SStaleInconsistent then [ReconcilePhysicalState session_id]
          else if keeps_recoverable_work ob c
          then fetch_retry_actions blocker @ supply_revision_actions blocker @ [RetainSession] @
                 discard_actions c session_id blocker
          else []))"
proof -
  let ?input = "classification_input ob"
  have state: "classified_state (context_for_input ?input) = lc_state c"
    using xstate_documented.classify_eq [OF assms(1), of ob] assms(2) by (auto simp: context_of_observation_def)
  obtain cl where cl: "project_machine_transition X ?input OpClose = Inr cl"
      "lifecycle_transition_of c OpClose = Inr (lifecycle_transition.truncate cl)"
    by (rule xstate_documented.lifecycle_transition_of_eq [OF assms, of OpClose])
  obtain di where di: "project_machine_transition X ?input OpDiscard = Inr di"
      "lifecycle_transition_of c OpDiscard = Inr (lifecycle_transition.truncate di)"
    by (rule xstate_documented.lifecycle_transition_of_eq [OF assms, of OpDiscard])
  note verdicts = close_verdict [OF assms(1) cl(1) state] discard_verdict [OF assms(1) di(1) state]
  have "lc_state c \<noteq> SParking"
    using classified_not_parking state by metis
  then show ?thesis
    using verdicts
    by (cases "lc_state c")
       (auto simp: project_session_lifecycle_actions_def cl(2) di(2) lifecycle_transition.truncate_def Let_def
         keeps_recoverable_work_def context_of_observation_def)
qed

lemma discard_allowed:
  assumes "xstate_documented X" and "classify_session_lifecycle X ob = Inr c"
    and "lc_state c \<in> {SBlockedRecoverable, SParked}"
  shows "\<exists>t. lifecycle_transition_of c OpDiscard = Inr t \<and> lt_allowed t \<and> lt_requires_explicit_intent t"
proof -
  have state: "classified_state (context_for_input (classification_input ob)) = lc_state c"
    using xstate_documented.classify_eq [OF assms(1), of ob] assms(2) by (auto simp: context_of_observation_def)
  obtain t where t: "project_machine_transition X (classification_input ob) OpDiscard = Inr t"
      "lifecycle_transition_of c OpDiscard = Inr (lifecycle_transition.truncate t)"
    by (rule xstate_documented.lifecycle_transition_of_eq [OF assms(1,2), of OpDiscard])
  have "lt_allowed t \<and> lt_requires_explicit_intent t"
    using t(1) assms(1,3) state
    by (cases "lc_state c") (auto simp: operation_projection_rules Let_def)
  then show ?thesis
    using t(2) by (simp add: lifecycle_transition.truncate_def)
qed

lemmas retained_actions =
  fetch_retry_actions_def supply_revision_actions_def discard_actions_def action_id_def

lemma fetch_retry_cases:
  "fetch_retry_actions b = [] \<or>
   (\<exists>r m n. fetch_retry_actions b = [RetryBoundedFetch r m n] \<and> supply_revision_actions b = [] \<and>
      discard_actions c s b = [])"
  by (cases b) (auto simp: retained_actions discardable_codes_def split: option.split)

lemma supply_revision_cases:
  "supply_revision_actions b = [] \<or> (\<exists>r. supply_revision_actions b = [SupplyIntegratedRevision r])"
  by (cases b) (auto simp: retained_actions split: option.split)

lemma discard_cases: "discard_actions c s b = [] \<or> discard_actions c s b = [DiscardSession s]"
  by (auto simp: discard_actions_def)

lemma discard_offered:
  assumes "DiscardSession s \<in> set (fetch_retry_actions b @ supply_revision_actions b @ [RetainSession] @
      discard_actions c session_id b)"
  shows "s = session_id \<and> lc_physical_state c = Some ''healthy''"
  using assms fetch_retry_cases [of b c session_id] supply_revision_cases [of b]
  by (auto simp: discard_actions_def split: if_splits)

lemma in_guarded_option:
  "x \<in> set (if P then (case d of None \<Rightarrow> [] | Some r \<Rightarrow> [f r]) else []) \<Longrightarrow> P \<and> (\<exists>r. d = Some r \<and> x = f r)"
  by (cases P; cases d) simp_all

lemma supplied_blocker:
  assumes "SupplyIntegratedRevision r \<in> set (supply_revision_actions blocker)"
  shows "\<exists>b. blocker = Some b \<and> string_detail (ab_details b) ''nextIntegratedRevision'' = Some r \<and>
     string_detail (ab_details b) ''nextIntegratedRevisionProof'' = Some ''authoritative''"
proof (cases blocker)
  case None
  then show ?thesis
    using assms by (simp add: supply_revision_actions_def)
next
  case (Some b)
  from in_guarded_option [OF assms [unfolded supply_revision_actions_def Some option.case]] show ?thesis
    unfolding Some by blast
qed

lemma supply_offered:
  assumes "SupplyIntegratedRevision r \<in> set
     (fetch_retry_actions (first_of (case blockers of None \<Rightarrow> [] | Some bs \<Rightarrow> bs)) @
      supply_revision_actions (first_of (case blockers of None \<Rightarrow> [] | Some bs \<Rightarrow> bs)) @ [RetainSession] @
      discard_actions c session_id (first_of (case blockers of None \<Rightarrow> [] | Some bs \<Rightarrow> bs)))"
  shows "\<exists>b bs. blockers = Some (b # bs) \<and>
     string_detail (ab_details b) ''nextIntegratedRevision'' = Some r \<and>
     string_detail (ab_details b) ''nextIntegratedRevisionProof'' = Some ''authoritative''"
proof -
  define blocker where "blocker = first_of (case blockers of None \<Rightarrow> [] | Some bs \<Rightarrow> bs)"
  have "SupplyIntegratedRevision r \<in> set (supply_revision_actions blocker)"
    using assms fetch_retry_cases [of blocker c session_id]
    by (auto simp: discard_actions_def split: if_splits simp flip: blocker_def)
  then obtain b where b: "blocker = Some b"
      "string_detail (ab_details b) ''nextIntegratedRevision'' = Some r"
      "string_detail (ab_details b) ''nextIntegratedRevisionProof'' = Some ''authoritative''"
    using supplied_blocker by blast
  from b(1) obtain bs where "blockers = Some (b # bs)"
    by (auto simp: blocker_def first_of_def split: option.splits list.splits)
  with b(2,3) show ?thesis
    by blast
qed

text \<open>The recovery actions offered for a classified session never throw, are at most three with
  distinct identifiers, and are admissible: reconcile is offered exactly for stale-inconsistent; discard
  only for a healthy worktree with a recoverable blocker in a state whose discard is allowed, and it asks
  for explicit intent; a revision to retry only with an authoritative proof; retaining whenever a close is
  refused for recoverable work.\<close>

theorem lifecycle_actions_admissible:
  assumes "xstate_documented X" and "classify_session_lifecycle X ob = Inr c"
  shows "\<exists>as. project_session_lifecycle_actions c session_id blockers = Inr as \<and>
    length as \<le> 3 \<and> distinct (map action_id as) \<and>
    ((\<exists>s. ReconcilePhysicalState s \<in> set as) \<longleftrightarrow> lc_state c = SStaleInconsistent) \<and>
    (RetainSession \<in> set as \<longleftrightarrow> keeps_recoverable_work ob c) \<and>
    (\<forall>s. DiscardSession s \<in> set as \<longrightarrow>
       s = session_id \<and> lc_physical_state c = Some ''healthy'' \<and>
       (\<exists>t. lifecycle_transition_of c OpDiscard = Inr t \<and> lt_allowed t \<and> lt_requires_explicit_intent t)) \<and>
    (\<forall>r. SupplyIntegratedRevision r \<in> set as \<longrightarrow>
       (\<exists>b bs. blockers = Some (b # bs) \<and>
          string_detail (ab_details b) ''nextIntegratedRevision'' = Some r \<and>
          string_detail (ab_details b) ''nextIntegratedRevisionProof'' = Some ''authoritative''))"
proof -
  define blocker where "blocker = first_of (case blockers of None \<Rightarrow> [] | Some bs \<Rightarrow> bs)"
  define retained where "retained = fetch_retry_actions blocker @ supply_revision_actions blocker @ [RetainSession] @
                 discard_actions c session_id blocker"
  have kinds: "length retained \<le> 3 \<and> distinct (map action_id retained)"
      "RetainSession \<in> set retained" "\<And>s. ReconcilePhysicalState s \<notin> set retained"
    using fetch_retry_cases [of blocker c session_id] supply_revision_cases [of blocker]
      discard_cases [of c session_id blocker]
    by (auto simp: retained_def action_id_def)
  have discard: "s = session_id \<and> lc_physical_state c = Some ''healthy''"
    if offered: "DiscardSession s \<in> set retained" for s
    by (rule discard_offered [OF offered [unfolded retained_def]])
  have revision: "\<exists>b bs. blockers = Some (b # bs) \<and>
      string_detail (ab_details b) ''nextIntegratedRevision'' = Some r \<and>
      string_detail (ab_details b) ''nextIntegratedRevisionProof'' = Some ''authoritative''"
    if offered: "SupplyIntegratedRevision r \<in> set retained" for r
    by (rule supply_offered [OF offered [unfolded retained_def blocker_def]])
  have allowed: "\<exists>t. lifecycle_transition_of c OpDiscard = Inr t \<and> lt_allowed t \<and> lt_requires_explicit_intent t"
    if "keeps_recoverable_work ob c"
    using discard_allowed [OF assms] that by (auto simp: keeps_recoverable_work_def)
  have "\<not> (lc_state c = SStaleInconsistent \<and> keeps_recoverable_work ob c)"
    by (auto simp: keeps_recoverable_work_def)
  then show ?thesis
    unfolding actions_by_state [OF assms] Let_def blocker_def [symmetric] retained_def [symmetric]
    using kinds discard revision allowed by auto
qed


lemma lifecycle_actions_admissible_witness:
  "\<exists>c as. classify_session_lifecycle reference_xstate dirty_observation = Inr c \<and>
    project_session_lifecycle_actions c ''s1'' (Some [\<lparr>ab_code = ''DIRTY_WORKTREE'', ab_details = JUndefined\<rparr>]) =
      Inr as \<and> RetainSession \<in> set as"
proof -
  have "case classify_session_lifecycle reference_xstate dirty_observation of
      Inl _ \<Rightarrow> False | Inr c \<Rightarrow> lc_state c = SBlockedRecoverable"
    by code_simp
  then obtain c where c: "classify_session_lifecycle reference_xstate dirty_observation = Inr c"
      "lc_state c = SBlockedRecoverable"
    by (auto split: sum.splits)
  then have "keeps_recoverable_work dirty_observation c"
    by (simp add: keeps_recoverable_work_def)
  with lifecycle_actions_admissible [OF reference_engine.xstate_documented_axioms c(1), of "''s1''"
      "Some [\<lparr>ab_code = ''DIRTY_WORKTREE'', ab_details = JUndefined\<rparr>]"] c(1)
  show ?thesis by blast
qed

text \<open>Parking is offered exactly for an active session and resuming exactly for a parked one; at most
  one of them is offered, and the projection never throws.\<close>

theorem park_resume_offers_exact:
  assumes "xstate_documented X" and "classify_session_lifecycle X ob = Inr c"
  shows "project_park_resume_actions c session_id =
    Inr (if lc_state c = SActive \<and> ob_session_state ob = ''active'' then [ParkSession session_id]
         else if lc_state c = SParked then [ResumeSession session_id] else [])"
proof -
  have state: "classified_state (context_for_input (classification_input ob)) = lc_state c"
    using xstate_documented.classify_eq [OF assms(1), of ob] assms(2) by (auto simp: context_of_observation_def)
  obtain p where p: "project_machine_transition X (classification_input ob) OpPark = Inr p"
      "lifecycle_transition_of c OpPark = Inr (lifecycle_transition.truncate p)"
    by (rule xstate_documented.lifecycle_transition_of_eq [OF assms, of OpPark])
  obtain r where r: "project_machine_transition X (classification_input ob) OpResume = Inr r"
      "lifecycle_transition_of c OpResume = Inr (lifecycle_transition.truncate r)"
    by (rule xstate_documented.lifecycle_transition_of_eq [OF assms, of OpResume])
  have "lt_allowed p \<longleftrightarrow> ob_session_state ob = ''active''" if "lc_state c = SActive"
    using p(1) assms(1) state that
    by (auto simp: operation_projection_rules Let_def is_park_request_allowed_def
        observed_facts [unfolded context_of_observation_def] split: if_splits)
  moreover have "lt_allowed r" if "lc_state c = SParked"
  proof -
    have "nonblank (Some ''projection'')"
      by code_simp
    then show ?thesis
      using r(1) assms(1) state that by (auto simp: operation_projection_rules Let_def)
  qed
  ultimately show ?thesis
    by (auto simp: project_park_resume_actions_def p(2) r(2) lifecycle_transition.truncate_def)
qed

lemma park_resume_offers_exact_witness:
  "\<exists>c. classify_session_lifecycle reference_xstate dirty_observation = Inr c \<and>
    project_park_resume_actions c ''s1'' = Inr []"
proof -
  have "case classify_session_lifecycle reference_xstate dirty_observation of
      Inl _ \<Rightarrow> False | Inr c \<Rightarrow> lc_state c = SBlockedRecoverable"
    by code_simp
  then obtain c where c: "classify_session_lifecycle reference_xstate dirty_observation = Inr c"
      "lc_state c = SBlockedRecoverable"
    by (auto split: sum.splits)
  show ?thesis
    using park_resume_offers_exact [OF reference_engine.xstate_documented_axioms c(1), of "''s1''"] c by simp
qed

end
