(* ===== verification/ProcessStat.thy ===== *)
theory ProcessStat
  imports Prelude
begin

text \<open>
  The text of /proc/<pid>/stat as the registry lock and the execution records read it: what follows the last parenthesis,
  split at white space. A process may put parentheses and spaces in its name, which the last parenthesis closes.
\<close>

definition white_space :: "char \<Rightarrow> bool" where
  "white_space c \<longleftrightarrow> of_char c \<in> set [9, 10, 11, 12, 13, 32, 160 :: nat]"

text \<open>\<open>raw.slice(raw.lastIndexOf(")") + 1)\<close>, or \<open>None\<close> without a parenthesis\<close>

fun after_last_paren :: "string \<Rightarrow> string option" where
  "after_last_paren [] = None"
| "after_last_paren (c # cs) =
     (case after_last_paren cs of
        Some r \<Rightarrow> Some r
      | None \<Rightarrow> if c = CHR '')'' then Some cs else None)"

text \<open>\<open>text.trim().split(/\\s+/)\<close>\<close>

fun white_fields :: "string \<Rightarrow> string \<Rightarrow> string list" where
  "white_fields [] acc = (if acc = [] then [] else [rev acc])"
| "white_fields (c # cs) acc =
     (if white_space c then (if acc = [] then white_fields cs [] else rev acc # white_fields cs [])
      else white_fields cs (c # acc))"

definition split_white :: "string \<Rightarrow> string list" where
  "split_white s = (case white_fields s [] of [] \<Rightarrow> [[]] | fs \<Rightarrow> fs)"

text \<open>\<open>text.trim()\<close>\<close>

definition trim_white :: "string \<Rightarrow> string" where
  "trim_white s = rev (dropWhile white_space (rev (dropWhile white_space s)))"

lemma after_last_paren_None: "CHR '')'' \<notin> set s \<Longrightarrow> after_last_paren s = None"
  by (induction s) auto

lemma after_last_paren_append: "CHR '')'' \<notin> set rest \<Longrightarrow> after_last_paren (s @ CHR '')'' # rest) = Some rest"
  by (induction s) (simp_all add: after_last_paren_None)

lemma white_fields_word:
  "list_all (\<lambda>c. \<not> white_space c) w \<Longrightarrow> rev acc @ w \<noteq> [] \<Longrightarrow>
   white_fields (w @ CHR '' '' # s) acc = (rev acc @ w) # white_fields s []"
  by (induction w arbitrary: acc) (auto simp: white_space_def)

lemma white_fields_last:
  "list_all (\<lambda>c. \<not> white_space c) w \<Longrightarrow> rev acc @ w \<noteq> [] \<Longrightarrow> white_fields w acc = [rev acc @ w]"
  by (induction w arbitrary: acc) auto

definition stat_word :: "string \<Rightarrow> bool" where
  "stat_word w \<longleftrightarrow> w \<noteq> [] \<and> list_all (\<lambda>c. \<not> white_space c) w"

lemma white_fields_join: "list_all stat_word ws \<Longrightarrow> white_fields (join_with CHR '' '' ws) [] = ws"
proof (induction ws)
  case (Cons w ws)
  then show ?case
    using white_fields_word [of w "[]"] white_fields_last [of w "[]"]
    by (cases ws) (auto simp: stat_word_def)
qed simp

text \<open>The fields of a line, whatever the name of the process is\<close>

lemma split_stat_line:
  assumes "list_all stat_word ws" "ws \<noteq> []" "CHR '')'' \<notin> set (join_with CHR '' '' ws)"
  shows "after_last_paren (name @ '') '' @ join_with CHR '' '' ws) = Some (CHR '' '' # join_with CHR '' '' ws)"
    and "split_white (CHR '' '' # join_with CHR '' '' ws) = ws"
proof -
  show "after_last_paren (name @ '') '' @ join_with CHR '' '' ws) = Some (CHR '' '' # join_with CHR '' '' ws)"
    using after_last_paren_append [of "CHR '' '' # join_with CHR '' '' ws" name] assms(3) by simp
  show "split_white (CHR '' '' # join_with CHR '' '' ws) = ws"
    using white_fields_join [OF assms(1)] assms(2) by (cases ws) (simp_all add: split_white_def white_space_def)
qed

end
