(* ===== verification/RegistryLock.thy ===== *)
theory RegistryLock
  imports Errors Json ProcessStat
begin

text \<open>
  src/src/registry/lock.ts: the lock of the repository registry, a directory whose creation is
  the acquisition, with the recovery of the lock of a dead process.

  The first part translates the pure pieces: the owner record and its validation, the start time
  of /proc, the liveness of an owner, the verdict of inspectExistingSync. The second part is the
  protocol as the interleaving of the system calls of any number of processes: one constructor of
  \<open>lock_pc\<close> for each point between two system calls of acquireSync and release. A system call
  (mkdir, stat, reading or atomically publishing owner.json, removing a directory) is one step.
  Removing a directory is complete or fails as a whole, and the removal of one's own marker in the
  finally block of tryReclaim, as that of a fresh lock directory, succeeds;
  the asynchronous twin of each method makes the same calls in the same order. \<open>ld_maker\<close> is a
  history variable that no step reads.
\<close>

section \<open>Owner records\<close>

text \<open>The token is a UUID; the protocol part draws fresh tokens from a counter. The instant of
  \<open>acquiredAt\<close> is kept as the milliseconds \<open>Date.parse\<close> gives.\<close>

record 't lock_owner =
  lo_token :: 't
  lo_pid :: int
  lo_hostname :: string
  lo_start_time :: "string option"
  lo_acquired_at :: int

definition LOCK_SCHEMA_VERSION :: int where "LOCK_SCHEMA_VERSION = 1"

definition MAX_SAFE_INTEGER :: int where "MAX_SAFE_INTEGER = 9007199254740991"

definition parse_lock_owner :: "(string \<Rightarrow> int option) \<Rightarrow> json \<Rightarrow> string lock_owner option" where
  "parse_lock_owner date_parse value =
     (case (jget value ''schemaVersion'', jget value ''token'', jget value ''pid'', jget value ''hostname'',
            jget value ''acquiredAt'') of
        (JNum version, JStr token, JNum pid, JStr host, JStr acquired) \<Rightarrow>
          (let start = jget value ''processStartTime'' in
           if is_record value \<and> version = LOCK_SCHEMA_VERSION \<and> token \<noteq> [] \<and> pid \<le> MAX_SAFE_INTEGER \<and>
              0 < pid \<and> host \<noteq> [] \<and> (is_string start \<or> start = JNull)
           then map_option (\<lambda>t. \<lparr>lo_token = token, lo_pid = pid, lo_hostname = host,
                                  lo_start_time = string_of start, lo_acquired_at = t\<rparr>) (date_parse acquired)
           else None)
      | _ \<Rightarrow> None)"

definition parse_process_start_time :: "string \<Rightarrow> string option" where
  "parse_process_start_time raw =
     (case after_last_paren raw of
        None \<Rightarrow> None
      | Some rest \<Rightarrow>
          (let fields = split_white rest in
           if 19 < length fields \<and> fields ! 19 \<noteq> [] then Some (fields ! 19) else None))"

section \<open>Liveness of an owner\<close>

datatype owner_liveness = OwnerAlive | OwnerDead | OwnerUnknown

datatype kill_result = KillOk | KillEsrch | KillOther

definition all_digits :: "string \<Rightarrow> bool" where
  "all_digits s \<longleftrightarrow> s \<noteq> [] \<and> list_all (\<lambda>c. c \<in> set ''0123456789'') s"

definition owner_liveness ::
  "'t lock_owner \<Rightarrow> string \<Rightarrow> string \<Rightarrow> (int \<Rightarrow> string option) \<Rightarrow> (int \<Rightarrow> kill_result) \<Rightarrow> owner_liveness" where
  "owner_liveness owner local_hostname platform proc_start kill =
     (case lo_start_time owner of
        None \<Rightarrow> OwnerUnknown
      | Some start \<Rightarrow>
          if lo_hostname owner \<noteq> local_hostname \<or> platform \<noteq> ''linux'' then OwnerUnknown
          else if \<not> all_digits start then OwnerUnknown
          else
            (case proc_start (lo_pid owner) of
               Some current \<Rightarrow> if current = start then OwnerAlive else OwnerDead
             | None \<Rightarrow> if kill (lo_pid owner) = KillEsrch then OwnerDead else OwnerUnknown))"

section \<open>Inspecting an existing lock\<close>

record lock_config =
  cf_stale_after :: int
  cf_acquire_timeout :: int
  cf_retry_delay :: int
  cf_metadata_grace :: int

definition default_lock_config :: lock_config where
  "default_lock_config =
     \<lparr>cf_stale_after = 5000, cf_acquire_timeout = 10000, cf_retry_delay = 10, cf_metadata_grace = 1000\<rparr>"

text \<open>The failures, with the \<open>reason\<close> the code puts in the details of \<open>LOCK_STALE\<close>. \<open>RawIoError\<close> is an
  error of the file system that leaves tryReclaim unwrapped.\<close>

datatype lock_failure =
    LockBusy | LockInvalid | LockStaleUnknown | LockStaleReclaimerInvalid | LockIoError | LockReleaseFailed
  | RawIoError

datatype 't lock_inspection = InspectWait | InspectStale "'t lock_owner"

text \<open>The part of inspectExistingSync after the stat succeeded: \<open>mtime\<close> is of the stat, \<open>owner\<close> what
  readOwnerSync returned afterwards.\<close>

definition inspect_existing ::
  "lock_config \<Rightarrow> int \<Rightarrow> int \<Rightarrow> 't lock_owner option \<Rightarrow> ('t lock_owner \<Rightarrow> owner_liveness) \<Rightarrow>
   lock_failure + 't lock_inspection" where
  "inspect_existing cf now mtime owner liveness =
     (case owner of
        None \<Rightarrow> if now - mtime < cf_metadata_grace cf then Inr InspectWait else Inl LockInvalid
      | Some o' \<Rightarrow>
          (let age = now - lo_acquired_at o' in
           if age < 0 then Inl LockInvalid
           else if age < cf_stale_after cf then Inr InspectWait
           else
             (case liveness o' of
                OwnerAlive \<Rightarrow> Inr InspectWait
              | OwnerUnknown \<Rightarrow> Inl LockStaleUnknown
              | OwnerDead \<Rightarrow> Inr (InspectStale o'))))"

text \<open>The checks of tryReclaimSync on the owner it reads again, once before and once after.\<close>

definition reclaimable ::
  "lock_config \<Rightarrow> int \<Rightarrow> 't lock_owner option \<Rightarrow> 't \<Rightarrow> ('t lock_owner \<Rightarrow> owner_liveness) \<Rightarrow> bool" where
  "reclaimable cf now owner token liveness =
     (case owner of
        None \<Rightarrow> False
      | Some o' \<Rightarrow>
          lo_token o' = token \<and> liveness o' = OwnerDead \<and> cf_stale_after cf \<le> now - lo_acquired_at o')"

section \<open>The system\<close>

record process_info =
  pi_host :: string
  pi_pid :: int
  pi_start :: string
  pi_platform :: string

type_synonym owner = "nat lock_owner"

record lock_dir =
  ld_maker :: nat
  ld_mtime :: int
  ld_owner :: "owner option"

datatype process_life = Unborn | Running | Dead

text \<open>
  Where a process stands; the integer is the deadline of its acquisition.
  \<open>PTry\<close> tests the reclaim marker, \<open>PMkdir\<close> makes the lock directory, \<open>PRecheck\<close> tests the marker again,
  \<open>PBackout\<close> removes the fresh directory, \<open>PPublish\<close> writes owner.json, \<open>PUndo\<close>/\<open>PUndoRemove\<close> are
  removeCreatedLock; \<open>PStat\<close>/\<open>PRead\<close> are inspectExisting; \<open>PReclaim\<close> makes the marker, \<open>PSeeMarker\<close>/\<open>PClearMarker\<close>
  are handleExistingReclaimer, \<open>PMark\<close> publishes the marker's owner, \<open>PVerify\<close>, \<open>PVerifyAgain\<close>, \<open>PConfirm\<close>, \<open>PRemove\<close>
  are the rest of tryReclaim and \<open>PDrop\<close> its finally block; \<open>PWait\<close> tests the deadline; \<open>PHeld\<close>, \<open>PHeldStat\<close>, \<open>PRelease\<close>
  are the lease and its release.
\<close>

datatype reclaim_result = Reclaimed | NotReclaimed | ReclaimError lock_failure

datatype lock_pc =
    PIdle
  | PTry int | PMkdir int owner | PRecheck int owner | PBackout int | PPublish int owner
  | PUndo owner | PUndoRemove
  | PStat int | PRead int int
  | PReclaim int owner | PSeeMarker int | PClearMarker int
  | PMark int owner owner | PVerify int owner | PVerifyAgain int owner | PConfirm int owner | PRemove int
  | PDrop int reclaim_result
  | PWait int
  | PHeld owner | PHeldStat owner | PRelease owner
  | PFailed lock_failure

record lock_system =
  sy_config :: lock_config
  sy_processes :: "process_info list"

record lock_state =
  ls_clock :: int
  ls_lock :: "lock_dir option"
  ls_marker :: "lock_dir option"
  ls_next_token :: nat
  ls_life :: "nat \<Rightarrow> process_life"
  ls_pc :: "nat \<Rightarrow> lock_pc"

definition initial_lock_state :: lock_state where
  "initial_lock_state =
     \<lparr>ls_clock = 0, ls_lock = None, ls_marker = None, ls_next_token = 0, ls_life = (\<lambda>_. Unborn), ls_pc = (\<lambda>_. PIdle)\<rparr>"

definition running_with :: "lock_system \<Rightarrow> lock_state \<Rightarrow> string \<Rightarrow> int \<Rightarrow> nat option" where
  "running_with sys s host pid =
     find (\<lambda>i. ls_life s i = Running \<and> pi_host (sy_processes sys ! i) = host \<and> pi_pid (sy_processes sys ! i) = pid)
       [0..<length (sy_processes sys)]"

text \<open>What process \<open>p\<close> learns from /proc and kill on its host about an owner\<close>

definition liveness_seen :: "lock_system \<Rightarrow> lock_state \<Rightarrow> nat \<Rightarrow> owner \<Rightarrow> owner_liveness" where
  "liveness_seen sys s p owner =
     (let me = sy_processes sys ! p in
      owner_liveness owner (pi_host me) (pi_platform me)
        (\<lambda>pid. map_option (\<lambda>i. pi_start (sy_processes sys ! i)) (running_with sys s (pi_host me) pid))
        (\<lambda>pid. if running_with sys s (pi_host me) pid = None then KillEsrch else KillOk))"

text \<open>createOwnerSync\<close>

definition create_owner :: "lock_system \<Rightarrow> lock_state \<Rightarrow> nat \<Rightarrow> owner" where
  "create_owner sys s p =
     (let me = sy_processes sys ! p in
      \<lparr>lo_token = ls_next_token s, lo_pid = pi_pid me, lo_hostname = pi_host me,
       lo_start_time = (if pi_platform me = ''linux'' then Some (pi_start me) else None),
       lo_acquired_at = ls_clock s\<rparr>)"

definition owner_on_disk :: "lock_dir option \<Rightarrow> owner option" where
  "owner_on_disk d = Option.bind d ld_owner"

definition fresh_dir :: "lock_state \<Rightarrow> nat \<Rightarrow> lock_dir" where
  "fresh_dir s p = \<lparr>ld_maker = p, ld_mtime = ls_clock s, ld_owner = None\<rparr>"

definition publish_owner :: "lock_state \<Rightarrow> owner \<Rightarrow> lock_dir \<Rightarrow> lock_dir" where
  "publish_owner s owner d = d\<lparr>ld_owner := Some owner, ld_mtime := ls_clock s\<rparr>"

definition at_pc :: "nat \<Rightarrow> lock_pc \<Rightarrow> lock_state \<Rightarrow> lock_state" where
  "at_pc p c s = s\<lparr>ls_pc := (ls_pc s)(p := c)\<rparr>"

definition take_token :: "lock_state \<Rightarrow> lock_state" where
  "take_token s = s\<lparr>ls_next_token := Suc (ls_next_token s)\<rparr>"

section \<open>The steps\<close>

text \<open>\<open>tryCreateSync\<close>; \<open>ok\<close> is whether a write to the disk succeeds.\<close>

definition create_step :: "lock_system \<Rightarrow> nat \<Rightarrow> bool \<Rightarrow> lock_state \<Rightarrow> lock_state" where
  "create_step sys p ok s =
     (case ls_pc s p of
        PTry d \<Rightarrow>
          if ls_marker s \<noteq> None then at_pc p (PStat d) s
          else take_token (at_pc p (PMkdir d (create_owner sys s p)) s)
      | PMkdir d owner \<Rightarrow>
          if ls_lock s \<noteq> None then at_pc p (PStat d) s
          else at_pc p (PRecheck d owner) (s\<lparr>ls_lock := Some (fresh_dir s p)\<rparr>)
      | PRecheck d owner \<Rightarrow> at_pc p (if ls_marker s \<noteq> None then PBackout d else PPublish d owner) s
      | PBackout d \<Rightarrow> at_pc p (PStat d) (s\<lparr>ls_lock := None\<rparr>)
      | PPublish d owner \<Rightarrow>
          (case ls_lock s of
             Some dir \<Rightarrow>
               if ok then at_pc p (PHeld owner) (s\<lparr>ls_lock := Some (publish_owner s owner dir)\<rparr>)
               else at_pc p (PUndo owner) s
           | None \<Rightarrow> at_pc p (PUndo owner) s)
      | _ \<Rightarrow> s)"

text \<open>\<open>removeCreatedLockSync\<close>\<close>

definition undo_step :: "nat \<Rightarrow> lock_state \<Rightarrow> lock_state" where
  "undo_step p s =
     (case ls_pc s p of
        PUndo owner \<Rightarrow>
          (case owner_on_disk (ls_lock s) of
             Some o' \<Rightarrow> at_pc p (if lo_token o' \<noteq> lo_token owner then PFailed LockIoError else PUndoRemove) s
           | None \<Rightarrow> at_pc p PUndoRemove s)
      | PUndoRemove \<Rightarrow> at_pc p (PFailed LockIoError) (s\<lparr>ls_lock := None\<rparr>)
      | _ \<Rightarrow> s)"

text \<open>\<open>inspectExistingSync\<close> and the rest of the loop of \<open>acquireSync\<close>; sleeping is left to the clock.\<close>

definition inspect_step :: "lock_system \<Rightarrow> nat \<Rightarrow> lock_state \<Rightarrow> lock_state" where
  "inspect_step sys p s =
     (case ls_pc s p of
        PStat d \<Rightarrow>
          (case ls_lock s of None \<Rightarrow> at_pc p (PWait d) s | Some dir \<Rightarrow> at_pc p (PRead d (ld_mtime dir)) s)
      | PRead d mtime \<Rightarrow>
          (case inspect_existing (sy_config sys) (ls_clock s) mtime (owner_on_disk (ls_lock s))
                  (liveness_seen sys s p) of
             Inl failure \<Rightarrow> at_pc p (PFailed failure) s
           | Inr InspectWait \<Rightarrow> at_pc p (PWait d) s
           | Inr (InspectStale owner) \<Rightarrow> at_pc p (PReclaim d owner) s)
      | PWait d \<Rightarrow> at_pc p (if d - ls_clock s \<le> 0 then PFailed LockBusy else PTry d) s
      | _ \<Rightarrow> s)"

text \<open>\<open>handleExistingReclaimerSync\<close>\<close>

definition existing_reclaimer_step :: "lock_system \<Rightarrow> nat \<Rightarrow> bool \<Rightarrow> lock_state \<Rightarrow> lock_state" where
  "existing_reclaimer_step sys p ok s =
     (let now = ls_clock s; cf = sy_config sys in
      case ls_pc s p of
        PSeeMarker d \<Rightarrow>
          (case owner_on_disk (ls_marker s) of
             None \<Rightarrow> at_pc p (PFailed LockStaleReclaimerInvalid) s
           | Some r \<Rightarrow>
               if liveness_seen sys s p r \<noteq> OwnerDead \<or> now - lo_acquired_at r < cf_stale_after cf
               then at_pc p (PWait d) s else at_pc p (PClearMarker d) s)
      | PClearMarker d \<Rightarrow>
          if ls_marker s = None \<or> ok then at_pc p (PWait d) (s\<lparr>ls_marker := None\<rparr>) else at_pc p (PFailed LockIoError) s
      | _ \<Rightarrow> s)"

text \<open>\<open>tryReclaimSync\<close>\<close>

definition reclaim_step :: "lock_system \<Rightarrow> nat \<Rightarrow> bool \<Rightarrow> lock_state \<Rightarrow> lock_state" where
  "reclaim_step sys p ok s =
     (let now = ls_clock s; cf = sy_config sys in
      case ls_pc s p of
        PReclaim d owner \<Rightarrow>
          if ls_marker s \<noteq> None then at_pc p (PSeeMarker d) s
          else take_token (at_pc p (PMark d owner (create_owner sys s p)) (s\<lparr>ls_marker := Some (fresh_dir s p)\<rparr>))
      | PMark d owner r \<Rightarrow>
          (case ls_marker s of
             Some dir \<Rightarrow>
               if ok then at_pc p (PVerify d owner) (s\<lparr>ls_marker := Some (publish_owner s r dir)\<rparr>)
               else at_pc p (PDrop d (ReclaimError RawIoError)) s
           | None \<Rightarrow> at_pc p (PDrop d (ReclaimError RawIoError)) s)
      | PVerify d owner \<Rightarrow>
          at_pc p (if reclaimable cf now (owner_on_disk (ls_lock s)) (lo_token owner) (liveness_seen sys s p)
                   then PVerifyAgain d owner else PDrop d NotReclaimed) s
      | PVerifyAgain d owner \<Rightarrow>
          at_pc p (if reclaimable cf now (owner_on_disk (ls_lock s)) (lo_token owner) (liveness_seen sys s p)
                   then PConfirm d owner else PDrop d NotReclaimed) s
      | PConfirm d owner \<Rightarrow> at_pc p (if ls_marker s \<noteq> None then PRemove d else PDrop d NotReclaimed) s
      | PRemove d \<Rightarrow>
          (case ls_lock s of
             None \<Rightarrow> at_pc p (PDrop d NotReclaimed) s
           | Some _ \<Rightarrow>
              if ok then at_pc p (PDrop d Reclaimed) (s\<lparr>ls_lock := None\<rparr>)
              else at_pc p (PDrop d (ReclaimError LockIoError)) s)
      | PDrop d result \<Rightarrow>
          at_pc p (case result of
                     Reclaimed \<Rightarrow> PTry d | NotReclaimed \<Rightarrow> PWait d | ReclaimError failure \<Rightarrow> PFailed failure)
            (s\<lparr>ls_marker := None\<rparr>)
      | _ \<Rightarrow> s)"

text \<open>\<open>releaseSync\<close>\<close>

definition release_step :: "nat \<Rightarrow> bool \<Rightarrow> lock_state \<Rightarrow> lock_state" where
  "release_step p ok s =
     (case ls_pc s p of
        PHeld owner \<Rightarrow>
          (case owner_on_disk (ls_lock s) of
             None \<Rightarrow> at_pc p (PHeldStat owner) s
           | Some o' \<Rightarrow> at_pc p (if lo_token o' \<noteq> lo_token owner then PFailed LockReleaseFailed else PRelease owner) s)
      | PHeldStat owner \<Rightarrow> at_pc p (if ls_lock s = None then PIdle else PFailed LockReleaseFailed) s
      | PRelease owner \<Rightarrow>
          (case ls_lock s of
             None \<Rightarrow> at_pc p (PFailed LockReleaseFailed) s
           | Some _ \<Rightarrow> if ok then at_pc p PIdle (s\<lparr>ls_lock := None\<rparr>) else at_pc p (PFailed LockReleaseFailed) s)
      | _ \<Rightarrow> s)"

definition process_step :: "lock_system \<Rightarrow> nat \<Rightarrow> bool \<Rightarrow> lock_state \<Rightarrow> lock_state" where
  "process_step sys p ok s =
     (case ls_pc s p of
        PIdle \<Rightarrow> at_pc p (PTry (ls_clock s + cf_acquire_timeout (sy_config sys))) s
      | PFailed _ \<Rightarrow> at_pc p (PTry (ls_clock s + cf_acquire_timeout (sy_config sys))) s
      | PTry _ \<Rightarrow> create_step sys p ok s | PMkdir _ _ \<Rightarrow> create_step sys p ok s
      | PRecheck _ _ \<Rightarrow> create_step sys p ok s | PBackout _ \<Rightarrow> create_step sys p ok s
      | PPublish _ _ \<Rightarrow> create_step sys p ok s | PUndo _ \<Rightarrow> undo_step p s
      | PUndoRemove \<Rightarrow> undo_step p s
      | PSeeMarker _ \<Rightarrow> existing_reclaimer_step sys p ok s
      | PClearMarker _ \<Rightarrow> existing_reclaimer_step sys p ok s
      | PStat _ \<Rightarrow> inspect_step sys p s | PRead _ _ \<Rightarrow> inspect_step sys p s | PWait _ \<Rightarrow> inspect_step sys p s
      | PHeld _ \<Rightarrow> release_step p ok s | PHeldStat _ \<Rightarrow> release_step p ok s | PRelease _ \<Rightarrow> release_step p ok s
      | _ \<Rightarrow> reclaim_step sys p ok s)"

datatype lock_event = Spawn nat | Step nat bool | Die nat | Tick nat

text \<open>The operating system starts a process only under a process id that no running process of the host has.\<close>

definition can_spawn :: "lock_system \<Rightarrow> lock_state \<Rightarrow> nat \<Rightarrow> bool" where
  "can_spawn sys s p \<longleftrightarrow>
     p < length (sy_processes sys) \<and> ls_life s p = Unborn \<and>
     running_with sys s (pi_host (sy_processes sys ! p)) (pi_pid (sy_processes sys ! p)) = None"

definition lock_step :: "lock_system \<Rightarrow> lock_event \<Rightarrow> lock_state \<Rightarrow> lock_state" where
  "lock_step sys event s =
     (case event of
        Spawn p \<Rightarrow>
          if can_spawn sys s p then at_pc p PIdle (s\<lparr>ls_life := (ls_life s)(p := Running)\<rparr>) else s
      | Step p ok \<Rightarrow> if ls_life s p = Running then process_step sys p ok s else s
      | Die p \<Rightarrow> if ls_life s p = Running then s\<lparr>ls_life := (ls_life s)(p := Dead)\<rparr> else s
      | Tick n \<Rightarrow> s\<lparr>ls_clock := ls_clock s + int n\<rparr>)"

definition run_lock :: "lock_system \<Rightarrow> lock_event list \<Rightarrow> lock_state \<Rightarrow> lock_state" where
  "run_lock sys events s = fold (lock_step sys) events s"


section \<open>The invariant\<close>

text \<open>What a process at a point of the protocol has on disk: \<open>Some w\<close> says the lock directory is its own and
  holds the owner record \<open>w\<close>.\<close>

fun dir_claim :: "lock_pc \<Rightarrow> owner option option" where
  "dir_claim (PRecheck _ _) = Some None"
| "dir_claim (PBackout _) = Some None"
| "dir_claim (PPublish _ _) = Some None"
| "dir_claim (PUndo _) = Some None"
| "dir_claim PUndoRemove = Some None"
| "dir_claim (PHeld owner) = Some (Some owner)"
| "dir_claim (PHeldStat owner) = Some (Some owner)"
| "dir_claim (PRelease owner) = Some (Some owner)"
| "dir_claim _ = None"

fun in_reclaim :: "lock_pc \<Rightarrow> bool" where
  "in_reclaim (PMark _ _ _) = True"
| "in_reclaim (PVerify _ _) = True"
| "in_reclaim (PVerifyAgain _ _) = True"
| "in_reclaim (PConfirm _ _) = True"
| "in_reclaim (PRemove _) = True"
| "in_reclaim (PDrop _ _) = True"
| "in_reclaim _ = False"

fun removes_dead :: "lock_pc \<Rightarrow> bool" where
  "removes_dead (PConfirm _ _) = True"
| "removes_dead (PRemove _) = True"
| "removes_dead _ = False"

fun own_record :: "lock_pc \<Rightarrow> owner option" where
  "own_record (PMkdir _ owner) = Some owner"
| "own_record (PRecheck _ owner) = Some owner"
| "own_record (PPublish _ owner) = Some owner"
| "own_record (PMark _ _ r) = Some r"
| "own_record _ = None"

fun clears_marker :: "lock_pc \<Rightarrow> bool" where
  "clears_marker (PClearMarker _) = True"
| "clears_marker _ = False"

definition holds_lock :: "lock_state \<Rightarrow> nat \<Rightarrow> bool" where
  "holds_lock s p \<longleftrightarrow> ls_life s p = Running \<and>
     (case ls_pc s p of PHeld _ \<Rightarrow> True | PHeldStat _ \<Rightarrow> True | PRelease _ \<Rightarrow> True | _ \<Rightarrow> False)"

definition record_of :: "lock_system \<Rightarrow> nat \<Rightarrow> owner \<Rightarrow> bool" where
  "record_of sys p owner \<longleftrightarrow>
     lo_pid owner = pi_pid (sy_processes sys ! p) \<and> lo_hostname owner = pi_host (sy_processes sys ! p) \<and>
     lo_start_time owner =
       (if pi_platform (sy_processes sys ! p) = ''linux'' then Some (pi_start (sy_processes sys ! p)) else None)"

definition unique_running :: "lock_system \<Rightarrow> lock_state \<Rightarrow> bool" where
  "unique_running sys s \<longleftrightarrow>
     (\<forall>p. ls_life s p = Running \<longrightarrow> p < length (sy_processes sys)) \<and>
     (\<forall>p q. ls_life s p = Running \<longrightarrow> ls_life s q = Running \<longrightarrow>
        pi_host (sy_processes sys ! p) = pi_host (sy_processes sys ! q) \<longrightarrow>
        pi_pid (sy_processes sys ! p) = pi_pid (sy_processes sys ! q) \<longrightarrow> p = q)"

definition records_ok :: "lock_system \<Rightarrow> lock_state \<Rightarrow> bool" where
  "records_ok sys s \<longleftrightarrow>
     (\<forall>p owner. own_record (ls_pc s p) = Some owner \<longrightarrow> record_of sys p owner) \<and>
     (\<forall>d. ls_lock s = Some d \<or> ls_marker s = Some d \<longrightarrow>
        ls_life s (ld_maker d) \<noteq> Unborn \<and> (\<forall>owner. ld_owner d = Some owner \<longrightarrow> record_of sys (ld_maker d) owner))"

definition claims_ok :: "lock_state \<Rightarrow> bool" where
  "claims_ok s \<longleftrightarrow>
     (\<forall>p w. ls_life s p = Running \<longrightarrow> dir_claim (ls_pc s p) = Some w \<longrightarrow>
        (\<exists>d. ls_lock s = Some d \<and> ld_maker d = p \<and> ld_owner d = w))"

definition marker_ok :: "lock_state \<Rightarrow> bool" where
  "marker_ok s \<longleftrightarrow>
     (\<forall>m. ls_marker s = Some m \<longrightarrow> ls_life s (ld_maker m) = Running \<and> in_reclaim (ls_pc s (ld_maker m))) \<and>
     (\<forall>p. ls_life s p = Running \<longrightarrow> in_reclaim (ls_pc s p) \<longrightarrow> (\<exists>m. ls_marker s = Some m \<and> ld_maker m = p)) \<and>
     (\<forall>p. ls_life s p = Running \<longrightarrow> \<not> clears_marker (ls_pc s p))"

definition removal_ok :: "lock_state \<Rightarrow> bool" where
  "removal_ok s \<longleftrightarrow>
     (\<forall>p. ls_life s p = Running \<longrightarrow> removes_dead (ls_pc s p) \<longrightarrow>
        (\<exists>d. ls_lock s = Some d \<and> ls_life s (ld_maker d) = Dead))"

definition lock_invariant :: "lock_system \<Rightarrow> lock_state \<Rightarrow> bool" where
  "lock_invariant sys s \<longleftrightarrow>
     unique_running sys s \<and> records_ok sys s \<and> claims_ok s \<and> marker_ok s \<and> removal_ok s"

text \<open>A running process is found under its process id, so an owner seen dead is not running.\<close>

lemma running_with_self:
  assumes "unique_running sys s" and "ls_life s p = Running"
  shows "running_with sys s (pi_host (sy_processes sys ! p)) (pi_pid (sy_processes sys ! p)) = Some p"
proof -
  let ?P = "\<lambda>i. ls_life s i = Running \<and> pi_host (sy_processes sys ! i) = pi_host (sy_processes sys ! p) \<and>
    pi_pid (sy_processes sys ! i) = pi_pid (sy_processes sys ! p)"
  have p: "p \<in> set [0..<length (sy_processes sys)]" "?P p"
    using assms by (auto simp: unique_running_def)
  have "find ?P [0..<length (sy_processes sys)] \<noteq> None"
    unfolding find_None_iff using p by blast
  then obtain q where q: "find ?P [0..<length (sy_processes sys)] = Some q"
    by blast
  then have "?P q"
    unfolding find_Some_iff by blast
  then have "q = p"
    using assms by (auto simp: unique_running_def)
  with q show ?thesis
    by (simp add: running_with_def)
qed

lemma seen_dead_not_running:
  assumes "unique_running sys s" and "record_of sys q owner" and "liveness_seen sys s p owner = OwnerDead"
  shows "ls_life s q \<noteq> Running"
proof
  assume "ls_life s q = Running"
  from running_with_self [OF assms(1) this] assms(2,3) show False
    by (auto simp: liveness_seen_def owner_liveness_def record_of_def Let_def split: if_splits option.splits)
qed

lemma seen_dead:
  assumes "unique_running sys s" and "records_ok sys s"
    and "ls_lock s = Some d \<or> ls_marker s = Some d" and "ld_owner d = Some owner"
    and "liveness_seen sys s p owner = OwnerDead"
  shows "ls_life s (ld_maker d) = Dead"
proof -
  have "record_of sys (ld_maker d) owner" "ls_life s (ld_maker d) \<noteq> Unborn"
    using assms(2-4) by (auto simp: records_ok_def)
  then show ?thesis
    using seen_dead_not_running [OF assms(1) _ assms(5)] by (cases "ls_life s (ld_maker d)") auto
qed

lemma create_owner_record: "record_of sys p (create_owner sys s p)"
  by (simp add: create_owner_def record_of_def Let_def)


lemma at_pc_fields [simp]:
  "ls_lock (at_pc p c s) = ls_lock s" "ls_marker (at_pc p c s) = ls_marker s" "ls_life (at_pc p c s) = ls_life s"
  "ls_clock (at_pc p c s) = ls_clock s" "ls_pc (at_pc p c s) q = (if q = p then c else ls_pc s q)"
  by (simp_all add: at_pc_def)

lemma take_token_fields [simp]:
  "ls_lock (take_token s) = ls_lock s" "ls_marker (take_token s) = ls_marker s" "ls_life (take_token s) = ls_life s"
  "ls_clock (take_token s) = ls_clock s" "ls_pc (take_token s) = ls_pc s"
  by (simp_all add: take_token_def)

lemmas invariant_parts =
  lock_invariant_def unique_running_def records_ok_def claims_ok_def marker_ok_def removal_ok_def

lemma take_token_invariant [simp]: "lock_invariant sys (take_token s) = lock_invariant sys s"
  by (simp add: invariant_parts)

text \<open>The kinds of step: only the program counter moves; the lock directory is made, published, removed; the
  marker is made, published, removed.\<close>

lemma pc_move:
  assumes "lock_invariant sys s"
    and "\<And>owner. own_record c = Some owner \<Longrightarrow> record_of sys p owner"
    and "\<And>w. dir_claim c = Some w \<Longrightarrow> \<exists>d. ls_lock s = Some d \<and> ld_maker d = p \<and> ld_owner d = w"
    and "in_reclaim c \<longleftrightarrow> in_reclaim (ls_pc s p)" and "\<not> clears_marker c"
    and "removes_dead c \<Longrightarrow> \<exists>d. ls_lock s = Some d \<and> ls_life s (ld_maker d) = Dead"
  shows "lock_invariant sys (at_pc p c s)"
  using assms by (auto simp: invariant_parts)

lemma lock_made:
  assumes "lock_invariant sys s" and "ls_life s p = Running" and "ls_lock s = None"
    and "record_of sys p owner" and "\<not> in_reclaim (ls_pc s p)"
  shows "lock_invariant sys (at_pc p (PRecheck d owner) (s\<lparr>ls_lock := Some (fresh_dir s p)\<rparr>))"
proof -
  let ?s = "at_pc p (PRecheck d owner) (s\<lparr>ls_lock := Some (fresh_dir s p)\<rparr>)"
  have "unique_running sys ?s"
    using assms by (auto simp: lock_invariant_def unique_running_def fresh_dir_def)
  moreover have "records_ok sys ?s"
    using assms by (auto simp: lock_invariant_def records_ok_def fresh_dir_def)
  moreover have "claims_ok ?s"
    using assms by (auto simp: lock_invariant_def claims_ok_def fresh_dir_def)
  moreover have "marker_ok ?s"
    using assms by (auto simp: lock_invariant_def marker_ok_def fresh_dir_def)
  moreover have "removal_ok ?s"
    using assms by (auto simp: lock_invariant_def removal_ok_def fresh_dir_def)
  ultimately show ?thesis
    by (simp add: lock_invariant_def)
qed

lemma lock_published:
  assumes "lock_invariant sys s" and "ls_life s p = Running" and "ls_lock s = Some dir" and "ld_maker dir = p"
    and "record_of sys p owner" and "\<not> in_reclaim (ls_pc s p)"
  shows "lock_invariant sys (at_pc p (PHeld owner) (s\<lparr>ls_lock := Some (publish_owner s owner dir)\<rparr>))"
proof -
  let ?s = "at_pc p (PHeld owner) (s\<lparr>ls_lock := Some (publish_owner s owner dir)\<rparr>)"
  have "unique_running sys ?s"
    using assms by (auto simp: lock_invariant_def unique_running_def publish_owner_def)
  moreover have "records_ok sys ?s"
    using assms by (auto simp: lock_invariant_def records_ok_def publish_owner_def)
  moreover have "claims_ok ?s"
    using assms by (auto simp: lock_invariant_def claims_ok_def publish_owner_def)
  moreover have "marker_ok ?s"
  proof -
    have "marker_ok s"
      using assms(1) by (simp add: lock_invariant_def)
    then show ?thesis
      using assms(2-) unfolding marker_ok_def by (simp add: publish_owner_def) blast
  qed
  moreover have "removal_ok ?s"
    using assms by (auto simp: lock_invariant_def removal_ok_def publish_owner_def)
  ultimately show ?thesis
    by (simp add: lock_invariant_def)
qed

lemma in_reclaim_unique:
  assumes "lock_invariant sys s" and "ls_life s p = Running" and "ls_life s q = Running"
    and "in_reclaim (ls_pc s p)" and "in_reclaim (ls_pc s q)"
  shows "p = q"
  using assms by (auto simp: lock_invariant_def marker_ok_def) (metis option.inject)

lemma removes_dead_in_reclaim: "removes_dead c \<Longrightarrow> in_reclaim c"
  by (cases c) simp_all

lemma lock_removed:
  assumes "lock_invariant sys s" and "ls_life s p = Running"
    and "dir_claim (ls_pc s p) \<noteq> None \<or> removes_dead (ls_pc s p)"
    and "own_record c = None" and "dir_claim c = None" and "in_reclaim c \<longleftrightarrow> in_reclaim (ls_pc s p)"
    and "\<not> clears_marker c" and "\<not> removes_dead c"
  shows "lock_invariant sys (at_pc p c (s\<lparr>ls_lock := None\<rparr>))"
proof -
  obtain d where d: "ls_lock s = Some d" "ld_maker d = p \<or> ls_life s (ld_maker d) = Dead"
    using assms(1-3) by (auto simp: lock_invariant_def claims_ok_def removal_ok_def)
  have no_claim: "dir_claim (ls_pc s q) = None" if "ls_life s q = Running" "q \<noteq> p" for q
    using assms(1) d that by (cases "dir_claim (ls_pc s q)") (auto simp: lock_invariant_def claims_ok_def)
  have no_removal: "\<not> removes_dead (ls_pc s q)" if "ls_life s q = Running" "q \<noteq> p" for q
  proof
    assume rq: "removes_dead (ls_pc s q)"
    then have "ls_life s (ld_maker d) = Dead"
      using assms(1) d(1) that(1) by (auto simp: lock_invariant_def removal_ok_def)
    then have "ld_maker d \<noteq> p"
      using assms(2) by auto
    then have "removes_dead (ls_pc s p)"
      using assms(1-3) d(1) by (auto simp: lock_invariant_def claims_ok_def)
    then show False
      using in_reclaim_unique [OF assms(1) that(1) assms(2)] rq that(2) removes_dead_in_reclaim by blast
  qed
  let ?s = "at_pc p c (s\<lparr>ls_lock := None\<rparr>)"
  have "unique_running sys ?s"
    using assms no_claim no_removal by (auto simp: lock_invariant_def unique_running_def )
  moreover have "records_ok sys ?s"
    using assms no_claim no_removal by (auto simp: lock_invariant_def records_ok_def )
  moreover have "claims_ok ?s"
    using assms no_claim no_removal by (auto simp: lock_invariant_def claims_ok_def )
  moreover have "marker_ok ?s"
    using assms no_claim no_removal by (auto simp: lock_invariant_def marker_ok_def )
  moreover have "removal_ok ?s"
    using assms no_claim no_removal by (auto simp: lock_invariant_def removal_ok_def )
  ultimately show ?thesis
    by (simp add: lock_invariant_def)
qed

lemma marker_made:
  assumes "lock_invariant sys s" and "ls_life s p = Running" and "ls_marker s = None"
    and "record_of sys p r" and "dir_claim (ls_pc s p) = None"
  shows "lock_invariant sys (at_pc p (PMark d owner r) (s\<lparr>ls_marker := Some (fresh_dir s p)\<rparr>))"
proof -
  let ?s = "at_pc p (PMark d owner r) (s\<lparr>ls_marker := Some (fresh_dir s p)\<rparr>)"
  have "unique_running sys ?s"
    using assms by (auto simp: lock_invariant_def unique_running_def fresh_dir_def)
  moreover have "records_ok sys ?s"
    using assms by (auto simp: lock_invariant_def records_ok_def fresh_dir_def)
  moreover have "claims_ok ?s"
    using assms by (auto simp: lock_invariant_def claims_ok_def fresh_dir_def)
  moreover have "marker_ok ?s"
    using assms by (auto simp: lock_invariant_def marker_ok_def fresh_dir_def)
  moreover have "removal_ok ?s"
    using assms by (auto simp: lock_invariant_def removal_ok_def fresh_dir_def)
  ultimately show ?thesis
    by (simp add: lock_invariant_def)
qed

lemma marker_published:
  assumes "lock_invariant sys s" and "ls_life s p = Running" and "ls_marker s = Some m" and "ld_maker m = p"
    and "record_of sys p r"
  shows "lock_invariant sys (at_pc p (PVerify d owner) (s\<lparr>ls_marker := Some (publish_owner s r m)\<rparr>))"
proof -
  let ?s = "at_pc p (PVerify d owner) (s\<lparr>ls_marker := Some (publish_owner s r m)\<rparr>)"
  have "unique_running sys ?s"
    using assms by (auto simp: lock_invariant_def unique_running_def publish_owner_def)
  moreover have "records_ok sys ?s"
    using assms by (auto simp: lock_invariant_def records_ok_def publish_owner_def)
  moreover have "claims_ok ?s"
    using assms by (auto simp: lock_invariant_def claims_ok_def publish_owner_def)
  moreover have "marker_ok ?s"
  proof -
    have alone: "q = p" if "ls_life s q = Running" "in_reclaim (ls_pc s q)" for q
      using assms(1,3,4) that by (fastforce simp: lock_invariant_def marker_ok_def)
    have "\<not> clears_marker (ls_pc s q)" if "ls_life s q = Running" for q
      using assms(1) that by (simp add: lock_invariant_def marker_ok_def)
    with alone show ?thesis
      using assms(2,4) by (simp add: marker_ok_def publish_owner_def)
  qed
  moreover have "removal_ok ?s"
    using assms by (auto simp: lock_invariant_def removal_ok_def publish_owner_def)
  ultimately show ?thesis
    by (simp add: lock_invariant_def)
qed

lemma marker_removed:
  assumes "lock_invariant sys s" and "ls_life s p = Running" and "in_reclaim (ls_pc s p)"
    and "own_record c = None" and "dir_claim c = None" and "\<not> in_reclaim c"
    and "\<not> clears_marker c" and "\<not> removes_dead c"
  shows "lock_invariant sys (at_pc p c (s\<lparr>ls_marker := None\<rparr>))"
proof -
  have alone: "\<not> in_reclaim (ls_pc s q)" if "ls_life s q = Running" "q \<noteq> p" for q
    using in_reclaim_unique [OF assms(1) that(1) assms(2)] assms(3) that(2) by blast
  let ?s = "at_pc p c (s\<lparr>ls_marker := None\<rparr>)"
  have "unique_running sys ?s"
    using assms alone by (auto simp: lock_invariant_def unique_running_def )
  moreover have "records_ok sys ?s"
    using assms alone by (auto simp: lock_invariant_def records_ok_def )
  moreover have "claims_ok ?s"
    using assms alone by (auto simp: lock_invariant_def claims_ok_def )
  moreover have "marker_ok ?s"
    using assms alone by (auto simp: lock_invariant_def marker_ok_def )
  moreover have "removal_ok ?s"
    using assms alone by (auto simp: lock_invariant_def removal_ok_def )
  ultimately show ?thesis
    by (simp add: lock_invariant_def)
qed


section \<open>Every step keeps the invariant\<close>

lemma own_claim:
  assumes "lock_invariant sys s" and "ls_life s p = Running" and "dir_claim (ls_pc s p) = Some w"
  shows "\<exists>d. ls_lock s = Some d \<and> ld_maker d = p \<and> ld_owner d = w"
  using assms by (simp add: lock_invariant_def claims_ok_def)

lemma own_record_ok:
  assumes "lock_invariant sys s" and "own_record (ls_pc s p) = Some owner"
  shows "record_of sys p owner"
  using assms by (simp add: lock_invariant_def records_ok_def)

lemma own_marker:
  assumes "lock_invariant sys s" and "ls_life s p = Running" and "in_reclaim (ls_pc s p)"
  shows "\<exists>m. ls_marker s = Some m \<and> ld_maker m = p"
  using assms by (simp add: lock_invariant_def marker_ok_def)

lemma create_step_invariant:
  assumes inv: "lock_invariant sys s" and run: "ls_life s p = Running"
  shows "lock_invariant sys (create_step sys p ok s)"
proof (cases "ls_pc s p")
  case (PTry d)
  then show ?thesis
    using pc_move [OF inv, of "PStat d" p] pc_move [OF inv, of "PMkdir d (create_owner sys s p)" p]
    by (simp add: create_step_def create_owner_record)
next
  case (PMkdir d owner)
  then show ?thesis
    using pc_move [OF inv, of "PStat d" p] lock_made [OF inv run] own_record_ok [OF inv, of p owner]
    by (simp add: create_step_def)
next
  case (PRecheck d owner)
  then show ?thesis
    using pc_move [OF inv, of "PBackout d" p] pc_move [OF inv, of "PPublish d owner" p]
      own_claim [OF inv run] own_record_ok [OF inv, of p owner]
    by (simp add: create_step_def)
next
  case (PBackout d)
  then show ?thesis
    using lock_removed [OF inv run, of "PStat d"] by (simp add: create_step_def)
next
  case (PPublish d owner)
  moreover obtain dir where "ls_lock s = Some dir" "ld_maker dir = p" "ld_owner dir = None"
    using own_claim [OF inv run] PPublish by auto
  ultimately show ?thesis
    using lock_published [OF inv run, of dir owner] pc_move [OF inv, of "PUndo owner" p]
      own_record_ok [OF inv, of p owner]
    by (simp add: create_step_def)
qed (simp_all add: create_step_def inv)

lemma undo_step_invariant:
  assumes inv: "lock_invariant sys s" and run: "ls_life s p = Running"
  shows "lock_invariant sys (undo_step p s)"
proof (cases "ls_pc s p")
  case (PUndo owner)
  moreover obtain dir where "ls_lock s = Some dir" "ld_maker dir = p" "ld_owner dir = None"
    using own_claim [OF inv run] PUndo by auto
  ultimately show ?thesis
    using pc_move [OF inv, of PUndoRemove p] by (simp add: undo_step_def owner_on_disk_def)
next
  case PUndoRemove
  then show ?thesis
    using lock_removed [OF inv run, of "PFailed LockIoError"] by (simp add: undo_step_def)
qed (simp_all add: undo_step_def inv)

lemma inspect_step_invariant:
  assumes inv: "lock_invariant sys s"
  shows "lock_invariant sys (inspect_step sys p s)"
proof (cases "ls_pc s p")
  case (PStat d)
  then show ?thesis
    using pc_move [OF inv, of "PWait d" p] pc_move [OF inv, of "PRead d _" p]
    by (simp add: inspect_step_def split: option.split)
next
  case (PRead d mtime)
  then show ?thesis
    using pc_move [OF inv, of "PWait d" p] pc_move [OF inv, of "PReclaim d _" p] pc_move [OF inv, of "PFailed _" p]
    by (simp add: inspect_step_def split: sum.split lock_inspection.split)
next
  case (PWait d)
  then show ?thesis
    using pc_move [OF inv, of "PFailed LockBusy" p] pc_move [OF inv, of "PTry d" p]
    by (simp add: inspect_step_def)
qed (simp_all add: inspect_step_def inv)

lemma release_step_invariant:
  assumes inv: "lock_invariant sys s" and run: "ls_life s p = Running"
  shows "lock_invariant sys (release_step p ok s)"
proof (cases "ls_pc s p")
  case (PHeld owner)
  then have "\<exists>d. ls_lock s = Some d \<and> ld_maker d = p \<and> ld_owner d = Some owner"
    using own_claim [OF inv run] by simp
  then show ?thesis
    using PHeld pc_move [OF inv, of "PRelease owner" p]
    by (auto simp: release_step_def owner_on_disk_def)
next
  case (PHeldStat owner)
  then show ?thesis
    using pc_move [OF inv, of PIdle p] pc_move [OF inv, of "PFailed LockReleaseFailed" p]
    by (simp add: release_step_def)
next
  case (PRelease owner)
  then show ?thesis
    using lock_removed [OF inv run, of PIdle] pc_move [OF inv, of "PFailed LockReleaseFailed" p]
    by (simp add: release_step_def split: option.split)
qed (simp_all add: release_step_def inv)

lemma reclaimable_dead:
  assumes inv: "lock_invariant sys s"
    and "reclaimable cf now (owner_on_disk (ls_lock s)) token (liveness_seen sys s p)"
  shows "\<exists>d. ls_lock s = Some d \<and> ls_life s (ld_maker d) = Dead"
proof -
  obtain d owner where d: "ls_lock s = Some d" "ld_owner d = Some owner" "liveness_seen sys s p owner = OwnerDead"
    using assms(2) by (cases "ls_lock s") (auto simp: reclaimable_def owner_on_disk_def split: option.splits)
  have "ls_life s (ld_maker d) = Dead"
    by (rule seen_dead [OF _ _ _ d(2,3)]) (use inv d(1) in \<open>simp_all add: lock_invariant_def\<close>)
  with d(1) show ?thesis
    by blast
qed

lemma existing_reclaimer_step_invariant:
  assumes inv: "lock_invariant sys s" and run: "ls_life s p = Running"
  shows "lock_invariant sys (existing_reclaimer_step sys p ok s)"
proof (cases "ls_pc s p")
  case (PSeeMarker d)
  have "liveness_seen sys s p r \<noteq> OwnerDead" if seen: "owner_on_disk (ls_marker s) = Some r" for r
  proof
    assume dead: "liveness_seen sys s p r = OwnerDead"
    obtain m where m: "ls_marker s = Some m" "ld_owner m = Some r"
      using seen by (cases "ls_marker s") (auto simp: owner_on_disk_def)
    have "ls_life s (ld_maker m) = Dead"
      by (rule seen_dead [OF _ _ _ m(2) dead]) (use inv m(1) in \<open>simp_all add: lock_invariant_def\<close>)
    then show False
      using inv m(1) by (simp add: lock_invariant_def marker_ok_def)
  qed
  with PSeeMarker show ?thesis
    using pc_move [OF inv, of "PFailed LockStaleReclaimerInvalid" p] pc_move [OF inv, of "PWait d" p]
    by (simp add: existing_reclaimer_step_def Let_def split: option.split)
next
  case (PClearMarker d)
  then show ?thesis
    using inv run by (auto simp: lock_invariant_def marker_ok_def)
qed (simp_all add: existing_reclaimer_step_def inv Let_def)

lemma reclaim_step_invariant:
  assumes inv: "lock_invariant sys s" and run: "ls_life s p = Running"
  shows "lock_invariant sys (reclaim_step sys p ok s)"
proof (cases "ls_pc s p")
  case (PReclaim d owner)
  then show ?thesis
    using pc_move [OF inv, of "PSeeMarker d" p] marker_made [OF inv run]
    by (simp add: reclaim_step_def create_owner_record)
next
  case (PMark d owner r)
  moreover obtain m where "ls_marker s = Some m" "ld_maker m = p"
    using own_marker [OF inv run] PMark by auto
  ultimately show ?thesis
    using marker_published [OF inv run, of m r] pc_move [OF inv, of "PDrop d (ReclaimError RawIoError)" p]
      own_record_ok [OF inv, of p r]
    by (simp add: reclaim_step_def)
next
  case (PVerify d owner)
  then show ?thesis
    using pc_move [OF inv, of "PVerifyAgain d owner" p] pc_move [OF inv, of "PDrop d NotReclaimed" p]
    by (simp add: reclaim_step_def Let_def)
next
  case (PVerifyAgain d owner)
  then show ?thesis
    using pc_move [OF inv, of "PConfirm d owner" p] pc_move [OF inv, of "PDrop d NotReclaimed" p]
      reclaimable_dead [OF inv]
    by (simp add: reclaim_step_def Let_def)
next
  case (PConfirm d owner)
  then show ?thesis
    using pc_move [OF inv, of "PRemove d" p] pc_move [OF inv, of "PDrop d NotReclaimed" p] inv run
    by (simp add: reclaim_step_def Let_def lock_invariant_def removal_ok_def)
next
  case (PRemove d)
  then show ?thesis
    using lock_removed [OF inv run, of "PDrop d Reclaimed"] pc_move [OF inv, of "PDrop d NotReclaimed" p]
      pc_move [OF inv, of "PDrop d (ReclaimError LockIoError)" p]
    by (simp add: reclaim_step_def Let_def split: option.split)
next
  case (PDrop d result)
  then show ?thesis
    using marker_removed [OF inv run] by (simp add: reclaim_step_def Let_def split: reclaim_result.split)
qed (simp_all add: reclaim_step_def inv Let_def)

lemma process_step_invariant:
  assumes inv: "lock_invariant sys s" and run: "ls_life s p = Running"
  shows "lock_invariant sys (process_step sys p ok s)"
  using create_step_invariant [OF assms, of ok] inspect_step_invariant [OF inv, of p]
    release_step_invariant [OF assms, of ok] reclaim_step_invariant [OF assms, of ok]
    undo_step_invariant [OF assms] existing_reclaimer_step_invariant [OF assms, of ok]
    pc_move [OF inv, of "PTry (ls_clock s + cf_acquire_timeout (sy_config sys))" p]
  by (cases "ls_pc s p") (simp_all add: process_step_def)


lemma spawn_invariant:
  assumes inv: "lock_invariant sys s" and spawn: "can_spawn sys s p"
  shows "lock_invariant sys (at_pc p PIdle (s\<lparr>ls_life := (ls_life s)(p := Running)\<rparr>))"
proof -
  let ?s = "at_pc p PIdle (s\<lparr>ls_life := (ls_life s)(p := Running)\<rparr>)"
  have p: "p < length (sy_processes sys)" "ls_life s p = Unborn"
    using spawn by (simp_all add: can_spawn_def)
  have other: "\<not> (pi_host (sy_processes sys ! q) = pi_host (sy_processes sys ! p) \<and>
      pi_pid (sy_processes sys ! q) = pi_pid (sy_processes sys ! p))" if "ls_life s q = Running" for q
  proof
    assume same: "pi_host (sy_processes sys ! q) = pi_host (sy_processes sys ! p) \<and>
      pi_pid (sy_processes sys ! q) = pi_pid (sy_processes sys ! p)"
    have "unique_running sys s"
      using inv by (simp add: lock_invariant_def)
    from running_with_self [OF this that] same spawn show False
      by (simp add: can_spawn_def)
  qed
  have "unique_running sys ?s"
    using inv p other by (simp add: lock_invariant_def unique_running_def) metis
  moreover have "records_ok sys ?s"
    using inv by (auto simp: lock_invariant_def records_ok_def)
  moreover have "claims_ok ?s"
    using inv by (auto simp: lock_invariant_def claims_ok_def)
  moreover have "marker_ok ?s"
    using inv p by (auto simp: lock_invariant_def marker_ok_def)
  moreover have "removal_ok ?s"
  proof -
    have "\<exists>d. ls_lock s = Some d \<and> ls_life s (ld_maker d) = Dead \<and> ld_maker d \<noteq> p"
      if running: "ls_life s q = Running" and removal: "removes_dead (ls_pc s q)" for q
    proof -
      obtain d where "ls_lock s = Some d" "ls_life s (ld_maker d) = Dead"
        using inv running removal by (auto simp: lock_invariant_def removal_ok_def)
      then show ?thesis
        using p(2) by force
    qed
    then show ?thesis
      by (fastforce simp: removal_ok_def)
  qed
  ultimately show ?thesis
    by (simp add: lock_invariant_def)
qed

lemma die_invariant:
  assumes inv: "lock_invariant sys s" and die: "\<not> in_reclaim (ls_pc s p)"
  shows "lock_invariant sys (s\<lparr>ls_life := (ls_life s)(p := Dead)\<rparr>)"
proof -
  let ?s = "s\<lparr>ls_life := (ls_life s)(p := Dead)\<rparr>"
  have "unique_running sys ?s"
    using inv by (auto simp: lock_invariant_def unique_running_def)
  moreover have "records_ok sys ?s"
    using inv by (auto simp: lock_invariant_def records_ok_def)
  moreover have "claims_ok ?s"
    using inv by (auto simp: lock_invariant_def claims_ok_def)
  moreover have "marker_ok ?s"
    using inv die by (auto simp: lock_invariant_def marker_ok_def)
  moreover have "removal_ok ?s"
    using inv by (fastforce simp: lock_invariant_def removal_ok_def)
  ultimately show ?thesis
    by (simp add: lock_invariant_def)
qed

lemma initial_invariant: "lock_invariant sys initial_lock_state"
  by (simp add: invariant_parts initial_lock_state_def)

text \<open>A run is orderly when no process dies while it recovers a stale lock, that is between making and
  removing the marker directory.\<close>

definition orderly_event :: "lock_state \<Rightarrow> lock_event \<Rightarrow> bool" where
  "orderly_event s event = (case event of Die p \<Rightarrow> \<not> in_reclaim (ls_pc s p) | _ \<Rightarrow> True)"

inductive orderly_reachable :: "lock_system \<Rightarrow> lock_state \<Rightarrow> bool" for sys where
  orderly_initial: "orderly_reachable sys initial_lock_state"
| orderly_step: "orderly_reachable sys s \<Longrightarrow> orderly_event s event \<Longrightarrow> orderly_reachable sys (lock_step sys event s)"

lemma lock_step_invariant:
  assumes "lock_invariant sys s" and "orderly_event s event"
  shows "lock_invariant sys (lock_step sys event s)"
proof (cases event)
  case (Tick n)
  then show ?thesis
    using assms(1) by (simp add: lock_step_def invariant_parts)
qed (use assms spawn_invariant process_step_invariant die_invariant in
      \<open>simp_all add: lock_step_def orderly_event_def\<close>)

lemma orderly_invariant: "orderly_reachable sys s \<Longrightarrow> lock_invariant sys s"
  by (induction rule: orderly_reachable.induct) (simp_all add: initial_invariant lock_step_invariant)

lemma orderly_run:
  "orderly_reachable sys s \<Longrightarrow> (\<And>p. Die p \<notin> set events) \<Longrightarrow> orderly_reachable sys (run_lock sys events s)"
proof (induction events arbitrary: s)
  case (Cons event events)
  have "orderly_event s event"
    using Cons.prems(2) by (cases event) (auto simp: orderly_event_def)
  then show ?case
    using Cons.IH [OF orderly_step [OF Cons.prems(1)]] Cons.prems(2) by (simp add: run_lock_def)
qed (simp add: run_lock_def)

lemma holder_owns_dir:
  assumes "lock_invariant sys s" and "holds_lock s p"
  shows "\<exists>d. ls_lock s = Some d \<and> ld_maker d = p"
proof -
  have "\<exists>w. dir_claim (ls_pc s p) = Some w" "ls_life s p = Running"
    using assms(2) by (auto simp: holds_lock_def split: lock_pc.splits)
  then show ?thesis
    using own_claim [OF assms(1)] by blast
qed

section \<open>Mutual exclusion\<close>

text \<open>C1: The registry lock is exclusive: however many processes on any hosts acquire, release, recover
  stale locks, fail to write and die outside of a recovery, at most one running process holds the lock.\<close>

theorem registry_lock_exclusive:
  assumes "orderly_reachable sys s" and "holds_lock s p" and "holds_lock s q"
  shows "p = q"
  using holder_owns_dir [OF orderly_invariant [OF assms(1)] assms(2)]
    holder_owns_dir [OF orderly_invariant [OF assms(1)] assms(3)] by auto

definition demo_process :: "int \<Rightarrow> process_info" where
  "demo_process pid = \<lparr>pi_host = ''h'', pi_pid = pid, pi_start = ''7'', pi_platform = ''linux''\<rparr>"

definition demo_system :: lock_system where
  "demo_system = \<lparr>sy_config = default_lock_config, sy_processes = map demo_process [11, 12, 13, 14, 15]\<rparr>"

definition steps :: "nat \<Rightarrow> nat \<Rightarrow> lock_event list" where
  "steps n p = replicate n (Step p True)"

lemma registry_lock_exclusive_witness:
  "\<not> holds_lock (run_lock demo_system ([Spawn 0, Spawn 1] @ steps 5 0 @ steps 5 1) initial_lock_state) 1"
proof -
  let ?s = "run_lock demo_system ([Spawn 0, Spawn 1] @ steps 5 0 @ steps 5 1) initial_lock_state"
  have "holds_lock ?s 0"
    by code_simp
  moreover have "orderly_reachable demo_system ?s"
    by (rule orderly_run [OF orderly_initial]) (auto simp: steps_def)
  ultimately show ?thesis
    using registry_lock_exclusive [of demo_system ?s 0 1] by auto
qed


lemma process_step_other:
  assumes "q \<noteq> p"
  shows "ls_pc (process_step sys q ok s) p = ls_pc s p" "ls_life (process_step sys q ok s) = ls_life s"
  using assms
  by (cases "ls_pc s q"; auto simp: process_step_def create_step_def undo_step_def inspect_step_def
        existing_reclaimer_step_def reclaim_step_def
        release_step_def Let_def split: option.split sum.split lock_inspection.split)+

lemma process_step_lock:
  assumes "ls_lock s = Some d" and "ls_lock (process_step sys q ok s) \<noteq> ls_lock s"
  shows "dir_claim (ls_pc s q) \<noteq> None \<or> removes_dead (ls_pc s q)"
  using assms
  by (cases "ls_pc s q")
     (auto simp: process_step_def create_step_def undo_step_def inspect_step_def
        existing_reclaimer_step_def reclaim_step_def release_step_def Let_def
       split: option.splits sum.splits lock_inspection.splits if_splits)

text \<open>What a holder has is not touched by others: an event of another process (a step, a birth or an
  orderly death) or of the clock leaves the lock directory and the holder's position as they are.\<close>

theorem held_lock_undisturbed:
  assumes "orderly_reachable sys s" and "holds_lock s p" and "orderly_event s event"
    and "event \<notin> {Step p True, Step p False, Die p}"
  shows "ls_lock (lock_step sys event s) = ls_lock s \<and> ls_pc (lock_step sys event s) p = ls_pc s p \<and>
    holds_lock (lock_step sys event s) p"
proof -
  have inv: "lock_invariant sys s"
    by (rule orderly_invariant [OF assms(1)])
  obtain d where d: "ls_lock s = Some d" "ld_maker d = p"
    using holder_owns_dir [OF inv assms(2)] by blast
  have run: "ls_life s p = Running"
    using assms(2) by (simp add: holds_lock_def)
  have "ls_lock (lock_step sys event s) = ls_lock s \<and> ls_pc (lock_step sys event s) p = ls_pc s p \<and>
      ls_life (lock_step sys event s) p = Running"
  proof (cases event)
    case (Step q ok)
    then have "q \<noteq> p"
      using assms(4) by (cases ok) auto
    have "ls_lock (process_step sys q ok s) = ls_lock s" if stepping: "ls_life s q = Running"
    proof (rule ccontr)
      assume changed: "ls_lock (process_step sys q ok s) \<noteq> ls_lock s"
      from process_step_lock [OF d(1) this] show False
      proof
        assume "dir_claim (ls_pc s q) \<noteq> None"
        then show False
          using own_claim [OF inv stepping] d \<open>q \<noteq> p\<close> by auto
      next
        assume "removes_dead (ls_pc s q)"
        then show False
          using inv stepping d run by (auto simp: lock_invariant_def removal_ok_def)
      qed
    qed
    then show ?thesis
      using Step run process_step_other [OF \<open>q \<noteq> p\<close>] by (simp add: lock_step_def)
  qed (use run assms(4) in \<open>auto simp: lock_step_def can_spawn_def\<close>)
  then show ?thesis
    using assms(2) by (simp add: holds_lock_def)
qed

lemma held_lock_undisturbed_witness:
  "holds_lock (run_lock demo_system (steps 1 1) (run_lock demo_system ([Spawn 0, Spawn 1] @ steps 5 0) initial_lock_state)) 0"
proof -
  let ?s = "run_lock demo_system ([Spawn 0, Spawn 1] @ steps 5 0) initial_lock_state"
  have "holds_lock ?s 0"
    by code_simp
  moreover have "orderly_reachable demo_system ?s"
    by (rule orderly_run [OF orderly_initial]) (auto simp: steps_def)
  ultimately show ?thesis
    using held_lock_undisturbed [of demo_system ?s 0 "Step 1 True"]
    by (simp add: orderly_event_def run_lock_def steps_def)
qed

lemma liveness_seen_life:
  "ls_life s' = ls_life s \<Longrightarrow> liveness_seen sys s' p owner = liveness_seen sys s p owner"
  by (simp add: liveness_seen_def running_with_def)

lemma liveness_seen_updates [simp]:
  "liveness_seen sys (at_pc q c s) p = liveness_seen sys s p"
  "liveness_seen sys (take_token s) p = liveness_seen sys s p"
  "liveness_seen sys (s\<lparr>ls_lock := l\<rparr>) p = liveness_seen sys s p"
  "liveness_seen sys (s\<lparr>ls_marker := l\<rparr>) p = liveness_seen sys s p"
  by (rule ext, rule liveness_seen_life, simp)+

definition same_disk :: "lock_state \<Rightarrow> lock_state \<Rightarrow> bool" where
  "same_disk s' s \<longleftrightarrow>
     ls_lock s' = ls_lock s \<and> ls_marker s' = ls_marker s \<and> ls_life s' = ls_life s \<and> ls_clock s' = ls_clock s"

lemmas solo_rules =
  steps_def run_lock_def eval_nat_numeral lock_step_def process_step_def create_step_def inspect_step_def
  reclaim_step_def owner_on_disk_def Let_def

lemma inspection_finds_stale:
  assumes "ls_life s p = Running" and "ls_pc s p = PTry deadline" and "ls_marker s = None"
    and "ls_lock s = Some dir" and "ld_owner dir = Some owner"
    and "liveness_seen sys s p owner = OwnerDead"
    and "0 \<le> cf_stale_after (sy_config sys)"
    and "cf_stale_after (sy_config sys) \<le> ls_clock s - lo_acquired_at owner"
  shows "ls_pc (run_lock sys (steps 4 p) s) p = PReclaim deadline owner \<and> same_disk (run_lock sys (steps 4 p) s) s"
proof -
  have "inspect_existing (sy_config sys) (ls_clock s) (ld_mtime dir) (Some owner) (liveness_seen sys s p) =
      Inr (InspectStale owner)"
    using assms(6-8) by (simp add: inspect_existing_def Let_def)
  then show ?thesis
    using assms(1-5)
    by (simp add: solo_rules same_disk_def)
qed

lemma recovery_removes:
  assumes "ls_life s p = Running" and "ls_pc s p = PReclaim deadline owner" and "ls_marker s = None"
    and "ls_lock s = Some dir" and "ld_owner dir = Some owner"
    and "liveness_seen sys s p owner = OwnerDead"
    and "cf_stale_after (sy_config sys) \<le> ls_clock s - lo_acquired_at owner"
  shows "ls_pc (run_lock sys (steps 6 p) s) p = PDrop deadline Reclaimed \<and>
    ls_lock (run_lock sys (steps 6 p) s) = None \<and> ls_life (run_lock sys (steps 6 p) s) = ls_life s"
proof -
  have "reclaimable (sy_config sys) (ls_clock s) (Some owner) (lo_token owner) (liveness_seen sys s p)"
    using assms(6,7) by (simp add: reclaimable_def)
  then show ?thesis
    using assms(1-5)
    by (simp add: solo_rules)
qed

lemma acquisition_after_recovery:
  assumes "ls_life s p = Running" and "ls_pc s p = PDrop deadline Reclaimed" and "ls_lock s = None"
  shows "holds_lock (run_lock sys (steps 5 p) s) p"
  using assms by (simp add: solo_rules holds_lock_def)

lemma run_lock_append: "run_lock sys (es @ fs) s = run_lock sys fs (run_lock sys es s)"
  by (simp add: run_lock_def)

lemma steps_append: "steps m p @ steps n p = steps (m + n) p"
  by (simp add: steps_def replicate_add)

lemma recovery_without_marker:
  assumes "ls_life s p = Running" and "ls_pc s p = PTry deadline" and "ls_marker s = None"
    and "ls_lock s = Some dir" and "ld_owner dir = Some owner"
    and "liveness_seen sys s p owner = OwnerDead"
    and "0 \<le> cf_stale_after (sy_config sys)"
    and "cf_stale_after (sy_config sys) \<le> ls_clock s - lo_acquired_at owner"
  shows "holds_lock (run_lock sys (steps 15 p) s) p"
proof -
  define s1 where "s1 = run_lock sys (steps 4 p) s"
  define s2 where "s2 = run_lock sys (steps 6 p) s1"
  have s1: "ls_pc s1 p = PReclaim deadline owner" "same_disk s1 s"
    using inspection_finds_stale [OF assms] by (simp_all add: s1_def)
  then have "ls_pc s2 p = PDrop deadline Reclaimed" "ls_lock s2 = None" "ls_life s2 = ls_life s"
    using recovery_removes [of s1 p deadline owner dir sys] assms
    by (simp_all add: s2_def same_disk_def liveness_seen_life [of s1 s])
  then have "holds_lock (run_lock sys (steps 5 p) s2) p"
    using acquisition_after_recovery assms(1) by simp
  moreover have "steps 15 p = steps 4 p @ steps 6 p @ steps 5 p"
    by (simp add: steps_append)
  ultimately show ?thesis
    by (simp add: run_lock_append s1_def s2_def)
qed

text \<open>A marker that a dead recoverer left behind is cleared first.\<close>

definition same_lock :: "lock_state \<Rightarrow> lock_state \<Rightarrow> bool" where
  "same_lock s' s \<longleftrightarrow> ls_lock s' = ls_lock s \<and> ls_life s' = ls_life s \<and> ls_clock s' = ls_clock s"

lemma marker_seen:
  assumes "ls_life s p = Running" and "ls_pc s p = PTry deadline" and "ls_marker s = Some m"
    and "ls_lock s = Some dir" and "ld_owner dir = Some owner"
    and "liveness_seen sys s p owner = OwnerDead"
    and "0 \<le> cf_stale_after (sy_config sys)"
    and "cf_stale_after (sy_config sys) \<le> ls_clock s - lo_acquired_at owner"
  shows "ls_pc (run_lock sys (steps 4 p) s) p = PSeeMarker deadline \<and> same_disk (run_lock sys (steps 4 p) s) s"
proof -
  have "inspect_existing (sy_config sys) (ls_clock s) (ld_mtime dir) (Some owner) (liveness_seen sys s p) =
      Inr (InspectStale owner)"
    using assms(6-8) by (simp add: inspect_existing_def Let_def)
  then show ?thesis
    using assms(1-5)
    by (simp add: solo_rules same_disk_def)
qed

lemma marker_cleared:
  assumes "ls_life s p = Running" and "ls_pc s p = PSeeMarker deadline" and "ls_marker s = Some m"
    and "ld_owner m = Some recoverer" and "liveness_seen sys s p recoverer = OwnerDead"
    and "cf_stale_after (sy_config sys) \<le> ls_clock s - lo_acquired_at recoverer" and "ls_clock s < deadline"
  shows "ls_pc (run_lock sys (steps 3 p) s) p = PTry deadline \<and> ls_marker (run_lock sys (steps 3 p) s) = None \<and>
    same_lock (run_lock sys (steps 3 p) s) s"
  using assms by (simp add: solo_rules existing_reclaimer_step_def same_lock_def)

text \<open>C22: Recovery after a crash. A running process starts an attempt while the lock is held by a dead owner whose record
  is old enough; there is no recovery marker, or the one there is has an owner that is also dead and old enough, and then
  the deadline has not passed. If nobody else acts and no write fails, fifteen steps of the process recover and acquire
  the lock, twenty-two when it has to clear the marker first.\<close>

theorem stale_lock_recovered:
  assumes "ls_life s p = Running" and "ls_pc s p = PTry deadline"
    and "ls_lock s = Some dir" and "ld_owner dir = Some owner"
    and "liveness_seen sys s p owner = OwnerDead"
    and "0 \<le> cf_stale_after (sy_config sys)"
    and "cf_stale_after (sy_config sys) \<le> ls_clock s - lo_acquired_at owner"
    and "case ls_marker s of None \<Rightarrow> True | Some m \<Rightarrow> ls_clock s < deadline \<and>
           (\<exists>r. ld_owner m = Some r \<and> liveness_seen sys s p r = OwnerDead \<and>
                cf_stale_after (sy_config sys) \<le> ls_clock s - lo_acquired_at r)"
  shows "holds_lock (run_lock sys (steps (if ls_marker s = None then 15 else 22) p) s) p"
proof (cases "ls_marker s")
  case None
  then show ?thesis using recovery_without_marker [OF assms(1,2) _ assms(3-7)] by simp
next
  case (Some m)
  define s1 where "s1 = run_lock sys (steps 4 p) s"
  define s2 where "s2 = run_lock sys (steps 3 p) s1"
  obtain r where r: "ld_owner m = Some r" "liveness_seen sys s p r = OwnerDead" "ls_clock s < deadline"
    "cf_stale_after (sy_config sys) \<le> ls_clock s - lo_acquired_at r"
    using assms(8) Some by auto
  have s1: "ls_pc s1 p = PSeeMarker deadline" "same_disk s1 s"
    using marker_seen [OF assms(1,2) Some assms(3-7)] by (simp_all add: s1_def)
  then have "ls_pc s2 p = PTry deadline" "ls_marker s2 = None" "same_lock s2 s"
    using marker_cleared [of s1 p deadline m r sys] Some r assms(1)
    by (simp_all add: s2_def same_disk_def same_lock_def liveness_seen_life [of s1 s])
  then have "holds_lock (run_lock sys (steps 15 p) s2) p"
    using recovery_without_marker [of s2 p deadline dir owner sys] assms
    by (simp add: same_lock_def liveness_seen_life [of s2 s])
  moreover have "steps 22 p = steps 4 p @ steps 3 p @ steps 15 p"
    by (simp add: steps_append)
  ultimately show ?thesis
    using Some by (simp add: run_lock_append s1_def s2_def)
qed

text \<open>Process 0 takes the lock and dies, process 1 dies in the middle of its recovery, process 2 starts an attempt.\<close>

definition two_deaths :: lock_state where
  "two_deaths = run_lock demo_system
     ([Spawn 0, Spawn 1, Spawn 2] @ steps 5 0 @ [Die 0, Tick 5000] @ steps 7 1 @ [Die 1, Tick 5000] @ steps 1 2) initial_lock_state"

lemma stale_lock_recovered_witness:
  "ls_marker two_deaths \<noteq> None \<and> holds_lock (run_lock demo_system (steps 22 2) two_deaths) 2"
proof -
  let ?owner = "create_owner demo_system (take_token initial_lock_state) 0\<lparr>lo_token := 0\<rparr>"
  let ?recoverer = "create_owner demo_system (initial_lock_state\<lparr>ls_clock := 5000, ls_next_token := 2\<rparr>) 1"
  have facts: "(ls_life two_deaths 2, ls_pc two_deaths 2, ls_lock two_deaths, ls_clock two_deaths,
      liveness_seen demo_system two_deaths 2 ?owner, liveness_seen demo_system two_deaths 2 ?recoverer) =
    (Running, PTry 20000, Some \<lparr>ld_maker = 0, ld_mtime = 0, ld_owner = Some ?owner\<rparr>, 10000, OwnerDead, OwnerDead)"
    "ls_marker two_deaths = Some \<lparr>ld_maker = 1, ld_mtime = 5000, ld_owner = Some ?recoverer\<rparr>"
    "lo_acquired_at ?owner = 0" "lo_acquired_at ?recoverer = 5000"
    by code_simp+
  show ?thesis
    using stale_lock_recovered [of two_deaths 2 20000 _ ?owner demo_system] facts
    by (simp add: demo_system_def default_lock_config_def)
qed

section \<open>What the protocol does not exclude\<close>

definition abandoned_marker_run :: "lock_event list" where
  "abandoned_marker_run =
     map Spawn [0, 1, 2, 3, 4] @ steps 5 0 @ [Die 0, Tick 5000] @
     steps 7 1 @ [Die 1, Tick 5000] @
     steps 5 2 @ steps 5 3 @ steps 1 3 @
     steps 3 2 @ steps 9 2 @
     steps 1 3 @ steps 16 4 @ steps 6 2"


text \<open>C39: A stale reclaim marker breaks the exclusion: a process that dies while it recovers a dead owner's
  lock leaves a marker behind; of two processes that both judged that marker abandoned one may remove it after
  the other has already made its own, and the recovery that then goes on unprotected removes a lock that a third
  process has acquired since. At the end two running processes hold the lock.\<close>

theorem abandoned_marker_breaks_exclusion:
  "\<exists>events. let s = run_lock demo_system events initial_lock_state in holds_lock s 2 \<and> holds_lock s 4"
proof -
  have "let s = run_lock demo_system abandoned_marker_run initial_lock_state in holds_lock s 2 \<and> holds_lock s 4"
    by code_simp
  then show ?thesis
    by blast
qed

text \<open>A regular release can make an acquisition fail. A process \<open>p\<close> holds the lock with its owner record published,
  and a process \<open>q\<close> has just taken the age of the lock directory, which exceeds the grace period of a missing owner
  record. If \<open>p\<close> now releases and nothing goes wrong, \<open>q\<close> finds no owner.json in a directory that is gone and fails
  with LOCK_INVALID, although the lock is free.\<close>

theorem release_during_inspection_is_reported_invalid:
  assumes "orderly_reachable sys s" and "ls_life s p = Running" and "ls_pc s p = PHeld owner"
    and "ls_life s q = Running" and "ls_pc s q = PRead deadline mtime"
    and "cf_metadata_grace (sy_config sys) \<le> ls_clock s - mtime"
  shows "owner_on_disk (ls_lock s) = Some owner \<and>
    ls_lock (run_lock sys [Step p True, Step p True] s) = None \<and>
    ls_pc (run_lock sys [Step p True, Step p True] s) p = PIdle \<and>
    ls_pc (run_lock sys [Step p True, Step p True, Step q True] s) q = PFailed LockInvalid"
proof -
  have "p \<noteq> q" using assms(3,5) by auto
  have inv: "lock_invariant sys s" by (rule orderly_invariant [OF assms(1)])
  obtain d where d: "ls_lock s = Some d" "ld_owner d = Some owner"
    using own_claim [OF inv assms(2), of "Some owner"] assms(3) by auto
  then show ?thesis
    using assms(2-6) \<open>p \<noteq> q\<close>
    by (simp add: run_lock_def lock_step_def process_step_def release_step_def inspect_step_def inspect_existing_def
        owner_on_disk_def at_pc_def)
qed

lemma release_during_inspection_is_reported_invalid_witness:
  "\<exists>s. orderly_reachable demo_system s \<and> holds_lock s 0 \<and>
     ls_lock (run_lock demo_system [Step 0 True, Step 0 True] s) = None \<and>
     ls_pc (run_lock demo_system [Step 0 True, Step 0 True, Step 1 True] s) 1 = PFailed LockInvalid"
proof -
  let ?s = "run_lock demo_system ([Spawn 0, Spawn 1] @ steps 5 0 @ [Tick 1000] @ steps 4 1) initial_lock_state"
  let ?owner = "create_owner demo_system (take_token initial_lock_state) 0\<lparr>lo_token := 0\<rparr>"
  have facts: "(ls_life ?s 0, ls_pc ?s 0, ls_life ?s 1, ls_pc ?s 1, ls_clock ?s) =
      (Running, PHeld ?owner, Running, PRead 11000 0, 1000)"
    by code_simp
  moreover have "orderly_reachable demo_system ?s"
    by (rule orderly_run [OF orderly_initial]) (auto simp: steps_def)
  moreover have "holds_lock ?s 0"
    by code_simp
  ultimately show ?thesis
    using release_during_inspection_is_reported_invalid [of demo_system ?s 0 ?owner 1 11000 0]
    by (intro exI [of _ ?s]) (simp add: demo_system_def default_lock_config_def)
qed

end
