(* ===== verification/ControlPool.thy ===== *)
theory ControlPool
  imports Errors Json "HOL-Library.Multiset"
begin

text \<open>
  src/src/control-server-request-pool.ts, class ControlRequestPool: a fixed set of workers, a bounded
  queue, and the promises handed to the callers. A request is its id; the promises that have been
  settled are kept in \<open>po_answered\<close> in the order of their settling, and settling a promise a second
  time would add a second entry. The environment is the events: messages of the workers, their
  errors and exits, and whether a \<open>postMessage\<close> throws, which the argument \<open>posts\<close> tells for a worker.
\<close>

section \<open>State\<close>

definition WORKER_COUNT :: nat where "WORKER_COUNT = 2"
definition MAX_QUEUED_REQUESTS :: nat where "MAX_QUEUED_REQUESTS = 4"

record worker_slot =
  sl_ready :: bool
  sl_active :: "nat option"
  sl_dead :: bool

datatype answer = Completed | Rejected | WorkerUnavailable | WorkersUnavailable

record request_pool =
  po_slots :: "worker_slot list"
  po_queue :: "nat list"
  po_next_id :: nat
  po_outstanding :: int
  po_accepting :: bool
  po_stopping :: bool
  po_drain_waiting :: bool
  po_answered :: "(nat \<times> answer) list"

definition new_pool :: request_pool where
  "new_pool =
     \<lparr>po_slots = [], po_queue = [], po_next_id = 1, po_outstanding = 0, po_accepting = True, po_stopping = False,
      po_drain_waiting = False, po_answered = []\<rparr>"

definition new_slot :: worker_slot where
  "new_slot = \<lparr>sl_ready = False, sl_active = None, sl_dead = False\<rparr>"

text \<open>\<open>startWorkers\<close>: all slots are created before any message of a worker is handled.\<close>

definition start_workers :: "request_pool \<Rightarrow> request_pool" where
  "start_workers pool = pool\<lparr>po_slots := po_slots pool @ replicate WORKER_COUNT new_slot\<rparr>"

definition update_slot :: "nat \<Rightarrow> (worker_slot \<Rightarrow> worker_slot) \<Rightarrow> request_pool \<Rightarrow> request_pool" where
  "update_slot i f pool = pool\<lparr>po_slots := (po_slots pool)[i := f (po_slots pool ! i)]\<rparr>"

definition settle :: "nat \<Rightarrow> answer \<Rightarrow> request_pool \<Rightarrow> request_pool" where
  "settle request a pool = pool\<lparr>po_answered := po_answered pool @ [(request, a)]\<rparr>"

text \<open>\<open>finishWork\<close>; the waiting close then runs \<open>finish\<close>, which sets \<open>stoppingWorkers\<close>.\<close>

definition finish_work :: "request_pool \<Rightarrow> request_pool" where
  "finish_work pool =
     (let pool' = pool\<lparr>po_outstanding := po_outstanding pool - 1\<rparr> in
      if po_outstanding pool' = 0 \<and> po_drain_waiting pool'
      then pool'\<lparr>po_drain_waiting := False, po_stopping := True\<rparr> else pool')"

text \<open>The part of \<open>failSlot\<close> after the early return and before its final \<open>schedule()\<close>.\<close>

definition fail_queued :: "request_pool \<Rightarrow> request_pool" where
  "fail_queued pool =
     fold (\<lambda>request p. finish_work (settle request WorkersUnavailable p)) (po_queue pool) (pool\<lparr>po_queue := []\<rparr>)"

definition fail_active :: "nat \<Rightarrow> request_pool \<Rightarrow> request_pool" where
  "fail_active i pool =
     (case sl_active (po_slots pool ! i) of
        None \<Rightarrow> pool
      | Some request \<Rightarrow>
          finish_work (update_slot i (\<lambda>s. s\<lparr>sl_active := None\<rparr>) (settle request WorkerUnavailable pool)))"

definition all_dead :: "request_pool \<Rightarrow> bool" where
  "all_dead pool = list_all sl_dead (po_slots pool)"

definition fail_slot_body :: "nat \<Rightarrow> request_pool \<Rightarrow> request_pool" where
  "fail_slot_body i pool =
     (let pool1 = fail_active i (update_slot i (\<lambda>s. s\<lparr>sl_dead := True\<rparr>) pool) in
      if all_dead pool1 then fail_queued pool1 else pool1)"

text \<open>
  \<open>schedule\<close> and \<open>failSlot\<close> call each other when posting to a worker throws. \<open>schedule_loop k is\<close> is the loop over
  the slots \<open>is\<close> with room for \<open>k\<close> nested failures; \<open>None\<close> would mean that the room was exceeded. A failing
  slot becomes dead, so the number of live slots is always enough (\<open>schedule_loop_returns\<close>).
\<close>

definition takes_work :: "worker_slot \<Rightarrow> bool" where
  "takes_work s \<longleftrightarrow> sl_ready s \<and> \<not> sl_dead s \<and> sl_active s = None"

fun schedule_loop :: "(nat \<Rightarrow> bool) \<Rightarrow> nat \<Rightarrow> nat list \<Rightarrow> request_pool \<Rightarrow> request_pool option" where
  "schedule_loop posts k [] pool = Some pool"
| "schedule_loop posts k (i # is) pool =
     (if \<not> takes_work (po_slots pool ! i) then schedule_loop posts k is pool
      else
        (case po_queue pool of
           [] \<Rightarrow> Some pool
         | item # rest \<Rightarrow>
             (let pool1 = update_slot i (\<lambda>s. s\<lparr>sl_active := Some item\<rparr>) (pool\<lparr>po_queue := rest\<rparr>) in
              if posts i then schedule_loop posts k is pool1
              else
                (case k of
                   0 \<Rightarrow> None
                 | Suc k' \<Rightarrow>
                     (case schedule_loop posts k' [0..<length (po_slots pool)] (fail_slot_body i pool1) of
                        None \<Rightarrow> None
                      | Some pool2 \<Rightarrow> schedule_loop posts k' is pool2)))))"

definition live_slots :: "request_pool \<Rightarrow> nat" where
  "live_slots pool = length (filter (\<lambda>s. \<not> sl_dead s) (po_slots pool))"

definition schedule :: "(nat \<Rightarrow> bool) \<Rightarrow> request_pool \<Rightarrow> request_pool option" where
  "schedule posts pool = schedule_loop posts (live_slots pool) [0..<length (po_slots pool)] pool"

definition fail_slot :: "(nat \<Rightarrow> bool) \<Rightarrow> nat \<Rightarrow> request_pool \<Rightarrow> request_pool option" where
  "fail_slot posts i pool =
     (if sl_dead (po_slots pool ! i) then Some pool else schedule posts (fail_slot_body i pool))"

section \<open>Operations\<close>

text \<open>\<open>dispatch\<close>: \<open>None\<close> in the first component when the capacity is exhausted.\<close>

definition dispatch :: "(nat \<Rightarrow> bool) \<Rightarrow> request_pool \<Rightarrow> (nat option \<times> request_pool) option" where
  "dispatch posts pool =
     (if \<not> po_accepting pool \<or> all_dead pool \<or> int (WORKER_COUNT + MAX_QUEUED_REQUESTS) \<le> po_outstanding pool
      then Some (None, pool)
      else
        (let request = po_next_id pool;
             pool1 = pool\<lparr>po_next_id := Suc request, po_outstanding := po_outstanding pool + 1,
                          po_queue := po_queue pool @ [request]\<rparr> in
         map_option (Pair (Some request)) (schedule posts pool1)))"

text \<open>\<open>close\<close>, the first call; later calls return the same promise.\<close>

definition close_pool :: "request_pool \<Rightarrow> request_pool" where
  "close_pool pool =
     (if \<not> po_accepting pool then pool
      else if po_outstanding pool = 0 then pool\<lparr>po_accepting := False, po_stopping := True\<rparr>
      else pool\<lparr>po_accepting := False, po_drain_waiting := True\<rparr>)"

datatype worker_message = WReady | WLock | WNeedBody nat | WComplete nat | WFailed nat

text \<open>\<open>onMessage\<close>; \<open>need-body\<close> only posts, a failing post arrives as the event \<open>WorkerError\<close>.\<close>

definition on_message :: "(nat \<Rightarrow> bool) \<Rightarrow> nat \<Rightarrow> worker_message \<Rightarrow> request_pool \<Rightarrow> request_pool option" where
  "on_message posts i message pool =
     (let finish = (\<lambda>request a.
          if sl_active (po_slots pool ! i) \<noteq> Some request then Some pool
          else schedule posts (finish_work (settle request a (update_slot i (\<lambda>s. s\<lparr>sl_active := None\<rparr>) pool)))) in
      case message of
        WReady \<Rightarrow> Some (update_slot i (\<lambda>s. s\<lparr>sl_ready := True\<rparr>) pool)
      | WLock \<Rightarrow> Some pool
      | WNeedBody _ \<Rightarrow> Some pool
      | WComplete request \<Rightarrow> finish request Completed
      | WFailed request \<Rightarrow> finish request Rejected)"

text \<open>The \<open>exit\<close> listener of \<open>createSlot\<close>\<close>

definition on_exit :: "(nat \<Rightarrow> bool) \<Rightarrow> nat \<Rightarrow> request_pool \<Rightarrow> request_pool option" where
  "on_exit posts i pool =
     (if \<not> po_stopping pool \<and> \<not> sl_dead (po_slots pool ! i) then fail_slot posts i pool
      else Some (update_slot i (\<lambda>s. s\<lparr>sl_dead := True\<rparr>) pool))"

datatype pool_event =
    Dispatch | Close | Message nat worker_message | WorkerError nat | WorkerExit nat

definition pool_step :: "(nat \<Rightarrow> bool) \<Rightarrow> pool_event \<Rightarrow> request_pool \<Rightarrow> request_pool option" where
  "pool_step posts event pool =
     (case event of
        Dispatch \<Rightarrow> map_option snd (dispatch posts pool)
      | Close \<Rightarrow> Some (close_pool pool)
      | Message i m \<Rightarrow> if i < length (po_slots pool) then on_message posts i m pool else Some pool
      | WorkerError i \<Rightarrow> if i < length (po_slots pool) then fail_slot posts i pool else Some pool
      | WorkerExit i \<Rightarrow> if i < length (po_slots pool) then on_exit posts i pool else Some pool)"

inductive pool_reachable :: "request_pool \<Rightarrow> bool" where
  pool_started: "pool_reachable (start_workers new_pool)"
| pool_event: "pool_reachable pool \<Longrightarrow> pool_step posts event pool = Some pool' \<Longrightarrow> pool_reachable pool'"


section \<open>Accounting of requests\<close>

definition active_of :: "worker_slot \<Rightarrow> nat multiset" where
  "active_of s = (case sl_active s of None \<Rightarrow> {#} | Some r \<Rightarrow> {#r#})"

definition active_requests :: "request_pool \<Rightarrow> nat multiset" where
  "active_requests pool = sum_list (map active_of (po_slots pool))"

definition answered_requests :: "request_pool \<Rightarrow> nat multiset" where
  "answered_requests pool = mset (map fst (po_answered pool))"

definition pool_ok :: "request_pool \<Rightarrow> bool" where
  "pool_ok pool \<longleftrightarrow>
     length (po_slots pool) = WORKER_COUNT \<and> 1 \<le> po_next_id pool \<and>
     answered_requests pool + mset (po_queue pool) + active_requests pool = mset [1..<po_next_id pool] \<and>
     po_outstanding pool = int (length (po_queue pool)) + int (size (active_requests pool)) \<and>
     po_outstanding pool \<le> int (WORKER_COUNT + MAX_QUEUED_REQUESTS) \<and>
     (\<forall>s\<in>set (po_slots pool). sl_dead s \<or> \<not> sl_ready s \<longrightarrow> sl_active s = None) \<and>
     (po_stopping pool \<longleftrightarrow> \<not> po_accepting pool \<and> po_outstanding pool = 0) \<and>
     (po_drain_waiting pool \<longleftrightarrow> \<not> po_accepting pool \<and> po_outstanding pool \<noteq> 0)"

lemma sum_list_update_mset:
  fixes f :: "'a \<Rightarrow> 'b multiset"
  shows "i < length xs \<Longrightarrow> sum_list (map f (xs[i := y])) + f (xs ! i) = sum_list (map f xs) + f y"
proof (induction xs arbitrary: i)
  case (Cons x xs)
  then show ?case
    by (cases i) (auto simp: ac_simps)
qed simp

lemma active_update:
  assumes "i < length (po_slots pool)"
  shows "active_requests (update_slot i f pool) + active_of (po_slots pool ! i) =
    active_requests pool + active_of (f (po_slots pool ! i))"
  using sum_list_update_mset [OF assms, of active_of "f (po_slots pool ! i)"]
  by (simp add: active_requests_def update_slot_def)

lemma update_slot_fields [simp]:
  "po_queue (update_slot i f pool) = po_queue pool" "po_next_id (update_slot i f pool) = po_next_id pool"
  "po_outstanding (update_slot i f pool) = po_outstanding pool"
  "po_accepting (update_slot i f pool) = po_accepting pool" "po_stopping (update_slot i f pool) = po_stopping pool"
  "po_drain_waiting (update_slot i f pool) = po_drain_waiting pool"
  "po_answered (update_slot i f pool) = po_answered pool"
  "length (po_slots (update_slot i f pool)) = length (po_slots pool)"
  by (simp_all add: update_slot_def)

lemma update_slot_nth:
  "j < length (po_slots pool) \<Longrightarrow>
   po_slots (update_slot i f pool) ! j = (if i = j then f (po_slots pool ! j) else po_slots pool ! j)"
  by (simp add: update_slot_def nth_list_update)

lemma settle_fields [simp]:
  "po_slots (settle r a pool) = po_slots pool" "po_queue (settle r a pool) = po_queue pool"
  "po_next_id (settle r a pool) = po_next_id pool" "po_outstanding (settle r a pool) = po_outstanding pool"
  "po_accepting (settle r a pool) = po_accepting pool" "po_stopping (settle r a pool) = po_stopping pool"
  "po_drain_waiting (settle r a pool) = po_drain_waiting pool"
  "po_answered (settle r a pool) = po_answered pool @ [(r, a)]"
  by (simp_all add: settle_def)

lemma finish_work_fields [simp]:
  "po_slots (finish_work pool) = po_slots pool" "po_queue (finish_work pool) = po_queue pool"
  "po_next_id (finish_work pool) = po_next_id pool" "po_accepting (finish_work pool) = po_accepting pool"
  "po_answered (finish_work pool) = po_answered pool" "po_outstanding (finish_work pool) = po_outstanding pool - 1"
  "po_stopping (finish_work pool) = (po_stopping pool \<or> po_outstanding pool = 1 \<and> po_drain_waiting pool)"
  "po_drain_waiting (finish_work pool) = (po_drain_waiting pool \<and> po_outstanding pool \<noteq> 1)"
  by (auto simp: finish_work_def Let_def)

definition slot_idle_unless_live :: "worker_slot \<Rightarrow> bool" where
  "slot_idle_unless_live s \<longleftrightarrow> (sl_dead s \<or> \<not> sl_ready s \<longrightarrow> sl_active s = None)"

lemma update_slot_set:
  assumes "\<forall>s\<in>set (po_slots pool). P s" and "i < length (po_slots pool)" and "P (f (po_slots pool ! i))"
  shows "\<forall>s\<in>set (po_slots (update_slot i f pool)). P s"
  using assms by (auto simp: update_slot_def dest!: set_update_subset_insert [THEN subsetD])

lemma pool_ok_update:
  assumes "pool_ok pool" and "i < length (po_slots pool)"
    and "sl_active (f (po_slots pool ! i)) = sl_active (po_slots pool ! i)"
    and "slot_idle_unless_live (f (po_slots pool ! i))"
  shows "pool_ok (update_slot i f pool)"
proof -
  have "active_requests (update_slot i f pool) = active_requests pool"
    using active_update [OF assms(2), of f] assms(3) by (simp add: active_of_def)
  then show ?thesis
    using assms update_slot_set [OF _ assms(2), of slot_idle_unless_live f]
    by (simp add: pool_ok_def answered_requests_def slot_idle_unless_live_def)
qed

text \<open>An active request is settled and its slot freed.\<close>

lemma pool_ok_settle_active:
  assumes "pool_ok pool" and "i < length (po_slots pool)"
    and "sl_active (po_slots pool ! i) = Some r" and "sl_active (f (po_slots pool ! i)) = None"
  shows "pool_ok (finish_work (settle r a (update_slot i f pool)))"
proof -
  have act: "active_requests pool = add_mset r (active_requests (update_slot i f pool))"
    using active_update [OF assms(2), of f] assms(3,4) by (simp add: active_of_def)
  have slots: "active_requests (finish_work (settle r a (update_slot i f pool))) = active_requests (update_slot i f pool)"
    by (simp add: active_requests_def)
  have "\<forall>s\<in>set (po_slots (update_slot i f pool)). slot_idle_unless_live s"
    by (rule update_slot_set) (use assms in \<open>auto simp: pool_ok_def slot_idle_unless_live_def\<close>)
  then show ?thesis
    using assms(1) act slots
    by (simp add: pool_ok_def answered_requests_def slot_idle_unless_live_def) linarith
qed

lemma pool_ok_settle_queued:
  assumes "pool_ok (pool\<lparr>po_queue := r # rest\<rparr>)"
  shows "pool_ok ((finish_work (settle r a pool))\<lparr>po_queue := rest\<rparr>)"
  using assms
  by (simp add: pool_ok_def answered_requests_def active_requests_def) linarith

lemma fail_queued_ok:
  assumes "pool_ok pool"
  shows "pool_ok (fail_queued pool)" and "po_queue (fail_queued pool) = []"
    and "po_slots (fail_queued pool) = po_slots pool"
proof -
  let ?g = "\<lambda>request p. finish_work (settle request WorkersUnavailable p)"
  have ok: "pool_ok (p\<lparr>po_queue := q\<rparr>) \<Longrightarrow> pool_ok ((fold ?g q p)\<lparr>po_queue := []\<rparr>)" for q p
    by (induction q arbitrary: p) (auto dest: pool_ok_settle_queued [where a = WorkersUnavailable])
  have frame: "po_queue (fold ?g q p) = po_queue p \<and> po_slots (fold ?g q p) = po_slots p" for q p
    by (induction q arbitrary: p) auto
  have "(fold ?g q p)\<lparr>po_queue := []\<rparr> = fold ?g q p" if "po_queue p = []" for q p
    using frame [of q p] that by simp
  then show "pool_ok (fail_queued pool)"
    using ok [where p = "pool\<lparr>po_queue := []\<rparr>" and q = "po_queue pool"] assms by (simp add: fail_queued_def)
  show "po_queue (fail_queued pool) = []" "po_slots (fail_queued pool) = po_slots pool"
    using frame by (simp_all add: fail_queued_def)
qed

lemma update_slot_twice: "update_slot i g (update_slot i f pool) = update_slot i (g \<circ> f) pool"
  by (cases "i < length (po_slots pool)") (simp_all add: update_slot_def list_update_beyond)

lemma settle_update: "settle r a (update_slot i f pool) = update_slot i f (settle r a pool)"
  by (simp add: settle_def update_slot_def)

lemma fail_active_ok:
  assumes "pool_ok pool" and "i < length (po_slots pool)"
  shows "pool_ok (fail_active i (update_slot i (\<lambda>s. s\<lparr>sl_dead := True\<rparr>) pool))"
proof (cases "sl_active (po_slots pool ! i)")
  case None
  then show ?thesis
    using pool_ok_update [OF assms, of "\<lambda>s. s\<lparr>sl_dead := True\<rparr>"] assms(2)
    by (simp add: fail_active_def update_slot_nth slot_idle_unless_live_def)
next
  case (Some r)
  then show ?thesis
    using pool_ok_settle_active [OF assms Some,
        of "(\<lambda>s. s\<lparr>sl_active := None\<rparr>) \<circ> (\<lambda>s. s\<lparr>sl_dead := True\<rparr>)" WorkerUnavailable] assms(2)
    by (simp add: fail_active_def update_slot_nth update_slot_twice settle_update)
qed

lemma fail_active_slots:
  assumes "i < length (po_slots pool)"
  shows "po_slots (fail_active i (update_slot i (\<lambda>s. s\<lparr>sl_dead := True\<rparr>) pool)) =
    (po_slots pool)[i := (po_slots pool ! i)\<lparr>sl_dead := True, sl_active := None\<rparr>]"
    and "po_queue (fail_active i (update_slot i (\<lambda>s. s\<lparr>sl_dead := True\<rparr>) pool)) = po_queue pool"
proof -
  have slot: "(po_slots pool ! i)\<lparr>sl_dead := True, sl_active := None\<rparr> = (po_slots pool ! i)\<lparr>sl_dead := True\<rparr>"
    if "sl_active (po_slots pool ! i) = None"
    using that by (cases "po_slots pool ! i") simp
  show "po_slots (fail_active i (update_slot i (\<lambda>s. s\<lparr>sl_dead := True\<rparr>) pool)) =
    (po_slots pool)[i := (po_slots pool ! i)\<lparr>sl_dead := True, sl_active := None\<rparr>]"
  proof (cases "sl_active (po_slots pool ! i)")
    case None
    then show ?thesis
      unfolding slot [OF None] using assms by (simp add: fail_active_def update_slot_def)
  qed (use assms in \<open>simp add: fail_active_def update_slot_def\<close>)
  show "po_queue (fail_active i (update_slot i (\<lambda>s. s\<lparr>sl_dead := True\<rparr>) pool)) = po_queue pool"
    by (simp add: fail_active_def split: option.split)
qed

lemma fail_slot_body_ok:
  assumes "pool_ok pool" and "i < length (po_slots pool)"
  shows "pool_ok (fail_slot_body i pool)"
    and "po_slots (fail_slot_body i pool) = (po_slots pool)[i := (po_slots pool ! i)\<lparr>sl_dead := True, sl_active := None\<rparr>]"
    and "po_queue (fail_slot_body i pool) = [] \<or> po_queue (fail_slot_body i pool) = po_queue pool"
    and "all_dead (fail_slot_body i pool) \<Longrightarrow> po_queue (fail_slot_body i pool) = []"
  using fail_active_ok [OF assms] fail_queued_ok [OF fail_active_ok [OF assms]] fail_active_slots [OF assms(2)]
  by (auto simp: fail_slot_body_def Let_def all_dead_def)

lemma assign_ok:
  assumes "pool_ok pool" and "i < length (po_slots pool)" and "takes_work (po_slots pool ! i)"
    and "po_queue pool = item # rest"
  shows "pool_ok (update_slot i (\<lambda>s. s\<lparr>sl_active := Some item\<rparr>) (pool\<lparr>po_queue := rest\<rparr>))" (is "pool_ok ?pool")
proof -
  let ?base = "pool\<lparr>po_queue := rest\<rparr>"
  have act: "active_requests ?pool = add_mset item (active_requests pool)"
    using active_update [of i ?base "\<lambda>s. s\<lparr>sl_active := Some item\<rparr>"] assms(2,3)
    by (simp add: active_of_def takes_work_def active_requests_def)
  have "\<forall>s\<in>set (po_slots ?pool). slot_idle_unless_live s"
    by (rule update_slot_set) (use assms in \<open>auto simp: pool_ok_def slot_idle_unless_live_def takes_work_def\<close>)
  then show ?thesis
    using assms(1,4) act
    by (simp add: pool_ok_def answered_requests_def slot_idle_unless_live_def)
qed


lemma fail_slot_body_answers:
  "po_next_id (fail_slot_body i pool) = po_next_id pool" "po_accepting (fail_slot_body i pool) = po_accepting pool"
  "prefix (po_answered pool) (po_answered (fail_slot_body i pool))"
proof -
  let ?g = "\<lambda>request p. finish_work (settle request WorkersUnavailable p)"
  have fold: "po_next_id (fold ?g q p) = po_next_id p \<and> po_accepting (fold ?g q p) = po_accepting p \<and>
      prefix (po_answered p) (po_answered (fold ?g q p))" for q p
  proof (induction q arbitrary: p)
    case (Cons r q)
    have "prefix (po_answered p) (po_answered (?g r p))"
      by simp
    with Cons [of "?g r p"] show ?case
      by (auto dest: append_prefixD)
  qed simp
  let ?a = "fail_active i (update_slot i (\<lambda>s. s\<lparr>sl_dead := True\<rparr>) pool)"
  have active: "po_next_id ?a = po_next_id pool \<and> po_accepting ?a = po_accepting pool \<and>
      prefix (po_answered pool) (po_answered ?a)"
    by (simp add: fail_active_def split: option.split)
  show "po_next_id (fail_slot_body i pool) = po_next_id pool" "po_accepting (fail_slot_body i pool) = po_accepting pool"
    using active fold by (simp_all add: fail_slot_body_def fail_queued_def Let_def)
  show "prefix (po_answered pool) (po_answered (fail_slot_body i pool))"
    using active fold [where p = "?a\<lparr>po_queue := []\<rparr>" and q = "po_queue ?a"]
    by (auto simp: fail_slot_body_def fail_queued_def Let_def intro: prefix_order.trans)
qed

section \<open>Scheduling returns, keeps the accounts and leaves no work to an idle worker\<close>

definition only_loses_idle :: "request_pool \<Rightarrow> request_pool \<Rightarrow> bool" where
  "only_loses_idle pool pool' \<longleftrightarrow>
     length (po_slots pool') = length (po_slots pool) \<and>
     (\<forall>j<length (po_slots pool). takes_work (po_slots pool' ! j) \<longrightarrow> takes_work (po_slots pool ! j)) \<and>
     (\<forall>j<length (po_slots pool). sl_dead (po_slots pool ! j) \<longrightarrow> sl_dead (po_slots pool' ! j)) \<and>
     (\<forall>j<length (po_slots pool). sl_ready (po_slots pool' ! j) = sl_ready (po_slots pool ! j)) \<and>
     (po_queue pool = [] \<longrightarrow> po_queue pool' = []) \<and>
     po_next_id pool' = po_next_id pool \<and> po_accepting pool' = po_accepting pool \<and>
     prefix (po_answered pool) (po_answered pool')"

lemma only_loses_idle_refl [simp]: "only_loses_idle pool pool"
  by (simp add: only_loses_idle_def)

lemma only_loses_idle_trans:
  "only_loses_idle a b \<Longrightarrow> only_loses_idle b c \<Longrightarrow> only_loses_idle a c"
  by (auto simp: only_loses_idle_def)

lemma live_slots_mono:
  "only_loses_idle pool pool' \<Longrightarrow> live_slots pool' \<le> live_slots pool"
proof -
  assume loses: "only_loses_idle pool pool'"
  then have "{j. j < length (po_slots pool') \<and> \<not> sl_dead (po_slots pool' ! j)} \<subseteq>
      {j. j < length (po_slots pool) \<and> \<not> sl_dead (po_slots pool ! j)}"
    by (auto simp: only_loses_idle_def)
  then show ?thesis
    unfolding live_slots_def length_filter_conv_card by (rule card_mono [rotated]) simp
qed

lemma live_slots_fail:
  assumes "i < length (po_slots pool)" and "\<not> sl_dead (po_slots pool ! i)"
    and "po_slots pool' = (po_slots pool)[i := s]" and "sl_dead s"
  shows "live_slots pool' < live_slots pool"
proof -
  have "{j. j < length (po_slots pool') \<and> \<not> sl_dead (po_slots pool' ! j)} \<subset>
      {j. j < length (po_slots pool) \<and> \<not> sl_dead (po_slots pool ! j)}"
    using assms by (auto simp: nth_list_update)
  then show ?thesis
    unfolding live_slots_def length_filter_conv_card by (rule psubset_card_mono [rotated]) simp
qed

definition served :: "nat list \<Rightarrow> request_pool \<Rightarrow> bool" where
  "served is pool \<longleftrightarrow> po_queue pool = [] \<or> (\<forall>i\<in>set is. \<not> takes_work (po_slots pool ! i))"

definition drained_if_dead :: "request_pool \<Rightarrow> bool" where
  "drained_if_dead pool \<longleftrightarrow> (all_dead pool \<longrightarrow> po_queue pool = [])"

lemma assigned_slot:
  fixes item :: nat and rest :: "nat list"
  assumes "i < length (po_slots pool)" and "takes_work (po_slots pool ! i)"
  defines "pool1 \<equiv> update_slot i (\<lambda>s. s\<lparr>sl_active := Some item\<rparr>) (pool\<lparr>po_queue := rest\<rparr>)"
  shows "po_queue pool \<noteq> [] \<Longrightarrow> only_loses_idle pool pool1"
    and "\<not> takes_work (po_slots pool1 ! i)"
    and "length (po_slots pool1) = length (po_slots pool)"
    and "\<not> all_dead pool1" and "\<not> sl_dead (po_slots pool1 ! i)"
proof -
  show live: "\<not> sl_dead (po_slots pool1 ! i)"
    using assms by (simp add: update_slot_def takes_work_def)
  then show "\<not> all_dead pool1"
    using assms(1) by (auto simp: all_dead_def list_all_length pool1_def update_slot_def)
qed (use assms(1,2) in \<open>auto simp: only_loses_idle_def takes_work_def pool1_def update_slot_def nth_list_update\<close>)

lemma schedule_loop_returns:
  assumes "pool_ok pool" and "drained_if_dead pool" and "live_slots pool \<le> k"
    and "\<forall>i\<in>set is. i < length (po_slots pool)"
  shows "\<exists>pool'. schedule_loop posts k is pool = Some pool' \<and> pool_ok pool' \<and> drained_if_dead pool' \<and>
    only_loses_idle pool pool' \<and> served is pool'"
  using assms
proof (induction posts k "is" pool rule: schedule_loop.induct)
  case (1 posts k pool)
  then show ?case by (simp add: served_def)
next
  case (2 posts k i "is" pool)
  have i: "i < length (po_slots pool)"
    using 2(8) by simp
  show ?case
  proof (cases "takes_work (po_slots pool ! i)")
    case False
    then obtain pool' where "schedule_loop posts k is pool = Some pool'" "pool_ok pool'" "drained_if_dead pool'"
        "only_loses_idle pool pool'" "served is pool'"
      using 2 by force
    with False i show ?thesis
      by (auto simp: served_def only_loses_idle_def)
  next
    case True
    show ?thesis
    proof (cases "po_queue pool")
      case Nil
      then show ?thesis
        using True 2 by (simp add: served_def)
    next
      case (Cons item rest)
      define pool1 where "pool1 = update_slot i (\<lambda>s. s\<lparr>sl_active := Some item\<rparr>) (pool\<lparr>po_queue := rest\<rparr>)"
      have ok1: "pool_ok pool1"
        unfolding pool1_def by (rule assign_ok [OF 2(5) i True Cons])
      note assigned = assigned_slot [OF i True, of item rest, folded pool1_def]
      have drained1: "drained_if_dead pool1"
        using assigned(4) by (simp add: drained_if_dead_def)
      have loses1: "only_loses_idle pool pool1"
        using assigned(1) Cons by simp
      have live1: "live_slots pool1 \<le> k"
        using live_slots_mono [OF loses1] 2(7) by simp
      have bounds: "\<forall>j\<in>set is. j < length (po_slots pool')" if "only_loses_idle pool pool'" for pool'
        using 2(8) that by (simp add: only_loses_idle_def)
      have busy: "served (i # is) pool'" if "served is pool'" "only_loses_idle pool1 pool'" for pool'
        using that assigned(2,3) i by (auto simp: served_def only_loses_idle_def)
      show ?thesis
      proof (cases "posts i")
        case posted: True
        obtain pool' where "schedule_loop posts k is pool1 = Some pool'" "pool_ok pool'" "drained_if_dead pool'"
            "only_loses_idle pool1 pool'" "served is pool'"
          using 2(2) [OF _ Cons pool1_def posted ok1 drained1 live1 bounds [OF loses1]] True by blast
        then show ?thesis
          using True Cons posted busy only_loses_idle_trans [OF loses1]
          by (auto simp: Let_def simp flip: pool1_def)
      next
        case failed: False
        define pool2 where "pool2 = fail_slot_body i pool1"
        have i1: "i < length (po_slots pool1)"
          using i assigned(3) by simp
        note body = fail_slot_body_ok [OF ok1 i1, folded pool2_def]
        have live2: "live_slots pool2 < live_slots pool1"
          by (rule live_slots_fail [OF i1 _ body(2)]) (use assigned(5) in simp_all)
        then obtain k' where k: "k = Suc k'" "live_slots pool2 \<le> k'"
          using live1 by (cases k) auto
        have loses2: "only_loses_idle pool1 pool2"
          using body(2,3) i1 fail_slot_body_answers [where i = i and pool = pool1, folded pool2_def]
          by (auto simp: only_loses_idle_def takes_work_def nth_list_update)
        have drained2: "drained_if_dead pool2"
          using body(4) by (simp add: drained_if_dead_def)
        obtain pool3 where pool3: "schedule_loop posts k' [0..<length (po_slots pool)] pool2 = Some pool3"
            "pool_ok pool3" "drained_if_dead pool3" "only_loses_idle pool2 pool3"
          using 2(3) [OF _ Cons pool1_def failed k(1), folded pool2_def, OF _ body(1) drained2 k(2)] True
            loses2 assigned(3) by (auto simp: only_loses_idle_def)
        have loses3: "only_loses_idle pool1 pool3"
          using only_loses_idle_trans [OF loses2 pool3(4)] .
        have live3: "live_slots pool3 \<le> k'"
          using live_slots_mono [OF pool3(4)] k(2) by simp
        obtain pool4 where pool4: "schedule_loop posts k' is pool3 = Some pool4" "pool_ok pool4"
            "drained_if_dead pool4" "only_loses_idle pool3 pool4" "served is pool4"
          using 2(4) [OF _ Cons pool1_def failed k(1), folded pool2_def, OF _ pool3(1,2,3) live3
              bounds [OF only_loses_idle_trans [OF loses1 loses3]]] True by blast
        then show ?thesis
          using True Cons failed k(1) pool3(1) busy [OF pool4(5) only_loses_idle_trans [OF loses3 pool4(4)]]
            only_loses_idle_trans [OF loses1 only_loses_idle_trans [OF loses3 pool4(4)]]
          by (simp add: Let_def flip: pool1_def pool2_def)
      qed
    qed
  qed
qed


lemma schedule_returns:
  assumes "pool_ok pool" and "drained_if_dead pool"
  shows "\<exists>pool'. schedule posts pool = Some pool' \<and> pool_ok pool' \<and> drained_if_dead pool' \<and>
    only_loses_idle pool pool' \<and> served [0..<length (po_slots pool)] pool'"
  using schedule_loop_returns [OF assms order_refl, of "[0..<length (po_slots pool)]" posts]
  by (simp add: schedule_def)

section \<open>Every event keeps the accounts\<close>

lemma all_dead_update:
  assumes "\<And>s. sl_dead (f s) = sl_dead s"
  shows "all_dead (update_slot i f pool) = all_dead pool"
  using assms
  by (cases "i < length (po_slots pool)")
     (auto simp: all_dead_def update_slot_def list_all_length nth_list_update list_update_beyond)

lemma live_not_all_dead:
  "i < length (po_slots pool) \<Longrightarrow> \<not> sl_dead (po_slots pool ! i) \<Longrightarrow> \<not> all_dead pool"
  by (auto simp: all_dead_def list_all_length)

lemma active_is_live:
  "pool_ok pool \<Longrightarrow> i < length (po_slots pool) \<Longrightarrow> sl_active (po_slots pool ! i) = Some r \<Longrightarrow>
   sl_ready (po_slots pool ! i) \<and> \<not> sl_dead (po_slots pool ! i)"
  by (auto simp: pool_ok_def all_set_conv_all_nth)

lemma idle_when_stopping:
  assumes "pool_ok pool" and "po_stopping pool" and "i < length (po_slots pool)"
  shows "sl_active (po_slots pool ! i) = None"
proof -
  have "size (active_requests pool) = 0"
    using assms(1,2) unfolding pool_ok_def by linarith
  then have "active_requests pool = {#}"
    by simp
  then show ?thesis
    using active_update [OF assms(3), of "\<lambda>s. s\<lparr>sl_active := None\<rparr>"]
    by (simp add: active_of_def split: option.splits)
qed

definition finish_request :: "nat \<Rightarrow> nat \<Rightarrow> answer \<Rightarrow> request_pool \<Rightarrow> request_pool" where
  "finish_request i r a pool = finish_work (settle r a (update_slot i (\<lambda>s. s\<lparr>sl_active := None\<rparr>) pool))"

lemma finish_request_ok:
  assumes "pool_ok pool" and "i < length (po_slots pool)" and "sl_active (po_slots pool ! i) = Some r"
  shows "pool_ok (finish_request i r a pool)" and "drained_if_dead (finish_request i r a pool)"
proof -
  show "pool_ok (finish_request i r a pool)"
    unfolding finish_request_def by (rule pool_ok_settle_active [OF assms]) simp
  have "\<not> all_dead (finish_request i r a pool)"
    by (rule live_not_all_dead [of i])
       (use assms(2) active_is_live [OF assms] in \<open>simp_all add: finish_request_def update_slot_nth\<close>)
  then show "drained_if_dead (finish_request i r a pool)"
    by (simp add: drained_if_dead_def)
qed

lemma fail_slot_returns:
  assumes "pool_ok pool" and "drained_if_dead pool" and "i < length (po_slots pool)"
  shows "\<exists>pool'. fail_slot posts i pool = Some pool' \<and> pool_ok pool' \<and> drained_if_dead pool'"
  using schedule_returns [OF fail_slot_body_ok(1) [OF assms(1,3)]] fail_slot_body_ok(4) [OF assms(1,3)] assms
  by (fastforce simp: fail_slot_def drained_if_dead_def)

lemma dispatch_ok:
  assumes "pool_ok pool" and "po_accepting pool" and "po_outstanding pool < int (WORKER_COUNT + MAX_QUEUED_REQUESTS)"
  shows "pool_ok (pool\<lparr>po_next_id := Suc (po_next_id pool), po_outstanding := po_outstanding pool + 1,
     po_queue := po_queue pool @ [po_next_id pool]\<rparr>)"
  using assms by (simp add: pool_ok_def answered_requests_def active_requests_def)

lemma on_message_returns:
  assumes "pool_ok pool" and "drained_if_dead pool" and "i < length (po_slots pool)"
  shows "\<exists>pool'. on_message posts i m pool = Some pool' \<and> pool_ok pool' \<and> drained_if_dead pool'"
proof -
  have finish: "\<exists>pool'. (if sl_active (po_slots pool ! i) \<noteq> Some r then Some pool
      else schedule posts (finish_request i r a pool)) = Some pool' \<and> pool_ok pool' \<and> drained_if_dead pool'" for r a
    using schedule_returns [OF finish_request_ok [OF assms(1,3)]] assms(1,2) by fastforce
  have ready: "pool_ok (update_slot i (\<lambda>s. s\<lparr>sl_ready := True\<rparr>) pool)"
    by (rule pool_ok_update [OF assms(1,3)])
       (use assms(1,3) in \<open>auto simp: slot_idle_unless_live_def pool_ok_def all_set_conv_all_nth\<close>)
  show ?thesis
  proof (cases m)
    case WReady
    then show ?thesis
      using ready assms(2) by (simp add: on_message_def drained_if_dead_def all_dead_update)
  next
    case (WComplete r)
    then show ?thesis
      using finish [of r Completed]
      by (cases "sl_active (po_slots pool ! i) = Some r") (simp_all add: on_message_def Let_def flip: finish_request_def)
  next
    case (WFailed r)
    then show ?thesis
      using finish [of r Rejected]
      by (cases "sl_active (po_slots pool ! i) = Some r") (simp_all add: on_message_def Let_def flip: finish_request_def)
  qed (use assms in \<open>simp_all add: on_message_def\<close>)
qed

lemma pool_step_returns:
  assumes "pool_ok pool" and "drained_if_dead pool"
  shows "\<exists>pool'. pool_step posts event pool = Some pool' \<and> pool_ok pool' \<and> drained_if_dead pool'"
proof (cases event)
  case Dispatch
  show ?thesis
  proof (cases "\<not> po_accepting pool \<or> all_dead pool \<or> int (WORKER_COUNT + MAX_QUEUED_REQUESTS) \<le> po_outstanding pool")
    case True
    then show ?thesis
      using assms Dispatch by (simp add: pool_step_def dispatch_def)
  next
    case False
    let ?pool = "pool\<lparr>po_next_id := Suc (po_next_id pool), po_outstanding := po_outstanding pool + 1,
       po_queue := po_queue pool @ [po_next_id pool]\<rparr>"
    have "pool_ok ?pool" "drained_if_dead ?pool"
      using False dispatch_ok [OF assms(1)] by (simp_all add: drained_if_dead_def all_dead_def)
    from schedule_returns [OF this, of posts] show ?thesis
      using False Dispatch by (auto simp: pool_step_def dispatch_def Let_def)
  qed
next
  case Close
  then show ?thesis
    using assms by (auto simp: pool_step_def close_pool_def pool_ok_def answered_requests_def
        active_requests_def drained_if_dead_def all_dead_def)
next
  case (Message i m)
  then show ?thesis
    using on_message_returns [OF assms] assms by (auto simp: pool_step_def)
next
  case (WorkerError i)
  then show ?thesis
    using fail_slot_returns [OF assms] assms by (auto simp: pool_step_def)
next
  case (WorkerExit i)
  have "pool_ok (update_slot i (\<lambda>s. s\<lparr>sl_dead := True\<rparr>) pool)"
      "drained_if_dead (update_slot i (\<lambda>s. s\<lparr>sl_dead := True\<rparr>) pool)"
    if i: "i < length (po_slots pool)" and "po_stopping pool \<or> sl_dead (po_slots pool ! i)"
  proof -
    have idle: "sl_active (po_slots pool ! i) = None"
      using that idle_when_stopping [OF assms(1) _ i] assms(1)
      by (auto simp: pool_ok_def all_set_conv_all_nth)
    then show "pool_ok (update_slot i (\<lambda>s. s\<lparr>sl_dead := True\<rparr>) pool)"
      by (intro pool_ok_update [OF assms(1) i]) (simp_all add: slot_idle_unless_live_def)
    show "drained_if_dead (update_slot i (\<lambda>s. s\<lparr>sl_dead := True\<rparr>) pool)"
    proof (cases "po_stopping pool")
      case True
      then have "length (po_queue pool) = 0"
        using assms(1) unfolding pool_ok_def by linarith
      then show ?thesis
        by (simp add: drained_if_dead_def)
    next
      case False
      then have "(po_slots pool ! i)\<lparr>sl_dead := True\<rparr> = po_slots pool ! i"
        using that by (cases "po_slots pool ! i") simp
      then have "update_slot i (\<lambda>s. s\<lparr>sl_dead := True\<rparr>) pool = pool"
        by (simp add: update_slot_def)
      then show ?thesis
        using assms(2) by simp
    qed
  qed
  then show ?thesis
    using WorkerExit fail_slot_returns [OF assms] assms by (auto simp: pool_step_def on_exit_def)
qed


lemma reachable_ok: "pool_reachable pool \<Longrightarrow> pool_ok pool \<and> drained_if_dead pool"
proof (induction rule: pool_reachable.induct)
  case pool_started
  then show ?case
    by (simp add: pool_ok_def drained_if_dead_def start_workers_def new_pool_def WORKER_COUNT_def
        answered_requests_def active_requests_def active_of_def new_slot_def numeral_2_eq_2)
next
  case (pool_event pool posts event pool')
  then show ?case
    using pool_step_returns [of pool posts event] by auto
qed

lemma sum_list_empty: "\<forall>x\<in>set xs. f x = {#} \<Longrightarrow> sum_list (map f xs) = {#}"
  by (induction xs) auto

lemma mset_upt_distinct:
  assumes "mset xs + ys = mset [1..<n]"
  shows "distinct xs" and "set xs \<subseteq> {1..<n}"
proof -
  have sub: "mset xs \<subseteq># mset [1..<n]"
    using assms by (metis mset_subset_eq_add_left)
  then show "set xs \<subseteq> {1..<n}"
    by (metis set_mset_mono set_mset_mset set_upt)
  show "distinct xs"
    unfolding distinct_count_atmost_1
  proof
    fix a
    show "count (mset xs) a = (if a \<in> set xs then 1 else 0)"
    proof (cases "a \<in> set xs")
      case True
      then have "1 \<le> count (mset xs) a"
        by (simp add: Suc_le_eq)
      moreover have "count (mset xs) a \<le> count (mset [1..<n]) a"
        using sub by (rule mset_subset_eq_count)
      moreover have "count (mset [1..<n]) a \<le> 1"
        using distinct_count_atmost_1 [of "[1..<n]"] by simp
      ultimately have "count (mset xs) a = 1"
        by linarith
      with True show ?thesis
        by simp
    qed simp
  qed
qed

section \<open>Every accepted request is answered once\<close>

lemma accounts:
  assumes "pool_reachable pool"
  shows "po_outstanding pool = int (po_next_id pool) - 1 - int (length (po_answered pool))"
proof -
  have ok: "pool_ok pool"
    using reachable_ok [OF assms] by simp
  then have all: "answered_requests pool + mset (po_queue pool) + active_requests pool = mset [1..<po_next_id pool]"
    unfolding pool_ok_def by blast
  have "length (po_answered pool) + length (po_queue pool) + size (active_requests pool) = po_next_id pool - 1"
    using arg_cong [OF all, of size] by (simp add: answered_requests_def)
  moreover have "po_outstanding pool = int (length (po_queue pool)) + int (size (active_requests pool))"
      "1 \<le> po_next_id pool"
    using ok unfolding pool_ok_def by blast+
  ultimately show ?thesis
    by linarith
qed

text \<open>C10: In every reachable state of the request pool each accepted request has been answered at most once and
  only accepted requests have been; the pool never holds more than two active and four queued requests; and when
  the pool has stopped its workers, or no worker is left alive, every accepted request has been answered.\<close>

theorem requests_answered_once:
  assumes "pool_reachable pool"
  shows "distinct (map fst (po_answered pool)) \<and> set (map fst (po_answered pool)) \<subseteq> {1..<po_next_id pool} \<and>
    0 \<le> po_outstanding pool \<and> po_outstanding pool \<le> 6 \<and>
    po_outstanding pool = int (po_next_id pool) - 1 - int (length (po_answered pool)) \<and>
    (po_stopping pool \<or> all_dead pool \<longrightarrow> set (map fst (po_answered pool)) = {1..<po_next_id pool})"
proof -
  have ok: "pool_ok pool" and drained: "drained_if_dead pool"
    using reachable_ok [OF assms] by auto
  let ?rest = "mset (po_queue pool) + active_requests pool"
  have all: "mset (map fst (po_answered pool)) + ?rest = mset [1..<po_next_id pool]"
    using ok by (simp add: pool_ok_def answered_requests_def ac_simps)
  have outstanding: "po_outstanding pool = int (size ?rest)" "po_outstanding pool \<le> 6" "1 \<le> po_next_id pool"
    using ok by (simp_all add: pool_ok_def WORKER_COUNT_def MAX_QUEUED_REQUESTS_def)
  note count = accounts [OF assms]
  have "?rest = {#}" if "po_stopping pool \<or> all_dead pool"
  proof (cases "po_stopping pool")
    case True
    then have "size ?rest = 0"
      using ok outstanding(1) unfolding pool_ok_def by linarith
    then show ?thesis
      by (simp only: size_eq_0_iff_empty)
  next
    case False
    then have "all_dead pool"
      using that by simp
    then have "\<forall>s\<in>set (po_slots pool). active_of s = {#}"
      using ok by (auto simp: pool_ok_def all_dead_def list_all_iff active_of_def)
    then have "active_requests pool = {#}"
      unfolding active_requests_def by (rule sum_list_empty)
    then show ?thesis
      using drained \<open>all_dead pool\<close> by (simp add: drained_if_dead_def)
  qed
  then have "set (map fst (po_answered pool)) = {1..<po_next_id pool}" if "po_stopping pool \<or> all_dead pool"
    using that all by (metis add.right_neutral set_mset_mset set_upt)
  then show ?thesis
    using mset_upt_distinct [OF all] outstanding(1,2) count by simp
qed

definition all_posts :: "nat \<Rightarrow> bool" where "all_posts i \<longleftrightarrow> True"

fun run_pool :: "pool_event list \<Rightarrow> request_pool \<Rightarrow> request_pool option" where
  "run_pool [] pool = Some pool"
| "run_pool (e # es) pool = (case pool_step all_posts e pool of None \<Rightarrow> None | Some pool' \<Rightarrow> run_pool es pool')"

definition demo_events :: "pool_event list" where
  "demo_events = [Message 0 WReady, Message 1 WReady, Dispatch, Dispatch, Dispatch, Message 1 (WComplete 2), WorkerError 0]"

lemma run_pool_reachable: "run_pool es pool = Some pool' \<Longrightarrow> pool_reachable pool \<Longrightarrow> pool_reachable pool'"
  by (induction es arbitrary: pool) (auto split: option.splits intro: pool_event)

lemma requests_answered_once_witness:
  "\<exists>pool. run_pool demo_events (start_workers new_pool) = Some pool \<and> distinct (map fst (po_answered pool)) \<and>
     po_answered pool = [(2, Completed), (1, WorkerUnavailable)]"
proof -
  have "map_option po_answered (run_pool demo_events (start_workers new_pool)) =
      Some [(2, Completed), (1, WorkerUnavailable)]"
    by code_simp
  then obtain pool where pool: "run_pool demo_events (start_workers new_pool) = Some pool"
      "po_answered pool = [(2, Completed), (1, WorkerUnavailable)]"
    by auto
  show ?thesis
    using requests_answered_once [OF run_pool_reachable [OF pool(1) pool_started]] pool by blast
qed


section \<open>No accepted request is left waiting\<close>

text \<open>
  The control server awaits \<open>ready()\<close>, which is fulfilled when every worker has reported, before it listens
  (control-server.ts); \<open>ready\<close> itself schedules nothing. \<open>served_reachable\<close> are the states of such a server.
\<close>

definition workers_reported :: "request_pool \<Rightarrow> bool" where
  "workers_reported pool \<longleftrightarrow> list_all (\<lambda>s. sl_ready s \<or> sl_dead s) (po_slots pool)"

inductive served_reachable :: "request_pool \<Rightarrow> bool" where
  served_started: "served_reachable (start_workers new_pool)"
| served_event: "served_reachable pool \<Longrightarrow> (event = Dispatch \<Longrightarrow> workers_reported pool) \<Longrightarrow>
    pool_step posts event pool = Some pool' \<Longrightarrow> served_reachable pool'"

lemma served_is_reachable: "served_reachable pool \<Longrightarrow> pool_reachable pool"
  by (induction rule: served_reachable.induct) (auto intro: pool_reachable.intros)

definition work_conserving :: "request_pool \<Rightarrow> bool" where
  "work_conserving pool \<longleftrightarrow>
     po_queue pool = [] \<or> (workers_reported pool \<and> list_all (\<lambda>s. \<not> takes_work s) (po_slots pool))"

lemma conserving_served:
  assumes "served [0..<length (po_slots pool)] pool'" and "length (po_slots pool') = length (po_slots pool)"
    and "workers_reported pool' \<or> po_queue pool' = []"
  shows "work_conserving pool'"
  using assms by (auto simp: work_conserving_def served_def list_all_length)

lemma reported_mono:
  "workers_reported pool \<Longrightarrow> only_loses_idle pool pool' \<Longrightarrow> workers_reported pool'"
  by (auto simp: workers_reported_def only_loses_idle_def list_all_length)

lemma schedule_conserves:
  assumes "pool_ok pool" and "drained_if_dead pool" and "workers_reported pool \<or> po_queue pool = []"
    and "schedule posts pool = Some pool'"
  shows "work_conserving pool'"
proof -
  have "only_loses_idle pool pool'" "served [0..<length (po_slots pool)] pool'"
    using schedule_returns [OF assms(1,2), of posts] assms(4) by auto
  then show ?thesis
    using assms(3) reported_mono [of pool pool'] conserving_served [of pool pool']
    by (auto simp: only_loses_idle_def)
qed

lemma reported_update:
  assumes "workers_reported pool" and "\<And>s. sl_ready s \<or> sl_dead s \<Longrightarrow> sl_ready (f s) \<or> sl_dead (f s)"
  shows "workers_reported (update_slot i f pool)"
  using assms by (cases "i < length (po_slots pool)")
    (auto simp: workers_reported_def update_slot_def list_all_length nth_list_update list_update_beyond)

lemma fail_slot_reported:
  assumes "pool_ok pool" and "i < length (po_slots pool)" and "workers_reported pool \<or> po_queue pool = []"
  shows "workers_reported (fail_slot_body i pool) \<or> po_queue (fail_slot_body i pool) = []"
  using assms(3) fail_slot_body_ok(2,3) [OF assms(1,2)] assms(2)
  by (auto simp: workers_reported_def list_all_length nth_list_update)

lemma step_conserves:
  assumes ok: "pool_ok pool" "drained_if_dead pool" and wc: "work_conserving pool"
    and guard: "event = Dispatch \<Longrightarrow> workers_reported pool"
    and step: "pool_step posts event pool = Some pool'"
  shows "work_conserving pool'"
proof -
  have reported: "workers_reported pool \<or> po_queue pool = []"
    using wc by (auto simp: work_conserving_def)
  have failing: "work_conserving pool''"
    if "i < length (po_slots pool)" "fail_slot posts i pool = Some pool''" for i pool''
  proof (cases "sl_dead (po_slots pool ! i)")
    case True
    then show ?thesis
      using that wc by (simp add: fail_slot_def)
  next
    case False
    then show ?thesis
      using that schedule_conserves [OF fail_slot_body_ok(1) [OF ok(1) that(1)] _
          fail_slot_reported [OF ok(1) that(1) reported], of posts pool'']
        fail_slot_body_ok(4) [OF ok(1) that(1)]
      by (simp add: fail_slot_def drained_if_dead_def)
  qed
  show ?thesis
  proof (cases event)
    case Dispatch
    show ?thesis
    proof (cases "\<not> po_accepting pool \<or> all_dead pool \<or>
        int (WORKER_COUNT + MAX_QUEUED_REQUESTS) \<le> po_outstanding pool")
      case True
      then show ?thesis
        using Dispatch step wc by (simp add: pool_step_def dispatch_def)
    next
      case False
      let ?pool = "pool\<lparr>po_next_id := Suc (po_next_id pool), po_outstanding := po_outstanding pool + 1,
         po_queue := po_queue pool @ [po_next_id pool]\<rparr>"
      have "pool_ok ?pool" "drained_if_dead ?pool" "workers_reported ?pool"
        using False dispatch_ok [OF ok(1)] guard [OF Dispatch]
        by (simp_all add: drained_if_dead_def all_dead_def workers_reported_def)
      then show ?thesis
        using schedule_conserves [of ?pool posts pool'] False Dispatch step
        by (auto simp: pool_step_def dispatch_def Let_def)
    qed
  next
    case Close
    then show ?thesis
      using step wc by (auto simp: pool_step_def close_pool_def work_conserving_def workers_reported_def)
  next
    case (Message i m)
    show ?thesis
    proof (cases "i < length (po_slots pool)")
      case i: True
      have finish: "work_conserving pool'"
        if "sl_active (po_slots pool ! i) = Some r" "schedule posts (finish_request i r a pool) = Some pool'" for r a
      proof (rule schedule_conserves [OF finish_request_ok [OF ok(1) i that(1)] _ that(2)])
        show "workers_reported (finish_request i r a pool) \<or> po_queue (finish_request i r a pool) = []"
          using reported reported_update [of pool "\<lambda>s. s\<lparr>sl_active := None\<rparr>" i]
          by (auto simp: finish_request_def workers_reported_def)
      qed
      have ready: "work_conserving (update_slot i (\<lambda>s. s\<lparr>sl_ready := True\<rparr>) pool)"
        using wc reported_update [of pool "\<lambda>s. s\<lparr>sl_ready := True\<rparr>" i] i
        by (auto simp: work_conserving_def list_all_length takes_work_def workers_reported_def update_slot_nth)
      show ?thesis
        using Message i step wc ready finish
        by (auto simp: pool_step_def on_message_def Let_def split: worker_message.splits if_splits
            simp flip: finish_request_def)
    qed (use Message step wc in \<open>simp add: pool_step_def\<close>)
  next
    case (WorkerError i)
    then show ?thesis
      using step failing wc by (auto simp: pool_step_def split: if_splits)
  next
    case (WorkerExit i)
    show ?thesis
    proof (cases "i < length (po_slots pool)")
      case i: True
      have "work_conserving (update_slot i (\<lambda>s. s\<lparr>sl_dead := True\<rparr>) pool)"
        using wc reported_update [of pool "\<lambda>s. s\<lparr>sl_dead := True\<rparr>" i] i
        by (auto simp: work_conserving_def list_all_length takes_work_def update_slot_nth)
      then show ?thesis
        using WorkerExit i step failing [OF i] by (auto simp: pool_step_def on_exit_def split: if_splits)
    qed (use WorkerExit step wc in \<open>simp add: pool_step_def\<close>)
  qed
qed


lemma served_conserving: "served_reachable pool \<Longrightarrow> work_conserving pool"
proof (induction rule: served_reachable.induct)
  case served_started
  then show ?case
    by (simp add: work_conserving_def start_workers_def new_pool_def)
next
  case (served_event pool event posts pool')
  then show ?case
    using step_conserves reachable_ok [OF served_is_reachable] by blast
qed

lemma outstanding_has_active:
  assumes "served_reachable pool" and "0 < po_outstanding pool"
  shows "\<exists>i r. i < length (po_slots pool) \<and> sl_active (po_slots pool ! i) = Some r"
proof (rule ccontr)
  assume none: "\<not> ?thesis"
  have ok: "pool_ok pool" and drained: "drained_if_dead pool"
    using reachable_ok [OF served_is_reachable [OF assms(1)]] by auto
  have idle: "\<forall>s\<in>set (po_slots pool). sl_active s = None"
    using none by (auto simp: in_set_conv_nth)
  then have "active_requests pool = {#}"
    unfolding active_requests_def by (intro sum_list_empty) (simp add: active_of_def)
  then have queue: "po_queue pool \<noteq> []"
    using assms(2) ok by (auto simp: pool_ok_def)
  then have "\<not> all_dead pool"
    using drained by (auto simp: drained_if_dead_def)
  then obtain s where s: "s \<in> set (po_slots pool)" "\<not> sl_dead s"
    by (auto simp: all_dead_def list_all_iff)
  then show False
    using served_conserving [OF assms(1)] queue idle
    by (auto simp: work_conserving_def workers_reported_def list_all_iff takes_work_def)
qed

text \<open>C23: The pool of a server that waits for its workers never stalls: as long as an accepted request is
  unanswered some worker is executing one, and the completion it reports is answered to its caller and lowers the
  number of outstanding requests, whatever the workers do with the messages posted next.\<close>

theorem pool_never_stalls:
  assumes "served_reachable pool" and "0 < po_outstanding pool"
  shows "\<exists>i r. i < length (po_slots pool) \<and> sl_active (po_slots pool ! i) = Some r \<and>
    (\<forall>posts. \<exists>pool'. pool_step posts (Message i (WComplete r)) pool = Some pool' \<and>
       (r, Completed) \<in> set (po_answered pool') \<and> po_outstanding pool' < po_outstanding pool)"
proof -
  obtain i r where ir: "i < length (po_slots pool)" "sl_active (po_slots pool ! i) = Some r"
    using outstanding_has_active [OF assms] by blast
  have reach: "pool_reachable pool"
    by (rule served_is_reachable [OF assms(1)])
  have ok: "pool_ok pool"
    using reachable_ok [OF reach] by simp
  have "\<exists>pool'. pool_step posts (Message i (WComplete r)) pool = Some pool' \<and>
       (r, Completed) \<in> set (po_answered pool') \<and> po_outstanding pool' < po_outstanding pool" for posts
  proof -
    obtain pool' where pool': "schedule posts (finish_request i r Completed pool) = Some pool'" "pool_ok pool'"
        "only_loses_idle (finish_request i r Completed pool) pool'"
      using schedule_returns [OF finish_request_ok [OF ok ir], of posts] by blast
    have step: "pool_step posts (Message i (WComplete r)) pool = Some pool'"
      using pool'(1) ir by (simp add: pool_step_def on_message_def Let_def flip: finish_request_def)
    obtain as where answers: "po_answered pool' = po_answered pool @ (r, Completed) # as"
      using pool'(3) by (auto simp: only_loses_idle_def finish_request_def prefix_def)
    have "po_next_id pool' = po_next_id pool"
      using pool'(3) by (simp add: only_loses_idle_def finish_request_def)
    then have "po_outstanding pool' < po_outstanding pool"
      using accounts [OF reach] accounts [OF pool_reachable.pool_event [OF reach step]] answers by simp
    then show ?thesis
      using step answers by simp
  qed
  then show ?thesis
    using ir by blast
qed

definition demo_served_events :: "pool_event list" where
  "demo_served_events = [Message 0 WReady, Message 1 WReady, Dispatch, Dispatch, Dispatch]"

fun run_served :: "pool_event list \<Rightarrow> request_pool \<Rightarrow> request_pool option" where
  "run_served [] pool = Some pool"
| "run_served (e # es) pool =
     (if e = Dispatch \<and> \<not> workers_reported pool then None
      else (case pool_step all_posts e pool of None \<Rightarrow> None | Some pool' \<Rightarrow> run_served es pool'))"

lemma run_served_reachable:
  "run_served es pool = Some pool' \<Longrightarrow> served_reachable pool \<Longrightarrow> served_reachable pool'"
  by (induction es arbitrary: pool) (auto split: if_splits option.splits intro: served_event)

lemma pool_never_stalls_witness:
  "\<exists>pool i r. run_served demo_served_events (start_workers new_pool) = Some pool \<and> sl_active (po_slots pool ! i) = Some r"
proof -
  have "map_option po_outstanding (run_served demo_served_events (start_workers new_pool)) = Some 3"
    by code_simp
  then obtain pool where pool: "run_served demo_served_events (start_workers new_pool) = Some pool"
      "po_outstanding pool = 3"
    by auto
  have "served_reachable pool"
    using run_served_reachable [OF pool(1)] served_started by blast
  from pool_never_stalls [OF this] pool show ?thesis
    by auto
qed

end
