(* ===== verification/CanonicalJson.thy ===== *)
theory CanonicalJson
  imports Json
begin

text \<open>
  The canonical JSON text of src/src/registry/file-operation-record.ts (\<open>canonicalJson\<close>) and the copy
  made through it (\<open>cloneJsonValue\<close>, \<open>freezeJsonValue\<close>). The text is computed character by character;
  the second half shows that it is a faithful name of the value: two serializable values have the
  same text exactly when they differ in nothing but the order of object properties.
\<close>

datatype file_error_code =
    FileOpInvalid | FileOpIdConflict | FileOpInvalidTransition | FileOpLimit | FileOpAuthorityDenied
  | FileOpUnsupportedSchema | FileOpCorrupt

definition is_digit :: "char \<Rightarrow> bool" where "is_digit c \<longleftrightarrow> c \<in> set ''0123456789''"

section \<open>Canonical JSON text\<close>

definition hex_digit :: "nat \<Rightarrow> char" where
  "hex_digit n = ''0123456789abcdef'' ! n"

text \<open>\<open>JSON.stringify\<close> of a string and of an integer below 10 ^ 21\<close>

definition json_escape :: "char \<Rightarrow> string" where
  "json_escape c =
     (let n = of_char c :: nat in
      if n = 34 then [CHR 92, CHR 34]
      else if n = 92 then [CHR 92, CHR 92]
      else if n = 8 then [CHR 92, CHR ''b''] else if n = 9 then [CHR 92, CHR ''t'']
      else if n = 10 then [CHR 92, CHR ''n''] else if n = 12 then [CHR 92, CHR ''f'']
      else if n = 13 then [CHR 92, CHR ''r'']
      else if n < 32 then [CHR 92, CHR ''u'', CHR ''0'', CHR ''0'', hex_digit (n div 16), hex_digit (n mod 16)]
      else [c])"

definition json_quote :: "string \<Rightarrow> string" where
  "json_quote s = CHR 34 # concat (map json_escape s) @ [CHR 34]"

fun decimal :: "nat \<Rightarrow> string" where
  "decimal n = (if n < 10 then [hex_digit n] else decimal (n div 10) @ [hex_digit (n mod 10)])"

declare decimal.simps [simp del]

definition json_number :: "int \<Rightarrow> string" where
  "json_number n = (if n < 0 then CHR ''-'' # decimal (nat (- n)) else decimal (nat n))"

definition json_entry :: "string \<times> string \<Rightarrow> string" where
  "json_entry e = json_quote (fst e) @ CHR '':'' # snd e"

fun canonical_json :: "json \<Rightarrow> file_error_code + string"
  and canonical_list :: "json list \<Rightarrow> file_error_code + string list"
  and canonical_entries :: "(string \<times> json) list \<Rightarrow> file_error_code + (string \<times> string) list"
  where
  "canonical_json JNull = Inr ''null''"
| "canonical_json (JStr s) = Inr (json_quote s)"
| "canonical_json (JBool b) = Inr (if b then ''true'' else ''false'')"
| "canonical_json (JNum n) = Inr (json_number n)"
| "canonical_json JUndefined = Inl FileOpInvalid"
| "canonical_json (JArr vs) =
     bind_sum (canonical_list vs) (\<lambda>ts. Inr (CHR ''['' # join_with CHR '','' ts @ '']''))"
| "canonical_json (JObj ps) =
     bind_sum (canonical_entries ps) (\<lambda>es.
       Inr (CHR ''{'' # join_with CHR '','' (map json_entry (sort_key fst es)) @ ''}''))"
| "canonical_list [] = Inr []"
| "canonical_list (v # vs) = bind_sum (canonical_json v) (\<lambda>t. bind_sum (canonical_list vs) (\<lambda>ts. Inr (t # ts)))"
| "canonical_entries [] = Inr []"
| "canonical_entries (e # es) =
     bind_sum (canonical_json (snd e)) (\<lambda>t. bind_sum (canonical_entries es) (\<lambda>ts. Inr ((fst e, t) # ts)))"

text \<open>The value of a canonical text: every object has its properties in the order of their keys.\<close>

fun sort_json :: "json \<Rightarrow> json" where
  "sort_json (JArr vs) = JArr (map sort_json vs)"
| "sort_json (JObj ps) = JObj (sort_key fst (map (\<lambda>(k, v). (k, sort_json v)) ps))"
| "sort_json v = v"

text \<open>\<open>JSON.parse(canonicalJson(value))\<close>\<close>

definition clone_json :: "json \<Rightarrow> file_error_code + json" where
  "clone_json v = bind_sum (canonical_json v) (\<lambda>_. Inr (sort_json v))"

text \<open>\<open>freezeJsonValue\<close> copies with \<open>result[key] = ...\<close>, which for the key \<open>__proto__\<close> sets the prototype of the
  copy, or nothing, and never makes a property.\<close>

fun freeze_json :: "json \<Rightarrow> json" where
  "freeze_json (JArr vs) = JArr (map freeze_json vs)"
| "freeze_json (JObj ps) =
     JObj (filter (\<lambda>e. fst e \<noteq> ''__proto__'') (map (\<lambda>(k, v). (k, freeze_json v)) ps))"
| "freeze_json v = v"

section \<open>What the canonical text says\<close>

fun serializable :: "json \<Rightarrow> bool" where
  "serializable (JArr vs) \<longleftrightarrow> (\<forall>v\<in>set vs. serializable v)"
| "serializable (JObj ps) \<longleftrightarrow> (\<forall>p\<in>set ps. serializable (snd p))"
| "serializable v \<longleftrightarrow> v \<noteq> JUndefined"

fun print_json :: "json \<Rightarrow> string" where
  "print_json JNull = ''null''"
| "print_json (JStr s) = json_quote s"
| "print_json (JBool b) = (if b then ''true'' else ''false'')"
| "print_json (JNum n) = json_number n"
| "print_json JUndefined = []"
| "print_json (JArr vs) = CHR ''['' # join_with CHR '','' (map print_json vs) @ '']''"
| "print_json (JObj ps) =
     CHR ''{'' # join_with CHR '','' (map (\<lambda>(k, v). json_entry (k, print_json v)) ps) @ ''}''"

lemma insort_key_map_snd:
  "insort_key fst (k, g v) (map (\<lambda>p. (fst p, g (snd p))) ps) = map (\<lambda>p. (fst p, g (snd p))) (insort_key fst (k, v) ps)"
  by (induction ps) auto

lemma sort_key_map_snd:
  "sort_key fst (map (\<lambda>p. (fst p, g (snd p))) ps) = map (\<lambda>p. (fst p, g (snd p))) (sort_key fst ps)"
proof (induction ps)
  case (Cons p ps)
  then show ?case using insort_key_map_snd [of "fst p" g "snd p"] by simp
qed simp

lemma canonical_text:
  "canonical_json v = (if serializable v then Inr (print_json (sort_json v)) else Inl FileOpInvalid)"
  "canonical_list vs =
     (if \<forall>v\<in>set vs. serializable v then Inr (map (print_json \<circ> sort_json) vs) else Inl FileOpInvalid)"
  "canonical_entries ps =
     (if \<forall>p\<in>set ps. serializable (snd p) then Inr (map (\<lambda>p. (fst p, print_json (sort_json (snd p)))) ps)
      else Inl FileOpInvalid)"
proof (induction v and vs and ps rule: canonical_json_canonical_list_canonical_entries.induct)
  case (7 ps)
  have sorted: "sort_key fst (map (\<lambda>p. (fst p, print_json (sort_json (snd p)))) ps) =
      map (\<lambda>p. (fst p, print_json (snd p))) (sort_key fst (map (\<lambda>p. (fst p, sort_json (snd p))) ps))"
    by (simp add: sort_key_map_snd sort_key_map_snd [of "\<lambda>v. print_json (sort_json v)"] comp_def)
  show ?case
    using 7 by (auto simp: sorted case_prod_unfold comp_def)
next
  case (9 v vs)
  then show ?case by (cases "serializable v") auto
next
  case (11 e es)
  then show ?case by (cases "serializable (snd e)") auto
qed auto

lemma sort_json_sort_json [simp]: "sort_json (sort_json v) = sort_json v"
proof (induction v rule: sort_json.induct)
  case (2 ps)
  have "map (\<lambda>p. (fst p, sort_json (sort_json (snd p)))) ps = map (\<lambda>p. (fst p, sort_json (snd p))) ps"
    using 2 by auto
  then show ?case
    by (simp add: case_prod_unfold sort_key_map_snd sort_key_id_if_sorted comp_def)
qed auto

lemma serializable_sort_json [simp]: "serializable (sort_json v) = serializable v"
  by (induction v rule: sort_json.induct) auto

lemma canonical_sort_json [simp]: "canonical_json (sort_json v) = canonical_json v"
  by (simp add: canonical_text)

lemma canonical_json_serializable: "canonical_json v = Inr t \<Longrightarrow> serializable v"
  by (simp add: canonical_text split: if_splits)

lemma serializable_freeze_json: "serializable v \<Longrightarrow> serializable (freeze_json v)"
  by (induction v rule: freeze_json.induct) auto

lemma filter_map_values:
  "filter (\<lambda>e. fst e \<noteq> k) (map (\<lambda>p. (fst p, g (snd p))) ps) = map (\<lambda>p. (fst p, g (snd p))) (filter (\<lambda>e. fst e \<noteq> k) ps)"
  by (simp add: filter_map comp_def)

lemma freeze_json_freeze_json [simp]: "freeze_json (freeze_json v) = freeze_json v"
proof (induction v rule: freeze_json.induct)
  case (2 ps)
  have "\<forall>p\<in>set ps. freeze_json (freeze_json (snd p)) = freeze_json (snd p)"
    using 2 by force
  then show ?case by (simp add: case_prod_unfold filter_map_values)
qed auto

lemma sort_freeze_sort [simp]: "sort_json (freeze_json (sort_json v)) = freeze_json (sort_json v)"
proof (induction v rule: sort_json.induct)
  case (2 ps)
  let ?ps = "sort_key fst ps"
  have "\<forall>p\<in>set ps. sort_json (freeze_json (sort_json (snd p))) = freeze_json (sort_json (snd p))"
    using 2 by force
  then show ?case
    by (simp add: case_prod_unfold filter_map_values filter_map_values [of _ "\<lambda>v. freeze_json (sort_json v)"]
        sort_key_map_snd comp_def sort_key_id_if_sorted sorted_filter)
qed auto

lemma clone_freeze_stable:
  assumes "clone_json v = Inr w"
  shows "serializable (freeze_json w)" "clone_json (freeze_json w) = Inr (freeze_json w)" "freeze_json v = JNull \<longleftrightarrow> v = JNull"
  using assms
  by (auto simp: clone_json_def sum_simps canonical_text serializable_freeze_json split: if_splits)
   (cases v; simp)+


section \<open>The canonical text determines the value\<close>

text \<open>A reader of one escaped character, for the proof that escaping is a prefix code\<close>

definition hex_value :: "char \<Rightarrow> nat" where
  "hex_value c = (let n = of_char c in if n < 58 then n - 48 else n - 87)"

fun unescape :: "string \<Rightarrow> char \<times> string" where
  "unescape (c # x) =
     (if c \<noteq> CHR 92 then (c, x)
      else case x of
        d # y \<Rightarrow>
          if d = CHR ''b'' then (char_of (8::nat), y) else if d = CHR ''t'' then (char_of (9::nat), y)
          else if d = CHR ''n'' then (char_of (10::nat), y) else if d = CHR ''f'' then (char_of (12::nat), y)
          else if d = CHR ''r'' then (char_of (13::nat), y)
          else if d = CHR ''u''
          then (char_of (hex_value (y ! 2) * 16 + hex_value (y ! 3)), drop 4 y)
          else (d, y))"

lemma hex_value_digit: "k < 16 \<Longrightarrow> hex_value (hex_digit k) = k"
proof -
  have "list_all (\<lambda>k. hex_value (hex_digit k) = k) [0..<16]" by code_simp
  then show "k < 16 \<Longrightarrow> hex_value (hex_digit k) = k" by (simp add: list_all_iff)
qed

lemma unescape_escape: "unescape (json_escape c @ x) = (c, x)"
proof -
  let ?n = "of_char c :: nat"
  consider "?n = 34 \<or> ?n = 92" | "?n < 32" | "32 \<le> ?n" "?n \<noteq> 34" "?n \<noteq> 92" by linarith
  then show ?thesis
  proof cases
    case 1
    then have "?n = of_char (CHR 34) \<or> ?n = of_char (CHR 92)" by simp
    then have "c = CHR 34 \<or> c = CHR 92" by (simp only: of_char_eq_iff)
    then show ?thesis by (auto simp: json_escape_def)
  next
    case 2
    have char_n: "char_of n = c" if "?n = n" for n
      using that by auto
    from 2 have "unescape (json_escape c @ x) = (char_of ?n, x)"
      by (auto simp: json_escape_def Let_def hex_value_digit char_n)
    then show ?thesis by simp
  next
    case 3
    then have "c \<noteq> CHR 92" by auto
    with 3 show ?thesis by (simp add: json_escape_def Let_def)
  qed
qed

lemma escape_inj: "json_escape c @ x = json_escape d @ y \<Longrightarrow> c = d \<and> x = y"
  using unescape_escape [of c x] unescape_escape [of d y] by (metis prod.inject)

lemma escape_not_quote: "\<exists>e es. json_escape c = e # es \<and> e \<noteq> CHR 34"
  by (auto simp: json_escape_def Let_def)

lemma quoted_inj:
  "concat (map json_escape s) @ CHR 34 # x = concat (map json_escape t) @ CHR 34 # y \<Longrightarrow> s = t \<and> x = y"
proof (induction s arbitrary: t)
  case Nil
  show ?case
  proof (cases t)
    case (Cons d t')
    obtain e es where "json_escape d = e # es" "e \<noteq> CHR 34" using escape_not_quote by blast
    with Nil Cons show ?thesis by simp
  qed (use Nil in simp)
next
  case (Cons c s)
  show ?case
  proof (cases t)
    case Nil
    obtain e es where "json_escape c = e # es" "e \<noteq> CHR 34" using escape_not_quote by blast
    with Cons.prems Nil show ?thesis by simp
  next
    case (Cons d t')
    have "json_escape c @ (concat (map json_escape s) @ CHR 34 # x) =
        json_escape d @ (concat (map json_escape t') @ CHR 34 # y)"
      using Cons.prems by (simp add: Cons)
    from escape_inj [OF this] Cons.IH Cons show ?thesis by auto
  qed
qed

lemma json_quote_inj: "json_quote s @ x = json_quote t @ y \<Longrightarrow> s = t \<and> x = y"
  using quoted_inj [of s x t y] by (simp add: json_quote_def)

fun digits_value :: "nat \<Rightarrow> string \<Rightarrow> nat" where
  "digits_value acc [] = acc"
| "digits_value acc (c # cs) = digits_value (acc * 10 + hex_value c) cs"

lemma digits_value_append: "digits_value acc (s @ t) = digits_value (digits_value acc s) t"
  by (induction s arbitrary: acc) auto

lemma decimal_value: "digits_value 0 (decimal n) = n"
proof (induction n rule: decimal.induct)
  case (1 n)
  show ?case
  proof (cases "n < 10")
    case True
    then show ?thesis by (simp add: decimal.simps [of n] hex_value_digit)
  next
    case False
    have "digits_value 0 (decimal n) = (n div 10) * 10 + hex_value (hex_digit (n mod 10))"
      using False 1 by (simp add: decimal.simps [of n] digits_value_append)
    also have "hex_value (hex_digit (n mod 10)) = n mod 10"
      by (rule hex_value_digit) (use mod_less_divisor [of 10 n] in linarith)
    finally show ?thesis by simp
  qed
qed

lemma hex_digit_is_digit: "k < 10 \<Longrightarrow> is_digit (hex_digit k)"
proof -
  have "list_all (\<lambda>k. is_digit (hex_digit k)) [0..<10]" by code_simp
  then show "k < 10 \<Longrightarrow> is_digit (hex_digit k)" by (simp add: list_all_iff)
qed

lemma decimal_digits: "c \<in> set (decimal n) \<Longrightarrow> is_digit c"
proof (induction n rule: decimal.induct)
  case (1 n)
  then show ?case
    by (cases "n < 10") (auto simp: decimal.simps [of n] hex_digit_is_digit)
qed

lemma decimal_nonempty [simp]: "decimal n \<noteq> []"
  by (simp add: decimal.simps [of n])

text \<open>What follows a value inside a text\<close>

definition stops :: "string \<Rightarrow> bool" where
  "stops r \<longleftrightarrow> (case r of [] \<Rightarrow> True | c # _ \<Rightarrow> c \<in> set '',]}'')"

lemma stops_simps [simp]: "stops []" "stops (CHR '','' # r)" "stops (CHR '']'' # r)" "stops (CHR ''}'' # r)"
  by (simp_all add: stops_def)

lemma decimal_inj:
  assumes "decimal m @ r = decimal n @ u" "stops r" "stops u"
  shows "m = n \<and> r = u"
proof -
  have front: "takeWhile is_digit (decimal k @ w) = decimal k" if "stops w" for k w
    using that decimal_digits by (cases w) (auto simp: takeWhile_append2 stops_def is_digit_def)
  have "decimal m = decimal n"
    using front [OF assms(2), of m] front [OF assms(3), of n] assms(1) by simp
  with assms(1) show ?thesis by (metis decimal_value same_append_eq)
qed

lemma decimal_not_minus: "decimal n = c # cs \<Longrightarrow> is_digit c"
  using decimal_digits [of c n] by simp

lemma json_number_inj:
  assumes "json_number m @ r = json_number n @ u" "stops r" "stops u"
  shows "m = n \<and> r = u"
proof -
  obtain c cs where c: "decimal (nat m) = c # cs" "c \<noteq> CHR ''-''"
    using decimal_not_minus [of "nat m"] by (cases "decimal (nat m)") (auto simp: is_digit_def)
  obtain d ds where d: "decimal (nat n) = d # ds" "d \<noteq> CHR ''-''"
    using decimal_not_minus [of "nat n"] by (cases "decimal (nat n)") (auto simp: is_digit_def)
  consider "m < 0" "n < 0" | "m < 0" "0 \<le> n" | "0 \<le> m" "n < 0" | "0 \<le> m" "0 \<le> n" by linarith
  then show ?thesis
  proof cases
    case 1
    then show ?thesis using assms decimal_inj [of "nat (- m)" r "nat (- n)" u] by (simp add: json_number_def eq_nat_nat_iff)
  next
    case 2
    then show ?thesis using assms(1) d by (simp add: json_number_def)
  next
    case 3
    then show ?thesis using assms(1) c by (simp add: json_number_def)
  next
    case 4
    then show ?thesis using assms decimal_inj [of "nat m" r "nat n" u] by (simp add: json_number_def eq_nat_nat_iff)
  qed
qed


lemma join_with_Cons: "join_with c (s # ss) = (if ss = [] then s else s @ c # join_with c ss)"
  by (cases ss) auto

text \<open>A list of texts between separators is read back element by element.\<close>

lemma join_inj:
  assumes code: "\<And>x y r u. x \<in> set xs \<Longrightarrow> y \<in> set ys \<Longrightarrow> stops r \<Longrightarrow> stops u \<Longrightarrow> f x @ r = f y @ u \<Longrightarrow> x = y \<and> r = u"
    and begins: "\<And>x r. x \<in> set xs \<union> set ys \<Longrightarrow> \<not> stops (f x @ r)"
    and close: "z = CHR '']'' \<or> z = CHR ''}''"
    and eq: "join_with CHR '','' (map f xs) @ z # r = join_with CHR '','' (map f ys) @ z # u"
  shows "xs = ys \<and> r = u"
  using code begins eq
proof (induction xs arbitrary: ys)
  case Nil
  have "stops (z # r)" using close by auto
  show ?case
  proof (cases ys)
    case (Cons y ys')
    then have "z # r = f y @ (if ys' = [] then z # u else CHR '','' # join_with CHR '','' (map f ys') @ z # u)"
      using Nil.prems(3) by (simp add: join_with_Cons)
    with Nil.prems(2) [of y] \<open>stops (z # r)\<close> Cons show ?thesis by (metis list.set_intros(1) UnI2)
  qed (use Nil in simp)
next
  case (Cons x xs)
  note code = Cons.prems(1) and begins = Cons.prems(2)
  define tail where "tail xs r = (if xs = [] then z # r else CHR '','' # join_with CHR '','' (map f xs) @ z # r)" for xs r
  have tail: "stops (tail xs r)" for xs r using close by (auto simp: tail_def)
  have unfold: "join_with CHR '','' (map f (x # xs)) @ z # r = f x @ tail xs r" for x xs r
    by (simp add: join_with_Cons tail_def)
  show ?case
  proof (cases ys)
    case Nil
    then have "f x @ tail xs r = z # u" using Cons.prems(3) unfold by simp
    moreover have "stops (z # u)" using close by auto
    ultimately show ?thesis using begins [of x "tail xs r"] by simp
  next
    case (Cons y ys')
    then have "f x @ tail xs r = f y @ tail ys' u" using Cons.prems(3) unfold by simp
    then have "x = y" and tails: "tail xs r = tail ys' u"
      using code [of x y "tail xs r" "tail ys' u"] Cons tail by auto
    show ?thesis
    proof (cases "xs = [] \<or> ys' = []")
      case True
      then show ?thesis using tails close Cons \<open>x = y\<close> by (auto simp: tail_def split: if_splits)
    next
      case False
      then have "join_with CHR '','' (map f xs) @ z # r = join_with CHR '','' (map f ys') @ z # u"
        using tails by (simp add: tail_def)
      then have "xs = ys' \<and> r = u"
        using Cons.IH [of ys'] code begins Cons by auto
      then show ?thesis using Cons \<open>x = y\<close> by simp
    qed
  qed
qed

lemma json_number_begins: "\<exists>c cs. json_number n = c # cs \<and> (is_digit c \<or> c = CHR ''-'')"
  using decimal_not_minus [of "nat n"] by (cases "decimal (nat n)") (auto simp: json_number_def)

lemma print_begins:
  assumes "serializable v"
  shows "\<not> stops (print_json v @ r)"
proof (cases v)
  case (JNum n)
  obtain c cs where "json_number n = c # cs" "is_digit c \<or> c = CHR ''-''" using json_number_begins by blast
  with JNum show ?thesis by (auto simp: stops_def is_digit_def)
qed (use assms in \<open>auto simp: stops_def json_quote_def\<close>)

text \<open>The first character of a text tells the kind of the value.\<close>

definition text_kind :: "char \<Rightarrow> nat" where
  "text_kind c =
     (if c = CHR ''n'' then 0 else if c = CHR ''t'' then 1 else if c = CHR ''f'' then 2 else if c = CHR 34 then 3
      else if c = CHR ''['' then 4 else if c = CHR ''{'' then 5 else 6)"

definition value_kind :: "json \<Rightarrow> nat" where
  "value_kind v =
     (case v of JNull \<Rightarrow> 0 | JBool b \<Rightarrow> if b then 1 else 2 | JStr _ \<Rightarrow> 3 | JArr _ \<Rightarrow> 4 | JObj _ \<Rightarrow> 5 | JNum _ \<Rightarrow> 6
      | JUndefined \<Rightarrow> 7)"

lemma text_kind_print:
  assumes "serializable v"
  shows "text_kind (hd (print_json v @ r)) = value_kind v"
proof (cases v)
  case (JNum n)
  obtain c cs where "json_number n = c # cs" "is_digit c \<or> c = CHR ''-''" using json_number_begins by blast
  with JNum show ?thesis by (auto simp: text_kind_def value_kind_def is_digit_def)
qed (use assms in \<open>auto simp: text_kind_def value_kind_def json_quote_def\<close>)

lemma json_entry_inj:
  assumes "json_entry (k, print_json v) @ r = json_entry (l, print_json w) @ u"
    and "print_json v @ r = print_json w @ u \<Longrightarrow> v = w \<and> r = u"
  shows "(k, v) = (l, w) \<and> r = u"
  using assms json_quote_inj [of k "CHR '':'' # print_json v @ r" l "CHR '':'' # print_json w @ u"]
  by (simp add: json_entry_def)

lemma json_entry_begins: "\<not> stops (json_entry e @ r)"
  by (simp add: json_entry_def json_quote_def stops_def)

lemma print_json_inj:
  "serializable v \<Longrightarrow> serializable w \<Longrightarrow> stops r \<Longrightarrow> stops u \<Longrightarrow> print_json v @ r = print_json w @ u \<Longrightarrow>
   v = w \<and> r = u"
proof (induction v arbitrary: w r u rule: serializable.induct [case_names one two Undef Null Bool Num Str])
  case (one vs)
  have "value_kind w = 4" using one text_kind_print [of "JArr vs" r] text_kind_print [of w u] by (simp add: value_kind_def)
  then obtain ws where w: "w = JArr ws" by (cases w) (auto simp: value_kind_def split: if_splits)
  have "vs = ws \<and> r = u"
  proof (rule join_inj [of vs ws print_json])
    show "x = y \<and> r = u" if "x \<in> set vs" "y \<in> set ws" "stops r" "stops u" "print_json x @ r = print_json y @ u" for x y r u
      using one w that by auto
    show "\<not> stops (print_json x @ r)" if "x \<in> set vs \<union> set ws" for x r
      using one w that print_begins by auto
  qed (use one w in auto)
  then show ?case using w by simp
next
  case (two ps)
  let ?f = "\<lambda>p. json_entry (fst p, print_json (snd p))"
  have "value_kind w = 5" using two text_kind_print [of "JObj ps" r] text_kind_print [of w u] by (simp add: value_kind_def)
  then obtain qs where w: "w = JObj qs" by (cases w) (auto simp: value_kind_def split: if_splits)
  have "ps = qs \<and> r = u"
  proof (rule join_inj [of ps qs ?f])
    show "x = y \<and> r = u" if "x \<in> set ps" "y \<in> set qs" "stops r" "stops u" "?f x @ r = ?f y @ u" for x y r u
    proof -
      have "snd x = snd y \<and> r = u" if "print_json (snd x) @ r = print_json (snd y) @ u"
        by (rule two.IH [of x "snd y" r u]) (use two w \<open>x \<in> set ps\<close> \<open>y \<in> set qs\<close> \<open>stops r\<close> \<open>stops u\<close> that in auto)
      then show ?thesis using json_entry_inj [OF that(5)] by (simp add: prod_eq_iff)
    qed
    show "\<not> stops (?f x @ r)" if "x \<in> set ps \<union> set qs" for x r
      using json_entry_begins by blast
    show "join_with CHR '','' (map ?f ps) @ CHR ''}'' # r = join_with CHR '','' (map ?f qs) @ CHR ''}'' # u"
      using two(6) w by (simp add: case_prod_unfold)
  qed simp
  then show ?case using w by simp
next
  case Undef
  then show ?case by simp
next
  case Null
  then have "value_kind w = 0" using text_kind_print [of JNull r] text_kind_print [of w u] by (simp add: value_kind_def)
  then have "w = JNull" by (cases w) (auto simp: value_kind_def split: if_splits)
  with Null show ?case by simp
next
  case (Bool b)
  then have "value_kind w = value_kind (JBool b)" using text_kind_print [of "JBool b" r] text_kind_print [of w u] by simp
  then have "w = JBool b" by (cases w) (auto simp: value_kind_def split: if_splits)
  with Bool show ?case by simp
next
  case (Num n)
  then have "value_kind w = 6" using text_kind_print [of "JNum n" r] text_kind_print [of w u] by (simp add: value_kind_def)
  then obtain m where "w = JNum m" by (cases w) (auto simp: value_kind_def split: if_splits)
  with Num show ?case using json_number_inj [of n r m u] by simp
next
  case (Str s)
  then have "value_kind w = 3" using text_kind_print [of "JStr s" r] text_kind_print [of w u] by (simp add: value_kind_def)
  then obtain t where "w = JStr t" by (cases w) (auto simp: value_kind_def split: if_splits)
  with Str show ?case using json_quote_inj [of s r t u] by simp
qed

lemma canonical_json_inj:
  "serializable v \<Longrightarrow> serializable w \<Longrightarrow> canonical_json v = canonical_json w \<longleftrightarrow> sort_json v = sort_json w"
  using print_json_inj [of "sort_json v" "sort_json w" "[]" "[]"] by (auto simp: canonical_text)


text \<open>The canonical text names a JSON value exactly: two values have the same text, hence compare equal as file
  identities and enter a request digest alike, if and only if they are equal up to the order of object properties.\<close>

theorem canonical_text_exact:
  assumes "is_ok (canonical_json v)" "is_ok (canonical_json w)"
  shows "canonical_json v = canonical_json w \<longleftrightarrow> sort_json v = sort_json w"
  using assms canonical_json_inj [of v w] by (auto simp: is_ok_iff dest: canonical_json_serializable)

theorem canonical_text_exact_witness:
  "canonical_json (JObj [(''b'', JNum 1), (''a'', JStr ''x'')]) = canonical_json (JObj [(''a'', JStr ''x''), (''b'', JNum 1)]) \<and>
   canonical_json (JObj [(''a'', JNum 12)]) \<noteq> canonical_json (JObj [(''a'', JStr ''12'')])"
  using canonical_text_exact [of "JObj [(''b'', JNum 1), (''a'', JStr ''x'')]" "JObj [(''a'', JStr ''x''), (''b'', JNum 1)]"]
    canonical_text_exact [of "JObj [(''a'', JNum 12)]" "JObj [(''a'', JStr ''12'')]"]
  by simp

end
