(* ===== verification/FileOperations.thy ===== *)
theory FileOperations
  imports CanonicalJson
begin

text \<open>
  src/src/registry/file-operation-record.ts: the durable receipts of file operations.

  A receipt is reserved (\<open>prepared\<close>), marked before the physical operation runs
  (\<open>apply-recorded\<close>) and reconciled with what was observed afterwards (\<open>completed\<close> or
  \<open>unresolved\<close>). Receipts are read from disk as plain JSON objects and only checked by
  \<open>assertRecord\<close>, so every field of \<open>file_operation\<close> is a \<open>json\<close> value. The draft state that a
  failing operation leaves behind is thrown away by its caller, so an error carries no state.
  Errors keep their code; the details for display are left out.

  Unicode normalization, sha256, \<open>Date.parse\<close> and \<open>localeCompare\<close> are the parameter \<open>file_env\<close>;
  \<open>file_env_documented\<close> says what is relied on.
\<close>

section \<open>The platform\<close>

record file_env =
  fe_nfc :: "string \<Rightarrow> string"
  fe_sha256 :: "string \<Rightarrow> string"
  fe_date_ok :: "string \<Rightarrow> bool"
  fe_locale_compare :: "string \<Rightarrow> string \<Rightarrow> int"

section \<open>Checks of single values\<close>

definition assert_string :: "json \<Rightarrow> file_error_code + string" where
  "assert_string v =
     (case v of
        JStr s \<Rightarrow> if s = [] \<or> NUL \<in> set s then Inl FileOpInvalid else Inr s
      | _ \<Rightarrow> Inl FileOpInvalid)"

definition iso_timestamp :: "string \<Rightarrow> bool" where
  "iso_timestamp s \<longleftrightarrow>
     length s = 24 \<and> list_all is_digit (take 4 s) \<and> s ! 4 = CHR ''-'' \<and> list_all is_digit (take 2 (drop 5 s)) \<and>
     s ! 7 = CHR ''-'' \<and> list_all is_digit (take 2 (drop 8 s)) \<and> s ! 10 = CHR ''T'' \<and>
     list_all is_digit (take 2 (drop 11 s)) \<and> s ! 13 = CHR '':'' \<and> list_all is_digit (take 2 (drop 14 s)) \<and>
     s ! 16 = CHR '':'' \<and> list_all is_digit (take 2 (drop 17 s)) \<and> s ! 19 = CHR ''.'' \<and>
     list_all is_digit (take 3 (drop 20 s)) \<and> s ! 23 = CHR ''Z''"

definition assert_timestamp :: "file_env \<Rightarrow> json \<Rightarrow> file_error_code + string" where
  "assert_timestamp E v =
     (case v of
        JStr s \<Rightarrow> if iso_timestamp s \<and> fe_date_ok E s then Inr s else Inl FileOpInvalid
      | _ \<Rightarrow> Inl FileOpInvalid)"

definition safe_natural :: "json \<Rightarrow> int option" where
  "safe_natural v = (case v of JNum n \<Rightarrow> if 0 \<le> n \<and> n \<le> 9007199254740991 then Some n else None | _ \<Rightarrow> None)"

definition assert_fence_epoch :: "json \<Rightarrow> file_error_code + int" where
  "assert_fence_epoch v = (case safe_natural v of None \<Rightarrow> Inl FileOpInvalid | Some n \<Rightarrow> Inr n)"

definition alphanumeric :: "char \<Rightarrow> bool" where
  "alphanumeric c \<longleftrightarrow>
     (let n = of_char c :: nat in 48 \<le> n \<and> n \<le> 57 \<or> 65 \<le> n \<and> n \<le> 90 \<or> 97 \<le> n \<and> n \<le> 122)"

definition digest_token :: "string \<Rightarrow> bool" where
  "digest_token s \<longleftrightarrow>
     s \<noteq> [] \<and> alphanumeric (hd s) \<and> list_all (\<lambda>c. alphanumeric c \<or> c \<in> set ''._:/+-'') (tl s)"

definition assert_digest :: "json \<Rightarrow> file_error_code + string" where
  "assert_digest v = (case v of JStr s \<Rightarrow> if digest_token s then Inr s else Inl FileOpInvalid | _ \<Rightarrow> Inl FileOpInvalid)"

definition normalize_text :: "file_env \<Rightarrow> json \<Rightarrow> file_error_code + string" where
  "normalize_text E v =
     bind_sum (assert_string v) (\<lambda>s.
       if fe_nfc E s = [] then Inl FileOpInvalid else Inr (fe_nfc E s))"

definition assert_json_value :: "json \<Rightarrow> file_error_code + unit" where
  "assert_json_value v = bind_sum (canonical_json v) (\<lambda>_. Inr ())"

section \<open>Requests\<close>

datatype file_operation_kind = FileCreate | FileDelete | FileRename

fun kind_string :: "file_operation_kind \<Rightarrow> string" where
  "kind_string FileCreate = ''create''"
| "kind_string FileDelete = ''delete''"
| "kind_string FileRename = ''rename''"

text \<open>\<open>toLowerCase\<close>: no letter outside A to Z is lowered into one of the three words.\<close>

definition lower_char :: "char \<Rightarrow> char" where
  "lower_char c = (let n = of_char c :: nat in if 65 \<le> n \<and> n \<le> 90 then char_of (n + 32) else c)"

definition normalize_kind :: "json \<Rightarrow> file_error_code + file_operation_kind" where
  "normalize_kind v =
     (case v of
        JStr s \<Rightarrow>
          (let l = map lower_char s in
           if l = ''create'' then Inr FileCreate else if l = ''delete'' then Inr FileDelete
           else if l = ''rename'' then Inr FileRename else Inl FileOpInvalid)
      | _ \<Rightarrow> Inl FileOpInvalid)"

definition normalize_path :: "file_env \<Rightarrow> json \<Rightarrow> file_error_code + string option" where
  "normalize_path E v = (if v = JNull then Inr None else bind_sum (normalize_text E v) (\<lambda>s. Inr (Some s)))"

record file_request =
  fq_operation_id :: json
  fq_session_id :: json
  fq_operation :: json
  fq_source :: json
  fq_destination :: json
  fq_expected_identity :: json
  fq_payload_digest :: json
  fq_authority_token :: json
  fq_fence_epoch :: json

record normalized_file_request =
  nf_operation_id :: string
  nf_session_id :: string
  nf_operation :: file_operation_kind
  nf_source :: "string option"
  nf_destination :: "string option"
  nf_expected_identity :: json
  nf_payload_digest :: "string option"
  nf_authority_token :: string
  nf_fence_epoch :: int

definition paths_fit :: "file_operation_kind \<Rightarrow> string option \<Rightarrow> string option \<Rightarrow> bool" where
  "paths_fit kind source destination \<longleftrightarrow>
     (case kind of
        FileCreate \<Rightarrow> source = None \<and> destination \<noteq> None
      | FileDelete \<Rightarrow> source \<noteq> None \<and> destination = None
      | FileRename \<Rightarrow> source \<noteq> None \<and> destination \<noteq> None \<and> source \<noteq> destination)"

definition json_of_option :: "string option \<Rightarrow> json" where
  "json_of_option x = (case x of None \<Rightarrow> JNull | Some s \<Rightarrow> JStr s)"

definition normalize_file_request :: "file_env \<Rightarrow> file_request \<Rightarrow> file_error_code + normalized_file_request" where
  "normalize_file_request E q =
     bind_sum (normalize_text E (fq_operation_id q)) (\<lambda>operation_id.
     bind_sum (normalize_text E (fq_session_id q)) (\<lambda>session_id.
     bind_sum (normalize_kind (fq_operation q)) (\<lambda>operation.
     bind_sum (normalize_path E (fq_source q)) (\<lambda>source.
     bind_sum (normalize_path E (fq_destination q)) (\<lambda>destination.
     bind_sum (require (paths_fit operation source destination) FileOpInvalid) (\<lambda>_.
     bind_sum (if fq_expected_identity q = JNull then Inr () else assert_json_value (fq_expected_identity q)) (\<lambda>_.
     bind_sum (if fq_payload_digest q = JNull then Inr None
               else bind_sum (assert_digest (fq_payload_digest q)) (\<lambda>s. Inr (Some s))) (\<lambda>payload.
     bind_sum (normalize_text E (fq_authority_token q)) (\<lambda>authority_token.
     bind_sum (assert_fence_epoch (fq_fence_epoch q)) (\<lambda>fence.
     bind_sum (if fq_expected_identity q = JNull then Inr JNull
               else bind_sum (clone_json (fq_expected_identity q)) (\<lambda>v. Inr (freeze_json v))) (\<lambda>identity.
     bind_sum (case payload of None \<Rightarrow> Inr None
               | Some s \<Rightarrow> bind_sum (normalize_text E (JStr s)) (\<lambda>t. Inr (Some t))) (\<lambda>payload_digest.
     Inr \<lparr>nf_operation_id = operation_id, nf_session_id = session_id, nf_operation = operation, nf_source = source,
          nf_destination = destination, nf_expected_identity = identity, nf_payload_digest = payload_digest,
          nf_authority_token = authority_token, nf_fence_epoch = fence\<rparr>))))))))))))"

text \<open>\<open>requestDigest\<close>; the operation id is not part of the digest.\<close>

definition request_digest :: "file_env \<Rightarrow> normalized_file_request \<Rightarrow> file_error_code + string" where
  "request_digest E n =
     bind_sum (canonical_json (JObj
       [(''authorityToken'', JStr (nf_authority_token n)),
        (''destination'', json_of_option (nf_destination n)),
        (''expectedIdentity'', nf_expected_identity n),
        (''fenceEpoch'', JNum (nf_fence_epoch n)),
        (''operation'', JStr (kind_string (nf_operation n))),
        (''payloadDigest'', json_of_option (nf_payload_digest n)),
        (''sessionId'', JStr (nf_session_id n)),
        (''source'', json_of_option (nf_source n))]))
       (\<lambda>t. Inr (fe_sha256 E t))"

definition file_operation_request_digest :: "file_env \<Rightarrow> file_request \<Rightarrow> file_error_code + string" where
  "file_operation_request_digest E q = bind_sum (normalize_file_request E q) (request_digest E)"

section \<open>Receipts\<close>

record file_operation =
  fo_schema_version :: json
  fo_operation_id :: json
  fo_session_id :: json
  fo_request_digest :: json
  fo_operation :: json
  fo_source :: json
  fo_destination :: json
  fo_expected_identity :: json
  fo_payload_digest :: json
  fo_authority_token :: json
  fo_fence_epoch :: json
  fo_stage :: json
  fo_apply_attempts :: json
  fo_effect_observed :: json
  fo_execution_completed :: json
  fo_created_at :: json
  fo_updated_at :: json

record file_registry =
  fr_schema_version :: json
  fr_operations :: "file_operation list"

definition FILE_OPERATION_SCHEMA_VERSION :: int where "FILE_OPERATION_SCHEMA_VERSION = 1"
definition FILE_OPERATION_REGISTRY_SCHEMA_VERSION :: int where "FILE_OPERATION_REGISTRY_SCHEMA_VERSION = 1"
definition MAX_FILE_OPERATION_RECORDS :: nat where "MAX_FILE_OPERATION_RECORDS = 1024"

definition FILE_OPERATION_STAGES :: "string list" where
  "FILE_OPERATION_STAGES = [''prepared'', ''apply-recorded'', ''completed'', ''unresolved'']"

definition record_from_request ::
  "file_env \<Rightarrow> normalized_file_request \<Rightarrow> string \<Rightarrow> file_error_code + file_operation" where
  "record_from_request E n now =
     bind_sum (assert_timestamp E (JStr now)) (\<lambda>_.
     bind_sum (request_digest E n) (\<lambda>digest.
     Inr \<lparr>fo_schema_version = JNum FILE_OPERATION_SCHEMA_VERSION, fo_operation_id = JStr (nf_operation_id n),
          fo_session_id = JStr (nf_session_id n), fo_request_digest = JStr digest,
          fo_operation = JStr (kind_string (nf_operation n)), fo_source = json_of_option (nf_source n),
          fo_destination = json_of_option (nf_destination n), fo_expected_identity = nf_expected_identity n,
          fo_payload_digest = json_of_option (nf_payload_digest n), fo_authority_token = JStr (nf_authority_token n),
          fo_fence_epoch = JNum (nf_fence_epoch n), fo_stage = JStr ''prepared'', fo_apply_attempts = JNum 0,
          fo_effect_observed = JBool False, fo_execution_completed = JBool False, fo_created_at = JStr now,
          fo_updated_at = JStr now\<rparr>))"

definition request_of_record :: "file_operation \<Rightarrow> file_request" where
  "request_of_record r =
     \<lparr>fq_operation_id = fo_operation_id r, fq_session_id = fo_session_id r, fq_operation = fo_operation r,
      fq_source = fo_source r, fq_destination = fo_destination r, fq_expected_identity = fo_expected_identity r,
      fq_payload_digest = fo_payload_digest r, fq_authority_token = fo_authority_token r,
      fq_fence_epoch = fo_fence_epoch r\<rparr>"

definition valid_stage_flags :: "json \<Rightarrow> int \<Rightarrow> json \<Rightarrow> json \<Rightarrow> bool" where
  "valid_stage_flags stage attempts effect completed \<longleftrightarrow>
     stage = JStr ''prepared'' \<and> attempts = 0 \<and> effect = JBool False \<and> completed = JBool False \<or>
     stage = JStr ''apply-recorded'' \<and> 0 < attempts \<and> effect = JBool False \<and> completed = JBool False \<or>
     stage = JStr ''completed'' \<and> 0 < attempts \<and> effect = JBool True \<and> completed = JBool True \<or>
     stage = JStr ''unresolved'' \<and> 0 < attempts \<and> completed = JBool False"

definition assert_record :: "file_env \<Rightarrow> file_operation \<Rightarrow> file_error_code + unit" where
  "assert_record E r =
     bind_sum (require (fo_schema_version r = JNum FILE_OPERATION_SCHEMA_VERSION) FileOpCorrupt) (\<lambda>_.
     bind_sum (assert_string (fo_operation_id r)) (\<lambda>_.
     bind_sum (assert_string (fo_session_id r)) (\<lambda>_.
     bind_sum (assert_digest (fo_request_digest r)) (\<lambda>digest.
     bind_sum (normalize_file_request E (request_of_record r)) (\<lambda>n.
     bind_sum (request_digest E n) (\<lambda>expected.
     bind_sum (require (expected = digest) FileOpCorrupt) (\<lambda>_.
     bind_sum (require (fo_stage r \<in> JStr ` set FILE_OPERATION_STAGES) FileOpCorrupt) (\<lambda>_.
     bind_sum (assert_string (fo_authority_token r)) (\<lambda>_.
     bind_sum (assert_fence_epoch (fo_fence_epoch r)) (\<lambda>_.
     bind_sum (case safe_natural (fo_apply_attempts r) of None \<Rightarrow> Inl FileOpCorrupt | Some k \<Rightarrow> Inr k) (\<lambda>attempts.
     bind_sum (require (is_boolean (fo_effect_observed r) \<and> is_boolean (fo_execution_completed r)) FileOpCorrupt) (\<lambda>_.
     bind_sum (require (valid_stage_flags (fo_stage r) attempts (fo_effect_observed r) (fo_execution_completed r))
                 FileOpCorrupt) (\<lambda>_.
     bind_sum (assert_timestamp E (fo_created_at r)) (\<lambda>_.
     bind_sum (assert_timestamp E (fo_updated_at r)) (\<lambda>_.
     bind_sum (if fo_expected_identity r = JNull then Inr () else assert_json_value (fo_expected_identity r)) (\<lambda>_.
     if fo_payload_digest r = JNull then Inr ()
     else bind_sum (assert_digest (fo_payload_digest r)) (\<lambda>_. Inr ())))))))))))))))))"

text \<open>The loop of \<open>assertState\<close> with the set of ids seen so far\<close>

fun assert_records :: "file_env \<Rightarrow> json set \<Rightarrow> file_operation list \<Rightarrow> file_error_code + unit" where
  "assert_records E ids [] = Inr ()"
| "assert_records E ids (r # rs) =
     bind_sum (assert_record E r) (\<lambda>_.
     if fo_operation_id r \<in> ids then Inl FileOpCorrupt else assert_records E (insert (fo_operation_id r) ids) rs)"

definition assert_state :: "file_env \<Rightarrow> file_registry \<Rightarrow> file_error_code + unit" where
  "assert_state E st =
     bind_sum (require (fr_schema_version st = JUndefined \<or>
                        fr_schema_version st = JNum FILE_OPERATION_REGISTRY_SCHEMA_VERSION) FileOpCorrupt) (\<lambda>_.
     bind_sum (require (length (fr_operations st) \<le> MAX_FILE_OPERATION_RECORDS) FileOpLimit) (\<lambda>_.
     assert_records E {} (fr_operations st)))"

definition create_file_operation_registry :: file_registry where
  "create_file_operation_registry =
     \<lparr>fr_schema_version = JNum FILE_OPERATION_REGISTRY_SCHEMA_VERSION, fr_operations = []\<rparr>"

section \<open>Reservation\<close>

text \<open>A stable sort with a comparator, as \<open>Array.prototype.sort\<close>\<close>

fun insert_by :: "('a \<Rightarrow> 'a \<Rightarrow> int) \<Rightarrow> 'a \<Rightarrow> 'a list \<Rightarrow> 'a list" where
  "insert_by cmp x [] = [x]"
| "insert_by cmp x (y # ys) = (if cmp x y \<le> 0 then x # y # ys else y # insert_by cmp x ys)"

definition sort_by :: "('a \<Rightarrow> 'a \<Rightarrow> int) \<Rightarrow> 'a list \<Rightarrow> 'a list" where
  "sort_by cmp xs = foldr (insert_by cmp) xs []"

definition json_text :: "json \<Rightarrow> string" where
  "json_text v = (case v of JStr s \<Rightarrow> s | _ \<Rightarrow> [])"

definition compare_history :: "file_env \<Rightarrow> file_operation \<times> nat \<Rightarrow> file_operation \<times> nat \<Rightarrow> int" where
  "compare_history E l r =
     (let by_time = fe_locale_compare E (json_text (fo_updated_at (fst l))) (json_text (fo_updated_at (fst r))) in
      if by_time \<noteq> 0 then by_time
      else fe_locale_compare E (json_text (fo_operation_id (fst l))) (json_text (fo_operation_id (fst r))))"

definition compact_completed_history :: "file_env \<Rightarrow> file_operation list \<Rightarrow> file_error_code + file_operation list" where
  "compact_completed_history E rs =
     (if length rs < MAX_FILE_OPERATION_RECORDS then Inr rs
      else
        (case sort_by (compare_history E)
                (filter (\<lambda>e. fo_stage (fst e) = JStr ''completed'') (zip rs [0..<length rs])) of
           [] \<Rightarrow> Inl FileOpLimit
         | candidate # _ \<Rightarrow> Inr (take (snd candidate) rs @ drop (Suc (snd candidate)) rs)))"

definition find_operation :: "json \<Rightarrow> file_operation list \<Rightarrow> file_operation option" where
  "find_operation operation_id rs = find (\<lambda>r. fo_operation_id r = operation_id) rs"

text \<open>\<open>reserveFileOperation\<close>: the new draft and the receipt\<close>

definition reserve_file_operation ::
  "file_env \<Rightarrow> file_registry \<Rightarrow> file_request \<Rightarrow> string \<Rightarrow> file_error_code + (file_registry \<times> file_operation)" where
  "reserve_file_operation E st q now =
     bind_sum (assert_state E st) (\<lambda>_.
     bind_sum (normalize_file_request E q) (\<lambda>n.
     bind_sum (request_digest E n) (\<lambda>digest.
     case find_operation (JStr (nf_operation_id n)) (fr_operations st) of
       Some existing \<Rightarrow>
         if fo_session_id existing \<noteq> JStr (nf_session_id n) \<or> fo_request_digest existing \<noteq> JStr digest
         then Inl FileOpIdConflict else Inr (st, existing)
     | None \<Rightarrow>
         bind_sum (compact_completed_history E (fr_operations st)) (\<lambda>rs.
         bind_sum (record_from_request E n now) (\<lambda>r.
         Inr (st\<lparr>fr_operations := rs @ [r]\<rparr>, r))))))"

section \<open>The apply boundary\<close>

text \<open>\<open>state.fileOperations[findIndex(...)] = replacement\<close>\<close>

fun replace_first :: "file_operation \<Rightarrow> file_operation list \<Rightarrow> file_operation list option" where
  "replace_first r [] = None"
| "replace_first r (x # xs) =
     (if fo_operation_id x = fo_operation_id r then Some (r # xs) else map_option (Cons x) (replace_first r xs))"

definition replace_record :: "file_registry \<Rightarrow> file_operation \<Rightarrow> file_error_code + file_registry" where
  "replace_record st r =
     (case replace_first r (fr_operations st) of
        None \<Rightarrow> Inl FileOpCorrupt
      | Some rs \<Rightarrow> Inr (st\<lparr>fr_operations := rs\<rparr>))"

definition updated_record ::
  "file_env \<Rightarrow> (file_operation \<Rightarrow> file_operation) \<Rightarrow> file_operation \<Rightarrow> string \<Rightarrow> file_error_code + file_operation" where
  "updated_record E patch r now =
     bind_sum (assert_timestamp E (JStr now)) (\<lambda>_. Inr ((patch r)\<lparr>fo_updated_at := JStr now\<rparr>))"

definition terminal_stage :: "json \<Rightarrow> bool" where
  "terminal_stage stage \<longleftrightarrow> stage = JStr ''completed'' \<or> stage = JStr ''unresolved''"

definition increment :: "json \<Rightarrow> json" where
  "increment v = (case v of JNum n \<Rightarrow> JNum (n + 1) | _ \<Rightarrow> v)"

definition record_apply_attempt ::
  "file_env \<Rightarrow> file_registry \<Rightarrow> json \<Rightarrow> json \<Rightarrow> string \<Rightarrow> file_error_code + (file_registry \<times> file_operation)" where
  "record_apply_attempt E st operation_id authority_token now =
     bind_sum (assert_state E st) (\<lambda>_.
     bind_sum (normalize_text E operation_id) (\<lambda>normalized.
     case find_operation (JStr normalized) (fr_operations st) of
       None \<Rightarrow> Inl FileOpInvalid
     | Some r \<Rightarrow>
         if \<not> is_string authority_token \<or> authority_token = JStr [] then Inl FileOpAuthorityDenied
         else if authority_token \<noteq> fo_authority_token r then Inl FileOpAuthorityDenied
         else if terminal_stage (fo_stage r) then Inr (st, r)
         else if fo_stage r \<noteq> JStr ''prepared'' \<and> fo_stage r \<noteq> JStr ''apply-recorded'' then Inl FileOpInvalidTransition
         else if fo_stage r = JStr ''apply-recorded'' then Inr (st, r)
         else
           bind_sum (updated_record E (\<lambda>r. r\<lparr>fo_stage := JStr ''apply-recorded'',
                                            fo_apply_attempts := increment (fo_apply_attempts r)\<rparr>) r now) (\<lambda>next.
           bind_sum (replace_record st next) (\<lambda>st'. Inr (st', next)))))"

section \<open>Observations\<close>

text \<open>An absent property of an observed fact is \<open>JUndefined\<close>; an absent \<open>before\<close> is \<open>None\<close>, a \<open>null\<close> one
  \<open>Some None\<close>.\<close>

record path_fact =
  pf_present :: bool
  pf_identity :: json
  pf_payload_digest :: json

record path_observation = path_fact +
  po_before :: "path_fact option option"

record file_observation =
  fb_operation_id :: json
  fb_authority_token :: json
  fb_fence_epoch :: json
  fb_source :: "path_observation option"
  fb_destination :: "path_observation option"
  fb_effect_observed :: json
  fb_execution_completed :: json

definition absent :: "json \<Rightarrow> bool" where
  "absent v \<longleftrightarrow> v = JUndefined \<or> v = JNull"

definition path_fact_matches_expected ::
  "path_fact \<Rightarrow> bool \<Rightarrow> json \<Rightarrow> json \<Rightarrow> file_error_code + bool" where
  "path_fact_matches_expected f present identity payload =
     (if pf_present f \<noteq> present then Inr False
      else
        bind_sum (if present \<and> identity \<noteq> JNull then
                    (if absent (pf_identity f) then Inr False
                     else bind_sum (canonical_json (pf_identity f)) (\<lambda>a.
                          bind_sum (canonical_json identity) (\<lambda>b. Inr (a = b))))
                  else Inr True) (\<lambda>same.
        Inr (same \<and> \<not> (present \<and> payload \<noteq> JNull \<and> pf_payload_digest f \<noteq> payload) \<and>
             \<not> (\<not> present \<and> \<not> absent (pf_identity f)) \<and> \<not> (\<not> present \<and> \<not> absent (pf_payload_digest f)))))"

definition path_matches_expected ::
  "path_observation option \<Rightarrow> bool \<Rightarrow> json \<Rightarrow> json \<Rightarrow> file_error_code + bool" where
  "path_matches_expected observation present identity payload =
     (case observation of
        None \<Rightarrow> Inr False
      | Some f \<Rightarrow> path_fact_matches_expected (path_fact.truncate f) present identity payload)"

definition before_matches_expected ::
  "path_observation option \<Rightarrow> bool \<Rightarrow> json \<Rightarrow> json \<Rightarrow> file_error_code + bool" where
  "before_matches_expected observation present identity payload =
     (case observation of
        None \<Rightarrow> Inr False
      | Some f \<Rightarrow>
          (case po_before f of
             None \<Rightarrow> Inr False
           | Some before \<Rightarrow>
               if present \<and> identity = JNull then Inr False
               else
                 (case before of
                    None \<Rightarrow> Inr (\<not> present \<and> identity = JNull \<and> payload = JNull)
                  | Some before_fact \<Rightarrow> path_fact_matches_expected before_fact present identity payload)))"

text \<open>\<open>a && b\<close> where both may throw\<close>

definition and_sum :: "'e + bool \<Rightarrow> 'e + bool \<Rightarrow> 'e + bool" where
  "and_sum a b = bind_sum a (\<lambda>x. if x then b else Inr False)"

definition file_operation_effect_matches ::
  "file_env \<Rightarrow> file_operation \<Rightarrow> file_observation \<Rightarrow> file_error_code + bool" where
  "file_operation_effect_matches E r ob =
     bind_sum (assert_record E r) (\<lambda>_.
     let source = fb_source ob; destination = fb_destination ob; identity = fo_expected_identity r;
         payload = fo_payload_digest r in
     if fb_operation_id ob \<noteq> JUndefined \<and> fb_operation_id ob \<noteq> fo_operation_id r then Inr False
     else if fo_operation r = JStr ''create'' then
       and_sum (Inr (source = None \<and> destination \<noteq> None)) (path_matches_expected destination True identity payload)
     else if fo_operation r = JStr ''delete'' then
       and_sum (Inr (source \<noteq> None \<and> destination = None))
         (and_sum (path_matches_expected source False JNull JNull) (before_matches_expected source True identity JNull))
     else
       (case destination of
          None \<Rightarrow> Inr False
        | Some d \<Rightarrow>
            and_sum (Inr (source \<noteq> None))
              (and_sum (path_matches_expected source False JNull JNull)
                (and_sum (before_matches_expected source True identity JNull)
                  (and_sum (case po_before d of
                              Some (Some before_fact) \<Rightarrow> path_fact_matches_expected before_fact False JNull JNull
                            | _ \<Rightarrow> Inr True)
                    (path_matches_expected destination True identity payload))))))"

definition validate_file_operation_observation ::
  "file_operation \<Rightarrow> file_observation \<Rightarrow> file_error_code + unit" where
  "validate_file_operation_observation r ob =
     bind_sum (require (is_boolean (fb_effect_observed ob) \<and> is_boolean (fb_execution_completed ob)) FileOpInvalid) (\<lambda>_.
     bind_sum (assert_string (fb_authority_token ob)) (\<lambda>_.
     bind_sum (assert_fence_epoch (fb_fence_epoch ob)) (\<lambda>_.
     bind_sum (require (fb_authority_token ob = fo_authority_token r \<and> fb_fence_epoch ob = fo_fence_epoch r)
                 FileOpAuthorityDenied) (\<lambda>_.
     require (fb_operation_id ob = JUndefined \<or> fb_operation_id ob = fo_operation_id r) FileOpInvalid))))"

record file_reconciliation =
  fn_record :: file_operation
  fn_effect_matches :: json
  fn_completion_proven :: json
  fn_disposition :: json
  fn_helper_execution_completed :: json

definition reconcile_with_authority ::
  "file_env \<Rightarrow> file_operation \<Rightarrow> file_observation \<Rightarrow> bool \<Rightarrow> string \<Rightarrow> file_error_code + file_reconciliation" where
  "reconcile_with_authority E r ob authority_current now =
     bind_sum (assert_record E r) (\<lambda>_.
     bind_sum (validate_file_operation_observation r ob) (\<lambda>_.
     if terminal_stage (fo_stage r) then
       Inr \<lparr>fn_record = r, fn_effect_matches = fo_effect_observed r, fn_completion_proven = fo_execution_completed r,
            fn_disposition = fo_stage r, fn_helper_execution_completed = fb_execution_completed ob\<rparr>
     else if fo_stage r \<noteq> JStr ''apply-recorded'' then Inl FileOpInvalidTransition
     else
       bind_sum (and_sum (Inr (fb_effect_observed ob = JBool True)) (file_operation_effect_matches E r ob)) (\<lambda>matches.
       let proven = authority_current \<and> matches \<and> fb_execution_completed ob = JBool True;
           stage = (if proven then JStr ''completed'' else JStr ''unresolved'') in
       bind_sum (updated_record E (\<lambda>r. r\<lparr>fo_stage := stage, fo_effect_observed := JBool matches,
                                        fo_execution_completed := JBool proven\<rparr>) r now) (\<lambda>next.
       Inr \<lparr>fn_record = next, fn_effect_matches = JBool matches, fn_completion_proven = JBool proven,
            fn_disposition = stage, fn_helper_execution_completed = fb_execution_completed ob\<rparr>))))"

section \<open>Persistence\<close>

definition serialize_record :: "file_env \<Rightarrow> file_operation \<Rightarrow> file_error_code + json" where
  "serialize_record E r =
     bind_sum (assert_record E r) (\<lambda>_.
     Inr (JObj
       [(''schema_version'', JNum FILE_OPERATION_SCHEMA_VERSION), (''operation_id'', fo_operation_id r),
        (''session_id'', fo_session_id r), (''request_digest'', fo_request_digest r), (''operation'', fo_operation r),
        (''source'', fo_source r), (''destination'', fo_destination r), (''expected_identity'', fo_expected_identity r),
        (''payload_digest'', fo_payload_digest r), (''authority_token'', fo_authority_token r),
        (''fence_epoch'', fo_fence_epoch r), (''stage'', fo_stage r), (''apply_attempts'', fo_apply_attempts r),
        (''effect_observed'', fo_effect_observed r), (''execution_completed'', fo_execution_completed r),
        (''created_at'', fo_created_at r), (''updated_at'', fo_updated_at r)]))"

definition serialize_file_operation_registry :: "file_env \<Rightarrow> file_registry \<Rightarrow> file_error_code + json" where
  "serialize_file_operation_registry E st =
     bind_sum (assert_state E st) (\<lambda>_.
     bind_sum (map_sum_list (serialize_record E) (fr_operations st)) (\<lambda>vs.
     Inr (JObj [(''schema_version'', JNum FILE_OPERATION_REGISTRY_SCHEMA_VERSION), (''file_operations'', JArr vs)])))"

definition plain_record :: "json \<Rightarrow> bool" where
  "plain_record v = (case v of JObj _ \<Rightarrow> True | _ \<Rightarrow> False)"

definition record_of_json :: "json \<Rightarrow> file_operation" where
  "record_of_json v =
     \<lparr>fo_schema_version = jget v ''schema_version'', fo_operation_id = jget v ''operation_id'',
      fo_session_id = jget v ''session_id'', fo_request_digest = jget v ''request_digest'',
      fo_operation = jget v ''operation'', fo_source = jget v ''source'', fo_destination = jget v ''destination'',
      fo_expected_identity = jget v ''expected_identity'', fo_payload_digest = jget v ''payload_digest'',
      fo_authority_token = jget v ''authority_token'', fo_fence_epoch = jget v ''fence_epoch'',
      fo_stage = jget v ''stage'', fo_apply_attempts = jget v ''apply_attempts'',
      fo_effect_observed = jget v ''effect_observed'', fo_execution_completed = jget v ''execution_completed'',
      fo_created_at = jget v ''created_at'', fo_updated_at = jget v ''updated_at''\<rparr>"

definition parse_record :: "file_env \<Rightarrow> json \<Rightarrow> file_error_code + file_operation" where
  "parse_record E v =
     bind_sum (require (plain_record v) FileOpCorrupt) (\<lambda>_.
     bind_sum (require (jget v ''schema_version'' = JNum FILE_OPERATION_SCHEMA_VERSION) FileOpUnsupportedSchema) (\<lambda>_.
     bind_sum (assert_record E (record_of_json v)) (\<lambda>_. Inr (record_of_json v))))"

definition parse_file_operation_registry :: "file_env \<Rightarrow> json \<Rightarrow> file_error_code + file_registry" where
  "parse_file_operation_registry E v =
     bind_sum (require (plain_record v \<and> jget v ''schema_version'' = JNum FILE_OPERATION_REGISTRY_SCHEMA_VERSION)
                 FileOpUnsupportedSchema) (\<lambda>_.
     case jget v ''file_operations'' of
       JArr vs \<Rightarrow>
         bind_sum (map_sum_list (parse_record E) vs) (\<lambda>rs.
         let st = \<lparr>fr_schema_version = JNum FILE_OPERATION_REGISTRY_SCHEMA_VERSION, fr_operations = rs\<rparr> in
         bind_sum (assert_state E st) (\<lambda>_. Inr st))
     | _ \<Rightarrow> Inl FileOpCorrupt)"

end
