(* ===== verification/FileOperationReceipts.thy ===== *)
theory FileOperationReceipts
  imports FileOperations
begin

text \<open>
  What holds of the receipts of FileOperations: which values the validators accept, that
  normalization is idempotent, that reserving, marking and reconciling keep the registry well
  formed (\<open>reserve_valid\<close>, \<open>apply_attempt_valid\<close>, \<open>reconcile_valid\<close>), that compaction drops only a
  completed receipt of a full registry, that persistence loses nothing, and what a completed receipt
  proves. \<open>file_env_documented\<close> names what is relied on of the platform.
\<close>

section \<open>What is relied on\<close>

text \<open>NFC is idempotent, keeps a string empty or not, neither adds nor drops NUL and leaves ASCII alone;
  sha256 is given in hexadecimal.\<close>

definition file_env_documented :: "file_env \<Rightarrow> bool" where
  "file_env_documented E \<longleftrightarrow>
     (\<forall>s. fe_nfc E (fe_nfc E s) = fe_nfc E s) \<and> (\<forall>s. fe_nfc E s = [] \<longleftrightarrow> s = []) \<and>
     (\<forall>s. NUL \<in> set (fe_nfc E s) \<longleftrightarrow> NUL \<in> set s) \<and> (\<forall>s. digest_token s \<longrightarrow> fe_nfc E s = s) \<and>
     (\<forall>t. digest_token (fe_sha256 E t))"

section \<open>Accepted values\<close>

lemma assert_string_Inr [sum_simps]: "assert_string v = Inr s \<longleftrightarrow> v = JStr s \<and> s \<noteq> [] \<and> NUL \<notin> set s"
  by (auto simp: assert_string_def split: json.splits if_splits)

lemma assert_digest_Inr [sum_simps]: "assert_digest v = Inr s \<longleftrightarrow> v = JStr s \<and> digest_token s"
  by (auto simp: assert_digest_def split: json.splits if_splits)

lemma safe_natural_Some [sum_simps]: "safe_natural v = Some n \<longleftrightarrow> v = JNum n \<and> 0 \<le> n \<and> n \<le> 9007199254740991"
  by (auto simp: safe_natural_def split: json.splits if_splits)

lemma assert_fence_epoch_Inr [sum_simps]: "assert_fence_epoch v = Inr n \<longleftrightarrow> safe_natural v = Some n"
  by (auto simp: assert_fence_epoch_def split: option.splits)

lemma normalize_text_Inr [sum_simps]:
  "normalize_text E v = Inr t \<longleftrightarrow> (\<exists>s. v = JStr s \<and> s \<noteq> [] \<and> NUL \<notin> set s \<and> t = fe_nfc E s \<and> t \<noteq> [])"
  by (auto simp: normalize_text_def sum_simps)

lemma normalize_path_Inr [sum_simps]:
  "normalize_path E v = Inr p \<longleftrightarrow> (v = JNull \<and> p = None \<or> v \<noteq> JNull \<and> (\<exists>t. normalize_text E v = Inr t \<and> p = Some t))"
  by (auto simp: normalize_path_def bind_sum_eq_Inr)

lemma normalize_kind_string [simp]: "normalize_kind (JStr (kind_string k)) = Inr k"
  by (cases k) (simp_all add: normalize_kind_def lower_char_def)

lemma normalize_text_again:
  "file_env_documented E \<Longrightarrow> normalize_text E v = Inr t \<Longrightarrow> normalize_text E (JStr t) = Inr t"
  by (auto simp: normalize_text_Inr file_env_documented_def)

lemma normalize_path_again:
  "file_env_documented E \<Longrightarrow> normalize_path E v = Inr p \<Longrightarrow> normalize_path E (json_of_option p) = Inr p"
  using normalize_text_again by (auto simp: normalize_path_Inr json_of_option_def split: option.splits)

definition request_of_normalized :: "normalized_file_request \<Rightarrow> file_request" where
  "request_of_normalized n =
     \<lparr>fq_operation_id = JStr (nf_operation_id n), fq_session_id = JStr (nf_session_id n),
      fq_operation = JStr (kind_string (nf_operation n)), fq_source = json_of_option (nf_source n),
      fq_destination = json_of_option (nf_destination n), fq_expected_identity = nf_expected_identity n,
      fq_payload_digest = json_of_option (nf_payload_digest n), fq_authority_token = JStr (nf_authority_token n),
      fq_fence_epoch = JNum (nf_fence_epoch n)\<rparr>"

definition identity_copied :: "json \<Rightarrow> json \<Rightarrow> bool" where
  "identity_copied v w \<longleftrightarrow>
     (if v = JNull then w = JNull else assert_json_value v = Inr () \<and> (\<exists>c. clone_json v = Inr c \<and> w = freeze_json c))"

definition payload_normalized :: "file_env \<Rightarrow> json \<Rightarrow> string option \<Rightarrow> bool" where
  "payload_normalized E v p \<longleftrightarrow>
     (if v = JNull then p = None
      else \<exists>s t. assert_digest v = Inr s \<and> normalize_text E (JStr s) = Inr t \<and> p = Some t)"

lemma normalize_file_request_Inr:
  "normalize_file_request E q = Inr n \<longleftrightarrow>
     normalize_text E (fq_operation_id q) = Inr (nf_operation_id n) \<and>
     normalize_text E (fq_session_id q) = Inr (nf_session_id n) \<and>
     normalize_kind (fq_operation q) = Inr (nf_operation n) \<and>
     normalize_path E (fq_source q) = Inr (nf_source n) \<and>
     normalize_path E (fq_destination q) = Inr (nf_destination n) \<and>
     paths_fit (nf_operation n) (nf_source n) (nf_destination n) \<and>
     identity_copied (fq_expected_identity q) (nf_expected_identity n) \<and>
     payload_normalized E (fq_payload_digest q) (nf_payload_digest n) \<and>
     normalize_text E (fq_authority_token q) = Inr (nf_authority_token n) \<and>
     assert_fence_epoch (fq_fence_epoch q) = Inr (nf_fence_epoch n)"
proof (cases "fq_expected_identity q = JNull"; cases "fq_payload_digest q = JNull")
qed (cases n, auto simp: normalize_file_request_def bind_sum_eq_Inr identity_copied_def payload_normalized_def)+

lemma identity_copied_again: "identity_copied v w \<Longrightarrow> identity_copied w w"
  using clone_freeze_stable [of v]
  by (auto simp: identity_copied_def assert_json_value_def bind_sum_eq_Inr canonical_text split: if_splits)

lemma payload_normalized_again:
  assumes "file_env_documented E" "payload_normalized E v p"
  shows "payload_normalized E (json_of_option p) p"
  using assms
  by (auto simp: payload_normalized_def json_of_option_def assert_digest_Inr normalize_text_Inr file_env_documented_def
      split: if_splits)

lemma json_of_option_JNull [simp]: "json_of_option x = JNull \<longleftrightarrow> x = None"
  by (simp add: json_of_option_def split: option.splits)

text \<open>Normalizing a normalized request changes nothing.\<close>

lemma normalize_file_request_again:
  assumes "file_env_documented E" "normalize_file_request E q = Inr n"
  shows "normalize_file_request E (request_of_normalized n) = Inr n"
  using assms normalize_text_again [OF assms(1)] normalize_path_again [OF assms(1)]
    payload_normalized_again [OF assms(1)] identity_copied_again
  by (auto simp: normalize_file_request_Inr request_of_normalized_def assert_fence_epoch_Inr safe_natural_Some)

section \<open>Well-formed receipts\<close>

definition receipt_bound :: "file_env \<Rightarrow> file_operation \<Rightarrow> bool" where
  "receipt_bound E r \<longleftrightarrow>
     fo_schema_version r = JNum FILE_OPERATION_SCHEMA_VERSION \<and>
     (\<exists>n digest. normalize_file_request E (request_of_record r) = Inr n \<and> request_digest E n = Inr digest \<and>
                 fo_request_digest r = JStr digest \<and> digest_token digest)"

definition receipt_stage_ok :: "file_operation \<Rightarrow> bool" where
  "receipt_stage_ok r \<longleftrightarrow>
     (\<exists>k. safe_natural (fo_apply_attempts r) = Some k \<and>
          valid_stage_flags (fo_stage r) k (fo_effect_observed r) (fo_execution_completed r)) \<and>
     is_boolean (fo_effect_observed r)"

lemma assert_record_Inr:
  "assert_record E r = Inr u \<longleftrightarrow>
     receipt_bound E r \<and> receipt_stage_ok r \<and> is_ok (assert_timestamp E (fo_created_at r)) \<and>
     is_ok (assert_timestamp E (fo_updated_at r))"
proof
  assume "assert_record E r = Inr u"
  then show "receipt_bound E r \<and> receipt_stage_ok r \<and> is_ok (assert_timestamp E (fo_created_at r)) \<and>
     is_ok (assert_timestamp E (fo_updated_at r))"
    by (auto simp: assert_record_def bind_sum_eq_Inr receipt_bound_def receipt_stage_ok_def assert_digest_Inr is_ok_iff
        split: option.splits)
next
  assume ok: "receipt_bound E r \<and> receipt_stage_ok r \<and> is_ok (assert_timestamp E (fo_created_at r)) \<and>
     is_ok (assert_timestamp E (fo_updated_at r))"
  then obtain n digest k where n: "normalize_file_request E (request_of_record r) = Inr n"
    "request_digest E n = Inr digest" "fo_request_digest r = JStr digest" "digest_token digest"
    and k: "safe_natural (fo_apply_attempts r) = Some k"
      "valid_stage_flags (fo_stage r) k (fo_effect_observed r) (fo_execution_completed r)"
    by (auto simp: receipt_bound_def receipt_stage_ok_def)
  note fields = n(1) [unfolded normalize_file_request_Inr request_of_record_def file_request.simps]
  have strings: "is_ok (assert_string (fo_operation_id r))" "is_ok (assert_string (fo_session_id r))"
    "is_ok (assert_string (fo_authority_token r))" "is_ok (assert_fence_epoch (fo_fence_epoch r))"
    using fields by (auto simp: normalize_text_def bind_sum_eq_Inr is_ok_iff)
  have stage: "fo_stage r \<in> JStr ` set FILE_OPERATION_STAGES" "is_boolean (fo_execution_completed r)"
    using k(2) by (auto simp: valid_stage_flags_def FILE_OPERATION_STAGES_def is_boolean_def)
  have rest: "fo_expected_identity r = JNull \<or> is_ok (assert_json_value (fo_expected_identity r))"
    "fo_payload_digest r = JNull \<or> is_ok (assert_digest (fo_payload_digest r))"
    using fields by (auto simp: identity_copied_def payload_normalized_def is_ok_iff split: if_splits)
  show "assert_record E r = Inr u"
    using ok strings stage rest n k
    by (auto simp: assert_record_def receipt_bound_def receipt_stage_ok_def is_ok_iff assert_digest_def)
qed

lemma assert_records_Inr:
  "assert_records E ids rs = Inr u \<longleftrightarrow>
     (\<forall>r\<in>set rs. assert_record E r = Inr ()) \<and> distinct (map fo_operation_id rs) \<and>
     ids \<inter> set (map fo_operation_id rs) = {}"
  by (induction rs arbitrary: ids) (auto simp: bind_sum_eq_Inr)

lemma assert_state_Inr:
  "assert_state E st = Inr u \<longleftrightarrow>
     (fr_schema_version st = JUndefined \<or> fr_schema_version st = JNum FILE_OPERATION_REGISTRY_SCHEMA_VERSION) \<and>
     length (fr_operations st) \<le> MAX_FILE_OPERATION_RECORDS \<and>
     (\<forall>r\<in>set (fr_operations st). assert_record E r = Inr ()) \<and> distinct (map fo_operation_id (fr_operations st))"
  by (auto simp: assert_state_def bind_sum_eq_Inr assert_records_Inr)

section \<open>Every operation keeps the registry well formed\<close>

lemma receipt_bound_updates [simp]:
  "receipt_bound E (r\<lparr>fo_stage := a\<rparr>) = receipt_bound E r"
  "receipt_bound E (r\<lparr>fo_apply_attempts := a\<rparr>) = receipt_bound E r"
  "receipt_bound E (r\<lparr>fo_effect_observed := a\<rparr>) = receipt_bound E r"
  "receipt_bound E (r\<lparr>fo_execution_completed := a\<rparr>) = receipt_bound E r"
  "receipt_bound E (r\<lparr>fo_updated_at := a\<rparr>) = receipt_bound E r"
  by (simp_all add: receipt_bound_def request_of_record_def)

lemma assert_timestamp_Inr: "assert_timestamp E (JStr now) = Inr t \<Longrightarrow> is_ok (assert_timestamp E (JStr now))"
  by simp

lemma record_from_request_valid:
  assumes "file_env_documented E" "normalize_file_request E q = Inr n" "record_from_request E n now = Inr r"
  shows "assert_record E r = Inr ()" "fo_operation_id r = JStr (nf_operation_id n)" "fo_stage r = JStr ''prepared''"
    "request_digest E n = Inr digest \<Longrightarrow> fo_request_digest r = JStr digest" "fo_session_id r = JStr (nf_session_id n)"
    "fo_authority_token r = JStr (nf_authority_token n)"
proof -
  obtain t digest where t: "assert_timestamp E (JStr now) = Inr t" and d: "request_digest E n = Inr digest"
    and r: "r = \<lparr>fo_schema_version = JNum FILE_OPERATION_SCHEMA_VERSION, fo_operation_id = JStr (nf_operation_id n),
          fo_session_id = JStr (nf_session_id n), fo_request_digest = JStr digest,
          fo_operation = JStr (kind_string (nf_operation n)), fo_source = json_of_option (nf_source n),
          fo_destination = json_of_option (nf_destination n), fo_expected_identity = nf_expected_identity n,
          fo_payload_digest = json_of_option (nf_payload_digest n), fo_authority_token = JStr (nf_authority_token n),
          fo_fence_epoch = JNum (nf_fence_epoch n), fo_stage = JStr ''prepared'', fo_apply_attempts = JNum 0,
          fo_effect_observed = JBool False, fo_execution_completed = JBool False, fo_created_at = JStr now,
          fo_updated_at = JStr now\<rparr>"
    using assms(3) by (auto simp: record_from_request_def bind_sum_eq_Inr)
  have "request_of_record r = request_of_normalized n"
    by (simp add: r request_of_record_def request_of_normalized_def)
  moreover have "digest_token digest"
    using d assms(1) by (auto simp: request_digest_def bind_sum_eq_Inr file_env_documented_def)
  ultimately show "assert_record E r = Inr ()"
    using normalize_file_request_again [OF assms(1,2)] d t
    by (simp add: assert_record_Inr receipt_bound_def)
      (auto simp: r receipt_stage_ok_def valid_stage_flags_def safe_natural_def is_boolean_def)
  show "fo_operation_id r = JStr (nf_operation_id n)" "fo_stage r = JStr ''prepared''"
    "request_digest E n = Inr digest' \<Longrightarrow> fo_request_digest r = JStr digest'" "fo_session_id r = JStr (nf_session_id n)"
    "fo_authority_token r = JStr (nf_authority_token n)" for digest'
    using d by (simp_all add: r)
qed

subsection \<open>Compaction\<close>

lemma set_insert_by: "set (insert_by cmp x ys) = insert x (set ys)"
  by (induction ys) auto

lemma set_sort_by: "set (sort_by cmp xs) = set xs"
  by (induction xs) (simp_all add: sort_by_def set_insert_by)

text \<open>Only a proven completed receipt is ever dropped, and only when the registry is full.\<close>

lemma compact_completed_history_Inr:
  assumes "compact_completed_history E rs = Inr rs'"
  shows "rs' = rs \<and> length rs < MAX_FILE_OPERATION_RECORDS \<or>
    (\<exists>xs r ys. rs = xs @ r # ys \<and> rs' = xs @ ys \<and> fo_stage r = JStr ''completed'' \<and>
       MAX_FILE_OPERATION_RECORDS \<le> length rs)"
proof (cases "length rs < MAX_FILE_OPERATION_RECORDS")
  case True
  with assms show ?thesis by (simp add: compact_completed_history_def)
next
  case False
  let ?sorted = "sort_by (compare_history E) (filter (\<lambda>e. fo_stage (fst e) = JStr ''completed'') (zip rs [0..<length rs]))"
  obtain r i rest where hd: "?sorted = (r, i) # rest"
    and rs': "rs' = take i rs @ drop (Suc i) rs"
    using assms False by (auto simp: compact_completed_history_def split: list.splits prod.splits)
  have "(r, i) \<in> set ?sorted" by (simp add: hd)
  then have "fo_stage r = JStr ''completed''" "i < length rs" "rs ! i = r"
    by (auto simp: set_sort_by in_set_zip)
  then show ?thesis
    using False rs' id_take_nth_drop [of i rs] by (auto simp: not_less)
qed

lemma find_operation_Some:
  "find_operation v rs = Some r \<Longrightarrow> r \<in> set rs \<and> fo_operation_id r = v"
  by (auto simp: find_operation_def find_Some_iff)

lemma find_operation_None: "find_operation v rs = None \<longleftrightarrow> v \<notin> set (map fo_operation_id rs)"
  by (auto simp: find_operation_def find_None_iff)

lemma reserve_file_operation_Inr:
  assumes "reserve_file_operation E st q now = Inr (st', r)"
  obtains (replay) n d where "st' = st" "r \<in> set (fr_operations st)" "normalize_file_request E q = Inr n"
      "fo_operation_id r = JStr (nf_operation_id n)" "request_digest E n = Inr d" "fo_request_digest r = JStr d"
      "fo_session_id r = JStr (nf_session_id n)"
    | (fresh) n rs where "normalize_file_request E q = Inr n"
      "JStr (nf_operation_id n) \<notin> set (map fo_operation_id (fr_operations st))"
      "compact_completed_history E (fr_operations st) = Inr rs" "record_from_request E n now = Inr r"
      "st' = st\<lparr>fr_operations := rs @ [r]\<rparr>"
proof -
  obtain n d where n: "normalize_file_request E q = Inr n" "request_digest E n = Inr d"
    using assms by (auto simp: reserve_file_operation_def bind_sum_eq_Inr)
  show thesis
  proof (cases "find_operation (JStr (nf_operation_id n)) (fr_operations st)")
    case None
    then have "JStr (nf_operation_id n) \<notin> set (map fo_operation_id (fr_operations st))"
      by (simp add: find_operation_None)
    then show thesis
      using assms n that(2) [of n]
      by (auto simp: reserve_file_operation_def bind_sum_eq_Inr None)
  next
    case (Some x)
    then show thesis
      using assms n that(1) [of n d] find_operation_Some [OF Some]
      by (auto simp: reserve_file_operation_def bind_sum_eq_Inr split: if_splits)
  qed
qed

lemma reserve_valid:
  assumes "file_env_documented E" "assert_state E st = Inr ()" "reserve_file_operation E st q now = Inr (st', r)"
  shows "assert_state E st' = Inr () \<and> r \<in> set (fr_operations st') \<and> assert_record E r = Inr ()"
  using assms(3)
proof (cases rule: reserve_file_operation_Inr)
  case (replay n d)
  then show ?thesis using assms(2) by (auto simp: assert_state_Inr)
next
  case (fresh n rs)
  note valid = record_from_request_valid [OF assms(1) fresh(1,4)]
  show ?thesis
    using compact_completed_history_Inr [OF fresh(3)] fresh(2,5) assms(2) valid(1,2)
    by (auto simp: assert_state_Inr)
qed

subsection \<open>Replacing a receipt\<close>

lemma replace_first_Some:
  "replace_first r rs = Some rs' \<Longrightarrow>
   \<exists>xs y ys. rs = xs @ y # ys \<and> rs' = xs @ r # ys \<and> fo_operation_id y = fo_operation_id r \<and>
     (\<forall>x\<in>set xs. fo_operation_id x \<noteq> fo_operation_id r)"
proof (induction rs arbitrary: rs')
  case (Cons x rs)
  show ?case
  proof (cases "fo_operation_id x = fo_operation_id r")
    case True
    with Cons.prems show ?thesis by (intro exI [of _ "[]"]) simp
  next
    case False
    then obtain rs1 where rs1: "replace_first r rs = Some rs1" "rs' = x # rs1" using Cons.prems by auto
    from Cons.IH [OF rs1(1)] obtain xs y ys where
      "rs = xs @ y # ys \<and> rs1 = xs @ r # ys \<and> fo_operation_id y = fo_operation_id r \<and>
        (\<forall>x\<in>set xs. fo_operation_id x \<noteq> fo_operation_id r)" by blast
    with False rs1(2) show ?thesis by (intro exI [of _ "x # xs"] exI [of _ y] exI [of _ ys]) auto
  qed
qed simp

lemma replace_first_member:
  "fo_operation_id r \<in> set (map fo_operation_id rs) \<Longrightarrow> \<exists>rs'. replace_first r rs = Some rs'"
  by (induction rs) auto

lemma replace_valid:
  assumes "assert_state E st = Inr ()" "replace_first r (fr_operations st) = Some rs" "assert_record E r = Inr ()"
  shows "assert_state E (st\<lparr>fr_operations := rs\<rparr>) = Inr ()"
proof -
  obtain xs y ys where "fr_operations st = xs @ y # ys" "rs = xs @ r # ys" "fo_operation_id y = fo_operation_id r"
    using replace_first_Some [OF assms(2)] by blast
  then show ?thesis using assms(1,3) by (auto simp: assert_state_Inr)
qed

text \<open>With distinct ids the receipt that is replaced is the one with that id.\<close>

lemma replace_first_set:
  assumes "replace_first r rs = Some rs'" "distinct (map fo_operation_id rs)"
  shows "set rs' = insert r {x \<in> set rs. fo_operation_id x \<noteq> fo_operation_id r}"
proof -
  obtain xs y ys where "rs = xs @ y # ys" "rs' = xs @ r # ys" "fo_operation_id y = fo_operation_id r"
    using replace_first_Some [OF assms(1)] by blast
  then show ?thesis using assms(2) by auto (metis image_eqI)+
qed

subsection \<open>The apply boundary and reconciliation\<close>

lemma record_apply_attempt_Inr:
  assumes "record_apply_attempt E st op_id authority_token now = Inr (st', r')"
  obtains (repeated) i where "st' = st" "r' \<in> set (fr_operations st)" "fo_stage r' \<noteq> JStr ''prepared''"
      "normalize_text E op_id = Inr i" "fo_operation_id r' = JStr i"
    | (granted) r i rs where "r \<in> set (fr_operations st)" "normalize_text E op_id = Inr i" "fo_operation_id r = JStr i"
      "fo_stage r = JStr ''prepared''" "fo_authority_token r = authority_token"
      "r' = r\<lparr>fo_stage := JStr ''apply-recorded'', fo_apply_attempts := increment (fo_apply_attempts r),
             fo_updated_at := JStr now\<rparr>"
      "is_ok (assert_timestamp E (JStr now))"
      "replace_first r' (fr_operations st) = Some rs" "st' = st\<lparr>fr_operations := rs\<rparr>"
proof -
  obtain i where i: "normalize_text E op_id = Inr i"
    using assms by (auto simp: record_apply_attempt_def bind_sum_eq_Inr)
  obtain r where r: "find_operation (JStr i) (fr_operations st) = Some r"
    using assms i by (auto simp: record_apply_attempt_def bind_sum_eq_Inr split: option.splits)
  note member = find_operation_Some [OF r]
  have body: "(if fo_stage r = JStr ''prepared''
      then bind_sum (updated_record E (\<lambda>r. r\<lparr>fo_stage := JStr ''apply-recorded'',
             fo_apply_attempts := increment (fo_apply_attempts r)\<rparr>) r now)
             (\<lambda>next. bind_sum (replace_record st next) (\<lambda>st'. Inr (st', next)))
      else Inr (st, r)) = Inr (st', r')" and token: "fo_authority_token r = authority_token"
    using assms i r
    by (auto simp: record_apply_attempt_def bind_sum_eq_Inr terminal_stage_def split: if_splits)
  show thesis
  proof (cases "fo_stage r = JStr ''prepared''")
    case False
    then show thesis using repeated body member i by simp
  next
    case True
    then show thesis
      using body member i token granted [of r i]
      by (auto simp: bind_sum_eq_Inr updated_record_def replace_record_def is_ok_iff split: option.splits)
  qed
qed

lemma apply_granted_valid:
  assumes "assert_record E r = Inr ()" "fo_stage r = JStr ''prepared''" "is_ok (assert_timestamp E (JStr now))"
  shows "assert_record E (r\<lparr>fo_stage := JStr ''apply-recorded'', fo_apply_attempts := increment (fo_apply_attempts r),
             fo_updated_at := JStr now\<rparr>) = Inr ()"
  using assms
  by (auto simp: assert_record_Inr receipt_stage_ok_def valid_stage_flags_def safe_natural_Some increment_def)

lemma apply_attempt_valid:
  assumes "assert_state E st = Inr ()" "record_apply_attempt E st op_id token now = Inr (st', r')"
  shows "assert_state E st' = Inr () \<and> r' \<in> set (fr_operations st')"
  using assms(2)
proof (cases rule: record_apply_attempt_Inr)
  case (granted r i rs)
  have "assert_record E r = Inr ()" using granted(1) assms(1) by (simp add: assert_state_Inr)
  from apply_granted_valid [OF this granted(4,7)] have "assert_record E r' = Inr ()" by (simp add: granted(6))
  from replace_valid [OF assms(1) granted(8) this] show ?thesis
    using replace_first_set [OF granted(8)] assms(1) granted(9) by (auto simp: assert_state_Inr)
qed (use assms(1) in simp)

lemma reconcile_Inr:
  assumes "reconcile_with_authority E r ob current now = Inr n"
  obtains (final) "terminal_stage (fo_stage r)" "fn_record n = r" "fn_disposition n = fo_stage r"
    | (decided) m proven where "fo_stage r = JStr ''apply-recorded''"
      "and_sum (Inr (fb_effect_observed ob = JBool True)) (file_operation_effect_matches E r ob) = Inr m"
      "proven \<longleftrightarrow> current \<and> m \<and> fb_execution_completed ob = JBool True"
      "is_ok (assert_timestamp E (JStr now))"
      "fn_record n = r\<lparr>fo_stage := (if proven then JStr ''completed'' else JStr ''unresolved''),
         fo_effect_observed := JBool m, fo_execution_completed := JBool proven, fo_updated_at := JStr now\<rparr>"
      "fn_disposition n = (if proven then JStr ''completed'' else JStr ''unresolved'')"
proof (cases "terminal_stage (fo_stage r)")
  case True
  then show thesis using assms final by (auto simp: reconcile_with_authority_def bind_sum_eq_Inr)
next
  case False
  then have stage: "fo_stage r = JStr ''apply-recorded''"
    using assms by (auto simp: reconcile_with_authority_def bind_sum_eq_Inr split: if_splits)
  obtain m where m: "and_sum (Inr (fb_effect_observed ob = JBool True)) (file_operation_effect_matches E r ob) = Inr m"
    using assms False stage by (auto simp: reconcile_with_authority_def bind_sum_eq_Inr)
  show thesis
    using assms False stage decided [OF stage m refl]
    by (auto simp: reconcile_with_authority_def bind_sum_eq_Inr m Let_def updated_record_def is_ok_iff)
qed

lemma reconcile_valid:
  assumes "assert_record E r = Inr ()" "reconcile_with_authority E r ob current now = Inr n"
  shows "assert_record E (fn_record n) = Inr () \<and> fo_operation_id (fn_record n) = fo_operation_id r"
  using assms(2)
proof (cases rule: reconcile_Inr)
  case (decided m proven)
  then show ?thesis
    using assms(1)
    by (auto simp: assert_record_Inr receipt_stage_ok_def valid_stage_flags_def is_boolean_def)
qed (use assms(1) in simp)

section \<open>Persistence keeps every receipt\<close>

lemma serialize_record_Inr:
  assumes "assert_record E r = Inr ()"
  obtains v where "serialize_record E r = Inr v" "parse_record E v = Inr r"
proof -
  have version: "fo_schema_version r = JNum FILE_OPERATION_SCHEMA_VERSION"
    using assms by (simp add: assert_record_Inr receipt_bound_def)
  let ?v = "JObj
       [(''schema_version'', JNum FILE_OPERATION_SCHEMA_VERSION), (''operation_id'', fo_operation_id r),
        (''session_id'', fo_session_id r), (''request_digest'', fo_request_digest r), (''operation'', fo_operation r),
        (''source'', fo_source r), (''destination'', fo_destination r), (''expected_identity'', fo_expected_identity r),
        (''payload_digest'', fo_payload_digest r), (''authority_token'', fo_authority_token r),
        (''fence_epoch'', fo_fence_epoch r), (''stage'', fo_stage r), (''apply_attempts'', fo_apply_attempts r),
        (''effect_observed'', fo_effect_observed r), (''execution_completed'', fo_execution_completed r),
        (''created_at'', fo_created_at r), (''updated_at'', fo_updated_at r)]"
  have "record_of_json ?v = r"
    by (simp add: record_of_json_def jget_def version [symmetric])
  moreover have "jget ?v ''schema_version'' = JNum FILE_OPERATION_SCHEMA_VERSION" by (simp add: jget_def)
  ultimately have "parse_record E ?v = Inr r"
    by (simp only: parse_record_def assms) (simp add: plain_record_def)
  moreover have "serialize_record E r = Inr ?v" by (simp add: serialize_record_def assms)
  ultimately show thesis by (rule that [rotated])
qed

lemma serialize_records:
  "\<forall>r\<in>set rs. assert_record E r = Inr () \<Longrightarrow>
   \<exists>vs. map_sum_list (serialize_record E) rs = Inr vs \<and> map_sum_list (parse_record E) vs = Inr rs"
proof (induction rs)
  case (Cons r rs)
  then obtain vs where "map_sum_list (serialize_record E) rs = Inr vs" "map_sum_list (parse_record E) vs = Inr rs" by auto
  moreover obtain v where "serialize_record E r = Inr v" "parse_record E v = Inr r"
    using serialize_record_Inr Cons.prems by (metis list.set_intros(1))
  ultimately show ?case by (intro exI [of _ "v # vs"]) simp
qed simp

lemma registry_roundtrip:
  assumes "assert_state E st = Inr ()"
  obtains v where "serialize_file_operation_registry E st = Inr v"
    "v = JObj [(''schema_version'', JNum 1), (''file_operations'', jget v ''file_operations'')]"
    "parse_file_operation_registry E v = Inr (st\<lparr>fr_schema_version := JNum FILE_OPERATION_REGISTRY_SCHEMA_VERSION\<rparr>)"
proof -
  obtain vs where vs: "map_sum_list (serialize_record E) (fr_operations st) = Inr vs"
    "map_sum_list (parse_record E) vs = Inr (fr_operations st)"
    using serialize_records [of "fr_operations st" E] assms by (auto simp: assert_state_Inr)
  have again: "assert_state E \<lparr>fr_schema_version = JNum 1, fr_operations = fr_operations st\<rparr> = Inr ()"
    using assms by (simp add: assert_state_Inr FILE_OPERATION_REGISTRY_SCHEMA_VERSION_def)
  show thesis
    by (rule that [of "JObj [(''schema_version'', JNum FILE_OPERATION_REGISTRY_SCHEMA_VERSION), (''file_operations'', JArr vs)]"])
      (simp_all add: serialize_file_operation_registry_def assms vs parse_file_operation_registry_def plain_record_def
        jget_def again FILE_OPERATION_REGISTRY_SCHEMA_VERSION_def Let_def)
qed

text \<open>C35: A registry that passes its own validation can always be written, and reading what was written gives the
  same receipts in the same order.\<close>

theorem file_operations_roundtrip:
  assumes "assert_state E st = Inr ()"
  shows "\<exists>v. serialize_file_operation_registry E st = Inr v \<and>
    parse_file_operation_registry E v = Inr (st\<lparr>fr_schema_version := JNum FILE_OPERATION_REGISTRY_SCHEMA_VERSION\<rparr>)"
  using assms by (rule registry_roundtrip) blast

lemma parse_registry_valid:
  assumes "parse_file_operation_registry E v = Inr st"
  shows "assert_state E st = Inr ()"
proof -
  obtain vs where "jget v ''file_operations'' = JArr vs"
    using assms by (cases "jget v ''file_operations''") (auto simp: parse_file_operation_registry_def bind_sum_eq_Inr)
  with assms show ?thesis by (auto simp: parse_file_operation_registry_def bind_sum_eq_Inr Let_def)
qed

definition demo_env :: file_env where
  "demo_env = \<lparr>fe_nfc = id, fe_sha256 = (\<lambda>t. CHR ''h'' # concat (map (\<lambda>c. let n = of_char c in
     [hex_digit (n div 16), hex_digit (n mod 16)]) t)), fe_date_ok = (\<lambda>_. True),
     fe_locale_compare = (\<lambda>l r. if l < r then -1 else if r < l then 1 else 0)\<rparr>"

definition demo_request :: file_request where
  "demo_request = \<lparr>fq_operation_id = JStr ''op1'', fq_session_id = JStr ''s1'', fq_operation = JStr ''create'',
     fq_source = JNull, fq_destination = JStr ''a.txt'', fq_expected_identity = JNull, fq_payload_digest = JStr ''ff'',
     fq_authority_token = JStr ''t1'', fq_fence_epoch = JNum 3\<rparr>"

definition demo_now :: string where "demo_now = ''2024-01-02T03:04:05.678Z''"

lemma hex_digit_alphanumeric: "k < 16 \<Longrightarrow> alphanumeric (hex_digit k)"
proof -
  have "list_all (\<lambda>k. alphanumeric (hex_digit k)) [0..<16]" by code_simp
  then show "k < 16 \<Longrightarrow> alphanumeric (hex_digit k)" by (simp add: list_all_iff)
qed

lemma demo_env_documented: "file_env_documented demo_env"
proof -
  have small: "of_char c div 16 < (16 :: nat)" for c :: char
  proof -
    have "of_char c < (256 :: nat)" using of_char_mod_256 [of c, where ?'a = nat] by (metis mod_less_divisor zero_less_numeral)
    then show ?thesis by (intro less_mult_imp_div_less) simp
  qed
  have "digest_token (fe_sha256 demo_env t)" for t
    using hex_digit_alphanumeric small
    by (auto simp: demo_env_def digest_token_def list_all_iff Let_def alphanumeric_def [of "CHR ''h''"])
  then show ?thesis by (simp add: file_env_documented_def demo_env_def)
qed

definition demo_reserved :: file_registry where
  "demo_reserved =
     (case reserve_file_operation demo_env create_file_operation_registry demo_request demo_now of
        Inr (st, r) \<Rightarrow> st | Inl _ \<Rightarrow> create_file_operation_registry)"


lemma request_digest_total:
  assumes "normalize_file_request E q = Inr n"
  shows "\<exists>d. request_digest E n = Inr d"
proof -
  have "identity_copied (nf_expected_identity n) (nf_expected_identity n)"
    using assms identity_copied_again unfolding normalize_file_request_Inr by blast
  then have "serializable (nf_expected_identity n)"
    by (auto simp: identity_copied_def assert_json_value_def bind_sum_eq_Inr canonical_text split: if_splits)
  then show ?thesis
    by (simp add: request_digest_def bind_sum_eq_Inr canonical_text json_of_option_def split: option.split)
qed

text \<open>A new id is reserved while the registry has room.\<close>

lemma reserve_fresh:
  assumes "assert_state E st = Inr ()" "normalize_file_request E q = Inr n"
    and "JStr (nf_operation_id n) \<notin> set (map fo_operation_id (fr_operations st))"
    and "length (fr_operations st) < MAX_FILE_OPERATION_RECORDS" "is_ok (assert_timestamp E (JStr now))"
  shows "\<exists>r. reserve_file_operation E st q now = Inr (st\<lparr>fr_operations := fr_operations st @ [r]\<rparr>, r) \<and>
    record_from_request E n now = Inr r"
proof -
  have "find_operation (JStr (nf_operation_id n)) (fr_operations st) = None"
    using assms(3) by (simp add: find_operation_None)
  then show ?thesis
    using assms request_digest_total [OF assms(2)]
    by (auto simp: reserve_file_operation_def compact_completed_history_def record_from_request_def bind_sum_eq_Inr
        is_ok_iff)
qed

definition demo_normalized :: normalized_file_request where
  "demo_normalized = \<lparr>nf_operation_id = ''op1'', nf_session_id = ''s1'', nf_operation = FileCreate, nf_source = None,
     nf_destination = Some ''a.txt'', nf_expected_identity = JNull, nf_payload_digest = Some ''ff'',
     nf_authority_token = ''t1'', nf_fence_epoch = 3\<rparr>"

lemma demo_normalizes: "normalize_file_request demo_env demo_request = Inr demo_normalized"
proof -
  have "normalize_kind (JStr ''create'') = Inr FileCreate" using normalize_kind_string [of FileCreate] by simp
  moreover have "digest_token ''ff''" "NUL \<notin> set ''op1''" "NUL \<notin> set ''s1''" "NUL \<notin> set ''a.txt''" "NUL \<notin> set ''ff''"
    "NUL \<notin> set ''t1''"
    by (simp_all add: digest_token_def alphanumeric_def NUL_def)
  ultimately show ?thesis
    by (simp add: normalize_file_request_Inr demo_request_def demo_normalized_def demo_env_def normalize_text_Inr
        normalize_path_Inr paths_fit_def identity_copied_def payload_normalized_def assert_digest_Inr
        assert_fence_epoch_Inr safe_natural_Some)
qed

lemma demo_now_ok: "is_ok (assert_timestamp demo_env (JStr demo_now))"
  by code_simp

lemma demo_empty_ok: "assert_state E create_file_operation_registry = Inr ()"
  by (simp add: assert_state_Inr create_file_operation_registry_def)

lemma demo_reserves:
  "\<exists>r. reserve_file_operation demo_env create_file_operation_registry demo_request demo_now = Inr (demo_reserved, r) \<and>
     fr_operations demo_reserved = [r] \<and> record_from_request demo_env demo_normalized demo_now = Inr r"
  using reserve_fresh [OF demo_empty_ok demo_normalizes _ _ demo_now_ok]
  by (auto simp: create_file_operation_registry_def MAX_FILE_OPERATION_RECORDS_def demo_reserved_def)

lemma demo_state_ok: "assert_state demo_env demo_reserved = Inr ()"
  using reserve_valid [OF demo_env_documented demo_empty_ok] demo_reserves by blast

theorem file_operations_roundtrip_witness:
  "(\<exists>v. serialize_file_operation_registry demo_env demo_reserved = Inr v \<and>
    parse_file_operation_registry demo_env v =
      Inr (demo_reserved\<lparr>fr_schema_version := JNum FILE_OPERATION_REGISTRY_SCHEMA_VERSION\<rparr>)) \<and>
   length (fr_operations demo_reserved) = 1"
  using file_operations_roundtrip [OF demo_state_ok] demo_reserves by auto

section \<open>What a completed receipt proves\<close>

lemma path_fact_matches_present:
  "path_fact_matches_expected f True identity payload = Inr True \<longleftrightarrow>
     pf_present f \<and> (payload = JNull \<or> pf_payload_digest f = payload) \<and>
     (identity = JNull \<or> \<not> absent (pf_identity f) \<and>
        (\<exists>t. canonical_json (pf_identity f) = Inr t \<and> canonical_json identity = Inr t))"
  by (cases "pf_present f"; cases "identity = JNull"; cases "absent (pf_identity f)";
      cases "canonical_json (pf_identity f)"; cases "canonical_json identity")
    (simp_all add: path_fact_matches_expected_def, (blast | auto)+)

lemma path_fact_matches_absent:
  "path_fact_matches_expected f False identity payload = Inr True \<Longrightarrow> \<not> pf_present f"
  by (auto simp: path_fact_matches_expected_def split: if_splits)

lemma and_sum_True [sum_simps]: "and_sum a b = Inr True \<longleftrightarrow> a = Inr True \<and> b = Inr True"
  by (auto simp: and_sum_def bind_sum_eq_Inr)

definition proven_effect :: "file_operation \<Rightarrow> file_observation \<Rightarrow> bool" where
  "proven_effect r ob \<longleftrightarrow>
     (fo_operation r \<noteq> JStr ''delete'' \<longrightarrow>
        (\<exists>d. fb_destination ob = Some d \<and> pf_present d \<and>
             (fo_expected_identity r \<noteq> JNull \<longrightarrow> sort_json (pf_identity d) = sort_json (fo_expected_identity r)) \<and>
             (fo_payload_digest r \<noteq> JNull \<longrightarrow> pf_payload_digest d = fo_payload_digest r))) \<and>
     (fo_operation r \<noteq> JStr ''create'' \<longrightarrow>
        (\<exists>src. fb_source ob = Some src \<and> \<not> pf_present src \<and> fo_expected_identity r \<noteq> JNull))"


lemma path_matches_True:
  "path_matches_expected observation present identity payload = Inr True \<Longrightarrow>
   \<exists>f. observation = Some f \<and> path_fact_matches_expected (path_fact.truncate f) present identity payload = Inr True"
  by (cases observation) (simp_all add: path_matches_expected_def)

lemma before_matches_True:
  "before_matches_expected observation True identity payload = Inr True \<Longrightarrow> identity \<noteq> JNull"
  by (auto simp: before_matches_expected_def split: option.splits if_splits)

lemma path_matches_present:
  assumes "path_matches_expected observation True identity payload = Inr True"
  obtains f where "observation = Some f" "pf_present f"
    "identity \<noteq> JNull \<Longrightarrow> sort_json (pf_identity f) = sort_json identity" "payload \<noteq> JNull \<Longrightarrow> pf_payload_digest f = payload"
proof -
  obtain f where f: "observation = Some f" "path_fact_matches_expected (path_fact.truncate f) True identity payload = Inr True"
    using path_matches_True [OF assms] by blast
  have "sort_json (pf_identity f) = sort_json identity" if some: "identity \<noteq> JNull"
  proof -
    obtain t where "canonical_json (pf_identity f) = Inr t" "canonical_json identity = Inr t"
      using f(2) some by (auto simp: path_fact_matches_present path_fact.truncate_def)
    then show ?thesis
      using canonical_json_inj [of "pf_identity f" identity] canonical_json_serializable by metis
  qed
  with f show thesis by (intro that [of f]) (auto simp: path_fact_matches_present path_fact.truncate_def)
qed

lemma path_matches_absent:
  "path_matches_expected observation False identity payload = Inr True \<Longrightarrow> \<exists>f. observation = Some f \<and> \<not> pf_present f"
  using path_matches_True path_fact_matches_absent by (fastforce simp: path_fact.truncate_def)

lemma effect_matches_proven:
  assumes "file_operation_effect_matches E r ob = Inr True"
  shows "proven_effect r ob"
proof -
  let ?dest = "path_matches_expected (fb_destination ob) True (fo_expected_identity r) (fo_payload_digest r)"
  let ?src = "path_matches_expected (fb_source ob) False JNull JNull"
  let ?before = "before_matches_expected (fb_source ob) True (fo_expected_identity r) JNull"
  have steps: "(fo_operation r = JStr ''create'' \<longrightarrow> ?dest = Inr True) \<and>
      (fo_operation r = JStr ''delete'' \<longrightarrow> ?src = Inr True \<and> ?before = Inr True) \<and>
      (fo_operation r \<noteq> JStr ''create'' \<longrightarrow> fo_operation r \<noteq> JStr ''delete'' \<longrightarrow>
         ?dest = Inr True \<and> ?src = Inr True \<and> ?before = Inr True)"
    using assms
    by (cases "fb_destination ob")
      (auto simp: file_operation_effect_matches_def bind_sum_eq_Inr Let_def and_sum_True split: if_splits)
  show ?thesis
    unfolding proven_effect_def
  proof (intro conjI impI)
    assume "fo_operation r \<noteq> JStr ''delete''"
    then have "?dest = Inr True" using steps by blast
    then show "\<exists>d. fb_destination ob = Some d \<and> pf_present d \<and>
             (fo_expected_identity r \<noteq> JNull \<longrightarrow> sort_json (pf_identity d) = sort_json (fo_expected_identity r)) \<and>
             (fo_payload_digest r \<noteq> JNull \<longrightarrow> pf_payload_digest d = fo_payload_digest r)"
      by (rule path_matches_present) blast
  next
    assume "fo_operation r \<noteq> JStr ''create''"
    then have "?src = Inr True" "?before = Inr True" using steps by blast+
    then show "\<exists>src. fb_source ob = Some src \<and> \<not> pf_present src \<and> fo_expected_identity r \<noteq> JNull"
      using path_matches_absent before_matches_True by blast
  qed
qed

text \<open>C12: A receipt becomes completed only from the apply-recorded stage, under a current authority, on an
  observation bound to the receipt's token and fence that reports the effect and the completion, and whose
  facts show that effect: the created or moved file is there with the expected identity and digest, the deleted
  or moved one is gone and had an expected identity.\<close>

theorem completed_receipt_is_proven:
  assumes "reconcile_with_authority E r ob current now = Inr n"
    and "fn_disposition n = JStr ''completed''" "fo_stage r \<noteq> JStr ''completed''"
  shows "fo_stage r = JStr ''apply-recorded'' \<and> current \<and> fb_effect_observed ob = JBool True \<and>
    fb_execution_completed ob = JBool True \<and> fb_authority_token ob = fo_authority_token r \<and>
    fb_fence_epoch ob = fo_fence_epoch r \<and> proven_effect r ob \<and> fo_stage (fn_record n) = JStr ''completed''"
proof -
  have "validate_file_operation_observation r ob = Inr ()"
    using assms(1) by (auto simp: reconcile_with_authority_def bind_sum_eq_Inr)
  then have bound: "fb_authority_token ob = fo_authority_token r" "fb_fence_epoch ob = fo_fence_epoch r"
    by (auto simp: validate_file_operation_observation_def bind_sum_eq_Inr)
  from assms(1) show ?thesis
  proof (cases rule: reconcile_Inr)
    case final
    then show ?thesis using assms(2,3) by simp
  next
    case (decided m proven)
    have "proven" using decided(6) assms(2) by (simp split: if_splits)
    then show ?thesis
      using decided bound effect_matches_proven [of E r ob] by (auto simp: and_sum_True)
  qed
qed


definition demo_applied :: file_operation where
  "demo_applied = (hd (fr_operations demo_reserved))\<lparr>fo_stage := JStr ''apply-recorded'',
     fo_apply_attempts := increment (fo_apply_attempts (hd (fr_operations demo_reserved))), fo_updated_at := JStr demo_now\<rparr>"

definition demo_observation :: file_observation where
  "demo_observation = \<lparr>fb_operation_id = JStr ''op1'', fb_authority_token = JStr ''t1'', fb_fence_epoch = JNum 3,
     fb_source = None,
     fb_destination = Some \<lparr>pf_present = True, pf_identity = JUndefined, pf_payload_digest = JStr ''ff'',
                            po_before = None\<rparr>,
     fb_effect_observed = JBool True, fb_execution_completed = JBool True\<rparr>"

lemma demo_applied_ok:
  "assert_record demo_env demo_applied = Inr ()" "fo_operation_id demo_applied = JStr ''op1''"
  "fo_stage demo_applied = JStr ''apply-recorded''" "fo_operation demo_applied = JStr ''create''"
  "fo_expected_identity demo_applied = JNull" "fo_payload_digest demo_applied = JStr ''ff''"
  "fo_authority_token demo_applied = JStr ''t1''" "fo_fence_epoch demo_applied = JNum 3"
proof -
  obtain r where r: "fr_operations demo_reserved = [r]" "record_from_request demo_env demo_normalized demo_now = Inr r"
    using demo_reserves by blast
  have "assert_record demo_env r = Inr ()" "fo_stage r = JStr ''prepared''"
    using record_from_request_valid [OF demo_env_documented demo_normalizes r(2)] by simp_all
  from apply_granted_valid [OF this demo_now_ok] show "assert_record demo_env demo_applied = Inr ()"
    by (simp add: demo_applied_def r(1))
  show "fo_operation_id demo_applied = JStr ''op1''"
  "fo_stage demo_applied = JStr ''apply-recorded''" "fo_operation demo_applied = JStr ''create''"
  "fo_expected_identity demo_applied = JNull" "fo_payload_digest demo_applied = JStr ''ff''"
  "fo_authority_token demo_applied = JStr ''t1''" "fo_fence_epoch demo_applied = JNum 3"
    using r by (auto simp: demo_applied_def record_from_request_def bind_sum_eq_Inr demo_normalized_def json_of_option_def)
qed

lemma demo_completes:
  "\<exists>n. reconcile_with_authority demo_env demo_applied demo_observation True demo_now = Inr n \<and>
       fn_disposition n = JStr ''completed''"
proof -
  have "file_operation_effect_matches demo_env demo_applied demo_observation = Inr True"
    by (simp add: file_operation_effect_matches_def demo_applied_ok demo_observation_def and_sum_def
        path_matches_expected_def path_fact_matches_present path_fact.truncate_def)
  then show ?thesis
    using demo_now_ok
    by (auto simp: reconcile_with_authority_def demo_applied_ok terminal_stage_def and_sum_def updated_record_def
        validate_file_operation_observation_def demo_observation_def is_boolean_def assert_string_def NUL_def
        assert_fence_epoch_def safe_natural_def is_ok_iff Let_def)
qed

theorem completed_receipt_is_proven_witness:
  "proven_effect demo_applied demo_observation \<and> fo_stage demo_applied = JStr ''apply-recorded''"
  using completed_receipt_is_proven [of demo_env demo_applied demo_observation True demo_now] demo_completes
    demo_applied_ok(3) by auto


text \<open>Requests whose identities differ in a property named \<open>__proto__\<close> are taken for the same request: freezing the copy
  drops that property before the digest is computed.\<close>

lemma prototype_property_not_in_digest:
  "file_operation_request_digest E (q\<lparr>fq_expected_identity := JObj [(''__proto__'', JObj []), (''inode'', JNum 1)]\<rparr>) =
   file_operation_request_digest E (q\<lparr>fq_expected_identity := JObj [(''inode'', JNum 1)]\<rparr>)"
  by (simp add: file_operation_request_digest_def normalize_file_request_def assert_json_value_def clone_json_def
      canonical_text)

end
