(* ===== verification/FileOperationExecution.thy ===== *)
theory FileOperationExecution
  imports FileOperationReceipts
begin

text \<open>
  The use of the receipts in src/src/session-registry.ts: executeFileOperation reserves a file
  operation and marks its receipt in one transaction under the registry lock, performs the physical
  operation outside of it, and reconciles the receipt in a second transaction.

  A transaction reads the receipts from the registry document and writes them back, through the
  parser and the serializer of FileOperations. What other modules decide inside a transaction (the
  filesystem policy, the token minted for it, the conflict check against other sessions' claims) and
  what is observed on disk are inputs of the step. Executions of any number of processes interleave
  at the boundaries of the transactions; \<open>fx_log\<close> records each physical operation and each receipt
  that compaction evicts, and no step reads it.
\<close>

section \<open>Transactions\<close>

datatype file_execution_error = RegistryFailure string | ReceiptFailure file_error_code

definition receipt_error :: "file_error_code + 'a \<Rightarrow> file_execution_error + 'a" where
  "receipt_error m = (case m of Inl e \<Rightarrow> Inl (ReceiptFailure e) | Inr a \<Rightarrow> Inr a)"

record file_session =
  fs_session_id :: string
  fs_state :: string
  fs_claim_enforcement :: bool

record file_document =
  fd_sessions :: "file_session list"
  fd_claim_set_generation :: int
  fd_file_operations :: "json option"

text \<open>\<open>fileOperationStateFromRuntimeRecords\<close> and \<open>runtimeRecordsWithFileOperations\<close>\<close>

definition load_receipts :: "file_env \<Rightarrow> file_document \<Rightarrow> file_execution_error + file_registry" where
  "load_receipts E doc =
     (case fd_file_operations doc of
        None \<Rightarrow> Inr create_file_operation_registry
      | Some v \<Rightarrow>
          receipt_error (parse_file_operation_registry E
            (JObj [(''schema_version'', JNum 1), (''file_operations'', v)])))"

definition store_receipts ::
  "file_env \<Rightarrow> file_document \<Rightarrow> file_registry \<Rightarrow> file_execution_error + file_document" where
  "store_receipts E doc receipts =
     bind_sum (receipt_error (serialize_file_operation_registry E receipts)) (\<lambda>v.
     Inr (doc\<lparr>fd_file_operations := Some (jget v ''file_operations'')\<rparr>))"

text \<open>The fields of \<open>WorktreeFileOperation\<close> that reach the receipt; the payload is given by its sha256.\<close>

record worktree_operation =
  wo_operation_id :: string
  wo_session_id :: string
  wo_operation :: file_operation_kind
  wo_path :: string
  wo_to_path :: "string option"
  wo_expected_identity :: "json option"
  wo_expected_digest :: "string option"
  wo_payload_digest :: "string option"
  wo_requested_generation :: int

definition file_operation_request :: "worktree_operation \<Rightarrow> json \<Rightarrow> file_request" where
  "file_operation_request op authority_token =
     \<lparr>fq_operation_id = JStr (wo_operation_id op), fq_session_id = JStr (wo_session_id op),
      fq_operation = JStr (kind_string (wo_operation op)),
      fq_source = (if wo_operation op = FileCreate then JNull else JStr (wo_path op)),
      fq_destination =
        (case wo_operation op of
           FileCreate \<Rightarrow> JStr (wo_path op)
         | FileRename \<Rightarrow> json_of_option (wo_to_path op)
         | FileDelete \<Rightarrow> JNull),
      fq_expected_identity =
        (case wo_expected_identity op of
           Some v \<Rightarrow> v
         | None \<Rightarrow> (case wo_expected_digest op of None \<Rightarrow> JNull | Some d \<Rightarrow> JObj [(''digest'', JStr d)])),
      fq_payload_digest = (if wo_operation op = FileCreate then json_of_option (wo_payload_digest op) else JNull),
      fq_authority_token = authority_token, fq_fence_epoch = JNum (wo_requested_generation op)\<rparr>"

record reservation_inputs =
  ri_authority :: "file_execution_error option"
  ri_conflict :: bool
  ri_token :: "file_execution_error + string"
  ri_reserved_at :: string
  ri_applied_at :: string

record reservation_context =
  rx_record :: file_operation
  rx_token :: "string option"
  rx_replay :: bool
  rx_require_claim :: bool

definition id_conflict :: file_execution_error where
  "id_conflict = RegistryFailure ''FILE_OPERATION_ID_CONFLICT''"

definition same_request :: "file_env \<Rightarrow> worktree_operation \<Rightarrow> file_operation \<Rightarrow> file_execution_error + unit" where
  "same_request E op existing =
     bind_sum (receipt_error (file_operation_request_digest E (file_operation_request op (fo_authority_token existing))))
       (\<lambda>digest. require (JStr digest = fo_request_digest existing) id_conflict)"

text \<open>The part of \<open>reserveFileOperationUnsafe\<close> for a new or only prepared receipt\<close>

definition reserve_and_apply ::
  "file_env \<Rightarrow> worktree_operation \<Rightarrow> reservation_inputs \<Rightarrow> file_document \<Rightarrow> bool \<Rightarrow> file_registry \<Rightarrow>
   file_operation option \<Rightarrow> file_execution_error + (file_document \<times> reservation_context)" where
  "reserve_and_apply E op ri doc require_claim receipts existing =
     bind_sum (require (wo_requested_generation op = fd_claim_set_generation doc) (RegistryFailure ''STALE_CLAIM_SET''))
       (\<lambda>_.
     bind_sum (case ri_authority ri of None \<Rightarrow> Inr () | Some e \<Rightarrow> Inl e) (\<lambda>_.
     bind_sum (require (\<not> ri_conflict ri) (RegistryFailure ''RESOURCE_CLAIM_CONFLICT'')) (\<lambda>_.
     bind_sum (ri_token ri) (\<lambda>token.
     bind_sum (case existing of None \<Rightarrow> Inr () | Some r \<Rightarrow> same_request E op r) (\<lambda>_.
     let request = file_operation_request op
           (case existing of None \<Rightarrow> JStr token | Some r \<Rightarrow> fo_authority_token r) in
     bind_sum (receipt_error (reserve_file_operation E receipts request (ri_reserved_at ri))) (\<lambda>reserved.
     bind_sum (receipt_error (record_apply_attempt E (fst reserved) (fq_operation_id request)
                 (fq_authority_token request) (ri_applied_at ri))) (\<lambda>applied.
     bind_sum (store_receipts E doc (fst applied)) (\<lambda>doc'.
     Inr (doc', \<lparr>rx_record = snd applied, rx_token = Some token, rx_replay = False,
                 rx_require_claim = require_claim\<rparr>)))))))))"

text \<open>\<open>reserveFileOperationUnsafe\<close>; the document is unchanged when the operation is a replay.\<close>

definition reserve_file_operation_unsafe ::
  "file_env \<Rightarrow> worktree_operation \<Rightarrow> reservation_inputs \<Rightarrow> file_document \<Rightarrow>
   file_execution_error + (file_document \<times> reservation_context)" where
  "reserve_file_operation_unsafe E op ri doc =
     (case find (\<lambda>s. fs_session_id s = wo_session_id op) (fd_sessions doc) of
        None \<Rightarrow> Inl (RegistryFailure ''SESSION_NOT_FOUND'')
      | Some session \<Rightarrow>
          if fs_state session \<noteq> ''active'' then Inl (RegistryFailure ''SESSION_NOT_ACTIVE'')
          else
            bind_sum (load_receipts E doc) (\<lambda>receipts.
            let existing = find_operation (JStr (wo_operation_id op)) (fr_operations receipts) in
            case existing of
              Some r \<Rightarrow>
                if fo_stage r \<noteq> JStr ''prepared''
                then bind_sum (same_request E op r) (\<lambda>_.
                     Inr (doc, \<lparr>rx_record = r, rx_token = None, rx_replay = True,
                                rx_require_claim = fs_claim_enforcement session\<rparr>))
                else reserve_and_apply E op ri doc (fs_claim_enforcement session) receipts existing
            | None \<Rightarrow> reserve_and_apply E op ri doc (fs_claim_enforcement session) receipts existing))"


text \<open>\<open>finalizeFileOperation\<close> and \<open>finalizeFileOperationUnresolved\<close>; \<open>policy_current\<close> is what the comparison of the
  tokens answered, false also when the policy could not be rebuilt.\<close>

definition authority_current :: "file_document \<Rightarrow> worktree_operation \<Rightarrow> bool \<Rightarrow> bool \<Rightarrow> bool" where
  "authority_current doc op require_claim policy_current \<longleftrightarrow>
     (case find (\<lambda>s. fs_session_id s = wo_session_id op) (fd_sessions doc) of
        None \<Rightarrow> False
      | Some session \<Rightarrow> fs_claim_enforcement session = require_claim \<and> policy_current)"

definition reconcile_and_store ::
  "file_env \<Rightarrow> string \<Rightarrow> (file_operation \<Rightarrow> file_observation) \<Rightarrow> bool \<Rightarrow> string \<Rightarrow> file_document \<Rightarrow>
   file_execution_error + (file_document \<times> file_reconciliation)" where
  "reconcile_and_store E operation_id observe current now doc =
     bind_sum (load_receipts E doc) (\<lambda>receipts.
     case find_operation (JStr operation_id) (fr_operations receipts) of
       None \<Rightarrow> Inl (RegistryFailure ''REGISTRY_CORRUPT'')
     | Some r \<Rightarrow>
         bind_sum (receipt_error (reconcile_with_authority E r (observe r) current now)) (\<lambda>n.
         if fn_record n = r then Inr (doc, n)
         else
           (case replace_first (fn_record n) (fr_operations receipts) of
              None \<Rightarrow> Inl (RegistryFailure ''REGISTRY_CORRUPT'')
            | Some rs \<Rightarrow>
                bind_sum (store_receipts E doc (receipts\<lparr>fr_operations := rs\<rparr>)) (\<lambda>doc'. Inr (doc', n)))))"

definition finalize_file_operation ::
  "file_env \<Rightarrow> worktree_operation \<Rightarrow> bool \<Rightarrow> bool \<Rightarrow> file_observation \<Rightarrow> string \<Rightarrow> file_document \<Rightarrow>
   file_execution_error + (file_document \<times> file_reconciliation)" where
  "finalize_file_operation E op require_claim policy_current ob now doc =
     reconcile_and_store E (wo_operation_id op) (\<lambda>_. ob) (authority_current doc op require_claim policy_current) now doc"

definition nothing_observed :: "file_operation \<Rightarrow> file_observation" where
  "nothing_observed r =
     \<lparr>fb_operation_id = JUndefined, fb_authority_token = fo_authority_token r, fb_fence_epoch = fo_fence_epoch r,
      fb_source = None, fb_destination = None, fb_effect_observed = JBool False,
      fb_execution_completed = JBool False\<rparr>"

definition finalize_file_operation_unresolved ::
  "file_env \<Rightarrow> string \<Rightarrow> string \<Rightarrow> file_document \<Rightarrow> file_execution_error + file_document" where
  "finalize_file_operation_unresolved E operation_id now doc =
     bind_sum (reconcile_and_store E operation_id nothing_observed True now doc) (\<lambda>x. Inr (fst x))"

section \<open>What is observed\<close>

text \<open>\<open>observeFileOperationObservation\<close>: the facts read from disk, \<open>None\<close> where reading them threw, are combined
  with a fact about the time before that is not read but taken from the receipt.\<close>

definition unresolved_observation :: "file_operation \<Rightarrow> file_observation" where
  "unresolved_observation r =
     \<lparr>fb_operation_id = fo_operation_id r, fb_authority_token = fo_authority_token r, fb_fence_epoch = fo_fence_epoch r,
      fb_source = None, fb_destination = None, fb_effect_observed = JBool False,
      fb_execution_completed = JBool False\<rparr>"

definition observe_file_operation ::
  "file_operation \<Rightarrow> worktree_operation \<Rightarrow> path_fact option \<Rightarrow> path_fact option \<Rightarrow> json \<Rightarrow> bool \<Rightarrow> file_observation" where
  "observe_file_operation r op source_after destination_after result_identity completed =
     (if wo_operation op \<noteq> FileCreate \<and> source_after = None \<or> wo_operation op \<noteq> FileDelete \<and> destination_after = None
      then unresolved_observation r
      else
        \<lparr>fb_operation_id = fo_operation_id r, fb_authority_token = fo_authority_token r,
         fb_fence_epoch = fo_fence_epoch r,
         fb_source =
           (if wo_operation op = FileCreate then None
            else map_option (\<lambda>f. path_fact.extend f
              \<lparr>po_before = Some (Some \<lparr>pf_present = True,
                 pf_identity = (if fo_expected_identity r = JNull then JUndefined else fo_expected_identity r),
                 pf_payload_digest = JUndefined\<rparr>)\<rparr>) source_after),
         fb_destination =
           (if wo_operation op = FileDelete then None
            else map_option (\<lambda>f.
              \<lparr>pf_present = pf_present f,
               pf_identity = (if pf_present f \<and> result_identity \<noteq> JUndefined then result_identity else JUndefined),
               pf_payload_digest = pf_payload_digest f,
               po_before = Some (Some \<lparr>pf_present = False, pf_identity = JUndefined, pf_payload_digest = JUndefined\<rparr>)\<rparr>)
              destination_after),
         fb_effect_observed = JBool True, fb_execution_completed = JBool completed\<rparr>)"

section \<open>Interleaved executions\<close>

datatype file_outcome = FileReplayed | FileApplied | FileUncertain

datatype file_execution =
    NotRunning
  | BeforeIo worktree_operation reservation_context
  | AfterIo worktree_operation reservation_context bool file_observation
  | Finished file_outcome

datatype file_log_entry = PhysicalIo string | Evicted json

record file_system_state =
  fx_document :: file_document
  fx_executions :: "nat \<Rightarrow> file_execution"
  fx_log :: "file_log_entry list"

definition receipts_of :: "file_env \<Rightarrow> file_document \<Rightarrow> file_operation list" where
  "receipts_of E doc = (case load_receipts E doc of Inl _ \<Rightarrow> [] | Inr receipts \<Rightarrow> fr_operations receipts)"

definition evicted :: "file_env \<Rightarrow> file_document \<Rightarrow> file_document \<Rightarrow> file_log_entry list" where
  "evicted E doc doc' =
     map (\<lambda>r. Evicted (fo_operation_id r))
       (filter (\<lambda>r. fo_operation_id r \<notin> set (map fo_operation_id (receipts_of E doc'))) (receipts_of E doc))"

datatype file_event =
    Reserve nat worktree_operation reservation_inputs
  | Abandon nat string
  | Perform nat bool file_observation
  | Finalize nat bool string
  | Lose nat
  | Others "file_session list" int

definition set_execution :: "nat \<Rightarrow> file_execution \<Rightarrow> file_system_state \<Rightarrow> file_system_state" where
  "set_execution p x s = s\<lparr>fx_executions := (fx_executions s)(p := x)\<rparr>"

text \<open>
  One event of the execution \<open>p\<close> of executeFileOperation. \<open>Reserve\<close> is the first transaction.
  \<open>Abandon\<close> is the path on which the authority or the preparation failed before the physical
  operation, \<open>Perform\<close> the physical operation with the observation made after it (\<open>ok\<close> is whether it
  succeeded), \<open>Finalize\<close> the last transaction. \<open>Lose\<close> is the death of the process, \<open>Others\<close> a transaction
  of another command, which leaves the receipts alone. A transaction
  that throws leaves the document alone and ends the execution.
\<close>

definition file_step :: "file_env \<Rightarrow> file_event \<Rightarrow> file_system_state \<Rightarrow> file_system_state" where
  "file_step E event s =
     (case event of
        Reserve p op ri \<Rightarrow>
          (case fx_executions s p of
             NotRunning \<Rightarrow>
               (case reserve_file_operation_unsafe E op ri (fx_document s) of
                  Inl _ \<Rightarrow> s
                | Inr (doc, rx) \<Rightarrow>
                    (s\<lparr>fx_document := doc,
                       fx_log := fx_log s @ evicted E (fx_document s) doc,
                       fx_executions := (fx_executions s)
                         (p := if rx_replay rx
                               then Finished (if fo_stage (rx_record rx) = JStr ''completed'' then FileReplayed
                                              else FileUncertain)
                               else BeforeIo op rx)\<rparr>))
           | _ \<Rightarrow> s)
      | Abandon p now \<Rightarrow>
          (case fx_executions s p of
             BeforeIo op rx \<Rightarrow>
               set_execution p (Finished FileUncertain)
                 (case finalize_file_operation_unresolved E (wo_operation_id op) now (fx_document s) of
                    Inl _ \<Rightarrow> s | Inr doc \<Rightarrow> s\<lparr>fx_document := doc\<rparr>)
           | _ \<Rightarrow> s)
      | Perform p ok ob \<Rightarrow>
          (case fx_executions s p of
             BeforeIo op rx \<Rightarrow>
               set_execution p (AfterIo op rx ok ob) (s\<lparr>fx_log := fx_log s @ [PhysicalIo (wo_operation_id op)]\<rparr>)
           | _ \<Rightarrow> s)
      | Finalize p policy_current now \<Rightarrow>
          (case fx_executions s p of
             AfterIo op rx ok ob \<Rightarrow>
               (case finalize_file_operation E op (rx_require_claim rx) policy_current ob now (fx_document s) of
                  Inl _ \<Rightarrow> set_execution p (Finished FileUncertain) s
                | Inr (doc, n) \<Rightarrow>
                    set_execution p
                      (Finished (if ok \<and> fn_disposition n = JStr ''completed'' then FileApplied else FileUncertain))
                      (s\<lparr>fx_document := doc\<rparr>))
           | _ \<Rightarrow> s)
      | Lose p \<Rightarrow> set_execution p NotRunning s
      | Others sessions generation \<Rightarrow>
          s\<lparr>fx_document := (fx_document s)\<lparr>fd_sessions := sessions, fd_claim_set_generation := generation\<rparr>\<rparr>)"


section \<open>One transaction\<close>

lemma receipt_error_Inr [simp]: "receipt_error m = Inr a \<longleftrightarrow> m = Inr a"
  by (simp add: receipt_error_def split: sum.splits)

lemma receipt_error_simps [simp]: "receipt_error (Inr a) = Inr a" "receipt_error (Inl e) = Inl (ReceiptFailure e)"
  by (simp_all add: receipt_error_def)

lemma load_receipts_valid: "load_receipts E doc = Inr receipts \<Longrightarrow> assert_state E receipts = Inr ()"
  using parse_registry_valid demo_empty_ok by (auto simp: load_receipts_def split: option.splits)

lemma store_then_load:
  assumes "assert_state E receipts = Inr ()" "store_receipts E doc receipts = Inr doc'"
  shows "load_receipts E doc' = Inr (receipts\<lparr>fr_schema_version := JNum 1\<rparr>)" "receipts_of E doc' = fr_operations receipts"
    "fd_sessions doc' = fd_sessions doc"
proof -
  obtain v where v: "serialize_file_operation_registry E receipts = Inr v"
    "v = JObj [(''schema_version'', JNum 1), (''file_operations'', jget v ''file_operations'')]"
    "parse_file_operation_registry E v = Inr (receipts\<lparr>fr_schema_version := JNum FILE_OPERATION_REGISTRY_SCHEMA_VERSION\<rparr>)"
    using assms(1) by (rule registry_roundtrip)
  have doc': "doc' = doc\<lparr>fd_file_operations := Some (jget v ''file_operations'')\<rparr>"
    using assms(2) v(1) by (simp add: store_receipts_def receipt_error_def)
  show load: "load_receipts E doc' = Inr (receipts\<lparr>fr_schema_version := JNum 1\<rparr>)"
    using v(3) by (simp add: load_receipts_def doc' v(2) [symmetric] FILE_OPERATION_REGISTRY_SCHEMA_VERSION_def)
  then show "receipts_of E doc' = fr_operations receipts" by (simp add: receipts_of_def)
  show "fd_sessions doc' = fd_sessions doc" by (simp add: doc')
qed

text \<open>The effect of a transaction on the receipts: the one of the operation is set to \<open>r\<close>, of the others at most
  completed ones of a full registry are dropped.\<close>

definition receipt_set :: "file_operation list \<Rightarrow> file_operation \<Rightarrow> file_operation list \<Rightarrow> bool" where
  "receipt_set before r after \<longleftrightarrow>
     r \<in> set after \<and> (\<forall>x\<in>set after. fo_operation_id x = fo_operation_id r \<longrightarrow> x = r) \<and>
     (\<forall>x\<in>set after. x = r \<or> x \<in> set before) \<and>
     (\<forall>x\<in>set before. fo_operation_id x \<noteq> fo_operation_id r \<longrightarrow>
        x \<in> set after \<or> fo_stage x = JStr ''completed'' \<and> MAX_FILE_OPERATION_RECORDS \<le> length before)"

lemma reserved_receipt:
  assumes "file_env_documented E" "assert_state E receipts = Inr ()"
    and "reserve_file_operation E receipts q now = Inr (receipts1, r1)"
    and "fq_operation_id q = JStr i" "fe_nfc E i = i"
    and "\<forall>x\<in>set (fr_operations receipts). fo_operation_id x = JStr i \<longrightarrow> fo_stage x = JStr ''prepared''"
  shows "assert_state E receipts1 = Inr () \<and> receipt_set (fr_operations receipts) r1 (fr_operations receipts1) \<and>
    fo_operation_id r1 = JStr i \<and> fo_stage r1 = JStr ''prepared'' \<and>
    (r1 \<in> set (fr_operations receipts) \<or> JStr i \<notin> fo_operation_id ` set (fr_operations receipts))"
proof -
  have n: "nf_operation_id n = i" if "normalize_file_request E q = Inr n" for n
    using that assms(4,5) by (auto simp: normalize_file_request_Inr normalize_text_Inr)
  have distinct: "x = y" if "x \<in> set (fr_operations receipts)" "y \<in> set (fr_operations receipts)"
    "fo_operation_id x = fo_operation_id y" for x y
    using that assms(2) by (auto simp: assert_state_Inr distinct_map inj_on_def)
  from assms(3) show ?thesis
  proof (cases rule: reserve_file_operation_Inr)
    case (replay n d)
    then show ?thesis
      using n [OF replay(3)] assms(2,6) distinct by (auto simp: receipt_set_def)
  next
    case (fresh n rs)
    note valid = record_from_request_valid [OF assms(1) fresh(1,4)]
    have others: "\<forall>x\<in>set (fr_operations receipts). fo_operation_id x \<noteq> fo_operation_id r1"
      using fresh(2) valid(2) by (auto simp: image_iff)
    have kept: "set rs \<subseteq> set (fr_operations receipts)" "\<forall>x\<in>set (fr_operations receipts).
        x \<in> set rs \<or> fo_stage x = JStr ''completed'' \<and> MAX_FILE_OPERATION_RECORDS \<le> length (fr_operations receipts)"
      using compact_completed_history_Inr [OF fresh(3)] by auto
    have "receipt_set (fr_operations receipts) r1 (fr_operations receipts1)"
      using others kept fresh(5) by (fastforce simp: receipt_set_def)
    then show ?thesis
      using reserve_valid [OF assms(1,2,3)] valid(2,3) n [OF fresh(1)] fresh(2) by auto
  qed
qed


lemma replaced_receipt:
  assumes "distinct (map fo_operation_id rs)" "replace_first r rs = Some rs'"
  shows "receipt_set rs r rs'"
  using replace_first_set [OF assms(2,1)] by (auto simp: receipt_set_def)

lemma receipt_set_replace:
  assumes "receipt_set a r b" "replace_first r' b = Some c" "distinct (map fo_operation_id b)"
    and "fo_operation_id r' = fo_operation_id r"
  shows "receipt_set a r' c"
  using assms(1,4) replace_first_set [OF assms(2,3)] by (auto simp: receipt_set_def)

lemma file_operation_request_id [simp]: "fq_operation_id (file_operation_request op t) = JStr (wo_operation_id op)"
  by (simp add: file_operation_request_def)

text \<open>The receipt after a transaction of its own execution\<close>

lemma reserve_and_apply_Inr:
  assumes "file_env_documented E" "load_receipts E doc = Inr receipts" "fe_nfc E (wo_operation_id op) = wo_operation_id op"
    and "reserve_and_apply E op ri doc require_claim receipts existing = Inr (doc', rx)"
    and "\<forall>x\<in>set (fr_operations receipts). fo_operation_id x = JStr (wo_operation_id op) \<longrightarrow> fo_stage x = JStr ''prepared''"
  shows "\<not> rx_replay rx \<and> is_ok (load_receipts E doc') \<and>
    receipt_set (fr_operations receipts) (rx_record rx) (receipts_of E doc') \<and>
    fo_operation_id (rx_record rx) = JStr (wo_operation_id op) \<and> fo_stage (rx_record rx) = JStr ''apply-recorded''"
proof -
  let ?id = "wo_operation_id op"
  obtain q receipts1 r1 receipts2 r2 where q: "fq_operation_id q = JStr ?id"
    and r1: "reserve_file_operation E receipts q (ri_reserved_at ri) = Inr (receipts1, r1)"
    and r2: "record_apply_attempt E receipts1 (JStr ?id) (fq_authority_token q) (ri_applied_at ri) = Inr (receipts2, r2)"
    and store: "store_receipts E doc receipts2 = Inr doc'"
    and rx: "\<not> rx_replay rx" "rx_record rx = r2"
    using assms(4)
    by (auto simp: reserve_and_apply_def bind_sum_eq_Inr Let_def) (blast intro: file_operation_request_id)
  note reserved = reserved_receipt [OF assms(1) load_receipts_valid [OF assms(2)] r1 q assms(3,5)]
  from r2 show ?thesis
  proof (cases rule: record_apply_attempt_Inr)
    case (repeated i)
    then have "r2 = r1"
      using reserved assms(3) by (auto simp: receipt_set_def normalize_text_Inr)
    with repeated(3) reserved show ?thesis by simp
  next
    case (granted r i rs)
    have r: "r = r1" using granted(1-3) reserved assms(3) by (auto simp: receipt_set_def normalize_text_Inr)
    have valid: "assert_state E receipts2 = Inr ()" using apply_attempt_valid [OF _ r2] reserved by blast
    have "receipt_set (fr_operations receipts) r2 (fr_operations receipts2)"
      using receipt_set_replace [OF _ granted(8)] reserved granted(6,9) r by (auto simp: assert_state_Inr)
    then show ?thesis
      using store_then_load [OF valid store] rx granted(6) r reserved by simp
  qed
qed


text \<open>Reserving in a readable document: a replay changes nothing and answers with the receipt as it is; otherwise
  the receipt is new or only prepared and leaves the transaction marked.\<close>

lemma reserve_unsafe_Inr:
  assumes "file_env_documented E" "load_receipts E doc = Inr receipts" "fe_nfc E (wo_operation_id op) = wo_operation_id op"
    and "reserve_file_operation_unsafe E op ri doc = Inr (doc', rx)"
  shows "rx_replay rx \<and> doc' = doc \<and> rx_record rx \<in> set (fr_operations receipts) \<and>
      fo_stage (rx_record rx) \<noteq> JStr ''prepared'' \<or>
    \<not> rx_replay rx \<and> is_ok (load_receipts E doc') \<and>
      receipt_set (fr_operations receipts) (rx_record rx) (receipts_of E doc') \<and>
      fo_operation_id (rx_record rx) = JStr (wo_operation_id op) \<and>
      fo_stage (rx_record rx) = JStr ''apply-recorded'' \<and>
      (\<forall>x\<in>set (fr_operations receipts). fo_operation_id x = JStr (wo_operation_id op) \<longrightarrow> fo_stage x = JStr ''prepared'')"
proof -
  let ?found = "find_operation (JStr (wo_operation_id op)) (fr_operations receipts)"
  have unique: "x = r" if "?found = Some r" "x \<in> set (fr_operations receipts)"
    "fo_operation_id x = JStr (wo_operation_id op)" for x r
    using that find_operation_Some [OF that(1)] load_receipts_valid [OF assms(2)]
    by (auto simp: assert_state_Inr distinct_map inj_on_def)
  obtain session where session: "find (\<lambda>s. fs_session_id s = wo_session_id op) (fd_sessions doc) = Some session"
    "fs_state session = ''active''"
    using assms(4) by (auto simp: reserve_file_operation_unsafe_def split: option.splits if_splits)
  show ?thesis
  proof (cases "\<exists>r. ?found = Some r \<and> fo_stage r \<noteq> JStr ''prepared''")
    case True
    then obtain r where "?found = Some r" "fo_stage r \<noteq> JStr ''prepared''" by blast
    then show ?thesis
      using assms(2,4) session find_operation_Some
      by (auto simp: reserve_file_operation_unsafe_def bind_sum_eq_Inr)
  next
    case False
    then have "reserve_and_apply E op ri doc (fs_claim_enforcement session) receipts ?found = Inr (doc', rx)"
      using assms(2,4) session
      by (auto simp: reserve_file_operation_unsafe_def Let_def split: option.splits)
    moreover have "\<forall>x\<in>set (fr_operations receipts). fo_operation_id x = JStr (wo_operation_id op) \<longrightarrow> fo_stage x = JStr ''prepared''"
      using False unique by (cases ?found) (auto simp: find_operation_None image_iff)
    ultimately show ?thesis
      using reserve_and_apply_Inr [OF assms(1-3)] by blast
  qed
qed

lemma reconcile_and_store_Inr:
  assumes "load_receipts E doc = Inr receipts" "reconcile_and_store E i observe current now doc = Inr (doc', n)"
  obtains r where "r \<in> set (fr_operations receipts)" "fo_operation_id r = JStr i"
    "reconcile_with_authority E r (observe r) current now = Inr n" "is_ok (load_receipts E doc')"
    "receipt_set (fr_operations receipts) (fn_record n) (receipts_of E doc')" "fd_sessions doc' = fd_sessions doc"
    "\<forall>x\<in>set (fr_operations receipts). fo_operation_id x \<noteq> JStr i \<longrightarrow> x \<in> set (receipts_of E doc')"
    "fo_operation_id (fn_record n) = JStr i"
proof -
  note valid = load_receipts_valid [OF assms(1)]
  obtain r where found: "find_operation (JStr i) (fr_operations receipts) = Some r"
    using assms by (auto simp: reconcile_and_store_def split: option.splits)
  note r = find_operation_Some [OF found]
  have n: "reconcile_with_authority E r (observe r) current now = Inr n"
    using assms found by (auto simp: reconcile_and_store_def bind_sum_eq_Inr split: if_splits option.splits)
  have rec: "assert_record E (fn_record n) = Inr ()" "fo_operation_id (fn_record n) = JStr i"
    using reconcile_valid [OF _ n] r valid by (auto simp: assert_state_Inr)
  have distinct: "distinct (map fo_operation_id (fr_operations receipts))" using valid by (simp add: assert_state_Inr)
  show thesis
  proof (cases "fn_record n = r")
    case True
    then have "doc' = doc"
      using assms found n by (simp add: reconcile_and_store_def)
    then show thesis
      using that [OF _ _ n] r assms(1) True distinct
      by (auto simp: receipts_of_def receipt_set_def distinct_map inj_on_def)
  next
    case False
    obtain rs where rs: "replace_first (fn_record n) (fr_operations receipts) = Some rs"
      using replace_first_member [of "fn_record n" "fr_operations receipts"] r rec(2) by force
    have store: "store_receipts E doc (receipts\<lparr>fr_operations := rs\<rparr>) = Inr doc'"
      using assms found n False rs by (auto simp: reconcile_and_store_def bind_sum_eq_Inr)
    note stored = store_then_load [OF replace_valid [OF valid rs rec(1)] store]
    show thesis
      using that [of r, OF _ _ n] r rec(2) stored replaced_receipt [OF distinct rs] replace_first_set [OF rs distinct]
      by auto
  qed
qed


section \<open>Reachable states\<close>

text \<open>Operations come from a validator that normalizes their id (\<open>boundedText\<close> of worktree-file-operation.ts).\<close>

definition event_normalized :: "file_env \<Rightarrow> file_event \<Rightarrow> bool" where
  "event_normalized E event \<longleftrightarrow>
     (case event of Reserve p op ri \<Rightarrow> fe_nfc E (wo_operation_id op) = wo_operation_id op | _ \<Rightarrow> True)"

definition fresh_system :: "file_document \<Rightarrow> file_system_state" where
  "fresh_system doc = \<lparr>fx_document = doc, fx_executions = (\<lambda>_. NotRunning), fx_log = []\<rparr>"

inductive file_reachable :: "file_env \<Rightarrow> file_system_state \<Rightarrow> bool" for E where
  file_start: "is_ok (load_receipts E doc) \<Longrightarrow> file_reachable E (fresh_system doc)"
| file_event: "file_reachable E s \<Longrightarrow> event_normalized E event \<Longrightarrow> file_reachable E (file_step E event s)"

fun active_operation :: "file_execution \<Rightarrow> string option" where
  "active_operation (BeforeIo op rx) = Some (wo_operation_id op)"
| "active_operation (AfterIo op rx ok ob) = Some (wo_operation_id op)"
| "active_operation _ = None"

fun may_perform :: "file_execution \<Rightarrow> string option" where
  "may_perform (BeforeIo op rx) = Some (wo_operation_id op)"
| "may_perform _ = None"

text \<open>Physical I/O for the id happened since its receipt was last evicted.\<close>

definition performed :: "string \<Rightarrow> file_log_entry list \<Rightarrow> bool" where
  "performed i log = foldl (\<lambda>b e. e = PhysicalIo i \<or> b \<and> e \<noteq> Evicted (JStr i)) False log"

lemma performed_simps [simp]:
  "performed i [] = False"
  "performed i (log @ [e]) = (e = PhysicalIo i \<or> performed i log \<and> e \<noteq> Evicted (JStr i))"
  by (simp_all add: performed_def)

lemma performed_evictions: "performed i (log @ map (\<lambda>r. Evicted (f r)) rs) \<longleftrightarrow> performed i log \<and> JStr i \<notin> f ` set rs"
proof (induction rs rule: rev_induct)
  case (snoc r rs)
  then show ?case
    using performed_simps(2) [of i "log @ map (\<lambda>r. Evicted (f r)) rs" "Evicted (f r)"] by auto
qed simp

definition performed_once :: "file_log_entry list \<Rightarrow> bool" where
  "performed_once log \<longleftrightarrow> (\<forall>xs i ys. log = xs @ PhysicalIo i # ys \<longrightarrow> \<not> performed i xs)"

lemma performed_once_snoc: "performed_once (log @ [e]) \<longleftrightarrow> performed_once log \<and> (\<forall>i. e = PhysicalIo i \<longrightarrow> \<not> performed i log)"
proof -
  have "log @ [e] = xs @ PhysicalIo i # ys \<longleftrightarrow>
      (ys = [] \<and> xs = log \<and> e = PhysicalIo i) \<or> (\<exists>zs. ys = zs @ [e] \<and> log = xs @ PhysicalIo i # zs)" for xs i ys
    by (cases ys rule: rev_cases) auto
  then show ?thesis unfolding performed_once_def by auto
qed

lemma performed_once_evictions: "performed_once (log @ map (\<lambda>r. Evicted (f r)) rs) \<longleftrightarrow> performed_once log"
proof (induction rs rule: rev_induct)
  case (snoc r rs)
  then show ?case
    using performed_once_snoc [of "log @ map (\<lambda>r. Evicted (f r)) rs" "Evicted (f r)"] by simp
qed simp

lemma performed_continues: "performed i xs \<Longrightarrow> Evicted (JStr i) \<notin> set ys \<Longrightarrow> performed i (xs @ ys)"
proof (induction ys rule: rev_induct)
  case (snoc y ys)
  then show ?case using performed_simps(2) [of i "xs @ ys" y] by auto
qed simp

text \<open>The receipt of every active execution is marked and its own; an id whose operation was performed has a receipt
  that is past the prepared stage.\<close>

definition marked :: "file_operation list \<Rightarrow> string \<Rightarrow> bool" where
  "marked rs i \<longleftrightarrow> (\<exists>r\<in>set rs. fo_operation_id r = JStr i \<and> fo_stage r = JStr ''apply-recorded'')"

definition past_prepared :: "file_operation list \<Rightarrow> string \<Rightarrow> bool" where
  "past_prepared rs i \<longleftrightarrow> (\<exists>r\<in>set rs. fo_operation_id r = JStr i \<and> fo_stage r \<noteq> JStr ''prepared'')"

definition executions_ok :: "file_operation list \<Rightarrow> (nat \<Rightarrow> file_execution) \<Rightarrow> file_log_entry list \<Rightarrow> bool" where
  "executions_ok rs executions log \<longleftrightarrow>
     (\<forall>p i. active_operation (executions p) = Some i \<longrightarrow> marked rs i) \<and>
     (\<forall>p q i. active_operation (executions p) = Some i \<longrightarrow> active_operation (executions q) = Some i \<longrightarrow> p = q) \<and>
     (\<forall>i. performed i log \<longrightarrow> past_prepared rs i) \<and>
     (\<forall>p i. may_perform (executions p) = Some i \<longrightarrow> \<not> performed i log) \<and> performed_once log"

definition file_invariant :: "file_env \<Rightarrow> file_system_state \<Rightarrow> bool" where
  "file_invariant E s \<longleftrightarrow>
     is_ok (load_receipts E (fx_document s)) \<and>
     executions_ok (receipts_of E (fx_document s)) (fx_executions s) (fx_log s)"

lemma may_perform_active: "may_perform x = Some i \<Longrightarrow> active_operation x = Some i"
  by (cases x) auto

lemma marked_kept:
  assumes "receipt_set rs r rs'" "marked rs i" "fo_operation_id r \<noteq> JStr i"
  shows "marked rs' i"
  using assms by (auto simp: receipt_set_def marked_def)

lemma past_prepared_kept:
  assumes "receipt_set rs r rs'" "past_prepared rs i" "fo_stage r \<noteq> JStr ''prepared''"
    and "JStr i \<in> fo_operation_id ` set rs'" "distinct (map fo_operation_id rs)"
  shows "past_prepared rs' i"
proof (cases "fo_operation_id r = JStr i")
  case True
  then show ?thesis using assms(1,3) by (auto simp: receipt_set_def past_prepared_def)
next
  case False
  obtain x where x: "x \<in> set rs" "fo_operation_id x = JStr i" "fo_stage x \<noteq> JStr ''prepared''"
    using assms(2) by (auto simp: past_prepared_def)
  obtain y where y: "y \<in> set rs'" "fo_operation_id y = JStr i" using assms(4) by auto
  then have "y \<in> set rs" using assms(1) False by (auto simp: receipt_set_def)
  then have "y = x" using x y assms(5) by (auto simp: distinct_map inj_on_def)
  then show ?thesis using x y by (auto simp: past_prepared_def)
qed

lemma executions_ok_end:
  assumes "executions_ok rs executions log"
  shows "executions_ok rs (executions(p := NotRunning)) log" "executions_ok rs (executions(p := Finished result)) log"
  using assms by (auto simp: executions_ok_def)

text \<open>An execution ends with a transaction on its own receipt.\<close>

lemma executions_ok_finalized:
  assumes "executions_ok rs executions log" "active_operation (executions p) = Some i"
    and "receipt_set rs r rs'" "fo_operation_id r = JStr i" "fo_stage r \<noteq> JStr ''prepared''"
    and "\<forall>x\<in>set rs. fo_operation_id x \<noteq> JStr i \<longrightarrow> x \<in> set rs'" "distinct (map fo_operation_id rs)"
  shows "executions_ok rs' (executions(p := Finished result)) log"
proof -
  have ids: "JStr j \<in> fo_operation_id ` set rs'" if past: "past_prepared rs j" for j
  proof (cases "j = i")
    case True
    have "r \<in> set rs'" using assms(3) by (simp add: receipt_set_def)
    then show ?thesis using assms(4) True by (metis image_eqI)
  next
    case False
    obtain x where "x \<in> set rs" "fo_operation_id x = JStr j" using past by (auto simp: past_prepared_def)
    then show ?thesis using assms(6) False by (metis image_eqI json.inject(3))
  qed
  have "marked rs' j" if other: "active_operation (executions q) = Some j" "q \<noteq> p" for q j
  proof -
    have "j \<noteq> i" "marked rs j" using other assms(1,2) by (auto simp: executions_ok_def)
    then show ?thesis using marked_kept [OF assms(3)] assms(4) by simp
  qed
  moreover have "past_prepared rs' j" if "performed j log" for j
    using that assms(1) past_prepared_kept [OF assms(3) _ assms(5) ids assms(7)] by (auto simp: executions_ok_def)
  ultimately show ?thesis using assms(1) by (auto simp: executions_ok_def)
qed


lemma receipts_distinct: "load_receipts E doc = Inr receipts \<Longrightarrow> distinct (map fo_operation_id (fr_operations receipts))"
  using load_receipts_valid by (auto simp: assert_state_Inr)

lemma executions_ok_reserved:
  assumes ok: "executions_ok rs executions log" and idle: "executions p = NotRunning"
    and set: "receipt_set rs r rs'" "fo_operation_id r = JStr (wo_operation_id op)" "fo_stage r = JStr ''apply-recorded''"
    and fresh: "\<forall>x\<in>set rs. fo_operation_id x = JStr (wo_operation_id op) \<longrightarrow> fo_stage x = JStr ''prepared''"
    and distinct: "distinct (map fo_operation_id rs)"
  shows "executions_ok rs' (executions(p := BeforeIo op rx))
    (log @ map (\<lambda>r. Evicted (fo_operation_id r)) (filter (\<lambda>r. fo_operation_id r \<notin> set (map fo_operation_id rs')) rs))"
proof -
  let ?i = "wo_operation_id op"
  let ?log = "log @ map (\<lambda>r. Evicted (fo_operation_id r)) (filter (\<lambda>r. fo_operation_id r \<notin> set (map fo_operation_id rs')) rs)"
  have not_past: "\<not> past_prepared rs ?i" "\<not> marked rs ?i"
    using fresh by (auto simp: past_prepared_def marked_def)
  have other: "j \<noteq> ?i" "marked rs j" if "active_operation (executions q) = Some j" for q j
    using that ok not_past(2) by (auto simp: executions_ok_def)
  have kept: "marked rs' j" if "active_operation (executions q) = Some j" for q j
    using marked_kept [OF set(1) other(2) [OF that]] other(1) [OF that] set(2) by auto
  have own: "marked rs' ?i" using set by (auto simp: receipt_set_def marked_def)
  have performed: "past_prepared rs' j" if "performed j ?log" for j
  proof -
    have "performed j log" and not_evicted: "JStr j \<notin> fo_operation_id ` set (filter (\<lambda>r. fo_operation_id r \<notin> set (map fo_operation_id rs')) rs)"
      using that by (simp_all add: performed_evictions)
    then have past: "past_prepared rs j" using ok by (simp add: executions_ok_def)
    then obtain x where "x \<in> set rs" "fo_operation_id x = JStr j" by (auto simp: past_prepared_def)
    then have "JStr j \<in> fo_operation_id ` set rs'"
      using not_evicted by (auto simp: image_iff) metis
    with past show ?thesis using past_prepared_kept [OF set(1) _ _ _ distinct] set(3) by simp
  qed
  have "\<not> performed j ?log" if "may_perform ((executions(p := BeforeIo op rx)) q) = Some j" for q j
    using that ok not_past(1) by (auto simp: executions_ok_def performed_evictions split: if_splits)
  moreover have "performed_once ?log" using ok by (simp add: executions_ok_def performed_once_evictions)
  moreover have "marked rs' j" if "active_operation ((executions(p := BeforeIo op rx)) q) = Some j" for q j
    using that kept own by (cases "q = p") auto
  moreover have "q = q'" if "active_operation ((executions(p := BeforeIo op rx)) q) = Some j"
    "active_operation ((executions(p := BeforeIo op rx)) q') = Some j" for q q' j
  proof (cases "q = p"; cases "q' = p")
    assume "q \<noteq> p" "q' \<noteq> p"
    then show ?thesis using that ok unfolding executions_ok_def by (metis fun_upd_other)
  qed (use that other(1) in auto)
  ultimately show ?thesis
    using performed unfolding executions_ok_def by blast
qed

lemma executions_ok_performed:
  assumes "executions_ok rs executions log" "executions p = BeforeIo op rx"
  shows "executions_ok rs (executions(p := AfterIo op rx ok ob)) (log @ [PhysicalIo (wo_operation_id op)])"
proof -
  let ?i = "wo_operation_id op"
  have active: "active_operation (executions p) = Some ?i" "may_perform (executions p) = Some ?i" using assms(2) by simp_all
  have i: "marked rs ?i" "\<not> performed ?i log"
    using assms(1) active by (auto simp: executions_ok_def)
  have same: "active_operation ((executions(p := AfterIo op rx ok ob)) q) = active_operation (executions q)" for q
    using active by auto
  have "\<not> performed j (log @ [PhysicalIo ?i])" if "may_perform ((executions(p := AfterIo op rx ok ob)) q) = Some j" for q j
  proof -
    have q: "q \<noteq> p" "may_perform (executions q) = Some j" using that by (auto split: if_splits)
    then have "j \<noteq> ?i" using assms(1) active(1) may_perform_active [OF q(2)] by (auto simp: executions_ok_def)
    then show ?thesis using q assms(1) by (auto simp: executions_ok_def)
  qed
  moreover have "past_prepared rs j" if "performed j (log @ [PhysicalIo ?i])" for j
    using that i(1) assms(1) by (auto simp: executions_ok_def past_prepared_def marked_def)
  ultimately show ?thesis
    using assms(1) i(2) unfolding executions_ok_def same performed_once_snoc by auto
qed


lemma reconciled_stage:
  "reconcile_with_authority E r ob current now = Inr n \<Longrightarrow> terminal_stage (fo_stage (fn_record n))"
  by (erule reconcile_Inr) (auto simp: terminal_stage_def)

lemma finalized_ok:
  assumes "file_invariant E s" "active_operation (fx_executions s p) = Some i"
    and "reconcile_and_store E i observe current now (fx_document s) = Inr (doc, n)"
  shows "file_invariant E (set_execution p (Finished result) (s\<lparr>fx_document := doc\<rparr>))"
proof -
  obtain receipts where load: "load_receipts E (fx_document s) = Inr receipts"
    using assms(1) by (auto simp: file_invariant_def is_ok_iff)
  have receipts: "receipts_of E (fx_document s) = fr_operations receipts" by (simp add: receipts_of_def load)
  obtain r where r: "reconcile_with_authority E r (observe r) current now = Inr n" "is_ok (load_receipts E doc)"
    "receipt_set (fr_operations receipts) (fn_record n) (receipts_of E doc)"
    "\<forall>x\<in>set (fr_operations receipts). fo_operation_id x \<noteq> JStr i \<longrightarrow> x \<in> set (receipts_of E doc)"
    "fo_operation_id (fn_record n) = JStr i"
    using reconcile_and_store_Inr [OF load assms(3)] by metis
  have "fo_stage (fn_record n) \<noteq> JStr ''prepared''"
    using reconciled_stage [OF r(1)] by (auto simp: terminal_stage_def)
  then show ?thesis
    using assms(1,2) r receipts_distinct [OF load]
      executions_ok_finalized [where rs = "fr_operations receipts" and executions = "fx_executions s"
        and log = "fx_log s" and p = p and i = i and r = "fn_record n" and rs' = "receipts_of E doc" and result = result]
    by (simp add: file_invariant_def set_execution_def receipts)
qed

lemma ended_ok:
  "file_invariant E s \<Longrightarrow> file_invariant E (set_execution p NotRunning s)"
  "file_invariant E s \<Longrightarrow> file_invariant E (set_execution p (Finished result) s)"
  using executions_ok_end by (simp_all add: file_invariant_def set_execution_def)

lemma reserved_ok:
  assumes "file_env_documented E" "file_invariant E s" "fx_executions s p = NotRunning"
    and "fe_nfc E (wo_operation_id op) = wo_operation_id op"
    and "reserve_file_operation_unsafe E op ri (fx_document s) = Inr (doc, rx)"
  shows "file_invariant E (s\<lparr>fx_document := doc, fx_log := fx_log s @ evicted E (fx_document s) doc,
      fx_executions := (fx_executions s)(p := if rx_replay rx
        then Finished (if fo_stage (rx_record rx) = JStr ''completed'' then FileReplayed else FileUncertain)
        else BeforeIo op rx)\<rparr>)"
proof -
  obtain receipts where load: "load_receipts E (fx_document s) = Inr receipts"
    using assms(2) by (auto simp: file_invariant_def is_ok_iff)
  have receipts: "receipts_of E (fx_document s) = fr_operations receipts" by (simp add: receipts_of_def load)
  show ?thesis
  proof (cases "rx_replay rx")
    case True
    then have "doc = fx_document s" using reserve_unsafe_Inr [OF assms(1) load assms(4,5)] by blast
    then show ?thesis
      using True assms(2) executions_ok_end by (simp add: file_invariant_def evicted_def)
  next
    case False
    then show ?thesis
      using reserve_unsafe_Inr [OF assms(1) load assms(4,5)] assms(2,3)
        executions_ok_reserved [of "fr_operations receipts" "fx_executions s" "fx_log s" p "rx_record rx" "receipts_of E doc" op rx]
        receipts_distinct [OF load]
      by (simp add: file_invariant_def receipts evicted_def)
  qed
qed

lemma file_step_ok:
  assumes "file_env_documented E" "file_invariant E s" "event_normalized E event"
  shows "file_invariant E (file_step E event s)"
proof (cases event)
  case (Reserve p op ri)
  show ?thesis
  proof (cases "fx_executions s p = NotRunning")
    case True
    then show ?thesis
      using Reserve assms reserved_ok [OF assms(1,2) True]
      by (auto simp: file_step_def event_normalized_def split: sum.split)
  next
    case False
    then show ?thesis using Reserve assms(2) by (simp add: file_step_def split: file_execution.split)
  qed
next
  case (Abandon p now)
  show ?thesis
  proof (cases "fx_executions s p")
    case (BeforeIo op rx)
    then have active: "active_operation (fx_executions s p) = Some (wo_operation_id op)" by simp
    show ?thesis
    proof (cases "finalize_file_operation_unresolved E (wo_operation_id op) now (fx_document s)")
      case (Inl e)
      then show ?thesis using Abandon BeforeIo ended_ok(2) [OF assms(2)] by (simp add: file_step_def)
    next
      case (Inr doc)
      then obtain n where "reconcile_and_store E (wo_operation_id op) nothing_observed True now (fx_document s) = Inr (doc, n)"
        by (auto simp: finalize_file_operation_unresolved_def bind_sum_eq_Inr)
      from finalized_ok [OF assms(2) active this] show ?thesis
        using Abandon BeforeIo Inr by (simp add: file_step_def)
    qed
  qed (use Abandon assms(2) in \<open>simp_all add: file_step_def\<close>)
next
  case (Perform p ok ob)
  show ?thesis
  proof (cases "fx_executions s p")
    case (BeforeIo op rx)
    with Perform assms(2) executions_ok_performed [where executions = "fx_executions s" and p = p and op = op and rx = rx]
    show ?thesis
      by (simp add: file_step_def file_invariant_def set_execution_def)
  qed (use Perform assms(2) in \<open>simp_all add: file_step_def\<close>)
next
  case (Finalize p policy_current now)
  show ?thesis
  proof (cases "fx_executions s p")
    case (AfterIo op rx ok ob)
    then have active: "active_operation (fx_executions s p) = Some (wo_operation_id op)" by simp
    show ?thesis
    proof (cases "finalize_file_operation E op (rx_require_claim rx) policy_current ob now (fx_document s)")
      case (Inl e)
      then show ?thesis using Finalize AfterIo ended_ok(2) [OF assms(2)] by (simp add: file_step_def)
    next
      case (Inr x)
      obtain doc n where x: "x = (doc, n)" by (cases x)
      from finalized_ok [OF assms(2) active Inr [unfolded x finalize_file_operation_def]] show ?thesis
        using Finalize AfterIo Inr x by (simp add: file_step_def)
    qed
  qed (use Finalize assms(2) in \<open>simp_all add: file_step_def\<close>)
next
  case (Lose p)
  then show ?thesis using ended_ok(1) [OF assms(2)] by (simp add: file_step_def)
next
  case (Others sessions generation)
  then show ?thesis using assms(2)
    by (simp add: file_step_def file_invariant_def load_receipts_def receipts_of_def)
qed

lemma file_reachable_ok:
  assumes "file_env_documented E" "file_reachable E s"
  shows "file_invariant E s"
  using assms(2)
proof (induction rule: file_reachable.induct)
  case (file_start doc)
  then show ?case
    by (simp add: file_invariant_def fresh_system_def executions_ok_def performed_once_def)
next
  case (file_event s event)
  then show ?case using file_step_ok [OF assms(1)] by blast
qed

text \<open>Reading a log from the left: no physical operation under \<open>i\<close> while one is outstanding, an eviction ends it.\<close>

fun performed_apart :: "string \<Rightarrow> bool \<Rightarrow> file_log_entry list \<Rightarrow> bool" where
  "performed_apart i outstanding [] \<longleftrightarrow> True"
| "performed_apart i outstanding (e # es) \<longleftrightarrow>
     (if e = PhysicalIo i then \<not> outstanding \<and> performed_apart i True es
      else if e = Evicted (JStr i) then performed_apart i False es
      else performed_apart i outstanding es)"

lemma performed_once_apart: "performed_once (xs @ ys) \<Longrightarrow> performed_apart i (performed i xs) ys"
proof (induction ys arbitrary: xs)
  case (Cons e ys)
  have "performed_apart i (performed i (xs @ [e])) ys" using Cons.IH [of "xs @ [e]"] Cons.prems by simp
  moreover have "e = PhysicalIo i \<Longrightarrow> \<not> performed i xs" using Cons.prems by (auto simp: performed_once_def)
  ultimately show ?case by auto
qed simp

text \<open>C11: A file operation is performed at most once per receipt: whatever executions of it are started, replayed,
  abandoned, lost or finalized in any interleaving, between two physical operations under the same operation id
  the receipt of the first one has been evicted by compaction.\<close>

theorem physical_io_at_most_once:
  assumes "file_env_documented E" "file_reachable E s"
  shows "performed_apart i False (fx_log s)"
  using file_reachable_ok [OF assms] performed_once_apart [of "[]" "fx_log s" i]
  by (simp add: file_invariant_def executions_ok_def)

text \<open>A run of one operation\<close>

definition demo_operation :: worktree_operation where
  "demo_operation = \<lparr>wo_operation_id = ''op1'', wo_session_id = ''s1'', wo_operation = FileCreate, wo_path = ''a.txt'',
     wo_to_path = None, wo_expected_identity = None, wo_expected_digest = None, wo_payload_digest = Some ''ff'',
     wo_requested_generation = 3\<rparr>"

definition demo_inputs :: reservation_inputs where
  "demo_inputs = \<lparr>ri_authority = None, ri_conflict = False, ri_token = Inr ''t1'', ri_reserved_at = demo_now,
     ri_applied_at = demo_now\<rparr>"

definition demo_document :: file_document where
  "demo_document = \<lparr>fd_sessions = [\<lparr>fs_session_id = ''s1'', fs_state = ''active'', fs_claim_enforcement = True\<rparr>],
     fd_claim_set_generation = 3, fd_file_operations = None\<rparr>"

lemma demo_attempt:
  "\<exists>receipts r. record_apply_attempt demo_env demo_reserved (JStr ''op1'') (JStr ''t1'') demo_now = Inr (receipts, r)"
proof -
  obtain r where r: "fr_operations demo_reserved = [r]" "record_from_request demo_env demo_normalized demo_now = Inr r"
    using demo_reserves by blast
  note valid = record_from_request_valid [OF demo_env_documented demo_normalizes r(2)]
  have id_kept: "normalize_text demo_env (JStr ''op1'') = Inr ''op1''"
    by (simp add: normalize_text_Inr demo_env_def NUL_def)
  have found: "find_operation (JStr ''op1'') [r] = Some r"
    using valid(2) by (simp add: find_operation_def demo_normalized_def)
  have token: "fo_authority_token r = JStr ''t1''" using valid(6) by (simp add: demo_normalized_def)
  then show ?thesis
    using demo_now_ok valid(3)
    by (auto simp: record_apply_attempt_def demo_state_ok id_kept found is_string_def terminal_stage_def updated_record_def
        replace_record_def r(1) is_ok_iff)
qed

lemma demo_begins:
  "\<exists>doc rx. reserve_file_operation_unsafe demo_env demo_operation demo_inputs demo_document = Inr (doc, rx) \<and>
     \<not> rx_replay rx"
proof -
  obtain r where reserve:
    "reserve_file_operation demo_env create_file_operation_registry demo_request demo_now = Inr (demo_reserved, r)"
    using demo_reserves by blast
  obtain receipts r2 where attempt:
    "record_apply_attempt demo_env demo_reserved (JStr ''op1'') (JStr ''t1'') demo_now = Inr (receipts, r2)"
    using demo_attempt by blast
  have "assert_state demo_env receipts = Inr ()" using apply_attempt_valid [OF demo_state_ok attempt] by blast
  then obtain v where "serialize_file_operation_registry demo_env receipts = Inr v" by (rule registry_roundtrip)
  moreover have "file_operation_request demo_operation (JStr ''t1'') = demo_request"
    by (simp add: file_operation_request_def demo_operation_def demo_request_def json_of_option_def)
  ultimately show ?thesis
    using reserve attempt
    by (simp add: reserve_file_operation_unsafe_def demo_document_def demo_operation_def load_receipts_def
        find_operation_def create_file_operation_registry_def reserve_and_apply_def demo_inputs_def store_receipts_def
        demo_request_def)
qed

definition demo_run :: file_system_state where
  "demo_run = fold (file_step demo_env)
     [Reserve 0 demo_operation demo_inputs, Perform 0 True demo_observation] (fresh_system demo_document)"

lemma demo_run_reachable: "file_reachable demo_env demo_run"
proof -
  have "file_reachable demo_env (fresh_system demo_document)"
    by (rule file_start) (simp add: load_receipts_def demo_document_def)
  then have "file_reachable demo_env (file_step demo_env (Reserve 0 demo_operation demo_inputs) (fresh_system demo_document))"
    by (rule file_event) (simp add: event_normalized_def demo_env_def)
  then show ?thesis
    unfolding demo_run_def fold_simps id_o comp_def
    by (simp add: file_event event_normalized_def)
qed

lemma demo_run_log: "fx_log demo_run = [PhysicalIo ''op1'']"
  using demo_begins
  by (auto simp: demo_run_def file_step_def fresh_system_def set_execution_def evicted_def receipts_of_def
      load_receipts_def demo_document_def create_file_operation_registry_def demo_operation_def)

theorem physical_io_at_most_once_witness:
  "performed_apart ''op1'' False (fx_log demo_run) \<and> fx_log demo_run = [PhysicalIo ''op1'']"
  using physical_io_at_most_once [OF demo_env_documented demo_run_reachable] demo_run_log by blast

definition stage_follows :: "json \<Rightarrow> json \<Rightarrow> bool" where
  "stage_follows later earlier \<longleftrightarrow>
     earlier = JStr ''prepared'' \<and> later = JStr ''apply-recorded'' \<or>
     earlier = JStr ''apply-recorded'' \<and> terminal_stage later"

definition receipt_survives :: "file_operation \<Rightarrow> file_operation list \<Rightarrow> bool" where
  "receipt_survives r rs \<longleftrightarrow>
     (\<exists>x\<in>set rs. fo_operation_id x = fo_operation_id r \<and> (x = r \<or> stage_follows (fo_stage x) (fo_stage r)))"

lemma receipt_survives_same: "r \<in> set rs \<Longrightarrow> receipt_survives r rs"
  by (auto simp: receipt_survives_def)

lemma finalized_progress:
  assumes "load_receipts E doc = Inr receipts" "reconcile_and_store E i observe current now doc = Inr (doc', n)"
    and "r \<in> set (fr_operations receipts)"
  shows "receipt_survives r (receipts_of E doc')"
proof -
  obtain x where x: "x \<in> set (fr_operations receipts)" "fo_operation_id x = JStr i"
    "reconcile_with_authority E x (observe x) current now = Inr n"
    "receipt_set (fr_operations receipts) (fn_record n) (receipts_of E doc')"
    "\<forall>y\<in>set (fr_operations receipts). fo_operation_id y \<noteq> JStr i \<longrightarrow> y \<in> set (receipts_of E doc')"
    "fo_operation_id (fn_record n) = JStr i"
    using reconcile_and_store_Inr [OF assms(1,2)] by metis
  show ?thesis
  proof (cases "fo_operation_id r = JStr i")
    case True
    then have "r = x"
      using x(1,2) assms(3) receipts_distinct [OF assms(1)] by (auto simp: distinct_map inj_on_def)
    have "fn_record n = x \<or> stage_follows (fo_stage (fn_record n)) (fo_stage x)"
      using x(3) reconciled_stage [OF x(3)] by (auto elim!: reconcile_Inr simp: stage_follows_def)
    moreover have "fn_record n \<in> set (receipts_of E doc')" using x(4) by (simp add: receipt_set_def)
    ultimately show ?thesis
      using \<open>r = x\<close> x(2,6) by (auto simp: receipt_survives_def)
  next
    case False
    then show ?thesis using x(5) assms(3) receipt_survives_same by blast
  qed
qed

lemma receipts_bounded: "length (receipts_of E doc) \<le> MAX_FILE_OPERATION_RECORDS"
  using load_receipts_valid by (auto simp: receipts_of_def assert_state_Inr split: sum.split)

lemma reserved_progress:
  assumes "file_env_documented E" "load_receipts E doc = Inr receipts" "fe_nfc E (wo_operation_id op) = wo_operation_id op"
    and "reserve_file_operation_unsafe E op ri doc = Inr (doc', rx)" "r \<in> set (fr_operations receipts)"
  shows "receipt_survives r (receipts_of E doc') \<or>
    fo_stage r = JStr ''completed'' \<and> length (fr_operations receipts) = MAX_FILE_OPERATION_RECORDS"
proof -
  have bound: "length (fr_operations receipts) \<le> MAX_FILE_OPERATION_RECORDS"
    using load_receipts_valid [OF assms(2)] by (simp add: assert_state_Inr)
  consider "doc' = doc" | "receipt_set (fr_operations receipts) (rx_record rx) (receipts_of E doc')"
      "fo_operation_id (rx_record rx) = JStr (wo_operation_id op)" "fo_stage (rx_record rx) = JStr ''apply-recorded''"
      "\<forall>x\<in>set (fr_operations receipts). fo_operation_id x = JStr (wo_operation_id op) \<longrightarrow> fo_stage x = JStr ''prepared''"
    using reserve_unsafe_Inr [OF assms(1-4)] by blast
  then show ?thesis
  proof cases
    case 1
    then show ?thesis using assms(2,5) receipt_survives_same by (simp add: receipts_of_def)
  next
    case 2
    show ?thesis
    proof (cases "fo_operation_id r = JStr (wo_operation_id op)")
      case True
      then have "receipt_survives r (receipts_of E doc')"
        using 2 assms(5) by (auto simp: receipt_survives_def receipt_set_def stage_follows_def)
      then show ?thesis ..
    next
      case False
      then have "r \<in> set (receipts_of E doc') \<or>
          fo_stage r = JStr ''completed'' \<and> MAX_FILE_OPERATION_RECORDS \<le> length (fr_operations receipts)"
        using 2(1,2) assms(5) unfolding receipt_set_def by metis
      then show ?thesis using bound receipt_survives_same by auto
    qed
  qed
qed

text \<open>C13: Receipts only make progress and unproven ones are never lost: in one event a receipt stays, or moves from
  prepared to apply-recorded or from there to its final stage, unless it is completed and the registry held 1024
  receipts; and no registry ever holds more.\<close>

theorem receipts_only_progress:
  assumes "file_env_documented E" "file_reachable E s" "event_normalized E event"
    and "r \<in> set (receipts_of E (fx_document s))"
  shows "(receipt_survives r (receipts_of E (fx_document (file_step E event s))) \<or>
      fo_stage r = JStr ''completed'' \<and> length (receipts_of E (fx_document s)) = MAX_FILE_OPERATION_RECORDS) \<and>
    length (receipts_of E (fx_document (file_step E event s))) \<le> MAX_FILE_OPERATION_RECORDS"
proof -
  obtain receipts where load: "load_receipts E (fx_document s) = Inr receipts"
    using file_reachable_ok [OF assms(1,2)] by (auto simp: file_invariant_def is_ok_iff)
  then have r: "r \<in> set (fr_operations receipts)" using assms(4) by (simp add: receipts_of_def)
  have same: "receipt_survives r (receipts_of E (fx_document s))" by (rule receipt_survives_same [OF assms(4)])
  have "receipt_survives r (receipts_of E (fx_document (file_step E event s))) \<or>
      fo_stage r = JStr ''completed'' \<and> length (receipts_of E (fx_document s)) = MAX_FILE_OPERATION_RECORDS"
  proof (cases event)
    case (Reserve p op ri)
    then show ?thesis
      using same assms(3) reserved_progress [OF assms(1) load _ _ r]
      by (auto simp: file_step_def event_normalized_def receipts_of_def [of E "fx_document s"] load
          split: file_execution.split sum.split)
  next
    case (Abandon p now)
    then show ?thesis
      using same finalized_progress [OF load _ r]
      by (auto simp: file_step_def set_execution_def finalize_file_operation_unresolved_def bind_sum_eq_Inr
          split: file_execution.split sum.split)
  next
    case (Finalize p policy_current now)
    then show ?thesis
      using same finalized_progress [OF load _ r]
      by (auto simp: file_step_def set_execution_def finalize_file_operation_def split: file_execution.split sum.split)
  next
    case (Others sessions generation)
    then show ?thesis
      using same by (simp add: file_step_def receipts_of_def load_receipts_def)
  qed (use same in \<open>auto simp: file_step_def set_execution_def split: file_execution.split\<close>)
  then show ?thesis using receipts_bounded by blast
qed


lemma demo_run_receipt: "\<exists>r\<in>set (receipts_of demo_env (fx_document demo_run)). fo_operation_id r = JStr ''op1''"
proof -
  have "past_prepared (receipts_of demo_env (fx_document demo_run)) ''op1''"
    using file_reachable_ok [OF demo_env_documented demo_run_reachable] demo_run_log
      performed_simps(2) [of "''op1''" "[]" "PhysicalIo ''op1''"]
    by (simp add: file_invariant_def executions_ok_def)
  then show ?thesis by (auto simp: past_prepared_def)
qed

theorem receipts_only_progress_witness:
  "\<exists>r. fo_operation_id r = JStr ''op1'' \<and>
     (receipt_survives r (receipts_of demo_env (fx_document (file_step demo_env (Finalize 0 True demo_now) demo_run))) \<or>
      fo_stage r = JStr ''completed'' \<and> length (receipts_of demo_env (fx_document demo_run)) = MAX_FILE_OPERATION_RECORDS)"
  using receipts_only_progress [OF demo_env_documented demo_run_reachable, of "Finalize 0 True demo_now"] demo_run_receipt
  by (auto simp: event_normalized_def)

section \<open>The preimage is not observed\<close>

text \<open>The fact about the time before that the reconciliation compares with the receipt is built from the receipt, so the
  comparison of a deletion or a move succeeds whatever was there before.\<close>

lemma preimage_check_is_vacuous:
  assumes "fo_expected_identity r \<noteq> JNull" "is_ok (canonical_json (fo_expected_identity r))"
    and "wo_operation op \<noteq> FileCreate"
    and "observe_file_operation r op source_after destination_after result_identity completed \<noteq> unresolved_observation r"
  shows "before_matches_expected
      (fb_source (observe_file_operation r op source_after destination_after result_identity completed))
      True (fo_expected_identity r) JNull = Inr True"
proof -
  obtain f where f: "source_after = Some f" using assms(3,4) by (auto simp: observe_file_operation_def split: if_splits)
  obtain t where t: "canonical_json (fo_expected_identity r) = Inr t" using assms(2) by (auto simp: is_ok_iff)
  then have "fo_expected_identity r \<noteq> JUndefined" by auto
  then show ?thesis
    using assms f t
    by (auto simp: observe_file_operation_def before_matches_expected_def path_fact_matches_present absent_def
        path_fact.extend_def split: if_splits)
qed

end
