(* ===== verification/MergeDecision.thy ===== *)
theory MergeDecision
  imports Prelude "HOL-Library.Word"
begin

text \<open>
  src/src/resource-merge-decision.ts: the classification of one path before a three-way merge, from
  what was observed of it in the merge base and on the two sides. A path state comes from outside as
  a value of any shape; \<open>merge_value\<close> holds the shapes the normalization tells apart, with
  \<open>MOther\<close> for everything it treats as one (other objects, arrays, numbers that are no integers).
\<close>

section \<open>Observed states\<close>

type_synonym bytes = "8 word list"

datatype merge_value =
    MUndefined | MNull | MBool bool | MInt int | MText string | MBytes bytes | MOther

record merge_path_state =
  ms_exists :: merge_value
  ms_present :: merge_value
  ms_mode :: merge_value
  ms_type :: merge_value
  ms_kind :: merge_value
  ms_sha :: merge_value
  ms_oid :: merge_value
  ms_content :: merge_value
  ms_bytes :: merge_value
  ms_binary :: merge_value
  ms_merge_driver :: merge_value
  ms_driver :: merge_value
  ms_merge_bases :: merge_value

datatype merge_path_input = NoPath | PlainText string | PlainBytes bytes | PathState merge_path_state | NotARecord

datatype path_kind = RegularPath | BinaryPath | SubmodulePath | DirectoryPath | UnknownPath

datatype unknown_reason =
    ObservationUnavailable | ReasonBinary | ReasonSubmodule | ReasonDirectory | ReasonMergeDriver
  | MultipleMergeBases | PathKindAmbiguous | IdentityUnavailable

record normalized_path =
  np_exists :: bool
  np_mode :: "string option"
  np_kind :: path_kind
  np_identity :: "string option"
  np_content :: "bytes option"
  np_known :: bool
  np_reason :: "unknown_reason option"
  np_merge_driver :: "string option"
  np_merge_bases :: "int option"

definition ABSENT :: normalized_path where
  "ABSENT = \<lparr>np_exists = False, np_mode = None, np_kind = RegularPath, np_identity = None, np_content = None,
     np_known = True, np_reason = None, np_merge_driver = None, np_merge_bases = None\<rparr>"

section \<open>Normalization\<close>

text \<open>\<open>a ?? b\<close>\<close>

definition nullish :: "merge_value \<Rightarrow> bool" where
  "nullish v \<longleftrightarrow> v = MUndefined \<or> v = MNull"

definition coalesce :: "merge_value \<Rightarrow> merge_value \<Rightarrow> merge_value" where
  "coalesce a b = (if nullish a then b else a)"

text \<open>\<open>new TextEncoder().encode(value)\<close> of a string of code units up to 255\<close>

definition utf8_char :: "char \<Rightarrow> bytes" where
  "utf8_char c =
     (let n = of_char c :: nat in
      if n < 128 then [of_nat n] else [of_nat (192 + n div 64), of_nat (128 + n mod 64)])"

definition to_bytes :: "merge_value \<Rightarrow> bytes option" where
  "to_bytes v = (case v of MText s \<Rightarrow> Some (concat (map utf8_char s)) | MBytes b \<Rightarrow> Some b | _ \<Rightarrow> None)"

definition merge_text :: "merge_value \<Rightarrow> string option" where
  "merge_text v = (case v of MText s \<Rightarrow> Some s | _ \<Rightarrow> None)"

definition path_kind_of :: "merge_path_state \<Rightarrow> path_kind" where
  "path_kind_of v =
     (let kind = merge_text (ms_kind v); type = merge_text (ms_type v) in
      if ms_binary v = MBool True then BinaryPath
      else if kind = Some ''binary'' then BinaryPath
      else if kind \<in> {Some ''submodule'', Some ''commit''} then SubmodulePath
      else if kind \<in> {Some ''directory'', Some ''tree''} then DirectoryPath
      else if kind \<in> {Some ''regular'', Some ''file'', Some ''blob''} then RegularPath
      else if type = Some ''commit'' then SubmodulePath
      else if type = Some ''tree'' then DirectoryPath
      else if type \<in> {Some ''blob'', Some ''file'', Some ''regular''} then RegularPath
      else if ms_binary v = MBool False \<or> ms_content v \<noteq> MUndefined \<or> ms_bytes v \<noteq> MUndefined then RegularPath
      else UnknownPath)"

definition kind_reason :: "path_kind \<Rightarrow> unknown_reason option" where
  "kind_reason k =
     (case k of
        BinaryPath \<Rightarrow> Some ReasonBinary
      | SubmodulePath \<Rightarrow> Some ReasonSubmodule
      | DirectoryPath \<Rightarrow> Some ReasonDirectory
      | UnknownPath \<Rightarrow> Some PathKindAmbiguous
      | RegularPath \<Rightarrow> None)"

definition unknown_state :: "unknown_reason \<Rightarrow> normalized_path" where
  "unknown_state r = \<lparr>np_exists = True, np_mode = None, np_kind = UnknownPath, np_identity = None, np_content = None,
     np_known = False, np_reason = Some r, np_merge_driver = None, np_merge_bases = None\<rparr>"

definition unsupported_state ::
  "unknown_reason \<Rightarrow> string option \<Rightarrow> string option \<Rightarrow> bytes option \<Rightarrow> int option \<Rightarrow> normalized_path" where
  "unsupported_state r mode identity content bases =
     \<lparr>np_exists = True, np_mode = mode, np_kind = (if r = ReasonBinary then BinaryPath else UnknownPath),
      np_identity = identity, np_content = content, np_known = True, np_reason = Some r, np_merge_driver = None,
      np_merge_bases = bases\<rparr>"

definition regular_bytes :: "bytes \<Rightarrow> normalized_path" where
  "regular_bytes b = \<lparr>np_exists = True, np_mode = None, np_kind = RegularPath, np_identity = None,
     np_content = Some b, np_known = True, np_reason = None, np_merge_driver = None, np_merge_bases = None\<rparr>"

text \<open>The number of merge bases: \<open>None\<close> when the property is absent, otherwise whether it is a valid number.\<close>

definition valid_merge_bases :: "merge_value \<Rightarrow> bool" where
  "valid_merge_bases v \<longleftrightarrow> v = MUndefined \<or> v = MInt 1"

definition normalize_record :: "merge_path_state \<Rightarrow> normalized_path" where
  "normalize_record v =
     (let presence = coalesce (ms_exists v) (ms_present v) in
      if presence = MBool False then ABSENT
      else if presence \<noteq> MUndefined \<and> presence \<noteq> MBool True then unknown_state ObservationUnavailable
      else
        (let kind = path_kind_of v;
             type = merge_text (ms_type v);
             mode = merge_text (ms_mode v);
             raw_content = coalesce (ms_content v) (ms_bytes v);
             content = (if nullish raw_content then None else to_bytes raw_content);
             identity = (case merge_text (ms_sha v) of Some s \<Rightarrow> Some s | None \<Rightarrow> merge_text (ms_oid v));
             driver = coalesce (ms_merge_driver v) (ms_driver v);
             bases = (case ms_merge_bases v of MInt n \<Rightarrow> Some n | _ \<Rightarrow> None) in
         if presence = MUndefined \<and> kind = UnknownPath \<and> type = None \<and> identity = None \<and> content = None
         then unknown_state ObservationUnavailable
         else if \<not> nullish driver \<and> merge_text driver = None then unknown_state ReasonMergeDriver
         else if \<not> valid_merge_bases (ms_merge_bases v) then unknown_state MultipleMergeBases
         else if \<not> nullish raw_content \<and> content = None then unknown_state ObservationUnavailable
         else if content \<noteq> None \<and> 0 \<in> set (the content)
         then unsupported_state ReasonBinary mode identity content bases
         else if kind = RegularPath \<and> content = None \<and> identity = None then unknown_state IdentityUnavailable
         else
           \<lparr>np_exists = True, np_mode = mode, np_kind = kind, np_identity = identity, np_content = content,
            np_known = True,
            np_reason =
              (if type \<noteq> None \<and> type \<notin> {Some ''blob'', Some ''file'', Some ''regular''}
               then Some (case kind_reason kind of Some r \<Rightarrow> r | None \<Rightarrow> PathKindAmbiguous)
               else if kind = UnknownPath then Some PathKindAmbiguous else None),
            np_merge_driver = merge_text driver, np_merge_bases = bases\<rparr>))"

definition normalize_path_state :: "merge_path_input \<Rightarrow> normalized_path" where
  "normalize_path_state input =
     (case input of
        NoPath \<Rightarrow> ABSENT
      | PlainText s \<Rightarrow> regular_bytes (concat (map utf8_char s))
      | PlainBytes b \<Rightarrow> regular_bytes b
      | NotARecord \<Rightarrow> unknown_state ObservationUnavailable
      | PathState v \<Rightarrow> normalize_record v)"

section \<open>The decision\<close>

datatype decision_kind =
    Unchanged | LeftOnly | RightOnly | BothSame | DeleteDelete | DeleteModify | AddAdd | ModeConflict | TextMerge
  | UnknownDecision

datatype merge_outcome = CleanOutcome | ConflictOutcome | UnknownOutcome

record three_way_decision =
  tw_kind :: decision_kind
  tw_outcome :: merge_outcome
  tw_requires_text_merge :: bool
  tw_reason :: "unknown_reason option"

definition merge_decision :: "decision_kind \<Rightarrow> merge_outcome \<Rightarrow> bool \<Rightarrow> unknown_reason option \<Rightarrow> three_way_decision" where
  "merge_decision kind result text_merge reason =
     \<lparr>tw_kind = kind, tw_outcome = result, tw_requires_text_merge = text_merge, tw_reason = reason\<rparr>"

fun first_unknown_reason :: "normalized_path list \<Rightarrow> unknown_reason option" where
  "first_unknown_reason [] = None"
| "first_unknown_reason (s # ss) =
     (if \<not> np_known s
      then Some (case np_reason s of Some r \<Rightarrow> r | None \<Rightarrow> ObservationUnavailable)
      else first_unknown_reason ss)"

fun first_unsupported_reason :: "normalized_path list \<Rightarrow> unknown_reason option" where
  "first_unsupported_reason [] = None"
| "first_unsupported_reason (s # ss) =
     (if np_merge_driver s \<noteq> None then Some ReasonMergeDriver
      else if np_merge_bases s \<noteq> None \<and> np_merge_bases s \<noteq> Some 1 then Some MultipleMergeBases
      else if np_reason s \<noteq> None then np_reason s
      else if kind_reason (np_kind s) \<noteq> None then kind_reason (np_kind s)
      else first_unsupported_reason ss)"

definition states_equal :: "normalized_path \<Rightarrow> normalized_path \<Rightarrow> bool" where
  "states_equal l r \<longleftrightarrow>
     (if \<not> np_exists l \<or> \<not> np_exists r then np_exists l = np_exists r
      else if np_kind l \<noteq> np_kind r \<or> np_mode l \<noteq> np_mode r then False
      else if np_content l \<noteq> None \<or> np_content r \<noteq> None
      then np_content l \<noteq> None \<and> np_content r \<noteq> None \<and> np_content l = np_content r
      else np_identity l \<noteq> None \<and> np_identity r \<noteq> None \<and> np_identity l = np_identity r)"

definition classify_known :: "normalized_path \<Rightarrow> normalized_path \<Rightarrow> normalized_path \<Rightarrow> three_way_decision" where
  "classify_known base left right =
     (if \<not> np_exists base then
        (if \<not> np_exists left \<and> \<not> np_exists right then merge_decision Unchanged CleanOutcome False None
         else if \<not> np_exists left then merge_decision RightOnly CleanOutcome False None
         else if \<not> np_exists right then merge_decision LeftOnly CleanOutcome False None
         else if states_equal left right then merge_decision BothSame CleanOutcome False None
         else merge_decision AddAdd ConflictOutcome False None)
      else if \<not> np_exists left \<and> \<not> np_exists right then merge_decision DeleteDelete CleanOutcome False None
      else if \<not> np_exists left \<or> \<not> np_exists right then
        (let surviving = (if np_exists left then left else right); changed = \<not> states_equal surviving base in
         merge_decision (if changed then DeleteModify else if np_exists left then RightOnly else LeftOnly)
           (if changed then ConflictOutcome else CleanOutcome) False None)
      else
        (let left_changed = \<not> states_equal base left; right_changed = \<not> states_equal base right in
         if \<not> left_changed \<and> \<not> right_changed then merge_decision Unchanged CleanOutcome False None
         else if left_changed \<and> \<not> right_changed then merge_decision LeftOnly CleanOutcome False None
         else if \<not> left_changed \<and> right_changed then merge_decision RightOnly CleanOutcome False None
         else if states_equal left right then merge_decision BothSame CleanOutcome False None
         else if np_mode left \<noteq> np_mode right then merge_decision ModeConflict ConflictOutcome False None
         else merge_decision TextMerge UnknownOutcome True None))"

definition classify_three_way_path ::
  "merge_path_input \<Rightarrow> merge_path_input \<Rightarrow> merge_path_input \<Rightarrow> three_way_decision" where
  "classify_three_way_path base left right =
     (let b = normalize_path_state base; l = normalize_path_state left; r = normalize_path_state right in
      case first_unknown_reason [b, l, r] of
        Some reason \<Rightarrow> merge_decision UnknownDecision UnknownOutcome False (Some reason)
      | None \<Rightarrow>
          (case first_unsupported_reason [b, l, r] of
             Some reason \<Rightarrow> merge_decision UnknownDecision UnknownOutcome False (Some reason)
           | None \<Rightarrow> classify_known b l r))"

section \<open>Three-way merge\<close>

text \<open>
  What there is at a path, without the code's comparison: nothing, or a file with its mode and its content; the content
  stands for itself when it was observed, and for the object that the identity names otherwise. The textbook merge is that
  of whole files under equality: the side that differs from the base wins, equal changes agree.
\<close>

datatype file_content = ContentBytes bytes | ContentObject "string option"

definition file_at :: "normalized_path \<Rightarrow> (string option \<times> file_content) option" where
  "file_at s =
     (if \<not> np_exists s then None
      else Some (np_mode s, case np_content s of Some b \<Rightarrow> ContentBytes b | None \<Rightarrow> ContentObject (np_identity s)))"

definition three_way_merge :: "'a \<Rightarrow> 'a \<Rightarrow> 'a \<Rightarrow> 'a option" where
  "three_way_merge base left right =
     (if base = left then Some right
      else if base = right then Some left
      else if left = right then Some left
      else None)"

text \<open>What a consumer takes for a clean decision\<close>

definition resolution :: "decision_kind \<Rightarrow> normalized_path \<Rightarrow> normalized_path \<Rightarrow> normalized_path option" where
  "resolution kind left right =
     (case kind of
        Unchanged \<Rightarrow> Some left | LeftOnly \<Rightarrow> Some left | RightOnly \<Rightarrow> Some right | BothSame \<Rightarrow> Some left
      | DeleteDelete \<Rightarrow> Some left | _ \<Rightarrow> None)"

definition supported_path :: "normalized_path \<Rightarrow> bool" where
  "supported_path s \<longleftrightarrow>
     np_known s \<and> np_reason s = None \<and> np_kind s = RegularPath \<and> np_merge_driver s = None \<and>
     (np_exists s \<longleftrightarrow> np_content s \<noteq> None \<or> np_identity s \<noteq> None)"

text \<open>A known state of a regular path has something to compare exactly when it exists.\<close>

definition comparable :: "normalized_path \<Rightarrow> bool" where
  "comparable s \<longleftrightarrow>
     (np_known s \<and> np_kind s = RegularPath \<longrightarrow> (np_exists s \<longleftrightarrow> np_content s \<noteq> None \<or> np_identity s \<noteq> None))"

lemma comparable_if: "(c \<Longrightarrow> comparable a) \<Longrightarrow> (\<not> c \<Longrightarrow> comparable b) \<Longrightarrow> comparable (if c then a else b)"
  by simp

lemma comparable_simps [simp]:
  "comparable ABSENT" "comparable (unknown_state r)" "comparable (regular_bytes bs)"
  "comparable (unsupported_state r mode identity content bases)"
  by (simp_all add: comparable_def ABSENT_def unknown_state_def regular_bytes_def unsupported_state_def)

lemma comparable_described:
  "\<not> (kind = RegularPath \<and> content = None \<and> identity = None) \<Longrightarrow>
   comparable \<lparr>np_exists = True, np_mode = mode, np_kind = kind, np_identity = identity, np_content = content,
     np_known = True, np_reason = reason, np_merge_driver = driver, np_merge_bases = bases\<rparr>"
  by (auto simp: comparable_def)

lemma comparable_record: "comparable (normalize_record v)"
  unfolding normalize_record_def Let_def
  by (intro comparable_if comparable_simps comparable_described)

lemma comparable_normalized: "comparable (normalize_path_state v)"
  by (simp add: normalize_path_state_def comparable_record split: merge_path_input.split)

lemma normalized_supported:
  assumes "np_known (normalize_path_state v)" "np_merge_driver (normalize_path_state v) = None"
    and "np_reason (normalize_path_state v) = None" "kind_reason (np_kind (normalize_path_state v)) = None"
  shows "supported_path (normalize_path_state v)"
proof -
  have "np_kind (normalize_path_state v) = RegularPath"
    using assms(4) by (cases "np_kind (normalize_path_state v)") (auto simp: kind_reason_def)
  then show ?thesis
    using assms comparable_normalized [of v] by (simp add: supported_path_def comparable_def)
qed

text \<open>On states that can be classified the code's comparison is equality of files.\<close>

lemma states_equal_file:
  assumes "supported_path l" "supported_path r"
  shows "states_equal l r \<longleftrightarrow> file_at l = file_at r"
  using assms by (auto simp: states_equal_def file_at_def supported_path_def split: option.splits)

lemma first_unknown_reason_None: "first_unknown_reason ss = None \<longleftrightarrow> (\<forall>s\<in>set ss. np_known s)"
  by (induction ss) auto

lemma first_unsupported_reason_None:
  "first_unsupported_reason ss = None \<longleftrightarrow>
     (\<forall>s\<in>set ss. np_merge_driver s = None \<and> (np_merge_bases s = None \<or> np_merge_bases s = Some 1) \<and>
                 np_reason s = None \<and> kind_reason (np_kind s) = None)"
  by (induction ss) auto

lemma classified_known:
  assumes "tw_reason (classify_three_way_path base left right) = None"
  shows "supported_path (normalize_path_state base) \<and> supported_path (normalize_path_state left) \<and>
    supported_path (normalize_path_state right) \<and>
    classify_three_way_path base left right =
       classify_known (normalize_path_state base) (normalize_path_state left) (normalize_path_state right)"
proof -
  let ?ss = "[normalize_path_state base, normalize_path_state left, normalize_path_state right]"
  have known: "first_unknown_reason ?ss = None"
    using assms by (cases "first_unknown_reason ?ss") (simp_all add: classify_three_way_path_def merge_decision_def Let_def)
  have supported: "first_unsupported_reason ?ss = None"
    using assms known
    by (cases "first_unsupported_reason ?ss") (simp_all add: classify_three_way_path_def merge_decision_def Let_def)
  have "\<forall>s\<in>set ?ss. np_known s" using known first_unknown_reason_None by blast
  moreover have "\<forall>s\<in>set ?ss. np_merge_driver s = None \<and> np_reason s = None \<and> kind_reason (np_kind s) = None"
    using supported first_unsupported_reason_None by blast
  ultimately show ?thesis
    using normalized_supported known supported by (simp add: classify_three_way_path_def Let_def)
qed

lemma file_at_None [simp]: "file_at s = None \<longleftrightarrow> \<not> np_exists s"
  by (simp add: file_at_def)

text \<open>The decision agrees with the textbook merge: it is clean exactly when that merge succeeds, and then names a side
  with the file that is its result.\<close>

lemma classify_known_merges:
  assumes "supported_path base" "supported_path left" "supported_path right"
  shows "(tw_outcome (classify_known base left right) = CleanOutcome \<longleftrightarrow>
       three_way_merge (file_at base) (file_at left) (file_at right) \<noteq> None) \<and>
    (\<forall>s. three_way_merge (file_at base) (file_at left) (file_at right) = Some s \<longrightarrow>
       map_option file_at (resolution (tw_kind (classify_known base left right)) left right) = Some s)"
proof -
  have same: "states_equal base left \<longleftrightarrow> file_at base = file_at left" "states_equal base right \<longleftrightarrow> file_at base = file_at right"
    "states_equal left right \<longleftrightarrow> file_at left = file_at right" "states_equal left base \<longleftrightarrow> file_at left = file_at base"
    "states_equal right base \<longleftrightarrow> file_at right = file_at base"
    using assms states_equal_file by blast+
  have "file_at s = file_at t \<Longrightarrow> np_exists s = np_exists t" "\<not> np_exists s \<and> \<not> np_exists t \<Longrightarrow> file_at s = file_at t" for s t
    using file_at_None by metis+
  then have exist: "file_at base = file_at left \<longrightarrow> np_exists base = np_exists left"
    "file_at base = file_at right \<longrightarrow> np_exists base = np_exists right"
    "file_at left = file_at right \<longrightarrow> np_exists left = np_exists right"
    "np_exists base \<or> np_exists left \<or> file_at base = file_at left"
    "np_exists base \<or> np_exists right \<or> file_at base = file_at right"
    "np_exists left \<or> np_exists right \<or> file_at left = file_at right"
    by blast+
  show ?thesis
    using exist
    by (cases "np_exists base"; cases "np_exists left"; cases "np_exists right"; cases "file_at base = file_at left";
        cases "file_at base = file_at right"; cases "file_at left = file_at right")
      (simp_all add: classify_known_def three_way_merge_def merge_decision_def resolution_def Let_def same)
qed

lemma classify_known_reason: "tw_reason (classify_known base left right) = None"
  by (simp add: classify_known_def merge_decision_def Let_def)

text \<open>C29: The merge preview never guesses. Of a path that it classifies without a reason for not knowing it says clean
  exactly when the textbook three-way merge of the files observed in the base and on the two sides (existence, mode and
  content, compared as values) succeeds, and the side it then names has the file that is the result of that merge. Otherwise
  it calls the path added on both sides, deleted and modified, different in mode, or a case for a text merge.\<close>

theorem clean_merge_is_three_way:
  assumes "tw_reason (classify_three_way_path base left right) = None"
  shows "(tw_outcome (classify_three_way_path base left right) = CleanOutcome) =
      (three_way_merge (file_at (normalize_path_state base)) (file_at (normalize_path_state left))
         (file_at (normalize_path_state right)) \<noteq> None) \<and>
    (case three_way_merge (file_at (normalize_path_state base)) (file_at (normalize_path_state left))
         (file_at (normalize_path_state right)) of
       None \<Rightarrow> tw_kind (classify_three_way_path base left right) \<in> {AddAdd, DeleteModify, ModeConflict, TextMerge}
     | Some s \<Rightarrow>
         (case resolution (tw_kind (classify_three_way_path base left right)) (normalize_path_state left)
                 (normalize_path_state right) of
            None \<Rightarrow> False
          | Some t \<Rightarrow> file_at t = s))"
proof -
  let ?b = "normalize_path_state base" and ?l = "normalize_path_state left" and ?r = "normalize_path_state right"
  note known = classified_known [OF assms]
  have merges: "(tw_outcome (classify_known ?b ?l ?r) = CleanOutcome \<longleftrightarrow>
      three_way_merge (file_at ?b) (file_at ?l) (file_at ?r) \<noteq> None) \<and>
    (\<forall>s. three_way_merge (file_at ?b) (file_at ?l) (file_at ?r) = Some s \<longrightarrow>
       map_option file_at (resolution (tw_kind (classify_known ?b ?l ?r)) ?l ?r) = Some s)"
    using classify_known_merges known by blast
  have "tw_outcome (classify_known ?b ?l ?r) \<noteq> CleanOutcome \<Longrightarrow>
      tw_kind (classify_known ?b ?l ?r) \<in> {AddAdd, DeleteModify, ModeConflict, TextMerge}"
    by (auto simp: classify_known_def merge_decision_def Let_def split: if_splits)
  then show ?thesis
    using merges known by (auto split: option.split)
qed

text \<open>The left side only makes the file executable, the right side leaves it alone.\<close>

definition script_state :: "string \<Rightarrow> merge_path_input" where
  "script_state mode = PathState
     \<lparr>ms_exists = MBool True, ms_present = MUndefined, ms_mode = MText mode, ms_type = MText ''blob'', ms_kind = MUndefined,
      ms_sha = MUndefined, ms_oid = MUndefined, ms_content = MText ''a'', ms_bytes = MUndefined, ms_binary = MUndefined,
      ms_merge_driver = MUndefined, ms_driver = MUndefined, ms_merge_bases = MUndefined\<rparr>"

theorem clean_merge_is_three_way_witness:
  "tw_kind (classify_three_way_path (script_state ''100644'') (script_state ''100755'') (script_state ''100644'')) = LeftOnly \<and>
   three_way_merge (file_at (normalize_path_state (script_state ''100644''))) (file_at (normalize_path_state (script_state ''100755'')))
     (file_at (normalize_path_state (script_state ''100644''))) = Some (Some (Some ''100755'', ContentBytes [97]))"
proof -
  let ?d = "classify_three_way_path (script_state ''100644'') (script_state ''100755'') (script_state ''100644'')"
  have d: "tw_kind ?d = LeftOnly" "tw_outcome ?d = CleanOutcome" "tw_reason ?d = None"
    and changed: "file_at (normalize_path_state (script_state ''100755'')) = Some (Some ''100755'', ContentBytes [97])"
    by code_simp+
  from clean_merge_is_three_way [OF d(3)] d(1,2) changed show ?thesis
    by (auto simp: resolution_def)
qed

end
