(* ===== verification/ExecutionAdmission.thy ===== *)
theory ExecutionAdmission
  imports Json
begin

text \<open>
  src/src/domain/session-admission-decision.ts: the check of a parent's observation immediately before a
  child process is spawned for a session. The facts come from outside, so they are \<open>json\<close> values; the
  failures keep their code.
\<close>

section \<open>Snapshots\<close>

datatype admission_lifecycle = AdNew | AdActive | AdClosing | AdClosed | AdStale

record admission_snapshot =
  ad_lifecycle :: admission_lifecycle
  ad_launch_permitted :: bool
  ad_profile_token :: string
  ad_profile_revision :: int
  ad_filesystem_token :: string
  ad_filesystem_revision :: int
  ad_generation :: int
  ad_epoch :: int

definition MAX_ID_LENGTH :: nat where "MAX_ID_LENGTH = 256"
definition MAX_TOKEN_LENGTH :: nat where "MAX_TOKEN_LENGTH = 512"

text \<open>The failure of every validation has the code INVALID_ARGUMENT.\<close>

definition admission_text :: "nat \<Rightarrow> json \<Rightarrow> string + string" where
  "admission_text limit v =
     (case v of
        JStr s \<Rightarrow> if s \<noteq> [] \<and> length s \<le> limit \<and> NUL \<notin> set s then Inr s else Inl ''INVALID_ARGUMENT''
      | _ \<Rightarrow> Inl ''INVALID_ARGUMENT'')"

definition positive_safe_integer :: "json \<Rightarrow> string + int" where
  "positive_safe_integer v =
     (case v of
        JNum n \<Rightarrow> if 1 \<le> n \<and> n \<le> 9007199254740991 then Inr n else Inl ''INVALID_ARGUMENT''
      | _ \<Rightarrow> Inl ''INVALID_ARGUMENT'')"

definition admission_lifecycle_of :: "json \<Rightarrow> string + admission_lifecycle" where
  "admission_lifecycle_of v =
     (if v = JStr ''new'' then Inr AdNew else if v = JStr ''active'' then Inr AdActive
      else if v = JStr ''closing'' then Inr AdClosing else if v = JStr ''closed'' then Inr AdClosed
      else if v = JStr ''stale'' then Inr AdStale else Inl ''INVALID_ARGUMENT'')"

definition admission_flag :: "json \<Rightarrow> string + bool" where
  "admission_flag v = (case v of JBool b \<Rightarrow> Inr b | _ \<Rightarrow> Inl ''INVALID_ARGUMENT'')"

definition validate_snapshot :: "json \<Rightarrow> string + admission_snapshot" where
  "validate_snapshot v =
     bind_sum (require (case v of JObj _ \<Rightarrow> True | _ \<Rightarrow> False) ''INVALID_ARGUMENT'') (\<lambda>_.
     bind_sum (admission_lifecycle_of (jget v ''lifecycle'')) (\<lambda>lifecycle.
     bind_sum (admission_flag (jget v ''launch_permitted'')) (\<lambda>permitted.
     bind_sum (admission_text MAX_TOKEN_LENGTH (jget v ''profile_token'')) (\<lambda>profile_token.
     bind_sum (admission_text MAX_TOKEN_LENGTH (jget v ''filesystem_token'')) (\<lambda>filesystem_token.
     bind_sum (positive_safe_integer (jget v ''profile_revision'')) (\<lambda>profile_revision.
     bind_sum (positive_safe_integer (jget v ''filesystem_revision'')) (\<lambda>filesystem_revision.
     bind_sum (positive_safe_integer (jget v ''generation'')) (\<lambda>generation.
     bind_sum (positive_safe_integer (jget v ''epoch'')) (\<lambda>epoch.
     Inr \<lparr>ad_lifecycle = lifecycle, ad_launch_permitted = permitted, ad_profile_token = profile_token,
          ad_profile_revision = profile_revision, ad_filesystem_token = filesystem_token,
          ad_filesystem_revision = filesystem_revision, ad_generation = generation, ad_epoch = epoch\<rparr>)))))))))"

section \<open>The decision\<close>

record admission_facts =
  af_purpose :: json
  af_session_id :: json
  af_execution_id :: json
  af_current :: json
  af_expected :: json

datatype denial_reason =
    InvalidIdentity | LifecycleNotPermitted | LifecycleChanged | ProfileTokenChanged | ProfileRevisionChanged
  | FilesystemTokenChanged | FilesystemRevisionChanged | GenerationChanged | StaleEpoch | EpochChanged

record admission_reservation =
  ar_purpose :: json
  ar_contract_id :: json
  ar_schema_version :: json
  ar_session_id :: json
  ar_execution_id :: json
  ar_status :: json
  ar_profile_token :: json
  ar_profile_revision :: json
  ar_filesystem_token :: json
  ar_filesystem_revision :: json
  ar_generation :: json
  ar_epoch :: json

record admission_denial =
  dn_reason :: denial_reason
  dn_retryable :: bool
  dn_session_id :: string
  dn_execution_id :: string
  dn_observed_epoch :: int

datatype admission_decision = Admitted admission_reservation | Denied admission_denial

definition SESSION_ADMISSION_CONTRACT_ID :: string where
  "SESSION_ADMISSION_CONTRACT_ID = ''nawabari.session-admission.v1''"
definition SESSION_ADMISSION_SCHEMA_VERSION :: int where "SESSION_ADMISSION_SCHEMA_VERSION = 1"

definition admission_denied :: "string \<Rightarrow> string \<Rightarrow> admission_snapshot \<Rightarrow> denial_reason \<Rightarrow> admission_decision" where
  "admission_denied session execution current reason =
     Denied \<lparr>dn_reason = reason, dn_retryable = (reason \<noteq> LifecycleNotPermitted \<and> reason \<noteq> InvalidIdentity),
             dn_session_id = session, dn_execution_id = execution, dn_observed_epoch = ad_epoch current\<rparr>"

definition same_snapshot :: "admission_snapshot \<Rightarrow> admission_snapshot \<Rightarrow> bool" where
  "same_snapshot l r \<longleftrightarrow>
     ad_lifecycle l = ad_lifecycle r \<and> ad_launch_permitted l = ad_launch_permitted r \<and>
     ad_profile_token l = ad_profile_token r \<and> ad_profile_revision l = ad_profile_revision r \<and>
     ad_filesystem_token l = ad_filesystem_token r \<and> ad_filesystem_revision l = ad_filesystem_revision r \<and>
     ad_generation l = ad_generation r \<and> ad_epoch l = ad_epoch r"

definition required_lifecycle :: "json \<Rightarrow> admission_lifecycle" where
  "required_lifecycle purpose = (if purpose = JStr ''bootstrap'' then AdNew else AdActive)"

text \<open>The chain of comparisons of \<open>decideExecutionAdmission\<close> after the validation\<close>

definition compare_admission ::
  "json \<Rightarrow> string \<Rightarrow> string \<Rightarrow> admission_snapshot \<Rightarrow> admission_snapshot \<Rightarrow> admission_decision" where
  "compare_admission purpose session execution current expected =
     (let deny = admission_denied session execution current in
      if \<not> ad_launch_permitted current \<or> ad_lifecycle current \<noteq> required_lifecycle purpose then deny LifecycleNotPermitted
      else if ad_epoch current < ad_epoch expected then deny StaleEpoch
      else if ad_epoch current \<noteq> ad_epoch expected then deny EpochChanged
      else if ad_lifecycle current \<noteq> ad_lifecycle expected \<or> ad_launch_permitted current \<noteq> ad_launch_permitted expected
      then deny LifecycleChanged
      else if ad_profile_token current \<noteq> ad_profile_token expected then deny ProfileTokenChanged
      else if ad_profile_revision current \<noteq> ad_profile_revision expected then deny ProfileRevisionChanged
      else if ad_filesystem_token current \<noteq> ad_filesystem_token expected then deny FilesystemTokenChanged
      else if ad_filesystem_revision current \<noteq> ad_filesystem_revision expected then deny FilesystemRevisionChanged
      else if ad_generation current \<noteq> ad_generation expected then deny GenerationChanged
      else if \<not> same_snapshot current expected then deny EpochChanged
      else Admitted
        \<lparr>ar_purpose = purpose, ar_contract_id = JStr SESSION_ADMISSION_CONTRACT_ID,
         ar_schema_version = JNum SESSION_ADMISSION_SCHEMA_VERSION, ar_session_id = JStr session,
         ar_execution_id = JStr execution, ar_status = JStr ''starting'',
         ar_profile_token = JStr (ad_profile_token current), ar_profile_revision = JNum (ad_profile_revision current),
         ar_filesystem_token = JStr (ad_filesystem_token current),
         ar_filesystem_revision = JNum (ad_filesystem_revision current),
         ar_generation = JNum (ad_generation current), ar_epoch = JNum (ad_epoch current)\<rparr>)"

definition decide_execution_admission :: "admission_facts \<Rightarrow> string + admission_decision" where
  "decide_execution_admission facts =
     bind_sum (admission_text MAX_ID_LENGTH (af_session_id facts)) (\<lambda>session.
     bind_sum (admission_text MAX_ID_LENGTH (af_execution_id facts)) (\<lambda>execution.
     bind_sum (validate_snapshot (af_current facts)) (\<lambda>current.
     bind_sum (validate_snapshot (af_expected facts)) (\<lambda>expected.
     bind_sum (require (af_purpose facts = JUndefined \<or> af_purpose facts = JStr ''bootstrap'') ''INVALID_ARGUMENT'') (\<lambda>_.
     Inr (compare_admission (af_purpose facts) session execution current expected))))))"

text \<open>\<open>validateExecutionAdmissionReservation\<close>: the reservation is decided against itself.\<close>

definition reserved_snapshot :: "admission_reservation \<Rightarrow> json" where
  "reserved_snapshot r =
     JObj [(''lifecycle'', JStr (if ar_purpose r = JStr ''bootstrap'' then ''new'' else ''active'')),
       (''launch_permitted'', JBool True), (''profile_token'', ar_profile_token r),
       (''profile_revision'', ar_profile_revision r), (''filesystem_token'', ar_filesystem_token r),
       (''filesystem_revision'', ar_filesystem_revision r), (''generation'', ar_generation r), (''epoch'', ar_epoch r)]"

definition validate_execution_admission_reservation :: "admission_reservation \<Rightarrow> string + admission_reservation" where
  "validate_execution_admission_reservation r =
     bind_sum (decide_execution_admission
       \<lparr>af_purpose = ar_purpose r, af_session_id = ar_session_id r, af_execution_id = ar_execution_id r,
        af_current = reserved_snapshot r, af_expected = reserved_snapshot r\<rparr>) (\<lambda>d.
     case d of
       Denied _ \<Rightarrow> Inl ''OPERATION_REJECTED''
     | Admitted _ \<Rightarrow>
         if ar_contract_id r \<noteq> JStr SESSION_ADMISSION_CONTRACT_ID \<or>
            ar_schema_version r \<noteq> JNum SESSION_ADMISSION_SCHEMA_VERSION \<or> ar_status r \<noteq> JStr ''starting''
         then Inl ''OPERATION_REJECTED'' else Inr r)"

section \<open>What an admission proves\<close>

lemma admission_text_Inr [sum_simps]:
  "admission_text limit v = Inr s \<longleftrightarrow> v = JStr s \<and> s \<noteq> [] \<and> length s \<le> limit \<and> NUL \<notin> set s"
  by (auto simp: admission_text_def split: json.splits if_splits)

lemma positive_safe_integer_Inr [sum_simps]:
  "positive_safe_integer v = Inr n \<longleftrightarrow> v = JNum n \<and> 1 \<le> n \<and> n \<le> 9007199254740991"
  by (auto simp: positive_safe_integer_def split: json.splits if_splits)

lemma same_snapshot_eq: "same_snapshot l r \<longleftrightarrow> l = r"
  by (cases l; cases r) (auto simp: same_snapshot_def)

lemma compare_admission_Admitted:
  "(\<exists>r. compare_admission purpose session execution current expected = Admitted r) \<longleftrightarrow>
     current = expected \<and> ad_launch_permitted current \<and> ad_lifecycle current = required_lifecycle purpose"
  by (cases current; cases expected) (simp add: compare_admission_def admission_denied_def same_snapshot_eq Let_def, blast)

lemma compare_admission_D:
  "compare_admission purpose session execution current expected = Admitted r \<Longrightarrow>
   current = expected \<and> ad_launch_permitted current \<and> ad_lifecycle current = required_lifecycle purpose"
  using compare_admission_Admitted by blast

text \<open>A launch is admitted exactly when the facts are well formed and the fresh observation is the one that was
  reserved, permits a launch and is in the lifecycle state the purpose asks for: nothing that changed between the two
  observations is admitted, and nothing unchanged is refused.\<close>

theorem admission_is_exact:
  "(\<exists>r. decide_execution_admission facts = Inr (Admitted r)) =
     (is_ok (admission_text MAX_ID_LENGTH (af_session_id facts)) \<and>
      is_ok (admission_text MAX_ID_LENGTH (af_execution_id facts)) \<and>
      af_purpose facts \<in> {JUndefined, JStr ''bootstrap''} \<and>
      (\<exists>s. validate_snapshot (af_current facts) = Inr s \<and> validate_snapshot (af_expected facts) = Inr s \<and>
           ad_launch_permitted s \<and> ad_lifecycle s = required_lifecycle (af_purpose facts)))"
  (is "?admitted = ?exact")
proof
  assume ?admitted
  then show ?exact
    by (auto simp: decide_execution_admission_def bind_sum_eq_Inr is_ok_iff dest: compare_admission_D)
next
  assume ?exact
  then obtain session execution s where
    "admission_text MAX_ID_LENGTH (af_session_id facts) = Inr session"
    "admission_text MAX_ID_LENGTH (af_execution_id facts) = Inr execution"
    "validate_snapshot (af_current facts) = Inr s" "validate_snapshot (af_expected facts) = Inr s"
    "af_purpose facts = JUndefined \<or> af_purpose facts = JStr ''bootstrap''"
    "\<exists>r. compare_admission (af_purpose facts) session execution s s = Admitted r"
    using compare_admission_Admitted by (auto simp: is_ok_iff)
  then show ?admitted
    by (simp add: decide_execution_admission_def)
qed

lemma compare_admission_same:
  assumes "compare_admission purpose session execution s s = Admitted r"
  shows "r = \<lparr>ar_purpose = purpose, ar_contract_id = JStr SESSION_ADMISSION_CONTRACT_ID,
         ar_schema_version = JNum SESSION_ADMISSION_SCHEMA_VERSION, ar_session_id = JStr session,
         ar_execution_id = JStr execution, ar_status = JStr ''starting'',
         ar_profile_token = JStr (ad_profile_token s), ar_profile_revision = JNum (ad_profile_revision s),
         ar_filesystem_token = JStr (ad_filesystem_token s),
         ar_filesystem_revision = JNum (ad_filesystem_revision s),
         ar_generation = JNum (ad_generation s), ar_epoch = JNum (ad_epoch s)\<rparr>"
  using assms compare_admission_D [OF assms]
  by (simp add: compare_admission_def admission_denied_def same_snapshot_eq Let_def)

text \<open>A reservation that was issued is accepted by the supervisor's check.\<close>

lemma issued_reservation_valid:
  assumes "decide_execution_admission facts = Inr (Admitted r)"
  shows "validate_execution_admission_reservation r = Inr r"
proof -
  obtain session execution current expected where valid:
    "admission_text MAX_ID_LENGTH (af_session_id facts) = Inr session"
    "admission_text MAX_ID_LENGTH (af_execution_id facts) = Inr execution" "validate_snapshot (af_current facts) = Inr current"
    "af_purpose facts = JUndefined \<or> af_purpose facts = JStr ''bootstrap''"
    "compare_admission (af_purpose facts) session execution current expected = Admitted r"
    using assms by (auto simp: decide_execution_admission_def bind_sum_eq_Inr)
  note same = compare_admission_D [OF valid(5)]
  note r = compare_admission_same [of "af_purpose facts" session execution current r]
  have lifecycle: "admission_lifecycle_of (JStr (if af_purpose facts = JStr ''bootstrap'' then ''new'' else ''active'')) =
      Inr (ad_lifecycle current)"
    using same by (auto simp: admission_lifecycle_of_def required_lifecycle_def)
  have "validate_snapshot (reserved_snapshot r) = Inr current"
    using valid(3,5) same r lifecycle
    by (auto simp: validate_snapshot_def reserved_snapshot_def bind_sum_eq_Inr jget_def admission_text_Inr
        positive_safe_integer_Inr admission_flag_def)
  moreover have "admission_text MAX_ID_LENGTH (ar_session_id r) = Inr session"
    "admission_text MAX_ID_LENGTH (ar_execution_id r) = Inr execution" "ar_purpose r = af_purpose facts"
    using valid(1,2,5) same r by (auto simp: admission_text_Inr)
  ultimately show ?thesis
    using valid(4,5) same r
    by (auto simp: validate_execution_admission_reservation_def decide_execution_admission_def)
qed

end
