(* ===== verification/ResourceCoordination.thy ===== *)
theory ResourceCoordination
  imports ResourceClaims Json "HOL-Library.AList" "HOL-Library.Multiset"
begin

text \<open>
  src/src/resource-coordination.ts without the glob search, which is in GlobOverlap: intents and selectors, their
  validation, the nodes made of claims and intents, the facts of one pair of nodes, and the bounded graph of
  overlaps. The hash and the file system that \<open>claimsOverlap\<close> reads are parameters.
\<close>

section \<open>Data\<close>

datatype intent_mode = PlanReadonly | PlanWrite | PlanCreate | PlanDelete

definition intent_mode_name :: "intent_mode \<Rightarrow> string" where
  "intent_mode_name m =
     (case m of PlanReadonly \<Rightarrow> ''READONLY'' | PlanWrite \<Rightarrow> ''WRITE'' | PlanCreate \<Rightarrow> ''CREATE'' | PlanDelete \<Rightarrow> ''DELETE'')"

definition RESOURCE_INTENT_MODES :: "intent_mode list" where
  "RESOURCE_INTENT_MODES = [PlanReadonly, PlanWrite, PlanCreate, PlanDelete]"

datatype selector_kind = SExact | SGlob | SNamespace

definition selector_kind_name :: "selector_kind \<Rightarrow> string" where
  "selector_kind_name k = (case k of SExact \<Rightarrow> ''exact'' | SGlob \<Rightarrow> ''glob'' | SNamespace \<Rightarrow> ''namespace'')"

definition RESOURCE_SELECTOR_KINDS :: "selector_kind list" where
  "RESOURCE_SELECTOR_KINDS = [SExact, SGlob, SNamespace]"

record resource_selector =
  sel_kind :: selector_kind
  sel_resource :: string

definition RESOURCE_INTENT_SCHEMA_VERSION :: int where "RESOURCE_INTENT_SCHEMA_VERSION = 1"
definition RESOURCE_COORDINATION_SCHEMA_VERSION :: int where "RESOURCE_COORDINATION_SCHEMA_VERSION = 1"

record resource_intent =
  int_schema_version :: int
  int_intent_id :: string
  int_session_id :: string
  int_repository_id :: "string option"
  int_claim_id :: "string option"
  int_mode :: intent_mode
  int_selector :: resource_selector

text \<open>A selector as a caller passes it: a string, an object with the two properties, or anything else.\<close>

datatype raw_selector = SelUndefined | SelString string | SelRecord js_value js_value | SelOther

record intent_input =
  ii_session_id :: js_value
  ii_repository_id :: js_value
  ii_claim_id :: js_value
  ii_mode :: js_value
  ii_operation :: js_value
  ii_kind :: js_value
  ii_resource :: js_value
  ii_selector :: raw_selector
  ii_selector_kind :: js_value
  ii_namespace :: js_value

datatype raw_intent = IntentNotRecord | IntentRecord intent_input

record overlap_node =
  nd_node_id :: string
  nd_session_id :: string
  nd_repository_id :: "string option"
  nd_claim :: "resource_claim option"
  nd_intents :: "resource_intent list"
  nd_selectors :: "resource_selector list"

record overlap_facts =
  ov_exact_resource_match :: bool
  ov_selector_intersection :: bool
  ov_parent_child_overlap :: bool
  ov_create_create_collision :: bool
  ov_overlapping :: bool

datatype overlap_kind = ExactResource | SelectorIntersection | ParentChild | CreateCreate | MultipleKinds

record overlap_classification =
  cl_facts :: overlap_facts
  cl_kind :: overlap_kind
  cl_kinds :: "overlap_kind list"

record overlap_edge =
  ed_schema_version :: int
  ed_pair_key :: string
  ed_edge_id :: string
  ed_left :: overlap_node
  ed_right :: overlap_node
  ed_facts :: overlap_facts
  ed_classification :: overlap_classification

record raw_bounds =
  rb_max_sessions :: json
  rb_max_pairs :: json
  rb_max_selectors :: json
  rb_max_session_count :: json
  rb_max_pair_count :: json
  rb_max_selector_count :: json

record overlap_bounds =
  bd_max_sessions :: nat
  bd_max_pairs :: nat
  bd_max_selectors :: nat

record overlap_graph =
  og_schema_version :: int
  og_serialization_key :: string
  og_edges :: "overlap_edge list"
  og_complete :: bool
  og_clean :: bool
  og_unevaluated_pairs :: nat
  og_unevaluated_selectors :: nat
  og_unevaluated_count :: nat
  og_omitted_sessions :: nat
  og_bounds :: overlap_bounds

text \<open>What may be thrown: an error of this module, or one of the overlap test of claims\<close>

datatype coordination_code = INVALID_INTENT | INVALID_SELECTOR | INVALID_BOUNDS

datatype graph_error = ResourceCoordinationError coordination_code | ClaimFailure registry_error

section \<open>Selectors\<close>

definition selector_kind_of :: "js_value \<Rightarrow> selector_kind option" where
  "selector_kind_of v =
     (case v of JsString s \<Rightarrow> find (\<lambda>k. selector_kind_name k = s) RESOURCE_SELECTOR_KINDS | _ \<Rightarrow> None)"

text \<open>On a value that is no string the kind does not matter: such a resource is refused.\<close>

definition infer_selector_kind :: "js_value \<Rightarrow> selector_kind" where
  "infer_selector_kind v = (case v of JsString s \<Rightarrow> if has_wildcard s then SGlob else SExact | _ \<Rightarrow> SExact)"

definition canonical_selector_syntax :: "string \<Rightarrow> graph_error + string" where
  "canonical_selector_syntax resource =
     (let invalid = ResourceCoordinationError INVALID_SELECTOR;
          segments = split_on slash resource in
      if NUL \<in> set resource \<or> CHR 0x5C \<in> set resource \<or> take 1 resource = ''/'' \<or>
         windows_absolute_path resource \<or> windows_drive_relative_path resource then Inl invalid
      else if resource \<noteq> normalize_nfc resource then Inl invalid
      else if list_ex (\<lambda>s. s = [] \<or> s = dot \<or> s = dotdot) segments then Inl invalid
      else if list_ex unsupported_glob_syntax segments then Inl invalid
      else if list_ex (\<lambda>s. has_double_star s \<and> s \<noteq> ''**'') segments then Inl invalid
      else Inr (join_with slash segments))"

definition normalize_selector_record :: "selector_kind option \<Rightarrow> js_value \<Rightarrow> graph_error + resource_selector" where
  "normalize_selector_record kind resource =
     (let invalid = ResourceCoordinationError INVALID_SELECTOR in
      case kind of
        None \<Rightarrow> Inl invalid
      | Some k \<Rightarrow>
          (case resource of
             JsString s \<Rightarrow>
               if s = [] then Inl invalid
               else bind_sum (canonical_selector_syntax s) (\<lambda>r.
                 if k = SExact \<and> has_wildcard r then Inl invalid
                 else if k = SNamespace \<and> has_wildcard r then Inl invalid
                 else Inr \<lparr>sel_kind = k, sel_resource = r\<rparr>)
           | _ \<Rightarrow> Inl invalid))"

text \<open>\<open>normalizeSelector\<close>, on a caller's value and on a selector of the model\<close>

definition normalize_raw_selector :: "raw_selector \<Rightarrow> graph_error + resource_selector" where
  "normalize_raw_selector v =
     (case v of
        SelString s \<Rightarrow> normalize_selector_record (Some (infer_selector_kind (JsString s))) (JsString s)
      | SelRecord kind resource \<Rightarrow> normalize_selector_record (selector_kind_of kind) resource
      | _ \<Rightarrow> Inl (ResourceCoordinationError INVALID_SELECTOR))"

definition normalize_selector :: "resource_selector \<Rightarrow> graph_error + resource_selector" where
  "normalize_selector s = normalize_selector_record (Some (sel_kind s)) (JsString (sel_resource s))"

definition normalize_selector_input :: "intent_input \<Rightarrow> graph_error + resource_selector" where
  "normalize_selector_input input =
     (let invalid = ResourceCoordinationError INVALID_SELECTOR in
      if ii_namespace input \<noteq> JsUndefined then
        if ii_resource input \<noteq> JsUndefined \<or> ii_selector input \<noteq> SelUndefined \<or> ii_selector_kind input \<noteq> JsUndefined
        then Inl invalid
        else normalize_selector_record (Some SNamespace) (ii_namespace input)
      else if ii_selector input \<noteq> SelUndefined then
        if ii_resource input \<noteq> JsUndefined \<or> ii_selector_kind input \<noteq> JsUndefined then Inl invalid
        else normalize_raw_selector (ii_selector input)
      else if ii_resource input = JsUndefined then Inl invalid
      else normalize_selector_record
        (if ii_selector_kind input = JsUndefined \<or> ii_selector_kind input = JsNull
         then Some (infer_selector_kind (ii_resource input)) else selector_kind_of (ii_selector_kind input))
        (ii_resource input))"

definition path_prefix :: "string \<Rightarrow> string \<Rightarrow> bool" where
  "path_prefix parent child \<longleftrightarrow> parent = child \<or> prefix (parent @ ''/'') child"

definition namespace_selector_overlap :: "resource_selector \<Rightarrow> resource_selector \<Rightarrow> bool" where
  "namespace_selector_overlap l r =
     (if sel_kind l = SNamespace \<and> sel_kind r = SNamespace then
        path_prefix (sel_resource l) (sel_resource r) \<or> path_prefix (sel_resource r) (sel_resource l)
      else
        let ns = (if sel_kind l = SNamespace then sel_resource l else sel_resource r);
            other = (if sel_kind l = SNamespace then r else l) in
        if sel_kind other = SExact then path_prefix ns (sel_resource other)
        else coord_glob_patterns_overlap (ns @ ''/**'') (sel_resource other) \<or>
             coord_glob_patterns_overlap ns (sel_resource other))"

definition resource_selectors_overlap :: "resource_selector \<Rightarrow> resource_selector \<Rightarrow> graph_error + bool" where
  "resource_selectors_overlap left right =
     bind_sum (normalize_selector left) (\<lambda>a.
     bind_sum (normalize_selector right) (\<lambda>b.
     Inr (if sel_kind a = SNamespace \<or> sel_kind b = SNamespace then namespace_selector_overlap a b
          else if sel_kind a = SExact \<and> sel_kind b = SExact then sel_resource a = sel_resource b
          else coord_glob_patterns_overlap (sel_resource a) (sel_resource b))))"

section \<open>Intents\<close>

definition intent_mode_of :: "js_value \<Rightarrow> intent_mode option" where
  "intent_mode_of v =
     (case v of JsString s \<Rightarrow> find (\<lambda>m. intent_mode_name m = s) RESOURCE_INTENT_MODES | _ \<Rightarrow> None)"

definition read_intent_mode :: "intent_input \<Rightarrow> graph_error + intent_mode" where
  "read_intent_mode input =
     (let invalid = ResourceCoordinationError INVALID_INTENT;
          values = filter (\<lambda>v. v \<noteq> JsUndefined) [ii_mode input, ii_operation input, ii_kind input] in
      if values = [] \<or> list_ex (\<lambda>v. intent_mode_of v = None) values then Inl invalid
      else if card (set values) \<noteq> 1 then Inl invalid
      else Inr (the (intent_mode_of (hd values))))"

definition intent_id_preimage ::
  "string \<Rightarrow> intent_mode \<Rightarrow> resource_selector \<Rightarrow> string option \<Rightarrow> string" where
  "intent_id_preimage session mode selector claim_id =
     session @ NUL # intent_mode_name mode @ NUL # selector_kind_name (sel_kind selector) @ NUL # sel_resource selector @
     (case claim_id of None \<Rightarrow> [] | Some c \<Rightarrow> NUL # c)"

definition canonical_resource_intent_id ::
  "(string \<Rightarrow> string) \<Rightarrow> string \<Rightarrow> intent_mode \<Rightarrow> resource_selector \<Rightarrow> string option \<Rightarrow> graph_error + string" where
  "canonical_resource_intent_id sha session mode selector claim_id =
     bind_sum (normalize_selector selector) (\<lambda>normalized.
     Inr (''intent-'' @ sha (intent_id_preimage session mode normalized claim_id)))"

text \<open>An optional property that has to be a non-empty string\<close>

definition optional_text :: "js_value \<Rightarrow> graph_error + string option" where
  "optional_text v =
     (case v of
        JsUndefined \<Rightarrow> Inr None
      | JsString s \<Rightarrow> if s = [] then Inl (ResourceCoordinationError INVALID_INTENT) else Inr (Some s)
      | _ \<Rightarrow> Inl (ResourceCoordinationError INVALID_INTENT))"

definition create_resource_intent :: "(string \<Rightarrow> string) \<Rightarrow> raw_intent \<Rightarrow> graph_error + resource_intent" where
  "create_resource_intent sha raw =
     (let invalid = ResourceCoordinationError INVALID_INTENT in
      case raw of
        IntentNotRecord \<Rightarrow> Inl invalid
      | IntentRecord input \<Rightarrow>
          (case ii_session_id input of
             JsString session \<Rightarrow>
               if session = [] then Inl invalid
               else
                 bind_sum (read_intent_mode input) (\<lambda>mode.
                 bind_sum (normalize_selector_input input) (\<lambda>selector.
                 bind_sum (optional_text (ii_repository_id input)) (\<lambda>repository_id.
                 bind_sum (optional_text (ii_claim_id input)) (\<lambda>claim_id.
                 bind_sum (canonical_resource_intent_id sha session mode selector claim_id) (\<lambda>intent_id.
                 Inr \<lparr>int_schema_version = RESOURCE_INTENT_SCHEMA_VERSION, int_intent_id = intent_id,
                      int_session_id = session, int_repository_id = repository_id, int_claim_id = claim_id,
                      int_mode = mode, int_selector = selector\<rparr>)))))
           | _ \<Rightarrow> Inl invalid))"

definition normalize_intent :: "(string \<Rightarrow> string) \<Rightarrow> raw_intent \<Rightarrow> graph_error + resource_intent" where
  "normalize_intent sha raw =
     (case raw of
        IntentNotRecord \<Rightarrow> Inl (ResourceCoordinationError INVALID_INTENT)
      | IntentRecord input \<Rightarrow>
          create_resource_intent sha (IntentRecord
            \<lparr>ii_session_id = ii_session_id input, ii_repository_id = ii_repository_id input,
             ii_claim_id = ii_claim_id input, ii_mode = ii_mode input, ii_operation = JsUndefined,
             ii_kind = JsUndefined, ii_resource = JsUndefined, ii_selector = ii_selector input,
             ii_selector_kind = JsUndefined, ii_namespace = JsUndefined\<rparr>))"

section \<open>Nodes\<close>

definition claim_selector :: "resource_claim \<Rightarrow> resource_selector" where
  "claim_selector claim =
     \<lparr>sel_kind = (if has_wildcard (rc_resource claim) then SGlob else SExact), sel_resource = rc_resource claim\<rparr>"

definition node_sort_key :: "overlap_node \<Rightarrow> string" where
  "node_sort_key node = nd_session_id node @ NUL # nd_node_id node"

definition selector_sort_key :: "resource_selector \<Rightarrow> string" where
  "selector_sort_key s = selector_kind_name (sel_kind s) @ NUL # sel_resource s"

text \<open>A \<open>Map\<close> keeps its keys in the order of their first insertion, as \<open>AList.update\<close> does.\<close>

definition unique_selectors :: "resource_selector list \<Rightarrow> resource_selector list" where
  "unique_selectors selectors =
     sort_key selector_sort_key
       (map snd (fold (\<lambda>s. AList.update (selector_sort_key s) s) selectors []))"

definition attached_intents :: "resource_intent list \<Rightarrow> resource_claim \<Rightarrow> resource_intent list" where
  "attached_intents intents claim =
     filter (\<lambda>i. int_claim_id i = Some (rc_claim_id claim) \<and> int_session_id i = rc_session_id claim) intents"

definition claim_node :: "resource_intent list \<Rightarrow> resource_claim \<Rightarrow> overlap_node" where
  "claim_node intents claim =
     (let attached = attached_intents intents claim in
      \<lparr>nd_node_id = rc_claim_id claim, nd_session_id = rc_session_id claim,
       nd_repository_id = Some (rc_repository_id claim), nd_claim = Some claim, nd_intents = attached,
       nd_selectors = unique_selectors (claim_selector claim # map int_selector attached)\<rparr>)"

definition intent_node :: "resource_intent \<Rightarrow> overlap_node" where
  "intent_node intent =
     \<lparr>nd_node_id = int_intent_id intent, nd_session_id = int_session_id intent,
      nd_repository_id = int_repository_id intent, nd_claim = None, nd_intents = [intent],
      nd_selectors = [int_selector intent]\<rparr>"

definition build_nodes :: "(string \<Rightarrow> string) \<Rightarrow> resource_claim list \<Rightarrow> raw_intent list \<Rightarrow> graph_error + overlap_node list" where
  "build_nodes sha claims intents =
     (let sorted_claims = sort_key rc_claim_id claims in
      bind_sum (map_sum_list (normalize_intent sha) intents) (\<lambda>normalized.
      let sorted_intents = sort_key int_intent_id normalized;
          claimed = map int_intent_id (concat (map (attached_intents sorted_intents) sorted_claims));
          nodes = map (claim_node sorted_intents) sorted_claims @
            map intent_node (filter (\<lambda>i. int_intent_id i \<notin> set claimed) sorted_intents) in
      Inr (sort_key node_sort_key nodes)))"

section \<open>The facts of a pair\<close>

definition is_parent_child_selector_pair :: "resource_selector \<Rightarrow> resource_selector \<Rightarrow> bool" where
  "is_parent_child_selector_pair l r =
     (if sel_kind l \<noteq> SNamespace \<and> sel_kind r \<noteq> SNamespace then False
      else
        let ns = (if sel_kind l = SNamespace then sel_resource l else sel_resource r);
            other = (if sel_kind l = SNamespace then r else l) in
        if sel_kind other = SNamespace then ns \<noteq> sel_resource other \<and> path_prefix ns (sel_resource other)
        else if sel_kind other = SExact then ns \<noteq> sel_resource other \<and> path_prefix ns (sel_resource other)
        else coord_glob_patterns_overlap (ns @ ''/**/*'') (sel_resource other))"

definition no_facts :: overlap_facts where
  "no_facts = \<lparr>ov_exact_resource_match = False, ov_selector_intersection = False, ov_parent_child_overlap = False,
     ov_create_create_collision = False, ov_overlapping = False\<rparr>"

text \<open>One step of the loop over the pairs of selectors; \<open>claims_overlap_fact\<close> is the verdict on the two claims.\<close>

definition selector_pair_step ::
  "resource_selector option \<Rightarrow> resource_selector option \<Rightarrow> bool option \<Rightarrow> resource_selector \<times> resource_selector \<Rightarrow>
   overlap_facts \<Rightarrow> graph_error + overlap_facts" where
  "selector_pair_step left_claim right_claim claims_overlap_fact pair facts =
     (let (l, r) = pair;
          primary = (Some l = left_claim \<and> Some r = right_claim) in
      bind_sum (resource_selectors_overlap l r) (\<lambda>selected.
      if \<not> (selected \<and> (\<not> primary \<or> claims_overlap_fact = Some True)) then Inr facts
      else Inr (facts
        \<lparr>ov_exact_resource_match := ov_exact_resource_match facts \<or>
           (sel_kind l = SExact \<and> sel_kind r = SExact \<and> sel_resource l = sel_resource r),
         ov_selector_intersection := ov_selector_intersection facts \<or> sel_kind l \<noteq> SExact \<or> sel_kind r \<noteq> SExact,
         ov_parent_child_overlap := ov_parent_child_overlap facts \<or> is_parent_child_selector_pair l r\<rparr>)))"

fun fold_facts_sum :: "('a \<Rightarrow> 'b \<Rightarrow> 'e + 'b) \<Rightarrow> 'a list \<Rightarrow> 'b \<Rightarrow> 'e + 'b" where
  "fold_facts_sum f [] b = Inr b"
| "fold_facts_sum f (x # xs) b = bind_sum (f x b) (fold_facts_sum f xs)"

definition create_pair_step ::
  "resource_intent \<times> resource_intent \<Rightarrow> overlap_facts \<Rightarrow> graph_error + overlap_facts" where
  "create_pair_step pair facts =
     (let (l, r) = pair in
      if int_mode l \<noteq> PlanCreate \<or> int_mode r \<noteq> PlanCreate then Inr facts
      else bind_sum (resource_selectors_overlap (int_selector l) (int_selector r)) (\<lambda>selected.
        Inr (if selected then facts\<lparr>ov_create_create_collision := True\<rparr> else facts)))"

definition claim_pair_overlap ::
  "filesystem \<Rightarrow> resource_claim option \<Rightarrow> resource_claim option \<Rightarrow> graph_error + bool option" where
  "claim_pair_overlap fs left right =
     (case (left, right) of
        (Some l, Some r) \<Rightarrow> (case claims_overlap fs l r of Inl e \<Rightarrow> Inl (ClaimFailure e) | Inr b \<Rightarrow> Inr (Some b))
      | _ \<Rightarrow> Inr None)"

definition pair_facts :: "filesystem \<Rightarrow> overlap_node \<Rightarrow> overlap_node \<Rightarrow> graph_error + overlap_facts" where
  "pair_facts fs left right =
     bind_sum (claim_pair_overlap fs (nd_claim left) (nd_claim right)) (\<lambda>claims_overlap_fact.
     bind_sum (fold_facts_sum
       (selector_pair_step (map_option claim_selector (nd_claim left)) (map_option claim_selector (nd_claim right))
          claims_overlap_fact)
       (List.product (nd_selectors left) (nd_selectors right)) no_facts) (\<lambda>facts.
     bind_sum (fold_facts_sum create_pair_step (List.product (nd_intents left) (nd_intents right)) facts) (\<lambda>facts.
     Inr (facts\<lparr>ov_overlapping := ov_exact_resource_match facts \<or> ov_selector_intersection facts \<or>
       ov_parent_child_overlap facts \<or> ov_create_create_collision facts\<rparr>))))"

definition classify_facts :: "overlap_facts \<Rightarrow> overlap_classification" where
  "classify_facts facts =
     (let kinds =
        (if ov_exact_resource_match facts then [ExactResource] else []) @
        (if ov_selector_intersection facts then [SelectorIntersection] else []) @
        (if ov_parent_child_overlap facts then [ParentChild] else []) @
        (if ov_create_create_collision facts then [CreateCreate] else []) in
      \<lparr>cl_facts = facts, cl_kind = (if length kinds = 1 then hd kinds else MultipleKinds), cl_kinds = kinds\<rparr>)"

section \<open>The graph\<close>

definition DEFAULT_BOUNDS :: overlap_bounds where
  "DEFAULT_BOUNDS = \<lparr>bd_max_sessions = 128, bd_max_pairs = 4096, bd_max_selectors = 4096\<rparr>"

text \<open>\<open>first ?? second ?? default\<close>, and the test that follows\<close>

definition bound_of :: "json \<Rightarrow> json \<Rightarrow> nat \<Rightarrow> graph_error + nat" where
  "bound_of first second fallback =
     (let missing = (\<lambda>v. v = JUndefined \<or> v = JNull) in
      case (if \<not> missing first then first else if \<not> missing second then second else JNum (int fallback)) of
        JNum n \<Rightarrow> if 0 \<le> n \<and> n \<le> 9007199254740991 then Inr (nat n) else Inl (ResourceCoordinationError INVALID_BOUNDS)
      | _ \<Rightarrow> Inl (ResourceCoordinationError INVALID_BOUNDS))"

definition normalize_bounds :: "raw_bounds \<Rightarrow> graph_error + overlap_bounds" where
  "normalize_bounds bounds =
     bind_sum (bound_of (rb_max_sessions bounds) (rb_max_session_count bounds) (bd_max_sessions DEFAULT_BOUNDS)) (\<lambda>sessions.
     bind_sum (bound_of (rb_max_pairs bounds) (rb_max_pair_count bounds) (bd_max_pairs DEFAULT_BOUNDS)) (\<lambda>pairs.
     bind_sum (bound_of (rb_max_selectors bounds) (rb_max_selector_count bounds) (bd_max_selectors DEFAULT_BOUNDS)) (\<lambda>selectors.
     Inr \<lparr>bd_max_sessions = sessions, bd_max_pairs = pairs, bd_max_selectors = selectors\<rparr>)))"

text \<open>\<open>limitSelectors\<close>: a node that does not fit is left out, later smaller ones may still fit.\<close>

fun limit_selectors :: "nat \<Rightarrow> nat \<Rightarrow> overlap_node list \<Rightarrow> overlap_node list \<times> nat" where
  "limit_selectors maximum used [] = ([], 0)"
| "limit_selectors maximum used (node # nodes) =
     (let count = length (nd_selectors node) in
      if used + count \<le> maximum then
        (let (selected, omitted) = limit_selectors maximum (used + count) nodes in (node # selected, omitted))
      else (let (selected, omitted) = limit_selectors maximum used nodes in (selected, omitted + count)))"

definition order_nodes :: "overlap_node \<Rightarrow> overlap_node \<Rightarrow> overlap_node \<times> overlap_node" where
  "order_nodes l r = (if compare_code_point_strings (node_sort_key l) (node_sort_key r) \<le> 0 then (l, r) else (r, l))"

definition make_pair_key :: "overlap_node \<Rightarrow> overlap_node \<Rightarrow> string" where
  "make_pair_key left right =
     (let (first, second) = order_nodes left right in
      nd_session_id first @ NUL # nd_node_id first @ NUL # nd_session_id second @ NUL # nd_node_id second)"

definition comparable_nodes :: "overlap_node \<Rightarrow> overlap_node \<Rightarrow> bool" where
  "comparable_nodes l r \<longleftrightarrow>
     nd_session_id l \<noteq> nd_session_id r \<and>
     \<not> (nd_repository_id l \<noteq> None \<and> nd_repository_id r \<noteq> None \<and> nd_repository_id l \<noteq> nd_repository_id r)"

fun candidate_pairs :: "overlap_node list \<Rightarrow> (overlap_node \<times> overlap_node) list" where
  "candidate_pairs [] = []"
| "candidate_pairs (n # ns) = map (Pair n) (filter (comparable_nodes n) ns) @ candidate_pairs ns"

definition edge_of_pair ::
  "(string \<Rightarrow> string) \<Rightarrow> filesystem \<Rightarrow> overlap_node \<times> overlap_node \<Rightarrow> graph_error + overlap_edge option" where
  "edge_of_pair sha fs pair =
     (let (left, right) = order_nodes (fst pair) (snd pair) in
      bind_sum (pair_facts fs left right) (\<lambda>facts.
      if \<not> ov_overlapping facts then Inr None
      else
        let pair_key = make_pair_key left right in
        Inr (Some \<lparr>ed_schema_version = RESOURCE_COORDINATION_SCHEMA_VERSION, ed_pair_key = pair_key,
          ed_edge_id = ''overlap-'' @ sha pair_key, ed_left = left, ed_right = right, ed_facts = facts,
          ed_classification = classify_facts facts\<rparr>)))"

definition build_resource_overlap_graph ::
  "(string \<Rightarrow> string) \<Rightarrow> filesystem \<Rightarrow> resource_claim list \<Rightarrow> raw_intent list \<Rightarrow> raw_bounds \<Rightarrow>
   graph_error + overlap_graph" where
  "build_resource_overlap_graph sha fs claims intents raw =
     bind_sum (normalize_bounds raw) (\<lambda>bounds.
     bind_sum (build_nodes sha claims intents) (\<lambda>nodes.
     let session_ids = sort (remdups (map nd_session_id nodes));
         selected_sessions = take (bd_max_sessions bounds) session_ids;
         omitted_sessions = length session_ids - length selected_sessions;
         session_nodes = filter (\<lambda>n. nd_session_id n \<in> set selected_sessions) nodes;
         session_omitted = sum_list (map (\<lambda>n. length (nd_selectors n))
           (filter (\<lambda>n. nd_session_id n \<notin> set selected_sessions) nodes));
         (selected_nodes, omitted) = limit_selectors (bd_max_selectors bounds) 0 session_nodes;
         candidates = candidate_pairs selected_nodes;
         evaluated = min (length candidates) (bd_max_pairs bounds) in
     bind_sum (map_sum_list (edge_of_pair sha fs) (take evaluated candidates)) (\<lambda>found.
     let edges = sort_key ed_pair_key (List.map_filter id found);
         unevaluated_pairs = length candidates - evaluated;
         unevaluated_selectors = omitted + session_omitted;
         complete = (unevaluated_pairs = 0 \<and> unevaluated_selectors = 0) in
     Inr \<lparr>og_schema_version = RESOURCE_COORDINATION_SCHEMA_VERSION, og_serialization_key = ''coordination'',
          og_edges = edges, og_complete = complete, og_clean = (complete \<and> edges = []),
          og_unevaluated_pairs = unevaluated_pairs, og_unevaluated_selectors = unevaluated_selectors,
          og_unevaluated_count = unevaluated_pairs + unevaluated_selectors, og_omitted_sessions = omitted_sessions,
          og_bounds = bounds\<rparr>)))"

section \<open>What a selector selects\<close>

definition selector_selects :: "resource_selector \<Rightarrow> string \<Rightarrow> bool" where
  "selector_selects s path =
     (case sel_kind s of
        SExact \<Rightarrow> path = sel_resource s
      | SGlob \<Rightarrow> glob_selects (sel_resource s) path
      | SNamespace \<Rightarrow> path_prefix (sel_resource s) path)"

definition selector_ok :: "resource_selector \<Rightarrow> bool" where
  "selector_ok s \<longleftrightarrow> canonical_resource (sel_resource s) \<and> (sel_kind s \<noteq> SGlob \<longrightarrow> \<not> has_wildcard (sel_resource s))"

text \<open>The two modules agree on what a canonical spelling is.\<close>

lemma canonical_selector_syntax_Inr:
  "canonical_selector_syntax r = Inr c \<longleftrightarrow> c = r \<and> canonical_resource r"
proof -
  have head: "take 1 r = ''/'' \<Longrightarrow> [] \<in> set (split_on slash r)"
    by (cases r) auto
  show ?thesis
    using head windows_absolute_is_drive
    by (auto simp: canonical_selector_syntax_def canonical_resource_def Let_def list_ex_iff real_name_def normalize_nfc_def
        dest: split_on_no_sep split: if_splits)
qed

lemma normalize_selector_record_Inr:
  "normalize_selector_record kind resource = Inr t \<longleftrightarrow>
     kind = Some (sel_kind t) \<and> resource = JsString (sel_resource t) \<and> selector_ok t"
  using canonical_resource_nonempty
  by (cases t) (auto simp: normalize_selector_record_def selector_ok_def Let_def sum_simps canonical_selector_syntax_Inr
      split: option.splits js_value.splits if_splits; metis selector_kind.exhaust)

lemma normalize_selector_Inr: "normalize_selector s = Inr t \<longleftrightarrow> t = s \<and> selector_ok s"
  by (cases s; cases t) (auto simp: normalize_selector_def normalize_selector_record_Inr)

lemma split_on_append_sep: "split_on c (xs @ c # ys) = split_on c xs @ split_on c ys"
  by (induction xs) (auto split: list.splits)

lemma join_with_append:
  "ss \<noteq> [] \<Longrightarrow> ts \<noteq> [] \<Longrightarrow> join_with c (ss @ ts) = join_with c ss @ c # join_with c ts"
  by (induction c ss rule: join_with.induct) (auto simp: neq_Nil_conv)

lemma path_prefix_iff: "path_prefix parent child \<longleftrightarrow> prefix (split_on slash parent) (split_on slash child)"
proof
  assume "path_prefix parent child"
  then show "prefix (split_on slash parent) (split_on slash child)"
    by (auto simp: path_prefix_def prefix_def split_on_append_sep)
next
  assume "prefix (split_on slash parent) (split_on slash child)"
  then obtain ts where ts: "split_on slash child = split_on slash parent @ ts"
    by (auto simp: prefix_def)
  have "child = join_with slash (split_on slash parent @ ts)"
    by (metis ts join_split)
  then show "path_prefix parent child"
    by (cases "ts = []") (simp_all add: path_prefix_def join_with_append)
qed

lemma literal_seg_match: "\<not> has_wildcard p \<Longrightarrow> seg_match p s \<longleftrightarrow> p = s"
  by (induction p s rule: seg_match.induct) (auto simp: has_wildcard_def)

lemma has_wildcard_star [simp]: "has_wildcard ''**''"
  by (simp add: has_wildcard_def)

lemma path_match_literal_append:
  "\<forall>p\<in>set ps. \<not> has_wildcard p \<Longrightarrow> path_match (ps @ qs) w \<longleftrightarrow> (\<exists>v. w = ps @ v \<and> path_match qs v)"
proof (induction ps arbitrary: w)
  case (Cons p ps)
  moreover from Cons.prems have "p \<noteq> ''**''" by auto
  ultimately show ?case by (cases w) (auto simp: literal_seg_match)
qed simp

lemma literal_path_match: "\<forall>p\<in>set ps. \<not> has_wildcard p \<Longrightarrow> path_match ps w \<longleftrightarrow> w = ps"
  using path_match_literal_append [of ps "[]" w] by auto

lemma path_match_any [simp]: "path_match [''**''] w"
  by (induction w) auto

lemma has_wildcard_split: "\<not> has_wildcard r \<Longrightarrow> \<forall>p\<in>set (split_on slash r). \<not> has_wildcard p"
proof (induction r)
  case (Cons c r)
  then show ?case by (auto simp: has_wildcard_def split: list.splits)
qed (simp add: has_wildcard_def)

lemma glob_selects_literal: "\<not> has_wildcard r \<Longrightarrow> glob_selects r path \<longleftrightarrow> path = r"
  by (simp add: glob_selects_def literal_path_match has_wildcard_split split_on_inj)

lemma glob_selects_below:
  "\<not> has_wildcard r \<Longrightarrow> glob_selects (r @ ''/**'') path \<longleftrightarrow> path_prefix r path"
  using path_match_literal_append [OF has_wildcard_split, of r "[''**'']" "split_on slash path"]
    split_on_append_sep [of slash r "''**''"]
  by (auto simp: glob_selects_def path_prefix_iff prefix_def)

lemma pattern_ok_below: "pattern_ok r \<Longrightarrow> pattern_ok (r @ ''/**'')"
  using split_on_append_sep [of slash r "''**''"] by (simp add: pattern_ok_def)

lemma literal_path_ok: "canonical_resource r \<Longrightarrow> path_ok r"
  using split_on_no_sep [of _ slash r]
  by (auto simp: path_ok_def names_ok_def canonical_resource_def real_name_def)

lemma path_prefix_refl [simp]: "path_prefix r r"
  by (simp add: path_prefix_def)

lemma common_path_of_namespaces:
  assumes "canonical_resource l" "canonical_resource r"
  shows "path_prefix l r \<or> path_prefix r l \<longleftrightarrow> (\<exists>path. path_ok path \<and> path_prefix l path \<and> path_prefix r path)"
proof
  assume "path_prefix l r \<or> path_prefix r l"
  then show "\<exists>path. path_ok path \<and> path_prefix l path \<and> path_prefix r path"
    using assms literal_path_ok path_prefix_refl by blast
next
  assume "\<exists>path. path_ok path \<and> path_prefix l path \<and> path_prefix r path"
  then show "path_prefix l r \<or> path_prefix r l"
    using prefix_same_cases unfolding path_prefix_iff by blast
qed

text \<open>The overlap test decides whether the two selectors have a path in common.\<close>

definition share_path :: "resource_selector \<Rightarrow> resource_selector \<Rightarrow> bool" where
  "share_path l r \<longleftrightarrow> (\<exists>path. path_ok path \<and> selector_selects l path \<and> selector_selects r path)"

lemma share_path_sym: "share_path l r \<longleftrightarrow> share_path r l"
  by (auto simp: share_path_def)

lemma namespace_selector_overlap_left:
  assumes "selector_ok l" "selector_ok r" "sel_kind l = SNamespace"
  shows "namespace_selector_overlap l r \<longleftrightarrow> share_path l r"
proof -
  have ok: "canonical_resource (sel_resource l)" "canonical_resource (sel_resource r)" "\<not> has_wildcard (sel_resource l)"
    using assms by (simp_all add: selector_ok_def)
  show ?thesis
  proof (cases "sel_kind r")
    case SExact
    with ok assms show ?thesis
      by (auto simp: namespace_selector_overlap_def share_path_def selector_selects_def literal_path_ok)
  next
    case SNamespace
    with ok assms show ?thesis
      by (simp add: namespace_selector_overlap_def share_path_def selector_selects_def common_path_of_namespaces)
  next
    case SGlob
    with ok assms show ?thesis
      by (auto simp: namespace_selector_overlap_def share_path_def selector_selects_def coord_overlap_decides
          canonical_pattern_ok pattern_ok_below glob_selects_below glob_selects_literal Let_def)
  qed
qed

lemma namespace_selector_overlap_right:
  "sel_kind l \<noteq> SNamespace \<Longrightarrow> sel_kind r = SNamespace \<Longrightarrow>
   namespace_selector_overlap l r = namespace_selector_overlap r l"
  by (simp add: namespace_selector_overlap_def)

lemma resource_selectors_overlap_eq:
  assumes "selector_ok l" "selector_ok r"
  shows "resource_selectors_overlap l r = Inr (share_path l r)"
proof -
  have canonical: "canonical_resource (sel_resource l)" "canonical_resource (sel_resource r)"
    using assms by (simp_all add: selector_ok_def)
  have normal: "normalize_selector l = Inr l" "normalize_selector r = Inr r"
    using assms by (simp_all add: normalize_selector_Inr)
  consider "sel_kind l = SNamespace" | "sel_kind l \<noteq> SNamespace" "sel_kind r = SNamespace"
    | "sel_kind l \<noteq> SNamespace" "sel_kind r \<noteq> SNamespace" by blast
  then show ?thesis
  proof cases
    case 1
    then show ?thesis using assms normal
      by (simp add: resource_selectors_overlap_def namespace_selector_overlap_left)
  next
    case 2
    then show ?thesis
      using normal namespace_selector_overlap_right [of l r] namespace_selector_overlap_left [of r l] assms
      by (simp add: resource_selectors_overlap_def share_path_sym [of l r])
  next
    case 3
    then show ?thesis using assms normal canonical
      by (cases "sel_kind l"; cases "sel_kind r")
        (auto simp: resource_selectors_overlap_def share_path_def selector_selects_def coord_overlap_decides
          canonical_pattern_ok literal_path_ok selector_ok_def glob_selects_literal)
  qed
qed

lemma resource_selectors_overlap_Inr:
  "resource_selectors_overlap l r = Inr b \<longleftrightarrow> selector_ok l \<and> selector_ok r \<and> b = share_path l r"
proof (cases "selector_ok l \<and> selector_ok r")
  case True
  then show ?thesis by (auto simp: resource_selectors_overlap_eq)
next
  case False
  then show ?thesis by (auto simp: resource_selectors_overlap_def bind_sum_eq_Inr normalize_selector_Inr)
qed

section \<open>What the facts of a pair say\<close>

definition pair_hit ::
  "resource_selector option \<Rightarrow> resource_selector option \<Rightarrow> bool option \<Rightarrow> resource_selector \<times> resource_selector \<Rightarrow> bool" where
  "pair_hit lc rc co pair \<longleftrightarrow>
     share_path (fst pair) (snd pair) \<and> (\<not> (Some (fst pair) = lc \<and> Some (snd pair) = rc) \<or> co = Some True)"

definition selected_fact :: "overlap_facts \<Rightarrow> bool" where
  "selected_fact f \<longleftrightarrow> ov_exact_resource_match f \<or> ov_selector_intersection f"

lemma share_path_exact:
  "sel_kind l = SExact \<Longrightarrow> sel_kind r = SExact \<Longrightarrow> share_path l r \<Longrightarrow> sel_resource l = sel_resource r"
  by (auto simp: share_path_def selector_selects_def)

lemma selector_pair_step_D:
  assumes "selector_pair_step lc rc co pair f = Inr g"
  shows "selector_ok (fst pair) \<and> selector_ok (snd pair) \<and>
    (selected_fact g \<longleftrightarrow> selected_fact f \<or> pair_hit lc rc co pair) \<and>
    (ov_parent_child_overlap g \<longrightarrow> ov_parent_child_overlap f \<or> pair_hit lc rc co pair) \<and>
    ov_create_create_collision g = ov_create_create_collision f"
proof -
  obtain l r where pair: "pair = (l, r)" by (cases pair)
  have ok: "selector_ok l" "selector_ok r"
    using assms pair by (auto simp: selector_pair_step_def sum_simps resource_selectors_overlap_Inr)
  show ?thesis
  proof (cases "pair_hit lc rc co pair")
    case True
    then have "sel_kind l \<noteq> SExact \<or> sel_kind r \<noteq> SExact \<or> sel_resource l = sel_resource r"
      using share_path_exact [of l r] pair by (auto simp: pair_hit_def)
    with True show ?thesis
      using assms pair ok
      by (auto simp: selector_pair_step_def resource_selectors_overlap_eq pair_hit_def selected_fact_def Let_def
          split: if_splits)
  next
    case False
    with assms pair ok have "g = f"
      by (auto simp: selector_pair_step_def resource_selectors_overlap_eq pair_hit_def Let_def split: if_splits)
    with False ok pair show ?thesis by simp
  qed
qed

lemma selector_pairs_D:
  assumes "fold_facts_sum (selector_pair_step lc rc co) pairs f = Inr g"
  shows "(\<forall>p\<in>set pairs. selector_ok (fst p) \<and> selector_ok (snd p)) \<and>
    (selected_fact g \<longleftrightarrow> selected_fact f \<or> (\<exists>p\<in>set pairs. pair_hit lc rc co p)) \<and>
    (ov_parent_child_overlap g \<longrightarrow> ov_parent_child_overlap f \<or> (\<exists>p\<in>set pairs. pair_hit lc rc co p)) \<and>
    ov_create_create_collision g = ov_create_create_collision f"
  using assms
proof (induction pairs arbitrary: f)
  case (Cons p pairs)
  then obtain h where "selector_pair_step lc rc co p f = Inr h" "fold_facts_sum (selector_pair_step lc rc co) pairs h = Inr g"
    by (auto simp: sum_simps)
  with selector_pair_step_D [of lc rc co p f h] Cons.IH [of h] show ?case by auto
qed simp

definition creates_collide :: "resource_intent \<times> resource_intent \<Rightarrow> bool" where
  "creates_collide p \<longleftrightarrow> int_mode (fst p) = PlanCreate \<and> int_mode (snd p) = PlanCreate \<and>
     share_path (int_selector (fst p)) (int_selector (snd p))"

lemma create_pairs_D:
  assumes "fold_facts_sum create_pair_step pairs f = Inr g"
  shows "g = f\<lparr>ov_create_create_collision := ov_create_create_collision f \<or> (\<exists>p\<in>set pairs. creates_collide p)\<rparr>"
  using assms
proof (induction pairs arbitrary: f)
  case (Cons p pairs)
  then obtain h where h: "create_pair_step p f = Inr h" "fold_facts_sum create_pair_step pairs h = Inr g"
    by (auto simp: sum_simps)
  obtain l r where p: "p = (l, r)" by (cases p)
  have "h = f\<lparr>ov_create_create_collision := ov_create_create_collision f \<or> creates_collide p\<rparr>"
    using h(1) p by (auto simp: create_pair_step_def creates_collide_def sum_simps resource_selectors_overlap_Inr
        split: if_splits)
  with Cons.IH [OF h(2)] show ?case by simp
qed simp

text \<open>When do two nodes overlap? The verdict on two claims replaces that on their own two selectors.\<close>

definition nodes_overlap :: "filesystem \<Rightarrow> overlap_node \<Rightarrow> overlap_node \<Rightarrow> bool" where
  "nodes_overlap fs left right \<longleftrightarrow>
     (\<exists>l\<in>set (nd_selectors left). \<exists>r\<in>set (nd_selectors right). share_path l r \<and>
        \<not> (\<exists>c d. nd_claim left = Some c \<and> nd_claim right = Some d \<and> l = claim_selector c \<and> r = claim_selector d \<and>
               claims_overlap fs c d = Inr False)) \<or>
     (\<exists>i\<in>set (nd_intents left). \<exists>j\<in>set (nd_intents right). creates_collide (i, j))"

lemma claim_pair_overlap_Inr:
  "claim_pair_overlap fs lc rc = Inr co \<Longrightarrow>
   (case co of None \<Rightarrow> lc = None \<or> rc = None
    | Some b \<Rightarrow> \<exists>c d. lc = Some c \<and> rc = Some d \<and> claims_overlap fs c d = Inr b)"
  by (auto simp: claim_pair_overlap_def split: option.splits sum.splits)

lemma pair_facts_overlapping:
  assumes "pair_facts fs left right = Inr facts"
  shows "ov_overlapping facts \<longleftrightarrow> nodes_overlap fs left right"
proof -
  let ?lc = "map_option claim_selector (nd_claim left)" and ?rc = "map_option claim_selector (nd_claim right)"
  let ?selectors = "List.product (nd_selectors left) (nd_selectors right)"
  let ?intents = "List.product (nd_intents left) (nd_intents right)"
  obtain co f g where run: "claim_pair_overlap fs (nd_claim left) (nd_claim right) = Inr co"
    "fold_facts_sum (selector_pair_step ?lc ?rc co) ?selectors no_facts = Inr f"
    "fold_facts_sum create_pair_step ?intents f = Inr g"
    and facts: "facts = g\<lparr>ov_overlapping := ov_exact_resource_match g \<or> ov_selector_intersection g \<or>
       ov_parent_child_overlap g \<or> ov_create_create_collision g\<rparr>"
    using assms by (auto simp: pair_facts_def sum_simps)
  have f: "(selected_fact f \<or> ov_parent_child_overlap f) \<longleftrightarrow> (\<exists>p\<in>set ?selectors. pair_hit ?lc ?rc co p)"
    "\<not> ov_create_create_collision f"
    using selector_pairs_D [OF run(2)] by (auto simp: selected_fact_def no_facts_def)
  have verdict: "pair_hit ?lc ?rc co (l, r) \<longleftrightarrow> share_path l r \<and>
      \<not> (\<exists>c d. nd_claim left = Some c \<and> nd_claim right = Some d \<and> l = claim_selector c \<and> r = claim_selector d \<and>
             claims_overlap fs c d = Inr False)" for l r
    using claim_pair_overlap_Inr [OF run(1)]
    by (cases co; cases "nd_claim left"; cases "nd_claim right") (auto simp: pair_hit_def)
  have "ov_overlapping facts \<longleftrightarrow> selected_fact f \<or> ov_parent_child_overlap f \<or> (\<exists>p\<in>set ?intents. creates_collide p)"
    using create_pairs_D [OF run(3)] f(2) by (auto simp: facts selected_fact_def)
  then show ?thesis
    using f(1) verdict by (auto simp: nodes_overlap_def)
qed

section \<open>The nodes cover what was given\<close>

lemma AList_update_values:
  "\<forall>(k, v)\<in>set xs. k = key v \<Longrightarrow> inj key \<Longrightarrow>
   snd ` set (AList.update (key s) s xs) = insert s (snd ` set xs) \<and> (\<forall>(k, v)\<in>set (AList.update (key s) s xs). k = key v)"
  by (induction xs) (auto dest: injD)

lemma fold_update_values:
  "inj key \<Longrightarrow> \<forall>(k, v)\<in>set xs. k = key v \<Longrightarrow>
   snd ` set (fold (\<lambda>s. AList.update (key s) s) ss xs) = set ss \<union> snd ` set xs"
proof (induction ss arbitrary: xs)
  case (Cons s ss)
  then show ?case using AList_update_values [of xs key s] by auto
qed simp

lemma selector_kind_name_inj: "selector_kind_name a = selector_kind_name b \<longleftrightarrow> a = b"
  by (cases a; cases b) (simp_all add: selector_kind_name_def)

lemma selector_sort_key_inj: "inj selector_sort_key"
proof (rule injI)
  fix a b assume "selector_sort_key a = selector_sort_key b"
  moreover have "NUL \<notin> set (selector_kind_name k)" for k
    by (cases k) (simp_all add: selector_kind_name_def NUL_def)
  ultimately show "a = b"
    by (cases a; cases b) (simp add: selector_sort_key_def append_sep_inj selector_kind_name_inj)
qed

lemma set_unique_selectors [simp]: "set (unique_selectors ss) = set ss"
  using fold_update_values [OF selector_sort_key_inj, of "[]" ss] by (simp add: unique_selectors_def)

definition planned_nodes :: "resource_intent list \<Rightarrow> resource_claim list \<Rightarrow> overlap_node set" where
  "planned_nodes intents claims =
     claim_node (sort_key int_intent_id intents) ` set claims \<union>
     intent_node ` {i \<in> set intents. \<forall>c\<in>set claims. \<forall>j\<in>set (attached_intents (sort_key int_intent_id intents) c).
       int_intent_id i \<noteq> int_intent_id j}"

lemma build_nodes_Inr:
  "build_nodes sha claims intents = Inr nodes \<Longrightarrow>
   \<exists>normalized. map_sum_list (normalize_intent sha) intents = Inr normalized \<and> set nodes = planned_nodes normalized claims"
proof -
  assume "build_nodes sha claims intents = Inr nodes"
  then obtain normalized where "map_sum_list (normalize_intent sha) intents = Inr normalized"
    and nodes: "nodes = sort_key node_sort_key
      (map (claim_node (sort_key int_intent_id normalized)) (sort_key rc_claim_id claims) @
       map intent_node (filter (\<lambda>i. int_intent_id i \<notin> set (map int_intent_id
         (concat (map (attached_intents (sort_key int_intent_id normalized)) (sort_key rc_claim_id claims)))))
         (sort_key int_intent_id normalized)))"
    by (auto simp: build_nodes_def Let_def bind_sum_eq_Inr simp del: set_map)
  moreover have "set nodes = planned_nodes normalized claims"
    unfolding nodes planned_nodes_def by (simp add: image_iff)
  ultimately show ?thesis by blast
qed

lemma claim_node_fields [simp]:
  "nd_session_id (claim_node is c) = rc_session_id c"
  "nd_repository_id (claim_node is c) = Some (rc_repository_id c)"
  "nd_claim (claim_node is c) = Some c"
  "nd_intents (claim_node is c) = attached_intents is c"
  "set (nd_selectors (claim_node is c)) = insert (claim_selector c) (int_selector ` set (attached_intents is c))"
  by (simp_all add: claim_node_def Let_def)

lemma intent_node_fields [simp]:
  "nd_session_id (intent_node i) = int_session_id i" "nd_repository_id (intent_node i) = int_repository_id i"
  "nd_claim (intent_node i) = None" "nd_intents (intent_node i) = [i]" "nd_selectors (intent_node i) = [int_selector i]"
  by (simp_all add: intent_node_def)

definition node_ok :: "resource_claim list \<Rightarrow> overlap_node \<Rightarrow> bool" where
  "node_ok claims n \<longleftrightarrow>
     nd_selectors n \<noteq> [] \<and> int_selector ` set (nd_intents n) \<subseteq> set (nd_selectors n) \<and>
     (case nd_claim n of None \<Rightarrow> True | Some c \<Rightarrow> c \<in> set claims)"

lemma claim_node_selectors_nonempty [simp]: "nd_selectors (claim_node is c) \<noteq> []"
proof
  assume "nd_selectors (claim_node is c) = []"
  then have "set (nd_selectors (claim_node is c)) = {}" by simp
  then show False by simp
qed

lemma planned_node_ok: "n \<in> planned_nodes intents claims \<Longrightarrow> node_ok claims n"
  by (auto simp: planned_nodes_def node_ok_def)

lemma planned_claim:
  "c \<in> set claims \<Longrightarrow> \<exists>n\<in>planned_nodes intents claims. nd_session_id n = rc_session_id c \<and>
     nd_repository_id n = Some (rc_repository_id c) \<and> claim_selector c \<in> set (nd_selectors n)"
  by (auto simp: planned_nodes_def intro!: bexI [of _ "claim_node (sort_key int_intent_id intents) c"])

text \<open>An intent is left out only for another of the same identifier, which plans the same for the same session when
  the hash does not collide.\<close>

lemma intent_mode_name_inj: "intent_mode_name a = intent_mode_name b \<longleftrightarrow> a = b"
  by (cases a; cases b) (simp_all add: intent_mode_name_def)

lemma names_without_NUL: "NUL \<notin> set (intent_mode_name m)" "NUL \<notin> set (selector_kind_name k)"
  by (cases m; simp add: intent_mode_name_def NUL_def) (cases k; simp add: selector_kind_name_def NUL_def)

lemma append_optional_inj:
  assumes "NUL \<notin> set a" "NUL \<notin> set b"
    and "a @ (case x of None \<Rightarrow> [] | Some c \<Rightarrow> NUL # c) = b @ (case y of None \<Rightarrow> [] | Some c \<Rightarrow> NUL # c)"
  shows "a = b \<and> x = y"
  using assms append_sep_inj [of NUL a b] by (cases x; cases y) auto

lemma intent_id_preimage_inj:
  assumes "NUL \<notin> set s" "NUL \<notin> set s'" "selector_ok t" "selector_ok t'"
    and "intent_id_preimage s m t c = intent_id_preimage s' m' t' c'"
  shows "s = s' \<and> m = m' \<and> t = t' \<and> c = c'"
proof -
  have "NUL \<notin> set (sel_resource t)" "NUL \<notin> set (sel_resource t')"
    using assms(3,4) by (simp_all add: selector_ok_def canonical_resource_def)
  with assms(1,2,5) show ?thesis
    using append_optional_inj [of "sel_resource t" "sel_resource t'" c c']
    by (cases t; cases t') (auto simp: intent_id_preimage_def append_sep_inj names_without_NUL intent_mode_name_inj
        selector_kind_name_inj)
qed

definition intent_ok :: "(string \<Rightarrow> string) \<Rightarrow> resource_intent \<Rightarrow> bool" where
  "intent_ok sha i \<longleftrightarrow> selector_ok (int_selector i) \<and>
     int_intent_id i = ''intent-'' @ sha (intent_id_preimage (int_session_id i) (int_mode i) (int_selector i) (int_claim_id i))"

lemma create_resource_intent_ok: "create_resource_intent sha raw = Inr i \<Longrightarrow> intent_ok sha i"
  by (auto simp: create_resource_intent_def canonical_resource_intent_id_def sum_simps normalize_selector_Inr Let_def
      intent_ok_def split: raw_intent.splits js_value.splits if_splits)

lemma normalize_intent_ok: "normalize_intent sha raw = Inr i \<Longrightarrow> intent_ok sha i"
  using create_resource_intent_ok by (auto simp: normalize_intent_def split: raw_intent.splits)

lemma normalized_intent_ok:
  assumes "map_sum_list (normalize_intent sha) intents = Inr normalized" "i \<in> set normalized"
  shows "intent_ok sha i"
proof -
  obtain k where "k < length normalized" "i = normalized ! k"
    using assms(2) by (auto simp: in_set_conv_nth)
  with assms(1) have "normalize_intent sha (intents ! k) = Inr i"
    by (simp add: map_sum_list_Inr list_all2_conv_all_nth)
  then show ?thesis by (rule normalize_intent_ok)
qed

text \<open>The texts whose hashes name the planned intents; their hashes are assumed to be distinct.\<close>

definition intent_preimages :: "resource_intent list \<Rightarrow> string set" where
  "intent_preimages intents =
     (\<lambda>i. intent_id_preimage (int_session_id i) (int_mode i) (int_selector i) (int_claim_id i)) ` set intents"

lemma same_intent_id:
  assumes "map_sum_list (normalize_intent sha) intents = Inr normalized" "i \<in> set normalized" "j \<in> set normalized"
    and "inj_on sha (intent_preimages normalized)" "NUL \<notin> set (int_session_id i)" "NUL \<notin> set (int_session_id j)"
    and "int_intent_id i = int_intent_id j"
  shows "int_session_id i = int_session_id j \<and> int_selector i = int_selector j"
proof -
  let ?text = "\<lambda>i. intent_id_preimage (int_session_id i) (int_mode i) (int_selector i) (int_claim_id i)"
  note i = normalized_intent_ok [OF assms(1,2), unfolded intent_ok_def] and j = normalized_intent_ok [OF assms(1,3), unfolded intent_ok_def]
  have "sha (?text i) = sha (?text j)"
    using i j assms(7) by simp
  moreover have "?text i \<in> intent_preimages normalized" "?text j \<in> intent_preimages normalized"
    using assms(2,3) by (simp_all add: intent_preimages_def)
  ultimately have "?text i = ?text j" by (rule inj_onD [OF assms(4)])
  then show ?thesis using intent_id_preimage_inj [OF assms(5,6)] i j by blast
qed

lemma planned_intent:
  assumes "map_sum_list (normalize_intent sha) intents = Inr normalized" "i \<in> set normalized"
    and "inj_on sha (intent_preimages normalized)" "\<forall>j\<in>set normalized. NUL \<notin> set (int_session_id j)"
  shows "\<exists>n\<in>planned_nodes normalized claims. nd_session_id n = int_session_id i \<and> int_selector i \<in> set (nd_selectors n)"
proof (cases "\<forall>c\<in>set claims. \<forall>j\<in>set (attached_intents (sort_key int_intent_id normalized) c).
    int_intent_id i \<noteq> int_intent_id j")
  case True
  show ?thesis
  proof (rule bexI [of _ "intent_node i"])
    show "intent_node i \<in> planned_nodes normalized claims"
      unfolding planned_nodes_def by (intro UnI2 imageI CollectI conjI assms(2) True)
  qed simp
next
  case False
  then obtain c j where j: "c \<in> set claims" "j \<in> set (attached_intents (sort_key int_intent_id normalized) c)"
    "int_intent_id i = int_intent_id j" by blast
  then have attached: "j \<in> set normalized" "int_session_id j = rc_session_id c" by (auto simp: attached_intents_def)
  have i: "int_session_id i = int_session_id j \<and> int_selector i = int_selector j"
    by (rule same_intent_id [OF assms(1,2) attached(1) assms(3) _ _ j(3)]) (use assms(2,4) attached(1) in blast)+
  show ?thesis
  proof (rule bexI [of _ "claim_node (sort_key int_intent_id normalized) c"])
    show "claim_node (sort_key int_intent_id normalized) c \<in> planned_nodes normalized claims"
      using j(1) by (simp add: planned_nodes_def)
  qed (use i attached(2) j(2) in simp)
qed

section \<open>The edges\<close>

lemma candidate_pairs_sound:
  "(a, b) \<in> set (candidate_pairs ns) \<Longrightarrow> a \<in> set ns \<and> b \<in> set ns \<and> comparable_nodes a b"
  by (induction ns) auto

lemma comparable_sym: "comparable_nodes a b \<longleftrightarrow> comparable_nodes b a"
  by (auto simp: comparable_nodes_def)

lemma comparable_irrefl [simp]: "\<not> comparable_nodes a a"
  by (simp add: comparable_nodes_def)

lemma candidate_pairs_complete:
  "a \<in> set ns \<Longrightarrow> b \<in> set ns \<Longrightarrow> comparable_nodes a b \<Longrightarrow>
   (a, b) \<in> set (candidate_pairs ns) \<or> (b, a) \<in> set (candidate_pairs ns)"
  by (induction ns) (auto simp: comparable_sym)

lemma limit_selectors_all:
  assumes "\<forall>n\<in>set nodes. nd_selectors n \<noteq> []" "limit_selectors maximum used nodes = (selected, 0)"
  shows "selected = nodes"
  using assms
proof (induction nodes arbitrary: used selected)
  case (Cons n nodes)
  then show ?case by (auto simp: Let_def split: if_splits prod.splits)
qed simp

text \<open>Without aliases in the worktrees the verdict on two claims is that on their selectors.\<close>

lemma claim_selector_selects: "selector_selects (claim_selector c) path \<longleftrightarrow> glob_selects (rc_resource c) path"
  by (simp add: claim_selector_def selector_selects_def glob_selects_literal)

definition nodes_share :: "overlap_node \<Rightarrow> overlap_node \<Rightarrow> bool" where
  "nodes_share m n \<longleftrightarrow> (\<exists>s\<in>set (nd_selectors m). \<exists>t\<in>set (nd_selectors n). share_path s t)"

lemma nodes_share_sym: "nodes_share m n \<longleftrightarrow> nodes_share n m"
  using share_path_sym by (auto simp: nodes_share_def)

lemma nodes_overlap_share:
  assumes fs: "fs_lawful fs" "fs_exact fs" and canonical: "\<forall>c\<in>set claims. canonical_resource (rc_resource c)"
    and ok: "node_ok claims m" "node_ok claims n"
  shows "nodes_overlap fs m n \<longleftrightarrow> nodes_share m n"
proof -
  have "\<not> share_path (claim_selector c) (claim_selector d)"
    if "c \<in> set claims" "d \<in> set claims" "claims_overlap fs c d = Inr False" for c d
    using claims_overlap_exact [OF fs _ _ that(3)] canonical that(1,2)
    by (auto simp: share_path_def claim_selector_selects)
  then have "\<not> (nd_claim m = Some c \<and> nd_claim n = Some d \<and> share_path (claim_selector c) (claim_selector d) \<and>
      claims_overlap fs c d = Inr False)" for c d
    using ok by (auto simp: node_ok_def)
  moreover have "\<exists>s\<in>set (nd_selectors m). \<exists>t\<in>set (nd_selectors n). share_path s t"
    if "i \<in> set (nd_intents m)" "j \<in> set (nd_intents n)" "creates_collide (i, j)" for i j
  proof -
    have "int_selector i \<in> set (nd_selectors m)" "int_selector j \<in> set (nd_selectors n)"
      using that(1,2) ok by (auto simp: node_ok_def)
    with that(3) show ?thesis by (auto simp: creates_collide_def)
  qed
  ultimately show ?thesis
    by (simp only: nodes_overlap_def nodes_share_def) blast
qed

lemma edge_of_pair_Inr:
  assumes "edge_of_pair sha fs (a, b) = Inr found"
  shows "case found of
      None \<Rightarrow> \<exists>l r. {l, r} = {a, b} \<and> \<not> nodes_overlap fs l r
    | Some e \<Rightarrow> {ed_left e, ed_right e} = {a, b} \<and> nodes_overlap fs (ed_left e) (ed_right e)"
proof -
  obtain l r where order: "order_nodes a b = (l, r)" by (cases "order_nodes a b")
  then have pair: "{l, r} = {a, b}" by (auto simp: order_nodes_def split: if_splits)
  from assms order obtain facts where facts: "pair_facts fs l r = Inr facts"
    and found: "found = (if \<not> ov_overlapping facts then None
      else Some \<lparr>ed_schema_version = RESOURCE_COORDINATION_SCHEMA_VERSION, ed_pair_key = make_pair_key l r,
          ed_edge_id = ''overlap-'' @ sha (make_pair_key l r), ed_left = l, ed_right = r, ed_facts = facts,
          ed_classification = classify_facts facts\<rparr>)"
    by (auto simp: edge_of_pair_def sum_simps Let_def split: if_splits)
  show ?thesis
    using pair_facts_overlapping [OF facts] pair by (cases "ov_overlapping facts") (auto simp: found)
qed

lemma build_graph_Inr:
  assumes "build_resource_overlap_graph sha fs claims intents raw = Inr graph" "og_complete graph"
  obtains nodes found where "build_nodes sha claims intents = Inr nodes"
    "map_sum_list (edge_of_pair sha fs) (candidate_pairs nodes) = Inr found"
    "set (og_edges graph) = {e. Some e \<in> set found}"
proof -
  obtain bounds nodes where bounds: "normalize_bounds raw = Inr bounds" and nodes: "build_nodes sha claims intents = Inr nodes"
    using assms(1) by (auto simp: build_resource_overlap_graph_def bind_sum_eq_Inr)
  obtain normalized where planned: "set nodes = planned_nodes normalized claims"
    using build_nodes_Inr [OF nodes] by blast
  define chosen where "chosen = set (take (bd_max_sessions bounds) (sort (remdups (map nd_session_id nodes))))"
  obtain selected omitted where limit:
    "limit_selectors (bd_max_selectors bounds) 0 (filter (\<lambda>n. nd_session_id n \<in> chosen) nodes) = (selected, omitted)"
    by fastforce
  let ?evaluated = "min (length (candidate_pairs selected)) (bd_max_pairs bounds)"
  obtain found where found: "map_sum_list (edge_of_pair sha fs) (take ?evaluated (candidate_pairs selected)) = Inr found"
    and edges: "og_edges graph = sort_key ed_pair_key (List.map_filter id found)"
    and complete: "length (candidate_pairs selected) = ?evaluated" "omitted = 0"
      "\<forall>n\<in>set nodes. nd_session_id n \<notin> chosen \<longrightarrow> nd_selectors n = []"
    using assms bounds nodes limit
    by (auto simp: build_resource_overlap_graph_def bind_sum_eq_Inr Let_def simp flip: chosen_def)
  have selectors: "\<forall>n\<in>set nodes. nd_selectors n \<noteq> []"
    using planned planned_node_ok by (auto simp: node_ok_def)
  then have "filter (\<lambda>n. nd_session_id n \<in> chosen) nodes = nodes"
    using complete(3) by (auto simp: filter_id_conv)
  with limit complete(2) limit_selectors_all [OF selectors] have "selected = nodes" by simp
  moreover from this have "set (og_edges graph) = {e. Some e \<in> set found}"
    unfolding edges by (auto simp: List.map_filter_def image_iff) (metis option.sel)
  ultimately show thesis
    using that nodes found complete(1) by simp
qed

definition joined :: "overlap_graph \<Rightarrow> overlap_node \<Rightarrow> overlap_node \<Rightarrow> bool" where
  "joined graph m n \<longleftrightarrow> (\<exists>e\<in>set (og_edges graph). {ed_left e, ed_right e} = {m, n})"

lemma found_edge:
  assumes "map_sum_list (edge_of_pair sha fs) (candidate_pairs nodes) = Inr found" "Some e \<in> set found"
  shows "ed_left e \<in> set nodes \<and> ed_right e \<in> set nodes \<and> comparable_nodes (ed_left e) (ed_right e) \<and>
    nodes_overlap fs (ed_left e) (ed_right e)"
proof -
  obtain k where "k < length found" "found ! k = Some e" using assms(2) by (auto simp: in_set_conv_nth)
  then obtain a b where pair: "(a, b) \<in> set (candidate_pairs nodes)" "edge_of_pair sha fs (a, b) = Inr (Some e)"
    using assms(1) by (auto simp: map_sum_list_Inr list_all2_conv_all_nth) (metis nth_mem prod.collapse)
  from edge_of_pair_Inr [OF pair(2)] have "{ed_left e, ed_right e} = {a, b}" "nodes_overlap fs (ed_left e) (ed_right e)"
    by simp_all
  with candidate_pairs_sound [OF pair(1)] comparable_sym show ?thesis by (auto simp: doubleton_eq_iff)
qed

lemma joined_iff:
  assumes "map_sum_list (edge_of_pair sha fs) (candidate_pairs nodes) = Inr found"
    and "set (og_edges graph) = {e. Some e \<in> set found}"
    and overlap: "\<forall>l\<in>set nodes. \<forall>r\<in>set nodes. nodes_overlap fs l r = nodes_share l r"
    and mn: "m \<in> set nodes" "n \<in> set nodes"
  shows "joined graph m n \<longleftrightarrow> comparable_nodes m n \<and> nodes_share m n"
proof
  assume "joined graph m n"
  then obtain e where e: "Some e \<in> set found" "{ed_left e, ed_right e} = {m, n}"
    using assms(2) by (auto simp: joined_def)
  have "comparable_nodes (ed_left e) (ed_right e)" "nodes_overlap fs (ed_left e) (ed_right e)"
    using found_edge [OF assms(1) e(1)] by simp_all
  with e(2) mn overlap have "comparable_nodes (ed_left e) (ed_right e)" "nodes_share (ed_left e) (ed_right e)"
    by (metis doubleton_eq_iff)+
  with e(2) show "comparable_nodes m n \<and> nodes_share m n"
    using nodes_share_sym comparable_sym by (metis doubleton_eq_iff)
next
  assume joint: "comparable_nodes m n \<and> nodes_share m n"
  then have share: "nodes_share m n" ..
  obtain a b where ab: "(a, b) \<in> set (candidate_pairs nodes)" "{a, b} = {m, n}"
    using candidate_pairs_complete [OF mn conjunct1 [OF joint]] by (auto simp: insert_commute)
  then obtain k where k: "k < length (candidate_pairs nodes)" "candidate_pairs nodes ! k = (a, b)"
    by (auto simp: in_set_conv_nth)
  have edge: "edge_of_pair sha fs (a, b) = Inr (found ! k)" "k < length found"
    using assms(1) k by (auto simp: map_sum_list_Inr list_all2_conv_all_nth)
  have overlapping: "nodes_overlap fs l r" if "{l, r} = {a, b}" for l r
    using that ab(2) mn share overlap nodes_share_sym by (metis doubleton_eq_iff)
  obtain e where e: "found ! k = Some e" "{ed_left e, ed_right e} = {a, b}"
    using edge_of_pair_Inr [OF edge(1)] overlapping by (cases "found ! k") auto
  then have "Some e \<in> set found" using edge(2) by (metis nth_mem)
  with e(2) ab(2) assms(2) show "joined graph m n" by (auto simp: joined_def)
qed

section \<open>Properties\<close>

text \<open>C30: The overlap graph is exact. In a complete graph every edge joins two of its nodes, and two nodes are joined if and
  only if they are of different sessions, do not name different repositories, and some path is selected on both sides. The
  nodes leave nothing out: every claim and every planned intent is in a node of its session. Directory listings are exact,
  the claims are canonical, session identifiers hold no NUL, and the identifiers of the planned intents do not collide.\<close>

theorem overlap_graph_exact:
  assumes "fs_lawful fs" "fs_exact fs" "\<forall>c\<in>set claims. canonical_resource (rc_resource c)"
    and "map_sum_list (normalize_intent sha) intents = Inr normalized" "inj_on sha (intent_preimages normalized)"
    and "\<forall>i\<in>set normalized. NUL \<notin> set (int_session_id i)"
    and "build_resource_overlap_graph sha fs claims intents raw = Inr graph" "og_complete graph"
  shows "\<exists>nodes. build_nodes sha claims intents = Inr nodes \<and>
    (\<forall>e\<in>set (og_edges graph). ed_left e \<in> set nodes \<and> ed_right e \<in> set nodes) \<and>
    (\<forall>m\<in>set nodes. \<forall>n\<in>set nodes. joined graph m n =
       (nd_session_id m \<noteq> nd_session_id n \<and>
        (nd_repository_id m = None \<or> nd_repository_id n = None \<or> nd_repository_id m = nd_repository_id n) \<and>
        (\<exists>s\<in>set (nd_selectors m). \<exists>t\<in>set (nd_selectors n). \<exists>path.
           path_ok path \<and> selector_selects s path \<and> selector_selects t path))) \<and>
    (\<forall>c\<in>set claims. \<exists>n\<in>set nodes. nd_session_id n = rc_session_id c \<and> claim_selector c \<in> set (nd_selectors n)) \<and>
    (\<forall>i\<in>set normalized. \<exists>n\<in>set nodes. nd_session_id n = int_session_id i \<and> int_selector i \<in> set (nd_selectors n))"
proof -
  obtain nodes found where nodes: "build_nodes sha claims intents = Inr nodes"
    and found: "map_sum_list (edge_of_pair sha fs) (candidate_pairs nodes) = Inr found"
      "set (og_edges graph) = {e. Some e \<in> set found}"
    using build_graph_Inr [OF assms(7,8)] .
  have planned: "set nodes = planned_nodes normalized claims"
    using build_nodes_Inr [OF nodes] assms(4) by auto
  have "\<forall>l\<in>set nodes. \<forall>r\<in>set nodes. nodes_overlap fs l r = nodes_share l r"
    using nodes_overlap_share [OF assms(1-3)] planned planned_node_ok by blast
  then have edges: "joined graph m n \<longleftrightarrow> comparable_nodes m n \<and> nodes_share m n" if "m \<in> set nodes" "n \<in> set nodes" for m n
    using joined_iff [OF found] that by blast
  show ?thesis
  proof (intro exI [of _ nodes] conjI ballI nodes)
    fix e assume "e \<in> set (og_edges graph)"
    then show "ed_left e \<in> set nodes" "ed_right e \<in> set nodes"
      using found_edge [OF found(1)] found(2) by auto
  next
    fix m n assume "m \<in> set nodes" "n \<in> set nodes"
    then show "joined graph m n =
       (nd_session_id m \<noteq> nd_session_id n \<and>
        (nd_repository_id m = None \<or> nd_repository_id n = None \<or> nd_repository_id m = nd_repository_id n) \<and>
        (\<exists>s\<in>set (nd_selectors m). \<exists>t\<in>set (nd_selectors n). \<exists>path.
           path_ok path \<and> selector_selects s path \<and> selector_selects t path))"
      using edges by (auto simp: comparable_nodes_def nodes_share_def share_path_def)
  next
    fix c assume "c \<in> set claims"
    then show "\<exists>n\<in>set nodes. nd_session_id n = rc_session_id c \<and> claim_selector c \<in> set (nd_selectors n)"
      using planned_claim [of c claims normalized] planned by auto
  next
    fix i assume "i \<in> set normalized"
    then show "\<exists>n\<in>set nodes. nd_session_id n = int_session_id i \<and> int_selector i \<in> set (nd_selectors n)"
      using planned_intent [OF assms(4) _ assms(5,6)] planned by auto
  qed
qed

definition sample_intent :: "string \<Rightarrow> string \<Rightarrow> raw_intent" where
  "sample_intent session resource = IntentRecord
     \<lparr>ii_session_id = JsString session, ii_repository_id = JsUndefined, ii_claim_id = JsUndefined,
      ii_mode = JsString ''CREATE'', ii_operation = JsUndefined, ii_kind = JsUndefined, ii_resource = JsUndefined,
      ii_selector = SelRecord (JsString ''namespace'') (JsString resource), ii_selector_kind = JsUndefined,
      ii_namespace = JsUndefined\<rparr>"

definition default_bounds_input :: raw_bounds where
  "default_bounds_input = \<lparr>rb_max_sessions = JUndefined, rb_max_pairs = JUndefined, rb_max_selectors = JUndefined,
     rb_max_session_count = JUndefined, rb_max_pair_count = JUndefined, rb_max_selector_count = JUndefined\<rparr>"

abbreviation sample_graph :: "graph_error + overlap_graph" where
  "sample_graph \<equiv> build_resource_overlap_graph id sample_fs [file_claim] [sample_intent ''s3'' ''src'']
     default_bounds_input"

lemma sample_graph_edges: "map_sum (\<lambda>_. ()) (\<lambda>g. (og_complete g, length (og_edges g))) sample_graph = Inr (True, 1)"
  by code_simp

lemma sample_intents: "map_sum_list (normalize_intent id) [sample_intent ''s3'' ''src''] =
   Inr [\<lparr>int_schema_version = 1, int_intent_id = ''intent-'' @ intent_id_preimage ''s3'' PlanCreate
     \<lparr>sel_kind = SNamespace, sel_resource = ''src''\<rparr> None, int_session_id = ''s3'', int_repository_id = None,
     int_claim_id = None, int_mode = PlanCreate, int_selector = \<lparr>sel_kind = SNamespace, sel_resource = ''src''\<rparr>\<rparr>]"
  by code_simp

theorem overlap_graph_exact_witness:
  "\<exists>graph nodes. sample_graph = Inr graph \<and> build_nodes id [file_claim] [sample_intent ''s3'' ''src''] = Inr nodes \<and>
     (\<exists>n\<in>set nodes. nd_session_id n = ''s3'') \<and> (\<exists>n\<in>set nodes. claim_selector file_claim \<in> set (nd_selectors n))"
proof -
  obtain graph where graph: "sample_graph = Inr graph" "og_complete graph"
    using sample_graph_edges by (cases sample_graph) auto
  have "\<exists>nodes. build_nodes id [file_claim] [sample_intent ''s3'' ''src''] = Inr nodes \<and>
      (\<exists>n\<in>set nodes. claim_selector file_claim \<in> set (nd_selectors n)) \<and>
      (\<exists>n\<in>set nodes. nd_session_id n = ''s3'')"
    using overlap_graph_exact [OF sample_fs_ok _ sample_intents _ _ graph] by (simp add: NUL_def) blast
  with graph show ?thesis by blast
qed

lemma sort_key_permuted:
  assumes "mset xs = mset ys" "inj_on f (set xs)"
  shows "sort_key f xs = sort_key f ys"
proof (rule map_inj_on [where f = f])
  have "map f (sort_key f zs) = sort (map f zs)" for zs
    by (rule properties_for_sort [symmetric]) simp_all
  moreover have "mset (map f xs) = mset (map f ys)" using assms(1) by simp
  ultimately show "map f (sort_key f xs) = map f (sort_key f ys)"
    by (metis properties_for_sort mset_sort sorted_sort)
  have "set xs = set ys" using assms(1) by (rule mset_eq_setD)
  then show "inj_on f (set (sort_key f xs) \<union> set (sort_key f ys))" using assms(2) by simp
qed

text \<open>The graph does not depend on the order in which claims and intents are listed.\<close>

theorem overlap_graph_order_irrelevant:
  assumes "mset claims = mset claims'" "mset intents = mset intents'"
    and "map_sum_list (normalize_intent sha) intents = Inr normalized"
    and "inj_on rc_claim_id (set claims)" "inj_on int_intent_id (set normalized)"
  shows "build_resource_overlap_graph sha fs claims intents raw = build_resource_overlap_graph sha fs claims' intents' raw"
proof -
  obtain normalized' where normalized': "map_sum_list (normalize_intent sha) intents' = Inr normalized'"
    "mset normalized = mset normalized'"
    using list_all2_reorder_left_invariance [of "\<lambda>x y. normalize_intent sha x = Inr y" intents normalized intents'] assms(2,3)
    by (auto simp: map_sum_list_Inr)
  have "build_nodes sha claims intents = build_nodes sha claims' intents'"
    using sort_key_permuted [OF assms(1,4)] sort_key_permuted [OF normalized'(2) assms(5)] assms(3) normalized'(1)
    by (simp add: build_nodes_def)
  then show ?thesis by (simp add: build_resource_overlap_graph_def)
qed

theorem overlap_graph_order_irrelevant_witness:
  "build_resource_overlap_graph id sample_fs [ts_claim, file_claim] [sample_intent ''s3'' ''src''] default_bounds_input =
   build_resource_overlap_graph id sample_fs [file_claim, ts_claim] [sample_intent ''s3'' ''src''] default_bounds_input"
proof (rule overlap_graph_order_irrelevant [OF _ _ sample_intents])
  have "rc_claim_id ts_claim \<noteq> rc_claim_id file_claim" by code_simp
  then show "inj_on rc_claim_id (set [ts_claim, file_claim])" by (auto simp: inj_on_def)
qed simp_all
end
