(* ===== verification/FilesystemPolicy.thy ===== *)
theory FilesystemPolicy
  imports ResourceClaims CanonicalJson
begin

text \<open>
  src/src/domain/filesystem-policy-decision.ts: the selectors of a filesystem scope, the precedence of deny and
  immutable over the operation's own selectors, and the conjunction of profile, working set and claims that decides one
  concrete path. The regular expression a selector is compiled to is the list of its tokens.
\<close>

section \<open>Selectors\<close>

datatype selector_token = AnyRun | SegmentRun | SegmentUnit | Literal char

fun selector_tokens :: "string \<Rightarrow> selector_token list" where
  "selector_tokens [] = []"
| "selector_tokens (c # s) =
     (if c = star then (case s of
          d # rest \<Rightarrow> if d = star then AnyRun # selector_tokens rest else SegmentRun # selector_tokens s
        | [] \<Rightarrow> [SegmentRun])
      else if c = qmark then SegmentUnit # selector_tokens s
      else Literal c # selector_tokens s)"

text \<open>\<open>.\<close> matches everything but a line terminator, \<open>[^/]\<close> everything but a slash.\<close>

definition line_terminator :: "char \<Rightarrow> bool" where
  "line_terminator c \<longleftrightarrow> c = CHR 0x0A \<or> c = CHR 0x0D"

fun tokens_match :: "selector_token list \<Rightarrow> string \<Rightarrow> bool" where
  "tokens_match [] s \<longleftrightarrow> s = []"
| "tokens_match (Literal c # ts) s \<longleftrightarrow> (case s of [] \<Rightarrow> False | x # xs \<Rightarrow> x = c \<and> tokens_match ts xs)"
| "tokens_match (SegmentUnit # ts) s \<longleftrightarrow> (case s of [] \<Rightarrow> False | x # xs \<Rightarrow> x \<noteq> slash \<and> tokens_match ts xs)"
| "tokens_match (SegmentRun # ts) [] \<longleftrightarrow> tokens_match ts []"
| "tokens_match (SegmentRun # ts) (x # xs) \<longleftrightarrow>
     tokens_match ts (x # xs) \<or> (x \<noteq> slash \<and> tokens_match (SegmentRun # ts) xs)"
| "tokens_match (AnyRun # ts) [] \<longleftrightarrow> tokens_match ts []"
| "tokens_match (AnyRun # ts) (x # xs) \<longleftrightarrow>
     tokens_match ts (x # xs) \<or> (\<not> line_terminator x \<and> tokens_match (AnyRun # ts) xs)"

definition selector_matches :: "string \<Rightarrow> string \<Rightarrow> bool" where
  "selector_matches selector path = tokens_match (selector_tokens selector) path"

text \<open>The patterns \<open>SELECTOR\<close> and \<open>CONCRETE\<close> differ in the wildcards only.\<close>

definition path_unit :: "char \<Rightarrow> bool" where
  "path_unit c \<longleftrightarrow> is_ascii_letter c \<or> is_digit c \<or> c \<in> set ''_./@+:-''"

fun double_slash :: "string \<Rightarrow> bool" where
  "double_slash (a # b # s) \<longleftrightarrow> (a = slash \<and> b = slash) \<or> double_slash (b # s)"
| "double_slash _ \<longleftrightarrow> False"

definition relative_spelling :: "string \<Rightarrow> bool" where
  "relative_spelling s \<longleftrightarrow>
     \<not> prefix ''/'' s \<and> \<not> windows_drive_relative_path s \<and> \<not> prefix ''./'' s \<and> \<not> prefix ''../'' s \<and>
     CHR 0x5C \<notin> set s \<and> \<not> double_slash s"

definition CONCRETE :: "string \<Rightarrow> bool" where
  "CONCRETE s \<longleftrightarrow> relative_spelling s \<and> s \<noteq> [] \<and> list_all path_unit s"

definition SELECTOR :: "string \<Rightarrow> bool" where
  "SELECTOR s \<longleftrightarrow> relative_spelling s \<and> s \<noteq> [] \<and> list_all (\<lambda>c. path_unit c \<or> c = star \<or> c = qmark) s"

definition normalized_policy_path :: "json \<Rightarrow> string option" where
  "normalized_policy_path v =
     (case v of
        JStr s \<Rightarrow>
          (let slashed = map (\<lambda>c. if c = CHR 0x5C then slash else c) s;
               normalized = (if prefix ''./'' slashed then drop 2 slashed else slashed) in
           if CONCRETE normalized then Some normalized else None)
      | _ \<Rightarrow> None)"

section \<open>Scopes\<close>

datatype filesystem_operation = FsReadonly | FsWrite | FsCreate | FsDelete | FsRename

definition FILESYSTEM_POLICY_OPERATIONS :: "filesystem_operation list" where
  "FILESYSTEM_POLICY_OPERATIONS = [FsReadonly, FsWrite, FsCreate, FsDelete]"

datatype permission_selector = PathSelector string | DomainSelector string "string option"

record filesystem_scope =
  sc_read_only :: "permission_selector list"
  sc_write :: "permission_selector list"
  sc_create :: "permission_selector list"
  sc_delete :: "permission_selector list"
  sc_rename :: "permission_selector list option"
  sc_deny :: "permission_selector list"
  sc_immutable :: "permission_selector list option"

datatype permission_reason = ReasonAllowed | ReasonDeny | ReasonImmutable | ReasonOutsideScope

record scope_permission =
  pm_allowed :: bool
  pm_reason :: permission_reason

definition operation_selectors :: "filesystem_scope \<Rightarrow> filesystem_operation \<Rightarrow> permission_selector list" where
  "operation_selectors scope operation =
     (case operation of
        FsReadonly \<Rightarrow> sc_read_only scope
      | FsWrite \<Rightarrow> sc_write scope
      | FsCreate \<Rightarrow> sc_create scope
      | FsDelete \<Rightarrow> sc_delete scope
      | FsRename \<Rightarrow> (case sc_rename scope of None \<Rightarrow> [] | Some s \<Rightarrow> s))"

definition selector_matches_domain :: "permission_selector \<Rightarrow> string \<Rightarrow> string \<Rightarrow> bool" where
  "selector_matches_domain selector path domain =
     (case selector of
        PathSelector s \<Rightarrow> domain = ''repository'' \<and> selector_matches s path
      | DomainSelector s d \<Rightarrow> (case d of None \<Rightarrow> ''repository'' | Some x \<Rightarrow> x) = domain \<and> selector_matches s path)"

definition decide_filesystem_scope_permission ::
  "filesystem_scope \<Rightarrow> filesystem_operation \<Rightarrow> string \<Rightarrow> string option \<Rightarrow> scope_permission" where
  "decide_filesystem_scope_permission scope operation path domain_option =
     (let domain = (case domain_option of None \<Rightarrow> ''repository'' | Some d \<Rightarrow> d);
          matches = (\<lambda>selector. selector_matches_domain selector path domain) in
      if list_ex matches (sc_deny scope) then \<lparr>pm_allowed = False, pm_reason = ReasonDeny\<rparr>
      else if operation \<noteq> FsReadonly \<and> (case sc_immutable scope of None \<Rightarrow> False | Some s \<Rightarrow> list_ex matches s)
      then \<lparr>pm_allowed = False, pm_reason = ReasonImmutable\<rparr>
      else if \<not> list_ex matches (operation_selectors scope operation)
      then \<lparr>pm_allowed = False, pm_reason = ReasonOutsideScope\<rparr>
      else \<lparr>pm_allowed = True, pm_reason = ReasonAllowed\<rparr>)"

section \<open>Claims as evidence\<close>

definition required_filesystem_claim_mode :: "filesystem_operation \<Rightarrow> claim_mode" where
  "required_filesystem_claim_mode operation = (if operation = FsReadonly then Read else Write)"

text \<open>\<open>xs.some(p)\<close> with a test that may throw\<close>

fun exists_sum :: "('a \<Rightarrow> 'e + bool) \<Rightarrow> 'a list \<Rightarrow> 'e + bool" where
  "exists_sum p [] = Inr False"
| "exists_sum p (x # xs) = bind_sum (p x) (\<lambda>b. if b then Inr True else exists_sum p xs)"

lemma exists_sum_True: "exists_sum p xs = Inr True \<Longrightarrow> \<exists>x \<in> set xs. p x = Inr True"
  by (induction xs) (auto simp: bind_sum_eq_Inr split: if_splits)

definition filesystem_claim_allows_path ::
  "filesystem \<Rightarrow> resource_claim list \<Rightarrow> string \<Rightarrow> filesystem_operation \<Rightarrow> string option \<Rightarrow> registry_error + bool" where
  "filesystem_claim_allows_path fs claims path operation repository_id =
     exists_sum (\<lambda>claim.
       if repository_id \<noteq> None \<and> Some (rc_repository_id claim) \<noteq> repository_id then Inr False
       else bind_sum (resource_matches_claim fs (rc_resource claim) (Some (rc_worktree_path claim)) path) (\<lambda>matches.
         Inr (matches \<and> claim_mode_grants_access (rc_mode claim) (required_filesystem_claim_mode operation)))) claims"

section \<open>The decision of one path\<close>

datatype authority_verdict = AllowVerdict | DenyVerdict | NotProvided

datatype policy_status = PolicyAllowed | PolicyDenied | PolicyUnsupported

record path_authorities =
  pa_profile :: authority_verdict
  pa_working_set :: authority_verdict
  pa_claim :: authority_verdict

record policy_decision =
  pd_path :: string
  pd_operation :: string
  pd_status :: policy_status
  pd_reason :: string
  pd_authorities :: path_authorities

text \<open>The ceiling of a profile: its deny and immutable lists may be missing at run time.\<close>

record profile_ceiling =
  cg_scope :: filesystem_scope
  cg_deny_is_array :: bool
  cg_immutable_is_array :: bool

datatype profile_input = ProfileNotRecord | ProfileCeiling profile_ceiling | CompleteProfile profile_ceiling

record policy_facts =
  pf_path :: json
  pf_operation :: string
  pf_profile :: profile_input
  pf_working_set :: "filesystem_scope option"
  pf_claims :: "resource_claim list option"
  pf_claims_required :: bool
  pf_repository_id :: "string option"

definition ceiling_of :: "profile_input \<Rightarrow> profile_ceiling option" where
  "ceiling_of profile =
     (case profile of ProfileNotRecord \<Rightarrow> None | ProfileCeiling c \<Rightarrow> Some c | CompleteProfile c \<Rightarrow> Some c)"

definition filesystem_operation_name :: "filesystem_operation \<Rightarrow> string" where
  "filesystem_operation_name operation =
     (case operation of FsReadonly \<Rightarrow> ''READONLY'' | FsWrite \<Rightarrow> ''WRITE'' | FsCreate \<Rightarrow> ''CREATE''
      | FsDelete \<Rightarrow> ''DELETE'' | FsRename \<Rightarrow> ''RENAME'')"

definition decide_claim_authority ::
  "filesystem \<Rightarrow> policy_facts \<Rightarrow> string \<Rightarrow> filesystem_operation \<Rightarrow> path_authorities \<Rightarrow> policy_decision" where
  "decide_claim_authority fs facts path operation authorities =
     (let result = (\<lambda>status reason authorities. \<lparr>pd_path = path, pd_operation = pf_operation facts, pd_status = status,
            pd_reason = reason, pd_authorities = authorities\<rparr>);
          allowed = result PolicyAllowed ''profile, working-set, and claim predicates all allow the path'' in
      case pf_claims facts of
        None \<Rightarrow>
          if pf_claims_required facts
          then result PolicyUnsupported ''required ResourceClaim evidence is missing'' authorities
          else allowed authorities
      | Some claims \<Rightarrow>
          if pf_repository_id facts = None
          then result PolicyUnsupported ''claim authority has no proven repository identity'' authorities
          else if pf_claims_required facts \<and> claims = []
          then result PolicyDenied ''the authoritative claim set contains no matching claim'' authorities
          else (case filesystem_claim_allows_path fs claims path operation (pf_repository_id facts) of
              Inl _ \<Rightarrow> result PolicyUnsupported ''current claim identity or resource syntax is ambiguous'' authorities
            | Inr False \<Rightarrow> result PolicyDenied ''no current ResourceClaim authorizes this operation'' authorities
            | Inr True \<Rightarrow> allowed (authorities\<lparr>pa_claim := AllowVerdict\<rparr>)))"

definition decide_effective_path_access :: "filesystem \<Rightarrow> policy_facts \<Rightarrow> policy_decision" where
  "decide_effective_path_access fs facts =
     (let authorities = \<lparr>pa_profile = DenyVerdict,
            pa_working_set = (if pf_working_set facts = None then NotProvided else DenyVerdict),
            pa_claim = (if pf_claims facts = None then NotProvided else DenyVerdict)\<rparr>;
          result = (\<lambda>path status reason authorities. \<lparr>pd_path = path, pd_operation = pf_operation facts,
            pd_status = status, pd_reason = reason, pd_authorities = authorities\<rparr>) in
      case normalized_policy_path (pf_path facts) of
        None \<Rightarrow> result (case pf_path facts of JStr s \<Rightarrow> s | _ \<Rightarrow> []) PolicyUnsupported
          ''path must be one concrete repository-relative selector'' authorities
      | Some path \<Rightarrow>
      (case find (\<lambda>operation. filesystem_operation_name operation = pf_operation facts) FILESYSTEM_POLICY_OPERATIONS of
        None \<Rightarrow> result path PolicyUnsupported ''operation is outside the bounded filesystem backend'' authorities
      | Some operation \<Rightarrow>
      (case ceiling_of (pf_profile facts) of
        None \<Rightarrow> result path PolicyUnsupported ''profile filesystem ceiling is not a bounded contract'' authorities
      | Some ceiling \<Rightarrow>
          if \<not> cg_deny_is_array ceiling \<or> \<not> cg_immutable_is_array ceiling
          then result path PolicyUnsupported ''profile filesystem ceiling is not a bounded contract'' authorities
          else if operation = FsCreate \<or> operation = FsDelete
          then result path PolicyUnsupported ''the existing runtime backend cannot safely compile this operation'' authorities
          else if \<not> SELECTOR path
          then result path PolicyUnsupported ''path is not a canonical repository-relative selector'' authorities
          else
            let profile = decide_filesystem_scope_permission (cg_scope ceiling) operation path None in
            if \<not> pm_allowed profile
            then result path PolicyDenied
              (case pm_reason profile of
                 ReasonDeny \<Rightarrow> ''profile DENY overrides every allow''
               | ReasonImmutable \<Rightarrow> ''profile immutable area cannot be mutated''
               | _ \<Rightarrow> ''path is outside the profile operation ceiling'') authorities
            else
              let authorities = authorities\<lparr>pa_profile := AllowVerdict\<rparr> in
              (case pf_working_set facts of
                 None \<Rightarrow> decide_claim_authority fs facts path operation authorities
               | Some scope \<Rightarrow>
                   if \<not> pm_allowed (decide_filesystem_scope_permission scope operation path None)
                   then result path PolicyDenied ''path is outside the Effective Working Set'' authorities
                   else decide_claim_authority fs facts path operation (authorities\<lparr>pa_working_set := AllowVerdict\<rparr>)))))"

section \<open>The profile boundary and its token\<close>

fun stable_json :: "json \<Rightarrow> string" where
  "stable_json (JArr vs) = CHR ''['' # join_with CHR '','' (map stable_json vs) @ '']''"
| "stable_json (JObj ps) =
     CHR ''{'' # join_with CHR '','' (map json_entry (sort_key fst (map (\<lambda>(k, v). (k, stable_json v)) ps))) @ ''}''"
| "stable_json JUndefined = ''undefined''"
| "stable_json v = print_json v"

record profile_boundary =
  pb_token :: string
  pb_profile_id :: string
  pb_profile_version :: string
  pb_read_only :: "string list"
  pb_write :: "string list"
  pb_deny :: "string list"
  pb_immutable :: "string list"

definition PROFILE_RUNTIME_BOUNDARY_CONTRACT_ID :: string where
  "PROFILE_RUNTIME_BOUNDARY_CONTRACT_ID = ''nawabari.profile-runtime-boundary.v1''"
definition PROFILE_RUNTIME_BOUNDARY_SCHEMA_VERSION :: int where "PROFILE_RUNTIME_BOUNDARY_SCHEMA_VERSION = 1"

definition boundary_json :: "profile_boundary \<Rightarrow> json" where
  "boundary_json b =
     JObj [(''contract_id'', JStr PROFILE_RUNTIME_BOUNDARY_CONTRACT_ID),
       (''schema_version'', JNum PROFILE_RUNTIME_BOUNDARY_SCHEMA_VERSION), (''profile_id'', JStr (pb_profile_id b)),
       (''profile_version'', JStr (pb_profile_version b)),
       (''scope'', JObj [(''readOnly'', JArr (map JStr (pb_read_only b))), (''write'', JArr (map JStr (pb_write b))),
         (''deny'', JArr (map JStr (pb_deny b))), (''immutable'', JArr (map JStr (pb_immutable b)))])]"

definition profile_runtime_boundary_token :: "(string \<Rightarrow> string) \<Rightarrow> profile_boundary \<Rightarrow> string" where
  "profile_runtime_boundary_token sha b = sha (stable_json (boundary_json b))"

definition sha256_text :: "string \<Rightarrow> bool" where
  "sha256_text s \<longleftrightarrow> length s = 64 \<and> list_all (\<lambda>c. c \<in> set ''0123456789abcdef'') s"

definition boundary_selectors :: "json \<Rightarrow> string + string list" where
  "boundary_selectors v =
     (case v of
        JArr vs \<Rightarrow> map_sum_list (\<lambda>x. case x of
            JStr s \<Rightarrow> if SELECTOR s then Inr s else Inl ''RUNTIME_PROJECTION_INVALID''
          | _ \<Rightarrow> Inl ''RUNTIME_PROJECTION_INVALID'') vs
      | _ \<Rightarrow> Inl ''RUNTIME_PROJECTION_INVALID'')"

definition plain_object :: "json \<Rightarrow> bool" where
  "plain_object v = (case v of JObj _ \<Rightarrow> True | _ \<Rightarrow> False)"

definition boundary_text :: "json \<Rightarrow> string + string" where
  "boundary_text v = (case v of JStr s \<Rightarrow> Inr s | _ \<Rightarrow> Inl ''RUNTIME_PROJECTION_INVALID'')"

definition validate_profile_runtime_boundary :: "(string \<Rightarrow> string) \<Rightarrow> json \<Rightarrow> string + profile_boundary" where
  "validate_profile_runtime_boundary sha input =
     (let invalid = ''RUNTIME_PROJECTION_INVALID'' in
      bind_sum (require (plain_object input) invalid) (\<lambda>_.
      bind_sum (require (jget input ''contract_id'' = JStr PROFILE_RUNTIME_BOUNDARY_CONTRACT_ID \<and>
        jget input ''schema_version'' = JNum PROFILE_RUNTIME_BOUNDARY_SCHEMA_VERSION) invalid) (\<lambda>_.
      bind_sum (boundary_text (jget input ''token'')) (\<lambda>token.
      bind_sum (require (sha256_text token) invalid) (\<lambda>_.
      bind_sum (boundary_text (jget input ''profile_id'')) (\<lambda>profile_id.
      bind_sum (boundary_text (jget input ''profile_version'')) (\<lambda>profile_version.
      let scope = jget input ''scope'' in
      bind_sum (require (plain_object scope) invalid) (\<lambda>_.
      bind_sum (boundary_selectors (jget scope ''readOnly'')) (\<lambda>read_only.
      bind_sum (boundary_selectors (jget scope ''write'')) (\<lambda>write.
      bind_sum (boundary_selectors (jget scope ''deny'')) (\<lambda>deny.
      bind_sum (boundary_selectors (jget scope ''immutable'')) (\<lambda>immutable.
      let boundary = \<lparr>pb_token = token, pb_profile_id = profile_id, pb_profile_version = profile_version,
            pb_read_only = sort read_only, pb_write = sort write, pb_deny = sort deny, pb_immutable = sort immutable\<rparr> in
      bind_sum (require (profile_runtime_boundary_token sha boundary = token) ''RUNTIME_PROJECTION_AMBIGUOUS'') (\<lambda>_.
      Inr boundary)))))))))))))"

section \<open>What an allowed path proves\<close>

text \<open>What a scope grants, without the order of the tests\<close>

definition scope_grants :: "filesystem_scope \<Rightarrow> filesystem_operation \<Rightarrow> string \<Rightarrow> bool" where
  "scope_grants scope operation path \<longleftrightarrow>
     (\<forall>d\<in>set (sc_deny scope). \<not> selector_matches_domain d path ''repository'') \<and>
     (operation \<noteq> FsReadonly \<longrightarrow> (\<forall>selectors. sc_immutable scope = Some selectors \<longrightarrow>
        (\<forall>d\<in>set selectors. \<not> selector_matches_domain d path ''repository''))) \<and>
     (\<exists>s\<in>set (operation_selectors scope operation). selector_matches_domain s path ''repository'')"

lemma scope_permission_allowed:
  "pm_allowed (decide_filesystem_scope_permission scope operation path None) \<longleftrightarrow> scope_grants scope operation path"
  by (auto simp: decide_filesystem_scope_permission_def scope_grants_def Let_def list_ex_iff split: option.splits)

text \<open>Some claim of this repository covers the path and is strong enough.\<close>

definition claim_grants :: "filesystem \<Rightarrow> resource_claim list \<Rightarrow> string option \<Rightarrow> filesystem_operation \<Rightarrow> string \<Rightarrow> bool" where
  "claim_grants fs claims repository operation path \<longleftrightarrow>
     (\<exists>c\<in>set claims. Some (rc_repository_id c) = repository \<and>
        resource_matches_claim fs (rc_resource c) (Some (rc_worktree_path c)) path = Inr True \<and>
        (operation \<noteq> FsReadonly \<longrightarrow> rc_mode c \<noteq> Read))"

lemma filesystem_claim_allows_path_True:
  assumes "filesystem_claim_allows_path fs claims path operation (Some repository) = Inr True"
  shows "claim_grants fs claims (Some repository) operation path"
proof -
  have "claim_mode_grants_access m Write \<Longrightarrow> m \<noteq> Read" for m
    by (auto simp: claim_mode_grants_access_def RESOURCE_CLAIM_ACCESS_STRENGTH_def)
  then show ?thesis
    using exists_sum_True [OF assms [unfolded filesystem_claim_allows_path_def]]
    by (auto simp: claim_grants_def bind_sum_eq_Inr required_filesystem_claim_mode_def split: if_splits)
qed

lemma claim_authority_allowed:
  assumes "pd_status (decide_claim_authority fs facts path operation authorities) = PolicyAllowed"
  shows "case pf_claims facts of None \<Rightarrow> \<not> pf_claims_required facts
    | Some claims \<Rightarrow> claim_grants fs claims (pf_repository_id facts) operation path"
  using assms
  by (auto simp: decide_claim_authority_def Let_def filesystem_claim_allows_path_True
      split: option.splits sum.splits bool.splits if_splits)

definition operation_named :: "string \<Rightarrow> filesystem_operation option" where
  "operation_named name = find (\<lambda>operation. filesystem_operation_name operation = name) FILESYSTEM_POLICY_OPERATIONS"

text \<open>C31: A path is allowed only by agreement of every authority at hand. An allowed decision names a concrete path and
  a read or a write; the profile denies it nowhere, protects it from writes nowhere and grants it; so does the working
  set when there is one; and when claims are required or given, a claim of this repository covers the path and is
  strong enough.\<close>

theorem allowed_path_has_every_authority:
  assumes "pd_status (decide_effective_path_access fs facts) = PolicyAllowed"
  shows "\<exists>path operation ceiling.
    normalized_policy_path (pf_path facts) = Some path \<and> pd_path (decide_effective_path_access fs facts) = path \<and>
    operation_named (pf_operation facts) = Some operation \<and> operation \<in> {FsReadonly, FsWrite} \<and>
    ceiling_of (pf_profile facts) = Some ceiling \<and> scope_grants (cg_scope ceiling) operation path \<and>
    (\<forall>scope. pf_working_set facts = Some scope \<longrightarrow> scope_grants scope operation path) \<and>
    (case pf_claims facts of
       None \<Rightarrow> \<not> pf_claims_required facts
     | Some claims \<Rightarrow> claim_grants fs claims (pf_repository_id facts) operation path)"
proof -
  obtain path where path: "normalized_policy_path (pf_path facts) = Some path"
    using assms by (auto simp: decide_effective_path_access_def Let_def split: option.splits)
  obtain operation where operation: "operation_named (pf_operation facts) = Some operation"
    using assms path by (auto simp: decide_effective_path_access_def Let_def operation_named_def split: option.splits)
  have member: "operation \<in> set FILESYSTEM_POLICY_OPERATIONS"
    using operation by (auto simp: operation_named_def find_Some_iff)
  obtain ceiling where ceiling: "ceiling_of (pf_profile facts) = Some ceiling"
    using assms path operation
    by (auto simp: decide_effective_path_access_def Let_def operation_named_def split: option.splits)
  note run = assms path ceiling operation [unfolded operation_named_def]
  have rw: "operation \<in> {FsReadonly, FsWrite}"
    using run member
    by (auto simp: decide_effective_path_access_def Let_def FILESYSTEM_POLICY_OPERATIONS_def split: if_splits)
  have profile: "scope_grants (cg_scope ceiling) operation path"
    using run
    by (auto simp: decide_effective_path_access_def Let_def scope_permission_allowed split: if_splits)
  have working_set: "scope_grants scope operation path" if "pf_working_set facts = Some scope" for scope
    using run that
    by (auto simp: decide_effective_path_access_def Let_def scope_permission_allowed split: if_splits)
  obtain authorities where decided:
    "decide_effective_path_access fs facts = decide_claim_authority fs facts path operation authorities"
    using run by (auto simp: decide_effective_path_access_def Let_def split: if_splits option.splits)
  have "pd_path (decide_claim_authority fs facts path operation authorities) = path"
    by (auto simp: decide_claim_authority_def Let_def split: option.split sum.split bool.split)
  with path operation rw ceiling profile working_set claim_authority_allowed [OF assms [unfolded decided]] decided
  show ?thesis by auto
qed

definition sample_scope :: filesystem_scope where
  "sample_scope = \<lparr>sc_read_only = [], sc_write = [PathSelector ''src/**''], sc_create = [], sc_delete = [],
     sc_rename = None, sc_deny = [PathSelector ''secret/**''], sc_immutable = Some []\<rparr>"

definition sample_facts :: "string \<Rightarrow> resource_claim list option \<Rightarrow> policy_facts" where
  "sample_facts path claims =
     \<lparr>pf_path = JStr path, pf_operation = ''WRITE'',
      pf_profile = ProfileCeiling \<lparr>cg_scope = sample_scope, cg_deny_is_array = True, cg_immutable_is_array = True\<rparr>,
      pf_working_set = Some sample_scope, pf_claims = claims, pf_claims_required = (claims \<noteq> None),
      pf_repository_id = Some ''repo''\<rparr>"

theorem allowed_path_has_every_authority_witness:
  "pd_status (decide_effective_path_access sample_fs (sample_facts ''src/a.ts'' (Some [file_claim]))) = PolicyAllowed \<and>
   claim_grants sample_fs [file_claim] (Some ''repo'') FsWrite ''src/a.ts''"
proof -
  have allowed: "pd_status (decide_effective_path_access sample_fs (sample_facts ''src/a.ts'' (Some [file_claim]))) = PolicyAllowed"
    by code_simp
  obtain path operation where
    "normalized_policy_path (pf_path (sample_facts ''src/a.ts'' (Some [file_claim]))) = Some path"
    "operation_named (pf_operation (sample_facts ''src/a.ts'' (Some [file_claim]))) = Some operation"
    "case pf_claims (sample_facts ''src/a.ts'' (Some [file_claim])) of
       None \<Rightarrow> \<not> pf_claims_required (sample_facts ''src/a.ts'' (Some [file_claim]))
     | Some claims \<Rightarrow>
         claim_grants sample_fs claims (pf_repository_id (sample_facts ''src/a.ts'' (Some [file_claim]))) operation path"
    using allowed_path_has_every_authority [OF allowed] by blast
  moreover have "normalized_policy_path (pf_path (sample_facts ''src/a.ts'' (Some [file_claim]))) = Some ''src/a.ts''"
    "operation_named (pf_operation (sample_facts ''src/a.ts'' (Some [file_claim]))) = Some FsWrite"
    by code_simp+
  ultimately show ?thesis using allowed by (simp add: sample_facts_def)
qed

text \<open>A path is called concrete although it has parent segments after its first one, and the selectors then match its
  spelling, not the place it names: a denied place is allowed under another spelling, when no claims are given.\<close>

lemma parent_segments_evade_deny:
  "pd_status (decide_effective_path_access sample_fs (sample_facts ''secret/key'' None)) = PolicyDenied"
  "pd_status (decide_effective_path_access sample_fs (sample_facts ''src/../secret/key'' None)) = PolicyAllowed"
  by code_simp+

text \<open>A boundary whose selectors are listed in order and that carries its own token is read back as it is.\<close>

lemma boundary_selectors_map:
  "list_all SELECTOR ss \<Longrightarrow> boundary_selectors (JArr (map JStr ss)) = Inr ss"
  by (auto simp: boundary_selectors_def map_sum_list_Inr list_all2_conv_all_nth list_all_length)

definition boundary_document :: "profile_boundary \<Rightarrow> json" where
  "boundary_document b =
     (case boundary_json b of JObj ps \<Rightarrow> JObj ((''token'', JStr (pb_token b)) # ps) | v \<Rightarrow> v)"

lemma boundary_roundtrip:
  assumes "list_all SELECTOR (pb_read_only b @ pb_write b @ pb_deny b @ pb_immutable b)"
    and "sorted (pb_read_only b)" "sorted (pb_write b)" "sorted (pb_deny b)" "sorted (pb_immutable b)"
    and "pb_token b = profile_runtime_boundary_token sha b" "sha256_text (pb_token b)"
  shows "validate_profile_runtime_boundary sha (boundary_document b) = Inr b"
proof -
  have token: "profile_runtime_boundary_token sha (b\<lparr>pb_token := t\<rparr>) = profile_runtime_boundary_token sha b" for t
    by (simp add: profile_runtime_boundary_token_def boundary_json_def)
  obtain t i v r w d m where b: "b = \<lparr>pb_token = t, pb_profile_id = i, pb_profile_version = v, pb_read_only = r,
      pb_write = w, pb_deny = d, pb_immutable = m\<rparr>" by (cases b)
  have "boundary_selectors (JArr (map JStr r)) = Inr r" "boundary_selectors (JArr (map JStr w)) = Inr w"
    "boundary_selectors (JArr (map JStr d)) = Inr d" "boundary_selectors (JArr (map JStr m)) = Inr m"
    using assms(1) b by (simp_all add: boundary_selectors_map)
  moreover have "sort r = r" "sort w = w" "sort d = d" "sort m = m"
    using assms(2-5) b by (simp_all add: sorted_sort_id)
  ultimately show ?thesis
    using assms(6,7) unfolding b
    by (simp add: validate_profile_runtime_boundary_def boundary_document_def boundary_json_def jget_def
        plain_object_def boundary_text_def Let_def)
qed
end
