(* ===== verification/SessionRetention.thy ===== *)
theory SessionRetention
  imports ResourceClaims CanonicalJson
begin

text \<open>
  src/src/session-retention.ts: parking a session and resuming it, as a client of an authority that owns the registry.
  The authority is a record of operations on a state of its own, each of which may throw; the locale
  \<open>retention_authority\<close> states what the interface's comment asks of it, and the client is proved against that. The hash,
  the clock and the source of fresh identifiers are parameters. Reasons and details of errors are not kept.
\<close>

section \<open>Data\<close>

record physical_identity =
  pi_repository_id :: string
  pi_worktree_id :: string
  pi_worktree_path :: string
  pi_branch_id :: string
  pi_branch_name :: string

record claim_intent =
  ri_resource :: string
  ri_mode :: claim_mode

record retention_record =
  rt_schema_version :: int
  rt_operation_id :: string
  rt_session_id :: string
  rt_repository_id :: string
  rt_state :: string
  rt_physical_identity :: physical_identity
  rt_desired_claims :: "claim_intent list"
  rt_pinned_profile_digest :: string
  rt_parked_at :: string
  rt_updated_at :: string

record retention_session =
  rs_session_id :: string
  rs_state :: string
  rs_physical_identity :: physical_identity

record retention_snapshot =
  sn_session :: retention_session
  sn_claims :: "resource_claim list"
  sn_claim_set_generation :: int
  sn_retention :: "retention_record option"

datatype retention_operation = Park | Resume

datatype fence_result = FenceAccepted string | FenceRejected
datatype drain_result = Drained nat | DrainRejected
datatype revalidate_result = Revalidated retention_snapshot | RevalidateRejected
datatype resume_validation = ResumeAccepted string | ResumeRejected string

record park_commit =
  pc_operation_id :: string
  pc_session_id :: string
  pc_expected_state :: string
  pc_expected_generation :: int
  pc_fence_token :: string
  pc_physical_identity :: physical_identity
  pc_desired_claims :: "claim_intent list"
  pc_pinned_profile_digest :: string
  pc_release_claim_ids :: "string list"
  pc_parked_at :: string

record resume_input =
  ru_operation_id :: string
  ru_session_id :: string
  ru_snapshot :: retention_snapshot
  ru_retention :: retention_record
  ru_physical_identity :: physical_identity
  ru_pinned_profile_digest :: string
  ru_latest_external_scope :: json
  ru_desired_claims :: "claim_intent list"

record resume_commit = resume_input +
  ru_expected_state :: string
  ru_expected_generation :: int
  ru_validation_token :: string

text \<open>\<open>CommitAccepted\<close> carries the released claims of a park, or the reacquired claims of a resume.\<close>

datatype commit_result =
    CommitAccepted string retention_snapshot "resource_claim list option"
  | CommitUncertain string
  | CommitRejected string string

datatype reobservation = ReobservationResolved string string retention_snapshot | ReobservationUnknown string

datatype retention_status = StatusParked | StatusResumed | StatusUncertain

record retention_result =
  rr_operation :: retention_operation
  rr_operation_id :: string
  rr_session_id :: string
  rr_status :: retention_status
  rr_claim_set_generation :: "int option"
  rr_snapshot :: "retention_snapshot option"
  rr_retention :: "retention_record option"
  rr_moved_claims :: "resource_claim list option"
  rr_reconciliation :: "reobservation option"

text \<open>What may be thrown: a \<open>SessionRetentionError\<close> with its code, or an error of the registry\<close>

datatype retention_failure = SessionRetentionError string | RegistryFailure string

section \<open>The authority\<close>

type_synonym ('s, 'a) call = "'s \<Rightarrow> (retention_failure + 'a) \<times> 's"

definition bind_call :: "('s, 'a) call \<Rightarrow> ('a \<Rightarrow> ('s, 'b) call) \<Rightarrow> ('s, 'b) call" where
  "bind_call m f s = (case m s of (Inl e, s') \<Rightarrow> (Inl e, s') | (Inr a, s') \<Rightarrow> f a s')"

definition pure_call :: "retention_failure + 'a \<Rightarrow> ('s, 'a) call" where
  "pure_call r s = (r, s)"

record 's retention_ops =
  au_observe :: "string \<Rightarrow> ('s, retention_snapshot) call"
  au_fence :: "string \<Rightarrow> string \<Rightarrow> ('s, fence_result) call"
  au_drain :: "string \<Rightarrow> string \<Rightarrow> string \<Rightarrow> ('s, drain_result) call"
  au_revalidate :: "string \<Rightarrow> string \<Rightarrow> string \<Rightarrow> ('s, revalidate_result) call"
  au_atomic_park :: "park_commit \<Rightarrow> ('s, commit_result) call"
  au_validate_resume :: "resume_input \<Rightarrow> ('s, resume_validation) call"
  au_atomic_resume :: "resume_commit \<Rightarrow> ('s, commit_result) call"
  au_reobserve :: "retention_operation \<Rightarrow> string \<Rightarrow> string \<Rightarrow> ('s, reobservation) call"

section \<open>Validation\<close>

abbreviation retention_error :: "string \<Rightarrow> retention_failure + 'a" where
  "retention_error code \<equiv> Inl (SessionRetentionError code)"

definition control_unit :: "char \<Rightarrow> bool" where
  "control_unit c \<longleftrightarrow> of_char c < (32 :: nat) \<or> of_char c = (127 :: nat)"

definition bounded_retention_text :: "string \<Rightarrow> bool" where
  "bounded_retention_text s \<longleftrightarrow> s \<noteq> [] \<and> length s \<le> 512 \<and> \<not> list_ex control_unit s"

definition non_empty_string :: "json \<Rightarrow> retention_failure + string" where
  "non_empty_string v =
     (case v of JStr s \<Rightarrow> if bounded_retention_text s then Inr (normalize_nfc s) else retention_error ''INVALID_INPUT''
      | _ \<Rightarrow> retention_error ''INVALID_INPUT'')"

definition retention_timestamp :: "json \<Rightarrow> retention_failure + string" where
  "retention_timestamp v =
     bind_sum (non_empty_string v) (\<lambda>s. if is_timestamp s then Inr s else retention_error ''INVALID_INPUT'')"

definition assert_generation :: "int \<Rightarrow> retention_failure + int" where
  "assert_generation n = (if 0 \<le> n \<and> n \<le> 9007199254740991 then Inr n else retention_error ''INVALID_INPUT'')"

definition clone_physical_identity :: "physical_identity \<Rightarrow> retention_failure + physical_identity" where
  "clone_physical_identity p =
     bind_sum (non_empty_string (JStr (pi_repository_id p))) (\<lambda>repository.
     bind_sum (non_empty_string (JStr (pi_worktree_id p))) (\<lambda>worktree.
     bind_sum (non_empty_string (JStr (pi_worktree_path p))) (\<lambda>path.
     bind_sum (non_empty_string (JStr (pi_branch_id p))) (\<lambda>branch.
     bind_sum (non_empty_string (JStr (pi_branch_name p))) (\<lambda>name.
     Inr \<lparr>pi_repository_id = repository, pi_worktree_id = worktree, pi_worktree_path = path, pi_branch_id = branch,
          pi_branch_name = name\<rparr>)))))"

definition same_physical_identity :: "physical_identity \<Rightarrow> physical_identity \<Rightarrow> bool" where
  "same_physical_identity l r \<longleftrightarrow>
     pi_repository_id l = pi_repository_id r \<and> pi_worktree_id l = pi_worktree_id r \<and>
     pi_worktree_path l = pi_worktree_path r \<and> pi_branch_id l = pi_branch_id r \<and>
     pi_branch_name l = pi_branch_name r"

section \<open>The digest of an identity\<close>

text \<open>
  An object lists its array indices first, in numerical order, and its other properties in the order they were set,
  which is the order of their names; assigning the property \<open>__proto__\<close> sets none. The values are trees, so the test for
  cycles never fires, and integers, so none is infinite.
\<close>

definition array_index :: "string \<Rightarrow> bool" where
  "array_index k \<longleftrightarrow>
     k \<noteq> [] \<and> list_all is_digit k \<and> (hd k = CHR ''0'' \<longrightarrow> k = ''0'') \<and> digits_value 0 k < 4294967295"

definition own_property_order :: "(string \<times> 'a) list \<Rightarrow> (string \<times> 'a) list" where
  "own_property_order ps =
     sort_key (\<lambda>p. digits_value 0 (fst p)) (filter (\<lambda>p. array_index (fst p)) ps) @
     filter (\<lambda>p. \<not> array_index (fst p) \<and> fst p \<noteq> ''__proto__'') ps"

fun stable_clone :: "json \<Rightarrow> retention_failure + json"
  and stable_clone_list :: "json list \<Rightarrow> retention_failure + json list"
  and stable_clone_entries :: "(string \<times> json) list \<Rightarrow> retention_failure + (string \<times> json) list"
  where
  "stable_clone JUndefined = retention_error ''INVALID_INPUT''"
| "stable_clone (JArr vs) = bind_sum (stable_clone_list vs) (\<lambda>ws. Inr (JArr ws))"
| "stable_clone (JObj ps) =
     bind_sum (stable_clone_entries ps) (\<lambda>qs. Inr (JObj (own_property_order (sort_key fst qs))))"
| "stable_clone v = Inr v"
| "stable_clone_list [] = Inr []"
| "stable_clone_list (v # vs) =
     bind_sum (stable_clone v) (\<lambda>w. bind_sum (stable_clone_list vs) (\<lambda>ws. Inr (w # ws)))"
| "stable_clone_entries [] = Inr []"
| "stable_clone_entries (e # es) =
     bind_sum (stable_clone (snd e)) (\<lambda>w. bind_sum (stable_clone_entries es) (\<lambda>ws. Inr ((fst e, w) # ws)))"

definition retention_identity_digest :: "(string \<Rightarrow> string) \<Rightarrow> json \<Rightarrow> retention_failure + string" where
  "retention_identity_digest sha v = bind_sum (stable_clone v) (\<lambda>c. Inr (sha (print_json c)))"

section \<open>Claim intents\<close>

definition clone_claim_intent :: "json \<Rightarrow> json \<Rightarrow> retention_failure + claim_intent" where
  "clone_claim_intent resource mode =
     bind_sum (non_empty_string resource) (\<lambda>r.
     case resource_claim_mode (case mode of JStr m \<Rightarrow> JsString m | _ \<Rightarrow> JsOther) of
       None \<Rightarrow> retention_error ''INVALID_INPUT''
     | Some m \<Rightarrow> Inr \<lparr>ri_resource = r, ri_mode = m\<rparr>)"

definition intent_key :: "claim_intent \<Rightarrow> string" where
  "intent_key i = ri_resource i @ NUL # mode_name (ri_mode i)"

definition clone_and_sort_intents :: "claim_intent list \<Rightarrow> retention_failure + claim_intent list" where
  "clone_and_sort_intents intents =
     bind_sum (map_sum_list (\<lambda>i. clone_claim_intent (JStr (ri_resource i)) (JStr (mode_name (ri_mode i)))) intents) (\<lambda>cloned.
     let normalized = sort_key intent_key cloned in
     if list_ex (\<lambda>(a, b). intent_key a = intent_key b) (zip normalized (tl normalized)) then retention_error ''INVALID_INPUT''
     else Inr normalized)"

text \<open>\<open>claimIntent\<close>, of a claim of a snapshot and of one a caller passes\<close>

definition claim_intent_of :: "resource_claim \<Rightarrow> retention_failure + claim_intent" where
  "claim_intent_of c = clone_claim_intent (JStr (rc_resource c)) (JStr (mode_name (rc_mode c)))"

definition claim_intent_of_input :: "json \<Rightarrow> retention_failure + claim_intent" where
  "claim_intent_of_input v =
     bind_sum (require (is_record v) (SessionRetentionError ''INVALID_INPUT'')) (\<lambda>_.
       clone_claim_intent (jget v ''resource'') (jget v ''mode''))"

definition claims_for_session :: "retention_snapshot \<Rightarrow> resource_claim list" where
  "claims_for_session snapshot = filter (\<lambda>c. rc_session_id c = rs_session_id (sn_session snapshot)) (sn_claims snapshot)"

definition assert_retention_snapshot :: "retention_snapshot \<Rightarrow> string \<Rightarrow> retention_failure + unit" where
  "assert_retention_snapshot snapshot session_id =
     bind_sum (require (rs_session_id (sn_session snapshot) = session_id) (SessionRetentionError ''SESSION_NOT_FOUND'')) (\<lambda>_.
     bind_sum (assert_generation (sn_claim_set_generation snapshot)) (\<lambda>_.
     bind_sum (clone_physical_identity (rs_physical_identity (sn_session snapshot))) (\<lambda>_. Inr ())))"

definition check_desired_subset :: "claim_intent list \<Rightarrow> resource_claim list \<Rightarrow> string \<Rightarrow> retention_failure + unit" where
  "check_desired_subset desired claims session_id =
     (let available = map (\<lambda>c. rc_resource c @ NUL # mode_name (rc_mode c)) (filter (\<lambda>c. rc_session_id c = session_id) claims) in
      for_each_sum (\<lambda>d. require (intent_key d \<in> set available) (SessionRetentionError ''INVALID_INPUT'')) desired)"

section \<open>The commit and its evidence\<close>

definition retention_success ::
  "retention_operation \<Rightarrow> string \<Rightarrow> string \<Rightarrow> retention_snapshot \<Rightarrow> retention_result" where
  "retention_success operation operation_id session_id snapshot =
     \<lparr>rr_operation = operation, rr_operation_id = operation_id, rr_session_id = session_id,
      rr_status = (case operation of Park \<Rightarrow> StatusParked | Resume \<Rightarrow> StatusResumed),
      rr_claim_set_generation = Some (sn_claim_set_generation snapshot), rr_snapshot = Some snapshot,
      rr_retention = None, rr_moved_claims = None, rr_reconciliation = None\<rparr>"

definition unresolved_retention ::
  "retention_operation \<Rightarrow> string \<Rightarrow> string \<Rightarrow> reobservation \<Rightarrow> retention_result" where
  "unresolved_retention operation operation_id session_id reconciliation =
     \<lparr>rr_operation = operation, rr_operation_id = operation_id, rr_session_id = session_id,
      rr_status = StatusUncertain, rr_claim_set_generation = None, rr_snapshot = None, rr_retention = None,
      rr_moved_claims = None, rr_reconciliation = Some reconciliation\<rparr>"

definition postcondition_matches :: "retention_operation \<Rightarrow> string \<Rightarrow> string \<Rightarrow> retention_snapshot \<Rightarrow> bool" where
  "postcondition_matches operation operation_id session_id snapshot =
     (case operation of
        Park \<Rightarrow> (case sn_retention snapshot of None \<Rightarrow> False
          | Some r \<Rightarrow> rt_state r = ''parked'' \<and> rt_operation_id r = operation_id \<and> rt_session_id r = session_id)
      | Resume \<Rightarrow> sn_retention snapshot = None)"

definition resolve_uncertain ::
  "'s retention_ops \<Rightarrow> retention_operation \<Rightarrow> string \<Rightarrow> string \<Rightarrow> string \<Rightarrow> ('s, retention_result) call" where
  "resolve_uncertain au operation operation_id session_id expected_state =
     bind_call (au_reobserve au operation operation_id session_id) (\<lambda>observed.
     pure_call (Inr
       (case observed of
          ReobservationResolved observed_id state snapshot \<Rightarrow>
            if rs_session_id (sn_session snapshot) = session_id \<and> observed_id = operation_id \<and> state = expected_state \<and>
               rs_state (sn_session snapshot) = expected_state \<and>
               postcondition_matches operation operation_id session_id snapshot
            then (retention_success operation operation_id session_id snapshot)\<lparr>rr_reconciliation := Some observed\<rparr>
            else unresolved_retention operation operation_id session_id (ReobservationUnknown operation_id)
        | ReobservationUnknown observed_id \<Rightarrow>
            if observed_id \<noteq> operation_id
            then unresolved_retention operation operation_id session_id (ReobservationUnknown operation_id)
            else unresolved_retention operation operation_id session_id observed)))"

fun commit_operation_id :: "commit_result \<Rightarrow> string" where
  "commit_operation_id (CommitAccepted i _ _) = i"
| "commit_operation_id (CommitUncertain i) = i"
| "commit_operation_id (CommitRejected i _) = i"

definition assert_commit_identity :: "commit_result \<Rightarrow> string \<Rightarrow> retention_failure + unit" where
  "assert_commit_identity commit operation_id =
     require (commit_operation_id commit = operation_id) (SessionRetentionError ''RETENTION_STEP_FAILED'')"

definition handle_park_commit ::
  "'s retention_ops \<Rightarrow> string \<Rightarrow> string \<Rightarrow> commit_result \<Rightarrow> ('s, retention_result) call" where
  "handle_park_commit au operation_id session_id commit =
     bind_call (pure_call (assert_commit_identity commit operation_id)) (\<lambda>_.
     case commit of
       CommitRejected _ code \<Rightarrow> pure_call (retention_error code)
     | CommitUncertain _ \<Rightarrow> resolve_uncertain au Park operation_id session_id ''parked''
     | CommitAccepted _ snapshot released \<Rightarrow>
         if rs_state (sn_session snapshot) \<noteq> ''parked'' \<or> sn_retention snapshot = None
         then pure_call (retention_error ''RETENTION_STEP_FAILED'')
         else pure_call (Inr ((retention_success Park operation_id session_id snapshot)
           \<lparr>rr_retention := sn_retention snapshot, rr_moved_claims := released\<rparr>)))"

definition handle_resume_commit ::
  "'s retention_ops \<Rightarrow> string \<Rightarrow> string \<Rightarrow> commit_result \<Rightarrow> ('s, retention_result) call" where
  "handle_resume_commit au operation_id session_id commit =
     bind_call (pure_call (assert_commit_identity commit operation_id)) (\<lambda>_.
     case commit of
       CommitRejected _ code \<Rightarrow> pure_call (retention_error code)
     | CommitUncertain _ \<Rightarrow> resolve_uncertain au Resume operation_id session_id ''active''
     | CommitAccepted _ snapshot reacquired \<Rightarrow>
         if rs_state (sn_session snapshot) \<noteq> ''active'' \<or> sn_retention snapshot \<noteq> None
         then pure_call (retention_error ''RETENTION_STEP_FAILED'')
         else pure_call (Inr ((retention_success Resume operation_id session_id snapshot)\<lparr>rr_moved_claims := reacquired\<rparr>)))"

section \<open>Park and resume\<close>

record retention_env =
  en_sha256 :: "string \<Rightarrow> string"
  en_fresh_id :: string
  en_now :: string

record park_options =
  po_session_id :: json
  po_pinned_profile :: json
  po_desired_claims :: "json list option"
  po_operation_id :: json
  po_now :: json

record resume_options =
  ro_session_id :: json
  ro_pinned_profile :: json
  ro_latest_external_scope :: json
  ro_operation_id :: json

text \<open>\<open>a ?? b\<close>\<close>

definition or_else :: "json \<Rightarrow> string \<Rightarrow> json" where
  "or_else v s = (if v = JUndefined \<or> v = JNull then JStr s else v)"

definition park_session :: "retention_env \<Rightarrow> 's retention_ops \<Rightarrow> park_options \<Rightarrow> ('s, retention_result) call" where
  "park_session env au options =
     bind_call (pure_call (non_empty_string (po_session_id options))) (\<lambda>session_id.
     bind_call (pure_call (non_empty_string (or_else (po_operation_id options) (en_fresh_id env)))) (\<lambda>operation_id.
     bind_call (pure_call (retention_identity_digest (en_sha256 env) (po_pinned_profile options))) (\<lambda>digest.
     bind_call (pure_call (retention_timestamp (or_else (po_now options) (en_now env)))) (\<lambda>parked_at.
     bind_call (au_observe au session_id) (\<lambda>initial.
     bind_call (pure_call (assert_retention_snapshot initial session_id)) (\<lambda>_.
     if rs_state (sn_session initial) = ''parked'' then pure_call (retention_error ''SESSION_ALREADY_PARKED'')
     else if rs_state (sn_session initial) \<noteq> ''active'' then pure_call (retention_error ''SESSION_NOT_ACTIVE'')
     else
     bind_call (pure_call (bind_sum
       (case po_desired_claims options of
          None \<Rightarrow> map_sum_list claim_intent_of (claims_for_session initial)
        | Some inputs \<Rightarrow> map_sum_list claim_intent_of_input inputs) clone_and_sort_intents)) (\<lambda>desired.
     bind_call (pure_call (check_desired_subset desired (sn_claims initial) session_id)) (\<lambda>_.
     bind_call (au_fence au session_id operation_id) (\<lambda>fence.
     case fence of
       FenceRejected \<Rightarrow> pure_call (retention_error ''FENCE_REJECTED'')
     | FenceAccepted token \<Rightarrow>
     bind_call (au_drain au session_id operation_id token) (\<lambda>drain.
     case drain of
       DrainRejected \<Rightarrow> pure_call (retention_error ''DRAIN_INCOMPLETE'')
     | Drained _ \<Rightarrow>
     bind_call (au_revalidate au session_id operation_id token) (\<lambda>revalidated.
     case revalidated of
       RevalidateRejected \<Rightarrow> pure_call (retention_error ''REVALIDATION_FAILED'')
     | Revalidated snapshot \<Rightarrow>
     bind_call (pure_call (assert_retention_snapshot snapshot session_id)) (\<lambda>_.
     if rs_state (sn_session snapshot) \<noteq> ''active'' then pure_call (retention_error ''REVALIDATION_FAILED'')
     else if \<not> same_physical_identity (rs_physical_identity (sn_session initial)) (rs_physical_identity (sn_session snapshot))
     then pure_call (retention_error ''PHYSICAL_IDENTITY_MISMATCH'')
     else
     bind_call (pure_call (check_desired_subset desired (sn_claims snapshot) session_id)) (\<lambda>_.
     bind_call (au_atomic_park au
       \<lparr>pc_operation_id = operation_id, pc_session_id = session_id, pc_expected_state = ''active'',
        pc_expected_generation = sn_claim_set_generation snapshot, pc_fence_token = token,
        pc_physical_identity = rs_physical_identity (sn_session snapshot), pc_desired_claims = desired,
        pc_pinned_profile_digest = digest,
        pc_release_claim_ids = sort (map rc_claim_id (filter (\<lambda>c. rc_session_id c = session_id) (sn_claims snapshot))),
        pc_parked_at = parked_at\<rparr>) (\<lambda>commit.
     handle_park_commit au operation_id session_id commit))))))))))))))"

definition resume_session :: "retention_env \<Rightarrow> 's retention_ops \<Rightarrow> resume_options \<Rightarrow> ('s, retention_result) call" where
  "resume_session env au options =
     bind_call (pure_call (non_empty_string (ro_session_id options))) (\<lambda>session_id.
     bind_call (pure_call (non_empty_string (or_else (ro_operation_id options) (en_fresh_id env)))) (\<lambda>operation_id.
     bind_call (pure_call (retention_identity_digest (en_sha256 env) (ro_pinned_profile options))) (\<lambda>digest.
     bind_call (au_observe au session_id) (\<lambda>snapshot.
     bind_call (pure_call (assert_retention_snapshot snapshot session_id)) (\<lambda>_.
     if rs_state (sn_session snapshot) \<noteq> ''parked'' then pure_call (retention_error ''SESSION_NOT_PARKED'')
     else
     (case sn_retention snapshot of
        None \<Rightarrow> pure_call (retention_error ''SESSION_NOT_PARKED'')
      | Some retention \<Rightarrow>
     if rt_state retention \<noteq> ''parked'' then pure_call (retention_error ''SESSION_NOT_PARKED'')
     else if rt_session_id retention \<noteq> session_id then pure_call (retention_error ''RETENTION_STEP_FAILED'')
     else if rt_repository_id retention \<noteq> pi_repository_id (rs_physical_identity (sn_session snapshot))
     then pure_call (retention_error ''PHYSICAL_IDENTITY_MISMATCH'')
     else if \<not> same_physical_identity (rs_physical_identity (sn_session snapshot)) (rt_physical_identity retention)
     then pure_call (retention_error ''PHYSICAL_IDENTITY_MISMATCH'')
     else if rt_pinned_profile_digest retention \<noteq> digest then pure_call (retention_error ''PINNED_PROFILE_MISMATCH'')
     else if ro_latest_external_scope options = JUndefined \<or> ro_latest_external_scope options = JNull
     then pure_call (retention_error ''EXTERNAL_SCOPE_REJECTED'')
     else
     bind_call (pure_call (clone_and_sort_intents (rt_desired_claims retention))) (\<lambda>desired.
     let input = \<lparr>ru_operation_id = operation_id, ru_session_id = session_id, ru_snapshot = snapshot,
       ru_retention = retention, ru_physical_identity = rs_physical_identity (sn_session snapshot),
       ru_pinned_profile_digest = digest, ru_latest_external_scope = ro_latest_external_scope options,
       ru_desired_claims = desired\<rparr> in
     bind_call (au_validate_resume au input) (\<lambda>validation.
     case validation of
       ResumeRejected code \<Rightarrow>
         pure_call (retention_error
           (if code = ''CLAIM_CONFLICT'' \<or> code = ''STALE_CLAIM_SET'' then code else ''EXTERNAL_SCOPE_REJECTED''))
     | ResumeAccepted token \<Rightarrow>
     bind_call (au_atomic_resume au (resume_input.extend input
       \<lparr>ru_expected_state = ''parked'', ru_expected_generation = sn_claim_set_generation snapshot,
        ru_validation_token = token\<rparr>)) (\<lambda>commit.
     handle_resume_commit au operation_id session_id commit)))))))))"

lemma clone_claim_intent_Inr:
  "clone_claim_intent (JStr (ri_resource i)) (JStr (mode_name (ri_mode i))) = Inr j \<Longrightarrow> j = i"
proof -
  have "resource_claim_mode (JsString (mode_name m)) = Some m" for m
    by (cases m) (simp_all add: resource_claim_mode_def mode_name_def RESOURCE_CLAIM_MODES_def)
  then show "clone_claim_intent (JStr (ri_resource i)) (JStr (mode_name (ri_mode i))) = Inr j \<Longrightarrow> j = i"
    by (auto simp: clone_claim_intent_def sum_simps non_empty_string_def normalize_nfc_def split: if_splits)
qed

lemma clone_and_sort_intents_Inr:
  assumes "clone_and_sort_intents intents = Inr desired"
  shows "desired = sort_key intent_key intents"
proof -
  obtain cloned where "map_sum_list (\<lambda>i. clone_claim_intent (JStr (ri_resource i)) (JStr (mode_name (ri_mode i)))) intents = Inr cloned"
    and "desired = sort_key intent_key cloned"
    using assms by (auto simp: clone_and_sort_intents_def sum_simps Let_def split: if_splits)
  moreover from this(1) have "cloned = intents"
    using clone_claim_intent_Inr by (auto simp: map_sum_list_Inr list_all2_conv_all_nth intro: nth_equalityI)
  ultimately show ?thesis by simp
qed

section \<open>What the interface asks of an authority\<close>

text \<open>What a park or a resume is about: the claims of all sessions, and the retention record of every parked session.\<close>

record retention_view =
  vw_claims :: "resource_claim list"
  vw_parked :: "string \<Rightarrow> retention_record option"

definition intent_of :: "resource_claim \<Rightarrow> claim_intent" where
  "intent_of c = \<lparr>ri_resource = rc_resource c, ri_mode = rc_mode c\<rparr>"

definition owned_claims :: "string \<Rightarrow> retention_view \<Rightarrow> resource_claim set" where
  "owned_claims session_id v = {c \<in> set (vw_claims v). rc_session_id c = session_id}"

definition foreign_claims :: "string \<Rightarrow> retention_view \<Rightarrow> resource_claim set" where
  "foreign_claims session_id v = {c \<in> set (vw_claims v). rc_session_id c \<noteq> session_id}"

text \<open>A park: every claim of the session goes, no other, and the wanted ones are remembered.\<close>

definition park_effect :: "string \<Rightarrow> string \<Rightarrow> claim_intent list \<Rightarrow> retention_view \<Rightarrow> retention_view \<Rightarrow> bool" where
  "park_effect operation_id session_id desired v w \<longleftrightarrow>
     owned_claims session_id w = {} \<and> foreign_claims session_id w = foreign_claims session_id v \<and>
     (\<exists>r. vw_parked w = (vw_parked v)(session_id := Some r) \<and> set (rt_desired_claims r) = set desired \<and>
          rt_operation_id r = operation_id \<and> rt_session_id r = session_id \<and> rt_state r = ''parked'')"

text \<open>A resume: the remembered claims come back, no other claim changes, and the record goes.\<close>

definition resume_effect :: "string \<Rightarrow> retention_record \<Rightarrow> retention_view \<Rightarrow> retention_view \<Rightarrow> bool" where
  "resume_effect session_id r v w \<longleftrightarrow>
     vw_parked v session_id = Some r \<and> vw_parked w = (vw_parked v)(session_id := None) \<and>
     foreign_claims session_id w = foreign_claims session_id v \<and>
     intent_of ` owned_claims session_id w = set (rt_desired_claims r)"

text \<open>What a call reports about its effect\<close>

definition park_outcome :: "claim_intent list \<Rightarrow> string \<Rightarrow> string \<Rightarrow> retention_view \<Rightarrow> retention_result \<Rightarrow> retention_view \<Rightarrow> bool" where
  "park_outcome desired operation_id session_id v res w \<longleftrightarrow>
     rr_session_id res = session_id \<and> rr_operation_id res = operation_id \<and>
     (rr_status res = StatusParked \<and> park_effect operation_id session_id desired v w \<or>
      rr_status res = StatusUncertain \<and> (w = v \<or> park_effect operation_id session_id desired v w))"

definition resume_outcome :: "retention_record \<Rightarrow> string \<Rightarrow> string \<Rightarrow> retention_view \<Rightarrow> retention_result \<Rightarrow> retention_view \<Rightarrow> bool" where
  "resume_outcome record operation_id session_id v res w \<longleftrightarrow>
     rr_session_id res = session_id \<and> rr_operation_id res = operation_id \<and>
     (rr_status res = StatusResumed \<and> resume_effect session_id record v w \<or>
      rr_status res = StatusUncertain \<and> (w = v \<or> resume_effect session_id record v w))"

text \<open>The claims a park is to remember: what the caller wants, or all that the session owns.\<close>

definition wanted_intents :: "park_options \<Rightarrow> string \<Rightarrow> retention_view \<Rightarrow> claim_intent list \<Rightarrow> bool" where
  "wanted_intents options session_id v desired \<longleftrightarrow>
     (case po_desired_claims options of
        None \<Rightarrow> \<exists>all. list_all2 (\<lambda>c i. claim_intent_of c = Inr i) (filter (\<lambda>c. rc_session_id c = session_id) (vw_claims v)) all \<and>
           clone_and_sort_intents all = Inr desired
      | Some inputs \<Rightarrow> \<exists>given. list_all2 (\<lambda>c i. claim_intent_of_input c = Inr i) inputs given \<and>
           clone_and_sort_intents given = Inr desired) \<and>
     (\<forall>d\<in>set desired. \<exists>c\<in>set (vw_claims v). rc_session_id c = session_id \<and> intent_key (intent_of c) = intent_key d)"

locale retention_authority =
  fixes au :: "'s retention_ops" and view :: "'s \<Rightarrow> retention_view"
  assumes observe_silent: "view (snd (au_observe au i s)) = view s"
    and fence_silent: "view (snd (au_fence au i p s)) = view s"
    and drain_silent: "view (snd (au_drain au i p t s)) = view s"
    and revalidate_silent: "view (snd (au_revalidate au i p t s)) = view s"
    and validate_silent: "view (snd (au_validate_resume au input s)) = view s"
    and reobserve_silent: "view (snd (au_reobserve au k p i s)) = view s"
    and observe_true: "au_observe au i s = (Inr snapshot, s') \<Longrightarrow>
      sn_claims snapshot = vw_claims (view s) \<and> sn_retention snapshot = vw_parked (view s) i \<and>
      (rs_state (sn_session snapshot) = ''parked'' \<longleftrightarrow> vw_parked (view s) i \<noteq> None)"
    and revalidate_true: "au_revalidate au i p t s = (Inr (Revalidated snapshot), s') \<Longrightarrow>
      sn_claims snapshot = vw_claims (view s) \<and>
      (rs_state (sn_session snapshot) = ''parked'' \<longleftrightarrow> vw_parked (view s) i \<noteq> None)"
    and reobserve_returns: "au_reobserve au k p i s \<noteq> (Inl e, s')"
    and reobserve_true: "au_reobserve au k p i s = (Inr (ReobservationResolved q state snapshot), s') \<Longrightarrow>
      sn_retention snapshot = vw_parked (view s) i"
    and park_law: "au_atomic_park au c s = (r, s') \<Longrightarrow>
      set (pc_desired_claims c) \<subseteq> intent_of ` owned_claims (pc_session_id c) (view s) \<Longrightarrow>
      (case r of
         Inl e \<Rightarrow> view s' = view s
       | Inr (CommitRejected p code) \<Rightarrow> view s' = view s
       | Inr (CommitUncertain p) \<Rightarrow> p = pc_operation_id c \<and> (view s' = view s \<or>
           park_effect (pc_operation_id c) (pc_session_id c) (pc_desired_claims c) (view s) (view s'))
       | Inr (CommitAccepted p snapshot released) \<Rightarrow>
           p = pc_operation_id c \<and> rs_state (sn_session snapshot) = ''parked'' \<and> sn_retention snapshot \<noteq> None \<and>
           park_effect (pc_operation_id c) (pc_session_id c) (pc_desired_claims c) (view s) (view s'))"
    and resume_law: "au_atomic_resume au u s = (r, s') \<Longrightarrow>
      vw_parked (view s) (ru_session_id u) = Some (ru_retention u) \<Longrightarrow>
      set (ru_desired_claims u) = set (rt_desired_claims (ru_retention u)) \<Longrightarrow>
      (case r of
         Inl e \<Rightarrow> view s' = view s
       | Inr (CommitRejected p code) \<Rightarrow> view s' = view s
       | Inr (CommitUncertain p) \<Rightarrow> p = ru_operation_id u \<and> (view s' = view s \<or>
           resume_effect (ru_session_id u) (ru_retention u) (view s) (view s'))
       | Inr (CommitAccepted p snapshot reacquired) \<Rightarrow>
           p = ru_operation_id u \<and> rs_state (sn_session snapshot) = ''active'' \<and> sn_retention snapshot = None \<and>
           resume_effect (ru_session_id u) (ru_retention u) (view s) (view s'))"
begin

lemma reobserved:
  assumes "resolve_uncertain au k p i state s = (r, s')"
  shows "view s' = view s \<and>
    (case r of Inl e \<Rightarrow> False
     | Inr res \<Rightarrow> rr_session_id res = i \<and> rr_operation_id res = p \<and>
         (rr_status res = StatusUncertain \<or>
          (rr_status res = (case k of Park \<Rightarrow> StatusParked | Resume \<Rightarrow> StatusResumed) \<and>
           (case k of Park \<Rightarrow> (\<exists>t. vw_parked (view s) i = Some t) | Resume \<Rightarrow> vw_parked (view s) i = None))))"
proof -
  obtain o' s1 where run: "au_reobserve au k p i s = (o', s1)" by fastforce
  have "view s1 = view s" using reobserve_silent [of k p i s] run by simp
  moreover have "\<And>e. o' \<noteq> Inl e" using reobserve_returns [of k p i s] run by auto
  ultimately show ?thesis
    using assms run
    by (auto simp: resolve_uncertain_def bind_call_def pure_call_def unresolved_retention_def retention_success_def
        postcondition_matches_def split: sum.splits reobservation.splits retention_operation.splits if_splits option.splits
        dest!: reobserve_true)
qed

text \<open>From the view \<open>v\<close> a call that throws leaves the view as it was, and a result satisfies \<open>Q\<close> with the view it leaves.\<close>

definition ensures :: "retention_view \<Rightarrow> ('s, 'a) call \<Rightarrow> ('a \<Rightarrow> retention_view \<Rightarrow> bool) \<Rightarrow> bool" where
  "ensures v m Q \<longleftrightarrow>
     (\<forall>s. view s = v \<longrightarrow> (case m s of (Inl e, s') \<Rightarrow> view s' = v | (Inr a, s') \<Rightarrow> Q a (view s')))"

lemma ensures_fail [simp]: "ensures v (pure_call (Inl e)) Q"
  by (simp add: ensures_def pure_call_def)

lemma ensures_pure: "(\<And>a. r = Inr a \<Longrightarrow> ensures v (f a) Q) \<Longrightarrow> ensures v (bind_call (pure_call r) f) Q"
  by (cases r) (simp_all add: ensures_def bind_call_def pure_call_def)

lemma ensures_silent:
  assumes "\<And>s. view (snd (m s)) = view s"
    and "\<And>a s s'. view s = v \<Longrightarrow> m s = (Inr a, s') \<Longrightarrow> ensures v (f a) Q"
  shows "ensures v (bind_call m f) Q"
  unfolding ensures_def
proof (intro allI impI)
  fix s assume s: "view s = v"
  obtain r s1 where run: "m s = (r, s1)" by fastforce
  have "view s1 = v" using assms(1) [of s] run s by simp
  then show "case bind_call m f s of (Inl e, s') \<Rightarrow> view s' = v | (Inr a, s') \<Rightarrow> Q a (view s')"
    using assms(2) [OF s] run by (cases r) (auto simp: bind_call_def ensures_def)
qed

lemma ensures_if: "(c \<Longrightarrow> ensures v m Q) \<Longrightarrow> (\<not> c \<Longrightarrow> ensures v n Q) \<Longrightarrow> ensures v (if c then m else n) Q"
  by simp

lemma ensures_run:
  assumes "ensures v m Q" "view s = v" "m s = (r, s')"
  shows "case r of Inl e \<Rightarrow> view s' = v | Inr a \<Rightarrow> Q a (view s')"
  using assms by (auto simp: ensures_def split: sum.splits)

lemma park_committed:
  assumes "vw_parked v (pc_session_id c) = None" "pc_operation_id c = p" "pc_session_id c = i"
    and wanted: "set (pc_desired_claims c) \<subseteq> intent_of ` owned_claims (pc_session_id c) v"
  shows "ensures v (bind_call (au_atomic_park au c) (handle_park_commit au p i))
    (park_outcome (pc_desired_claims c) p i v)"
  unfolding ensures_def
proof (intro allI impI)
  fix s assume v: "view s = v"
  obtain r s1 where run: "au_atomic_park au c s = (r, s1)" by fastforce
  note law = park_law [OF run wanted [folded v]]
  obtain r2 s2 where rest: "resolve_uncertain au Park p i ''parked'' s1 = (r2, s2)" by fastforce
  note seen = reobserved [OF rest]
  have parked: "vw_parked (view s1) i = Some t \<Longrightarrow> view s1 \<noteq> v" for t using assms by auto
  show "case bind_call (au_atomic_park au c) (handle_park_commit au p i) s of
      (Inl e, s') \<Rightarrow> view s' = v | (Inr a, s') \<Rightarrow> park_outcome (pc_desired_claims c) p i v a (view s')"
  proof (cases r)
    case (Inl e)
    with run law v show ?thesis by (simp add: bind_call_def)
  next
    case (Inr commit)
    show ?thesis
    proof (cases commit)
      case (CommitAccepted q snapshot released)
      with Inr run law v assms show ?thesis
        by (auto simp: bind_call_def handle_park_commit_def pure_call_def assert_commit_identity_def require_def
            retention_success_def park_outcome_def)
    next
      case (CommitRejected q code)
      with Inr run law v assms show ?thesis
        by (auto simp: bind_call_def handle_park_commit_def pure_call_def assert_commit_identity_def require_def)
    next
      case (CommitUncertain q)
      show ?thesis
      proof (cases "q = p")
        case False
        with Inr CommitUncertain run law v assms show ?thesis
          by (auto simp: bind_call_def handle_park_commit_def pure_call_def assert_commit_identity_def require_def)
      next
        case True
        then have result: "bind_call (au_atomic_park au c) (handle_park_commit au p i) s = (r2, s2)"
          using Inr CommitUncertain run rest
          by (simp add: bind_call_def handle_park_commit_def pure_call_def assert_commit_identity_def)
        show ?thesis
          using law Inr CommitUncertain seen v parked assms unfolding result
          by (auto simp: park_outcome_def split: sum.splits)
      qed
    qed
  qed
qed

lemma resume_committed:
  assumes "vw_parked v i = Some (ru_retention u)" "ru_operation_id u = p" "ru_session_id u = i"
    and "set (ru_desired_claims u) = set (rt_desired_claims (ru_retention u))"
  shows "ensures v (bind_call (au_atomic_resume au u) (handle_resume_commit au p i))
    (resume_outcome (ru_retention u) p i v)"
  unfolding ensures_def
proof (intro allI impI)
  fix s assume v: "view s = v"
  obtain r s1 where run: "au_atomic_resume au u s = (r, s1)" by fastforce
  have "vw_parked (view s) (ru_session_id u) = Some (ru_retention u)" using assms(1,3) v by simp
  note law = resume_law [OF run this assms(4)]
  obtain r2 s2 where rest: "resolve_uncertain au Resume p i ''active'' s1 = (r2, s2)" by fastforce
  note seen = reobserved [OF rest]
  have gone: "vw_parked (view s1) i = None \<Longrightarrow> view s1 \<noteq> v" using assms by auto
  show "case bind_call (au_atomic_resume au u) (handle_resume_commit au p i) s of
      (Inl e, s') \<Rightarrow> view s' = v | (Inr a, s') \<Rightarrow> resume_outcome (ru_retention u) p i v a (view s')"
  proof (cases r)
    case (Inl e)
    with run law v show ?thesis by (simp add: bind_call_def)
  next
    case (Inr commit)
    show ?thesis
    proof (cases commit)
      case (CommitAccepted q snapshot released)
      with Inr run law v assms show ?thesis
        by (auto simp: bind_call_def handle_resume_commit_def pure_call_def assert_commit_identity_def require_def
            retention_success_def resume_outcome_def)
    next
      case (CommitRejected q code)
      with Inr run law v assms show ?thesis
        by (auto simp: bind_call_def handle_resume_commit_def pure_call_def assert_commit_identity_def require_def)
    next
      case (CommitUncertain q)
      then have result: "bind_call (au_atomic_resume au u) (handle_resume_commit au p i) s = (r2, s2)"
        using Inr run rest law assms
        by (simp add: bind_call_def handle_resume_commit_def pure_call_def assert_commit_identity_def)
      show ?thesis
        using law Inr CommitUncertain seen v gone assms unfolding result
        by (auto simp: resume_outcome_def split: sum.splits)
    qed
  qed
qed

lemma ensures_weaken:
  assumes "ensures v m Q" "\<And>a w. Q a w \<Longrightarrow> R a w"
  shows "ensures v m R"
  unfolding ensures_def
proof (intro allI impI)
  fix s assume "view s = v"
  with assms(1) have "case m s of (Inl e, s') \<Rightarrow> view s' = v | (Inr a, s') \<Rightarrow> Q a (view s')"
    by (simp add: ensures_def)
  then show "case m s of (Inl e, s') \<Rightarrow> view s' = v | (Inr a, s') \<Rightarrow> R a (view s')"
    using assms(2) by (auto split: sum.splits)
qed

text \<open>One rule for each call of the client\<close>

lemma ensures_observe:
  assumes "\<And>snapshot. sn_claims snapshot = vw_claims v \<Longrightarrow> sn_retention snapshot = vw_parked v i \<Longrightarrow>
      (rs_state (sn_session snapshot) = ''parked'' \<longleftrightarrow> vw_parked v i \<noteq> None) \<Longrightarrow> ensures v (f snapshot) Q"
  shows "ensures v (bind_call (au_observe au i) f) Q"
  using assms observe_true by (intro ensures_silent observe_silent) blast

lemma ensures_fence:
  "(\<And>t. ensures v (f t) Q) \<Longrightarrow>
   ensures v (bind_call (au_fence au i p) (\<lambda>x. case x of FenceRejected \<Rightarrow> pure_call (Inl e) | FenceAccepted t \<Rightarrow> f t)) Q"
  by (intro ensures_silent fence_silent) (simp split: fence_result.split)

lemma ensures_drain:
  "(\<And>n. ensures v (f n) Q) \<Longrightarrow>
   ensures v (bind_call (au_drain au i p t) (\<lambda>x. case x of DrainRejected \<Rightarrow> pure_call (Inl e) | Drained n \<Rightarrow> f n)) Q"
  by (intro ensures_silent drain_silent) (simp split: drain_result.split)

lemma ensures_revalidate:
  assumes "\<And>snapshot. sn_claims snapshot = vw_claims v \<Longrightarrow>
      (rs_state (sn_session snapshot) = ''parked'' \<longleftrightarrow> vw_parked v i \<noteq> None) \<Longrightarrow> ensures v (f snapshot) Q"
  shows "ensures v (bind_call (au_revalidate au i p t)
    (\<lambda>x. case x of RevalidateRejected \<Rightarrow> pure_call (Inl e) | Revalidated snapshot \<Rightarrow> f snapshot)) Q"
  using assms revalidate_true by (intro ensures_silent revalidate_silent) (auto split: revalidate_result.split)

lemma ensures_validate:
  "(\<And>t. ensures v (f t) Q) \<Longrightarrow>
   ensures v (bind_call (au_validate_resume au u) (\<lambda>x. case x of ResumeRejected c \<Rightarrow> pure_call (Inl (e c)) | ResumeAccepted t \<Rightarrow> f t)) Q"
  by (intro ensures_silent validate_silent) (simp split: resume_validation.split)

lemma ensures_option:
  "(\<And>x. r = Some x \<Longrightarrow> ensures v (f x) Q) \<Longrightarrow> ensures v (case r of None \<Rightarrow> pure_call (Inl e) | Some x \<Rightarrow> f x) Q"
  by (simp split: option.split)

lemmas ensures_steps = ensures_pure ensures_observe ensures_fence ensures_drain ensures_revalidate ensures_validate
  ensures_if ensures_option ensures_fail

lemma check_desired_subset_Inr:
  "check_desired_subset desired claims session_id = Inr u \<longleftrightarrow>
     (\<forall>d\<in>set desired. \<exists>c\<in>set claims. rc_session_id c = session_id \<and> intent_key (intent_of c) = intent_key d)"
  by (auto simp: check_desired_subset_def sum_simps intent_key_def intent_of_def Let_def image_iff) metis+

lemma intent_key_inj:
  assumes "intent_key a = intent_key b"
  shows "a = b"
proof -
  have "rev (mode_name (ri_mode a)) @ NUL # rev (ri_resource a) = rev (mode_name (ri_mode b)) @ NUL # rev (ri_resource b)"
    using arg_cong [OF assms, of rev] by (simp add: intent_key_def)
  then show ?thesis
    using NUL_suffix_inj [of "rev (mode_name (ri_mode a))" "rev (mode_name (ri_mode b))" "NUL # rev (ri_resource a)"
        "NUL # rev (ri_resource b)"]
    by (simp add: mode_name_inj)
qed

lemma desired_owned:
  "check_desired_subset desired (vw_claims v) session_id = Inr u \<Longrightarrow>
   set desired \<subseteq> intent_of ` owned_claims session_id v"
  by (fastforce simp: check_desired_subset_Inr owned_claims_def dest: intent_key_inj)

lemma assert_retention_snapshot_Inr:
  "assert_retention_snapshot snapshot i = Inr u \<Longrightarrow> rs_session_id (sn_session snapshot) = i"
  by (auto simp: assert_retention_snapshot_def sum_simps)

lemma wanted_intentsI:
  assumes "bind_sum
       (case po_desired_claims options of
          None \<Rightarrow> map_sum_list claim_intent_of (claims_for_session snapshot)
        | Some inputs \<Rightarrow> map_sum_list claim_intent_of_input inputs) clone_and_sort_intents = Inr desired"
    and "sn_claims snapshot = vw_claims v" "assert_retention_snapshot snapshot i = Inr ()"
    and "check_desired_subset desired (vw_claims v) i = Inr ()"
  shows "wanted_intents options i v desired"
proof -
  have "claims_for_session snapshot = filter (\<lambda>c. rc_session_id c = i) (vw_claims v)"
    using assms(2,3) by (auto simp: claims_for_session_def dest: assert_retention_snapshot_Inr)
  with assms(1,4) show ?thesis
    by (auto simp: wanted_intents_def check_desired_subset_Inr bind_sum_eq_Inr map_sum_list_Inr split: option.splits)
qed

lemma park_ensures:
  "ensures v (park_session env au options)
     (\<lambda>res w. \<exists>desired. wanted_intents options (rr_session_id res) v desired \<and>
        park_outcome desired (rr_operation_id res) (rr_session_id res) v res w)"
  unfolding park_session_def
proof (intro ensures_steps, goal_cases)
  case (1 i p digest parked_at initial u desired u1 token n snapshot u2 u3)
  then have "wanted_intents options i v desired"
    by (intro wanted_intentsI [where snapshot = initial]) simp_all
  with 1 show ?case
    by (intro ensures_weaken [OF park_committed]) (auto simp: park_outcome_def dest: desired_owned)
qed

lemma resume_ensures:
  "ensures v (resume_session env au options)
     (\<lambda>res w. \<exists>record. vw_parked v (rr_session_id res) = Some record \<and>
        resume_outcome record (rr_operation_id res) (rr_session_id res) v res w)"
  unfolding resume_session_def Let_def
proof (intro ensures_steps, goal_cases)
  case (1 i p digest snapshot u retention desired token)
  then have "set desired = set (rt_desired_claims retention)"
    using clone_and_sort_intents_Inr by fastforce
  with 1 show ?case
    by (intro ensures_weaken [OF resume_committed]) (auto simp: resume_outcome_def resume_input.defs)
qed

end
end
