(* ===== verification/WorkingSet.thy ===== *)
theory WorkingSet
  imports FilesystemPolicy SessionRetention
begin

text \<open>
  src/src/working-set.ts: the Effective Working Set of a session. Two artifacts from outside, the scope one execution
  is authorized for and the paths a task needs, are validated and composed into the first revision of the set; an
  expansion adds exact paths to it. A thrown \<open>Error\<close> is its message, because the composition tells an unsupported artifact from an
  invalid one by the word \<open>unsupported\<close> in it. The hash is a parameter.
\<close>

section \<open>Data\<close>

record repository_identity =
  ry_host :: string
  ry_id :: string
  ry_name :: "string option"

record base_identity =
  by_branch :: string
  by_revision :: string
  by_freshness :: "string option"

record work_scope =
  ws_read_only :: "string list"
  ws_write :: "string list"
  ws_create :: "string list"
  ws_delete :: "string list"
  ws_deny :: "string list"

record source_identity =
  si_kind :: string
  si_version :: int
  si_digest :: string
  si_identity :: json

record producer_locator =
  pl_host :: string
  pl_id :: string
  pl_number :: int

record scope_source = source_identity +
  si_producer :: "producer_locator option"

record set_provenance =
  pv_execution_scope :: scope_source
  pv_candidate :: source_identity
  pv_repository :: repository_identity
  pv_base :: base_identity

record expansion_history =
  eh_revision :: int
  eh_paths :: "string list"
  eh_operations :: "json list"
  eh_reason :: string
  eh_evidence :: "string option"
  eh_request_digest :: string

record effective_working_set =
  ew_revision :: int
  ew_id :: string
  ew_repository :: repository_identity
  ew_base :: base_identity
  ew_scope :: work_scope
  ew_provenance :: set_provenance
  ew_history :: "expansion_history list option"

definition EFFECTIVE_WORKING_SET_KIND :: string where "EFFECTIVE_WORKING_SET_KIND = ''effective-working-set''"
definition IMPLEMENTATION_EXECUTION_SCOPE_KIND :: string where
  "IMPLEMENTATION_EXECUTION_SCOPE_KIND = ''implementation-execution-scope''"
definition CANDIDATE_WORKING_SET_KIND :: string where "CANDIDATE_WORKING_SET_KIND = ''candidate-working-set''"
definition MAX_PATHS :: nat where "MAX_PATHS = 2048"
definition MAX_ENTRIES :: nat where "MAX_ENTRIES = 1024"
definition MAX_TEXT :: nat where "MAX_TEXT = 1024"

section \<open>Validators of values\<close>

definition quoted_path :: "string \<Rightarrow> nat \<Rightarrow> string \<Rightarrow> string" where
  "quoted_path named index rest = named @ ''['' @ decimal index @ '']'' @ rest"

definition work_text :: "json \<Rightarrow> string \<Rightarrow> nat \<Rightarrow> string + string" where
  "work_text v path limit =
     (case v of
        JStr s \<Rightarrow>
          if s = [] \<or> limit < length s \<or> list_ex control_unit s
          then Inl (path @ '' must be a bounded non-empty string'') else Inr (normalize_nfc s)
      | _ \<Rightarrow> Inl (path @ '' must be a bounded non-empty string''))"

definition ascii_lower :: "char \<Rightarrow> char" where
  "ascii_lower c = (if of_char c \<ge> (65 :: nat) \<and> of_char c \<le> (90 :: nat) then char_of (of_char c + 32 :: nat) else c)"

definition HEX_REVISION :: "string \<Rightarrow> bool" where
  "HEX_REVISION s \<longleftrightarrow>
     (length s = 40 \<or> length s = 64) \<and> list_all (\<lambda>c. ascii_lower c \<in> set ''0123456789abcdef'') s"

definition work_revision :: "json \<Rightarrow> string \<Rightarrow> string + string" where
  "work_revision v path =
     bind_sum (work_text v path 64) (\<lambda>s.
       let result = map ascii_lower s in
       if HEX_REVISION result then Inr result
       else Inl (path @ '' must be an immutable hexadecimal revision''))"

definition object_keys :: "json \<Rightarrow> string list" where
  "object_keys v =
     (case v of
        JObj ps \<Rightarrow> sort_key (digits_value 0) (filter array_index (map fst ps)) @ filter (\<lambda>k. \<not> array_index k) (map fst ps)
      | _ \<Rightarrow> [])"

definition allowed_keys :: "json \<Rightarrow> string list \<Rightarrow> string \<Rightarrow> string + unit" where
  "allowed_keys v keys path =
     for_each_sum (\<lambda>key. require (key \<in> set keys) (path @ ''.'' @ key @ '' is not supported'')) (object_keys v)"

definition optional_work_text :: "json \<Rightarrow> string \<Rightarrow> string + string option" where
  "optional_work_text v path =
     (if v = JUndefined then Inr None else bind_sum (work_text v path MAX_TEXT) (\<lambda>s. Inr (Some s)))"

definition work_repository :: "json \<Rightarrow> string \<Rightarrow> bool \<Rightarrow> string + repository_identity" where
  "work_repository v path require_locator =
     bind_sum (require (plain_object v) (path @ '' must be an object'')) (\<lambda>_.
     bind_sum (allowed_keys v [''repositoryHost'', ''repositoryId'', ''repository''] path) (\<lambda>_.
     bind_sum (work_text (jget v ''repositoryHost'') (path @ ''.repositoryHost'') MAX_TEXT) (\<lambda>host.
     bind_sum (work_text (jget v ''repositoryId'') (path @ ''.repositoryId'') MAX_TEXT) (\<lambda>identity.
     bind_sum (optional_work_text (jget v ''repository'') (path @ ''.repository'')) (\<lambda>name.
     if require_locator \<and> name = None then Inl (path @ ''.repository is required'')
     else Inr \<lparr>ry_host = host, ry_id = identity, ry_name = name\<rparr>)))))"

definition work_base :: "json \<Rightarrow> string \<Rightarrow> string + base_identity" where
  "work_base v path =
     bind_sum (require (plain_object v) (path @ '' must be an object'')) (\<lambda>_.
     bind_sum (allowed_keys v [''branch'', ''revision'', ''freshness''] path) (\<lambda>_.
     bind_sum (work_text (jget v ''branch'') (path @ ''.branch'') MAX_TEXT) (\<lambda>branch.
     bind_sum (work_revision (jget v ''revision'') (path @ ''.revision'')) (\<lambda>revision.
     bind_sum (optional_work_text (jget v ''freshness'') (path @ ''.freshness'')) (\<lambda>freshness.
     Inr \<lparr>by_branch = branch, by_revision = revision, by_freshness = freshness\<rparr>)))))"

text \<open>\<open>PATH\<close> is the expression of \<open>SELECTOR\<close>.\<close>

definition work_selector :: "json \<Rightarrow> string \<Rightarrow> string + string" where
  "work_selector v path =
     bind_sum (work_text v path MAX_TEXT) (\<lambda>s.
       if SELECTOR s then Inr s else Inl (path @ '' is not a canonical repository-relative selector''))"

definition SCOPE_KEYS :: "string list" where
  "SCOPE_KEYS = [''readOnly'', ''write'', ''create'', ''delete'', ''deny'']"

text \<open>\<open>values.map((value, index) => f(value, index))\<close> with a function that may throw\<close>

definition map_indexed_sum :: "(nat \<Rightarrow> 'a \<Rightarrow> 'e + 'b) \<Rightarrow> 'a list \<Rightarrow> 'e + 'b list" where
  "map_indexed_sum f xs = map_sum_list (\<lambda>(i, x). f i x) (zip [0..<length xs] xs)"

definition scope_list :: "json \<Rightarrow> string \<Rightarrow> string \<Rightarrow> string + string list" where
  "scope_list v path key =
     (case jget v key of
        JArr entries \<Rightarrow>
          if MAX_PATHS < length entries then Inl (path @ ''.'' @ key @ '' must be a bounded array'')
          else
            bind_sum (map_indexed_sum (\<lambda>i e. work_selector e (quoted_path (path @ ''.'' @ key) i [])) entries) (\<lambda>normalized.
            if \<not> distinct normalized then Inl (path @ ''.'' @ key @ '' contains duplicates'')
            else Inr (sort normalized))
      | _ \<Rightarrow> Inl (path @ ''.'' @ key @ '' must be a bounded array''))"

definition work_scope_of :: "json \<Rightarrow> string \<Rightarrow> string + work_scope" where
  "work_scope_of v path =
     bind_sum (require (plain_object v) (path @ '' must be an object'')) (\<lambda>_.
     bind_sum (allowed_keys v SCOPE_KEYS path) (\<lambda>_.
     bind_sum (scope_list v path ''readOnly'') (\<lambda>read_only.
     bind_sum (scope_list v path ''write'') (\<lambda>write.
     bind_sum (scope_list v path ''create'') (\<lambda>create.
     bind_sum (scope_list v path ''delete'') (\<lambda>delete.
     bind_sum (scope_list v path ''deny'') (\<lambda>deny.
     Inr \<lparr>ws_read_only = read_only, ws_write = write, ws_create = create, ws_delete = delete, ws_deny = deny\<rparr>)))))))"

text \<open>\<open>String(value)\<close> of a JSON value\<close>

fun js_string :: "json \<Rightarrow> string" where
  "js_string JUndefined = ''undefined''"
| "js_string JNull = ''null''"
| "js_string (JBool b) = (if b then ''true'' else ''false'')"
| "js_string (JNum n) = json_number n"
| "js_string (JStr s) = s"
| "js_string (JArr vs) = join_with CHR '','' (map (\<lambda>v. if v = JNull \<or> v = JUndefined then [] else js_string v) vs)"
| "js_string (JObj ps) = ''[object Object]''"

section \<open>The execution scope\<close>

record execution_scope =
  xs_authorization :: json
  xs_repository :: repository_identity
  xs_base :: base_identity
  xs_scope :: work_scope

definition safe_integer_from :: "int \<Rightarrow> json \<Rightarrow> bool" where
  "safe_integer_from least v = (case v of JNum n \<Rightarrow> least \<le> n \<and> n \<le> 9007199254740991 | _ \<Rightarrow> False)"

definition validate_execution_scope :: "json \<Rightarrow> string + execution_scope" where
  "validate_execution_scope input =
     (let authorization = jget input ''authorization''; implementation = jget authorization ''implementation'';
          named = ''execution scope.authorization.implementation'' in
      bind_sum (require (plain_object input) ''execution scope must be an object'') (\<lambda>_.
      bind_sum (allowed_keys input [''version'', ''kind'', ''authorization'', ''repository'', ''base'', ''branch'', ''scope'']
        ''execution scope'') (\<lambda>_.
      bind_sum (require (jget input ''version'' = JNum 1) ''execution scope version is unsupported'') (\<lambda>_.
      bind_sum (require (plain_object authorization) ''execution scope authorization must be an object'') (\<lambda>_.
      bind_sum (allowed_keys authorization [''version'', ''kind'', ''contractVersion'', ''implementation'', ''governedBodyDigest'']
        ''execution scope.authorization'') (\<lambda>_.
      bind_sum (require (jget authorization ''version'' = JNum 1 \<and>
          jget authorization ''kind'' = JStr ''implementation-authorization'')
        ''execution scope authorization version or kind is unsupported'') (\<lambda>_.
      bind_sum (require (jget authorization ''contractVersion'' = JNum 1)
        ''execution scope contract version is unsupported'') (\<lambda>_.
      bind_sum (require (plain_object implementation) ''execution scope implementation is invalid'') (\<lambda>_.
      bind_sum (allowed_keys implementation [''repositoryHost'', ''repositoryId'', ''repository'', ''number''] named) (\<lambda>_.
      bind_sum (work_text (jget implementation ''repositoryHost'') (named @ ''.repositoryHost'') MAX_TEXT) (\<lambda>host.
      bind_sum (work_text (jget implementation ''repositoryId'') (named @ ''.repositoryId'') MAX_TEXT) (\<lambda>identity.
      bind_sum (require (safe_integer_from 1 (jget implementation ''number''))
        ''execution scope implementation number is invalid'') (\<lambda>_.
      bind_sum (require (sha256_text (js_string (jget authorization ''governedBodyDigest'')))
        ''execution scope governed body digest is invalid'') (\<lambda>_.
      bind_sum (work_repository (jget input ''repository'') ''execution scope.repository'' False) (\<lambda>repository.
      bind_sum (require (ry_host repository = host \<and> ry_id repository = identity)
        ''execution scope authorization repository does not match artifact repository'') (\<lambda>_.
      bind_sum (optional_work_text (jget input ''branch'') ''execution scope.branch'') (\<lambda>_.
      bind_sum (work_base (jget input ''base'') ''execution scope.base'') (\<lambda>base.
      bind_sum (work_scope_of (jget input ''scope'') ''execution scope.scope'') (\<lambda>scope.
      Inr \<lparr>xs_authorization = authorization, xs_repository = repository, xs_base = base, xs_scope = scope\<rparr>)))))))))))))))))))"

definition parse_implementation_execution_scope :: "json \<Rightarrow> string + execution_scope" where
  "parse_implementation_execution_scope input = validate_execution_scope input"

section \<open>The candidate working set\<close>

datatype candidate_state = CandidateRequired | CandidateSupporting | CandidateVerification | CandidateUnresolved

record candidate_entry =
  ce_state :: candidate_state
  ce_kind :: json
  ce_locator :: string

record candidate_set =
  cs_id :: string
  cs_repository :: repository_identity
  cs_revision :: string
  cs_entries :: "candidate_entry list"

definition candidate_state_of :: "json \<Rightarrow> candidate_state option" where
  "candidate_state_of v =
     (if v = JStr ''required'' then Some CandidateRequired else if v = JStr ''supporting'' then Some CandidateSupporting
      else if v = JStr ''verification'' then Some CandidateVerification
      else if v = JStr ''unresolved'' then Some CandidateUnresolved else None)"

definition candidate_evidence :: "json \<Rightarrow> string + unit" where
  "candidate_evidence evidence =
     (let named = ''candidate working set evidence'' in
      bind_sum (require (plain_object evidence) ''candidate working set evidence entry is invalid'') (\<lambda>_.
      bind_sum (allowed_keys evidence [''artifact'', ''reference''] named) (\<lambda>_.
      bind_sum (work_text (jget evidence ''artifact'') (named @ ''.artifact'') MAX_TEXT) (\<lambda>_.
      bind_sum (work_text (jget evidence ''reference'') (named @ ''.reference'') MAX_TEXT) (\<lambda>_. Inr ())))))"

definition candidate_entry_of :: "nat \<Rightarrow> json \<Rightarrow> string + candidate_entry" where
  "candidate_entry_of index entry =
     (let named = quoted_path ''candidate working set.entries'' index; target = jget entry ''target'';
          reason = jget entry ''reason''; kind = jget target ''kind'' in
      bind_sum (require (plain_object entry) (named '' is invalid'')) (\<lambda>_.
      bind_sum (allowed_keys entry [''state'', ''target'', ''reason'', ''evidence''] (named [])) (\<lambda>_.
      case candidate_state_of (jget entry ''state'') of
        None \<Rightarrow> Inl (named ''.state is unsupported'')
      | Some state \<Rightarrow>
      bind_sum (require (plain_object target) (named ''.target is invalid'')) (\<lambda>_.
      bind_sum (allowed_keys target [''kind'', ''locator''] (named ''.target'')) (\<lambda>_.
      bind_sum (require (js_string kind \<in> set [''file'', ''symbol'', ''test'', ''unresolved''])
        (named ''.target.kind is unsupported'')) (\<lambda>_.
      bind_sum (work_text (jget target ''locator'') (named ''.target.locator'') MAX_TEXT) (\<lambda>locator.
      bind_sum (require (\<not> (state = CandidateUnresolved \<and> kind \<noteq> JStr ''unresolved''))
        ''unresolved state has concrete target'') (\<lambda>_.
      bind_sum (require (\<not> (state \<noteq> CandidateUnresolved \<and> kind = JStr ''unresolved''))
        ''concrete state has unresolved target'') (\<lambda>_.
      bind_sum (require (plain_object reason) (named ''.reason is invalid'')) (\<lambda>_.
      bind_sum (allowed_keys reason [''id'', ''summary''] (named ''.reason'')) (\<lambda>_.
      bind_sum (work_text (jget reason ''id'') (named ''.reason.id'') MAX_TEXT) (\<lambda>_.
      bind_sum (work_text (jget reason ''summary'') (named ''.reason.summary'') MAX_TEXT) (\<lambda>_.
      case jget entry ''evidence'' of
        JArr evidence \<Rightarrow>
          if 16 < length evidence then Inl ''candidate working set evidence is invalid''
          else bind_sum (for_each_sum candidate_evidence evidence) (\<lambda>_.
            Inr \<lparr>ce_state = state, ce_kind = kind, ce_locator = locator\<rparr>)
      | _ \<Rightarrow> Inl ''candidate working set evidence is invalid'')))))))))))))"

definition validate_candidate_working_set :: "json \<Rightarrow> string + candidate_set" where
  "validate_candidate_working_set input =
     bind_sum (require (plain_object input) ''candidate working set must be an object'') (\<lambda>_.
     bind_sum (allowed_keys input [''kind'', ''schemaVersion'', ''workingSetId'', ''repository'', ''revision'', ''entries'']
       ''candidate working set'') (\<lambda>_.
     bind_sum (require (jget input ''kind'' = JStr CANDIDATE_WORKING_SET_KIND)
       ''candidate working set kind is unsupported'') (\<lambda>_.
     bind_sum (require (jget input ''schemaVersion'' = JNum 1) ''candidate working set version is unsupported'') (\<lambda>_.
     bind_sum (work_repository (jget input ''repository'') ''candidate working set.repository'' True) (\<lambda>repository.
     case jget input ''entries'' of
       JArr entries \<Rightarrow>
         if MAX_ENTRIES < length entries then Inl ''candidate working set entries are invalid''
         else
           bind_sum (map_indexed_sum candidate_entry_of entries) (\<lambda>normalized.
           bind_sum (work_text (jget input ''workingSetId'') ''candidate working set.workingSetId'' MAX_TEXT) (\<lambda>identity.
           bind_sum (work_revision (jget input ''revision'') ''candidate working set.revision'') (\<lambda>revision.
           Inr \<lparr>cs_id = identity, cs_repository = repository, cs_revision = revision, cs_entries = normalized\<rparr>)))
     | _ \<Rightarrow> Inl ''candidate working set entries are invalid'')))))"

section \<open>Digests\<close>

fun canonical_artifact :: "json \<Rightarrow> json" where
  "canonical_artifact (JArr vs) = JArr (sort_key print_json (map canonical_artifact vs))"
| "canonical_artifact (JObj ps) =
     JObj (own_property_order (sort_key fst (map (\<lambda>(k, v). (k, canonical_artifact v)) ps)))"
| "canonical_artifact v = v"

definition artifact_digest :: "(string \<Rightarrow> string) \<Rightarrow> json \<Rightarrow> string" where
  "artifact_digest sha v = sha (print_json (canonical_artifact v))"

fun work_stable_clone :: "json \<Rightarrow> json" where
  "work_stable_clone (JArr vs) = JArr (map work_stable_clone vs)"
| "work_stable_clone (JObj ps) = JObj (own_property_order (sort_key fst (map (\<lambda>(k, v). (k, work_stable_clone v)) ps)))"
| "work_stable_clone v = v"

definition work_stable_json :: "json \<Rightarrow> string" where
  "work_stable_json v = print_json (work_stable_clone v)"

section \<open>Authorization and composition\<close>

datatype expansion_operation = WorkReadonly | WorkWrite | WorkCreate | WorkDelete

fun operation_entries :: "work_scope \<Rightarrow> expansion_operation \<Rightarrow> string list" where
  "operation_entries scope WorkReadonly = ws_read_only scope"
| "operation_entries scope WorkWrite = ws_write scope"
| "operation_entries scope WorkCreate = ws_create scope"
| "operation_entries scope WorkDelete = ws_delete scope"

definition authorized_path :: "expansion_operation \<Rightarrow> string \<Rightarrow> work_scope \<Rightarrow> bool" where
  "authorized_path operation path scope \<longleftrightarrow>
     \<not> list_ex (\<lambda>entry. selector_matches entry path) (ws_deny scope) \<and>
     list_ex (\<lambda>entry. selector_matches entry path) (operation_entries scope operation)"

definition identity_matches :: "repository_identity \<Rightarrow> repository_identity \<Rightarrow> bool" where
  "identity_matches l r \<longleftrightarrow> ry_host l = ry_host r \<and> ry_id l = ry_id r"

definition base_matches :: "base_identity \<Rightarrow> base_identity \<Rightarrow> bool" where
  "base_matches l r \<longleftrightarrow>
     by_branch l = by_branch r \<and> by_revision l = by_revision r \<and>
     (by_freshness l = None \<or> by_freshness r = None \<or> by_freshness l = by_freshness r)"

datatype composition_result = WorkSatisfied effective_working_set | WorkUnsatisfiable string string

text \<open>\<open>locator.split("#", 1)[0]\<close>\<close>

definition locator_path :: "string \<Rightarrow> string" where
  "locator_path locator = takeWhile (\<lambda>c. c \<noteq> CHR ''#'') locator"

text \<open>The paths of the candidates in the order of their first mention, and of the required ones.\<close>

definition add_path :: "string \<Rightarrow> string list \<Rightarrow> string list" where
  "add_path p ps = (if p \<in> set ps then ps else ps @ [p])"

definition WORK_PATH_KINDS :: "json list" where
  "WORK_PATH_KINDS = [JStr ''file'', JStr ''test'', JStr ''symbol'']"

fun candidate_paths ::
  "nat \<Rightarrow> candidate_entry list \<Rightarrow> string list \<times> string list \<Rightarrow> (string \<times> string) + string list \<times> string list" where
  "candidate_paths index [] acc = Inr acc"
| "candidate_paths index (entry # entries) (paths, required) =
     (let path = locator_path (ce_locator entry); named = quoted_path ''candidateWorkingSet.entries'' index [] in
      if ce_state entry = CandidateUnresolved then Inl (''UNRESOLVED_REQUIRED_CONTEXT'', named)
      else if ce_kind entry \<notin> set WORK_PATH_KINDS
      then candidate_paths (Suc index) entries (paths, required)
      else if \<not> SELECTOR path then
        (if ce_state entry = CandidateRequired then Inl (''UNRESOLVED_REQUIRED_CONTEXT'', named)
         else candidate_paths (Suc index) entries (paths, required))
      else candidate_paths (Suc index) entries
        (add_path path paths, if ce_state entry = CandidateRequired then add_path path required else required))"

definition optional_entry :: "string \<Rightarrow> string option \<Rightarrow> (string \<times> json) list" where
  "optional_entry key v = (case v of None \<Rightarrow> [] | Some s \<Rightarrow> [(key, JStr s)])"

definition repository_json :: "repository_identity \<Rightarrow> json" where
  "repository_json r =
     JObj ([(''repositoryHost'', JStr (ry_host r)), (''repositoryId'', JStr (ry_id r))] @
       optional_entry ''repository'' (ry_name r))"

definition base_json :: "base_identity \<Rightarrow> json" where
  "base_json b =
     JObj ([(''branch'', JStr (by_branch b)), (''revision'', JStr (by_revision b))] @
       optional_entry ''freshness'' (by_freshness b))"

definition scope_json :: "work_scope \<Rightarrow> json" where
  "scope_json s =
     JObj [(''readOnly'', JArr (map JStr (ws_read_only s))), (''write'', JArr (map JStr (ws_write s))),
       (''create'', JArr (map JStr (ws_create s))), (''delete'', JArr (map JStr (ws_delete s))),
       (''deny'', JArr (map JStr (ws_deny s)))]"

definition source_entries :: "'a source_identity_scheme \<Rightarrow> (string \<times> json) list" where
  "source_entries i =
     [(''kind'', JStr (si_kind i)), (''version'', JNum (si_version i)), (''digest'', JStr (si_digest i)),
      (''identity'', si_identity i)]"

definition provenance_json :: "set_provenance \<Rightarrow> json" where
  "provenance_json p =
     JObj [(''executionScope'', JObj (source_entries (pv_execution_scope p) @
         (case si_producer (pv_execution_scope p) of None \<Rightarrow> []
          | Some l \<Rightarrow> [(''producer'', JObj [(''repositoryHost'', JStr (pl_host l)), (''repositoryId'', JStr (pl_id l)),
              (''number'', JNum (pl_number l))])]))),
       (''candidateWorkingSet'', JObj (source_entries (pv_candidate p))),
       (''repository'', repository_json (pv_repository p)), (''base'', base_json (pv_base p))]"

text \<open>\<open>implementationExecutionScopeProducerLocator\<close>, of a validated scope\<close>

definition producer_locator_of :: "execution_scope \<Rightarrow> string + producer_locator" where
  "producer_locator_of artifact =
     (let implementation = jget (xs_authorization artifact) ''implementation''; named = ''execution scope implementation'' in
      bind_sum (require (plain_object implementation) ''execution scope implementation is invalid'') (\<lambda>_.
      bind_sum (require (safe_integer_from 1 (jget implementation ''number''))
        ''execution scope implementation.number is invalid'') (\<lambda>_.
      bind_sum (work_text (jget implementation ''repositoryHost'') (named @ ''.repositoryHost'') MAX_TEXT) (\<lambda>host.
      bind_sum (work_text (jget implementation ''repositoryId'') (named @ ''.repositoryId'') MAX_TEXT) (\<lambda>identity.
      Inr \<lparr>pl_host = host, pl_id = identity,
           pl_number = (case jget implementation ''number'' of JNum n \<Rightarrow> n | _ \<Rightarrow> 0)\<rparr>)))))"

definition composed_scope :: "string list \<Rightarrow> work_scope \<Rightarrow> work_scope" where
  "composed_scope paths scope =
     \<lparr>ws_read_only = sort (filter (\<lambda>p. authorized_path WorkReadonly p scope) paths),
      ws_write = sort (filter (\<lambda>p. authorized_path WorkWrite p scope) paths),
      ws_create = sort (filter (\<lambda>p. authorized_path WorkCreate p scope) paths),
      ws_delete = sort (filter (\<lambda>p. authorized_path WorkDelete p scope) paths),
      ws_deny = sort (filter (\<lambda>p. list_ex (\<lambda>entry. selector_matches entry p) (ws_deny scope)) paths)\<rparr>"

definition contains_text :: "string \<Rightarrow> string \<Rightarrow> bool" where
  "contains_text needle s \<longleftrightarrow> list_ex (\<lambda>i. prefix needle (drop i s)) [0..<Suc (length s)]"

definition compose_effective_working_set ::
  "(string \<Rightarrow> string) \<Rightarrow> json \<Rightarrow> json \<Rightarrow> json \<Rightarrow> json \<Rightarrow> string + composition_result" where
  "compose_effective_working_set sha scope_input candidate_input repository_input base_input =
     (case bind_sum (validate_execution_scope scope_input) (\<lambda>x.
           bind_sum (validate_candidate_working_set candidate_input) (\<lambda>c. Inr (x, c))) of
        Inl message \<Rightarrow>
          Inr (WorkUnsatisfiable
            (if contains_text ''unsupported'' message then ''UNSUPPORTED_ARTIFACT_VERSION'' else ''INVALID_ARTIFACT'') ''$'')
      | Inr (execution, candidate) \<Rightarrow>
     (case bind_sum (work_repository repository_input ''repository'' False) (\<lambda>r.
           bind_sum (work_base base_input ''base'') (\<lambda>b. Inr (r, b))) of
        Inl message \<Rightarrow> Inr (WorkUnsatisfiable ''INVALID_ARTIFACT'' ''$'')
      | Inr (actual_repository, actual_base) \<Rightarrow>
     if \<not> identity_matches (xs_repository execution) (cs_repository candidate) \<or>
        \<not> identity_matches (xs_repository execution) actual_repository
     then Inr (WorkUnsatisfiable ''REPOSITORY_MISMATCH'' ''repository'')
     else if \<not> base_matches (xs_base execution) actual_base \<or> by_revision (xs_base execution) \<noteq> cs_revision candidate
     then Inr (WorkUnsatisfiable ''BASE_MISMATCH'' ''base'')
     else
     (case candidate_paths 0 (cs_entries candidate) ([], []) of
        Inl (code, path) \<Rightarrow> Inr (WorkUnsatisfiable code path)
      | Inr (paths, required) \<Rightarrow>
     (case find (\<lambda>p. \<not> authorized_path WorkReadonly p (xs_scope execution)) required of
        Some path \<Rightarrow> Inr (WorkUnsatisfiable ''REQUIRED_CONTEXT_UNAUTHORIZED'' path)
      | None \<Rightarrow>
     bind_sum (producer_locator_of execution) (\<lambda>producer.
     let scope = composed_scope paths (xs_scope execution);
         provenance =
           \<lparr>pv_execution_scope =
              \<lparr>si_kind = IMPLEMENTATION_EXECUTION_SCOPE_KIND, si_version = 1, si_digest = artifact_digest sha scope_input,
               si_identity = jget (xs_authorization execution) ''governedBodyDigest'', si_producer = Some producer\<rparr>,
            pv_candidate =
              \<lparr>si_kind = CANDIDATE_WORKING_SET_KIND, si_version = 1, si_digest = artifact_digest sha candidate_input,
               si_identity = JStr (cs_id candidate)\<rparr>,
            pv_repository = actual_repository, pv_base = actual_base\<rparr>;
         seed = work_stable_json (JObj [(''repository'', repository_json actual_repository), (''base'', base_json actual_base),
           (''scope'', scope_json scope), (''provenance'', provenance_json provenance)]) in
     Inr (WorkSatisfied
       \<lparr>ew_revision = 1, ew_id = ''ews-'' @ take 32 (sha seed), ew_repository = actual_repository, ew_base = actual_base,
        ew_scope = scope, ew_provenance = provenance, ew_history = None\<rparr>))))))"

section \<open>Expansion\<close>

record expansion_entry =
  xe_path :: string
  xe_operation :: json
  xe_reason :: string
  xe_evidence :: "string option"
  xe_unresolved :: bool

datatype outcome_status = OutcomeGranted | OutcomeDenied | OutcomeUnresolved

record expansion_outcome =
  xo_path :: string
  xo_operation :: json
  xo_status :: outcome_status

record expansion_evaluation =
  xv_outcomes :: "expansion_outcome list"
  xv_next :: "effective_working_set option"
  xv_next_revision :: int
  xv_idempotent :: bool

definition expansion_operation_of :: "json \<Rightarrow> expansion_operation option" where
  "expansion_operation_of v =
     (if v = JStr ''READONLY'' then Some WorkReadonly else if v = JStr ''WRITE'' then Some WorkWrite
      else if v = JStr ''CREATE'' then Some WorkCreate else if v = JStr ''DELETE'' then Some WorkDelete else None)"

definition normalize_expansion_entry :: "nat \<Rightarrow> json \<Rightarrow> string + expansion_entry" where
  "normalize_expansion_entry index entry =
     (let named = quoted_path ''working-set expansion.entries'' index; operation = jget entry ''operation'';
          resolution = (if jget entry ''resolution'' = JUndefined then JStr ''resolved'' else jget entry ''resolution'') in
      bind_sum (require (plain_object entry) (named '' is invalid'')) (\<lambda>_.
      bind_sum (allowed_keys entry [''path'', ''operation'', ''reason'', ''evidence'', ''resolution''] (named [])) (\<lambda>_.
      bind_sum (work_selector (jget entry ''path'') (named ''.path'')) (\<lambda>path.
      bind_sum (require (star \<notin> set path \<and> qmark \<notin> set path) (named ''.path must be an exact repository path'')) (\<lambda>_.
      bind_sum (require (js_string operation \<in> set [''READONLY'', ''WRITE'', ''CREATE'', ''DELETE''])
        (named ''.operation is unsupported'')) (\<lambda>_.
      bind_sum (require (resolution = JStr ''resolved'' \<or> resolution = JStr ''unresolved'')
        (named ''.resolution is unsupported'')) (\<lambda>_.
      bind_sum (work_text (jget entry ''reason'') (named ''.reason'') MAX_TEXT) (\<lambda>reason.
      bind_sum (optional_work_text (jget entry ''evidence'') (named ''.evidence'')) (\<lambda>evidence.
      Inr \<lparr>xe_path = path, xe_operation = operation, xe_reason = reason, xe_evidence = evidence,
           xe_unresolved = (resolution = JStr ''unresolved'')\<rparr>)))))))))"

definition normalize_expansion_entries :: "json \<Rightarrow> string + expansion_entry list" where
  "normalize_expansion_entries v =
     (case v of
        JArr entries \<Rightarrow>
          if entries = [] \<or> 256 < length entries then Inl ''working-set expansion requires between 1 and 256 entries''
          else bind_sum (map_indexed_sum normalize_expansion_entry entries) (\<lambda>normalized.
            Inr (sort_key (\<lambda>e. xe_path e @ NUL # js_string (xe_operation e)) normalized))
      | _ \<Rightarrow> Inl ''working-set expansion requires between 1 and 256 entries'')"

text \<open>An operation that is not a string has passed \<open>String(operation)\<close>; \<open>authorized\<close> then fails on
  \<open>operation.toLowerCase\<close>.\<close>

definition expansion_step ::
  "(string \<Rightarrow> string) \<Rightarrow> effective_working_set \<Rightarrow> int \<Rightarrow> json \<Rightarrow> execution_scope \<Rightarrow> expansion_entry \<Rightarrow>
   string + outcome_status" where
  "expansion_step sha current revision scope_input execution entry =
     (if xe_unresolved entry then Inr OutcomeUnresolved
      else if ew_revision current \<noteq> revision then Inr OutcomeDenied
      else if artifact_digest sha scope_input \<noteq> si_digest (pv_execution_scope (ew_provenance current)) then Inr OutcomeDenied
      else case expansion_operation_of (xe_operation entry) of
        None \<Rightarrow> Inl ''operation.toLowerCase is not a function''
      | Some operation \<Rightarrow>
          Inr (if authorized_path operation (xe_path entry) (xs_scope execution) then OutcomeGranted else OutcomeDenied))"

definition added_paths :: "expansion_entry list \<Rightarrow> expansion_operation \<Rightarrow> string list" where
  "added_paths entries operation = map xe_path (filter (\<lambda>e. expansion_operation_of (xe_operation e) = Some operation) entries)"

definition expanded_scope :: "expansion_entry list \<Rightarrow> work_scope \<Rightarrow> work_scope" where
  "expanded_scope entries scope =
     (let union = (\<lambda>operation. sort (remdups (operation_entries scope operation @ added_paths entries operation))) in
      \<lparr>ws_read_only = union WorkReadonly, ws_write = union WorkWrite, ws_create = union WorkCreate,
       ws_delete = union WorkDelete, ws_deny = ws_deny scope\<rparr>)"

definition scope_has :: "work_scope \<Rightarrow> expansion_entry \<Rightarrow> bool" where
  "scope_has scope entry =
     (case expansion_operation_of (xe_operation entry) of
        None \<Rightarrow> False | Some operation \<Rightarrow> xe_path entry \<in> set (operation_entries scope operation))"

definition entry_json :: "expansion_entry \<Rightarrow> json" where
  "entry_json e =
     JObj ([(''path'', JStr (xe_path e)), (''operation'', xe_operation e), (''reason'', JStr (xe_reason e))] @
       optional_entry ''evidence'' (xe_evidence e) @
       [(''resolution'', JStr (if xe_unresolved e then ''unresolved'' else ''resolved''))])"

definition joined_texts :: "string list \<Rightarrow> string" where
  "joined_texts texts = take MAX_TEXT (concat (case texts of [] \<Rightarrow> [] | t # ts \<Rightarrow> t # map (\<lambda>s. ''; '' @ s) ts))"

definition history_entry :: "(string \<Rightarrow> string) \<Rightarrow> int \<Rightarrow> expansion_entry list \<Rightarrow> expansion_history" where
  "history_entry sha revision entries =
     (let evidence = joined_texts (concat (map (\<lambda>e. case xe_evidence e of None \<Rightarrow> [] | Some s \<Rightarrow> [s]) entries)) in
      \<lparr>eh_revision = revision, eh_paths = sort (remdups (map xe_path entries)),
       eh_operations = sort_key js_string (remdups (map xe_operation entries)),
       eh_reason = joined_texts (map xe_reason entries), eh_evidence = (if evidence = [] then None else Some evidence),
       eh_request_digest = artifact_digest sha (JArr (map entry_json entries))\<rparr>)"

definition last_entries :: "nat \<Rightarrow> 'a list \<Rightarrow> 'a list" where
  "last_entries n xs = drop (length xs - n) xs"

definition evaluate_working_set_expansion ::
  "(string \<Rightarrow> string) \<Rightarrow> effective_working_set \<Rightarrow> int \<Rightarrow> json \<Rightarrow> json \<Rightarrow> string + expansion_evaluation" where
  "evaluate_working_set_expansion sha current revision entries_input scope_input =
     bind_sum (require (safe_integer_from 1 (JNum (ew_revision current))) ''working-set revision is invalid'') (\<lambda>_.
     bind_sum (require (safe_integer_from 1 (JNum revision)) ''working-set expansion current revision is invalid'') (\<lambda>_.
     bind_sum (validate_execution_scope scope_input) (\<lambda>execution.
     bind_sum (normalize_expansion_entries entries_input) (\<lambda>entries.
     bind_sum (map_sum_list (expansion_step sha current revision scope_input execution) entries) (\<lambda>statuses.
     let outcomes = map2 (\<lambda>e s. \<lparr>xo_path = xe_path e, xo_operation = xe_operation e, xo_status = s\<rparr>) entries statuses;
         blocked = list_ex (\<lambda>s. s \<noteq> OutcomeGranted) statuses;
         changed = list_ex (\<lambda>(e, s). s = OutcomeGranted \<and> \<not> scope_has (ew_scope current) e) (zip entries statuses) in
     if blocked \<or> \<not> changed
     then Inr \<lparr>xv_outcomes = outcomes, xv_next = None, xv_next_revision = ew_revision current, xv_idempotent = (\<not> blocked)\<rparr>
     else
     bind_sum (require (safe_integer_from 1 (JNum (ew_revision current + 1))) ''working-set revision exhausted'') (\<lambda>_.
     Inr \<lparr>xv_outcomes = outcomes,
          xv_next = Some (current\<lparr>ew_revision := ew_revision current + 1,
            ew_scope := expanded_scope entries (ew_scope current),
            ew_history := Some (last_entries 32 ((case ew_history current of None \<Rightarrow> [] | Some h \<Rightarrow> h) @
              [history_entry sha (ew_revision current + 1) entries]))\<rparr>),
          xv_next_revision = ew_revision current + 1, xv_idempotent = False\<rparr>))))))"

text \<open>\<open>establishEffectiveWorkingSet\<close>, throwing its code\<close>

definition establish_effective_working_set ::
  "(string \<Rightarrow> string) \<Rightarrow> json \<Rightarrow> json \<Rightarrow> json \<Rightarrow> json \<Rightarrow> string + effective_working_set" where
  "establish_effective_working_set sha scope_input candidate_input repository_input base_input =
     bind_sum (compose_effective_working_set sha scope_input candidate_input repository_input base_input) (\<lambda>result.
     case result of WorkUnsatisfiable code path \<Rightarrow> Inl code | WorkSatisfied working_set \<Rightarrow> Inr working_set)"

section \<open>What is granted\<close>

text \<open>The scope of a working set, as \<open>decideFilesystemScopePermission\<close> is given it\<close>

definition permission_scope_of :: "work_scope \<Rightarrow> filesystem_scope" where
  "permission_scope_of s =
     \<lparr>sc_read_only = map PathSelector (ws_read_only s), sc_write = map PathSelector (ws_write s),
      sc_create = map PathSelector (ws_create s), sc_delete = map PathSelector (ws_delete s), sc_rename = None,
      sc_deny = map PathSelector (ws_deny s), sc_immutable = None\<rparr>"

fun policy_operation :: "expansion_operation \<Rightarrow> filesystem_operation" where
  "policy_operation WorkReadonly = FsReadonly"
| "policy_operation WorkWrite = FsWrite"
| "policy_operation WorkCreate = FsCreate"
| "policy_operation WorkDelete = FsDelete"

text \<open>What a scope permits is what \<open>authorized\<close> finds in it.\<close>

lemma permission_is_authorized:
  "pm_allowed (decide_filesystem_scope_permission (permission_scope_of s) (policy_operation operation) path None) \<longleftrightarrow>
     authorized_path operation path s"
  by (cases operation)
    (auto simp: decide_filesystem_scope_permission_def permission_scope_of_def authorized_path_def Let_def
      operation_selectors_def selector_matches_domain_def list_ex_iff)

definition wildcard_free :: "string \<Rightarrow> bool" where
  "wildcard_free s \<longleftrightarrow> star \<notin> set s \<and> qmark \<notin> set s"

lemma tokens_match_literal: "tokens_match (map Literal p) s \<longleftrightarrow> s = p"
  by (induction p arbitrary: s) (auto split: list.splits)

lemma selector_tokens_literal: "wildcard_free p \<Longrightarrow> selector_tokens p = map Literal p"
  by (induction p) (auto simp: wildcard_free_def)

lemma selector_matches_literal [simp]: "wildcard_free p \<Longrightarrow> selector_matches p s \<longleftrightarrow> s = p"
  by (simp add: selector_matches_def selector_tokens_literal tokens_match_literal)

lemma set_add_path [simp]: "set (add_path p ps) = insert p (set ps)"
  by (auto simp: add_path_def)

text \<open>The paths a candidate set mentions, and those it requires\<close>

definition mentions :: "candidate_entry \<Rightarrow> string \<Rightarrow> bool" where
  "mentions entry path \<longleftrightarrow> ce_kind entry \<in> set WORK_PATH_KINDS \<and> locator_path (ce_locator entry) = path \<and> SELECTOR path"

lemma candidate_paths_Inr:
  assumes "candidate_paths index entries (paths, required) = Inr (ps, rs)"
  shows "set ps = set paths \<union> {p. \<exists>e\<in>set entries. mentions e p}"
    and "set rs = set required \<union> {p. \<exists>e\<in>set entries. ce_state e = CandidateRequired \<and> mentions e p}"
    and "\<forall>e\<in>set entries. ce_state e \<noteq> CandidateUnresolved"
  using assms
proof (induction entries arbitrary: index paths required)
  case Nil
  { case 1 then show ?case by simp }
  { case 2 then show ?case by simp }
  { case 3 then show ?case by simp }
next
  case (Cons e es)
  { case 1 then show ?case using Cons.IH(1) by (force simp: Let_def mentions_def split: if_splits) }
  { case 2 then show ?case using Cons.IH(2) by (force simp: Let_def mentions_def split: if_splits) }
  { case 3 then show ?case using Cons.IH(3) by (force simp: Let_def split: if_splits) }
qed

lemma operation_entries_composed:
  "set (operation_entries (composed_scope paths scope) operation) = {p \<in> set paths. authorized_path operation p scope}"
  by (cases operation) (auto simp: composed_scope_def)

lemma ws_deny_composed:
  "set (ws_deny (composed_scope paths scope)) = {p \<in> set paths. list_ex (\<lambda>entry. selector_matches entry p) (ws_deny scope)}"
  by (auto simp: composed_scope_def)

lemma compose_satisfied:
  assumes "compose_effective_working_set sha scope_input candidate_input repository_input base_input = Inr (WorkSatisfied w)"
  obtains execution candidate paths required where
    "validate_execution_scope scope_input = Inr execution" "validate_candidate_working_set candidate_input = Inr candidate"
    "candidate_paths 0 (cs_entries candidate) ([], []) = Inr (paths, required)"
    "\<forall>p\<in>set required. authorized_path WorkReadonly p (xs_scope execution)"
    "ew_scope w = composed_scope paths (xs_scope execution)"
    "base_matches (xs_base execution) (ew_base w)" "by_revision (xs_base execution) = cs_revision candidate"
    "identity_matches (xs_repository execution) (ew_repository w)"
    "si_digest (pv_execution_scope (ew_provenance w)) = artifact_digest sha scope_input" "ew_revision w = 1"
  using assms unfolding compose_effective_working_set_def
  by (auto simp: sum_simps Let_def find_None_iff split: sum.splits prod.splits option.splits if_splits)

lemma safe_integer_from_JNum [simp]: "safe_integer_from k (JNum n) \<longleftrightarrow> k \<le> n \<and> n \<le> 9007199254740991"
  by (simp add: safe_integer_from_def)

lemma expansion_step_granted:
  "expansion_step sha current revision scope_input execution e = Inr OutcomeGranted \<longleftrightarrow>
     \<not> xe_unresolved e \<and> ew_revision current = revision \<and>
     artifact_digest sha scope_input = si_digest (pv_execution_scope (ew_provenance current)) \<and>
     (\<exists>operation. expansion_operation_of (xe_operation e) = Some operation \<and>
        authorized_path operation (xe_path e) (xs_scope execution))"
  by (auto simp: expansion_step_def split: option.splits if_splits)

lemma all_granted:
  assumes "map_sum_list f xs = Inr ys"
  shows "(\<not> list_ex (\<lambda>s. s \<noteq> OutcomeGranted) ys) \<longleftrightarrow> (\<forall>x\<in>set xs. f x = Inr OutcomeGranted)"
  using assms unfolding map_sum_list_Inr by (induction rule: list_all2_induct) auto

text \<open>An evaluation grants every entry, or nothing.\<close>

definition grants_all ::
  "(string \<Rightarrow> string) \<Rightarrow> effective_working_set \<Rightarrow> int \<Rightarrow> json \<Rightarrow> execution_scope \<Rightarrow> expansion_entry list \<Rightarrow> bool" where
  "grants_all sha current revision scope_input execution entries \<longleftrightarrow>
     (\<forall>e\<in>set entries. expansion_step sha current revision scope_input execution e = Inr OutcomeGranted)"

lemma grants_all_statuses:
  "grants_all sha current revision scope_input execution entries \<Longrightarrow>
   map_sum_list (expansion_step sha current revision scope_input execution) entries =
     Inr (replicate (length entries) OutcomeGranted)"
  unfolding map_sum_list_Inr by (simp add: grants_all_def list_all2_conv_all_nth)

lemma all_granted_statuses:
  assumes "map_sum_list f xs = Inr ys" "\<not> list_ex (\<lambda>s. s \<noteq> OutcomeGranted) ys"
  shows "ys = replicate (length xs) OutcomeGranted"
  using assms unfolding map_sum_list_Inr by (induction rule: list_all2_induct) auto

lemma exists_zip_granted:
  "list_ex (\<lambda>(e, s). s = OutcomeGranted \<and> \<not> P e) (zip xs (replicate (length xs) OutcomeGranted)) \<longleftrightarrow> (\<exists>e\<in>set xs. \<not> P e)"
  by (induction xs) auto

definition expanded_set ::
  "(string \<Rightarrow> string) \<Rightarrow> effective_working_set \<Rightarrow> expansion_entry list \<Rightarrow> effective_working_set" where
  "expanded_set sha current entries =
     current\<lparr>ew_revision := ew_revision current + 1, ew_scope := expanded_scope entries (ew_scope current),
       ew_history := Some (last_entries 32 ((case ew_history current of None \<Rightarrow> [] | Some h \<Rightarrow> h) @
         [history_entry sha (ew_revision current + 1) entries]))\<rparr>"

lemma sort_key_Nil_iff [simp]: "sort_key f xs = [] \<longleftrightarrow> xs = []"
  using length_sort [of f xs] by (cases xs) auto

lemma normalize_expansion_entries_nonempty: "normalize_expansion_entries v = Inr entries \<Longrightarrow> entries \<noteq> []"
  by (auto simp: normalize_expansion_entries_def sum_simps map_indexed_sum_def
      split: json.splits if_splits dest!: list_all2_lengthD)

lemma expanded_set_fields [simp]:
  "ew_revision (expanded_set sha current entries) = ew_revision current + 1"
  "ew_scope (expanded_set sha current entries) = expanded_scope entries (ew_scope current)"
  "ew_provenance (expanded_set sha current entries) = ew_provenance current"
  "\<exists>h. ew_history (expanded_set sha current entries) = Some h \<and> length h \<le> 32"
  "ws_deny (expanded_scope entries scope) = ws_deny scope"
  by (auto simp: expanded_set_def expanded_scope_def last_entries_def Let_def)

lemma evaluate_Inr:
  assumes "evaluate_working_set_expansion sha current revision entries_input scope_input = Inr ev"
  obtains execution entries where
    "validate_execution_scope scope_input = Inr execution" "normalize_expansion_entries entries_input = Inr entries"
    "xv_next ev = (if grants_all sha current revision scope_input execution entries \<and>
        (\<exists>e\<in>set entries. \<not> scope_has (ew_scope current) e) then Some (expanded_set sha current entries) else None)"
    "xv_idempotent ev \<longleftrightarrow> grants_all sha current revision scope_input execution entries \<and>
        (\<forall>e\<in>set entries. scope_has (ew_scope current) e)"
    "xv_next_revision ev = (case xv_next ev of None \<Rightarrow> ew_revision current | Some w \<Rightarrow> ew_revision w)"
proof -
  obtain execution entries statuses where run: "validate_execution_scope scope_input = Inr execution"
    "normalize_expansion_entries entries_input = Inr entries"
    "map_sum_list (expansion_step sha current revision scope_input execution) entries = Inr statuses"
    using assms by (auto simp: evaluate_working_set_expansion_def sum_simps)
  have granted: "(\<not> list_ex (\<lambda>s. s \<noteq> OutcomeGranted) statuses) \<longleftrightarrow> grants_all sha current revision scope_input execution entries"
    using all_granted [OF run(3)] by (simp add: grants_all_def)
  have changed: "list_ex (\<lambda>(e, s). s = OutcomeGranted \<and> \<not> scope_has (ew_scope current) e) (zip entries statuses) \<longleftrightarrow>
      (\<exists>e\<in>set entries. \<not> scope_has (ew_scope current) e)"
    if "grants_all sha current revision scope_input execution entries"
    using all_granted_statuses [OF run(3)] granted that exists_zip_granted by metis
  show thesis
    using assms run granted changed
    by (intro that [OF run(1,2)]) (auto simp: evaluate_working_set_expansion_def sum_simps Let_def expanded_set_def split: if_splits)
qed

lemma expanded_entries:
  "set (operation_entries (expanded_scope entries scope) operation) =
     set (operation_entries scope operation) \<union>
     {p. \<exists>e\<in>set entries. xe_path e = p \<and> expansion_operation_of (xe_operation e) = Some operation}"
  by (cases operation) (auto simp: expanded_scope_def added_paths_def Let_def)

section \<open>Properties\<close>

text \<open>A composed working set is the candidates that are authorized. An operation lists a path exactly when a
  candidate names it and the execution scope authorizes the operation on it; nothing is left unresolved, and every required
  path is readable.\<close>

theorem composed_set_is_authorized_candidates:
  assumes "compose_effective_working_set sha scope_input candidate_input repository_input base_input = Inr (WorkSatisfied w)"
  shows "\<exists>execution candidate.
    validate_execution_scope scope_input = Inr execution \<and> validate_candidate_working_set candidate_input = Inr candidate \<and>
    (\<forall>operation path. path \<in> set (operation_entries (ew_scope w) operation) \<longleftrightarrow>
       (\<exists>e\<in>set (cs_entries candidate). mentions e path) \<and> authorized_path operation path (xs_scope execution)) \<and>
    (\<forall>e\<in>set (cs_entries candidate). ce_state e \<noteq> CandidateUnresolved \<and>
       (\<forall>path. ce_state e = CandidateRequired \<and> mentions e path \<longrightarrow> path \<in> set (ws_read_only (ew_scope w))))"
proof -
  obtain execution candidate paths required where run:
    "validate_execution_scope scope_input = Inr execution" "validate_candidate_working_set candidate_input = Inr candidate"
    "candidate_paths 0 (cs_entries candidate) ([], []) = Inr (paths, required)"
    "\<forall>p\<in>set required. authorized_path WorkReadonly p (xs_scope execution)"
    "ew_scope w = composed_scope paths (xs_scope execution)"
    using assms by (rule compose_satisfied)
  note paths = candidate_paths_Inr [OF run(3)]
  have entries: "path \<in> set (operation_entries (ew_scope w) operation) \<longleftrightarrow>
      (\<exists>e\<in>set (cs_entries candidate). mentions e path) \<and> authorized_path operation path (xs_scope execution)" for operation path
    using paths(1) by (simp add: run(5) operation_entries_composed)
  moreover have "path \<in> set (ws_read_only (ew_scope w))"
    if "e \<in> set (cs_entries candidate)" "ce_state e = CandidateRequired" "mentions e path" for e path
    using that run(4) paths(2) entries [of path WorkReadonly] by auto
  ultimately show ?thesis using run(1,2) paths(3) by blast
qed

text \<open>A composed working set permits no more than the execution scope it was composed from, provided that no
  candidate is a pattern.\<close>

theorem composed_set_grants_no_more:
  assumes "compose_effective_working_set sha scope_input candidate_input repository_input base_input = Inr (WorkSatisfied w)"
    and "validate_execution_scope scope_input = Inr execution" "validate_candidate_working_set candidate_input = Inr candidate"
    and "\<forall>e\<in>set (cs_entries candidate). wildcard_free (ce_locator e)"
    and "pm_allowed (decide_filesystem_scope_permission (permission_scope_of (ew_scope w)) (policy_operation operation) path None)"
  shows "pm_allowed (decide_filesystem_scope_permission (permission_scope_of (xs_scope execution)) (policy_operation operation) path None)"
proof -
  obtain paths required where run: "candidate_paths 0 (cs_entries candidate) ([], []) = Inr (paths, required)"
    "ew_scope w = composed_scope paths (xs_scope execution)"
    using assms(1-3) by (elim compose_satisfied) simp
  have "wildcard_free p" if "p \<in> set paths" for p
    using that candidate_paths_Inr(1) [OF run(1)] assms(4)
    by (auto simp: mentions_def locator_path_def wildcard_free_def dest: set_takeWhileD)
  moreover have "authorized_path operation path (ew_scope w)"
    using assms(5) by (simp add: permission_is_authorized)
  then obtain entry where "entry \<in> set (operation_entries (ew_scope w) operation)" "selector_matches entry path"
    by (auto simp: authorized_path_def list_ex_iff)
  ultimately have "path \<in> set (operation_entries (composed_scope paths (xs_scope execution)) operation)"
    using run(2) by (auto simp: operation_entries_composed)
  then show ?thesis by (simp add: permission_is_authorized operation_entries_composed)
qed

text \<open>C27: An expansion is all or nothing, and adds only what is authorized. Either the set stays as it is, or every
  requested path is authorized for its operation by the artifact the set was composed from, the revision is the one
  the request names, exactly the requested paths are added, and the denials stay.\<close>

theorem expansion_is_authorized_and_atomic:
  assumes "evaluate_working_set_expansion sha current revision entries_input scope_input = Inr ev"
  shows "\<exists>execution entries.
    validate_execution_scope scope_input = Inr execution \<and> normalize_expansion_entries entries_input = Inr entries \<and>
    (case xv_next ev of
       None \<Rightarrow> xv_next_revision ev = ew_revision current
     | Some w \<Rightarrow>
         revision = ew_revision current \<and> ew_revision w = revision + 1 \<and> xv_next_revision ev = ew_revision w \<and>
         artifact_digest sha scope_input = si_digest (pv_execution_scope (ew_provenance current)) \<and>
         (\<forall>e\<in>set entries. \<exists>operation. expansion_operation_of (xe_operation e) = Some operation \<and>
            authorized_path operation (xe_path e) (xs_scope execution)) \<and>
         (\<forall>operation path. path \<in> set (operation_entries (ew_scope w) operation) \<longleftrightarrow>
            path \<in> set (operation_entries (ew_scope current) operation) \<or>
            (\<exists>e\<in>set entries. xe_path e = path \<and> expansion_operation_of (xe_operation e) = Some operation)) \<and>
         ws_deny (ew_scope w) = ws_deny (ew_scope current) \<and> ew_provenance w = ew_provenance current \<and>
         (\<exists>h. ew_history w = Some h \<and> length h \<le> 32))"
proof -
  obtain execution entries where run:
    "validate_execution_scope scope_input = Inr execution" "normalize_expansion_entries entries_input = Inr entries"
    "xv_next ev = (if grants_all sha current revision scope_input execution entries \<and>
        (\<exists>e\<in>set entries. \<not> scope_has (ew_scope current) e) then Some (expanded_set sha current entries) else None)"
    "xv_next_revision ev = (case xv_next ev of None \<Rightarrow> ew_revision current | Some w \<Rightarrow> ew_revision w)"
    using assms by (rule evaluate_Inr)
  show ?thesis
  proof (cases "xv_next ev")
    case None
    with run show ?thesis by auto
  next
    case (Some w)
    then have w: "w = expanded_set sha current entries" and granted: "grants_all sha current revision scope_input execution entries"
      using run(3) by (auto split: if_splits)
    note granted = bspec [OF granted [unfolded grants_all_def], unfolded expansion_step_granted]
    obtain e where "e \<in> set entries" using normalize_expansion_entries_nonempty [OF run(2)] by (cases entries) auto
    note first = granted [OF this]
    have "\<forall>e\<in>set entries. \<exists>operation. expansion_operation_of (xe_operation e) = Some operation \<and>
        authorized_path operation (xe_path e) (xs_scope execution)"
      using granted by blast
    then show ?thesis
      using run(1,2,4) Some w first by (auto simp: expanded_entries)
  qed
qed

text \<open>Repeated on the set it produced, with its revision, an expansion is recognised as done; repeated with the
  revision it started from, it is refused.\<close>

lemma expansion_retry:
  assumes "evaluate_working_set_expansion sha current revision entries_input scope_input = Inr ev" "xv_next ev = Some w"
    and "evaluate_working_set_expansion sha w r entries_input scope_input = Inr retried"
  shows "xv_next retried = None" and "xv_idempotent retried \<longleftrightarrow> r = ew_revision w"
proof -
  obtain execution entries where run:
    "validate_execution_scope scope_input = Inr execution" "normalize_expansion_entries entries_input = Inr entries"
    "xv_next ev = (if grants_all sha current revision scope_input execution entries \<and>
        (\<exists>e\<in>set entries. \<not> scope_has (ew_scope current) e) then Some (expanded_set sha current entries) else None)"
    using assms(1) by (rule evaluate_Inr)
  then have w: "w = expanded_set sha current entries" and granted: "grants_all sha current revision scope_input execution entries"
    using assms(2) by (auto split: if_splits)
  have has: "scope_has (ew_scope w) e" if "e \<in> set entries" for e
  proof -
    obtain operation where "expansion_operation_of (xe_operation e) = Some operation"
      using bspec [OF granted [unfolded grants_all_def] \<open>e \<in> set entries\<close>] by (auto simp: expansion_step_granted)
    then show ?thesis using that by (auto simp: scope_has_def w expanded_set_def expanded_entries)
  qed
  have grants: "grants_all sha w r scope_input execution entries \<longleftrightarrow> r = ew_revision w"
    using granted normalize_expansion_entries_nonempty [OF run(2)]
    by (cases entries) (auto simp: grants_all_def expansion_step_granted w expanded_set_def)
  show "xv_next retried = None" "xv_idempotent retried \<longleftrightarrow> r = ew_revision w"
    using evaluate_Inr [OF assms(3)] run(1,2) has grants by (metis sum.inject(2))+
qed

text \<open>The working sets a session goes through\<close>

inductive reachable_set :: "(string \<Rightarrow> string) \<Rightarrow> effective_working_set \<Rightarrow> bool" for sha where
  composed: "compose_effective_working_set sha scope_input candidate_input repository_input base_input = Inr (WorkSatisfied w) \<Longrightarrow>
     reachable_set sha w"
| expanded: "reachable_set sha current \<Longrightarrow>
     evaluate_working_set_expansion sha current revision entries_input scope_input = Inr ev \<Longrightarrow> xv_next ev = Some w \<Longrightarrow>
     reachable_set sha w"

definition authorized_by_source :: "(string \<Rightarrow> string) \<Rightarrow> effective_working_set \<Rightarrow> expansion_operation \<Rightarrow> string \<Rightarrow> bool" where
  "authorized_by_source sha w operation path \<longleftrightarrow>
     (\<exists>scope_input execution. artifact_digest sha scope_input = si_digest (pv_execution_scope (ew_provenance w)) \<and>
        validate_execution_scope scope_input = Inr execution \<and> authorized_path operation path (xs_scope execution))"

text \<open>Whatever expansions a working set goes through, every selector it lists for an operation was authorized for it, by its
  spelling, by an execution scope with the digest the set records as its source.\<close>

lemma listed_stays_authorized:
  assumes "reachable_set sha w" "path \<in> set (operation_entries (ew_scope w) operation)"
  shows "authorized_by_source sha w operation path"
  using assms
proof (induction arbitrary: path operation)
  case (composed scope_input candidate_input repository_input base_input w)
  from composed.hyps show ?case
    using composed.prems
    by (elim compose_satisfied) (auto simp: authorized_by_source_def operation_entries_composed)
next
  case (expanded current revision entries_input scope_input ev w)
  obtain execution entries where run: "validate_execution_scope scope_input = Inr execution"
    "xv_next ev = (if grants_all sha current revision scope_input execution entries \<and>
        (\<exists>e\<in>set entries. \<not> scope_has (ew_scope current) e) then Some (expanded_set sha current entries) else None)"
    using expanded.hyps(2) by (rule evaluate_Inr)
  then have w: "w = expanded_set sha current entries" and granted: "grants_all sha current revision scope_input execution entries"
    using expanded.hyps(3) by (auto split: if_splits)
  have source: "ew_provenance w = ew_provenance current" by (simp add: w expanded_set_def)
  consider "path \<in> set (operation_entries (ew_scope current) operation)"
    | e where "e \<in> set entries" "xe_path e = path" "expansion_operation_of (xe_operation e) = Some operation"
    using expanded.prems by (auto simp: w expanded_set_def expanded_entries)
  then show ?case
  proof cases
    case 1
    then show ?thesis using expanded.IH by (simp add: authorized_by_source_def source)
  next
    case 2
    then show ?thesis
      using bspec [OF granted [unfolded grants_all_def] 2(1)] run(1)
      by (auto simp: authorized_by_source_def source expansion_step_granted)
  qed
qed

text \<open>C28: A working set never permits more than its source, as long as its selectors are no patterns. Whatever expansions it
  goes through, an operation that the set permits on a path (some selector selects the path and no denial of the set does)
  is permitted on that path by an execution scope with the digest the set records as its source, the denials of that scope
  included. (With a pattern among the selectors this fails, see \<open>pattern_candidate_escapes_deny\<close>.)\<close>

theorem working_set_stays_authorized:
  assumes "reachable_set sha w"
    and "\<And>other selector. selector \<in> set (operation_entries (ew_scope w) other) \<Longrightarrow> wildcard_free selector"
    and "pm_allowed (decide_filesystem_scope_permission (permission_scope_of (ew_scope w)) (policy_operation operation) path None)"
  shows "\<exists>scope_input execution.
    artifact_digest sha scope_input = si_digest (pv_execution_scope (ew_provenance w)) \<and>
    validate_execution_scope scope_input = Inr execution \<and>
    pm_allowed (decide_filesystem_scope_permission (permission_scope_of (xs_scope execution)) (policy_operation operation) path None)"
proof -
  have "authorized_path operation path (ew_scope w)"
    using assms(3) by (simp add: permission_is_authorized)
  then obtain selector where "selector \<in> set (operation_entries (ew_scope w) operation)" "selector_matches selector path"
    by (auto simp: authorized_path_def list_ex_iff)
  with assms(2) have "path \<in> set (operation_entries (ew_scope w) operation)" by auto
  from listed_stays_authorized [OF assms(1) this] show ?thesis
    by (auto simp: authorized_by_source_def permission_is_authorized)
qed

section \<open>Inputs at which the properties apply\<close>

definition sample_repository :: json where
  "sample_repository = JObj [(''repositoryHost'', JStr ''h''), (''repositoryId'', JStr ''r''), (''repository'', JStr ''o/r'')]"

definition sample_base :: json where
  "sample_base = JObj [(''branch'', JStr ''main''), (''revision'', JStr (replicate 40 CHR ''a''))]"

definition sample_scope_input :: json where
  "sample_scope_input =
     JObj [(''version'', JNum 1), (''kind'', JStr ''x''),
       (''authorization'', JObj [(''version'', JNum 1), (''kind'', JStr ''implementation-authorization''),
          (''contractVersion'', JNum 1),
          (''implementation'', JObj [(''repositoryHost'', JStr ''h''), (''repositoryId'', JStr ''r''), (''number'', JNum 7)]),
          (''governedBodyDigest'', JStr (replicate 64 CHR ''b''))]),
       (''repository'', sample_repository), (''base'', sample_base),
       (''scope'', JObj [(''readOnly'', JArr [JStr ''s/*'']), (''write'', JArr [JStr ''s/*'']), (''create'', JArr []),
          (''delete'', JArr []), (''deny'', JArr [JStr ''s/k''])])]"

definition sample_candidate :: "string \<Rightarrow> json" where
  "sample_candidate locator =
     JObj [(''kind'', JStr CANDIDATE_WORKING_SET_KIND), (''schemaVersion'', JNum 1), (''workingSetId'', JStr ''c''),
       (''repository'', sample_repository), (''revision'', JStr (replicate 40 CHR ''a'')),
       (''entries'', JArr [JObj [(''state'', JStr ''required''),
          (''target'', JObj [(''kind'', JStr ''file''), (''locator'', JStr locator)]),
          (''reason'', JObj [(''id'', JStr ''i''), (''summary'', JStr ''m'')]), (''evidence'', JArr [])]])]"

definition sample_execution :: execution_scope where
  "sample_execution =
     \<lparr>xs_authorization = jget sample_scope_input ''authorization'',
      xs_repository = \<lparr>ry_host = ''h'', ry_id = ''r'', ry_name = Some ''o/r''\<rparr>,
      xs_base = \<lparr>by_branch = ''main'', by_revision = replicate 40 CHR ''a'', by_freshness = None\<rparr>,
      xs_scope = \<lparr>ws_read_only = [''s/*''], ws_write = [''s/*''], ws_create = [], ws_delete = [], ws_deny = [''s/k'']\<rparr>\<rparr>"

lemma sample_execution_valid: "validate_execution_scope sample_scope_input = Inr sample_execution"
  by code_simp

definition sample_candidate_set :: "string \<Rightarrow> candidate_set" where
  "sample_candidate_set locator =
     \<lparr>cs_id = ''c'', cs_repository = xs_repository sample_execution, cs_revision = replicate 40 CHR ''a'',
      cs_entries = [\<lparr>ce_state = CandidateRequired, ce_kind = JStr ''file'', ce_locator = locator\<rparr>]\<rparr>"

lemma sample_candidate_valid:
  "validate_candidate_working_set (sample_candidate ''s/a'') = Inr (sample_candidate_set ''s/a'')"
  "validate_candidate_working_set (sample_candidate ''s/?'') = Inr (sample_candidate_set ''s/?'')"
  by code_simp+

lemma sample_actual:
  "work_repository sample_repository ''repository'' False = Inr (xs_repository sample_execution)"
  "work_base sample_base ''base'' = Inr (xs_base sample_execution)"
  "producer_locator_of sample_execution = Inr \<lparr>pl_host = ''h'', pl_id = ''r'', pl_number = 7\<rparr>"
  by code_simp+

lemma sample_paths:
  "candidate_paths 0 (cs_entries (sample_candidate_set ''s/a'')) ([], []) = Inr ([''s/a''], [''s/a''])"
  "candidate_paths 0 (cs_entries (sample_candidate_set ''s/?'')) ([], []) = Inr ([''s/?''], [''s/?''])"
  "authorized_path WorkReadonly ''s/a'' (xs_scope sample_execution)"
  "authorized_path WorkReadonly ''s/?'' (xs_scope sample_execution)"
  by code_simp+

lemma sample_matching:
  "identity_matches (xs_repository sample_execution) (cs_repository (sample_candidate_set p))"
  "identity_matches (xs_repository sample_execution) (xs_repository sample_execution)"
  "base_matches (xs_base sample_execution) (xs_base sample_execution)"
  "by_revision (xs_base sample_execution) = cs_revision (sample_candidate_set p)"
  by (simp_all add: identity_matches_def base_matches_def sample_candidate_set_def sample_execution_def)

definition sample_compose :: "string \<Rightarrow> string + composition_result" where
  "sample_compose locator =
     compose_effective_working_set id sample_scope_input (sample_candidate locator) sample_repository sample_base"

lemma sample_composed:
  "\<exists>w. sample_compose ''s/a'' = Inr (WorkSatisfied w) \<and> ew_scope w = composed_scope [''s/a''] (xs_scope sample_execution)"
  "\<exists>w. sample_compose ''s/?'' = Inr (WorkSatisfied w) \<and> ew_scope w = composed_scope [''s/?''] (xs_scope sample_execution)"
  by (simp_all add: sample_compose_def compose_effective_working_set_def sample_execution_valid sample_candidate_valid
      sample_actual sample_paths sample_matching Let_def)

lemma sample_scopes:
  "ws_read_only (composed_scope [''s/a''] (xs_scope sample_execution)) = [''s/a'']"
  "ws_write (composed_scope [''s/a''] (xs_scope sample_execution)) = [''s/a'']"
  "ws_write (composed_scope [''s/?''] (xs_scope sample_execution)) = [''s/?'']"
  "ws_deny (composed_scope [''s/?''] (xs_scope sample_execution)) = []"
  by code_simp+

theorem composed_set_is_authorized_candidates_witness:
  "\<exists>w. sample_compose ''s/a'' = Inr (WorkSatisfied w) \<and> ''s/a'' \<in> set (ws_read_only (ew_scope w)) \<and>
     authorized_path WorkReadonly ''s/a'' (xs_scope sample_execution)"
proof -
  obtain w where w: "sample_compose ''s/a'' = Inr (WorkSatisfied w)" "ew_scope w = composed_scope [''s/a''] (xs_scope sample_execution)"
    using sample_composed(1) by blast
  then show ?thesis
    using composed_set_is_authorized_candidates [OF w(1) [unfolded sample_compose_def]] sample_execution_valid
    by (metis list.set_intros(1) operation_entries.simps(1) sample_scopes(1) sum.inject(2))
qed

theorem composed_set_grants_no_more_witness:
  "pm_allowed (decide_filesystem_scope_permission (permission_scope_of (xs_scope sample_execution)) FsWrite ''s/a'' None)"
proof -
  obtain w where w: "sample_compose ''s/a'' = Inr (WorkSatisfied w)" "ew_scope w = composed_scope [''s/a''] (xs_scope sample_execution)"
    using sample_composed(1) by blast
  have "wildcard_free ''s/a''" by (simp add: wildcard_free_def)
  moreover have "pm_allowed (decide_filesystem_scope_permission (permission_scope_of (ew_scope w)) (policy_operation WorkWrite) ''s/a'' None)"
    unfolding w(2) by code_simp
  ultimately show ?thesis
    using composed_set_grants_no_more [OF w(1) [unfolded sample_compose_def] sample_execution_valid sample_candidate_valid(1),
        where operation = WorkWrite and path = "''s/a''"]
    by (simp add: sample_candidate_set_def)
qed

text \<open>A candidate that is a pattern escapes a denial. The locator \<open>s/?\<close> is authorized by its spelling, which
  no denial matches; the composed set then lists it as a selector, without the denial of \<open>s/k\<close>, and permits writing
  what the execution scope denies.\<close>

theorem pattern_candidate_escapes_deny:
  "\<exists>w. compose_effective_working_set id sample_scope_input (sample_candidate ''s/?'') sample_repository sample_base =
       Inr (WorkSatisfied w) \<and>
     pm_allowed (decide_filesystem_scope_permission (permission_scope_of (ew_scope w)) FsWrite ''s/k'' None) \<and>
     \<not> pm_allowed (decide_filesystem_scope_permission (permission_scope_of (xs_scope sample_execution)) FsWrite ''s/k'' None)"
proof -
  obtain w where w: "sample_compose ''s/?'' = Inr (WorkSatisfied w)" "ew_scope w = composed_scope [''s/?''] (xs_scope sample_execution)"
    using sample_composed(2) by blast
  have "pm_allowed (decide_filesystem_scope_permission (permission_scope_of (ew_scope w)) FsWrite ''s/k'' None)"
    unfolding w(2) by code_simp
  moreover have "\<not> pm_allowed (decide_filesystem_scope_permission (permission_scope_of (xs_scope sample_execution)) FsWrite ''s/k'' None)"
    by code_simp
  ultimately show ?thesis using w(1) unfolding sample_compose_def by blast
qed

definition sample_expansion :: json where
  "sample_expansion = JArr [JObj [(''path'', JStr ''s/b''), (''operation'', JStr ''WRITE''), (''reason'', JStr ''n'')]]"

definition sample_entry :: expansion_entry where
  "sample_entry = \<lparr>xe_path = ''s/b'', xe_operation = JStr ''WRITE'', xe_reason = ''n'', xe_evidence = None, xe_unresolved = False\<rparr>"

lemma sample_expansion_valid: "normalize_expansion_entries sample_expansion = Inr [sample_entry]"
  by code_simp

lemma sample_entry_authorized:
  "expansion_operation_of (xe_operation sample_entry) = Some WorkWrite"
  "authorized_path WorkWrite (xe_path sample_entry) (xs_scope sample_execution)"
  "\<not> xe_unresolved sample_entry" "xe_path sample_entry = ''s/b''"
  by code_simp+

lemma sample_expanded:
  obtains w ev where "sample_compose ''s/a'' = Inr (WorkSatisfied w)"
    "evaluate_working_set_expansion id w 1 sample_expansion sample_scope_input = Inr ev"
    "xv_next ev = Some (expanded_set id w [sample_entry])"
proof -
  obtain w where w: "sample_compose ''s/a'' = Inr (WorkSatisfied w)" "ew_scope w = composed_scope [''s/a''] (xs_scope sample_execution)"
    using sample_composed(1) by blast
  have digest: "artifact_digest id sample_scope_input = si_digest (pv_execution_scope (ew_provenance w))" "ew_revision w = 1"
    using w(1) [unfolded sample_compose_def] by (auto elim: compose_satisfied)
  then have "expansion_step id w 1 sample_scope_input sample_execution sample_entry = Inr OutcomeGranted"
    using sample_entry_authorized by (simp add: expansion_step_granted)
  moreover have "\<not> scope_has (ew_scope w) sample_entry"
    using sample_entry_authorized sample_scopes(2) by (simp add: scope_has_def w(2))
  ultimately show thesis
    by (intro that [OF w(1)])
      (auto simp: evaluate_working_set_expansion_def sample_execution_valid sample_expansion_valid digest(2)
        expanded_set_def Let_def)
qed

theorem expansion_is_authorized_and_atomic_witness:
  "\<exists>current ev w. evaluate_working_set_expansion id current 1 sample_expansion sample_scope_input = Inr ev \<and>
     xv_next ev = Some w \<and> ew_revision w = 2 \<and> authorized_path WorkWrite ''s/b'' (xs_scope sample_execution)"
proof -
  obtain w ev where run: "evaluate_working_set_expansion id w 1 sample_expansion sample_scope_input = Inr ev"
    "xv_next ev = Some (expanded_set id w [sample_entry])"
    by (rule sample_expanded)
  then show ?thesis
    using expansion_is_authorized_and_atomic [OF run(1)] sample_entry_authorized
    by (intro exI [of _ w] exI [of _ ev] exI [of _ "expanded_set id w [sample_entry]"]) auto
qed

lemma sample_expanded_scope:
  assumes "sample_compose ''s/a'' = Inr (WorkSatisfied w)"
  shows "ew_scope (expanded_set id w [sample_entry]) =
    expanded_scope [sample_entry] (composed_scope [''s/a''] (xs_scope sample_execution))"
  using assms sample_composed(1) by (auto simp: expanded_set_def)

theorem working_set_stays_authorized_witness:
  "\<exists>w scope_input execution. reachable_set id w \<and> ew_revision w = 2 \<and>
     artifact_digest id scope_input = si_digest (pv_execution_scope (ew_provenance w)) \<and>
     validate_execution_scope scope_input = Inr execution \<and>
     pm_allowed (decide_filesystem_scope_permission (permission_scope_of (xs_scope execution)) FsWrite ''s/b'' None)"
proof -
  obtain w ev where run: "sample_compose ''s/a'' = Inr (WorkSatisfied w)"
    "evaluate_working_set_expansion id w 1 sample_expansion sample_scope_input = Inr ev"
    "xv_next ev = Some (expanded_set id w [sample_entry])"
    by (rule sample_expanded)
  let ?w = "expanded_set id w [sample_entry]"
  have reached: "reachable_set id ?w"
    using reachable_set.expanded [OF reachable_set.composed run(2,3)] run(1) by (simp add: sample_compose_def)
  have "list_all (\<lambda>operation. list_all wildcard_free (operation_entries (ew_scope ?w) operation))
      [WorkReadonly, WorkWrite, WorkCreate, WorkDelete]"
    unfolding sample_expanded_scope [OF run(1)] by code_simp
  then have concrete: "wildcard_free p" if "p \<in> set (operation_entries (ew_scope ?w) other)" for p other
    using that by (cases other) (auto simp: list_all_iff)
  have allowed: "pm_allowed (decide_filesystem_scope_permission (permission_scope_of (ew_scope ?w)) (policy_operation WorkWrite) ''s/b'' None)"
    unfolding sample_expanded_scope [OF run(1)] by code_simp
  have "ew_revision ?w = 2"
    using run(1) [unfolded sample_compose_def] by (auto elim: compose_satisfied)
  then show ?thesis using working_set_stays_authorized [OF reached concrete allowed] reached by auto
qed

end
