(* ===== verification/ResourceHandoff.thy ===== *)
theory ResourceHandoff
  imports CoordinationTransactions WorkingSet
begin

text \<open>
  src/src/resource-handoff.ts: moving one exact claim from a session to another, as a client of an authority that owns the
  registry (one read, one commit) and of a controller of the source's executions (a fence, a drain). The validation of a
  snapshot is pure. The locale \<open>handoff_authority\<close> states what the client relies on; the controller may do anything, and
  the registry may change while the executions drain. Reasons and details of errors are not kept, nor the texts of
  blockers, and a resource's path is matched as the file system \<open>fs\<close> and the hash \<open>sha\<close> have it.
\<close>

section \<open>Data\<close>

datatype js_number = NumUndefined | NumNull | NumInt int | NumOther

record handoff_options =
  ho_fromSessionId :: js_value
  ho_from_session_id :: js_value
  ho_toSessionId :: js_value
  ho_to_session_id :: js_value
  ho_resource :: js_value
  ho_mode :: js_value
  ho_ifGeneration :: js_number
  ho_if_generation :: js_number
  ho_expectedClaimSetGeneration :: js_number
  ho_expected_claim_set_generation :: js_number
  ho_operationId :: js_value
  ho_operation_id :: js_value

record handoff_session =
  hs_session_id :: string
  hs_repository_id :: string
  hs_worktree_path :: string
  hs_state :: string
  hs_max_scope :: "work_scope option"

record handoff_receipt =
  hr_operation_id :: string
  hr_from_session_id :: string
  hr_to_session_id :: string
  hr_resource :: string
  hr_mode :: claim_mode
  hr_generation :: int

record handoff_snapshot =
  hn_schema_version :: int
  hn_operation :: string
  hn_repository_id :: string
  hn_generation :: int
  hn_sessions :: "handoff_session list"
  hn_claims :: "resource_claim list"
  hn_completed :: "handoff_receipt list"

record normalized_handoff =
  nh_from :: string
  nh_to :: string
  nh_resource :: string
  nh_mode :: claim_mode
  nh_generation :: int
  nh_operation_id :: string

record handoff_blocker =
  hb_code :: string
  hb_owner_session_id :: "string option"
  hb_owner_claim_id :: "string option"
  hb_resource :: string

datatype handoff_status = HandoffTransferred | HandoffIdempotent | HandoffBlocked | HandoffUnresolved
datatype validation_status = ValidationAllowed | ValidationIdempotent | ValidationBlocked | ValidationUnresolved

record handoff_validation =
  va_status :: validation_status
  va_code :: string
  va_request :: normalized_handoff
  va_generation :: int
  va_source_claim :: "resource_claim option"
  va_destination_claim :: "resource_claim option"
  va_blockers :: "handoff_blocker list"
  va_source_retained :: bool
  va_safe_actions :: "string list"

record handoff_result =
  ht_status :: handoff_status
  ht_code :: string
  ht_idempotent :: bool
  ht_request :: normalized_handoff
  ht_previous_generation :: int
  ht_generation :: int
  ht_source_claim :: "resource_claim option"
  ht_destination_claim :: "resource_claim option"
  ht_blockers :: "handoff_blocker list"
  ht_source_retained :: bool
  ht_fence_epoch :: "int option"
  ht_safe_actions :: "string list"

text \<open>What the controller returns; a value of another shape is \<open>None\<close> below.\<close>

record handoff_fence =
  hf_schema_version :: int
  hf_session_id :: string
  hf_operation_id :: string
  hf_epoch :: int
  hf_accepting :: bool
  hf_status :: string

record handoff_quiescence =
  hq_session_id :: string
  hq_operation_id :: string
  hq_epoch :: int
  hq_status :: string
  hq_active :: "string list"
  hq_unknown :: "string list"

record handoff_commit_input =
  hi_options :: "handoff_options option"
  hi_normalized :: normalized_handoff
  hi_snapshot :: handoff_snapshot
  hi_fence :: handoff_fence
  hi_quiescence :: handoff_quiescence

record handoff_commit_result =
  hc_status :: handoff_status
  hc_operation_id :: string
  hc_generation :: int
  hc_source_claim :: "resource_claim option"
  hc_destination_claim :: "resource_claim option"

definition RESOURCE_HANDOFF_SCHEMA_VERSION :: int where "RESOURCE_HANDOFF_SCHEMA_VERSION = 1"
definition RESOURCE_HANDOFF_OPERATION :: string where "RESOURCE_HANDOFF_OPERATION = ''resource-handoff''"
definition MAX_OPERATION_ID_LENGTH :: nat where "MAX_OPERATION_ID_LENGTH = 128"
definition MAX_SESSION_ID_LENGTH :: nat where "MAX_SESSION_ID_LENGTH = 256"
definition MAX_RESOURCE_LENGTH :: nat where "MAX_RESOURCE_LENGTH = 4096"
definition MAX_CLAIM_GROUP_ID_LENGTH :: nat where "MAX_CLAIM_GROUP_ID_LENGTH = 128"
definition MAX_SCOPE_ENTRIES :: nat where "MAX_SCOPE_ENTRIES = 2048"
definition MAX_SCOPE_SELECTOR_LENGTH :: nat where "MAX_SCOPE_SELECTOR_LENGTH = 1024"

section \<open>Normalized options\<close>

abbreviation handoff_error :: "string \<Rightarrow> retention_failure + 'a" where
  "handoff_error code \<equiv> Inl (RegistryFailure code)"

definition of_registry :: "registry_error + 'a \<Rightarrow> retention_failure + 'a" where
  "of_registry r = (case r of Inl e \<Rightarrow> Inl (RegistryFailure (error_code e)) | Inr a \<Rightarrow> Inr a)"

definition bounded_text :: "nat \<Rightarrow> string \<Rightarrow> bool" where
  "bounded_text limit s \<longleftrightarrow> s \<noteq> [] \<and> length s \<le> limit \<and> \<not> list_ex control_unit s"

definition assert_bounded_text :: "nat \<Rightarrow> js_value \<Rightarrow> retention_failure + string" where
  "assert_bounded_text limit v =
     (case v of JsString s \<Rightarrow> if bounded_text limit s then Inr s else handoff_error ''INVALID_OPERATION''
      | _ \<Rightarrow> handoff_error ''INVALID_OPERATION'')"

definition number_or :: "js_number \<Rightarrow> js_number \<Rightarrow> js_number" where
  "number_or a b = (if a = NumUndefined \<or> a = NumNull then b else a)"

definition canonical_resource_handoff_operation_id ::
  "(string \<Rightarrow> string) \<Rightarrow> string \<Rightarrow> string \<Rightarrow> string \<Rightarrow> claim_mode \<Rightarrow> string" where
  "canonical_resource_handoff_operation_id sha from_id to_id resource mode =
     ''handoff-'' @ sha (concat (map (\<lambda>field. decimal (length field) @ CHR '':'' # field) [from_id, to_id, resource, mode_name mode]))"

definition normalize_handoff_options ::
  "(string \<Rightarrow> string) \<Rightarrow> handoff_options option \<Rightarrow> retention_failure + normalized_handoff" where
  "normalize_handoff_options sha options =
     (case options of None \<Rightarrow> handoff_error ''INVALID_OPERATION'' | Some opts \<Rightarrow>
      let expected = number_or (ho_ifGeneration opts) (number_or (ho_if_generation opts)
            (number_or (ho_expectedClaimSetGeneration opts) (ho_expected_claim_set_generation opts)));
          invalid = RegistryFailure ''INVALID_RESOURCE'' in
      bind_sum (assert_bounded_text MAX_SESSION_ID_LENGTH (nullish (ho_fromSessionId opts) (ho_from_session_id opts))) (\<lambda>from_id.
      bind_sum (assert_bounded_text MAX_SESSION_ID_LENGTH (nullish (ho_toSessionId opts) (ho_to_session_id opts))) (\<lambda>to_id.
      bind_sum (require (from_id \<noteq> to_id) (RegistryFailure ''INVALID_OPERATION'')) (\<lambda>_.
      bind_sum (case expected of
          NumInt n \<Rightarrow> if is_safe_integer n \<and> 0 \<le> n then Inr n else handoff_error ''INVALID_OPERATION''
        | _ \<Rightarrow> handoff_error ''INVALID_OPERATION'') (\<lambda>generation.
      bind_sum (case ho_resource opts of
          JsString r \<Rightarrow> if r \<noteq> [] \<and> length r \<le> MAX_RESOURCE_LENGTH then Inr r else Inl invalid
        | _ \<Rightarrow> Inl invalid) (\<lambda>resource.
      bind_sum (require (star \<notin> set resource \<and> qmark \<notin> set resource) invalid) (\<lambda>_.
      bind_sum (of_registry (assert_canonical_claim_resource (JsString resource))) (\<lambda>_.
      case resource_claim_mode (ho_mode opts) of
        None \<Rightarrow> handoff_error ''INVALID_OPERATION''
      | Some mode \<Rightarrow>
      bind_sum (assert_bounded_text MAX_OPERATION_ID_LENGTH
        (nullish (nullish (ho_operationId opts) (ho_operation_id opts))
          (JsString (canonical_resource_handoff_operation_id sha from_id to_id resource mode)))) (\<lambda>operation_id.
      Inr \<lparr>nh_from = from_id, nh_to = to_id, nh_resource = resource, nh_mode = mode, nh_generation = generation,
           nh_operation_id = operation_id\<rparr>)))))))))"

section \<open>The evidence in a snapshot\<close>

definition is_canonical_claim_sharing :: "shared_write_binding option \<Rightarrow> claim_mode \<Rightarrow> bool" where
  "is_canonical_claim_sharing sharing mode \<longleftrightarrow>
     (case sharing of None \<Rightarrow> True
      | Some b \<Rightarrow> mode = Write \<and> sw_kind b = RESOURCE_CLAIM_SHARING_KIND \<and> bounded_text MAX_CLAIM_GROUP_ID_LENGTH (sw_group_id b))"

definition is_absolute_path :: "string \<Rightarrow> bool" where
  "is_absolute_path s \<longleftrightarrow> prefix ''/'' s \<and> string_of_path (path_of_string [] s) = s \<and> NUL \<notin> set s"

definition is_canonical_resource_claim ::
  "(string \<Rightarrow> string) \<Rightarrow> resource_claim \<Rightarrow> string \<Rightarrow> handoff_session \<Rightarrow> bool" where
  "is_canonical_resource_claim sha c repository owner \<longleftrightarrow>
     rc_schema_version c = RESOURCE_CLAIM_SCHEMA_VERSION \<and> bounded_text MAX_OPERATION_ID_LENGTH (rc_claim_id c) \<and>
     bounded_text MAX_SESSION_ID_LENGTH (rc_session_id c) \<and> bounded_text MAX_SESSION_ID_LENGTH (rc_repository_id c) \<and>
     is_absolute_path (rc_worktree_path c) \<and> bounded_text MAX_RESOURCE_LENGTH (rc_resource c) \<and>
     is_timestamp (rc_created_at c) \<and> is_timestamp (rc_updated_at c) \<and> \<not> rc_updated_at c < rc_created_at c \<and>
     rc_repository_id c = repository \<and> hs_repository_id owner = repository \<and> rc_session_id c = hs_session_id owner \<and>
     rc_worktree_path c = hs_worktree_path owner \<and> is_canonical_claim_sharing (rc_sharing c) (rc_mode c) \<and>
     is_ok (assert_canonical_claim_resource (JsString (rc_resource c))) \<and>
     rc_claim_id c = canonical_claim_id sha (rc_session_id c) (rc_resource c) (rc_mode c) (rc_sharing c)"

definition find_handoff_session :: "string \<Rightarrow> handoff_session list \<Rightarrow> handoff_session option" where
  "find_handoff_session session_id sessions = find (\<lambda>s. hs_session_id s = session_id) sessions"

definition is_canonical_snapshot_claim :: "(string \<Rightarrow> string) \<Rightarrow> handoff_snapshot \<Rightarrow> resource_claim \<Rightarrow> bool" where
  "is_canonical_snapshot_claim sha snapshot c \<longleftrightarrow>
     (case find_handoff_session (rc_session_id c) (hn_sessions snapshot) of None \<Rightarrow> False
      | Some owner \<Rightarrow> is_canonical_resource_claim sha c (hn_repository_id snapshot) owner)"

definition is_canonical_scope_selector :: "string \<Rightarrow> bool" where
  "is_canonical_scope_selector s \<longleftrightarrow> s \<noteq> [] \<and> length s \<le> MAX_SCOPE_SELECTOR_LENGTH \<and> SELECTOR s"

definition is_maximum_scope_evidence :: "work_scope option \<Rightarrow> bool" where
  "is_maximum_scope_evidence scope \<longleftrightarrow>
     (case scope of None \<Rightarrow> True
      | Some s \<Rightarrow> list_all (\<lambda>entries. length entries \<le> MAX_SCOPE_ENTRIES \<and> list_all is_canonical_scope_selector entries \<and>
            distinct entries) [ws_read_only s, ws_write s, ws_create s, ws_delete s, ws_deny s])"

definition snapshot_session_ok :: "handoff_session \<Rightarrow> bool" where
  "snapshot_session_ok s \<longleftrightarrow>
     bounded_text MAX_SESSION_ID_LENGTH (hs_session_id s) \<and> bounded_text MAX_SESSION_ID_LENGTH (hs_repository_id s) \<and>
     is_absolute_path (hs_worktree_path s) \<and> bounded_text MAX_SESSION_ID_LENGTH (hs_state s) \<and>
     is_maximum_scope_evidence (hs_max_scope s)"

definition snapshot_receipt_ok :: "handoff_receipt \<Rightarrow> bool" where
  "snapshot_receipt_ok r \<longleftrightarrow>
     bounded_text MAX_OPERATION_ID_LENGTH (hr_operation_id r) \<and> bounded_text MAX_SESSION_ID_LENGTH (hr_from_session_id r) \<and>
     bounded_text MAX_SESSION_ID_LENGTH (hr_to_session_id r) \<and> bounded_text MAX_RESOURCE_LENGTH (hr_resource r) \<and>
     is_safe_integer (hr_generation r) \<and> 0 \<le> hr_generation r"

text \<open>Every refusal has the same code, so the checks of a list are one condition.\<close>

definition assert_handoff_snapshot :: "(string \<Rightarrow> string) \<Rightarrow> handoff_snapshot \<Rightarrow> retention_failure + unit" where
  "assert_handoff_snapshot sha n =
     (let corrupt = RegistryFailure ''REGISTRY_CORRUPT'' in
      bind_sum (require (hn_schema_version n = RESOURCE_HANDOFF_SCHEMA_VERSION \<and> hn_operation n = RESOURCE_HANDOFF_OPERATION)
        corrupt) (\<lambda>_.
      bind_sum (require (hn_repository_id n \<noteq> [] \<and> is_safe_integer (hn_generation n) \<and> 0 \<le> hn_generation n) corrupt) (\<lambda>_.
      bind_sum (require (list_all snapshot_session_ok (hn_sessions n) \<and> distinct (map hs_session_id (hn_sessions n))) corrupt) (\<lambda>_.
      bind_sum (require (list_all (is_canonical_snapshot_claim sha n) (hn_claims n) \<and> distinct (map rc_claim_id (hn_claims n)))
        corrupt) (\<lambda>_.
      require (list_all snapshot_receipt_ok (hn_completed n) \<and> distinct (map hr_operation_id (hn_completed n))) corrupt)))))"

section \<open>Validation\<close>

definition blocker :: "string \<Rightarrow> string \<Rightarrow> string option \<Rightarrow> string option \<Rightarrow> handoff_blocker" where
  "blocker code resource owner_session owner_claim =
     \<lparr>hb_code = code, hb_owner_session_id = owner_session, hb_owner_claim_id = owner_claim, hb_resource = resource\<rparr>"

definition find_claim :: "resource_claim list \<Rightarrow> string \<Rightarrow> string \<Rightarrow> retention_failure + resource_claim option" where
  "find_claim claims session_id resource =
     (case filter (\<lambda>c. rc_session_id c = session_id \<and> rc_resource c = resource) claims of
        [] \<Rightarrow> Inr None | [c] \<Rightarrow> Inr (Some c) | _ \<Rightarrow> handoff_error ''REGISTRY_CORRUPT'')"

definition validate_session_identities :: "handoff_snapshot \<Rightarrow> handoff_session \<Rightarrow> handoff_session \<Rightarrow> string \<Rightarrow> handoff_blocker option" where
  "validate_session_identities n source destination resource =
     (if hs_repository_id source \<noteq> hn_repository_id n \<or> hs_repository_id destination \<noteq> hn_repository_id n
      then Some (blocker ''REPOSITORY_MISMATCH'' resource None None)
      else if hs_worktree_path source = [] \<or> hs_worktree_path destination = []
      then Some (blocker ''WORKTREE_MISMATCH'' resource None None)
      else if hs_worktree_path source = hs_worktree_path destination
      then Some (blocker ''WORKTREE_MISMATCH'' resource None None)
      else None)"

definition scope_selector_matches :: "filesystem \<Rightarrow> string \<Rightarrow> string \<Rightarrow> retention_failure + bool" where
  "scope_selector_matches fs resource selector = of_registry (resource_matches_claim fs selector None resource)"

definition validate_destination_scope ::
  "filesystem \<Rightarrow> handoff_session \<Rightarrow> string \<Rightarrow> claim_mode \<Rightarrow> retention_failure + handoff_blocker option" where
  "validate_destination_scope fs destination resource mode =
     (case hs_max_scope destination of
        None \<Rightarrow> Inr (Some (blocker ''OPERATION_REJECTED'' resource None None))
      | Some scope \<Rightarrow>
          bind_sum (exists_sum (scope_selector_matches fs resource) (ws_deny scope)) (\<lambda>denied.
          if denied then Inr (Some (blocker ''OPERATION_REJECTED'' resource None None))
          else
          bind_sum (exists_sum (scope_selector_matches fs resource) (if mode = Read then ws_read_only scope else ws_write scope))
            (\<lambda>granted.
          Inr (if granted then None else Some (blocker ''INSUFFICIENT_CLAIM_MODE'' resource None None)))))"

definition validation ::
  "normalized_handoff \<Rightarrow> int \<Rightarrow> validation_status \<Rightarrow> string \<Rightarrow> resource_claim option \<Rightarrow> resource_claim option \<Rightarrow>
   handoff_blocker list \<Rightarrow> string list \<Rightarrow> handoff_validation" where
  "validation normalized generation status code source destination blockers actions =
     \<lparr>va_status = status, va_code = code, va_request = normalized, va_generation = generation, va_source_claim = source,
      va_destination_claim = destination, va_blockers = blockers, va_source_retained = True, va_safe_actions = actions\<rparr>"

text \<open>The branch of a completed operation, and the decision on a current one\<close>

definition validate_completed ::
  "handoff_snapshot \<Rightarrow> normalized_handoff \<Rightarrow> handoff_receipt \<Rightarrow> retention_failure + handoff_validation" where
  "validate_completed n h completed =
     (if \<not> (hr_from_session_id completed = nh_from h \<and> hr_to_session_id completed = nh_to h \<and>
            hr_resource completed = nh_resource h \<and> hr_mode completed = nh_mode h)
      then Inr (validation h (hn_generation n) ValidationBlocked ''OPERATION_REJECTED'' None None
        [blocker ''OPERATION_REJECTED'' (nh_resource h) None None] [''inspect-handoff-operation''])
      else
        bind_sum (find_claim (hn_claims n) (nh_from h) (nh_resource h)) (\<lambda>source.
        bind_sum (find_claim (hn_claims n) (nh_to h) (nh_resource h)) (\<lambda>destination.
        Inr (validation h (hn_generation n) ValidationIdempotent ''IDEMPOTENT'' source destination [] [''retain-handoff-result'']))))"

definition validate_claim_transfer ::
  "filesystem \<Rightarrow> handoff_snapshot \<Rightarrow> normalized_handoff \<Rightarrow> handoff_session \<Rightarrow> handoff_session \<Rightarrow>
   retention_failure + handoff_validation" where
  "validate_claim_transfer fs n h source destination =
     (let resource = nh_resource h;
          blocked = (\<lambda>b s d actions. Inr (validation h (hn_generation n) ValidationBlocked (hb_code b) s d [b] actions)) in
      bind_sum (find_claim (hn_claims n) (nh_from h) resource) (\<lambda>found.
      case found of
        None \<Rightarrow>
          bind_sum (find_claim (hn_claims n) (nh_to h) resource) (\<lambda>d.
          blocked (blocker ''MISSING_RESOURCE_CLAIM'' resource None None) None d [''refresh-resource-claims'', ''retain-source-claim''])
      | Some source_claim \<Rightarrow>
      if rc_repository_id source_claim \<noteq> hn_repository_id n \<or> rc_worktree_path source_claim \<noteq> hs_worktree_path source
      then blocked (blocker ''WORKTREE_MISMATCH'' resource None None) (Some source_claim) None
        [''refresh-session-identity'', ''retain-source-claim'']
      else
      bind_sum (find_claim (hn_claims n) (nh_to h) resource) (\<lambda>d.
      bind_sum (filter_sum (\<lambda>c. if rc_session_id c = nh_to h then of_registry (claims_overlap fs c source_claim) else Inr False)
        (hn_claims n)) (\<lambda>overlapping.
      case overlapping of
        conflict # _ \<Rightarrow>
          blocked (blocker ''RESOURCE_CLAIM_CONFLICT'' resource (Some (rc_session_id conflict)) (Some (rc_claim_id conflict)))
            (Some source_claim) d [''release-destination-claim'', ''retain-source-claim'']
      | [] \<Rightarrow>
      bind_sum (validate_destination_scope fs destination resource (nh_mode h)) (\<lambda>scope_blocker.
      case scope_blocker of
        Some b \<Rightarrow> blocked b (Some source_claim) None [''request-scope-expansion'', ''retain-source-claim'']
      | None \<Rightarrow> Inr (validation h (hn_generation n) ValidationAllowed ''ALLOWED'' (Some source_claim) None []
          [''fence-source-execution'', ''commit-resource-handoff'']))))))"

definition validate_sessions ::
  "filesystem \<Rightarrow> handoff_snapshot \<Rightarrow> normalized_handoff \<Rightarrow> retention_failure + handoff_validation" where
  "validate_sessions fs n h =
     (let blocked = (\<lambda>b actions. Inr (validation h (hn_generation n) ValidationBlocked (hb_code b) None None [b] actions)) in
      if nh_generation h \<noteq> hn_generation n
      then blocked (blocker ''STALE_CLAIM_SET'' (nh_resource h) None None) [''refresh-resource-claims'']
      else
      case (find_handoff_session (nh_from h) (hn_sessions n), find_handoff_session (nh_to h) (hn_sessions n)) of
        (Some source, Some destination) \<Rightarrow>
          (case validate_session_identities n source destination (nh_resource h) of
             Some b \<Rightarrow> blocked b [''refresh-session-identity'']
           | None \<Rightarrow>
               if hs_state source \<noteq> ''active'' \<or> hs_state destination \<noteq> ''active''
               then blocked (blocker ''SESSION_NOT_ACTIVE'' (nh_resource h) None None) [''inspect-sessions'', ''retain-source-claim'']
               else validate_claim_transfer fs n h source destination)
      | _ \<Rightarrow> blocked (blocker ''SESSION_NOT_FOUND'' (nh_resource h) None None) [''inspect-sessions''])"

definition validate_resource_handoff ::
  "(string \<Rightarrow> string) \<Rightarrow> filesystem \<Rightarrow> handoff_snapshot \<Rightarrow> handoff_options option \<Rightarrow> retention_failure + handoff_validation" where
  "validate_resource_handoff sha fs n options =
     bind_sum (normalize_handoff_options sha options) (\<lambda>h.
     bind_sum (assert_handoff_snapshot sha n) (\<lambda>_.
     case find (\<lambda>r. hr_operation_id r = nh_operation_id h) (hn_completed n) of
       Some completed \<Rightarrow> validate_completed n h completed
     | None \<Rightarrow> validate_sessions fs n h))"

section \<open>Results\<close>

definition result_from_validation :: "handoff_validation \<Rightarrow> int \<Rightarrow> bool \<Rightarrow> int option \<Rightarrow> handoff_result" where
  "result_from_validation v generation idempotent epoch =
     \<lparr>ht_status = (case va_status v of
          ValidationIdempotent \<Rightarrow> HandoffIdempotent | ValidationAllowed \<Rightarrow> HandoffTransferred
        | ValidationBlocked \<Rightarrow> HandoffBlocked | ValidationUnresolved \<Rightarrow> HandoffUnresolved),
      ht_code = va_code v, ht_idempotent = idempotent, ht_request = va_request v, ht_previous_generation = generation,
      ht_generation = generation, ht_source_claim = va_source_claim v, ht_destination_claim = va_destination_claim v,
      ht_blockers = va_blockers v, ht_source_retained = va_source_retained v, ht_fence_epoch = epoch,
      ht_safe_actions = va_safe_actions v\<rparr>"

definition blocked_result ::
  "normalized_handoff \<Rightarrow> int \<Rightarrow> string \<Rightarrow> int option \<Rightarrow> resource_claim option \<Rightarrow> handoff_result" where
  "blocked_result h generation code epoch source =
     \<lparr>ht_status = HandoffBlocked, ht_code = code, ht_idempotent = False, ht_request = h, ht_previous_generation = generation,
      ht_generation = generation, ht_source_claim = source, ht_destination_claim = None,
      ht_blockers = [blocker code (nh_resource h) (Some (nh_from h)) None], ht_source_retained = True, ht_fence_epoch = epoch,
      ht_safe_actions = [''retain-source-claim'', ''refresh-resource-handoff'']\<rparr>"

definition unresolved_result ::
  "normalized_handoff \<Rightarrow> int \<Rightarrow> string \<Rightarrow> int option \<Rightarrow> resource_claim option \<Rightarrow> handoff_result" where
  "unresolved_result h generation code epoch source = (blocked_result h generation code epoch source)
     \<lparr>ht_status := HandoffUnresolved, ht_safe_actions := [''retain-source-claim'', ''refresh-execution-evidence'']\<rparr>"

definition is_fence_for :: "handoff_fence \<Rightarrow> normalized_handoff \<Rightarrow> bool" where
  "is_fence_for f h \<longleftrightarrow>
     hf_schema_version f = RESOURCE_HANDOFF_SCHEMA_VERSION \<and> hf_session_id f = nh_from h \<and>
     hf_operation_id f = nh_operation_id h \<and> is_safe_integer (hf_epoch f) \<and> 0 \<le> hf_epoch f \<and> \<not> hf_accepting f \<and>
     hf_status f = ''fenced''"

definition is_quiescence_for :: "handoff_fence \<Rightarrow> handoff_quiescence \<Rightarrow> bool" where
  "is_quiescence_for f q \<longleftrightarrow>
     hq_session_id q = hf_session_id f \<and> hq_operation_id q = hf_operation_id f \<and> hq_epoch q = hf_epoch f \<and>
     hq_status q \<in> set [''quiescent'', ''active'', ''unknown'']"

definition is_canonical_commit_destination_claim ::
  "(string \<Rightarrow> string) \<Rightarrow> resource_claim option \<Rightarrow> normalized_handoff \<Rightarrow> handoff_snapshot \<Rightarrow> bool" where
  "is_canonical_commit_destination_claim sha claim h n \<longleftrightarrow>
     (case (find_handoff_session (nh_to h) (hn_sessions n), claim) of
        (Some owner, Some c) \<Rightarrow> is_canonical_resource_claim sha c (hn_repository_id n) owner \<and>
          rc_session_id c = nh_to h \<and> rc_resource c = nh_resource h \<and> rc_mode c = nh_mode h
      | _ \<Rightarrow> False)"

definition assert_commit_result ::
  "(string \<Rightarrow> string) \<Rightarrow> handoff_commit_result \<Rightarrow> normalized_handoff \<Rightarrow> int \<Rightarrow> handoff_snapshot \<Rightarrow> retention_failure + unit" where
  "assert_commit_result sha r h initial_generation n =
     require (hc_status r \<in> set [HandoffTransferred, HandoffIdempotent] \<and> hc_operation_id r = nh_operation_id h \<and>
       is_safe_integer (hc_generation r) \<and> nh_generation h \<le> hc_generation r \<and>
       \<not> (hc_status r = HandoffTransferred \<and>
          (hc_source_claim r \<noteq> None \<or> \<not> is_canonical_commit_destination_claim sha (hc_destination_claim r) h n)) \<and>
       \<not> (hc_status r = HandoffTransferred \<and> hc_generation r \<noteq> initial_generation + 1))
       (RegistryFailure ''REGISTRY_CORRUPT'')"

section \<open>The handoff\<close>

record 's handoff_ops =
  ha_read :: "('s, handoff_snapshot) call"
  ha_commit :: "handoff_commit_input \<Rightarrow> ('s, handoff_commit_result) call"

record 's handoff_controller =
  hx_fence :: "string \<Rightarrow> string \<Rightarrow> ('s, handoff_fence option) call"
  hx_await :: "handoff_fence \<Rightarrow> ('s, handoff_quiescence option) call"

text \<open>\<open>try { x = m } catch (error) { return handler(error) }\<close>, and what follows on \<open>x\<close>\<close>

definition try_call :: "('s, 'a) call \<Rightarrow> (retention_failure \<Rightarrow> ('s, 'b) call) \<Rightarrow> ('a \<Rightarrow> ('s, 'b) call) \<Rightarrow> ('s, 'b) call" where
  "try_call m handler k s = (case m s of (Inl e, s') \<Rightarrow> handler e s' | (Inr a, s') \<Rightarrow> k a s')"

definition commit_failure ::
  "normalized_handoff \<Rightarrow> int \<Rightarrow> int \<Rightarrow> resource_claim option \<Rightarrow> retention_failure \<Rightarrow> handoff_result" where
  "commit_failure h generation epoch source e =
     (let reported = (\<lambda>code. e = RegistryFailure code) in
      if reported ''REGISTRY_DURABILITY_UNCERTAIN''
      then unresolved_result h generation ''REGISTRY_DURABILITY_UNCERTAIN'' (Some epoch) source
      else if reported ''STALE_CLAIM_SET'' then blocked_result h generation ''STALE_CLAIM_SET'' (Some epoch) source
      else if reported ''RESOURCE_CLAIM_CONFLICT''
      then blocked_result h generation ''RESOURCE_CLAIM_CONFLICT'' (Some epoch) source
      else if reported ''OPERATION_REJECTED'' then blocked_result h generation ''OPERATION_REJECTED'' (Some epoch) source
      else unresolved_result h generation ''PHYSICAL_OBSERVATION_UNAVAILABLE'' (Some epoch) source)"

definition committed_result :: "normalized_handoff \<Rightarrow> int \<Rightarrow> int \<Rightarrow> handoff_commit_result \<Rightarrow> handoff_result" where
  "committed_result h initial_generation epoch r =
     (let idempotent = (hc_status r = HandoffIdempotent) in
      \<lparr>ht_status = hc_status r, ht_code = (if idempotent then ''IDEMPOTENT'' else ''ALLOWED''), ht_idempotent = idempotent,
       ht_request = h, ht_previous_generation = initial_generation, ht_generation = hc_generation r,
       ht_source_claim = hc_source_claim r, ht_destination_claim = hc_destination_claim r, ht_blockers = [],
       ht_source_retained = (idempotent \<and> hc_source_claim r \<noteq> None), ht_fence_epoch = Some epoch,
       ht_safe_actions = [''record-handoff-result'']\<rparr>)"

text \<open>From the drained executions on: the second snapshot, its validation and the commit\<close>

definition commit_handoff ::
  "(string \<Rightarrow> string) \<Rightarrow> filesystem \<Rightarrow> 's handoff_ops \<Rightarrow> handoff_options option \<Rightarrow> normalized_handoff \<Rightarrow> int \<Rightarrow>
   handoff_fence \<Rightarrow> handoff_quiescence \<Rightarrow> ('s, handoff_result) call" where
  "commit_handoff sha fs authority options h initial_generation f q =
     (let epoch = hf_epoch f; return = (\<lambda>r. pure_call (Inr r)) in
      bind_call (ha_read authority) (\<lambda>current.
      bind_call (pure_call (validate_resource_handoff sha fs current options)) (\<lambda>v.
      if hn_generation current \<noteq> initial_generation
      then return (blocked_result h (hn_generation current) ''STALE_CLAIM_SET'' (Some epoch) (va_source_claim v))
      else if va_status v = ValidationIdempotent
      then return (result_from_validation v (hn_generation current) True (Some epoch))
      else if va_status v \<noteq> ValidationAllowed
      then return (result_from_validation v (hn_generation current) False (Some epoch))
      else
      try_call (ha_commit authority
          \<lparr>hi_options = options, hi_normalized = h, hi_snapshot = current, hi_fence = f, hi_quiescence = q\<rparr>)
        (\<lambda>e. return (commit_failure h (hn_generation current) epoch (va_source_claim v) e))
        (\<lambda>r. return (if is_ok (assert_commit_result sha r h initial_generation current)
           then committed_result h initial_generation epoch r
           else unresolved_result h (hn_generation current) ''REGISTRY_CORRUPT'' (Some epoch) (va_source_claim v))))))"

text \<open>The fence and the drain, which no lock is held for\<close>

definition drain_handoff ::
  "(string \<Rightarrow> string) \<Rightarrow> filesystem \<Rightarrow> 's handoff_ops \<Rightarrow> 's handoff_controller \<Rightarrow> handoff_options option \<Rightarrow>
   normalized_handoff \<Rightarrow> int \<Rightarrow> resource_claim option \<Rightarrow> ('s, handoff_result) call" where
  "drain_handoff sha fs authority execution options h generation source =
     (let return = (\<lambda>r. pure_call (Inr r));
          unavailable = (\<lambda>epoch. return (unresolved_result h generation ''PHYSICAL_OBSERVATION_UNAVAILABLE'' epoch source)) in
      try_call (hx_fence execution (nh_from h) (nh_operation_id h)) (\<lambda>_. unavailable None) (\<lambda>candidate.
      case candidate of None \<Rightarrow> unavailable None | Some f \<Rightarrow>
      if \<not> is_fence_for f h then unavailable None
      else
      try_call (hx_await execution f) (\<lambda>_. unavailable (Some (hf_epoch f))) (\<lambda>evidence.
      case evidence of None \<Rightarrow> unavailable (Some (hf_epoch f)) | Some q \<Rightarrow>
      if \<not> is_quiescence_for f q then unavailable (Some (hf_epoch f))
      else if hq_status q = ''active''
      then return (blocked_result h generation ''OPERATION_REJECTED'' (Some (hf_epoch f)) source)
      else if hq_status q = ''unknown'' \<or> hq_active q \<noteq> [] \<or> hq_unknown q \<noteq> [] then unavailable (Some (hf_epoch f))
      else commit_handoff sha fs authority options h generation f q)))"

definition handoff_resources ::
  "(string \<Rightarrow> string) \<Rightarrow> filesystem \<Rightarrow> 's handoff_ops \<Rightarrow> 's handoff_controller \<Rightarrow> handoff_options option \<Rightarrow>
   ('s, handoff_result) call" where
  "handoff_resources sha fs authority execution options =
     bind_call (pure_call (normalize_handoff_options sha options)) (\<lambda>h.
     bind_call (ha_read authority) (\<lambda>initial.
     bind_call (pure_call (validate_resource_handoff sha fs initial options)) (\<lambda>v.
     if va_status v = ValidationIdempotent then pure_call (Inr (result_from_validation v (va_generation v) True None))
     else if va_status v \<noteq> ValidationAllowed then pure_call (Inr (result_from_validation v (va_generation v) False None))
     else drain_handoff sha fs authority execution options h (hn_generation initial) (va_source_claim v))))"

section \<open>What an allowed handoff has established\<close>

text \<open>
  The conditions, stated on the snapshot: the operation is new and its generation current; both sessions are active, in
  one repository and in different worktrees; the source owns the resource by exactly one claim, the destination has none
  that overlaps it, and the scope established for the destination permits the mode and does not deny the resource.
\<close>

definition handoff_scope_grants :: "filesystem \<Rightarrow> work_scope \<Rightarrow> string \<Rightarrow> claim_mode \<Rightarrow> bool" where
  "handoff_scope_grants fs scope resource mode \<longleftrightarrow>
     (\<forall>s \<in> set (ws_deny scope). resource_matches_claim fs s None resource = Inr False) \<and>
     (\<exists>s \<in> set (if mode = Read then ws_read_only scope else ws_write scope). resource_matches_claim fs s None resource = Inr True)"

definition handoff_justified ::
  "filesystem \<Rightarrow> handoff_snapshot \<Rightarrow> normalized_handoff \<Rightarrow> resource_claim \<Rightarrow> bool" where
  "handoff_justified fs n h claim \<longleftrightarrow>
     nh_from h \<noteq> nh_to h \<and> nh_generation h = hn_generation n \<and>
     nh_operation_id h \<notin> set (map hr_operation_id (hn_completed n)) \<and>
     filter (\<lambda>c. rc_session_id c = nh_from h \<and> rc_resource c = nh_resource h) (hn_claims n) = [claim] \<and>
     (\<forall>c \<in> set (hn_claims n). rc_session_id c = nh_to h \<longrightarrow> claims_overlap fs c claim = Inr False) \<and>
     (\<exists>source destination scope.
        find_handoff_session (nh_from h) (hn_sessions n) = Some source \<and>
        find_handoff_session (nh_to h) (hn_sessions n) = Some destination \<and>
        hs_state source = ''active'' \<and> hs_state destination = ''active'' \<and>
        hs_repository_id source = hn_repository_id n \<and> hs_repository_id destination = hn_repository_id n \<and>
        rc_repository_id claim = hn_repository_id n \<and> rc_worktree_path claim = hs_worktree_path source \<and>
        hs_worktree_path source \<noteq> hs_worktree_path destination \<and>
        hs_max_scope destination = Some scope \<and> handoff_scope_grants fs scope (nh_resource h) (nh_mode h))"

lemma exists_sum_False_iff: "exists_sum p xs = Inr False \<longleftrightarrow> (\<forall>x \<in> set xs. p x = Inr False)"
  by (induction xs) (auto simp: sum_simps split: if_splits)

lemma find_claim_Some:
  "find_claim claims i r = Inr (Some c) \<longleftrightarrow> filter (\<lambda>c. rc_session_id c = i \<and> rc_resource c = r) claims = [c]"
  by (auto simp: find_claim_def split: list.splits)

lemma of_registry_Inr [simp]: "of_registry r = Inr a \<longleftrightarrow> r = Inr a"
  by (simp add: of_registry_def split: sum.split)

lemma scope_unblocked:
  "validate_destination_scope fs d resource mode = Inr None \<Longrightarrow>
   \<exists>scope. hs_max_scope d = Some scope \<and> handoff_scope_grants fs scope resource mode"
  by (auto simp: validate_destination_scope_def handoff_scope_grants_def scope_selector_matches_def sum_simps exists_sum_False_iff
      split: option.splits if_splits dest!: exists_sum_True)

lemma no_overlap:
  "filter_sum p xs = Inr [] \<Longrightarrow> x \<in> set xs \<Longrightarrow> p x = Inr False"
  by (induction xs) (auto simp: bind_sum_eq_Inr split: sum.splits if_splits)

lemma destination_free:
  assumes "filter_sum (\<lambda>c. if rc_session_id c = i then of_registry (f c) else Inr False) cs = Inr []"
  shows "\<forall>c \<in> set cs. rc_session_id c = i \<longrightarrow> f c = Inr False"
  using no_overlap [OF assms] by fastforce

lemma validation_simps [simp]:
  "va_status (validation h g st code c d bs acts) = st" "va_request (validation h g st code c d bs acts) = h"
  "va_source_claim (validation h g st code c d bs acts) = c" "va_source_retained (validation h g st code c d bs acts) = True"
  "va_code (validation h g st code c d bs acts) = code" "va_destination_claim (validation h g st code c d bs acts) = d"
  by (simp_all add: validation_def)

lemma transfer_allowed:
  assumes "validate_claim_transfer fs n h source destination = Inr v" "va_status v = ValidationAllowed"
  shows "va_request v = h \<and> (\<exists>claim scope. va_source_claim v = Some claim \<and>
     filter (\<lambda>c. rc_session_id c = nh_from h \<and> rc_resource c = nh_resource h) (hn_claims n) = [claim] \<and>
     (\<forall>c \<in> set (hn_claims n). rc_session_id c = nh_to h \<longrightarrow> claims_overlap fs c claim = Inr False) \<and>
     rc_repository_id claim = hn_repository_id n \<and> rc_worktree_path claim = hs_worktree_path source \<and>
     hs_max_scope destination = Some scope \<and> handoff_scope_grants fs scope (nh_resource h) (nh_mode h))"
  using assms
  by (auto simp: validate_claim_transfer_def Let_def find_claim_Some elim!: bind_sumE
      split: option.split_asm if_split_asm list.split_asm dest!: scope_unblocked destination_free)

lemma sessions_allowed:
  assumes "validate_sessions fs n h = Inr v" "va_status v = ValidationAllowed"
  shows "nh_generation h = hn_generation n \<and> (\<exists>source destination.
     find_handoff_session (nh_from h) (hn_sessions n) = Some source \<and>
     find_handoff_session (nh_to h) (hn_sessions n) = Some destination \<and>
     hs_state source = ''active'' \<and> hs_state destination = ''active'' \<and>
     hs_repository_id source = hn_repository_id n \<and> hs_repository_id destination = hn_repository_id n \<and>
     hs_worktree_path source \<noteq> hs_worktree_path destination \<and>
     validate_claim_transfer fs n h source destination = Inr v)"
  using assms
  by (auto simp: validate_sessions_def Let_def validate_session_identities_def split: option.splits if_splits)

lemma validation_allowed:
  assumes "validate_resource_handoff sha fs n options = Inr v" "va_status v = ValidationAllowed"
  obtains claim where "normalize_handoff_options sha options = Inr (va_request v)" "assert_handoff_snapshot sha n = Inr ()"
    "va_source_claim v = Some claim" "handoff_justified fs n (va_request v) claim"
proof -
  obtain h where h: "normalize_handoff_options sha options = Inr h" "assert_handoff_snapshot sha n = Inr ()"
    and branch: "(case find (\<lambda>r. hr_operation_id r = nh_operation_id h) (hn_completed n) of
        Some completed \<Rightarrow> validate_completed n h completed | None \<Rightarrow> validate_sessions fs n h) = Inr v"
    using assms(1) by (auto simp: validate_resource_handoff_def sum_simps)
  have new: "find (\<lambda>r. hr_operation_id r = nh_operation_id h) (hn_completed n) = None"
    using branch assms(2) by (auto simp: validate_completed_def sum_simps split: option.splits if_splits)
  then have v: "validate_sessions fs n h = Inr v" using branch by simp
  have "nh_from h \<noteq> nh_to h"
    using h(1) by (auto simp: normalize_handoff_options_def sum_simps Let_def split: option.splits)
  with sessions_allowed [OF v assms(2)] transfer_allowed [OF _ assms(2)] h new that show ?thesis
    by (fastforce simp: handoff_justified_def find_None_iff)
qed

section \<open>The authority\<close>

text \<open>The receipt a commit leaves, and what it does to the snapshot: one claim changes hands, the generation advances.\<close>

definition receipt_of :: "normalized_handoff \<Rightarrow> int \<Rightarrow> handoff_receipt" where
  "receipt_of h generation =
     \<lparr>hr_operation_id = nh_operation_id h, hr_from_session_id = nh_from h, hr_to_session_id = nh_to h,
      hr_resource = nh_resource h, hr_mode = nh_mode h, hr_generation = generation\<rparr>"

definition handoff_moves ::
  "(string \<Rightarrow> string) \<Rightarrow> filesystem \<Rightarrow> handoff_commit_input \<Rightarrow> handoff_snapshot \<Rightarrow> handoff_snapshot \<Rightarrow> bool" where
  "handoff_moves sha fs i n n' \<longleftrightarrow>
     hn_generation n = hn_generation (hi_snapshot i) \<and> hn_generation n' = hn_generation n + 1 \<and> hn_sessions n' = hn_sessions n \<and>
     set (hn_completed n') = insert (receipt_of (hi_normalized i) (hn_generation n')) (set (hn_completed n)) \<and>
     (\<exists>v source destination.
        validate_resource_handoff sha fs n (hi_options i) = Inr v \<and> va_status v = ValidationAllowed \<and>
        va_source_claim v = Some source \<and> rc_session_id destination = nh_to (hi_normalized i) \<and>
        rc_resource destination = nh_resource (hi_normalized i) \<and> rc_mode destination = nh_mode (hi_normalized i) \<and>
        mset (hn_claims n') + {#source#} = mset (hn_claims n) + {#destination#})"

definition handoff_drained :: "'s handoff_controller \<Rightarrow> normalized_handoff \<Rightarrow> 's \<Rightarrow> 's \<Rightarrow> bool" where
  "handoff_drained execution h s s' \<longleftrightarrow>
     (\<exists>f q s1. hx_fence execution (nh_from h) (nh_operation_id h) s = (Inr (Some f), s1) \<and> is_fence_for f h \<and>
        hx_await execution f s1 = (Inr (Some q), s') \<and> is_quiescence_for f q \<and> hq_status q = ''quiescent'' \<and>
        hq_active q = [] \<and> hq_unknown q = [])"

lemma bind_call_cases:
  "bind_call m f s = (r, s') \<longleftrightarrow>
     (\<exists>e. m s = (Inl e, s') \<and> r = Inl e) \<or> (\<exists>a s1. m s = (Inr a, s1) \<and> f a s1 = (r, s'))"
  by (auto simp: bind_call_def split: prod.splits sum.splits)

lemma try_call_cases:
  "try_call m handler k s = (r, s') \<longleftrightarrow>
     (\<exists>e s1. m s = (Inl e, s1) \<and> handler e s1 = (r, s')) \<or> (\<exists>a s1. m s = (Inr a, s1) \<and> k a s1 = (r, s'))"
  by (auto simp: try_call_def split: prod.splits sum.splits)

lemma bind_callE:
  assumes "bind_call m f s = (Inr b, s')"
  obtains a s1 where "m s = (Inr a, s1)" "f a s1 = (Inr b, s')"
  using assms by (auto simp: bind_call_cases)

lemma try_callE:
  assumes "try_call m handler k s = (r, s')"
  obtains e s1 where "m s = (Inl e, s1)" "handler e s1 = (r, s')" | a s1 where "m s = (Inr a, s1)" "k a s1 = (r, s')"
  using assms by (auto simp: try_call_cases)

lemma result_status [simp]:
  "ht_status (blocked_result h g c e s) = HandoffBlocked" "ht_status (unresolved_result h g c e s) = HandoffUnresolved"
  "ht_status (committed_result h g e' r) = hc_status r" "ht_status (commit_failure h g e' s failure) \<noteq> HandoffTransferred"
  "ht_status (commit_failure h g e' s failure) \<noteq> HandoffIdempotent"
  "ht_status (result_from_validation v g b e) = HandoffTransferred \<longleftrightarrow> va_status v = ValidationAllowed"
  "ht_status (result_from_validation v g b e) = HandoffIdempotent \<longleftrightarrow> va_status v = ValidationIdempotent"
  by (simp_all add: blocked_result_def unresolved_result_def committed_result_def commit_failure_def Let_def
      result_from_validation_def split: validation_status.split)

lemma justified_owned:
  assumes "handoff_justified fs n h c"
  shows "c \<in> set (hn_claims n)" "rc_session_id c = nh_from h" "rc_resource c = nh_resource h"
proof -
  have "c \<in> set (filter (\<lambda>c. rc_session_id c = nh_from h \<and> rc_resource c = nh_resource h) (hn_claims n))"
    using assms by (simp add: handoff_justified_def)
  then show "c \<in> set (hn_claims n)" "rc_session_id c = nh_from h" "rc_resource c = nh_resource h" by simp_all
qed

text \<open>What a call that returns has done\<close>

lemma handoff_answered:
  assumes "handoff_resources sha fs authority execution options s = (Inr r, s')"
  shows "\<exists>h n s0 v. normalize_handoff_options sha options = Inr h \<and> ha_read authority s = (Inr n, s0) \<and>
    validate_resource_handoff sha fs n options = Inr v \<and>
    (va_status v = ValidationAllowed \<and>
       drain_handoff sha fs authority execution options h (hn_generation n) (va_source_claim v) s0 = (Inr r, s') \<or>
     va_status v \<noteq> ValidationAllowed \<and>
       r = result_from_validation v (va_generation v) (va_status v = ValidationIdempotent) None \<and> s' = s0)"
  using assms by (auto simp: handoff_resources_def pure_call_def elim!: bind_callE split: if_split_asm)

locale handoff_authority =
  fixes sha :: "string \<Rightarrow> string" and fs :: filesystem and authority :: "'s handoff_ops"
    and snapshot_of :: "'s \<Rightarrow> handoff_snapshot"
  assumes read_law: "ha_read authority s = (x, s') \<Longrightarrow>
      snapshot_of s' = snapshot_of s \<and> (\<forall>n. x = Inr n \<longrightarrow> n = snapshot_of s)"
    and commit_law: "ha_commit authority i s = (Inr r, s') \<Longrightarrow>
      (if hc_status r = HandoffTransferred then handoff_moves sha fs i (snapshot_of s) (snapshot_of s')
       else snapshot_of s' = snapshot_of s)"
    and commit_outcome: "ha_commit authority i s = (y, s') \<Longrightarrow>
      snapshot_of s' = snapshot_of s \<or> handoff_moves sha fs i (snapshot_of s) (snapshot_of s')"
begin

text \<open>A commit is asked for once, on the current snapshot, which the client has validated.\<close>

lemma commit_transfers:
  assumes "commit_handoff sha fs authority options h g f q s = (Inr r, s')" "ht_status r = HandoffTransferred"
  shows "\<exists>s1 i. ha_read authority s = (Inr (snapshot_of s), s1) \<and> hn_generation (snapshot_of s1) = g \<and>
    hi_options i = options \<and> hi_normalized i = h \<and> handoff_moves sha fs i (snapshot_of s1) (snapshot_of s') \<and>
    ht_generation r = g + 1 \<and> ht_previous_generation r = g \<and> ht_source_claim r = None \<and> \<not> ht_source_retained r"
proof -
  from assms obtain n s1 c where
    read: "ha_read authority s = (Inr n, s1)" and g: "hn_generation n = g"
    and commit: "ha_commit authority
      \<lparr>hi_options = options, hi_normalized = h, hi_snapshot = n, hi_fence = f, hi_quiescence = q\<rparr> s1 = (Inr c, s')"
    and c: "assert_commit_result sha c h g n = Inr ()" "r = committed_result h g (hf_epoch f) c"
    by (auto simp: commit_handoff_def pure_call_def Let_def is_ok_iff elim!: bind_callE try_callE split: if_split_asm)
  have "hc_status c = HandoffTransferred" using assms(2) c(2) by simp
  with commit_law [OF commit] c(1) have "handoff_moves sha fs \<lparr>hi_options = options, hi_normalized = h, hi_snapshot = n, hi_fence = f, hi_quiescence = q\<rparr>
      (snapshot_of s1) (snapshot_of s')" "hc_generation c = g + 1" "hc_source_claim c = None"
    by (auto simp: assert_commit_result_def require_eq_Inr)
  with read g c(2) read_law [OF read] show ?thesis
    by (intro exI [where x = s1] exI [where x = "\<lparr>hi_options = options, hi_normalized = h, hi_snapshot = n, hi_fence = f, hi_quiescence = q\<rparr>"])
      (auto simp: committed_result_def Let_def)
qed

lemma transfer_follows_drain:
  assumes "handoff_resources sha fs authority execution options s = (Inr r, s')" "ht_status r = HandoffTransferred"
  shows "\<exists>h s0 s2 s3 i. normalize_handoff_options sha options = Inr h \<and>
    ha_read authority s = (Inr (snapshot_of s), s0) \<and> handoff_drained execution h s0 s2 \<and>
    ha_read authority s2 = (Inr (snapshot_of s2), s3) \<and> hn_generation (snapshot_of s3) = hn_generation (snapshot_of s) \<and>
    hi_options i = options \<and> hi_normalized i = h \<and> handoff_moves sha fs i (snapshot_of s3) (snapshot_of s') \<and>
    ht_generation r = hn_generation (snapshot_of s) + 1 \<and> ht_source_claim r = None \<and> \<not> ht_source_retained r"
proof -
  from assms obtain h n s0 s1 s2 f q where
    h: "normalize_handoff_options sha options = Inr h" and initial: "ha_read authority s = (Inr n, s0)"
    and f: "hx_fence execution (nh_from h) (nh_operation_id h) s0 = (Inr (Some f), s1)" "is_fence_for f h"
    and q: "hx_await execution f s1 = (Inr (Some q), s2)" "is_quiescence_for f q"
    and idle: "hq_status q \<noteq> ''active''" "hq_status q \<noteq> ''unknown''" "hq_active q = []" "hq_unknown q = []"
    and commit: "commit_handoff sha fs authority options h (hn_generation n) f q s2 = (Inr r, s')"
    by (auto simp: handoff_resources_def drain_handoff_def pure_call_def Let_def elim!: bind_callE try_callE split: if_split_asm option.split_asm)
  have read: "n = snapshot_of s" using read_law [OF initial] by simp
  have "handoff_drained execution h s0 s2"
    using f q idle by (auto simp: handoff_drained_def is_quiescence_for_def)
  with commit_transfers [OF commit assms(2)] h initial show ?thesis unfolding read by blast
qed

end

end
