(* ===== verification/RegistryState.thy ===== *)
theory RegistryState
  imports ProcessStat CoordinationTransactions ResourceHandoff
begin

text \<open>
  The registry document of src/src/session-registry.ts, what a reader of it checks (parseRegistry and the validators it
  calls, on values whose JSON shape is right), and the replacement of the whole document by a write (writeUnsafe and
  RepositoryStateBoundary of src/src/registry/repository-state-boundary.ts). Every operation of the registry reads the
  document under the lock, decides, and commits a complete new document that is validated as a reader would.

  What the registry observes outside itself is a record of functions of a counter that advances with each observation:
  the lock, the clock, fresh identifiers, Git's identity of a worktree, the processes of an execution, the outcome of
  the file replacement, the parser of pinned profiles. Schema versions, the legacy claim schema, the list of required
  features, file operations (theory FileOperationExecution) and the texts of errors are not kept.
\<close>

section \<open>The document\<close>

datatype session_state = SessNew | SessActive | SessClosing | SessClosed | SessStale | SessParked

fun session_state_name :: "session_state \<Rightarrow> string" where
  "session_state_name SessNew = ''new''"
| "session_state_name SessActive = ''active''"
| "session_state_name SessClosing = ''closing''"
| "session_state_name SessClosed = ''closed''"
| "session_state_name SessStale = ''stale''"
| "session_state_name SessParked = ''parked''"

definition ACTIVE_STATES :: "session_state list" where
  "ACTIVE_STATES = [SessNew, SessActive, SessClosing, SessStale, SessParked]"

definition CURRENT_SESSION_STATES :: "session_state list" where
  "CURRENT_SESSION_STATES = [SessNew, SessActive, SessClosing, SessParked]"

record registry_session =
  rg_session_id :: string
  rg_repository_id :: string
  rg_worktree_id :: string
  rg_worktree_path :: string
  rg_branch_id :: string
  rg_branch_name :: string
  rg_state :: session_state
  rg_created_at :: string
  rg_updated_at :: string
  rg_base_revision :: "string option"
  rg_working_set :: "effective_working_set option"

record session_admission =
  ad_session_id :: string
  ad_open :: bool
  ad_epoch :: int

record execution_entry =
  xn_session_id :: string
  xn_execution_id :: string
  xn_state :: string

record park_intent =
  pk_operation_id :: string
  pk_session_id :: string
  pk_admission_epoch :: int
  pk_expected_generation :: int
  pk_created_at :: string
  pk_updated_at :: string

record pin_entry =
  pe_session_id :: "string option"
  pe_value :: json

record history_event =
  hv_kind :: string
  hv_session_id :: string
  hv_execution_id :: "string option"
  hv_operation :: string
  hv_before_revision :: int
  hv_after_revision :: int
  hv_observed_at :: string

datatype recent_event = HandoffEvent handoff_receipt | HistoryEvent int history_event

record registry_doc =
  rd_sessions :: "registry_session list"
  rd_claims :: "resource_claim list"
  rd_generation :: int
  rd_revision :: int
  rd_epoch :: int
  rd_pins :: "pin_entry list"
  rd_admissions :: "session_admission list"
  rd_executions :: "execution_entry list"
  rd_park_intents :: "park_intent list"
  rd_retentions :: "retention_record list"
  rd_events :: "recent_event list"

definition MAX_RUNTIME_RECORDS :: nat where "MAX_RUNTIME_RECORDS = 256"

section \<open>What the registry observes\<close>

datatype write_outcome = WriteDurable | WriteFailed | RenameUnproven

record pinned_profile =
  pn_identity :: json
  pn_repository_id :: string
  pn_base_revision :: string
  pn_filesystem :: filesystem_scope

record registry_env =
  re_repository_id :: string
  re_worktree_path :: string
  re_fs :: filesystem
  re_sha :: "string \<Rightarrow> string"
  re_lock :: "nat \<Rightarrow> string option"
  re_unlock :: "nat \<Rightarrow> string option"
  re_clock :: "nat \<Rightarrow> string"
  re_uuid :: "nat \<Rightarrow> string"
  re_write :: "nat \<Rightarrow> write_outcome"
  re_physical :: "nat \<Rightarrow> string \<Rightarrow> string \<Rightarrow> string + physical_identity"
  re_cgroup_root :: bool
  re_boot_known :: "nat \<Rightarrow> bool"
  re_tree_empty :: "nat \<Rightarrow> string \<Rightarrow> bool"
  re_execution_empty :: "nat \<Rightarrow> string \<Rightarrow> bool"
  re_parse_pin :: "json \<Rightarrow> pinned_profile option"

record fence_lease =
  fl_operation_id :: string
  fl_token :: string
  fl_admission_epoch :: int
  fl_expected_generation :: int

record validation_lease =
  vl_operation_id :: string
  vl_token :: string
  vl_request_digest :: string
  vl_revision :: int
  vl_generation :: int

text \<open>The document on disk, the leases one \<open>SessionRegistry\<close> holds in memory, and the number of observations made\<close>

record registry_world =
  rw_doc :: registry_doc
  rw_fences :: "(string \<times> fence_lease) list"
  rw_validations :: "(string \<times> validation_lease) list"
  rw_tick :: nat

type_synonym 'a registry_call = "(registry_world, 'a) call"

abbreviation registry_error_code :: "string \<Rightarrow> retention_failure + 'a" where
  "registry_error_code code \<equiv> Inl (RegistryFailure code)"

definition observing :: "(nat \<Rightarrow> 'a) \<Rightarrow> 'a registry_call" where
  "observing f w = (Inr (f (rw_tick w)), w\<lparr>rw_tick := Suc (rw_tick w)\<rparr>)"

definition for_each_call :: "('a \<Rightarrow> unit registry_call) \<Rightarrow> 'a list \<Rightarrow> unit registry_call" where
  "for_each_call f xs = foldr (\<lambda>x m. bind_call (f x) (\<lambda>_. m)) xs (pure_call (Inr ()))"

text \<open>\<open>try { m } catch (error) { return handler(error) }\<close>\<close>

definition catch_call :: "'a registry_call \<Rightarrow> (retention_failure \<Rightarrow> 'a registry_call) \<Rightarrow> 'a registry_call" where
  "catch_call m handler w = (case m w of (Inl e, w') \<Rightarrow> handler e w' | (Inr a, w') \<Rightarrow> (Inr a, w'))"

section \<open>Validation of a session\<close>

definition hex_unit :: "char \<Rightarrow> bool" where
  "hex_unit c \<longleftrightarrow> c \<in> set ''0123456789abcdef''"

definition is_session_id :: "string \<Rightarrow> bool" where
  "is_session_id s \<longleftrightarrow>
     length s = 36 \<and>
     list_all (\<lambda>(i, c). if i \<in> set [8, 13, 18, 23] then c = CHR ''-'' else hex_unit c) (zip [0..<36] s) \<and>
     s ! 14 = CHR ''7'' \<and> s ! 19 \<in> set ''89ab''"

definition branch_unit :: "char \<Rightarrow> bool" where
  "branch_unit c \<longleftrightarrow> (32 :: nat) < of_char c \<and> c \<notin> set ''~^:?*['' \<and> c \<noteq> CHR 0x5C"

definition normalize_branch_id :: "string \<Rightarrow> string option" where
  "normalize_branch_id name =
     (let normalized = (if prefix ''refs/heads/'' name then name else ''refs/heads/'' @ name);
          short = drop 11 normalized; bad_end = (\<lambda>s. suffix ''.'' s \<or> suffix ''.lock'' s) in
      if (name \<noteq> [] \<and> (white_space (hd name) \<or> white_space (last name))) \<or>
         (prefix ''refs/'' name \<and> \<not> prefix ''refs/heads/'' name) \<or>
         short = [] \<or> prefix ''/'' short \<or> suffix ''/'' short \<or> prefix ''-'' short \<or> contains_text ''..'' short \<or>
         short = ''@'' \<or> suffix ''@'' short \<or> contains_text [CHR ''@'', CHR ''{''] short \<or> bad_end short \<or>
         list_ex (\<lambda>component. prefix ''.'' component \<or> bad_end component) (split_on CHR ''/'' short) \<or>
         contains_text ''//'' short \<or> \<not> list_all branch_unit short
      then None else Some normalized)"

definition is_revision :: "string \<Rightarrow> bool" where
  "is_revision s \<longleftrightarrow> 40 \<le> length s \<and> length s \<le> 64 \<and> list_all hex_unit s"

text \<open>Canonical timestamps have one width, so their order is that of their texts.\<close>

definition validate_session_record :: "string \<Rightarrow> registry_session \<Rightarrow> retention_failure + unit" where
  "validate_session_record repository s =
     (let invalid = RegistryFailure ''INVALID_SESSION_RECORD'' in
      bind_sum (require (is_session_id (rg_session_id s)) (RegistryFailure ''INVALID_SESSION_ID'')) (\<lambda>_.
      bind_sum (require (rg_repository_id s = repository) (RegistryFailure ''REGISTRY_REPOSITORY_MISMATCH'')) (\<lambda>_.
      bind_sum (require (is_absolute_path (rg_repository_id s) \<and> is_absolute_path (rg_worktree_id s) \<and>
        is_absolute_path (rg_worktree_path s)) invalid) (\<lambda>_.
      bind_sum (require (rg_worktree_id s = rg_worktree_path s) invalid) (\<lambda>_.
      case normalize_branch_id (rg_branch_name s) of
        None \<Rightarrow> registry_error_code ''INVALID_BRANCH_ID''
      | Some branch \<Rightarrow>
      bind_sum (require (branch = rg_branch_id s) invalid) (\<lambda>_.
      bind_sum (require (rg_branch_name s = drop 11 (rg_branch_id s)) invalid) (\<lambda>_.
      bind_sum (require (is_timestamp (rg_created_at s) \<and> is_timestamp (rg_updated_at s)) invalid) (\<lambda>_.
      bind_sum (require (rg_created_at s \<le> rg_updated_at s) invalid) (\<lambda>_.
      require (case rg_base_revision s of None \<Rightarrow> True | Some r \<Rightarrow> is_revision r) invalid)))))))))"

fun validate_records ::
  "string \<Rightarrow> string list \<times> string list \<times> string list \<Rightarrow> registry_session list \<Rightarrow> retention_failure + unit" where
  "validate_records repository owners [] = Inr ()"
| "validate_records repository (session_ids, worktrees, branches) (s # ss) =
     bind_sum (validate_session_record repository s) (\<lambda>_.
     bind_sum (require (rg_session_id s \<notin> set session_ids) (RegistryFailure ''DUPLICATE_SESSION_ID'')) (\<lambda>_.
     if rg_state s \<notin> set ACTIVE_STATES
     then validate_records repository (rg_session_id s # session_ids, worktrees, branches) ss
     else
     bind_sum (require (rg_worktree_id s \<notin> set worktrees) (RegistryFailure ''DUPLICATE_WORKTREE_OWNERSHIP'')) (\<lambda>_.
     bind_sum (require (rg_branch_id s \<notin> set branches) (RegistryFailure ''DUPLICATE_BRANCH_OWNERSHIP'')) (\<lambda>_.
     validate_records repository
       (rg_session_id s # session_ids, rg_worktree_id s # worktrees, rg_branch_id s # branches) ss))))"

definition find_session :: "string \<Rightarrow> registry_session list \<Rightarrow> registry_session option" where
  "find_session session_id sessions = find (\<lambda>s. rg_session_id s = session_id) sessions"

section \<open>Validation of the claims\<close>

definition validate_resource_claim :: "registry_env \<Rightarrow> resource_claim \<Rightarrow> retention_failure + unit" where
  "validate_resource_claim env c =
     (let invalid = RegistryFailure ''INVALID_SESSION_RECORD'' in
      bind_sum (require (case rc_sharing c of None \<Rightarrow> True
          | Some b \<Rightarrow> sw_kind b = RESOURCE_CLAIM_SHARING_KIND \<and> sw_group_id b \<noteq> [] \<and> length (sw_group_id b) \<le> 128) invalid) (\<lambda>_.
      bind_sum (require (rc_sharing c = None \<or> rc_mode c = Write) invalid) (\<lambda>_.
      bind_sum (require (rc_schema_version c = RESOURCE_CLAIM_SCHEMA_VERSION)
        (RegistryFailure ''UNSUPPORTED_CLAIM_SCHEMA_VERSION'')) (\<lambda>_.
      bind_sum (require (is_session_id (rc_session_id c)) invalid) (\<lambda>_.
      bind_sum (require (rc_repository_id c = re_repository_id env) (RegistryFailure ''CLAIM_REPOSITORY_MISMATCH'')) (\<lambda>_.
      bind_sum (require (is_absolute_path (rc_worktree_path c)) invalid) (\<lambda>_.
      bind_sum (of_registry (assert_canonical_claim_resource (JsString (rc_resource c)))) (\<lambda>_.
      bind_sum (require (rc_claim_id c =
        canonical_claim_id (re_sha env) (rc_session_id c) (rc_resource c) (rc_mode c) (rc_sharing c)) invalid) (\<lambda>_.
      bind_sum (require (is_timestamp (rc_created_at c) \<and> is_timestamp (rc_updated_at c)) invalid) (\<lambda>_.
      require (rc_created_at c \<le> rc_updated_at c) invalid))))))))))"

fun validate_claim_owners :: "registry_session list \<Rightarrow> string list \<Rightarrow> resource_claim list \<Rightarrow> retention_failure + unit" where
  "validate_claim_owners sessions seen [] = Inr ()"
| "validate_claim_owners sessions seen (c # cs) =
     (let mismatch = RegistryFailure ''CLAIM_SESSION_MISMATCH'' in
      bind_sum (require (rc_claim_id c \<notin> set seen) (RegistryFailure ''DUPLICATE_CLAIM'')) (\<lambda>_.
      case find_session (rc_session_id c) sessions of
        None \<Rightarrow> Inl mismatch
      | Some owner \<Rightarrow>
      bind_sum (require (rg_repository_id owner = rc_repository_id c \<and> rg_worktree_path owner = rc_worktree_path c)
        mismatch) (\<lambda>_.
      bind_sum (require (rg_state owner \<noteq> SessClosed) mismatch) (\<lambda>_.
      validate_claim_owners sessions (rc_claim_id c # seen) cs))))"

definition validate_claim_pair ::
  "filesystem \<Rightarrow> facts_source \<Rightarrow> resource_claim \<Rightarrow> resource_claim \<Rightarrow> retention_failure + unit" where
  "validate_claim_pair fs facts current prior =
     bind_sum (of_registry (claims_overlap fs current prior)) (\<lambda>overlap.
     if \<not> overlap then Inr ()
     else if rc_session_id current = rc_session_id prior
     then registry_error_code (if rc_mode current = rc_mode prior then ''DUPLICATE_CLAIM'' else ''CONTRADICTORY_CLAIM'')
     else bind_sum (of_registry (claims_conflict fs current prior (facts current prior))) (\<lambda>conflict.
       require (\<not> conflict) (RegistryFailure ''RESOURCE_CLAIM_CONFLICT'')))"

fun validate_claim_pairs ::
  "filesystem \<Rightarrow> facts_source \<Rightarrow> resource_claim list \<Rightarrow> resource_claim list \<Rightarrow> retention_failure + unit" where
  "validate_claim_pairs fs facts priors [] = Inr ()"
| "validate_claim_pairs fs facts priors (c # cs) =
     bind_sum (for_each_sum (validate_claim_pair fs facts c) priors) (\<lambda>_.
     validate_claim_pairs fs facts (priors @ [c]) cs)"

definition validate_registry_claims ::
  "filesystem \<Rightarrow> facts_source \<Rightarrow> registry_session list \<Rightarrow> resource_claim list \<Rightarrow> retention_failure + unit" where
  "validate_registry_claims fs facts sessions claims =
     bind_sum (validate_claim_owners sessions [] claims) (\<lambda>_.
     validate_claim_pairs fs facts [] (sort_resource_claims claims))"

text \<open>\<open>coordinationFacts\<close>: the evidence on two claims, with the worktrees as Git reports them at one moment\<close>

definition missing_identity :: worktree_identity where
  "missing_identity =
     \<lparr>wi_status = IdentityMissing, wi_repository_id = None, wi_session_id = None, wi_worktree_id = None, wi_worktree_path = None\<rparr>"

definition claim_identity :: "registry_env \<Rightarrow> nat \<Rightarrow> registry_session list \<Rightarrow> resource_claim \<Rightarrow> worktree_identity" where
  "claim_identity env t sessions c =
     (case find_session (rc_session_id c) sessions of
        None \<Rightarrow> missing_identity
      | Some s \<Rightarrow>
          if rg_state s \<noteq> SessActive then missing_identity
          else case re_physical env t (rg_worktree_path s) (rg_branch_name s) of
            Inl e \<Rightarrow> missing_identity
          | Inr p \<Rightarrow>
              if pi_worktree_id p \<noteq> rg_worktree_id s \<or> pi_worktree_path p \<noteq> rg_worktree_path s
              then missing_identity\<lparr>wi_status := IdentityAmbiguous\<rparr>
              else \<lparr>wi_status = Verified, wi_repository_id = Some (pi_repository_id p), wi_session_id = Some (rg_session_id s),
                    wi_worktree_id = Some (pi_worktree_id p), wi_worktree_path = Some (pi_worktree_path p)\<rparr>)"

definition registry_facts :: "registry_env \<Rightarrow> nat \<Rightarrow> registry_session list \<Rightarrow> int \<Rightarrow> facts_source" where
  "registry_facts env t sessions generation l r =
     Some \<lparr>cf_left = l, cf_right = r, cf_left_identity = claim_identity env t sessions l,
       cf_right_identity = claim_identity env t sessions r, cf_claim_set_generation = generation,
       cf_observed_claim_set_generation = generation\<rparr>"

section \<open>Validation of parked sessions and park intents\<close>

definition retention_text :: "string \<Rightarrow> bool" where
  "retention_text s \<longleftrightarrow> bounded_retention_text s \<and> normalize_nfc s = s"

definition retention_identity_ok :: "physical_identity \<Rightarrow> bool" where
  "retention_identity_ok p \<longleftrightarrow>
     retention_text (pi_repository_id p) \<and> retention_text (pi_worktree_id p) \<and> retention_text (pi_worktree_path p) \<and>
     retention_text (pi_branch_id p) \<and> retention_text (pi_branch_name p) \<and>
     is_absolute_path (pi_repository_id p) \<and> is_absolute_path (pi_worktree_id p) \<and> is_absolute_path (pi_worktree_path p) \<and>
     pi_worktree_id p = pi_worktree_path p \<and>
     normalize_branch_id (pi_branch_name p) = Some (pi_branch_id p) \<and> pi_branch_name p = drop 11 (pi_branch_id p)"

definition retained_intent_ok :: "claim_intent \<Rightarrow> bool" where
  "retained_intent_ok i \<longleftrightarrow>
     retention_text (ri_resource i) \<and> is_ok (assert_canonical_claim_resource (JsString (ri_resource i)))"

definition retention_record_ok :: "retention_record \<Rightarrow> bool" where
  "retention_record_ok r \<longleftrightarrow>
     rt_schema_version r = 1 \<and> retention_text (rt_operation_id r) \<and> retention_text (rt_session_id r) \<and>
     retention_text (rt_repository_id r) \<and> rt_state r = ''parked'' \<and> sha256_text (rt_pinned_profile_digest r) \<and>
     is_timestamp (rt_parked_at r) \<and> is_timestamp (rt_updated_at r) \<and> rt_parked_at r \<le> rt_updated_at r \<and>
     retention_identity_ok (rt_physical_identity r) \<and>
     pi_repository_id (rt_physical_identity r) = rt_repository_id r \<and>
     list_all retained_intent_ok (rt_desired_claims r) \<and> distinct (map intent_key (rt_desired_claims r))"

definition park_intent_ok :: "park_intent \<Rightarrow> bool" where
  "park_intent_ok i \<longleftrightarrow>
     retention_text (pk_operation_id i) \<and> retention_text (pk_session_id i) \<and>
     1 \<le> pk_admission_epoch i \<and> is_safe_integer (pk_admission_epoch i) \<and>
     0 \<le> pk_expected_generation i \<and> is_safe_integer (pk_expected_generation i) \<and>
     is_timestamp (pk_created_at i) \<and> is_timestamp (pk_updated_at i) \<and> pk_created_at i \<le> pk_updated_at i"

definition find_admission :: "string \<Rightarrow> session_admission list \<Rightarrow> session_admission option" where
  "find_admission session_id admissions = find (\<lambda>a. ad_session_id a = session_id) admissions"

definition find_retention :: "string \<Rightarrow> retention_record list \<Rightarrow> retention_record option" where
  "find_retention session_id retentions = find (\<lambda>r. rt_session_id r = session_id) retentions"

definition find_park_intent :: "string \<Rightarrow> park_intent list \<Rightarrow> park_intent option" where
  "find_park_intent session_id intents = find (\<lambda>i. pk_session_id i = session_id) intents"

definition find_pin :: "string \<Rightarrow> pin_entry list \<Rightarrow> pin_entry option" where
  "find_pin session_id pins = find (\<lambda>p. pe_session_id p = Some session_id) pins"

definition identity_of_session :: "registry_session \<Rightarrow> physical_identity" where
  "identity_of_session s =
     \<lparr>pi_repository_id = rg_repository_id s, pi_worktree_id = rg_worktree_id s, pi_worktree_path = rg_worktree_path s,
      pi_branch_id = rg_branch_id s, pi_branch_name = rg_branch_name s\<rparr>"

definition parsed_pin :: "registry_env \<Rightarrow> string \<Rightarrow> registry_doc \<Rightarrow> pinned_profile option" where
  "parsed_pin env session_id doc =
     (case find_pin session_id (rd_pins doc) of None \<Rightarrow> None | Some p \<Rightarrow> re_parse_pin env (pe_value p))"

fun validate_retentions :: "registry_env \<Rightarrow> registry_doc \<Rightarrow> string list \<Rightarrow> retention_record list \<Rightarrow> retention_failure + unit" where
  "validate_retentions env doc seen [] = Inr ()"
| "validate_retentions env doc seen (r # rs) =
     (let corrupt = RegistryFailure ''REGISTRY_CORRUPT''; id = rt_session_id r in
      bind_sum (require (rt_state r = ''parked'' \<and> rt_repository_id r = re_repository_id env \<and>
        (case find_session id (rd_sessions doc) of None \<Rightarrow> False
         | Some s \<Rightarrow> rg_state s = SessParked \<and> id \<notin> set seen \<and>
             same_physical_identity (rt_physical_identity r) (identity_of_session s))) corrupt) (\<lambda>_.
      bind_sum (require
        ((case find_admission id (rd_admissions doc) of None \<Rightarrow> False | Some a \<Rightarrow> \<not> ad_open a) \<and>
         (case parsed_pin env id doc of None \<Rightarrow> False
          | Some pin \<Rightarrow> retention_identity_digest (re_sha env) (pn_identity pin) = Inr (rt_pinned_profile_digest r)) \<and>
         \<not> list_ex (\<lambda>c. rc_session_id c = id) (rd_claims doc)) corrupt) (\<lambda>_.
      validate_retentions env doc (id # seen) rs)))"

definition validate_park_intent :: "registry_doc \<Rightarrow> park_intent \<Rightarrow> retention_failure + unit" where
  "validate_park_intent doc i =
     require
       ((case find_session (pk_session_id i) (rd_sessions doc) of None \<Rightarrow> False | Some s \<Rightarrow> rg_state s = SessActive) \<and>
        find_retention (pk_session_id i) (rd_retentions doc) = None \<and>
        (case find_admission (pk_session_id i) (rd_admissions doc) of None \<Rightarrow> False
         | Some a \<Rightarrow> \<not> ad_open a \<and> ad_epoch a = pk_admission_epoch i) \<and>
        pk_expected_generation i \<le> rd_generation doc)
       (RegistryFailure ''REGISTRY_CORRUPT'')"

definition validate_retention_ownership :: "registry_env \<Rightarrow> registry_doc \<Rightarrow> retention_failure + unit" where
  "validate_retention_ownership env doc =
     bind_sum (validate_retentions env doc [] (rd_retentions doc)) (\<lambda>_.
     bind_sum (for_each_sum (validate_park_intent doc) (rd_park_intents doc)) (\<lambda>_.
     for_each_sum (\<lambda>s. require
         (rg_state s = SessParked \<longrightarrow> find_retention (rg_session_id s) (rd_retentions doc) \<noteq> None)
         (RegistryFailure ''REGISTRY_CORRUPT'')) (rd_sessions doc)))"

section \<open>Reading\<close>

fun history_contiguous :: "int \<Rightarrow> recent_event list \<Rightarrow> bool" where
  "history_contiguous previous [] \<longleftrightarrow> True"
| "history_contiguous previous (HandoffEvent _ # es) \<longleftrightarrow> history_contiguous previous es"
| "history_contiguous previous (HistoryEvent n _ # es) \<longleftrightarrow>
     previous < n \<and> (previous = 0 \<or> n = previous + 1) \<and> history_contiguous n es"

text \<open>\<open>parseRuntimeRecords\<close> with the checks of the lists it reads\<close>

definition validate_runtime_records :: "registry_env \<Rightarrow> registry_doc \<Rightarrow> retention_failure + unit" where
  "validate_runtime_records env doc =
     require
       (length (rd_pins doc) \<le> MAX_RUNTIME_RECORDS \<and> list_all (\<lambda>p. re_parse_pin env (pe_value p) \<noteq> None) (rd_pins doc) \<and>
        distinct (concat (map (\<lambda>p. case pe_session_id p of None \<Rightarrow> [] | Some i \<Rightarrow> [i]) (rd_pins doc))) \<and>
        length (rd_admissions doc) \<le> MAX_RUNTIME_RECORDS \<and>
        list_all (\<lambda>a. ad_session_id a \<noteq> [] \<and> length (ad_session_id a) \<le> 256 \<and> NUL \<notin> set (ad_session_id a) \<and>
          0 \<le> ad_epoch a \<and> is_safe_integer (ad_epoch a)) (rd_admissions doc) \<and>
        distinct (map ad_session_id (rd_admissions doc)) \<and>
        length (rd_executions doc) \<le> MAX_RUNTIME_RECORDS \<and>
        length (rd_park_intents doc) \<le> MAX_RUNTIME_RECORDS \<and> list_all park_intent_ok (rd_park_intents doc) \<and>
        distinct (map pk_session_id (rd_park_intents doc)) \<and>
        length (rd_retentions doc) \<le> MAX_RUNTIME_RECORDS \<and> list_all retention_record_ok (rd_retentions doc) \<and>
        distinct (map rt_session_id (rd_retentions doc)) \<and>
        length (rd_events doc) \<le> MAX_RUNTIME_RECORDS \<and> history_contiguous 0 (rd_events doc))
       (RegistryFailure ''REGISTRY_CORRUPT'')"

definition generation_ok :: "int \<Rightarrow> bool" where
  "generation_ok n \<longleftrightarrow> is_safe_integer n \<and> 0 \<le> n"

definition validate_registry :: "registry_env \<Rightarrow> nat \<Rightarrow> registry_doc \<Rightarrow> retention_failure + unit" where
  "validate_registry env t doc =
     (let corrupt = RegistryFailure ''REGISTRY_CORRUPT''; known = (\<lambda>i. i \<in> set (map rg_session_id (rd_sessions doc))) in
      bind_sum (require (generation_ok (rd_generation doc) \<and> generation_ok (rd_revision doc) \<and> generation_ok (rd_epoch doc))
        corrupt) (\<lambda>_.
      bind_sum (validate_runtime_records env doc) (\<lambda>_.
      bind_sum (validate_records (re_repository_id env) ([], [], []) (rd_sessions doc)) (\<lambda>_.
      bind_sum (require (list_all (\<lambda>p. case pe_session_id p of None \<Rightarrow> True | Some i \<Rightarrow> known i) (rd_pins doc)) corrupt) (\<lambda>_.
      bind_sum (require (list_all (\<lambda>a. known (ad_session_id a) \<and> ad_epoch a \<le> rd_epoch doc \<and>
        (ad_open a \<longrightarrow> ad_epoch a = rd_epoch doc)) (rd_admissions doc)) corrupt) (\<lambda>_.
      bind_sum (require (list_all (\<lambda>x. known (xn_session_id x)) (rd_executions doc) \<and>
        distinct (map xn_execution_id (rd_executions doc))) corrupt) (\<lambda>_.
      bind_sum (for_each_sum (validate_resource_claim env) (rd_claims doc)) (\<lambda>_.
      bind_sum (validate_registry_claims (re_fs env) (registry_facts env t (rd_sessions doc) (rd_generation doc))
        (rd_sessions doc) (rd_claims doc)) (\<lambda>_.
      validate_retention_ownership env doc)))))))))"

definition read_state :: "registry_env \<Rightarrow> registry_doc registry_call" where
  "read_state env w =
     (case validate_registry env (rw_tick w) (rw_doc w) of
        Inl e \<Rightarrow> (Inl e, w\<lparr>rw_tick := Suc (rw_tick w)\<rparr>)
      | Inr _ \<Rightarrow> (Inr ((rw_doc w)\<lparr>rd_claims := sort_resource_claims (rd_claims (rw_doc w))\<rparr>), w\<lparr>rw_tick := Suc (rw_tick w)\<rparr>))"

section \<open>Writing\<close>

definition check_call :: "bool \<Rightarrow> string \<Rightarrow> unit registry_call" where
  "check_call p code = pure_call (require p (RegistryFailure code))"

definition next_registry_revision :: "registry_doc \<Rightarrow> retention_failure + int" where
  "next_registry_revision doc =
     (if MAX_SAFE_INTEGER \<le> rd_revision doc then registry_error_code ''OPERATION_REJECTED'' else Inr (rd_revision doc + 1))"

definition next_runtime_epoch :: "registry_doc \<Rightarrow> retention_failure + int" where
  "next_runtime_epoch doc =
     (if MAX_SAFE_INTEGER \<le> rd_epoch doc then registry_error_code ''OPERATION_REJECTED'' else Inr (rd_epoch doc + 1))"

text \<open>\<open>sameClaimSet\<close> compares all fields of the claims in order.\<close>

definition next_claim_set_generation :: "registry_doc \<Rightarrow> resource_claim list \<Rightarrow> retention_failure + int" where
  "next_claim_set_generation doc next_claims =
     (if rd_claims doc = next_claims then Inr (rd_generation doc)
      else if MAX_SAFE_INTEGER \<le> rd_generation doc then registry_error_code ''OPERATION_REJECTED''
      else Inr (rd_generation doc + 1))"

definition with_session_admission :: "session_admission \<Rightarrow> session_admission list \<Rightarrow> session_admission list" where
  "with_session_admission admission existing =
     (if list_ex (\<lambda>a. ad_session_id a = ad_session_id admission) existing
      then map (\<lambda>a. if ad_session_id a = ad_session_id admission then admission else a) existing
      else existing @ [admission])"

definition rebase_open_session_admissions :: "int \<Rightarrow> session_admission list \<Rightarrow> session_admission list" where
  "rebase_open_session_admissions epoch admissions =
     map (\<lambda>a. if ad_open a \<and> ad_epoch a \<noteq> epoch then a\<lparr>ad_epoch := epoch\<rparr> else a) admissions"

definition transition_session_state :: "registry_session \<Rightarrow> session_state \<Rightarrow> string \<Rightarrow> registry_session" where
  "transition_session_state s state now = s\<lparr>rg_state := state, rg_updated_at := max (rg_updated_at s) now\<rparr>"

definition state_text :: "registry_session option \<Rightarrow> string" where
  "state_text s = (case s of None \<Rightarrow> ''absent'' | Some r \<Rightarrow> session_state_name (rg_state r))"

definition arrow_text :: "string \<Rightarrow> string \<Rightarrow> string" where
  "arrow_text a b = a @ ''->'' @ b"

definition registry_history_changes ::
  "registry_doc \<Rightarrow> registry_session list \<Rightarrow> execution_entry list \<Rightarrow> int \<Rightarrow> string \<Rightarrow> history_event list" where
  "registry_history_changes previous sessions executions revision observed_at =
     (if revision \<le> rd_revision previous then []
      else
        let lifecycle = (\<lambda>session_id operation.
              \<lparr>hv_kind = ''lifecycle'', hv_session_id = session_id, hv_execution_id = None, hv_operation = operation,
               hv_before_revision = rd_revision previous, hv_after_revision = revision, hv_observed_at = observed_at\<rparr>);
            before = (\<lambda>i. find_session i (rev (rd_sessions previous)));
            before_execution = (\<lambda>i. find (\<lambda>x. xn_execution_id x = i) (rev (rd_executions previous))) in
        concat (map (\<lambda>s. let old = before (rg_session_id s) in
            if map_option rg_state old = Some (rg_state s) then []
            else [lifecycle (rg_session_id s) (arrow_text (state_text old) (session_state_name (rg_state s)))])
          (sort_key rg_session_id sessions)) @
        concat (map (\<lambda>old. if rg_session_id old \<in> set (map rg_session_id sessions) then []
            else [lifecycle (rg_session_id old) (arrow_text (session_state_name (rg_state old)) ''absent'')])
          (sort_key rg_session_id (rd_sessions previous))) @
        concat (map (\<lambda>x. let old = before_execution (xn_execution_id x) in
            if map_option xn_state old = Some (xn_state x) then []
            else [\<lparr>hv_kind = ''execution'', hv_session_id = xn_session_id x, hv_execution_id = Some (xn_execution_id x),
              hv_operation = arrow_text (case old of None \<Rightarrow> ''absent'' | Some o' \<Rightarrow> xn_state o') (xn_state x),
              hv_before_revision = rd_revision previous, hv_after_revision = revision, hv_observed_at = observed_at\<rparr>])
          (sort_key xn_execution_id executions)))"

definition is_handoff :: "recent_event \<Rightarrow> bool" where
  "is_handoff e = (case e of HandoffEvent _ \<Rightarrow> True | HistoryEvent _ _ \<Rightarrow> False)"

definition event_sequence :: "recent_event \<Rightarrow> int" where
  "event_sequence e = (case e of HandoffEvent _ \<Rightarrow> 0 | HistoryEvent n _ \<Rightarrow> n)"

definition last_sequence :: "recent_event list \<Rightarrow> int" where
  "last_sequence history = (if history = [] then 0 else event_sequence (last history))"

text \<open>\<open>appendRuntimeEvent\<close> of src/src/session-runtime-history.ts, with its default bound\<close>

definition append_runtime_event :: "recent_event list \<Rightarrow> history_event list \<Rightarrow> retention_failure + recent_event list" where
  "append_runtime_event recent events =
     (if events = [] then Inr recent
      else
        let handoffs = filter is_handoff recent; existing = filter (\<lambda>e. \<not> is_handoff e) recent;
            sequence = last_sequence existing in
        bind_sum (require (length handoffs < MAX_RUNTIME_RECORDS) (RegistryFailure ''RangeError'')) (\<lambda>_.
        bind_sum (require (is_safe_integer (sequence + int (length events))) (RegistryFailure ''RangeError'')) (\<lambda>_.
        let appended = map (\<lambda>(i, e). HistoryEvent (sequence + 1 + int i) e) (zip [0..<length events] events) in
        Inr (handoffs @ last_entries (min MAX_RUNTIME_RECORDS (MAX_RUNTIME_RECORDS - length handoffs)) (existing @ appended)))))"

definition history_input :: "recent_event list \<Rightarrow> recent_event list \<Rightarrow> recent_event list" where
  "history_input previous supplied =
     (let prior = filter (\<lambda>e. \<not> is_handoff e) previous in
      if prior \<noteq> [] \<and> last_sequence (filter (\<lambda>e. \<not> is_handoff e) supplied) < last_sequence prior
      then filter is_handoff supplied @ prior else supplied)"

text \<open>\<open>RepositoryStateBoundary.commit\<close>: the document is validated as a reader would, then replaces the file.\<close>

definition commit_document :: "registry_env \<Rightarrow> registry_doc \<Rightarrow> unit registry_call" where
  "commit_document env doc =
     bind_call (observing (\<lambda>t. validate_registry env t doc)) (\<lambda>valid.
     bind_call (pure_call valid) (\<lambda>_.
     bind_call (observing (re_write env)) (\<lambda>outcome w.
       case outcome of
         WriteDurable \<Rightarrow> (Inr (), w\<lparr>rw_doc := doc\<rparr>)
       | WriteFailed \<Rightarrow> (registry_error_code ''REGISTRY_IO_FAILURE'', w)
       | RenameUnproven \<Rightarrow> (registry_error_code ''REGISTRY_DURABILITY_UNCERTAIN'', w\<lparr>rw_doc := doc\<rparr>))))"

definition write_registry :: "registry_env \<Rightarrow> registry_doc \<Rightarrow> registry_doc \<Rightarrow> unit registry_call" where
  "write_registry env previous supplied =
     bind_call (check_call (generation_ok (rd_revision supplied)) ''REGISTRY_CORRUPT'') (\<lambda>_.
     bind_call (check_call (generation_ok (rd_epoch supplied)) ''REGISTRY_CORRUPT'') (\<lambda>_.
     bind_call (observing (re_clock env)) (\<lambda>observed_at.
     bind_call (pure_call (append_runtime_event (history_input (rd_events previous) (rd_events supplied))
       (registry_history_changes previous (rd_sessions supplied) (rd_executions supplied) (rd_revision supplied) observed_at)))
       (\<lambda>events.
     commit_document env (supplied
       \<lparr>rd_claims := sort_resource_claims (rd_claims supplied),
        rd_admissions := rebase_open_session_admissions (rd_epoch supplied) (rd_admissions supplied),
        rd_events := events\<rparr>)))))"

text \<open>\<open>withLock\<close>: an error of the operation is thrown before one of the release, and an error of the release hides the
  result of an operation that succeeded.\<close>

definition release_lock :: "registry_env \<Rightarrow> 'a registry_call \<Rightarrow> 'a registry_call" where
  "release_lock env operation w = (case operation w of (result, w1) \<Rightarrow>
     (case result of
        Inl e \<Rightarrow> (Inl e, w1\<lparr>rw_tick := Suc (rw_tick w1)\<rparr>)
      | Inr a \<Rightarrow> (case re_unlock env (rw_tick w1) of
          None \<Rightarrow> (Inr a, w1\<lparr>rw_tick := Suc (rw_tick w1)\<rparr>)
        | Some code \<Rightarrow> (registry_error_code code, w1\<lparr>rw_tick := Suc (rw_tick w1)\<rparr>))))"

definition with_lock :: "registry_env \<Rightarrow> 'a registry_call \<Rightarrow> 'a registry_call" where
  "with_lock env operation =
     bind_call (observing (re_lock env)) (\<lambda>busy. case busy of
       Some code \<Rightarrow> pure_call (registry_error_code code)
     | None \<Rightarrow> release_lock env operation)"

section \<open>Checks that operations share\<close>

definition park_intent_unsafe :: "registry_doc \<Rightarrow> string \<Rightarrow> park_intent option" where
  "park_intent_unsafe doc session_id = find_park_intent session_id (rd_park_intents doc)"

definition assert_no_park_intent :: "registry_doc \<Rightarrow> string \<Rightarrow> retention_failure + unit" where
  "assert_no_park_intent doc session_id =
     require (park_intent_unsafe doc session_id = None) (RegistryFailure ''OPERATION_REJECTED'')"

definition retention_admission_unsafe :: "registry_doc \<Rightarrow> string \<Rightarrow> retention_failure + session_admission" where
  "retention_admission_unsafe doc session_id =
     (case find_admission session_id (rd_admissions doc) of
        None \<Rightarrow> registry_error_code ''OPERATION_REJECTED'' | Some a \<Rightarrow> Inr a)"

definition assert_owned_executions_empty :: "registry_env \<Rightarrow> registry_doc \<Rightarrow> string \<Rightarrow> unit registry_call" where
  "assert_owned_executions_empty env doc session_id =
     (let owned = filter (\<lambda>x. xn_session_id x = session_id) (rd_executions doc) in
      if owned = [] then
        bind_call (check_call (re_cgroup_root env) ''OPERATION_REJECTED'') (\<lambda>_.
        bind_call (observing (re_boot_known env)) (\<lambda>known.
        bind_call (check_call known ''OPERATION_REJECTED'') (\<lambda>_.
        bind_call (observing (\<lambda>t. re_tree_empty env t session_id)) (\<lambda>empty.
        check_call empty ''OPERATION_REJECTED''))))
      else
        bind_call (observing (re_boot_known env)) (\<lambda>known.
        bind_call (check_call known ''OPERATION_REJECTED'') (\<lambda>_.
        for_each_call (\<lambda>x. bind_call (observing (\<lambda>t. re_execution_empty env t (xn_execution_id x))) (\<lambda>empty.
          check_call empty ''OPERATION_REJECTED'')) owned)))"

text \<open>\<open>closeSessionLaunchAdmission\<close>\<close>

definition close_session_launch_admission :: "registry_env \<Rightarrow> string \<Rightarrow> int \<Rightarrow> int registry_call" where
  "close_session_launch_admission env session_id expected_epoch =
     with_lock env
       (bind_call (check_call (is_session_id session_id) ''INVALID_SESSION_ID'') (\<lambda>_.
        bind_call (read_state env) (\<lambda>doc.
        bind_call (pure_call (assert_no_park_intent doc session_id)) (\<lambda>_.
        bind_call (check_call (find_session session_id (rd_sessions doc) \<noteq> None) ''SESSION_NOT_FOUND'') (\<lambda>_.
        bind_call (check_call (is_safe_integer expected_epoch \<and> expected_epoch = rd_epoch doc) ''OPERATION_REJECTED'') (\<lambda>_.
        bind_call (read_state env) (\<lambda>again.
        bind_call (pure_call (retention_admission_unsafe again session_id)) (\<lambda>admission.
        bind_call (pure_call (next_runtime_epoch doc)) (\<lambda>epoch.
        bind_call (pure_call (next_registry_revision doc)) (\<lambda>revision.
        bind_call (write_registry env again (doc\<lparr>rd_revision := revision, rd_epoch := epoch,
          rd_admissions := with_session_admission (admission\<lparr>ad_open := False, ad_epoch := epoch\<rparr>) (rd_admissions doc)\<rparr>))
          (\<lambda>_. pure_call (Inr epoch))))))))))))"

section \<open>Reasoning about calls\<close>

text \<open>
  \<open>holds d m Q E\<close>: started on the document \<open>d\<close>, the call \<open>m\<close> returns with \<open>Q\<close> or throws with \<open>E\<close> of what it
  returns or throws and of the document it leaves. \<open>observes m P\<close>: the call leaves the document alone, and
  what it returns satisfies \<open>P\<close>.
\<close>

definition holds ::
  "registry_doc \<Rightarrow> 'a registry_call \<Rightarrow> ('a \<Rightarrow> registry_doc \<Rightarrow> bool) \<Rightarrow> (retention_failure \<Rightarrow> registry_doc \<Rightarrow> bool) \<Rightarrow> bool" where
  "holds d m Q E \<longleftrightarrow>
     (\<forall>w. rw_doc w = d \<longrightarrow> (case m w of (Inl e, w') \<Rightarrow> E e (rw_doc w') | (Inr a, w') \<Rightarrow> Q a (rw_doc w')))"

definition observes :: "'a registry_call \<Rightarrow> ('a \<Rightarrow> bool) \<Rightarrow> bool" where
  "observes m P \<longleftrightarrow>
     (\<forall>w. rw_doc (snd (m w)) = rw_doc w \<and> (case fst (m w) of Inl e \<Rightarrow> True | Inr a \<Rightarrow> P a))"

lemma observes_weaken: "observes m P \<Longrightarrow> (\<And>a. P a \<Longrightarrow> R a) \<Longrightarrow> observes m R"
  by (fastforce simp: observes_def split: sum.splits)

lemma observes_pure: "(\<And>a. r = Inr a \<Longrightarrow> P a) \<Longrightarrow> observes (pure_call r) P"
  by (auto simp: observes_def pure_call_def split: sum.split)

lemma observes_check: "observes (check_call p code) (\<lambda>_. p)"
  by (auto simp: check_call_def intro!: observes_pure)

lemma observes_observing: "observes (observing f) (\<lambda>_. True)"
  by (simp add: observes_def observing_def)

lemma observes_bind:
  assumes "observes m P" "\<And>a. P a \<Longrightarrow> observes (f a) R"
  shows "observes (bind_call m f) R"
  unfolding observes_def
proof
  fix w :: registry_world
  obtain r w1 where run: "m w = (r, w1)" by fastforce
  then have "rw_doc w1 = rw_doc w" "case r of Inl e \<Rightarrow> True | Inr a \<Rightarrow> P a"
    using assms(1) by (auto simp: observes_def dest: spec [where x = w])
  then show "rw_doc (snd (bind_call m f w)) = rw_doc w \<and> (case fst (bind_call m f w) of Inl e \<Rightarrow> True | Inr a \<Rightarrow> R a)"
    using assms(2) run by (cases r) (auto simp: bind_call_def observes_def)
qed

lemma observes_catch:
  assumes "observes m P" "\<And>e. observes (h e) P"
  shows "observes (catch_call m h) P"
  unfolding observes_def
proof
  fix w :: registry_world
  obtain r w1 where run: "m w = (r, w1)" by fastforce
  then have "rw_doc w1 = rw_doc w" "case r of Inl e \<Rightarrow> True | Inr a \<Rightarrow> P a"
    using assms(1) by (auto simp: observes_def dest: spec [where x = w])
  then show "rw_doc (snd (catch_call m h w)) = rw_doc w \<and> (case fst (catch_call m h w) of Inl e \<Rightarrow> True | Inr a \<Rightarrow> P a)"
    using assms(2) run by (cases r) (auto simp: catch_call_def observes_def)
qed

lemma observes_read: "observes (read_state env) (\<lambda>_. True)"
  by (auto simp: observes_def read_state_def split: sum.split)

lemma observes_release:
  assumes "observes m P"
  shows "observes (release_lock env m) P"
  unfolding observes_def
proof
  fix w :: registry_world
  obtain r w1 where run: "m w = (r, w1)" by fastforce
  then have "rw_doc w1 = rw_doc w" "case r of Inl e \<Rightarrow> True | Inr a \<Rightarrow> P a"
    using assms by (auto simp: observes_def dest: spec [where x = w])
  then show "rw_doc (snd (release_lock env m w)) = rw_doc w \<and> (case fst (release_lock env m w) of Inl e \<Rightarrow> True | Inr a \<Rightarrow> P a)"
    using run by (cases r) (auto simp: release_lock_def split: option.split)
qed

lemma observes_lock:
  assumes "observes m P"
  shows "observes (with_lock env m) P"
  unfolding with_lock_def
  by (rule observes_bind [OF observes_observing]) (auto intro: observes_pure observes_release [OF assms] split: option.split)

lemma observes_for_each: "(\<And>x. observes (f x) (\<lambda>_. True)) \<Longrightarrow> observes (for_each_call f xs) (\<lambda>_. True)"
  by (induction xs) (auto simp: for_each_call_def intro: observes_pure observes_bind)

lemma observes_executions: "observes (assert_owned_executions_empty env doc i) (\<lambda>_. True)"
  unfolding assert_owned_executions_empty_def Let_def
  by (auto intro!: observes_bind [OF observes_check] observes_bind [OF observes_observing] observes_for_each
      intro: observes_weaken [OF observes_check])

lemma holds_return: "Q a d \<Longrightarrow> holds d (pure_call (Inr a)) Q E"
  by (simp add: holds_def pure_call_def)

lemma holds_throw: "E e d \<Longrightarrow> holds d (pure_call (Inl e)) Q E"
  by (simp add: holds_def pure_call_def)

lemma holds_bind:
  assumes "holds d m R E" "\<And>a d'. R a d' \<Longrightarrow> holds d' (f a) Q E"
  shows "holds d (bind_call m f) Q E"
  unfolding holds_def
proof (intro allI impI)
  fix w :: registry_world assume "rw_doc w = d"
  obtain r w1 where run: "m w = (r, w1)" by fastforce
  have "case r of Inl e \<Rightarrow> E e (rw_doc w1) | Inr a \<Rightarrow> R a (rw_doc w1)"
    using assms(1) run \<open>rw_doc w = d\<close> by (auto simp: holds_def split: sum.split)
  then show "case bind_call m f w of (Inl e, w') \<Rightarrow> E e (rw_doc w') | (Inr a, w') \<Rightarrow> Q a (rw_doc w')"
    using assms(2) run by (cases r) (auto simp: bind_call_def holds_def)
qed

lemma holds_observes:
  assumes "observes m P" "\<And>e. E e d"
  shows "holds d m (\<lambda>a d'. P a \<and> d' = d) E"
  unfolding holds_def
proof (intro allI impI)
  fix w :: registry_world assume "rw_doc w = d"
  obtain r w1 where run: "m w = (r, w1)" by fastforce
  then have "rw_doc w1 = d" "case r of Inl e \<Rightarrow> True | Inr a \<Rightarrow> P a"
    using assms(1) \<open>rw_doc w = d\<close> by (auto simp: observes_def dest: spec [where x = w])
  then show "case m w of (Inl e, w') \<Rightarrow> E e (rw_doc w') | (Inr a, w') \<Rightarrow> P a \<and> rw_doc w' = d"
    using assms(2) run by (cases r) auto
qed

lemma holds_bind_observes:
  assumes "observes m P" "\<And>a. P a \<Longrightarrow> holds d (f a) Q E" "\<And>e. E e d"
  shows "holds d (bind_call m f) Q E"
  by (rule holds_bind [OF holds_observes [OF assms(1)]]) (use assms in auto)

lemmas holds_check = holds_bind_observes [OF observes_check]
lemmas holds_observing = holds_bind_observes [OF observes_observing]
lemmas holds_executions = holds_bind_observes [OF observes_executions]

lemma holds_pure:
  "(\<And>a. r = Inr a \<Longrightarrow> holds d (f a) Q E) \<Longrightarrow> (\<And>e. E e d) \<Longrightarrow> holds d (bind_call (pure_call r) f) Q E"
  by (rule holds_bind_observes [where P = "\<lambda>a. r = Inr a"]) (auto intro: observes_pure)

lemma holds_if: "(c \<Longrightarrow> holds d m Q E) \<Longrightarrow> (\<not> c \<Longrightarrow> holds d n Q E) \<Longrightarrow> holds d (if c then m else n) Q E"
  by simp

lemma holds_option:
  "(x = None \<Longrightarrow> holds d m Q E) \<Longrightarrow> (\<And>a. x = Some a \<Longrightarrow> holds d (f a) Q E) \<Longrightarrow>
   holds d (case x of None \<Rightarrow> m | Some a \<Rightarrow> f a) Q E"
  by (simp split: option.split)

lemma holds_sum:
  "(\<And>e. x = Inl e \<Longrightarrow> holds d (f e) Q E) \<Longrightarrow> (\<And>a. x = Inr a \<Longrightarrow> holds d (g a) Q E) \<Longrightarrow>
   holds d (case x of Inl e \<Rightarrow> f e | Inr a \<Rightarrow> g a) Q E"
  by (simp split: sum.split)

definition sorted_doc :: "registry_doc \<Rightarrow> registry_doc" where
  "sorted_doc d = d\<lparr>rd_claims := sort_resource_claims (rd_claims d)\<rparr>"

lemma holds_read:
  assumes "\<And>t. validate_registry env t d = Inr () \<Longrightarrow> holds d (f (sorted_doc d)) Q E" "\<And>e. E e d"
  shows "holds d (bind_call (read_state env) f) Q E"
proof (rule holds_bind)
  show "holds d (read_state env) (\<lambda>a d'. (\<exists>t. validate_registry env t d = Inr ()) \<and> a = sorted_doc d \<and> d' = d) E"
    using assms(2) by (auto simp: holds_def read_state_def sorted_doc_def split: sum.split)
qed (use assms in auto)

definition written_doc :: "registry_doc \<Rightarrow> recent_event list \<Rightarrow> registry_doc" where
  "written_doc d events = d
     \<lparr>rd_claims := sort_resource_claims (rd_claims d),
      rd_admissions := rebase_open_session_admissions (rd_epoch d) (rd_admissions d), rd_events := events\<rparr>"

definition unproven :: "retention_failure \<Rightarrow> bool" where
  "unproven e \<longleftrightarrow> e = RegistryFailure ''REGISTRY_DURABILITY_UNCERTAIN''"

lemma holds_commit:
  assumes "\<And>t. validate_registry env t n = Inr () \<Longrightarrow> Q () n"
    and "\<And>t e. validate_registry env t n = Inr () \<Longrightarrow> unproven e \<Longrightarrow> E e n" "\<And>e. E e d"
  shows "holds d (commit_document env n) Q E"
  unfolding commit_document_def
proof (rule holds_bind)
  show "holds d (observing (\<lambda>t. validate_registry env t n)) (\<lambda>v d'. (\<exists>t. v = validate_registry env t n) \<and> d' = d) E"
    by (auto simp: holds_def observing_def)
next
  fix v d' assume "(\<exists>t. v = validate_registry env t n) \<and> d' = d"
  then show "holds d' (bind_call (pure_call v) (\<lambda>_. bind_call (observing (re_write env)) (\<lambda>outcome w.
       case outcome of
         WriteDurable \<Rightarrow> (Inr (), w\<lparr>rw_doc := n\<rparr>)
       | WriteFailed \<Rightarrow> (registry_error_code ''REGISTRY_IO_FAILURE'', w)
       | RenameUnproven \<Rightarrow> (registry_error_code ''REGISTRY_DURABILITY_UNCERTAIN'', w\<lparr>rw_doc := n\<rparr>)))) Q E"
    using assms by (intro holds_pure holds_observing) (auto simp: holds_def unproven_def split: write_outcome.split)
qed

lemma written_handoffs:
  assumes "append_runtime_event (history_input previous supplied) changes = Inr events"
  shows "filter is_handoff events = filter is_handoff supplied"
proof -
  have "filter is_handoff (filter (\<lambda>e. \<not> is_handoff e) es) = []" for es by (induction es) auto
  then have input: "filter is_handoff (history_input previous supplied) = filter is_handoff supplied"
    by (simp add: history_input_def Let_def)
  have "\<forall>e \<in> set (last_entries k (filter (\<lambda>e. \<not> is_handoff e) es @ map (\<lambda>(i, e). HistoryEvent (f i) e) ys)). \<not> is_handoff e" for k es f ys
    by (auto simp: last_entries_def is_handoff_def dest!: in_set_dropD split: recent_event.splits)
  then have "filter is_handoff (last_entries k (filter (\<lambda>e. \<not> is_handoff e) es @ map (\<lambda>(i, e). HistoryEvent (f i) e) ys)) = []" for k es f ys
    by (simp add: filter_empty_conv)
  with assms show ?thesis
    by (auto simp: append_runtime_event_def Let_def sum_simps input split: if_splits)
qed

text \<open>A write keeps the receipts of handoffs it is given.\<close>

lemma holds_last_write:
  assumes "\<And>t events. validate_registry env t (written_doc n events) = Inr () \<Longrightarrow>
      filter is_handoff events = filter is_handoff (rd_events n) \<Longrightarrow> Q () (written_doc n events)"
    and "\<And>t events e. validate_registry env t (written_doc n events) = Inr () \<Longrightarrow>
      filter is_handoff events = filter is_handoff (rd_events n) \<Longrightarrow> unproven e \<Longrightarrow> E e (written_doc n events)"
    and "\<And>e. E e d"
  shows "holds d (write_registry env previous n) Q E"
  unfolding write_registry_def written_doc_def [symmetric]
  by (intro holds_check holds_observing holds_pure holds_commit) (blast intro: assms dest: written_handoffs)+

lemma holds_write:
  assumes "\<And>t events. validate_registry env t (written_doc supplied events) = Inr () \<Longrightarrow>
      filter is_handoff events = filter is_handoff (rd_events supplied) \<Longrightarrow> holds (written_doc supplied events) (f ()) Q E"
    and "\<And>t events e. validate_registry env t (written_doc supplied events) = Inr () \<Longrightarrow>
      filter is_handoff events = filter is_handoff (rd_events supplied) \<Longrightarrow> unproven e \<Longrightarrow> E e (written_doc supplied events)"
    and "\<And>e. E e d"
  shows "holds d (bind_call (write_registry env previous supplied) f) Q E"
proof (rule holds_bind)
  show "holds d (write_registry env previous supplied)
    (\<lambda>_ d'. \<exists>t events. validate_registry env t (written_doc supplied events) = Inr () \<and>
       filter is_handoff events = filter is_handoff (rd_events supplied) \<and> d' = written_doc supplied events) E"
    using assms(2,3) by (intro holds_last_write) blast+
qed (use assms(1) in auto)

text \<open>Whatever the lock does, and whether or not an error of its release hides the result\<close>

lemma holds_any_lock:
  assumes "holds d m Q E" "\<And>a d' e. Q a d' \<Longrightarrow> E e d'" "\<And>e. E e d"
  shows "holds d (with_lock env m) Q E"
  unfolding with_lock_def
proof (rule holds_observing)
  fix busy
  have "holds d (release_lock env m) Q E"
    unfolding holds_def
  proof (intro allI impI)
    fix w :: registry_world assume "rw_doc w = d"
    obtain r w1 where run: "m w = (r, w1)" by fastforce
    have "case r of Inl e \<Rightarrow> E e (rw_doc w1) | Inr a \<Rightarrow> Q a (rw_doc w1)"
      using assms(1) run \<open>rw_doc w = d\<close> by (auto simp: holds_def split: sum.split)
    then show "case release_lock env m w of (Inl e, w') \<Rightarrow> E e (rw_doc w') | (Inr a, w') \<Rightarrow> Q a (rw_doc w')"
      using run assms(2) by (cases r) (auto simp: release_lock_def split: option.split)
  qed
  then show "holds d (case busy of Some code \<Rightarrow> pure_call (registry_error_code code) | None \<Rightarrow> release_lock env m) Q E"
    using assms(3) by (auto intro: holds_throw split: option.split)
qed (use assms in auto)

lemma holds_lock:
  assumes "\<And>t. re_unlock env t = None" "holds d m Q E" "\<And>e. E e d"
  shows "holds d (with_lock env m) Q E"
  unfolding with_lock_def
proof (rule holds_observing)
  fix busy
  have "holds d (release_lock env m) Q E"
    unfolding holds_def
  proof (intro allI impI)
    fix w :: registry_world assume "rw_doc w = d"
    obtain r w1 where run: "m w = (r, w1)" by fastforce
    have "case r of Inl e \<Rightarrow> E e (rw_doc w1) | Inr a \<Rightarrow> Q a (rw_doc w1)"
      using assms(2) run \<open>rw_doc w = d\<close> by (auto simp: holds_def split: sum.split)
    then show "case release_lock env m w of (Inl e, w') \<Rightarrow> E e (rw_doc w') | (Inr a, w') \<Rightarrow> Q a (rw_doc w')"
      using run assms(1) by (cases r) (simp_all add: release_lock_def)
  qed
  then show "holds d (case busy of Some code \<Rightarrow> pure_call (registry_error_code code) | None \<Rightarrow> release_lock env m) Q E"
    using assms(3) by (auto intro: holds_throw split: option.split)
qed (use assms in auto)

lemma holds_catch:
  assumes "holds d m Q F" "\<And>e d'. F e d' \<Longrightarrow> holds d' (h e) Q E"
  shows "holds d (catch_call m h) Q E"
  unfolding holds_def
proof (intro allI impI)
  fix w :: registry_world assume "rw_doc w = d"
  obtain r w1 where run: "m w = (r, w1)" by fastforce
  have "case r of Inl e \<Rightarrow> F e (rw_doc w1) | Inr a \<Rightarrow> Q a (rw_doc w1)"
    using assms(1) run \<open>rw_doc w = d\<close> by (auto simp: holds_def split: sum.split)
  then show "case catch_call m h w of (Inl e, w') \<Rightarrow> E e (rw_doc w') | (Inr a, w') \<Rightarrow> Q a (rw_doc w')"
    using assms(2) run by (cases r) (auto simp: catch_call_def holds_def)
qed

lemma holds_weaken:
  assumes "holds d m R F" "\<And>a d'. R a d' \<Longrightarrow> Q a d'" "\<And>e d'. F e d' \<Longrightarrow> E e d'"
  shows "holds d m Q E"
  unfolding holds_def
proof (intro allI impI)
  fix w :: registry_world assume "rw_doc w = d"
  with assms(1) have "case m w of (Inl e, w') \<Rightarrow> F e (rw_doc w') | (Inr a, w') \<Rightarrow> R a (rw_doc w')"
    by (simp add: holds_def)
  then show "case m w of (Inl e, w') \<Rightarrow> E e (rw_doc w') | (Inr a, w') \<Rightarrow> Q a (rw_doc w')"
    using assms(2,3) by (auto split: sum.splits prod.splits)
qed

lemma holds_run:
  "holds d m Q E \<Longrightarrow> rw_doc w = d \<Longrightarrow> m w = (r, w') \<Longrightarrow>
   (case r of Inl e \<Rightarrow> E e (rw_doc w') | Inr a \<Rightarrow> Q a (rw_doc w'))"
  by (auto simp: holds_def split: sum.splits)

lemmas holds_steps = holds_pure holds_check holds_observing holds_executions holds_read holds_if holds_option holds_sum
  holds_return holds_throw

end
