(* ===== verification/RegistryClaims.thy ===== *)
theory RegistryClaims
  imports RegistryState
begin

text \<open>
  The claim commands of src/src/session-registry.ts: claimResources, updateClaims, applyClaimDeltas and releaseClaims, each
  one critical section that reads, validates the complete claim set it would leave, and commits.
\<close>

section \<open>Requests\<close>

record drain_finalization =
  df_contract_id :: string
  df_schema_version :: int
  df_status :: string
  df_next_action :: string
  df_admission :: string
  df_operation :: string
  df_session_id :: string
  df_admission_epoch :: int

record claim_options =
  op_session_id :: "string option"
  op_repository_id :: "string option"
  op_expected_generation :: "int option"
  op_force :: bool

datatype raw_delta = DeltaNotRecord | RawUpsert js_value js_value | RawRelease js_value | DeltaKindUnsupported

datatype canonical_delta = UpsertClaim string claim_mode | ReleaseClaim string

record claim_result =
  cr_claims :: "resource_claim list"
  cr_added :: "resource_claim list"
  cr_changed :: "(resource_claim \<times> resource_claim) list"
  cr_released :: "resource_claim list"
  cr_unchanged :: "string list"
  cr_idempotent :: bool
  cr_generation :: int

section \<open>Owner and preconditions\<close>

definition resolve_owner_session :: "registry_env \<Rightarrow> registry_session list \<Rightarrow> retention_failure + registry_session" where
  "resolve_owner_session env sessions =
     (case filter (\<lambda>s. rg_state s \<in> set CURRENT_SESSION_STATES \<and> rg_worktree_id s = re_worktree_path env) sessions of
        [] \<Rightarrow> registry_error_code ''SESSION_NOT_FOUND''
      | [s] \<Rightarrow> Inr s
      | _ \<Rightarrow> registry_error_code ''DUPLICATE_WORKTREE_OWNERSHIP'')"

definition select_session_id :: "registry_env \<Rightarrow> string option \<Rightarrow> registry_session list \<Rightarrow> retention_failure + string" where
  "select_session_id env requested sessions =
     (case requested of
        Some i \<Rightarrow> bind_sum (require (is_session_id i) (RegistryFailure ''INVALID_SESSION_ID'')) (\<lambda>_. Inr i)
      | None \<Rightarrow> bind_sum (resolve_owner_session env sessions) (\<lambda>s. Inr (rg_session_id s)))"

definition finalization_matches :: "drain_finalization \<Rightarrow> string \<Rightarrow> string \<Rightarrow> bool" where
  "finalization_matches f operation session_id \<longleftrightarrow>
     df_contract_id f = ''nawabari.session-execution-control.v1'' \<and> df_schema_version f = 1 \<and> df_status f = ''ready'' \<and>
     df_next_action f = ''finalize-lifecycle'' \<and> df_admission f = ''closed'' \<and> df_operation f = operation \<and>
     df_session_id f = session_id \<and> is_safe_integer (df_admission_epoch f) \<and> 1 \<le> df_admission_epoch f"

text \<open>\<open>assertDrainFinalizationUnsafe\<close>, which returns the closed admission the finalization is about\<close>

definition assert_drain_finalization ::
  "registry_env \<Rightarrow> registry_doc \<Rightarrow> drain_finalization option \<Rightarrow> string \<Rightarrow> string \<Rightarrow> session_admission option registry_call" where
  "assert_drain_finalization env doc finalization session_id operation =
     (let rejected = ''OPERATION_REJECTED'' in
      bind_call (pure_call (if operation \<noteq> ''release-claims'' then assert_no_park_intent doc session_id else Inr ())) (\<lambda>_.
      case finalization of
        None \<Rightarrow>
          bind_call (check_call (find_admission session_id (rd_admissions doc) = None) rejected) (\<lambda>_. pure_call (Inr None))
      | Some f \<Rightarrow>
          bind_call (check_call (finalization_matches f operation session_id) rejected) (\<lambda>_.
          bind_call (pure_call (retention_admission_unsafe doc session_id)) (\<lambda>admission.
          bind_call (check_call (\<not> ad_open admission \<and> ad_epoch admission = df_admission_epoch f) rejected) (\<lambda>_.
          bind_call (check_call (find_session session_id (rd_sessions doc) \<noteq> None) ''SESSION_NOT_FOUND'') (\<lambda>_.
          bind_call (check_call (operation = ''release-claims'' \<longrightarrow>
            map_option rg_state (find_session session_id (rd_sessions doc)) = Some SessActive) ''SESSION_NOT_ACTIVE'') (\<lambda>_.
          bind_call (assert_owned_executions_empty env doc session_id) (\<lambda>_. pure_call (Inr (Some admission))))))))))"

definition owner_of_session :: "registry_session \<Rightarrow> claim_owner_context" where
  "owner_of_session s =
     \<lparr>co_session_id = rg_session_id s, co_repository_id = rg_repository_id s, co_worktree_path = rg_worktree_path s,
      co_state = session_state_name (rg_state s)\<rparr>"

definition claim_owner ::
  "registry_env \<Rightarrow> registry_session list \<Rightarrow> string \<Rightarrow> string option \<Rightarrow> retention_failure + claim_owner_context" where
  "claim_owner env sessions session_id requested_repository =
     (let mismatch = RegistryFailure ''CLAIM_REPOSITORY_MISMATCH'' in
      bind_sum (require (requested_repository \<in> {None, Some (re_repository_id env)}) mismatch) (\<lambda>_.
      case find_session session_id sessions of
        None \<Rightarrow> registry_error_code ''SESSION_NOT_FOUND''
      | Some s \<Rightarrow>
          bind_sum (require (rg_repository_id s = re_repository_id env) mismatch) (\<lambda>_.
          bind_sum (require (rg_state s = SessActive) (RegistryFailure ''SESSION_NOT_ACTIVE'')) (\<lambda>_.
          Inr (owner_of_session s)))))"

definition assert_claim_set_mutation_intent :: "claim_options \<Rightarrow> int \<Rightarrow> retention_failure + unit" where
  "assert_claim_set_mutation_intent options actual =
     (case op_expected_generation options of
        None \<Rightarrow> require (op_force options) (RegistryFailure ''INVALID_OPERATION'')
      | Some expected \<Rightarrow>
          bind_sum (require (\<not> op_force options) (RegistryFailure ''INVALID_OPERATION'')) (\<lambda>_.
          bind_sum (require (generation_ok expected) (RegistryFailure ''INVALID_OPERATION'')) (\<lambda>_.
          require (expected = actual) (RegistryFailure ''STALE_CLAIM_SET''))))"

section \<open>Validation of a complete claim set\<close>

fun assert_no_overlapping_claims :: "filesystem \<Rightarrow> resource_claim list \<Rightarrow> resource_claim list \<Rightarrow> retention_failure + unit" where
  "assert_no_overlapping_claims fs priors [] = Inr ()"
| "assert_no_overlapping_claims fs priors (c # cs) =
     bind_sum (for_each_sum (\<lambda>prior.
       bind_sum (of_registry (claims_overlap fs c prior)) (\<lambda>overlap.
       require (\<not> overlap) (RegistryFailure (if rc_mode c = rc_mode prior then ''DUPLICATE_CLAIM'' else ''CONTRADICTORY_CLAIM''))))
       priors) (\<lambda>_.
     assert_no_overlapping_claims fs (priors @ [c]) cs)"

definition validate_requested_claim ::
  "filesystem \<Rightarrow> claim_owner_context \<Rightarrow> resource_claim list \<Rightarrow> facts_source \<Rightarrow> resource_claim \<Rightarrow> retention_failure + unit" where
  "validate_requested_claim fs owner existing facts candidate =
     (case find (\<lambda>c. rc_claim_id c = rc_claim_id candidate) existing of
        Some exact \<Rightarrow>
          require (rc_session_id exact = co_session_id owner \<and> rc_repository_id exact = co_repository_id owner \<and>
            rc_worktree_path exact = co_worktree_path owner \<and> rc_resource exact = rc_resource candidate \<and>
            rc_mode exact = rc_mode candidate) (RegistryFailure ''CONTRADICTORY_CLAIM'')
      | None \<Rightarrow>
          bind_sum (filter_sum (\<lambda>c. of_registry (claims_overlap fs candidate c)) existing) (\<lambda>overlapping.
          for_each_sum (\<lambda>current.
            if rc_session_id current = co_session_id owner
            then registry_error_code (if rc_mode current = rc_mode candidate then ''DUPLICATE_CLAIM'' else ''CONTRADICTORY_CLAIM'')
            else bind_sum (of_registry (claims_conflict fs candidate current (facts candidate current))) (\<lambda>conflict.
              require (\<not> conflict) (RegistryFailure ''RESOURCE_CLAIM_CONFLICT''))) overlapping))"

definition validate_requested_claims ::
  "filesystem \<Rightarrow> resource_claim list \<Rightarrow> claim_owner_context \<Rightarrow> resource_claim list \<Rightarrow> facts_source \<Rightarrow>
   retention_failure + resource_claim list" where
  "validate_requested_claims fs candidates owner existing facts =
     bind_sum (for_each_sum (validate_requested_claim fs owner existing facts) candidates) (\<lambda>_. Inr candidates)"

definition assert_complete_set ::
  "filesystem \<Rightarrow> resource_claim list \<Rightarrow> claim_owner_context \<Rightarrow> resource_claim list \<Rightarrow> facts_source \<Rightarrow>
   retention_failure + unit" where
  "assert_complete_set fs candidates owner external facts =
     bind_sum (assert_no_overlapping_claims fs [] candidates) (\<lambda>_.
     bind_sum (validate_requested_claims fs candidates owner external facts) (\<lambda>_. Inr ()))"

section \<open>Canonical requests\<close>

definition canonical_input_key :: "canonical_claim_input \<Rightarrow> string" where
  "canonical_input_key i =
     cc_resource i @ NUL # mode_name (cc_mode i) @ NUL #
     (case cc_sharing i of None \<Rightarrow> [] | Some b \<Rightarrow> sw_kind b) @ NUL # (case cc_sharing i of None \<Rightarrow> [] | Some b \<Rightarrow> sw_group_id b)"

definition create_claims ::
  "registry_env \<Rightarrow> claim_owner_context \<Rightarrow> string \<Rightarrow> canonical_claim_input list \<Rightarrow> retention_failure + resource_claim list" where
  "create_claims env owner timestamp inputs =
     map_sum_list (\<lambda>i. of_registry (create_resource_claim (re_sha env) i owner timestamp)) inputs"

definition canonical_claim_inputs ::
  "registry_env \<Rightarrow> raw_claim_input list \<Rightarrow> claim_owner_context \<Rightarrow> bool \<Rightarrow> canonical_claim_input list registry_call" where
  "canonical_claim_inputs env inputs owner allow_empty =
     bind_call (check_call (allow_empty \<or> inputs \<noteq> []) ''INVALID_CLAIM'') (\<lambda>_.
     bind_call (pure_call (map_sum_list (\<lambda>i. of_registry (canonicalize_claim_input (re_fs env) i owner)) inputs)) (\<lambda>unsorted.
     let canonical = sort_key canonical_input_key unsorted in
     bind_call (observing (re_clock env)) (\<lambda>timestamp.
     bind_call (pure_call (create_claims env owner timestamp canonical)) (\<lambda>claims.
     bind_call (pure_call (assert_no_overlapping_claims (re_fs env) [] claims)) (\<lambda>_.
     pure_call (Inr canonical))))))"

fun delta_resource_of :: "canonical_delta \<Rightarrow> string" where
  "delta_resource_of (UpsertClaim r m) = r"
| "delta_resource_of (ReleaseClaim r) = r"

fun delta_key :: "canonical_delta \<Rightarrow> string" where
  "delta_key (UpsertClaim r m) = r @ NUL # ''upsert'' @ NUL # mode_name m"
| "delta_key (ReleaseClaim r) = r @ NUL # ''release'' @ NUL # []"

definition plain_input :: "js_value \<Rightarrow> js_value \<Rightarrow> raw_claim_input" where
  "plain_input resource mode = InputRecord
     \<lparr>ci_resource = resource, ci_mode = mode, ci_repositoryId = JsUndefined, ci_repository_id = JsUndefined,
      ci_sessionId = JsUndefined, ci_session_id = JsUndefined, ci_worktreePath = JsUndefined, ci_worktree_path = JsUndefined,
      ci_sharing = SharingUndefined\<rparr>"

definition normalize_raw_delta :: "filesystem \<Rightarrow> claim_owner_context \<Rightarrow> raw_delta \<Rightarrow> retention_failure + canonical_delta" where
  "normalize_raw_delta fs owner delta =
     (case delta of
        RawUpsert resource mode \<Rightarrow>
          (case resource_claim_mode mode of
             None \<Rightarrow> registry_error_code ''INVALID_CLAIM''
           | Some m \<Rightarrow>
               bind_sum (of_registry (canonicalize_claim_input fs (plain_input resource mode) owner)) (\<lambda>i.
               Inr (UpsertClaim (cc_resource i) (cc_mode i))))
      | RawRelease resource \<Rightarrow>
          bind_sum (of_registry (canonicalize_claim_resource fs resource (co_worktree_path owner))) (\<lambda>r. Inr (ReleaseClaim r))
      | _ \<Rightarrow> registry_error_code ''INVALID_CLAIM'')"

fun canonical_deltas_from ::
  "filesystem \<Rightarrow> claim_owner_context \<Rightarrow> canonical_delta list \<Rightarrow> raw_delta list \<Rightarrow> retention_failure + canonical_delta list" where
  "canonical_deltas_from fs owner seen [] = Inr seen"
| "canonical_deltas_from fs owner seen (raw # rest) =
     bind_sum (normalize_raw_delta fs owner raw) (\<lambda>delta.
     case find (\<lambda>d. delta_resource_of d = delta_resource_of delta) seen of
       Some prior \<Rightarrow> registry_error_code (if prior = delta then ''DUPLICATE_CLAIM'' else ''CONTRADICTORY_CLAIM'')
     | None \<Rightarrow> canonical_deltas_from fs owner (seen @ [delta]) rest)"

definition canonical_claim_deltas ::
  "filesystem \<Rightarrow> claim_owner_context \<Rightarrow> raw_delta list \<Rightarrow> retention_failure + canonical_delta list" where
  "canonical_claim_deltas fs owner deltas =
     bind_sum (require (deltas \<noteq> []) (RegistryFailure ''INVALID_CLAIM'')) (\<lambda>_.
     bind_sum (canonical_deltas_from fs owner [] deltas) (\<lambda>canonical. Inr (sort_key delta_key canonical)))"

section \<open>The commands\<close>

definition own_claims :: "string \<Rightarrow> resource_claim list \<Rightarrow> resource_claim list" where
  "own_claims session_id claims = filter (\<lambda>c. rc_session_id c = session_id) claims"

definition other_claims :: "string \<Rightarrow> resource_claim list \<Rightarrow> resource_claim list" where
  "other_claims session_id claims = filter (\<lambda>c. rc_session_id c \<noteq> session_id) claims"

text \<open>The end of each command: the admission a finalization names opens again at the next epoch.\<close>

definition commit_claims ::
  "registry_env \<Rightarrow> registry_doc \<Rightarrow> resource_claim list \<Rightarrow> int \<Rightarrow> bool \<Rightarrow> drain_finalization option \<Rightarrow>
   session_admission option \<Rightarrow> unit registry_call" where
  "commit_claims env doc next_claims generation advance finalization admission =
     bind_call (pure_call (if finalization = None then Inr (rd_epoch doc) else next_runtime_epoch doc)) (\<lambda>epoch.
     bind_call (pure_call (if advance then next_registry_revision doc else Inr (rd_revision doc))) (\<lambda>revision.
     write_registry env doc (doc
       \<lparr>rd_claims := next_claims, rd_generation := generation, rd_revision := revision, rd_epoch := epoch,
        rd_admissions := (case (finalization, admission) of
            (Some f, Some a) \<Rightarrow> with_session_admission (a\<lparr>ad_open := True, ad_epoch := epoch\<rparr>) (rd_admissions doc)
          | _ \<Rightarrow> rd_admissions doc)\<rparr>)))"

definition claim_facts :: "registry_env \<Rightarrow> registry_doc \<Rightarrow> facts_source registry_call" where
  "claim_facts env doc = observing (\<lambda>t. registry_facts env t (rd_sessions doc) (rd_generation doc))"

definition claim_resources ::
  "registry_env \<Rightarrow> claim_options \<Rightarrow> raw_claim_input list \<Rightarrow> drain_finalization option \<Rightarrow> claim_result registry_call" where
  "claim_resources env options inputs finalization =
     with_lock env
       (bind_call (read_state env) (\<lambda>doc.
        bind_call (pure_call (select_session_id env (op_session_id options) (rd_sessions doc))) (\<lambda>session_id.
        bind_call (assert_drain_finalization env doc finalization session_id ''release-claims'') (\<lambda>admission.
        bind_call (pure_call (claim_owner env (rd_sessions doc) session_id (op_repository_id options))) (\<lambda>owner.
        bind_call (canonical_claim_inputs env inputs owner False) (\<lambda>requested.
        bind_call (observing (re_clock env)) (\<lambda>timestamp.
        bind_call (pure_call (create_claims env owner timestamp requested)) (\<lambda>candidates.
        bind_call (claim_facts env doc) (\<lambda>facts.
        let current = own_claims session_id (rd_claims doc) in
        bind_call (pure_call (validate_requested_claims (re_fs env) candidates owner
          (other_claims session_id (rd_claims doc) @ current) facts)) (\<lambda>accepted.
        let added = filter (\<lambda>c. rc_claim_id c \<notin> set (map rc_claim_id current)) accepted;
            next_claims = sort_resource_claims (rd_claims doc @ added) in
        bind_call (pure_call (next_claim_set_generation doc next_claims)) (\<lambda>generation.
        bind_call (commit_claims env doc next_claims generation (generation \<noteq> rd_generation doc \<or> finalization \<noteq> None)
          finalization admission) (\<lambda>_.
        pure_call (Inr
          \<lparr>cr_claims = own_claims session_id next_claims, cr_added = added, cr_changed = [], cr_released = [],
           cr_unchanged = [], cr_idempotent = (added = []), cr_generation = generation\<rparr>)))))))))))))"

definition update_claims ::
  "registry_env \<Rightarrow> claim_options \<Rightarrow> raw_claim_input list \<Rightarrow> drain_finalization option \<Rightarrow> claim_result registry_call" where
  "update_claims env options inputs finalization =
     with_lock env
       (bind_call (read_state env) (\<lambda>doc.
        bind_call (pure_call (assert_claim_set_mutation_intent options (rd_generation doc))) (\<lambda>_.
        bind_call (pure_call (select_session_id env (op_session_id options) (rd_sessions doc))) (\<lambda>session_id.
        bind_call (assert_drain_finalization env doc finalization session_id ''release-claims'') (\<lambda>admission.
        bind_call (pure_call (claim_owner env (rd_sessions doc) session_id (op_repository_id options))) (\<lambda>owner.
        bind_call (canonical_claim_inputs env inputs owner True) (\<lambda>requested.
        let current = own_claims session_id (rd_claims doc); external = other_claims session_id (rd_claims doc) in
        bind_call (observing (re_clock env)) (\<lambda>timestamp.
        bind_call (pure_call (create_claims env owner timestamp requested)) (\<lambda>candidates.
        bind_call (claim_facts env doc) (\<lambda>facts.
        bind_call (pure_call (validate_requested_claims (re_fs env) candidates owner external facts)) (\<lambda>accepted.
        let released = filter (\<lambda>c. rc_claim_id c \<notin> set (map rc_claim_id accepted)) current;
            added = filter (\<lambda>c. rc_claim_id c \<notin> set (map rc_claim_id current)) accepted;
            unchanged = (released = [] \<and> added = [] \<and> length accepted = length current);
            materialized = map (\<lambda>c. case find (\<lambda>p. rc_claim_id p = rc_claim_id c) (rev current) of
                None \<Rightarrow> c
              | Some p \<Rightarrow> c\<lparr>rc_created_at := rc_created_at p, rc_updated_at := rc_updated_at p\<rparr>) accepted;
            next_claims = sort_resource_claims (external @ materialized) in
        bind_call (pure_call (next_claim_set_generation doc next_claims)) (\<lambda>generation.
        bind_call (commit_claims env doc next_claims generation (generation \<noteq> rd_generation doc \<or> finalization \<noteq> None)
          finalization admission) (\<lambda>_.
        pure_call (Inr
          \<lparr>cr_claims = materialized, cr_added = added, cr_changed = [], cr_released = released, cr_unchanged = [],
           cr_idempotent = unchanged, cr_generation = generation\<rparr>))))))))))))))"

text \<open>One delta, on the claims by resource; what it adds, changes, releases and leaves is kept beside them.\<close>

record delta_state =
  dl_next :: "(string \<times> resource_claim) list"
  dl_added :: "resource_claim list"
  dl_changed :: "(resource_claim \<times> resource_claim) list"
  dl_released :: "resource_claim list"
  dl_unchanged :: "string list"

definition transition_mode_of :: "resource_claim option \<Rightarrow> transition_mode" where
  "transition_mode_of c = (case c of None \<Rightarrow> NoClaim | Some x \<Rightarrow> ClaimMode (rc_mode x))"

definition apply_claim_delta ::
  "registry_env \<Rightarrow> claim_owner_context \<Rightarrow> string \<Rightarrow> (string \<times> resource_claim) list \<Rightarrow> canonical_delta \<Rightarrow> delta_state \<Rightarrow>
   retention_failure + delta_state" where
  "apply_claim_delta env owner timestamp current delta s =
     (case delta of
        ReleaseClaim resource \<Rightarrow>
          (case map_of current resource of
             None \<Rightarrow> Inr (s\<lparr>dl_unchanged := dl_unchanged s @ [resource]\<rparr>)
           | Some before \<Rightarrow>
               Inr (s\<lparr>dl_next := AList.delete resource (dl_next s), dl_released := dl_released s @ [before]\<rparr>))
      | UpsertClaim resource mode \<Rightarrow>
          let before = map_of current resource;
              transition = RESOURCE_CLAIM_TRANSITION_MATRIX (transition_mode_of before) (ClaimMode mode) in
          if transition = NoOp then
            (case before of
               None \<Rightarrow> registry_error_code ''OPERATION_REJECTED''
             | Some b \<Rightarrow> Inr (s\<lparr>dl_unchanged := dl_unchanged s @ [resource]\<rparr>))
          else
            bind_sum (of_registry (create_resource_claim (re_sha env)
              \<lparr>cc_resource = resource, cc_mode = mode, cc_sharing = None\<rparr> owner timestamp)) (\<lambda>after.
            let s' = s\<lparr>dl_next := AList.update resource after (dl_next s)\<rparr> in
            if transition = Change then
              (case before of
                 None \<Rightarrow> registry_error_code ''OPERATION_REJECTED''
               | Some b \<Rightarrow> Inr (s'\<lparr>dl_changed := dl_changed s' @ [(b, after)]\<rparr>))
            else Inr (s'\<lparr>dl_added := dl_added s' @ [after]\<rparr>)))"

definition claims_by_resource :: "resource_claim list \<Rightarrow> (string \<times> resource_claim) list" where
  "claims_by_resource claims = fold (\<lambda>c m. AList.update (rc_resource c) c m) claims []"

definition apply_claim_deltas ::
  "registry_env \<Rightarrow> claim_options \<Rightarrow> raw_delta list \<Rightarrow> drain_finalization option \<Rightarrow> claim_result registry_call" where
  "apply_claim_deltas env options raw finalization =
     with_lock env
       (bind_call (read_state env) (\<lambda>doc.
        bind_call (pure_call (assert_claim_set_mutation_intent options (rd_generation doc))) (\<lambda>_.
        bind_call (pure_call (select_session_id env (op_session_id options) (rd_sessions doc))) (\<lambda>session_id.
        bind_call (assert_drain_finalization env doc finalization session_id ''release-claims'') (\<lambda>admission.
        bind_call (pure_call (claim_owner env (rd_sessions doc) session_id (op_repository_id options))) (\<lambda>owner.
        bind_call (pure_call (canonical_claim_deltas (re_fs env) owner raw)) (\<lambda>deltas.
        bind_call (observing (re_clock env)) (\<lambda>timestamp.
        let current = claims_by_resource (own_claims session_id (rd_claims doc));
            external = other_claims session_id (rd_claims doc) in
        bind_call (pure_call (fold_sum (apply_claim_delta env owner timestamp current) deltas
          \<lparr>dl_next = current, dl_added = [], dl_changed = [], dl_released = [], dl_unchanged = []\<rparr>)) (\<lambda>state.
        let session_claims = sort_resource_claims (map snd (dl_next state)) in
        bind_call (claim_facts env doc) (\<lambda>facts.
        bind_call (pure_call (assert_complete_set (re_fs env) session_claims owner external facts)) (\<lambda>_.
        let next_claims = sort_resource_claims (external @ session_claims) in
        bind_call (pure_call (next_claim_set_generation doc next_claims)) (\<lambda>generation.
        bind_call (if generation \<noteq> rd_generation doc \<or> finalization \<noteq> None
            then commit_claims env doc next_claims generation True finalization admission else pure_call (Inr ())) (\<lambda>_.
        pure_call (Inr
          \<lparr>cr_claims = session_claims, cr_added = dl_added state, cr_changed = dl_changed state,
           cr_released = dl_released state, cr_unchanged = dl_unchanged state,
           cr_idempotent = (generation = rd_generation doc), cr_generation = generation\<rparr>))))))))))))))"

text \<open>\<open>releaseClaims\<close>: by exact resources through the deltas, otherwise by claim identifiers or all of them\<close>

definition release_claims_by_id ::
  "registry_env \<Rightarrow> claim_options \<Rightarrow> js_value list option \<Rightarrow> bool \<Rightarrow> drain_finalization option \<Rightarrow> claim_result registry_call" where
  "release_claims_by_id env options claim_ids all finalization =
     with_lock env
       (bind_call (read_state env) (\<lambda>doc.
        bind_call (pure_call (assert_claim_set_mutation_intent options (rd_generation doc))) (\<lambda>_.
        bind_call (pure_call (select_session_id env (op_session_id options) (rd_sessions doc))) (\<lambda>session_id.
        bind_call (assert_drain_finalization env doc finalization session_id ''release-claims'') (\<lambda>admission.
        bind_call (check_call (find_session session_id (rd_sessions doc) \<noteq> None) ''SESSION_NOT_FOUND'') (\<lambda>_.
        bind_call (check_call (\<not> (all \<and> claim_ids \<noteq> None)) ''INVALID_OPERATION'') (\<lambda>_.
        bind_call (pure_call (map_sum_list (\<lambda>v. case v of
            JsString s \<Rightarrow> if s = [] then registry_error_code ''CLAIM_NOT_FOUND'' else Inr s
          | _ \<Rightarrow> registry_error_code ''CLAIM_NOT_FOUND'') (case claim_ids of None \<Rightarrow> [] | Some ids \<Rightarrow> ids))) (\<lambda>selected.
        let session_claims = own_claims session_id (rd_claims doc);
            wanted = (if claim_ids = None \<or> all then map rc_claim_id session_claims else selected) in
        bind_call (pure_call (for_each_sum (\<lambda>i. case find (\<lambda>c. rc_claim_id c = i) (rd_claims doc) of
              Some existing \<Rightarrow> require (rc_session_id existing = session_id) (RegistryFailure ''CLAIM_SESSION_MISMATCH'')
            | None \<Rightarrow> Inr ()) (if claim_ids = None then [] else wanted))) (\<lambda>_.
        let released = filter (\<lambda>c. rc_claim_id c \<in> set wanted) session_claims;
            remaining = filter (\<lambda>c. rc_claim_id c \<notin> set wanted) session_claims;
            next_claims = filter (\<lambda>c. rc_session_id c \<noteq> session_id \<or> rc_claim_id c \<notin> set wanted) (rd_claims doc) in
        bind_call (pure_call (next_claim_set_generation doc next_claims)) (\<lambda>generation.
        bind_call (if generation \<noteq> rd_generation doc \<or> finalization \<noteq> None
            then commit_claims env doc next_claims generation True finalization admission else pure_call (Inr ())) (\<lambda>_.
        pure_call (Inr
          \<lparr>cr_claims = remaining, cr_added = [], cr_changed = [], cr_released = released, cr_unchanged = [],
           cr_idempotent = (released = []), cr_generation = generation\<rparr>))))))))))))"

definition release_claims ::
  "registry_env \<Rightarrow> claim_options \<Rightarrow> js_value list option \<Rightarrow> js_value list option \<Rightarrow> bool \<Rightarrow> drain_finalization option \<Rightarrow>
   claim_result registry_call" where
  "release_claims env options resources claim_ids all finalization =
     (case resources of
        Some selected \<Rightarrow>
          bind_call (check_call (selected \<noteq> []) ''INVALID_CLAIM'') (\<lambda>_.
          bind_call (check_call (claim_ids = None) ''INVALID_OPERATION'') (\<lambda>_.
          bind_call (check_call (\<not> all) ''INVALID_OPERATION'') (\<lambda>_.
          apply_claim_deltas env (options\<lparr>op_repository_id := None\<rparr>) (map RawRelease selected) finalization)))
      | None \<Rightarrow> release_claims_by_id env options claim_ids all finalization)"

end
