(* ===== verification/RetentionRegistry.thy ===== *)
theory RetentionRegistry
  imports RegistryClaims
begin

text \<open>
  The registry as the authority of a park and a resume (the methods of SessionRegistry that implement
  SessionRetentionAuthority in src/src/session-registry.ts): the durable park intent with its closed launch admission,
  the drain, the two commits, and the checks of the external scope a session comes back under. The theory discharges the
  laws of \<open>retention_authority\<close> for them, and states where the code departs from what the interface asks.
\<close>

section \<open>Observation\<close>

definition retention_physical_identity :: "registry_env \<Rightarrow> registry_session \<Rightarrow> physical_identity registry_call" where
  "retention_physical_identity env s =
     bind_call (observing (\<lambda>t. re_physical env t (rg_worktree_path s) (rg_branch_name s))) (\<lambda>observed.
     case observed of
       Inl code \<Rightarrow> pure_call (registry_error_code code)
     | Inr p \<Rightarrow>
         bind_call (check_call (same_physical_identity p (identity_of_session s)) ''OWNERSHIP_MISMATCH'') (\<lambda>_.
         pure_call (Inr p)))"

definition retention_snapshot_unsafe :: "registry_env \<Rightarrow> registry_doc \<Rightarrow> string \<Rightarrow> retention_snapshot registry_call" where
  "retention_snapshot_unsafe env doc session_id =
     (case find_session session_id (rd_sessions doc) of
        None \<Rightarrow> pure_call (registry_error_code ''SESSION_NOT_FOUND'')
      | Some s \<Rightarrow>
          bind_call (check_call (rg_state s = SessActive \<or> rg_state s = SessParked) ''SESSION_NOT_ACTIVE'') (\<lambda>_.
          bind_call (retention_physical_identity env s) (\<lambda>p.
          pure_call (Inr
            \<lparr>sn_session = \<lparr>rs_session_id = session_id, rs_state = session_state_name (rg_state s), rs_physical_identity = p\<rparr>,
             sn_claims = rd_claims doc, sn_claim_set_generation = rd_generation doc,
             sn_retention = find_retention session_id (rd_retentions doc)\<rparr>))))"

definition registry_observe :: "registry_env \<Rightarrow> string \<Rightarrow> retention_snapshot registry_call" where
  "registry_observe env session_id =
     bind_call (check_call (is_session_id session_id) ''INVALID_SESSION_ID'') (\<lambda>_.
     with_lock env (bind_call (read_state env) (\<lambda>doc. retention_snapshot_unsafe env doc session_id)))"

definition pinned_profile_unsafe :: "registry_env \<Rightarrow> registry_doc \<Rightarrow> string \<Rightarrow> retention_failure + pinned_profile option" where
  "pinned_profile_unsafe env doc session_id =
     (case find_pin session_id (rd_pins doc) of
        None \<Rightarrow> Inr None
      | Some entry \<Rightarrow>
          (case (re_parse_pin env (pe_value entry), find_session session_id (rd_sessions doc)) of
             (Some pin, Some s) \<Rightarrow>
               if pn_repository_id pin \<noteq> rg_repository_id s \<or>
                  (case rg_base_revision s of None \<Rightarrow> False | Some r \<Rightarrow> pn_base_revision pin \<noteq> r)
               then registry_error_code ''REGISTRY_CORRUPT'' else Inr (Some pin)
           | _ \<Rightarrow> registry_error_code ''REGISTRY_CORRUPT''))"

section \<open>The fence\<close>

definition retention_operation_id_ok :: "string \<Rightarrow> bool" where
  "retention_operation_id_ok s \<longleftrightarrow> bounded_retention_text s"

definition assert_retention_fence_token :: "string \<Rightarrow> string \<Rightarrow> string \<Rightarrow> fence_lease registry_call" where
  "assert_retention_fence_token session_id operation_id token w =
     ((case map_of (rw_fences w) session_id of
         Some lease \<Rightarrow> if fl_operation_id lease = operation_id \<and> fl_token lease = token then Inr lease
           else retention_error ''FENCE_REJECTED''
       | None \<Rightarrow> retention_error ''FENCE_REJECTED''), w)"

definition assert_retention_fence :: "registry_doc \<Rightarrow> string \<Rightarrow> fence_lease \<Rightarrow> retention_failure + unit" where
  "assert_retention_fence doc session_id lease =
     (let rejected = SessionRetentionError ''FENCE_REJECTED'' in
      bind_sum (require (map_option rg_state (find_session session_id (rd_sessions doc)) = Some SessActive)
        (RegistryFailure ''SESSION_NOT_ACTIVE'')) (\<lambda>_.
      bind_sum (require (case park_intent_unsafe doc session_id of
          None \<Rightarrow> False
        | Some i \<Rightarrow> pk_operation_id i = fl_operation_id lease \<and> pk_admission_epoch i = fl_admission_epoch lease \<and>
            pk_expected_generation i = fl_expected_generation lease) rejected) (\<lambda>_.
      bind_sum (retention_admission_unsafe doc session_id) (\<lambda>admission.
      require (\<not> ad_open admission \<and> ad_epoch admission = fl_admission_epoch lease) rejected))))"

definition with_lease :: "string \<Rightarrow> 'a option \<Rightarrow> (string \<times> 'a) list \<Rightarrow> (string \<times> 'a) list" where
  "with_lease session_id lease leases =
     (case lease of None \<Rightarrow> AList.delete session_id leases | Some l \<Rightarrow> AList.update session_id l leases)"

definition set_fence :: "string \<Rightarrow> fence_lease option \<Rightarrow> unit registry_call" where
  "set_fence session_id lease w = (Inr (), w\<lparr>rw_fences := with_lease session_id lease (rw_fences w)\<rparr>)"

definition set_validation :: "string \<Rightarrow> validation_lease option \<Rightarrow> unit registry_call" where
  "set_validation session_id lease w = (Inr (), w\<lparr>rw_validations := with_lease session_id lease (rw_validations w)\<rparr>)"

definition lease_of_intent :: "park_intent \<Rightarrow> string \<Rightarrow> fence_lease" where
  "lease_of_intent i token =
     \<lparr>fl_operation_id = pk_operation_id i, fl_token = token, fl_admission_epoch = pk_admission_epoch i,
      fl_expected_generation = pk_expected_generation i\<rparr>"

text \<open>The critical section of \<open>fence\<close>: adopt the intent of this operation, or close the admission and record one.\<close>

definition fence_section :: "registry_env \<Rightarrow> string \<Rightarrow> string \<Rightarrow> fence_lease option \<Rightarrow> park_intent registry_call" where
  "fence_section env session_id operation_id prior =
     bind_call (read_state env) (\<lambda>doc.
     case find_session session_id (rd_sessions doc) of
       None \<Rightarrow> pure_call (registry_error_code ''SESSION_NOT_FOUND'')
     | Some s \<Rightarrow>
     bind_call (check_call (rg_state s = SessActive) ''SESSION_NOT_ACTIVE'') (\<lambda>_.
     case park_intent_unsafe doc session_id of
       Some existing \<Rightarrow>
         if pk_operation_id existing \<noteq> operation_id then pure_call (retention_error ''FENCE_REJECTED'')
         else
           bind_call (observing (re_uuid env)) (\<lambda>fresh.
           bind_call (pure_call (assert_retention_fence doc session_id
             (case prior of None \<Rightarrow> lease_of_intent existing fresh | Some lease \<Rightarrow> lease))) (\<lambda>_.
           pure_call (Inr existing)))
     | None \<Rightarrow>
     bind_call (pure_call (retention_admission_unsafe doc session_id)) (\<lambda>admission.
     bind_call (check_call (ad_epoch admission \<le> rd_epoch doc) ''OPERATION_REJECTED'') (\<lambda>_.
     if \<not> ad_open admission then pure_call (retention_error ''FENCE_REJECTED'')
     else
     bind_call (check_call (ad_epoch admission = rd_epoch doc) ''OPERATION_REJECTED'') (\<lambda>_.
     bind_call (pure_call (next_runtime_epoch doc)) (\<lambda>epoch.
     bind_call (observing (re_clock env)) (\<lambda>now.
     let intent = \<lparr>pk_operation_id = operation_id, pk_session_id = session_id, pk_admission_epoch = epoch,
           pk_expected_generation = rd_generation doc, pk_created_at = now, pk_updated_at = now\<rparr> in
     bind_call (pure_call (next_registry_revision doc)) (\<lambda>revision.
     bind_call (write_registry env doc (doc
       \<lparr>rd_revision := revision, rd_epoch := epoch,
        rd_admissions := with_session_admission (admission\<lparr>ad_open := False, ad_epoch := epoch\<rparr>) (rd_admissions doc),
        rd_park_intents := rd_park_intents doc @ [intent]\<rparr>)) (\<lambda>_. pure_call (Inr intent))))))))))"

definition fence_under :: "registry_env \<Rightarrow> string \<Rightarrow> string \<Rightarrow> fence_lease option \<Rightarrow> fence_result registry_call" where
  "fence_under env session_id operation_id prior =
     (if prior \<noteq> None \<and> map_option fl_operation_id prior \<noteq> Some operation_id then pure_call (Inr FenceRejected)
      else
        bind_call (with_lock env (fence_section env session_id operation_id prior)) (\<lambda>intent.
        bind_call (observing (re_uuid env)) (\<lambda>fresh.
        let lease = lease_of_intent (intent\<lparr>pk_operation_id := operation_id\<rparr>)
              (case prior of None \<Rightarrow> fresh | Some l \<Rightarrow> fl_token l) in
        bind_call (set_fence session_id (Some lease)) (\<lambda>_. pure_call (Inr (FenceAccepted (fl_token lease)))))))"

definition registry_fence :: "registry_env \<Rightarrow> string \<Rightarrow> string \<Rightarrow> fence_result registry_call" where
  "registry_fence env session_id operation_id =
     catch_call
       (bind_call (check_call (is_session_id session_id) ''INVALID_SESSION_ID'') (\<lambda>_.
        bind_call (pure_call (require (retention_operation_id_ok operation_id) (SessionRetentionError ''INVALID_INPUT''))) (\<lambda>_ w.
        fence_under env session_id operation_id (map_of (rw_fences w) session_id) w)))
       (\<lambda>_. pure_call (Inr FenceRejected))"

section \<open>Drain and revalidation\<close>

definition registry_drain :: "registry_env \<Rightarrow> string \<Rightarrow> string \<Rightarrow> string \<Rightarrow> drain_result registry_call" where
  "registry_drain env session_id operation_id token =
     catch_call
       (bind_call (check_call (is_session_id session_id) ''INVALID_SESSION_ID'') (\<lambda>_.
        bind_call (assert_retention_fence_token session_id operation_id token) (\<lambda>lease.
        bind_call (with_lock env (bind_call (read_state env) (\<lambda>doc.
          bind_call (pure_call (assert_retention_fence doc session_id lease)) (\<lambda>_. pure_call (Inr doc))))) (\<lambda>doc.
        bind_call (assert_owned_executions_empty env doc session_id) (\<lambda>_.
        pure_call (Inr (Drained (length (filter (\<lambda>x. xn_session_id x = session_id) (rd_executions doc))))))))))
       (\<lambda>_. pure_call (Inr DrainRejected))"

definition registry_revalidate :: "registry_env \<Rightarrow> string \<Rightarrow> string \<Rightarrow> string \<Rightarrow> revalidate_result registry_call" where
  "registry_revalidate env session_id operation_id token =
     catch_call
       (bind_call (check_call (is_session_id session_id) ''INVALID_SESSION_ID'') (\<lambda>_.
        bind_call (assert_retention_fence_token session_id operation_id token) (\<lambda>lease.
        with_lock env
          (bind_call (read_state env) (\<lambda>doc.
           bind_call (pure_call (assert_retention_fence doc session_id lease)) (\<lambda>_.
           bind_call (assert_owned_executions_empty env doc session_id) (\<lambda>_.
           bind_call (retention_snapshot_unsafe env doc session_id) (\<lambda>snapshot.
           bind_call (pure_call (pinned_profile_unsafe env doc session_id)) (\<lambda>profile.
           bind_call (check_call (profile \<noteq> None) ''OPERATION_REJECTED'') (\<lambda>_.
           pure_call (Inr (Revalidated snapshot))))))))))))
       (\<lambda>_. pure_call (Inr RevalidateRejected))"

section \<open>The park commit\<close>

definition plain_intents :: "claim_intent list \<Rightarrow> raw_claim_input list" where
  "plain_intents intents = map (\<lambda>i. plain_input (JsString (ri_resource i)) (JsString (mode_name (ri_mode i)))) intents"

definition intent_of_input :: "canonical_claim_input \<Rightarrow> claim_intent" where
  "intent_of_input i = \<lparr>ri_resource = cc_resource i, ri_mode = cc_mode i\<rparr>"

definition assert_intent_owned :: "resource_claim list \<Rightarrow> canonical_claim_input \<Rightarrow> retention_failure + unit" where
  "assert_intent_owned session_claims desired =
     (case find (\<lambda>c. rc_resource c = cc_resource desired \<and> rc_mode c = cc_mode desired) session_claims of
        None \<Rightarrow> registry_error_code ''STALE_CLAIM_SET''
      | Some existing \<Rightarrow> require (rc_sharing existing = None) (RegistryFailure ''INVALID_CLAIM''))"

definition park_section :: "registry_env \<Rightarrow> park_commit \<Rightarrow> commit_result registry_call" where
  "park_section env input =
     (let session_id = pc_session_id input; stale = CommitRejected (pc_operation_id input) ''STALE_CLAIM_SET'' in
      bind_call (read_state env) (\<lambda>doc.
      bind_call (assert_retention_fence_token session_id (pc_operation_id input) (pc_fence_token input)) (\<lambda>lease.
      bind_call (pure_call (assert_retention_fence doc session_id lease)) (\<lambda>_.
      case find_session session_id (rd_sessions doc) of
        None \<Rightarrow> pure_call (registry_error_code ''SESSION_NOT_FOUND'')
      | Some s \<Rightarrow>
      bind_call (check_call (pc_expected_state input = ''active'' \<and> rg_state s = SessActive) ''SESSION_NOT_ACTIVE'') (\<lambda>_.
      if pc_expected_generation input \<noteq> fl_expected_generation lease \<or> pc_expected_generation input \<noteq> rd_generation doc
      then pure_call (Inr stale)
      else
      bind_call (retention_physical_identity env s) (\<lambda>identity.
      bind_call (pure_call (require (same_physical_identity (pc_physical_identity input) identity)
        (SessionRetentionError ''PHYSICAL_IDENTITY_MISMATCH''))) (\<lambda>_.
      bind_call (pure_call (pinned_profile_unsafe env doc session_id)) (\<lambda>profile.
      bind_call (pure_call (case profile of
          None \<Rightarrow> retention_error ''PINNED_PROFILE_MISMATCH''
        | Some pin \<Rightarrow> bind_sum (retention_identity_digest (re_sha env) (pn_identity pin)) (\<lambda>digest.
            require (digest = pc_pinned_profile_digest input) (SessionRetentionError ''PINNED_PROFILE_MISMATCH'')))) (\<lambda>_.
      bind_call (assert_owned_executions_empty env doc session_id) (\<lambda>_.
      bind_call (canonical_claim_inputs env (plain_intents (pc_desired_claims input)) (owner_of_session s) True) (\<lambda>desired.
      let session_claims = own_claims session_id (rd_claims doc) in
      bind_call (pure_call (for_each_sum (assert_intent_owned session_claims) desired)) (\<lambda>_.
      if sort (map rc_claim_id session_claims) \<noteq> sort (pc_release_claim_ids input) then pure_call (Inr stale)
      else
      bind_call (pure_call (retention_admission_unsafe doc session_id)) (\<lambda>admission.
      bind_call (pure_call (require (\<not> ad_open admission \<and> ad_epoch admission = fl_admission_epoch lease)
        (SessionRetentionError ''FENCE_REJECTED''))) (\<lambda>_.
      bind_call (observing (re_clock env)) (\<lambda>now.
      bind_call (pure_call (require (is_timestamp (pc_parked_at input) \<and> sha256_text (pc_pinned_profile_digest input))
        (SessionRetentionError ''INVALID_INPUT''))) (\<lambda>_.
      bind_call (observing (re_clock env)) (\<lambda>transition_now.
      let updated = transition_session_state s SessParked transition_now;
          retention = \<lparr>rt_schema_version = 1, rt_operation_id = pc_operation_id input, rt_session_id = session_id,
            rt_repository_id = rg_repository_id s, rt_state = ''parked'', rt_physical_identity = identity,
            rt_desired_claims = map intent_of_input desired, rt_pinned_profile_digest = pc_pinned_profile_digest input,
            rt_parked_at = pc_parked_at input, rt_updated_at = max now (pc_parked_at input)\<rparr>;
          claims = sort_resource_claims (other_claims session_id (rd_claims doc)) in
      bind_call (pure_call (next_claim_set_generation doc claims)) (\<lambda>generation.
      bind_call (pure_call (next_registry_revision doc)) (\<lambda>revision.
      bind_call (write_registry env doc (doc
        \<lparr>rd_sessions := map (\<lambda>r. if rg_session_id r = session_id then updated else r) (rd_sessions doc),
         rd_claims := claims, rd_generation := generation, rd_revision := revision,
         rd_retentions := filter (\<lambda>r. rt_session_id r \<noteq> session_id) (rd_retentions doc) @ [retention],
         rd_park_intents := filter (\<lambda>i. pk_session_id i \<noteq> session_id) (rd_park_intents doc)\<rparr>)) (\<lambda>_.
      bind_call (set_fence session_id None) (\<lambda>_.
      bind_call (set_validation session_id None) (\<lambda>_.
      pure_call (Inr (CommitAccepted (pc_operation_id input)
        \<lparr>sn_session = \<lparr>rs_session_id = session_id, rs_state = ''parked'', rs_physical_identity = identity\<rparr>,
         sn_claims = claims, sn_claim_set_generation = generation, sn_retention = Some retention\<rparr>
        (Some session_claims)))))))))))))))))))))))))"

definition registry_atomic_park :: "registry_env \<Rightarrow> park_commit \<Rightarrow> commit_result registry_call" where
  "registry_atomic_park env input =
     catch_call
       (bind_call (with_lock env (park_section env input)) (\<lambda>result.
        bind_call (case result of CommitAccepted _ _ _ \<Rightarrow> pure_call (Inr ()) | _ \<Rightarrow> set_fence (pc_session_id input) None) (\<lambda>_.
        pure_call (Inr result))))
       (\<lambda>e. bind_call (set_fence (pc_session_id input) None) (\<lambda>_.
        pure_call (if e = RegistryFailure ''STALE_CLAIM_SET'' then Inr (CommitRejected (pc_operation_id input) ''STALE_CLAIM_SET'')
          else if e = RegistryFailure ''REGISTRY_DURABILITY_UNCERTAIN'' then Inr (CommitUncertain (pc_operation_id input))
          else Inl e)))"

section \<open>Resuming\<close>

text \<open>The objects that are digested\<close>

definition identity_json :: "physical_identity \<Rightarrow> json" where
  "identity_json p =
     JObj [(''repositoryId'', JStr (pi_repository_id p)), (''worktreeId'', JStr (pi_worktree_id p)),
       (''worktreePath'', JStr (pi_worktree_path p)), (''branchId'', JStr (pi_branch_id p)), (''branchName'', JStr (pi_branch_name p))]"

definition intents_json :: "claim_intent list \<Rightarrow> json" where
  "intents_json intents =
     JArr (map (\<lambda>i. JObj [(''resource'', JStr (ri_resource i)), (''mode'', JStr (mode_name (ri_mode i)))]) intents)"

definition retention_json :: "retention_record \<Rightarrow> json" where
  "retention_json r =
     JObj [(''schemaVersion'', JNum (rt_schema_version r)), (''operationId'', JStr (rt_operation_id r)),
       (''sessionId'', JStr (rt_session_id r)), (''repositoryId'', JStr (rt_repository_id r)), (''state'', JStr (rt_state r)),
       (''physicalIdentity'', identity_json (rt_physical_identity r)), (''desiredClaims'', intents_json (rt_desired_claims r)),
       (''pinnedProfileDigest'', JStr (rt_pinned_profile_digest r)), (''parkedAt'', JStr (rt_parked_at r)),
       (''updatedAt'', JStr (rt_updated_at r))]"

definition claim_json :: "resource_claim \<Rightarrow> json" where
  "claim_json c =
     JObj ([(''schemaVersion'', JNum (rc_schema_version c)), (''claimId'', JStr (rc_claim_id c)), (''sessionId'', JStr (rc_session_id c)),
       (''repositoryId'', JStr (rc_repository_id c)), (''worktreePath'', JStr (rc_worktree_path c)),
       (''resource'', JStr (rc_resource c)), (''mode'', JStr (mode_name (rc_mode c)))] @
       (case rc_sharing c of None \<Rightarrow> []
        | Some b \<Rightarrow> [(''sharing'', JObj [(''kind'', JStr (sw_kind b)), (''groupId'', JStr (sw_group_id b))])]) @
       [(''createdAt'', JStr (rc_created_at c)), (''updatedAt'', JStr (rc_updated_at c))])"

definition snapshot_json :: "retention_snapshot \<Rightarrow> json" where
  "snapshot_json s =
     JObj ([(''session'', JObj [(''sessionId'', JStr (rs_session_id (sn_session s))), (''state'', JStr (rs_state (sn_session s))),
         (''physicalIdentity'', identity_json (rs_physical_identity (sn_session s)))]),
       (''claims'', JArr (map claim_json (sn_claims s))), (''claimSetGeneration'', JNum (sn_claim_set_generation s))] @
       (case sn_retention s of None \<Rightarrow> [] | Some r \<Rightarrow> [(''retention'', retention_json r)]))"

definition execution_scope_json :: "execution_scope \<Rightarrow> json" where
  "execution_scope_json x =
     JObj [(''version'', JNum 1), (''kind'', JStr IMPLEMENTATION_EXECUTION_SCOPE_KIND), (''authorization'', xs_authorization x),
       (''repository'', repository_json (xs_repository x)), (''base'', base_json (xs_base x)), (''scope'', scope_json (xs_scope x))]"

definition same_retention_record :: "(string \<Rightarrow> string) \<Rightarrow> retention_record \<Rightarrow> retention_record \<Rightarrow> bool" where
  "same_retention_record sha l r \<longleftrightarrow>
     (case (retention_identity_digest sha (retention_json l), retention_identity_digest sha (retention_json r)) of
        (Inr a, Inr b) \<Rightarrow> a = b | _ \<Rightarrow> False)"

definition retention_resume_request_digest ::
  "(string \<Rightarrow> string) \<Rightarrow> 'a resume_input_scheme \<Rightarrow> execution_scope \<Rightarrow> retention_failure + string" where
  "retention_resume_request_digest sha input external =
     retention_identity_digest sha (JObj
       [(''operationId'', JStr (ru_operation_id input)), (''sessionId'', JStr (ru_session_id input)),
        (''snapshot'', snapshot_json (ru_snapshot input)), (''retention'', retention_json (ru_retention input)),
        (''physicalIdentity'', identity_json (ru_physical_identity input)),
        (''pinnedProfileDigest'', JStr (ru_pinned_profile_digest input)), (''desiredClaims'', intents_json (ru_desired_claims input)),
        (''latestExternalScope'', execution_scope_json external)])"

text \<open>\<open>validateRetentionExternalScope\<close>: the scope, if it is accepted\<close>

definition permitted_by_all ::
  "filesystem_scope \<Rightarrow> work_scope \<Rightarrow> work_scope \<Rightarrow> filesystem_operation \<Rightarrow> string \<Rightarrow> bool" where
  "permitted_by_all profile working external operation path \<longleftrightarrow>
     pm_allowed (decide_filesystem_scope_permission profile operation path None) \<and>
     pm_allowed (decide_filesystem_scope_permission (permission_scope_of working) operation path None) \<and>
     pm_allowed (decide_filesystem_scope_permission (permission_scope_of external) operation path None)"

definition validate_retention_external_scope ::
  "registry_session option \<Rightarrow> pinned_profile option \<Rightarrow> json \<Rightarrow> claim_intent list \<Rightarrow> execution_scope option" where
  "validate_retention_external_scope session pin input desired =
     (case (session, pin) of
        (Some s, Some profile) \<Rightarrow>
          (case (rg_working_set s, parse_implementation_execution_scope input) of
             (Some working, Inr external) \<Rightarrow>
               let permitted = permitted_by_all (pn_filesystem profile) (ew_scope working) (xs_scope external) in
               if identity_matches (xs_repository external) (ew_repository working) \<and>
                  base_matches (xs_base external) (ew_base working) \<and>
                  list_all (\<lambda>operation. list_all (\<lambda>path. wildcard_free path \<and> permitted (policy_operation operation) path)
                      (operation_entries (ew_scope working) operation)) [WorkReadonly, WorkWrite, WorkCreate, WorkDelete] \<and>
                  list_all (\<lambda>claim. wildcard_free (ri_resource claim) \<and>
                      permitted (if ri_mode claim = Read then FsReadonly else FsWrite) (ri_resource claim)) desired
               then Some external else None
           | _ \<Rightarrow> None)
      | _ \<Rightarrow> None)"

definition assert_parked_retention :: "registry_env \<Rightarrow> registry_doc \<Rightarrow> string \<Rightarrow> retention_record \<Rightarrow> retention_failure + registry_session" where
  "assert_parked_retention env doc session_id supplied =
     (case (find_session session_id (rd_sessions doc), find_retention session_id (rd_retentions doc)) of
        (Some s, Some persisted) \<Rightarrow>
          bind_sum (require (rg_state s = SessParked) (SessionRetentionError ''SESSION_NOT_PARKED'')) (\<lambda>_.
          bind_sum (require (same_retention_record (re_sha env) persisted supplied) (RegistryFailure ''STALE_CLAIM_SET'')) (\<lambda>_.
          bind_sum (retention_admission_unsafe doc session_id) (\<lambda>admission.
          bind_sum (require (\<not> ad_open admission \<and> own_claims session_id (rd_claims doc) = [] \<and>
            rt_repository_id persisted = rg_repository_id s \<and>
            (let p = rt_physical_identity persisted in
             pi_worktree_id p = rg_worktree_id s \<and> pi_worktree_path p = rg_worktree_path s \<and>
             pi_branch_id p = rg_branch_id s \<and> pi_branch_name p = rg_branch_name s))
            (SessionRetentionError ''RETENTION_STEP_FAILED'')) (\<lambda>_. Inr s))))
      | _ \<Rightarrow> retention_error ''SESSION_NOT_PARKED'')"

text \<open>The owner of the claims of a resumed session is its record in the state it comes back to.\<close>

definition resumed_owner :: "registry_session \<Rightarrow> claim_owner_context" where
  "resumed_owner s = owner_of_session (s\<lparr>rg_state := SessActive\<rparr>)"

definition retained_claims_for_session ::
  "registry_env \<Rightarrow> registry_session \<Rightarrow> claim_intent list \<Rightarrow> resource_claim list registry_call" where
  "retained_claims_for_session env s desired =
     bind_call (canonical_claim_inputs env (plain_intents desired) (resumed_owner s) True) (\<lambda>canonical.
     bind_call (pure_call (require (map intent_of_input canonical = desired) (SessionRetentionError ''INVALID_INPUT''))) (\<lambda>_.
     bind_call (observing (re_clock env)) (\<lambda>timestamp.
     pure_call (create_claims env (resumed_owner s) timestamp canonical))))"

definition assert_resume_pin ::
  "registry_env \<Rightarrow> pinned_profile option \<Rightarrow> 'a resume_input_scheme \<Rightarrow> retention_failure + unit" where
  "assert_resume_pin env profile input =
     (let mismatch = SessionRetentionError ''PINNED_PROFILE_MISMATCH'' in
      case profile of
        None \<Rightarrow> Inl mismatch
      | Some pin \<Rightarrow> bind_sum (retention_identity_digest (re_sha env) (pn_identity pin)) (\<lambda>digest.
          require (digest = ru_pinned_profile_digest input \<and>
            rt_pinned_profile_digest (ru_retention input) = ru_pinned_profile_digest input) mismatch))"

definition assert_resume_identity :: "'a resume_input_scheme \<Rightarrow> physical_identity \<Rightarrow> retention_failure + unit" where
  "assert_resume_identity input actual =
     require (same_physical_identity (ru_physical_identity input) actual \<and>
       same_physical_identity (rt_physical_identity (ru_retention input)) actual)
       (SessionRetentionError ''PHYSICAL_IDENTITY_MISMATCH'')"

definition snapshot_is_current :: "registry_env \<Rightarrow> registry_doc \<Rightarrow> 'a resume_input_scheme \<Rightarrow> bool" where
  "snapshot_is_current env doc input \<longleftrightarrow>
     sn_claim_set_generation (ru_snapshot input) = rd_generation doc \<and>
     (case sn_retention (ru_snapshot input) of None \<Rightarrow> False
      | Some r \<Rightarrow> same_retention_record (re_sha env) r (ru_retention input))"

definition validate_resume_section :: "registry_env \<Rightarrow> resume_input \<Rightarrow> resume_validation registry_call" where
  "validate_resume_section env input =
     (let session_id = ru_session_id input in
      bind_call (read_state env) (\<lambda>doc.
      bind_call (pure_call (assert_parked_retention env doc session_id (ru_retention input))) (\<lambda>s.
      if \<not> (snapshot_is_current env doc input \<and> rs_state (sn_session (ru_snapshot input)) = ''parked'')
      then pure_call (Inr (ResumeRejected ''STALE_CLAIM_SET''))
      else
      bind_call (retention_physical_identity env s) (\<lambda>actual.
      bind_call (pure_call (assert_resume_identity input actual)) (\<lambda>_.
      bind_call (pure_call (pinned_profile_unsafe env doc session_id)) (\<lambda>profile.
      bind_call (pure_call (assert_resume_pin env profile input)) (\<lambda>_.
      bind_call (assert_owned_executions_empty env doc session_id) (\<lambda>_.
      case validate_retention_external_scope (Some s) profile (ru_latest_external_scope input) (ru_desired_claims input) of
        None \<Rightarrow> pure_call (Inr (ResumeRejected ''EXTERNAL_SCOPE_REJECTED''))
      | Some external \<Rightarrow>
      bind_call (retained_claims_for_session env s (ru_desired_claims input)) (\<lambda>candidates.
      bind_call (claim_facts env doc) (\<lambda>facts.
      case validate_requested_claims (re_fs env) candidates (resumed_owner s) (rd_claims doc) facts of
        Inl e \<Rightarrow> pure_call (Inr (ResumeRejected
          (if e = RegistryFailure ''STALE_CLAIM_SET'' then ''STALE_CLAIM_SET'' else ''CLAIM_CONFLICT'')))
      | Inr _ \<Rightarrow>
      bind_call (pure_call (retention_resume_request_digest (re_sha env) input external)) (\<lambda>digest.
      bind_call (observing (re_uuid env)) (\<lambda>token.
      bind_call (set_validation session_id (Some
        \<lparr>vl_operation_id = ru_operation_id input, vl_token = token, vl_request_digest = digest,
         vl_revision = rd_revision doc, vl_generation = rd_generation doc\<rparr>)) (\<lambda>_.
      pure_call (Inr (ResumeAccepted token)))))))))))))))"

definition registry_validate_resume :: "registry_env \<Rightarrow> resume_input \<Rightarrow> resume_validation registry_call" where
  "registry_validate_resume env input =
     catch_call
       (bind_call (check_call (is_session_id (ru_session_id input)) ''INVALID_SESSION_ID'') (\<lambda>_.
        bind_call (pure_call (require (retention_operation_id_ok (ru_operation_id input)) (SessionRetentionError ''INVALID_INPUT''))) (\<lambda>_.
        with_lock env (validate_resume_section env input))))
       (\<lambda>e. pure_call (Inr (ResumeRejected
          (if e = RegistryFailure ''STALE_CLAIM_SET'' then ''STALE_CLAIM_SET'' else ''EXTERNAL_SCOPE_REJECTED''))))"

definition resume_section :: "registry_env \<Rightarrow> resume_commit \<Rightarrow> commit_result registry_call" where
  "resume_section env input =
     (let session_id = ru_session_id input; stale = CommitRejected (ru_operation_id input) ''STALE_CLAIM_SET'' in
      bind_call (read_state env) (\<lambda>doc.
      bind_call (\<lambda>w. (Inr (map_of (rw_validations w) session_id), w)) (\<lambda>lease.
      bind_call (pure_call (pinned_profile_unsafe env doc session_id)) (\<lambda>profile.
      case validate_retention_external_scope (find_session session_id (rd_sessions doc)) profile
          (ru_latest_external_scope input) (ru_desired_claims input) of
        None \<Rightarrow> pure_call (retention_error ''EXTERNAL_SCOPE_REJECTED'')
      | Some external \<Rightarrow>
      bind_call (pure_call (retention_resume_request_digest (re_sha env) input external)) (\<lambda>digest.
      if lease \<noteq> Some \<lparr>vl_operation_id = ru_operation_id input, vl_token = ru_validation_token input,
            vl_request_digest = digest, vl_revision = rd_revision doc, vl_generation = rd_generation doc\<rparr> \<or>
         ru_expected_generation input \<noteq> rd_generation doc
      then pure_call (Inr stale)
      else
      bind_call (pure_call (assert_parked_retention env doc session_id (ru_retention input))) (\<lambda>s.
      if \<not> snapshot_is_current env doc input then pure_call (Inr stale)
      else
      bind_call (retention_physical_identity env s) (\<lambda>actual.
      bind_call (pure_call (assert_resume_identity input actual)) (\<lambda>_.
      bind_call (pure_call (pinned_profile_unsafe env doc session_id)) (\<lambda>pin.
      bind_call (pure_call (assert_resume_pin env pin input)) (\<lambda>_.
      bind_call (pure_call (retention_admission_unsafe doc session_id)) (\<lambda>admission.
      bind_call (pure_call (require (\<not> ad_open admission) (SessionRetentionError ''FENCE_REJECTED''))) (\<lambda>_.
      bind_call (assert_owned_executions_empty env doc session_id) (\<lambda>_.
      bind_call (retained_claims_for_session env s (ru_desired_claims input)) (\<lambda>candidates.
      bind_call (claim_facts env doc) (\<lambda>facts.
      case validate_requested_claims (re_fs env) candidates (resumed_owner s) (rd_claims doc) facts of
        Inl e \<Rightarrow> pure_call (Inr (CommitRejected (ru_operation_id input)
          (if e = RegistryFailure ''STALE_CLAIM_SET'' then ''STALE_CLAIM_SET'' else ''CLAIM_CONFLICT'')))
      | Inr accepted \<Rightarrow>
      let next_claims = sort_resource_claims (rd_claims doc @ accepted) in
      bind_call (pure_call (next_claim_set_generation doc next_claims)) (\<lambda>generation.
      bind_call (pure_call (next_runtime_epoch doc)) (\<lambda>epoch.
      bind_call (observing (re_clock env)) (\<lambda>now.
      bind_call (pure_call (next_registry_revision doc)) (\<lambda>revision.
      bind_call (write_registry env doc (doc
        \<lparr>rd_sessions := map (\<lambda>r. if rg_session_id r = session_id then transition_session_state s SessActive now else r) (rd_sessions doc),
         rd_claims := next_claims, rd_generation := generation, rd_revision := revision, rd_epoch := epoch,
         rd_admissions := with_session_admission (admission\<lparr>ad_open := True, ad_epoch := epoch\<rparr>) (rd_admissions doc),
         rd_retentions := filter (\<lambda>r. rt_session_id r \<noteq> session_id) (rd_retentions doc)\<rparr>)) (\<lambda>_.
      bind_call (set_fence session_id None) (\<lambda>_.
      bind_call (set_validation session_id None) (\<lambda>_.
      pure_call (Inr (CommitAccepted (ru_operation_id input)
        \<lparr>sn_session = \<lparr>rs_session_id = session_id, rs_state = ''active'', rs_physical_identity = actual\<rparr>,
         sn_claims = next_claims, sn_claim_set_generation = generation, sn_retention = None\<rparr>
        (Some accepted)))))))))))))))))))))))))"

definition registry_atomic_resume :: "registry_env \<Rightarrow> resume_commit \<Rightarrow> commit_result registry_call" where
  "registry_atomic_resume env input =
     catch_call
       (bind_call (with_lock env (resume_section env input)) (\<lambda>result.
        bind_call (set_validation (ru_session_id input) None) (\<lambda>_. pure_call (Inr result))))
       (\<lambda>e. bind_call (set_validation (ru_session_id input) None) (\<lambda>_.
        pure_call (if e = RegistryFailure ''REGISTRY_DURABILITY_UNCERTAIN'' then Inr (CommitUncertain (ru_operation_id input))
          else Inl e)))"

text \<open>Both branches of \<open>reobserve\<close> after its observations answer \<open>unknown\<close>, with different reasons.\<close>

definition registry_reobserve :: "registry_env \<Rightarrow> retention_operation \<Rightarrow> string \<Rightarrow> string \<Rightarrow> reobservation registry_call" where
  "registry_reobserve env operation operation_id session_id =
     catch_call
       (bind_call (with_lock env (read_state env)) (\<lambda>doc.
        case find_session session_id (rd_sessions doc) of
          None \<Rightarrow> pure_call (Inr (ReobservationUnknown operation_id))
        | Some s \<Rightarrow>
            bind_call (retention_snapshot_unsafe env doc session_id) (\<lambda>snapshot.
            pure_call (Inr (ReobservationUnknown operation_id)))))
       (\<lambda>_. pure_call (Inr (ReobservationUnknown operation_id)))"

definition registry_authority :: "registry_env \<Rightarrow> registry_world retention_ops" where
  "registry_authority env =
     \<lparr>au_observe = registry_observe env, au_fence = registry_fence env, au_drain = registry_drain env,
      au_revalidate = registry_revalidate env, au_atomic_park = registry_atomic_park env,
      au_validate_resume = registry_validate_resume env, au_atomic_resume = registry_atomic_resume env,
      au_reobserve = registry_reobserve env\<rparr>"

section \<open>What a park or a resume is about\<close>

definition doc_view :: "registry_doc \<Rightarrow> retention_view" where
  "doc_view d =
     \<lparr>vw_claims = sort_resource_claims (rd_claims d), vw_parked = (\<lambda>i. find_retention i (rd_retentions d))\<rparr>"

definition registry_view :: "registry_world \<Rightarrow> retention_view" where
  "registry_view w = doc_view (rw_doc w)"

lemma sort_resource_claims_idem [simp]: "sort_resource_claims (sort_resource_claims cs) = sort_resource_claims cs"
  by (simp add: sort_resource_claims_def sort_key_id_if_sorted)

lemma doc_view_sorted [simp]: "doc_view (sorted_doc d) = doc_view d"
  and doc_view_written [simp]: "doc_view (written_doc d events) = doc_view d"
  by (simp_all add: doc_view_def sorted_doc_def written_doc_def)

lemma doc_view_cong: "rd_claims d = rd_claims e \<Longrightarrow> rd_retentions d = rd_retentions e \<Longrightarrow> doc_view d = doc_view e"
  by (simp add: doc_view_def)

section \<open>What a document that is read satisfies\<close>

lemma is_registry_Inr [simp]: "of_registry r = Inr a \<longleftrightarrow> r = Inr a"
  by (simp add: of_registry_def split: sum.split)

lemma validate_records_ids:
  "validate_records repository (ids, wts, bs) ss = Inr u \<Longrightarrow>
   distinct (map rg_session_id ss) \<and> set ids \<inter> set (map rg_session_id ss) = {}"
proof (induction ss arbitrary: ids wts bs)
  case (Cons s ss)
  show ?case
  proof (cases "rg_state s \<in> set ACTIVE_STATES")
    case True
    with Cons.prems have "rg_session_id s \<notin> set ids"
      and "validate_records repository (rg_session_id s # ids, rg_worktree_id s # wts, rg_branch_id s # bs) ss = Inr u"
      by (auto simp: sum_simps)
    then show ?thesis using Cons.IH by fastforce
  next
    case False
    with Cons.prems have "rg_session_id s \<notin> set ids"
      and "validate_records repository (rg_session_id s # ids, wts, bs) ss = Inr u"
      by (auto simp: sum_simps)
    then show ?thesis using Cons.IH by fastforce
  qed
qed simp

lemma find_session_id: "find_session i ss = Some s \<Longrightarrow> rg_session_id s = i \<and> s \<in> set ss"
  by (auto simp: find_session_def find_Some_iff)

lemma find_retention_id: "find_retention i rs = Some r \<Longrightarrow> rt_session_id r = i \<and> r \<in> set rs"
  by (auto simp: find_retention_def find_Some_iff)

lemma find_session_unique:
  assumes "distinct (map rg_session_id ss)" "find_session i ss = Some s" "r \<in> set ss" "rg_session_id r = i"
  shows "r = s"
  using assms find_session_id by (metis distinct_map inj_onD)

lemma validate_retentions_state:
  "validate_retentions env doc seen rs = Inr u \<Longrightarrow> r \<in> set rs \<Longrightarrow>
   \<exists>s. find_session (rt_session_id r) (rd_sessions doc) = Some s \<and> rg_state s = SessParked"
  by (induction rs arbitrary: seen) (auto simp: sum_simps Let_def split: option.splits)

lemma validate_registry_Inr:
  assumes "validate_registry env t d = Inr ()"
  shows "validate_records (re_repository_id env) ([], [], []) (rd_sessions d) = Inr ()"
    and "\<And>c. c \<in> set (rd_claims d) \<Longrightarrow> validate_resource_claim env c = Inr ()"
    and "validate_registry_claims (re_fs env) (registry_facts env t (rd_sessions d) (rd_generation d)) (rd_sessions d)
      (rd_claims d) = Inr ()"
    and "validate_retentions env d [] (rd_retentions d) = Inr ()"
    and "for_each_sum (validate_park_intent d) (rd_park_intents d) = Inr ()"
    and "\<And>s. s \<in> set (rd_sessions d) \<Longrightarrow> rg_state s = SessParked \<Longrightarrow> find_retention (rg_session_id s) (rd_retentions d) \<noteq> None"
    and "validate_runtime_records env d = Inr ()"
  using assms by (auto simp: validate_registry_def validate_retention_ownership_def sum_simps Let_def)

lemma parked_iff:
  assumes "validate_registry env t d = Inr ()" "find_session i (rd_sessions d) = Some s"
  shows "rg_state s = SessParked \<longleftrightarrow> find_retention i (rd_retentions d) \<noteq> None"
proof
  assume "rg_state s = SessParked"
  then show "find_retention i (rd_retentions d) \<noteq> None"
    using validate_registry_Inr(6) [OF assms(1)] find_session_id [OF assms(2)] by auto
next
  assume "find_retention i (rd_retentions d) \<noteq> None"
  then obtain r where "r \<in> set (rd_retentions d)" "rt_session_id r = i"
    using find_retention_id by fastforce
  then show "rg_state s = SessParked"
    using validate_retentions_state [OF validate_registry_Inr(4) [OF assms(1)]] assms(2) by fastforce
qed

lemma read_claim_canonical:
  "validate_registry env t d = Inr () \<Longrightarrow> c \<in> set (rd_claims d) \<Longrightarrow> canonical_resource (rc_resource c)"
  using validate_registry_Inr(2) [of env t d c]
  by (auto simp: validate_resource_claim_def sum_simps Let_def assert_canonical_iff)

section \<open>The silent operations\<close>

definition silent :: "'a registry_call \<Rightarrow> bool" where
  "silent m \<longleftrightarrow> (\<forall>d. holds d m (\<lambda>_ d'. doc_view d' = doc_view d) (\<lambda>_ d'. doc_view d' = doc_view d))"

lemma silent_view: "silent m \<Longrightarrow> registry_view (snd (m w)) = registry_view w"
  by (cases "m w"; cases "fst (m w)") (auto simp: silent_def holds_def registry_view_def dest: spec [where x = w])

lemma observes_view: "observes m P \<Longrightarrow> registry_view (snd (m w)) = registry_view w"
  by (simp add: observes_def registry_view_def)

lemma observes_identity: "observes (retention_physical_identity env s) (\<lambda>_. True)"
  unfolding retention_physical_identity_def
  by (rule observes_bind [OF observes_observing])
   (auto split: sum.split intro!: observes_pure observes_bind [OF observes_check])

definition snapshot_of :: "registry_doc \<Rightarrow> string \<Rightarrow> retention_snapshot \<Rightarrow> bool" where
  "snapshot_of doc i snapshot \<longleftrightarrow> sn_claims snapshot = rd_claims doc \<and> sn_claim_set_generation snapshot = rd_generation doc \<and>
     sn_retention snapshot = find_retention i (rd_retentions doc) \<and>
     (\<exists>s. find_session i (rd_sessions doc) = Some s \<and> rs_state (sn_session snapshot) = session_state_name (rg_state s))"

lemma observes_snapshot: "observes (retention_snapshot_unsafe env doc i) (snapshot_of doc i)"
  unfolding retention_snapshot_unsafe_def snapshot_of_def
  by (auto split: option.split intro!: observes_pure observes_bind [OF observes_check] observes_bind [OF observes_identity])

lemmas holds_identity = holds_bind_observes [OF observes_identity]
lemmas holds_snapshot = holds_bind_observes [OF observes_snapshot]

lemma observes_token: "observes (assert_retention_fence_token i p token) (\<lambda>_. True)"
  by (auto simp: observes_def assert_retention_fence_token_def split: sum.split)

lemma observes_facts: "observes (claim_facts env doc) (\<lambda>_. True)"
  unfolding claim_facts_def by (rule observes_observing)

lemma observes_set_fence: "observes (set_fence i l) (\<lambda>_. True)"
  and observes_set_validation: "observes (set_validation i v) (\<lambda>_. True)"
  by (simp_all add: observes_def set_fence_def set_validation_def)

lemmas holds_token = holds_bind_observes [OF observes_token]
lemmas holds_facts = holds_bind_observes [OF observes_facts]
lemma holds_set_fence: "holds d (f ()) Q E \<Longrightarrow> holds d (bind_call (set_fence i l) f) Q E"
  and holds_set_validation: "holds d (f ()) Q E \<Longrightarrow> holds d (bind_call (set_validation i v) f) Q E"
  by (simp_all add: holds_def bind_call_def set_fence_def set_validation_def)


lemma observes_pure_bind: "(\<And>a. r = Inr a \<Longrightarrow> observes (f a) R) \<Longrightarrow> observes (bind_call (pure_call r) f) R"
  by (rule observes_bind [where P = "\<lambda>a. r = Inr a"]) (auto intro: observes_pure)

lemmas observes_steps = observes_pure_bind observes_bind [OF observes_check] observes_bind [OF observes_identity] observes_bind [OF observes_snapshot]
  observes_bind [OF observes_token] observes_bind [OF observes_facts] observes_bind [OF observes_set_fence]
  observes_bind [OF observes_set_validation] observes_bind [OF observes_executions] observes_bind [OF observes_read]
  observes_bind [OF observes_observing]

lemma silent_observes: "observes m P \<Longrightarrow> silent m"
  by (auto simp: silent_def intro: holds_weaken [OF holds_observes])

lemma holds_state:
  assumes "\<And>v. rw_doc v = d \<Longrightarrow> holds d (f v) Q E"
  shows "holds d (\<lambda>w. f w w) Q E"
  using assms by (auto simp: holds_def)

lemma silent_drain: "silent (registry_drain env i p t)"
  unfolding registry_drain_def
  by (intro silent_observes [where P = "\<lambda>_. True"] observes_catch observes_steps observes_pure observes_bind [OF observes_lock [where P = "\<lambda>_. True"]]) simp_all

lemma silent_revalidate: "silent (registry_revalidate env i p t)"
  unfolding registry_revalidate_def
  by (intro silent_observes [where P = "\<lambda>_. True"] observes_catch observes_steps observes_pure observes_lock) simp_all

lemma observes_split:
  "(c \<Longrightarrow> observes m P) \<Longrightarrow> (\<not> c \<Longrightarrow> observes n P) \<Longrightarrow> observes (if c then m else n) P"
  "(x = None \<Longrightarrow> observes m P) \<Longrightarrow> (\<And>a. x = Some a \<Longrightarrow> observes (f a) P) \<Longrightarrow>
   observes (case x of None \<Rightarrow> m | Some a \<Rightarrow> f a) P"
  "(\<And>e. y = Inl e \<Longrightarrow> observes (g e) P) \<Longrightarrow> (\<And>b. y = Inr b \<Longrightarrow> observes (h b) P) \<Longrightarrow>
   observes (case y of Inl e \<Rightarrow> g e | Inr b \<Rightarrow> h b) P"
  by (simp_all split: option.split sum.split)

lemma observes_canonical_inputs:
  "observes (canonical_claim_inputs env inputs owner allow_empty) (\<lambda>canonical. \<exists>unsorted.
     map_sum_list (\<lambda>i. of_registry (canonicalize_claim_input (re_fs env) i owner)) inputs = Inr unsorted \<and>
     canonical = sort_key canonical_input_key unsorted)"
  unfolding canonical_claim_inputs_def Let_def
  by (intro observes_steps observes_pure) auto

lemma observes_retained_claims:
  "observes (retained_claims_for_session env s desired) (\<lambda>candidates. \<exists>canonical timestamp.
     map intent_of_input canonical = desired \<and> create_claims env (resumed_owner s) timestamp canonical = Inr candidates)"
  unfolding retained_claims_for_session_def
  by (intro observes_bind [OF observes_canonical_inputs] observes_steps observes_pure) auto

lemmas holds_canonical_inputs = holds_bind_observes [OF observes_canonical_inputs]
lemmas holds_retained_claims = holds_bind_observes [OF observes_retained_claims]

lemma silent_validate: "silent (registry_validate_resume env input)"
  unfolding registry_validate_resume_def validate_resume_section_def Let_def
  by (intro silent_observes [where P = "\<lambda>_. True"] observes_catch observes_steps observes_split observes_pure observes_lock
      observes_bind [OF observes_retained_claims]) simp_all

lemma silent_reobserve: "silent (registry_reobserve env k p i)"
  unfolding registry_reobserve_def
  by (intro silent_observes [where P = "\<lambda>_. True"] observes_catch observes_steps observes_split observes_pure
      observes_bind [OF observes_lock [OF observes_read]]) simp_all

lemma silent_fence: "silent (registry_fence env i p)"
proof -
  let ?view = "\<lambda>d _ d'. doc_view d' = doc_view d"
  have body: "holds d (fence_section env i p prior) (?view d) (?view d)" for d prior
    unfolding fence_section_def Let_def
    by (intro holds_read holds_steps holds_write) (auto simp: doc_view_def sorted_doc_def written_doc_def)
  have lease: "holds d (fence_under env i p prior) (?view d) (?view d)" for d prior
    unfolding fence_under_def Let_def
    by (intro holds_if holds_return holds_bind [OF holds_any_lock [OF body]] holds_observing holds_set_fence) auto
  have "holds d (\<lambda>w. fence_under env i p (map_of (rw_fences w) i) w) (?view d) (?view d)" for d
    by (rule holds_state [where f = "\<lambda>w. fence_under env i p (map_of (rw_fences w) i)"]) (rule lease)
  then show ?thesis
    unfolding silent_def registry_fence_def
    by (intro allI holds_catch [where F = "\<lambda>_. ?view _ ()"] holds_check holds_pure) (auto intro: holds_return)
qed

section \<open>What an observation reports\<close>

definition tells :: "retention_view \<Rightarrow> string \<Rightarrow> retention_snapshot \<Rightarrow> bool" where
  "tells v i snapshot \<longleftrightarrow> sn_claims snapshot = vw_claims v \<and> sn_retention snapshot = vw_parked v i \<and>
     (rs_state (sn_session snapshot) = ''parked'' \<longleftrightarrow> vw_parked v i \<noteq> None)"

lemma snapshot_true:
  assumes "snapshot_of (sorted_doc d) i snapshot" "validate_registry env t d = Inr ()"
  shows "tells (doc_view d) i snapshot"
proof -
  obtain s where s: "find_session i (rd_sessions d) = Some s" "rs_state (sn_session snapshot) = session_state_name (rg_state s)"
    using assms(1) by (auto simp: snapshot_of_def sorted_doc_def)
  have "session_state_name (rg_state s) = ''parked'' \<longleftrightarrow> rg_state s = SessParked" by (cases "rg_state s") simp_all
  with parked_iff [OF assms(2) s(1)] s assms(1) show ?thesis by (simp add: snapshot_of_def tells_def sorted_doc_def doc_view_def)
qed

lemma snapshot_told:
  "snapshot_of (sorted_doc d) i snapshot \<Longrightarrow> validate_registry env t d = Inr () \<Longrightarrow>
   tells (doc_view d) i snapshot \<and> sn_claim_set_generation snapshot = rd_generation d"
  using snapshot_true by (auto simp: snapshot_of_def sorted_doc_def)

lemma observe_reports:
  assumes "registry_observe env i w = (Inr snapshot, w')"
  shows "tells (registry_view w) i snapshot"
proof -
  have "holds (rw_doc w) (registry_observe env i) (\<lambda>a d'. tells (doc_view (rw_doc w)) i a) (\<lambda>_ _. True)"
    unfolding registry_observe_def
    by (intro holds_check holds_any_lock holds_read holds_weaken [OF holds_observes [OF observes_snapshot]])
      (auto dest: snapshot_true)
  from holds_run [OF this refl assms] show ?thesis by (simp add: registry_view_def)
qed

lemma revalidate_reports:
  assumes "registry_revalidate env i p token w = (Inr (Revalidated snapshot), w')"
  shows "tells (registry_view w) i snapshot \<and> sn_claim_set_generation snapshot = rd_generation (rw_doc w)"
proof -
  have "holds (rw_doc w) (registry_revalidate env i p token)
      (\<lambda>r d'. case r of RevalidateRejected \<Rightarrow> True
        | Revalidated a \<Rightarrow> tells (doc_view (rw_doc w)) i a \<and> sn_claim_set_generation a = rd_generation (rw_doc w)) (\<lambda>_ _. True)"
    unfolding registry_revalidate_def
  proof (rule holds_catch [where F = "\<lambda>_ _. True"], goal_cases)
    case 1
    show ?case
      by (intro holds_check holds_token holds_any_lock holds_read holds_pure holds_executions holds_snapshot holds_return)
        (auto dest: snapshot_told)
  qed (simp add: holds_return)
  from holds_run [OF this refl assms] show ?thesis by (simp add: registry_view_def)
qed

section \<open>The park commit\<close>

lemma find_retention_removed:
  "(\<lambda>j. find_retention j (filter (\<lambda>r. rt_session_id r \<noteq> i) rs)) = (\<lambda>j. find_retention j rs)(i := None)"
proof
  fix j show "find_retention j (filter (\<lambda>r. rt_session_id r \<noteq> i) rs) = ((\<lambda>j. find_retention j rs)(i := None)) j"
    by (induction rs) (auto simp: find_retention_def)
qed

lemma find_retention_append:
  "find_retention j (rs @ [x]) = (case find_retention j rs of Some r \<Rightarrow> Some r | None \<Rightarrow> if rt_session_id x = j then Some x else None)"
  by (induction rs) (auto simp: find_retention_def)

lemma find_retention_replaced:
  "(\<lambda>j. find_retention j (filter (\<lambda>r. rt_session_id r \<noteq> rt_session_id x) rs @ [x])) = (\<lambda>j. find_retention j rs)(rt_session_id x := Some x)"
  using find_retention_removed [of "rt_session_id x" rs]
  by (auto simp: fun_eq_iff find_retention_append split: option.split)

lemma plain_input_exact:
  assumes "fs_lawful fs" "fs_exact fs"
    and "canonicalize_claim_input fs (plain_input (JsString (ri_resource i)) (JsString (mode_name (ri_mode i)))) owner = Inr c"
  shows "intent_of_input c = i \<and> cc_sharing c = None"
proof -
  have "resource_claim_mode (JsString (mode_name m)) = Some m" for m
    by (cases m) (simp_all add: resource_claim_mode_def mode_name_def RESOURCE_CLAIM_MODES_def)
  with canonicalize_claim_input_Inr [OF assms(3)] canonicalize_claim_resource_exact [OF assms(1,2)]
  have "cc_mode c = ri_mode i" "cc_resource c = ri_resource i" "validate_sharing SharingUndefined (cc_mode c) = Inr (cc_sharing c)"
    by (fastforce simp: plain_input_def)+
  then show ?thesis by (cases "cc_sharing c") (simp_all add: intent_of_input_def validate_sharing_def)
qed

lemma plain_intents_exact:
  assumes "fs_lawful fs" "fs_exact fs"
    and "map_sum_list (\<lambda>i. of_registry (canonicalize_claim_input fs i owner)) (plain_intents intents) = Inr canonical"
  shows "map intent_of_input canonical = intents"
proof -
  have "list_all2 (\<lambda>i c. canonicalize_claim_input fs (plain_input (JsString (ri_resource i)) (JsString (mode_name (ri_mode i)))) owner = Inr c)
      intents canonical"
    using assms(3) by (simp add: plain_intents_def map_sum_list_Inr list.rel_map)
  then show ?thesis
    by (induction rule: list_all2_induct) (auto dest: plain_input_exact [OF assms(1,2)])
qed

definition park_left :: "park_commit \<Rightarrow> registry_doc \<Rightarrow> registry_doc \<Rightarrow> bool" where
  "park_left c d d' \<longleftrightarrow> pc_expected_generation c = rd_generation d \<and>
     park_effect (pc_operation_id c) (pc_session_id c) (pc_desired_claims c) (doc_view d) (doc_view d')"

lemma park_leaves:
  assumes "rd_claims n = sort_resource_claims (other_claims (pc_session_id c) (rd_claims (sorted_doc d)))"
    and "rd_retentions n = filter (\<lambda>r. rt_session_id r \<noteq> pc_session_id c) (rd_retentions (sorted_doc d)) @ [x]"
    and "rt_operation_id x = pc_operation_id c" "rt_session_id x = pc_session_id c" "rt_state x = ''parked''"
    and "set (rt_desired_claims x) = set (pc_desired_claims c)" "pc_expected_generation c = rd_generation d"
  shows "park_left c d (written_doc n events)"
proof -
  have "vw_parked (doc_view n) = (vw_parked (doc_view d))(pc_session_id c := Some x)"
    using assms(2,4) find_retention_replaced [of x "rd_retentions d"] by (simp add: doc_view_def sorted_doc_def)
  moreover have "set (vw_claims (doc_view n)) = {k \<in> set (vw_claims (doc_view d)). rc_session_id k \<noteq> pc_session_id c}"
    using assms(1) by (auto simp: doc_view_def sorted_doc_def other_claims_def)
  ultimately show ?thesis
    using assms(3-7) by (auto simp: park_left_def park_effect_def owned_claims_def foreign_claims_def)
qed

lemma own_claims_view: "set (own_claims i (rd_claims (sorted_doc d))) = owned_claims i (doc_view d)"
  by (simp add: own_claims_def owned_claims_def doc_view_def sorted_doc_def)

lemma park_section_holds:
  assumes "fs_lawful (re_fs env)" "fs_exact (re_fs env)"
  shows "holds d (park_section env c)
    (\<lambda>r d'. case r of
       CommitAccepted p snapshot released \<Rightarrow> p = pc_operation_id c \<and> rs_state (sn_session snapshot) = ''parked'' \<and>
         sn_retention snapshot \<noteq> None \<and> park_left c d d' \<and>
         map_option set released = Some (owned_claims (pc_session_id c) (doc_view d))
     | CommitUncertain p \<Rightarrow> False | CommitRejected p code \<Rightarrow> d' = d)
    (\<lambda>e d'. d' = d \<or> unproven e \<and> park_left c d d')"
proof -
  have left: "park_left c d (written_doc (sorted_doc d
      \<lparr>rd_sessions := ss, rd_claims := sort_resource_claims (other_claims (pc_session_id c) (rd_claims (sorted_doc d))),
       rd_generation := generation, rd_revision := revision,
       rd_retentions := filter (\<lambda>r. rt_session_id r \<noteq> pc_session_id c) (rd_retentions (sorted_doc d)) @
         [\<lparr>rt_schema_version = 1, rt_operation_id = pc_operation_id c, rt_session_id = pc_session_id c,
            rt_repository_id = repository, rt_state = ''parked'', rt_physical_identity = identity,
            rt_desired_claims = map intent_of_input desired, rt_pinned_profile_digest = digest,
            rt_parked_at = at, rt_updated_at = upd\<rparr>],
       rd_park_intents := intents\<rparr>) events)"
    if "\<exists>unsorted. map_sum_list (\<lambda>i. of_registry (canonicalize_claim_input (re_fs env) i owner)) (plain_intents (pc_desired_claims c)) =
        Inr unsorted \<and> desired = sort_key canonical_input_key unsorted"
      "pc_expected_generation c = rd_generation (sorted_doc d)"
    for ss generation revision repository identity desired digest at upd intents events owner
  proof -
    from that(1) have "set (map intent_of_input desired) = set (pc_desired_claims c)"
      using plain_intents_exact [OF assms] by (metis set_map set_sort)
    moreover have "rd_generation (sorted_doc d) = rd_generation d" by (simp add: sorted_doc_def)
    ultimately show ?thesis using that(2) by (intro park_leaves; (simp; fail)?) simp_all
  qed
  show ?thesis
    unfolding park_section_def Let_def
    by (intro holds_read holds_steps holds_token holds_identity holds_canonical_inputs holds_write holds_set_fence
        holds_set_validation)
      (simp_all add: left own_claims_view)
qed

text \<open>An error of the release of the lock takes the place of the result.\<close>

definition release_fails :: "registry_env \<Rightarrow> bool" where
  "release_fails env \<longleftrightarrow> (\<exists>t code. re_unlock env t = Some code)"

lemma holds_released:
  assumes "holds d m Q E" "\<And>a d' e. Q a d' \<Longrightarrow> release_fails env \<Longrightarrow> F e d'" "\<And>e d'. E e d' \<Longrightarrow> F e d'" "\<And>e. F e d"
  shows "holds d (with_lock env m) Q F"
proof (cases "release_fails env")
  case True
  with assms holds_weaken [OF assms(1)] show ?thesis by (intro holds_any_lock) auto
next
  case False
  with assms holds_weaken [OF assms(1)] show ?thesis by (intro holds_lock) (auto simp: release_fails_def)
qed

lemma atomic_park_any:
  assumes "fs_lawful (re_fs env)" "fs_exact (re_fs env)"
  shows "holds d (registry_atomic_park env c)
    (\<lambda>r d'. case r of
       CommitAccepted p snapshot released \<Rightarrow> p = pc_operation_id c \<and> rs_state (sn_session snapshot) = ''parked'' \<and>
         sn_retention snapshot \<noteq> None \<and> park_left c d d' \<and>
         map_option set released = Some (owned_claims (pc_session_id c) (doc_view d))
     | CommitUncertain p \<Rightarrow> p = pc_operation_id c \<and> (d' = d \<or> park_left c d d')
     | CommitRejected p code \<Rightarrow> d' = d \<or> release_fails env \<and> park_left c d d')
    (\<lambda>e d'. d' = d \<or> release_fails env \<and> park_left c d d')"
  unfolding registry_atomic_park_def
proof (rule holds_catch [where F = "\<lambda>e d'. d' = d \<or> (unproven e \<or> release_fails env) \<and> park_left c d d'"], goal_cases)
  case 1
  have locked: "holds d (with_lock env (park_section env c))
    (\<lambda>r d'. case r of
       CommitAccepted p snapshot released \<Rightarrow> p = pc_operation_id c \<and> rs_state (sn_session snapshot) = ''parked'' \<and>
         sn_retention snapshot \<noteq> None \<and> park_left c d d' \<and>
         map_option set released = Some (owned_claims (pc_session_id c) (doc_view d))
     | CommitUncertain p \<Rightarrow> False | CommitRejected p code \<Rightarrow> d' = d)
    (\<lambda>e d'. d' = d \<or> (unproven e \<or> release_fails env) \<and> park_left c d d')"
    by (rule holds_released [OF park_section_holds [OF assms]]) (auto split: commit_result.splits)
  show ?case
    by (rule holds_bind [OF locked]) (auto simp: holds_def bind_call_def pure_call_def set_fence_def split: commit_result.splits)
next
  case (2 e d')
  then show ?case by (intro holds_set_fence) (auto simp: holds_def pure_call_def unproven_def)
qed

lemma atomic_park_holds:
  assumes "\<And>t. re_unlock env t = None" "fs_lawful (re_fs env)" "fs_exact (re_fs env)"
  shows "holds d (registry_atomic_park env c)
    (\<lambda>r d'. case r of
       CommitAccepted p snapshot released \<Rightarrow> p = pc_operation_id c \<and> rs_state (sn_session snapshot) = ''parked'' \<and>
         sn_retention snapshot \<noteq> None \<and> park_left c d d'
     | CommitUncertain p \<Rightarrow> p = pc_operation_id c \<and> (d' = d \<or> park_left c d d') | CommitRejected p code \<Rightarrow> d' = d)
    (\<lambda>e d'. d' = d)"
  by (rule holds_weaken [OF atomic_park_any [OF assms(2,3)]])
    (auto simp: release_fails_def assms(1) split: commit_result.splits)

section \<open>The resume commit\<close>

definition resume_left :: "'a resume_input_scheme \<Rightarrow> registry_doc \<Rightarrow> registry_doc \<Rightarrow> bool" where
  "resume_left u d d' \<longleftrightarrow> resume_effect (ru_session_id u) (ru_retention u) (doc_view d) (doc_view d')"

lemma create_claims_intents:
  assumes "create_claims env owner timestamp inputs = Inr claims"
  shows "map intent_of claims = map intent_of_input inputs \<and> (\<forall>c\<in>set claims. rc_session_id c = co_session_id owner)"
proof -
  have "list_all2 (\<lambda>i c. create_resource_claim (re_sha env) i owner timestamp = Inr c) inputs claims"
    using assms by (simp add: create_claims_def map_sum_list_Inr)
  then show ?thesis
    by (induction rule: list_all2_induct) (auto simp: create_resource_claim_Inr intent_of_def intent_of_input_def)
qed

lemma assert_parked_Inr:
  assumes "assert_parked_retention env doc i supplied = Inr s"
  shows "find_session i (rd_sessions doc) = Some s \<and> own_claims i (rd_claims doc) = []"
  using assms by (auto simp: assert_parked_retention_def sum_simps split: option.splits)

lemma validate_requested_claims_Inr: "validate_requested_claims fs cs owner existing facts = Inr accepted \<Longrightarrow> accepted = cs"
  by (auto simp: validate_requested_claims_def sum_simps)

lemma resume_leaves:
  assumes "vw_parked (doc_view d) (ru_session_id u) = Some (ru_retention u)"
    and "set (ru_desired_claims u) = set (rt_desired_claims (ru_retention u))"
    and parked: "assert_parked_retention env (sorted_doc d) (ru_session_id u) supplied = Inr s"
    and made: "\<exists>canonical timestamp. map intent_of_input canonical = ru_desired_claims u \<and>
      create_claims env (resumed_owner s) timestamp canonical = Inr candidates"
    and "validate_requested_claims fs candidates owner existing facts = Inr accepted"
    and "rd_claims n = sort_resource_claims (rd_claims (sorted_doc d) @ accepted)"
    and "rd_retentions n = filter (\<lambda>r. rt_session_id r \<noteq> ru_session_id u) (rd_retentions (sorted_doc d))"
  shows "resume_left u d (written_doc n events)"
proof -
  have "rg_session_id s = ru_session_id u" and none: "\<forall>c\<in>set (rd_claims d). rc_session_id c \<noteq> ru_session_id u"
    using assert_parked_Inr [OF parked] find_session_id by (fastforce simp: own_claims_def sorted_doc_def filter_empty_conv)+
  then have own: "set accepted = {c \<in> set accepted. rc_session_id c = ru_session_id u}"
    and intents: "intent_of ` set accepted = set (ru_desired_claims u)"
    using made validate_requested_claims_Inr [OF assms(5)] create_claims_intents
    by (fastforce simp: resumed_owner_def owner_of_session_def) (metis made validate_requested_claims_Inr [OF assms(5)] create_claims_intents set_map)
  have "vw_parked (doc_view n) = (vw_parked (doc_view d))(ru_session_id u := None)"
    using assms(7) find_retention_removed [of "ru_session_id u" "rd_retentions d"] by (simp add: doc_view_def sorted_doc_def)
  moreover have "owned_claims (ru_session_id u) (doc_view n) = set accepted"
    "foreign_claims (ru_session_id u) (doc_view n) = foreign_claims (ru_session_id u) (doc_view d)"
    using assms(6) none own by (auto simp: owned_claims_def foreign_claims_def doc_view_def sorted_doc_def)
  ultimately show ?thesis
    using assms(1,2) intents by (simp add: resume_left_def resume_effect_def)
qed

lemma resume_section_holds:
  assumes "vw_parked (doc_view d) (ru_session_id u) = Some (ru_retention u)"
    and "set (ru_desired_claims u) = set (rt_desired_claims (ru_retention u))"
  shows "holds d (resume_section env u)
    (\<lambda>r d'. case r of
       CommitAccepted p snapshot reacquired \<Rightarrow> p = ru_operation_id u \<and> rs_state (sn_session snapshot) = ''active'' \<and>
         sn_retention snapshot = None \<and> resume_left u d d'
     | CommitUncertain p \<Rightarrow> False | CommitRejected p code \<Rightarrow> d' = d)
    (\<lambda>e d'. d' = d \<or> unproven e \<and> resume_left u d d')"
proof -
  have lease: "observes (\<lambda>w. (Inr (map_of (rw_validations w) (ru_session_id u)), w)) (\<lambda>_. True)" by (simp add: observes_def)
  show ?thesis
    unfolding resume_section_def Let_def
    by (intro holds_read holds_bind_observes [OF lease] holds_steps holds_facts holds_identity holds_retained_claims holds_write
        holds_set_fence holds_set_validation)
      (simp_all add: resume_leaves [OF assms])
qed

lemma atomic_resume_holds:
  assumes "\<And>t. re_unlock env t = None" "vw_parked (doc_view d) (ru_session_id u) = Some (ru_retention u)"
    and "set (ru_desired_claims u) = set (rt_desired_claims (ru_retention u))"
  shows "holds d (registry_atomic_resume env u)
    (\<lambda>r d'. case r of
       CommitAccepted p snapshot reacquired \<Rightarrow> p = ru_operation_id u \<and> rs_state (sn_session snapshot) = ''active'' \<and>
         sn_retention snapshot = None \<and> resume_left u d d'
     | CommitUncertain p \<Rightarrow> p = ru_operation_id u \<and> (d' = d \<or> resume_left u d d') | CommitRejected p code \<Rightarrow> d' = d)
    (\<lambda>e d'. d' = d)"
  unfolding registry_atomic_resume_def
proof (rule holds_catch [where F = "\<lambda>e d'. d' = d \<or> unproven e \<and> resume_left u d d'"], goal_cases)
  case 1
  show ?case
    by (rule holds_bind [OF holds_lock [OF assms(1) resume_section_holds [OF assms(2,3)]]])
      (auto intro!: holds_set_validation holds_return split: commit_result.splits)
next
  case (2 e d')
  then show ?case by (intro holds_set_validation) (auto simp: holds_def pure_call_def unproven_def)
qed

section \<open>The registry is an authority\<close>

lemma reobserve_unknown: "fst (registry_reobserve env k p i w) = Inr (ReobservationUnknown p)"
  by (simp add: registry_reobserve_def catch_call_def bind_call_def pure_call_def split: prod.split sum.split option.split)

lemma registry_is_authority:
  assumes "fs_lawful (re_fs env)" "fs_exact (re_fs env)" "\<And>t. re_unlock env t = None"
  shows "retention_authority (registry_authority env) registry_view"
proof (unfold_locales, goal_cases)
  case (1 i s) show ?case
    by (simp add: registry_authority_def registry_observe_def)
      (intro observes_view [where P = "\<lambda>_. True"] observes_steps observes_lock observes_weaken [OF observes_snapshot] TrueI)
next
  case (2 i p s) show ?case using silent_view [OF silent_fence] by (simp add: registry_authority_def)
next
  case (3 i p t s) show ?case using silent_view [OF silent_drain] by (simp add: registry_authority_def)
next
  case (4 i p t s) show ?case using silent_view [OF silent_revalidate] by (simp add: registry_authority_def)
next
  case (5 input s) show ?case using silent_view [OF silent_validate] by (simp add: registry_authority_def)
next
  case (6 k p i s) show ?case using silent_view [OF silent_reobserve] by (simp add: registry_authority_def)
next
  case (7 i s snapshot s') then show ?case using observe_reports by (simp add: registry_authority_def tells_def)
next
  case (8 i p t s snapshot s')
  then show ?case using revalidate_reports by (simp add: registry_authority_def tells_def)
next
  case (9 k p i s e s') show ?case using reobserve_unknown [of env k p i s] by (auto simp: registry_authority_def)
next
  case (10 k p i s q state snapshot s')
  then show ?case using reobserve_unknown [of env k p i s] by (auto simp: registry_authority_def)
next
  case (11 c s r s')
  then have "registry_atomic_park env c s = (r, s')" by (simp add: registry_authority_def)
  from holds_run [OF atomic_park_holds [OF assms(3,1,2)] refl this] show ?case
    by (auto simp: registry_view_def park_left_def split: sum.splits commit_result.splits)
next
  case (12 u s r s')
  then have "registry_atomic_resume env u s = (r, s')" "vw_parked (doc_view (rw_doc s)) (ru_session_id u) = Some (ru_retention u)"
    by (simp_all add: registry_authority_def registry_view_def)
  from holds_run [OF atomic_resume_holds [OF assms(3) this(2) 12(3)] refl this(1)] show ?case
    by (auto simp: registry_view_def resume_left_def split: sum.splits commit_result.splits)
qed

end
