(* ===== verification/RegistrySample.thy ===== *)
theory RegistrySample
  imports RetentionRegistry
begin

text \<open>
  A small registry with one session and its claim: the documents it passes through when the session is parked and
  resumed, and an environment in which every observation succeeds.
\<close>

section \<open>The documents\<close>

definition sample_id :: string where "sample_id = ''aaaaaaaa-aaaa-7aaa-8aaa-aaaaaaaaaaaa''"

definition sample_time :: string where "sample_time = ''2024-01-01T00:00:00.000Z''"

definition sample_hash :: "string \<Rightarrow> string" where "sample_hash s = replicate 64 CHR ''a''"

definition sample_set :: effective_working_set where
  "sample_set =
     \<lparr>ew_revision = 1, ew_id = ''w'', ew_repository = xs_repository sample_execution, ew_base = xs_base sample_execution,
      ew_scope = \<lparr>ws_read_only = [], ws_write = [''s/a''], ws_create = [], ws_delete = [], ws_deny = []\<rparr>,
      ew_provenance =
        \<lparr>pv_execution_scope = \<lparr>si_kind = [], si_version = 1, si_digest = [], si_identity = JNull, si_producer = None\<rparr>,
         pv_candidate = \<lparr>si_kind = [], si_version = 1, si_digest = [], si_identity = JNull\<rparr>,
         pv_repository = xs_repository sample_execution, pv_base = xs_base sample_execution\<rparr>,
      ew_history = None\<rparr>"

definition sample_session :: "session_state \<Rightarrow> registry_session" where
  "sample_session state =
     \<lparr>rg_session_id = sample_id, rg_repository_id = ''/r'', rg_worktree_id = ''/w'', rg_worktree_path = ''/w'',
      rg_branch_id = ''refs/heads/b'', rg_branch_name = ''b'', rg_state = state, rg_created_at = sample_time,
      rg_updated_at = sample_time, rg_base_revision = None, rg_working_set = Some sample_set\<rparr>"

definition sample_own_claim :: resource_claim where
  "sample_own_claim =
     \<lparr>rc_schema_version = RESOURCE_CLAIM_SCHEMA_VERSION, rc_claim_id = ''claim-'' @ replicate 64 CHR ''a'',
      rc_session_id = sample_id, rc_repository_id = ''/r'', rc_worktree_path = ''/w'', rc_resource = ''s/a'', rc_mode = Write,
      rc_sharing = None, rc_created_at = sample_time, rc_updated_at = sample_time\<rparr>"

definition sample_profile :: pinned_profile where
  "sample_profile =
     \<lparr>pn_identity = JNull, pn_repository_id = ''/r'', pn_base_revision = [],
      pn_filesystem = permission_scope_of (ew_scope sample_set)\<rparr>"

definition sample_env :: registry_env where
  "sample_env =
     \<lparr>re_repository_id = ''/r'', re_worktree_path = ''/w'', re_fs = fs_tree [([''w''], Dir)], re_sha = sample_hash,
      re_lock = (\<lambda>_. None), re_unlock = (\<lambda>_. None), re_clock = (\<lambda>_. sample_time), re_uuid = (\<lambda>_. ''u''),
      re_write = (\<lambda>_. WriteDurable), re_physical = (\<lambda>_ _ _. Inr (identity_of_session (sample_session SessActive))),
      re_cgroup_root = True, re_boot_known = (\<lambda>_. True), re_tree_empty = (\<lambda>_ _. True), re_execution_empty = (\<lambda>_ _. True),
      re_parse_pin = (\<lambda>_. Some sample_profile)\<rparr>"

definition sample_doc :: registry_doc where
  "sample_doc =
     \<lparr>rd_sessions = [sample_session SessActive], rd_claims = [sample_own_claim], rd_generation = 3, rd_revision = 5, rd_epoch = 2,
      rd_pins = [\<lparr>pe_session_id = Some sample_id, pe_value = JNull\<rparr>],
      rd_admissions = [\<lparr>ad_session_id = sample_id, ad_open = True, ad_epoch = 2\<rparr>], rd_executions = [],
      rd_park_intents = [], rd_retentions = [], rd_events = []\<rparr>"

definition sample_intent :: park_intent where
  "sample_intent =
     \<lparr>pk_operation_id = ''op'', pk_session_id = sample_id, pk_admission_epoch = 3, pk_expected_generation = 3,
      pk_created_at = sample_time, pk_updated_at = sample_time\<rparr>"

definition sample_fenced :: registry_doc where
  "sample_fenced = sample_doc
     \<lparr>rd_revision := 6, rd_epoch := 3, rd_admissions := [\<lparr>ad_session_id = sample_id, ad_open = False, ad_epoch = 3\<rparr>],
      rd_park_intents := [sample_intent]\<rparr>"

definition sample_retention :: retention_record where
  "sample_retention =
     \<lparr>rt_schema_version = 1, rt_operation_id = ''op'', rt_session_id = sample_id, rt_repository_id = ''/r'', rt_state = ''parked'',
      rt_physical_identity = identity_of_session (sample_session SessActive),
      rt_desired_claims = [\<lparr>ri_resource = ''s/a'', ri_mode = Write\<rparr>], rt_pinned_profile_digest = replicate 64 CHR ''a'',
      rt_parked_at = sample_time, rt_updated_at = sample_time\<rparr>"

definition sample_event :: "int \<Rightarrow> string \<Rightarrow> int \<Rightarrow> recent_event" where
  "sample_event n operation revision = HistoryEvent n
     \<lparr>hv_kind = ''lifecycle'', hv_session_id = sample_id, hv_execution_id = None, hv_operation = operation,
      hv_before_revision = revision, hv_after_revision = revision + 1, hv_observed_at = sample_time\<rparr>"

definition sample_parked :: registry_doc where
  "sample_parked = sample_fenced
     \<lparr>rd_sessions := [sample_session SessParked], rd_claims := [], rd_generation := 4, rd_revision := 7, rd_park_intents := [],
      rd_retentions := [sample_retention], rd_events := [sample_event 1 ''active->parked'' 6]\<rparr>"

definition sample_resumed :: registry_doc where
  "sample_resumed = sample_parked
     \<lparr>rd_sessions := [sample_session SessActive], rd_claims := [sample_own_claim], rd_generation := 5, rd_revision := 8, rd_epoch := 4,
      rd_admissions := [\<lparr>ad_session_id = sample_id, ad_open = True, ad_epoch = 4\<rparr>], rd_retentions := [],
      rd_events := [sample_event 1 ''active->parked'' 6, sample_event 2 ''parked->active'' 7]\<rparr>"

definition sample_world :: "registry_doc \<Rightarrow> nat \<Rightarrow> registry_world" where
  "sample_world d t = \<lparr>rw_doc = d, rw_fences = [], rw_validations = [], rw_tick = t\<rparr>"

definition sample_park_commit :: park_commit where
  "sample_park_commit =
     \<lparr>pc_operation_id = ''op'', pc_session_id = sample_id, pc_expected_state = ''active'', pc_expected_generation = 3,
      pc_fence_token = ''u'', pc_physical_identity = identity_of_session (sample_session SessActive),
      pc_desired_claims = [\<lparr>ri_resource = ''s/a'', ri_mode = Write\<rparr>], pc_pinned_profile_digest = replicate 64 CHR ''a'',
      pc_release_claim_ids = [rc_claim_id sample_own_claim], pc_parked_at = sample_time\<rparr>"

lemma sample_env_ok: "fs_lawful (re_fs sample_env)" "fs_exact (re_fs sample_env)" "re_unlock sample_env t = None"
proof -
  show "fs_lawful (re_fs sample_env)"
    unfolding sample_env_def by simp (rule fs_tree_lawful, simp add: real_path_def real_name_def)
qed (simp_all add: sample_env_def fs_tree_exact)

end
