(* ===== verification/ParkAndResume.thy ===== *)
theory ParkAndResume
  imports RegistrySample
begin

text \<open>
  Parking and resuming through the registry: the client of theory SessionRetention on the authority of theory
  RetentionRegistry. The properties follow from the interpretation of \<open>retention_authority\<close>; the witnesses run a session
  through a park and a resume, evaluated one operation at a time.
\<close>

section \<open>The states between the operations\<close>

definition sample_leased :: "registry_doc \<Rightarrow> nat \<Rightarrow> registry_world" where
  "sample_leased d t = (sample_world d t)
     \<lparr>rw_fences := [(sample_id, \<lparr>fl_operation_id = ''op'', fl_token = ''u'', fl_admission_epoch = 3, fl_expected_generation = 3\<rparr>)]\<rparr>"

definition sample_snapshot :: "registry_doc \<Rightarrow> session_state \<Rightarrow> retention_record option \<Rightarrow> retention_snapshot" where
  "sample_snapshot d state r =
     \<lparr>sn_session = \<lparr>rs_session_id = sample_id, rs_state = session_state_name state,
        rs_physical_identity = identity_of_session (sample_session SessActive)\<rparr>,
      sn_claims = rd_claims d, sn_claim_set_generation = rd_generation d, sn_retention = r\<rparr>"

section \<open>The operations\<close>

lemma sample_observe:
  "registry_observe sample_env sample_id (sample_world sample_doc 0) =
     (Inr (sample_snapshot sample_doc SessActive None), sample_world sample_doc 4)"
  by code_simp

lemma sample_fence:
  "registry_fence sample_env sample_id ''op'' (sample_world sample_doc 4) = (Inr (FenceAccepted ''u''), sample_leased sample_fenced 12)"
  by code_simp

lemma sample_drain:
  "registry_drain sample_env sample_id ''op'' ''u'' (sample_leased sample_fenced 12) = (Inr (Drained 0), sample_leased sample_fenced 17)"
  by code_simp

lemma sample_revalidate:
  "registry_revalidate sample_env sample_id ''op'' ''u'' (sample_leased sample_fenced 17) =
     (Inr (Revalidated (sample_snapshot sample_doc SessActive None)), sample_leased sample_fenced 23)"
  by code_simp

lemma sample_atomic_park:
  "registry_atomic_park sample_env sample_park_commit (sample_leased sample_fenced 23) =
     (Inr (CommitAccepted ''op'' (sample_snapshot sample_parked SessParked (Some sample_retention)) (Some [sample_own_claim])),
      sample_world sample_parked 35)"
  by code_simp

definition sample_resume_input :: resume_input where
  "sample_resume_input =
     \<lparr>ru_operation_id = ''op'', ru_session_id = sample_id,
      ru_snapshot = sample_snapshot sample_parked SessParked (Some sample_retention), ru_retention = sample_retention,
      ru_physical_identity = identity_of_session (sample_session SessActive), ru_pinned_profile_digest = replicate 64 CHR ''a'',
      ru_latest_external_scope = sample_scope_input, ru_desired_claims = [\<lparr>ri_resource = ''s/a'', ri_mode = Write\<rparr>]\<rparr>"

definition sample_resume_commit :: resume_commit where
  "sample_resume_commit = resume_input.extend sample_resume_input
     \<lparr>ru_expected_state = ''parked'', ru_expected_generation = 4, ru_validation_token = ''u''\<rparr>"

definition sample_validated :: "registry_doc \<Rightarrow> nat \<Rightarrow> registry_world" where
  "sample_validated d t = (sample_world d t)
     \<lparr>rw_validations := [(sample_id, \<lparr>vl_operation_id = ''op'', vl_token = ''u'', vl_request_digest = replicate 64 CHR ''a'',
        vl_revision = 7, vl_generation = 4\<rparr>)]\<rparr>"

lemma sample_observe_parked:
  "registry_observe sample_env sample_id (sample_world sample_parked 35) =
     (Inr (sample_snapshot sample_parked SessParked (Some sample_retention)), sample_world sample_parked 39)"
  by code_simp

lemma sample_validate:
  "registry_validate_resume sample_env sample_resume_input (sample_world sample_parked 39) =
     (Inr (ResumeAccepted ''u''), sample_validated sample_parked 49)"
  by code_simp

text \<open>The resume commit, one call after the other\<close>

lemma sample_resume_read:
  "read_state sample_env (sample_validated sample_parked 50) = (Inr sample_parked, sample_validated sample_parked 51)"
  by code_simp

lemma sample_resume_scope:
  "validate_retention_external_scope (find_session sample_id (rd_sessions sample_parked)) (Some sample_profile) sample_scope_input
     [\<lparr>ri_resource = ''s/a'', ri_mode = Write\<rparr>] = Some sample_execution"
  by code_simp

lemma sample_resume_digest:
  "retention_resume_request_digest sample_hash sample_resume_commit sample_execution = Inr (replicate 64 CHR ''a'')"
  by code_simp

lemma sample_resume_checks:
  "pinned_profile_unsafe sample_env sample_parked sample_id = Inr (Some sample_profile)"
  "assert_parked_retention sample_env sample_parked sample_id sample_retention = Inr (sample_session SessParked)"
  "snapshot_is_current sample_env sample_parked sample_resume_commit"
  "assert_resume_identity sample_resume_commit (identity_of_session (sample_session SessActive)) = Inr ()"
  "assert_resume_pin sample_env (Some sample_profile) sample_resume_commit = Inr ()"
  "retention_admission_unsafe sample_parked sample_id = Inr \<lparr>ad_session_id = sample_id, ad_open = False, ad_epoch = 3\<rparr>"
  "map_of (rw_validations (sample_validated sample_parked 51)) sample_id =
     Some \<lparr>vl_operation_id = ''op'', vl_token = ''u'', vl_request_digest = replicate 64 CHR ''a'', vl_revision = rd_revision sample_parked,
       vl_generation = rd_generation sample_parked\<rparr>"
  by code_simp+

lemma sample_resume_calls:
  "retention_physical_identity sample_env (sample_session SessParked) (sample_validated sample_parked 51) =
     (Inr (identity_of_session (sample_session SessActive)), sample_validated sample_parked 52)"
  "assert_owned_executions_empty sample_env sample_parked sample_id (sample_validated sample_parked 52) =
     (Inr (), sample_validated sample_parked 54)"
  "retained_claims_for_session sample_env (sample_session SessParked) [\<lparr>ri_resource = ''s/a'', ri_mode = Write\<rparr>]
     (sample_validated sample_parked 54) = (Inr [sample_own_claim], sample_validated sample_parked 56)"
  by code_simp+

lemma sample_resume_claims:
  "validate_requested_claims (re_fs sample_env) [sample_own_claim] (resumed_owner (sample_session SessParked)) (rd_claims sample_parked)
     (registry_facts sample_env 56 (rd_sessions sample_parked) (rd_generation sample_parked)) = Inr [sample_own_claim]"
  "sort_resource_claims (rd_claims sample_parked @ [sample_own_claim]) = [sample_own_claim]"
  "next_claim_set_generation sample_parked [sample_own_claim] = Inr 5"
  "next_runtime_epoch sample_parked = Inr 4" "next_registry_revision sample_parked = Inr 8"
  by code_simp+

lemma sample_resume_write:
  "write_registry sample_env sample_parked (sample_parked
     \<lparr>rd_sessions := map (\<lambda>r. if rg_session_id r = sample_id then transition_session_state (sample_session SessParked) SessActive sample_time
        else r) (rd_sessions sample_parked),
      rd_claims := [sample_own_claim], rd_generation := 5, rd_revision := 8, rd_epoch := 4,
      rd_admissions := with_session_admission \<lparr>ad_session_id = sample_id, ad_open = True, ad_epoch = 4\<rparr> (rd_admissions sample_parked),
      rd_retentions := filter (\<lambda>r. rt_session_id r \<noteq> sample_id) (rd_retentions sample_parked)\<rparr>) (sample_validated sample_parked 58) =
   (Inr (), sample_validated sample_resumed 61)"
  by code_simp

lemma sample_atomic_resume:
  "registry_atomic_resume sample_env sample_resume_commit (sample_validated sample_parked 49) =
     (Inr (CommitAccepted ''op'' (sample_snapshot sample_resumed SessActive None) (Some [sample_own_claim])),
      sample_world sample_resumed 62)"
proof -
  have input: "ru_session_id sample_resume_commit = sample_id" "ru_operation_id sample_resume_commit = ''op''"
    "ru_latest_external_scope sample_resume_commit = sample_scope_input" "ru_retention sample_resume_commit = sample_retention"
    "ru_desired_claims sample_resume_commit = [\<lparr>ri_resource = ''s/a'', ri_mode = Write\<rparr>]"
    "ru_validation_token sample_resume_commit = ''u''" "ru_expected_generation sample_resume_commit = rd_generation sample_parked"
    "re_sha sample_env = sample_hash"
    by (simp_all add: sample_resume_commit_def sample_resume_input_def resume_input.defs sample_parked_def sample_env_def)
  have ticks: "rw_tick (sample_validated d t) = t" "(sample_validated d t)\<lparr>rw_tick := n\<rparr> = sample_validated d n"
    "rw_tick (sample_world d t) = t" "(sample_world d t)\<lparr>rw_tick := n\<rparr> = sample_world d n" for d t n
    by (simp_all add: sample_validated_def sample_world_def)
  have leases: "set_fence sample_id None (sample_validated d t) = (Inr (), sample_validated d t)"
    "set_validation sample_id None (sample_validated d t) = (Inr (), sample_world d t)"
    "set_validation sample_id None (sample_world d t) = (Inr (), sample_world d t)" for d t
    by (simp_all add: sample_validated_def sample_world_def set_fence_def set_validation_def with_lease_def)
  have snapshot: "sample_snapshot sample_resumed SessActive None =
      \<lparr>sn_session = \<lparr>rs_session_id = sample_id, rs_state = ''active'', rs_physical_identity = identity_of_session (sample_session SessActive)\<rparr>,
       sn_claims = [sample_own_claim], sn_claim_set_generation = 5, sn_retention = None\<rparr>"
    by (simp add: sample_snapshot_def sample_resumed_def)
  have clock: "re_lock sample_env = (\<lambda>_. None)" "re_unlock sample_env = (\<lambda>_. None)" "re_clock sample_env = (\<lambda>_. sample_time)"
    by (simp_all add: sample_env_def)
  show ?thesis
    by (simp add: registry_atomic_resume_def catch_call_def with_lock_def release_lock_def resume_section_def bind_call_def pure_call_def
        observing_def claim_facts_def Let_def input ticks clock sample_resume_read sample_resume_scope sample_resume_digest
        sample_resume_checks sample_resume_calls sample_resume_claims sample_resume_write leases snapshot)
qed

section \<open>The two commands\<close>

definition sample_retention_env :: retention_env where
  "sample_retention_env = \<lparr>en_sha256 = sample_hash, en_fresh_id = ''op'', en_now = sample_time\<rparr>"

definition sample_park_options :: park_options where
  "sample_park_options =
     \<lparr>po_session_id = JStr sample_id, po_pinned_profile = JNull, po_desired_claims = None, po_operation_id = JUndefined,
      po_now = JUndefined\<rparr>"

definition sample_resume_options :: resume_options where
  "sample_resume_options =
     \<lparr>ro_session_id = JStr sample_id, ro_pinned_profile = JNull, ro_latest_external_scope = sample_scope_input,
      ro_operation_id = JUndefined\<rparr>"

lemma sample_requests:
  "non_empty_string (JStr sample_id) = Inr sample_id"
  "non_empty_string (or_else JUndefined ''op'') = Inr ''op''"
  "retention_identity_digest sample_hash JNull = Inr (replicate 64 CHR ''a'')"
  "retention_timestamp (or_else JUndefined sample_time) = Inr sample_time"
  "assert_retention_snapshot (sample_snapshot sample_doc SessActive None) sample_id = Inr ()"
  "assert_retention_snapshot (sample_snapshot sample_parked SessParked (Some sample_retention)) sample_id = Inr ()"
  "map_sum_list claim_intent_of (claims_for_session (sample_snapshot sample_doc SessActive None)) =
     Inr [\<lparr>ri_resource = ''s/a'', ri_mode = Write\<rparr>]"
  "clone_and_sort_intents [\<lparr>ri_resource = ''s/a'', ri_mode = Write\<rparr>] = Inr [\<lparr>ri_resource = ''s/a'', ri_mode = Write\<rparr>]"
  "check_desired_subset [\<lparr>ri_resource = ''s/a'', ri_mode = Write\<rparr>] (sn_claims (sample_snapshot sample_doc SessActive None)) sample_id = Inr ()"
  "sort (map rc_claim_id (filter (\<lambda>c. rc_session_id c = sample_id) (sn_claims (sample_snapshot sample_doc SessActive None)))) =
     [rc_claim_id sample_own_claim]"
  "same_physical_identity (identity_of_session (sample_session SessActive)) (identity_of_session (sample_session SessActive))"
  by code_simp+

lemma sample_park:
  "park_session sample_retention_env (registry_authority sample_env) sample_park_options (sample_world sample_doc 0) =
     (Inr ((retention_success Park ''op'' sample_id (sample_snapshot sample_parked SessParked (Some sample_retention)))
        \<lparr>rr_retention := Some sample_retention, rr_moved_claims := Some [sample_own_claim]\<rparr>), sample_world sample_parked 35)"
proof -
  have "rs_state (sn_session (sample_snapshot sample_doc SessActive None)) = ''active''"
    "rs_physical_identity (sn_session (sample_snapshot sample_doc SessActive None)) = identity_of_session (sample_session SessActive)"
    "sn_claim_set_generation (sample_snapshot sample_doc SessActive None) = 3"
    "rs_state (sn_session (sample_snapshot sample_parked SessParked (Some sample_retention))) = ''parked''"
    "sn_retention (sample_snapshot sample_parked SessParked (Some sample_retention)) = Some sample_retention"
    by (simp_all add: sample_snapshot_def sample_doc_def)
  then show ?thesis
    by (simp add: park_session_def bind_call_def pure_call_def sample_park_options_def sample_retention_env_def registry_authority_def
        sample_requests sample_observe sample_fence sample_drain sample_revalidate
        sample_atomic_park [unfolded sample_park_commit_def] handle_park_commit_def
        assert_commit_identity_def)
qed

lemma sample_resume:
  "resume_session sample_retention_env (registry_authority sample_env) sample_resume_options (sample_world sample_parked 35) =
     (Inr ((retention_success Resume ''op'' sample_id (sample_snapshot sample_resumed SessActive None))
        \<lparr>rr_moved_claims := Some [sample_own_claim]\<rparr>), sample_world sample_resumed 62)"
proof -
  have "rs_state (sn_session (sample_snapshot sample_parked SessParked (Some sample_retention))) = ''parked''"
    "sn_retention (sample_snapshot sample_parked SessParked (Some sample_retention)) = Some sample_retention"
    "rs_physical_identity (sn_session (sample_snapshot sample_parked SessParked (Some sample_retention))) =
       identity_of_session (sample_session SessActive)"
    "sn_claim_set_generation (sample_snapshot sample_parked SessParked (Some sample_retention)) = 4"
    "rs_state (sn_session (sample_snapshot sample_resumed SessActive None)) = ''active''"
    "sn_retention (sample_snapshot sample_resumed SessActive None) = None"
    by (simp_all add: sample_snapshot_def sample_parked_def)
  moreover have "rt_state sample_retention = ''parked''" "rt_session_id sample_retention = sample_id"
    "rt_repository_id sample_retention = pi_repository_id (identity_of_session (sample_session SessActive))"
    "rt_physical_identity sample_retention = identity_of_session (sample_session SessActive)"
    "rt_pinned_profile_digest sample_retention = replicate 64 CHR ''a''"
    "rt_desired_claims sample_retention = [\<lparr>ri_resource = ''s/a'', ri_mode = Write\<rparr>]"
    by (simp_all add: sample_retention_def identity_of_session_def sample_session_def)
  moreover have "sample_scope_input \<noteq> JUndefined" "sample_scope_input \<noteq> JNull" by (simp_all add: sample_scope_input_def)
  ultimately show ?thesis
    by (simp add: resume_session_def bind_call_def pure_call_def sample_resume_options_def sample_retention_env_def
        registry_authority_def sample_requests sample_observe_parked Let_def sample_validate [unfolded sample_resume_input_def]
        sample_atomic_resume [unfolded sample_resume_commit_def sample_resume_input_def] handle_resume_commit_def assert_commit_identity_def)
qed

section \<open>The authority of the sample\<close>

interpretation kept: retention_authority "registry_authority sample_env" registry_view
  by (rule registry_is_authority) (simp_all add: sample_env_ok)

section \<open>Properties\<close>

lemma wanted_all:
  assumes "wanted_intents options i v desired" "po_desired_claims options = None"
  shows "set desired = intent_of ` owned_claims i v"
proof -
  obtain all where all: "list_all2 (\<lambda>c j. claim_intent_of c = Inr j) (filter (\<lambda>c. rc_session_id c = i) (vw_claims v)) all"
    and "clone_and_sort_intents all = Inr desired"
    using assms by (auto simp: wanted_intents_def)
  then have "set desired = set all" using clone_and_sort_intents_Inr by fastforce
  moreover have "all = map intent_of (filter (\<lambda>c. rc_session_id c = i) (vw_claims v))"
    using all
  proof (induction rule: list_all2_induct)
    case (Cons c cs j js)
    have "claim_intent_of c = Inr j \<Longrightarrow> j = intent_of c"
      using clone_claim_intent_Inr [of "intent_of c" j] by (simp add: claim_intent_of_def intent_of_def)
    with Cons show ?case by simp
  qed simp
  ultimately show ?thesis by (auto simp: owned_claims_def)
qed

text \<open>C7: A session that parks with all its claims and resumes gets back exactly the resources and modes it had, whatever the
  rest of the registry did in between, and no claim of another session changes on resuming.\<close>

theorem park_then_resume_restores_claims:
  assumes "fs_lawful (re_fs env)" "fs_exact (re_fs env)" "\<And>t. re_unlock env t = None"
    and "park_session en (registry_authority env) options w = (Inr parked, w1)" "rr_status parked = StatusParked"
    and "po_desired_claims options = None"
    and "vw_parked (registry_view w2) (rr_session_id parked) = vw_parked (registry_view w1) (rr_session_id parked)"
    and "resume_session en' (registry_authority env) options' w2 = (Inr resumed, w3)" "rr_status resumed = StatusResumed"
    and "rr_session_id resumed = rr_session_id parked"
  shows "intent_of ` owned_claims (rr_session_id parked) (registry_view w3) =
           intent_of ` owned_claims (rr_session_id parked) (registry_view w) \<and>
         foreign_claims (rr_session_id parked) (registry_view w3) = foreign_claims (rr_session_id parked) (registry_view w2)"
proof -
  note au = registry_is_authority [OF assms(1-3)]
  obtain desired where want: "wanted_intents options (rr_session_id parked) (registry_view w) desired"
    and park: "park_effect (rr_operation_id parked) (rr_session_id parked) desired (registry_view w) (registry_view w1)"
    using retention_authority.ensures_run [OF au retention_authority.park_ensures [OF au] refl assms(4)] assms(5)
    by (auto simp: park_outcome_def)
  obtain r where "vw_parked (registry_view w2) (rr_session_id parked) = Some r"
    and resume: "resume_effect (rr_session_id parked) r (registry_view w2) (registry_view w3)"
    using retention_authority.ensures_run [OF au retention_authority.resume_ensures [OF au] refl assms(8)] assms(9,10)
    by (auto simp: resume_outcome_def)
  with park assms(7) have "set (rt_desired_claims r) = set desired" by (auto simp: park_effect_def)
  with resume wanted_all [OF want assms(6)] show ?thesis by (simp add: resume_effect_def)
qed

theorem park_then_resume_restores_claims_witness:
  "intent_of ` owned_claims sample_id (registry_view (sample_world sample_resumed 62)) =
     intent_of ` owned_claims sample_id (registry_view (sample_world sample_doc 0))"
  using park_then_resume_restores_claims [OF sample_env_ok sample_park _ _ refl sample_resume]
  by (simp add: retention_success_def sample_park_options_def)

end
