(* ===== verification/RegistryHandoff.thy ===== *)
theory RegistryHandoff
  imports RetentionRegistry
begin

text \<open>
  The registry's part of a handoff (resourceHandoffSnapshotUnsafe and commitResourceHandoff of src/src/session-registry.ts):
  the snapshot, the commit that validates it again under the lock, and the receipt that makes a retry idempotent. The
  theory discharges the laws of \<open>handoff_authority\<close> for them.
\<close>

section \<open>Definitions\<close>

definition handoff_session_of :: "registry_session \<Rightarrow> handoff_session" where
  "handoff_session_of s =
     \<lparr>hs_session_id = rg_session_id s, hs_repository_id = rg_repository_id s, hs_worktree_path = rg_worktree_path s,
      hs_state = session_state_name (rg_state s), hs_max_scope = map_option ew_scope (rg_working_set s)\<rparr>"

definition handoff_receipts :: "recent_event list \<Rightarrow> handoff_receipt list" where
  "handoff_receipts events = concat (map (\<lambda>e. case e of HandoffEvent r \<Rightarrow> [r] | HistoryEvent _ _ \<Rightarrow> []) events)"

definition resource_handoff_snapshot :: "registry_env \<Rightarrow> registry_doc \<Rightarrow> handoff_snapshot" where
  "resource_handoff_snapshot env doc =
     \<lparr>hn_schema_version = 1, hn_operation = ''resource-handoff'', hn_repository_id = re_repository_id env,
      hn_generation = rd_generation doc, hn_sessions = map handoff_session_of (rd_sessions doc), hn_claims = rd_claims doc,
      hn_completed = handoff_receipts (rd_events doc)\<rparr>"

text \<open>The loop that drops the oldest history until a receipt fits, keeping the last history record\<close>

fun drop_oldest_history :: "recent_event list \<Rightarrow> recent_event list" where
  "drop_oldest_history [] = []"
| "drop_oldest_history (e # es) = (if is_handoff e then e # drop_oldest_history es else es)"

lemma drop_oldest_shorter: "list_ex (\<lambda>e. \<not> is_handoff e) es \<Longrightarrow> length (drop_oldest_history es) < length es"
  by (induction es) auto

function make_room :: "recent_event list \<Rightarrow> recent_event list" where
  "make_room es =
     (if MAX_RUNTIME_RECORDS \<le> length es \<and> 1 < length (filter (\<lambda>e. \<not> is_handoff e) es)
      then make_room (drop_oldest_history es) else es)"
  by auto

termination
proof (relation "measure length")
  fix es :: "recent_event list"
  assume "MAX_RUNTIME_RECORDS \<le> length es \<and> 1 < length (filter (\<lambda>e. \<not> is_handoff e) es)"
  then have "filter (\<lambda>e. \<not> is_handoff e) es \<noteq> []" by auto
  then have "list_ex (\<lambda>e. \<not> is_handoff e) es" by (auto simp: filter_empty_conv list_ex_iff)
  then show "(drop_oldest_history es, es) \<in> measure length" by (simp add: drop_oldest_shorter)
qed simp

declare make_room.simps [simp del]

definition same_handoff_identity :: "handoff_session option \<Rightarrow> registry_session \<Rightarrow> bool" where
  "same_handoff_identity expected s \<longleftrightarrow>
     (case expected of None \<Rightarrow> False
      | Some x \<Rightarrow> hs_repository_id x = rg_repository_id s \<and> hs_worktree_path x = rg_worktree_path s \<and>
          hs_state x = session_state_name (rg_state s))"

definition handoff_section :: "registry_env \<Rightarrow> handoff_commit_input \<Rightarrow> handoff_commit_result registry_call" where
  "handoff_section env input =
     (let h = hi_normalized input; expected = hi_snapshot input in
      bind_call (read_state env) (\<lambda>doc.
      let current = resource_handoff_snapshot env doc in
      bind_call (check_call (hn_generation current = hn_generation expected) ''STALE_CLAIM_SET'') (\<lambda>_.
      bind_call (pure_call (validate_resource_handoff (re_sha env) (re_fs env) current (hi_options input))) (\<lambda>v.
      if va_status v = ValidationIdempotent
      then pure_call (Inr \<lparr>hc_status = HandoffIdempotent, hc_operation_id = nh_operation_id h, hc_generation = hn_generation current,
        hc_source_claim = va_source_claim v, hc_destination_claim = va_destination_claim v\<rparr>)
      else
      bind_call (check_call (va_status v = ValidationAllowed \<and> va_source_claim v \<noteq> None) (va_code v)) (\<lambda>_.
      case find_session (nh_from h) (rd_sessions doc) of
        None \<Rightarrow> pure_call (registry_error_code ''SESSION_NOT_FOUND'')
      | Some source \<Rightarrow>
      case find_session (nh_to h) (rd_sessions doc) of
        None \<Rightarrow> pure_call (registry_error_code ''SESSION_NOT_FOUND'')
      | Some destination \<Rightarrow>
      bind_call (check_call (same_handoff_identity (find_handoff_session (nh_from h) (hn_sessions expected)) source \<and>
        same_handoff_identity (find_handoff_session (nh_to h) (hn_sessions expected)) destination) ''WORKTREE_MISMATCH'') (\<lambda>_.
      bind_call (observing (re_clock env)) (\<lambda>now.
      bind_call (pure_call (of_registry (create_resource_claim (re_sha env)
        \<lparr>cc_resource = nh_resource h, cc_mode = nh_mode h, cc_sharing = None\<rparr> (owner_of_session destination) now))) (\<lambda>claim.
      let next_claims = sort_resource_claims
            (filter (\<lambda>c. Some (rc_claim_id c) \<noteq> map_option rc_claim_id (va_source_claim v)) (rd_claims doc) @ [claim]) in
      bind_call (claim_facts env doc) (\<lambda>facts.
      bind_call (pure_call (validate_registry_claims (re_fs env) facts (rd_sessions doc) next_claims)) (\<lambda>_.
      bind_call (pure_call (next_claim_set_generation doc next_claims)) (\<lambda>generation.
      bind_call (check_call (generation \<noteq> rd_generation doc) ''OPERATION_REJECTED'') (\<lambda>_.
      let events = make_room (rd_events doc) in
      bind_call (check_call (length events < MAX_RUNTIME_RECORDS) ''OPERATION_REJECTED'') (\<lambda>_.
      bind_call (pure_call (next_registry_revision doc)) (\<lambda>revision.
      bind_call (write_registry env doc (doc
        \<lparr>rd_claims := next_claims, rd_generation := generation, rd_revision := revision,
         rd_events := events @ [HandoffEvent (receipt_of h generation)]\<rparr>)) (\<lambda>_.
      pure_call (Inr \<lparr>hc_status = HandoffTransferred, hc_operation_id = nh_operation_id h, hc_generation = generation,
        hc_source_claim = None, hc_destination_claim = Some claim\<rparr>))))))))))))))))"

definition commit_resource_handoff :: "registry_env \<Rightarrow> handoff_commit_input \<Rightarrow> handoff_commit_result registry_call" where
  "commit_resource_handoff env input = with_lock env (handoff_section env input)"

definition read_resource_handoff :: "registry_env \<Rightarrow> handoff_snapshot registry_call" where
  "read_resource_handoff env =
     with_lock env (bind_call (read_state env) (\<lambda>doc. pure_call (Inr (resource_handoff_snapshot env doc))))"

definition registry_handoff_authority :: "registry_env \<Rightarrow> registry_world handoff_ops" where
  "registry_handoff_authority env =
     \<lparr>ha_read = read_resource_handoff env, ha_commit = commit_resource_handoff env\<rparr>"

definition registry_handoff_resources ::
  "registry_env \<Rightarrow> registry_world handoff_controller \<Rightarrow> handoff_options option \<Rightarrow> handoff_result registry_call" where
  "registry_handoff_resources env execution options =
     handoff_resources (re_sha env) (re_fs env) (registry_handoff_authority env) execution options"

section \<open>The laws of the authority\<close>

lemma sorted_doc_simps [simp]:
  "rd_revision (sorted_doc d) = rd_revision d" "rd_epoch (sorted_doc d) = rd_epoch d"
  "rd_generation (sorted_doc d) = rd_generation d" "rd_park_intents (sorted_doc d) = rd_park_intents d"
  "rd_sessions (sorted_doc d) = rd_sessions d" "rd_retentions (sorted_doc d) = rd_retentions d"
  "rd_claims (sorted_doc d) = sort_resource_claims (rd_claims d)" "rd_admissions (sorted_doc d) = rd_admissions d"
  "rd_events (sorted_doc d) = rd_events d"
  by (simp_all add: sorted_doc_def)

lemma written_doc_simps:
  "rd_generation (written_doc n events) = rd_generation n" "rd_sessions (written_doc n events) = rd_sessions n"
  "rd_claims (written_doc n events) = sort_resource_claims (rd_claims n)" "rd_events (written_doc n events) = events"
  by (simp_all add: written_doc_def)

abbreviation handoff_view :: "registry_env \<Rightarrow> registry_doc \<Rightarrow> handoff_snapshot" where
  "handoff_view env d \<equiv> resource_handoff_snapshot env (sorted_doc d)"

lemma handoff_view_simps:
  "hn_generation (handoff_view env d) = rd_generation d" "hn_claims (handoff_view env d) = sort_resource_claims (rd_claims d)"
  "hn_sessions (handoff_view env d) = map handoff_session_of (rd_sessions d)"
  "hn_completed (handoff_view env d) = handoff_receipts (rd_events d)"
  by (simp_all add: resource_handoff_snapshot_def)

lemma receipts_of_events: "handoff_receipts (filter is_handoff events) = handoff_receipts events"
  by (induction events) (auto simp: handoff_receipts_def is_handoff_def split: recent_event.splits)

lemma drop_oldest_keeps [simp]: "filter is_handoff (drop_oldest_history es) = filter is_handoff es"
  by (induction es) auto

lemma make_room_keeps [simp]: "filter is_handoff (make_room es) = filter is_handoff es"
  by (induction es rule: make_room.induct) (subst make_room.simps, auto)

lemma written_receipts:
  assumes "filter is_handoff events = filter is_handoff (make_room es @ [HandoffEvent r])"
  shows "handoff_receipts events = handoff_receipts es @ [r]"
proof -
  have "handoff_receipts events = handoff_receipts (filter is_handoff es @ [HandoffEvent r])"
    using assms receipts_of_events [of events] by (simp add: is_handoff_def)
  then show ?thesis
    using receipts_of_events [of es] by (simp add: handoff_receipts_def)
qed

lemma mset_without:
  "distinct (map f xs) \<Longrightarrow> x \<in> set xs \<Longrightarrow> mset (filter (\<lambda>c. f c \<noteq> f x) xs) + {#x#} = mset xs"
proof (induction xs)
  case (Cons a xs)
  then show ?case
  proof (cases "a = x")
    case True
    with Cons.prems have "filter (\<lambda>c. f c \<noteq> f x) xs = xs" by (auto simp: filter_id_conv image_iff)
    then show ?thesis using True by simp
  qed auto
qed simp

lemma handoff_written:
  assumes "hn_generation (handoff_view env d) = hn_generation (hi_snapshot i)"
    and v: "validate_resource_handoff (re_sha env) (re_fs env) (handoff_view env d) (hi_options i) = Inr v"
      "va_status v = ValidationAllowed \<and> va_source_claim v \<noteq> None"
    and destination: "find_session (nh_to (hi_normalized i)) sessions = Some destination"
    and claim: "of_registry (create_resource_claim (re_sha env)
        \<lparr>cc_resource = nh_resource (hi_normalized i), cc_mode = nh_mode (hi_normalized i), cc_sharing = None\<rparr>
        (owner_of_session destination) now) = Inr claim"
    and generation: "next_claim_set_generation (sorted_doc d) (sort_resource_claims
        (filter (\<lambda>c. Some (rc_claim_id c) \<noteq> map_option rc_claim_id (va_source_claim v)) (rd_claims (sorted_doc d)) @ [claim])) =
        Inr generation" "generation \<noteq> rd_generation (sorted_doc d)"
    and events: "filter is_handoff events = filter is_handoff (rd_events (sorted_doc d
      \<lparr>rd_claims := sort_resource_claims
         (filter (\<lambda>c. Some (rc_claim_id c) \<noteq> map_option rc_claim_id (va_source_claim v)) (rd_claims (sorted_doc d)) @ [claim]),
       rd_generation := generation, rd_revision := revision,
       rd_events := make_room (rd_events (sorted_doc d)) @ [HandoffEvent (receipt_of (hi_normalized i) generation)]\<rparr>))"
  shows "handoff_moves (re_sha env) (re_fs env) i (handoff_view env d) (handoff_view env (written_doc (sorted_doc d
      \<lparr>rd_claims := sort_resource_claims
         (filter (\<lambda>c. Some (rc_claim_id c) \<noteq> map_option rc_claim_id (va_source_claim v)) (rd_claims (sorted_doc d)) @ [claim]),
       rd_generation := generation, rd_revision := revision,
       rd_events := make_room (rd_events (sorted_doc d)) @ [HandoffEvent (receipt_of (hi_normalized i) generation)]\<rparr>) events))"
    (is "handoff_moves _ _ _ _ (handoff_view env (written_doc (sorted_doc d\<lparr>rd_claims := ?claims, rd_generation := _, rd_revision := _, rd_events := _\<rparr>) events))")
proof -
  obtain source where source: "va_source_claim v = Some source" and snapshot: "assert_handoff_snapshot (re_sha env) (handoff_view env d) = Inr ()"
    and justified: "handoff_justified (re_fs env) (handoff_view env d) (va_request v) source"
    using v by (blast elim: validation_allowed)
  have "distinct (map rc_claim_id (rd_claims (sorted_doc d)))"
    using snapshot by (simp add: assert_handoff_snapshot_def Let_def sum_simps require_eq_Inr resource_handoff_snapshot_def)
  moreover have "source \<in> set (rd_claims (sorted_doc d))"
    using justified_owned(1) [OF justified] by (simp add: resource_handoff_snapshot_def)
  ultimately have "mset ?claims + {#source#} = mset (rd_claims (sorted_doc d)) + {#claim#}"
    using mset_without [of rc_claim_id "rd_claims (sorted_doc d)" source] source
    by (simp add: sort_resource_claims_def)
  moreover have "generation = rd_generation d + 1"
    using generation by (auto simp: next_claim_set_generation_def sorted_doc_def split: if_splits)
  moreover have "rc_session_id claim = nh_to (hi_normalized i)" "rc_resource claim = nh_resource (hi_normalized i)"
    "rc_mode claim = nh_mode (hi_normalized i)"
    using claim find_session_id [OF destination] by (auto simp: create_resource_claim_Inr owner_of_session_def)
  moreover have "handoff_receipts events = handoff_receipts (rd_events d) @ [receipt_of (hi_normalized i) generation]"
    using events by (intro written_receipts) simp
  ultimately show ?thesis
    using assms(1) v source
    by (simp add: handoff_moves_def handoff_view_simps written_doc_simps sort_resource_claims_def)
      (rule exI [where x = claim], metis add_mset_commute)
qed

lemma handoff_section_holds:
  "holds d (handoff_section env i)
     (\<lambda>r n. if hc_status r = HandoffTransferred then handoff_moves (re_sha env) (re_fs env) i (handoff_view env d) (handoff_view env n)
        else n = d)
     (\<lambda>e n. n = d \<or> unproven e \<and> handoff_moves (re_sha env) (re_fs env) i (handoff_view env d) (handoff_view env n))"
  unfolding handoff_section_def Let_def
  by (intro holds_read holds_steps holds_facts holds_write)
    (assumption | rule disjI1 [OF refl] | rule disjI2, rule conjI, assumption, rule handoff_written | rule handoff_written |
     simp only: handoff_commit_result.select_convs refl if_True | (simp; fail))+

lemma handoff_read_holds:
  "holds d (read_resource_handoff env) (\<lambda>n d'. n = handoff_view env d \<and> d' = d) (\<lambda>_ d'. d' = d)"
  unfolding read_resource_handoff_def
  by (intro holds_any_lock holds_read holds_return) auto

lemma handoff_commit_holds:
  "holds d (commit_resource_handoff env i)
     (\<lambda>r n. if hc_status r = HandoffTransferred then handoff_moves (re_sha env) (re_fs env) i (handoff_view env d) (handoff_view env n)
        else n = d)
     (\<lambda>_ n. n = d \<or> handoff_moves (re_sha env) (re_fs env) i (handoff_view env d) (handoff_view env n))"
  unfolding commit_resource_handoff_def
  by (rule holds_any_lock [OF holds_weaken [OF handoff_section_holds]]) (auto split: if_splits)

text \<open>When the lock is released without error, only an uncertain write leaves another document behind an error.\<close>

lemma handoff_commit_error:
  assumes "\<And>t. re_unlock env t = None"
  shows "holds d (commit_resource_handoff env i) (\<lambda>_ _. True) (\<lambda>e n. n = d \<or> unproven e)"
  unfolding commit_resource_handoff_def
  by (rule holds_lock [OF assms holds_weaken [OF handoff_section_holds]]) auto

interpretation handoff: handoff_authority "re_sha env" "re_fs env" "registry_handoff_authority env" "\<lambda>w. handoff_view env (rw_doc w)"
  for env
proof
  fix s s' x
  assume "ha_read (registry_handoff_authority env) s = (x, s')"
  then show "handoff_view env (rw_doc s') = handoff_view env (rw_doc s) \<and> (\<forall>n. x = Inr n \<longrightarrow> n = handoff_view env (rw_doc s))"
    using holds_run [OF handoff_read_holds refl, of env s x s']
    by (auto simp: registry_handoff_authority_def split: sum.splits)
next
  fix i s r s'
  assume "ha_commit (registry_handoff_authority env) i s = (Inr r, s')"
  then show "if hc_status r = HandoffTransferred
      then handoff_moves (re_sha env) (re_fs env) i (handoff_view env (rw_doc s)) (handoff_view env (rw_doc s'))
      else handoff_view env (rw_doc s') = handoff_view env (rw_doc s)"
    using holds_run [OF handoff_commit_holds refl, of env i s "Inr r" s']
    by (simp add: registry_handoff_authority_def split: if_splits)
next
  fix i s y s'
  assume "ha_commit (registry_handoff_authority env) i s = (y, s')"
  then show "handoff_view env (rw_doc s') = handoff_view env (rw_doc s) \<or>
      handoff_moves (re_sha env) (re_fs env) i (handoff_view env (rw_doc s)) (handoff_view env (rw_doc s'))"
    using holds_run [OF handoff_commit_holds refl, of env i s y s']
    by (auto simp: registry_handoff_authority_def split: sum.splits if_splits)
qed

end
