(* ===== verification/RegistryHistory.thy ===== *)
theory RegistryHistory
  imports RegistrySample RegistryHandoff
begin

text \<open>
  What holds of the registry document over any sequence of the modelled operations of src/src/session-registry.ts, by
  whichever process and however often one is interrupted: the document stays one that a reader accepted, the generation
  of the claims tells every claim set apart, an update on an expected generation loses no change of another session, and
  a park intent whose generation has passed stays for ever.
\<close>

section \<open>Steps\<close>

text \<open>
  An operation leaves the document it leaves whether it returns or throws. What happens outside the document (time, the
  leases of a process, its end, operations that only read) is one step that keeps it.
\<close>

inductive registry_step :: "registry_env \<Rightarrow> registry_world \<Rightarrow> registry_world \<Rightarrow> bool" for env where
  outside: "rw_doc w' = rw_doc w \<Longrightarrow> registry_step env w w'"
| claim: "registry_step env w (snd (claim_resources env options inputs finalization w))"
| update: "registry_step env w (snd (update_claims env options inputs finalization w))"
| deltas: "registry_step env w (snd (apply_claim_deltas env options raw finalization w))"
| release: "registry_step env w (snd (release_claims env options resources ids all finalization w))"
| close: "registry_step env w (snd (close_session_launch_admission env i epoch w))"
| fence: "registry_step env w (snd (registry_fence env i p w))"
| park: "registry_step env w (snd (registry_atomic_park env c w))"
| resume: "registry_step env w (snd (registry_atomic_resume env u w))"
| handoff: "registry_step env w (snd (commit_resource_handoff env h w))"

abbreviation registry_run :: "registry_env \<Rightarrow> registry_world \<Rightarrow> registry_world \<Rightarrow> bool" where
  "registry_run env \<equiv> (registry_step env)\<^sup>*\<^sup>*"

section \<open>One step\<close>

text \<open>What a step does to the document: nothing, or it replaces a readable one by one that follows it.\<close>

definition readable :: "registry_env \<Rightarrow> registry_doc \<Rightarrow> bool" where
  "readable env d \<longleftrightarrow> (\<exists>t. validate_registry env t d = Inr ())"

definition stale_intents :: "registry_doc \<Rightarrow> park_intent set" where
  "stale_intents d = {i \<in> set (rd_park_intents d). pk_expected_generation i < rd_generation d}"

definition follows :: "registry_env \<Rightarrow> registry_doc \<Rightarrow> registry_doc \<Rightarrow> bool" where
  "follows env d n \<longleftrightarrow>
     readable env d \<and> readable env n \<and> rd_generation d \<le> rd_generation n \<and> rd_revision d \<le> rd_revision n \<and>
     rd_epoch d \<le> rd_epoch n \<and>
     (rd_generation n = rd_generation d \<longrightarrow> sort_resource_claims (rd_claims n) = sort_resource_claims (rd_claims d)) \<and>
     stale_intents d \<subseteq> stale_intents n \<and> set (handoff_receipts (rd_events d)) \<subseteq> set (handoff_receipts (rd_events n))"

definition advances :: "registry_env \<Rightarrow> registry_doc \<Rightarrow> registry_doc \<Rightarrow> bool" where
  "advances env d n \<longleftrightarrow> n = d \<or> follows env d n"

lemma advances_refl [simp]: "advances env d d"
  by (simp add: advances_def)

abbreviation steps_to :: "registry_env \<Rightarrow> registry_doc \<Rightarrow> 'a registry_call \<Rightarrow> bool" where
  "steps_to env d m \<equiv> holds d m (\<lambda>_ n. advances env d n) (\<lambda>_ n. advances env d n)"

lemma steps_lock: "steps_to env d m \<Longrightarrow> steps_to env d (with_lock env m)"
  by (rule holds_any_lock) auto

lemma follows_written:
  assumes "validate_registry env t d = Inr ()" "validate_registry env t' (written_doc n events) = Inr ()"
    and "next_claim_set_generation (sorted_doc d) claims = Inr (rd_generation n)"
    and "sort_resource_claims (rd_claims n) = sort_resource_claims claims"
    and "rd_revision d \<le> rd_revision n" "rd_epoch d \<le> rd_epoch n"
    and "\<And>i. i \<in> set (rd_park_intents d) \<Longrightarrow> pk_expected_generation i < rd_generation d \<Longrightarrow> i \<in> set (rd_park_intents n)"
    and "set (filter is_handoff (rd_events d)) \<subseteq> set (filter is_handoff events)"
  shows "advances env d (written_doc n events)"
proof -
  have "rd_generation d \<le> rd_generation n" "rd_generation n = rd_generation d \<Longrightarrow> sort_resource_claims claims = sort_resource_claims (rd_claims d)"
    using assms(3) by (auto simp: next_claim_set_generation_def sorted_doc_def split: if_splits)
  moreover have "set (handoff_receipts (rd_events d)) \<subseteq> set (handoff_receipts events)"
    using assms(8) receipts_of_events [of "rd_events d"] receipts_of_events [of events]
    by (auto simp: handoff_receipts_def is_handoff_def)
  ultimately show ?thesis
    using assms by (auto simp: advances_def follows_def readable_def stale_intents_def written_doc_def)
qed

lemma next_revision_le: "next_registry_revision d = Inr r \<Longrightarrow> rd_revision d \<le> r"
  and next_epoch_le: "next_runtime_epoch d = Inr e \<Longrightarrow> rd_epoch d \<le> e"
  by (auto simp: next_registry_revision_def next_runtime_epoch_def split: if_splits)

lemma same_generation: "next_claim_set_generation d (rd_claims d) = Inr (rd_generation d)"
  by (simp add: next_claim_set_generation_def)

text \<open>A write that keeps the claims and the park intents\<close>

lemma follows_same_claims:
  assumes "validate_registry env t d = Inr ()" "validate_registry env t' (written_doc n events) = Inr ()"
    and "rd_claims n = rd_claims (sorted_doc d)" "rd_generation n = rd_generation d"
    and "rd_revision d \<le> rd_revision n" "rd_epoch d \<le> rd_epoch n" "set (rd_park_intents d) \<subseteq> set (rd_park_intents n)"
    and "set (filter is_handoff (rd_events d)) \<subseteq> set (filter is_handoff events)"
  shows "advances env d (written_doc n events)"
  using assms same_generation [of "sorted_doc d"] by (intro follows_written [where claims = "rd_claims (sorted_doc d)"]) auto

lemma close_steps: "steps_to env d (close_session_launch_admission env i epoch)"
  unfolding close_session_launch_admission_def
  by (intro steps_lock holds_check holds_read holds_pure holds_write holds_return)
   (auto intro!: follows_same_claims dest!: next_revision_le next_epoch_le)

lemma fence_steps: "steps_to env d (registry_fence env i p)"
proof -
  have body: "steps_to env d (fence_section env i p prior)" for prior
    unfolding fence_section_def Let_def
    by (intro holds_read holds_steps holds_write)
     (auto intro!: follows_same_claims dest!: next_revision_le next_epoch_le)
  have lease: "steps_to env d (fence_under env i p prior)" for prior
    unfolding fence_under_def Let_def
    by (intro holds_if holds_return holds_bind [OF steps_lock [OF body]] holds_observing holds_set_fence) auto
  have "steps_to env d (\<lambda>w. fence_under env i p (map_of (rw_fences w) i) w)"
    by (rule holds_state [where f = "\<lambda>w. fence_under env i p (map_of (rw_fences w) i)"]) (rule lease)
  then show ?thesis
    unfolding registry_fence_def
    by (intro holds_catch [where F = "\<lambda>_ n. advances env d n"] holds_check holds_pure) (auto intro: holds_return)
qed

lemma current_intent_not_stale:
  assumes "validate_registry env t d = Inr ()" "assert_retention_fence (sorted_doc d) session_id lease = Inr u"
    and "fl_expected_generation lease = rd_generation d"
    and "i \<in> set (rd_park_intents d)" "pk_expected_generation i < rd_generation d"
  shows "pk_session_id i \<noteq> session_id"
proof
  assume i: "pk_session_id i = session_id"
  obtain j where "find_park_intent session_id (rd_park_intents d) = Some j"
    and expected: "pk_expected_generation j = rd_generation d"
    using assms(2,3) by (auto simp: assert_retention_fence_def park_intent_unsafe_def sum_simps Let_def split: option.splits)
  then have "pk_session_id j = session_id" "j \<in> set (rd_park_intents d)"
    by (auto simp: find_park_intent_def find_Some_iff)
  moreover have "distinct (map pk_session_id (rd_park_intents d))"
    using validate_registry_Inr(7) [OF assms(1)] by (simp add: validate_runtime_records_def)
  ultimately have "i = j" using i assms(4) by (metis distinct_map inj_onD)
  with expected assms(5) show False by simp
qed

lemma park_steps: "steps_to env d (registry_atomic_park env c)"
proof -
  let ?own = "pc_session_id c"
  have written: "advances env d (written_doc (sorted_doc d
      \<lparr>rd_sessions := ss, rd_claims := sort_resource_claims (other_claims ?own (rd_claims (sorted_doc d))), rd_generation := generation,
       rd_revision := revision, rd_retentions := rs,
       rd_park_intents := filter (\<lambda>i. pk_session_id i \<noteq> ?own) (rd_park_intents (sorted_doc d))\<rparr>) events)"
    if "validate_registry env t d = Inr ()" "assert_retention_fence (sorted_doc d) ?own lease = Inr u"
      "\<not> (pc_expected_generation c \<noteq> fl_expected_generation lease \<or> pc_expected_generation c \<noteq> rd_generation (sorted_doc d))"
      "next_claim_set_generation (sorted_doc d) (sort_resource_claims (other_claims ?own (rd_claims (sorted_doc d)))) = Inr generation"
      "next_registry_revision (sorted_doc d) = Inr revision"
      "validate_registry env t' (written_doc (sorted_doc d
      \<lparr>rd_sessions := ss, rd_claims := sort_resource_claims (other_claims ?own (rd_claims (sorted_doc d))), rd_generation := generation,
       rd_revision := revision, rd_retentions := rs,
       rd_park_intents := filter (\<lambda>i. pk_session_id i \<noteq> ?own) (rd_park_intents (sorted_doc d))\<rparr>) events) = Inr ()"
      "filter is_handoff events = filter is_handoff (rd_events (sorted_doc d
      \<lparr>rd_sessions := ss, rd_claims := sort_resource_claims (other_claims ?own (rd_claims (sorted_doc d))), rd_generation := generation,
       rd_revision := revision, rd_retentions := rs,
       rd_park_intents := filter (\<lambda>i. pk_session_id i \<noteq> ?own) (rd_park_intents (sorted_doc d))\<rparr>))"
    for t t' lease generation revision ss rs events u
    using that current_intent_not_stale [OF that(1,2)] next_revision_le [OF that(5)]
    by (intro follows_written [OF that(1,6),
          where claims = "sort_resource_claims (other_claims ?own (rd_claims (sorted_doc d)))"]) auto
  have body: "steps_to env d (park_section env c)"
    unfolding park_section_def Let_def
    by (intro holds_read holds_steps holds_token holds_identity holds_canonical_inputs holds_write holds_set_fence
        holds_set_validation advances_refl written) assumption+
  show ?thesis
    unfolding registry_atomic_park_def
    by (intro holds_catch [where F = "\<lambda>_ n. advances env d n"] holds_bind [OF steps_lock [OF body]])
     (auto simp: holds_def bind_call_def pure_call_def set_fence_def split: commit_result.splits)
qed

lemma resume_steps: "steps_to env d (registry_atomic_resume env u)"
proof -
  have lease: "observes (\<lambda>w. (Inr (map_of (rw_validations w) (ru_session_id u)), w)) (\<lambda>_. True)" by (simp add: observes_def)
  have written: "advances env d (written_doc (sorted_doc d
      \<lparr>rd_sessions := ss, rd_claims := claims, rd_generation := generation, rd_revision := revision, rd_epoch := epoch,
       rd_admissions := ads, rd_retentions := rs\<rparr>) events)"
    if "validate_registry env t d = Inr ()" "next_claim_set_generation (sorted_doc d) claims = Inr generation"
      "next_registry_revision (sorted_doc d) = Inr revision" "next_runtime_epoch (sorted_doc d) = Inr epoch"
      "validate_registry env t' (written_doc (sorted_doc d
      \<lparr>rd_sessions := ss, rd_claims := claims, rd_generation := generation, rd_revision := revision, rd_epoch := epoch,
       rd_admissions := ads, rd_retentions := rs\<rparr>) events) = Inr ()"
      "filter is_handoff events = filter is_handoff (rd_events (sorted_doc d
      \<lparr>rd_sessions := ss, rd_claims := claims, rd_generation := generation, rd_revision := revision, rd_epoch := epoch,
       rd_admissions := ads, rd_retentions := rs\<rparr>))"
    for t t' claims generation revision epoch ss ads rs events
    using that next_revision_le [OF that(3)] next_epoch_le [OF that(4)]
    by (intro follows_written [OF that(1,5), where claims = claims]) auto
  have body: "steps_to env d (resume_section env u)"
    unfolding resume_section_def Let_def
    by (intro holds_read holds_bind_observes [OF lease] holds_steps holds_facts holds_identity holds_retained_claims holds_write
        holds_set_fence holds_set_validation advances_refl written) assumption+
  show ?thesis
    unfolding registry_atomic_resume_def
    by (intro holds_catch [where F = "\<lambda>_ n. advances env d n"] holds_bind [OF steps_lock [OF body]])
     (auto simp: holds_def bind_call_def pure_call_def set_validation_def)
qed

lemma observes_finalization: "observes (assert_drain_finalization env doc f i operation) (\<lambda>_. True)"
  unfolding assert_drain_finalization_def Let_def
  by (intro observes_steps observes_split observes_pure TrueI)

lemmas holds_finalization = holds_bind_observes [OF observes_finalization]

lemma commit_claims_steps:
  assumes "validate_registry env t d = Inr ()" "next_claim_set_generation (sorted_doc d) claims = Inr generation"
  shows "holds d (commit_claims env (sorted_doc d) claims generation advance finalization admission)
    (\<lambda>_ n. advances env d n) (\<lambda>_ n. advances env d n)"
proof -
  have "advances env d (written_doc (sorted_doc d
      \<lparr>rd_claims := claims, rd_generation := generation, rd_revision := revision, rd_epoch := epoch,
       rd_admissions := ads\<rparr>) events)"
    if "rd_revision d \<le> revision" "rd_epoch d \<le> epoch"
      "validate_registry env t' (written_doc (sorted_doc d
      \<lparr>rd_claims := claims, rd_generation := generation, rd_revision := revision, rd_epoch := epoch,
       rd_admissions := ads\<rparr>) events) = Inr ()"
      "filter is_handoff events = filter is_handoff (rd_events d)"
    for t' revision epoch ads events
    using that assms by (intro follows_written [OF assms(1) that(3), where claims = claims]) auto
  note written = this
  show ?thesis
    unfolding commit_claims_def
    by (intro holds_pure holds_last_write) (auto intro!: written dest!: next_revision_le next_epoch_le split: if_splits)
qed

lemma claim_steps: "steps_to env d (claim_resources env options inputs finalization)"
  unfolding claim_resources_def Let_def
  by (intro steps_lock holds_read holds_finalization holds_canonical_inputs holds_facts holds_steps
      holds_bind [OF commit_claims_steps] advances_refl) assumption+

lemma update_steps: "steps_to env d (update_claims env options inputs finalization)"
  unfolding update_claims_def Let_def
  by (intro steps_lock holds_read holds_finalization holds_canonical_inputs holds_facts holds_steps
      holds_bind [OF commit_claims_steps] advances_refl) assumption+

lemma delta_steps: "steps_to env d (apply_claim_deltas env options raw finalization)"
  unfolding apply_claim_deltas_def Let_def
  by (intro steps_lock holds_read holds_finalization holds_facts holds_pure holds_observing holds_return
      holds_bind [where R = "\<lambda>_ n. advances env d n"] holds_if commit_claims_steps advances_refl) assumption+

lemma release_steps: "steps_to env d (release_claims env options resources ids all finalization)"
proof -
  have "steps_to env d (release_claims_by_id env options ids all finalization)"
    unfolding release_claims_by_id_def Let_def
    by (intro steps_lock holds_read holds_finalization holds_check holds_pure holds_return
      holds_bind [where R = "\<lambda>_ n. advances env d n"] holds_if commit_claims_steps advances_refl) assumption+
  then show ?thesis
    unfolding release_claims_def
    by (auto split: option.split intro!: holds_check delta_steps)
qed

lemma handoff_steps: "steps_to env d (commit_resource_handoff env h)"
proof -
  have written: "advances env d (written_doc (sorted_doc d
      \<lparr>rd_claims := claims, rd_generation := generation, rd_revision := revision,
       rd_events := make_room (rd_events (sorted_doc d)) @ [e]\<rparr>) events)"
    if "validate_registry env t d = Inr ()" "next_claim_set_generation (sorted_doc d) claims = Inr generation"
      "next_registry_revision (sorted_doc d) = Inr revision"
      "validate_registry env t' (written_doc (sorted_doc d
      \<lparr>rd_claims := claims, rd_generation := generation, rd_revision := revision,
       rd_events := make_room (rd_events (sorted_doc d)) @ [e]\<rparr>) events) = Inr ()"
      "filter is_handoff events = filter is_handoff (rd_events (sorted_doc d
      \<lparr>rd_claims := claims, rd_generation := generation, rd_revision := revision,
       rd_events := make_room (rd_events (sorted_doc d)) @ [e]\<rparr>))"
    for t t' claims generation revision e events
    using that next_revision_le [OF that(3)]
    by (intro follows_written [OF that(1,4), where claims = claims]) auto
  show ?thesis
    unfolding commit_resource_handoff_def handoff_section_def Let_def
    by (intro steps_lock holds_read holds_steps holds_facts holds_write advances_refl written) assumption+
qed

lemma steps_to_run: "steps_to env (rw_doc w) m \<Longrightarrow> advances env (rw_doc w) (rw_doc (snd (m w)))"
  by (cases "m w"; cases "fst (m w)") (auto simp: holds_def dest: spec [where x = w])

lemma step_advances: "registry_step env w w' \<Longrightarrow> advances env (rw_doc w) (rw_doc w')"
  by (induction rule: registry_step.induct)
    (simp_all add: steps_to_run claim_steps update_steps delta_steps release_steps close_steps fence_steps park_steps resume_steps
      handoff_steps)

lemma follows_trans: "follows env a b \<Longrightarrow> follows env b c \<Longrightarrow> follows env a c"
  by (fastforce simp: follows_def)

lemma run_advances: "registry_run env w w' \<Longrightarrow> advances env (rw_doc w) (rw_doc w')"
proof (induction rule: rtranclp_induct)
  case (step v w')
  then show ?case using step_advances follows_trans by (metis advances_def)
qed simp

section \<open>Claims that a reader accepts\<close>

lemma registry_facts_about: "facts_about (registry_facts env t sessions generation)"
  by (simp add: facts_about_def registry_facts_def)

lemma validated_pairs:
  assumes "validate_claim_pairs fs facts priors cs = Inr u" "a < length cs" "b < a"
  shows "validate_claim_pair fs facts (cs ! a) (cs ! b) = Inr ()"
  using assms
proof (induction cs arbitrary: priors a b)
  case (Cons c cs)
  have rest: "validate_claim_pairs fs facts (priors @ [c]) cs = Inr u"
    using Cons.prems(1) by (auto simp: sum_simps)
  have earlier: "validate_claim_pair fs facts x p = Inr ()"
    if "validate_claim_pairs fs facts qs xs = Inr v" "x \<in> set xs" "p \<in> set qs" for x p qs xs v
    using that by (induction xs arbitrary: qs) (auto simp: sum_simps)
  show ?case
  proof (cases b)
    case 0
    then show ?thesis using Cons.prems(2,3) earlier [OF rest, of "cs ! (a - 1)" c] by (cases a) auto
  next
    case (Suc b')
    then show ?thesis using Cons.IH [OF rest, of "a - 1" b'] Cons.prems(2,3) by (cases a) auto
  qed
qed simp

text \<open>What two accepted claims are to each other\<close>

definition accepted_pair :: "facts_source \<Rightarrow> resource_claim \<Rightarrow> resource_claim \<Rightarrow> bool" where
  "accepted_pair facts c d \<longleftrightarrow>
     (selects_common (rc_resource c) (rc_resource d) \<longrightarrow>
        rc_session_id c \<noteq> rc_session_id d \<and>
        (RESOURCE_CLAIM_COMPATIBILITY_MATRIX (rc_mode c) (rc_mode d) = Conflict \<longrightarrow>
           (\<exists>f. facts c d = Some f \<and> permits_coordinated_write f = Allowed)))"

lemma validated_pair_accepted:
  assumes "fs_lawful fs" "fs_exact fs" "canonical_resource (rc_resource c)" "canonical_resource (rc_resource d)"
    and "validate_claim_pair fs facts c d = Inr u"
  shows "accepted_pair facts c d"
proof -
  obtain b where b: "claims_overlap fs c d = Inr b"
    using assms(5) by (auto simp: validate_claim_pair_def sum_simps)
  with overlap_common [OF assms(1-4) b] assms(5) show ?thesis
    by (auto simp: accepted_pair_def validate_claim_pair_def claims_conflict_def sum_simps split: if_splits option.splits)
qed

lemma accepted_pair_sym:
  assumes "accepted_pair (registry_facts env t ss g) c d"
  shows "accepted_pair (registry_facts env t ss g) d c"
proof -
  have "permits_coordinated_write (swap_facts f) = permits_coordinated_write f" for f
    by (rule permits_coordinated_write_swap)
  moreover have "the (registry_facts env t ss g d c) = swap_facts (the (registry_facts env t ss g c d))"
    by (simp add: registry_facts_def swap_facts_def)
  ultimately show ?thesis
    using assms by (auto simp: accepted_pair_def selects_common_sym [of "rc_resource d"] compatibility_sym [of "rc_mode d"] registry_facts_def)
qed

lemma owners_distinct:
  "validate_claim_owners sessions seen cs = Inr u \<Longrightarrow> distinct (map rc_claim_id cs) \<and> set seen \<inter> set (map rc_claim_id cs) = {}"
  by (induction cs arbitrary: seen) (fastforce simp: sum_simps Let_def split: option.splits)+

lemma read_claims_accepted:
  assumes "fs_lawful (re_fs env)" "fs_exact (re_fs env)" "validate_registry env t d = Inr ()"
    and "c \<in> set (rd_claims d)" "e \<in> set (rd_claims d)" "c \<noteq> e"
  shows "accepted_pair (registry_facts env t (rd_sessions d) (rd_generation d)) c e"
proof -
  let ?facts = "registry_facts env t (rd_sessions d) (rd_generation d)" and ?cs = "sort_resource_claims (rd_claims d)"
  have pairs: "validate_claim_pairs (re_fs env) ?facts [] ?cs = Inr ()"
    using validate_registry_Inr(3) [OF assms(3)] by (auto simp: validate_registry_claims_def sum_simps)
  have ordered: "accepted_pair ?facts (?cs ! a) (?cs ! b)" if "a < length ?cs" "b < a" for a b
  proof -
    have mem: "?cs ! a \<in> set (rd_claims d)" "?cs ! b \<in> set (rd_claims d)"
      using that nth_mem [of a ?cs] nth_mem [of b ?cs] by simp_all
    from validated_pair_accepted [OF assms(1,2) read_claim_canonical [OF assms(3) mem(1)] read_claim_canonical [OF assms(3) mem(2)]
        validated_pairs [OF pairs that]] show ?thesis .
  qed
  obtain a b where at: "a < length ?cs" "?cs ! a = c" "b < length ?cs" "?cs ! b = e"
    using assms(4,5) sort_resource_claims_set [of "rd_claims d"] by (metis in_set_conv_nth)
  then consider "a < b" | "b < a" using assms(6) by (metis linorder_neqE_nat)
  then show ?thesis
  proof cases
    case 1
    then show ?thesis using ordered [OF at(3) 1] at accepted_pair_sym by metis
  next
    case 2
    then show ?thesis using ordered [OF at(1) 2] at by simp
  qed
qed

lemma coordinated_of_facts:
  assumes "registry_facts env t ss g c e = Some f" "permits_coordinated_write f = Allowed"
  shows "coordinated_pair c e \<and> wi_status (claim_identity env t ss c) = Verified"
proof -
  have f: "cf_left f = c" "cf_right f = e" "cf_left_identity f = claim_identity env t ss c"
    using assms(1) by (auto simp: registry_facts_def)
  then have "coordinated_pair c e"
    using assms(2) unfolding permits_coordinated_write_iff coordinated_pair_def sharing_group_def falsy_def
    by (metis option.map_disc_iff option.distinct(1))
  moreover have "wi_status (cf_left_identity f) = Verified" using assms(2) by (simp add: permits_coordinated_write_iff)
  ultimately show ?thesis using f by simp
qed

lemma readable_consistent:
  assumes "fs_lawful (re_fs env)" "fs_exact (re_fs env)" "validate_registry env t d = Inr ()"
  shows "consistent_claims (rd_claims d)"
proof -
  have owners: "validate_claim_owners (rd_sessions d) [] (rd_claims d) = Inr ()"
    using validate_registry_Inr(3) [OF assms(3)] by (auto simp: validate_registry_claims_def sum_simps)
  have "distinct (rd_claims d)" using owners_distinct [OF owners] distinct_map by blast
  moreover have "\<not> selects_common (rc_resource c) (rc_resource e)"
    if "c \<in> set (rd_claims d)" "e \<in> set (rd_claims d)" "c \<noteq> e" "rc_session_id c = rc_session_id e" for c e
    using read_claims_accepted [OF assms that(1-3)] that(4) by (auto simp: accepted_pair_def)
  moreover have "compatible_claims c e"
    if "c \<in> set (rd_claims d)" "e \<in> set (rd_claims d)" "rc_session_id c \<noteq> rc_session_id e" for c e
    using read_claims_accepted [OF assms that(1,2)] that(3) coordinated_of_facts
    unfolding accepted_pair_def compatible_claims_def by (metis compatibility.exhaust)
  ultimately show ?thesis
    using read_claim_canonical [OF assms(3)] by (auto simp: consistent_claims_def)
qed

section \<open>Commands that cannot succeed\<close>

lemma holds_lock_returns:
  assumes "holds d m Q (\<lambda>_ _. True)"
  shows "holds d (with_lock env m) Q (\<lambda>_ _. True)"
  unfolding holds_def
proof (intro allI impI)
  fix w :: registry_world assume "rw_doc w = d"
  then have "case m (w\<lparr>rw_tick := Suc (rw_tick w)\<rparr>) of (Inl e, w') \<Rightarrow> True | (Inr a, w') \<Rightarrow> Q a (rw_doc w')"
    using assms by (simp add: holds_def)
  then show "case with_lock env m w of (Inl e, w') \<Rightarrow> True | (Inr a, w') \<Rightarrow> Q a (rw_doc w')"
    by (auto simp: with_lock_def bind_call_def observing_def pure_call_def release_lock_def split: option.splits sum.splits prod.splits)
qed

abbreviation refuses :: "registry_doc \<Rightarrow> 'a registry_call \<Rightarrow> bool" where
  "refuses d m \<equiv> holds d m (\<lambda>_ _. False) (\<lambda>_ _. True)"

lemma refuses_run: "refuses (rw_doc w) m \<Longrightarrow> \<exists>e. fst (m w) = Inl e"
  by (cases "m w"; cases "fst (m w)") (auto simp: holds_def dest: spec [where x = w])

lemma refuses_bind: "refuses d m \<Longrightarrow> holds d (bind_call m f) Q (\<lambda>_ _. True)"
  by (rule holds_bind [where R = "\<lambda>_ _. False"]) auto

lemma refuses_read: "(\<And>t. validate_registry env t d \<noteq> Inr ()) \<Longrightarrow> refuses d (bind_call (read_state env) f)"
  by (rule holds_read) auto

lemma unreadable_refuses:
  assumes "\<And>t. validate_registry env t d \<noteq> Inr ()"
  shows "refuses d (claim_resources env options inputs finalization)" "refuses d (update_claims env options inputs finalization)"
    "refuses d (apply_claim_deltas env options raw finalization)" "refuses d (release_claims env options resources ids all finalization)"
    "refuses d (registry_observe env i)" "refuses d (close_session_launch_admission env i epoch)"
proof -
  note read = refuses_read [where env = env and d = d, OF assms]
  show deltas: "refuses d (apply_claim_deltas env options raw finalization)" for options raw finalization
    unfolding apply_claim_deltas_def by (rule holds_lock_returns [OF read])
  show "refuses d (claim_resources env options inputs finalization)" "refuses d (update_claims env options inputs finalization)"
    unfolding claim_resources_def update_claims_def by (rule holds_lock_returns [OF read])+
  show "refuses d (release_claims env options resources ids all finalization)"
    unfolding release_claims_def release_claims_by_id_def
    by (auto split: option.split intro!: holds_check deltas holds_lock_returns read)
  show "refuses d (registry_observe env i)" "refuses d (close_session_launch_admission env i epoch)"
    unfolding registry_observe_def close_session_launch_admission_def
    by (intro holds_check holds_lock_returns read TrueI)+
qed

lemma unverified_unreadable:
  assumes "fs_lawful (re_fs env)" "fs_exact (re_fs env)"
    and "c \<in> set (rd_claims d)" "e \<in> set (rd_claims d)" "c \<noteq> e" "selects_common (rc_resource c) (rc_resource e)"
    and "RESOURCE_CLAIM_COMPATIBILITY_MATRIX (rc_mode c) (rc_mode e) = Conflict"
    and "wi_status (claim_identity env t (rd_sessions d) c) \<noteq> Verified"
  shows "validate_registry env t d \<noteq> Inr ()"
  using read_claims_accepted [OF assms(1,2) _ assms(3,4,5), of t] assms(6-8)
    coordinated_of_facts [of env t "rd_sessions d" "rd_generation d" c e]
  by (auto simp: accepted_pair_def)

lemma stale_intent_refuses:
  assumes "i \<in> stale_intents d"
  shows "pc_session_id c = pk_session_id i \<Longrightarrow>
      holds d (registry_atomic_park env c) (\<lambda>r _. case r of CommitAccepted _ _ _ \<Rightarrow> False | _ \<Rightarrow> True) (\<lambda>_ _. True)"
    and "refuses d (close_session_launch_admission env (pk_session_id i) epoch)"
    and "p \<noteq> pk_operation_id i \<Longrightarrow> holds d (registry_fence env (pk_session_id i) p) (\<lambda>r _. r = FenceRejected) (\<lambda>_ _. False)"
proof -
  have i: "i \<in> set (rd_park_intents d)" "pk_expected_generation i < rd_generation d"
    using assms by (auto simp: stale_intents_def)
  then have some: "find_park_intent (pk_session_id i) (rd_park_intents d) \<noteq> None"
    by (auto simp: find_park_intent_def find_None_iff)
  have found: "find_park_intent (pk_session_id i) (rd_park_intents d) = Some i" if "validate_registry env t d = Inr ()" for t
  proof -
    obtain j where j: "find_park_intent (pk_session_id i) (rd_park_intents d) = Some j" using some by blast
    then have "j \<in> set (rd_park_intents d)" "pk_session_id j = pk_session_id i"
      by (auto simp: find_park_intent_def find_Some_iff)
    moreover have "distinct (map pk_session_id (rd_park_intents d))"
      using validate_registry_Inr(7) [OF that] by (simp add: validate_runtime_records_def)
    ultimately show ?thesis using j i(1) by (metis distinct_map inj_onD)
  qed
  let ?left = "\<lambda>r (_ :: registry_doc). case r of CommitAccepted _ _ _ \<Rightarrow> False | _ \<Rightarrow> True"
  show "holds d (registry_atomic_park env c) ?left (\<lambda>_ _. True)" if c: "pc_session_id c = pk_session_id i"
  proof -
    have stale: False if "validate_registry env t d = Inr ()" "assert_retention_fence (sorted_doc d) (pc_session_id c) lease = Inr u"
      "\<not> (pc_expected_generation c \<noteq> fl_expected_generation lease \<or> pc_expected_generation c \<noteq> rd_generation (sorted_doc d))" for t lease u
      using current_intent_not_stale [OF that(1,2) _ i] that(3) c by simp
    have "holds d (park_section env c) ?left (\<lambda>_ _. True)"
      unfolding park_section_def Let_def
      by (intro holds_read holds_token holds_pure holds_option holds_check holds_if holds_return holds_throw TrueI)
       (auto dest: stale)
    then have "holds d (with_lock env (park_section env c)) ?left (\<lambda>_ _. True)" by (rule holds_lock_returns)
    then show ?thesis
      unfolding registry_atomic_park_def
    proof (rule holds_catch [where F = "\<lambda>_ _. True", OF holds_bind], goal_cases)
      case (1 a d')
      then show ?case by (auto simp: holds_def bind_call_def pure_call_def set_fence_def split: commit_result.splits)
    next
      case (2 e d')
      show ?case by (intro holds_set_fence) (simp add: holds_def pure_call_def)
    qed
  qed
  show "refuses d (close_session_launch_admission env (pk_session_id i) epoch)"
    unfolding close_session_launch_admission_def
    by (intro holds_lock_returns holds_check holds_read holds_pure)
     (use some in \<open>auto simp: assert_no_park_intent_def park_intent_unsafe_def\<close>)
  show "holds d (registry_fence env (pk_session_id i) p) (\<lambda>r _. r = FenceRejected) (\<lambda>_ _. False)" if p: "p \<noteq> pk_operation_id i"
  proof -
    have body: "refuses d (fence_section env (pk_session_id i) p prior)" for prior
      unfolding fence_section_def
      by (intro holds_read holds_option holds_check holds_throw TrueI)
       (use found p in \<open>auto simp: park_intent_unsafe_def intro!: holds_throw\<close>)
    have lease: "holds d (fence_under env (pk_session_id i) p prior) (\<lambda>r _. r = FenceRejected) (\<lambda>_ _. True)" for prior
      unfolding fence_under_def
      by (intro holds_if holds_return refuses_bind [OF holds_lock_returns [OF body]]) auto
    have "holds d (\<lambda>w. fence_under env (pk_session_id i) p (map_of (rw_fences w) (pk_session_id i)) w) (\<lambda>r _. r = FenceRejected) (\<lambda>_ _. True)"
      by (rule holds_state [where f = "\<lambda>w. fence_under env (pk_session_id i) p (map_of (rw_fences w) (pk_session_id i))"]) (rule lease)
    then show ?thesis
      unfolding registry_fence_def
      by (intro holds_catch [where F = "\<lambda>_ _. True"] holds_check holds_pure) (auto intro: holds_return)
  qed
qed

section \<open>What a conditional update leaves\<close>

definition claim_input_of :: "resource_claim \<Rightarrow> canonical_claim_input" where
  "claim_input_of c = \<lparr>cc_resource = rc_resource c, cc_mode = rc_mode c, cc_sharing = rc_sharing c\<rparr>"

definition claims_of :: "string \<Rightarrow> registry_doc \<Rightarrow> resource_claim set" where
  "claims_of i d = {c \<in> set (rd_claims d). rc_session_id c = i}"

definition claims_besides :: "string \<Rightarrow> registry_doc \<Rightarrow> resource_claim set" where
  "claims_besides i d = {c \<in> set (rd_claims d). rc_session_id c \<noteq> i}"

text \<open>The requested set replaces the set of the session that is named, or that owns the worktree.\<close>

definition replaced_claims ::
  "registry_env \<Rightarrow> claim_options \<Rightarrow> raw_claim_input list \<Rightarrow> registry_doc \<Rightarrow> registry_doc \<Rightarrow> bool" where
  "replaced_claims env options inputs d n \<longleftrightarrow>
     (\<exists>i owner requested. select_session_id env (op_session_id options) (rd_sessions d) = Inr i \<and> co_session_id owner = i \<and>
        list_all2 (\<lambda>x c. canonicalize_claim_input (re_fs env) x owner = Inr c) inputs requested \<and>
        claims_besides i n = claims_besides i d \<and> claim_input_of ` claims_of i n = set requested)"

lemma commit_claims_leaves:
  "holds d (commit_claims env doc claims generation advance finalization admission)
     (\<lambda>_ n. rd_claims n = sort_resource_claims claims) (\<lambda>_ _. True)"
  unfolding commit_claims_def
  by (intro holds_pure holds_last_write TrueI) (simp add: written_doc_def)

lemma create_claims_inputs:
  assumes "create_claims env owner timestamp inputs = Inr claims"
  shows "map claim_input_of claims = inputs \<and> (\<forall>c\<in>set claims. rc_session_id c = co_session_id owner)"
proof -
  have "list_all2 (\<lambda>i c. create_resource_claim (re_sha env) i owner timestamp = Inr c) inputs claims"
    using assms by (simp add: create_claims_def map_sum_list_Inr)
  then show ?thesis
    by (induction rule: list_all2_induct) (auto simp: create_resource_claim_Inr claim_input_of_def)
qed

lemma claim_owner_id: "claim_owner env sessions i repository = Inr owner \<Longrightarrow> co_session_id owner = i"
  by (auto simp: claim_owner_def owner_of_session_def sum_simps Let_def split: option.splits dest: find_session_id)

lemma update_replaces:
  assumes "select_session_id env (op_session_id options) (rd_sessions (sorted_doc d)) = Inr i"
    and "claim_owner env (rd_sessions (sorted_doc d)) i repository = Inr owner"
    and "\<exists>unsorted. map_sum_list (\<lambda>x. of_registry (canonicalize_claim_input (re_fs env) x owner)) inputs = Inr unsorted \<and>
      requested = sort_key canonical_input_key unsorted"
    and "create_claims env owner timestamp requested = Inr candidates"
    and "validate_requested_claims fs candidates owner existing facts = Inr accepted"
    and "rd_claims n = sort_resource_claims (sort_resource_claims (other_claims i (rd_claims (sorted_doc d)) @
      map (\<lambda>c. case find (\<lambda>p. rc_claim_id p = rc_claim_id c) (rev current) of None \<Rightarrow> c
        | Some p \<Rightarrow> c\<lparr>rc_created_at := rc_created_at p, rc_updated_at := rc_updated_at p\<rparr>) accepted))"
  shows "replaced_claims env options inputs d n"
proof -
  let ?made = "map (\<lambda>c. case find (\<lambda>p. rc_claim_id p = rc_claim_id c) (rev current) of None \<Rightarrow> c
        | Some p \<Rightarrow> c\<lparr>rc_created_at := rc_created_at p, rc_updated_at := rc_updated_at p\<rparr>) accepted"
  obtain unsorted where unsorted: "list_all2 (\<lambda>x c. canonicalize_claim_input (re_fs env) x owner = Inr c) inputs unsorted"
    and requested: "requested = sort_key canonical_input_key unsorted"
    using assms(3) by (auto simp: map_sum_list_Inr)
  have accepted: "accepted = candidates" using validate_requested_claims_Inr [OF assms(5)] .
  have candidates: "map claim_input_of candidates = requested" "\<forall>c\<in>set candidates. rc_session_id c = i"
    using create_claims_inputs [OF assms(4)] claim_owner_id [OF assms(2)] by auto
  have "map claim_input_of ?made = map claim_input_of candidates"
    by (simp add: accepted claim_input_of_def split: option.split)
  then have made: "claim_input_of ` set ?made = set unsorted"
    using candidates(1) requested by (metis list.set_map set_sort)
  have own: "\<forall>c\<in>set ?made. rc_session_id c = i"
    using candidates(2) by (auto simp: accepted split: option.split)
  have all: "set (rd_claims n) = {c \<in> set (rd_claims d). rc_session_id c \<noteq> i} \<union> set ?made"
    using assms(6) by (simp add: other_claims_def)
  have "claims_of i n = set ?made" "claims_besides i n = claims_besides i d"
    using own unfolding claims_of_def claims_besides_def all by blast+
  with made unsorted assms(1) claim_owner_id [OF assms(2)] show ?thesis
    unfolding replaced_claims_def
    by (intro exI [of _ i] exI [of _ owner] exI [of _ unsorted] conjI) simp_all
qed

lemma mutation_intent:
  "assert_claim_set_mutation_intent options (rd_generation (sorted_doc d)) = Inr u \<Longrightarrow>
   op_expected_generation options = None \<or> op_expected_generation options = Some (rd_generation d)"
  by (auto simp: assert_claim_set_mutation_intent_def sum_simps split: option.splits)

lemma update_returns:
  "holds d (update_claims env options inputs finalization)
     (\<lambda>r n. (op_expected_generation options = None \<or> op_expected_generation options = Some (rd_generation d)) \<and>
       replaced_claims env options inputs d n) (\<lambda>_ _. True)"
  unfolding update_claims_def Let_def
  by (intro holds_lock_returns holds_read holds_pure holds_finalization holds_canonical_inputs holds_observing holds_facts
      holds_bind [OF commit_claims_leaves] holds_return TrueI conjI mutation_intent update_replaces) assumption+

section \<open>Properties\<close>

text \<open>C4: The registry keeps its promise about claims: over any sequence of the modelled operations, started on a document a
  reader accepts, the document stays one a reader accepts, and its claims are consistent (canonical resources, no path
  selected twice by one session, and two sessions on one path only with compatible modes or as coordinated writers).\<close>

theorem registry_stays_consistent:
  assumes "fs_lawful (re_fs env)" "fs_exact (re_fs env)" "readable env (rw_doc w)" "registry_run env w w'"
  shows "readable env (rw_doc w') \<and> consistent_claims (rd_claims (rw_doc w'))"
proof -
  have "readable env (rw_doc w')"
    using run_advances [OF assms(4)] assms(3) by (auto simp: advances_def follows_def)
  then show ?thesis using readable_consistent [OF assms(1,2)] by (auto simp: readable_def)
qed

lemma sample_readable: "readable sample_env sample_doc"
proof -
  have "validate_registry sample_env 0 sample_doc = Inr ()" by code_simp
  then show ?thesis by (auto simp: readable_def)
qed

theorem registry_stays_consistent_witness:
  "\<forall>options inputs finalization.
     consistent_claims (rd_claims (rw_doc (snd (update_claims sample_env options inputs finalization (sample_world sample_doc 0)))))"
proof (intro allI)
  fix options inputs finalization
  show "consistent_claims (rd_claims (rw_doc (snd (update_claims sample_env options inputs finalization (sample_world sample_doc 0)))))"
    using registry_stays_consistent [OF sample_env_ok(1,2) _ r_into_rtranclp [of "registry_step sample_env", OF registry_step.update]]
      sample_readable
    by (simp add: sample_world_def)
qed

text \<open>C5: An update on an expected generation loses no change of anybody: if it is accepted at a later moment than the
  caller observed the generation at, the claims of all sessions are still those the caller saw, the requested set replaces
  the set of its session, and no claim of another session changes.\<close>

theorem conditional_update_loses_nothing:
  assumes "registry_run env seen w" "op_expected_generation options = Some (rd_generation (rw_doc seen))"
    and "update_claims env options inputs finalization w = (Inr result, w')"
  shows "set (rd_claims (rw_doc w)) = set (rd_claims (rw_doc seen)) \<and> replaced_claims env options inputs (rw_doc w) (rw_doc w')"
proof -
  have update: "op_expected_generation options = None \<or> op_expected_generation options = Some (rd_generation (rw_doc w))"
    "replaced_claims env options inputs (rw_doc w) (rw_doc w')"
    using holds_run [OF update_returns refl assms(3)] by auto
  then have "rd_generation (rw_doc w) = rd_generation (rw_doc seen)" using assms(2) by auto
  then have "sort_resource_claims (rd_claims (rw_doc w)) = sort_resource_claims (rd_claims (rw_doc seen))"
    using run_advances [OF assms(1)] by (auto simp: advances_def follows_def)
  then have "set (rd_claims (rw_doc w)) = set (rd_claims (rw_doc seen))" by (metis sort_resource_claims_set)
  with update(2) show ?thesis by blast
qed

definition free_doc :: registry_doc where
  "free_doc = sample_doc\<lparr>rd_admissions := []\<rparr>"

definition free_options :: claim_options where
  "free_options = \<lparr>op_session_id = None, op_repository_id = None, op_expected_generation = Some 3, op_force = False\<rparr>"

lemma free_calls:
  "read_state sample_env (sample_world free_doc 1) = (Inr free_doc, sample_world free_doc 2)"
  "canonical_claim_inputs sample_env [] (owner_of_session (sample_session SessActive)) True (sample_world free_doc 2) =
     (Inr [], sample_world free_doc 3)"
  "assert_drain_finalization sample_env free_doc None sample_id ''release-claims'' (sample_world free_doc 2) = (Inr None, sample_world free_doc 2)"
  by code_simp+

lemma free_commit: "is_ok (fst (commit_claims sample_env free_doc [] 4 True None None (sample_world free_doc 5)))"
  by code_simp

lemma free_checks:
  "assert_claim_set_mutation_intent free_options (rd_generation free_doc) = Inr ()"
  "select_session_id sample_env (op_session_id free_options) (rd_sessions free_doc) = Inr sample_id"
  "claim_owner sample_env (rd_sessions free_doc) sample_id (op_repository_id free_options) = Inr (owner_of_session (sample_session SessActive))"
  "create_claims sample_env (owner_of_session (sample_session SessActive)) sample_time [] = Inr []"
  "own_claims sample_id (rd_claims free_doc) = [sample_own_claim]" "other_claims sample_id (rd_claims free_doc) = []"
  "next_claim_set_generation free_doc [] = Inr 4" "sort_resource_claims [] = []"
  by code_simp+

lemma free_update: "\<exists>result w'. update_claims sample_env free_options [] None (sample_world free_doc 0) = (Inr result, w')"
proof -
  obtain w' where commit: "commit_claims sample_env free_doc [] 4 True None None (sample_world free_doc 5) = (Inr (), w')"
    using free_commit
    by (cases "commit_claims sample_env free_doc [] 4 True None None (sample_world free_doc 5)") (auto simp: is_ok_def split: sum.splits)
  have ticks: "rw_tick (sample_world d t) = t" "(sample_world d t)\<lparr>rw_tick := n\<rparr> = sample_world d n" for d t n
    by (simp_all add: sample_world_def)
  have env: "re_lock sample_env = (\<lambda>_. None)" "re_unlock sample_env = (\<lambda>_. None)" "re_clock sample_env = (\<lambda>_. sample_time)"
    by (simp_all add: sample_env_def)
  have generation: "rd_generation free_doc = 3" by (simp add: free_doc_def sample_doc_def)
  show ?thesis
    by (simp add: update_claims_def with_lock_def release_lock_def bind_call_def pure_call_def observing_def claim_facts_def Let_def
        validate_requested_claims_def ticks env free_calls [simplified] free_checks commit generation
        free_checks(1) [unfolded generation])
qed

theorem conditional_update_loses_nothing_witness:
  "\<exists>result w'. update_claims sample_env free_options [] None (sample_world free_doc 0) = (Inr result, w') \<and>
     replaced_claims sample_env free_options [] free_doc (rw_doc w')"
proof -
  obtain result w' where run: "update_claims sample_env free_options [] None (sample_world free_doc 0) = (Inr result, w')"
    using free_update by blast
  have "op_expected_generation free_options = Some (rd_generation (rw_doc (sample_world free_doc 0)))"
    by (simp add: free_options_def free_doc_def sample_world_def sample_doc_def)
  from conditional_update_loses_nothing [OF rtranclp.rtrancl_refl this run] run show ?thesis
    by (auto simp: sample_world_def)
qed

text \<open>C36: A park that was fenced before another session changed its claims can never be finished or given up: the intent
  stays in the document through every further operation, no commit for its session is accepted, no other park can take its
  place, and the launch admission cannot be closed for another command.\<close>

theorem stale_park_intent_is_permanent:
  assumes "i \<in> stale_intents (rw_doc w)" "registry_run env w w'"
    and "pc_session_id c = pk_session_id i" "p \<noteq> pk_operation_id i"
  shows "i \<in> set (rd_park_intents (rw_doc w')) \<and>
    (\<nexists>q snapshot released. fst (registry_atomic_park env c w') = Inr (CommitAccepted q snapshot released)) \<and>
    fst (registry_fence env (pk_session_id i) p w') = Inr FenceRejected \<and>
    (\<exists>e. fst (close_session_launch_admission env (pk_session_id i) epoch w') = Inl e)"
proof -
  have stale: "i \<in> stale_intents (rw_doc w')"
    using run_advances [OF assms(2)] assms(1) by (auto simp: advances_def follows_def)
  obtain r v where park: "registry_atomic_park env c w' = (r, v)" by fastforce
  obtain r' v' where fence: "registry_fence env (pk_session_id i) p w' = (r', v')" by fastforce
  show ?thesis
    using holds_run [OF stale_intent_refuses(1) [OF stale assms(3)] refl park]
      holds_run [OF stale_intent_refuses(3) [OF stale assms(4)] refl fence]
      refuses_run [OF stale_intent_refuses(2) [OF stale]] stale park fence
    by (auto simp: stale_intents_def split: sum.splits)
qed

definition stale_world :: registry_world where
  "stale_world = sample_world (sample_fenced\<lparr>rd_generation := 4\<rparr>) 0"

theorem stale_park_intent_is_permanent_witness:
  "validate_registry sample_env 0 (rw_doc stale_world) = Inr () \<and>
   (\<forall>options inputs finalization.
      sample_intent \<in> set (rd_park_intents (rw_doc (snd (update_claims sample_env options inputs finalization stale_world)))))"
proof (intro conjI allI)
  show "validate_registry sample_env 0 (rw_doc stale_world) = Inr ()" by code_simp
  have "sample_intent \<in> stale_intents (rw_doc stale_world)"
    by (simp add: stale_intents_def stale_world_def sample_world_def sample_fenced_def sample_intent_def)
  moreover have "pc_session_id sample_park_commit = pk_session_id sample_intent" "[] \<noteq> pk_operation_id sample_intent"
    by (simp_all add: sample_intent_def sample_park_commit_def)
  ultimately show "sample_intent \<in> set (rd_park_intents (rw_doc (snd (update_claims sample_env options inputs finalization stale_world))))"
    for options inputs finalization
    using stale_park_intent_is_permanent [where c = sample_park_commit and i = sample_intent and p = "[]" and w = stale_world
        and w' = "snd (update_claims sample_env options inputs finalization stale_world)",
        OF _ r_into_rtranclp [of "registry_step sample_env", OF registry_step.update]] by blast
qed

text \<open>C37: While one of two coordinated writers cannot be verified (its worktree is missing, on another branch, detached, or
  its session is not active), nothing works for any session: no claim can be made, changed or released, not even that of
  the missing worktree, and no session can be observed or closed for launches.\<close>

theorem unverified_writer_blocks_the_registry:
  assumes "fs_lawful (re_fs env)" "fs_exact (re_fs env)"
    and "c \<in> set (rd_claims (rw_doc w))" "e \<in> set (rd_claims (rw_doc w))" "c \<noteq> e" "selects_common (rc_resource c) (rc_resource e)"
    and "RESOURCE_CLAIM_COMPATIBILITY_MATRIX (rc_mode c) (rc_mode e) = Conflict"
    and "\<And>t. wi_status (claim_identity env t (rd_sessions (rw_doc w)) c) \<noteq> Verified"
  shows "(\<exists>x. fst (claim_resources env options inputs finalization w) = Inl x) \<and>
    (\<exists>x. fst (update_claims env options inputs finalization w) = Inl x) \<and>
    (\<exists>x. fst (apply_claim_deltas env options raw finalization w) = Inl x) \<and>
    (\<exists>x. fst (release_claims env options resources ids all finalization w) = Inl x) \<and>
    (\<exists>x. fst (registry_observe env i w) = Inl x) \<and> (\<exists>x. fst (close_session_launch_admission env i epoch w) = Inl x)"
proof -
  have "validate_registry env t (rw_doc w) \<noteq> Inr ()" for t
    using unverified_unreadable [OF assms(1-7)] assms(8) by blast
  then show ?thesis by (intro conjI refuses_run unreadable_refuses)
qed

definition pair_id :: string where "pair_id = ''bbbbbbbb-bbbb-7bbb-8bbb-bbbbbbbbbbbb''"

definition pair_env :: registry_env where
  "pair_env = sample_env
     \<lparr>re_sha := (\<lambda>s. replicate 64 (if CHR ''b'' \<in> set (take 30 s) then CHR ''b'' else CHR ''a'')),
      re_physical := (\<lambda>t path branch. Inr
        \<lparr>pi_repository_id = ''/r'', pi_worktree_id = path, pi_worktree_path = path, pi_branch_id = ''refs/heads/'' @ branch,
         pi_branch_name = branch\<rparr>)\<rparr>"

definition pair_claim :: "string \<Rightarrow> string \<Rightarrow> char \<Rightarrow> resource_claim" where
  "pair_claim i worktree c = sample_own_claim
     \<lparr>rc_session_id := i, rc_worktree_path := worktree, rc_claim_id := ''claim-'' @ replicate 64 c,
      rc_sharing := Some \<lparr>sw_kind = RESOURCE_CLAIM_SHARING_KIND, sw_group_id = ''g''\<rparr>\<rparr>"

definition pair_doc :: registry_doc where
  "pair_doc = sample_doc
     \<lparr>rd_sessions := [sample_session SessActive, (sample_session SessActive)
        \<lparr>rg_session_id := pair_id, rg_worktree_id := ''/v'', rg_worktree_path := ''/v'', rg_branch_id := ''refs/heads/c'', rg_branch_name := ''c''\<rparr>],
      rd_claims := [pair_claim sample_id ''/w'' CHR ''a'', pair_claim pair_id ''/v'' CHR ''b'']\<rparr>"

definition missing_env :: registry_env where
  "missing_env = pair_env\<lparr>re_physical := (\<lambda>t path branch. Inl ''WORKTREE_MISSING'')\<rparr>"

theorem unverified_writer_blocks_the_registry_witness:
  "validate_registry pair_env 0 pair_doc = Inr () \<and>
   (\<forall>options resources ids all finalization.
      \<exists>x. fst (release_claims missing_env options resources ids all finalization (sample_world pair_doc 0)) = Inl x)"
proof (intro conjI allI)
  show "validate_registry pair_env 0 pair_doc = Inr ()" by code_simp
  let ?c = "pair_claim sample_id ''/w'' CHR ''a''" and ?e = "pair_claim pair_id ''/v'' CHR ''b''" and ?w = "sample_world pair_doc 0"
  have env: "fs_lawful (re_fs missing_env)" "fs_exact (re_fs missing_env)"
    using sample_env_ok by (simp_all add: missing_env_def pair_env_def)
  have claims: "?c \<in> set (rd_claims (rw_doc ?w))" "?e \<in> set (rd_claims (rw_doc ?w))" "?c \<noteq> ?e"
    by (simp_all add: sample_world_def pair_doc_def pair_claim_def sample_own_claim_def sample_id_def pair_id_def)
  have "canonical_resource ''s/a''" by code_simp
  then have common: "selects_common (rc_resource ?c) (rc_resource ?e)"
    using selects_common_refl by (simp add: pair_claim_def sample_own_claim_def)
  have modes: "RESOURCE_CLAIM_COMPATIBILITY_MATRIX (rc_mode ?c) (rc_mode ?e) = Conflict"
    by (simp add: pair_claim_def sample_own_claim_def)
  have "wi_status (claim_identity missing_env t (rd_sessions (rw_doc ?w)) ?c) \<noteq> Verified" for t
    by (simp add: claim_identity_def missing_identity_def missing_env_def split: option.split)
  from unverified_writer_blocks_the_registry [OF env claims common modes this]
  show "\<exists>x. fst (release_claims missing_env options resources ids all finalization ?w) = Inl x"
    for options resources ids all finalization by blast
qed

end
