(* ===== verification/ParkHistory.thy ===== *)
theory ParkHistory
  imports ParkAndResume RegistryHistory
begin

text \<open>
  Parking through the registry while other processes run: before each call of \<open>parkSession\<close> on the authority the registry may
  take any steps of theory RegistryHistory. Nothing is assumed of the release of the lock, which may fail and then takes the
  place of the result of the operation.
\<close>

section \<open>Calls among other processes\<close>

definition disturbed :: "('s \<Rightarrow> 's) \<Rightarrow> 's retention_ops \<Rightarrow> 's retention_ops" where
  "disturbed other au =
     \<lparr>au_observe = (\<lambda>i s. au_observe au i (other s)), au_fence = (\<lambda>i p s. au_fence au i p (other s)),
      au_drain = (\<lambda>i p t s. au_drain au i p t (other s)), au_revalidate = (\<lambda>i p t s. au_revalidate au i p t (other s)),
      au_atomic_park = (\<lambda>c s. au_atomic_park au c (other s)), au_validate_resume = (\<lambda>u s. au_validate_resume au u (other s)),
      au_atomic_resume = (\<lambda>u s. au_atomic_resume au u (other s)), au_reobserve = (\<lambda>k p i s. au_reobserve au k p i (other s))\<rparr>"

text \<open>The claims and the retention records are changed, if at all, by the others.\<close>

inductive only_others :: "(registry_world \<Rightarrow> registry_world) \<Rightarrow> registry_world \<Rightarrow> registry_world \<Rightarrow> bool" for other where
  unchanged: "registry_view v = registry_view w \<Longrightarrow> only_others other w v"
| by_others: "only_others other w v \<Longrightarrow> only_others other w (other v)"
| onwards: "only_others other w v \<Longrightarrow> registry_view u = registry_view v \<Longrightarrow> only_others other w u"

lemma only_others_trans:
  assumes "only_others other w v" "only_others other v u"
  shows "only_others other w u"
  using assms(2,1) by induction (auto intro: only_others.intros)

lemma only_others_step:
  assumes "only_others other w s" "registry_view s' = registry_view (other s)"
  shows "only_others other w s'"
  using assms by (blast intro: only_others.intros)

definition runs :: "('s \<Rightarrow> bool) \<Rightarrow> ('s, 'a) call \<Rightarrow> ('a \<Rightarrow> 's \<Rightarrow> bool) \<Rightarrow> (retention_failure \<Rightarrow> 's \<Rightarrow> bool) \<Rightarrow> bool" where
  "runs P m Q E \<longleftrightarrow> (\<forall>s. P s \<longrightarrow> (case m s of (Inl e, s') \<Rightarrow> E e s' | (Inr a, s') \<Rightarrow> Q a s'))"

lemma runs_run: "runs P m Q E \<Longrightarrow> P s \<Longrightarrow> m s = (r, s') \<Longrightarrow> case r of Inl e \<Rightarrow> E e s' | Inr a \<Rightarrow> Q a s'"
  by (auto simp: runs_def split: sum.splits)

lemma runs_bind:
  "runs P m R E \<Longrightarrow> (\<And>a. runs (R a) (f a) Q E) \<Longrightarrow> runs P (bind_call m f) Q E"
  by (fastforce simp: runs_def bind_call_def split: sum.splits prod.splits)

lemma runs_fail [simp]: "runs P (pure_call (Inl e)) Q E \<longleftrightarrow> (\<forall>s. P s \<longrightarrow> E e s)"
  by (simp add: runs_def pure_call_def)

lemma runs_pure:
  "(\<And>a. r = Inr a \<Longrightarrow> runs P (f a) Q E) \<Longrightarrow> (\<And>e s. P s \<Longrightarrow> E e s) \<Longrightarrow> runs P (bind_call (pure_call r) f) Q E"
  by (cases r) (simp_all add: runs_def bind_call_def pure_call_def)

lemma runs_if: "(c \<Longrightarrow> runs P m Q E) \<Longrightarrow> (\<not> c \<Longrightarrow> runs P n Q E) \<Longrightarrow> runs P (if c then m else n) Q E"
  by simp

lemma runs_error: "(\<And>s. P s \<Longrightarrow> E e s) \<Longrightarrow> runs P (pure_call (Inl e)) Q E"
  by simp

section \<open>The calls of a park\<close>

abbreviation among_others :: "registry_env \<Rightarrow> (registry_world \<Rightarrow> registry_world) \<Rightarrow> registry_world retention_ops" where
  "among_others env other \<equiv> disturbed other (registry_authority env)"

lemma among_others_calls:
  "au_observe (among_others env other) i s = registry_observe env i (other s)"
  "au_fence (among_others env other) i p s = registry_fence env i p (other s)"
  "au_drain (among_others env other) i p t s = registry_drain env i p t (other s)"
  "au_revalidate (among_others env other) i p t s = registry_revalidate env i p t (other s)"
  "au_atomic_park (among_others env other) c s = registry_atomic_park env c (other s)"
  "au_reobserve (among_others env other) k p i s = registry_reobserve env k p i (other s)"
  by (simp_all add: disturbed_def registry_authority_def)

text \<open>
  One commit: what is to be remembered was asked for on a view \<open>s0\<close>; the last look at the claims, at \<open>s1\<close>, saw the claims
  of all sessions as the commit finds them at \<open>s2\<close>, although others may have run in between; \<open>moved\<close> is what the session
  owned. Everything before and after is the work of others.
\<close>

definition parks_once ::
  "registry_env \<Rightarrow> (registry_world \<Rightarrow> registry_world) \<Rightarrow> park_options \<Rightarrow> string \<Rightarrow> string \<Rightarrow> resource_claim set \<Rightarrow>
   registry_world \<Rightarrow> registry_world \<Rightarrow> bool" where
  "parks_once env other options operation_id session_id moved w w' \<longleftrightarrow>
     (\<exists>desired token snapshot s0 s1 s1' s2 s3.
        only_others other w s0 \<and> wanted_intents options session_id (registry_view s0) desired \<and>
        only_others other s0 s1 \<and>
        registry_revalidate env session_id operation_id token s1 = (Inr (Revalidated snapshot), s1') \<and>
        only_others other s1' s2 \<and> vw_claims (registry_view s2) = sn_claims snapshot \<and>
        moved = owned_claims session_id (registry_view s2) \<and>
        park_effect operation_id session_id desired (registry_view s2) (registry_view s3) \<and> only_others other s3 w')"

definition park_reported ::
  "registry_env \<Rightarrow> (registry_world \<Rightarrow> registry_world) \<Rightarrow> park_options \<Rightarrow> registry_world \<Rightarrow> registry_world \<Rightarrow>
   retention_failure + retention_result \<Rightarrow> bool" where
  "park_reported env other options w w' r \<longleftrightarrow>
     (case r of
        Inl e \<Rightarrow> only_others other w w' \<or> release_fails env \<and> (\<exists>p i moved. parks_once env other options p i moved w w')
      | Inr res \<Rightarrow>
          rr_status res = StatusParked \<and> (\<exists>moved. rr_moved_claims res = Some moved \<and>
             parks_once env other options (rr_operation_id res) (rr_session_id res) (set moved) w w') \<or>
          rr_status res = StatusUncertain \<and> (only_others other w w' \<or>
             (\<exists>moved. parks_once env other options (rr_operation_id res) (rr_session_id res) moved w w')))"

lemma failed_reported: "only_others other w w' \<Longrightarrow> park_reported env other options w w' (Inl e)"
  by (simp add: park_reported_def)

abbreviation reporting ::
  "registry_env \<Rightarrow> (registry_world \<Rightarrow> registry_world) \<Rightarrow> park_options \<Rightarrow> registry_world \<Rightarrow> (registry_world \<Rightarrow> bool) \<Rightarrow>
   retention_result registry_call \<Rightarrow> bool" where
  "reporting env other options w P m \<equiv>
     runs P m (\<lambda>res w'. park_reported env other options w w' (Inr res)) (\<lambda>e w'. park_reported env other options w w' (Inl e))"

lemma observes_revalidate: "observes (registry_revalidate env i p t) (\<lambda>_. True)"
  unfolding registry_revalidate_def
  by (intro observes_catch observes_steps observes_pure observes_lock) simp_all

lemma silent_observe: "silent (registry_observe env i)"
  unfolding registry_observe_def
  by (intro silent_observes [where P = "\<lambda>_. True"] observes_steps observes_lock observes_weaken [OF observes_snapshot] TrueI)

lemma observes_same_doc: "observes m P \<Longrightarrow> rw_doc (snd (m w)) = rw_doc w"
  by (simp add: observes_def)

text \<open>The view that a claim set generation vouches for\<close>

lemma revalidated_claims:
  assumes "registry_revalidate env i p t s = (Inr (Revalidated snapshot), s')" "registry_run env s' v"
    and "sn_claim_set_generation snapshot = rd_generation (rw_doc v)"
  shows "vw_claims (registry_view v) = sn_claims snapshot"
proof -
  have same: "rw_doc s' = rw_doc s"
    using observes_same_doc [OF observes_revalidate, of env i p t s] assms(1) by simp
  have told: "sn_claims snapshot = vw_claims (registry_view s)" "sn_claim_set_generation snapshot = rd_generation (rw_doc s)"
    using revalidate_reports [OF assms(1)] by (simp_all add: tells_def)
  from run_advances [OF assms(2)] assms(3) told same show ?thesis
    by (auto simp: advances_def follows_def registry_view_def doc_view_def)
qed

lemma reobserved_unknown:
  assumes "resolve_uncertain (among_others env other) Park p i ''parked'' s = (r, s')"
  shows "only_others other s s' \<and> r = Inr (unresolved_retention Park p i (ReobservationUnknown p))"
proof -
  obtain o' s1 where run: "registry_reobserve env Park p i (other s) = (o', s1)" by fastforce
  have "o' = Inr (ReobservationUnknown p)" using reobserve_unknown [of env Park p i "other s"] run by simp
  moreover have "registry_view s1 = registry_view (other s)" using silent_view [OF silent_reobserve, of env Park p i "other s"] run by simp
  ultimately show ?thesis
    using assms run by (auto simp: resolve_uncertain_def bind_call_def pure_call_def among_others_calls
        intro: only_others.intros)
qed

text \<open>The commit, from the state that the last look at the claims left\<close>

lemma commit_reports:
  assumes fs: "fs_lawful (re_fs env)" "fs_exact (re_fs env)" and others: "\<And>u. registry_run env u (other u)"
    and before: "only_others other w s0" "wanted_intents options i (registry_view s0) (pc_desired_claims c)" "only_others other s0 s1"
    and look: "registry_revalidate env i p token s1 = (Inr (Revalidated snapshot), s1')"
    and c: "pc_session_id c = i" "pc_operation_id c = p" "pc_expected_generation c = sn_claim_set_generation snapshot"
  shows "reporting env other options w (\<lambda>s. s = s1')
    (bind_call (au_atomic_park (among_others env other) c) (handle_park_commit (among_others env other) p i))"
  unfolding runs_def
proof (intro allI impI)
  fix s assume s: "s = s1'"
  let ?au = "among_others env other"
  obtain r1 s3 where commit: "registry_atomic_park env c (other s1') = (r1, s3)" by fastforce
  note law = holds_run [OF atomic_park_any [OF fs] refl commit]
  have "registry_view s1' = registry_view s1"
    using silent_view [OF silent_revalidate, of env i p token s1] look by simp
  then have quiet: "only_others other w s1'"
    using only_others_trans [OF before(1) onwards [OF before(3)]] by simp
  have untouched: "only_others other w s3" if "rw_doc s3 = rw_doc (other s1')"
    using only_others_step [OF quiet] that by (simp add: registry_view_def)
  have once: "parks_once env other options p i (owned_claims i (registry_view (other s1'))) w v"
    if left: "park_left c (rw_doc (other s1')) (rw_doc s3)" and later: "only_others other s3 v" for v
    unfolding parks_once_def
  proof (intro exI conjI)
    show "only_others other w s0" "wanted_intents options i (registry_view s0) (pc_desired_claims c)" "only_others other s0 s1"
      "registry_revalidate env i p token s1 = (Inr (Revalidated snapshot), s1')" "only_others other s3 v"
      by (fact before look later)+
    show "only_others other s1' (other s1')" by (blast intro: only_others.intros)
    show "vw_claims (registry_view (other s1')) = sn_claims snapshot"
      using revalidated_claims [OF look others] left c(3) by (simp add: park_left_def)
    show "park_effect p i (pc_desired_claims c) (registry_view (other s1')) (registry_view s3)"
      using left c by (simp add: park_left_def registry_view_def)
  qed simp
  have stay: "only_others other s3 s3" by (blast intro: only_others.intros)
  obtain r s' where run: "bind_call (au_atomic_park ?au c) (handle_park_commit ?au p i) s = (r, s')" by fastforce
  have "park_reported env other options w s' r"
  proof (cases r1)
    case (Inl e)
    then have "r = Inl e" "s' = s3"
      using run commit s by (simp_all add: bind_call_def among_others_calls)
    then show ?thesis
      using law Inl untouched once [OF _ stay] by (auto simp: park_reported_def)
  next
    case (Inr result)
    then have handled: "handle_park_commit ?au p i result s3 = (r, s')"
      using run commit s by (simp add: bind_call_def among_others_calls)
    show ?thesis
    proof (cases result)
      case (CommitAccepted q snapshot' released)
      then have accepted: "q = p" "rs_state (sn_session snapshot') = ''parked''" "sn_retention snapshot' \<noteq> None"
        "park_left c (rw_doc (other s1')) (rw_doc s3)" "map_option set released = Some (owned_claims i (registry_view (other s1')))"
        using law Inr c by (simp_all add: registry_view_def)
      then have "s' = s3" "r = Inr ((retention_success Park p i snapshot')
          \<lparr>rr_retention := sn_retention snapshot', rr_moved_claims := released\<rparr>)"
        using handled CommitAccepted
        by (auto simp: handle_park_commit_def bind_call_def pure_call_def assert_commit_identity_def)
      then show ?thesis
        using accepted(5) once [OF accepted(4) stay] by (auto simp: park_reported_def retention_success_def)
    next
      case (CommitRejected q code)
      then have "s' = s3 \<and> (\<exists>e. r = Inl e)"
        using handled by (auto simp: handle_park_commit_def bind_call_def pure_call_def assert_commit_identity_def require_def
            split: if_splits)
      then show ?thesis
        using law Inr CommitRejected untouched once [OF _ stay] by (auto simp: park_reported_def)
    next
      case (CommitUncertain q)
      then have q: "q = p" "rw_doc s3 = rw_doc (other s1') \<or> park_left c (rw_doc (other s1')) (rw_doc s3)"
        using law Inr c by auto
      then have "resolve_uncertain ?au Park p i ''parked'' s3 = (r, s')"
        using handled CommitUncertain by (simp add: handle_park_commit_def bind_call_def pure_call_def assert_commit_identity_def)
      then have later: "only_others other s3 s'" and r: "r = Inr (unresolved_retention Park p i (ReobservationUnknown p))"
        using reobserved_unknown by blast+
      show ?thesis
        using q(2) once [OF _ later] only_others_trans [OF untouched later]
        by (auto simp: r park_reported_def unresolved_retention_def)
    qed
  qed
  then show "case bind_call (au_atomic_park ?au c) (handle_park_commit ?au p i) s of
      (Inl e, w') \<Rightarrow> park_reported env other options w w' (Inl e) | (Inr res, w') \<Rightarrow> park_reported env other options w w' (Inr res)"
    using run by (cases r) simp_all
qed

text \<open>The calls before it leave the claims to others.\<close>

lemma quiet_call:
  assumes "\<And>s. registry_view (snd (m s)) = registry_view (other s)"
    and "\<And>a. reporting env other options w (only_others other s0) (f a)"
    and "only_others other w s0"
  shows "reporting env other options w (only_others other s0) (bind_call m f)"
proof (rule runs_bind [where R = "\<lambda>a. only_others other s0"])
  show "runs (only_others other s0) m (\<lambda>a. only_others other s0) (\<lambda>e w'. park_reported env other options w w' (Inl e))"
    unfolding runs_def
  proof (intro allI impI)
    fix s assume "only_others other s0 s"
    then have after: "only_others other s0 (snd (m s))" using assms(1) by (rule only_others_step)
    then show "case m s of (Inl e, w') \<Rightarrow> park_reported env other options w w' (Inl e) | (Inr a, w') \<Rightarrow> only_others other s0 w'"
      using failed_reported [OF only_others_trans [OF assms(3)]] by (auto split: prod.split sum.split)
  qed
qed (rule assms(2))

lemma reporting_fence:
  assumes "only_others other w s0" "\<And>t. reporting env other options w (only_others other s0) (f t)"
  shows "reporting env other options w (only_others other s0) (bind_call (au_fence (among_others env other) i p)
    (\<lambda>x. case x of FenceRejected \<Rightarrow> pure_call (Inl e) | FenceAccepted t \<Rightarrow> f t))"
  using assms failed_reported [OF only_others_trans [OF assms(1)]] silent_view [OF silent_fence]
  by (intro quiet_call) (auto simp: among_others_calls split: fence_result.split)

lemma reporting_drain:
  assumes "only_others other w s0" "\<And>n. reporting env other options w (only_others other s0) (f n)"
  shows "reporting env other options w (only_others other s0) (bind_call (au_drain (among_others env other) i p t)
    (\<lambda>x. case x of DrainRejected \<Rightarrow> pure_call (Inl e) | Drained n \<Rightarrow> f n))"
  using assms failed_reported [OF only_others_trans [OF assms(1)]] silent_view [OF silent_drain]
  by (intro quiet_call) (auto simp: among_others_calls split: drain_result.split)

lemma reporting_observe:
  assumes "\<And>snapshot s0. only_others other w s0 \<Longrightarrow> tells (registry_view s0) i snapshot \<Longrightarrow>
      reporting env other options w (only_others other s0) (f snapshot)"
  shows "reporting env other options w (\<lambda>s. s = w) (bind_call (au_observe (among_others env other) i) f)"
proof (rule runs_bind [where R = "\<lambda>snapshot s. \<exists>s0. only_others other w s0 \<and> tells (registry_view s0) i snapshot \<and> only_others other s0 s"])
  show "runs (\<lambda>s. s = w) (au_observe (among_others env other) i)
      (\<lambda>snapshot s. \<exists>s0. only_others other w s0 \<and> tells (registry_view s0) i snapshot \<and> only_others other s0 s)
      (\<lambda>e w'. park_reported env other options w w' (Inl e))"
    unfolding runs_def
  proof (intro allI impI)
    fix s assume "s = w"
    obtain r s' where run: "registry_observe env i (other w) = (r, s')" by fastforce
    have same: "registry_view s' = registry_view (other w)"
      using silent_view [OF silent_observe, of env i "other w"] run by simp
    have "only_others other w (other w)" by (blast intro: only_others.intros)
    moreover from this have "only_others other w s'" using same by (rule onwards)
    moreover have "only_others other (other w) s'" using same by (rule unchanged)
    ultimately show "case au_observe (among_others env other) i s of
        (Inl e, w') \<Rightarrow> park_reported env other options w w' (Inl e)
      | (Inr snapshot, s) \<Rightarrow> \<exists>s0. only_others other w s0 \<and> tells (registry_view s0) i snapshot \<and> only_others other s0 s"
      using run observe_reports [of env i "other w"] failed_reported \<open>s = w\<close>
      by (auto simp: among_others_calls split: sum.split)
  qed
next
  fix snapshot
  show "reporting env other options w (\<lambda>s. \<exists>s0. only_others other w s0 \<and> tells (registry_view s0) i snapshot \<and> only_others other s0 s)
      (f snapshot)"
    using assms by (fastforce simp: runs_def)
qed

lemma reporting_revalidate:
  assumes "only_others other w s0"
    and "\<And>s1 s1' snapshot. only_others other s0 s1 \<Longrightarrow>
      registry_revalidate env i p token s1 = (Inr (Revalidated snapshot), s1') \<Longrightarrow> only_others other w s1' \<Longrightarrow>
      reporting env other options w (\<lambda>s. s = s1') (f snapshot)"
  shows "reporting env other options w (only_others other s0) (bind_call (au_revalidate (among_others env other) i p token)
    (\<lambda>x. case x of RevalidateRejected \<Rightarrow> pure_call (Inl e) | Revalidated snapshot \<Rightarrow> f snapshot))"
  unfolding runs_def
proof (intro allI impI)
  fix s assume s: "only_others other s0 s"
  let ?m = "bind_call (au_revalidate (among_others env other) i p token)
    (\<lambda>x. case x of RevalidateRejected \<Rightarrow> pure_call (Inl e) | Revalidated snapshot \<Rightarrow> f snapshot)"
  obtain r s1' where run: "registry_revalidate env i p token (other s) = (r, s1')" by fastforce
  have "registry_view s1' = registry_view (other s)"
    using silent_view [OF silent_revalidate, of env i p token "other s"] run by simp
  then have after: "only_others other w s1'"
    using only_others_trans [OF assms(1) only_others_step [OF s]] by blast
  show "case ?m s of (Inl e, w') \<Rightarrow> park_reported env other options w w' (Inl e) | (Inr a, w') \<Rightarrow> park_reported env other options w w' (Inr a)"
  proof (cases r)
    case (Inl e)
    then show ?thesis using run failed_reported [OF after] by (simp add: bind_call_def among_others_calls)
  next
    case (Inr x)
    show ?thesis
    proof (cases x)
      case RevalidateRejected
      then show ?thesis using Inr run failed_reported [OF after] by (simp add: bind_call_def among_others_calls pure_call_def)
    next
      case (Revalidated snapshot)
      have "only_others other s0 (other s)" using s by (rule by_others)
      from assms(2) [OF this _ after] Inr Revalidated run show ?thesis
        by (simp add: runs_def bind_call_def among_others_calls)
    qed
  qed
qed

lemma reporting_pure:
  assumes "\<And>a. r = Inr a \<Longrightarrow> reporting env other options w P (f a)" "\<And>s. P s \<Longrightarrow> only_others other w s"
  shows "reporting env other options w P (bind_call (pure_call r) f)"
  using assms failed_reported by (intro runs_pure) auto

lemma reporting_fail: "(\<And>s. P s \<Longrightarrow> only_others other w s) \<Longrightarrow> reporting env other options w P (pure_call (Inl e))"
  using failed_reported by auto

lemma wanted_seen:
  assumes "bind_sum
       (case po_desired_claims options of
          None \<Rightarrow> map_sum_list claim_intent_of (claims_for_session snapshot)
        | Some inputs \<Rightarrow> map_sum_list claim_intent_of_input inputs) clone_and_sort_intents = Inr desired"
    and "tells (registry_view s0) i snapshot" "assert_retention_snapshot snapshot i = Inr ()"
    and "check_desired_subset desired (sn_claims snapshot) i = Inr ()"
  shows "wanted_intents options i (registry_view s0) desired"
  using assms by (intro kept.wanted_intentsI [where snapshot = snapshot]) (simp_all add: tells_def)

lemma park_reporting:
  assumes "fs_lawful (re_fs env)" "fs_exact (re_fs env)" "\<And>u. registry_run env u (other u)"
  shows "reporting env other options w (\<lambda>s. s = w) (park_session en (among_others env other) options)"
proof -
  have start: "only_others other w w" by (simp add: unchanged)
  have commit: "reporting env other options w (\<lambda>s. s = s1')
      (bind_call (au_atomic_park (among_others env other)
        \<lparr>pc_operation_id = p, pc_session_id = i, pc_expected_state = ''active'',
         pc_expected_generation = sn_claim_set_generation look, pc_fence_token = token,
         pc_physical_identity = rs_physical_identity (sn_session look), pc_desired_claims = desired,
         pc_pinned_profile_digest = digest, pc_release_claim_ids = ids, pc_parked_at = at\<rparr>)
        (handle_park_commit (among_others env other) p i))"
    if "only_others other w s0" "tells (registry_view s0) i snapshot" "assert_retention_snapshot snapshot i = Inr ()"
      "bind_sum
        (case po_desired_claims options of
           None \<Rightarrow> map_sum_list claim_intent_of (claims_for_session snapshot)
         | Some inputs \<Rightarrow> map_sum_list claim_intent_of_input inputs) clone_and_sort_intents = Inr desired"
      "check_desired_subset desired (sn_claims snapshot) i = Inr ()"
      "only_others other s0 s1" "registry_revalidate env i p token s1 = (Inr (Revalidated look), s1')"
    for i p digest at snapshot s0 desired token s1 s1' look ids
    using that(1,6,7) wanted_seen [OF that(4,2,3,5)] by (intro commit_reports [OF assms]) simp_all
  show ?thesis
    unfolding park_session_def
    by (intro reporting_pure reporting_observe reporting_fence reporting_drain reporting_revalidate reporting_fail runs_if;
        (simp add: start; fail)?; (rule only_others_trans, assumption+; fail)?)
      (auto intro: commit only_others_trans)
qed

section \<open>Property\<close>

text \<open>C6: Parking is all or nothing, whatever steps other processes take between the calls of the client. A park that reports
  success made one commit: it took away every claim the session had at that moment, which is what it reports as moved, and
  no other; it remembers the claims that were wanted; and all claims of the registry, of every session, were still those of
  the client's last look. A park that throws changed nothing (claims and retention records are changed by others at most),
  except that an error of the lock's release can hide one commit. One that reports an uncertain outcome did either.\<close>

theorem registry_park_all_or_nothing:
  assumes "fs_lawful (re_fs env)" "fs_exact (re_fs env)" "\<And>u. registry_run env u (other u)"
    and "park_session en (disturbed other (registry_authority env)) options w = (r, w')"
  shows "case r of
      Inl e \<Rightarrow> only_others other w w' \<or> release_fails env \<and> (\<exists>p i moved. parks_once env other options p i moved w w')
    | Inr res \<Rightarrow>
        rr_status res = StatusParked \<and> (\<exists>moved. rr_moved_claims res = Some moved \<and>
           parks_once env other options (rr_operation_id res) (rr_session_id res) (set moved) w w') \<or>
        rr_status res = StatusUncertain \<and> (only_others other w w' \<or>
           (\<exists>moved. parks_once env other options (rr_operation_id res) (rr_session_id res) moved w w'))"
  using runs_run [OF park_reporting [OF assms(1-3)] refl assms(4)]
  by (cases r) (simp_all add: park_reported_def)

lemma disturbed_id: "disturbed (\<lambda>u. u) au = au"
  by (simp add: disturbed_def)

theorem registry_park_all_or_nothing_witness:
  "parks_once sample_env (\<lambda>u. u) sample_park_options ''op'' sample_id {sample_own_claim}
     (sample_world sample_doc 0) (sample_world sample_parked 35)"
proof -
  have run: "park_session sample_retention_env (disturbed (\<lambda>u. u) (registry_authority sample_env)) sample_park_options
      (sample_world sample_doc 0) =
     (Inr ((retention_success Park ''op'' sample_id (sample_snapshot sample_parked SessParked (Some sample_retention)))
        \<lparr>rr_retention := Some sample_retention, rr_moved_claims := Some [sample_own_claim]\<rparr>), sample_world sample_parked 35)"
    unfolding disturbed_id by (rule sample_park)
  from registry_park_all_or_nothing [OF sample_env_ok(1,2) _ run] show ?thesis
    by (simp add: retention_success_def)
qed

end
