(* ===== verification/HandoffHistory.thy ===== *)
theory HandoffHistory
  imports RegistryHistory
begin

text \<open>
  Handoffs through the registry: the client of theory ResourceHandoff on the authority of theory RegistryHandoff, while
  other processes run operations of theory RegistryHistory as the source's executions drain. The properties rest on the
  interpretation of \<open>handoff_authority\<close>; the witnesses move the claim of a session to a second one.
\<close>

section \<open>A handoff of the sample\<close>

definition pair_options :: handoff_options where
  "pair_options =
     \<lparr>ho_fromSessionId = JsString sample_id, ho_from_session_id = JsUndefined, ho_toSessionId = JsString pair_id,
      ho_to_session_id = JsUndefined, ho_resource = JsString ''s/a'', ho_mode = JsString ''write'', ho_ifGeneration = NumInt 3,
      ho_if_generation = NumUndefined, ho_expectedClaimSetGeneration = NumUndefined,
      ho_expected_claim_set_generation = NumUndefined, ho_operationId = JsString ''op'', ho_operation_id = JsUndefined\<rparr>"

definition pair_controller :: "registry_world handoff_controller" where
  "pair_controller =
     \<lparr>hx_fence = (\<lambda>i p w. (Inr (Some \<lparr>hf_schema_version = 1, hf_session_id = i, hf_operation_id = p, hf_epoch = 3,
        hf_accepting = False, hf_status = ''fenced''\<rparr>), w)),
      hx_await = (\<lambda>f w. (Inr (Some \<lparr>hq_session_id = hf_session_id f, hq_operation_id = hf_operation_id f, hq_epoch = hf_epoch f,
        hq_status = ''quiescent'', hq_active = [], hq_unknown = []\<rparr>), w))\<rparr>"

definition unshared_doc :: registry_doc where
  "unshared_doc = pair_doc\<lparr>rd_claims := [sample_own_claim]\<rparr>"

definition given_claim :: resource_claim where
  "given_claim = (pair_claim pair_id ''/v'' CHR ''b'')\<lparr>rc_sharing := None\<rparr>"

definition given_doc :: registry_doc where
  "given_doc = unshared_doc
     \<lparr>rd_claims := [given_claim], rd_generation := 4, rd_revision := 6,
      rd_events := [HandoffEvent \<lparr>hr_operation_id = ''op'', hr_from_session_id = sample_id, hr_to_session_id = pair_id,
        hr_resource = ''s/a'', hr_mode = Write, hr_generation = 4\<rparr>]\<rparr>"

definition pair_request :: normalized_handoff where
  "pair_request =
     \<lparr>nh_from = sample_id, nh_to = pair_id, nh_resource = ''s/a'', nh_mode = Write, nh_generation = 3, nh_operation_id = ''op''\<rparr>"

definition pair_fence :: handoff_fence where
  "pair_fence = \<lparr>hf_schema_version = 1, hf_session_id = sample_id, hf_operation_id = ''op'', hf_epoch = 3, hf_accepting = False,
     hf_status = ''fenced''\<rparr>"

definition pair_quiescence :: handoff_quiescence where
  "pair_quiescence = \<lparr>hq_session_id = sample_id, hq_operation_id = ''op'', hq_epoch = 3, hq_status = ''quiescent'', hq_active = [],
     hq_unknown = []\<rparr>"

definition pair_commit :: handoff_commit_result where
  "pair_commit =
     \<lparr>hc_status = HandoffTransferred, hc_operation_id = ''op'', hc_generation = 4, hc_source_claim = None,
      hc_destination_claim = Some given_claim\<rparr>"

definition pair_retry :: handoff_validation where
  "pair_retry = validation pair_request 4 ValidationIdempotent ''IDEMPOTENT'' None (Some given_claim) [] [''retain-handoff-result'']"

lemma pair_normalize: "normalize_handoff_options (re_sha pair_env) (Some pair_options) = Inr pair_request"
  by code_simp

lemma pair_read: "read_resource_handoff pair_env (sample_world unshared_doc 0) = (Inr (handoff_view pair_env unshared_doc), sample_world unshared_doc 3)"
  by code_simp

lemma pair_validate: "validate_resource_handoff (re_sha pair_env) (re_fs pair_env) (handoff_view pair_env unshared_doc) (Some pair_options) =
   Inr (validation pair_request 3 ValidationAllowed ''ALLOWED'' (Some sample_own_claim) None []
          [''fence-source-execution'', ''commit-resource-handoff''])"
  by code_simp

lemma pair_read2: "read_resource_handoff pair_env (sample_world unshared_doc 3) = (Inr (handoff_view pair_env unshared_doc), sample_world unshared_doc 6)"
  by code_simp

lemma pair_commits: "commit_resource_handoff pair_env \<lparr>hi_options = Some pair_options, hi_normalized = pair_request,
    hi_snapshot = handoff_view pair_env unshared_doc, hi_fence = pair_fence, hi_quiescence = pair_quiescence\<rparr> (sample_world unshared_doc 6) =
   (Inr pair_commit, sample_world given_doc 14)"
  by code_simp

lemma pair_executions:
  "hx_fence pair_controller (nh_from pair_request) (nh_operation_id pair_request) s = (Inr (Some pair_fence), s)"
  "hx_await pair_controller pair_fence s = (Inr (Some pair_quiescence), s)" "is_fence_for pair_fence pair_request"
  "is_quiescence_for pair_fence pair_quiescence"
  "hf_epoch pair_fence = 3" "hq_status pair_quiescence = ''quiescent''" "hq_active pair_quiescence = []" "hq_unknown pair_quiescence = []"
  by (simp_all add: pair_controller_def pair_request_def pair_fence_def pair_quiescence_def is_fence_for_def is_quiescence_for_def
      RESOURCE_HANDOFF_SCHEMA_VERSION_def is_safe_integer_def MAX_SAFE_INTEGER_def)

lemma pair_accepted: "is_ok (assert_commit_result (re_sha pair_env) pair_commit pair_request 3 (handoff_view pair_env unshared_doc))"
  by code_simp

lemma pair_generation: "hn_generation (handoff_view pair_env unshared_doc) = 3"
  by code_simp

lemma pair_handoff:
  "registry_handoff_resources pair_env pair_controller (Some pair_options) (sample_world unshared_doc 0) =
     (Inr (committed_result pair_request 3 3 pair_commit), sample_world given_doc 14)"
  by (simp add: registry_handoff_resources_def handoff_resources_def drain_handoff_def commit_handoff_def registry_handoff_authority_def
      bind_call_def try_call_def pure_call_def Let_def pair_normalize pair_read pair_read2 pair_validate pair_generation pair_executions
      pair_commits pair_accepted)

lemma pair_handoff_again:
  "registry_handoff_resources pair_env pair_controller (Some pair_options) (sample_world given_doc 14) =
     (Inr (result_from_validation pair_retry 4 True None), sample_world given_doc 17)"
  by code_simp

lemma pair_transferred: "ht_status (committed_result pair_request 3 3 pair_commit) = HandoffTransferred"
  by (simp add: pair_commit_def)

section \<open>A transfer\<close>

lemma handoff_read_doc: "ha_read (registry_handoff_authority env) s = (x, s') \<Longrightarrow> rw_doc s' = rw_doc s"
  using holds_run [OF handoff_read_holds refl, of env s x s'] by (auto simp: registry_handoff_authority_def split: sum.splits)

lemma registry_transfer:
  assumes "registry_handoff_resources env execution options w = (Inr r, w')" "ht_status r = HandoffTransferred"
  obtains h i and s s' :: registry_world where "normalize_handoff_options (re_sha env) options = Inr h" "rw_doc s = rw_doc w"
    "handoff_drained execution h s s'" "rd_generation (rw_doc s') = rd_generation (rw_doc w)"
    "hi_options i = options" "hi_normalized i = h"
    "handoff_moves (re_sha env) (re_fs env) i (handoff_view env (rw_doc s')) (handoff_view env (rw_doc w'))"
proof -
  obtain h s0 s2 s3 i where run: "normalize_handoff_options (re_sha env) options = Inr h"
    "ha_read (registry_handoff_authority env) w = (Inr (handoff_view env (rw_doc w)), s0)" "handoff_drained execution h s0 s2"
    "ha_read (registry_handoff_authority env) s2 = (Inr (handoff_view env (rw_doc s2)), s3)"
    "hn_generation (handoff_view env (rw_doc s3)) = hn_generation (handoff_view env (rw_doc w))"
    "hi_options i = options" "hi_normalized i = h"
    "handoff_moves (re_sha env) (re_fs env) i (handoff_view env (rw_doc s3)) (handoff_view env (rw_doc w'))"
    using handoff.transfer_follows_drain [OF assms(1) [unfolded registry_handoff_resources_def] assms(2)] by blast
  have "rw_doc s0 = rw_doc w" "rw_doc s3 = rw_doc s2"
    using handoff_read_doc [OF run(2)] handoff_read_doc [OF run(4)] .
  with run show ?thesis by (intro that [of h s0 s2 i]) (simp_all add: handoff_view_simps)
qed

text \<open>The claims before and after\<close>

lemma moved_claims:
  assumes "handoff_moves sha fs i (handoff_view env d) (handoff_view env n)" "hi_options i = options" "hi_normalized i = h"
    and "normalize_handoff_options sha options = Inr h"
  obtains source destination where "handoff_justified fs (handoff_view env d) h source" "rc_session_id destination = nh_to h"
    "rc_resource destination = nh_resource h" "rc_mode destination = nh_mode h"
    "mset (rd_claims n) + {#source#} = mset (rd_claims d) + {#destination#}"
proof -
  obtain v source destination where v: "validate_resource_handoff sha fs (handoff_view env d) options = Inr v"
      "va_status v = ValidationAllowed" "va_source_claim v = Some source"
    and moved: "rc_session_id destination = nh_to h" "rc_resource destination = nh_resource h" "rc_mode destination = nh_mode h"
      "mset (hn_claims (handoff_view env n)) + {#source#} = mset (hn_claims (handoff_view env d)) + {#destination#}"
    using assms(1-3) by (auto simp: handoff_moves_def)
  have "handoff_justified fs (handoff_view env d) h source"
    using v assms(4) by (auto elim!: validation_allowed)
  with moved show ?thesis by (intro that) (auto simp: handoff_view_simps sort_resource_claims_def)
qed

text \<open>The controller of the executions takes steps of the registry only, and as many as it likes.\<close>

definition takes_steps :: "registry_env \<Rightarrow> registry_world handoff_controller \<Rightarrow> bool" where
  "takes_steps env execution \<longleftrightarrow>
     (\<forall>i p w. registry_run env w (snd (hx_fence execution i p w))) \<and> (\<forall>f w. registry_run env w (snd (hx_await execution f w)))"

lemma drained_run: "takes_steps env execution \<Longrightarrow> handoff_drained execution h s s' \<Longrightarrow> registry_run env s s'"
  unfolding takes_steps_def handoff_drained_def by (metis rtranclp_trans snd_conv)

lemma same_doc_run: "rw_doc s' = rw_doc s \<Longrightarrow> registry_run env s s'"
  by (simp add: r_into_rtranclp registry_step.outside)

text \<open>C8: A handoff that reports a transfer has moved one claim: the source's claim on the resource is gone, the
  destination has one on it in the requested mode, and every other claim in the registry is the one that was there when the
  handoff began, whatever other processes did while the executions of the source drained.\<close>

theorem handoff_moves_one_claim:
  assumes "takes_steps env execution" "registry_handoff_resources env execution options w = (Inr r, w')"
    and "ht_status r = HandoffTransferred"
  shows "\<exists>h source destination. normalize_handoff_options (re_sha env) options = Inr h \<and>
    rc_session_id source = nh_from h \<and> rc_resource source = nh_resource h \<and>
    rc_session_id destination = nh_to h \<and> rc_resource destination = nh_resource h \<and> rc_mode destination = nh_mode h \<and>
    mset (rd_claims (rw_doc w')) + {#source#} = mset (rd_claims (rw_doc w)) + {#destination#}"
proof -
  obtain h i and s s' :: registry_world where h: "normalize_handoff_options (re_sha env) options = Inr h"
    and s: "rw_doc s = rw_doc w" "handoff_drained execution h s s'" "rd_generation (rw_doc s') = rd_generation (rw_doc w)"
    and i: "hi_options i = options" "hi_normalized i = h"
    and moves: "handoff_moves (re_sha env) (re_fs env) i (handoff_view env (rw_doc s')) (handoff_view env (rw_doc w'))"
    by (rule registry_transfer [OF assms(2,3)])
  have "registry_run env w s'"
    using same_doc_run [OF s(1)] drained_run [OF assms(1) s(2)] by (meson rtranclp_trans)
  from run_advances [OF this] s(3) have "sort_resource_claims (rd_claims (rw_doc s')) = sort_resource_claims (rd_claims (rw_doc w))"
    by (auto simp: advances_def follows_def)
  then have claims: "mset (rd_claims (rw_doc s')) = mset (rd_claims (rw_doc w))"
    by (metis mset_sort sort_resource_claims_def)
  from moved_claims [OF moves i h] claims h show ?thesis by (metis justified_owned(2,3))
qed

lemma pair_controller_quiet: "takes_steps env pair_controller"
  by (simp add: takes_steps_def pair_controller_def)

theorem handoff_moves_one_claim_witness:
  "\<exists>source destination. rc_session_id source = sample_id \<and> rc_session_id destination = pair_id \<and>
     mset (rd_claims given_doc) + {#source#} = mset (rd_claims unshared_doc) + {#destination#}"
  using pair_normalize handoff_moves_one_claim [OF pair_controller_quiet pair_handoff pair_transferred]
  by (auto simp: sample_world_def pair_request_def)

text \<open>C9: No claim is transferred without reason: the executions of the source were fenced for this operation and then
  drained, and under the lock of the commit both sessions were active, in one repository and in different worktrees, the
  source owned the resource by exactly one claim, no claim of the destination overlapped it, and the scope established for
  the destination permitted the mode and did not deny the resource.\<close>

theorem transferred_handoff_is_justified:
  assumes "registry_handoff_resources env execution options w = (Inr r, w')" "ht_status r = HandoffTransferred"
  shows "\<exists>h s s' source. normalize_handoff_options (re_sha env) options = Inr h \<and> rw_doc s = rw_doc w \<and>
    handoff_drained execution h s s' \<and> nh_generation h = rd_generation (rw_doc w) \<and>
    handoff_justified (re_fs env) (handoff_view env (rw_doc s')) h source"
proof -
  obtain h i and s s' :: registry_world where h: "normalize_handoff_options (re_sha env) options = Inr h"
    and s: "rw_doc s = rw_doc w" "handoff_drained execution h s s'" "rd_generation (rw_doc s') = rd_generation (rw_doc w)"
    and i: "hi_options i = options" "hi_normalized i = h"
    and moves: "handoff_moves (re_sha env) (re_fs env) i (handoff_view env (rw_doc s')) (handoff_view env (rw_doc w'))"
    by (rule registry_transfer [OF assms])
  obtain source where justified: "handoff_justified (re_fs env) (handoff_view env (rw_doc s')) h source"
    by (rule moved_claims [OF moves i h])
  then have "nh_generation h = rd_generation (rw_doc w)"
    using s by (simp add: handoff_justified_def handoff_view_simps)
  with h s justified show ?thesis by blast
qed

theorem transferred_handoff_is_justified_witness:
  "\<exists>source. \<exists>s' :: registry_world. handoff_justified (re_fs pair_env) (handoff_view pair_env (rw_doc s')) pair_request source"
  using pair_normalize transferred_handoff_is_justified [OF pair_handoff pair_transferred] by auto

section \<open>Retries\<close>

lemma receipt_retries:
  assumes "normalize_handoff_options sha options = Inr h" "receipt_of h g \<in> set (hn_completed n)"
    and "validate_resource_handoff sha fs n options = Inr v"
  shows "va_status v = ValidationIdempotent \<and> va_source_retained v \<and>
    find_claim (hn_claims n) (nh_from h) (nh_resource h) = Inr (va_source_claim v)"
proof -
  have distinct: "distinct (map hr_operation_id (hn_completed n))"
    and branch: "(case find (\<lambda>r. hr_operation_id r = nh_operation_id h) (hn_completed n) of
        Some completed \<Rightarrow> validate_completed n h completed | None \<Rightarrow> validate_sessions fs n h) = Inr v"
    using assms(1,3) by (auto simp: validate_resource_handoff_def assert_handoff_snapshot_def Let_def sum_simps require_eq_Inr)
  obtain r where r: "find (\<lambda>r. hr_operation_id r = nh_operation_id h) (hn_completed n) = Some r"
    using assms(2) by (cases "find (\<lambda>r. hr_operation_id r = nh_operation_id h) (hn_completed n)")
      (auto simp: find_None_iff receipt_of_def)
  then have "r \<in> set (hn_completed n)" "hr_operation_id r = hr_operation_id (receipt_of h g)"
    by (auto simp: find_Some_iff receipt_of_def)
  with distinct assms(2) have "r = receipt_of h g" by (metis distinct_map inj_onD)
  with branch r show ?thesis
    by (auto simp: validate_completed_def receipt_of_def sum_simps)
qed

lemma retry_returns:
  assumes "normalize_handoff_options (re_sha env) options = Inr h" "receipt_of h g \<in> set (handoff_receipts (rd_events (rw_doc v)))"
    and "registry_handoff_resources env execution options v = (Inr r, v')"
  shows "ht_status r = HandoffIdempotent \<and> rw_doc v' = rw_doc v \<and> ht_source_retained r \<and>
    find_claim (sort_resource_claims (rd_claims (rw_doc v))) (nh_from h) (nh_resource h) = Inr (ht_source_claim r)"
proof -
  obtain n s u where read: "ha_read (registry_handoff_authority env) v = (Inr n, s)"
    and u: "validate_resource_handoff (re_sha env) (re_fs env) n options = Inr u"
    and rest: "va_status u \<noteq> ValidationAllowed \<Longrightarrow>
      r = result_from_validation u (va_generation u) (va_status u = ValidationIdempotent) None \<and> v' = s"
    using handoff_answered [OF assms(3) [unfolded registry_handoff_resources_def]] by blast
  have n: "n = handoff_view env (rw_doc v)" using handoff.read_law [OF read] by simp
  have "receipt_of h g \<in> set (hn_completed n)" using assms(2) n by (simp add: handoff_view_simps)
  from receipt_retries [OF assms(1) this u] rest handoff_read_doc [OF read] n show ?thesis
    by (simp add: result_from_validation_def handoff_view_simps)
qed

lemma transfer_receipt:
  assumes "registry_handoff_resources env execution options w = (Inr r, w')" "ht_status r = HandoffTransferred"
  obtains h g where "normalize_handoff_options (re_sha env) options = Inr h"
    "receipt_of h g \<in> set (handoff_receipts (rd_events (rw_doc w')))"
  by (rule registry_transfer [OF assms]) (auto simp: handoff_moves_def handoff_view_simps)

text \<open>C21: A transferred handoff is done for good: at any later moment, whatever else happened in the registry, a call with
  the same options that returns reports that it is idempotent and changes nothing.\<close>

theorem handoff_retry_changes_nothing:
  assumes "registry_handoff_resources env execution options w = (Inr r, w')" "ht_status r = HandoffTransferred"
    and "registry_run env w' v" "registry_handoff_resources env again options v = (Inr r', v')"
  shows "ht_status r' = HandoffIdempotent \<and> rw_doc v' = rw_doc v"
proof -
  obtain h g where h: "normalize_handoff_options (re_sha env) options = Inr h"
    and "receipt_of h g \<in> set (handoff_receipts (rd_events (rw_doc w')))"
    by (rule transfer_receipt [OF assms(1,2)])
  with run_advances [OF assms(3)] have "receipt_of h g \<in> set (handoff_receipts (rd_events (rw_doc v)))"
    by (auto simp: advances_def follows_def)
  from retry_returns [OF h this assms(4)] show ?thesis by simp
qed

theorem handoff_retry_changes_nothing_witness:
  "ht_status (result_from_validation pair_retry 4 True None) = HandoffIdempotent \<and>
   rw_doc (sample_world given_doc 17) = rw_doc (sample_world given_doc 14)"
  using handoff_retry_changes_nothing [OF pair_handoff pair_transferred rtranclp.rtrancl_refl pair_handoff_again] .

lemma source_owns_nothing:
  assumes "handoff_moves sha fs i (handoff_view env d) (handoff_view env n)" "hi_options i = options" "hi_normalized i = h"
    and "normalize_handoff_options sha options = Inr h"
  shows "find_claim (sort_resource_claims (rd_claims n)) (nh_from h) (nh_resource h) = Inr None"
proof -
  obtain source destination where justified: "handoff_justified fs (handoff_view env d) h source"
    and destination: "rc_session_id destination = nh_to h"
    and moved: "mset (rd_claims n) + {#source#} = mset (rd_claims d) + {#destination#}"
    by (rule moved_claims [OF assms])
  let ?own = "\<lambda>c. rc_session_id c = nh_from h \<and> rc_resource c = nh_resource h"
  have "nh_from h \<noteq> nh_to h" and only: "filter ?own (sort_resource_claims (rd_claims d)) = [source]"
    using justified by (simp_all add: handoff_justified_def handoff_view_simps)
  have "filter_mset ?own (mset (rd_claims d)) = mset (filter ?own (sort_resource_claims (rd_claims d)))"
    by (simp add: sort_resource_claims_def)
  then have one: "filter_mset ?own (mset (rd_claims d)) = {#source#}" by (simp only: only mset.simps add_0)
  have "filter_mset ?own (mset (rd_claims n) + {#source#}) = filter_mset ?own (mset (rd_claims d) + {#destination#})"
    by (simp only: moved)
  with one destination justified_owned(2,3) [OF justified] \<open>nh_from h \<noteq> nh_to h\<close>
  have "filter_mset ?own (mset (sort_resource_claims (rd_claims n))) = {#}"
    by (simp add: sort_resource_claims_def)
  then have "filter ?own (sort_resource_claims (rd_claims n)) = []"
    by (metis mset_filter mset_zero_iff)
  then show ?thesis by (simp add: find_claim_def)
qed

text \<open>The answer to a retry says that the source has retained its claim, also when the claim has been transferred and
  the same answer names no claim of the source.\<close>

theorem idempotent_retry_says_source_retained:
  assumes "registry_handoff_resources env execution options w = (Inr r, w')" "ht_status r = HandoffTransferred"
    and "registry_handoff_resources env again options w' = (Inr r', v')"
  shows "ht_source_claim r = None \<and> \<not> ht_source_retained r \<and> ht_source_claim r' = None \<and> ht_source_retained r'"
proof -
  obtain h i and s s' :: registry_world where h: "normalize_handoff_options (re_sha env) options = Inr h"
    and i: "hi_options i = options" "hi_normalized i = h"
    and moves: "handoff_moves (re_sha env) (re_fs env) i (handoff_view env (rw_doc s')) (handoff_view env (rw_doc w'))"
    by (rule registry_transfer [OF assms(1,2)])
  then have "receipt_of h (rd_generation (rw_doc w')) \<in> set (handoff_receipts (rd_events (rw_doc w')))"
    by (auto simp: handoff_moves_def handoff_view_simps)
  from retry_returns [OF h this assms(3)] source_owns_nothing [OF moves i h] have "ht_source_retained r' \<and> ht_source_claim r' = None"
    by simp
  moreover have "ht_source_claim r = None \<and> \<not> ht_source_retained r"
    using handoff.transfer_follows_drain [OF assms(1) [unfolded registry_handoff_resources_def] assms(2)] by blast
  ultimately show ?thesis by simp
qed

theorem idempotent_retry_says_source_retained_witness:
  "ht_source_claim (result_from_validation pair_retry 4 True None) = None \<and>
   ht_source_retained (result_from_validation pair_retry 4 True None)"
  using idempotent_retry_says_source_retained [OF pair_handoff pair_transferred pair_handoff_again] by blast

section \<open>Refusals\<close>

definition quiet_controller :: "registry_world handoff_controller \<Rightarrow> bool" where
  "quiet_controller execution \<longleftrightarrow>
     (\<forall>i p w. rw_doc (snd (hx_fence execution i p w)) = rw_doc w) \<and> (\<forall>f w. rw_doc (snd (hx_await execution f w)) = rw_doc w)"

lemma refused_attempt:
  assumes "\<And>t. re_unlock env t = None"
    and "try_call (commit_resource_handoff env i)
        (\<lambda>e. pure_call (Inr (commit_failure h g epoch source e)))
        (\<lambda>c. pure_call (Inr (if ok c then committed_result h g' epoch c else unresolved_result h g code epoch' source))) s = (Inr r, s')"
    and "ht_status r \<in> {HandoffBlocked, HandoffIdempotent}"
  shows "rw_doc s' = rw_doc s"
  using assms(2)
proof (rule try_callE)
  fix e s1
  assume commit: "commit_resource_handoff env i s = (Inl e, s1)"
    and "pure_call (Inr (commit_failure h g epoch source e)) s1 = (Inr r, s')"
  then have r: "r = commit_failure h g epoch source e" "s' = s1" by (simp_all add: pure_call_def)
  have "\<not> unproven e" using assms(3) unfolding r by (auto simp: commit_failure_def unproven_def)
  with holds_run [OF handoff_commit_error [OF assms(1)] refl commit] r(2) show ?thesis by simp
next
  fix c s1
  assume commit: "commit_resource_handoff env i s = (Inr c, s1)"
    and "pure_call (Inr (if ok c then committed_result h g' epoch c else unresolved_result h g code epoch' source)) s1 = (Inr r, s')"
  then have r: "hc_status c = ht_status r" "s' = s1"
    using assms(3) by (auto simp: pure_call_def split: if_split_asm)
  with holds_run [OF handoff_commit_holds refl commit] assms(3) show ?thesis by auto
qed

lemma refused_commit:
  assumes "\<And>t. re_unlock env t = None"
    and "commit_handoff (re_sha env) (re_fs env) (registry_handoff_authority env) options h g f q s = (Inr r, s')"
    and "ht_status r \<in> {HandoffBlocked, HandoffIdempotent}"
  shows "rw_doc s' = rw_doc s"
proof -
  obtain n s1 where read: "ha_read (registry_handoff_authority env) s = (Inr n, s1)"
    using assms(2) by (auto simp: commit_handoff_def Let_def elim!: bind_callE)
  have "rw_doc s' = rw_doc s1"
    using assms(2) read refused_attempt [OF assms(1) _ assms(3), where ok = "\<lambda>c. is_ok (assert_commit_result (re_sha env) c h g n)"]
    by (auto simp: commit_handoff_def Let_def pure_call_def registry_handoff_authority_def elim!: bind_callE split: if_split_asm)
  with handoff_read_doc [OF read] show ?thesis by simp
qed

lemma refused_drain:
  assumes "quiet_controller execution" "\<And>t. re_unlock env t = None"
    and "drain_handoff (re_sha env) (re_fs env) (registry_handoff_authority env) execution options h g source s = (Inr r, s')"
    and "ht_status r \<in> {HandoffBlocked, HandoffIdempotent}"
  shows "rw_doc s' = rw_doc s"
proof -
  obtain x s1 where fence: "hx_fence execution (nh_from h) (nh_operation_id h) s = (x, s1)" by fastforce
  have same: "rw_doc s1 = rw_doc s" "\<And>f y s2. hx_await execution f s1 = (y, s2) \<Longrightarrow> rw_doc s2 = rw_doc s1"
    using assms(1) fence unfolding quiet_controller_def by (metis snd_conv)+
  show ?thesis
  proof (cases "\<exists>f. x = Inr (Some f) \<and> is_fence_for f h")
    case True
    then obtain f where f: "x = Inr (Some f)" "is_fence_for f h" by blast
    obtain y s2 where await: "hx_await execution f s1 = (y, s2)" by fastforce
    have "s' = s2 \<or> (\<exists>q. commit_handoff (re_sha env) (re_fs env) (registry_handoff_authority env) options h g f q s2 = (Inr r, s'))"
      using assms(3) by (auto simp: drain_handoff_def try_call_def Let_def pure_call_def fence f await
          split: if_split_asm option.split_asm sum.split_asm)
    then have "rw_doc s' = rw_doc s2"
      by (elim disjE exE) (simp_all add: refused_commit [OF assms(2) _ assms(4)])
    with same(1) same(2) [OF await] show ?thesis by simp
  next
    case False
    with assms(3) same(1) show ?thesis
      by (auto simp: drain_handoff_def try_call_def Let_def pure_call_def fence split: option.split_asm sum.split_asm)
  qed
qed

text \<open>A handoff that reports anything but a transfer or an unresolved state has left the registry alone: the document is
  the one its executions' controller left.\<close>

theorem refused_handoff_keeps_registry:
  assumes "quiet_controller execution" "\<And>t. re_unlock env t = None"
    and "registry_handoff_resources env execution options w = (Inr r, w')" "ht_status r \<in> {HandoffBlocked, HandoffIdempotent}"
  shows "rw_doc w' = rw_doc w"
proof -
  obtain h n s v where read: "ha_read (registry_handoff_authority env) w = (Inr n, s)"
    and rest: "va_status v = ValidationAllowed \<and> drain_handoff (re_sha env) (re_fs env) (registry_handoff_authority env) execution
        options h (hn_generation n) (va_source_claim v) s = (Inr r, w') \<or>
      va_status v \<noteq> ValidationAllowed \<and>
        r = result_from_validation v (va_generation v) (va_status v = ValidationIdempotent) None \<and> w' = s"
    using handoff_answered [OF assms(3) [unfolded registry_handoff_resources_def]]
    by (elim exE conjE) (rule that)
  from rest have "rw_doc w' = rw_doc s"
    by (elim disjE conjE) (simp_all add: refused_drain [OF assms(1,2) _ assms(4)])
  with handoff_read_doc [OF read] show ?thesis by simp
qed

theorem refused_handoff_keeps_registry_witness:
  "rw_doc (sample_world given_doc 17) = rw_doc (sample_world given_doc 14)"
proof -
  have "quiet_controller pair_controller" by (simp add: quiet_controller_def pair_controller_def)
  moreover have "\<And>t. re_unlock pair_env t = None" by (simp add: pair_env_def sample_env_def)
  ultimately show ?thesis
    by (rule refused_handoff_keeps_registry [OF _ _ pair_handoff_again])
      (simp add: result_from_validation_def pair_retry_def)
qed

end
