(* ===== verification/ExecutionRecord.thy ===== *)
theory ExecutionRecord
  imports ProcessStat CanonicalJson CoordinationTransactions
begin

text \<open>
  src/src/domain/session-execution-record.ts: the durable record of one protected execution, its validation, its state
  transitions, the observation of the process it names, and the reservation that precedes a payload; with the identity of
  a cgroup scope from src/src/domain/cgroups-v2.ts. What a validator is given is a \<open>json\<close> value. Parameters are the hash
  \<open>sha\<close>, the working directory \<open>cwd\<close> of the process, and \<open>dates\<close>, which is \<open>Date.parse\<close> (its result on a text
  that is no ISO date is left to the implementation). Messages and details of errors are not kept.
\<close>

section \<open>Data\<close>

datatype session_execution_state = Starting | Attached | Running | Exited | Unresolved

definition SESSION_EXECUTION_STATES :: "session_execution_state list" where
  "SESSION_EXECUTION_STATES = [Starting, Attached, Running, Exited, Unresolved]"

fun execution_state_name :: "session_execution_state \<Rightarrow> string" where
  "execution_state_name Starting = ''starting''"
| "execution_state_name Attached = ''attached''"
| "execution_state_name Running = ''running''"
| "execution_state_name Exited = ''exited''"
| "execution_state_name Unresolved = ''unresolved''"

datatype release_outcome = ReleaseSucceeded | ReleaseFailed | ReleaseUnresolved

definition SESSION_EXECUTION_RELEASE_OUTCOMES :: "release_outcome list" where
  "SESSION_EXECUTION_RELEASE_OUTCOMES = [ReleaseSucceeded, ReleaseFailed, ReleaseUnresolved]"

fun release_outcome_name :: "release_outcome \<Rightarrow> string" where
  "release_outcome_name ReleaseSucceeded = ''succeeded''"
| "release_outcome_name ReleaseFailed = ''failed''"
| "release_outcome_name ReleaseUnresolved = ''unresolved''"

datatype runtime_epoch = EpochNumber int | EpochText string

record cgroup_identity =
  cx_session_id :: string
  cx_execution_id :: string

record release_attempt =
  ra_attempt :: int
  ra_outcome :: release_outcome
  ra_attempted_at :: string
  ra_reason :: "string option"

text \<open>The contract and the schema version are constants of every record.\<close>

record execution_record =
  er_session_id :: string
  er_execution_id :: string
  er_state :: session_execution_state
  er_profile_digest :: string
  er_filesystem_token :: string
  er_runtime_epoch :: runtime_epoch
  er_boot_id :: string
  er_supervisor_pid :: "int option"
  er_supervisor_starttime :: "string option"
  er_cgroup_identity :: cgroup_identity
  er_cgroup_root :: "string option"
  er_release_attempt :: "release_attempt option"
  er_created_at :: string
  er_updated_at :: string

record reservation_input =
  ri_session_id :: string
  ri_execution_id :: string
  ri_profile_digest :: string
  ri_filesystem_token :: string
  ri_runtime_epoch :: runtime_epoch
  ri_boot_id :: string
  ri_cgroup_identity :: "cgroup_identity option"
  ri_cgroup_root :: "string option"
  ri_now :: string

text \<open>A \<open>release_attempt\<close> of the input is absent, null, or evidence.\<close>

datatype attempt_input = AttemptAbsent | AttemptNull | AttemptGiven release_attempt

record execution_state_input =
  xi_state :: session_execution_state
  xi_now :: string
  xi_supervisor :: "(int \<times> string) option"
  xi_release_attempt :: attempt_input

datatype execution_failure = ExecutionFailure string | ExecutionThrow string

definition SESSION_EXECUTION_RECORD_CONTRACT_ID :: string where
  "SESSION_EXECUTION_RECORD_CONTRACT_ID = ''nawabari.session-execution-record.v1''"

definition SESSION_EXECUTION_RECORD_SCHEMA_VERSION :: int where
  "SESSION_EXECUTION_RECORD_SCHEMA_VERSION = 1"

definition PID_MAX :: int where "PID_MAX = 4194304"
definition MAX_RELEASE_REASON :: nat where "MAX_RELEASE_REASON = 1024"

section \<open>Paths and scopes of the unified hierarchy\<close>

definition CGROUPS_V2_ROOT :: string where "CGROUPS_V2_ROOT = ''/sys/fs/cgroup''"

text \<open>\<open>path.normalize\<close>\<close>

fun normalize_segments :: "bool \<Rightarrow> string list \<Rightarrow> string list \<Rightarrow> string list" where
  "normalize_segments up acc [] = rev acc"
| "normalize_segments up acc (s # ss) =
     (if s = [] \<or> s = ''.'' then normalize_segments up acc ss
      else if s = ''..'' then
        (case acc of
           [] \<Rightarrow> normalize_segments up (if up then [''..''] else []) ss
         | a # rest \<Rightarrow> normalize_segments up (if a = ''..'' then ''..'' # acc else rest) ss)
      else normalize_segments up (s # acc) ss)"

definition path_normalize :: "string \<Rightarrow> string" where
  "path_normalize s =
     (let absolute = prefix ''/'' s; trailing = suffix ''/'' s;
          body = join_with CHR ''/'' (normalize_segments (\<not> absolute) [] (split_on CHR ''/'' s)) in
      if body = [] then (if absolute then ''/'' else if trailing then ''./'' else ''.'')
      else (if absolute then CHR ''/'' # body else body) @ (if trailing then ''/'' else []))"

definition scope_within :: "abs_path \<Rightarrow> string \<Rightarrow> string \<Rightarrow> bool" where
  "scope_within cwd root candidate \<longleftrightarrow>
     (let relative = path_relative (path_of_string cwd root) (path_of_string cwd candidate) in
      relative \<noteq> [] \<and> hd relative \<noteq> ''..'')"

definition is_canonical_managed_cgroup_root :: "abs_path \<Rightarrow> string \<Rightarrow> bool" where
  "is_canonical_managed_cgroup_root cwd s \<longleftrightarrow>
     length s \<le> 4096 \<and> NUL \<notin> set s \<and> path_normalize s = s \<and> scope_within cwd CGROUPS_V2_ROOT s"

definition cgroup_identity_ok :: "cgroup_identity \<Rightarrow> bool" where
  "cgroup_identity_ok i \<longleftrightarrow>
     cx_session_id i \<noteq> [] \<and> length (cx_session_id i) \<le> 256 \<and> NUL \<notin> set (cx_session_id i) \<and>
     cx_execution_id i \<noteq> [] \<and> length (cx_execution_id i) \<le> 256 \<and> NUL \<notin> set (cx_execution_id i)"

definition derive_cgroup_scope_name :: "(string \<Rightarrow> string) \<Rightarrow> cgroup_identity \<Rightarrow> execution_failure + string" where
  "derive_cgroup_scope_name sha i =
     (if \<not> cgroup_identity_ok i then Inl (ExecutionThrow ''SANDBOX_CGROUP_SETUP_FAILED'')
      else Inr (''nawabari-'' @ take 48 (sha (cx_session_id i @ NUL # cx_execution_id i))))"

section \<open>Validation\<close>

abbreviation execution_invalid :: "execution_failure" where
  "execution_invalid \<equiv> ExecutionFailure ''INVALID_ARGUMENT''"

definition safe_unit :: "char \<Rightarrow> bool" where
  "safe_unit c \<longleftrightarrow> (32 :: nat) \<le> of_char c \<and> of_char c \<noteq> (127 :: nat)"

definition is_safe_text :: "nat \<Rightarrow> string \<Rightarrow> bool" where
  "is_safe_text limit s \<longleftrightarrow> s \<noteq> [] \<and> length s \<le> limit \<and> list_all safe_unit s"

definition is_pid :: "int \<Rightarrow> bool" where
  "is_pid n \<longleftrightarrow> is_safe_integer n \<and> 1 \<le> n \<and> n \<le> PID_MAX"

definition is_starttime :: "string \<Rightarrow> bool" where
  "is_starttime s \<longleftrightarrow> s \<noteq> [] \<and> list_all is_digit s \<and> length s \<le> 64"

definition is_parsed_timestamp :: "(string \<Rightarrow> int option) \<Rightarrow> string \<Rightarrow> bool" where
  "is_parsed_timestamp dates s \<longleftrightarrow> length s \<le> 64 \<and> dates s \<noteq> None"

definition parsed_before :: "(string \<Rightarrow> int option) \<Rightarrow> string \<Rightarrow> string \<Rightarrow> bool" where
  "parsed_before dates s t \<longleftrightarrow> (case (dates s, dates t) of (Some a, Some b) \<Rightarrow> a < b | _ \<Rightarrow> False)"

definition valid_runtime_epoch :: "runtime_epoch \<Rightarrow> bool" where
  "valid_runtime_epoch e \<longleftrightarrow> (case e of EpochNumber n \<Rightarrow> is_safe_integer n \<and> 0 \<le> n | EpochText s \<Rightarrow> is_safe_text 256 s)"

definition is_object :: "json \<Rightarrow> bool" where
  "is_object v \<longleftrightarrow> (case v of JObj _ \<Rightarrow> True | _ \<Rightarrow> False)"

definition text_field :: "nat \<Rightarrow> json \<Rightarrow> execution_failure + string" where
  "text_field limit v =
     (case v of JStr s \<Rightarrow> if is_safe_text limit s then Inr s else Inl execution_invalid | _ \<Rightarrow> Inl execution_invalid)"

definition nullable_field :: "(json \<Rightarrow> 'a option) \<Rightarrow> json \<Rightarrow> execution_failure + 'a option" where
  "nullable_field read v =
     (if v = JNull then Inr None else case read v of None \<Rightarrow> Inl execution_invalid | Some a \<Rightarrow> Inr (Some a))"

definition validate_identity :: "json \<Rightarrow> execution_failure + cgroup_identity" where
  "validate_identity v =
     bind_sum (require (is_object v) execution_invalid) (\<lambda>_.
     bind_sum (text_field 512 (jget v ''session_id'')) (\<lambda>s.
     bind_sum (text_field 512 (jget v ''execution_id'')) (\<lambda>e.
     Inr \<lparr>cx_session_id = normalize_nfc s, cx_execution_id = normalize_nfc e\<rparr>)))"

definition named :: "('a \<Rightarrow> string) \<Rightarrow> 'a list \<Rightarrow> json \<Rightarrow> 'a option" where
  "named name xs v = (case v of JStr s \<Rightarrow> find (\<lambda>x. name x = s) xs | _ \<Rightarrow> None)"

definition timestamp_field :: "(string \<Rightarrow> int option) \<Rightarrow> json \<Rightarrow> execution_failure + string" where
  "timestamp_field dates v =
     (case v of JStr s \<Rightarrow> if is_parsed_timestamp dates s then Inr s else Inl execution_invalid | _ \<Rightarrow> Inl execution_invalid)"

definition validate_release_attempt ::
  "(string \<Rightarrow> int option) \<Rightarrow> json \<Rightarrow> execution_failure + release_attempt option" where
  "validate_release_attempt dates v =
     (if v = JNull \<or> v = JUndefined then Inr None
      else
      bind_sum (require (is_object v) execution_invalid) (\<lambda>_.
      case (jget v ''attempt'', named release_outcome_name SESSION_EXECUTION_RELEASE_OUTCOMES (jget v ''outcome'')) of
        (JNum n, Some outcome) \<Rightarrow>
          bind_sum (require (is_safe_integer n \<and> 1 \<le> n) execution_invalid) (\<lambda>_.
          bind_sum (timestamp_field dates (jget v ''attempted_at'')) (\<lambda>at.
          bind_sum (if jget v ''reason'' = JUndefined then Inr None
            else bind_sum (text_field MAX_RELEASE_REASON (jget v ''reason'')) (\<lambda>r. Inr (Some (normalize_nfc r)))) (\<lambda>reason.
          Inr (Some \<lparr>ra_attempt = n, ra_outcome = outcome, ra_attempted_at = at, ra_reason = reason\<rparr>))))
      | _ \<Rightarrow> Inl execution_invalid))"

definition EXECUTION_RECORD_KEYS :: "string list" where
  "EXECUTION_RECORD_KEYS =
     [''contract_id'', ''schema_version'', ''session_id'', ''execution_id'', ''state'', ''profile_digest'', ''filesystem_token'',
      ''runtime_epoch'', ''boot_id'', ''supervisor_pid'', ''supervisor_starttime'', ''cgroup_identity'', ''cgroup_root'',
      ''release_attempt'', ''created_at'', ''updated_at'']"

definition epoch_of_json :: "json \<Rightarrow> execution_failure + runtime_epoch" where
  "epoch_of_json v =
     (case v of
        JNum n \<Rightarrow> if valid_runtime_epoch (EpochNumber n) then Inr (EpochNumber n) else Inl execution_invalid
      | JStr s \<Rightarrow> if valid_runtime_epoch (EpochText s) then Inr (EpochText (normalize_nfc s)) else Inl execution_invalid
      | _ \<Rightarrow> Inl execution_invalid)"

definition pid_of_json :: "json \<Rightarrow> int option" where
  "pid_of_json v = (case v of JNum n \<Rightarrow> if is_pid n then Some n else None | _ \<Rightarrow> None)"

definition starttime_of_json :: "json \<Rightarrow> string option" where
  "starttime_of_json v = (case v of JStr s \<Rightarrow> if is_starttime s then Some s else None | _ \<Rightarrow> None)"

definition cgroup_root_of_json :: "abs_path \<Rightarrow> json \<Rightarrow> string option" where
  "cgroup_root_of_json cwd v = (case v of JStr s \<Rightarrow> if is_canonical_managed_cgroup_root cwd s then Some s else None | _ \<Rightarrow> None)"

text \<open>Every refusal is the same error, so only which values are accepted depends on the order of the checks.\<close>

definition validate_record_shape ::
  "abs_path \<Rightarrow> (string \<Rightarrow> int option) \<Rightarrow> json \<Rightarrow> execution_failure + execution_record" where
  "validate_record_shape cwd dates v =
     (case v of
        JObj entries \<Rightarrow>
          bind_sum (require (list_all (\<lambda>e. fst e \<in> set EXECUTION_RECORD_KEYS) entries) execution_invalid) (\<lambda>_.
          bind_sum (require (jget v ''contract_id'' = JStr SESSION_EXECUTION_RECORD_CONTRACT_ID) execution_invalid) (\<lambda>_.
          bind_sum (require (jget v ''schema_version'' = JNum SESSION_EXECUTION_RECORD_SCHEMA_VERSION) execution_invalid) (\<lambda>_.
          bind_sum (text_field 512 (jget v ''session_id'')) (\<lambda>session_id.
          bind_sum (text_field 512 (jget v ''execution_id'')) (\<lambda>execution_id.
          case named execution_state_name SESSION_EXECUTION_STATES (jget v ''state'') of
            None \<Rightarrow> Inl execution_invalid
          | Some state \<Rightarrow>
          bind_sum (text_field 256 (jget v ''profile_digest'')) (\<lambda>profile.
          bind_sum (text_field 512 (jget v ''filesystem_token'')) (\<lambda>token.
          bind_sum (epoch_of_json (jget v ''runtime_epoch'')) (\<lambda>epoch.
          bind_sum (text_field 256 (jget v ''boot_id'')) (\<lambda>boot.
          bind_sum (nullable_field pid_of_json (jget v ''supervisor_pid'')) (\<lambda>pid.
          bind_sum (nullable_field starttime_of_json (jget v ''supervisor_starttime'')) (\<lambda>starttime.
          bind_sum (require ((pid = None) = (starttime = None)) execution_invalid) (\<lambda>_.
          bind_sum (timestamp_field dates (jget v ''created_at'')) (\<lambda>created.
          bind_sum (timestamp_field dates (jget v ''updated_at'')) (\<lambda>updated.
          bind_sum (require (\<not> parsed_before dates updated created) execution_invalid) (\<lambda>_.
          bind_sum (validate_identity (jget v ''cgroup_identity'')) (\<lambda>identity.
          bind_sum (nullable_field (cgroup_root_of_json cwd)
            (if jget v ''cgroup_root'' = JUndefined then JNull else jget v ''cgroup_root'')) (\<lambda>root.
          bind_sum (require (cx_session_id identity = session_id \<and> cx_execution_id identity = execution_id) execution_invalid) (\<lambda>_.
          bind_sum (validate_release_attempt dates (jget v ''release_attempt'')) (\<lambda>attempt.
          Inr \<lparr>er_session_id = normalize_nfc session_id, er_execution_id = normalize_nfc execution_id, er_state = state,
               er_profile_digest = normalize_nfc profile, er_filesystem_token = normalize_nfc token, er_runtime_epoch = epoch,
               er_boot_id = normalize_nfc boot, er_supervisor_pid = pid, er_supervisor_starttime = starttime,
               er_cgroup_identity = identity, er_cgroup_root = root, er_release_attempt = attempt, er_created_at = created,
               er_updated_at = updated\<rparr>)))))))))))))))))))
      | _ \<Rightarrow> Inl execution_invalid)"

section \<open>The persisted shape\<close>

definition json_option :: "('a \<Rightarrow> json) \<Rightarrow> 'a option \<Rightarrow> json" where
  "json_option f x = (case x of None \<Rightarrow> JNull | Some a \<Rightarrow> f a)"

definition epoch_json :: "runtime_epoch \<Rightarrow> json" where
  "epoch_json e = (case e of EpochNumber n \<Rightarrow> JNum n | EpochText s \<Rightarrow> JStr s)"

definition release_attempt_json :: "release_attempt \<Rightarrow> json" where
  "release_attempt_json a =
     JObj ([(''attempt'', JNum (ra_attempt a)), (''outcome'', JStr (release_outcome_name (ra_outcome a))),
       (''attempted_at'', JStr (ra_attempted_at a))] @
       (case ra_reason a of None \<Rightarrow> [] | Some r \<Rightarrow> [(''reason'', JStr r)]))"

definition execution_record_json :: "execution_record \<Rightarrow> json" where
  "execution_record_json r =
     JObj [(''contract_id'', JStr SESSION_EXECUTION_RECORD_CONTRACT_ID),
       (''schema_version'', JNum SESSION_EXECUTION_RECORD_SCHEMA_VERSION), (''session_id'', JStr (er_session_id r)),
       (''execution_id'', JStr (er_execution_id r)), (''state'', JStr (execution_state_name (er_state r))),
       (''profile_digest'', JStr (er_profile_digest r)), (''filesystem_token'', JStr (er_filesystem_token r)),
       (''runtime_epoch'', epoch_json (er_runtime_epoch r)), (''boot_id'', JStr (er_boot_id r)),
       (''supervisor_pid'', json_option JNum (er_supervisor_pid r)),
       (''supervisor_starttime'', json_option JStr (er_supervisor_starttime r)),
       (''cgroup_identity'', JObj [(''session_id'', JStr (cx_session_id (er_cgroup_identity r))),
         (''execution_id'', JStr (cx_execution_id (er_cgroup_identity r)))]),
       (''cgroup_root'', json_option JStr (er_cgroup_root r)),
       (''release_attempt'', json_option release_attempt_json (er_release_attempt r)),
       (''created_at'', JStr (er_created_at r)), (''updated_at'', JStr (er_updated_at r))]"

definition to_persisted_session_execution_record ::
  "abs_path \<Rightarrow> (string \<Rightarrow> int option) \<Rightarrow> execution_record \<Rightarrow> execution_failure + json" where
  "to_persisted_session_execution_record cwd dates r =
     (case validate_record_shape cwd dates (execution_record_json r) of
        Inl (ExecutionFailure code) \<Rightarrow> Inl (ExecutionThrow code)
      | Inl e \<Rightarrow> Inl e
      | Inr checked \<Rightarrow> Inr (execution_record_json checked))"

section \<open>Reservation and transitions\<close>

definition reserve_execution ::
  "abs_path \<Rightarrow> (string \<Rightarrow> int option) \<Rightarrow> reservation_input \<Rightarrow> execution_failure + execution_record" where
  "reserve_execution cwd dates i =
     (let check = (\<lambda>p. require p execution_invalid);
          identity = (case ri_cgroup_identity i of Some x \<Rightarrow> x
            | None \<Rightarrow> \<lparr>cx_session_id = ri_session_id i, cx_execution_id = ri_execution_id i\<rparr>) in
      bind_sum (check (is_safe_text 512 (ri_session_id i))) (\<lambda>_.
      bind_sum (check (is_safe_text 256 (ri_profile_digest i))) (\<lambda>_.
      bind_sum (check (is_safe_text 512 (ri_filesystem_token i))) (\<lambda>_.
      bind_sum (check (valid_runtime_epoch (ri_runtime_epoch i))) (\<lambda>_.
      bind_sum (check (is_safe_text 256 (ri_boot_id i))) (\<lambda>_.
      bind_sum (check (is_safe_text 512 (ri_execution_id i))) (\<lambda>_.
      bind_sum (validate_identity (JObj [(''session_id'', JStr (cx_session_id identity)), (''execution_id'', JStr (cx_execution_id identity))])) (\<lambda>identity.
      bind_sum (check (case ri_cgroup_root i of None \<Rightarrow> True | Some root \<Rightarrow> is_canonical_managed_cgroup_root cwd root)) (\<lambda>_.
      bind_sum (check (cx_session_id identity = ri_session_id i \<and> cx_execution_id identity = ri_execution_id i)) (\<lambda>_.
      bind_sum (check (is_parsed_timestamp dates (ri_now i))) (\<lambda>_.
      Inr \<lparr>er_session_id = normalize_nfc (ri_session_id i), er_execution_id = normalize_nfc (ri_execution_id i),
           er_state = Starting, er_profile_digest = normalize_nfc (ri_profile_digest i),
           er_filesystem_token = normalize_nfc (ri_filesystem_token i),
           er_runtime_epoch = (case ri_runtime_epoch i of EpochNumber n \<Rightarrow> EpochNumber n | EpochText s \<Rightarrow> EpochText (normalize_nfc s)),
           er_boot_id = normalize_nfc (ri_boot_id i), er_supervisor_pid = None, er_supervisor_starttime = None,
           er_cgroup_identity = identity, er_cgroup_root = ri_cgroup_root i, er_release_attempt = None,
           er_created_at = ri_now i, er_updated_at = ri_now i\<rparr>)))))))))))"

fun ALLOWED_TRANSITIONS :: "session_execution_state \<Rightarrow> session_execution_state list" where
  "ALLOWED_TRANSITIONS Starting = [Starting, Attached, Running, Exited, Unresolved]"
| "ALLOWED_TRANSITIONS Attached = [Attached, Running, Exited, Unresolved]"
| "ALLOWED_TRANSITIONS Running = [Running, Exited, Unresolved]"
| "ALLOWED_TRANSITIONS Exited = [Exited]"
| "ALLOWED_TRANSITIONS Unresolved = [Unresolved, Exited]"

text \<open>The identity of the supervisor after the transition\<close>

definition next_supervisor ::
  "execution_record \<Rightarrow> execution_state_input \<Rightarrow> execution_failure + int option \<times> string option" where
  "next_supervisor r i =
     (let current = (er_supervisor_pid r, er_supervisor_starttime r) in
      case xi_supervisor i of
        None \<Rightarrow> Inr current
      | Some (pid, starttime) \<Rightarrow>
          bind_sum (require (is_pid pid \<and> is_starttime starttime) execution_invalid) (\<lambda>_.
          if er_supervisor_pid r \<noteq> None \<and> er_supervisor_starttime r \<noteq> None
          then bind_sum (require (Some pid = er_supervisor_pid r \<and> Some starttime = er_supervisor_starttime r) execution_invalid)
            (\<lambda>_. Inr current)
          else bind_sum (require (er_state r = Starting \<and> xi_state i = Attached) execution_invalid) (\<lambda>_.
            Inr (Some pid, Some starttime))))"

definition next_release_attempt ::
  "(string \<Rightarrow> int option) \<Rightarrow> execution_record \<Rightarrow> attempt_input \<Rightarrow> execution_failure + release_attempt option" where
  "next_release_attempt dates r input =
     bind_sum (case input of
         AttemptAbsent \<Rightarrow> Inr (er_release_attempt r)
       | AttemptNull \<Rightarrow> validate_release_attempt dates JNull
       | AttemptGiven a \<Rightarrow> validate_release_attempt dates (release_attempt_json a)) (\<lambda>attempt.
     bind_sum (require (\<not> (input = AttemptNull \<and> er_release_attempt r \<noteq> None)) execution_invalid) (\<lambda>_.
     bind_sum (require (case (attempt, er_release_attempt r) of
         (Some a, Some b) \<Rightarrow> \<not> ra_attempt a < ra_attempt b | _ \<Rightarrow> True) execution_invalid) (\<lambda>_.
     Inr attempt)))"

definition record_execution_state ::
  "abs_path \<Rightarrow> (string \<Rightarrow> int option) \<Rightarrow> execution_record \<Rightarrow> execution_state_input \<Rightarrow> execution_failure + execution_record" where
  "record_execution_state cwd dates r i =
     (let check = (\<lambda>p. require p execution_invalid) in
      bind_sum (validate_record_shape cwd dates (execution_record_json r)) (\<lambda>current.
      bind_sum (check (xi_state i \<in> set (ALLOWED_TRANSITIONS (er_state current)))) (\<lambda>_.
      bind_sum (check (is_parsed_timestamp dates (xi_now i) \<and> \<not> parsed_before dates (xi_now i) (er_created_at current))) (\<lambda>_.
      bind_sum (next_supervisor current i) (\<lambda>(pid, starttime).
      bind_sum (check (\<not> (xi_state i \<in> {Attached, Running} \<and> pid = None))) (\<lambda>_.
      bind_sum (check (\<not> (xi_state i = Starting \<and> xi_supervisor i \<noteq> None))) (\<lambda>_.
      bind_sum (next_release_attempt dates current (xi_release_attempt i)) (\<lambda>attempt.
      Inr (current\<lparr>er_state := xi_state i, er_supervisor_pid := pid, er_supervisor_starttime := starttime,
        er_release_attempt := attempt, er_updated_at := xi_now i\<rparr>)))))))))"

section \<open>Observation of the process\<close>

text \<open>What a read of \<open>/proc\<close> gives: a text, an error ENOENT, or another error\<close>

datatype proc_read = ProcText string | ProcMissing | ProcError

record identity_reader =
  ir_boot_id :: proc_read
  ir_starttime :: "int \<Rightarrow> proc_read"
  ir_cgroup :: "int \<Rightarrow> proc_read"

text \<open>\<open>raw.split(/\r?\n/)\<close>: a carriage return before a line feed belongs to the separator\<close>

definition split_lines :: "string \<Rightarrow> string list" where
  "split_lines raw =
     (let parts = split_on (CHR 0x0A) raw in
      map (\<lambda>l. if suffix [CHR 0x0D] l then butlast l else l) (butlast parts) @ [last parts])"

text \<open>The reader of a process on Linux, over what reading a file gives; an error thrown by hand has no code.\<close>

definition parse_process_starttime :: "string \<Rightarrow> string option" where
  "parse_process_starttime raw =
     (case after_last_paren raw of
        None \<Rightarrow> None
      | Some rest \<Rightarrow>
          let fields = split_white rest in
          if 19 < length fields \<and> is_starttime (fields ! 19) then Some (fields ! 19) else None)"

definition read_boot_id :: "(string \<Rightarrow> proc_read) \<Rightarrow> proc_read" where
  "read_boot_id file =
     (case file ''/proc/sys/kernel/random/boot_id'' of
        ProcText raw \<Rightarrow> let value = trim_white raw in if is_safe_text 256 value then ProcText value else ProcError
      | other \<Rightarrow> other)"

definition read_process_starttime :: "(string \<Rightarrow> proc_read) \<Rightarrow> int \<Rightarrow> proc_read" where
  "read_process_starttime file pid =
     (case file (''/proc/'' @ decimal (nat pid) @ ''/stat'') of
        ProcText raw \<Rightarrow> (case parse_process_starttime raw of Some value \<Rightarrow> ProcText value | None \<Rightarrow> ProcError)
      | other \<Rightarrow> other)"

definition read_process_cgroup :: "(string \<Rightarrow> proc_read) \<Rightarrow> int \<Rightarrow> proc_read" where
  "read_process_cgroup file pid =
     (case file (''/proc/'' @ decimal (nat pid) @ ''/cgroup'') of
        ProcText raw \<Rightarrow>
          (case find (\<lambda>l. prefix ''0::'' l) (split_lines raw) of
             Some line \<Rightarrow> let unified = drop 3 line in if unified = [] \<or> NUL \<in> set unified then ProcError else ProcText unified
           | None \<Rightarrow> ProcError)
      | other \<Rightarrow> other)"

definition native_identity_reader :: "(string \<Rightarrow> proc_read) \<Rightarrow> identity_reader" where
  "native_identity_reader file =
     \<lparr>ir_boot_id = read_boot_id file, ir_starttime = read_process_starttime file, ir_cgroup = read_process_cgroup file\<rparr>"

datatype identity_classification = Matched | PidReused | DifferentBoot | DifferentCgroup | IdentityUnresolved

record identity_observation =
  io_session_id :: string
  io_execution_id :: string
  io_classification :: identity_classification
  io_matches :: bool
  io_active :: bool
  io_expected_pid :: int
  io_expected_starttime :: string
  io_expected_boot_id :: string
  io_expected_cgroup_name :: string
  io_observed :: "(int \<times> string \<times> string \<times> string) option"

definition cgroup_path_matches :: "string \<Rightarrow> string option \<Rightarrow> string \<Rightarrow> bool" where
  "cgroup_path_matches cgroup_path root expected \<longleftrightarrow>
     is_safe_text 4096 cgroup_path \<and>
     (case root of None \<Rightarrow> False
      | Some r \<Rightarrow> cgroup_path = drop (length CGROUPS_V2_ROOT) r @ ''/nawabari/'' @ expected)"

definition identity_unresolved :: "execution_record \<Rightarrow> int \<Rightarrow> string \<Rightarrow> string \<Rightarrow> identity_observation" where
  "identity_unresolved r pid starttime scope =
     \<lparr>io_session_id = er_session_id r, io_execution_id = er_execution_id r, io_classification = IdentityUnresolved,
      io_matches = False, io_active = False, io_expected_pid = pid, io_expected_starttime = starttime,
      io_expected_boot_id = er_boot_id r, io_expected_cgroup_name = scope, io_observed = None\<rparr>"

definition classify_identity ::
  "execution_record \<Rightarrow> int \<Rightarrow> string \<Rightarrow> string \<Rightarrow> string \<Rightarrow> string \<Rightarrow> string \<Rightarrow> identity_observation" where
  "classify_identity r pid expected_starttime scope boot starttime cgroup_path =
     (let classification =
            (if boot \<noteq> er_boot_id r then DifferentBoot
             else if starttime \<noteq> expected_starttime then PidReused
             else if \<not> cgroup_path_matches cgroup_path (er_cgroup_root r) scope then DifferentCgroup
             else Matched) in
      (identity_unresolved r pid expected_starttime scope)
        \<lparr>io_classification := classification, io_matches := (classification = Matched),
         io_active := (classification = Matched \<and> er_state r \<in> {Attached, Running}),
         io_observed := Some (pid, starttime, boot, cgroup_path)\<rparr>)"

definition observe_execution_identity ::
  "(string \<Rightarrow> string) \<Rightarrow> abs_path \<Rightarrow> (string \<Rightarrow> int option) \<Rightarrow> identity_reader \<Rightarrow> execution_record \<Rightarrow>
   execution_failure + identity_observation" where
  "observe_execution_identity sha cwd dates reader record =
     (let unavailable = ExecutionFailure ''PHYSICAL_OBSERVATION_UNAVAILABLE'' in
      bind_sum (validate_record_shape cwd dates (execution_record_json record)) (\<lambda>r.
      bind_sum (derive_cgroup_scope_name sha (er_cgroup_identity r)) (\<lambda>scope.
      case (er_cgroup_root r, er_supervisor_pid r, er_supervisor_starttime r) of
        (Some root, Some pid, Some starttime) \<Rightarrow>
          (case ir_boot_id reader of
             ProcText boot \<Rightarrow>
               if \<not> is_safe_text 256 boot then Inl unavailable
               else
                 (case (ir_starttime reader pid, ir_cgroup reader pid) of
                    (ProcText started, ProcText cgroup_path) \<Rightarrow>
                      if \<not> (is_starttime started \<and> is_safe_text 4096 cgroup_path) then Inl unavailable
                      else Inr (classify_identity r pid starttime scope boot started cgroup_path)
                  | (first, second) \<Rightarrow>
                      if er_state r \<in> {Exited, Unresolved} \<and>
                         (case first of ProcText _ \<Rightarrow> second = ProcMissing | _ \<Rightarrow> first = ProcMissing)
                      then Inr (identity_unresolved r pid starttime scope) else Inl unavailable)
           | _ \<Rightarrow> Inl unavailable)
      | _ \<Rightarrow> Inr (identity_unresolved r 0 [] scope))))"

text \<open>\<open>reserveExecutionBeforePayload\<close>: the writer may fail, the payload may fail, and both act on a state of their own.\<close>

definition reserve_execution_before_payload ::
  "abs_path \<Rightarrow> (string \<Rightarrow> int option) \<Rightarrow> (json \<Rightarrow> 's \<Rightarrow> bool \<times> 's) \<Rightarrow> (execution_record \<Rightarrow> 's \<Rightarrow> 'a option \<times> 's) \<Rightarrow>
   reservation_input \<Rightarrow> 's \<Rightarrow> (execution_failure + execution_record \<times> 'a) \<times> 's" where
  "reserve_execution_before_payload cwd dates persist start input s =
     (case reserve_execution cwd dates input of
        Inl e \<Rightarrow> (Inl e, s)
      | Inr reserved \<Rightarrow>
          let uncertain = ExecutionFailure ''REGISTRY_DURABILITY_UNCERTAIN'' in
          (case to_persisted_session_execution_record cwd dates reserved of
             Inl _ \<Rightarrow> (Inl uncertain, s)
           | Inr persisted \<Rightarrow>
               (case persist persisted s of
                  (False, s1) \<Rightarrow> (Inl uncertain, s1)
                | (True, s1) \<Rightarrow>
                    (case start reserved s1 of
                       (None, s2) \<Rightarrow> (Inl (ExecutionFailure ''SANDBOX_EXECUTION_FAILED''), s2)
                     | (Some payload, s2) \<Rightarrow> (Inr (reserved, payload), s2)))))"

section \<open>The shape of a record\<close>

definition release_attempt_ok :: "(string \<Rightarrow> int option) \<Rightarrow> release_attempt \<Rightarrow> bool" where
  "release_attempt_ok dates a \<longleftrightarrow>
     is_safe_integer (ra_attempt a) \<and> 1 \<le> ra_attempt a \<and> is_parsed_timestamp dates (ra_attempted_at a) \<and>
     (case ra_reason a of None \<Rightarrow> True | Some r \<Rightarrow> is_safe_text MAX_RELEASE_REASON r)"

definition execution_record_ok :: "abs_path \<Rightarrow> (string \<Rightarrow> int option) \<Rightarrow> execution_record \<Rightarrow> bool" where
  "execution_record_ok cwd dates r \<longleftrightarrow>
     is_safe_text 512 (er_session_id r) \<and> is_safe_text 512 (er_execution_id r) \<and> is_safe_text 256 (er_profile_digest r) \<and>
     is_safe_text 512 (er_filesystem_token r) \<and> valid_runtime_epoch (er_runtime_epoch r) \<and> is_safe_text 256 (er_boot_id r) \<and>
     (case er_supervisor_pid r of None \<Rightarrow> True | Some p \<Rightarrow> is_pid p) \<and>
     (case er_supervisor_starttime r of None \<Rightarrow> True | Some t \<Rightarrow> is_starttime t) \<and>
     (er_supervisor_pid r = None) = (er_supervisor_starttime r = None) \<and>
     is_parsed_timestamp dates (er_created_at r) \<and> is_parsed_timestamp dates (er_updated_at r) \<and>
     \<not> parsed_before dates (er_updated_at r) (er_created_at r) \<and>
     er_cgroup_identity r = \<lparr>cx_session_id = er_session_id r, cx_execution_id = er_execution_id r\<rparr> \<and>
     (case er_cgroup_root r of None \<Rightarrow> True | Some root \<Rightarrow> is_canonical_managed_cgroup_root cwd root) \<and>
     (case er_release_attempt r of None \<Rightarrow> True | Some a \<Rightarrow> release_attempt_ok dates a)"

lemma jget_simps [simp]: "jget (JObj []) k = JUndefined"
  "jget (JObj ((k, v) # es)) k' = (if k = k' then v else jget (JObj es) k')"
  by (simp_all add: jget_def)

lemma named_state [simp]: "named execution_state_name SESSION_EXECUTION_STATES (JStr (execution_state_name s)) = Some s"
  by (cases s) (simp_all add: named_def SESSION_EXECUTION_STATES_def)

lemma named_outcome [simp]:
  "named release_outcome_name SESSION_EXECUTION_RELEASE_OUTCOMES (JStr (release_outcome_name s)) = Some s"
  by (cases s) (simp_all add: named_def SESSION_EXECUTION_RELEASE_OUTCOMES_def)

text \<open>Each field accepts what the shape allows, and every refusal is the same.\<close>

abbreviation accept :: "bool \<Rightarrow> 'a \<Rightarrow> execution_failure + 'a" where
  "accept p a \<equiv> (if p then Inr a else Inl execution_invalid)"

lemma accept_simps:
  "bind_sum (accept p a) f = (if p then f a else Inl execution_invalid)"
  "(if p then accept q b else Inl execution_invalid) = accept (p \<and> q) b"
  "require p execution_invalid = accept p ()"
  by (simp_all add: require_def)

lemma record_field_simps [simp]:
  "text_field n (JStr s) = accept (is_safe_text n s) s"
  "timestamp_field dates (JStr s) = accept (is_parsed_timestamp dates s) s"
  "epoch_of_json (epoch_json e) = accept (valid_runtime_epoch e) e"
  "nullable_field pid_of_json (json_option JNum p) = accept (case p of None \<Rightarrow> True | Some n \<Rightarrow> is_pid n) p"
  "nullable_field starttime_of_json (json_option JStr t) = accept (case t of None \<Rightarrow> True | Some s \<Rightarrow> is_starttime s) t"
  "nullable_field (cgroup_root_of_json cwd) (json_option JStr t) =
     accept (case t of None \<Rightarrow> True | Some s \<Rightarrow> is_canonical_managed_cgroup_root cwd s) t"
  "json_option f x = JUndefined \<longleftrightarrow> (\<exists>a. x = Some a \<and> f a = JUndefined)"
  by (auto simp: text_field_def timestamp_field_def epoch_of_json_def epoch_json_def nullable_field_def pid_of_json_def
      starttime_of_json_def cgroup_root_of_json_def json_option_def normalize_nfc_def
      split: runtime_epoch.split option.split)

lemma validate_attempt_json [simp]:
  "validate_release_attempt dates (release_attempt_json a) = accept (release_attempt_ok dates a) (Some a)"
  by (cases a; cases "ra_reason a") (auto simp: validate_release_attempt_def release_attempt_json_def release_attempt_ok_def is_object_def
      accept_simps normalize_nfc_def)

lemma validate_attempt_option [simp]:
  "validate_release_attempt dates (json_option release_attempt_json x) =
     accept (case x of None \<Rightarrow> True | Some a \<Rightarrow> release_attempt_ok dates a) x"
  by (cases x) (simp_all add: json_option_def, simp add: validate_release_attempt_def)

lemma validate_identity_json [simp]:
  "validate_identity (JObj [(''session_id'', JStr s), (''execution_id'', JStr e)]) =
     accept (is_safe_text 512 s \<and> is_safe_text 512 e) \<lparr>cx_session_id = s, cx_execution_id = e\<rparr>"
  by (simp add: validate_identity_def is_object_def accept_simps normalize_nfc_def)

lemma execution_record_fields [simp]:
  "jget (execution_record_json r) ''contract_id'' = JStr SESSION_EXECUTION_RECORD_CONTRACT_ID"
  "jget (execution_record_json r) ''schema_version'' = JNum SESSION_EXECUTION_RECORD_SCHEMA_VERSION"
  "jget (execution_record_json r) ''session_id'' = JStr (er_session_id r)"
  "jget (execution_record_json r) ''execution_id'' = JStr (er_execution_id r)"
  "jget (execution_record_json r) ''state'' = JStr (execution_state_name (er_state r))"
  "jget (execution_record_json r) ''profile_digest'' = JStr (er_profile_digest r)"
  "jget (execution_record_json r) ''filesystem_token'' = JStr (er_filesystem_token r)"
  "jget (execution_record_json r) ''runtime_epoch'' = epoch_json (er_runtime_epoch r)"
  "jget (execution_record_json r) ''boot_id'' = JStr (er_boot_id r)"
  "jget (execution_record_json r) ''supervisor_pid'' = json_option JNum (er_supervisor_pid r)"
  "jget (execution_record_json r) ''supervisor_starttime'' = json_option JStr (er_supervisor_starttime r)"
  "jget (execution_record_json r) ''cgroup_identity'' = JObj [(''session_id'', JStr (cx_session_id (er_cgroup_identity r))),
     (''execution_id'', JStr (cx_execution_id (er_cgroup_identity r)))]"
  "jget (execution_record_json r) ''cgroup_root'' = json_option JStr (er_cgroup_root r)"
  "jget (execution_record_json r) ''release_attempt'' = json_option release_attempt_json (er_release_attempt r)"
  "jget (execution_record_json r) ''created_at'' = JStr (er_created_at r)"
  "jget (execution_record_json r) ''updated_at'' = JStr (er_updated_at r)"
  by (simp_all add: execution_record_json_def)

lemma execution_record_entries:
  obtains es where "execution_record_json r = JObj es" "list_all (\<lambda>e. fst e \<in> set EXECUTION_RECORD_KEYS) es"
  by (simp add: execution_record_json_def EXECUTION_RECORD_KEYS_def)

lemma validate_execution_json:
  "validate_record_shape cwd dates (execution_record_json r) = accept (execution_record_ok cwd dates r) r"
proof -
  obtain es where es: "execution_record_json r = JObj es" "list_all (\<lambda>e. fst e \<in> set EXECUTION_RECORD_KEYS) es"
    by (rule execution_record_entries)
  note fields = execution_record_fields [of r, unfolded es(1)]
  have "validate_record_shape cwd dates (JObj es) = accept (execution_record_ok cwd dates r) r"
    unfolding validate_record_shape_def
    by (simp add: fields es(2) accept_simps normalize_nfc_def execution_record_ok_def cong: if_cong)
  then show ?thesis using es(1) by simp
qed

section \<open>What the validator returns\<close>

lemma field_results:
  "text_field n v = Inr s \<Longrightarrow> is_safe_text n s"
  "timestamp_field dates v = Inr s \<Longrightarrow> is_parsed_timestamp dates s"
  "epoch_of_json v = Inr e \<Longrightarrow> valid_runtime_epoch e"
  "nullable_field pid_of_json v = Inr p \<Longrightarrow> (case p of None \<Rightarrow> True | Some n \<Rightarrow> is_pid n)"
  "nullable_field starttime_of_json v = Inr t \<Longrightarrow> (case t of None \<Rightarrow> True | Some s \<Rightarrow> is_starttime s)"
  "nullable_field (cgroup_root_of_json cwd) v = Inr t \<Longrightarrow>
     (case t of None \<Rightarrow> True | Some s \<Rightarrow> is_canonical_managed_cgroup_root cwd s)"
  by (auto simp: text_field_def timestamp_field_def epoch_of_json_def nullable_field_def pid_of_json_def starttime_of_json_def
      cgroup_root_of_json_def normalize_nfc_def split: json.splits if_splits option.splits)

lemma attempt_result:
  "validate_release_attempt dates v = Inr x \<Longrightarrow> (case x of None \<Rightarrow> True | Some a \<Rightarrow> release_attempt_ok dates a)"
  by (auto simp: validate_release_attempt_def release_attempt_ok_def normalize_nfc_def require_eq_Inr elim!: bind_sumE
      dest: field_results split: if_split_asm json.split_asm option.split_asm)

lemma validated_record_ok:
  assumes "validate_record_shape cwd dates v = Inr r"
  shows "execution_record_ok cwd dates r"
proof (cases v)
  case (JObj es)
  note checks = assms [unfolded validate_record_shape_def JObj json.case]
  show ?thesis
    using checks
    by (elim bind_sumE; cases "named execution_state_name SESSION_EXECUTION_STATES (jget (JObj es) ''state'')"; simp only: option.case)
      (elim bind_sumE, auto simp: execution_record_ok_def require_eq_Inr validate_identity_def normalize_nfc_def elim!: bind_sumE
        dest!: field_results attempt_result)
qed (use assms in \<open>simp_all add: validate_record_shape_def\<close>)

lemma persisted_ok:
  "to_persisted_session_execution_record cwd dates r = Inr v \<longleftrightarrow> execution_record_ok cwd dates r \<and> v = execution_record_json r"
  by (auto simp: to_persisted_session_execution_record_def validate_execution_json split: execution_failure.split)

section \<open>The start time of a process\<close>

text \<open>The name of a process cannot forge its start time.\<close>

lemma starttime_of_line:
  assumes "list_all stat_word ws" "CHR '')'' \<notin> set (join_with CHR '' '' ws)" "19 < length ws" "is_starttime (ws ! 19)"
  shows "parse_process_starttime (name @ '') '' @ join_with CHR '' '' ws) = Some (ws ! 19)"
proof -
  have "ws \<noteq> []" using assms(3) by auto
  from split_stat_line [OF assms(1) this assms(2)] show ?thesis
    using assms(3,4) by (simp add: parse_process_starttime_def)
qed

section \<open>Transitions\<close>

lemma reserved_record:
  assumes "reserve_execution cwd dates i = Inr r"
  shows "execution_record_ok cwd dates r \<and> er_state r = Starting \<and> er_supervisor_pid r = None"
  using assms
  by (auto simp: reserve_execution_def Let_def execution_record_ok_def accept_simps normalize_nfc_def parsed_before_def
      cong: if_cong split: if_split_asm option.split_asm runtime_epoch.splits)

text \<open>What a transition keeps\<close>

definition same_execution :: "execution_record \<Rightarrow> execution_record \<Rightarrow> bool" where
  "same_execution r r' \<longleftrightarrow>
     er_session_id r' = er_session_id r \<and> er_execution_id r' = er_execution_id r \<and>
     er_profile_digest r' = er_profile_digest r \<and> er_filesystem_token r' = er_filesystem_token r \<and>
     er_runtime_epoch r' = er_runtime_epoch r \<and> er_boot_id r' = er_boot_id r \<and>
     er_cgroup_identity r' = er_cgroup_identity r \<and> er_cgroup_root r' = er_cgroup_root r \<and> er_created_at r' = er_created_at r"

definition attempts_grow :: "release_attempt option \<Rightarrow> release_attempt option \<Rightarrow> bool" where
  "attempts_grow a b \<longleftrightarrow>
     (case a of None \<Rightarrow> True | Some x \<Rightarrow> (case b of None \<Rightarrow> False | Some y \<Rightarrow> ra_attempt x \<le> ra_attempt y))"

lemma next_supervisor_result:
  assumes "next_supervisor r i = Inr (pid, starttime)" "execution_record_ok cwd dates r"
  shows "(case pid of None \<Rightarrow> True | Some p \<Rightarrow> is_pid p) \<and> (case starttime of None \<Rightarrow> True | Some t \<Rightarrow> is_starttime t) \<and>
    (pid = None) = (starttime = None) \<and>
    (if er_supervisor_pid r \<noteq> None then pid = er_supervisor_pid r \<and> starttime = er_supervisor_starttime r
     else pid = None \<or> er_state r = Starting \<and> xi_state i = Attached)"
proof -
  have "case er_supervisor_pid r of None \<Rightarrow> True | Some p \<Rightarrow> is_pid p"
    "case er_supervisor_starttime r of None \<Rightarrow> True | Some t \<Rightarrow> is_starttime t"
    and both: "(er_supervisor_pid r = None) = (er_supervisor_starttime r = None)"
    using assms(2) by (simp_all add: execution_record_ok_def)
  moreover have "case xi_supervisor i of None \<Rightarrow> (pid, starttime) = (er_supervisor_pid r, er_supervisor_starttime r)
      | Some (p, t) \<Rightarrow> is_pid p \<and> is_starttime t \<and> (pid, starttime) = (Some p, Some t) \<and>
          (er_supervisor_pid r = Some p \<and> er_supervisor_starttime r = Some t \<or>
           er_supervisor_pid r = None \<and> er_state r = Starting \<and> xi_state i = Attached)"
    using assms(1) both
    by (auto simp: next_supervisor_def Let_def require_eq_Inr elim!: bind_sumE split: option.split_asm prod.split_asm if_split_asm option.split)
  ultimately show ?thesis by (cases "er_supervisor_pid r") (auto split: option.split_asm)
qed

lemma next_attempt_result:
  assumes "next_release_attempt dates r input = Inr attempt" "execution_record_ok cwd dates r"
  shows "(case attempt of None \<Rightarrow> True | Some a \<Rightarrow> release_attempt_ok dates a) \<and> attempts_grow (er_release_attempt r) attempt"
proof -
  have kept: "case er_release_attempt r of None \<Rightarrow> True | Some a \<Rightarrow> release_attempt_ok dates a"
    using assms(2) by (simp add: execution_record_ok_def)
  obtain x where x: "(case input of AttemptAbsent \<Rightarrow> Inr (er_release_attempt r) | AttemptNull \<Rightarrow> validate_release_attempt dates JNull
       | AttemptGiven a \<Rightarrow> validate_release_attempt dates (release_attempt_json a)) = Inr x"
    and checks: "\<not> (input = AttemptNull \<and> er_release_attempt r \<noteq> None)" "x = attempt"
      "case (x, er_release_attempt r) of (Some a, Some b) \<Rightarrow> \<not> ra_attempt a < ra_attempt b | _ \<Rightarrow> True"
    using assms(1) unfolding next_release_attempt_def by (elim bind_sumE) (simp add: require_eq_Inr)
  have empty: "validate_release_attempt dates JNull = Inr None" by (simp add: validate_release_attempt_def)
  show ?thesis
  proof (cases input)
    case (AttemptGiven a)
    with x have "x = Some a" "release_attempt_ok dates a"
      by (simp_all only: attempt_input.case validate_attempt_json split: if_split_asm) simp_all
    with checks show ?thesis by (auto simp: attempts_grow_def split: option.splits)
  qed (use x checks empty kept in \<open>auto simp: attempts_grow_def split: option.splits\<close>)
qed

lemma transition_cases:
  assumes "record_execution_state cwd dates r i = Inr r'"
  obtains pid starttime attempt where "execution_record_ok cwd dates r" "xi_state i \<in> set (ALLOWED_TRANSITIONS (er_state r))"
    "is_parsed_timestamp dates (xi_now i)" "\<not> parsed_before dates (xi_now i) (er_created_at r)"
    "next_supervisor r i = Inr (pid, starttime)" "xi_state i \<in> {Attached, Running} \<Longrightarrow> pid \<noteq> None"
    "next_release_attempt dates r (xi_release_attempt i) = Inr attempt"
    "r' = r\<lparr>er_state := xi_state i, er_supervisor_pid := pid, er_supervisor_starttime := starttime,
        er_release_attempt := attempt, er_updated_at := xi_now i\<rparr>"
  using assms
  by (auto simp: record_execution_state_def validate_execution_json require_eq_Inr Let_def elim!: bind_sumE split: if_split_asm)

lemma transition_ok:
  assumes "record_execution_state cwd dates r i = Inr r'"
  shows "execution_record_ok cwd dates r'"
proof -
  obtain pid starttime attempt where ok: "execution_record_ok cwd dates r"
    and now: "is_parsed_timestamp dates (xi_now i)" "\<not> parsed_before dates (xi_now i) (er_created_at r)"
    and supervisor: "next_supervisor r i = Inr (pid, starttime)"
    and attempt: "next_release_attempt dates r (xi_release_attempt i) = Inr attempt"
    and r': "r' = r\<lparr>er_state := xi_state i, er_supervisor_pid := pid, er_supervisor_starttime := starttime,
        er_release_attempt := attempt, er_updated_at := xi_now i\<rparr>"
    using transition_cases [OF assms] by metis
  show ?thesis
    using ok now next_supervisor_result [OF supervisor ok] next_attempt_result [OF attempt ok]
    unfolding r' execution_record_ok_def by simp
qed

lemma transition_effect:
  assumes "record_execution_state cwd dates r i = Inr r'"
  shows "same_execution r r'" "er_state r' \<in> set (ALLOWED_TRANSITIONS (er_state r))"
    "attempts_grow (er_release_attempt r) (er_release_attempt r')"
    "er_state r' \<in> {Attached, Running} \<Longrightarrow> er_supervisor_pid r' \<noteq> None"
    "er_supervisor_pid r \<noteq> None \<Longrightarrow>
       er_supervisor_pid r' = er_supervisor_pid r \<and> er_supervisor_starttime r' = er_supervisor_starttime r"
    "er_supervisor_pid r = None \<Longrightarrow> er_supervisor_pid r' \<noteq> None \<Longrightarrow> er_state r = Starting \<and> er_state r' = Attached"
proof -
  obtain pid starttime attempt where ok: "execution_record_ok cwd dates r" and i: "xi_state i \<in> set (ALLOWED_TRANSITIONS (er_state r))"
    and supervisor: "next_supervisor r i = Inr (pid, starttime)" and live: "xi_state i \<in> {Attached, Running} \<Longrightarrow> pid \<noteq> None"
    and attempt: "next_release_attempt dates r (xi_release_attempt i) = Inr attempt"
    and r': "r' = r\<lparr>er_state := xi_state i, er_supervisor_pid := pid, er_supervisor_starttime := starttime,
        er_release_attempt := attempt, er_updated_at := xi_now i\<rparr>"
    using transition_cases [OF assms] by metis
  note results = next_supervisor_result [OF supervisor ok] next_attempt_result [OF attempt ok]
  show "same_execution r r'" "er_state r' \<in> set (ALLOWED_TRANSITIONS (er_state r))"
    "attempts_grow (er_release_attempt r) (er_release_attempt r')"
    "er_state r' \<in> {Attached, Running} \<Longrightarrow> er_supervisor_pid r' \<noteq> None"
    "er_supervisor_pid r \<noteq> None \<Longrightarrow>
       er_supervisor_pid r' = er_supervisor_pid r \<and> er_supervisor_starttime r' = er_supervisor_starttime r"
    "er_supervisor_pid r = None \<Longrightarrow> er_supervisor_pid r' \<noteq> None \<Longrightarrow> er_state r = Starting \<and> er_state r' = Attached"
    using i live results by (auto simp: r' same_execution_def)
qed

section \<open>A sample\<close>

definition sample_reservation :: reservation_input where
  "sample_reservation =
     \<lparr>ri_session_id = ''s'', ri_execution_id = ''e'', ri_profile_digest = ''d'', ri_filesystem_token = ''t'',
      ri_runtime_epoch = EpochNumber 1, ri_boot_id = ''b'', ri_cgroup_identity = None,
      ri_cgroup_root = Some ''/sys/fs/cgroup/u'', ri_now = ''2024-01-01T00:00:00.000Z''\<rparr>"

definition sample_dates :: "string \<Rightarrow> int option" where
  "sample_dates s = (if s = ''2024-01-01T00:00:00.000Z'' then Some 0 else None)"

definition sample_starting :: execution_record where
  "sample_starting =
     \<lparr>er_session_id = ''s'', er_execution_id = ''e'', er_state = Starting, er_profile_digest = ''d'', er_filesystem_token = ''t'',
      er_runtime_epoch = EpochNumber 1, er_boot_id = ''b'', er_supervisor_pid = None, er_supervisor_starttime = None,
      er_cgroup_identity = \<lparr>cx_session_id = ''s'', cx_execution_id = ''e''\<rparr>, er_cgroup_root = Some ''/sys/fs/cgroup/u'',
      er_release_attempt = None, er_created_at = ''2024-01-01T00:00:00.000Z'', er_updated_at = ''2024-01-01T00:00:00.000Z''\<rparr>"

definition sample_attached :: execution_record where
  "sample_attached = sample_starting
     \<lparr>er_state := Attached, er_supervisor_pid := Some 7, er_supervisor_starttime := Some ''42''\<rparr>"

lemma sample_reserved: "reserve_execution [] sample_dates sample_reservation = Inr sample_starting"
  by code_simp

lemma sample_attaches:
  "record_execution_state [] sample_dates sample_starting
     \<lparr>xi_state = Attached, xi_now = ''2024-01-01T00:00:00.000Z'', xi_supervisor = Some (7, ''42''), xi_release_attempt = AttemptAbsent\<rparr> =
   Inr sample_attached"
  by code_simp

section \<open>The life of an execution\<close>

inductive execution_step :: "abs_path \<Rightarrow> (string \<Rightarrow> int option) \<Rightarrow> execution_record \<Rightarrow> execution_record \<Rightarrow> bool" for cwd dates where
  transition: "record_execution_state cwd dates r i = Inr r' \<Longrightarrow> execution_step cwd dates r r'"

abbreviation execution_run :: "abs_path \<Rightarrow> (string \<Rightarrow> int option) \<Rightarrow> execution_record \<Rightarrow> execution_record \<Rightarrow> bool" where
  "execution_run cwd dates \<equiv> (execution_step cwd dates)\<^sup>*\<^sup>*"

text \<open>A record that a reservation began, and what every one of them satisfies\<close>

definition begun :: "abs_path \<Rightarrow> (string \<Rightarrow> int option) \<Rightarrow> execution_record \<Rightarrow> bool" where
  "begun cwd dates r \<longleftrightarrow> (\<exists>i r0. reserve_execution cwd dates i = Inr r0 \<and> execution_run cwd dates r0 r)"

definition supervised_iff_attached :: "execution_record \<Rightarrow> bool" where
  "supervised_iff_attached r \<longleftrightarrow>
     (er_state r = Starting \<longrightarrow> er_supervisor_pid r = None) \<and> (er_state r \<in> {Attached, Running} \<longrightarrow> er_supervisor_pid r \<noteq> None)"

lemma step_supervised:
  assumes "record_execution_state cwd dates r i = Inr r'" "supervised_iff_attached r"
  shows "supervised_iff_attached r'"
proof -
  have "er_state r' = Starting \<Longrightarrow> er_state r = Starting"
    using transition_effect(2) [OF assms(1)] by (cases "er_state r") auto
  then show ?thesis
    using transition_effect(4-6) [OF assms(1)] assms(2) by (fastforce simp: supervised_iff_attached_def)
qed

lemma begun_ok:
  assumes "begun cwd dates r"
  shows "execution_record_ok cwd dates r \<and> supervised_iff_attached r"
proof -
  obtain i r0 where r0: "reserve_execution cwd dates i = Inr r0" "execution_run cwd dates r0 r"
    using assms by (auto simp: begun_def)
  from r0(2) show ?thesis
  proof (induction rule: rtranclp_induct)
    case base
    then show ?case using reserved_record [OF r0(1)] by (simp add: supervised_iff_attached_def)
  next
    case (step r r')
    then show ?case using transition_ok step_supervised by (auto elim!: execution_step.cases)
  qed
qed

text \<open>\<open>ALLOWED_TRANSITIONS\<close> lists running after starting, but no record passes: the supervisor must be set on attaching.\<close>

lemma starting_never_runs:
  assumes "begun cwd dates r" "er_state r = Starting" "record_execution_state cwd dates r i = Inr r'"
  shows "er_state r' \<noteq> Running"
proof
  assume running: "er_state r' = Running"
  have "er_supervisor_pid r = None" using begun_ok [OF assms(1)] assms(2) by (simp add: supervised_iff_attached_def)
  with transition_effect(4,6) [OF assms(3)] running show False by simp
qed

text \<open>C19: The record of an execution identifies one process for its whole life: from the reservation on, every record is
  one that the registry accepts, names the same session, execution, profile, token, epoch, boot and cgroup, is attached or
  running only with a supervisor, keeps the supervisor it was attached to for ever, never loses or renumbers downwards the
  evidence of a release, and never leaves the exited state.\<close>

theorem execution_keeps_identity:
  assumes "begun cwd dates r" "execution_run cwd dates r r'"
  shows "execution_record_ok cwd dates r' \<and> same_execution r r' \<and>
    (er_state r' \<in> {Attached, Running} \<longrightarrow> er_supervisor_pid r' \<noteq> None) \<and>
    (er_supervisor_pid r \<noteq> None \<longrightarrow>
       er_supervisor_pid r' = er_supervisor_pid r \<and> er_supervisor_starttime r' = er_supervisor_starttime r) \<and>
    attempts_grow (er_release_attempt r) (er_release_attempt r') \<and> (er_state r = Exited \<longrightarrow> er_state r' = Exited)"
proof -
  have "begun cwd dates r'"
    using assms by (auto simp: begun_def intro: rtranclp_trans)
  moreover from assms(2) have "same_execution r r' \<and>
    (er_supervisor_pid r \<noteq> None \<longrightarrow>
       er_supervisor_pid r' = er_supervisor_pid r \<and> er_supervisor_starttime r' = er_supervisor_starttime r) \<and>
    attempts_grow (er_release_attempt r) (er_release_attempt r') \<and> (er_state r = Exited \<longrightarrow> er_state r' = Exited)"
  proof (induction rule: rtranclp_induct)
    case base
    then show ?case by (auto simp: same_execution_def attempts_grow_def split: option.split)
  next
    case (step s t)
    then obtain i where i: "record_execution_state cwd dates s i = Inr t" by (auto elim: execution_step.cases)
    have "er_state s = Exited \<Longrightarrow> er_state t = Exited" using transition_effect(2) [OF i] by simp
    moreover have "attempts_grow (er_release_attempt r) (er_release_attempt t)"
      using step.IH transition_effect(3) [OF i] by (fastforce simp: attempts_grow_def split: option.splits)
    ultimately show ?case
      using step.IH transition_effect(1,5) [OF i] by (auto simp: same_execution_def)
  qed
  ultimately show ?thesis using begun_ok by (auto simp: supervised_iff_attached_def)
qed

theorem execution_keeps_identity_witness:
  "same_execution sample_starting sample_attached \<and> er_supervisor_pid sample_attached \<noteq> None"
proof -
  have begun: "begun [] sample_dates sample_starting"
    unfolding begun_def using sample_reserved by blast
  have "execution_run [] sample_dates sample_starting sample_attached"
    using execution_step.transition [OF sample_attaches] by (rule r_into_rtranclp)
  from execution_keeps_identity [OF begun this] show ?thesis by (auto simp: sample_attached_def)
qed

text \<open>A payload runs only inside a reservation: if it was started, the writer had first accepted the persisted form of
  the reserved record, from which a reader gets that record back; if the writer refused, nothing else happened.\<close>

theorem payload_runs_after_reservation:
  assumes "reserve_execution_before_payload cwd dates persist start input s = (x, s')"
  shows "(case x of
      Inr (r, payload) \<Rightarrow> reserve_execution cwd dates input = Inr r \<and>
        validate_record_shape cwd dates (execution_record_json r) = Inr r \<and>
        (\<exists>s1. persist (execution_record_json r) s = (True, s1) \<and> start r s1 = (Some payload, s'))
    | Inl e \<Rightarrow> s' = s \<or> (\<exists>r s1. persist (execution_record_json r) s = (False, s1) \<and> s' = s1) \<or>
        (\<exists>r s1. persist (execution_record_json r) s = (True, s1) \<and> start r s1 = (None, s')))"
proof (cases "reserve_execution cwd dates input")
  case (Inr r)
  have "execution_record_ok cwd dates r" using reserved_record [OF Inr] by simp
  then have "to_persisted_session_execution_record cwd dates r = Inr (execution_record_json r)"
    "validate_record_shape cwd dates (execution_record_json r) = Inr r"
    by (simp_all add: persisted_ok validate_execution_json)
  with assms Inr show ?thesis
    by (auto simp: reserve_execution_before_payload_def Let_def split: prod.splits bool.splits option.splits)
qed (use assms in \<open>auto simp: reserve_execution_before_payload_def\<close>)

definition sample_start ::
  "json list \<Rightarrow> (execution_failure + execution_record \<times> nat) \<times> json list" where
  "sample_start =
     reserve_execution_before_payload [] sample_dates (\<lambda>v s. (True, v # s)) (\<lambda>r s. (Some (length s), s)) sample_reservation"

theorem payload_runs_after_reservation_witness:
  "sample_start [] = (Inr (sample_starting, 1), [execution_record_json sample_starting]) \<and>
   validate_record_shape [] sample_dates (execution_record_json sample_starting) = Inr sample_starting"
proof -
  have "sample_start [] = (Inr (sample_starting, 1), [execution_record_json sample_starting])" by code_simp
  then show ?thesis using payload_runs_after_reservation [OF _, of "[]" sample_dates "\<lambda>v s. (True, v # s)" "\<lambda>r s. (Some (length s), s)"]
    unfolding sample_start_def by fastforce
qed

text \<open>C20: An execution is called active only on proof: its record is attached or running, and the kernel that is running,
  the start time of the process and its cgroup path are those of the record.\<close>

theorem active_execution_is_proven:
  assumes "observe_execution_identity sha cwd dates reader r = Inr x" "io_active x"
  shows "er_state r \<in> {Attached, Running} \<and> ir_boot_id reader = ProcText (er_boot_id r) \<and>
    (\<exists>pid starttime root scope. er_supervisor_pid r = Some pid \<and> er_supervisor_starttime r = Some starttime \<and>
       er_cgroup_root r = Some root \<and> derive_cgroup_scope_name sha (er_cgroup_identity r) = Inr scope \<and>
       ir_starttime reader pid = ProcText starttime \<and>
       ir_cgroup reader pid = ProcText (drop (length CGROUPS_V2_ROOT) root @ ''/nawabari/'' @ scope))"
  using assms
  by (auto simp: observe_execution_identity_def validate_execution_json identity_unresolved_def classify_identity_def Let_def
      cgroup_path_matches_def elim!: bind_sumE split: option.split_asm proc_read.split_asm if_split_asm)

definition sample_reader :: identity_reader where
  "sample_reader =
     \<lparr>ir_boot_id = ProcText ''b'', ir_starttime = (\<lambda>_. ProcText ''42''),
      ir_cgroup = (\<lambda>_. ProcText (''/u/nawabari/nawabari-'' @ replicate 48 CHR ''a''))\<rparr>"

theorem active_execution_is_proven_witness:
  "\<exists>x. observe_execution_identity (\<lambda>_. replicate 64 CHR ''a'') [] sample_dates sample_reader sample_attached = Inr x \<and> io_active x \<and>
     ir_boot_id sample_reader = ProcText (er_boot_id sample_attached)"
proof -
  have "case observe_execution_identity (\<lambda>_. replicate 64 CHR ''a'') [] sample_dates sample_reader sample_attached of
      Inl _ \<Rightarrow> False | Inr x \<Rightarrow> io_active x" by code_simp
  then obtain x where "observe_execution_identity (\<lambda>_. replicate 64 CHR ''a'') [] sample_dates sample_reader sample_attached = Inr x"
    "io_active x" by (auto split: sum.split_asm)
  with active_execution_is_proven [OF this] show ?thesis by blast
qed

text \<open>A session or execution identifier of 257 to 512 characters is accepted in a record, and then no observation of its
  process returns: the cgroup scope allows 256 and throws.\<close>

theorem long_identifier_breaks_observation:
  assumes "execution_record_ok cwd dates r" "length (er_session_id r) > 256 \<or> length (er_execution_id r) > 256"
  shows "observe_execution_identity sha cwd dates reader r = Inl (ExecutionThrow ''SANDBOX_CGROUP_SETUP_FAILED'')"
  using assms
  by (auto simp: observe_execution_identity_def validate_execution_json derive_cgroup_scope_name_def cgroup_identity_ok_def
      execution_record_ok_def)

definition sample_long :: execution_record where
  "sample_long = sample_starting
     \<lparr>er_session_id := replicate 300 CHR ''s'', er_cgroup_identity := \<lparr>cx_session_id = replicate 300 CHR ''s'', cx_execution_id = ''e''\<rparr>\<rparr>"

theorem long_identifier_breaks_observation_witness:
  "\<forall>reader. observe_execution_identity (\<lambda>_. []) [] sample_dates reader sample_long = Inl (ExecutionThrow ''SANDBOX_CGROUP_SETUP_FAILED'')"
proof -
  have "execution_record_ok [] sample_dates sample_long" by code_simp
  then show ?thesis
    using long_identifier_breaks_observation by (simp add: sample_long_def)
qed

end
