(* ===== verification/CgroupScopes.thy ===== *)
theory CgroupScopes
  imports ExecutionRecord
begin

text \<open>
  src/src/domain/cgroups-v2.ts: the cgroup scope of one execution, from its creation below a delegated root to its
  termination and removal. The file system is a record of operations on a state of its own (the kernel and other
  processes may change it at any time); a history variable logs what was read and done. \<open>numbers\<close> is
  \<open>Number\<close> on a trimmed line of cgroup.procs, when it gives an integer. An error keeps its code.
\<close>

section \<open>The file system and the log\<close>

datatype mkdir_outcome = DirMade | DirExists | DirFailed

record 's cgroup_fs =
  cf_is_directory :: "string \<Rightarrow> 's \<Rightarrow> bool option \<times> 's"
  cf_is_file :: "string \<Rightarrow> 's \<Rightarrow> bool option \<times> 's"
  cf_realpath :: "string \<Rightarrow> 's \<Rightarrow> string option \<times> 's"
  cf_read :: "string \<Rightarrow> 's \<Rightarrow> string option \<times> 's"
  cf_write :: "string \<Rightarrow> string \<Rightarrow> 's \<Rightarrow> bool \<times> 's"
  cf_mkdir :: "string \<Rightarrow> 's \<Rightarrow> mkdir_outcome \<times> 's"
  cf_rmdir :: "string \<Rightarrow> 's \<Rightarrow> bool \<times> 's"

datatype cgroup_event =
    FileRead string "string option" | FileWritten string string bool | MakeDir string mkdir_outcome | RemoveDir string bool

record 's cgroup_world =
  cw_state :: 's
  cw_log :: "cgroup_event list"

type_synonym ('s, 'a) cgroup_run = "'s cgroup_world \<Rightarrow> (execution_failure + 'a) \<times> 's cgroup_world"

definition return_run :: "execution_failure + 'a \<Rightarrow> ('s, 'a) cgroup_run" where
  "return_run r w = (r, w)"

definition bind_run :: "('s, 'a) cgroup_run \<Rightarrow> ('a \<Rightarrow> ('s, 'b) cgroup_run) \<Rightarrow> ('s, 'b) cgroup_run" where
  "bind_run m f w = (case m w of (Inl e, w') \<Rightarrow> (Inl e, w') | (Inr a, w') \<Rightarrow> f a w')"

definition probe :: "('s \<Rightarrow> 'a \<times> 's) \<Rightarrow> ('s, 'a) cgroup_run" where
  "probe f w = (case f (cw_state w) of (a, s) \<Rightarrow> (Inr a, w\<lparr>cw_state := s\<rparr>))"

definition logged :: "('a \<Rightarrow> cgroup_event) \<Rightarrow> ('s \<Rightarrow> 'a \<times> 's) \<Rightarrow> ('s, 'a) cgroup_run" where
  "logged event f w = (case f (cw_state w) of (a, s) \<Rightarrow> (Inr a, w\<lparr>cw_state := s, cw_log := cw_log w @ [event a]\<rparr>))"

definition MAX_CGROUP_FILE_BYTES :: int where "MAX_CGROUP_FILE_BYTES = 64 * 1024"

text \<open>\<open>s.slice(0, n)\<close>\<close>

definition slice_to :: "int \<Rightarrow> string \<Rightarrow> string" where
  "slice_to n s = (if int (length s) \<le> n then s else take (nat n) s)"

definition read_bounded :: "'s cgroup_fs \<Rightarrow> string \<Rightarrow> ('s, string option) cgroup_run" where
  "read_bounded fs file =
     logged (FileRead file) (\<lambda>s. case cf_read fs file s of (t, s') \<Rightarrow> (map_option (slice_to MAX_CGROUP_FILE_BYTES) t, s'))"

definition write_file :: "'s cgroup_fs \<Rightarrow> string \<Rightarrow> string \<Rightarrow> ('s, bool) cgroup_run" where
  "write_file fs file value = logged (FileWritten file value) (cf_write fs file value)"

definition make_dir :: "'s cgroup_fs \<Rightarrow> string \<Rightarrow> ('s, mkdir_outcome) cgroup_run" where
  "make_dir fs dir = logged (MakeDir dir) (cf_mkdir fs dir)"

definition remove_dir :: "'s cgroup_fs \<Rightarrow> string \<Rightarrow> ('s, bool) cgroup_run" where
  "remove_dir fs dir = logged (RemoveDir dir) (cf_rmdir fs dir)"

section \<open>Limits\<close>

record limit_profile =
  lp_cpu_max :: "int option"
  lp_cpu_period :: "int option"
  lp_memory_max :: "int option"
  lp_pids_max :: "int option"

record cgroup_scope =
  cs_contract_id :: string
  cs_root :: string
  cs_parent :: string
  cs_path :: string
  cs_name :: string
  cs_identity :: cgroup_identity
  cs_boot_id :: "string option"
  cs_limits :: limit_profile

definition CGROUPS_V2_CONTRACT_ID :: string where "CGROUPS_V2_CONTRACT_ID = ''nawabari.cgroups-v2.v1''"
definition CONTROLLERS :: "string list" where "CONTROLLERS = [''cpu'', ''memory'', ''pids'']"
definition MAX_MEMORY_LIMIT :: int where "MAX_MEMORY_LIMIT = 1024 * 1024 * 1024 * 1024"
definition MAX_PIDS_LIMIT :: int where "MAX_PIDS_LIMIT = 1000000"

abbreviation setup_failed :: execution_failure where "setup_failed \<equiv> ExecutionFailure ''SANDBOX_CGROUP_SETUP_FAILED''"
abbreviation scope_conflict :: execution_failure where "scope_conflict \<equiv> ExecutionFailure ''SANDBOX_CGROUP_SCOPE_CONFLICT''"
abbreviation capability_unavailable :: execution_failure where
  "capability_unavailable \<equiv> ExecutionFailure ''SANDBOX_CAPABILITY_UNAVAILABLE''"
abbreviation cleanup_failed :: execution_failure where "cleanup_failed \<equiv> ExecutionFailure ''SANDBOX_CGROUP_CLEANUP_FAILED''"

definition positive_safe :: "int \<Rightarrow> bool" where
  "positive_safe n \<longleftrightarrow> is_safe_integer n \<and> 1 \<le> n"

definition limit_ok :: "int \<Rightarrow> int option \<Rightarrow> bool" where
  "limit_ok most limit \<longleftrightarrow> (case limit of None \<Rightarrow> True | Some n \<Rightarrow> positive_safe n \<and> n \<le> most)"

definition validate_limits :: "limit_profile \<Rightarrow> execution_failure + limit_profile" where
  "validate_limits l =
     (let period = (case lp_cpu_period l of None \<Rightarrow> 100000 | Some p \<Rightarrow> p) in
      bind_sum (require (case lp_cpu_max l of None \<Rightarrow> True | Some n \<Rightarrow> positive_safe n) setup_failed) (\<lambda>_.
      bind_sum (require (positive_safe period \<and> 1000 \<le> period \<and> period \<le> 1000000) setup_failed) (\<lambda>_.
      bind_sum (require (case lp_cpu_max l of None \<Rightarrow> True | Some n \<Rightarrow> n \<le> period) setup_failed) (\<lambda>_.
      bind_sum (require (limit_ok MAX_MEMORY_LIMIT (lp_memory_max l)) setup_failed) (\<lambda>_.
      bind_sum (require (limit_ok MAX_PIDS_LIMIT (lp_pids_max l)) setup_failed) (\<lambda>_.
      Inr (l\<lparr>lp_cpu_period := (if lp_cpu_max l = None \<and> lp_cpu_period l = None then None else Some period)\<rparr>)))))))"

definition limit_writes :: "limit_profile \<Rightarrow> (string \<times> string) list" where
  "limit_writes l =
     (case lp_cpu_max l of None \<Rightarrow> []
      | Some n \<Rightarrow> [(''cpu.max'', decimal (nat n) @ '' '' @ decimal (nat (case lp_cpu_period l of None \<Rightarrow> 100000 | Some p \<Rightarrow> p)))]) @
     (case lp_memory_max l of None \<Rightarrow> [] | Some n \<Rightarrow> [(''memory.max'', decimal (nat n))]) @
     (case lp_pids_max l of None \<Rightarrow> [] | Some n \<Rightarrow> [(''pids.max'', decimal (nat n))])"

section \<open>Paths\<close>

definition path_join :: "string list \<Rightarrow> string" where
  "path_join parts =
     (let joined = join_with CHR ''/'' (filter (\<lambda>p. p \<noteq> []) parts) in if joined = [] then ''.'' else path_normalize joined)"

definition path_basename :: "string \<Rightarrow> string" where
  "path_basename s = (case filter (\<lambda>p. p \<noteq> []) (split_on CHR ''/'' s) of [] \<Rightarrow> [] | ps \<Rightarrow> last ps)"

definition path_dirname :: "string \<Rightarrow> string" where
  "path_dirname s =
     (let absolute = prefix ''/'' s; body = dropWhile (\<lambda>c. c = CHR ''/'') (rev s);
          parent = rev (tl (dropWhile (\<lambda>c. c \<noteq> CHR ''/'') body)) in
      if CHR ''/'' \<notin> set body then (if absolute then ''/'' else ''.'')
      else if parent = [] then ''/'' else if absolute \<and> parent = ''/'' then ''//'' else parent)"

definition verifies_scope_identity ::
  "(string \<Rightarrow> string) \<Rightarrow> abs_path \<Rightarrow> cgroup_scope \<Rightarrow> execution_failure + bool" where
  "verifies_scope_identity sha cwd scope =
     (if scope_within cwd (cs_root scope) (cs_path scope) \<and> cs_path scope = path_join [cs_root scope, ''nawabari'', cs_name scope] \<and>
         path_basename (cs_path scope) = cs_name scope
      then bind_sum (derive_cgroup_scope_name sha (cs_identity scope)) (\<lambda>name. Inr (name = cs_name scope))
      else Inr False)"

section \<open>Kernel files\<close>

definition counter_text :: "string option \<Rightarrow> string \<Rightarrow> string" where
  "counter_text key text =
     (case key of None \<Rightarrow> trim_white text
      | Some k \<Rightarrow> (case find (\<lambda>l. prefix (k @ '' '') l) (split_lines text) of
            Some l \<Rightarrow> trim_white (drop (length k) l) | None \<Rightarrow> []))"

definition parse_counter :: "string option \<Rightarrow> string option \<Rightarrow> int option" where
  "parse_counter key text =
     (case text of None \<Rightarrow> None
      | Some t \<Rightarrow>
          let line = counter_text key t; value = int (CanonicalJson.digits_value 0 line) in
          if line \<noteq> [] \<and> list_all is_digit line \<and> is_safe_integer value then Some value else None)"

definition parse_population :: "string option \<Rightarrow> int option" where
  "parse_population text =
     (case parse_counter (Some ''populated'') text of Some n \<Rightarrow> if n = 0 \<or> n = 1 then Some n else None | None \<Rightarrow> None)"

definition parse_process_ids :: "(string \<Rightarrow> int option) \<Rightarrow> string option \<Rightarrow> int list option" where
  "parse_process_ids numbers text =
     (case text of None \<Rightarrow> None
      | Some t \<Rightarrow>
          let processes = map numbers (filter (\<lambda>e. e \<noteq> []) (map trim_white (split_lines t))) in
          if list_all (\<lambda>p. case p of None \<Rightarrow> False | Some n \<Rightarrow> positive_safe n) processes then Some (map the processes) else None)"

datatype population_state = PopulationEmpty | Populated | PopulationUnknown

record cgroup_population =
  cp_state :: population_state
  cp_populated :: "bool option"
  cp_processes :: "int list option"

definition population_of :: "int option \<Rightarrow> int list option \<Rightarrow> cgroup_population" where
  "population_of populated processes =
     \<lparr>cp_state = (case (populated, processes) of
          (Some n, Some ps) \<Rightarrow> if n = 1 \<or> ps \<noteq> [] then Populated else PopulationEmpty | _ \<Rightarrow> PopulationUnknown),
      cp_populated = map_option (\<lambda>n. n = 1) populated, cp_processes = processes\<rparr>"

definition read_cgroup_population ::
  "'s cgroup_fs \<Rightarrow> (string \<Rightarrow> int option) \<Rightarrow> cgroup_scope \<Rightarrow> ('s, cgroup_population) cgroup_run" where
  "read_cgroup_population fs numbers scope =
     bind_run (read_bounded fs (path_join [cs_path scope, ''cgroup.events''])) (\<lambda>events.
     bind_run (read_bounded fs (path_join [cs_path scope, ''cgroup.procs''])) (\<lambda>procs.
     return_run (Inr (population_of (parse_population events) (parse_process_ids numbers procs)))))"

record cgroup_accounting =
  ca_cpu_usage :: "int option"
  ca_cpu_user :: "int option"
  ca_cpu_system :: "int option"
  ca_cpu_throttled_usec :: "int option"
  ca_memory_current :: "int option"
  ca_memory_peak :: "int option"
  ca_pids_current :: "int option"
  ca_pids_max_events :: "int option"
  ca_oom_kill_events :: "int option"
  ca_memory_max_events :: "int option"
  ca_cpu_throttled :: bool
  ca_memory_limit_exceeded :: bool
  ca_pids_limit_exceeded :: bool

definition counted :: "int option \<Rightarrow> bool" where
  "counted n \<longleftrightarrow> (case n of None \<Rightarrow> False | Some k \<Rightarrow> 0 < k)"

definition accounting_of ::
  "string option \<Rightarrow> string option \<Rightarrow> string option \<Rightarrow> string option \<Rightarrow> string option \<Rightarrow> string option \<Rightarrow> cgroup_accounting" where
  "accounting_of cpu memory peak memory_events pids pids_events =
     (let throttled = parse_counter (Some ''throttled_usec'') cpu; oom = parse_counter (Some ''oom_kill'') memory_events;
          memory_max = parse_counter (Some ''max'') memory_events; pids_max = parse_counter (Some ''max'') pids_events in
      \<lparr>ca_cpu_usage = parse_counter (Some ''usage_usec'') cpu, ca_cpu_user = parse_counter (Some ''user_usec'') cpu,
       ca_cpu_system = parse_counter (Some ''system_usec'') cpu, ca_cpu_throttled_usec = throttled,
       ca_memory_current = parse_counter None memory, ca_memory_peak = parse_counter None peak,
       ca_pids_current = parse_counter None pids, ca_pids_max_events = pids_max, ca_oom_kill_events = oom,
       ca_memory_max_events = memory_max, ca_cpu_throttled = counted throttled,
       ca_memory_limit_exceeded = (counted oom \<or> counted memory_max), ca_pids_limit_exceeded = counted pids_max\<rparr>)"

definition read_cgroup_accounting :: "'s cgroup_fs \<Rightarrow> cgroup_scope \<Rightarrow> ('s, cgroup_accounting) cgroup_run" where
  "read_cgroup_accounting fs scope =
     (let file = (\<lambda>f. read_bounded fs (path_join [cs_path scope, f])) in
      bind_run (file ''cpu.stat'') (\<lambda>cpu.
      bind_run (file ''memory.current'') (\<lambda>memory.
      bind_run (file ''memory.peak'') (\<lambda>peak.
      bind_run (file ''memory.events'') (\<lambda>memory_events.
      bind_run (file ''pids.current'') (\<lambda>pids.
      bind_run (file ''pids.events'') (\<lambda>pids_events.
      return_run (Inr (accounting_of cpu memory peak memory_events pids pids_events)))))))))"

definition cgroup_limit_events :: "cgroup_accounting \<Rightarrow> string list" where
  "cgroup_limit_events a =
     (if ca_cpu_throttled a then [''cpu''] else []) @ (if ca_memory_limit_exceeded a then [''memory''] else []) @
     (if ca_pids_limit_exceeded a then [''pids''] else [])"

section \<open>The root\<close>

definition validate_root :: "'s cgroup_fs \<Rightarrow> string \<Rightarrow> ('s, string) cgroup_run" where
  "validate_root fs root =
     (if \<not> prefix ''/'' root \<or> NUL \<in> set root then return_run (Inl setup_failed)
      else
      bind_run (probe (cf_is_directory fs root)) (\<lambda>directory.
      if directory \<noteq> Some True then return_run (Inl capability_unavailable)
      else
      bind_run (probe (cf_is_file fs (path_join [root, ''cgroup.controllers'']))) (\<lambda>controllers.
      if controllers \<noteq> Some True then return_run (Inl capability_unavailable)
      else
      bind_run (probe (cf_realpath fs root)) (\<lambda>real.
      return_run (case real of None \<Rightarrow> Inl capability_unavailable | Some r \<Rightarrow> Inr r)))))"

definition required_controllers :: "'s cgroup_fs \<Rightarrow> string \<Rightarrow> ('s, unit) cgroup_run" where
  "required_controllers fs root =
     bind_run (read_bounded fs (path_join [root, ''cgroup.controllers''])) (\<lambda>available.
     return_run (case available of None \<Rightarrow> Inl capability_unavailable
       | Some t \<Rightarrow> require (list_all (\<lambda>c. c \<in> set (white_fields t [])) CONTROLLERS) capability_unavailable))"

text \<open>The membership of this process, \<open>0::/path\<close> on the only line of /proc/self/cgroup\<close>

definition printable :: "char \<Rightarrow> bool" where
  "printable c \<longleftrightarrow> (32 :: nat) \<le> of_char c \<and> of_char c \<le> (126 :: nat)"

definition unified_membership :: "string \<Rightarrow> string option" where
  "unified_membership raw =
     (case split_lines (trim_white raw) of
        [l] \<Rightarrow> if prefix ''0::/'' l \<and> list_all printable (drop 3 l) then Some (drop 3 l) else None
      | _ \<Rightarrow> None)"

definition delegated_candidate :: "string \<Rightarrow> execution_failure + string" where
  "delegated_candidate raw =
     (case unified_membership raw of
        None \<Rightarrow> Inl capability_unavailable
      | Some unified \<Rightarrow>
          if 4096 < length unified \<or> unified = ''/'' \<or> list_ex (\<lambda>s. s = ''.'' \<or> s = ''..'') (split_on CHR ''/'' unified)
          then Inl capability_unavailable else Inr (path_dirname (path_join [CGROUPS_V2_ROOT, unified])))"

definition resolve_managed_cgroup_root ::
  "abs_path \<Rightarrow> bool \<Rightarrow> 's cgroup_fs \<Rightarrow> string option \<Rightarrow> string option \<Rightarrow> ('s, string) cgroup_run" where
  "resolve_managed_cgroup_root cwd linux fs root membership =
     (if \<not> linux then return_run (Inl capability_unavailable)
      else
      bind_run (return_run (case root of Some r \<Rightarrow> Inr r
        | None \<Rightarrow> (case membership of None \<Rightarrow> Inl capability_unavailable | Some raw \<Rightarrow> delegated_candidate raw))) (\<lambda>candidate.
      if \<not> is_canonical_managed_cgroup_root cwd candidate then return_run (Inl capability_unavailable)
      else
      bind_run (validate_root fs candidate) (\<lambda>checked.
      if checked \<noteq> candidate \<or> \<not> scope_within cwd CGROUPS_V2_ROOT checked then return_run (Inl capability_unavailable)
      else bind_run (required_controllers fs checked) (\<lambda>_. return_run (Inr checked)))))"

section \<open>Creation\<close>

definition ensure_controller_delegation :: "'s cgroup_fs \<Rightarrow> string \<Rightarrow> ('s, unit) cgroup_run" where
  "ensure_controller_delegation fs parent =
     (let control = path_join [parent, ''cgroup.subtree_control''] in
      bind_run (read_bounded fs control) (\<lambda>current.
      case current of None \<Rightarrow> return_run (Inl setup_failed)
      | Some t \<Rightarrow>
          let words = white_fields t []; missing = filter (\<lambda>c. CHR ''+'' # c \<notin> set words \<and> c \<notin> set words) CONTROLLERS in
          if missing = [] then return_run (Inr ())
          else bind_run (write_file fs control (join_with CHR '' '' (map (\<lambda>c. CHR ''+'' # c) missing)))
            (\<lambda>ok. return_run (require ok setup_failed))))"

definition reconcile_existing_scope ::
  "'s cgroup_fs \<Rightarrow> (string \<Rightarrow> int option) \<Rightarrow> string \<Rightarrow> ('s, unit) cgroup_run" where
  "reconcile_existing_scope fs numbers scope_path =
     bind_run (read_bounded fs (path_join [scope_path, ''cgroup.events''])) (\<lambda>events.
     case parse_population events of None \<Rightarrow> return_run (Inl setup_failed)
     | Some populated \<Rightarrow>
     bind_run (read_bounded fs (path_join [scope_path, ''cgroup.procs''])) (\<lambda>procs.
     case parse_process_ids numbers procs of None \<Rightarrow> return_run (Inl setup_failed)
     | Some processes \<Rightarrow>
     if populated = 1 \<or> processes \<noteq> [] then return_run (Inl scope_conflict)
     else
     bind_run (remove_dir fs scope_path) (\<lambda>removed.
     if \<not> removed then return_run (Inl setup_failed)
     else
     bind_run (make_dir fs scope_path) (\<lambda>outcome.
     case outcome of
       DirMade \<Rightarrow> return_run (Inr ())
     | DirFailed \<Rightarrow> return_run (Inl setup_failed)
     | DirExists \<Rightarrow>
         bind_run (read_bounded fs (path_join [scope_path, ''cgroup.procs''])) (\<lambda>replacement.
         return_run (Inl (if parse_process_ids numbers replacement = Some [] then setup_failed else scope_conflict)))))))"

fun write_all :: "'s cgroup_fs \<Rightarrow> string \<Rightarrow> (string \<times> string) list \<Rightarrow> ('s, unit) cgroup_run" where
  "write_all fs scope [] = return_run (Inr ())"
| "write_all fs scope ((file, value) # rest) =
     bind_run (write_file fs (path_join [scope, file]) value)
       (\<lambda>ok. if ok then write_all fs scope rest else return_run (Inl setup_failed))"

definition apply_cgroup_limits :: "'s cgroup_fs \<Rightarrow> string \<Rightarrow> limit_profile \<Rightarrow> ('s, unit) cgroup_run" where
  "apply_cgroup_limits fs scope limits = write_all fs scope (limit_writes limits)"

text \<open>The limits of a scope made by this call; when they cannot be applied the scope is removed and the error kept.\<close>

definition limit_new_scope :: "'s cgroup_fs \<Rightarrow> string \<Rightarrow> limit_profile \<Rightarrow> ('s, unit) cgroup_run" where
  "limit_new_scope fs scope_path limits w =
     (case apply_cgroup_limits fs scope_path limits w of
        (Inr u, w') \<Rightarrow> (Inr u, w')
      | (Inl e, w') \<Rightarrow> bind_run (remove_dir fs scope_path) (\<lambda>_. return_run (Inl e)) w')"

definition create_cgroup_scope ::
  "(string \<Rightarrow> string) \<Rightarrow> abs_path \<Rightarrow> (string \<Rightarrow> int option) \<Rightarrow> 's cgroup_fs \<Rightarrow> cgroup_identity \<Rightarrow> string option \<Rightarrow>
   limit_profile \<Rightarrow> string option \<Rightarrow> ('s, cgroup_scope) cgroup_run" where
  "create_cgroup_scope sha cwd numbers fs identity root limits boot_id =
     (if \<not> cgroup_identity_ok identity then return_run (Inl setup_failed)
      else
      bind_run (return_run (validate_limits limits)) (\<lambda>checked.
      bind_run (validate_root fs (case root of Some r \<Rightarrow> r | None \<Rightarrow> CGROUPS_V2_ROOT)) (\<lambda>real.
      bind_run (required_controllers fs real) (\<lambda>_.
      bind_run (return_run (derive_cgroup_scope_name sha identity)) (\<lambda>name.
      let parent = path_join [real, ''nawabari'']; scope_path = path_join [parent, name] in
      if \<not> (scope_within cwd real parent \<and> scope_within cwd real scope_path) then return_run (Inl setup_failed)
      else
      bind_run (make_dir fs parent) (\<lambda>made_parent.
      if made_parent = DirFailed then return_run (Inl setup_failed)
      else
      bind_run (ensure_controller_delegation fs parent) (\<lambda>_.
      bind_run (make_dir fs scope_path) (\<lambda>made.
      bind_run (case made of DirMade \<Rightarrow> return_run (Inr ()) | DirFailed \<Rightarrow> return_run (Inl setup_failed)
        | DirExists \<Rightarrow> reconcile_existing_scope fs numbers scope_path) (\<lambda>_.
      bind_run (limit_new_scope fs scope_path checked) (\<lambda>_.
      return_run (Inr \<lparr>cs_contract_id = CGROUPS_V2_CONTRACT_ID, cs_root = real, cs_parent = parent, cs_path = scope_path,
        cs_name = name, cs_identity = identity, cs_boot_id = boot_id, cs_limits = checked\<rparr>)))))))))))"

section \<open>Attachment, termination and removal\<close>

definition attach_process_to_cgroup ::
  "(string \<Rightarrow> string) \<Rightarrow> abs_path \<Rightarrow> 's cgroup_fs \<Rightarrow> cgroup_scope \<Rightarrow> int \<Rightarrow> ('s, unit) cgroup_run" where
  "attach_process_to_cgroup sha cwd fs scope pid =
     (if \<not> positive_safe pid \<or> verifies_scope_identity sha cwd scope \<noteq> Inr True then return_run (Inl setup_failed)
      else bind_run (write_file fs (path_join [cs_path scope, ''cgroup.procs'']) (decimal (nat pid)))
        (\<lambda>ok. return_run (require ok setup_failed)))"

definition terminate_cgroup_scope ::
  "(string \<Rightarrow> string) \<Rightarrow> abs_path \<Rightarrow> 's cgroup_fs \<Rightarrow> (string \<Rightarrow> int option) \<Rightarrow> cgroup_scope \<Rightarrow>
   ('s, cgroup_population) cgroup_run" where
  "terminate_cgroup_scope sha cwd fs numbers scope =
     bind_run (return_run (verifies_scope_identity sha cwd scope)) (\<lambda>verified.
     if \<not> verified then return_run (Inl cleanup_failed)
     else
     bind_run (read_cgroup_population fs numbers scope) (\<lambda>population.
     if cp_state population = PopulationUnknown \<or> cp_processes population = None then return_run (Inl cleanup_failed)
     else if cp_state population = Populated
     then
       bind_run (write_file fs (path_join [cs_path scope, ''cgroup.kill'']) ''1'') (\<lambda>killed.
       if \<not> killed then return_run (Inl cleanup_failed)
       else
       bind_run (read_cgroup_population fs numbers scope) (\<lambda>after.
       return_run (if cp_state after \<noteq> PopulationEmpty then Inl cleanup_failed else Inr after)))
     else return_run (Inr population)))"

definition cleanup_cgroup_scope ::
  "(string \<Rightarrow> string) \<Rightarrow> abs_path \<Rightarrow> 's cgroup_fs \<Rightarrow> (string \<Rightarrow> int option) \<Rightarrow> cgroup_scope \<Rightarrow>
   ('s, bool \<times> cgroup_population) cgroup_run" where
  "cleanup_cgroup_scope sha cwd fs numbers scope =
     bind_run (terminate_cgroup_scope sha cwd fs numbers scope) (\<lambda>after.
     bind_run (remove_dir fs (cs_path scope)) (\<lambda>removed.
     return_run (if removed then Inr (True, after) else Inl cleanup_failed)))"

section \<open>What a run leaves in the log\<close>

definition leaves :: "('s, 'a) cgroup_run \<Rightarrow> (execution_failure + 'a \<Rightarrow> cgroup_event list \<Rightarrow> bool) \<Rightarrow> bool" where
  "leaves m Q \<longleftrightarrow> (\<forall>w. \<exists>l. cw_log (snd (m w)) = cw_log w @ l \<and> Q (fst (m w)) l)"

named_theorems leaves_intros

lemma leaves_result:
  assumes "leaves m Q" "m w = (r, w')"
  shows "\<exists>l. cw_log w' = cw_log w @ l \<and> Q r l"
  using assms(1) [unfolded leaves_def, rule_format, of w] assms(2) by auto

lemma leaves_run:
  assumes "leaves m Q" "m w = (r, w')"
  obtains l where "cw_log w' = cw_log w @ l" "Q r l"
  using leaves_result [OF assms] by blast

lemma leaves_weaken: "leaves m Q \<Longrightarrow> (\<And>r l. Q r l \<Longrightarrow> R r l) \<Longrightarrow> leaves m R"
  unfolding leaves_def by blast

lemma leaves_return [leaves_intros]: "Q r [] \<Longrightarrow> leaves (return_run r) Q"
  by (simp add: leaves_def return_run_def)

lemma leaves_probe [leaves_intros]: "(\<And>a. Q (Inr a) []) \<Longrightarrow> leaves (probe f) Q"
  by (auto simp: leaves_def probe_def split: prod.splits)

lemma leaves_logged: "(\<And>a. Q (Inr a) [event a]) \<Longrightarrow> leaves (logged event f) Q"
  by (auto simp: leaves_def logged_def split: prod.splits)

lemma leaves_bind [leaves_intros]:
  assumes "leaves m (\<lambda>r l. case r of Inl e \<Rightarrow> Q (Inl e) l | Inr a \<Rightarrow> leaves (f a) (\<lambda>r' l'. Q r' (l @ l')))"
  shows "leaves (bind_run m f) Q"
  unfolding leaves_def
proof
  fix w
  obtain r w1 where m: "m w = (r, w1)" by fastforce
  obtain l where l: "cw_log w1 = cw_log w @ l"
    and Q: "case r of Inl e \<Rightarrow> Q (Inl e) l | Inr a \<Rightarrow> leaves (f a) (\<lambda>r' l'. Q r' (l @ l'))"
    by (rule leaves_run [OF assms m])
  show "\<exists>l. cw_log (snd (bind_run m f w)) = cw_log w @ l \<and> Q (fst (bind_run m f w)) l"
  proof (cases r)
    case (Inr a)
    obtain r' w' where f: "f a w1 = (r', w')" by fastforce
    have "leaves (f a) (\<lambda>r' l'. Q r' (l @ l'))" using Q by (simp add: Inr)
    from leaves_run [OF this f] obtain l' where "cw_log w' = cw_log w1 @ l'" "Q r' (l @ l')" .
    then show ?thesis using l m f Inr by (auto simp: bind_run_def)
  qed (use l Q m in \<open>auto simp: bind_run_def\<close>)
qed

lemma leaves_primitives [leaves_intros]:
  "(\<And>t. Q (Inr t) [FileRead file t]) \<Longrightarrow> leaves (read_bounded fs file) Q"
  "(\<And>ok. R (Inr ok) [FileWritten file value ok]) \<Longrightarrow> leaves (write_file fs file value) R"
  "(\<And>r. S (Inr r) [MakeDir dir r]) \<Longrightarrow> leaves (make_dir fs dir) S"
  "(\<And>ok. R (Inr ok) [RemoveDir dir ok]) \<Longrightarrow> leaves (remove_dir fs dir) R"
  by (simp_all add: read_bounded_def write_file_def make_dir_def remove_dir_def leaves_logged)

lemma leaves_if [leaves_intros]: "(p \<Longrightarrow> leaves a Q) \<Longrightarrow> (\<not> p \<Longrightarrow> leaves b Q) \<Longrightarrow> leaves (if p then a else b) Q"
  by simp

lemma leaves_option [leaves_intros]:
  "(x = None \<Longrightarrow> leaves a Q) \<Longrightarrow> (\<And>y. x = Some y \<Longrightarrow> leaves (b y) Q) \<Longrightarrow> leaves (case x of None \<Rightarrow> a | Some y \<Rightarrow> b y) Q"
  by (cases x) auto

lemma leaves_made [leaves_intros]:
  "(x = DirMade \<Longrightarrow> leaves a Q) \<Longrightarrow> (x = DirExists \<Longrightarrow> leaves b Q) \<Longrightarrow> (x = DirFailed \<Longrightarrow> leaves c Q) \<Longrightarrow>
   leaves (case x of DirMade \<Rightarrow> a | DirExists \<Rightarrow> b | DirFailed \<Rightarrow> c) Q"
  by (cases x) auto

lemma leaves_sum_case [leaves_intros]:
  "(\<And>e. r = Inl e \<Longrightarrow> A e) \<Longrightarrow> (\<And>a. r = Inr a \<Longrightarrow> B a) \<Longrightarrow> (case r of Inl e \<Rightarrow> A e | Inr a \<Rightarrow> B a)"
  by (cases r) auto

section \<open>Removal and freshness\<close>

text \<open>The last two events, given in reverse, are reads that show the scope empty.\<close>

definition proved_empty :: "(string \<Rightarrow> int option) \<Rightarrow> string \<Rightarrow> cgroup_event list \<Rightarrow> bool" where
  "proved_empty numbers dir seen \<longleftrightarrow>
     (\<exists>procs events earlier. seen = FileRead (path_join [dir, ''cgroup.procs'']) procs #
        FileRead (path_join [dir, ''cgroup.events'']) events # earlier \<and>
        parse_population events = Some 0 \<and> parse_process_ids numbers procs = Some [])"

text \<open>Every directory that is removed was proved empty just before, or made in the same run.\<close>

fun removals_proven :: "(string \<Rightarrow> int option) \<Rightarrow> cgroup_event list \<Rightarrow> cgroup_event list \<Rightarrow> bool" where
  "removals_proven numbers seen [] = True"
| "removals_proven numbers seen (e # es) \<longleftrightarrow>
     (case e of RemoveDir dir _ \<Rightarrow> proved_empty numbers dir seen \<or> MakeDir dir DirMade \<in> set seen | _ \<Rightarrow> True) \<and>
     removals_proven numbers (e # seen) es"

text \<open>Whether a directory is there as this run made it\<close>

fun made_after :: "string \<Rightarrow> bool \<Rightarrow> cgroup_event list \<Rightarrow> bool" where
  "made_after dir made [] = made"
| "made_after dir made (e # es) =
     made_after dir (case e of MakeDir d outcome \<Rightarrow> made \<or> d = dir \<and> outcome = DirMade | RemoveDir d _ \<Rightarrow> made \<and> d \<noteq> dir | _ \<Rightarrow> made) es"

abbreviation holds_made :: "string \<Rightarrow> cgroup_event list \<Rightarrow> bool" where
  "holds_made dir l \<equiv> made_after dir False l"

lemma made_append [simp]: "made_after dir made (l @ l') = made_after dir (made_after dir made l) l'"
  by (induction l arbitrary: made) auto

lemma removals_append [simp]:
  "removals_proven numbers seen (l @ l') \<longleftrightarrow> removals_proven numbers seen l \<and> removals_proven numbers (rev l @ seen) l'"
  by (induction l arbitrary: seen) auto

definition only_reads :: "cgroup_event list \<Rightarrow> bool" where
  "only_reads l \<longleftrightarrow> (\<forall>e \<in> set l. \<exists>f t. e = FileRead f t)"

definition only_writes :: "string \<Rightarrow> cgroup_event list \<Rightarrow> bool" where
  "only_writes dir l \<longleftrightarrow> (\<forall>e \<in> set l. \<exists>f v ok. e = FileWritten (path_join [dir, f]) v ok)"

lemma write_all_leaves: "leaves (write_all fs dir ws) (\<lambda>r l. only_writes dir l)"
proof (induction ws)
  case (Cons w ws)
  obtain f v where w: "w = (f, v)" by fastforce
  have one: "only_writes dir (FileWritten (path_join [dir, f]) v ok # l)" if "only_writes dir l" for ok l
    using that by (auto simp: only_writes_def)
  show ?case
    unfolding w write_all.simps
    by (intro leaves_intros) (auto intro: one leaves_weaken [OF Cons] simp: only_writes_def)
qed (simp add: only_writes_def leaves_return)

lemma population_cases: "parse_population t = Some n \<Longrightarrow> n = 0 \<or> n = 1"
  by (auto simp: parse_population_def split: option.splits if_splits)

lemma population_empty:
  "cp_state (population_of p q) = PopulationEmpty \<longleftrightarrow> (\<exists>n. p = Some n \<and> n \<noteq> 1) \<and> q = Some []"
  by (auto simp: population_of_def split: option.splits)

lemma empty_reads:
  "cp_state (population_of (parse_population events) (parse_process_ids numbers procs)) = PopulationEmpty \<Longrightarrow>
   parse_population events = Some 0 \<and> parse_process_ids numbers procs = Some []"
  using population_cases by (fastforce simp: population_empty)

lemma population_known:
  "cp_state p \<noteq> PopulationUnknown \<Longrightarrow> cp_state p \<noteq> Populated \<Longrightarrow> cp_state p = PopulationEmpty"
  by (cases "cp_state p") auto

lemma population_leaves:
  "leaves (read_cgroup_population fs numbers scope)
     (\<lambda>r l. only_reads l \<and> (\<forall>x. r = Inr x \<longrightarrow> cp_state x = Populated \<or> cp_state x = PopulationUnknown \<or>
        cp_state x = PopulationEmpty \<and> proved_empty numbers (cs_path scope) (rev l) \<and>
        (\<forall>seen. proved_empty numbers (cs_path scope) (rev l @ seen))))"
  unfolding read_cgroup_population_def
  by (intro leaves_intros) (auto simp: only_reads_def proved_empty_def dest: empty_reads population_known)

lemma reads_change_nothing:
  "only_reads l \<Longrightarrow> RemoveDir d ok \<notin> set l" "only_reads l \<Longrightarrow> MakeDir d x \<notin> set l" "only_reads l \<Longrightarrow> FileWritten f v ok \<notin> set l"
  by (auto simp: only_reads_def)

lemma reconcile_leaves:
  "leaves (reconcile_existing_scope fs numbers dir)
     (\<lambda>r l. (\<forall>seen. removals_proven numbers seen l) \<and>
        (\<forall>u made. r = Inr u \<longrightarrow> made_after dir made l \<and> MakeDir dir DirMade \<in> set l))"
  unfolding reconcile_existing_scope_def
  by (intro leaves_intros) (auto simp: proved_empty_def dest: population_cases)

text \<open>Steps that make and remove no directory\<close>

definition no_dirs :: "cgroup_event list \<Rightarrow> bool" where
  "no_dirs l \<longleftrightarrow> (\<forall>e \<in> set l. \<forall>d x ok. e \<noteq> MakeDir d x \<and> e \<noteq> RemoveDir d ok)"

lemma no_dirs_simps [simp]: "no_dirs []" "no_dirs (e # l) \<longleftrightarrow> (\<forall>d x ok. e \<noteq> MakeDir d x \<and> e \<noteq> RemoveDir d ok) \<and> no_dirs l"
  by (auto simp: no_dirs_def)

lemma no_dirs_removals [simp]: "no_dirs l \<Longrightarrow> removals_proven numbers seen l"
  by (induction l arbitrary: seen) (auto split: cgroup_event.split)

lemma no_dirs_made [simp]: "no_dirs l \<Longrightarrow> made_after d made l = made"
  by (induction l) (auto split: cgroup_event.split)

lemma writes_no_dirs: "only_writes dir l \<Longrightarrow> no_dirs l"
  by (auto simp: only_writes_def no_dirs_def)

lemma limit_leaves:
  "leaves (limit_new_scope fs dir limits)
     (\<lambda>r l. (\<forall>seen. MakeDir dir DirMade \<in> set seen \<longrightarrow> removals_proven numbers seen l) \<and> (\<forall>u. r = Inr u \<longrightarrow> no_dirs l))"
  unfolding leaves_def
proof
  fix w
  obtain r w1 where run: "apply_cgroup_limits fs dir limits w = (r, w1)" by fastforce
  obtain l where l: "cw_log w1 = cw_log w @ l" "only_writes dir l"
    using leaves_run [OF write_all_leaves run [unfolded apply_cgroup_limits_def]] by blast
  show "\<exists>l. cw_log (snd (limit_new_scope fs dir limits w)) = cw_log w @ l \<and>
     (\<forall>seen. MakeDir dir DirMade \<in> set seen \<longrightarrow> removals_proven numbers seen l) \<and>
     (\<forall>u. fst (limit_new_scope fs dir limits w) = Inr u \<longrightarrow> no_dirs l)"
  proof (cases r)
    case (Inl e)
    then show ?thesis
      using run l writes_no_dirs [OF l(2)]
      by (auto simp: limit_new_scope_def bind_run_def remove_dir_def logged_def return_run_def split: prod.splits)
  qed (use run l writes_no_dirs [OF l(2)] in \<open>auto simp: limit_new_scope_def\<close>)
qed

lemma preparation_leaves:
  "leaves (validate_root fs root) (\<lambda>r l. no_dirs l)" "leaves (required_controllers fs dir) (\<lambda>r l. no_dirs l)"
  "leaves (ensure_controller_delegation fs dir) (\<lambda>r l. no_dirs l)"
  unfolding validate_root_def required_controllers_def ensure_controller_delegation_def Let_def
  by (intro leaves_intros; simp)+

lemma scope_leaves:
  "leaves (bind_run (make_dir fs dir) (\<lambda>made.
      bind_run (case made of DirMade \<Rightarrow> return_run (Inr ()) | DirExists \<Rightarrow> reconcile_existing_scope fs numbers dir
        | DirFailed \<Rightarrow> return_run (Inl setup_failed)) (\<lambda>_.
      bind_run (limit_new_scope fs dir limits) (\<lambda>_. return_run (Inr scope)))))
     (\<lambda>r l. (\<forall>seen. removals_proven numbers seen l) \<and> (\<forall>s made. r = Inr s \<longrightarrow> s = scope \<and> made_after dir made l))"
  by (intro leaves_intros leaves_weaken [OF reconcile_leaves] leaves_weaken [OF limit_leaves [where numbers = numbers]])
    auto

lemma verified_identity:
  "verifies_scope_identity sha cwd s = Inr True \<Longrightarrow>
   derive_cgroup_scope_name sha (cs_identity s) = Inr (path_basename (cs_path s)) \<and> scope_within cwd (cs_root s) (cs_path s) \<and>
   cs_path s = path_join [cs_root s, ''nawabari'', cs_name s]"
  by (auto simp: verifies_scope_identity_def bind_sum_eq_Inr split: if_split_asm)

lemma terminate_leaves:
  "leaves (terminate_cgroup_scope sha cwd fs numbers scope)
    (\<lambda>r l. (\<forall>d ok. RemoveDir d ok \<notin> set l) \<and> (\<forall>d x. MakeDir d x \<notin> set l) \<and>
      (\<forall>f v ok. FileWritten f v ok \<in> set l \<longrightarrow> f = path_join [cs_path scope, ''cgroup.kill''] \<and> v = ''1'' \<and>
         verifies_scope_identity sha cwd scope = Inr True) \<and>
      (\<forall>after. r = Inr after \<longrightarrow> cp_state after = PopulationEmpty \<and> verifies_scope_identity sha cwd scope = Inr True \<and>
         proved_empty numbers (cs_path scope) (rev l)))"
  unfolding terminate_cgroup_scope_def
  by (intro leaves_intros leaves_weaken [OF population_leaves]) (auto simp: reads_change_nothing)

lemma proved_more: "proved_empty numbers dir seen \<Longrightarrow> proved_empty numbers dir (seen @ earlier)"
  by (auto simp: proved_empty_def)

section \<open>Properties\<close>

text \<open>A scope is never adopted with processes in it: however the file system answers, a successful creation has made the
  directory of the scope itself and it is the one the identity names below the root, and every directory that the call
  removes it has made itself or proved empty by the two kernel files read just before.\<close>

theorem scope_is_made_afresh:
  assumes "create_cgroup_scope sha cwd numbers fs identity root limits boot w = (r, w')"
  shows "\<exists>l. cw_log w' = cw_log w @ l \<and> removals_proven numbers [] l \<and>
    (\<forall>scope. r = Inr scope \<longrightarrow> holds_made (cs_path scope) l \<and> cs_identity scope = identity \<and>
       derive_cgroup_scope_name sha identity = Inr (cs_name scope) \<and>
       cs_path scope = path_join [path_join [cs_root scope, ''nawabari''], cs_name scope])"
proof -
  have "leaves (create_cgroup_scope sha cwd numbers fs identity root limits boot)
    (\<lambda>r l. removals_proven numbers [] l \<and> (\<forall>scope. r = Inr scope \<longrightarrow> holds_made (cs_path scope) l \<and> cs_identity scope = identity \<and>
       derive_cgroup_scope_name sha identity = Inr (cs_name scope) \<and>
       cs_path scope = path_join [path_join [cs_root scope, ''nawabari''], cs_name scope]))"
    unfolding create_cgroup_scope_def Let_def
    by (intro leaves_weaken [OF scope_leaves] preparation_leaves [THEN leaves_weaken] leaves_intros) auto
  from leaves_result [OF this assms] show ?thesis .
qed

text \<open>Only an empty scope is left behind as terminated: the call that reports it has verified that the path is the one its
  identity names, has written nothing but the kill file of that path, and its last two reads show that no process is in
  the scope or below it.\<close>

theorem termination_proves_empty:
  assumes "terminate_cgroup_scope sha cwd fs numbers scope w = (r, w')"
  shows "\<exists>l. cw_log w' = cw_log w @ l \<and> (\<forall>d ok. RemoveDir d ok \<notin> set l) \<and> (\<forall>d x. MakeDir d x \<notin> set l) \<and>
    (\<forall>f v ok. FileWritten f v ok \<in> set l \<longrightarrow> f = path_join [cs_path scope, ''cgroup.kill''] \<and> v = ''1'' \<and>
       verifies_scope_identity sha cwd scope = Inr True) \<and>
    (\<forall>after. r = Inr after \<longrightarrow> cp_state after = PopulationEmpty \<and> verifies_scope_identity sha cwd scope = Inr True \<and>
       proved_empty numbers (cs_path scope) (rev l))"
proof -
  from leaves_result [OF terminate_leaves assms] show ?thesis .
qed

text \<open>The limits that reach the kernel are within their bounds: a CPU quota of at least one microsecond and at most its
  period, a period of a millisecond to a second, memory of at most a tebibyte, at most a million processes.\<close>

theorem applied_limits_are_bounded:
  assumes "validate_limits limits = Inr checked" "(f, v) \<in> set (limit_writes checked)"
  shows "f = ''cpu.max'' \<and> (\<exists>quota period. v = decimal quota @ '' '' @ decimal period \<and> 1 \<le> quota \<and> quota \<le> period \<and>
      1000 \<le> period \<and> period \<le> 1000000) \<or>
    f = ''memory.max'' \<and> (\<exists>n. v = decimal n \<and> 1 \<le> n \<and> n \<le> 2 ^ 40) \<or>
    f = ''pids.max'' \<and> (\<exists>n. v = decimal n \<and> 1 \<le> n \<and> n \<le> 1000000)"
proof -
  define period where "period = (case lp_cpu_period limits of None \<Rightarrow> 100000 | Some p \<Rightarrow> p)"
  have period: "1000 \<le> period" "period \<le> 1000000"
    and cpu: "\<And>n. lp_cpu_max limits = Some n \<Longrightarrow> 1 \<le> n \<and> n \<le> period"
    and memory: "\<And>n. lp_memory_max limits = Some n \<Longrightarrow> 1 \<le> n \<and> n \<le> MAX_MEMORY_LIMIT"
    and pids: "\<And>n. lp_pids_max limits = Some n \<Longrightarrow> 1 \<le> n \<and> n \<le> MAX_PIDS_LIMIT"
    and checked: "checked = limits\<lparr>lp_cpu_period := (if lp_cpu_max limits = None \<and> lp_cpu_period limits = None then None else Some period)\<rparr>"
    using assms(1) by (simp_all add: validate_limits_def bind_sum_eq_Inr limit_ok_def positive_safe_def flip: period_def)
  have writes: "limit_writes checked =
     (case lp_cpu_max limits of None \<Rightarrow> [] | Some n \<Rightarrow> [(''cpu.max'', decimal (nat n) @ '' '' @ decimal (nat period))]) @
     (case lp_memory_max limits of None \<Rightarrow> [] | Some n \<Rightarrow> [(''memory.max'', decimal (nat n))]) @
     (case lp_pids_max limits of None \<Rightarrow> [] | Some n \<Rightarrow> [(''pids.max'', decimal (nat n))])"
    by (simp add: limit_writes_def checked split: option.split)
  from assms(2) [unfolded writes] consider
    n where "lp_cpu_max limits = Some n" "f = ''cpu.max''" "v = decimal (nat n) @ '' '' @ decimal (nat period)"
    | n where "lp_memory_max limits = Some n" "f = ''memory.max''" "v = decimal (nat n)"
    | n where "lp_pids_max limits = Some n" "f = ''pids.max''" "v = decimal (nat n)"
    by (cases "lp_cpu_max limits"; cases "lp_memory_max limits"; cases "lp_pids_max limits") auto
  then show ?thesis
  proof cases
    case 1
    with cpu [OF 1(1)] period have "1 \<le> nat n \<and> nat n \<le> nat period \<and> 1000 \<le> nat period \<and> nat period \<le> 1000000" by linarith
    with 1 show ?thesis by blast
  next
    case 2
    with memory [OF 2(1)] have "1 \<le> nat n \<and> nat n \<le> 2 ^ 40" unfolding MAX_MEMORY_LIMIT_def by (auto simp: nat_le_iff le_nat_iff)
    with 2 show ?thesis by blast
  next
    case 3
    with pids [OF 3(1)] have "1 \<le> nat n \<and> nat n \<le> 1000000" unfolding MAX_PIDS_LIMIT_def by (auto simp: nat_le_iff le_nat_iff)
    with 3 show ?thesis by blast
  qed
qed

section \<open>A sample kernel\<close>

text \<open>Its state is the list of the directories below the root; every scope in it is empty.\<close>

definition sample_kernel :: "string list cgroup_fs" where
  "sample_kernel =
     \<lparr>cf_is_directory = (\<lambda>f s. (Some True, s)), cf_is_file = (\<lambda>f s. (Some True, s)), cf_realpath = (\<lambda>f s. (Some f, s)),
      cf_read = (\<lambda>f s. (Some (if suffix ''cgroup.events'' f then ''populated 0'' else if suffix ''cgroup.procs'' f then []
         else ''cpu memory pids''), s)),
      cf_write = (\<lambda>f v s. (True, s)),
      cf_mkdir = (\<lambda>d s. if d \<in> set s then (DirExists, s) else (DirMade, d # s)),
      cf_rmdir = (\<lambda>d s. (d \<in> set s, filter (\<lambda>x. x \<noteq> d) s))\<rparr>"

definition sample_numbers :: "string \<Rightarrow> int option" where
  "sample_numbers s = (if s \<noteq> [] \<and> list_all is_digit s then Some (int (CanonicalJson.digits_value 0 s)) else None)"

definition sample_sha :: "string \<Rightarrow> string" where "sample_sha s = replicate 64 CHR ''a''"

definition sample_limits :: limit_profile where
  "sample_limits = \<lparr>lp_cpu_max = None, lp_cpu_period = None, lp_memory_max = None, lp_pids_max = Some 8\<rparr>"

definition idle_scope :: cgroup_scope where
  "idle_scope =
     \<lparr>cs_contract_id = CGROUPS_V2_CONTRACT_ID, cs_root = ''/sys/fs/cgroup/u'', cs_parent = ''/sys/fs/cgroup/u/nawabari'',
      cs_path = ''/sys/fs/cgroup/u/nawabari/nawabari-'' @ replicate 48 CHR ''a'', cs_name = ''nawabari-'' @ replicate 48 CHR ''a'',
      cs_identity = \<lparr>cx_session_id = ''s'', cx_execution_id = ''e''\<rparr>, cs_boot_id = Some ''b'',
      cs_limits = sample_limits\<rparr>"

definition sample_cgroups :: "string list \<Rightarrow> string list cgroup_world" where
  "sample_cgroups dirs = \<lparr>cw_state = dirs, cw_log = []\<rparr>"

lemma sample_create:
  "fst (create_cgroup_scope sample_sha [] sample_numbers sample_kernel (cs_identity idle_scope) (Some (cs_root idle_scope))
     sample_limits (Some ''b'') (sample_cgroups [cs_path idle_scope])) = Inr idle_scope"
  by code_simp

lemma sample_terminate:
  "fst (terminate_cgroup_scope sample_sha [] sample_kernel sample_numbers idle_scope (sample_cgroups [cs_path idle_scope])) =
     Inr \<lparr>cp_state = PopulationEmpty, cp_populated = Some False, cp_processes = Some []\<rparr>"
  by code_simp

theorem scope_is_made_afresh_witness:
  "\<exists>l. removals_proven sample_numbers [] l \<and> holds_made (cs_path idle_scope) l"
proof -
  let ?run = "create_cgroup_scope sample_sha [] sample_numbers sample_kernel (cs_identity idle_scope) (Some (cs_root idle_scope))
     sample_limits (Some ''b'') (sample_cgroups [cs_path idle_scope])"
  have "?run = (Inr idle_scope, snd ?run)" using sample_create by (metis prod.collapse)
  from scope_is_made_afresh [OF this] show ?thesis by blast
qed

theorem termination_proves_empty_witness:
  "\<exists>l. proved_empty sample_numbers (cs_path idle_scope) l"
proof -
  let ?run = "terminate_cgroup_scope sample_sha [] sample_kernel sample_numbers idle_scope (sample_cgroups [cs_path idle_scope])"
  have "?run = (Inr \<lparr>cp_state = PopulationEmpty, cp_populated = Some False, cp_processes = Some []\<rparr>, snd ?run)"
    using sample_terminate by (metis prod.collapse)
  from termination_proves_empty [OF this] show ?thesis by blast
qed

theorem applied_limits_are_bounded_witness:
  "\<exists>quota period. decimal 50000 @ '' '' @ decimal 100000 = decimal quota @ '' '' @ decimal period \<and> (1 :: nat) \<le> quota \<and> quota \<le> period"
proof -
  let ?l = "\<lparr>lp_cpu_max = Some 50000, lp_cpu_period = None, lp_memory_max = None, lp_pids_max = None\<rparr>"
  have "validate_limits ?l = Inr (?l\<lparr>lp_cpu_period := Some 100000\<rparr>)"
    by (simp add: validate_limits_def limit_ok_def positive_safe_def is_safe_integer_def CoordinationTransactions.MAX_SAFE_INTEGER_def)
  moreover have "(''cpu.max'', decimal 50000 @ '' '' @ decimal 100000) \<in> set (limit_writes (?l\<lparr>lp_cpu_period := Some 100000\<rparr>))"
    by (simp add: limit_writes_def)
  ultimately show ?thesis using applied_limits_are_bounded by fastforce
qed

end
