(* ===== verification/ProcessObservation.thy ===== *)
theory ProcessObservation
  imports CgroupScopes
begin

text \<open>
  src/src/domain/session-process-observation.ts: the observation and the termination of one owned execution by the cgroup
  scope that its lease names. The lease may carry a scope object (a test seam of the source), which is checked like the
  rest of it. Of the evidence in an observation the name of the scope and the state of its population are kept.
\<close>

section \<open>Leases\<close>

record cgroup_lease =
  cl_contract_id :: string
  cl_root :: string
  cl_parent :: string
  cl_path :: string
  cl_name :: string
  cl_boot_id :: string
  cl_identity :: cgroup_identity
  cl_scope :: "cgroup_scope option"

datatype lease_state = LeaseActive | LeaseTerminating | LeaseTerminal

record lease_record =
  lr_session_id :: string
  lr_execution_id :: string
  lr_boot_id :: string
  lr_state :: lease_state
  lr_cgroups :: "cgroup_lease option"

record owned_observation =
  oo_contract_id :: string
  oo_session_id :: string
  oo_execution_id :: string
  oo_boot_id :: string
  oo_state :: string
  oo_cgroups :: "(string \<times> string) option"

record termination_intent =
  ti_kind :: string
  ti_session_id :: string
  ti_execution_id :: string
  ti_boot_id :: string

record owned_termination =
  ot_session_id :: string
  ot_execution_id :: string
  ot_boot_id :: string
  ot_killed :: bool
  ot_before :: cgroup_population
  ot_after :: cgroup_population
  ot_scope_removed :: bool
  ot_record :: lease_record

definition SESSION_PROCESS_OBSERVATION_CONTRACT_ID :: string where
  "SESSION_PROCESS_OBSERVATION_CONTRACT_ID = ''nawabari.session-process-observation.v1''"

definition valid_token :: "string \<Rightarrow> bool" where
  "valid_token s \<longleftrightarrow> s \<noteq> [] \<and> length s \<le> 256 \<and> NUL \<notin> set s"

definition lease_owned :: "lease_record \<Rightarrow> cgroup_lease \<Rightarrow> bool" where
  "lease_owned r lease \<longleftrightarrow>
     valid_token (lr_session_id r) \<and> valid_token (lr_execution_id r) \<and> valid_token (lr_boot_id r) \<and>
     valid_token (cl_boot_id lease) \<and> lr_boot_id r = cl_boot_id lease \<and>
     cx_session_id (cl_identity lease) = lr_session_id r \<and> cx_execution_id (cl_identity lease) = lr_execution_id r"

definition lease_canonical :: "lease_record \<Rightarrow> cgroup_lease \<Rightarrow> bool" where
  "lease_canonical r lease \<longleftrightarrow>
     cl_contract_id lease = CGROUPS_V2_CONTRACT_ID \<and> prefix ''/'' (cl_root lease) \<and> prefix ''/'' (cl_parent lease) \<and>
     prefix ''/'' (cl_path lease) \<and> NUL \<notin> set (cl_root lease) \<and> NUL \<notin> set (cl_parent lease) \<and> NUL \<notin> set (cl_path lease) \<and>
     cl_path lease = path_join [cl_root lease, ''nawabari'', cl_name lease] \<and>
     cl_parent lease = path_join [cl_root lease, ''nawabari''] \<and>
     (case cl_scope lease of None \<Rightarrow> True
      | Some s \<Rightarrow> (case cs_boot_id s of None \<Rightarrow> True | Some b \<Rightarrow> b = cl_boot_id lease) \<and>
          cx_session_id (cs_identity s) = lr_session_id r \<and> cx_execution_id (cs_identity s) = lr_execution_id r \<and>
          cs_path s = cl_path lease)"

definition scope_of_lease :: "cgroup_lease \<Rightarrow> cgroup_scope" where
  "scope_of_lease lease =
     (case cl_scope lease of Some s \<Rightarrow> s
      | None \<Rightarrow> \<lparr>cs_contract_id = cl_contract_id lease, cs_root = cl_root lease, cs_parent = cl_parent lease, cs_path = cl_path lease,
          cs_name = cl_name lease, cs_identity = cl_identity lease, cs_boot_id = Some (cl_boot_id lease),
          cs_limits = \<lparr>lp_cpu_max = None, lp_cpu_period = None, lp_memory_max = None, lp_pids_max = None\<rparr>\<rparr>)"

definition lease_scope :: "lease_record \<Rightarrow> string option \<Rightarrow> execution_failure + cgroup_scope option" where
  "lease_scope r current_boot =
     (case lr_cgroups r of None \<Rightarrow> Inr None
      | Some lease \<Rightarrow>
          if (case current_boot of None \<Rightarrow> False | Some b \<Rightarrow> b \<noteq> lr_boot_id r) then Inl cleanup_failed
          else if \<not> lease_owned r lease then Inl cleanup_failed
          else if \<not> lease_canonical r lease then Inl cleanup_failed
          else Inr (Some (scope_of_lease lease)))"

section \<open>Observation and termination\<close>

fun population_name :: "population_state \<Rightarrow> string" where
  "population_name PopulationEmpty = ''empty''"
| "population_name Populated = ''populated''"
| "population_name PopulationUnknown = ''unknown''"

text \<open>The accounting that an observation carries for display is read and not kept.\<close>

definition observe_owned_execution ::
  "'s cgroup_fs \<Rightarrow> (string \<Rightarrow> int option) \<Rightarrow> lease_record \<Rightarrow> string option \<Rightarrow> ('s, owned_observation) cgroup_run" where
  "observe_owned_execution fs numbers r current_boot =
     (let observation = (\<lambda>state cgroups. \<lparr>oo_contract_id = SESSION_PROCESS_OBSERVATION_CONTRACT_ID,
            oo_session_id = lr_session_id r, oo_execution_id = lr_execution_id r, oo_boot_id = lr_boot_id r,
            oo_state = state, oo_cgroups = cgroups\<rparr>) in
      bind_run (return_run (lease_scope r current_boot)) (\<lambda>scope.
      case scope of None \<Rightarrow> return_run (Inr (observation ''unknown'' None))
      | Some s \<Rightarrow>
          bind_run (read_cgroup_population fs numbers s) (\<lambda>population.
          bind_run (read_cgroup_accounting fs s) (\<lambda>_.
          return_run (Inr (observation
            (if cp_state population = Populated then ''active'' else population_name (cp_state population))
            (Some (cs_name s, population_name (cp_state population)))))))))"

definition terminate_owned_execution ::
  "(string \<Rightarrow> string) \<Rightarrow> abs_path \<Rightarrow> 's cgroup_fs \<Rightarrow> (string \<Rightarrow> int option) \<Rightarrow> lease_record \<Rightarrow> termination_intent \<Rightarrow>
   string option \<Rightarrow> bool \<Rightarrow> ('s, owned_termination) cgroup_run" where
  "terminate_owned_execution sha cwd fs numbers r intent current_boot retain =
     (if current_boot \<noteq> Some (lr_boot_id r) then return_run (Inl cleanup_failed)
      else if ti_kind intent \<noteq> ''terminate'' \<or> ti_session_id intent \<noteq> lr_session_id r \<or>
        ti_execution_id intent \<noteq> lr_execution_id r \<or> ti_boot_id intent \<noteq> lr_boot_id r then return_run (Inl cleanup_failed)
      else
      bind_run (return_run (lease_scope r current_boot)) (\<lambda>scope.
      case scope of None \<Rightarrow> return_run (Inl cleanup_failed)
      | Some s \<Rightarrow>
          bind_run (read_cgroup_population fs numbers s) (\<lambda>before.
          if cp_state before = PopulationUnknown then return_run (Inl cleanup_failed)
          else
          bind_run (if retain
              then bind_run (terminate_cgroup_scope sha cwd fs numbers s) (\<lambda>after. return_run (Inr (False, after)))
              else cleanup_cgroup_scope sha cwd fs numbers s) (\<lambda>(removed, after).
          if cp_state after \<noteq> PopulationEmpty then return_run (Inl cleanup_failed)
          else return_run (Inr
            \<lparr>ot_session_id = lr_session_id r, ot_execution_id = lr_execution_id r, ot_boot_id = lr_boot_id r,
             ot_killed = (cp_state before = Populated), ot_before = before, ot_after = after, ot_scope_removed = removed,
             ot_record = r\<lparr>lr_state := LeaseTerminal\<rparr>\<rparr>)))))"

section \<open>What a termination does\<close>

text \<open>The events of a termination: reads, the kill file of the directory, and the removal of the directory\<close>

definition terminates :: "string \<Rightarrow> bool \<Rightarrow> cgroup_event \<Rightarrow> bool" where
  "terminates dir removes e \<longleftrightarrow>
     (\<exists>ok. e = FileWritten (path_join [dir, ''cgroup.kill'']) ''1'' ok) \<or> removes \<and> (\<exists>ok. e = RemoveDir dir ok)"

definition bounded_termination :: "(string \<Rightarrow> int option) \<Rightarrow> bool \<Rightarrow> string \<Rightarrow> bool \<Rightarrow> cgroup_event list \<Rightarrow> bool" where
  "bounded_termination numbers verified dir removes l \<longleftrightarrow>
     (\<forall>seen. removals_proven numbers seen l) \<and> (\<forall>e \<in> set l. (\<exists>f t. e = FileRead f t) \<or> verified \<and> terminates dir removes e)"

lemma reads_bounded: "only_reads l \<Longrightarrow> bounded_termination numbers verified dir removes l"
proof -
  assume "only_reads l"
  then have "removals_proven numbers seen l" for seen
    by (induction l arbitrary: seen) (auto simp: only_reads_def)
  with \<open>only_reads l\<close> show ?thesis by (auto simp: bounded_termination_def only_reads_def)
qed

lemma bounded_append:
  "bounded_termination numbers verified dir removes l \<Longrightarrow> bounded_termination numbers verified dir removes l' \<Longrightarrow>
   bounded_termination numbers verified dir removes (l @ l')"
  by (auto simp: bounded_termination_def)

lemma terminate_bounded:
  "leaves (terminate_cgroup_scope sha cwd fs numbers s)
     (\<lambda>r l. bounded_termination numbers (verifies_scope_identity sha cwd s = Inr True) (cs_path s) False l \<and>
        (\<forall>after. r = Inr after \<longrightarrow> cp_state after = PopulationEmpty \<and> verifies_scope_identity sha cwd s = Inr True \<and>
           proved_empty numbers (cs_path s) (rev l)))"
proof (rule leaves_weaken [OF terminate_leaves [where sha = sha and cwd = cwd and fs = fs and numbers = numbers and scope = s]], elim conjE, intro conjI)
  fix r :: "execution_failure + cgroup_population" and l
  assume dirs: "\<forall>d ok. RemoveDir d ok \<notin> set l" "\<forall>d x. MakeDir d x \<notin> set l"
    and writes: "\<forall>f v ok. FileWritten f v ok \<in> set l \<longrightarrow> f = path_join [cs_path s, ''cgroup.kill''] \<and> v = ''1'' \<and>
       verifies_scope_identity sha cwd s = Inr True"
  have "no_dirs l" using dirs by (auto simp: no_dirs_def)
  moreover have "(\<exists>f t. e = FileRead f t) \<or> verifies_scope_identity sha cwd s = Inr True \<and> terminates (cs_path s) False e" if "e \<in> set l" for e
    by (cases e; use that dirs in \<open>auto simp: terminates_def dest: writes [rule_format]\<close>)
  ultimately show "bounded_termination numbers (verifies_scope_identity sha cwd s = Inr True) (cs_path s) False l"
    by (auto simp: bounded_termination_def)
qed

lemma bounded_removes: "bounded_termination numbers verified dir False l \<Longrightarrow> bounded_termination numbers verified dir removes l"
  by (auto simp: bounded_termination_def terminates_def)

lemma bounded_removal:
  assumes "bounded_termination numbers verified dir False l" "verified" "proved_empty numbers dir (rev l)"
  shows "bounded_termination numbers verified dir True (l @ [RemoveDir dir ok])"
  using assms proved_more [OF assms(3)] by (auto simp: bounded_termination_def terminates_def)

lemma cleanup_bounded:
  "leaves (cleanup_cgroup_scope sha cwd fs numbers s)
     (\<lambda>r l. bounded_termination numbers (verifies_scope_identity sha cwd s = Inr True) (cs_path s) True l \<and>
        (\<forall>x. r = Inr x \<longrightarrow> fst x \<and> cp_state (snd x) = PopulationEmpty))"
  unfolding cleanup_cgroup_scope_def
  by (intro leaves_weaken [OF terminate_bounded] leaves_intros)
    (auto intro: bounded_removes bounded_removal split: if_split_asm)

text \<open>The directory of the execution: the one its lease names, whose last part is derived from the identity of the record\<close>

definition own_directory :: "(string \<Rightarrow> string) \<Rightarrow> lease_record \<Rightarrow> string \<Rightarrow> bool" where
  "own_directory sha r dir \<longleftrightarrow>
     (\<exists>lease. lr_cgroups r = Some lease \<and> cl_path lease = dir \<and> lr_boot_id r = cl_boot_id lease \<and>
        derive_cgroup_scope_name sha \<lparr>cx_session_id = lr_session_id r, cx_execution_id = lr_execution_id r\<rparr> = Inr (path_basename dir))"

lemma lease_scope_Some:
  assumes "lease_scope r boot = Inr (Some s)"
  shows "\<exists>lease. lr_cgroups r = Some lease \<and> lease_owned r lease \<and> lease_canonical r lease \<and> s = scope_of_lease lease \<and>
    cs_path s = cl_path lease \<and>
    cs_identity s = \<lparr>cx_session_id = lr_session_id r, cx_execution_id = lr_execution_id r\<rparr>"
  using assms
  by (auto simp: lease_scope_def lease_owned_def lease_canonical_def scope_of_lease_def split: option.splits if_split_asm)

lemma scope_is_own:
  assumes "lease_scope r boot = Inr (Some s)" "verifies_scope_identity sha cwd s = Inr True"
  shows "own_directory sha r (cs_path s)"
  using lease_scope_Some [OF assms(1)] verified_identity [OF assms(2)] by (auto simp: own_directory_def lease_owned_def)

section \<open>Properties\<close>

lemma leaves_pair: "leaves (f (fst p) (snd p)) Q \<Longrightarrow> leaves (case p of (a, b) \<Rightarrow> f a b) Q"
  by (simp add: case_prod_beta)

lemma owned_leaves:
  "leaves (terminate_owned_execution sha cwd fs numbers r intent boot retain)
     (\<lambda>x l. (l = [] \<or> boot = Some (lr_boot_id r) \<and> ti_session_id intent = lr_session_id r \<and> ti_execution_id intent = lr_execution_id r \<and>
          (\<exists>s. lease_scope r boot = Inr (Some s) \<and>
             bounded_termination numbers (verifies_scope_identity sha cwd s = Inr True) (cs_path s) (\<not> retain) l)) \<and>
        (\<forall>t. x = Inr t \<longrightarrow> cp_state (ot_after t) = PopulationEmpty \<and> ot_scope_removed t = (\<not> retain) \<and>
          ot_record t = r\<lparr>lr_state := LeaseTerminal\<rparr>))"
  unfolding terminate_owned_execution_def
  by (intro leaves_weaken [OF population_leaves] leaves_weaken [OF terminate_bounded [where numbers = numbers]]
      leaves_weaken [OF cleanup_bounded [where numbers = numbers]] leaves_pair leaves_intros)
    (auto intro: bounded_append reads_bounded bounded_removes)

text \<open>C40: Terminating an execution kills nothing else: besides reading, the call writes only the kill file of the directory whose
  name the record's session and execution determine, and removes only that directory unless it is to be retained and
  only after two reads have just shown it empty; it does either only when the caller names this execution and the boot
  it runs in, and when it succeeds the execution is proved empty.\<close>

theorem termination_is_confined:
  assumes "terminate_owned_execution sha cwd fs numbers r intent boot retain w = (x, w')"
  shows "\<exists>l. cw_log w' = cw_log w @ l \<and> removals_proven numbers [] l \<and>
    (\<forall>e \<in> set l. (\<exists>f t. e = FileRead f t) \<or>
       boot = Some (lr_boot_id r) \<and> ti_session_id intent = lr_session_id r \<and> ti_execution_id intent = lr_execution_id r \<and>
       (\<exists>dir. own_directory sha r dir \<and> terminates dir (\<not> retain) e)) \<and>
    (\<forall>t. x = Inr t \<longrightarrow> cp_state (ot_after t) = PopulationEmpty \<and> ot_scope_removed t = (\<not> retain) \<and>
       ot_record t = r\<lparr>lr_state := LeaseTerminal\<rparr>)"
proof -
  obtain l where l: "cw_log w' = cw_log w @ l"
    and parts: "l = [] \<or> boot = Some (lr_boot_id r) \<and> ti_session_id intent = lr_session_id r \<and> ti_execution_id intent = lr_execution_id r \<and>
          (\<exists>s. lease_scope r boot = Inr (Some s) \<and>
             bounded_termination numbers (verifies_scope_identity sha cwd s = Inr True) (cs_path s) (\<not> retain) l)"
    and t: "\<forall>t. x = Inr t \<longrightarrow> cp_state (ot_after t) = PopulationEmpty \<and> ot_scope_removed t = (\<not> retain) \<and>
          ot_record t = r\<lparr>lr_state := LeaseTerminal\<rparr>"
    using leaves_run [OF owned_leaves [where numbers = numbers] assms] by blast
  have "removals_proven numbers [] l \<and> (\<forall>e \<in> set l. (\<exists>f t. e = FileRead f t) \<or>
       boot = Some (lr_boot_id r) \<and> ti_session_id intent = lr_session_id r \<and> ti_execution_id intent = lr_execution_id r \<and>
       (\<exists>dir. own_directory sha r dir \<and> terminates dir (\<not> retain) e))"
    using parts
  proof
    assume "boot = Some (lr_boot_id r) \<and> ti_session_id intent = lr_session_id r \<and> ti_execution_id intent = lr_execution_id r \<and>
      (\<exists>s. lease_scope r boot = Inr (Some s) \<and>
         bounded_termination numbers (verifies_scope_identity sha cwd s = Inr True) (cs_path s) (\<not> retain) l)"
    then show ?thesis using scope_is_own unfolding bounded_termination_def by blast
  qed simp
  with l t show ?thesis by blast
qed

section \<open>A sample\<close>

definition sample_lease :: lease_record where
  "sample_lease =
     \<lparr>lr_session_id = ''s'', lr_execution_id = ''e'', lr_boot_id = ''b'', lr_state = LeaseActive,
      lr_cgroups = Some \<lparr>cl_contract_id = CGROUPS_V2_CONTRACT_ID, cl_root = cs_root idle_scope, cl_parent = cs_parent idle_scope,
        cl_path = cs_path idle_scope, cl_name = cs_name idle_scope, cl_boot_id = ''b'', cl_identity = cs_identity idle_scope,
        cl_scope = None\<rparr>\<rparr>"

definition sample_intent_to_kill :: termination_intent where
  "sample_intent_to_kill = \<lparr>ti_kind = ''terminate'', ti_session_id = ''s'', ti_execution_id = ''e'', ti_boot_id = ''b''\<rparr>"

definition sample_ended :: owned_termination where
  "sample_ended =
     \<lparr>ot_session_id = ''s'', ot_execution_id = ''e'', ot_boot_id = ''b'', ot_killed = False,
      ot_before = \<lparr>cp_state = PopulationEmpty, cp_populated = Some False, cp_processes = Some []\<rparr>,
      ot_after = \<lparr>cp_state = PopulationEmpty, cp_populated = Some False, cp_processes = Some []\<rparr>, ot_scope_removed = True,
      ot_record = sample_lease\<lparr>lr_state := LeaseTerminal\<rparr>\<rparr>"

lemma sample_termination:
  "fst (terminate_owned_execution sample_sha [] sample_kernel sample_numbers sample_lease sample_intent_to_kill (Some ''b'') False
     (sample_cgroups [cs_path idle_scope])) = Inr sample_ended"
  by code_simp

theorem termination_is_confined_witness:
  "ot_scope_removed sample_ended = (\<not> False) \<and> cp_state (ot_after sample_ended) = PopulationEmpty"
proof -
  let ?run = "terminate_owned_execution sample_sha [] sample_kernel sample_numbers sample_lease sample_intent_to_kill (Some ''b'') False
     (sample_cgroups [cs_path idle_scope])"
  have "?run = (Inr sample_ended, snd ?run)" using sample_termination by (metis prod.collapse)
  from termination_is_confined [OF this] show ?thesis by blast
qed

text \<open>A kernel whose scope a process enters after the first observation; its state counts the reads of cgroup.events.\<close>

definition late_kernel :: "nat cgroup_fs" where
  "late_kernel =
     \<lparr>cf_is_directory = (\<lambda>f s. (Some True, s)), cf_is_file = (\<lambda>f s. (Some True, s)), cf_realpath = (\<lambda>f s. (Some f, s)),
      cf_read = (\<lambda>f s. if suffix ''cgroup.events'' f then (Some (if s = 1 then ''populated 1'' else ''populated 0''), s + 1)
         else (Some [], s)),
      cf_write = (\<lambda>f v s. (True, s)), cf_mkdir = (\<lambda>d s. (DirMade, s)), cf_rmdir = (\<lambda>d s. (True, s))\<rparr>"

text \<open>The answer \<open>killed\<close> is taken from an observation before the termination looks again: a process that enters the scope in
  between is killed, and the answer says that nothing was.\<close>

theorem kill_goes_unreported:
  "case terminate_owned_execution sample_sha [] late_kernel sample_numbers sample_lease sample_intent_to_kill (Some ''b'') False
      \<lparr>cw_state = 0, cw_log = []\<rparr> of
     (Inr t, w) \<Rightarrow> \<not> ot_killed t \<and>
       FileWritten (cs_path idle_scope @ ''/cgroup.kill'') ''1'' True \<in> set (cw_log w)
   | _ \<Rightarrow> False"
  by code_simp

end
