(* ===== verification/ExecutionControl.thy ===== *)
theory ExecutionControl
  imports ProcessObservation
begin

text \<open>
  src/src/domain/session-execution-control.ts: the drain of a session before it is closed, discarded or gives up claims. A
  fence closes the admission of launches through the registry (an authority that may fail or throw), observations of the
  owned executions are merged into it, and a finalization is handed out when nothing is left. Values have the
  declared shapes (a text that the source compares with its known values stays a text); details of errors are not kept.
\<close>

section \<open>Data\<close>

record drain_execution =
  dx_record :: execution_record
  dx_observation :: owned_observation

record drain_intent =
  di_operation :: string
  di_policy :: string
  di_observed_epoch :: "runtime_epoch option"
  di_executions :: "drain_execution list option"
  di_kernel_empty :: "bool option"
  di_idempotency_key :: "string option"

record admission_request =
  dr_session_id :: string
  dr_expected_epoch :: runtime_epoch
  dr_fence_id :: string
  dr_operation :: string

text \<open>What the admission authority answers: an error, or the admission and the epoch after it; \<open>None\<close> when it throws\<close>

type_synonym 's admission_authority =
  "admission_request \<Rightarrow> 's \<Rightarrow> (execution_failure + string \<times> runtime_epoch) option \<times> 's"

record drain_fence =
  df_contract_id :: string
  df_schema_version :: int
  df_session_id :: string
  df_fence_id :: string
  df_expected_epoch :: runtime_epoch
  df_observed_epoch :: runtime_epoch
  df_operation :: string
  df_policy :: string
  df_admission_epoch :: runtime_epoch
  df_admission :: string
  df_completion_observed :: bool
  df_status :: string
  df_executions :: "drain_execution list"
  df_active :: "string list"
  df_unknown :: "string list"
  df_missing :: "string list"
  df_kernel_empty :: bool
  df_next_action :: string
  df_idempotency_key :: "string option"

record drain_completion =
  dc_fence :: drain_fence
  dc_completed :: bool
  dc_safe_to_finalize :: bool
  dc_next_action :: string
  dc_active :: "string list"
  dc_unknown :: "string list"
  dc_missing :: "string list"

record execution_finalization =
  dz_session_id :: string
  dz_fence_id :: string
  dz_operation :: string
  dz_expected_epoch :: runtime_epoch
  dz_admission_epoch :: runtime_epoch


definition SESSION_EXECUTION_CONTROL_CONTRACT_ID :: string where
  "SESSION_EXECUTION_CONTROL_CONTRACT_ID = ''nawabari.session-execution-control.v1''"

definition SESSION_EXECUTION_CONTROL_SCHEMA_VERSION :: int where "SESSION_EXECUTION_CONTROL_SCHEMA_VERSION = 1"
definition MAX_DRAIN_ID_LENGTH :: nat where "MAX_DRAIN_ID_LENGTH = 256"
definition MAX_FENCE_LENGTH :: nat where "MAX_FENCE_LENGTH = 512"

abbreviation control_error :: execution_failure where "control_error \<equiv> ExecutionFailure ''OPERATION_REJECTED''"

definition is_bounded_text :: "nat \<Rightarrow> string \<Rightarrow> bool" where
  "is_bounded_text limit s \<longleftrightarrow> s \<noteq> [] \<and> length s \<le> limit \<and> NUL \<notin> set s"

definition is_epoch :: "runtime_epoch \<Rightarrow> bool" where
  "is_epoch e \<longleftrightarrow> (case e of EpochNumber n \<Rightarrow> is_safe_integer n \<and> 0 \<le> n | EpochText s \<Rightarrow> is_bounded_text MAX_DRAIN_ID_LENGTH s)"

definition drain_operation :: "string \<Rightarrow> bool" where
  "drain_operation s \<longleftrightarrow> s \<in> set [''close'', ''discard'', ''release-claims'']"

definition drain_policy :: "string \<Rightarrow> bool" where
  "drain_policy s \<longleftrightarrow> s \<in> set [''wait'', ''terminate'']"

definition drain_status :: "string \<Rightarrow> bool" where
  "drain_status s \<longleftrightarrow> s \<in> set [''draining'', ''waiting'', ''blocked'', ''drained'', ''terminated'']"

definition drain_next_action :: "string \<Rightarrow> bool" where
  "drain_next_action s \<longleftrightarrow>
     s \<in> set [''wait-for-drain'', ''terminate-owned-executions'', ''reobserve-drain'', ''retry-drain'', ''finalize-lifecycle'']"

section \<open>Evidence\<close>

definition validate_occupancy ::
  "(string \<Rightarrow> string) \<Rightarrow> execution_record \<Rightarrow> owned_observation \<Rightarrow> execution_failure + unit" where
  "validate_occupancy sha r ob =
     (case oo_cgroups ob of
        None \<Rightarrow> require (oo_state ob = ''unknown'') control_error
      | Some (scope, population) \<Rightarrow>
          bind_sum (require (is_bounded_text MAX_DRAIN_ID_LENGTH scope) execution_invalid) (\<lambda>_.
          bind_sum (require (population \<in> set [''populated'', ''empty'', ''unknown'']) execution_invalid) (\<lambda>_.
          case derive_cgroup_scope_name sha (er_cgroup_identity r) of
            Inl _ \<Rightarrow> Inl control_error
          | Inr expected \<Rightarrow>
          bind_sum (require (scope = expected) control_error) (\<lambda>_.
          require (oo_state ob = ''active'' \<and> population = ''populated'' \<or> oo_state ob = ''empty'' \<and> population = ''empty'' \<or>
            oo_state ob = ''unknown'' \<and> population = ''unknown'') control_error))))"

definition validate_execution ::
  "(string \<Rightarrow> string) \<Rightarrow> abs_path \<Rightarrow> (string \<Rightarrow> int option) \<Rightarrow> drain_execution \<Rightarrow> execution_failure + drain_execution" where
  "validate_execution sha cwd dates e =
     (let ob = dx_observation e in
      bind_sum (validate_record_shape cwd dates (execution_record_json (dx_record e))) (\<lambda>r.
      bind_sum (require (is_bounded_text MAX_DRAIN_ID_LENGTH (oo_session_id ob) \<and> is_bounded_text MAX_DRAIN_ID_LENGTH (oo_execution_id ob))
        execution_invalid) (\<lambda>_.
      bind_sum (require (oo_contract_id ob = SESSION_PROCESS_OBSERVATION_CONTRACT_ID) execution_invalid) (\<lambda>_.
      bind_sum (require (er_boot_id (dx_record e) = oo_boot_id ob) control_error) (\<lambda>_.
      bind_sum (require (er_session_id r = oo_session_id ob \<and> er_execution_id r = oo_execution_id ob) control_error) (\<lambda>_.
      bind_sum (require (oo_state ob \<in> set [''active'', ''empty'', ''unknown'']) execution_invalid) (\<lambda>_.
      bind_sum (validate_occupancy sha r ob) (\<lambda>_.
      Inr \<lparr>dx_record = r, dx_observation = ob\<rparr>))))))))"

definition execution_id_of :: "drain_execution \<Rightarrow> string" where
  "execution_id_of e = er_execution_id (dx_record e)"

fun validate_executions ::
  "(string \<Rightarrow> string) \<Rightarrow> abs_path \<Rightarrow> (string \<Rightarrow> int option) \<Rightarrow> string list \<Rightarrow> drain_execution list \<Rightarrow>
   execution_failure + drain_execution list" where
  "validate_executions sha cwd dates seen [] = Inr []"
| "validate_executions sha cwd dates seen (e # es) =
     bind_sum (validate_execution sha cwd dates e) (\<lambda>checked.
     if execution_id_of checked \<in> set seen then Inl execution_invalid
     else bind_sum (validate_executions sha cwd dates (execution_id_of checked # seen) es) (\<lambda>rest. Inr (checked # rest)))"


definition validate_intent ::
  "(string \<Rightarrow> string) \<Rightarrow> abs_path \<Rightarrow> (string \<Rightarrow> int option) \<Rightarrow> drain_intent \<Rightarrow> execution_failure + drain_intent" where
  "validate_intent sha cwd dates i =
     bind_sum (require (drain_operation (di_operation i) \<and> drain_policy (di_policy i)) execution_invalid) (\<lambda>_.
     bind_sum (require (case di_observed_epoch i of None \<Rightarrow> True | Some e \<Rightarrow> is_epoch e) execution_invalid) (\<lambda>_.
     bind_sum (require (case di_idempotency_key i of None \<Rightarrow> True | Some k \<Rightarrow> is_bounded_text MAX_FENCE_LENGTH k) execution_invalid) (\<lambda>_.
     bind_sum (validate_executions sha cwd dates [] (case di_executions i of None \<Rightarrow> [] | Some es \<Rightarrow> es)) (\<lambda>es.
     Inr (i\<lparr>di_executions := Some es, di_kernel_empty := Some (di_kernel_empty i = Some True)\<rparr>)))))"

definition epoch_text :: "runtime_epoch \<Rightarrow> string" where
  "epoch_text e = (case e of EpochNumber n \<Rightarrow> decimal (nat n) | EpochText s \<Rightarrow> s)"

definition fence_id :: "(string \<Rightarrow> string) \<Rightarrow> string \<Rightarrow> runtime_epoch \<Rightarrow> drain_intent \<Rightarrow> string" where
  "fence_id sha session epoch i =
     ''drain-'' @ sha (case di_idempotency_key i of Some k \<Rightarrow> k
       | None \<Rightarrow> session @ CHR '':'' # epoch_text epoch @ CHR '':'' # di_operation i)"

definition in_state :: "string \<Rightarrow> drain_execution list \<Rightarrow> string list" where
  "in_state state es = map execution_id_of (filter (\<lambda>e. oo_state (dx_observation e) = state) es)"



section \<open>The fence\<close>

definition validate_fence_shape ::
  "(string \<Rightarrow> string) \<Rightarrow> abs_path \<Rightarrow> (string \<Rightarrow> int option) \<Rightarrow> drain_fence \<Rightarrow> execution_failure + drain_fence" where
  "validate_fence_shape sha cwd dates f =
     (let check = (\<lambda>p. require p execution_invalid) in
      bind_sum (check (df_contract_id f = SESSION_EXECUTION_CONTROL_CONTRACT_ID \<and>
        df_schema_version f = SESSION_EXECUTION_CONTROL_SCHEMA_VERSION)) (\<lambda>_.
      bind_sum (check (is_bounded_text MAX_DRAIN_ID_LENGTH (df_session_id f) \<and> is_bounded_text MAX_FENCE_LENGTH (df_fence_id f))) (\<lambda>_.
      bind_sum (check (is_epoch (df_expected_epoch f) \<and> is_epoch (df_observed_epoch f) \<and> is_epoch (df_admission_epoch f))) (\<lambda>_.
      bind_sum (check (df_observed_epoch f = df_admission_epoch f)) (\<lambda>_.
      bind_sum (check (drain_operation (df_operation f) \<and> drain_policy (df_policy f) \<and> df_admission f = ''closed'')) (\<lambda>_.
      bind_sum (check (case df_idempotency_key f of None \<Rightarrow> True | Some k \<Rightarrow> is_bounded_text MAX_FENCE_LENGTH k)) (\<lambda>_.
      bind_sum (check (drain_status (df_status f) \<and> drain_next_action (df_next_action f))) (\<lambda>_.
      bind_sum (check (list_all (is_bounded_text MAX_DRAIN_ID_LENGTH) (df_active f @ df_unknown f @ df_missing f))) (\<lambda>_.
      bind_sum (validate_executions sha cwd dates [] (df_executions f)) (\<lambda>es.
      Inr (f\<lparr>df_executions := es\<rparr>)))))))))))"

definition completion_for :: "drain_fence \<Rightarrow> drain_completion" where
  "completion_for f =
     (let active = in_state ''active'' (df_executions f); unknown = in_state ''unknown'' (df_executions f); missing = df_missing f;
          complete = (df_completion_observed f \<and> active = [] \<and> unknown = [] \<and> missing = [] \<and> df_kernel_empty f);
          next_action =
            (if complete then ''finalize-lifecycle''
             else if unknown \<noteq> [] \<or> missing \<noteq> [] then ''reobserve-drain''
             else if active \<noteq> [] then (if df_policy f = ''terminate'' then ''terminate-owned-executions'' else ''wait-for-drain'')
             else if \<not> df_kernel_empty f then ''reobserve-drain''
             else if df_policy f = ''terminate'' then ''terminate-owned-executions'' else ''wait-for-drain'');
          status = (if complete then ''drained'' else if unknown \<noteq> [] \<or> missing \<noteq> [] then ''blocked'' else ''waiting'') in
      \<lparr>dc_fence = f\<lparr>df_status := status, df_active := active, df_unknown := unknown, df_missing := missing,
         df_next_action := next_action\<rparr>,
       dc_completed = complete, dc_safe_to_finalize = complete, dc_next_action = next_action, dc_active = active,
       dc_unknown = unknown, dc_missing = missing\<rparr>)"

text \<open>Whether the closure of the admission advanced the epoch\<close>

definition epoch_advanced :: "runtime_epoch \<Rightarrow> runtime_epoch \<Rightarrow> bool" where
  "epoch_advanced expected epoch \<longleftrightarrow>
     (case expected of
        EpochNumber n \<Rightarrow> (case epoch of EpochNumber m \<Rightarrow> n < m | EpochText _ \<Rightarrow> False)
      | EpochText _ \<Rightarrow> epoch \<noteq> expected)"

definition new_fence :: "(string \<Rightarrow> string) \<Rightarrow> string \<Rightarrow> runtime_epoch \<Rightarrow> drain_intent \<Rightarrow> runtime_epoch \<Rightarrow> drain_fence" where
  "new_fence sha session expected i epoch =
     (let es = (case di_executions i of None \<Rightarrow> [] | Some es \<Rightarrow> es) in
      \<lparr>df_contract_id = SESSION_EXECUTION_CONTROL_CONTRACT_ID, df_schema_version = SESSION_EXECUTION_CONTROL_SCHEMA_VERSION,
       df_session_id = session, df_fence_id = fence_id sha session expected i, df_expected_epoch = expected,
       df_observed_epoch = epoch, df_operation = di_operation i, df_policy = di_policy i, df_admission_epoch = epoch,
       df_admission = ''closed'', df_completion_observed = False, df_status = ''draining'', df_executions = es,
       df_active = in_state ''active'' es, df_unknown = in_state ''unknown'' es, df_missing = [],
       df_kernel_empty = (di_kernel_empty i = Some True), df_next_action = ''reobserve-drain'',
       df_idempotency_key = di_idempotency_key i\<rparr>)"

definition begin_execution_drain ::
  "(string \<Rightarrow> string) \<Rightarrow> abs_path \<Rightarrow> (string \<Rightarrow> int option) \<Rightarrow> string \<Rightarrow> runtime_epoch \<Rightarrow> drain_intent \<Rightarrow>
   's admission_authority option \<Rightarrow> 's \<Rightarrow> (execution_failure + drain_fence) \<times> 's" where
  "begin_execution_drain sha cwd dates session expected intent authority s =
     (if \<not> is_bounded_text MAX_DRAIN_ID_LENGTH session \<or> \<not> is_epoch expected then (Inl execution_invalid, s)
      else
      case validate_intent sha cwd dates intent of Inl e \<Rightarrow> (Inl e, s)
      | Inr i \<Rightarrow>
      if (case di_observed_epoch i of None \<Rightarrow> False | Some e \<Rightarrow> e \<noteq> expected) then (Inl control_error, s)
      else
      case authority of None \<Rightarrow> (Inl control_error, s)
      | Some close \<Rightarrow>
      (case close \<lparr>dr_session_id = session, dr_expected_epoch = expected, dr_fence_id = fence_id sha session expected i,
          dr_operation = di_operation i\<rparr> s of
         (None, s') \<Rightarrow> (Inl control_error, s')
       | (Some (Inl e), s') \<Rightarrow> (Inl e, s')
       | (Some (Inr (admission, epoch)), s') \<Rightarrow>
           if admission \<noteq> ''closed'' \<or> \<not> is_epoch epoch \<or> \<not> epoch_advanced expected epoch then (Inl control_error, s')
           else (Inr (new_fence sha session expected i epoch), s')))"


definition finalize_execution_drain ::
  "(string \<Rightarrow> string) \<Rightarrow> abs_path \<Rightarrow> (string \<Rightarrow> int option) \<Rightarrow> drain_fence \<Rightarrow> execution_failure + execution_finalization" where
  "finalize_execution_drain sha cwd dates fence =
     bind_sum (validate_fence_shape sha cwd dates fence) (\<lambda>f.
     bind_sum (require (dc_safe_to_finalize (completion_for f)) control_error) (\<lambda>_.
     Inr \<lparr>dz_session_id = df_session_id f, dz_fence_id = df_fence_id f, dz_operation = df_operation f,
          dz_expected_epoch = df_expected_epoch f, dz_admission_epoch = df_admission_epoch f\<rparr>))"

section \<open>What is validated is kept\<close>

lemma validate_execution_same: "validate_execution sha cwd dates e = Inr e' \<Longrightarrow> e' = e"
  by (auto simp: validate_execution_def Let_def validate_execution_json bind_sum_eq_Inr split: if_split_asm)

definition execution_evidence_ok :: "(string \<Rightarrow> string) \<Rightarrow> abs_path \<Rightarrow> (string \<Rightarrow> int option) \<Rightarrow> drain_execution list \<Rightarrow> bool" where
  "execution_evidence_ok sha cwd dates es \<longleftrightarrow>
     (\<forall>e \<in> set es. validate_execution sha cwd dates e = Inr e) \<and> distinct (map execution_id_of es)"

lemma validate_executions_iff:
  "validate_executions sha cwd dates seen es = Inr es' \<longleftrightarrow>
   es' = es \<and> execution_evidence_ok sha cwd dates es \<and> set seen \<inter> set (map execution_id_of es) = {}"
proof (induction es arbitrary: seen es')
  case (Cons e es)
  show ?case
  proof (cases "validate_execution sha cwd dates e")
    case (Inr x)
    with validate_execution_same [OF Inr] show ?thesis
      by (auto simp: Cons.IH execution_evidence_ok_def bind_sum_eq_Inr)
  qed (simp add: execution_evidence_ok_def)
qed (auto simp: execution_evidence_ok_def)


lemma evidence_id: "validate_execution sha cwd dates e = Inr e \<Longrightarrow> is_bounded_text MAX_DRAIN_ID_LENGTH (execution_id_of e)"
  by (auto simp: validate_execution_def Let_def bind_sum_eq_Inr execution_id_of_def validate_execution_json split: if_split_asm)



section \<open>Merging\<close>



section \<open>The course of a drain\<close>


text \<open>The registry has closed the admission of launches under this fence and has advanced the epoch.\<close>

definition admission_closed :: "'s admission_authority option \<Rightarrow> drain_fence \<Rightarrow> bool" where
  "admission_closed authority f \<longleftrightarrow>
     (\<exists>close s s'. authority = Some close \<and> epoch_advanced (df_expected_epoch f) (df_admission_epoch f) \<and>
        close \<lparr>dr_session_id = df_session_id f, dr_expected_epoch = df_expected_epoch f, dr_fence_id = df_fence_id f,
          dr_operation = df_operation f\<rparr> s = (Some (Inr (''closed'', df_admission_epoch f)), s'))"

lemma begin_closes:
  assumes "begin_execution_drain sha cwd dates session expected intent authority s = (Inr f, s')"
  shows "admission_closed authority f \<and> \<not> df_completion_observed f"
  using assms
  unfolding begin_execution_drain_def
  by (auto simp: new_fence_def Let_def admission_closed_def split: if_split_asm sum.split_asm option.split_asm prod.split_asm; blast)

lemma validate_fence_same: "validate_fence_shape sha cwd dates f = Inr f' \<Longrightarrow> f' = f \<and> execution_evidence_ok sha cwd dates (df_executions f)"
  by (auto simp: validate_fence_shape_def Let_def bind_sum_eq_Inr validate_executions_iff)

lemma completion_fence [simp]:
  "df_session_id (dc_fence (completion_for f)) = df_session_id f" "df_fence_id (dc_fence (completion_for f)) = df_fence_id f"
  "df_expected_epoch (dc_fence (completion_for f)) = df_expected_epoch f"
  "df_admission_epoch (dc_fence (completion_for f)) = df_admission_epoch f"
  "df_operation (dc_fence (completion_for f)) = df_operation f" "df_executions (dc_fence (completion_for f)) = df_executions f"
  "df_missing (dc_fence (completion_for f)) = df_missing f" "df_kernel_empty (dc_fence (completion_for f)) = df_kernel_empty f"
  "df_completion_observed (dc_fence (completion_for f)) = df_completion_observed f"
  by (simp_all add: completion_for_def Let_def)


lemma finalize_Inr:
  assumes "finalize_execution_drain sha cwd dates f = Inr z"
  shows "df_completion_observed f \<and> df_missing f = [] \<and> df_kernel_empty f \<and>
    (\<forall>e\<in>set (df_executions f). oo_state (dx_observation e) \<notin> {''active'', ''unknown''}) \<and>
    z = \<lparr>dz_session_id = df_session_id f, dz_fence_id = df_fence_id f, dz_operation = df_operation f,
          dz_expected_epoch = df_expected_epoch f, dz_admission_epoch = df_admission_epoch f\<rparr>"
  using assms
  by (auto simp: finalize_execution_drain_def bind_sum_eq_Inr completion_for_def Let_def in_state_def filter_empty_conv
      dest!: validate_fence_same)



section \<open>Properties\<close>














text \<open>A fence is never finalized on the reports it was begun with: an observation must follow.\<close>

lemma unobserved_fence_is_kept:
  assumes "begin_execution_drain sha cwd dates session expected intent authority s = (Inr f, s')"
  shows "finalize_execution_drain sha cwd dates f \<noteq> Inr z"
  using begin_closes [OF assms] finalize_Inr by blast

end
