(* ===== verification/Spec2Isabelle.thy ===== *)
theory Spec2Isabelle
  imports Prelude Worklist GlobOverlap Errors FileSystem ClaimResources ResourceClaims
    OperationAuthorization CoordinationTransactions Seccomp Json SessionLifecycle SessionParking LifecycleActions
    RegistryLock ControlPool CanonicalJson FileOperations FileOperationReceipts FileOperationExecution
    MergeDecision ExecutionAdmission ResourceCoordination FilesystemPolicy WorkingSet SessionRetention
    ResourceHandoff RegistryState RegistryClaims RetentionRegistry RegistrySample ParkAndResume RegistryHandoff
    RegistryHistory ParkHistory HandoffHistory ExecutionRecord CgroupScopes ProcessObservation ExecutionControl
begin

text \<open>
  Nawabari coordinates parallel work of several sessions on one Git repository. A session owns a
  worktree and claims repository paths; a registry document, changed only under a lock, records
  sessions, claims and the receipts of file operations; commands and a local control server ask it
  what a session may do next. This library models the parts that decide, in the order in which they
  rest on each other. Paths are given from src/, the checkout of the repository.

  \<^bold>\<open>How the program is written down.\<close> A TypeScript function that may throw returns a sum whose left
  side is the thrown error (theory Prelude). An \<open>unknown\<close> value that a validator inspects is a \<open>json\<close>
  (theory Json). A loop over a worklist that is not structurally decreasing is a
  \<open>partial_function (option)\<close> (theory Worklist), where \<open>None\<close> would be a loop that does not end, and it
  is proved to return. State is passed explicitly; programs that interleave are a step function on
  a state with one program counter per process, and what is claimed holds of all reachable states.

  \<^bold>\<open>Claims.\<close> GlobOverlap translates both implementations of the search for a path that two glob
  patterns select (segmentPatternsOverlap and globPatternsOverlap of src/src/resource-claims.ts and
  src/src/resource-coordination.ts); the searches return on every input, decide whether a common path
  exists, and agree with each other. FileSystem is the view the code has of a worktree (lstat,
  readdir, realpath), a record of functions with the laws \<open>fs_lawful\<close> and \<open>fs_exact\<close> that a concrete
  tree satisfies. ClaimResources is the rest of the syntax and physical resolution of a claimed
  resource: modes, the matrices, the walk along existing entries, the scan for symbolic links with its
  bounds of entries, claim identifiers over a hash that is a parameter. ResourceClaims has creation,
  ordering, overlap, conflict and the evidence for coordinated writing. The abstract
  specification of overlap is \<open>selects_common\<close>: some repository path is selected by both claims.

  \<^bold>\<open>Authorization and transactions.\<close> OperationAuthorization is the table of operations and required
  access (src/src/operation-authorization.ts). CoordinationTransactions plans and applies changes of the
  claim set (planCoordinationTransaction and its parts in src/src/coordination-transactions.ts) and
  decides single operations (authorizeCoordinationOperation). \<open>reachable_registry\<close> are the claim sets
  that applied plans produce; they are consistent, generations count changes, shrinking waits for
  executions to drain, and two sessions are never both authorized on a path unless they write with
  coordinated claims in different worktrees.

  \<^bold>\<open>Session lifecycle.\<close> SessionLifecycle translates guards, transitions, classification and the static
  transition table (src/src/state/session/guards.ts, machine.ts, types.ts and
  src/src/session-lifecycle-classification.ts). The interpreter of XState is a parameter with the laws
  \<open>xstate_documented\<close>; a reference interpreter satisfies them. SessionParking is
  src/src/session-parking.ts, LifecycleActions is src/src/session-lifecycle-actions.ts.

  \<^bold>\<open>Sandbox.\<close> Seccomp compiles the system call filter (src/src/domain/sandbox-seccomp.ts) on 32-bit words and
  runs it on a model of the classic BPF machine that loads it; the compiled program decides as the
  policy that lists denied calls, and its byte encoding decodes to itself.

  \<^bold>\<open>Registry lock.\<close> RegistryLock is src/src/registry/lock.ts as the interleaving of the system calls of
  any number of processes, one program counter value for each point between two calls, with process
  death, reuse of process ids and a clock. The lock is exclusive as long as no process dies inside a
  recovery (\<open>orderly_event\<close>), and two theorems exhibit where the code departs from what its comments
  promise. A removal of the reclaim marker may fail; the other removals succeed, and a recursive removal is one step.
  The asynchronous variants of the methods make the same calls in the same order.

  \<^bold>\<open>Control server.\<close> ControlPool is the class ControlRequestPool of src/src/control-server-request-pool.ts:
  two worker slots, four queued requests, scheduling, failure of a worker and shutdown. \<open>schedule\<close>
  and \<open>failSlot\<close> call each other; the nesting is bounded by the number of live slots, which is the room
  given to \<open>schedule_loop\<close>, and \<open>schedule_loop_returns\<close> shows that it is enough.

  \<^bold>\<open>File operations.\<close> CanonicalJson, FileOperations and FileOperationReceipts are
  src/src/registry/file-operation-record.ts: the canonical text of a JSON value, the validation of
  receipts, reservation, the apply boundary, reconciliation, compaction and persistence.
  FileOperationExecution is their use by executeFileOperation of src/src/session-registry.ts: two
  transactions around the physical operation, interleaved between any number of executions, with a
  log of physical operations and evictions. Unicode normalization, sha256, dates and locale order are
  the parameter \<open>file_env\<close> with the laws \<open>file_env_documented\<close>.

  \<^bold>\<open>Decisions about files and launches.\<close> MergeDecision is the three-way preview of
  src/src/resource-merge-decision.ts against the textbook merge, ExecutionAdmission the admission of a launch
  (src/src/domain/session-admission-decision.ts), ResourceCoordination the overlap graph of
  src/src/resource-coordination.ts (when the bounds are not met, its edges are exactly the pairs of nodes
  of different sessions, not known to be in different repositories, with a common path), FilesystemPolicy the decision on one path
  (src/src/domain/filesystem-policy-decision.ts). WorkingSet is src/src/working-set.ts: an execution scope and a
  candidate set compose to an effective working set, which expands under the same scope.

  \<^bold>\<open>The registry.\<close> RegistryState is the registry document of src/src/session-registry.ts: the validators
  that every read applies (parseRegistry), the replacement of the document by a write (writeUnsafe and
  RepositoryStateBoundary), the lock, the checks that operations share. What an operation sees of the
  outside (clock, lock, Git, processes, the outcome of the file replacement) is a record of functions of
  a counter of observations, so two observations of one operation may differ. RegistryClaims has the
  four claim commands. SessionRetention is the client of src/src/session-retention.ts, proved inside the
  locale \<open>retention_authority\<close>; RetentionRegistry has the registry's implementation of that interface
  (observe, fence, drain, revalidate, atomicPark, validateResume, atomicResume, reobserve) and
  discharges its laws, with a calculus of triples \<open>holds\<close> for calls that may throw. ParkAndResume states
  what follows for a park and a resume through the registry, RegistryHistory what holds over any
  sequence of operations (\<open>registry_run\<close>): the document stays readable and consistent, the generation
  tells claim sets apart, and two ways in which the registry gets stuck. ParkHistory puts steps of other processes
  (\<open>disturbed\<close>) between the calls of a park and leaves the release of the lock free to fail: the park is still all
  or nothing, with the one exception that a failing release hides a commit. Validations of coordinated writers take the
  facts of all pairs at one moment of each validation; the source observes worktree after worktree. RegistrySample is
  the document the witnesses run on.

  \<^bold>\<open>Handoffs.\<close> ResourceHandoff is src/src/resource-handoff.ts: the validation of a snapshot, and the
  client that fences and drains the executions of the source and then asks an authority for one commit,
  proved inside the locale \<open>handoff_authority\<close>. RegistryHandoff has the registry's snapshot and commit
  (with the receipt that makes a retry idempotent) and discharges the laws. HandoffHistory composes the
  two while other processes take steps of RegistryHistory: a reported transfer moves one justified claim and
  nothing else, a retry changes nothing, a refusal leaves the registry alone.

  \<^bold>\<open>Execution records.\<close> ExecutionRecord is src/src/domain/session-execution-record.ts with the scope identity
  of src/src/domain/cgroups-v2.ts: the validation of a record, its persisted shape, the reservation before a
  payload, the transitions of \<open>execution_step\<close>, and the observation that says whether the recorded process
  is the one that runs. CgroupScopes is the rest of src/src/domain/cgroups-v2.ts over a file system that is a parameter, with
  a log of what was read and written: a scope is made afresh, terminated only under its own name, and reported empty
  only when the kernel files just said so. ProcessObservation (src/src/domain/session-process-observation.ts) observes and
  terminates one owned execution by its lease; ExecutionControl (src/src/domain/session-execution-control.ts) is the drain
  of a session, from the fence that closes the admission of launches over observations (\<open>drain_history\<close>) to the
  finalization that allows the session to be closed.

  \<^bold>\<open>Not modelled.\<close> Git commands (src/src/git.ts), the launcher and the processes of the sandbox
  (src/src/domain/sandbox.ts, sandbox-launcher.ts) and the HTTP transport are input and output around the
  decisions. The command line (src/src/cli.ts), the terminal and browser interface (src/src/ui) and
  the contract documents (src/src/contract.ts) render or parse what the modelled parts decide. Of the session
  registry (src/src/session-registry.ts) the file operations, the claim commands, the transactions and the
  retention authority are modelled; creating, provisioning, committing, pushing, closing and discarding
  a session drive Git and are not. Error
  messages are kept where a decision reads them and dropped otherwise; details for display are
  dropped everywhere. Strings hold code units up to 255; numbers in JSON are integers.
\<close>

end
